(* ===== verification/Prelude.thy ===== *)
theory Prelude
  imports Main "HOL-Library.Word" "HOL-Library.Signed_Division"
begin

unbundle bit_operations_syntax

text \<open>
  What every component of the development shares: the types of Go values (bytes, byte slices,
  errors), the byte orders of \<open>encoding/binary\<close>, the conversions between Go strings and byte
  slices, the simp collections of the development, and two interfaces that several components
  implement: a byte codec (\<open>prefix_codec\<close>) and a transition system with an invariant
  (\<open>step_invariant\<close>).
\<close>

named_theorems codec_simps "round trips and lengths of encoders and decoders"
named_theorems size_bounds "bounds on sizes, lengths and counters"

section \<open>Bytes and strings\<close>

type_synonym byte = "8 word"
type_synonym bytes = "byte list"

text \<open>A Go string is a byte sequence; \<open>[]byte(s)\<close> and \<open>string(b)\<close> copy it unchanged.\<close>

definition bytes_of_string :: "string \<Rightarrow> bytes" where
  "bytes_of_string s = map (\<lambda>c. word_of_nat (of_char c)) s"

definition string_of_bytes :: "bytes \<Rightarrow> string" where
  "string_of_bytes b = map (\<lambda>w. char_of (unat w)) b"

section \<open>Machine integers\<close>

text \<open>
  Go's signed integers wrap around. A model that keeps a value as \<open>int\<close> writes the wrap out with
  \<open>int64\<close> (\<open>time.Duration\<close> and the counters) or \<open>int32\<close> (the scheduler's loads). Division is
  \<open>sdiv\<close>, which truncates towards zero as Go's does.
\<close>

definition int64 :: "int \<Rightarrow> int" where
  "int64 x = (x + 2 ^ 63) mod 2 ^ 64 - 2 ^ 63"

definition int32 :: "int \<Rightarrow> int" where
  "int32 x = (x + 2 ^ 31) mod 2 ^ 32 - 2 ^ 31"

section \<open>Errors\<close>

text \<open>
  A Go error value. \<open>Sentinel\<close> is a package-level variable that callers compare against
  (\<open>io.EOF\<close>), \<open>Msg\<close> an error created at the point of return, \<open>Wrap\<close> the result of
  \<open>fmt.Errorf\<close> with one or several \<open>%w\<close> verbs, and \<open>Panic\<close> a run-time panic, which no
  caller in the modelled code recovers from. The numbers a message prints are left out of it.
\<close>

datatype go_error =
    Sentinel string
  | Msg string
  | Wrap string "go_error list"
  | Panic string

type_synonym 'a result = "go_error + 'a"

definition io_EOF :: go_error where
  "io_EOF = Sentinel ''EOF''"

definition io_ErrUnexpectedEOF :: go_error where
  "io_ErrUnexpectedEOF = Sentinel ''unexpected EOF''"

definition io_ErrShortWrite :: go_error where
  "io_ErrShortWrite = Sentinel ''short write''"

definition io_ErrClosedPipe :: go_error where
  "io_ErrClosedPipe = Sentinel ''io: read/write on closed pipe''"

text \<open>\<open>errors.Is\<close>: the error itself or anything in its tree of wrapped errors.\<close>

fun errors_is :: "go_error \<Rightarrow> go_error \<Rightarrow> bool" where
  "errors_is (Wrap m es) t = (Wrap m es = t \<or> (\<exists>e \<in> set es. errors_is e t))"
| "errors_is e t = (e = t)"

section \<open>Byte order\<close>

text \<open>\<open>binary.BigEndian.PutUint16\<close>, \<open>Uint16\<close> and \<open>PutUint64\<close>.\<close>

definition put_uint16 :: "16 word \<Rightarrow> bytes" where
  "put_uint16 v = [ucast (drop_bit 8 v), ucast v]"

definition uint16_at :: "byte \<Rightarrow> byte \<Rightarrow> 16 word" where
  "uint16_at a b = push_bit 8 (ucast a) OR ucast b"

definition put_uint64 :: "64 word \<Rightarrow> bytes" where
  "put_uint64 v = map (\<lambda>i. ucast (drop_bit (8 * i) v)) [7, 6, 5, 4, 3, 2, 1, 0]"

section \<open>Library lemmas\<close>

lemma string_of_bytes_of_string [simp, codec_simps]:
  "string_of_bytes (bytes_of_string s) = s"
proof -
  have "char_of (unat (word_of_nat (of_char c) :: byte)) = c" for c :: char
  proof -
    have "(of_char c :: nat) < 256" by simp
    then show ?thesis by (simp add: unat_of_nat)
  qed
  then show ?thesis by (simp add: bytes_of_string_def string_of_bytes_def comp_def)
qed

lemma bytes_of_string_of_bytes [simp, codec_simps]:
  "bytes_of_string (string_of_bytes b) = b"
proof -
  have "word_of_nat (of_char (char_of (unat w) :: char)) = w" for w :: byte
  proof -
    have "unat w < 256" using unsigned_less [of w] by simp
    then show ?thesis by simp
  qed
  then show ?thesis by (simp add: bytes_of_string_def string_of_bytes_def comp_def)
qed

lemma length_bytes_of_string [simp]: "length (bytes_of_string s) = length s"
  by (simp add: bytes_of_string_def)

lemma length_string_of_bytes [simp]: "length (string_of_bytes b) = length b"
  by (simp add: string_of_bytes_def)

lemma bytes_of_string_inj: "bytes_of_string s = bytes_of_string t \<longleftrightarrow> s = t"
  by (metis string_of_bytes_of_string)

lemma bytes_of_string_append: "bytes_of_string (s @ t) = bytes_of_string s @ bytes_of_string t"
  by (simp add: bytes_of_string_def)

lemma int64_id [simp]: "- (2 ^ 63) \<le> x \<Longrightarrow> x < 2 ^ 63 \<Longrightarrow> int64 x = x"
  by (simp add: int64_def)

lemma int32_id [simp]: "- (2 ^ 31) \<le> x \<Longrightarrow> x < 2 ^ 31 \<Longrightarrow> int32 x = x"
  by (simp add: int32_def)

lemma int64_range [size_bounds]: "- (2 ^ 63) \<le> int64 x \<and> int64 x < 2 ^ 63"
  by (simp add: int64_def)

lemma int32_range [size_bounds]: "- (2 ^ 31) \<le> int32 x \<and> int32 x < 2 ^ 31"
  by (simp add: int32_def)

lemma sdiv_nonneg: "0 \<le> a \<Longrightarrow> 0 < b \<Longrightarrow> a sdiv b = a div (b :: int)"
  by (simp add: signed_divide_int_def sgn_if)

lemma length_put_uint16 [simp, codec_simps]: "length (put_uint16 v) = 2"
  by (simp add: put_uint16_def)

lemma length_put_uint64 [simp, codec_simps]: "length (put_uint64 v) = 8"
  by (simp add: put_uint64_def)

lemma byte_no_high_bit [simp]: "8 \<le> n \<Longrightarrow> \<not> bit (w :: byte) n"
  using bit_imp_le_length [of w n] by auto

lemma uint16_put: "put_uint16 (uint16_at a b) = [a, b]"
  by (auto simp: put_uint16_def uint16_at_def bit_simps intro!: bit_word_eqI)

lemma uint16_at_put [codec_simps]: "put_uint16 v = [a, b] \<Longrightarrow> uint16_at a b = v"
  by (auto simp: put_uint16_def uint16_at_def bit_simps intro!: bit_word_eqI)

lemma put_uint16_at [codec_simps]: "put_uint16 (uint16_at a b) = [a, b]"
  by (auto simp: put_uint16_def uint16_at_def bit_simps intro!: bit_word_eqI)

lemma unat_uint16_at: "unat (uint16_at a b) = 256 * unat a + unat b"
proof -
  have "uint16_at a b = push_bit 8 (ucast a) + ucast b"
    unfolding uint16_at_def
    by (rule disjunctive_add [symmetric]) (auto simp: bit_simps)
  also have "\<dots> = word_of_nat (256 * unat a + unat b)"
    by (simp add: push_bit_eq_mult)
  finally have eq: "uint16_at a b = word_of_nat (256 * unat a + unat b)" .
  have "unat a < 256" "unat b < 256" using unsigned_less [of a] unsigned_less [of b] by auto
  then have "(256 * unat a + unat b) mod 2 ^ LENGTH(16) = 256 * unat a + unat b" by simp
  then show ?thesis unfolding eq by (simp only: unat_of_nat)
qed

lemma put_uint64_inj: "put_uint64 v = put_uint64 w \<longleftrightarrow> v = w"
proof
  assume eq: "put_uint64 v = put_uint64 w"
  show "v = w"
  proof (rule bit_word_eqI)
    fix n assume n: "n < LENGTH(64)"
    have "(ucast (drop_bit (8 * i) v) :: byte) = ucast (drop_bit (8 * i) w)"
      if "i \<in> {0, 1, 2, 3, 4, 5, 6, 7}" for i
      using eq that by (auto simp: put_uint64_def)
    moreover have "n div 8 \<in> {0, 1, 2, 3, 4, 5, 6, 7}" using n by auto
    ultimately have "(ucast (drop_bit (8 * (n div 8)) v) :: byte) = ucast (drop_bit (8 * (n div 8)) w)"
      by blast
    then have "bit (ucast (drop_bit (8 * (n div 8)) v) :: byte) (n mod 8) \<longleftrightarrow>
        bit (ucast (drop_bit (8 * (n div 8)) w) :: byte) (n mod 8)"
      by simp
    then show "bit v n \<longleftrightarrow> bit w n" by (simp add: bit_simps)
  qed
qed simp

lemma errors_is_refl [simp]: "errors_is e e"
  by (cases e) auto

lemma errors_is_Wrap: "errors_is e t \<Longrightarrow> e \<in> set es \<Longrightarrow> errors_is (Wrap m es) t"
  by auto

section \<open>A prefix codec\<close>

text \<open>
  A codec whose decoder reads one item from the front of a byte string and reports how many bytes
  it used. \<open>norm\<close> is what a decoded item looks like when the encoder is allowed to ignore part of
  its argument.
\<close>

locale prefix_codec =
  fixes enc :: "'a \<Rightarrow> bytes"
    and dec :: "bytes \<Rightarrow> ('a \<times> nat) result"
    and ok :: "'a \<Rightarrow> bool"
    and norm :: "'a \<Rightarrow> 'a"
  assumes dec_enc: "ok x \<Longrightarrow> dec (enc x @ rest) = Inr (norm x, length (enc x))"
    and dec_used: "dec data = Inr (x, n) \<Longrightarrow> 0 < n \<and> n \<le> length data"
    and enc_dec: "dec data = Inr (x, n) \<Longrightarrow> enc x = take n data"
begin

text \<open>Decoding consumes at least one byte, so the decode loop of a whole buffer ends.\<close>

lemma dec_shrinks: "dec data = Inr (x, n) \<Longrightarrow> length (drop n data) < length data"
  using dec_used [of data x n] by auto

lemma enc_nonempty: "ok x \<Longrightarrow> enc x \<noteq> []"
  using dec_enc [of x "[]"] dec_used [of "enc x @ []" "norm x" "length (enc x)"] by auto

lemma dec_split: "dec data = Inr (x, n) \<Longrightarrow> data = enc x @ drop n data"
  using enc_dec [of data x n] by simp

end

section \<open>Transition systems\<close>

text \<open>
  Reachability and the invariant rule, proved once: an invariant of the initial states that every
  step keeps holds in every reachable state.
\<close>

inductive reachable_from :: "('s \<Rightarrow> bool) \<Rightarrow> ('s \<Rightarrow> 's \<Rightarrow> bool) \<Rightarrow> 's \<Rightarrow> bool"
  for init :: "'s \<Rightarrow> bool" and step :: "'s \<Rightarrow> 's \<Rightarrow> bool" where
  start: "init s \<Longrightarrow> reachable_from init step s"
| step: "reachable_from init step s \<Longrightarrow> step s t \<Longrightarrow> reachable_from init step t"

locale step_invariant =
  fixes init :: "'s \<Rightarrow> bool"
    and step :: "'s \<Rightarrow> 's \<Rightarrow> bool"
    and inv :: "'s \<Rightarrow> bool"
  assumes inv_init: "init s \<Longrightarrow> inv s"
    and inv_step: "inv s \<Longrightarrow> step s t \<Longrightarrow> inv t"
begin

lemma inv_reachable: "reachable_from init step s \<Longrightarrow> inv s"
  by (induction rule: reachable_from.induct) (auto intro: inv_init inv_step)

end

end
