(* ===== verification/Config.thy ===== *)
theory Config
  imports Prelude
begin

text \<open>
  The shared configuration values (\<open>src/config\<close>): the constants the other components use, the
  base timeout and every timeout derived from it (\<open>config/timeouts.go\<close>) and the TUN MTU
  (\<open>config/tun.go\<close>). A \<open>time.Duration\<close> is a number of nanoseconds in 64 bits.
\<close>

section \<open>Constants\<close>

abbreviation Millisecond :: int where "Millisecond \<equiv> 1000000"
abbreviation Second :: int where "Second \<equiv> 1000000000"

definition MaxInt32 :: int where [simp]: "MaxInt32 = 2147483647"

definition DefaultTimeout :: int where [simp]: "DefaultTimeout = 30"
definition MinTimeout :: int where [simp]: "MinTimeout = 15"
definition MaxTimeout :: int where [simp]: "MaxTimeout = 60"
definition MaxConnCountMax :: int where [simp]: "MaxConnCountMax = 64"
definition MaxStreamThreshold :: int where [simp]: "MaxStreamThreshold = 64"
definition DefaultConnMaxBytes :: int where [simp]: "DefaultConnMaxBytes = 256 * 1024 * 1024"
definition DefaultBatchWindowMS :: int where [simp]: "DefaultBatchWindowMS = 3"
definition DefaultCoverBudgetCap :: int where [simp]: "DefaultCoverBudgetCap = 16 * 1024"

definition HeavyStreamThresholdBytes :: int where [simp]: "HeavyStreamThresholdBytes = 1 * 1024 * 1024"
definition HeavyStreamSlowThresholdBytes :: int where [simp]: "HeavyStreamSlowThresholdBytes = 300 * 1024"
definition HeavyStreamMinAge :: int where [simp]: "HeavyStreamMinAge = 5 * Second"

definition HealthCheckInterval :: int where [simp]: "HealthCheckInterval = 5 * Second"
definition DegradedThroughputThreshold :: int where [simp]: "DegradedThroughputThreshold = 80 * 1024"
definition DegradedPersistCycles :: int where [simp]: "DegradedPersistCycles = 3"
definition DegradedRecoverCycles :: int where [simp]: "DegradedRecoverCycles = 2"
definition SlowRTTWarnThreshold :: int where [simp]: "SlowRTTWarnThreshold = 500 * Millisecond"

definition ProbeConfirmCycles :: int where [simp]: "ProbeConfirmCycles = 2"
definition ProbeCooldown :: int where [simp]: "ProbeCooldown = 15 * Second"
definition ProbeMaxPerInterval :: nat where [simp]: "ProbeMaxPerInterval = 2"
definition ProbeHoldWindow :: int where
  [simp]: "ProbeHoldWindow = 4 * DegradedPersistCycles * HealthCheckInterval"
definition ProbeMaxBackoff :: int where [simp]: "ProbeMaxBackoff = 10 * 60 * Second"

definition SuspendDivergenceThreshold :: int where [simp]: "SuspendDivergenceThreshold = 30 * Second"

definition EndpointTCP :: string where [simp]: "EndpointTCP = ''/v3/tcp''"
definition EndpointUDP :: string where [simp]: "EndpointUDP = ''/v3/udp''"
definition EndpointICMP :: string where [simp]: "EndpointICMP = ''/v3/icmp''"
definition EndpointProbe :: string where [simp]: "EndpointProbe = ''/v3/probe''"

section \<open>Timeouts\<close>

definition NormalizeTimeout :: "int \<Rightarrow> int" where
  "NormalizeTimeout sec = (if sec \<le> 0 then DefaultTimeout else min (max sec MinTimeout) MaxTimeout)"

definition TimeoutDuration :: "int \<Rightarrow> int" where
  "TimeoutDuration sec = int64 (NormalizeTimeout sec * Second)"

definition StreamIdleTimeout :: "int \<Rightarrow> int" where
  "StreamIdleTimeout base = int64 (8 * base)"

definition IdleConnTimeout :: "int \<Rightarrow> int" where
  "IdleConnTimeout base = int64 (6 * base)"

definition ConnLifetime :: "int \<Rightarrow> int" where
  "ConnLifetime base = int64 (12 * base)"

definition UDPIdleTimeout :: "int \<Rightarrow> int" where
  "UDPIdleTimeout base = int64 (2 * base)"

definition DialTimeout :: "int \<Rightarrow> int" where
  "DialTimeout base = min (max (base sdiv 3) (3 * Second)) (15 * Second)"

record Timeouts =
  tBase :: int
  tDial :: int
  tStreamIdle :: int
  tUDPIdle :: int
  tDNSResp :: int
  tIdleConn :: int
  tConnLifetime :: int

definition NewTimeouts :: "int \<Rightarrow> Timeouts" where
  "NewTimeouts b =
     (let base = (if b \<le> 0 then int64 (DefaultTimeout * Second) else b)
      in \<lparr>tBase = base, tDial = DialTimeout base, tStreamIdle = StreamIdleTimeout base,
          tUDPIdle = UDPIdleTimeout base, tDNSResp = base sdiv 3,
          tIdleConn = IdleConnTimeout base, tConnLifetime = ConnLifetime base\<rparr>)"

text \<open>
  \<open>Timeouts.Normalize\<close>: the base is filled first, every other statement fills one field from it.
\<close>

definition Timeouts_Normalize :: "Timeouts \<Rightarrow> Timeouts" where
  "Timeouts_Normalize t =
     (let base = (if tBase t \<le> 0 then TimeoutDuration 0 else tBase t)
      in \<lparr>tBase = base,
          tDial = (if tDial t \<le> 0 then DialTimeout base else tDial t),
          tStreamIdle = (if tStreamIdle t \<le> 0 then StreamIdleTimeout base else tStreamIdle t),
          tUDPIdle = (if tUDPIdle t \<le> 0 then UDPIdleTimeout base else tUDPIdle t),
          tDNSResp = (if tDNSResp t \<le> 0 then base sdiv 3 else tDNSResp t),
          tIdleConn = (if tIdleConn t \<le> 0 then IdleConnTimeout base else tIdleConn t),
          tConnLifetime = (if tConnLifetime t \<le> 0 then ConnLifetime base else tConnLifetime t)\<rparr>)"

section \<open>TUN MTU\<close>

definition DefaultTunMTU :: int where [simp]: "DefaultTunMTU = 1500"
definition MinTunMTU :: int where [simp]: "MinTunMTU = 1280"
definition MaxTunMTU :: int where [simp]: "MaxTunMTU = 9000"

definition NormalizeTunMTU :: "int \<Rightarrow> int" where
  "NormalizeTunMTU mtu = (if mtu \<le> 0 then DefaultTunMTU else min (max mtu MinTunMTU) MaxTunMTU)"

section \<open>Normalisers\<close>

text \<open>
  Every normalisation in the program has the same contract: a second application changes nothing
  and the result is acceptable; values that are acceptable already are kept.
\<close>

locale normaliser =
  fixes norm :: "'a \<Rightarrow> 'a"
    and good :: "'a \<Rightarrow> bool"
  assumes good_norm: "good (norm x)"
    and norm_good: "good x \<Longrightarrow> norm x = x"
begin

lemma norm_idem: "norm (norm x) = norm x"
  by (rule norm_good) (rule good_norm)

lemma good_iff_fixed: "good x \<longleftrightarrow> norm x = x"
  using good_norm [of x] norm_good [of x] by auto

end

interpretation base_timeout: normaliser NormalizeTimeout "\<lambda>s. 15 \<le> s \<and> s \<le> 60"
  by unfold_locales (auto simp: NormalizeTimeout_def)

interpretation tun_mtu: normaliser NormalizeTunMTU "\<lambda>m. 1280 \<le> m \<and> m \<le> 9000"
  by unfold_locales (auto simp: NormalizeTunMTU_def)

section \<open>Facts about the derived timeouts\<close>

lemma TimeoutDuration_bounds [size_bounds]:
  "15 * Second \<le> TimeoutDuration sec \<and> TimeoutDuration sec \<le> 60 * Second"
proof -
  have "15 \<le> NormalizeTimeout sec \<and> NormalizeTimeout sec \<le> 60"
    by (rule base_timeout.good_norm)
  then show ?thesis by (simp add: TimeoutDuration_def)
qed

lemma DialTimeout_bounds [size_bounds]: "3 * Second \<le> DialTimeout b \<and> DialTimeout b \<le> 15 * Second"
  by (simp add: DialTimeout_def)

text \<open>A duration whose multiples fit in 64 bits; the configured base is always one.\<close>

definition small_base :: "int \<Rightarrow> bool" where
  "small_base b \<longleftrightarrow> 3 \<le> b \<and> 12 * b < 2 ^ 63"

lemma small_base_TimeoutDuration: "small_base (TimeoutDuration sec)"
  using TimeoutDuration_bounds [of sec] by (simp add: small_base_def)

lemma derived_timeouts:
  assumes "small_base b"
  shows "StreamIdleTimeout b = 8 * b" "IdleConnTimeout b = 6 * b" "ConnLifetime b = 12 * b"
    "UDPIdleTimeout b = 2 * b" "b sdiv 3 = b div 3"
  using assms
  by (simp_all add: small_base_def StreamIdleTimeout_def IdleConnTimeout_def ConnLifetime_def
      UDPIdleTimeout_def sdiv_nonneg)

definition Timeouts_filled :: "Timeouts \<Rightarrow> bool" where
  "Timeouts_filled t \<longleftrightarrow> 0 < tBase t \<and> 0 < tDial t \<and> 0 < tStreamIdle t \<and> 0 < tUDPIdle t \<and>
     0 < tDNSResp t \<and> 0 < tIdleConn t \<and> 0 < tConnLifetime t"

lemma Timeouts_Normalize_filled: "Timeouts_filled t \<Longrightarrow> Timeouts_Normalize t = t"
  by (cases t) (simp add: Timeouts_filled_def Timeouts_Normalize_def)

section \<open>Properties\<close>

text \<open>
  For every configured timeout, valid or not, the derived timeouts are strictly ordered: dial
  and DNS below the base, the base below the UDP session idle, below the idle connection timeout,
  below the stream idle timeout, below the connection lifetime; the base lies in 15 to 60 seconds,
  the dial timeout in 3 to 15 seconds, and no multiplication overflows 64 bits.
\<close>

theorem timeouts_chain:
  "let t = NewTimeouts (TimeoutDuration sec) in
     15 * Second \<le> tBase t \<and> tBase t \<le> 60 * Second \<and>
     3 * Second \<le> tDial t \<and> tDial t \<le> tDNSResp t \<and> tDNSResp t < tBase t \<and>
     tUDPIdle t = 2 * tBase t \<and> tUDPIdle t < tIdleConn t \<and> tIdleConn t < tStreamIdle t \<and>
     tStreamIdle t < tConnLifetime t \<and> tConnLifetime t = 12 * tBase t"
proof -
  define b where "b = TimeoutDuration sec"
  have b: "15 * Second \<le> b" "b \<le> 60 * Second" "small_base b"
    unfolding b_def using TimeoutDuration_bounds small_base_TimeoutDuration by blast+
  have "DialTimeout b \<le> b div 3"
    using b by (simp add: DialTimeout_def derived_timeouts)
  moreover have "b div 3 < b" using b by simp
  ultimately show ?thesis
    using b DialTimeout_bounds [of b]
    unfolding b_def [symmetric] by (simp add: NewTimeouts_def Let_def derived_timeouts)
qed

text \<open>
  \<open>Timeouts.Normalize\<close> fills every zero field from the base exactly as \<open>NewTimeouts\<close> derives
  it, keeps every field that was given, and a second application changes nothing.
\<close>

theorem Timeouts_Normalize_spec:
  assumes "tBase t \<le> 0 \<or> small_base (tBase t)"
  shows "let n = Timeouts_Normalize t; d = NewTimeouts (tBase t) in
     Timeouts_filled n \<and> Timeouts_Normalize n = n \<and>
     tBase n = tBase d \<and>
     tDial n = (if 0 < tDial t then tDial t else tDial d) \<and>
     tStreamIdle n = (if 0 < tStreamIdle t then tStreamIdle t else tStreamIdle d) \<and>
     tUDPIdle n = (if 0 < tUDPIdle t then tUDPIdle t else tUDPIdle d) \<and>
     tDNSResp n = (if 0 < tDNSResp t then tDNSResp t else tDNSResp d) \<and>
     tIdleConn n = (if 0 < tIdleConn t then tIdleConn t else tIdleConn d) \<and>
     tConnLifetime n = (if 0 < tConnLifetime t then tConnLifetime t else tConnLifetime d)"
proof -
  define b where "b = (if tBase t \<le> 0 then TimeoutDuration 0 else tBase t)"
  have b: "small_base b"
    using assms small_base_TimeoutDuration [of 0] by (auto simp: b_def)
  have base: "tBase (NewTimeouts (tBase t)) = b"
    by (simp add: NewTimeouts_def b_def TimeoutDuration_def NormalizeTimeout_def Let_def)
  then have d: "NewTimeouts (tBase t) =
      \<lparr>tBase = b, tDial = DialTimeout b, tStreamIdle = StreamIdleTimeout b,
       tUDPIdle = UDPIdleTimeout b, tDNSResp = b sdiv 3, tIdleConn = IdleConnTimeout b,
       tConnLifetime = ConnLifetime b\<rparr>"
    by (simp add: NewTimeouts_def Let_def)
  have "0 < b div 3"
    using b by (simp add: small_base_def pos_imp_zdiv_pos_iff)
  then have filled: "Timeouts_filled (Timeouts_Normalize t)"
    using b DialTimeout_bounds [of b] derived_timeouts [OF b]
    unfolding Timeouts_filled_def Timeouts_Normalize_def b_def [symmetric]
    by (simp add: Let_def small_base_def)
  then have idem: "Timeouts_Normalize (Timeouts_Normalize t) = Timeouts_Normalize t"
    by (rule Timeouts_Normalize_filled)
  show ?thesis
    unfolding Let_def d
    by (intro conjI; (rule filled | rule idem | simp add: Timeouts_Normalize_def b_def [symmetric] Let_def))
qed

theorem Timeouts_Normalize_spec_witness:
  "Timeouts_filled (Timeouts_Normalize
     \<lparr>tBase = 30 * Second, tDial = 0, tStreamIdle = 7, tUDPIdle = 0, tDNSResp = 0, tIdleConn = 0,
      tConnLifetime = 0\<rparr>)"
  using Timeouts_Normalize_spec [of "\<lparr>tBase = 30 * Second, tDial = 0, tStreamIdle = 7, tUDPIdle = 0,
     tDNSResp = 0, tIdleConn = 0, tConnLifetime = 0\<rparr>"]
  by (simp add: Let_def small_base_def)

end
