(* ===== verification/Protocol.thy ===== *)
theory Protocol
  imports Config
begin

text \<open>
  The application frame format (\<open>src/protocol/frame.go\<close>): frame types, the handshake payload, the
  frame encoder and decoder, and the size constants the crypto and shaping layers share. The frame
  encoder and decoder are an instance of \<open>prefix_codec\<close>, through which the record layer uses them.
\<close>

section \<open>Constants\<close>

type_synonym FrameType = byte

definition FrameDATA :: FrameType where [simp]: "FrameDATA = 0x0"
definition FrameDATAGRAM :: FrameType where [simp]: "FrameDATAGRAM = 0x1"
definition FrameFIN :: FrameType where [simp]: "FrameFIN = 0x2"
definition FrameRST :: FrameType where [simp]: "FrameRST = 0x3"
definition FramePADDING :: FrameType where [simp]: "FramePADDING = 0x4"
definition FrameCOVER :: FrameType where [simp]: "FrameCOVER = 0x5"
definition FrameHANDSHAKE :: FrameType where [simp]: "FrameHANDSHAKE = 0x6"

definition FrameHeaderSize :: nat where [simp]: "FrameHeaderSize = 3"
definition Version3 :: byte where [simp]: "Version3 = 3"

type_synonym Proto = byte

definition ProtoTCP :: Proto where [simp]: "ProtoTCP = 1"
definition ProtoUDP :: Proto where [simp]: "ProtoUDP = 2"
definition ProtoICMP :: Proto where [simp]: "ProtoICMP = 3"

definition Proto_String :: "Proto \<Rightarrow> string" where
  "Proto_String p = (if p = ProtoTCP then ''tcp'' else if p = ProtoUDP then ''udp''
     else if p = ProtoICMP then ''icmp'' else ''unknown'')"

type_synonym Method = byte

definition MethodAES256GCM :: Method where [simp]: "MethodAES256GCM = 1"
definition MethodChaCha20Poly1305 :: Method where [simp]: "MethodChaCha20Poly1305 = 2"

definition MethodFromString :: "string \<Rightarrow> Method" where
  "MethodFromString s = (if s = ''aes-256-gcm'' then MethodAES256GCM
     else if s = ''chacha20-poly1305'' then MethodChaCha20Poly1305 else 0)"

definition Method_String :: "Method \<Rightarrow> string" where
  "Method_String m = (if m = MethodAES256GCM then ''aes-256-gcm''
     else if m = MethodChaCha20Poly1305 then ''chacha20-poly1305'' else ''unknown'')"

definition UDPPoolClassSize :: nat where [simp]: "UDPPoolClassSize = 16 * 1024"
definition MaxReadRecordPlaintext :: nat where [simp]: "MaxReadRecordPlaintext = 64 * 1024"
definition MaxCipherLenSize :: nat where [simp]: "MaxCipherLenSize = 3"
definition MaxTagOverhead :: nat where [simp]: "MaxTagOverhead = 16"
definition MaxWriteRecordPlaintext :: nat where
  [simp]: "MaxWriteRecordPlaintext = MaxReadRecordPlaintext - MaxCipherLenSize - MaxTagOverhead"
definition MaxUDPDataSize :: nat where
  [simp]: "MaxUDPDataSize = UDPPoolClassSize - MaxCipherLenSize - MaxTagOverhead - FrameHeaderSize"
definition MinRecordBufferSize :: nat where [simp]: "MinRecordBufferSize = 4 * 1024"

section \<open>Handshake\<close>

record Handshake =
  hVersion :: byte
  hProto :: Proto
  hMethod :: Method
  hTarget :: string

definition Handshake_Encode :: "Handshake \<Rightarrow> bytes" where
  "Handshake_Encode h = hVersion h # hProto h # hMethod h # bytes_of_string (hTarget h)"

definition DecodeHandshake :: "bytes \<Rightarrow> Handshake result" where
  "DecodeHandshake data =
     (if length data < 3 then Inl (Msg ''protocol: handshake too short'')
      else let h = \<lparr>hVersion = data ! 0, hProto = data ! 1, hMethod = data ! 2,
                    hTarget = string_of_bytes (drop 3 data)\<rparr>
           in if hVersion h \<noteq> Version3 then Inl (Msg ''protocol: unsupported version'')
              else Inr h)"

definition MatchesEndpoint :: "Handshake \<Rightarrow> string \<Rightarrow> bool" where
  "MatchesEndpoint h endpoint =
     (if hProto h = ProtoTCP then endpoint = EndpointTCP
      else if hProto h = ProtoUDP then endpoint = EndpointUDP
      else if hProto h = ProtoICMP then endpoint = EndpointICMP
      else False)"

section \<open>Frames\<close>

record Frame =
  fType :: FrameType
  fLength :: "16 word"
  fPayload :: bytes

definition EncodedLen :: "Frame \<Rightarrow> nat" where
  "EncodedLen f = FrameHeaderSize + unat (fLength f)"

definition DecodeFrame :: "bytes \<Rightarrow> (Frame \<times> nat) result" where
  "DecodeFrame data =
     (if length data < FrameHeaderSize then Inl io_ErrUnexpectedEOF
      else let ftype = data ! 0;
               length' = unat (uint16_at (data ! 1) (data ! 2));
               encoded = FrameHeaderSize + length'
           in if encoded > length data then Inl io_ErrUnexpectedEOF
              else Inr (\<lparr>fType = ftype, fLength = word_of_nat length',
                         fPayload = (if length' > 0
                           then take (encoded - FrameHeaderSize) (drop FrameHeaderSize data) else [])\<rparr>,
                        encoded))"

definition checkPayloadLen :: "bytes \<Rightarrow> unit result" where
  "checkPayloadLen payload =
     (if length payload > 65535 then Inl (Panic ''protocol: frame payload too large'') else Inr ())"

definition NewFrameWithPayload :: "FrameType \<Rightarrow> bytes \<Rightarrow> Frame result" where
  "NewFrameWithPayload typ payload =
     (case checkPayloadLen payload of
        Inl e \<Rightarrow> Inl e
      | Inr _ \<Rightarrow> Inr \<lparr>fType = typ, fLength = word_of_nat (length payload), fPayload = payload\<rparr>)"

definition NewFrame :: "FrameType \<Rightarrow> bytes \<Rightarrow> Frame result" where
  "NewFrame typ payload = NewFrameWithPayload typ payload"

definition NewZeroFrame :: "FrameType \<Rightarrow> 16 word \<Rightarrow> Frame" where
  "NewZeroFrame typ len = \<lparr>fType = typ, fLength = len, fPayload = replicate (unat len) 0\<rparr>"

definition NewFrameDATA :: "bytes \<Rightarrow> Frame result" where
  "NewFrameDATA data = NewFrame FrameDATA data"

definition NewFrameDATAGRAM :: "bytes \<Rightarrow> Frame result" where
  "NewFrameDATAGRAM data = NewFrame FrameDATAGRAM data"

definition NewFrameFIN :: Frame where
  "NewFrameFIN = \<lparr>fType = FrameFIN, fLength = 0, fPayload = []\<rparr>"

definition NewFrameRST :: Frame where
  "NewFrameRST = \<lparr>fType = FrameRST, fLength = 0, fPayload = []\<rparr>"

definition NewFramePADDING :: "16 word \<Rightarrow> Frame" where
  "NewFramePADDING len = NewZeroFrame FramePADDING len"

definition NewFrameHANDSHAKE :: "Handshake \<Rightarrow> Frame result" where
  "NewFrameHANDSHAKE h = NewFrame FrameHANDSHAKE (Handshake_Encode h)"

definition AppendFrame :: "bytes \<Rightarrow> Frame \<Rightarrow> bytes" where
  "AppendFrame buf f =
     buf @ (fType f # put_uint16 (word_of_nat (length (fPayload f)))) @ fPayload f"

definition EncodeFrames :: "Frame list \<Rightarrow> bytes" where
  "EncodeFrames frames = foldl AppendFrame [] frames"

section \<open>Facts about the encoder and decoder\<close>

text \<open>A frame the constructors build: the payload fits the 16-bit length field.\<close>

definition frame_fits :: "Frame \<Rightarrow> bool" where
  "frame_fits f \<longleftrightarrow> length (fPayload f) \<le> 65535"

text \<open>What a decoder returns for an encoded frame: the length field is that of the payload.\<close>

definition frame_norm :: "Frame \<Rightarrow> Frame" where
  "frame_norm f = f\<lparr>fLength := word_of_nat (length (fPayload f))\<rparr>"

lemma AppendFrame_eq: "AppendFrame buf f = buf @ AppendFrame [] f"
  by (simp add: AppendFrame_def)

lemma length_AppendFrame [simp, codec_simps]:
  "length (AppendFrame buf f) = length buf + 3 + length (fPayload f)"
  by (simp add: AppendFrame_def)

lemma EncodeFrames_concat: "EncodeFrames fs = concat (map (AppendFrame []) fs)"
proof -
  have "foldl AppendFrame buf fs = buf @ concat (map (AppendFrame []) fs)" for buf
  proof (induction fs arbitrary: buf)
    case (Cons f fs)
    then show ?case using AppendFrame_eq [of buf f] by simp
  qed simp
  then show ?thesis by (simp add: EncodeFrames_def)
qed

lemma EncodeFrames_simps [simp, codec_simps]:
  "EncodeFrames [] = []"
  "EncodeFrames (f # fs) = AppendFrame [] f @ EncodeFrames fs"
  "EncodeFrames (fs @ gs) = EncodeFrames fs @ EncodeFrames gs"
  by (simp_all add: EncodeFrames_concat)

lemma frame_norm_idem [simp]: "frame_norm (frame_norm f) = frame_norm f"
  by (simp add: frame_norm_def)

lemma frame_norm_fields [simp]:
  "fType (frame_norm f) = fType f" "fPayload (frame_norm f) = fPayload f"
  by (simp_all add: frame_norm_def)

lemma unat_payload_len:
  "frame_fits f \<Longrightarrow> unat (word_of_nat (length (fPayload f)) :: 16 word) = length (fPayload f)"
  by (simp add: frame_fits_def unat_of_nat)

lemma DecodeFrame_AppendFrame:
  assumes "frame_fits f"
  shows "DecodeFrame (AppendFrame [] f @ rest) = Inr (frame_norm f, length (AppendFrame [] f))"
proof -
  obtain t l p where f: "f = \<lparr>fType = t, fLength = l, fPayload = p\<rparr>" by (cases f)
  define w :: "16 word" where "w = word_of_nat (length p)"
  have w: "unat w = length p" using unat_payload_len [OF assms] by (simp add: w_def f)
  obtain a b where ab: "put_uint16 w = [a, b]" by (simp add: put_uint16_def)
  then have "DecodeFrame (t # put_uint16 w @ p @ rest) =
      Inr (\<lparr>fType = t, fLength = w, fPayload = p\<rparr>, 3 + length p)"
    using uint16_at_put [OF ab] w by (auto simp: DecodeFrame_def Let_def w_def)
  then show ?thesis by (simp add: f AppendFrame_def frame_norm_def w_def)
qed

lemma DecodeFrame_used: "DecodeFrame data = Inr (f, n) \<Longrightarrow> 0 < n \<and> n \<le> length data"
  by (auto simp: DecodeFrame_def Let_def split: if_splits)

lemma DecodeFrame_fits: "DecodeFrame data = Inr (f, n) \<Longrightarrow> frame_fits f \<and> frame_norm f = f"
proof -
  assume "DecodeFrame data = Inr (f, n)"
  then obtain l where "3 + unat l \<le> length data" and
    f: "f = \<lparr>fType = data ! 0, fLength = l,
          fPayload = (if 0 < unat l then take (unat l) (drop 3 data) else [])\<rparr>"
    by (auto simp: DecodeFrame_def Let_def split: if_splits)
  then have "length (fPayload f) = unat l" by auto
  moreover have "unat l < 65536" using unsigned_less [of l] by simp
  ultimately show ?thesis by (simp add: frame_fits_def frame_norm_def f)
qed

lemma DecodeFrame_exact:
  assumes "DecodeFrame data = Inr (f, n)"
  shows "AppendFrame [] f = take n data"
proof -
  from assms have len: "3 \<le> length data"
    by (simp add: DecodeFrame_def split: if_splits)
  then obtain a b c rest where data: "data = a # b # c # rest"
    by (metis Suc_le_length_iff numeral_3_eq_3)
  define l where "l = uint16_at b c"
  from assms have n: "n = 3 + unat l" "unat l \<le> length rest"
    and f: "fType f = a" "fPayload f = take (unat l) rest"
    by (auto simp: DecodeFrame_def data l_def Let_def split: if_splits)
  then have "word_of_nat (length (fPayload f)) = l" by simp
  then show ?thesis
    using n f by (simp add: AppendFrame_def data l_def put_uint16_at numeral_3_eq_3)
qed

interpretation frame_codec: prefix_codec "AppendFrame []" DecodeFrame frame_fits frame_norm
  by unfold_locales (simp_all add: DecodeFrame_AppendFrame DecodeFrame_used DecodeFrame_exact)

section \<open>Properties\<close>

text \<open>
  A frame built by the constructors survives the wire: whatever follows it, the decoder returns
  exactly that frame, type, length field and payload, and reports exactly the bytes it occupies. A
  payload of more than 65535 bytes is refused by the constructor, never truncated.
\<close>

theorem frame_roundtrip:
  "case NewFrame typ payload of
     Inl e \<Rightarrow> 65535 < length payload
   | Inr f \<Rightarrow> DecodeFrame (AppendFrame [] f @ rest) = Inr (f, EncodedLen f) \<and>
       fType f = typ \<and> fPayload f = payload \<and> EncodedLen f = 3 + length payload"
proof (cases "length payload \<le> 65535")
  case True
  define f where "f = \<lparr>fType = typ, fLength = word_of_nat (length payload), fPayload = payload\<rparr>"
  have new: "NewFrame typ payload = Inr f"
    using True by (simp add: NewFrame_def NewFrameWithPayload_def checkPayloadLen_def f_def)
  have fits: "frame_fits f" and norm: "frame_norm f = f"
    using True by (simp_all add: frame_fits_def frame_norm_def f_def)
  have len: "EncodedLen f = 3 + length payload"
    using unat_payload_len [OF fits] by (simp add: EncodedLen_def f_def)
  show ?thesis
    using frame_codec.dec_enc [OF fits, of rest] by (simp add: new norm len) (simp add: f_def)
next
  case False
  then show ?thesis
    by (simp add: NewFrame_def NewFrameWithPayload_def checkPayloadLen_def)
qed

text \<open>
  The decoder accepts exactly the byte strings that start with a whole frame: it fails only
  when fewer bytes are there than the header and its length field ask for, and what it accepts is
  re-encoded to the very bytes it consumed.
\<close>

theorem DecodeFrame_characterised:
  "case DecodeFrame data of
     Inl e \<Rightarrow> e = io_ErrUnexpectedEOF \<and> \<not> (\<exists>f rest. frame_fits f \<and> data = AppendFrame [] f @ rest)
   | Inr (f, n) \<Rightarrow> 3 \<le> n \<and> n \<le> length data \<and> n = EncodedLen f \<and> data = AppendFrame [] f @ drop n data"
proof (cases "DecodeFrame data")
  case (Inl e)
  then have "e = io_ErrUnexpectedEOF"
    by (auto simp: DecodeFrame_def Let_def split: if_splits)
  moreover have "\<not> (frame_fits f \<and> data = AppendFrame [] f @ rest)" for f rest
    using Inl frame_codec.dec_enc [of f rest] by auto
  ultimately show ?thesis using Inl by simp
next
  case (Inr p)
  then obtain f n where p: "DecodeFrame data = Inr (f, n)" by (cases p) auto
  have "n = length (AppendFrame [] f)"
    using frame_codec.enc_dec [OF p] frame_codec.dec_used [OF p] by simp
  moreover have "unat (fLength f) = length (fPayload f)"
    using DecodeFrame_fits [OF p] unat_payload_len [of f]
    by (metis Frame.select_convs(2) Frame.surjective Frame.update_convs(2) frame_norm_def)
  ultimately show ?thesis
    using frame_codec.dec_split [OF p] frame_codec.dec_used [OF p] p by (simp add: EncodedLen_def)
qed

text \<open>
  The handshake payload round-trips: decoding an encoded handshake gives it back exactly when
  its version is 3, every other version and every payload shorter than three bytes is refused, and
  whatever is accepted re-encodes to the same bytes.
\<close>

theorem handshake_roundtrip:
  "(case DecodeHandshake (Handshake_Encode h) of Inl _ \<Rightarrow> hVersion h \<noteq> 3 | Inr h' \<Rightarrow> hVersion h = 3 \<and> h' = h) \<and>
   (case DecodeHandshake data of
      Inl _ \<Rightarrow> \<not> (3 \<le> length data \<and> hd data = 3)
    | Inr h' \<Rightarrow> hVersion h' = 3 \<and> Handshake_Encode h' = data)"
proof
  have "DecodeHandshake (Handshake_Encode h) =
      (if hVersion h \<noteq> 3 then Inl (Msg ''protocol: unsupported version'') else Inr h)"
    by (simp add: DecodeHandshake_def Handshake_Encode_def)
  then show "case DecodeHandshake (Handshake_Encode h) of Inl _ \<Rightarrow> hVersion h \<noteq> 3 | Inr h' \<Rightarrow> hVersion h = 3 \<and> h' = h"
    by simp
next
  show "case DecodeHandshake data of
      Inl _ \<Rightarrow> \<not> (3 \<le> length data \<and> hd data = 3)
    | Inr h' \<Rightarrow> hVersion h' = 3 \<and> Handshake_Encode h' = data"
  proof (cases "length data < 3")
    case True
    then show ?thesis by (simp add: DecodeHandshake_def)
  next
    case False
    then have "3 \<le> length data" by simp
    then obtain a b c rest where "data = a # b # c # rest"
      by (metis Suc_le_length_iff numeral_3_eq_3)
    then show ?thesis by (simp add: DecodeHandshake_def Handshake_Encode_def)
  qed
qed

end
