(* ===== verification/Bytespool.thy ===== *)
theory Bytespool
  imports Prelude
begin

text \<open>
  The buffer pool and the growing read buffer (\<open>src/util/bytespool\<close>, \<open>src/util/netbuf\<close>). A
  buffer is its backing array, so its capacity is the length of the list; a slice of it is the array
  and a length. A \<open>sync.Pool\<close> hands out an arbitrary buffer it holds (the index \<open>pick\<close>), makes a new
  one when it holds none, and may drop its contents at any garbage collection.
\<close>

section \<open>The allocator\<close>

definition MaxSize :: nat where [simp]: "MaxSize = 131072"
definition defaultMaxRetainedPerClass :: int where [simp]: "defaultMaxRetainedPerClass = 64"

record Allocator =
  alBuffers :: "bytes list list"
  alRetained :: "int list"
  alMaxRetained :: int

definition NewAllocatorWithLimit :: "int \<Rightarrow> Allocator" where
  "NewAllocatorWithLimit maxRetained =
     \<lparr>alBuffers = replicate 18 [], alRetained = replicate 18 0, alMaxRetained = maxRetained\<rparr>"

definition NewAllocator :: Allocator where
  "NewAllocator = NewAllocatorWithLimit defaultMaxRetainedPerClass"

text \<open>\<open>bits.Len32\<close> and the position of the highest bit, as an unsigned 16-bit number.\<close>

fun bits_Len :: "nat \<Rightarrow> nat" where
  "bits_Len n = (if n = 0 then 0 else Suc (bits_Len (n div 2)))"

declare bits_Len.simps [simp del]

definition msb :: "nat \<Rightarrow> nat" where
  "msb sz = (bits_Len (sz mod 2 ^ 32) + (2 ^ 16 - 1)) mod 2 ^ 16"

definition decRetained :: "int \<Rightarrow> int" where
  "decRetained cur = (if cur \<le> 0 then 0 else cur - 1)"

text \<open>\<open>sync.Pool.Get\<close> with its \<open>New\<close> function.\<close>

definition pool_get :: "nat \<Rightarrow> nat \<Rightarrow> bytes list \<Rightarrow> bytes \<times> bytes list" where
  "pool_get k pick xs =
     (if xs = [] then (replicate (2 ^ k) 0, [])
      else let i = pick mod length xs in (xs ! i, take i xs @ drop (Suc i) xs))"

definition alloc_get :: "Allocator \<Rightarrow> nat \<Rightarrow> nat \<Rightarrow> bytes \<times> Allocator" where
  "alloc_get al pick k =
     (let (buf, xs) = pool_get k pick (alBuffers al ! k)
      in (buf, al\<lparr>alRetained := (alRetained al)[k := decRetained (alRetained al ! k)],
                  alBuffers := (alBuffers al)[k := xs]\<rparr>))"

text \<open>\<open>Get\<close> returns no buffer, or a backing array and the length of the slice.\<close>

definition Get :: "Allocator \<Rightarrow> nat \<Rightarrow> int \<Rightarrow> (bytes \<times> nat) option \<times> Allocator" where
  "Get al pick sz =
     (if sz \<le> 0 \<or> sz > int MaxSize then (None, al)
      else let n = nat sz; k = msb n
           in if n = 2 ^ k
              then let (buf, al') = alloc_get al pick k in (Some (buf, n), al')
              else let (buf, al') = alloc_get al pick (k + 1) in (Some (buf, n), al'))"

definition Put :: "Allocator \<Rightarrow> bytes \<Rightarrow> unit result \<times> Allocator" where
  "Put al buf =
     (let c = length buf; k = msb c
      in if c = 0 \<or> c > MaxSize \<or> c \<noteq> 2 ^ k
         then (Inl (Msg ''allocator Put() incorrect buffer size''), al)
         else if alMaxRetained al > 0 \<and> alRetained al ! k + 1 > alMaxRetained al
         then (Inr (), al)
         else (Inr (),
               al\<lparr>alRetained := (if alMaxRetained al > 0
                     then (alRetained al)[k := alRetained al ! k + 1] else alRetained al),
                  alBuffers := (alBuffers al)[k := buf # alBuffers al ! k]\<rparr>))"

definition MustPut :: "Allocator \<Rightarrow> bytes \<Rightarrow> unit result \<times> Allocator" where
  "MustPut al buf =
     (case Put al buf of
        (Inl e, al') \<Rightarrow> (Inl (Panic ''allocator Put() incorrect buffer size''), al')
      | (Inr _, al') \<Rightarrow> (Inr (), al'))"

text \<open>\<open>SwapIn\<close>: the old buffer goes back only when there is a new one to put in its place.\<close>

definition SwapIn :: "Allocator \<Rightarrow> bytes \<Rightarrow> bytes option \<Rightarrow> (bytes result) \<times> Allocator" where
  "SwapIn al dst buf =
     (case buf of
        None \<Rightarrow> (Inr dst, al)
      | Some b \<Rightarrow>
          (if length dst > 0 then
             (case MustPut al dst of
                (Inl e, al') \<Rightarrow> (Inl e, al')
              | (Inr _, al') \<Rightarrow> (Inr b, al'))
           else (Inr b, al)))"

section \<open>The growing read buffer\<close>

definition Hint :: int where [simp]: "Hint = 4 * 1024"

text \<open>The loop of \<open>normalized\<close>: \<open>class <<= 1\<close> on a 64-bit integer until it reaches the size.\<close>

partial_function (option) class_loop :: "int \<Rightarrow> int \<Rightarrow> int option" where
  "class_loop sz class = (if class < sz then class_loop sz (int64 (class * 2)) else Some class)"

definition normalized :: "int \<Rightarrow> int \<Rightarrow> int option" where
  "normalized sz fallback = class_loop (if sz \<le> 0 then fallback else sz) 1"

record Reader =
  rdBuf :: bytes
  rdMax :: int

definition netbuf_NewReader :: "Allocator \<Rightarrow> nat \<Rightarrow> int \<Rightarrow> int \<Rightarrow> (Reader \<times> Allocator) option" where
  "netbuf_NewReader al pick hint maxsz =
     (case normalized maxsz Hint of
        None \<Rightarrow> None
      | Some m \<Rightarrow>
          (case normalized hint Hint of
             None \<Rightarrow> None
           | Some h \<Rightarrow>
               (let mx = min m (int MaxSize); hn = min h mx
                in case Get al pick hn of
                     (None, al') \<Rightarrow> Some (\<lparr>rdBuf = [], rdMax = mx\<rparr>, al')
                   | (Some (buf, n), al') \<Rightarrow> Some (\<lparr>rdBuf = buf, rdMax = mx\<rparr>, al'))))"

definition Cap :: "Reader \<Rightarrow> nat" where
  "Cap r = length (rdBuf r)"

definition Grow :: "Allocator \<Rightarrow> nat \<Rightarrow> Reader \<Rightarrow> (Reader result) \<times> Allocator" where
  "Grow al pick r =
     (let cur = int (length (rdBuf r));
          next = (if cur * 2 < rdMax r then cur * 2 else rdMax r)
      in if next \<le> cur then (Inr r, al)
         else case Get al pick next of
                (got, al') \<Rightarrow>
                  (case SwapIn al' (rdBuf r) (map_option fst got) of
                     (Inl e, al'') \<Rightarrow> (Inl e, al'')
                   | (Inr b, al'') \<Rightarrow> (Inr (r\<lparr>rdBuf := b\<rparr>), al'')))"

definition Release :: "Allocator \<Rightarrow> Reader \<Rightarrow> (Reader result) \<times> Allocator" where
  "Release al r =
     (if length (rdBuf r) > 0 then
        (case MustPut al (rdBuf r) of
           (Inl e, al') \<Rightarrow> (Inl e, al')
         | (Inr _, al') \<Rightarrow> (Inr (r\<lparr>rdBuf := []\<rparr>), al'))
      else (Inr (r\<lparr>rdBuf := []\<rparr>), al))"

section \<open>Invariant\<close>

text \<open>
  Class \<open>k\<close> holds buffers of \<open>2 ^ k\<close> bytes only, the retained count never falls below what the pool
  really holds, and never passes the limit.
\<close>

definition alloc_inv :: "Allocator \<Rightarrow> bool" where
  "alloc_inv al \<longleftrightarrow> length (alBuffers al) = 18 \<and> length (alRetained al) = 18 \<and>
     (\<forall>k < 18. (\<forall>b \<in> set (alBuffers al ! k). length b = 2 ^ k) \<and>
        0 \<le> alRetained al ! k \<and>
        (0 < alMaxRetained al \<longrightarrow>
           int (length (alBuffers al ! k)) \<le> alRetained al ! k \<and> alRetained al ! k \<le> alMaxRetained al))"

text \<open>What a garbage collection may do to the pools: any buffers disappear, the counters stay.\<close>

definition gc_drop :: "(bytes \<Rightarrow> bool) \<Rightarrow> Allocator \<Rightarrow> Allocator" where
  "gc_drop keep al = al\<lparr>alBuffers := map (filter keep) (alBuffers al)\<rparr>"

lemma bits_Len_bounds: "0 < n \<Longrightarrow> 2 ^ (bits_Len n - 1) \<le> n \<and> n < 2 ^ bits_Len n \<and> 0 < bits_Len n"
proof (induction n rule: bits_Len.induct)
  case (1 n)
  show ?case
  proof (cases "n = 1")
    case True
    then show ?thesis by (simp add: bits_Len.simps [of "Suc 0"] bits_Len.simps [of 0])
  next
    case False
    with "1.prems" have pos: "0 < n div 2" by simp
    with "1.IH" "1.prems" have IH: "2 ^ (bits_Len (n div 2) - 1) \<le> n div 2" "n div 2 < 2 ^ bits_Len (n div 2)"
      "0 < bits_Len (n div 2)" by auto
    have eq: "bits_Len n = Suc (bits_Len (n div 2))" using "1.prems" by (simp add: bits_Len.simps [of n])
    obtain m where m: "bits_Len (n div 2) = Suc m" using IH(3) by (cases "bits_Len (n div 2)") auto
    show ?thesis using IH unfolding eq m by simp linarith
  qed
qed

lemma msb_bounds:
  assumes "0 < n" "n \<le> MaxSize"
  shows "2 ^ msb n \<le> n" "n < 2 ^ (msb n + 1)" "msb n \<le> 17" "n \<noteq> 2 ^ msb n \<Longrightarrow> msb n \<le> 16"
proof -
  have small: "n mod 2 ^ 32 = n" using assms by simp
  obtain m where m: "bits_Len n = Suc m" "2 ^ m \<le> n" "n < 2 ^ Suc m"
    using bits_Len_bounds [OF assms(1)] by (cases "bits_Len n") auto
  have "(2::nat) ^ m \<le> 2 ^ 17" using m(2) assms(2) by simp
  then have m17: "m \<le> 17" using power_le_imp_le_exp [of "2::nat" m 17] by simp
  then have eq: "msb n = m" unfolding msb_def small m(1) by simp
  show "2 ^ msb n \<le> n" "n < 2 ^ (msb n + 1)" "msb n \<le> 17" using m m17 eq by auto
  show "msb n \<le> 16" if "n \<noteq> 2 ^ msb n"
  proof (rule ccontr)
    assume "\<not> msb n \<le> 16"
    then have "msb n = 17" using m17 eq by simp
    then show False using that m(2) assms(2) eq by simp
  qed
qed

lemma msb_pow2: "k \<le> 17 \<Longrightarrow> msb (2 ^ k) = k"
proof -
  assume k: "k \<le> 17"
  have le: "(2::nat) ^ k \<le> 2 ^ 17" using k by (rule power_increasing) simp
  have b: "2 ^ msb (2 ^ k) \<le> (2::nat) ^ k" "(2::nat) ^ k < 2 ^ (msb (2 ^ k) + 1)"
    using msb_bounds [of "2 ^ k"] le by auto
  have "msb (2 ^ k) \<le> k" by (rule power_le_imp_le_exp [of "2::nat"]) (use b in simp_all)
  moreover have "k < msb (2 ^ k) + 1" by (rule power_less_imp_less_exp [of "2::nat"]) (use b in simp_all)
  ultimately show ?thesis by simp
qed

lemma pool_get_props:
  assumes "\<forall>b \<in> set xs. length b = 2 ^ k" and "pool_get k pick xs = (buf, ys)"
  shows "length buf = 2 ^ k" "set ys \<subseteq> set xs" "length ys = length xs - 1"
proof -
  have "length buf = 2 ^ k \<and> set ys \<subseteq> set xs \<and> length ys = length xs - 1"
  proof (cases "xs = []")
    case True
    then show ?thesis using assms(2) by (auto simp: pool_get_def)
  next
    case False
    define i where "i = pick mod length xs"
    have i: "i < length xs" using False by (simp add: i_def)
    have "buf = xs ! i" "ys = take i xs @ drop (Suc i) xs"
      using assms(2) False by (auto simp: pool_get_def i_def Let_def)
    then show ?thesis using i assms(1) set_take_subset [of i xs] set_drop_subset [of "Suc i" xs] by auto
  qed
  then show "length buf = 2 ^ k" "set ys \<subseteq> set xs" "length ys = length xs - 1" by auto
qed

lemma alloc_get_inv:
  assumes "alloc_inv al" "k < 18" "alloc_get al pick k = (buf, al')"
  shows "alloc_inv al'" "length buf = 2 ^ k"
proof -
  obtain ys where g: "pool_get k pick (alBuffers al ! k) = (buf, ys)"
    and al': "al' = al\<lparr>alRetained := (alRetained al)[k := decRetained (alRetained al ! k)],
                  alBuffers := (alBuffers al)[k := ys]\<rparr>"
    using assms(3) by (auto simp: alloc_get_def split: prod.splits)
  have cls: "\<forall>b \<in> set (alBuffers al ! k). length b = 2 ^ k"
    using assms(1,2) by (simp add: alloc_inv_def)
  note g = pool_get_props [OF cls g]
  show "length buf = 2 ^ k" by (rule g)
  show "alloc_inv al'"
    using assms(1,2) g cls by (auto simp: alloc_inv_def al' nth_list_update decRetained_def)
qed

lemma Put_inv:
  assumes "alloc_inv al" "Put al buf = (r, al')"
  shows "alloc_inv al'"
proof (cases "length buf = 0 \<or> length buf > MaxSize \<or> length buf \<noteq> 2 ^ msb (length buf) \<or>
    (alMaxRetained al > 0 \<and> alRetained al ! msb (length buf) + 1 > alMaxRetained al)")
  case True
  then show ?thesis using assms by (auto simp: Put_def Let_def split: if_splits)
next
  case False
  then have k: "msb (length buf) < 18" "length buf = 2 ^ msb (length buf)"
    using msb_bounds(3) [of "length buf"] by auto
  define k where "k = msb (length buf)"
  have len: "length buf = 2 ^ k" and k18: "k < 18" using k by (simp_all add: k_def)
  have al': "al' = al\<lparr>alRetained := (if alMaxRetained al > 0
                     then (alRetained al)[k := alRetained al ! k + 1] else alRetained al),
                  alBuffers := (alBuffers al)[k := buf # alBuffers al ! k]\<rparr>"
    using assms(2) False by (auto simp: Put_def k_def Let_def)
  show ?thesis
    using assms(1) k18 len False
    by (auto simp: alloc_inv_def al' nth_list_update k_def [symmetric])
qed

lemma Get_inv:
  assumes "alloc_inv al" "Get al pick sz = (r, al')"
  shows "alloc_inv al'"
    and "r = Some (buf, n) \<Longrightarrow> int n = sz \<and> n \<le> length buf \<and> length buf < 2 * n \<and>
       (\<exists>k < 18. length buf = 2 ^ k)"
    and "0 < sz \<Longrightarrow> sz \<le> int MaxSize \<Longrightarrow> r \<noteq> None"
proof -
  define N where "N = nat sz"
  define k where "k = (if N = 2 ^ msb N then msb N else msb N + 1)"
  have spec: "alloc_inv al' \<and> (case r of None \<Rightarrow> sz \<le> 0 \<or> sz > int MaxSize | Some (buf, m) \<Rightarrow>
     int m = sz \<and> m \<le> length buf \<and> length buf < 2 * m \<and> (\<exists>k < 18. length buf = 2 ^ k))"
  proof (cases "sz \<le> 0 \<or> sz > int MaxSize")
    case True
    then show ?thesis using assms by (auto simp: Get_def)
  next
    case False
    then have n: "0 < N" "N \<le> MaxSize" "int N = sz" by (auto simp: N_def)
    have k: "k < 18" "N \<le> 2 ^ k" "2 ^ k < 2 * N"
      using msb_bounds [OF n(1,2)] by (auto simp: k_def less_le)
    obtain b where g: "alloc_get al pick k = (b, al')" and r: "r = Some (b, N)"
      using assms(2) False by (auto simp: Get_def N_def [symmetric] k_def Let_def split: prod.splits if_splits)
    show ?thesis using alloc_get_inv [OF assms(1) k(1) g] n k by (auto simp: r)
  qed
  show "alloc_inv al'" using spec by simp
  show "r = Some (buf, n) \<Longrightarrow> int n = sz \<and> n \<le> length buf \<and> length buf < 2 * n \<and>
       (\<exists>k < 18. length buf = 2 ^ k)" using spec by auto
  show "0 < sz \<Longrightarrow> sz \<le> int MaxSize \<Longrightarrow> r \<noteq> None" using spec by (auto split: option.splits)
qed

lemma gc_drop_inv: "alloc_inv al \<Longrightarrow> alloc_inv (gc_drop keep al)"
  by (auto simp: alloc_inv_def gc_drop_def intro: order_trans [OF of_nat_mono [OF length_filter_le]])

lemma alloc_inv_new: "alloc_inv (NewAllocatorWithLimit m)"
  by (auto simp: alloc_inv_def NewAllocatorWithLimit_def)

section \<open>The pool as an interface\<close>

text \<open>
  What the users of the pool rely on: a request within the size limit is served with a buffer of a
  pool class that is large enough, and a buffer of a pool class can always be given back.
\<close>

locale buffer_pool =
  fixes get :: "'p \<Rightarrow> nat \<Rightarrow> int \<Rightarrow> (bytes \<times> nat) option \<times> 'p"
    and put :: "'p \<Rightarrow> bytes \<Rightarrow> unit result \<times> 'p"
    and ok :: "'p \<Rightarrow> bool"
  assumes get_ok: "ok p \<Longrightarrow> get p pick sz = (r, q) \<Longrightarrow> ok q"
    and get_served: "ok p \<Longrightarrow> 0 < sz \<Longrightarrow> sz \<le> int MaxSize \<Longrightarrow>
       \<exists>buf q. get p pick sz = (Some (buf, nat sz), q) \<and> nat sz \<le> length buf \<and> length buf < 2 * nat sz \<and>
         (\<exists>k < 18. length buf = 2 ^ k)"
    and put_ok: "ok p \<Longrightarrow> put p buf = (e, q) \<Longrightarrow> ok q"
    and put_class: "ok p \<Longrightarrow> k < 18 \<Longrightarrow> length buf = 2 ^ k \<Longrightarrow> fst (put p buf) = Inr ()"
begin

lemma get_then_put:
  assumes "ok p" "0 < sz" "sz \<le> int MaxSize" "get p pick sz = (Some (buf, n), q)"
  shows "fst (put q buf) = Inr ()"
proof -
  obtain k where "k < 18" "length buf = 2 ^ k"
    using get_served [OF assms(1-3), of pick] assms(4) by auto
  then show ?thesis using put_class [OF get_ok [OF assms(1,4)]] by blast
qed

text \<open>A request for exactly a class size gets a buffer of that size.\<close>

lemma get_class:
  assumes "ok p" "j < 18"
  shows "\<exists>buf q. get p pick (2 ^ j) = (Some (buf, 2 ^ j), q) \<and> length buf = 2 ^ j"
proof -
  have "(2::nat) ^ j \<le> 2 ^ 17" using assms(2) by (intro power_increasing) auto
  then have "int (2 ^ j) \<le> int (2 ^ 17)" by (simp only: of_nat_le_iff)
  then have le: "(2::int) ^ j \<le> int MaxSize" by simp
  have eq: "nat (2 ^ j) = 2 ^ j" by (simp add: nat_power_eq)
  obtain buf q k where b: "get p pick (2 ^ j) = (Some (buf, 2 ^ j), q)" "2 ^ j \<le> length buf"
    "length buf < 2 * 2 ^ j" "length buf = 2 ^ k"
    using get_served [OF assms(1) _ le, of pick] by (auto simp: eq)
  have "(2::nat) ^ j \<le> 2 ^ k" "(2::nat) ^ k < 2 ^ Suc j" using b by auto
  then have "j \<le> k" "k < Suc j"
    by (auto intro: power_le_imp_le_exp [of "2::nat"] power_less_imp_less_exp [of "2::nat"])
  then show ?thesis using b by auto
qed

end

interpretation alloc: buffer_pool Get Put alloc_inv
proof unfold_locales
  fix p pick sz r q assume "alloc_inv p" "Get p pick sz = (r, q)"
  then show "alloc_inv q" by (rule Get_inv)
next
  fix p pick sz assume p: "alloc_inv p" "0 < sz" "sz \<le> int MaxSize"
  obtain r q where g: "Get p pick sz = (r, q)" by fastforce
  obtain buf n where r: "r = Some (buf, n)" using Get_inv(3) [OF p(1) g p(2,3)] by auto
  show "\<exists>buf q. Get p pick sz = (Some (buf, nat sz), q) \<and> nat sz \<le> length buf \<and>
      length buf < 2 * nat sz \<and> (\<exists>k < 18. length buf = 2 ^ k)"
    using Get_inv(2) [OF p(1) g r] g r by auto
next
  fix p buf r q assume "alloc_inv p" "Put p buf = (r, q)"
  then show "alloc_inv q" by (rule Put_inv)
next
  fix p :: Allocator and k :: nat and buf :: bytes
  assume "k < 18" "length buf = 2 ^ k"
  moreover from this have "(2::nat) ^ k \<le> 2 ^ 17" by (intro power_increasing) auto
  ultimately show "fst (Put p buf) = Inr ()"
    using msb_pow2 [of k] by (auto simp: Put_def Let_def)
qed

lemma MustPut_class:
  "alloc_inv al \<Longrightarrow> k < 18 \<Longrightarrow> length buf = 2 ^ k \<Longrightarrow> \<exists>al'. MustPut al buf = (Inr (), al') \<and> alloc_inv al'"
  using alloc.put_class [of al k buf] alloc.put_ok [of al buf]
  by (cases "Put al buf") (auto simp: MustPut_def split: sum.splits)

section \<open>The class loop\<close>

lemma class_loop_pow2:
  assumes "sz \<le> 2 ^ 62" "j \<le> 62"
  shows "\<exists>k \<le> 62. j \<le> k \<and> class_loop sz (2 ^ j) = Some (2 ^ k) \<and> sz \<le> 2 ^ k \<and> (k = j \<or> 2 ^ (k - 1) < sz)"
  using assms(2)
proof (induction "62 - j" arbitrary: j)
  case 0
  then show ?case using assms(1) by (auto simp: class_loop.simps)
next
  case (Suc d)
  show ?case
  proof (cases "2 ^ j < sz")
    case True
    have "j < 62" using Suc by simp
    then have "(2::int) ^ j * 2 \<le> 2 ^ 62"
      by (metis Suc_leI power_Suc2 one_le_numeral power_increasing)
    then have "int64 (2 ^ j * 2) = 2 ^ Suc j" by (simp add: int64_def)
    moreover have d: "d = 62 - Suc j" using Suc.hyps(2) by simp
    moreover obtain k where "k \<le> 62" "Suc j \<le> k" "class_loop sz (2 ^ Suc j) = Some (2 ^ k)" "sz \<le> 2 ^ k"
      "k = Suc j \<or> 2 ^ (k - 1) < sz"
      using Suc.hyps(1) [of "Suc j"] d \<open>j < 62\<close> by auto
    ultimately show ?thesis using True by (auto simp: class_loop.simps [of sz "2 ^ j"])
  next
    case False
    then show ?thesis using Suc.prems by (auto simp: class_loop.simps)
  qed
qed

lemma normalized_class:
  assumes "sz \<le> 2 ^ 62"
  shows "\<exists>k \<le> 62. normalized sz Hint = Some (2 ^ k) \<and> sz \<le> 2 ^ k \<and> (0 < sz \<longrightarrow> k = 0 \<or> 2 ^ (k - 1) < sz)"
proof -
  have "(if sz \<le> 0 then Hint else sz) \<le> 2 ^ 62" using assms by simp
  from class_loop_pow2 [OF this, of 0] show ?thesis
    unfolding normalized_def by (auto split: if_splits)
qed

section \<open>The read buffer over the pool\<close>

text \<open>A reader between \<open>NewReader\<close> and \<open>Release\<close>: its buffer is of a pool class within its limit.\<close>

definition reader_inv :: "Reader \<Rightarrow> bool" where
  "reader_inv r \<longleftrightarrow> (\<exists>j < 18. rdMax r = 2 ^ j \<and> (\<exists>k \<le> j. length (rdBuf r) = 2 ^ k))"

lemma pow2_min_MaxSize: "\<exists>j < 18. min (2 ^ k) (int MaxSize) = 2 ^ j \<and> j \<le> k"
proof (cases "k \<le> 17")
  case True
  then have "(2::int) ^ k \<le> 2 ^ 17" by (intro power_increasing) auto
  then show ?thesis using True by (intro exI [of _ k]) auto
next
  case False
  then have "(2::int) ^ 17 \<le> 2 ^ k" by (intro power_increasing) auto
  then show ?thesis using False by (intro exI [of _ 17]) auto
qed

lemma netbuf_NewReader_inv:
  assumes "alloc_inv al" "hint \<le> 2 ^ 62" "maxsz \<le> 2 ^ 62"
  shows "\<exists>r al'. netbuf_NewReader al pick hint maxsz = Some (r, al') \<and> reader_inv r \<and> alloc_inv al'"
proof -
  obtain km where km: "normalized maxsz Hint = Some (2 ^ km)" using normalized_class [OF assms(3)] by blast
  obtain kh where kh: "normalized hint Hint = Some (2 ^ kh)" using normalized_class [OF assms(2)] by blast
  obtain j where j: "j < 18" "min (2 ^ km) (int MaxSize) = 2 ^ j" using pow2_min_MaxSize by blast
  define h where "h = min kh j"
  have h: "min (2 ^ kh) (2 ^ j) = (2::int) ^ h" "h < 18" "h \<le> j"
    using j(1) power_increasing_iff [of "2::int" kh j] by (auto simp: h_def min_def)
  obtain buf q where g: "Get al pick (2 ^ h) = (Some (buf, 2 ^ h), q)" "length buf = 2 ^ h"
    using alloc.get_class [OF assms(1) h(2)] by blast
  have "alloc_inv q" using alloc.get_ok [OF assms(1) g(1)] .
  moreover have "netbuf_NewReader al pick hint maxsz = Some (\<lparr>rdBuf = buf, rdMax = 2 ^ j\<rparr>, q)"
    unfolding netbuf_NewReader_def km kh option.case Let_def j(2) h(1) g(1) by simp
  moreover have "reader_inv \<lparr>rdBuf = buf, rdMax = 2 ^ j\<rparr>"
    unfolding reader_inv_def using g(2) h(3) j(1) by (intro exI [of _ j]) auto
  ultimately show ?thesis by blast
qed

lemma Grow_inv:
  assumes "alloc_inv al" "reader_inv r"
  shows "\<exists>r' al'. Grow al pick r = (Inr r', al') \<and> reader_inv r' \<and> alloc_inv al' \<and> rdMax r' = rdMax r \<and>
     int (length (rdBuf r')) = min (2 * int (length (rdBuf r))) (rdMax r)"
proof -
  obtain j k where r: "j < 18" "rdMax r = 2 ^ j" "k \<le> j" "length (rdBuf r) = 2 ^ k"
    using assms(2) by (auto simp: reader_inv_def)
  show ?thesis
  proof (cases "k = j")
    case True
    then have "Grow al pick r = (Inr r, al)" using r by (simp add: Grow_def Let_def)
    then show ?thesis using assms r True by auto
  next
    case False
    then have k: "Suc k \<le> j" using r by simp
    then have le: "(2::int) ^ Suc k \<le> 2 ^ j" by (intro power_increasing) auto
    have lt: "(2::int) ^ k < 2 ^ j" using k by (intro power_strict_increasing) auto
    have nx: "(if int (length (rdBuf r)) * 2 < rdMax r then int (length (rdBuf r)) * 2 else rdMax r) = 2 ^ Suc k"
      using r le by auto
    obtain buf q where g: "Get al pick (2 ^ Suc k) = (Some (buf, 2 ^ Suc k), q)" "length buf = 2 ^ Suc k"
      using alloc.get_class [OF assms(1), of "Suc k" pick] k r(1) by auto
    have q: "alloc_inv q" by (rule alloc.get_ok [OF assms(1) g(1)])
    obtain q' where p: "MustPut q (rdBuf r) = (Inr (), q')" "alloc_inv q'"
      using MustPut_class [OF q, of k "rdBuf r"] r k by auto
    have "Grow al pick r = (Inr (r\<lparr>rdBuf := buf\<rparr>), q')"
      unfolding Grow_def Let_def nx using g p r(4) by (simp add: SwapIn_def)
    moreover have "reader_inv (r\<lparr>rdBuf := buf\<rparr>)"
      unfolding reader_inv_def using r k g(2) by (intro exI [of _ j]) auto
    ultimately show ?thesis using p g r le by auto
  qed
qed

lemma Release_inv:
  assumes "alloc_inv al" "reader_inv r"
  shows "\<exists>r' al'. Release al r = (Inr r', al') \<and> rdBuf r' = [] \<and> alloc_inv al'"
proof -
  obtain k where "k < 18" "length (rdBuf r) = 2 ^ k" using assms(2) by (auto simp: reader_inv_def)
  then show ?thesis using MustPut_class [OF assms(1), of k "rdBuf r"] by (auto simp: Release_def)
qed

section \<open>Steps of the pool\<close>

inductive alloc_step :: "Allocator \<Rightarrow> Allocator \<Rightarrow> bool" where
  get: "alloc_step al (snd (Get al pick sz))"
| put: "alloc_step al (snd (Put al buf))"
| gc: "alloc_step al (gc_drop keep al)"

inductive_cases alloc_stepE: "alloc_step al al'"

interpretation alloc_steps: step_invariant "\<lambda>al. al = NewAllocator" alloc_step alloc_inv
proof unfold_locales
  fix al assume "al = NewAllocator"
  then show "alloc_inv al" by (simp add: NewAllocator_def alloc_inv_new)
next
  fix al al' assume "alloc_inv al" "alloc_step al al'"
  then show "alloc_inv al'"
    by (elim alloc_stepE) (metis Get_inv(1) prod.collapse, metis Put_inv prod.collapse, simp add: gc_drop_inv)
qed

definition alloc_reachable :: "Allocator \<Rightarrow> bool" where
  "alloc_reachable = reachable_from (\<lambda>al. al = NewAllocator) alloc_step"

lemma alloc_max_retained: "alloc_reachable al \<Longrightarrow> alMaxRetained al = 64"
  unfolding alloc_reachable_def
proof (induction rule: reachable_from.induct)
  case (start s)
  then show ?case by (simp add: NewAllocator_def NewAllocatorWithLimit_def)
next
  case (step s t)
  from step.hyps(2) have "alMaxRetained t = alMaxRetained s"
    by (elim alloc_stepE) (auto simp: Get_def Put_def alloc_get_def gc_drop_def Let_def split: prod.splits)
  then show ?case using step.IH by simp
qed

section \<open>Properties\<close>

text \<open>
  After any sequence of \<open>Get\<close>, \<open>Put\<close> and garbage collections the default allocator keeps at
  most 64 buffers per size class, every buffer in class k has exactly 2^k bytes, every request of 1
  to 131072 bytes is served by a buffer that is large enough and less than twice as large, and giving
  such a buffer back never panics.
\<close>

theorem bytespool_safe:
  assumes "alloc_reachable al" and "0 < sz" and "sz \<le> 131072"
  shows "(\<forall>k < 18. length (alBuffers al ! k) \<le> 64 \<and> (\<forall>b \<in> set (alBuffers al ! k). length b = 2 ^ k)) \<and>
     (\<exists>buf al'. Get al pick sz = (Some (buf, nat sz), al') \<and> nat sz \<le> length buf \<and>
        length buf < 2 * nat sz \<and> fst (MustPut al' buf) = Inr ())"
proof
  have inv: "alloc_inv al"
    using assms(1) unfolding alloc_reachable_def by (rule alloc_steps.inv_reachable)
  then show "\<forall>k < 18. length (alBuffers al ! k) \<le> 64 \<and> (\<forall>b \<in> set (alBuffers al ! k). length b = 2 ^ k)"
    using alloc_max_retained [OF assms(1)] by (auto simp: alloc_inv_def)
  obtain buf al' where g: "Get al pick sz = (Some (buf, nat sz), al')" "nat sz \<le> length buf"
    "length buf < 2 * nat sz"
    using alloc.get_served [OF inv assms(2), of pick] assms(3) by auto
  moreover have "fst (MustPut al' buf) = Inr ()"
    using alloc.get_then_put [OF inv assms(2) _ g(1)] assms(3) by (auto simp: MustPut_def split: prod.splits)
  ultimately show "\<exists>buf al'. Get al pick sz = (Some (buf, nat sz), al') \<and> nat sz \<le> length buf \<and>
        length buf < 2 * nat sz \<and> fst (MustPut al' buf) = Inr ()" by blast
qed

theorem bytespool_safe_witness:
  "\<exists>buf al'. Get NewAllocator 0 1500 = (Some (buf, 1500), al') \<and> length buf < 3000"
proof -
  have "alloc_reachable NewAllocator"
    unfolding alloc_reachable_def by (rule reachable_from.start) simp
  from bytespool_safe [OF this, of 1500 0] show ?thesis by auto
qed

text \<open>
  A read buffer can be created for any hint and limit up to 2^62 (the class loop ends), each
  \<open>Grow\<close> doubles its capacity until the limit and then changes nothing, and neither \<open>Grow\<close> nor
  \<open>Release\<close> ever panics: the buffer is a pool class at every moment.
\<close>

theorem netbuf_lifecycle:
  assumes "alloc_inv al" and "hint \<le> 2 ^ 62" and "maxsz \<le> 2 ^ 62"
  shows "\<exists>r al1 r2 al2 r3 al3.
     netbuf_NewReader al pick hint maxsz = Some (r, al1) \<and> 0 < Cap r \<and> int (Cap r) \<le> rdMax r \<and> rdMax r \<le> 131072 \<and>
     Grow al1 pick r = (Inr r2, al2) \<and> int (Cap r2) = min (2 * int (Cap r)) (rdMax r) \<and>
     Release al2 r2 = (Inr r3, al3) \<and> rdBuf r3 = [] \<and> alloc_inv al3"
proof -
  obtain r al1 where r: "netbuf_NewReader al pick hint maxsz = Some (r, al1)" "reader_inv r" "alloc_inv al1"
    using netbuf_NewReader_inv [OF assms] by blast
  obtain r2 al2 where r2: "Grow al1 pick r = (Inr r2, al2)" "reader_inv r2" "alloc_inv al2"
    "int (length (rdBuf r2)) = min (2 * int (length (rdBuf r))) (rdMax r)"
    using Grow_inv [OF r(3,2)] by blast
  obtain r3 al3 where r3: "Release al2 r2 = (Inr r3, al3)" "rdBuf r3 = []" "alloc_inv al3"
    using Release_inv [OF r2(3,2)] by blast
  obtain j k where jk: "j < 18" "rdMax r = 2 ^ j" "k \<le> j" "length (rdBuf r) = 2 ^ k"
    using r(2) by (auto simp: reader_inv_def)
  have "(2::int) ^ j \<le> 2 ^ 17" using jk(1) by (intro power_increasing) auto
  moreover have "(2::int) ^ k \<le> 2 ^ j" using jk(3) by (intro power_increasing) auto
  ultimately show ?thesis using r r2 r3 jk by (auto simp: Cap_def)
qed

theorem netbuf_lifecycle_witness:
  "\<exists>r al1. netbuf_NewReader NewAllocator 0 4096 15360 = Some (r, al1) \<and> 0 < Cap r"
  using netbuf_lifecycle [of NewAllocator 4096 15360 0] alloc_inv_new [of 64]
  by (auto simp: NewAllocator_def)

end
