(* ===== verification/Stats.thy ===== *)
theory Stats
  imports Prelude
begin

text \<open>
  The process-wide counters (\<open>src/stats/stats.go\<close>) and the per-stream meter
  (\<open>src/stats/meter.go\<close>). A counter is one \<open>atomic.Int64\<close> of the struct \<open>stats\<close>; the table
  \<open>counters\<close> is the registration list that \<open>ResetCounters\<close> and \<open>Collect\<close> walk. The RTT average
  and the speed gauges, which the code computes in \<open>float64\<close>, are not modelled.
\<close>

section \<open>Counters\<close>

datatype counter =
    totalStreamsOpened | totalStreamsClosed | bytesSent | bytesRecv | rawBytesSent | rawBytesRecv
       | tcpConnections | udpAssociations | dnsCacheHits | dnsCacheMisses | dnsProxyQueries
       | dnsDirectQueries | paddingBytes | recordsWritten | priorityStreamsOpened
       | bulkStreamsOpened | priorityFallback | bulkFallback | tierExpiringScheduled
       | tierHeavyScheduled | tierDegradedScheduled | tierRetiringSkipped | slotDegraded
       | slotRetiredDegraded | connRotated | slotProbes | slotProbeGet | slotProbeHead
       | slotProbeSlow | slotProbeUnsupported | slotGrownPriority | slotGrownBulk | streamsDrained
       | secondConnInGeneration | suspendDetected | suspendReverifyAlive | suspendReverifyReplaced
       | rttCount | uploadSpeed | downloadSpeed | peakUploadSpeed | peakDownloadSpeed
       | serverTCPStreams | serverUDPStreams | serverICMPStreams | serverHandshakeErrors
       | serverStreamCancels | serverFallbackPages | serverProbes

record stats =
  gCounters :: "counter \<Rightarrow> int"
  gRttEWMA :: int

definition init_stats :: stats where
  "init_stats = \<lparr>gCounters = (\<lambda>_. 0), gRttEWMA = 0\<rparr>"

text \<open>\<open>atomic.Int64.Add\<close>.\<close>

definition counter_add :: "counter \<Rightarrow> int \<Rightarrow> stats \<Rightarrow> stats" where
  "counter_add c n s = s\<lparr>gCounters := (gCounters s)(c := int64 (gCounters s c + n))\<rparr>"

definition RecordStreamOpened :: "stats \<Rightarrow> stats" where
  "RecordStreamOpened = counter_add totalStreamsOpened 1"

definition RecordStreamClosed :: "stats \<Rightarrow> stats" where
  "RecordStreamClosed = counter_add totalStreamsClosed 1"

definition RecordBytesSent :: "int \<Rightarrow> stats \<Rightarrow> stats" where
  "RecordBytesSent n = counter_add bytesSent n"

definition RecordBytesRecv :: "int \<Rightarrow> stats \<Rightarrow> stats" where
  "RecordBytesRecv n = counter_add bytesRecv n"

definition RecordRawBytesSent :: "int \<Rightarrow> stats \<Rightarrow> stats" where
  "RecordRawBytesSent n = counter_add rawBytesSent n"

definition RecordRawBytesRecv :: "int \<Rightarrow> stats \<Rightarrow> stats" where
  "RecordRawBytesRecv n = counter_add rawBytesRecv n"

definition RecordTCPConnection :: "stats \<Rightarrow> stats" where
  "RecordTCPConnection = counter_add tcpConnections 1"

definition RecordUDPAssociation :: "stats \<Rightarrow> stats" where
  "RecordUDPAssociation = counter_add udpAssociations 1"

definition RecordDNSCacheHit :: "stats \<Rightarrow> stats" where
  "RecordDNSCacheHit = counter_add dnsCacheHits 1"

definition RecordDNSCacheMiss :: "stats \<Rightarrow> stats" where
  "RecordDNSCacheMiss = counter_add dnsCacheMisses 1"

definition RecordDNSProxyQuery :: "stats \<Rightarrow> stats" where
  "RecordDNSProxyQuery = counter_add dnsProxyQueries 1"

definition RecordDNSDirectQuery :: "stats \<Rightarrow> stats" where
  "RecordDNSDirectQuery = counter_add dnsDirectQueries 1"

definition RecordPaddingBytes :: "int \<Rightarrow> stats \<Rightarrow> stats" where
  "RecordPaddingBytes n = counter_add paddingBytes n"

definition RecordRecordWritten :: "stats \<Rightarrow> stats" where
  "RecordRecordWritten = counter_add recordsWritten 1"

definition RecordStreamOpenedPriority :: "stats \<Rightarrow> stats" where
  "RecordStreamOpenedPriority = counter_add priorityStreamsOpened 1"

definition RecordStreamOpenedBulk :: "stats \<Rightarrow> stats" where
  "RecordStreamOpenedBulk = counter_add bulkStreamsOpened 1"

definition RecordPriorityFallback :: "stats \<Rightarrow> stats" where
  "RecordPriorityFallback = counter_add priorityFallback 1"

definition RecordBulkFallback :: "stats \<Rightarrow> stats" where
  "RecordBulkFallback = counter_add bulkFallback 1"

definition RecordTierExpiring :: "stats \<Rightarrow> stats" where
  "RecordTierExpiring = counter_add tierExpiringScheduled 1"

definition RecordTierHeavy :: "stats \<Rightarrow> stats" where
  "RecordTierHeavy = counter_add tierHeavyScheduled 1"

definition RecordTierDegraded :: "stats \<Rightarrow> stats" where
  "RecordTierDegraded = counter_add tierDegradedScheduled 1"

definition RecordTierRetiringSkipped :: "stats \<Rightarrow> stats" where
  "RecordTierRetiringSkipped = counter_add tierRetiringSkipped 1"

definition RecordSlotDegraded :: "stats \<Rightarrow> stats" where
  "RecordSlotDegraded = counter_add slotDegraded 1"

definition RecordSlotRetiredDegraded :: "stats \<Rightarrow> stats" where
  "RecordSlotRetiredDegraded = counter_add slotRetiredDegraded 1"

definition RecordConnRotated :: "stats \<Rightarrow> stats" where
  "RecordConnRotated = counter_add connRotated 1"

definition RecordSlotProbeSlow :: "stats \<Rightarrow> stats" where
  "RecordSlotProbeSlow = counter_add slotProbeSlow 1"

definition RecordSlotGrownPriority :: "stats \<Rightarrow> stats" where
  "RecordSlotGrownPriority = counter_add slotGrownPriority 1"

definition RecordSlotGrownBulk :: "stats \<Rightarrow> stats" where
  "RecordSlotGrownBulk = counter_add slotGrownBulk 1"

definition RecordStreamDrained :: "stats \<Rightarrow> stats" where
  "RecordStreamDrained = counter_add streamsDrained 1"

definition RecordSecondConnInGeneration :: "stats \<Rightarrow> stats" where
  "RecordSecondConnInGeneration = counter_add secondConnInGeneration 1"

definition RecordSuspendDetected :: "stats \<Rightarrow> stats" where
  "RecordSuspendDetected = counter_add suspendDetected 1"

definition RecordSuspendReverifyAlive :: "stats \<Rightarrow> stats" where
  "RecordSuspendReverifyAlive = counter_add suspendReverifyAlive 1"

definition RecordSuspendReverifyReplaced :: "stats \<Rightarrow> stats" where
  "RecordSuspendReverifyReplaced = counter_add suspendReverifyReplaced 1"

definition RecordServerTCPStream :: "stats \<Rightarrow> stats" where
  "RecordServerTCPStream = counter_add serverTCPStreams 1"

definition RecordServerUDPStream :: "stats \<Rightarrow> stats" where
  "RecordServerUDPStream = counter_add serverUDPStreams 1"

definition RecordServerICMPStream :: "stats \<Rightarrow> stats" where
  "RecordServerICMPStream = counter_add serverICMPStreams 1"

definition RecordServerHandshakeError :: "stats \<Rightarrow> stats" where
  "RecordServerHandshakeError = counter_add serverHandshakeErrors 1"

definition RecordServerFallbackPage :: "stats \<Rightarrow> stats" where
  "RecordServerFallbackPage = counter_add serverFallbackPages 1"

definition RecordServerProbe :: "stats \<Rightarrow> stats" where
  "RecordServerProbe = counter_add serverProbes 1"

definition RecordServerStreamCancel :: "stats \<Rightarrow> stats" where
  "RecordServerStreamCancel = counter_add serverStreamCancels 1"

definition RecordSlotProbeUnsupported :: "stats \<Rightarrow> stats" where
  "RecordSlotProbeUnsupported = counter_add slotProbeUnsupported 1"

definition RecordSlotProbeGet :: "stats \<Rightarrow> stats" where
  "RecordSlotProbeGet s = counter_add slotProbeGet 1 (counter_add slotProbes 1 s)"

definition RecordSlotProbeHead :: "stats \<Rightarrow> stats" where
  "RecordSlotProbeHead s = counter_add slotProbeHead 1 (counter_add slotProbes 1 s)"

definition counters :: "counter list" where
  "counters =
     [totalStreamsOpened, totalStreamsClosed, bytesSent, bytesRecv, rawBytesSent, rawBytesRecv,
      tcpConnections, udpAssociations, paddingBytes, recordsWritten, dnsCacheHits,
      dnsCacheMisses, dnsProxyQueries, dnsDirectQueries, uploadSpeed, downloadSpeed,
      priorityStreamsOpened, bulkStreamsOpened, priorityFallback, bulkFallback, rttCount,
      tierExpiringScheduled, tierHeavyScheduled, tierDegradedScheduled, tierRetiringSkipped,
      slotDegraded, slotRetiredDegraded, connRotated, secondConnInGeneration, slotProbes,
      slotProbeGet, slotProbeHead, slotProbeSlow, slotProbeUnsupported, slotGrownPriority,
      slotGrownBulk, streamsDrained, suspendDetected, suspendReverifyAlive,
      suspendReverifyReplaced, serverTCPStreams, serverUDPStreams, serverICMPStreams,
      serverHandshakeErrors, serverStreamCancels, serverFallbackPages, serverProbes]"

definition derivedCounters :: "counter list" where
  "derivedCounters = [peakUploadSpeed, peakDownloadSpeed]"

definition ResetCounters :: "stats \<Rightarrow> stats" where
  "ResetCounters s =
     (let g = fold (\<lambda>c g. g(c := 0)) counters (gCounters s);
          g = fold (\<lambda>c g. g(c := 0)) derivedCounters g
      in \<lparr>gCounters = g, gRttEWMA = 0\<rparr>)"

text \<open>
  \<open>Collect\<close>: the integer fields of the snapshot, one for each registered counter under the
  counter's name, and the RTT average. The other fields are strings and times derived from these.
\<close>

record Snapshot =
  snCounters :: "counter \<rightharpoonup> int"
  snRTTEWMA :: int

definition Collect_stats :: "stats \<Rightarrow> Snapshot" where
  "Collect_stats s =
     \<lparr>snCounters = fold (\<lambda>c m. m(c \<mapsto> gCounters s c)) counters Map.empty, snRTTEWMA = gRttEWMA s\<rparr>"

definition AvgRTT :: "Snapshot \<Rightarrow> int" where
  "AvgRTT sn = (if snCounters sn rttCount = Some 0 then 0 else snRTTEWMA sn)"

section \<open>The stream meter\<close>

definition stallThreshold :: int where [simp]: "stallThreshold = 2 ^ 20"
definition stallLogMinGap :: int where [simp]: "stallLogMinGap = 60"

record StreamMeter =
  smComponent :: string
  smTarget :: string
  smTotal :: int
  smLast :: int
  smState :: string
  smLastLoggedAt :: int
  smDone :: bool
  smLoopStarted :: bool

definition NewStreamMeter :: "string \<Rightarrow> string \<Rightarrow> StreamMeter" where
  "NewStreamMeter component target =
     \<lparr>smComponent = component, smTarget = target, smTotal = 0, smLast = 0, smState = ''open'',
      smLastLoggedAt = 0, smDone = False, smLoopStarted = False\<rparr>"

definition SetState :: "StreamMeter \<Rightarrow> string \<Rightarrow> StreamMeter" where
  "SetState m state = (if state \<noteq> [] then m\<lparr>smState := state\<rparr> else m)"

text \<open>\<open>Add\<close>; the second component says whether this call starts the observer.\<close>

definition Meter_Add :: "StreamMeter \<Rightarrow> int \<Rightarrow> string \<Rightarrow> StreamMeter \<times> bool" where
  "Meter_Add m n state =
     (if n > 0 then
        let total = int64 (smTotal m + n);
            start = (total \<ge> stallThreshold \<and> \<not> smLoopStarted m)
        in (SetState (m\<lparr>smTotal := total, smLoopStarted := smLoopStarted m \<or> start\<rparr>) state, start)
      else (SetState m state, False))"

text \<open>\<open>Close\<close>; the second component says whether it waits for the observer to end.\<close>

definition Meter_Close :: "StreamMeter \<Rightarrow> StreamMeter \<times> bool" where
  "Meter_Close m = (m\<lparr>smDone := True\<rparr>, smLoopStarted m)"

text \<open>One tick of the observer's loop at Unix time \<open>now\<close>; the second component is the log line.\<close>

definition Meter_tick :: "int \<Rightarrow> StreamMeter \<Rightarrow> StreamMeter \<times> bool" where
  "Meter_tick now m =
     (let total = smTotal m; lst = smLast m; m = m\<lparr>smLast := total\<rparr>
      in if total \<ge> stallThreshold \<and> total = lst
         then if now - smLastLoggedAt m \<ge> stallLogMinGap
              then (m\<lparr>smLastLoggedAt := now\<rparr>, True) else (m, False)
         else (m, False))"

section \<open>Every recorder\<close>

definition recorders :: "int \<Rightarrow> (stats \<Rightarrow> stats) list" where
  "recorders n =
     [RecordStreamOpened, RecordStreamClosed, RecordBytesSent n, RecordBytesRecv n,
      RecordRawBytesSent n, RecordRawBytesRecv n, RecordTCPConnection, RecordUDPAssociation,
      RecordDNSCacheHit, RecordDNSCacheMiss, RecordDNSProxyQuery, RecordDNSDirectQuery,
      RecordPaddingBytes n, RecordRecordWritten, RecordStreamOpenedPriority,
      RecordStreamOpenedBulk, RecordPriorityFallback, RecordBulkFallback, RecordTierExpiring,
      RecordTierHeavy, RecordTierDegraded, RecordTierRetiringSkipped, RecordSlotDegraded,
      RecordSlotRetiredDegraded, RecordConnRotated, RecordSlotProbeSlow, RecordSlotGrownPriority,
      RecordSlotGrownBulk, RecordStreamDrained, RecordSecondConnInGeneration,
      RecordSuspendDetected, RecordSuspendReverifyAlive, RecordSuspendReverifyReplaced,
      RecordServerTCPStream, RecordServerUDPStream, RecordServerICMPStream,
      RecordServerHandshakeError, RecordServerFallbackPage, RecordServerProbe,
      RecordServerStreamCancel, RecordSlotProbeUnsupported, RecordSlotProbeGet,
      RecordSlotProbeHead]"

lemmas recorder_defs =
  RecordStreamOpened_def RecordStreamClosed_def RecordBytesSent_def
  RecordBytesRecv_def RecordRawBytesSent_def RecordRawBytesRecv_def
  RecordTCPConnection_def RecordUDPAssociation_def RecordDNSCacheHit_def
  RecordDNSCacheMiss_def RecordDNSProxyQuery_def RecordDNSDirectQuery_def
  RecordPaddingBytes_def RecordRecordWritten_def RecordStreamOpenedPriority_def
  RecordStreamOpenedBulk_def RecordPriorityFallback_def RecordBulkFallback_def
  RecordTierExpiring_def RecordTierHeavy_def RecordTierDegraded_def
  RecordTierRetiringSkipped_def RecordSlotDegraded_def RecordSlotRetiredDegraded_def
  RecordConnRotated_def RecordSlotProbeSlow_def RecordSlotGrownPriority_def
  RecordSlotGrownBulk_def RecordStreamDrained_def RecordSecondConnInGeneration_def
  RecordSuspendDetected_def RecordSuspendReverifyAlive_def RecordSuspendReverifyReplaced_def
  RecordServerTCPStream_def RecordServerUDPStream_def RecordServerICMPStream_def
  RecordServerHandshakeError_def RecordServerFallbackPage_def RecordServerProbe_def
  RecordServerStreamCancel_def RecordSlotProbeUnsupported_def RecordSlotProbeGet_def
  RecordSlotProbeHead_def

inductive stats_step :: "stats \<Rightarrow> stats \<Rightarrow> bool" where
  recorded: "f \<in> set (recorders n) \<Longrightarrow> stats_step s (f s)"
| reset: "stats_step s (ResetCounters s)"

inductive_cases stats_stepE: "stats_step s t"

section \<open>Lemmas\<close>

lemma gCounters_add [simp]:
  "gCounters (counter_add c n s) d = (if d = c then int64 (gCounters s c + n) else gCounters s d)"
  by (simp add: counter_add_def)

lemma fold_zero: "fold (\<lambda>c g. g(c := 0)) cs g c = (if c \<in> set cs then 0 else g c :: int)"
  by (induction cs arbitrary: g) auto

lemma fold_collect:
  "fold (\<lambda>c m. m(c \<mapsto> h c)) cs m c = (if c \<in> set cs then Some (h c) else m c)"
  by (induction cs arbitrary: m) auto

lemma counter_registered: "c \<in> set counters \<or> c \<in> set derivedCounters"
  by (cases c) (simp_all add: counters_def derivedCounters_def)

lemma gCounters_Reset [simp]: "gCounters (ResetCounters s) c = 0"
  using counter_registered [of c] by (auto simp: ResetCounters_def Let_def fold_zero)

lemma int64_mod_eq: "a mod 2 ^ 64 = b mod 2 ^ 64 \<Longrightarrow> int64 a = int64 b"
  unfolding int64_def by (metis mod_add_left_eq)

lemma int64_mod [simp]: "int64 a mod 2 ^ 64 = a mod 2 ^ 64"
  unfolding int64_def by (metis add_diff_cancel_right' mod_diff_left_eq)

text \<open>The total of the probe counters is the sum of the two methods, wrap-around included.\<close>

definition probes_sum :: "stats \<Rightarrow> bool" where
  "probes_sum s \<longleftrightarrow>
     gCounters s slotProbes = int64 (gCounters s slotProbeGet + gCounters s slotProbeHead)"

lemma int64_add_both: "int64 (int64 a + b) = int64 (a + b)" "int64 (a + int64 b) = int64 (a + b)"
  by (rule int64_mod_eq; metis int64_mod mod_add_left_eq mod_add_right_eq)+

lemma probes_sum_recorded:
  assumes "probes_sum s" "f \<in> set (recorders n)"
  shows "probes_sum (f s)"
proof -
  have "f = RecordSlotProbeGet \<or> f = RecordSlotProbeHead \<or>
     (\<exists>c k. f = counter_add c k \<and> c \<notin> {slotProbes, slotProbeGet, slotProbeHead})"
    using assms(2) unfolding recorders_def recorder_defs set_simps by auto
  then show ?thesis
    using assms(1)
    by (auto simp: probes_sum_def RecordSlotProbeGet_def RecordSlotProbeHead_def int64_add_both algebra_simps)
qed

interpretation probes: step_invariant "\<lambda>s. s = init_stats" stats_step probes_sum
  by unfold_locales
    (auto elim!: stats_stepE simp: init_stats_def probes_sum_recorded, simp_all add: probes_sum_def int64_def)

section \<open>Runs of a meter\<close>

text \<open>
  The calls on one meter in the order they take effect. A tick reaches the observer only while it
  runs: after it was started and before \<open>Close\<close>. The result is the number of observers started,
  the times of the log lines and the meter.
\<close>

datatype meter_op = OpAdd int string | OpSetState string | OpClose | OpTick int

fun meter_run :: "meter_op list \<Rightarrow> StreamMeter \<Rightarrow> nat \<times> int list \<times> StreamMeter" where
  "meter_run [] m = (0, [], m)"
| "meter_run (OpAdd n st # ops) m =
     (let (m1, start) = Meter_Add m n st; (k, logs, m2) = meter_run ops m1
      in ((if start then 1 else 0) + k, logs, m2))"
| "meter_run (OpSetState st # ops) m = meter_run ops (SetState m st)"
| "meter_run (OpClose # ops) m = meter_run ops (fst (Meter_Close m))"
| "meter_run (OpTick now # ops) m =
     (if smLoopStarted m \<and> \<not> smDone m
      then let (m1, line) = Meter_tick now m; (k, logs, m2) = meter_run ops m1
           in (k, (if line then now # logs else logs), m2)
      else meter_run ops m)"

definition spaced :: "int \<Rightarrow> int list \<Rightarrow> bool" where
  "spaced from logs \<longleftrightarrow> successively (\<lambda>a b. b - a \<ge> 60) (from # logs)"

lemma SetState_fields [simp]:
  "smLoopStarted (SetState m st) = smLoopStarted m" "smLastLoggedAt (SetState m st) = smLastLoggedAt m"
  by (simp_all add: SetState_def)

lemma meter_run_inv:
  "meter_run ops m = (k, logs, m') \<Longrightarrow>
     k + (if smLoopStarted m then 1 else 0) = (if smLoopStarted m' then 1 else 0) \<and>
     spaced (smLastLoggedAt m) logs"
proof (induction ops m arbitrary: k logs m' rule: meter_run.induct)
  case (2 n st ops m)
  then show ?case
    by (cases "meter_run ops (fst (Meter_Add m n st))")
      (fastforce simp: Meter_Add_def Let_def split: prod.splits if_splits)
next
  case (5 now ops m)
  show ?case
  proof (cases "smLoopStarted m \<and> \<not> smDone m")
    case True
    obtain m1 l where t: "Meter_tick now m = (m1, l)" by fastforce
    obtain k' logs' m2 where r: "meter_run ops m1 = (k', logs', m2)" by (metis prod_cases3)
    have IH: "k' + (if smLoopStarted m1 then 1 else 0) = (if smLoopStarted m2 then 1 else 0) \<and>
        spaced (smLastLoggedAt m1) logs'"
      using "5.IH"(1) [OF True t [symmetric] refl r] .
    have "smLoopStarted m1 = smLoopStarted m"
      "l \<Longrightarrow> smLastLoggedAt m1 = now \<and> now - smLastLoggedAt m \<ge> 60"
      "\<not> l \<Longrightarrow> smLastLoggedAt m1 = smLastLoggedAt m"
      using t by (auto simp: Meter_tick_def Let_def split: if_splits)
    then show ?thesis using "5.prems" True t r IH by (auto simp: spaced_def)
  next
    case False
    then show ?thesis using "5.IH"(2) "5.prems" by (auto split: if_splits)
  qed
qed (auto simp: spaced_def Meter_Close_def)

section \<open>Properties\<close>

text \<open>
  Every counter of the process is registered: after any sequence of recordings and resets, a
  reset brings every counter to zero, a snapshot shows every counter except the two peaks with its
  current value, and the number of slot probes is the sum of the GET and the HEAD probes.
\<close>

theorem stats_consistent:
  assumes "reachable_from (\<lambda>s. s = init_stats) stats_step s"
  shows "gCounters (ResetCounters s) c = 0 \<and>
     snCounters (Collect_stats s) c =
       (if c = peakUploadSpeed \<or> c = peakDownloadSpeed then None else Some (gCounters s c)) \<and>
     gCounters s slotProbes = int64 (gCounters s slotProbeGet + gCounters s slotProbeHead)"
proof (intro conjI)
  show "gCounters s slotProbes = int64 (gCounters s slotProbeGet + gCounters s slotProbeHead)"
    using probes.inv_reachable [OF assms] by (simp add: probes_sum_def)
  have "c \<in> set counters \<longleftrightarrow> \<not> (c = peakUploadSpeed \<or> c = peakDownloadSpeed)"
    by (cases c) (simp_all add: counters_def)
  then show "snCounters (Collect_stats s) c =
       (if c = peakUploadSpeed \<or> c = peakDownloadSpeed then None else Some (gCounters s c))"
    by (simp add: Collect_stats_def fold_collect)
qed simp

theorem stats_consistent_witness:
  "gCounters (ResetCounters (RecordSlotProbeGet init_stats)) slotProbes = 0"
proof -
  have "RecordSlotProbeGet \<in> set (recorders 0)" by (simp add: recorders_def)
  then have "stats_step init_stats (RecordSlotProbeGet init_stats)" by (rule stats_step.recorded)
  then have "reachable_from (\<lambda>s. s = init_stats) stats_step (RecordSlotProbeGet init_stats)"
    by (rule reachable_from.step [OF reachable_from.start, rotated]) simp
  from stats_consistent [OF this] show ?thesis by blast
qed

text \<open>
  Whatever the order of calls on a stream meter, at most one observer is ever started, one has
  been started exactly when the meter says so (so \<open>Close\<close> waits only for one that exists), and two
  stall lines are at least 60 seconds apart.
\<close>

theorem meter_observer_once:
  "case meter_run ops (NewStreamMeter component target) of
     (starts, logs, m) \<Rightarrow> starts \<le> 1 \<and> (starts = 1 \<longleftrightarrow> smLoopStarted m) \<and>
       snd (Meter_Close m) = (starts = 1) \<and> successively (\<lambda>a b. b - a \<ge> 60) logs"
proof -
  obtain k logs m where r: "meter_run ops (NewStreamMeter component target) = (k, logs, m)"
    by (metis prod_cases3)
  have "k = (if smLoopStarted m then 1 else 0)" "spaced 0 logs"
    using meter_run_inv [OF r] by (simp_all add: NewStreamMeter_def)
  moreover have "successively (\<lambda>a b. b - a \<ge> 60) logs"
    using \<open>spaced 0 logs\<close> by (cases logs) (auto simp: spaced_def)
  ultimately show ?thesis by (simp add: r Meter_Close_def)
qed

end
