(* ===== verification/Crypto.thy ===== *)
theory Crypto
  imports Protocol Bytespool Stats
begin

text \<open>
  The record layer (\<open>src/crypto\<close>): nonce counters, the record writer and reader, the two-phase key
  schedule of a stream, the additional authenticated data, the frame reader on top of a record
  reader, and the first record of a stream. The AEAD ciphers and the key derivation functions are
  library code: they are the record \<open>crypto_lib\<close>, an argument of the operations that use them, and
  \<open>aead_ok\<close> states what \<open>crypto/cipher\<close> documents about an AEAD. The record writer and reader share
  the byte pool and the counters of the process: \<open>env\<close>. Buffers come from the pool with whatever
  they held before.
\<close>

section \<open>Library interfaces\<close>

record aead =
  NonceSize :: nat
  Overhead :: nat
  Seal :: "bytes \<Rightarrow> bytes \<Rightarrow> bytes \<Rightarrow> bytes"
  Open :: "bytes \<Rightarrow> bytes \<Rightarrow> bytes \<Rightarrow> bytes result"

record crypto_lib =
  lib_pbkdf2 :: "bytes \<Rightarrow> bytes \<Rightarrow> nat \<Rightarrow> nat \<Rightarrow> bytes"
  lib_hkdf :: "bytes \<Rightarrow> bytes \<Rightarrow> bytes \<Rightarrow> bytes"
  lib_gcm :: "bytes \<Rightarrow> aead result"
  lib_chacha :: "bytes \<Rightarrow> aead result"

text \<open>
  What the documentation of \<open>cipher.AEAD\<close> promises: a 12-byte nonce and a 16-byte tag for both
  ciphers in use, ciphertexts of the plaintext's length plus the tag, \<open>Open\<close> inverting \<open>Seal\<close> and
  accepting nothing else.
\<close>

definition aead_ok :: "aead \<Rightarrow> bool" where
  "aead_ok a \<longleftrightarrow> NonceSize a = 12 \<and> Overhead a = 16 \<and>
     (\<forall>n p d. length n = 12 \<longrightarrow> length (Seal a n p d) = length p + 16) \<and>
     (\<forall>n c d p. length n = 12 \<longrightarrow> (Open a n c d = Inr p \<longleftrightarrow> c = Seal a n p d))"

section \<open>Encryptors\<close>

definition Encrypt :: "aead \<Rightarrow> bytes \<Rightarrow> bytes \<Rightarrow> bytes \<Rightarrow> bytes result" where
  "Encrypt a plaintext aad nonce =
     (if length nonce \<noteq> NonceSize a then Inl (Msg ''crypto: invalid nonce size'')
      else Inr (Seal a nonce plaintext aad))"

text \<open>
  \<open>EncryptInto(buf[off:off], ...)\<close>: \<open>Seal\<close> appends to an empty slice of the buffer. It writes in
  place when the capacity behind the slice is large enough and allocates elsewhere when not, in which
  case the buffer keeps its old contents. The result is the ciphertext and the buffer afterwards.
\<close>

definition EncryptInto :: "aead \<Rightarrow> bytes \<Rightarrow> nat \<Rightarrow> bytes \<Rightarrow> bytes \<Rightarrow> bytes \<Rightarrow> (bytes \<times> bytes) result" where
  "EncryptInto a buf off plaintext aad nonce =
     (if length nonce \<noteq> NonceSize a then Inl (Msg ''crypto: invalid nonce size'')
      else let ct = Seal a nonce plaintext aad
           in Inr (ct, if off + length ct \<le> length buf
                       then take off buf @ ct @ drop (off + length ct) buf else buf))"

definition Decrypt :: "aead \<Rightarrow> bytes \<Rightarrow> bytes \<Rightarrow> bytes \<Rightarrow> bytes result" where
  "Decrypt a ciphertext aad nonce =
     (if length nonce \<noteq> NonceSize a then Inl (Msg ''crypto: invalid nonce size'')
      else case Open a nonce ciphertext aad of Inl e \<Rightarrow> Inl e | Inr p \<Rightarrow> Inr p)"

definition NewAES256GCM :: "crypto_lib \<Rightarrow> bytes \<Rightarrow> aead result" where
  "NewAES256GCM lib key =
     (if length key \<noteq> 32 then Inl (Msg ''crypto: AES-256-GCM requires 32-byte key'')
      else lib_gcm lib key)"

definition NewChaCha20Poly1305 :: "crypto_lib \<Rightarrow> bytes \<Rightarrow> aead result" where
  "NewChaCha20Poly1305 lib key =
     (if length key \<noteq> 32 then Inl (Msg ''crypto: ChaCha20-Poly1305 requires 32-byte key'')
      else lib_chacha lib key)"

section \<open>Nonce counters\<close>

record CounterNonce =
  cnCtr :: "64 word"
  cnPrefix :: bytes

definition NewCounterNonce :: "bytes \<Rightarrow> CounterNonce" where
  "NewCounterNonce prefix = \<lparr>cnCtr = 0, cnPrefix = prefix\<rparr>"

definition Next :: "CounterNonce \<Rightarrow> bytes \<times> CounterNonce" where
  "Next cn = (let ctr = cnCtr cn + 1
              in (cnPrefix cn @ put_uint64 (ctr - 1), cn\<lparr>cnCtr := ctr\<rparr>))"

section \<open>Writers and readers of the standard library\<close>

text \<open>
  An \<open>io.Writer\<close> is its state and its \<open>Write\<close> method: the state afterwards, the number of bytes
  taken and the error, if any. An \<open>io.Reader\<close> is the bytes it will deliver and the error it reports
  after them; \<open>io.ReadFull\<close> turns an end of file in the middle into \<open>io.ErrUnexpectedEOF\<close>.
\<close>

type_synonym 'w writer = "'w \<Rightarrow> bytes \<Rightarrow> 'w \<times> nat \<times> go_error option"

definition buffer_writer :: "bytes writer" where
  "buffer_writer w p = (w @ p, length p, None)"

record src =
  sData :: bytes
  sErr :: go_error

definition ReadFull :: "src \<Rightarrow> nat \<Rightarrow> bytes result \<times> src" where
  "ReadFull r n =
     (if n \<le> length (sData r) then (Inr (take n (sData r)), r\<lparr>sData := drop n (sData r)\<rparr>)
      else if sErr r = io_EOF \<and> sData r \<noteq> [] then (Inl io_ErrUnexpectedEOF, r\<lparr>sData := []\<rparr>)
      else (Inl (sErr r), r\<lparr>sData := []\<rparr>))"

definition writeFully :: "'w writer \<Rightarrow> 'w \<Rightarrow> bytes \<Rightarrow> unit result \<times> 'w" where
  "writeFully wr w p =
     (case wr w p of (w', n, err) \<Rightarrow>
        (case err of Some e \<Rightarrow> (Inl e, w')
         | None \<Rightarrow> if n \<noteq> length p then (Inl io_ErrShortWrite, w') else (Inr (), w')))"

section \<open>The shared environment\<close>

text \<open>
  The package-level allocator and the counters, and what the run-time decides: \<open>ePick\<close> is which of
  its buffers the pool hands out at the n-th request.
\<close>

record env =
  ePool :: Allocator
  ePick :: "nat \<Rightarrow> nat"
  eTick :: nat
  eStats :: stats

definition bytespool_Get :: "env \<Rightarrow> int \<Rightarrow> (bytes \<times> nat) option \<times> env" where
  "bytespool_Get env sz =
     (case Get (ePool env) (ePick env (eTick env)) sz of
        (r, al) \<Rightarrow> (r, env\<lparr>ePool := al, eTick := Suc (eTick env)\<rparr>))"

definition bytespool_MustPut :: "env \<Rightarrow> bytes \<Rightarrow> unit result \<times> env" where
  "bytespool_MustPut env buf =
     (case MustPut (ePool env) buf of (r, al) \<Rightarrow> (r, env\<lparr>ePool := al\<rparr>))"

definition with_stats :: "(stats \<Rightarrow> stats) \<Rightarrow> env \<Rightarrow> env" where
  "with_stats f env = env\<lparr>eStats := f (eStats env)\<rparr>"

section \<open>Records\<close>

definition MaxCipherRecordSize :: nat where
  [simp]: "MaxCipherRecordSize = MaxReadRecordPlaintext + 16"

record RecordWriter =
  rwEnc :: aead
  rwCounter :: CounterNonce
  rwAad :: bytes
  rwMaxPlain :: nat

definition NewRecordWriter :: "aead \<Rightarrow> CounterNonce \<Rightarrow> bytes \<Rightarrow> RecordWriter" where
  "NewRecordWriter enc counter aad =
     \<lparr>rwEnc = enc, rwCounter = counter, rwAad = aad, rwMaxPlain = MaxWriteRecordPlaintext\<rparr>"

text \<open>The three length bytes, most significant first.\<close>

definition cipher_len_bytes :: "nat \<Rightarrow> bytes" where
  "cipher_len_bytes n = [word_of_nat (drop_bit 16 n), word_of_nat (drop_bit 8 n), word_of_nat n]"

definition cipher_len_of :: "bytes \<Rightarrow> nat" where
  "cipher_len_of b = push_bit 16 (unat (b ! 0)) OR push_bit 8 (unat (b ! 1)) OR unat (b ! 2)"

text \<open>The result, the writer with its counter, the underlying writer and the environment.\<close>

definition WriteRecord ::
  "'w writer \<Rightarrow> env \<Rightarrow> RecordWriter \<Rightarrow> 'w \<Rightarrow> bytes \<Rightarrow> unit result \<times> RecordWriter \<times> 'w \<times> env" where
  "WriteRecord wr env rw w plaintext =
     (if length plaintext > rwMaxPlain rw
      then (Inl (Msg ''crypto: plaintext exceeds max bytes''), rw, w, env)
      else
        (let (nonce, counter) = Next (rwCounter rw);
             rw' = rw\<lparr>rwCounter := counter\<rparr>;
             cipherLen = length plaintext + Overhead (rwEnc rw)
         in if cipherLen > 0xFFFFFF
            then (Inl (Msg ''crypto: ciphertext too large''), rw', w, env)
            else
              (case bytespool_Get env (int (MaxCipherLenSize + cipherLen)) of
                 (None, env1) \<Rightarrow> (Inl (Panic ''slice bounds out of range''), rw', w, env1)
               | (Some (buf, _), env1) \<Rightarrow>
                   (case EncryptInto (rwEnc rw) buf MaxCipherLenSize plaintext (rwAad rw) nonce of
                      Inl e \<Rightarrow>
                        (case bytespool_MustPut env1 buf of
                           (Inl pe, env2) \<Rightarrow> (Inl pe, rw', w, env2)
                         | (Inr _, env2) \<Rightarrow> (Inl (Wrap ''crypto: encrypt record'' [e]), rw', w, env2))
                    | Inr (ciphertext, buf') \<Rightarrow>
                        (let n = MaxCipherLenSize + length ciphertext
                         in if n > length buf'
                            then (Inl (Panic ''slice bounds out of range''), rw', w, env1)
                            else
                              (let buf2 = cipher_len_bytes cipherLen @ drop 3 buf';
                                   record = take n buf2;
                                   (werr, w') = writeFully wr w record
                               in case bytespool_MustPut env1 buf2 of
                                    (Inl pe, env2) \<Rightarrow> (Inl pe, rw', w', env2)
                                  | (Inr _, env2) \<Rightarrow>
                                      (case werr of
                                         Inl e \<Rightarrow> (Inl (Wrap ''crypto: write record'' [e]), rw', w', env2)
                                       | Inr _ \<Rightarrow>
                                           (Inr (), rw', w',
                                            with_stats (RecordRecordWritten \<circ>
                                              RecordBytesSent (int (length record))) env2))))))))"

record RecordReader =
  rrSrc :: src
  rrEnc :: aead
  rrCounter :: CounterNonce
  rrAad :: bytes

definition NewRecordReader :: "src \<Rightarrow> aead \<Rightarrow> CounterNonce \<Rightarrow> bytes \<Rightarrow> RecordReader" where
  "NewRecordReader r enc counter aad = \<lparr>rrSrc = r, rrEnc = enc, rrCounter = counter, rrAad = aad\<rparr>"

definition ReadRecord :: "env \<Rightarrow> RecordReader \<Rightarrow> bytes result \<times> RecordReader \<times> env" where
  "ReadRecord env rr =
     (case ReadFull (rrSrc rr) MaxCipherLenSize of
        (Inl e, r) \<Rightarrow>
          (if errors_is e io_EOF then (Inl io_EOF, rr\<lparr>rrSrc := r\<rparr>, env)
           else (Inl (Wrap ''crypto: read cipher_len'' [e]), rr\<lparr>rrSrc := r\<rparr>, env))
      | (Inr lenBuf, r) \<Rightarrow>
          (let cipherLen = cipher_len_of lenBuf
           in if cipherLen = 0
              then (Inl (Msg ''crypto: zero-length ciphertext''), rr\<lparr>rrSrc := r\<rparr>, env)
              else if cipherLen > MaxCipherRecordSize
              then (Inl (Msg ''crypto: ciphertext exceeds max''), rr\<lparr>rrSrc := r\<rparr>, env)
              else
                (case bytespool_Get env (int cipherLen) of
                   (None, env1) \<Rightarrow> (Inl (Panic ''no buffer''), rr\<lparr>rrSrc := r\<rparr>, env1)
                 | (Some (buf, _), env1) \<Rightarrow>
                     (let got = take cipherLen (sData r);
                          buf' = got @ drop (length got) buf
                      in case ReadFull r cipherLen of
                           (Inl e, r) \<Rightarrow>
                             (case bytespool_MustPut env1 buf' of
                                (Inl pe, env2) \<Rightarrow> (Inl pe, rr\<lparr>rrSrc := r\<rparr>, env2)
                              | (Inr _, env2) \<Rightarrow>
                                  (Inl (Wrap ''crypto: read ciphertext'' [e]), rr\<lparr>rrSrc := r\<rparr>, env2))
                         | (Inr ciphertext, r) \<Rightarrow>
                             (let (nonce, counter) = Next (rrCounter rr);
                                  rr' = rr\<lparr>rrSrc := r, rrCounter := counter\<rparr>
                              in case bytespool_MustPut env1 buf' of
                                   (Inl pe, env2) \<Rightarrow> (Inl pe, rr', env2)
                                 | (Inr _, env2) \<Rightarrow>
                                     (case Decrypt (rrEnc rr) ciphertext (rrAad rr) nonce of
                                        Inl e \<Rightarrow> (Inl (Wrap ''crypto: decrypt record'' [e]), rr', env2)
                                      | Inr plaintext \<Rightarrow>
                                          (Inr plaintext, rr',
                                           with_stats (RecordBytesRecv
                                             (int (MaxCipherLenSize + cipherLen))) env2)))))))"

section \<open>Key schedule\<close>

definition saltSize :: nat where [simp]: "saltSize = 16"
definition keySize :: nat where [simp]: "keySize = 32"
definition masterKDFIterations :: nat where [simp]: "masterKDFIterations = 100000"
definition masterKDFInfo :: string where [simp]: "masterKDFInfo = ''easyss-v3-master''"
definition bootstrapKDFInfo :: string where [simp]: "bootstrapKDFInfo = ''easyss-v3-bootstrap''"
definition sessionKDFInfo :: string where [simp]: "sessionKDFInfo = ''easyss-v3-session''"

definition ErrPasswordEmpty :: go_error where
  "ErrPasswordEmpty = Sentinel ''crypto: password is empty''"

definition DeriveMasterKey :: "crypto_lib \<Rightarrow> string \<Rightarrow> bytes result" where
  "DeriveMasterKey lib password =
     (if password = [] then Inl ErrPasswordEmpty
      else let key = lib_pbkdf2 lib (bytes_of_string password) (bytes_of_string masterKDFInfo)
                       masterKDFIterations keySize
           in if length key \<noteq> keySize then Inl (Msg ''crypto: failed to derive master key'')
              else Inr key)"

text \<open>The \<open>io.Reader\<close> that \<open>hkdf.New\<close> returns: it fails after its 255 blocks of 32 bytes.\<close>

definition hkdf_reader :: "crypto_lib \<Rightarrow> bytes \<Rightarrow> bytes \<Rightarrow> string \<Rightarrow> src" where
  "hkdf_reader lib secret salt info =
     \<lparr>sData = lib_hkdf lib secret salt (bytes_of_string info),
      sErr = Msg ''hkdf: entropy limit reached''\<rparr>"

record BootstrapKeys =
  bkKey :: bytes
  bkNoncePrefix :: bytes

definition DeriveBootstrapKeys :: "crypto_lib \<Rightarrow> bytes \<Rightarrow> bytes \<Rightarrow> BootstrapKeys result" where
  "DeriveBootstrapKeys lib masterKey salt =
     (case ReadFull (hkdf_reader lib masterKey salt bootstrapKDFInfo) 32 of
        (Inl e, _) \<Rightarrow> Inl e
      | (Inr key, r) \<Rightarrow>
          (case ReadFull r 4 of
             (Inl e, _) \<Rightarrow> Inl e
           | (Inr prefix, _) \<Rightarrow> Inr \<lparr>bkKey = key, bkNoncePrefix = prefix\<rparr>))"

record SessionKeys =
  skC2SKey :: bytes
  skS2CKey :: bytes
  skC2SNoncePrefix :: bytes
  skS2CNoncePrefix :: bytes

definition DeriveSessionKeys :: "crypto_lib \<Rightarrow> bytes \<Rightarrow> bytes \<Rightarrow> SessionKeys result" where
  "DeriveSessionKeys lib masterKey salt =
     (case ReadFull (hkdf_reader lib masterKey salt sessionKDFInfo) 32 of
        (Inl e, _) \<Rightarrow> Inl e
      | (Inr c2s, r) \<Rightarrow>
          (case ReadFull r 32 of
             (Inl e, _) \<Rightarrow> Inl e
           | (Inr s2c, r) \<Rightarrow>
               (case ReadFull r 4 of
                  (Inl e, _) \<Rightarrow> Inl e
                | (Inr c2sp, r) \<Rightarrow>
                    (case ReadFull r 4 of
                       (Inl e, _) \<Rightarrow> Inl e
                     | (Inr s2cp, _) \<Rightarrow>
                         Inr \<lparr>skC2SKey = c2s, skS2CKey = s2c, skC2SNoncePrefix = c2sp,
                              skS2CNoncePrefix = s2cp\<rparr>))))"

section \<open>Stream keys\<close>

definition bootstrapPhase :: string where [simp]: "bootstrapPhase = ''bootstrap''"
definition sessionPhase :: string where [simp]: "sessionPhase = ''session''"

type_synonym Direction = byte

definition DirC2S :: Direction where [simp]: "DirC2S = 1"
definition DirS2C :: Direction where [simp]: "DirS2C = 2"

definition Direction_String :: "Direction \<Rightarrow> string" where
  "Direction_String d = (if d = DirC2S then ''c2s'' else if d = DirS2C then ''s2c'' else ''unknown'')"

record StreamKeys =
  stMasterKey :: bytes
  stSalt :: bytes
  stEndpoint :: string
  stBootstrapEncryptor :: aead
  stBootstrapNoncePrefix :: bytes
  stSessionKeys :: SessionKeys

definition NewStreamKeys :: "crypto_lib \<Rightarrow> bytes \<Rightarrow> bytes \<Rightarrow> string \<Rightarrow> StreamKeys result" where
  "NewStreamKeys lib masterKey salt endpoint =
     (if length masterKey \<noteq> keySize then Inl (Msg ''crypto: master key must be 32 bytes'')
      else if length salt \<noteq> saltSize then Inl (Msg ''crypto: salt must be 16 bytes'')
      else
        (case DeriveBootstrapKeys lib masterKey salt of
           Inl e \<Rightarrow> Inl (Wrap ''crypto: derive bootstrap keys'' [e])
         | Inr bk \<Rightarrow>
             (case NewAES256GCM lib (bkKey bk) of
                Inl e \<Rightarrow> Inl (Wrap ''crypto: new bootstrap encryptor'' [e])
              | Inr bootstrapEnc \<Rightarrow>
                  (case DeriveSessionKeys lib masterKey salt of
                     Inl e \<Rightarrow> Inl (Wrap ''crypto: derive session keys'' [e])
                   | Inr sk \<Rightarrow>
                       Inr \<lparr>stMasterKey = masterKey, stSalt = salt, stEndpoint = endpoint,
                            stBootstrapEncryptor = bootstrapEnc,
                            stBootstrapNoncePrefix = bkNoncePrefix bk,
                            stSessionKeys = sk\<rparr>))))"

definition buildAAD :: "string \<Rightarrow> bytes \<Rightarrow> string \<Rightarrow> string \<Rightarrow> Method \<Rightarrow> bytes" where
  "buildAAD endpoint salt direction phase method =
     bytes_of_string (''easyss-v3'' @ endpoint) @ salt @
     bytes_of_string ''/'' @ bytes_of_string direction @
     bytes_of_string ''/'' @ bytes_of_string phase @
     bytes_of_string ''/'' @ bytes_of_string (Method_String method)"

definition stream_aad :: "StreamKeys \<Rightarrow> Direction \<Rightarrow> string \<Rightarrow> Method \<Rightarrow> bytes" where
  "stream_aad sk dir phase method =
     buildAAD (stEndpoint sk) (stSalt sk) (Direction_String dir) phase method"

definition newEncryptor ::
  "crypto_lib \<Rightarrow> StreamKeys \<Rightarrow> string \<Rightarrow> Direction \<Rightarrow> Method \<Rightarrow> (aead \<times> CounterNonce) result" where
  "newEncryptor lib sk phase dir method =
     (if phase = bootstrapPhase
      then Inr (stBootstrapEncryptor sk, NewCounterNonce (stBootstrapNoncePrefix sk))
      else if phase = sessionPhase then
        (case (if dir = DirC2S
               then Inr (skC2SKey (stSessionKeys sk), skC2SNoncePrefix (stSessionKeys sk))
               else if dir = DirS2C
               then Inr (skS2CKey (stSessionKeys sk), skS2CNoncePrefix (stSessionKeys sk))
               else Inl (Msg ''crypto: invalid direction'')) of
           Inl e \<Rightarrow> Inl e
         | Inr (key, noncePrefix) \<Rightarrow>
             (case (if method = MethodAES256GCM then NewAES256GCM lib key
                    else if method = MethodChaCha20Poly1305 then NewChaCha20Poly1305 lib key
                    else Inl (Msg ''crypto: unsupported method'')) of
                Inl e \<Rightarrow> Inl e
              | Inr enc \<Rightarrow> Inr (enc, NewCounterNonce noncePrefix)))
      else Inl (Msg ''crypto: invalid phase''))"

definition newRecordWriter ::
  "crypto_lib \<Rightarrow> StreamKeys \<Rightarrow> string \<Rightarrow> Direction \<Rightarrow> Method \<Rightarrow> RecordWriter result" where
  "newRecordWriter lib sk phase dir method =
     (case newEncryptor lib sk phase dir method of
        Inl e \<Rightarrow> Inl e
      | Inr (enc, counter) \<Rightarrow> Inr (NewRecordWriter enc counter (stream_aad sk dir phase method)))"

definition BootstrapWriter :: "crypto_lib \<Rightarrow> StreamKeys \<Rightarrow> RecordWriter result" where
  "BootstrapWriter lib sk = newRecordWriter lib sk bootstrapPhase DirC2S MethodAES256GCM"

definition NewWriter :: "crypto_lib \<Rightarrow> StreamKeys \<Rightarrow> Direction \<Rightarrow> Method \<Rightarrow> RecordWriter result" where
  "NewWriter lib sk dir method = newRecordWriter lib sk sessionPhase dir method"

definition StreamKeys_NewRecordReader ::
  "crypto_lib \<Rightarrow> StreamKeys \<Rightarrow> src \<Rightarrow> Direction \<Rightarrow> Method \<Rightarrow> RecordReader result" where
  "StreamKeys_NewRecordReader lib sk r dir method =
     (case newEncryptor lib sk sessionPhase dir method of
        Inl e \<Rightarrow> Inl e
      | Inr (enc, counter) \<Rightarrow> Inr (NewRecordReader r enc counter (stream_aad sk dir sessionPhase method)))"

section \<open>Reading frames\<close>

record DecryptedReader =
  drReader :: RecordReader
  drFrames :: "Frame list"

definition NewDecryptedReader :: "src \<Rightarrow> bytes \<Rightarrow> aead \<Rightarrow> CounterNonce \<Rightarrow> DecryptedReader" where
  "NewDecryptedReader r aad encryptor counter =
     \<lparr>drReader = NewRecordReader r encryptor counter aad, drFrames = []\<rparr>"

definition NewReader ::
  "crypto_lib \<Rightarrow> StreamKeys \<Rightarrow> src \<Rightarrow> Direction \<Rightarrow> Method \<Rightarrow> DecryptedReader result" where
  "NewReader lib sk r dir method =
     (case newEncryptor lib sk sessionPhase dir method of
        Inl e \<Rightarrow> Inl e
      | Inr (enc, counter) \<Rightarrow> Inr (NewDecryptedReader r (stream_aad sk dir sessionPhase method) enc counter))"

definition SetLeftoverFrames :: "DecryptedReader \<Rightarrow> Frame list \<Rightarrow> DecryptedReader" where
  "SetLeftoverFrames dr frames = dr\<lparr>drFrames := frames\<rparr>"

function decodeFramesIntoBuf :: "bytes \<Rightarrow> Frame list \<Rightarrow> Frame list result" where
  "decodeFramesIntoBuf plaintext frames =
     (if length plaintext > 0 then
        (case DecodeFrame plaintext of
           Inl e \<Rightarrow> Inl e
         | Inr (f, n) \<Rightarrow> decodeFramesIntoBuf (drop n plaintext) (frames @ [f]))
      else Inr frames)"
  by pat_completeness auto
termination
  by (relation "measure (\<lambda>(plaintext, frames). length plaintext)")
    (auto dest: frame_codec.dec_shrinks)

declare decodeFramesIntoBuf.simps [simp del]

definition ReadFrame :: "env \<Rightarrow> DecryptedReader \<Rightarrow> Frame result \<times> DecryptedReader \<times> env" where
  "ReadFrame env dr =
     (case drFrames dr of
        f # fs \<Rightarrow> (Inr f, dr\<lparr>drFrames := fs\<rparr>, env)
      | [] \<Rightarrow>
          (case ReadRecord env (drReader dr) of
             (Inl e, rr, env1) \<Rightarrow> (Inl e, dr\<lparr>drReader := rr\<rparr>, env1)
           | (Inr plaintext, rr, env1) \<Rightarrow>
               (case decodeFramesIntoBuf plaintext [] of
                  Inl e \<Rightarrow> (Inl e, dr\<lparr>drReader := rr\<rparr>, env1)
                | Inr frames \<Rightarrow>
                    (case frames of
                       [] \<Rightarrow> (Inl io_ErrUnexpectedEOF, dr\<lparr>drReader := rr\<rparr>, env1)
                     | f # fs \<Rightarrow> (Inr f, dr\<lparr>drReader := rr, drFrames := fs\<rparr>, env1)))))"

section \<open>The first record\<close>

record FirstRecord =
  frHandshake :: Handshake
  frLeftover :: "Frame list"

text \<open>The result, what is left of the source and the environment.\<close>

definition ReadFirstRecord ::
  "crypto_lib \<Rightarrow> env \<Rightarrow> StreamKeys \<Rightarrow> src \<Rightarrow> FirstRecord result \<times> src \<times> env" where
  "ReadFirstRecord lib env sk source =
     (case newEncryptor lib sk bootstrapPhase DirC2S MethodAES256GCM of
        Inl e \<Rightarrow> (Inl (Wrap ''crypto: read first record'' [e]), source, env)
      | Inr (enc, counter) \<Rightarrow>
          (case ReadRecord env (NewRecordReader source enc counter
                  (stream_aad sk DirC2S bootstrapPhase MethodAES256GCM)) of
             (Inl e, rr, env1) \<Rightarrow> (Inl (Wrap ''crypto: read first record'' [e]), rrSrc rr, env1)
           | (Inr plaintext, rr, env1) \<Rightarrow>
               ((case DecodeFrame plaintext of
                   Inl e \<Rightarrow> Inl (Wrap ''crypto: read first frame'' [e])
                 | Inr (frame, n) \<Rightarrow>
                     (if fType frame \<noteq> FrameHANDSHAKE
                      then Inl (Msg ''crypto: expected HANDSHAKE frame'')
                      else
                        (case DecodeHandshake (fPayload frame) of
                           Inl e \<Rightarrow> Inl (Wrap ''crypto: decode handshake'' [e])
                         | Inr handshake \<Rightarrow>
                             (case decodeFramesIntoBuf (drop n plaintext) [] of
                                Inl e \<Rightarrow> Inl (Wrap ''crypto: decode leftover frames'' [e])
                              | Inr leftover \<Rightarrow>
                                  Inr \<lparr>frHandshake = handshake, frLeftover = leftover\<rparr>)))),
                rrSrc rr, env1)))"

definition ErrHandshakeTimeout :: go_error where
  "ErrHandshakeTimeout = Sentinel ''crypto: bootstrap handshake timeout''"

text \<open>
  \<open>ReadFirstRecordWithTimeout\<close> waits for the first of three events; \<open>TimerFired\<close> says whether the
  reading goroutine has delivered by then. The second component reports whether the source is closed.
\<close>

datatype wait_event = CtxDone go_error | TimerFired bool | ResultReady

fun ReadFirstRecordWithTimeout :: "wait_event \<Rightarrow> FirstRecord result \<Rightarrow> FirstRecord result \<times> bool" where
  "ReadFirstRecordWithTimeout (CtxDone err) res = (Inl err, True)"
| "ReadFirstRecordWithTimeout (TimerFired delivered) res =
     (if delivered then (res, False)
      else (Inl (Wrap ''after timeout'' [ErrHandshakeTimeout]), True))"
| "ReadFirstRecordWithTimeout ResultReady res = (res, False)"

end
