(* ===== verification/Records.thy ===== *)
theory Records
  imports Crypto
begin

unbundle bit_operations_syntax

text \<open>
  The correctness of the record layer: the length prefix, one record written and read over a pool
  with dirty buffers, sequences of records, nonces, additional data, frames inside records, and the
  stream keys. The properties are the round trips, the authenticity and the uniqueness of nonces.
\<close>

section \<open>The length prefix\<close>

lemma unat_byte_less [simp]: "unat (b :: byte) < 256"
  using unsigned_less [of b] by simp

lemma cipher_len_of_eq:
  "cipher_len_of [a, b, c] = 65536 * unat a + 256 * unat b + unat c"
proof -
  have bits: "\<not> bit (unat w) n" if "8 \<le> n" for w :: byte and n
    using that by (simp add: bit_unsigned_iff)
  have "push_bit 8 (unat b) OR unat c = push_bit 8 (unat b) + unat c"
    by (rule disjunctive_add [symmetric]) (auto simp: bit_push_bit_iff bits)
  then have low: "push_bit 8 (unat b) OR unat c = 256 * unat b + unat c"
    by (simp add: push_bit_eq_mult)
  have "\<not> bit (256 * unat b + unat c) n" if "16 \<le> n" for n
    using that unfolding low [symmetric] by (auto simp: bit_simps bits)
  then have "push_bit 16 (unat a) OR (256 * unat b + unat c) = push_bit 16 (unat a) + (256 * unat b + unat c)"
    by (intro disjunctive_add [symmetric]) (auto simp: bit_push_bit_iff)
  then have "push_bit 16 (unat a) OR (256 * unat b + unat c) = 65536 * unat a + (256 * unat b + unat c)"
    by (simp add: push_bit_eq_mult)
  then show ?thesis by (simp add: cipher_len_of_def low numeral_2_eq_2 or.assoc)
qed

lemma cipher_len_roundtrip [codec_simps]:
  assumes "n < 2 ^ 24"
  shows "cipher_len_of (cipher_len_bytes n) = n"
proof -
  have "n div 65536 < 256" using assms by simp
  moreover have "n div 65536 = n div 256 div 256"
    using div_mult2_eq [of n 256 256] by simp
  then have "65536 * (n div 65536) + 256 * (n div 256 mod 256) + n mod 256 = n"
    using div_mult_mod_eq [of n 256] div_mult_mod_eq [of "n div 256" 256] by linarith
  ultimately show ?thesis
    unfolding cipher_len_bytes_def cipher_len_of_eq
    by (simp add: unat_of_nat drop_bit_eq_div)
qed

lemma cipher_len_bytes_of:
  "cipher_len_bytes (cipher_len_of [a, b, c]) = [a, b, c]"
proof -
  have "(65536 * unat a + 256 * unat b + unat c) div 65536 = unat a"
    "(65536 * unat a + 256 * unat b + unat c) div 256 = 256 * unat a + unat b"
    using unat_byte_less [of a] unat_byte_less [of b] unat_byte_less [of c] by linarith+
  moreover have "256 * x = 0" "65536 * x = 0" for x :: byte
    using arg_cong [of "256 :: byte" 0 "\<lambda>y. y * x"] arg_cong [of "65536 :: byte" 0 "\<lambda>y. y * x"] by simp_all
  ultimately show ?thesis
    unfolding cipher_len_of_eq cipher_len_bytes_def
    by (simp add: drop_bit_eq_div)
qed

lemma length_cipher_len_bytes [simp]: "length (cipher_len_bytes n) = 3"
  by (simp add: cipher_len_bytes_def)

section \<open>The pool as the record layer sees it\<close>

definition env_ok :: "env \<Rightarrow> bool" where
  "env_ok env \<longleftrightarrow> alloc_inv (ePool env)"

lemma bytespool_Get_served:
  assumes "env_ok env" "0 < n" "n \<le> 131072"
  shows "\<exists>buf env'. bytespool_Get env (int n) = (Some (buf, n), env') \<and> n \<le> length buf \<and>
     (\<exists>k < 18. length buf = 2 ^ k) \<and> env_ok env' \<and> eStats env' = eStats env"
proof -
  obtain buf q where g: "Get (ePool env) (ePick env (eTick env)) (int n) = (Some (buf, n), q)"
    "n \<le> length buf" "\<exists>k < 18. length buf = 2 ^ k"
    using alloc.get_served [of "ePool env" "int n" "ePick env (eTick env)"] assms
    by (auto simp: env_ok_def)
  moreover have "alloc_inv q" using alloc.get_ok [OF _ g(1)] assms(1) by (simp add: env_ok_def)
  ultimately show ?thesis by (simp add: bytespool_Get_def env_ok_def)
qed

lemma bytespool_MustPut_class:
  assumes "env_ok env" "k < 18" "length buf = 2 ^ k"
  shows "\<exists>env'. bytespool_MustPut env buf = (Inr (), env') \<and> env_ok env' \<and> eStats env' = eStats env"
proof -
  obtain al where "MustPut (ePool env) buf = (Inr (), al)" "alloc_inv al"
    using MustPut_class [of "ePool env" k buf] assms by (auto simp: env_ok_def)
  then show ?thesis by (simp add: bytespool_MustPut_def env_ok_def)
qed

lemma env_ok_stats [simp]: "env_ok (with_stats f env) = env_ok env"
  by (simp add: env_ok_def with_stats_def)

section \<open>One record\<close>

text \<open>What the writer puts on the wire for one plaintext.\<close>

definition record_bytes :: "aead \<Rightarrow> CounterNonce \<Rightarrow> bytes \<Rightarrow> bytes \<Rightarrow> bytes" where
  "record_bytes a cn aad p =
     cipher_len_bytes (length p + 16) @ Seal a (fst (Next cn)) p aad"

definition nonce_ok :: "CounterNonce \<Rightarrow> bool" where
  "nonce_ok cn \<longleftrightarrow> length (cnPrefix cn) = 4"

lemma Next_simps [simp]:
  "cnPrefix (snd (Next cn)) = cnPrefix cn" "cnCtr (snd (Next cn)) = cnCtr cn + 1"
  "nonce_ok (snd (Next cn)) = nonce_ok cn" "nonce_ok cn \<Longrightarrow> length (fst (Next cn)) = 12"
  by (simp_all add: Next_def nonce_ok_def Let_def)

lemma aead_okD:
  assumes "aead_ok a"
  shows "NonceSize a = 12" "Overhead a = 16" "length n = 12 \<Longrightarrow> length (Seal a n p d) = length p + 16"
    "length n = 12 \<Longrightarrow> Open a n c d = Inr p \<longleftrightarrow> c = Seal a n p d"
  using assms by (auto simp: aead_ok_def)

lemma Decrypt_iff:
  "aead_ok a \<Longrightarrow> length n = 12 \<Longrightarrow> Decrypt a c d n = Inr p \<longleftrightarrow> c = Seal a n p d"
proof -
  assume a: "aead_ok a" and n: "length n = 12"
  have "Decrypt a c d n = Open a n c d"
    using aead_okD(1) [OF a] n by (cases "Open a n c d") (simp_all add: Decrypt_def)
  then show ?thesis using aead_okD(4) [OF a n] by simp
qed

lemma WriteRecord_eq:
  assumes a: "aead_ok (rwEnc rw)" and n: "nonce_ok (rwCounter rw)" and env: "env_ok env"
    and len: "length p \<le> rwMaxPlain rw" "rwMaxPlain rw \<le> 65517"
  shows "\<exists>env'. env_ok env' \<and> eStats env' = eStats env \<and>
    WriteRecord wr env rw w p =
      (let b = record_bytes (rwEnc rw) (rwCounter rw) (rwAad rw) p;
           rw' = rw\<lparr>rwCounter := snd (Next (rwCounter rw))\<rparr>
       in case writeFully wr w b of
            (Inl e, w') \<Rightarrow> (Inl (Wrap ''crypto: write record'' [e]), rw', w', env')
          | (Inr _, w') \<Rightarrow> (Inr (), rw', w', with_stats (RecordRecordWritten \<circ>
               RecordBytesSent (int (length p + 19))) env'))"
proof -
  obtain nonce cn where nx: "Next (rwCounter rw) = (nonce, cn)" by fastforce
  have n12: "length nonce = 12" using Next_simps(4) [OF n] nx by simp
  define ct where "ct = Seal (rwEnc rw) nonce p (rwAad rw)"
  have ctl: "length ct = length p + 16" unfolding ct_def using aead_okD(3) [OF a n12] by simp
  obtain buf env1 k where g: "bytespool_Get env (int (MaxCipherLenSize + (length p + 16))) =
      (Some (buf, 3 + (length p + 16)), env1)" "3 + (length p + 16) \<le> length buf" "k < 18" "length buf = 2 ^ k"
      "env_ok env1" "eStats env1 = eStats env"
    using bytespool_Get_served [OF env, of "3 + (length p + 16)"] len by auto
  define buf' where "buf' = take 3 buf @ ct @ drop (3 + length ct) buf"
  have enc: "EncryptInto (rwEnc rw) buf MaxCipherLenSize p (rwAad rw) nonce = Inr (ct, buf')"
    using g(2) ctl n12 aead_okD(1) [OF a] by (simp add: EncryptInto_def ct_def [symmetric] buf'_def Let_def)
  have bl: "length buf' = 2 ^ k" using g(2,4) ctl by (simp add: buf'_def)
  define buf2 where "buf2 = cipher_len_bytes (length p + 16) @ drop 3 buf'"
  have b2: "length buf2 = 2 ^ k" using bl g(2,4) ctl by (simp add: buf2_def)
  obtain env2 where put: "bytespool_MustPut env1 buf2 = (Inr (), env2)" "env_ok env2" "eStats env2 = eStats env"
    using bytespool_MustPut_class [OF g(5) g(3) b2] g(6) by auto
  have rb: "take (MaxCipherLenSize + length ct) buf2 = record_bytes (rwEnc rw) (rwCounter rw) (rwAad rw) p"
    using g(2) ctl by (simp add: buf2_def buf'_def record_bytes_def nx ct_def [symmetric])
  have rl: "length (record_bytes (rwEnc rw) (rwCounter rw) (rwAad rw) p) = length p + 19"
    using ctl by (simp add: record_bytes_def nx ct_def)
  have fits: "\<not> rwMaxPlain rw < length p" "\<not> 0xFFFFFF < length p + 16"
    "\<not> length buf' < MaxCipherLenSize + length ct"
    using len g(2,4) bl ctl by auto
  have "WriteRecord wr env rw w p =
      (let b = record_bytes (rwEnc rw) (rwCounter rw) (rwAad rw) p; rw' = rw\<lparr>rwCounter := cn\<rparr>
       in case writeFully wr w b of
            (Inl e, w') \<Rightarrow> (Inl (Wrap ''crypto: write record'' [e]), rw', w', env2)
          | (Inr _, w') \<Rightarrow> (Inr (), rw', w', with_stats (RecordRecordWritten \<circ>
               RecordBytesSent (int (length p + 19))) env2))"
    unfolding WriteRecord_def nx Let_def prod.case aead_okD(2) [OF a] g(1) option.case enc sum.case
      buf2_def [symmetric] rb put(1) rl
    using fits by (simp split: prod.split sum.split)
  then show ?thesis using put(2,3) by (auto simp: nx)
qed


lemma ReadFull_append:
  "length x = n \<Longrightarrow> sData r = x @ rest \<Longrightarrow> ReadFull r n = (Inr x, r\<lparr>sData := rest\<rparr>)"
  by (simp add: ReadFull_def)

lemma ReadFull_Inr:
  "ReadFull r n = (Inr x, r') \<Longrightarrow>
     length x = n \<and> sData r = x @ sData r' \<and> r' = r\<lparr>sData := drop n (sData r)\<rparr>"
  by (auto simp: ReadFull_def split: if_splits)

text \<open>
  The part of \<open>ReadRecord\<close> after the length prefix: with a working pool only the cipher and the
  source decide.
\<close>

lemma ReadRecord_body:
  assumes env: "env_ok env" and hdr: "ReadFull (rrSrc rr) 3 = (Inr lenBuf, r)"
    and n: "n = cipher_len_of lenBuf" "0 < n" "n \<le> 65552"
  shows "\<exists>env'. env_ok env' \<and> eStats env' = eStats env \<and>
    ReadRecord env rr =
     (case ReadFull r n of
        (Inl e, r) \<Rightarrow> (Inl (Wrap ''crypto: read ciphertext'' [e]), rr\<lparr>rrSrc := r\<rparr>, env')
      | (Inr c, r) \<Rightarrow>
          (let rr' = rr\<lparr>rrSrc := r, rrCounter := snd (Next (rrCounter rr))\<rparr>
           in case Decrypt (rrEnc rr) c (rrAad rr) (fst (Next (rrCounter rr))) of
                Inl e \<Rightarrow> (Inl (Wrap ''crypto: decrypt record'' [e]), rr', env')
              | Inr p \<Rightarrow> (Inr p, rr', with_stats (RecordBytesRecv (int (3 + n))) env')))"
proof -
  obtain buf env1 k where g: "bytespool_Get env (int n) = (Some (buf, n), env1)" "n \<le> length buf"
      "k < 18" "length buf = 2 ^ k" "env_ok env1" "eStats env1 = eStats env"
    using bytespool_Get_served [OF env, of n] n by auto
  define got where "got = take n (sData r)"
  define buf' where "buf' = got @ drop (length got) buf"
  have bl: "length buf' = 2 ^ k" using g(2,4) by (simp add: buf'_def got_def)
  obtain env2 where put: "bytespool_MustPut env1 buf' = (Inr (), env2)" "env_ok env2" "eStats env2 = eStats env"
    using bytespool_MustPut_class [OF g(5) g(3) bl] g(6) by auto
  have small: "n \<noteq> 0" "\<not> n > MaxCipherRecordSize" using n by auto
  obtain nonce cn where nx: "Next (rrCounter rr) = (nonce, cn)" by fastforce
  have "ReadRecord env rr =
     (case ReadFull r n of
        (Inl e, r) \<Rightarrow> (Inl (Wrap ''crypto: read ciphertext'' [e]), rr\<lparr>rrSrc := r\<rparr>, env2)
      | (Inr c, r) \<Rightarrow>
          (let rr' = rr\<lparr>rrSrc := r, rrCounter := snd (Next (rrCounter rr))\<rparr>
           in case Decrypt (rrEnc rr) c (rrAad rr) (fst (Next (rrCounter rr))) of
                Inl e \<Rightarrow> (Inl (Wrap ''crypto: decrypt record'' [e]), rr', env2)
              | Inr p \<Rightarrow> (Inr p, rr', with_stats (RecordBytesRecv (int (3 + n))) env2)))"
    unfolding ReadRecord_def MaxCipherLenSize_def hdr prod.case sum.case Let_def n(1) [symmetric] g(1)
      option.case got_def [symmetric] buf'_def [symmetric] put(1) nx fst_conv snd_conv
    using small by (simp split: prod.split sum.split)
  then show ?thesis using put(2,3) by blast
qed

lemma ReadRecord_record:
  assumes a: "aead_ok (rrEnc rr)" and n: "nonce_ok (rrCounter rr)" and env: "env_ok env"
    and p: "length p \<le> 65536"
    and d: "sData (rrSrc rr) = record_bytes (rrEnc rr) (rrCounter rr) (rrAad rr) p @ rest"
  shows "\<exists>env'. env_ok env' \<and> ReadRecord env rr =
     (Inr p, rr\<lparr>rrSrc := (rrSrc rr)\<lparr>sData := rest\<rparr>, rrCounter := snd (Next (rrCounter rr))\<rparr>, env')"
proof -
  define ct where "ct = Seal (rrEnc rr) (fst (Next (rrCounter rr))) p (rrAad rr)"
  have n12: "length (fst (Next (rrCounter rr))) = 12" using n by simp
  have ctl: "length ct = length p + 16" unfolding ct_def by (rule aead_okD(3) [OF a n12])
  have h: "ReadFull (rrSrc rr) 3 = (Inr (cipher_len_bytes (length p + 16)), (rrSrc rr)\<lparr>sData := ct @ rest\<rparr>)"
    by (rule ReadFull_append) (use d in \<open>simp_all add: record_bytes_def ct_def\<close>)
  have cl: "length p + 16 = cipher_len_of (cipher_len_bytes (length p + 16))"
    using p by (intro cipher_len_roundtrip [symmetric]) simp
  have b: "ReadFull ((rrSrc rr)\<lparr>sData := ct @ rest\<rparr>) (length p + 16) = (Inr ct, (rrSrc rr)\<lparr>sData := rest\<rparr>)"
    using ReadFull_append [of ct "length p + 16" "(rrSrc rr)\<lparr>sData := ct @ rest\<rparr>" rest] ctl by simp
  have dec: "Decrypt (rrEnc rr) ct (rrAad rr) (fst (Next (rrCounter rr))) = Inr p"
    using Decrypt_iff [OF a n12] by (simp add: ct_def)
  obtain env' where "env_ok env'" "ReadRecord env rr = (Inr p,
      rr\<lparr>rrSrc := (rrSrc rr)\<lparr>sData := rest\<rparr>, rrCounter := snd (Next (rrCounter rr))\<rparr>,
      with_stats (RecordBytesRecv (int (3 + (length p + 16)))) env')"
    using ReadRecord_body [OF env h cl] p by (auto simp: b dec Let_def)
  then show ?thesis by auto
qed

lemma ReadRecord_accepts:
  assumes a: "aead_ok (rrEnc rr)" and n: "nonce_ok (rrCounter rr)" and env: "env_ok env"
    and r: "ReadRecord env rr = (Inr p, rr', env')"
  shows "sData (rrSrc rr) = record_bytes (rrEnc rr) (rrCounter rr) (rrAad rr) p @ sData (rrSrc rr') \<and>
     length p \<le> 65536 \<and> env_ok env' \<and>
     rr' = rr\<lparr>rrSrc := (rrSrc rr)\<lparr>sData := sData (rrSrc rr')\<rparr>, rrCounter := snd (Next (rrCounter rr))\<rparr>"
proof -
  obtain lb s where h: "ReadFull (rrSrc rr) 3 = (Inr lb, s)"
  proof (cases "ReadFull (rrSrc rr) 3")
    case (Pair res s)
    then show thesis using r that by (cases res) (simp_all add: ReadRecord_def split: if_splits)
  qed
  note lb = ReadFull_Inr [OF h]
  define cl where "cl = cipher_len_of lb"
  have c: "0 < cl" "cl \<le> 65552"
    using r h by (auto simp: ReadRecord_def cl_def [symmetric] Let_def split: if_splits)
  obtain ct s2 where b: "ReadFull s cl = (Inr ct, s2)"
      and dec: "Decrypt (rrEnc rr) ct (rrAad rr) (fst (Next (rrCounter rr))) = Inr p"
      and rr': "rr' = rr\<lparr>rrSrc := s2, rrCounter := snd (Next (rrCounter rr))\<rparr>" and "env_ok env'"
  proof (cases "ReadFull s cl")
    case (Pair res s2)
    from ReadRecord_body [OF env h cl_def c] obtain env1 where e1: "env_ok env1" and
      eq: "ReadRecord env rr =
     (case ReadFull s cl of
        (Inl e, r) \<Rightarrow> (Inl (Wrap ''crypto: read ciphertext'' [e]), rr\<lparr>rrSrc := r\<rparr>, env1)
      | (Inr c, r) \<Rightarrow>
          (let rr' = rr\<lparr>rrSrc := r, rrCounter := snd (Next (rrCounter rr))\<rparr>
           in case Decrypt (rrEnc rr) c (rrAad rr) (fst (Next (rrCounter rr))) of
                Inl e \<Rightarrow> (Inl (Wrap ''crypto: decrypt record'' [e]), rr', env1)
              | Inr p \<Rightarrow> (Inr p, rr', with_stats (RecordBytesRecv (int (3 + cl))) env1)))"
      by blast
    show thesis
    proof (cases res)
      case (Inl e)
      then show thesis using eq r Pair by simp
    next
      case (Inr ct)
      then show thesis
        using eq r Pair that e1
        by (cases "Decrypt (rrEnc rr) ct (rrAad rr) (fst (Next (rrCounter rr)))") (auto simp: Let_def)
    qed
  qed
  note ct = ReadFull_Inr [OF b]
  have n12: "length (fst (Next (rrCounter rr))) = 12" using n by simp
  have seal: "ct = Seal (rrEnc rr) (fst (Next (rrCounter rr))) p (rrAad rr)"
    using dec Decrypt_iff [OF a n12] by simp
  have cp: "cl = length p + 16" using ct seal aead_okD(3) [OF a n12] by simp
  obtain x y z where xyz: "lb = [x, y, z]"
    using conjunct1 [OF lb] by (auto simp: length_Suc_conv numeral_3_eq_3)
  have "cipher_len_bytes cl = lb" unfolding cl_def xyz by (rule cipher_len_bytes_of)
  then have "record_bytes (rrEnc rr) (rrCounter rr) (rrAad rr) p = lb @ ct"
    by (simp add: record_bytes_def seal cp)
  then have dat: "sData (rrSrc rr) = record_bytes (rrEnc rr) (rrCounter rr) (rrAad rr) p @ sData (rrSrc rr')"
    using conjunct1 [OF conjunct2 [OF lb]] conjunct1 [OF conjunct2 [OF ct]] by (simp add: rr')
  obtain d1 d2 where "s = (rrSrc rr)\<lparr>sData := d1\<rparr>" "s2 = s\<lparr>sData := d2\<rparr>" using lb ct by metis
  then have "rr' = rr\<lparr>rrSrc := (rrSrc rr)\<lparr>sData := sData (rrSrc rr')\<rparr>, rrCounter := snd (Next (rrCounter rr))\<rparr>"
    by (simp add: rr')
  moreover have "length p \<le> 65536" using cp c by simp
  ultimately show ?thesis using dat \<open>env_ok env'\<close> by blast
qed

section \<open>Sequences of records\<close>

fun write_records ::
  "'w writer \<Rightarrow> env \<Rightarrow> RecordWriter \<Rightarrow> 'w \<Rightarrow> bytes list \<Rightarrow> unit result \<times> RecordWriter \<times> 'w \<times> env" where
  "write_records wr env rw w [] = (Inr (), rw, w, env)"
| "write_records wr env rw w (p # ps) =
     (case WriteRecord wr env rw w p of
        (Inl e, rw', w', env') \<Rightarrow> (Inl e, rw', w', env')
      | (Inr _, rw', w', env') \<Rightarrow> write_records wr env' rw' w' ps)"

text \<open>Reading up to \<open>n\<close> records; it stops at the first error.\<close>

fun read_records :: "nat \<Rightarrow> env \<Rightarrow> RecordReader \<Rightarrow> bytes list \<times> go_error option" where
  "read_records 0 env rr = ([], None)"
| "read_records (Suc n) env rr =
     (case ReadRecord env rr of
        (Inl e, rr', env') \<Rightarrow> ([], Some e)
      | (Inr p, rr', env') \<Rightarrow> (case read_records n env' rr' of (ps, e) \<Rightarrow> (p # ps, e)))"

fun wire :: "aead \<Rightarrow> CounterNonce \<Rightarrow> bytes \<Rightarrow> bytes list \<Rightarrow> bytes" where
  "wire a cn aad [] = []"
| "wire a cn aad (p # ps) = record_bytes a cn aad p @ wire a (snd (Next cn)) aad ps"

fun nonces :: "nat \<Rightarrow> CounterNonce \<Rightarrow> bytes list" where
  "nonces 0 cn = []"
| "nonces (Suc n) cn = fst (Next cn) # nonces n (snd (Next cn))"

lemma write_records_buffer:
  assumes "aead_ok (rwEnc rw)" "nonce_ok (rwCounter rw)" "env_ok env" "rwMaxPlain rw = 65517"
    "\<forall>p \<in> set ps. length p \<le> 65517"
  shows "\<exists>rw' env'. env_ok env' \<and> write_records buffer_writer env rw w ps =
     (Inr (), rw', w @ wire (rwEnc rw) (rwCounter rw) (rwAad rw) ps, env')"
  using assms
proof (induction ps arbitrary: env rw w)
  case (Cons p ps)
  let ?b = "record_bytes (rwEnc rw) (rwCounter rw) (rwAad rw) p"
  let ?rw = "rw\<lparr>rwCounter := snd (Next (rwCounter rw))\<rparr>"
  obtain env0 where "env_ok env0"
    and w0: "WriteRecord buffer_writer env rw w p = (Inr (), ?rw, w @ ?b,
       with_stats (RecordRecordWritten \<circ> RecordBytesSent (int (length p + 19))) env0)"
    using WriteRecord_eq [of rw env p buffer_writer w] Cons.prems
    by (auto simp: writeFully_def buffer_writer_def Let_def)
  then obtain env1 where e1: "env_ok env1"
    and w1: "WriteRecord buffer_writer env rw w p = (Inr (), ?rw, w @ ?b, env1)"
    by (metis env_ok_stats)
  obtain rw' env' where "env_ok env'" "write_records buffer_writer env1 ?rw (w @ ?b) ps =
     (Inr (), rw', (w @ ?b) @ wire (rwEnc ?rw) (rwCounter ?rw) (rwAad ?rw) ps, env')"
    using Cons.IH [of ?rw env1 "w @ ?b"] Cons.prems e1 by auto
  then show ?case by (simp add: w1)
qed simp

lemma ReadRecord_EOF:
  "sData (rrSrc rr) = [] \<Longrightarrow> sErr (rrSrc rr) = io_EOF \<Longrightarrow> fst (ReadRecord env rr) = Inl io_EOF"
  by (simp add: ReadRecord_def ReadFull_def)

lemma read_records_wire:
  assumes "aead_ok (rrEnc rr)" "nonce_ok (rrCounter rr)" "env_ok env"
    "\<forall>p \<in> set ps. length p \<le> 65536"
    "sData (rrSrc rr) = wire (rrEnc rr) (rrCounter rr) (rrAad rr) ps @ rest"
  shows "\<exists>rr' env'. sData (rrSrc rr') = rest \<and> sErr (rrSrc rr') = sErr (rrSrc rr) \<and> env_ok env' \<and>
     read_records (length ps + n) env rr = (case read_records n env' rr' of (qs, e) \<Rightarrow> (ps @ qs, e))"
  using assms
proof (induction ps arbitrary: env rr)
  case Nil
  then show ?case by (intro exI [of _ rr] exI [of _ env]) (simp split: prod.split)
next
  case (Cons p ps)
  let ?d = "wire (rrEnc rr) (snd (Next (rrCounter rr))) (rrAad rr) ps @ rest"
  let ?rr = "rr\<lparr>rrSrc := (rrSrc rr)\<lparr>sData := ?d\<rparr>, rrCounter := snd (Next (rrCounter rr))\<rparr>"
  obtain env1 where e1: "env_ok env1" and r1: "ReadRecord env rr = (Inr p, ?rr, env1)"
    using ReadRecord_record [of rr env p ?d] Cons.prems by auto
  obtain rr' env' where IH: "sData (rrSrc rr') = rest" "sErr (rrSrc rr') = sErr (rrSrc ?rr)" "env_ok env'"
    "read_records (length ps + n) env1 ?rr = (case read_records n env' rr' of (qs, e) \<Rightarrow> (ps @ qs, e))"
    using Cons.IH [of ?rr env1] Cons.prems e1 by fastforce
  then show ?case
    by (intro exI [of _ rr'] exI [of _ env']) (simp add: r1 split: prod.split)
qed

lemma read_records_accepts:
  assumes "aead_ok (rrEnc rr)" "nonce_ok (rrCounter rr)" "env_ok env" "read_records n env rr = (ps, e)"
  shows "\<exists>rest. sData (rrSrc rr) = wire (rrEnc rr) (rrCounter rr) (rrAad rr) ps @ rest"
  using assms
proof (induction n arbitrary: env rr ps e)
  case (Suc n)
  obtain res rr' env' where r: "ReadRecord env rr = (res, rr', env')" by (metis prod_cases3)
  show ?case
  proof (cases res)
    case (Inl x)
    then show ?thesis using Suc.prems r by auto
  next
    case (Inr p)
    note acc = ReadRecord_accepts [OF Suc.prems(1-3) r [unfolded Inr]]
    obtain qs e' where q: "read_records n env' rr' = (qs, e')" by fastforce
    have rr': "rrEnc rr' = rrEnc rr" "rrAad rr' = rrAad rr" "rrCounter rr' = snd (Next (rrCounter rr))"
      using acc by (metis RecordReader.select_convs RecordReader.surjective RecordReader.update_convs)+
    obtain rest where "sData (rrSrc rr') = wire (rrEnc rr') (rrCounter rr') (rrAad rr') qs @ rest"
      using Suc.IH [OF _ _ _ q] Suc.prems rr' acc by auto
    then show ?thesis using Suc.prems(4) r Inr q acc rr' by auto
  qed
qed simp

section \<open>Nonces\<close>

lemma nonces_nth:
  "i < n \<Longrightarrow> nonces n cn ! i = cnPrefix cn @ put_uint64 (cnCtr cn + word_of_nat i)"
proof (induction n arbitrary: i cn)
  case (Suc n)
  show ?case
  proof (cases i)
    case 0
    then show ?thesis by (simp add: Next_def Let_def)
  next
    case (Suc j)
    then show ?thesis using Suc.IH [of j "snd (Next cn)"] Suc.prems by (simp add: algebra_simps)
  qed
qed simp

lemma length_nonces [simp]: "length (nonces n cn) = n"
  by (induction n arbitrary: cn) auto

lemma nonces_distinct:
  assumes "n \<le> 2 ^ 64"
  shows "distinct (nonces n cn)"
proof (rule distinct_conv_nth [THEN iffD2], intro allI impI)
  fix i j assume ij: "i < length (nonces n cn)" "j < length (nonces n cn)" "i \<noteq> j"
  have "i < 2 ^ LENGTH(64)" "j < 2 ^ LENGTH(64)" using ij(1,2) assms by simp_all
  then have "(word_of_nat i :: 64 word) \<noteq> word_of_nat j"
    using ij(3) by (metis unat_of_nat mod_less)
  then show "nonces n cn ! i \<noteq> nonces n cn ! j"
    using ij(1,2) by (simp add: nonces_nth put_uint64_inj)
qed

lemma wire_nonces:
  "wire a cn aad ps =
     concat (map2 (\<lambda>n p. cipher_len_bytes (length p + 16) @ Seal a n p aad) (nonces (length ps) cn) ps)"
  by (induction ps arbitrary: cn) (simp_all add: record_bytes_def)

section \<open>Additional data\<close>

text \<open>The text after the last slash, and what is before that slash.\<close>

definition last_field :: "bytes \<Rightarrow> bytes" where
  "last_field b = rev (takeWhile (\<lambda>c. c \<noteq> 47) (rev b))"

definition before_last :: "bytes \<Rightarrow> bytes" where
  "before_last b = rev (drop 1 (dropWhile (\<lambda>c. c \<noteq> 47) (rev b)))"

lemma split_last_field:
  assumes "47 \<notin> set y"
  shows "last_field (x @ 47 # y) = y" "before_last (x @ 47 # y) = x"
proof -
  have "\<forall>c \<in> set (rev y). c \<noteq> 47" using assms by auto
  then have "takeWhile (\<lambda>c. c \<noteq> 47) (rev y @ 47 # rev x) = rev y"
    "dropWhile (\<lambda>c. c \<noteq> 47) (rev y @ 47 # rev x) = 47 # rev x"
    by (simp_all add: takeWhile_append dropWhile_append)
  then show "last_field (x @ 47 # y) = y" "before_last (x @ 47 # y) = x"
    by (simp_all add: last_field_def before_last_def)
qed

lemma slash_byte: "bytes_of_string ''/'' = [47]"
  by (simp add: bytes_of_string_def of_char_def)

lemma no_slash:
  "47 \<notin> set (bytes_of_string (Direction_String d))" "47 \<notin> set (bytes_of_string (Method_String m))"
  "47 \<notin> set (bytes_of_string ''bootstrap'')" "47 \<notin> set (bytes_of_string ''session'')"
  by (simp_all add: Direction_String_def Method_String_def bytes_of_string_def of_char_def)

lemma buildAAD_fields:
  assumes "p = bootstrapPhase \<or> p = sessionPhase"
  shows "last_field (buildAAD ep salt (Direction_String d) p m) = bytes_of_string (Method_String m)"
    "last_field (before_last (buildAAD ep salt (Direction_String d) p m)) = bytes_of_string p"
    "last_field (before_last (before_last (buildAAD ep salt (Direction_String d) p m))) =
       bytes_of_string (Direction_String d)"
    "before_last (before_last (before_last (buildAAD ep salt (Direction_String d) p m))) =
       bytes_of_string (''easyss-v3'' @ ep) @ salt"
proof -
  let ?a = "bytes_of_string (''easyss-v3'' @ ep) @ salt"
  let ?d = "bytes_of_string (Direction_String d)" and ?p = "bytes_of_string p"
  let ?m = "bytes_of_string (Method_String m)"
  have eq: "buildAAD ep salt (Direction_String d) p m = ((?a @ 47 # ?d) @ 47 # ?p) @ 47 # ?m"
    by (simp add: buildAAD_def slash_byte)
  have p: "47 \<notin> set ?p" using assms no_slash by auto
  show "last_field (buildAAD ep salt (Direction_String d) p m) = ?m"
    "last_field (before_last (buildAAD ep salt (Direction_String d) p m)) = ?p"
    "last_field (before_last (before_last (buildAAD ep salt (Direction_String d) p m))) = ?d"
    "before_last (before_last (before_last (buildAAD ep salt (Direction_String d) p m))) = ?a"
    unfolding eq by (simp_all only: split_last_field [OF no_slash(2)] split_last_field [OF p]
        split_last_field [OF no_slash(1)])
qed

section \<open>Frames in records\<close>

lemma decodeFrames_append:
  "\<forall>f \<in> set fs. frame_fits f \<Longrightarrow>
     decodeFramesIntoBuf (EncodeFrames fs @ rest) acc = decodeFramesIntoBuf rest (acc @ map frame_norm fs)"
proof (induction fs arbitrary: acc)
  case (Cons f fs)
  have f: "frame_fits f" using Cons.prems by simp
  have "decodeFramesIntoBuf (EncodeFrames (f # fs) @ rest) acc =
      decodeFramesIntoBuf (EncodeFrames fs @ rest) (acc @ [frame_norm f])"
    using frame_codec.dec_enc [OF f, of "EncodeFrames fs @ rest"]
    by (subst decodeFramesIntoBuf.simps) simp
  then show ?case using Cons by simp
qed simp

lemma decodeFrames_EncodeFrames [codec_simps]:
  "\<forall>f \<in> set fs. frame_fits f \<Longrightarrow> decodeFramesIntoBuf (EncodeFrames fs) acc = Inr (acc @ map frame_norm fs)"
  using decodeFrames_append [of fs "[]" acc] by (simp add: decodeFramesIntoBuf.simps [of "[]"])

fun read_frames :: "nat \<Rightarrow> env \<Rightarrow> DecryptedReader \<Rightarrow> Frame list \<times> go_error option" where
  "read_frames 0 env dr = ([], None)"
| "read_frames (Suc n) env dr =
     (case ReadFrame env dr of
        (Inl e, dr', env') \<Rightarrow> ([], Some e)
      | (Inr f, dr', env') \<Rightarrow> (case read_frames n env' dr' of (fs, e) \<Rightarrow> (f # fs, e)))"

lemma read_frames_leftover:
  "drFrames dr = fs \<Longrightarrow> read_frames (length fs + n) env dr =
     (case read_frames n env (dr\<lparr>drFrames := []\<rparr>) of (gs, e) \<Rightarrow> (fs @ gs, e))"
proof (induction fs arbitrary: dr)
  case Nil
  then have "dr\<lparr>drFrames := []\<rparr> = dr" by simp
  then show ?case by (simp split: prod.split)
next
  case (Cons f fs)
  then have "ReadFrame env dr = (Inr f, dr\<lparr>drFrames := fs\<rparr>, env)" by (simp add: ReadFrame_def)
  then show ?case using Cons.IH [of "dr\<lparr>drFrames := fs\<rparr>"] by (simp split: prod.split)
qed

text \<open>Groups of frames that one record can carry.\<close>

definition groups_ok :: "Frame list list \<Rightarrow> bool" where
  "groups_ok gs \<longleftrightarrow>
     (\<forall>g \<in> set gs. g \<noteq> [] \<and> (\<forall>f \<in> set g. frame_fits f) \<and> length (EncodeFrames g) \<le> 65517)"

lemma read_frames_wire:
  assumes "aead_ok (rrEnc (drReader dr))" "nonce_ok (rrCounter (drReader dr))" "env_ok env"
    "groups_ok gs" "drFrames dr = []" "sErr (rrSrc (drReader dr)) = io_EOF"
    "sData (rrSrc (drReader dr)) =
       wire (rrEnc (drReader dr)) (rrCounter (drReader dr)) (rrAad (drReader dr)) (map EncodeFrames gs)"
  shows "read_frames (Suc (length (concat gs))) env dr = (map frame_norm (concat gs), Some io_EOF)"
  using assms
proof (induction gs arbitrary: env dr)
  case Nil
  then have "fst (ReadRecord env (drReader dr)) = Inl io_EOF" by (intro ReadRecord_EOF) simp_all
  then show ?case using Nil(5) by (cases "ReadRecord env (drReader dr)") (auto simp: ReadFrame_def)
next
  case (Cons g gs)
  let ?rr = "drReader dr"
  let ?d = "wire (rrEnc ?rr) (snd (Next (rrCounter ?rr))) (rrAad ?rr) (map EncodeFrames gs)"
  let ?rr' = "?rr\<lparr>rrSrc := (rrSrc ?rr)\<lparr>sData := ?d\<rparr>, rrCounter := snd (Next (rrCounter ?rr))\<rparr>"
  from Cons.prems(4) obtain f fs where g: "g = f # fs" and fits: "\<forall>f \<in> set g. frame_fits f"
    and len: "length (EncodeFrames g) \<le> 65517" and gs: "groups_ok gs"
    by (cases g) (auto simp: groups_ok_def)
  obtain env1 where e1: "env_ok env1" and r: "ReadRecord env ?rr = (Inr (EncodeFrames g), ?rr', env1)"
    using ReadRecord_record [OF Cons.prems(1-3), of "EncodeFrames g" ?d] Cons.prems(7) len by auto
  let ?dr = "dr\<lparr>drReader := ?rr', drFrames := map frame_norm fs\<rparr>"
  have rf: "ReadFrame env dr = (Inr (frame_norm f), ?dr, env1)"
    using decodeFrames_EncodeFrames [OF fits, of "[]"] Cons.prems(5) r by (simp add: ReadFrame_def g)
  have fr: "drFrames ?dr = map frame_norm fs" by simp
  have IH: "read_frames (Suc (length (concat gs))) env1 (?dr\<lparr>drFrames := []\<rparr>) =
      (map frame_norm (concat gs), Some io_EOF)"
    by (rule Cons.IH) (use Cons.prems e1 gs in simp_all)
  have "read_frames (length fs + Suc (length (concat gs))) env1 ?dr =
      (map frame_norm (fs @ concat gs), Some io_EOF)"
    using read_frames_leftover [OF fr, of "Suc (length (concat gs))" env1]
    by (simp only: length_map IH prod.case map_append)
  moreover have "Suc (length (concat (g # gs))) = Suc (length fs + Suc (length (concat gs)))" by (simp add: g)
  ultimately show ?case by (simp only: read_frames.simps rf prod.case sum.case) (simp add: g)
qed

section \<open>Stream keys\<close>

text \<open>
  What the key derivation and cipher libraries document: both ciphers take any 32-byte key and give
  an AEAD, and a key derivation yields as many bytes as asked for (HKDF-SHA256 up to 8160).
\<close>

definition lib_ok :: "crypto_lib \<Rightarrow> bool" where
  "lib_ok lib \<longleftrightarrow>
     (\<forall>k. length k = 32 \<longrightarrow> (\<exists>a. lib_gcm lib k = Inr a \<and> aead_ok a)) \<and>
     (\<forall>k. length k = 32 \<longrightarrow> (\<exists>a. lib_chacha lib k = Inr a \<and> aead_ok a)) \<and>
     (\<forall>secret salt info. length (lib_hkdf lib secret salt info) = 8160) \<and>
     (\<forall>pw salt it n. length (lib_pbkdf2 lib pw salt it n) = n)"

definition keys_ok :: "StreamKeys \<Rightarrow> bool" where
  "keys_ok sk \<longleftrightarrow> aead_ok (stBootstrapEncryptor sk) \<and> length (stBootstrapNoncePrefix sk) = 4 \<and>
     length (skC2SKey (stSessionKeys sk)) = 32 \<and> length (skS2CKey (stSessionKeys sk)) = 32 \<and>
     length (skC2SNoncePrefix (stSessionKeys sk)) = 4 \<and> length (skS2CNoncePrefix (stSessionKeys sk)) = 4"

lemma NewStreamKeys_ok:
  assumes "lib_ok lib" "length mk = 32" "length salt = 16"
  shows "\<exists>sk. NewStreamKeys lib mk salt ep = Inr sk \<and> keys_ok sk \<and> stSalt sk = salt \<and> stEndpoint sk = ep"
proof -
  have h: "length (lib_hkdf lib mk salt i) = 8160" for i using assms(1) by (simp add: lib_ok_def)
  have "length (take 32 (lib_hkdf lib mk salt (bytes_of_string ''easyss-v3-bootstrap''))) = 32"
    using h by simp
  then obtain a where
    "lib_gcm lib (take 32 (lib_hkdf lib mk salt (bytes_of_string ''easyss-v3-bootstrap''))) = Inr a" "aead_ok a"
    using assms(1) unfolding lib_ok_def by blast
  then show ?thesis
    using assms(2,3) h
    by (simp add: NewStreamKeys_def DeriveBootstrapKeys_def DeriveSessionKeys_def hkdf_reader_def
        ReadFull_def NewAES256GCM_def keys_ok_def)
qed

lemma newEncryptor_session:
  assumes "lib_ok lib" "keys_ok sk" "dir = DirC2S \<or> dir = DirS2C"
    "m = MethodAES256GCM \<or> m = MethodChaCha20Poly1305"
  shows "\<exists>a pre. newEncryptor lib sk sessionPhase dir m = Inr (a, NewCounterNonce pre) \<and> aead_ok a \<and> length pre = 4"
proof -
  obtain key pre where k: "(if dir = DirC2S
               then Inr (skC2SKey (stSessionKeys sk), skC2SNoncePrefix (stSessionKeys sk))
               else if dir = DirS2C
               then Inr (skS2CKey (stSessionKeys sk), skS2CNoncePrefix (stSessionKeys sk))
               else Inl (Msg ''crypto: invalid direction'')) = Inr (key, pre)" "length key = 32" "length pre = 4"
    using assms(2,3) by (auto simp: keys_ok_def)
  obtain g c where "lib_gcm lib key = Inr g" "aead_ok g" "lib_chacha lib key = Inr c" "aead_ok c"
    using assms(1) k(2) unfolding lib_ok_def by blast
  then show ?thesis
    unfolding newEncryptor_def k(1) using assms(4) k(2,3)
    by (auto simp: NewAES256GCM_def NewChaCha20Poly1305_def)
qed

lemma write_one_record:
  assumes "aead_ok (rwEnc rw)" "nonce_ok (rwCounter rw)" "env_ok env" "rwMaxPlain rw = 65517" "length p \<le> 65517"
  shows "\<exists>rw' env'. env_ok env' \<and> WriteRecord buffer_writer env rw w p =
     (Inr (), rw', w @ record_bytes (rwEnc rw) (rwCounter rw) (rwAad rw) p, env')"
proof -
  obtain rw' env' where "env_ok env'" "write_records buffer_writer env rw w [p] =
     (Inr (), rw', w @ wire (rwEnc rw) (rwCounter rw) (rwAad rw) [p], env')"
    using write_records_buffer [OF assms(1-4), of "[p]" w] assms(5) by auto
  then show ?thesis
    by (cases "WriteRecord buffer_writer env rw w p") (auto split: sum.splits)
qed

section \<open>A cipher that keeps the contract\<close>

text \<open>
  An AEAD without secrecy, whose tag is made of the nonce: it shows that the assumptions on the
  libraries can hold.
\<close>

definition null_aead :: aead where
  "null_aead = \<lparr>NonceSize = 12, Overhead = 16,
     Seal = (\<lambda>n p d. p @ take 16 (n @ replicate 16 0)),
     Open = (\<lambda>n c d. if 16 \<le> length c \<and> drop (length c - 16) c = take 16 (n @ replicate 16 0)
                       then Inr (take (length c - 16) c) else Inl (Msg ''message authentication failed''))\<rparr>"

definition null_lib :: crypto_lib where
  "null_lib = \<lparr>lib_pbkdf2 = (\<lambda>_ _ _ n. replicate n 0), lib_hkdf = (\<lambda>_ _ _. replicate 8160 0),
     lib_gcm = (\<lambda>_. Inr null_aead), lib_chacha = (\<lambda>_. Inr null_aead)\<rparr>"

definition init_env :: env where
  "init_env = \<lparr>ePool = NewAllocator, ePick = (\<lambda>_. 0), eTick = 0, eStats = init_stats\<rparr>"

lemma null_aead_ok: "aead_ok null_aead"
proof -
  have "c = take (length c - 16) c @ t" if "16 \<le> length c" "drop (length c - 16) c = t" for c t :: bytes
    using append_take_drop_id [of "length c - 16" c] that by simp
  then show ?thesis by (auto simp: aead_ok_def null_aead_def)
qed

lemma null_lib_ok: "lib_ok null_lib"
  by (simp add: lib_ok_def null_lib_def null_aead_ok)

lemma init_env_ok: "env_ok init_env"
  by (simp add: env_ok_def init_env_def NewAllocator_def alloc_inv_new)

section \<open>Properties\<close>

text \<open>
  C9. A record channel is lossless and in order: whatever the pool's buffers held before, any
  sequence of plaintexts of at most 65517 bytes written through the record writer is read back
  by a reader with the same key, nonce prefix and additional data, one record per plaintext and in
  the same order, and the reader then reports the end of the stream.
\<close>

theorem record_channel_roundtrip:
  assumes "aead_ok a" "length prefix = 4" "env_ok env" "env_ok env2"
    and "\<forall>p \<in> set ps. length p \<le> 65517"
  shows "\<exists>rw' out env'.
     write_records buffer_writer env (NewRecordWriter a (NewCounterNonce prefix) aad) [] ps = (Inr (), rw', out, env') \<and>
     env_ok env' \<and>
     read_records (Suc (length ps)) env2
       (NewRecordReader \<lparr>sData = out, sErr = io_EOF\<rparr> a (NewCounterNonce prefix) aad) = (ps, Some io_EOF)"
proof -
  let ?cn = "NewCounterNonce prefix"
  have cn: "nonce_ok ?cn" using assms(2) by (simp add: nonce_ok_def NewCounterNonce_def)
  obtain rw' env' where w: "env_ok env'" "write_records buffer_writer env (NewRecordWriter a ?cn aad) [] ps =
      (Inr (), rw', wire a ?cn aad ps, env')"
    using write_records_buffer [of "NewRecordWriter a ?cn aad" env ps "[]"] assms cn
    by (auto simp: NewRecordWriter_def)
  let ?rr = "NewRecordReader \<lparr>sData = wire a ?cn aad ps, sErr = io_EOF\<rparr> a ?cn aad"
  have ps: "\<forall>p \<in> set ps. length p \<le> 65536" using assms(5) by fastforce
  obtain rr env3 where r: "sData (rrSrc rr) = []" "sErr (rrSrc rr) = io_EOF"
    "read_records (length ps + 1) env2 ?rr = (case read_records 1 env3 rr of (qs, e) \<Rightarrow> (ps @ qs, e))"
    using read_records_wire [of ?rr env2 ps "[]" 1] assms(1,4) cn ps by (auto simp: NewRecordReader_def)
  have "read_records 1 env3 rr = ([], Some io_EOF)"
    using ReadRecord_EOF [OF r(1,2), of env3] by (cases "ReadRecord env3 rr") auto
  then show ?thesis using w r(3) by auto
qed

theorem record_channel_roundtrip_witness:
  "\<exists>rw' out env'. write_records buffer_writer init_env (NewRecordWriter null_aead (NewCounterNonce [1, 2, 3, 4]) [7]) []
     [[1, 2], [], [3]] = (Inr (), rw', out, env') \<and>
     env_ok env' \<and>
     read_records (Suc (length [[1, 2], [], [3 :: byte]])) init_env
       (NewRecordReader \<lparr>sData = out, sErr = io_EOF\<rparr> null_aead (NewCounterNonce [1, 2, 3, 4]) [7])
       = ([[1, 2], [], [3]], Some io_EOF)"
  by (rule record_channel_roundtrip [OF null_aead_ok _ init_env_ok init_env_ok]) simp_all

text \<open>
  C5. The reader accepts nothing but records that were sealed with the same key, additional data and
  nonce prefix at the same position: if it returns the plaintexts qs from an arbitrary byte stream, that
  stream starts with exactly the records that seal qs under the successive nonces, and when every
  plaintext has a size a writer accepts, these are the bytes a writer emits for qs. So a record that is
  dropped, repeated, reordered or taken from another channel is an error.
\<close>

theorem record_channel_authentic:
  assumes "aead_ok a" "length prefix = 4" "env_ok env" "env_ok env2"
    and "read_records n env (NewRecordReader r a (NewCounterNonce prefix) aad) = (qs, e)"
  shows "\<exists>rest. sData r = wire a (NewCounterNonce prefix) aad qs @ rest \<and>
    ((\<forall>q \<in> set qs. length q \<le> MaxWriteRecordPlaintext) \<longrightarrow>
      (\<exists>rw' env'. write_records buffer_writer env2 (NewRecordWriter a (NewCounterNonce prefix) aad) [] qs =
         (Inr (), rw', wire a (NewCounterNonce prefix) aad qs, env')))"
proof -
  let ?cn = "NewCounterNonce prefix"
  have cn: "nonce_ok ?cn" using assms(2) by (simp add: nonce_ok_def NewCounterNonce_def)
  have w: "\<exists>rw' env'. write_records buffer_writer env2 (NewRecordWriter a ?cn aad) [] qs =
      (Inr (), rw', wire a ?cn aad qs, env')" if "\<forall>q \<in> set qs. length q \<le> MaxWriteRecordPlaintext"
    using write_records_buffer [of "NewRecordWriter a ?cn aad" env2 qs "[]"] assms cn that
    by (auto simp: NewRecordWriter_def)
  obtain rest where "sData r = wire a ?cn aad qs @ rest"
    using read_records_accepts [OF _ _ assms(3,5)] assms(1) cn by (auto simp: NewRecordReader_def)
  then show ?thesis using w by blast
qed

theorem record_channel_authentic_witness:
  "let r = \<lparr>sData = [0, 0, 17, 5, 1, 2, 3, 4, 0, 0, 0, 0, 0, 0, 0, 0, 0, 0, 0, 0, 99], sErr = io_EOF\<rparr>; cn = NewCounterNonce [1, 2, 3, 4]
   in read_records 1 init_env (NewRecordReader r null_aead cn [7]) = ([[5]], None) \<and>
     (\<exists>out rest rw' env'. sData r = out @ rest \<and>
        write_records buffer_writer init_env (NewRecordWriter null_aead cn [7]) [] [[5]] = (Inr (), rw', out, env'))"
proof -
  let ?cn = "NewCounterNonce [1, 2, 3, 4]"
  let ?r = "\<lparr>sData = [0, 0, 17, 5, 1, 2, 3, 4, 0, 0, 0, 0, 0, 0, 0, 0, 0, 0, 0, 0, 99], sErr = io_EOF\<rparr>"
  have cn: "nonce_ok ?cn" by (simp add: nonce_ok_def NewCounterNonce_def)
  have tag: "take 16 ([1, 2, 3, 4, 0, 0, 0, 0, 0, 0, 0, 0] @ replicate 16 0) =
      [1, 2, 3, 4, 0, 0, 0, 0, 0, 0, 0, 0, 0, 0, 0, 0 :: byte]"
    by (simp add: eval_nat_numeral)
  have len: "cipher_len_bytes 17 = [0, 0, 17]" by (simp add: cipher_len_bytes_def drop_bit_eq_div)
  have nonce: "fst (Next ?cn) = [1, 2, 3, 4, 0, 0, 0, 0, 0, 0, 0, 0]"
    by (simp add: Next_def NewCounterNonce_def put_uint64_def)
  have "Seal null_aead (fst (Next ?cn)) [5] [7] = [5, 1, 2, 3, 4, 0, 0, 0, 0, 0, 0, 0, 0, 0, 0, 0, 0]"
    unfolding nonce null_aead_def aead.select_convs tag by simp
  then have "sData ?r = wire null_aead ?cn [7] [[5]] @ [99]"
    using len by (simp add: record_bytes_def)
  then have rd: "read_records 1 init_env (NewRecordReader ?r null_aead ?cn [7]) = ([[5]], None)"
    using read_records_wire [of "NewRecordReader ?r null_aead ?cn [7]" init_env "[[5]]" "[99]" 0]
      null_aead_ok init_env_ok cn by (auto simp: NewRecordReader_def)
  obtain rest rw' env' where "sData ?r = wire null_aead ?cn [7] [[5]] @ rest"
      "write_records buffer_writer init_env (NewRecordWriter null_aead ?cn [7]) [] [[5]] = (Inr (), rw', wire null_aead ?cn [7] [[5]], env')"
    using record_channel_authentic [OF null_aead_ok _ init_env_ok init_env_ok rd] by auto
  with rd show ?thesis unfolding Let_def by blast
qed

text \<open>
  C4. No nonce is used twice: a record writer seals its i-th plaintext under the i-th value of its
  counter, and these values are pairwise different for the first 2^64 records of a key.
\<close>

theorem nonce_never_reused:
  assumes "aead_ok a" "length prefix = 4" "env_ok env" "length ps \<le> 2 ^ 64"
    and "\<forall>p \<in> set ps. length p \<le> 65517"
  shows "\<exists>ns rw' env'. distinct ns \<and> length ns = length ps \<and>
     write_records buffer_writer env (NewRecordWriter a (NewCounterNonce prefix) aad) [] ps =
       (Inr (), rw', concat (map2 (\<lambda>n p. cipher_len_bytes (length p + 16) @ Seal a n p aad) ns ps), env')"
proof -
  let ?cn = "NewCounterNonce prefix"
  have cn: "nonce_ok ?cn" using assms(2) by (simp add: nonce_ok_def NewCounterNonce_def)
  obtain rw' env' where "write_records buffer_writer env (NewRecordWriter a ?cn aad) [] ps =
      (Inr (), rw', wire a ?cn aad ps, env')"
    using write_records_buffer [of "NewRecordWriter a ?cn aad" env ps "[]"] assms cn
    by (auto simp: NewRecordWriter_def)
  then show ?thesis
    using nonces_distinct [OF assms(4), of ?cn]
    by (intro exI [of _ "nonces (length ps) ?cn"]) (auto simp: wire_nonces)
qed

theorem nonce_never_reused_witness:
  "\<exists>ns rw' env'. distinct ns \<and> length ns = length [[5], [5 :: byte]] \<and>
     write_records buffer_writer init_env (NewRecordWriter null_aead (NewCounterNonce [1, 2, 3, 4]) [7]) [] [[5], [5]] =
       (Inr (), rw', concat (map2 (\<lambda>n p. cipher_len_bytes (length p + 16) @ Seal null_aead n p [7]) ns [[5], [5]]), env')"
  by (rule nonce_never_reused [OF null_aead_ok _ init_env_ok]) simp_all

text \<open>
  The additional data binds a record to its stream, direction, phase and cipher: two additional
  data strings are equal only when endpoint, salt, direction name, phase and cipher name all agree.
  (Salts are 16 bytes in every stream; the endpoint may be any string.)
\<close>

theorem aad_binds_stream:
  assumes "length salt1 = 16" "length salt2 = 16"
    and "p1 = bootstrapPhase \<or> p1 = sessionPhase" "p2 = bootstrapPhase \<or> p2 = sessionPhase"
    and "buildAAD ep1 salt1 (Direction_String d1) p1 m1 = buildAAD ep2 salt2 (Direction_String d2) p2 m2"
  shows "ep1 = ep2 \<and> salt1 = salt2 \<and> Direction_String d1 = Direction_String d2 \<and> p1 = p2 \<and>
     Method_String m1 = Method_String m2"
proof -
  note f1 = buildAAD_fields [OF assms(3), of ep1 salt1 d1 m1]
  note f2 = buildAAD_fields [OF assms(4), of ep2 salt2 d2 m2]
  have m: "Method_String m1 = Method_String m2" using f1(1) f2(1) assms(5) by (simp add: bytes_of_string_inj)
  have p: "p1 = p2" using f1(2) f2(2) assms(5) by (metis bytes_of_string_inj)
  have d: "Direction_String d1 = Direction_String d2" using f1(3) f2(3) assms(5) by (metis bytes_of_string_inj)
  have "bytes_of_string (''easyss-v3'' @ ep1) @ salt1 = bytes_of_string (''easyss-v3'' @ ep2) @ salt2"
    using f1(4) f2(4) assms(5) by metis
  then have "bytes_of_string (''easyss-v3'' @ ep1) = bytes_of_string (''easyss-v3'' @ ep2)" "salt1 = salt2"
    using append_eq_append_conv [of salt1 salt2] assms(1,2) by auto
  then show ?thesis using m p d by (simp add: bytes_of_string_inj)
qed

theorem aad_binds_stream_witness:
  "buildAAD ''/v3/tcp'' (replicate 16 0) (Direction_String DirC2S) sessionPhase MethodAES256GCM \<noteq>
   buildAAD ''/v3/udp'' (replicate 16 0) (Direction_String DirC2S) sessionPhase MethodAES256GCM"
proof
  assume "buildAAD ''/v3/tcp'' (replicate 16 0) (Direction_String DirC2S) sessionPhase MethodAES256GCM =
   buildAAD ''/v3/udp'' (replicate 16 0) (Direction_String DirC2S) sessionPhase MethodAES256GCM"
  from aad_binds_stream [OF _ _ _ _ this] show False by simp
qed

text \<open>
  A session stream delivers frames: with keys derived from the same 32-byte master key and
  16-byte salt, whatever groups of frames one side writes as records in a direction and with a
  supported cipher, the other side's frame reader returns all of them, in order, with types and
  payloads unchanged, and then the end of the stream.
\<close>

theorem session_stream_roundtrip:
  assumes "lib_ok lib" "length mk = 32" "length salt = 16" "env_ok env" "env_ok env2"
    and "dir = DirC2S \<or> dir = DirS2C" "m = MethodAES256GCM \<or> m = MethodChaCha20Poly1305"
    and "groups_ok gs"
  shows "\<exists>sk rw dr out rw' env'. NewStreamKeys lib mk salt ep = Inr sk \<and> NewWriter lib sk dir m = Inr rw \<and>
     write_records buffer_writer env rw [] (map EncodeFrames gs) = (Inr (), rw', out, env') \<and>
     NewReader lib sk \<lparr>sData = out, sErr = io_EOF\<rparr> dir m = Inr dr \<and>
     read_frames (Suc (length (concat gs))) env2 dr = (map frame_norm (concat gs), Some io_EOF)"
proof -
  obtain sk where sk: "NewStreamKeys lib mk salt ep = Inr sk" "keys_ok sk"
    using NewStreamKeys_ok [OF assms(1-3)] by blast
  obtain a pre where e: "newEncryptor lib sk sessionPhase dir m = Inr (a, NewCounterNonce pre)" "aead_ok a" "length pre = 4"
    using newEncryptor_session [OF assms(1) sk(2) assms(6,7)] by blast
  let ?cn = "NewCounterNonce pre" and ?aad = "stream_aad sk dir sessionPhase m"
  have cn: "nonce_ok ?cn" using e(3) by (simp add: nonce_ok_def NewCounterNonce_def)
  have len: "\<forall>p \<in> set (map EncodeFrames gs). length p \<le> 65517" using assms(8) by (auto simp: groups_ok_def)
  obtain rw' env' where w: "write_records buffer_writer env (NewRecordWriter a ?cn ?aad) [] (map EncodeFrames gs) =
      (Inr (), rw', wire a ?cn ?aad (map EncodeFrames gs), env')"
    using write_records_buffer [OF _ _ _ _ len, of "NewRecordWriter a ?cn ?aad" env "[]"] assms(4) e cn
    by (auto simp: NewRecordWriter_def)
  let ?dr = "NewDecryptedReader \<lparr>sData = wire a ?cn ?aad (map EncodeFrames gs), sErr = io_EOF\<rparr> ?aad a ?cn"
  have "read_frames (Suc (length (concat gs))) env2 ?dr = (map frame_norm (concat gs), Some io_EOF)"
    by (rule read_frames_wire)
      (use assms(5,8) e cn in \<open>simp_all add: NewDecryptedReader_def NewRecordReader_def\<close>)
  moreover have "NewWriter lib sk dir m = Inr (NewRecordWriter a ?cn ?aad)"
    using e(1) by (simp add: NewWriter_def newRecordWriter_def)
  moreover have "NewReader lib sk \<lparr>sData = wire a ?cn ?aad (map EncodeFrames gs), sErr = io_EOF\<rparr> dir m = Inr ?dr"
    using e(1) by (simp add: NewReader_def)
  ultimately show ?thesis using sk(1) w by blast
qed

theorem session_stream_roundtrip_witness:
  "\<exists>sk rw dr out rw' env'. NewStreamKeys null_lib (replicate 32 0) (replicate 16 0) ''/v3/tcp'' = Inr sk \<and>
     NewWriter null_lib sk DirC2S MethodAES256GCM = Inr rw \<and>
     write_records buffer_writer init_env rw [] (map EncodeFrames [[NewFramePADDING 3, NewFrameFIN]]) = (Inr (), rw', out, env') \<and>
     NewReader null_lib sk \<lparr>sData = out, sErr = io_EOF\<rparr> DirC2S MethodAES256GCM = Inr dr \<and>
     read_frames (Suc (length (concat [[NewFramePADDING 3, NewFrameFIN]]))) init_env dr =
       (map frame_norm (concat [[NewFramePADDING 3, NewFrameFIN]]), Some io_EOF)"
  by (rule session_stream_roundtrip [OF null_lib_ok _ _ init_env_ok init_env_ok])
    (simp_all add: groups_ok_def frame_fits_def NewFramePADDING_def NewZeroFrame_def NewFrameFIN_def)

lemma first_record_delivered:
  assumes "lib_ok lib" "length mk = 32" "length salt = 16" "env_ok env" "env_ok env2"
    and "hVersion h = Version3" "NewFrameHANDSHAKE h = Inr f" "\<forall>g \<in> set fs. frame_fits g"
    and "length (EncodeFrames (f # fs)) \<le> 65517"
  shows "\<exists>sk rw rw' out env' env3. NewStreamKeys lib mk salt ep = Inr sk \<and> BootstrapWriter lib sk = Inr rw \<and>
     WriteRecord buffer_writer env rw [] (EncodeFrames (f # fs)) = (Inr (), rw', out, env') \<and>
     ReadFirstRecord lib env2 sk \<lparr>sData = out @ rest, sErr = err\<rparr> =
       (Inr \<lparr>frHandshake = h, frLeftover = map frame_norm fs\<rparr>, \<lparr>sData = rest, sErr = err\<rparr>, env3)"
proof -
  obtain sk where sk: "NewStreamKeys lib mk salt ep = Inr sk" "keys_ok sk"
    using NewStreamKeys_ok [OF assms(1-3)] by blast
  let ?a = "stBootstrapEncryptor sk" and ?cn = "NewCounterNonce (stBootstrapNoncePrefix sk)"
  let ?aad = "stream_aad sk DirC2S bootstrapPhase MethodAES256GCM" and ?p = "EncodeFrames (f # fs)"
  have e: "newEncryptor lib sk bootstrapPhase DirC2S MethodAES256GCM = Inr (?a, ?cn)"
    by (simp add: newEncryptor_def)
  have a: "aead_ok ?a" and cn: "nonce_ok ?cn"
    using sk(2) by (simp_all add: keys_ok_def nonce_ok_def NewCounterNonce_def)
  obtain rw' env' where w: "WriteRecord buffer_writer env (NewRecordWriter ?a ?cn ?aad) [] ?p =
      (Inr (), rw', record_bytes ?a ?cn ?aad ?p, env')"
    using write_one_record [of "NewRecordWriter ?a ?cn ?aad" env ?p "[]"] a cn assms(4,9)
    by (auto simp: NewRecordWriter_def)
  let ?rr = "NewRecordReader \<lparr>sData = record_bytes ?a ?cn ?aad ?p @ rest, sErr = err\<rparr> ?a ?cn ?aad"
  obtain env3 where r: "ReadRecord env2 ?rr = (Inr ?p,
      ?rr\<lparr>rrSrc := (rrSrc ?rr)\<lparr>sData := rest\<rparr>, rrCounter := snd (Next ?cn)\<rparr>, env3)"
    using ReadRecord_record [of ?rr env2 ?p rest] a cn assms(5,9) by (auto simp: NewRecordReader_def)
  have f: "frame_fits f" "frame_norm f = f" "fType f = FrameHANDSHAKE" "fPayload f = Handshake_Encode h"
    using assms(7)
    by (auto simp: NewFrameHANDSHAKE_def NewFrame_def NewFrameWithPayload_def checkPayloadLen_def
        frame_fits_def frame_norm_def split: if_splits)
  have d: "DecodeFrame ?p = Inr (f, length (AppendFrame [] f))" "drop (length (AppendFrame [] f)) ?p = EncodeFrames fs"
    using frame_codec.dec_enc [OF f(1), of "EncodeFrames fs"] f(2) by simp_all
  have hs: "DecodeHandshake (Handshake_Encode h) = Inr h"
    using assms(6) by (simp add: DecodeHandshake_def Handshake_Encode_def)
  have "ReadFirstRecord lib env2 sk \<lparr>sData = record_bytes ?a ?cn ?aad ?p @ rest, sErr = err\<rparr> =
       (Inr \<lparr>frHandshake = h, frLeftover = map frame_norm fs\<rparr>, \<lparr>sData = rest, sErr = err\<rparr>, env3)"
    unfolding ReadFirstRecord_def e sum.case prod.case r d
    using f hs decodeFrames_EncodeFrames [OF assms(8), of "[]"] by (simp add: NewRecordReader_def)
  moreover have "BootstrapWriter lib sk = Inr (NewRecordWriter ?a ?cn ?aad)"
    using e by (simp add: BootstrapWriter_def newRecordWriter_def)
  ultimately show ?thesis using sk(1) w by blast
qed

text \<open>
  The first record of a stream carries the handshake: when a client writes the handshake frame
  and any further frames as its bootstrap record, the server that reads the stream with the same
  keys gets exactly that handshake and exactly those further frames, and the bytes after the record
  are left for the session reader.
\<close>

theorem first_record_roundtrip:
  assumes "lib_ok lib" "length mk = 32" "length salt = 16" "env_ok env" "env_ok env2"
    and "hVersion h = Version3" "NewFrameHANDSHAKE h = Inr f" "\<forall>g \<in> set fs. frame_fits g"
    and "length (EncodeFrames (f # fs)) \<le> 65517"
  shows "\<exists>sk rw rw' out env' env3. NewStreamKeys lib mk salt ep = Inr sk \<and> BootstrapWriter lib sk = Inr rw \<and>
     WriteRecord buffer_writer env rw [] (EncodeFrames (f # fs)) = (Inr (), rw', out, env') \<and>
     ReadFirstRecord lib env2 sk \<lparr>sData = out @ rest, sErr = err\<rparr> =
       (Inr \<lparr>frHandshake = h, frLeftover = map frame_norm fs\<rparr>, \<lparr>sData = rest, sErr = err\<rparr>, env3)"
  using assms by (rule first_record_delivered)

theorem first_record_roundtrip_witness:
  "let h = \<lparr>hVersion = 3, hProto = 1, hMethod = 1, hTarget = ''a:80''\<rparr>;
       f = \<lparr>fType = 6, fLength = 7, fPayload = Handshake_Encode h\<rparr>
   in \<exists>sk rw rw' out env' env3. NewStreamKeys null_lib (replicate 32 0) (replicate 16 0) ''/v3/tcp'' = Inr sk \<and>
     BootstrapWriter null_lib sk = Inr rw \<and>
     WriteRecord buffer_writer init_env rw [] (EncodeFrames [f, NewFrameFIN]) = (Inr (), rw', out, env') \<and>
     ReadFirstRecord null_lib init_env sk \<lparr>sData = out @ [9], sErr = io_EOF\<rparr> =
       (Inr \<lparr>frHandshake = h, frLeftover = map frame_norm [NewFrameFIN]\<rparr>, \<lparr>sData = [9], sErr = io_EOF\<rparr>, env3)"
  unfolding Let_def
  by (rule first_record_roundtrip [OF null_lib_ok _ _ init_env_ok init_env_ok])
    (simp_all add: NewFrameHANDSHAKE_def NewFrame_def NewFrameWithPayload_def checkPayloadLen_def
      frame_fits_def NewFrameFIN_def Handshake_Encode_def)

end
