(* ===== verification/Shaper.thy ===== *)
theory Shaper
  imports Records Complex_Main
begin

unbundle bit_operations_syntax

text \<open>
  The traffic shaper (\<open>src/shaper\<close>): frames are batched into records, each record is padded towards a
  common size, idle connections send cover frames, and records leave in the order in which their
  buffers were swapped out. A slice of a pooled buffer is its backing array and a length, so that
  what goes back to the pool is the array itself. \<open>runtime\<close> is what the run-time decides: random
  draws, the clock, and \<open>rtFl\<close>, the rounding of \<open>float64\<close> arithmetic, which the cover budget uses.
\<close>

section \<open>Outcomes\<close>

text \<open>A call returns, panics, or waits on a condition that the caller alone cannot make true.\<close>

datatype 'a outcome = Done 'a | Panics string | Blocks

fun obind :: "'a outcome \<Rightarrow> ('a \<Rightarrow> 'b outcome) \<Rightarrow> 'b outcome" where
  "obind (Done x) f = f x"
| "obind (Panics m) f = Panics m"
| "obind Blocks f = Blocks"

section \<open>Run-time choices\<close>

record runtime =
  rtInt :: "nat \<Rightarrow> nat"
  rtByte :: "nat \<Rightarrow> byte"
  rtIdx :: nat
  rtNow :: int
  rtFl :: "rat \<Rightarrow> rat"

definition randomInt :: "int \<Rightarrow> runtime \<Rightarrow> int \<times> runtime" where
  "randomInt n rt =
     (if n \<le> 0 then (0, rt)
      else (int (rtInt rt (rtIdx rt) mod nat n), rt\<lparr>rtIdx := Suc (rtIdx rt)\<rparr>))"

definition rng_Read :: "nat \<Rightarrow> runtime \<Rightarrow> bytes \<times> runtime" where
  "rng_Read n rt = (map (\<lambda>i. rtByte rt (rtIdx rt + i)) [0..<n], rt\<lparr>rtIdx := rtIdx rt + n\<rparr>)"

section \<open>Configuration\<close>

definition maxBatchWindowMS :: int where [simp]: "maxBatchWindowMS = 10"
definition defaultCoverIdleTimeoutMS :: int where [simp]: "defaultCoverIdleTimeoutMS = 300"
definition defaultCoverMinSize :: int where [simp]: "defaultCoverMinSize = 128"
definition defaultCoverMaxSize :: int where [simp]: "defaultCoverMaxSize = 1500"

record Cover =
  cvBudgetRatio :: rat
  cvIdleTimeout :: int
  cvMinSize :: int
  cvMaxSize :: int
  cvBudgetCap :: int

record shaper_Config =
  cfBatchWindowMS :: int
  cfCover :: Cover

text \<open>\<open>ratio\<close> is the constant \<open>config.DefaultCoverBudgetRatio\<close> as a \<open>float64\<close>.\<close>

definition Config_Normalize :: "rat \<Rightarrow> shaper_Config \<Rightarrow> shaper_Config" where
  "Config_Normalize ratio c =
     (let v = cfCover c;
          w = (if cfBatchWindowMS c \<le> 0 then DefaultBatchWindowMS else cfBatchWindowMS c);
          w = (if w > maxBatchWindowMS then maxBatchWindowMS else w);
          r = (if cvBudgetRatio v \<le> 0 \<or> cvBudgetRatio v > 1 then ratio else cvBudgetRatio v);
          bc = (if cvBudgetCap v \<le> 0 then DefaultCoverBudgetCap else cvBudgetCap v);
          it = (if cvIdleTimeout v \<le> 0 then defaultCoverIdleTimeoutMS else cvIdleTimeout v);
          mn = (if cvMinSize v \<le> 0 then defaultCoverMinSize else cvMinSize v);
          mx = (if cvMaxSize v \<le> 0 then defaultCoverMaxSize else cvMaxSize v);
          maxFramePayload = int (MaxWriteRecordPlaintext - FrameHeaderSize);
          mn = (if mn > maxFramePayload then maxFramePayload else mn);
          mx = (if mx > maxFramePayload then maxFramePayload else mx);
          mx = (if mx < mn then mn else mx)
      in \<lparr>cfBatchWindowMS = w,
          cfCover = \<lparr>cvBudgetRatio = r, cvIdleTimeout = it, cvMinSize = mn, cvMaxSize = mx,
                      cvBudgetCap = bc\<rparr>\<rparr>)"

section \<open>Padding\<close>

definition computePadPayloadSize :: "int \<Rightarrow> runtime \<Rightarrow> int \<times> runtime" where
  "computePadPayloadSize totalSize rt =
     (let (target, rt') =
            (if totalSize \<le> 128 then (case randomInt 256 rt of (x, rt) \<Rightarrow> (128 + x, rt))
             else if totalSize \<le> 512 then (case randomInt 256 rt of (x, rt) \<Rightarrow> (512 + x, rt))
             else if totalSize \<le> 1500 then (case randomInt 500 rt of (x, rt) \<Rightarrow> (1500 + x, rt))
             else (case randomInt 63 rt of (x, rt) \<Rightarrow> (totalSize + (1 + x), rt)))
      in (if target \<le> totalSize then 0 else target - totalSize, rt'))"

definition newPaddingFrame :: "int \<Rightarrow> int \<Rightarrow> runtime \<Rightarrow> env \<Rightarrow> Frame option \<times> runtime \<times> env" where
  "newPaddingFrame totalSize budget rt env =
     (let budget = (if budget \<le> 0 \<or> budget > int MaxReadRecordPlaintext
                    then int MaxReadRecordPlaintext else budget);
          (padSize, rt) = computePadPayloadSize totalSize rt
      in if padSize \<le> 0 then (None, rt, env)
         else if totalSize + int FrameHeaderSize + padSize > budget then (None, rt, env)
         else (Some (NewFramePADDING (word_of_int padSize)), rt,
               with_stats (RecordPaddingBytes padSize) env))"

text \<open>\<open>buildPaddingFrame\<close> and \<open>BuildPaddingFrame\<close> differ only in the random generator they use.\<close>

definition buildPaddingFrame :: "int \<Rightarrow> int \<Rightarrow> runtime \<Rightarrow> env \<Rightarrow> Frame option \<times> runtime \<times> env" where
  "buildPaddingFrame totalSize budget rt env =
     (case newPaddingFrame totalSize budget rt env of
        (None, rt, env) \<Rightarrow> (None, rt, env)
      | (Some frame, rt, env) \<Rightarrow>
          (case rng_Read (length (fPayload frame)) rt of
             (noise, rt) \<Rightarrow> (Some (frame\<lparr>fPayload := noise\<rparr>), rt, env)))"

section \<open>Cover traffic\<close>

record coverInjector =
  ciCfg :: Cover
  ciBudget :: rat
  ciTimer :: "int option"
  ciLastReset :: int
  ciLastRealData :: int
  ciMinResetInterval :: int
  ciTotalSent :: int
  ciStopped :: bool

text \<open>Times are in nanoseconds since the epoch; the zero \<open>time.Time\<close> lies in the past of any clock.\<close>

definition zero_time :: int where [simp]: "zero_time = - 62135596800 * Second"

definition newCoverInjector :: "Cover \<Rightarrow> coverInjector option" where
  "newCoverInjector cfg =
     (if cvBudgetRatio cfg = 0 then None
      else Some \<lparr>ciCfg = cfg, ciBudget = 0, ciTimer = None, ciLastReset = zero_time, ciLastRealData = 0,
                 ciMinResetInterval = (cvIdleTimeout cfg * Millisecond) sdiv 2, ciTotalSent = 0,
                 ciStopped = False\<rparr>)"

definition jitterTimeout :: "coverInjector \<Rightarrow> runtime \<Rightarrow> int \<times> runtime" where
  "jitterTimeout ci rt =
     (let minMS = (cvIdleTimeout (ciCfg ci) * 60) sdiv 100;
          maxMS = cvIdleTimeout (ciCfg ci);
          minMS = (if minMS \<ge> maxMS then maxMS else minMS);
          (x, rt) = randomInt (maxMS - minMS) rt
      in ((minMS + x) * Millisecond, rt))"

definition addBudget :: "int \<Rightarrow> coverInjector \<Rightarrow> runtime \<Rightarrow> coverInjector \<times> runtime" where
  "addBudget realBytes ci rt =
     (if ciStopped ci then (ci, rt)
      else
        (let fl = rtFl rt;
             b = fl (ciBudget ci + fl (fl (of_int realBytes) * cvBudgetRatio (ciCfg ci)));
             b = (if b > fl (of_int (cvBudgetCap (ciCfg ci))) then fl (of_int (cvBudgetCap (ciCfg ci))) else b);
             ci' = ci\<lparr>ciTotalSent := int64 (ciTotalSent ci + realBytes), ciLastRealData := rtNow rt,
                      ciBudget := b\<rparr>
         in if rtNow rt - ciLastReset ci \<ge> ciMinResetInterval ci
            then (case jitterTimeout ci' rt of
                    (d, rt) \<Rightarrow> (ci'\<lparr>ciTimer := Some (rtNow rt + d), ciLastReset := rtNow rt\<rparr>, rt))
            else (ci', rt)))"

definition cover_stop :: "coverInjector \<Rightarrow> coverInjector" where
  "cover_stop ci = ci\<lparr>ciStopped := True, ciTimer := None, ciBudget := 0\<rparr>"

text \<open>Conversion of a \<open>float64\<close> to \<open>int\<close> truncates towards zero.\<close>

definition rat_trunc :: "rat \<Rightarrow> int" where
  "rat_trunc x = (if x \<ge> 0 then \<lfloor>x\<rfloor> else \<lceil>x\<rceil>)"

definition coverFrameSizeRange :: "(rat \<Rightarrow> rat) \<Rightarrow> coverInjector \<Rightarrow> int \<times> int" where
  "coverFrameSizeRange fl ci =
     (let smoothSpan = 2 ^ 20;
          ratio = fl (fl (of_int (min (ciTotalSent ci) smoothSpan)) / fl (of_int smoothSpan));
          cfgMin = cvMinSize (ciCfg ci);
          cfgMax = cvMaxSize (ciCfg ci);
          span = fl (of_int (cfgMax - cfgMin));
          minSteady = cfgMin + rat_trunc (fl (span * fl (28 / 100)));
          maxStart = cfgMin + rat_trunc (fl (span * fl (278 / 1000)))
      in (cfgMin + rat_trunc (fl (ratio * fl (of_int (minSteady - cfgMin)))),
          maxStart + rat_trunc (fl (ratio * fl (of_int (cfgMax - maxStart))))))"

text \<open>
  The timer callback up to its second \<open>Unlock\<close>: the size of the cover frame to send, if any.
  \<open>isClosing\<close> is the shaper's flag. \<open>shaper_onIdle\<close> below is the whole callback.
\<close>

definition onIdle :: "bool \<Rightarrow> coverInjector \<Rightarrow> runtime \<Rightarrow> int option \<times> coverInjector \<times> runtime" where
  "onIdle isClosing ci rt =
     (if ciStopped ci then (None, ci, rt)
      else if isClosing then (None, ci, rt)
      else if ciLastRealData ci > 0 \<and>
              rtNow rt - ciLastRealData ci < cvIdleTimeout (ciCfg ci) * Millisecond
      then (case jitterTimeout ci rt of (d, rt) \<Rightarrow> (None, ci\<lparr>ciTimer := Some (rtNow rt + d)\<rparr>, rt))
      else
        (let fl = rtFl rt; (minSize, maxSize) = coverFrameSizeRange fl ci
         in if ciBudget ci < fl (of_int minSize) then (None, ci, rt)
            else
              (let maxFrameSize = min maxSize (rat_trunc (ciBudget ci));
                   (x, rt) = randomInt (maxFrameSize - minSize + 1) rt;
                   frameSize = minSize + x;
                   ci' = ci\<lparr>ciBudget := fl (ciBudget ci - fl (of_int frameSize))\<rparr>
               in if ciBudget ci' \<ge> fl (of_int minSize)
                  then (case jitterTimeout ci' rt of
                          (d, rt) \<Rightarrow> (Some frameSize, ci'\<lparr>ciTimer := Some (rtNow rt + d)\<rparr>, rt))
                  else (Some frameSize, ci', rt))))"

section \<open>Slices of pooled buffers\<close>

record slice =
  slArr :: bytes
  slLen :: nat

definition slice_data :: "slice \<Rightarrow> bytes" where
  "slice_data s = take (slLen s) (slArr s)"

definition slice_cap :: "slice \<Rightarrow> nat" where
  "slice_cap s = length (slArr s)"

text \<open>
  \<open>append\<close>: in place when the capacity suffices, into a new array otherwise. The run-time may choose
  a larger new array; the smallest one is taken here.
\<close>

definition slice_append :: "slice \<Rightarrow> bytes \<Rightarrow> slice" where
  "slice_append s b =
     (if slLen s + length b \<le> slice_cap s
      then \<lparr>slArr = take (slLen s) (slArr s) @ b @ drop (slLen s + length b) (slArr s),
            slLen = slLen s + length b\<rparr>
      else \<lparr>slArr = slice_data s @ b, slLen = slLen s + length b\<rparr>)"

section \<open>The batch shaper\<close>

definition ErrClosed :: go_error where
  "ErrClosed = Sentinel ''shaper: closed''"

definition errRecordDropped :: go_error where
  "errRecordDropped = Sentinel ''shaper: record dropped after close''"

text \<open>
  \<open>bsPlaintext\<close> is \<open>None\<close> for the nil slice. \<open>bsOut\<close> is the state of the stream the record writer
  writes to, \<open>bsEnv\<close> the pool and the counters, \<open>bsRt\<close> the run-time's choices.
\<close>

record 'w batchShaper =
  bsWriter :: RecordWriter
  bsPlaintext :: "slice option"
  bsTimer :: bool
  bsWriteSeq :: nat
  bsWriteNext :: nat
  bsRecordCeiling :: nat
  bsFlushThreshold :: nat
  bsWindow :: int
  bsClosing :: bool
  bsWriteClosed :: bool
  bsErr :: "go_error option"
  bsCover :: "coverInjector option"
  bsOut :: 'w
  bsEnv :: env
  bsRt :: runtime

text \<open>The stream under the record writer: its \<open>Write\<close> method and its \<open>Flush\<close>.\<close>

record 'w sink =
  snkWrite :: "'w writer"
  snkFlush :: "'w \<Rightarrow> 'w"

definition pool_take :: "int \<Rightarrow> 'w batchShaper \<Rightarrow> (bytes \<times> nat \<times> 'w batchShaper) outcome" where
  "pool_take n bs =
     (case bytespool_Get (bsEnv bs) n of
        (None, env) \<Rightarrow> Panics ''slice bounds out of range''
      | (Some (buf, m), env) \<Rightarrow> Done (buf, m, bs\<lparr>bsEnv := env\<rparr>))"

definition pool_put :: "bytes \<Rightarrow> 'w batchShaper \<Rightarrow> 'w batchShaper outcome" where
  "pool_put arr bs =
     (case bytespool_MustPut (bsEnv bs) arr of
        (Inl _, env) \<Rightarrow> Panics ''allocator Put() incorrect buffer size''
      | (Inr _, env) \<Rightarrow> Done (bs\<lparr>bsEnv := env\<rparr>))"

definition minRecordBufferSize :: nat where [simp]: "minRecordBufferSize = MinRecordBufferSize"

text \<open>\<open>New\<close>; \<open>ratio\<close> is the default cover ratio.\<close>

definition Shaper_New ::
  "rat \<Rightarrow> RecordWriter \<Rightarrow> shaper_Config \<Rightarrow> 'w \<Rightarrow> env \<Rightarrow> runtime \<Rightarrow> 'w batchShaper outcome" where
  "Shaper_New ratio writer cfg out env rt =
     (let cfg = Config_Normalize ratio cfg;
          bs = \<lparr>bsWriter = writer, bsPlaintext = None, bsTimer = False, bsWriteSeq = 0, bsWriteNext = 0,
                bsRecordCeiling = MaxWriteRecordPlaintext,
                bsFlushThreshold = MaxWriteRecordPlaintext * 9 div 10,
                bsWindow = cfBatchWindowMS cfg * Millisecond, bsClosing = False, bsWriteClosed = False,
                bsErr = None, bsCover = newCoverInjector (cfCover cfg), bsOut = out, bsEnv = env, bsRt = rt\<rparr>
      in obind (pool_take (int minRecordBufferSize) bs)
           (\<lambda>(buf, _, bs). Done (bs\<lparr>bsPlaintext := Some \<lparr>slArr = buf, slLen = 0\<rparr>\<rparr>)))"

definition plain_len :: "'w batchShaper \<Rightarrow> nat" where
  "plain_len bs = (case bsPlaintext bs of None \<Rightarrow> 0 | Some s \<Rightarrow> slLen s)"

definition plain_cap :: "'w batchShaper \<Rightarrow> nat" where
  "plain_cap bs = (case bsPlaintext bs of None \<Rightarrow> 0 | Some s \<Rightarrow> slice_cap s)"

definition plain_data :: "'w batchShaper \<Rightarrow> bytes" where
  "plain_data bs = (case bsPlaintext bs of None \<Rightarrow> [] | Some s \<Rightarrow> slice_data s)"

definition growLocked :: "nat \<Rightarrow> 'w batchShaper \<Rightarrow> 'w batchShaper outcome" where
  "growLocked sz bs =
     (let newCap = min (max (plain_cap bs * 2) (max sz minRecordBufferSize)) MaxReadRecordPlaintext
      in obind (pool_take (int newCap) bs) (\<lambda>(buf, m, bs).
           let old = plain_data bs;
               n = min m (length old);
               new = \<lparr>slArr = take n old @ drop n buf, slLen = n\<rparr>
           in case bsPlaintext bs of
                Some s \<Rightarrow>
                  (if slice_cap s > 0
                   then obind (pool_put (slArr s) bs) (\<lambda>bs. Done (bs\<lparr>bsPlaintext := Some new\<rparr>))
                   else Done (bs\<lparr>bsPlaintext := Some new\<rparr>))
              | None \<Rightarrow> Done (bs\<lparr>bsPlaintext := Some new\<rparr>)))"

definition ensureCapacity :: "nat \<Rightarrow> 'w batchShaper \<Rightarrow> 'w batchShaper outcome" where
  "ensureCapacity sz bs = (if plain_cap bs \<ge> sz then Done bs else growLocked sz bs)"

definition append_plain :: "Frame \<Rightarrow> 'w batchShaper \<Rightarrow> 'w batchShaper" where
  "append_plain f bs =
     bs\<lparr>bsPlaintext := Some (slice_append (case bsPlaintext bs of None \<Rightarrow> \<lparr>slArr = [], slLen = 0\<rparr> | Some s \<Rightarrow> s)
                              (AppendFrame [] f))\<rparr>"

text \<open>\<open>arr\<close> is the array behind the payload.\<close>

definition putPooledPayload :: "bytes \<Rightarrow> bytes \<Rightarrow> 'w batchShaper \<Rightarrow> 'w batchShaper outcome" where
  "putPooledPayload payload arr bs =
     (if length payload > 0 \<and> length arr \<le> MaxSize \<and> length arr AND (length arr - 1) = 0
      then pool_put arr bs else Done bs)"

definition flushLocked :: "'w batchShaper \<Rightarrow> (slice option \<times> 'w batchShaper) outcome" where
  "flushLocked bs =
     (if plain_len bs = 0 then Done (None, bs)
      else
        (let bs = bs\<lparr>bsTimer := False\<rparr>;
             (pad, rt, env) = buildPaddingFrame (int (plain_len bs)) (int (bsRecordCeiling bs)) (bsRt bs) (bsEnv bs);
             bs = bs\<lparr>bsRt := rt, bsEnv := env\<rparr>
         in obind (case pad of
                     None \<Rightarrow> Done bs
                   | Some padFrame \<Rightarrow>
                       obind (ensureCapacity (plain_len bs + FrameHeaderSize + length (fPayload padFrame)) bs)
                         (\<lambda>bs. Done (append_plain padFrame bs)))
              (\<lambda>bs. obind (pool_take (int minRecordBufferSize) bs) (\<lambda>(buf, _, bs').
                 Done (bsPlaintext bs, bs'\<lparr>bsPlaintext := Some \<lparr>slArr = buf, slLen = 0\<rparr>\<rparr>)))))"

definition writeRecordInOrder ::
  "'w sink \<Rightarrow> nat \<Rightarrow> bytes \<Rightarrow> bool \<Rightarrow> 'w batchShaper \<Rightarrow> (unit result \<times> 'w batchShaper) outcome" where
  "writeRecordInOrder snk sequence data forceFlush bs =
     (if sequence \<noteq> bsWriteNext bs then Blocks
      else if bsWriteClosed bs
      then Done (Inl errRecordDropped, bs\<lparr>bsWriteNext := Suc (bsWriteNext bs)\<rparr>)
      else
        (case WriteRecord (snkWrite snk) (bsEnv bs) (bsWriter bs) (bsOut bs) data of
           (r, rw, out, env) \<Rightarrow>
             (let out = (if r = Inr () \<and> forceFlush then snkFlush snk out else out)
              in Done (r, bs\<lparr>bsWriter := rw, bsOut := out, bsEnv := env,
                             bsWriteNext := Suc (bsWriteNext bs)\<rparr>))))"

definition flushAndWrite ::
  "'w sink \<Rightarrow> bool \<Rightarrow> 'w batchShaper \<Rightarrow> (unit result \<times> 'w batchShaper) outcome" where
  "flushAndWrite snk forceFlush bs =
     obind (flushLocked bs) (\<lambda>(data, bs).
       case data of
         None \<Rightarrow> Done (Inr (), bs)
       | Some data \<Rightarrow>
           (let sequence = bsWriteSeq bs; bs = bs\<lparr>bsWriteSeq := Suc (bsWriteSeq bs)\<rparr>
            in obind (writeRecordInOrder snk sequence (slice_data data) forceFlush bs) (\<lambda>(err, bs).
                 obind (pool_put (slArr data) bs) (\<lambda>bs.
                   case err of
                     Inr _ \<Rightarrow> Done (Inr (), bs)
                   | Inl e \<Rightarrow>
                       (if errors_is e errRecordDropped then Done (Inl ErrClosed, bs)
                        else Done (Inl e, bs\<lparr>bsErr := Some e\<rparr>))))))"

text \<open>\<open>arr\<close> is the array behind the payload; only cover frames give it back.\<close>

definition appendFrameLocked ::
  "'w sink \<Rightarrow> FrameType \<Rightarrow> bytes \<Rightarrow> bytes \<Rightarrow> bool \<Rightarrow> 'w batchShaper \<Rightarrow>
     (unit result \<times> 'w batchShaper) outcome" where
  "appendFrameLocked snk ftype payload arr putPayload bs =
     (let frameSize = FrameHeaderSize + length payload;
          giveBack = (\<lambda>bs. if putPayload then putPooledPayload payload arr bs else Done bs)
      in if frameSize > bsRecordCeiling bs
         then obind (giveBack bs)
                (\<lambda>bs. Done (Inl (Msg ''shaper: frame size exceeds max record size''), bs))
         else
           obind (if plain_len bs > 0 \<and> plain_len bs + frameSize > bsRecordCeiling bs
                  then obind (flushAndWrite snk False bs) (\<lambda>(r, bs).
                         case r of
                           Inl e \<Rightarrow> obind (giveBack bs) (\<lambda>bs. Done (Inl e, bs))
                         | Inr _ \<Rightarrow>
                             (if bsClosing bs then obind (giveBack bs) (\<lambda>bs. Done (Inl ErrClosed, bs))
                              else Done (Inr (), bs)))
                  else Done (Inr (), bs))
             (\<lambda>(r, bs).
                case r of
                  Inl e \<Rightarrow> Done (Inl e, bs)
                | Inr _ \<Rightarrow>
                    obind (ensureCapacity (plain_len bs + frameSize) bs) (\<lambda>bs.
                      let bs = append_plain \<lparr>fType = ftype, fLength = 0, fPayload = payload\<rparr> bs
                      in obind (giveBack bs) (\<lambda>bs.
                           if plain_len bs \<ge> bsFlushThreshold bs then flushAndWrite snk False bs
                           else Done (Inr (), bs\<lparr>bsTimer := True\<rparr>)))))"

definition cover_addBudget :: "int \<Rightarrow> 'w batchShaper \<Rightarrow> 'w batchShaper" where
  "cover_addBudget n bs =
     (case bsCover bs of
        None \<Rightarrow> bs
      | Some ci \<Rightarrow> (case addBudget n ci (bsRt bs) of (ci, rt) \<Rightarrow> bs\<lparr>bsCover := Some ci, bsRt := rt\<rparr>))"

definition PushData ::
  "'w sink \<Rightarrow> bytes \<Rightarrow> 'w batchShaper \<Rightarrow> (unit result \<times> 'w batchShaper) outcome" where
  "PushData snk data bs =
     (if bsClosing bs then Done (Inl ErrClosed, bs)
      else case bsErr bs of
             Some e \<Rightarrow> Done (Inl e, bs)
           | None \<Rightarrow>
               appendFrameLocked snk FrameDATA data [] False
                 (cover_addBudget (int (FrameHeaderSize + length data)) bs))"

definition PushFrame ::
  "'w sink \<Rightarrow> Frame \<Rightarrow> bytes \<Rightarrow> 'w batchShaper \<Rightarrow> (unit result \<times> 'w batchShaper) outcome" where
  "PushFrame snk f arr bs =
     (if bsClosing bs then Done (Inl ErrClosed, bs)
      else case bsErr bs of
             Some e \<Rightarrow> Done (Inl e, bs)
           | None \<Rightarrow>
               if length (fPayload f) > 65535
               then Done (Inl (Msg ''shaper: frame payload too large''), bs)
               else
                 let f = f\<lparr>fLength := word_of_nat (length (fPayload f))\<rparr>;
                     bs = (if fType f \<noteq> FrameCOVER \<and> fType f \<noteq> FramePADDING
                           then cover_addBudget (int (EncodedLen f)) bs else bs)
                 in appendFrameLocked snk (fType f) (fPayload f) arr (fType f = FrameCOVER) bs)"

definition injectCoverFrame ::
  "'w sink \<Rightarrow> Frame \<Rightarrow> bytes \<Rightarrow> 'w batchShaper \<Rightarrow> (unit result \<times> 'w batchShaper) outcome" where
  "injectCoverFrame snk f arr bs =
     (if bsClosing bs \<or> bsErr bs \<noteq> None
      then obind (if fType f = FrameCOVER then putPooledPayload (fPayload f) arr bs else Done bs)
             (\<lambda>bs. Done (Inr (), bs))
      else appendFrameLocked snk (fType f) (fPayload f) arr (fType f = FrameCOVER) bs)"

text \<open>\<open>flush\<close>; the exported \<open>Flush\<close> is \<open>flush(true)\<close>.\<close>

definition shaper_flush ::
  "'w sink \<Rightarrow> bool \<Rightarrow> 'w batchShaper \<Rightarrow> (unit result \<times> 'w batchShaper) outcome" where
  "shaper_flush snk forceFlush bs = flushAndWrite snk forceFlush bs"

definition Flush :: "'w sink \<Rightarrow> 'w batchShaper \<Rightarrow> (unit result \<times> 'w batchShaper) outcome" where
  "Flush snk bs = shaper_flush snk True bs"

text \<open>The timer callback; its errors are only logged.\<close>

definition onTimer :: "'w sink \<Rightarrow> 'w batchShaper \<Rightarrow> 'w batchShaper outcome" where
  "onTimer snk bs =
     (if bsClosing bs then Done bs
      else obind (shaper_flush snk True bs) (\<lambda>(_, bs). Done bs))"

definition Shaper_Close :: "'w sink \<Rightarrow> 'w batchShaper \<Rightarrow> (unit result \<times> 'w batchShaper) outcome" where
  "Shaper_Close snk bs =
     (let bs = bs\<lparr>bsClosing := True, bsCover := map_option cover_stop (bsCover bs), bsTimer := False\<rparr>
      in obind (shaper_flush snk True bs) (\<lambda>(err, bs).
           let pending = bsWriteSeq bs
           in if bsWriteNext bs < pending then Blocks
              else
                let bs = bs\<lparr>bsWriteClosed := True\<rparr>
                in case bsPlaintext bs of
                     None \<Rightarrow> Done (err, bs)
                   | Some s \<Rightarrow>
                       obind (pool_put (slArr s) bs) (\<lambda>bs. Done (err, bs\<lparr>bsPlaintext := None\<rparr>))))"

text \<open>
  The cover timer's callback on its shaper: the payload is a pooled buffer filled with random bytes,
  wrapped without a copy and handed to \<open>injectCoverFrame\<close>.
\<close>

definition shaper_onIdle :: "'w sink \<Rightarrow> 'w batchShaper \<Rightarrow> 'w batchShaper outcome" where
  "shaper_onIdle snk bs =
     (case bsCover bs of
        None \<Rightarrow> Done bs
      | Some ci \<Rightarrow>
          (case onIdle (bsClosing bs) ci (bsRt bs) of
             (None, ci, rt) \<Rightarrow> Done (bs\<lparr>bsCover := Some ci, bsRt := rt\<rparr>)
           | (Some frameSize, ci, rt) \<Rightarrow>
               obind (pool_take frameSize (bs\<lparr>bsCover := Some ci, bsRt := rt\<rparr>)) (\<lambda>(buf, n, bs).
                 case rng_Read n (bsRt bs) of
                   (payload, rt) \<Rightarrow>
                     (case NewFrameWithPayload FrameCOVER payload of
                        Inl _ \<Rightarrow> Panics ''protocol: frame payload too large''
                      | Inr f \<Rightarrow>
                          obind (injectCoverFrame snk f (payload @ drop n buf) (bs\<lparr>bsRt := rt\<rparr>))
                            (\<lambda>(_, bs). Done bs)))))"

end
