(* ===== verification/Shaping.thy ===== *)
theory Shaping
  imports Shaper
begin

unbundle bit_operations_syntax

text \<open>
  The correctness of the shaper: buffers and padding, the invariant every operation keeps on any
  stream, what reaches a working stream, and the order of records when several goroutines flush at
  once. The locale \<open>shaper_predicate\<close> states what a predicate must survive for every operation to keep
  it; it is interpreted for the invariant on any stream and for the contents of a working stream.
\<close>

section \<open>Configuration\<close>

lemma Config_Normalize_idem:
  assumes "0 < ratio" "ratio \<le> 1"
  shows "Config_Normalize ratio (Config_Normalize ratio c) = Config_Normalize ratio c"
  using assms by (simp add: Config_Normalize_def Let_def)

section \<open>Buffers\<close>

definition plain_ok :: "slice option \<Rightarrow> bool" where
  "plain_ok p \<longleftrightarrow> (case p of None \<Rightarrow> True
     | Some s \<Rightarrow> (\<exists>k < 18. slice_cap s = 2 ^ k) \<and> slLen s \<le> slice_cap s)"

lemma plain_ok_simps [simp]:
  "plain_ok None"
  "plain_ok (Some s) \<longleftrightarrow> (\<exists>k < 18. slice_cap s = 2 ^ k) \<and> slLen s \<le> slice_cap s"
  by (simp_all add: plain_ok_def)

lemma length_plain_data: "plain_ok (bsPlaintext bs) \<Longrightarrow> length (plain_data bs) = plain_len bs"
  by (cases "bsPlaintext bs") (auto simp: plain_data_def plain_len_def slice_data_def slice_cap_def)

lemma plain_upd [simp]:
  "plain_data (bs\<lparr>bsPlaintext := Some s\<rparr>) = slice_data s" "plain_len (bs\<lparr>bsPlaintext := Some s\<rparr>) = slLen s"
  "plain_cap (bs\<lparr>bsPlaintext := Some s\<rparr>) = slice_cap s"
  "plain_data (bs\<lparr>bsEnv := e\<rparr>) = plain_data bs" "plain_len (bs\<lparr>bsEnv := e\<rparr>) = plain_len bs"
  "plain_cap (bs\<lparr>bsEnv := e\<rparr>) = plain_cap bs"
  "plain_data (bs\<lparr>bsTimer := t\<rparr>) = plain_data bs" "plain_len (bs\<lparr>bsTimer := t\<rparr>) = plain_len bs"
  "plain_cap (bs\<lparr>bsTimer := t\<rparr>) = plain_cap bs"
  "plain_data (bs\<lparr>bsRt := r\<rparr>) = plain_data bs" "plain_len (bs\<lparr>bsRt := r\<rparr>) = plain_len bs"
  "plain_cap (bs\<lparr>bsRt := r\<rparr>) = plain_cap bs"
  "plain_data (bs\<lparr>bsCover := c\<rparr>) = plain_data bs" "plain_len (bs\<lparr>bsCover := c\<rparr>) = plain_len bs"
  "plain_cap (bs\<lparr>bsCover := c\<rparr>) = plain_cap bs"
  by (simp_all add: plain_data_def plain_len_def plain_cap_def)

lemma pool_take_ok:
  assumes "env_ok (bsEnv bs)" "0 < n" "n \<le> 131072"
  shows "\<exists>buf e. pool_take (int n) bs = Done (buf, n, bs\<lparr>bsEnv := e\<rparr>) \<and> env_ok e \<and> n \<le> length buf \<and>
     (\<exists>k < 18. length buf = 2 ^ k)"
  using bytespool_Get_served [OF assms] by (auto simp: pool_take_def)

lemma pool_put_ok:
  assumes "env_ok (bsEnv bs)" "k < 18" "length arr = 2 ^ k"
  shows "\<exists>e. pool_put arr bs = Done (bs\<lparr>bsEnv := e\<rparr>) \<and> env_ok e"
  using bytespool_MustPut_class [OF assms] by (auto simp: pool_put_def)

lemma growLocked_ok:
  assumes env: "env_ok (bsEnv bs)" and p: "plain_ok (bsPlaintext bs)" and sz: "plain_cap bs < sz" "sz \<le> 65536"
  shows "\<exists>e s. growLocked sz bs = Done (bs\<lparr>bsEnv := e, bsPlaintext := Some s\<rparr>) \<and> env_ok e \<and> plain_ok (Some s) \<and>
     slice_data s = plain_data bs \<and> slLen s = plain_len bs \<and> sz \<le> slice_cap s"
proof -
  define c where "c = min (max (plain_cap bs * 2) (max sz minRecordBufferSize)) MaxReadRecordPlaintext"
  have c: "0 < c" "c \<le> 131072" "sz \<le> c" "plain_cap bs \<le> c" using sz by (auto simp: c_def)
  obtain buf e where g: "pool_take (int c) bs = Done (buf, c, bs\<lparr>bsEnv := e\<rparr>)" "env_ok e" "c \<le> length buf"
      "\<exists>k < 18. length buf = 2 ^ k"
    using pool_take_ok [OF env c(1,2)] by auto
  have len: "length (plain_data bs) = plain_len bs" "plain_len bs \<le> plain_cap bs"
    using length_plain_data [OF p] p by (auto simp: plain_len_def plain_cap_def split: option.splits)
  define new where "new = \<lparr>slArr = plain_data bs @ drop (plain_len bs) buf, slLen = plain_len bs\<rparr>"
  have new: "slice_data new = plain_data bs" "slLen new = plain_len bs" "slice_cap new = length buf"
    using len c g(3) by (auto simp: new_def slice_data_def slice_cap_def)
  have ok: "plain_ok (Some new)" "sz \<le> slice_cap new" using new g(3,4) len c by auto
  have mn: "min c (length (plain_data bs)) = plain_len bs" using len c by simp
  have eq: "growLocked sz bs = (case bsPlaintext bs of
                Some s \<Rightarrow>
                  (if slice_cap s > 0
                   then obind (pool_put (slArr s) (bs\<lparr>bsEnv := e\<rparr>)) (\<lambda>bs. Done (bs\<lparr>bsPlaintext := Some new\<rparr>))
                   else Done (bs\<lparr>bsEnv := e, bsPlaintext := Some new\<rparr>))
              | None \<Rightarrow> Done (bs\<lparr>bsEnv := e, bsPlaintext := Some new\<rparr>))"
    unfolding growLocked_def c_def [symmetric] Let_def g(1) obind.simps prod.case plain_upd mn new_def
    by (simp add: len(1) split: option.split)
  show ?thesis
  proof (cases "bsPlaintext bs")
    case None
    then show ?thesis using eq ok new g(2) by (intro exI [of _ e] exI [of _ new]) simp
  next
    case (Some s)
    then obtain k where k: "k < 18" "length (slArr s) = 2 ^ k" using p by (auto simp: slice_cap_def)
    obtain e2 where "pool_put (slArr s) (bs\<lparr>bsEnv := e\<rparr>) = Done (bs\<lparr>bsEnv := e2\<rparr>)" "env_ok e2"
      using pool_put_ok [of "bs\<lparr>bsEnv := e\<rparr>" k "slArr s"] g(2) k by auto
    then show ?thesis using eq Some ok new k
      by (intro exI [of _ e2] exI [of _ new]) (simp add: slice_cap_def)
  qed
qed

lemma ensureCapacity_ok:
  assumes "env_ok (bsEnv bs)" "plain_ok (bsPlaintext bs)" "0 < sz" "sz \<le> 65536"
  shows "\<exists>e s. ensureCapacity sz bs = Done (bs\<lparr>bsEnv := e, bsPlaintext := Some s\<rparr>) \<and> env_ok e \<and> plain_ok (Some s) \<and>
     slice_data s = plain_data bs \<and> slLen s = plain_len bs \<and> sz \<le> slice_cap s"
proof (cases "sz \<le> plain_cap bs")
  case True
  then obtain s where "bsPlaintext bs = Some s" using assms(3) by (cases "bsPlaintext bs") (auto simp: plain_cap_def)
  moreover from this have "bs = bs\<lparr>bsEnv := bsEnv bs, bsPlaintext := Some s\<rparr>" by simp
  ultimately show ?thesis using True assms
    by (intro exI [of _ "bsEnv bs"] exI [of _ s])
      (auto simp: ensureCapacity_def plain_data_def plain_len_def plain_cap_def)
next
  case False
  then show ?thesis using growLocked_ok [OF assms(1,2), of sz] assms(4) by (simp add: ensureCapacity_def)
qed

lemma slice_append_in_place:
  assumes "plain_ok (Some s)" "slLen s + length b \<le> slice_cap s"
  shows "slice_data (slice_append s b) = slice_data s @ b" "slLen (slice_append s b) = slLen s + length b"
    "slice_cap (slice_append s b) = slice_cap s" "plain_ok (Some (slice_append s b))"
  using assms by (auto simp: slice_append_def slice_data_def slice_cap_def)

section \<open>Padding\<close>

lemma randomInt_range: "0 < n \<Longrightarrow> randomInt n rt = (x, rt') \<Longrightarrow> 0 \<le> x \<and> x < n"
proof -
  assume n: "0 < n" and r: "randomInt n rt = (x, rt')"
  have "rtInt rt (rtIdx rt) mod nat n < nat n" using n by simp
  then have "int (rtInt rt (rtIdx rt) mod nat n) < n" using n by linarith
  then show ?thesis using n r by (auto simp: randomInt_def)
qed

lemma computePad_bounds:
  assumes "computePadPayloadSize t rt = (p, rt')" "0 < t"
  shows "0 \<le> p \<and> p < 1500 \<and> (1500 < t \<longrightarrow> 1 \<le> p \<and> p \<le> 63)"
  using assms
  by (auto simp: computePadPayloadSize_def Let_def randomInt_def split: if_splits)

lemma buildPaddingFrame_Some:
  assumes "buildPaddingFrame t b rt env = (Some f, rt', env')" "0 < t"
  shows "fType f = FramePADDING \<and> 0 < length (fPayload f) \<and> length (fPayload f) < 1500 \<and>
     t + 3 + int (length (fPayload f)) \<le> (if b \<le> 0 \<or> b > 65536 then 65536 else b)"
proof -
  obtain p rt1 where c: "computePadPayloadSize t rt = (p, rt1)" by fastforce
  have p: "0 \<le> p" "p < 1500" using computePad_bounds [OF c assms(2)] by auto
  then have u: "unat (word_of_int p :: 16 word) = nat p"
    by (simp add: unat_eq_nat_uint uint_word_of_int)
  show ?thesis
    using assms(1) p u
    by (auto simp: buildPaddingFrame_def newPaddingFrame_def c Let_def rng_Read_def NewFramePADDING_def
        NewZeroFrame_def split: if_splits)
qed

lemma buildPaddingFrame_env:
  "buildPaddingFrame t b rt env = (r, rt', env') \<Longrightarrow> env_ok env \<Longrightarrow> env_ok env'"
  by (auto simp: buildPaddingFrame_def newPaddingFrame_def Let_def split: if_splits prod.splits option.splits)

section \<open>The invariant of the shaper\<close>

text \<open>
  Between two operations of a single caller: the pool is sound, the buffer is a pool class and holds
  at most one record's plaintext, the record writer is usable, and no record is in flight.
\<close>

definition writer_ok :: "RecordWriter \<Rightarrow> bool" where
  "writer_ok rw \<longleftrightarrow> aead_ok (rwEnc rw) \<and> nonce_ok (rwCounter rw) \<and> rwMaxPlain rw = 65517"

definition bs_ok :: "'w batchShaper \<Rightarrow> bool" where
  "bs_ok bs \<longleftrightarrow> env_ok (bsEnv bs) \<and> plain_ok (bsPlaintext bs) \<and> plain_len bs \<le> 65517 \<and>
     writer_ok (bsWriter bs) \<and> bsRecordCeiling bs = 65517 \<and> bsFlushThreshold bs = 58965 \<and>
     bsWriteSeq bs = bsWriteNext bs"

lemma bs_okD:
  "bs_ok bs \<Longrightarrow> env_ok (bsEnv bs)" "bs_ok bs \<Longrightarrow> plain_ok (bsPlaintext bs)" "bs_ok bs \<Longrightarrow> plain_len bs \<le> 65517"
  "bs_ok bs \<Longrightarrow> writer_ok (bsWriter bs)" "bs_ok bs \<Longrightarrow> bsRecordCeiling bs = 65517"
  "bs_ok bs \<Longrightarrow> bsFlushThreshold bs = 58965" "bs_ok bs \<Longrightarrow> bsWriteSeq bs = bsWriteNext bs"
  by (simp_all add: bs_ok_def)

text \<open>What \<open>flushLocked\<close> may change: the timer, the buffer, the pool and the run-time's choices.\<close>

definition padding_of :: "Frame list \<Rightarrow> bool" where
  "padding_of pad \<longleftrightarrow> pad = [] \<or> (\<exists>f. pad = [f] \<and> fType f = FramePADDING \<and> frame_fits f)"

lemma flushLocked_empty: "plain_len bs = 0 \<Longrightarrow> flushLocked bs = Done (None, bs)"
  by (simp add: flushLocked_def)

lemma flushLocked_padded:
  assumes env: "env_ok (bsEnv bs)" and p: "plain_ok (bsPlaintext bs)" and len: "0 < plain_len bs" "plain_len bs \<le> 65517"
    and ceil: "bsRecordCeiling bs = 65517"
  shows "\<exists>e rt s pad. env_ok e \<and> padding_of pad \<and> plain_ok (Some s) \<and> slLen s \<le> 65517 \<and>
    slice_data s = plain_data bs @ EncodeFrames pad \<and>
    (let bs1 = bs\<lparr>bsTimer := False\<rparr>;
         (padf, rt', env') = buildPaddingFrame (int (plain_len bs1)) (int (bsRecordCeiling bs1)) (bsRt bs1) (bsEnv bs1);
         bs2 = bs1\<lparr>bsRt := rt', bsEnv := env'\<rparr>
     in (case padf of
           None \<Rightarrow> Done bs2
         | Some padFrame \<Rightarrow>
             obind (ensureCapacity (plain_len bs2 + FrameHeaderSize + length (fPayload padFrame)) bs2)
               (\<lambda>bs. Done (append_plain padFrame bs)))) =
      Done (bs\<lparr>bsTimer := False, bsRt := rt, bsEnv := e, bsPlaintext := Some s\<rparr>)"
proof -
  obtain padf rt env' where b:
    "buildPaddingFrame (int (plain_len bs)) 65517 (bsRt bs) (bsEnv bs) = (padf, rt, env')"
    by (metis prod_cases3)
  have env': "env_ok env'" using buildPaddingFrame_env [OF b env] .
  let ?bs = "bs\<lparr>bsTimer := False, bsRt := rt, bsEnv := env'\<rparr>"
  show ?thesis
  proof (cases padf)
    case None
    obtain s where s: "bsPlaintext bs = Some s" using len by (cases "bsPlaintext bs") (auto simp: plain_len_def)
    then have pd: "slice_data s = plain_data bs" "slLen s = plain_len bs"
      by (simp_all add: plain_data_def plain_len_def)
    from s have eq: "?bs = bs\<lparr>bsTimer := False, bsRt := rt, bsEnv := env', bsPlaintext := Some s\<rparr>"
      by (cases bs) simp
    show ?thesis
      by (rule exI [of _ env'], rule exI [of _ rt], rule exI [of _ s], rule exI [of _ "[]"])
        (use p [unfolded s] env' len eq pd in \<open>simp add: None b ceil padding_of_def Let_def\<close>)
  next
    case (Some f)
    note pf = buildPaddingFrame_Some [OF b [unfolded Some]]
    have f: "fType f = FramePADDING" "length (fPayload f) < 1500" "plain_len bs + 3 + length (fPayload f) \<le> 65517"
      using pf len by auto
    have fits: "frame_fits f" using f(2) by (simp add: frame_fits_def)
    obtain e s where g: "ensureCapacity (plain_len bs + 3 + length (fPayload f)) ?bs =
        Done (?bs\<lparr>bsEnv := e, bsPlaintext := Some s\<rparr>)" "env_ok e" "plain_ok (Some s)"
        "slice_data s = plain_data bs" "slLen s = plain_len bs" "plain_len bs + 3 + length (fPayload f) \<le> slice_cap s"
      using ensureCapacity_ok [of ?bs "plain_len bs + 3 + length (fPayload f)"] env' p f(3) by auto
    note app = slice_append_in_place [OF g(3), of "AppendFrame [] f"]
    show ?thesis
      by (rule exI [of _ e], rule exI [of _ rt], rule exI [of _ "slice_append s (AppendFrame [] f)"],
          rule exI [of _ "[f]"])
        (use g f fits app in \<open>simp add: Some b ceil padding_of_def Let_def append_plain_def\<close>)
  qed
qed

lemma flushLocked_ok:
  assumes env: "env_ok (bsEnv bs)" and p: "plain_ok (bsPlaintext bs)" and len: "0 < plain_len bs" "plain_len bs \<le> 65517"
    and ceil: "bsRecordCeiling bs = 65517"
  shows "\<exists>e rt s pad s0. flushLocked bs = Done (Some s, bs\<lparr>bsTimer := False, bsRt := rt, bsEnv := e,
       bsPlaintext := Some s0\<rparr>) \<and> env_ok e \<and> padding_of pad \<and> plain_ok (Some s) \<and> slLen s \<le> 65517 \<and>
     slice_data s = plain_data bs @ EncodeFrames pad \<and> plain_ok (Some s0) \<and> slLen s0 = 0"
proof -
  obtain e rt s pad where f: "env_ok e" "padding_of pad" "plain_ok (Some s)" "slLen s \<le> 65517"
    "slice_data s = plain_data bs @ EncodeFrames pad"
    and eq: "(let bs1 = bs\<lparr>bsTimer := False\<rparr>;
         (padf, rt', env') = buildPaddingFrame (int (plain_len bs1)) (int (bsRecordCeiling bs1)) (bsRt bs1) (bsEnv bs1);
         bs2 = bs1\<lparr>bsRt := rt', bsEnv := env'\<rparr>
     in (case padf of
           None \<Rightarrow> Done bs2
         | Some padFrame \<Rightarrow>
             obind (ensureCapacity (plain_len bs2 + FrameHeaderSize + length (fPayload padFrame)) bs2)
               (\<lambda>bs. Done (append_plain padFrame bs)))) =
      Done (bs\<lparr>bsTimer := False, bsRt := rt, bsEnv := e, bsPlaintext := Some s\<rparr>)"
    using flushLocked_padded [OF assms] by blast
  let ?bs = "bs\<lparr>bsTimer := False, bsRt := rt, bsEnv := e, bsPlaintext := Some s\<rparr>"
  obtain buf e2 where g: "pool_take (int minRecordBufferSize) ?bs = Done (buf, 4096, ?bs\<lparr>bsEnv := e2\<rparr>)" "env_ok e2"
      "\<exists>k < 18. length buf = 2 ^ k"
    using pool_take_ok [of ?bs 4096] f(1) by auto
  have "flushLocked bs = Done (Some s, ?bs\<lparr>bsEnv := e2, bsPlaintext := Some \<lparr>slArr = buf, slLen = 0\<rparr>\<rparr>)"
    using eq g(1) len(1) unfolding flushLocked_def Let_def
    by (simp split: prod.splits)
  moreover have "plain_ok (Some \<lparr>slArr = buf, slLen = 0\<rparr>)" using g(3) by (simp add: slice_cap_def)
  ultimately show ?thesis using f g(2)
    by (intro exI [of _ e2] exI [of _ rt] exI [of _ s] exI [of _ pad] exI [of _ "\<lparr>slArr = buf, slLen = 0\<rparr>"]) simp
qed

section \<open>Writing a record\<close>

text \<open>The fields that no flush touches.\<close>

definition same_frame :: "'w batchShaper \<Rightarrow> 'w batchShaper \<Rightarrow> bool" where
  "same_frame bs bs' \<longleftrightarrow> bsClosing bs' = bsClosing bs \<and> bsWriteClosed bs' = bsWriteClosed bs \<and>
     bsCover bs' = bsCover bs \<and> rwEnc (bsWriter bs') = rwEnc (bsWriter bs) \<and> rwAad (bsWriter bs') = rwAad (bsWriter bs)"

lemma same_frame_refl [simp]: "same_frame bs bs"
  by (simp add: same_frame_def)

lemma same_frame_trans: "same_frame a b \<Longrightarrow> same_frame b c \<Longrightarrow> same_frame a c"
  by (simp add: same_frame_def)

lemma flushAndWrite_empty: "plain_len bs = 0 \<Longrightarrow> flushAndWrite snk ff bs = Done (Inr (), bs)"
  by (simp add: flushAndWrite_def flushLocked_empty)

text \<open>
  A flush of a non-empty buffer by a caller with no record in flight: exactly one record is offered
  to the stream, unless \<open>Close\<close> has finished, and the buffer is empty afterwards.
\<close>

lemma flushAndWrite_record:
  assumes ok: "bs_ok bs" and len: "0 < plain_len bs"
  shows "\<exists>r bs' pad. flushAndWrite snk ff bs = Done (r, bs') \<and> bs_ok bs' \<and> plain_len bs' = 0 \<and> same_frame bs bs' \<and>
     padding_of pad \<and> length (plain_data bs @ EncodeFrames pad) \<le> 65517 \<and>
     (if bsWriteClosed bs then r = Inl ErrClosed \<and> bsOut bs' = bsOut bs \<and> bsErr bs' = bsErr bs
      else rwCounter (bsWriter bs') = snd (Next (rwCounter (bsWriter bs))) \<and>
        (case writeFully (snkWrite snk) (bsOut bs) (record_bytes (rwEnc (bsWriter bs)) (rwCounter (bsWriter bs))
               (rwAad (bsWriter bs)) (plain_data bs @ EncodeFrames pad)) of
           (Inr _, w) \<Rightarrow> r = Inr () \<and> bsOut bs' = (if ff then snkFlush snk w else w) \<and> bsErr bs' = bsErr bs
         | (Inl e, w) \<Rightarrow> r \<noteq> Inr () \<and> bsOut bs' = w \<and> (bsErr bs' \<noteq> None \<or> r = Inl ErrClosed)))"
proof -
  obtain e rt s pad s0 where f: "flushLocked bs = Done (Some s, bs\<lparr>bsTimer := False, bsRt := rt, bsEnv := e,
       bsPlaintext := Some s0\<rparr>)" "env_ok e" "padding_of pad" "plain_ok (Some s)" "slLen s \<le> 65517"
     "slice_data s = plain_data bs @ EncodeFrames pad" "plain_ok (Some s0)" "slLen s0 = 0"
    using flushLocked_ok [of bs] bs_okD [OF ok] len by blast
  obtain k where k: "k < 18" "length (slArr s) = 2 ^ k" using f(4) by (auto simp: slice_cap_def)
  have sl: "length (slice_data s) \<le> 65517" using f(5) by (simp add: slice_data_def)
  let ?bs = "bs\<lparr>bsTimer := False, bsRt := rt, bsEnv := e, bsPlaintext := Some s0,
     bsWriteSeq := Suc (bsWriteSeq bs), bsWriteNext := Suc (bsWriteNext bs)\<rparr>"
  note w = bs_okD(4) [OF ok, unfolded writer_ok_def]
  note ok' = ok [unfolded bs_ok_def writer_ok_def]
  show ?thesis
  proof (cases "bsWriteClosed bs")
    case True
    obtain e2 where "pool_put (slArr s) ?bs = Done (?bs\<lparr>bsEnv := e2\<rparr>)" "env_ok e2"
      using pool_put_ok [of ?bs k "slArr s"] f(2) k by auto
    then have fw: "flushAndWrite snk ff bs = Done (Inl ErrClosed, ?bs\<lparr>bsEnv := e2\<rparr>)"
      using f(1) ok' True by (simp add: flushAndWrite_def writeRecordInOrder_def Let_def)
    show ?thesis
      by (rule exI [of _ "Inl ErrClosed"], rule exI [of _ "?bs\<lparr>bsEnv := e2\<rparr>"], rule exI [of _ pad])
        (use fw True f ok' \<open>env_ok e2\<close> sl in
          \<open>simp add: bs_ok_def writer_ok_def same_frame_def plain_len_def\<close>)
  next
    case False
    let ?rw = "(bsWriter bs)\<lparr>rwCounter := snd (Next (rwCounter (bsWriter bs)))\<rparr>"
    let ?b = "record_bytes (rwEnc (bsWriter bs)) (rwCounter (bsWriter bs)) (rwAad (bsWriter bs)) (slice_data s)"
    obtain r w' env2 where wr: "WriteRecord (snkWrite snk) e (bsWriter bs) (bsOut bs) (slice_data s) = (r, ?rw, w', env2)"
        "env_ok env2" and r: "case writeFully (snkWrite snk) (bsOut bs) ?b of
           (Inr _, w) \<Rightarrow> r = Inr () \<and> w' = w | (Inl x, w) \<Rightarrow> r = Inl (Wrap ''crypto: write record'' [x]) \<and> w' = w"
    proof -
      obtain e1 where "env_ok e1" "WriteRecord (snkWrite snk) e (bsWriter bs) (bsOut bs) (slice_data s) =
        (case writeFully (snkWrite snk) (bsOut bs) ?b of
            (Inl x, w') \<Rightarrow> (Inl (Wrap ''crypto: write record'' [x]), ?rw, w', e1)
          | (Inr _, w') \<Rightarrow> (Inr (), ?rw, w', with_stats (RecordRecordWritten \<circ>
               RecordBytesSent (int (length (slice_data s) + 19))) e1))"
        using WriteRecord_eq [of "bsWriter bs" e "slice_data s" "snkWrite snk" "bsOut bs"] w f(2) sl
        by (auto simp: Let_def)
      then show thesis using that
        by (cases "writeFully (snkWrite snk) (bsOut bs) ?b"; cases "fst (writeFully (snkWrite snk) (bsOut bs) ?b)")
          auto
    qed
    let ?out = "if r = Inr () \<and> ff then snkFlush snk w' else w'"
    let ?bs2 = "?bs\<lparr>bsWriter := ?rw, bsOut := ?out, bsEnv := env2\<rparr>"
    obtain e2 where put: "pool_put (slArr s) ?bs2 = Done (?bs2\<lparr>bsEnv := e2\<rparr>)" "env_ok e2"
      using pool_put_ok [of ?bs2 k "slArr s"] wr(2) k by auto
    let ?err = "case r of Inr _ \<Rightarrow> bsErr bs | Inl x \<Rightarrow> if errors_is x errRecordDropped then bsErr bs else Some x"
    let ?r = "case r of Inr _ \<Rightarrow> Inr () | Inl x \<Rightarrow> if errors_is x errRecordDropped then Inl ErrClosed else Inl x"
    have fw: "flushAndWrite snk ff bs = Done (?r, ?bs2\<lparr>bsEnv := e2, bsErr := ?err\<rparr>)"
    proof -
      have eq: "writeRecordInOrder snk (bsWriteSeq bs) (slice_data s) ff
          (bs\<lparr>bsTimer := False, bsRt := rt, bsEnv := e, bsPlaintext := Some s0, bsWriteSeq := Suc (bsWriteSeq bs)\<rparr>) =
          Done (r, ?bs2)"
        using ok' False wr(1) by (simp add: writeRecordInOrder_def Let_def)
      have id: "?bs2\<lparr>bsEnv := e2\<rparr> = ?bs2\<lparr>bsEnv := e2, bsErr := bsErr bs\<rparr>" by simp
      show ?thesis
        unfolding flushAndWrite_def f(1) obind.simps prod.case option.case Let_def
        using eq put(1) id by (cases r) simp_all
    qed
    have res: "case writeFully (snkWrite snk) (bsOut bs) ?b of
           (Inr _, w) \<Rightarrow> ?r = Inr () \<and> ?out = (if ff then snkFlush snk w else w) \<and> ?err = bsErr bs
         | (Inl x, w) \<Rightarrow> ?r \<noteq> Inr () \<and> ?out = w \<and> (?err \<noteq> None \<or> ?r = Inl ErrClosed)"
      using r by (cases "writeFully (snkWrite snk) (bsOut bs) ?b"; cases "fst (writeFully (snkWrite snk) (bsOut bs) ?b)") auto
    have ok2: "bs_ok (?bs2\<lparr>bsEnv := e2, bsErr := ?err\<rparr>)"
      using ok' f put(2) by (simp add: bs_ok_def writer_ok_def plain_len_def)
    obtain R B where R: "R = ?r" and B: "B = ?bs2\<lparr>bsEnv := e2, bsErr := ?err\<rparr>" by blast
    have out: "?out = bsOut B" and err: "?err = bsErr B" by (simp_all add: B)
    have rest: "plain_len B = 0" "same_frame bs B"
      "rwCounter (bsWriter B) = snd (Next (rwCounter (bsWriter bs)))"
      using f(8) by (simp_all add: B same_frame_def plain_len_def)
    show ?thesis
      unfolding if_not_P [OF False]
      using fw [folded R B] f(3) ok2 [folded B] sl [unfolded f(6)] res [folded R, unfolded out err f(6)] rest
      by (intro exI [of _ R] exI [of _ B] exI [of _ pad] conjI)
  qed
qed

section \<open>Appending a frame\<close>

lemma and_pred_pow2: "0 < (n :: nat) \<Longrightarrow> n AND (n - 1) = 0 \<Longrightarrow> \<exists>k. n = 2 ^ k"
proof (induction n rule: less_induct)
  case (less n)
  show ?case
  proof (cases "n = 1")
    case True
    then show ?thesis by (intro exI [of _ 0]) simp
  next
    case False
    have rec: "n AND (n - 1) = of_bool (odd n \<and> odd (n - 1)) + 2 * ((n div 2) AND ((n - 1) div 2))"
      by (rule and_rec)
    show ?thesis
    proof (cases "even n")
      case True
      then obtain m where m: "n = 2 * m" by (elim evenE)
      then have "(n - 1) div 2 = m - 1" "n div 2 = m" "0 < m" "m < n" using less.prems by auto
      then obtain k where "m = 2 ^ k" using less.IH [of m] less.prems(2) rec True by auto
      then show ?thesis using m by (intro exI [of _ "Suc k"]) simp
    next
      case odd: False
      then obtain m where m: "n = 2 * m + 1" by (elim oddE)
      then have "n div 2 = m" "(n - 1) div 2 = m" by auto
      then have "m = 0" using rec less.prems(2) by simp
      then show ?thesis using m False by simp
    qed
  qed
qed

lemma putPooledPayload_ok:
  assumes "env_ok (bsEnv bs)" "length payload \<le> length arr"
  shows "\<exists>e. putPooledPayload payload arr bs = Done (bs\<lparr>bsEnv := e\<rparr>) \<and> env_ok e"
proof (cases "length payload > 0 \<and> length arr \<le> MaxSize \<and> length arr AND (length arr - 1) = 0")
  case True
  then have "0 < length arr" using assms(2) by linarith
  with True obtain k where k: "length arr = 2 ^ k" using and_pred_pow2 [of "length arr"] by metis
  have "(2 :: nat) ^ k \<le> 2 ^ 17" using True k by simp
  then have "k < 18" using power_le_imp_le_exp [of "2 :: nat" k 17] by simp
  then show ?thesis using pool_put_ok [OF assms(1) _ k] True by (simp add: putPooledPayload_def)
next
  case False
  then have "putPooledPayload payload arr bs = Done bs" by (auto simp: putPooledPayload_def)
  then show ?thesis using assms(1) by (intro exI [of _ "bsEnv bs"]) simp
qed

lemma giveBack_ok:
  assumes "env_ok (bsEnv bs)" "pooled \<Longrightarrow> length payload \<le> length arr"
  shows "\<exists>e. (if pooled then putPooledPayload payload arr bs else Done bs) = Done (bs\<lparr>bsEnv := e\<rparr>) \<and> env_ok e"
proof (cases pooled)
  case True
  then show ?thesis using putPooledPayload_ok assms by auto
next
  case False
  then show ?thesis using assms(1) by (intro exI [of _ "bsEnv bs"]) simp
qed

lemma ensure_and_append:
  assumes ok: "bs_ok bs" and len: "plain_len bs + (3 + length p) \<le> 65517"
  shows "\<exists>b e s. ensureCapacity (plain_len bs + (3 + length p)) bs = Done b \<and>
       append_plain \<lparr>fType = t, fLength = 0, fPayload = p\<rparr> b = bs\<lparr>bsEnv := e, bsPlaintext := Some s\<rparr> \<and> env_ok e \<and>
       bs_ok (bs\<lparr>bsEnv := e, bsPlaintext := Some s\<rparr>) \<and>
     slice_data s = plain_data bs @ AppendFrame [] \<lparr>fType = t, fLength = 0, fPayload = p\<rparr>"
proof -
  let ?f = "\<lparr>fType = t, fLength = 0, fPayload = p\<rparr>"
  obtain e s where g: "ensureCapacity (plain_len bs + (3 + length p)) bs = Done (bs\<lparr>bsEnv := e, bsPlaintext := Some s\<rparr>)"
      "env_ok e" "plain_ok (Some s)" "slice_data s = plain_data bs" "slLen s = plain_len bs"
      "plain_len bs + (3 + length p) \<le> slice_cap s"
    using ensureCapacity_ok [of bs "plain_len bs + (3 + length p)"] bs_okD(1,2) [OF ok] len by auto
  note app = slice_append_in_place [OF g(3), of "AppendFrame [] ?f"]
  show ?thesis
    by (rule exI [of _ "bs\<lparr>bsEnv := e, bsPlaintext := Some s\<rparr>"], rule exI [of _ e],
        rule exI [of _ "slice_append s (AppendFrame [] ?f)"])
      (use g app ok len in \<open>simp add: append_plain_def bs_ok_def plain_len_def\<close>)
qed

section \<open>Properties kept by every operation\<close>

text \<open>
  A predicate on the shaper and the frames accepted so far that survives the elementary changes: the
  pool, the timer, the cover injector, a flush, and a frame at the end of the buffer. Every operation
  keeps such a predicate.
\<close>

locale shaper_predicate =
  fixes snk :: "'w sink" and Q :: "Frame list \<Rightarrow> 'w batchShaper \<Rightarrow> bool"
  assumes Q_ok: "Q acc bs \<Longrightarrow> bs_ok bs"
    and Q_env: "Q acc bs \<Longrightarrow> env_ok e \<Longrightarrow> Q acc (bs\<lparr>bsEnv := e\<rparr>)"
    and Q_timer: "Q acc bs \<Longrightarrow> Q acc (bs\<lparr>bsTimer := t\<rparr>)"
    and Q_cover: "Q acc bs \<Longrightarrow> Q acc (bs\<lparr>bsCover := c, bsRt := rt\<rparr>)"
    and Q_flush: "Q acc bs \<Longrightarrow> 0 < plain_len bs \<Longrightarrow> flushAndWrite snk ff bs = Done (r, bs') \<Longrightarrow> Q acc bs'"
    and Q_append: "Q acc bs \<Longrightarrow> bs_ok (bs\<lparr>bsPlaintext := Some s\<rparr>) \<Longrightarrow> frame_fits f \<Longrightarrow>
       slice_data s = plain_data bs @ AppendFrame [] f \<Longrightarrow> Q (acc @ [frame_norm f]) (bs\<lparr>bsPlaintext := Some s\<rparr>)"
begin

text \<open>A flush returns; \<open>fails\<close> says that some flush of the operation returned an error.\<close>

lemma flush_returns:
  assumes "Q acc bs"
  shows "\<exists>r bs'. flushAndWrite snk ff bs = Done (r, bs') \<and> Q acc bs' \<and> same_frame bs bs' \<and> plain_len bs' = 0"
proof (cases "plain_len bs = 0")
  case True
  then show ?thesis using assms by (simp add: flushAndWrite_empty)
next
  case False
  then show ?thesis using flushAndWrite_record [OF Q_ok [OF assms], of snk ff] Q_flush [OF assms] by blast
qed

definition flush_fails :: bool where
  "flush_fails \<longleftrightarrow> (\<exists>acc bs ff e bs'. Q acc bs \<and> flushAndWrite snk ff bs = Done (Inl e, bs'))"

lemma give_back:
  assumes "Q acc bs" "pooled \<Longrightarrow> length payload \<le> length arr"
  shows "\<exists>b. (if pooled then putPooledPayload payload arr bs else Done bs) = Done b \<and> Q acc b \<and> same_frame bs b \<and>
     plain_len b = plain_len bs \<and> bsFlushThreshold b = bsFlushThreshold bs"
proof -
  obtain e where e: "(if pooled then putPooledPayload payload arr bs else Done bs) = Done (bs\<lparr>bsEnv := e\<rparr>)" "env_ok e"
    using giveBack_ok [of bs pooled payload arr] bs_okD(1) [OF Q_ok [OF assms(1)]] assms(2) by blast
  have "same_frame bs (bs\<lparr>bsEnv := e\<rparr>)" by (simp add: same_frame_def)
  then show ?thesis using e Q_env [OF assms(1) e(2)] by (intro exI [of _ "bs\<lparr>bsEnv := e\<rparr>"]) simp
qed

lemma append_now:
  assumes Q: "Q acc bs" and len: "plain_len bs + (3 + length payload) \<le> 65517"
    and arr: "pooled \<Longrightarrow> length payload \<le> length arr"
    and f_def: "f = \<lparr>fType = t, fLength = 0, fPayload = payload\<rparr>"
  shows "\<exists>r bs'. obind (ensureCapacity (plain_len bs + (3 + length payload)) bs) (\<lambda>b.
      obind (if pooled then putPooledPayload payload arr (append_plain f b) else Done (append_plain f b))
        (\<lambda>b. if plain_len b \<ge> bsFlushThreshold b then flushAndWrite snk False b
             else Done (Inr (), b\<lparr>bsTimer := True\<rparr>))) = Done (r, bs') \<and>
      Q (acc @ [frame_norm f]) bs' \<and> same_frame bs bs' \<and> (r = Inr () \<or> flush_fails)"
proof -
  obtain b e s where g: "ensureCapacity (plain_len bs + (3 + length payload)) bs = Done b"
      "append_plain f b = bs\<lparr>bsEnv := e, bsPlaintext := Some s\<rparr>" "env_ok e"
      "bs_ok (bs\<lparr>bsEnv := e, bsPlaintext := Some s\<rparr>)" "slice_data s = plain_data bs @ AppendFrame [] f"
    using ensure_and_append [OF Q_ok [OF Q] len, of t] unfolding f_def by blast
  have fits: "frame_fits f" using len by (simp add: f_def frame_fits_def)
  have Q1: "Q (acc @ [frame_norm f]) (bs\<lparr>bsEnv := e, bsPlaintext := Some s\<rparr>)"
    by (rule Q_append [OF Q_env [OF Q g(3)] g(4) fits]) (simp add: g(5))
  obtain c where c: "(if pooled then putPooledPayload payload arr (bs\<lparr>bsEnv := e, bsPlaintext := Some s\<rparr>)
      else Done (bs\<lparr>bsEnv := e, bsPlaintext := Some s\<rparr>)) = Done c" "Q (acc @ [frame_norm f]) c" "same_frame bs c"
    using give_back [OF Q1 arr, of pooled] by (auto simp: same_frame_def)
  obtain r d where d: "flushAndWrite snk False c = Done (r, d)" "Q (acc @ [frame_norm f]) d" "same_frame c d"
    using flush_returns [OF c(2)] by blast
  have "r = Inr () \<or> flush_fails"
  proof (cases r)
    case (Inl x)
    then show ?thesis using d(1) c(2) unfolding flush_fails_def by blast
  qed simp
  moreover have "same_frame bs (c\<lparr>bsTimer := True\<rparr>)" using c(3) by (simp add: same_frame_def)
  ultimately show ?thesis
    using g(1,2) c d Q_timer [OF c(2), of True] same_frame_trans [OF c(3) d(3)]
    by (cases "plain_len c \<ge> bsFlushThreshold c") auto
qed

lemma append_frame:
  assumes Q: "Q acc bs" and arr: "pooled \<Longrightarrow> length payload \<le> length arr"
    and f_def: "f = \<lparr>fType = t, fLength = 0, fPayload = payload\<rparr>"
  shows "\<exists>r bs' acc'. appendFrameLocked snk t payload arr pooled bs = Done (r, bs') \<and> Q acc' bs' \<and> same_frame bs bs' \<and>
     (if r = Inr () then acc' = acc @ [frame_norm f] \<and> 3 + length payload \<le> 65517
      else (acc' = acc \<or> acc' = acc @ [frame_norm f] \<and> flush_fails) \<and>
        (65517 < 3 + length payload \<or> bsClosing bs \<or> flush_fails))"
proof (cases "3 + length payload > 65517")
  case True
  obtain b where "(if pooled then putPooledPayload payload arr bs else Done bs) = Done b" "Q acc b" "same_frame bs b"
    using give_back [OF Q arr] by blast
  then show ?thesis
    using True bs_okD(5) [OF Q_ok [OF Q]]
    by (intro exI [of _ "Inl (Msg ''shaper: frame size exceeds max record size'')"] exI [of _ b] exI [of _ acc])
      (simp add: appendFrameLocked_def Let_def)
next
  case small: False
  show ?thesis
  proof (cases "plain_len bs > 0 \<and> plain_len bs + (3 + length payload) > 65517")
    case True
    obtain r b where fw: "flushAndWrite snk False bs = Done (r, b)" "Q acc b" "same_frame bs b" "plain_len b = 0"
      using flush_returns [OF Q] by blast
    obtain c where bk: "(if pooled then putPooledPayload payload arr b else Done b) = Done c" "Q acc c" "same_frame b c"
      using give_back [OF fw(2) arr] by blast
    have len: "plain_len b + (3 + length payload) \<le> 65517" using small fw(4) by simp
    obtain r' d where af: "obind (ensureCapacity (plain_len b + (3 + length payload)) b) (\<lambda>b.
      obind (if pooled then putPooledPayload payload arr (append_plain f b) else Done (append_plain f b))
        (\<lambda>b. if plain_len b \<ge> bsFlushThreshold b then flushAndWrite snk False b
             else Done (Inr (), b\<lparr>bsTimer := True\<rparr>))) = Done (r', d)"
        "Q (acc @ [frame_norm f]) d" "same_frame b d" "r' = Inr () \<or> flush_fails"
      using append_now [OF fw(2) len arr f_def] by blast
    have eq: "appendFrameLocked snk t payload arr pooled bs =
       (case r of Inl e \<Rightarrow> Done (Inl e, c) | Inr _ \<Rightarrow> if bsClosing b then Done (Inl ErrClosed, c) else Done (r', d))"
      using True bs_okD(5) [OF Q_ok [OF Q]] fw(1) bk(1) af(1) [unfolded f_def] small
      by (auto simp: appendFrameLocked_def Let_def split: sum.split)
    have c: "same_frame bs c" and d: "same_frame bs d"
      using same_frame_trans [OF fw(3)] bk(3) af(3) by blast+
    show ?thesis
    proof (cases "(\<exists>e. r = Inl e) \<or> bsClosing b")
      case True
      then have "\<exists>e. appendFrameLocked snk t payload arr pooled bs = Done (Inl e, c)"
        using eq by (cases r) auto
      moreover have "bsClosing bs \<or> flush_fails"
      proof (cases r)
        case (Inl x)
        then show ?thesis using fw(1) Q unfolding flush_fails_def by blast
      next
        case (Inr u)
        then show ?thesis using \<open>(\<exists>e. r = Inl e) \<or> bsClosing b\<close> fw(3) by (simp add: same_frame_def)
      qed
      ultimately show ?thesis using bk(2) c by auto
    next
      case False
      then have "appendFrameLocked snk t payload arr pooled bs = Done (r', d)" using eq by (cases r) auto
      then show ?thesis using af(2,4) d small by (intro exI [of _ r'] exI [of _ d] exI [of _ "acc @ [frame_norm f]"]) auto
    qed
  next
    case False
    then have len: "plain_len bs + (3 + length payload) \<le> 65517" using small by auto
    obtain r d where af: "obind (ensureCapacity (plain_len bs + (3 + length payload)) bs) (\<lambda>b.
      obind (if pooled then putPooledPayload payload arr (append_plain f b) else Done (append_plain f b))
        (\<lambda>b. if plain_len b \<ge> bsFlushThreshold b then flushAndWrite snk False b
             else Done (Inr (), b\<lparr>bsTimer := True\<rparr>))) = Done (r, d)"
        "Q (acc @ [frame_norm f]) d" "same_frame bs d" "r = Inr () \<or> flush_fails"
      using append_now [OF Q len arr f_def] by blast
    have "appendFrameLocked snk t payload arr pooled bs = Done (r, d)"
      using False bs_okD(5) [OF Q_ok [OF Q]] af(1) [unfolded f_def] small
      by (auto simp: appendFrameLocked_def Let_def)
    then show ?thesis using af small by (intro exI [of _ r] exI [of _ d] exI [of _ "acc @ [frame_norm f]"]) auto
  qed
qed

lemma push_data:
  assumes "Q acc bs" "\<not> bsClosing bs" "bsErr bs = None"
  shows "\<exists>r bs' acc'. PushData snk d bs = Done (r, bs') \<and> Q acc' bs' \<and> bsClosing bs' = bsClosing bs \<and>
     bsWriteClosed bs' = bsWriteClosed bs \<and>
     (if r = Inr () then acc' = acc @ [frame_norm \<lparr>fType = FrameDATA, fLength = 0, fPayload = d\<rparr>] \<and> length d \<le> 65514
      else acc' = acc \<and> 65514 < length d \<or> flush_fails)"
proof -
  have Qc: "Q acc (cover_addBudget n bs)" "bsClosing (cover_addBudget n bs) = bsClosing bs"
    "bsWriteClosed (cover_addBudget n bs) = bsWriteClosed bs" for n
    using assms(1) Q_cover by (auto simp: cover_addBudget_def split: option.splits prod.splits)
  show ?thesis
    using append_frame [OF Qc(1), of False d "[]" _ FrameDATA] assms(2,3) Qc(2,3)
    by (fastforce simp: PushData_def same_frame_def split: if_splits)
qed

lemma push_frame:
  assumes "Q acc bs" "\<not> bsClosing bs" "bsErr bs = None" "fType f = FrameCOVER \<Longrightarrow> length (fPayload f) \<le> length arr"
  shows "\<exists>r bs' acc'. PushFrame snk f arr bs = Done (r, bs') \<and> Q acc' bs' \<and> bsClosing bs' = bsClosing bs \<and>
     bsWriteClosed bs' = bsWriteClosed bs \<and>
     (if r = Inr () then acc' = acc @ [frame_norm f] \<and> length (fPayload f) \<le> 65514
      else acc' = acc \<and> 65514 < length (fPayload f) \<or> flush_fails)"
proof (cases "65535 < length (fPayload f)")
  case True
  then show ?thesis using assms by (auto simp: PushFrame_def)
next
  case False
  let ?bs = "if fType f \<noteq> FrameCOVER \<and> fType f \<noteq> FramePADDING
     then cover_addBudget (int (EncodedLen (frame_norm f))) bs else bs"
  have Qc: "Q acc ?bs" "bsClosing ?bs = bsClosing bs" "bsWriteClosed ?bs = bsWriteClosed bs"
    using assms(1) Q_cover by (auto simp: cover_addBudget_def split: option.splits prod.splits)
  have eq: "PushFrame snk f arr bs = appendFrameLocked snk (fType f) (fPayload f) arr (fType f = FrameCOVER) ?bs"
    using assms(2,3) False by (simp add: PushFrame_def Let_def frame_norm_def)
  have n: "frame_norm \<lparr>fType = fType f, fLength = 0, fPayload = fPayload f\<rparr> = frame_norm f"
    by (simp add: frame_norm_def)
  obtain r b a where r: "PushFrame snk f arr bs = Done (r, b)" "Q a b" "same_frame ?bs b"
      "if r = Inr () then a = acc @ [frame_norm f] \<and> 3 + length (fPayload f) \<le> 65517
       else (a = acc \<or> a = acc @ [frame_norm f] \<and> flush_fails) \<and>
         (65517 < 3 + length (fPayload f) \<or> bsClosing ?bs \<or> flush_fails)"
    using append_frame [where pooled = "fType f = FrameCOVER" and arr = arr, OF Qc(1) assms(4) refl, of "fType f"]
    unfolding eq n by blast
  show ?thesis
    by (rule exI [of _ r], rule exI [of _ b], rule exI [of _ a])
      (use r Qc(2,3) assms(2) in \<open>auto simp: same_frame_def simp del: if_split split: if_splits\<close>)
qed

lemma inject_cover:
  assumes "Q acc bs" "\<not> bsClosing bs" "bsErr bs = None" "length (fPayload f) \<le> length arr" "fType f = FrameCOVER"
  shows "\<exists>r bs' acc'. injectCoverFrame snk f arr bs = Done (r, bs') \<and> Q acc' bs' \<and> bsClosing bs' = bsClosing bs \<and>
     bsWriteClosed bs' = bsWriteClosed bs \<and> (acc' = acc \<or> acc' = acc @ [frame_norm f])"
proof -
  have n: "frame_norm \<lparr>fType = fType f, fLength = 0, fPayload = fPayload f\<rparr> = frame_norm f"
    by (simp add: frame_norm_def)
  obtain r b a where r: "appendFrameLocked snk (fType f) (fPayload f) arr True bs = Done (r, b)" "Q a b" "same_frame bs b"
      "a = acc \<or> a = acc @ [frame_norm f]"
    using append_frame [where pooled = True, OF assms(1,4) refl, of "fType f"] unfolding n by metis
  then show ?thesis
    using assms(2,3,5) by (intro exI [of _ r] exI [of _ b] exI [of _ a]) (simp add: injectCoverFrame_def same_frame_def)
qed

end

interpretation any_sink: shaper_predicate snk "\<lambda>_ bs. bs_ok bs" for snk :: "'w sink"
proof unfold_locales
  fix bs bs' :: "'w batchShaper" and ff r
  assume "bs_ok bs" "0 < plain_len bs" "flushAndWrite snk ff bs = Done (r, bs')"
  then show "bs_ok bs'" using flushAndWrite_record [of bs snk ff] by auto
qed (simp_all add: bs_ok_def)

section \<open>What a buffer receives\<close>

definition buffer_sink :: "bytes sink" where
  "buffer_sink = \<lparr>snkWrite = buffer_writer, snkFlush = (\<lambda>w. w)\<rparr>"

text \<open>Frames that carry application data or control, not padding or cover.\<close>

definition is_cargo :: "Frame \<Rightarrow> bool" where
  "is_cargo f \<longleftrightarrow> fType f \<noteq> FramePADDING \<and> fType f \<noteq> FrameCOVER"

definition carries :: "aead \<Rightarrow> CounterNonce \<Rightarrow> bytes \<Rightarrow> Frame list \<Rightarrow> bytes batchShaper \<Rightarrow> bool" where
  "carries a cn aad acc bs \<longleftrightarrow> bs_ok bs \<and> \<not> bsWriteClosed bs \<and> bsErr bs = None \<and>
     rwEnc (bsWriter bs) = a \<and> rwAad (bsWriter bs) = aad \<and>
     (\<exists>gs cur. bsOut bs = wire a cn aad (map EncodeFrames gs) \<and> groups_ok gs \<and>
        rwCounter (bsWriter bs) = ((\<lambda>c. snd (Next c)) ^^ length gs) cn \<and>
        plain_data bs = EncodeFrames cur \<and> (\<forall>f \<in> set cur. frame_fits f) \<and>
        filter is_cargo (map frame_norm (concat gs @ cur)) = filter is_cargo acc)"

lemma wire_snoc:
  "wire a cn aad (ps @ [p]) =
     wire a cn aad ps @ record_bytes a (((\<lambda>c. snd (Next c)) ^^ length ps) cn) aad p"
proof (induction ps arbitrary: cn)
  case (Cons q ps)
  then show ?case using funpow_swap1 [of "\<lambda>c. snd (Next c)" "length ps" cn] by simp
qed simp

lemma padding_no_cargo: "padding_of pad \<Longrightarrow> filter is_cargo (map frame_norm pad) = []"
  "padding_of pad \<Longrightarrow> f \<in> set pad \<Longrightarrow> frame_fits f"
  by (auto simp: padding_of_def is_cargo_def)

lemma carries_flush:
  assumes c: "carries a cn aad acc bs" and len: "0 < plain_len bs"
  shows "\<exists>bs'. flushAndWrite buffer_sink ff bs = Done (Inr (), bs') \<and> carries a cn aad acc bs' \<and>
     same_frame bs bs' \<and> plain_len bs' = 0"
proof -
  have ok: "bs_ok bs" and opened: "\<not> bsWriteClosed bs" "bsErr bs = None"
    and w: "rwEnc (bsWriter bs) = a" "rwAad (bsWriter bs) = aad"
    using c by (simp_all add: carries_def)
  obtain gs cur where g: "bsOut bs = wire a cn aad (map EncodeFrames gs)" "groups_ok gs"
      "rwCounter (bsWriter bs) = ((\<lambda>c. snd (Next c)) ^^ length gs) cn" "plain_data bs = EncodeFrames cur"
      "\<forall>f \<in> set cur. frame_fits f" "filter is_cargo (map frame_norm (concat gs @ cur)) = filter is_cargo acc"
    using c unfolding carries_def by blast
  obtain r bs' pad where f: "flushAndWrite buffer_sink ff bs = Done (r, bs')" "bs_ok bs'" "plain_len bs' = 0"
      "same_frame bs bs'" "padding_of pad" "length (plain_data bs @ EncodeFrames pad) \<le> 65517"
      "rwCounter (bsWriter bs') = snd (Next (rwCounter (bsWriter bs)))" "r = Inr ()" "bsErr bs' = bsErr bs"
      "bsOut bs' = bsOut bs @ record_bytes a (rwCounter (bsWriter bs)) aad (plain_data bs @ EncodeFrames pad)"
    using flushAndWrite_record [OF ok len, of buffer_sink ff] opened w
    by (auto simp: buffer_sink_def writeFully_def buffer_writer_def)
  have ne: "cur @ pad \<noteq> []" using len length_plain_data [OF bs_okD(2) [OF ok]] g(4) by auto
  have "plain_data bs' = EncodeFrames []"
    using length_plain_data [OF bs_okD(2) [OF f(2)]] f(3) by simp
  moreover have "groups_ok (gs @ [cur @ pad])"
    using g(2,4,5) ne f(5,6) padding_no_cargo(2) by (auto simp: groups_ok_def)
  moreover have "bsOut bs' = wire a cn aad (map EncodeFrames (gs @ [cur @ pad]))"
    using f(10) g(1,3,4) by (simp add: wire_snoc)
  moreover have "rwCounter (bsWriter bs') = ((\<lambda>c. snd (Next c)) ^^ length (gs @ [cur @ pad])) cn"
    using f(7) g(3) by simp
  moreover have "filter is_cargo (map frame_norm (concat (gs @ [cur @ pad]) @ [])) = filter is_cargo acc"
    using g(6) padding_no_cargo(1) [OF f(5)] by simp
  ultimately have "carries a cn aad acc bs'"
    using f(2,4,9) opened w unfolding carries_def same_frame_def
    by (intro conjI exI [of _ "gs @ [cur @ pad]"] exI [of _ "[]"]) simp_all
  then show ?thesis using f by blast
qed

lemma carries_append:
  assumes "carries a cn aad acc bs" "bs_ok (bs\<lparr>bsPlaintext := Some s\<rparr>)" "frame_fits f"
    "slice_data s = plain_data bs @ AppendFrame [] f"
  shows "carries a cn aad (acc @ [frame_norm f]) (bs\<lparr>bsPlaintext := Some s\<rparr>)"
proof -
  obtain gs cur where g: "bsOut bs = wire a cn aad (map EncodeFrames gs)" "groups_ok gs"
      "rwCounter (bsWriter bs) = ((\<lambda>c. snd (Next c)) ^^ length gs) cn" "plain_data bs = EncodeFrames cur"
      "\<forall>f \<in> set cur. frame_fits f" "filter is_cargo (map frame_norm (concat gs @ cur)) = filter is_cargo acc"
    using assms(1) unfolding carries_def by blast
  have "filter is_cargo (map frame_norm (concat gs @ cur @ [f])) = filter is_cargo (acc @ [frame_norm f])"
    using g(6) by simp
  moreover have "plain_data (bs\<lparr>bsPlaintext := Some s\<rparr>) = EncodeFrames (cur @ [f])"
    using assms(4) g(4) by simp
  ultimately show ?thesis
    using assms g unfolding carries_def
    by (intro conjI exI [of _ gs] exI [of _ "cur @ [f]"]) auto
qed

interpretation buf: shaper_predicate buffer_sink "carries a cn aad" for a cn aad
proof unfold_locales
  fix acc and bs bs' :: "bytes batchShaper" and ff r
  assume "carries a cn aad acc bs" "0 < plain_len bs" "flushAndWrite buffer_sink ff bs = Done (r, bs')"
  then show "carries a cn aad acc bs'" using carries_flush [of a cn aad acc bs ff] by auto
next
  fix acc bs s f
  assume "carries a cn aad acc bs" "bs_ok (bs\<lparr>bsPlaintext := Some s\<rparr>)" "frame_fits f"
    "slice_data s = plain_data bs @ AppendFrame [] f"
  then show "carries a cn aad (acc @ [frame_norm f]) (bs\<lparr>bsPlaintext := Some s\<rparr>)" by (rule carries_append)
qed (auto simp: carries_def bs_ok_def)

lemma buffer_never_fails: "\<not> buf.flush_fails a cn aad"
proof
  assume "buf.flush_fails a cn aad"
  then obtain acc bs ff e bs' where c: "carries a cn aad acc bs" and f: "flushAndWrite buffer_sink ff bs = Done (Inl e, bs')"
    unfolding buf.flush_fails_def by blast
  then have "0 < plain_len bs" using flushAndWrite_empty [of bs buffer_sink ff] by (cases "plain_len bs") auto
  then show False using carries_flush [OF c, of ff] f by auto
qed

section \<open>Runs of one caller\<close>

text \<open>
  The calls of one goroutine and its timers, one after the other. An array that holds the payload
  comes with a frame that may be a cover frame; \<open>SClock\<close> lets time and the random draws move on.
\<close>

datatype shaper_op =
    SPushData bytes
  | SPushFrame Frame bytes
  | SInject Frame bytes
  | SFlush
  | STimer
  | SClock runtime

fun shaper_op_run :: "'w sink \<Rightarrow> shaper_op \<Rightarrow> 'w batchShaper \<Rightarrow> (unit result \<times> 'w batchShaper) outcome" where
  "shaper_op_run snk (SPushData d) bs = PushData snk d bs"
| "shaper_op_run snk (SPushFrame f arr) bs = PushFrame snk f arr bs"
| "shaper_op_run snk (SInject f arr) bs = injectCoverFrame snk f arr bs"
| "shaper_op_run snk SFlush bs = Flush snk bs"
| "shaper_op_run snk STimer bs = obind (onTimer snk bs) (\<lambda>bs. Done (Inr (), bs))"
| "shaper_op_run snk (SClock rt) bs = Done (Inr (), bs\<lparr>bsRt := rt\<rparr>)"

fun op_ok :: "shaper_op \<Rightarrow> bool" where
  "op_ok (SPushFrame f arr) \<longleftrightarrow> fType f \<noteq> FrameCOVER \<or> length (fPayload f) \<le> length arr"
| "op_ok (SInject f arr) \<longleftrightarrow> fType f = FrameCOVER \<and> length (fPayload f) \<le> length arr"
| "op_ok _ \<longleftrightarrow> True"

text \<open>The frame an operation hands over, if it fits into a record.\<close>

fun op_frames :: "shaper_op \<Rightarrow> Frame list" where
  "op_frames (SPushData d) =
     (if length d \<le> 65514 then [frame_norm \<lparr>fType = FrameDATA, fLength = 0, fPayload = d\<rparr>] else [])"
| "op_frames (SPushFrame f arr) = (if length (fPayload f) \<le> 65514 then [frame_norm f] else [])"
| "op_frames _ = []"

fun run_ops :: "'w sink \<Rightarrow> shaper_op list \<Rightarrow> 'w batchShaper \<Rightarrow> (unit result list \<times> 'w batchShaper) outcome" where
  "run_ops snk [] bs = Done ([], bs)"
| "run_ops snk (op # ops) bs =
     obind (shaper_op_run snk op bs) (\<lambda>(r, bs).
       obind (run_ops snk ops bs) (\<lambda>(rs, bs). Done (r # rs, bs)))"

lemma carries_op:
  assumes c: "carries a cn aad acc bs" and nc: "\<not> bsClosing bs" and ok: "op_ok op"
  shows "\<exists>r bs' acc'. shaper_op_run buffer_sink op bs = Done (r, bs') \<and> carries a cn aad acc' bs' \<and> \<not> bsClosing bs' \<and>
     filter is_cargo acc' = filter is_cargo (acc @ op_frames op)"
proof -
  have err: "bsErr bs = None" using c by (simp add: carries_def)
  note nf = buffer_never_fails [of a cn aad]
  have fl: "\<exists>r bs'. flushAndWrite buffer_sink ff bs = Done (r, bs') \<and> carries a cn aad acc bs' \<and> \<not> bsClosing bs'" for ff
    using buf.flush_returns [OF c, of ff] nc by (auto simp: same_frame_def)
  show ?thesis
  proof (cases op)
    case (SPushData d)
    obtain r bs' acc' where "PushData buffer_sink d bs = Done (r, bs')" "carries a cn aad acc' bs'"
      "bsClosing bs' = bsClosing bs" "acc' = acc @ op_frames op"
      using buf.push_data [OF c nc err, of d] nf by (auto simp: SPushData split: if_splits)
    then show ?thesis using nc by (auto simp: SPushData)
  next
    case (SPushFrame f arr)
    then have arr: "fType f = FrameCOVER \<Longrightarrow> length (fPayload f) \<le> length arr" using ok by auto
    obtain r bs' acc' where "PushFrame buffer_sink f arr bs = Done (r, bs')" "carries a cn aad acc' bs'"
      "bsClosing bs' = bsClosing bs" "acc' = acc @ op_frames op"
      using buf.push_frame [OF c nc err, of f arr] arr nf by (auto simp: SPushFrame split: if_splits)
    then show ?thesis using nc by (auto simp: SPushFrame)
  next
    case (SInject f arr)
    then obtain r bs' acc' where "injectCoverFrame buffer_sink f arr bs = Done (r, bs')" "carries a cn aad acc' bs'"
      "bsClosing bs' = bsClosing bs" "acc' = acc \<or> acc' = acc @ [frame_norm f]" "fType f = FrameCOVER"
      using buf.inject_cover [OF c nc err, of f arr] ok by auto
    then show ?thesis using nc by (auto simp: SInject is_cargo_def)
  next
    case SFlush
    then show ?thesis using fl [of True] by (auto simp: Flush_def shaper_flush_def)
  next
    case STimer
    then show ?thesis using fl [of True] nc by (auto simp: onTimer_def shaper_flush_def)
  next
    case (SClock rt)
    then show ?thesis using buf.Q_cover [OF c, where c = "bsCover bs" and rt = rt] nc by auto
  qed
qed

lemma carries_run:
  "carries a cn aad acc bs \<Longrightarrow> \<not> bsClosing bs \<Longrightarrow> \<forall>op \<in> set ops. op_ok op \<Longrightarrow>
   \<exists>rs bs' acc'. run_ops buffer_sink ops bs = Done (rs, bs') \<and> carries a cn aad acc' bs' \<and> \<not> bsClosing bs' \<and>
     filter is_cargo acc' = filter is_cargo (acc @ concat (map op_frames ops))"
proof (induction ops arbitrary: acc bs)
  case (Cons op ops)
  obtain r b1 acc1 where 1: "shaper_op_run buffer_sink op bs = Done (r, b1)" "carries a cn aad acc1 b1" "\<not> bsClosing b1"
      "filter is_cargo acc1 = filter is_cargo (acc @ op_frames op)"
    using carries_op [OF Cons.prems(1,2), of op] Cons.prems(3) by auto
  obtain rs b2 acc2 where "run_ops buffer_sink ops b1 = Done (rs, b2)" "carries a cn aad acc2 b2" "\<not> bsClosing b2"
      "filter is_cargo acc2 = filter is_cargo (acc1 @ concat (map op_frames ops))"
    using Cons.IH [OF 1(2,3)] Cons.prems(3) by auto
  then show ?case using 1 by auto
qed auto

lemma New_carries:
  assumes "aead_ok a" "length prefix = 4" "env_ok env"
  shows "\<exists>bs. Shaper_New ratio (NewRecordWriter a (NewCounterNonce prefix) aad) cfg [] env rt = Done bs \<and>
     carries a (NewCounterNonce prefix) aad [] bs \<and> \<not> bsClosing bs"
proof -
  define bs0 :: "bytes batchShaper" where
    "bs0 = \<lparr>bsWriter = NewRecordWriter a (NewCounterNonce prefix) aad, bsPlaintext = None, bsTimer = False,
      bsWriteSeq = 0, bsWriteNext = 0, bsRecordCeiling = MaxWriteRecordPlaintext,
      bsFlushThreshold = MaxWriteRecordPlaintext * 9 div 10,
      bsWindow = cfBatchWindowMS (Config_Normalize ratio cfg) * Millisecond, bsClosing = False, bsWriteClosed = False,
      bsErr = None, bsCover = newCoverInjector (cfCover (Config_Normalize ratio cfg)), bsOut = [], bsEnv = env, bsRt = rt\<rparr>"
  have eq: "Shaper_New ratio (NewRecordWriter a (NewCounterNonce prefix) aad) cfg [] env rt =
      obind (pool_take (int 4096) bs0) (\<lambda>(buf, _, bs). Done (bs\<lparr>bsPlaintext := Some \<lparr>slArr = buf, slLen = 0\<rparr>\<rparr>))"
    by (simp add: Shaper_New_def Let_def bs0_def)
  obtain buf e where g: "pool_take (int 4096) bs0 = Done (buf, 4096, bs0\<lparr>bsEnv := e\<rparr>)" "env_ok e" "\<exists>k < 18. length buf = 2 ^ k"
    using pool_take_ok [of bs0 4096] assms(3) by (auto simp: bs0_def)
  let ?b = "bs0\<lparr>bsEnv := e, bsPlaintext := Some \<lparr>slArr = buf, slLen = 0\<rparr>\<rparr>"
  have "carries a (NewCounterNonce prefix) aad [] ?b"
    unfolding carries_def
    by (intro conjI exI [of _ "[]"])
      (use assms g(2,3) in \<open>simp_all add: bs0_def bs_ok_def writer_ok_def NewRecordWriter_def nonce_ok_def
        NewCounterNonce_def slice_cap_def plain_len_def plain_data_def slice_data_def groups_ok_def\<close>)
  then show ?thesis using eq g(1) by (intro exI [of _ ?b]) (simp add: bs0_def)
qed

lemma carries_close:
  assumes c: "carries a cn aad acc bs"
  shows "\<exists>bs' gs. Shaper_Close buffer_sink bs = Done (Inr (), bs') \<and> bsPlaintext bs' = None \<and> bsClosing bs' \<and>
     bsWriteClosed bs' \<and> env_ok (bsEnv bs') \<and> groups_ok gs \<and> bsOut bs' = wire a cn aad (map EncodeFrames gs) \<and>
     filter is_cargo (map frame_norm (concat gs)) = filter is_cargo acc"
proof -
  let ?b = "bs\<lparr>bsClosing := True, bsCover := map_option cover_stop (bsCover bs), bsTimer := False\<rparr>"
  have c1: "carries a cn aad acc ?b" using c by (simp add: carries_def bs_ok_def plain_len_def plain_data_def)
  obtain r b1 where f: "flushAndWrite buffer_sink True ?b = Done (r, b1)" "carries a cn aad acc b1" "plain_len b1 = 0"
      "same_frame ?b b1"
    using buf.flush_returns [OF c1] by blast
  have r: "r = Inr ()"
  proof (cases r)
    case (Inl e)
    then show ?thesis using f(1) c1 buffer_never_fails [of a cn aad] unfolding buf.flush_fails_def by blast
  qed simp
  have ok: "bs_ok b1" using f(2) by (simp add: carries_def)
  obtain gs cur where g: "bsOut b1 = wire a cn aad (map EncodeFrames gs)" "groups_ok gs" "plain_data b1 = EncodeFrames cur"
      "filter is_cargo (map frame_norm (concat gs @ cur)) = filter is_cargo acc"
    using f(2) unfolding carries_def by blast
  have cur: "cur = []"
    using length_plain_data [OF bs_okD(2) [OF ok]] f(3) g(3) by (cases cur) auto
  let ?b2 = "b1\<lparr>bsWriteClosed := True\<rparr>"
  show ?thesis
  proof (cases "bsPlaintext b1")
    case None
    then show ?thesis
      using f r g cur bs_okD(1,7) [OF ok] by (auto simp: Shaper_Close_def shaper_flush_def Let_def same_frame_def)
  next
    case (Some s)
    obtain k where k: "k < 18" "length (slArr s) = 2 ^ k"
      using bs_okD(2) [OF ok] Some by (auto simp: slice_cap_def)
    obtain e where p: "pool_put (slArr s) ?b2 = Done (?b2\<lparr>bsEnv := e\<rparr>)" "env_ok e"
      using pool_put_ok [of ?b2 k "slArr s"] k bs_okD(1) [OF ok] by auto
    have "Shaper_Close buffer_sink bs = Done (Inr (), ?b2\<lparr>bsEnv := e, bsPlaintext := None\<rparr>)"
      using f(1) r bs_okD(7) [OF ok] Some p(1) by (simp add: Shaper_Close_def shaper_flush_def Let_def)
    then show ?thesis using g cur p(2) f(4)
      by (intro exI [of _ "?b2\<lparr>bsEnv := e, bsPlaintext := None\<rparr>"] exI [of _ gs]) (simp add: same_frame_def)
  qed
qed

section \<open>Concurrent callers\<close>

text \<open>
  Several goroutines share one shaper. A goroutine that swaps a buffer out holds a ticket: the
  sequence number it was given, the data and the flush flag; it writes without holding \<open>bs.mu\<close>. The
  ghost fields record what was swapped out, in order, and what was handed to the record writer.
  \<open>cnPending\<close> are the numbers the calls of \<open>Close\<close> wait for once they have taken their snapshots; there may
  be any number of such calls, and they may overlap.
\<close>

record 'w conc =
  cnBs :: "'w batchShaper"
  cnTickets :: "(nat \<times> slice \<times> bool) list"
  cnSwapped :: "bytes list"
  cnWritten :: "bytes list"
  cnPending :: "nat list"

inductive conc_step :: "'w sink \<Rightarrow> 'w conc \<Rightarrow> 'w conc \<Rightarrow> bool" for snk :: "'w sink" where
  locked: "bsWriteSeq bs = bsWriteSeq (cnBs c) \<Longrightarrow> bsWriteNext bs = bsWriteNext (cnBs c) \<Longrightarrow>
     bsWriteClosed bs = bsWriteClosed (cnBs c) \<Longrightarrow> bsWriter bs = bsWriter (cnBs c) \<Longrightarrow> bsOut bs = bsOut (cnBs c) \<Longrightarrow>
     conc_step snk c (c\<lparr>cnBs := bs\<rparr>)"
| swap: "flushLocked (cnBs c) = Done (Some data, bs) \<Longrightarrow>
     conc_step snk c (c\<lparr>cnBs := bs\<lparr>bsWriteSeq := Suc (bsWriteSeq bs)\<rparr>,
       cnTickets := cnTickets c @ [(bsWriteSeq bs, data, ff)], cnSwapped := cnSwapped c @ [slice_data data]\<rparr>)"
| ticket: "(n, data, ff) \<in> set (cnTickets c) \<Longrightarrow>
     writeRecordInOrder snk n (slice_data data) ff (cnBs c) = Done (r, bs) \<Longrightarrow>
     conc_step snk c (c\<lparr>cnBs := bs, cnTickets := filter (\<lambda>t. fst t \<noteq> n) (cnTickets c),
       cnWritten := (if bsWriteClosed (cnBs c) then cnWritten c else cnWritten c @ [slice_data data])\<rparr>)"
| snapshot: "bsClosing (cnBs c) \<Longrightarrow> conc_step snk c (c\<lparr>cnPending := bsWriteSeq (cnBs c) # cnPending c\<rparr>)"
| finish: "p \<in> set (cnPending c) \<Longrightarrow> \<not> bsWriteNext (cnBs c) < p \<Longrightarrow>
     conc_step snk c (c\<lparr>cnBs := (cnBs c)\<lparr>bsWriteClosed := True\<rparr>\<rparr>)"

inductive_cases conc_stepE: "conc_step snk c c'"

definition conc_init :: "'w conc \<Rightarrow> bool" where
  "conc_init c \<longleftrightarrow> bsWriteSeq (cnBs c) = 0 \<and> bsWriteNext (cnBs c) = 0 \<and> \<not> bsWriteClosed (cnBs c) \<and>
     cnTickets c = [] \<and> cnSwapped c = [] \<and> cnWritten c = [] \<and> cnPending c = []"

definition conc_inv :: "'w conc \<Rightarrow> bool" where
  "conc_inv c \<longleftrightarrow> bsWriteNext (cnBs c) \<le> bsWriteSeq (cnBs c) \<and>
     map fst (cnTickets c) = [bsWriteNext (cnBs c)..<bsWriteSeq (cnBs c)] \<and>
     length (cnSwapped c) = bsWriteSeq (cnBs c) \<and>
     (\<forall>(n, data, ff) \<in> set (cnTickets c). slice_data data = cnSwapped c ! n) \<and>
     cnWritten c = take (length (cnWritten c)) (cnSwapped c) \<and>
     (if bsWriteClosed (cnBs c)
      then length (cnWritten c) \<le> bsWriteNext (cnBs c) \<and> (\<exists>p \<in> set (cnPending c). p \<le> length (cnWritten c))
      else length (cnWritten c) = bsWriteNext (cnBs c))"

lemma obind_Done: "obind m f = Done y \<longleftrightarrow> (\<exists>x. m = Done x \<and> f x = Done y)"
  by (cases m) auto

lemma flushLocked_seq:
  assumes "flushLocked bs = Done (Some data, bs')"
  shows "bsWriteSeq bs' = bsWriteSeq bs \<and> bsWriteNext bs' = bsWriteNext bs \<and> bsWriteClosed bs' = bsWriteClosed bs \<and>
     bsOut bs' = bsOut bs"
proof -
  have g: "growLocked sz b = Done b' \<Longrightarrow> bsWriteSeq b' = bsWriteSeq b \<and> bsWriteNext b' = bsWriteNext b \<and>
      bsWriteClosed b' = bsWriteClosed b \<and> bsOut b' = bsOut b" for sz and b b' :: "'a batchShaper"
    by (auto simp: growLocked_def pool_take_def pool_put_def Let_def
        split: prod.splits option.splits sum.splits if_splits)
  have e: "ensureCapacity sz b = Done b' \<Longrightarrow> bsWriteSeq b' = bsWriteSeq b \<and> bsWriteNext b' = bsWriteNext b \<and>
      bsWriteClosed b' = bsWriteClosed b \<and> bsOut b' = bsOut b" for sz and b b' :: "'a batchShaper"
    using g by (auto simp: ensureCapacity_def split: if_splits)
  obtain pad rt env where b: "buildPaddingFrame (int (plain_len bs)) (int (bsRecordCeiling bs)) (bsRt bs) (bsEnv bs) = (pad, rt, env)"
    by (metis prod_cases3)
  let ?b = "bs\<lparr>bsTimer := False, bsRt := rt, bsEnv := env\<rparr>"
  let ?m = "case pad of None \<Rightarrow> Done ?b | Some padFrame \<Rightarrow>
      obind (ensureCapacity (plain_len ?b + FrameHeaderSize + length (fPayload padFrame)) ?b)
        (\<lambda>bs. Done (append_plain padFrame bs))"
  have "obind ?m (\<lambda>bs. obind (pool_take (int minRecordBufferSize) bs) (\<lambda>(buf, _, bs').
      Done (bsPlaintext bs, bs'\<lparr>bsPlaintext := Some \<lparr>slArr = buf, slLen = 0\<rparr>\<rparr>))) = Done (Some data, bs')"
    using assms b by (simp add: flushLocked_def Let_def split: if_splits)
  then obtain b1 where 1: "?m = Done b1" and "obind (pool_take (int minRecordBufferSize) b1) (\<lambda>(buf, _, bs').
      Done (bsPlaintext b1, bs'\<lparr>bsPlaintext := Some \<lparr>slArr = buf, slLen = 0\<rparr>\<rparr>)) = Done (Some data, bs')"
    unfolding obind_Done [of ?m] by blast
  then have "bsWriteSeq bs' = bsWriteSeq b1 \<and> bsWriteNext bs' = bsWriteNext b1 \<and> bsWriteClosed bs' = bsWriteClosed b1 \<and>
      bsOut bs' = bsOut b1"
    by (auto simp: pool_take_def split: prod.splits option.splits)
  moreover have "bsWriteSeq b1 = bsWriteSeq bs \<and> bsWriteNext b1 = bsWriteNext bs \<and> bsWriteClosed b1 = bsWriteClosed bs \<and>
      bsOut b1 = bsOut bs"
  proof (cases pad)
    case None
    then show ?thesis using 1 by auto
  next
    case (Some f)
    then obtain b2 where "ensureCapacity (plain_len ?b + FrameHeaderSize + length (fPayload f)) ?b = Done b2"
      "b1 = append_plain f b2"
      using 1 by (auto simp: obind_Done)
    then show ?thesis using e by (auto simp: append_plain_def)
  qed
  ultimately show ?thesis by simp
qed

lemma writeRecord_ticket:
  "writeRecordInOrder snk n d ff bs = Done (r, bs') \<Longrightarrow>
     n = bsWriteNext bs \<and> bsWriteNext bs' = Suc n \<and> bsWriteSeq bs' = bsWriteSeq bs \<and>
     bsWriteClosed bs' = bsWriteClosed bs \<and> (bsWriteClosed bs \<longrightarrow> bsOut bs' = bsOut bs)"
  by (auto simp: writeRecordInOrder_def Let_def split: if_splits prod.splits)

lemma conc_ticket_lt:
  assumes "conc_inv c" "(n, d, ff) \<in> set (cnTickets c)"
  shows "n < bsWriteSeq (cnBs c)"
proof -
  have "n \<in> set (map fst (cnTickets c))" using assms(2) by force
  moreover have "map fst (cnTickets c) = [bsWriteNext (cnBs c)..<bsWriteSeq (cnBs c)]"
    using assms(1) by (simp add: conc_inv_def)
  ultimately show ?thesis by (metis atLeastLessThan_iff set_upt)
qed

lemma conc_inv_init: "conc_init c \<Longrightarrow> conc_inv c"
  by (simp add: conc_init_def conc_inv_def)

lemma conc_inv_step: "conc_inv c \<Longrightarrow> conc_step snk c c' \<Longrightarrow> conc_inv c'"
proof (erule conc_stepE)
  fix data bs ff
  assume inv: "conc_inv c" and f: "flushLocked (cnBs c) = Done (Some data, bs)"
    and c': "c' = c\<lparr>cnBs := bs\<lparr>bsWriteSeq := Suc (bsWriteSeq bs)\<rparr>,
       cnTickets := cnTickets c @ [(bsWriteSeq bs, data, ff)], cnSwapped := cnSwapped c @ [slice_data data]\<rparr>"
  note lt = conc_ticket_lt [OF inv]
  have "length (cnWritten c) \<le> length (cnSwapped c)"
    using inv by (metis conc_inv_def length_take min.cobounded1)
  then show "conc_inv c'"
    using inv flushLocked_seq [OF f] lt unfolding c' conc_inv_def by (auto simp: nth_append split: if_splits)
next
  fix n data ff r bs
  assume inv: "conc_inv c" and t: "(n, data, ff) \<in> set (cnTickets c)"
    and w: "writeRecordInOrder snk n (slice_data data) ff (cnBs c) = Done (r, bs)"
    and c': "c' = c\<lparr>cnBs := bs, cnTickets := filter (\<lambda>t. fst t \<noteq> n) (cnTickets c),
       cnWritten := (if bsWriteClosed (cnBs c) then cnWritten c else cnWritten c @ [slice_data data])\<rparr>"
  note w' = writeRecord_ticket [OF w]
  have n: "n < bsWriteSeq (cnBs c)" by (rule conc_ticket_lt [OF inv t])
  have ts: "map fst (filter (\<lambda>t. fst t \<noteq> n) (cnTickets c)) = filter (\<lambda>m. m \<noteq> n) (map fst (cnTickets c))"
    by (simp add: filter_map comp_def)
  have "filter (\<lambda>m. m \<noteq> n) [n..<bsWriteSeq (cnBs c)] = [Suc n..<bsWriteSeq (cnBs c)]"
    using n by (simp add: upt_conv_Cons)
  then have tickets: "map fst (filter (\<lambda>t. fst t \<noteq> n) (cnTickets c)) = [Suc n..<bsWriteSeq (cnBs c)]"
    using inv w' ts by (simp add: conc_inv_def)
  have "slice_data data = cnSwapped c ! n" using inv t by (auto simp: conc_inv_def)
  then have "take (Suc n) (cnSwapped c) = take n (cnSwapped c) @ [slice_data data]"
    using n inv by (simp add: take_Suc_conv_app_nth conc_inv_def)
  then show "conc_inv c'"
    using inv w' n tickets unfolding c' conc_inv_def by (auto split: if_splits)
next
  fix p
  assume inv: "conc_inv c" and p: "p \<in> set (cnPending c)" "\<not> bsWriteNext (cnBs c) < p"
    and c': "c' = c\<lparr>cnBs := (cnBs c)\<lparr>bsWriteClosed := True\<rparr>\<rparr>"
  have "\<exists>p \<in> set (cnPending c). p \<le> length (cnWritten c)"
  proof (cases "bsWriteClosed (cnBs c)")
    case False
    then have "p \<le> length (cnWritten c)" using inv p(2) by (simp add: conc_inv_def)
    then show ?thesis using p(1) by blast
  qed (use inv in \<open>simp add: conc_inv_def\<close>)
  then show "conc_inv c'" using inv unfolding c' by (auto simp: conc_inv_def split: if_splits)
qed (auto simp: conc_inv_def split: if_splits)

interpretation conc: step_invariant conc_init "conc_step snk" conc_inv for snk :: "'w sink"
  by unfold_locales (fact conc_inv_init, fact conc_inv_step)

section \<open>Any stream\<close>

lemma bs_ok_op:
  assumes ok: "bs_ok bs" and op: "op_ok op"
  shows "\<exists>r bs'. shaper_op_run snk op bs = Done (r, bs') \<and> bs_ok bs'"
proof (cases op)
  case (SPushData d)
  show ?thesis
  proof (cases "bsClosing bs \<or> bsErr bs \<noteq> None")
    case True
    then show ?thesis using ok by (auto simp: PushData_def SPushData)
  next
    case False
    then have "\<exists>r bs'. PushData snk d bs = Done (r, bs') \<and> bs_ok bs'"
      using any_sink.push_data [OF ok, of snk d] by blast
    then show ?thesis by (simp add: SPushData)
  qed
next
  case (SPushFrame f arr)
  then have arr: "fType f = FrameCOVER \<Longrightarrow> length (fPayload f) \<le> length arr" using op by auto
  show ?thesis
  proof (cases "bsClosing bs \<or> bsErr bs \<noteq> None")
    case True
    then show ?thesis using ok by (auto simp: PushFrame_def SPushFrame)
  next
    case False
    then have "\<exists>r bs'. PushFrame snk f arr bs = Done (r, bs') \<and> bs_ok bs'"
      using any_sink.push_frame [OF ok, of f arr snk] arr by blast
    then show ?thesis by (simp add: SPushFrame)
  qed
next
  case (SInject f arr)
  then have arr: "length (fPayload f) \<le> length arr" "fType f = FrameCOVER" using op by auto
  show ?thesis
  proof (cases "bsClosing bs \<or> bsErr bs \<noteq> None")
    case True
    obtain e where "putPooledPayload (fPayload f) arr bs = Done (bs\<lparr>bsEnv := e\<rparr>)" "env_ok e"
      using putPooledPayload_ok [OF bs_okD(1) [OF ok] arr(1)] by blast
    then show ?thesis using True arr(2) any_sink.Q_env [OF ok] by (auto simp: injectCoverFrame_def SInject)
  next
    case False
    then have "\<exists>r bs'. injectCoverFrame snk f arr bs = Done (r, bs') \<and> bs_ok bs'"
      using any_sink.inject_cover [OF ok, of f arr snk] arr by blast
    then show ?thesis by (simp add: SInject)
  qed
next
  case SFlush
  then show ?thesis using any_sink.flush_returns [OF ok, of snk True] by (auto simp: Flush_def shaper_flush_def)
next
  case STimer
  then show ?thesis using any_sink.flush_returns [OF ok, of snk True] ok
    by (cases "bsClosing bs") (auto simp: onTimer_def shaper_flush_def)
next
  case (SClock rt)
  then show ?thesis using any_sink.Q_cover [OF ok, where c = "bsCover bs" and rt = rt] by auto
qed

lemma bs_ok_run:
  "bs_ok bs \<Longrightarrow> \<forall>op \<in> set ops. op_ok op \<Longrightarrow> \<exists>rs bs'. run_ops snk ops bs = Done (rs, bs') \<and> bs_ok bs'"
proof (induction ops arbitrary: bs)
  case (Cons op ops)
  obtain r b1 where 1: "shaper_op_run snk op bs = Done (r, b1)" "bs_ok b1"
    using bs_ok_op [OF Cons.prems(1), of op snk] Cons.prems(2) by auto
  then show ?case using Cons.IH [OF 1(2)] Cons.prems(2) by auto
qed auto

lemma bs_ok_close:
  assumes "bs_ok bs"
  shows "\<exists>r bs'. Shaper_Close snk bs = Done (r, bs') \<and> bs_ok bs' \<and> bsPlaintext bs' = None \<and> bsWriteClosed bs' \<and> bsClosing bs'"
proof -
  let ?b = "bs\<lparr>bsClosing := True, bsCover := map_option cover_stop (bsCover bs), bsTimer := False\<rparr>"
  have "bs_ok ?b" using assms by (simp add: bs_ok_def plain_len_def)
  then obtain r b1 where f: "flushAndWrite snk True ?b = Done (r, b1)" "bs_ok b1" "same_frame ?b b1"
    using any_sink.flush_returns by blast
  have clo: "bsClosing b1" using f(3) by (simp add: same_frame_def)
  let ?b2 = "b1\<lparr>bsWriteClosed := True\<rparr>"
  show ?thesis
  proof (cases "bsPlaintext b1")
    case None
    then show ?thesis
      using f clo bs_okD(7) [OF f(2)] by (auto simp: Shaper_Close_def shaper_flush_def Let_def bs_ok_def plain_len_def)
  next
    case (Some s)
    obtain k where k: "k < 18" "length (slArr s) = 2 ^ k"
      using bs_okD(2) [OF f(2)] Some by (auto simp: slice_cap_def)
    obtain e where p: "pool_put (slArr s) ?b2 = Done (?b2\<lparr>bsEnv := e\<rparr>)" "env_ok e"
      using pool_put_ok [of ?b2 k "slArr s"] k bs_okD(1) [OF f(2)] by auto
    have "Shaper_Close snk bs = Done (r, ?b2\<lparr>bsEnv := e, bsPlaintext := None\<rparr>)"
      using f(1) bs_okD(7) [OF f(2)] Some p(1) by (simp add: Shaper_Close_def shaper_flush_def Let_def)
    moreover have "bs_ok (?b2\<lparr>bsEnv := e, bsPlaintext := None\<rparr>)"
      using f(2) p(2) by (simp add: bs_ok_def plain_len_def)
    ultimately show ?thesis using clo
      by (intro exI [of _ r] exI [of _ "?b2\<lparr>bsEnv := e, bsPlaintext := None\<rparr>"]) simp
  qed
qed

section \<open>Properties\<close>

text \<open>
  C10. Whatever a caller pushes, flushes or injects, in any order, whatever the pool's buffers held,
  whatever the random draws and the clock are: the shaper on a working stream never panics or blocks,
  and after \<open>Close\<close> the stream holds exactly a sequence of records, each of at most 65517 bytes of
  plaintext, that carry every frame of at most 65514 bytes that was pushed, once, unchanged and in
  the order of the pushes, with nothing but padding and cover frames between them. The buffer is
  back in the pool.
\<close>

theorem shaper_delivers:
  assumes "aead_ok a" "length prefix = 4" "env_ok env" "\<forall>op \<in> set ops. op_ok op"
  shows "\<exists>bs rs bs1 bs2 gs.
     Shaper_New ratio (NewRecordWriter a (NewCounterNonce prefix) aad) cfg [] env rt = Done bs \<and>
     run_ops buffer_sink ops bs = Done (rs, bs1) \<and> Shaper_Close buffer_sink bs1 = Done (Inr (), bs2) \<and>
     bsPlaintext bs2 = None \<and> groups_ok gs \<and>
     bsOut bs2 = wire a (NewCounterNonce prefix) aad (map EncodeFrames gs) \<and>
     filter is_cargo (map frame_norm (concat gs)) = filter is_cargo (concat (map op_frames ops))"
proof -
  let ?cn = "NewCounterNonce prefix"
  obtain bs where n: "Shaper_New ratio (NewRecordWriter a ?cn aad) cfg [] env rt = Done bs" "carries a ?cn aad [] bs"
      "\<not> bsClosing bs"
    using New_carries [OF assms(1-3)] by blast
  obtain rs bs1 acc where r: "run_ops buffer_sink ops bs = Done (rs, bs1)" "carries a ?cn aad acc bs1"
      "filter is_cargo acc = filter is_cargo ([] @ concat (map op_frames ops))"
    using carries_run [OF n(2,3) assms(4)] by blast
  obtain bs2 gs where "Shaper_Close buffer_sink bs1 = Done (Inr (), bs2)" "bsPlaintext bs2 = None" "groups_ok gs"
      "bsOut bs2 = wire a ?cn aad (map EncodeFrames gs)"
      "filter is_cargo (map frame_norm (concat gs)) = filter is_cargo acc"
    using carries_close [OF r(2)] by blast
  then show ?thesis using n(1) r by auto
qed

text \<open>The run-time of the witnesses: no randomness, no rounding.\<close>

definition still_runtime :: runtime where
  "still_runtime = \<lparr>rtInt = (\<lambda>_. 0), rtByte = (\<lambda>_. 0), rtIdx = 0, rtNow = 0, rtFl = (\<lambda>x. x)\<rparr>"

definition plain_config :: shaper_Config where
  "plain_config = \<lparr>cfBatchWindowMS = 3, cfCover = \<lparr>cvBudgetRatio = 0, cvIdleTimeout = 0, cvMinSize = 0,
     cvMaxSize = 0, cvBudgetCap = 0\<rparr>\<rparr>"

lemma New_witness:
  "\<exists>bs. Shaper_New (3 / 100) (NewRecordWriter null_aead (NewCounterNonce [1, 2, 3, 4]) [7]) plain_config [] init_env
       still_runtime = Done bs \<and> carries null_aead (NewCounterNonce [1, 2, 3, 4]) [7] [] bs \<and> \<not> bsClosing bs"
  by (rule New_carries [OF null_aead_ok _ init_env_ok]) simp

theorem shaper_delivers_witness:
  "\<exists>bs rs bs1 bs2 gs.
     Shaper_New (3 / 100) (NewRecordWriter null_aead (NewCounterNonce [1, 2, 3, 4]) [7]) plain_config [] init_env
       still_runtime = Done bs \<and>
     run_ops buffer_sink [SPushData [1, 2], STimer, SPushFrame NewFrameFIN []] bs = Done (rs, bs1) \<and>
     Shaper_Close buffer_sink bs1 = Done (Inr (), bs2) \<and> bsPlaintext bs2 = None \<and> groups_ok gs \<and>
     bsOut bs2 = wire null_aead (NewCounterNonce [1, 2, 3, 4]) [7] (map EncodeFrames gs) \<and>
     filter is_cargo (map frame_norm (concat gs)) =
       filter is_cargo (concat (map op_frames [SPushData [1, 2], STimer, SPushFrame NewFrameFIN []]))"
  by (rule shaper_delivers [OF null_aead_ok _ init_env_ok]) (simp_all add: NewFrameFIN_def)

text \<open>
  C39. On any stream, failing or not, no sequence of shaper operations panics or blocks a lone caller,
  every buffer that goes back to the pool is one of the pool's size classes, and \<open>Close\<close> returns with
  the buffer released.
\<close>

theorem shaper_never_panics:
  assumes "bs_ok bs" "\<forall>op \<in> set ops. op_ok op"
  shows "\<exists>rs bs1 r bs2. run_ops snk ops bs = Done (rs, bs1) \<and> alloc_inv (ePool (bsEnv bs1)) \<and>
     Shaper_Close snk bs1 = Done (r, bs2) \<and> alloc_inv (ePool (bsEnv bs2)) \<and> bsPlaintext bs2 = None \<and>
     (\<exists>e. PushData snk d bs2 = Done (Inl e, bs2))"
proof -
  obtain rs bs1 where r: "run_ops snk ops bs = Done (rs, bs1)" "bs_ok bs1" using bs_ok_run [OF assms] by blast
  obtain x bs2 where c: "Shaper_Close snk bs1 = Done (x, bs2)" "bs_ok bs2" "bsPlaintext bs2 = None" "bsClosing bs2"
    using bs_ok_close [OF r(2)] by blast
  have "\<exists>e. PushData snk d bs2 = Done (Inl e, bs2)" using c(4) by (simp add: PushData_def)
  then show ?thesis using r c by (auto simp: bs_ok_def env_ok_def)
qed

definition broken_sink :: "bytes sink" where
  "broken_sink = \<lparr>snkWrite = (\<lambda>w p. (w, 0, Some io_ErrClosedPipe)), snkFlush = (\<lambda>w. w)\<rparr>"

theorem shaper_never_panics_witness:
  "\<exists>bs rs bs1. Shaper_New (3 / 100) (NewRecordWriter null_aead (NewCounterNonce [1, 2, 3, 4]) [7]) plain_config [] init_env
       still_runtime = Done bs \<and>
     run_ops broken_sink [SPushData [1, 2], SFlush] bs = Done (rs, bs1)"
proof -
  obtain bs where n: "Shaper_New (3 / 100) (NewRecordWriter null_aead (NewCounterNonce [1, 2, 3, 4]) [7]) plain_config []
      init_env still_runtime = Done bs" "carries null_aead (NewCounterNonce [1, 2, 3, 4]) [7] [] bs"
    using New_witness by blast
  then have "bs_ok bs" by (simp add: carries_def)
  moreover have "\<forall>op \<in> set [SPushData [1, 2], SFlush]. op_ok op" by simp
  ultimately show ?thesis
    using n(1) shaper_never_panics [of bs "[SPushData [1, 2], SFlush]" broken_sink "[]"] by blast
qed

text \<open>
  C11. Several goroutines may flush concurrently: however their steps interleave, records reach the
  record writer in the order in which their buffers were swapped out, without gaps; some waiting
  goroutine can always proceed; when the first call of \<open>Close\<close> has finished, every record swapped out
  before its snapshot has been written; and after that no step writes to the stream any more, however
  many further calls of \<open>Close\<close> there are.
\<close>

theorem shaper_records_in_order:
  assumes "reachable_from conc_init (conc_step snk) c"
  shows "cnWritten c = take (length (cnWritten c)) (cnSwapped c) \<and>
     (cnTickets c = [] \<or> (\<exists>n data ff. (n, data, ff) \<in> set (cnTickets c) \<and>
        writeRecordInOrder snk n (slice_data data) ff (cnBs c) \<noteq> Blocks)) \<and>
     (bsWriteClosed (cnBs c) \<longrightarrow> (\<exists>p \<in> set (cnPending c). p \<le> length (cnWritten c))) \<and>
     (bsWriteClosed (cnBs c) \<longrightarrow> conc_step snk c c' \<longrightarrow> bsOut (cnBs c') = bsOut (cnBs c) \<and> cnWritten c' = cnWritten c)"
proof (intro conjI impI)
  have inv: "conc_inv c" using conc.inv_reachable [OF assms] .
  show "cnWritten c = take (length (cnWritten c)) (cnSwapped c)"
    using inv by (simp add: conc_inv_def)
  show "cnTickets c = [] \<or> (\<exists>n data ff. (n, data, ff) \<in> set (cnTickets c) \<and>
        writeRecordInOrder snk n (slice_data data) ff (cnBs c) \<noteq> Blocks)"
  proof (cases "cnTickets c")
    case (Cons t ts)
    obtain n data ff where t: "t = (n, data, ff)" by (metis prod_cases3)
    have "n # map fst ts = [bsWriteNext (cnBs c)..<bsWriteSeq (cnBs c)]" using inv Cons t by (simp add: conc_inv_def)
    then have "n = bsWriteNext (cnBs c)" by (metis list.inject upt_eq_Cons_conv)
    then have "writeRecordInOrder snk n (slice_data data) ff (cnBs c) \<noteq> Blocks"
      by (simp add: writeRecordInOrder_def Let_def split: prod.split)
    then show ?thesis using Cons t by auto
  qed simp
  show "\<exists>p \<in> set (cnPending c). p \<le> length (cnWritten c)" if "bsWriteClosed (cnBs c)"
    using inv that by (simp add: conc_inv_def)
  assume cl: "bsWriteClosed (cnBs c)" and st: "conc_step snk c c'"
  show "bsOut (cnBs c') = bsOut (cnBs c)"
    using st cl by (elim conc_stepE) (auto dest: flushLocked_seq writeRecord_ticket)
  show "cnWritten c' = cnWritten c" using st cl by (elim conc_stepE) auto
qed

theorem shaper_records_in_order_witness:
  "\<exists>c :: bytes conc. reachable_from conc_init (conc_step buffer_sink) c \<and> length (cnSwapped c) = 1 \<and>
     (\<exists>n data ff. cnTickets c = [(n, data, ff)] \<and> writeRecordInOrder buffer_sink n (slice_data data) ff (cnBs c) \<noteq> Blocks)"
proof -
  obtain bs where n: "Shaper_New (3 / 100) (NewRecordWriter null_aead (NewCounterNonce [1, 2, 3, 4]) [7]) plain_config []
      init_env still_runtime = Done bs" "carries null_aead (NewCounterNonce [1, 2, 3, 4]) [7] [] bs"
    using New_witness by blast
  then have ok: "bs_ok bs" "\<not> bsWriteClosed bs" by (simp_all add: carries_def)
  define b where "b = bs\<lparr>bsWriteSeq := 0, bsWriteNext := 0, bsPlaintext := Some \<lparr>slArr = replicate 4096 0, slLen = 3\<rparr>\<rparr>"
  have "plain_ok (Some \<lparr>slArr = replicate 4096 0, slLen = 3\<rparr>)"
    by (simp add: slice_cap_def) (rule exI [of _ 12], simp)
  then obtain e rt s pad s0 where f: "flushLocked b = Done (Some s, b\<lparr>bsTimer := False, bsRt := rt, bsEnv := e, bsPlaintext := Some s0\<rparr>)"
    using flushLocked_ok [of b] ok(1) by (auto simp: b_def bs_ok_def plain_len_def)
  define c where "c = \<lparr>cnBs = b, cnTickets = [], cnSwapped = [], cnWritten = [], cnPending = []\<rparr>"
  let ?c = "c\<lparr>cnBs := b\<lparr>bsTimer := False, bsRt := rt, bsEnv := e, bsPlaintext := Some s0, bsWriteSeq := Suc 0\<rparr>,
     cnTickets := [(0, s, True)], cnSwapped := [slice_data s]\<rparr>"
  have init: "conc_init c" using ok(2) by (simp add: conc_init_def c_def b_def)
  have "flushLocked (cnBs c) = Done (Some s, b\<lparr>bsTimer := False, bsRt := rt, bsEnv := e, bsPlaintext := Some s0\<rparr>)"
    using f by (simp add: c_def)
  from conc_step.swap [OF this, of buffer_sink True] have "conc_step buffer_sink c ?c"
    by (simp add: c_def b_def)
  then have reach: "reachable_from conc_init (conc_step buffer_sink) ?c"
    by (rule reachable_from.step [OF reachable_from.start [of conc_init, OF init]])
  have "writeRecordInOrder buffer_sink 0 (slice_data s) True (cnBs ?c) \<noteq> Blocks"
    using shaper_records_in_order [OF reach, of ?c] by auto
  then have "cnTickets ?c = [(0, s, True)] \<and> writeRecordInOrder buffer_sink 0 (slice_data s) True (cnBs ?c) \<noteq> Blocks" by simp
  moreover have "length (cnSwapped ?c) = 1" by simp
  ultimately show ?thesis using reach by blast
qed

text \<open>
  Normalising a shaper configuration yields a batch window of 1 to 10 milliseconds and cover
  sizes that fit into one record, and normalising twice changes nothing.
\<close>

theorem shaper_config_normal:
  assumes "0 < ratio" "ratio \<le> 1"
  shows "let n = Config_Normalize ratio c in
     1 \<le> cfBatchWindowMS n \<and> cfBatchWindowMS n \<le> 10 \<and>
     0 < cvBudgetRatio (cfCover n) \<and> cvBudgetRatio (cfCover n) \<le> 1 \<and> 0 < cvBudgetCap (cfCover n) \<and>
     0 < cvIdleTimeout (cfCover n) \<and>
     1 \<le> cvMinSize (cfCover n) \<and> cvMinSize (cfCover n) \<le> cvMaxSize (cfCover n) \<and> cvMaxSize (cfCover n) \<le> 65514 \<and>
     Config_Normalize ratio n = n"
  using assms Config_Normalize_idem [OF assms, of c] by (simp add: Let_def) (simp add: Config_Normalize_def Let_def)

theorem shaper_config_normal_witness:
  "cvMaxSize (cfCover (Config_Normalize (3 / 100) plain_config)) \<le> 65514"
  using shaper_config_normal [of "3 / 100" plain_config] by (simp add: Let_def)

text \<open>
  Padding hides the size of a record without overflowing it: a padding frame has 1 to 1499 bytes,
  the padded record keeps within its budget, and a record of at most 128, 512 or 1500 bytes that is
  padded ends up at 128 + 3, 512 + 3 or 1500 + 3 bytes or more.
\<close>

theorem padding_bounds:
  assumes "0 < t" "buildPaddingFrame t b rt env = (Some f, rt', env')"
  shows "fType f = FramePADDING \<and> 1 \<le> length (fPayload f) \<and> length (fPayload f) \<le> 1499 \<and>
     t + 3 + int (length (fPayload f)) \<le> (if b \<le> 0 \<or> b > 65536 then 65536 else b) \<and>
     (if t \<le> 128 then 128 + 3 else if t \<le> 512 then 512 + 3 else if t \<le> 1500 then 1500 + 3 else t + 4)
       \<le> t + 3 + int (length (fPayload f))"
proof -
  obtain p rt1 where c: "computePadPayloadSize t rt = (p, rt1)" by fastforce
  have p: "0 \<le> p" "p < 1500" using computePad_bounds [OF c assms(1)] by auto
  then have u: "unat (word_of_int p :: 16 word) = nat p"
    by (simp add: unat_eq_nat_uint uint_word_of_int)
  have len: "int (length (fPayload f)) = p" "0 < p"
    using assms(2) p u
    by (auto simp: buildPaddingFrame_def newPaddingFrame_def c Let_def rng_Read_def NewFramePADDING_def
        NewZeroFrame_def split: if_splits)
  have "(if t \<le> 128 then 128 else if t \<le> 512 then 512 else if t \<le> 1500 then 1500 else t + 1) \<le> t + p"
    using c len(2) by (auto simp: computePadPayloadSize_def Let_def randomInt_def split: if_splits)
  then show ?thesis using buildPaddingFrame_Some [OF assms(2,1)] len by (auto split: if_splits)
qed

theorem padding_bounds_witness:
  "\<exists>f rt env. buildPaddingFrame 5 65517 still_runtime init_env = (Some f, rt, env) \<and> 1 \<le> length (fPayload f)"
proof -
  obtain f rt env where b: "buildPaddingFrame 5 65517 still_runtime init_env = (Some f, rt, env)"
    by (simp add: buildPaddingFrame_def newPaddingFrame_def computePadPayloadSize_def randomInt_def rng_Read_def
        still_runtime_def Let_def)
  show ?thesis using b padding_bounds [OF _ b] by auto
qed

end
