(* ===== verification/CoverTraffic.thy ===== *)
theory CoverTraffic
  imports Shaping
begin

text \<open>
  The cover budget of the shaper (\<open>src/shaper/covertraffic.go\<close>): bounds on the size of cover frames
  and on the budget, for any rounding of \<open>float64\<close> arithmetic that is monotone and exact on integers.
\<close>

section \<open>The cover budget\<close>

text \<open>
  What IEEE 754 promises of rounding to the nearest \<open>float64\<close>: it is monotone, and integers of up to
  53 bits are exact.
\<close>

definition fl_ok :: "(rat \<Rightarrow> rat) \<Rightarrow> bool" where
  "fl_ok fl \<longleftrightarrow> mono fl \<and> (\<forall>n. \<bar>n\<bar> \<le> 2 ^ 53 \<longrightarrow> fl (of_int n) = of_int n)"

definition cover_ok :: "coverInjector \<Rightarrow> bool" where
  "cover_ok ci \<longleftrightarrow> 1 \<le> cvMinSize (ciCfg ci) \<and> cvMinSize (ciCfg ci) \<le> cvMaxSize (ciCfg ci) \<and>
     cvMaxSize (ciCfg ci) \<le> 65514 \<and> 0 \<le> ciTotalSent ci \<and> 0 \<le> ciBudget ci"

lemma fl_int: "fl_ok fl \<Longrightarrow> \<bar>n\<bar> \<le> 2 ^ 53 \<Longrightarrow> fl (of_int n) = of_int n"
  by (simp add: fl_ok_def)

lemma fl_mono: "fl_ok fl \<Longrightarrow> x \<le> y \<Longrightarrow> fl x \<le> fl y"
  by (simp add: fl_ok_def monoD)

lemma fl_between:
  assumes "fl_ok fl" "0 \<le> x" "x \<le> of_int n" "n \<le> 2 ^ 53"
  shows "0 \<le> fl x" "fl x \<le> of_int n"
proof -
  have "0 \<le> n" using assms(2,3) by (metis of_int_0_le_iff order_trans)
  then have n: "fl (of_int n) = of_int n" "fl 0 = 0"
    using fl_int [OF assms(1), of n] fl_int [OF assms(1), of 0] assms(4) by auto
  show "0 \<le> fl x" using fl_mono [OF assms(1,2)] n by simp
  show "fl x \<le> of_int n" using fl_mono [OF assms(1,3)] n by simp
qed

lemma rat_trunc_between: "0 \<le> x \<Longrightarrow> x \<le> of_int n \<Longrightarrow> 0 \<le> rat_trunc x \<and> rat_trunc x \<le> n"
  by (simp add: rat_trunc_def floor_le_iff)

text \<open>A product with a factor between zero and one.\<close>

lemma scaled_trunc:
  assumes "fl_ok fl" "0 \<le> r" "r \<le> 1" "0 \<le> n" "n \<le> 2 ^ 53"
  shows "0 \<le> rat_trunc (fl (r * fl (of_int n))) \<and> rat_trunc (fl (r * fl (of_int n))) \<le> n"
proof -
  have "fl (of_int n) = of_int n" using fl_int [OF assms(1)] assms(4,5) by simp
  moreover have "0 \<le> r * of_int n" "r * of_int n \<le> of_int n"
    using assms(2-4) mult_left_le_one_le [of "of_int n" r] by auto
  ultimately show ?thesis
    using fl_between [OF assms(1), of "r * of_int n" n] assms(5) rat_trunc_between by simp
qed

lemma coverFrameSizeRange_bounds:
  assumes fl: "fl_ok fl" and ci: "cover_ok ci" and r: "coverFrameSizeRange fl ci = (mn, mx)"
  shows "cvMinSize (ciCfg ci) \<le> mn \<and> mn \<le> cvMaxSize (ciCfg ci) \<and> mx \<le> cvMaxSize (ciCfg ci)"
proof -
  let ?lo = "cvMinSize (ciCfg ci)" and ?hi = "cvMaxSize (ciCfg ci)"
  define k where "k = min (ciTotalSent ci) (2 ^ 20)"
  define ratio where "ratio = fl (fl (of_int k) / fl (of_int (2 ^ 20)))"
  have k: "0 \<le> k" "k \<le> 2 ^ 20" using ci by (auto simp: k_def cover_ok_def)
  have "fl (of_int k) = of_int k" "fl (of_int (2 ^ 20)) = of_int (2 ^ 20)"
    using fl_int [OF fl, of k] fl_int [OF fl, of "2 ^ 20"] k by simp_all
  moreover have "0 \<le> (of_int k :: rat) / of_int (2 ^ 20)" "(of_int k :: rat) / of_int (2 ^ 20) \<le> of_int 1"
    using k by (simp_all add: divide_le_eq)
  ultimately have ratio: "0 \<le> ratio" "ratio \<le> 1"
    using fl_between [OF fl, of "of_int k / of_int (2 ^ 20)" 1] by (simp_all add: ratio_def)
  have c: "0 \<le> fl (q :: rat) \<and> fl q \<le> 1" if "0 \<le> q" "q \<le> 1" for q
    using fl_between [OF fl that(1), of 1] that(2) by simp
  define a b where "a = rat_trunc (fl (fl (of_int (?hi - ?lo)) * fl (28 / 100)))"
    and "b = rat_trunc (fl (fl (of_int (?hi - ?lo)) * fl (278 / 1000)))"
  have ab: "0 \<le> a" "a \<le> ?hi - ?lo" "0 \<le> b" "b \<le> ?hi - ?lo"
    using scaled_trunc [OF fl, of "fl (28 / 100)" "?hi - ?lo"] scaled_trunc [OF fl, of "fl (278 / 1000)" "?hi - ?lo"]
      c [of "28 / 100"] c [of "278 / 1000"] ci
    by (simp_all add: a_def b_def cover_ok_def mult.commute)
  have mn: "mn = ?lo + rat_trunc (fl (ratio * fl (of_int (?lo + a - ?lo))))"
    and mx: "mx = ?lo + b + rat_trunc (fl (ratio * fl (of_int (?hi - (?lo + b)))))"
    using r by (simp_all add: coverFrameSizeRange_def Let_def ratio_def k_def a_def b_def)
  have "0 \<le> rat_trunc (fl (ratio * fl (of_int a))) \<and> rat_trunc (fl (ratio * fl (of_int a))) \<le> a"
    using scaled_trunc [OF fl ratio ab(1)] ab(2) ci by (simp add: cover_ok_def)
  moreover have "rat_trunc (fl (ratio * fl (of_int (?hi - (?lo + b))))) \<le> ?hi - (?lo + b)"
    using scaled_trunc [OF fl ratio, of "?hi - (?lo + b)"] ab(3,4) ci by (simp add: cover_ok_def)
  ultimately show ?thesis using mn mx ab by simp
qed

lemma randomInt_any: "randomInt n rt = (x, rt') \<Longrightarrow> 0 \<le> x \<and> (x = 0 \<or> x < n)"
  using randomInt_range [of n rt x rt'] by (cases "n \<le> 0") (auto simp: randomInt_def)

lemma onIdle_size:
  assumes fl: "fl_ok (rtFl rt)" and ci: "cover_ok ci" and r: "onIdle closing ci rt = (Some n, ci', rt')"
  shows "\<not> closing \<and> \<not> ciStopped ci \<and> cvMinSize (ciCfg ci) \<le> n \<and> n \<le> cvMaxSize (ciCfg ci) \<and>
     of_int n \<le> ciBudget ci \<and> cover_ok ci' \<and> ciBudget ci' = rtFl rt (ciBudget ci - of_int n)"
proof -
  obtain mn mx where s: "coverFrameSizeRange (rtFl rt) ci = (mn, mx)" by fastforce
  note b = coverFrameSizeRange_bounds [OF fl ci s]
  have mn: "rtFl rt (of_int mn) = of_int mn" using fl_int [OF fl, of mn] b ci by (simp add: cover_ok_def)
  obtain x rt1 where x: "randomInt (min mx (rat_trunc (ciBudget ci)) - mn + 1) rt = (x, rt1)" by fastforce
  from r s x have ok: "\<not> closing" "\<not> ciStopped ci" "of_int mn \<le> ciBudget ci" and n: "n = mn + x"
    and ci': "cover_ok ci' \<longleftrightarrow> cover_ok (ci\<lparr>ciBudget := rtFl rt (ciBudget ci - rtFl rt (of_int n))\<rparr>)"
       "ciBudget ci' = rtFl rt (ciBudget ci - rtFl rt (of_int n))"
    by (auto simp: onIdle_def Let_def mn cover_ok_def split: if_splits prod.splits)
  have tr: "mn \<le> rat_trunc (ciBudget ci)" "of_int (rat_trunc (ciBudget ci)) \<le> ciBudget ci"
    using ok(3) b ci by (auto simp: rat_trunc_def cover_ok_def le_floor_iff)
  have xr: "0 \<le> x" "x = 0 \<or> mn + x \<le> min mx (rat_trunc (ciBudget ci))"
    using randomInt_any [OF x] by auto
  have le: "n \<le> cvMaxSize (ciCfg ci)" "n \<le> rat_trunc (ciBudget ci)" "mn \<le> n" using xr n b tr by auto
  then have bud: "of_int n \<le> ciBudget ci" using tr(2) by (metis of_int_le_iff order_trans)
  have "rtFl rt (of_int n) = of_int n" using fl_int [OF fl, of n] le b ci by (simp add: cover_ok_def)
  moreover have "0 \<le> rtFl rt (ciBudget ci - of_int n)"
    using fl_mono [OF fl, of 0 "ciBudget ci - of_int n"] fl_int [OF fl, of 0] bud by simp
  ultimately show ?thesis using ok le b bud ci' ci by (auto simp: cover_ok_def)
qed

lemma addBudget_bounds:
  assumes fl: "fl_ok (rtFl rt)" and ci: "cover_ok ci" "0 \<le> cvBudgetRatio (ciCfg ci)"
    "0 \<le> cvBudgetCap (ciCfg ci)" "cvBudgetCap (ciCfg ci) \<le> 2 ^ 53" and n: "0 \<le> n" "n \<le> 2 ^ 53"
    and r: "addBudget n ci rt = (ci', rt')" and old: "ciBudget ci \<le> of_int (cvBudgetCap (ciCfg ci))"
  shows "0 \<le> ciBudget ci' \<and> ciBudget ci' \<le> of_int (cvBudgetCap (ciCfg ci)) \<and> ciCfg ci' = ciCfg ci"
proof -
  let ?fl = "rtFl rt"
  have z: "?fl 0 = 0" using fl_int [OF fl, of 0] by simp
  have cap: "?fl (of_int (cvBudgetCap (ciCfg ci))) = of_int (cvBudgetCap (ciCfg ci))"
    using fl_int [OF fl] ci(3,4) by simp
  have nn: "?fl (of_int n) = of_int n" using fl_int [OF fl] n by simp
  have "0 \<le> ?fl (?fl (of_int n) * cvBudgetRatio (ciCfg ci))"
    using fl_mono [OF fl, of 0 "?fl (of_int n) * cvBudgetRatio (ciCfg ci)"] z nn n ci(2) by simp
  then have b: "0 \<le> ?fl (ciBudget ci + ?fl (?fl (of_int n) * cvBudgetRatio (ciCfg ci)))"
    using fl_mono [OF fl, of 0 "ciBudget ci + ?fl (?fl (of_int n) * cvBudgetRatio (ciCfg ci))"] z ci(1)
    by (simp add: cover_ok_def)
  show ?thesis
    using r old b cap ci by (auto simp: addBudget_def Let_def cover_ok_def split: if_splits prod.splits)
qed

lemma shaper_onIdle_ok:
  assumes fl: "fl_ok (rtFl (bsRt bs))" and ok: "bs_ok bs" and ci: "bsCover bs = Some ci" "cover_ok ci"
  shows "\<exists>bs'. shaper_onIdle snk bs = Done bs' \<and> bs_ok bs'"
proof -
  obtain r ci' rt where o: "onIdle (bsClosing bs) ci (bsRt bs) = (r, ci', rt)" by (metis prod_cases3)
  let ?bs = "bs\<lparr>bsCover := Some ci', bsRt := rt\<rparr>"
  have ok1: "bs_ok ?bs" using any_sink.Q_cover [OF ok, where c = "Some ci'" and rt = rt] .
  show ?thesis
  proof (cases r)
    case None
    then show ?thesis using ci(1) o ok1 by (auto simp: shaper_onIdle_def)
  next
    case (Some n)
    note sz = onIdle_size [OF fl ci(2) o [unfolded Some]]
    have n: "0 < nat n" "nat n \<le> 65514" "int (nat n) = n" using sz ci(2) by (auto simp: cover_ok_def)
    obtain buf e where g: "pool_take n ?bs = Done (buf, nat n, ?bs\<lparr>bsEnv := e\<rparr>)" "env_ok e" "nat n \<le> length buf"
      using pool_take_ok [of ?bs "nat n"] bs_okD(1) [OF ok1] n by auto
    obtain payload rt2 where p: "rng_Read (nat n) rt = (payload, rt2)" "length payload = nat n"
      by (simp add: rng_Read_def)
    obtain f where f: "NewFrameWithPayload FrameCOVER payload = Inr f" "fPayload f = payload" "fType f = FrameCOVER"
      using p(2) n by (simp add: NewFrameWithPayload_def checkPayloadLen_def)
    have ok2: "bs_ok (?bs\<lparr>bsEnv := e, bsRt := rt2\<rparr>)" using ok1 g(2) by (simp add: bs_ok_def plain_len_def)
    obtain x bs' where "shaper_op_run snk (SInject f (payload @ drop (nat n) buf)) (?bs\<lparr>bsEnv := e, bsRt := rt2\<rparr>) = Done (x, bs')"
      "bs_ok bs'"
      using bs_ok_op [OF ok2, of "SInject f (payload @ drop (nat n) buf)" snk] f by auto
    then show ?thesis using Some ci(1) o g(1) p(1) f(1) by (simp add: shaper_onIdle_def)
  qed
qed

section \<open>The property\<close>

text \<open>
  Cover traffic stays within its budget: whenever the idle timer fires, the callback neither
  panics nor breaks the shaper, a cover frame it sends has between the configured minimum and maximum
  size and is paid for in full by the budget, which never becomes negative, and real traffic never
  raises the budget over its cap.
\<close>

theorem cover_within_budget:
  assumes "fl_ok (rtFl (bsRt bs))" "bs_ok bs" "bsCover bs = Some ci" "cover_ok ci"
    and "0 \<le> cvBudgetRatio (ciCfg ci)" "0 \<le> cvBudgetCap (ciCfg ci)" "cvBudgetCap (ciCfg ci) \<le> 2 ^ 53"
    and "ciBudget ci \<le> of_int (cvBudgetCap (ciCfg ci))" "0 \<le> n" "n \<le> 2 ^ 53"
  shows "(\<exists>bs'. shaper_onIdle snk bs = Done bs' \<and> bs_ok bs') \<and>
     (case onIdle (bsClosing bs) ci (bsRt bs) of
        (None, _) \<Rightarrow> True
      | (Some k, ci', _) \<Rightarrow> cvMinSize (ciCfg ci) \<le> k \<and> k \<le> cvMaxSize (ciCfg ci) \<and> of_int k \<le> ciBudget ci \<and>
          0 \<le> ciBudget ci' \<and> ciBudget ci' = rtFl (bsRt bs) (ciBudget ci - of_int k)) \<and>
     (case addBudget n ci (bsRt bs) of
        (ci', _) \<Rightarrow> 0 \<le> ciBudget ci' \<and> ciBudget ci' \<le> of_int (cvBudgetCap (ciCfg ci)))"
proof (intro conjI)
  show "\<exists>bs'. shaper_onIdle snk bs = Done bs' \<and> bs_ok bs'" by (rule shaper_onIdle_ok [OF assms(1-4)])
  show "case onIdle (bsClosing bs) ci (bsRt bs) of
        (None, _) \<Rightarrow> True
      | (Some k, ci', _) \<Rightarrow> cvMinSize (ciCfg ci) \<le> k \<and> k \<le> cvMaxSize (ciCfg ci) \<and> of_int k \<le> ciBudget ci \<and>
          0 \<le> ciBudget ci' \<and> ciBudget ci' = rtFl (bsRt bs) (ciBudget ci - of_int k)"
  proof (cases "onIdle (bsClosing bs) ci (bsRt bs)")
    case (fields r ci' rt')
    show ?thesis
    proof (cases r)
      case (Some k)
      then have "onIdle (bsClosing bs) ci (bsRt bs) = (Some k, ci', rt')" using fields by simp
      from onIdle_size [OF assms(1,4) this] show ?thesis using fields Some by (simp add: cover_ok_def)
    qed (simp add: fields)
  qed
  show "case addBudget n ci (bsRt bs) of
        (ci', _) \<Rightarrow> 0 \<le> ciBudget ci' \<and> ciBudget ci' \<le> of_int (cvBudgetCap (ciCfg ci))"
  proof (cases "addBudget n ci (bsRt bs)")
    case (Pair ci' rt')
    from addBudget_bounds [OF assms(1,4-7,9,10) this assms(8)] show ?thesis using Pair by simp
  qed
qed

theorem cover_within_budget_witness:
  "\<exists>bs ci. bsCover bs = Some ci \<and> ciBudget ci = 1000 \<and> (\<exists>bs'. shaper_onIdle buffer_sink bs = Done bs')"
proof -
  obtain bs where c: "carries null_aead (NewCounterNonce [1, 2, 3, 4]) [7] [] bs" using New_witness by blast
  define ci where "ci = \<lparr>ciCfg = \<lparr>cvBudgetRatio = 3 / 100, cvIdleTimeout = 300, cvMinSize = 128, cvMaxSize = 1500,
      cvBudgetCap = 16384\<rparr>, ciBudget = 1000, ciTimer = None, ciLastReset = 0, ciLastRealData = 0,
      ciMinResetInterval = 150, ciTotalSent = 33000, ciStopped = False\<rparr>"
  let ?bs = "bs\<lparr>bsCover := Some ci, bsRt := still_runtime\<rparr>"
  have "bs_ok ?bs" using any_sink.Q_cover c by (auto simp: carries_def)
  moreover have "fl_ok (rtFl (bsRt ?bs))" by (simp add: fl_ok_def still_runtime_def mono_def)
  ultimately have "\<exists>bs'. shaper_onIdle buffer_sink ?bs = Done bs'"
    using cover_within_budget [of ?bs ci 0 buffer_sink] by (simp add: ci_def cover_ok_def) blast
  then show ?thesis by (intro exI [of _ ?bs] exI [of _ ci]) (simp add: ci_def)
qed

end
