(* ===== verification/H2Slot.thy ===== *)
theory H2Slot
  imports Config Stats
begin

text \<open>
  The connection slots of the HTTP/2 transport (\<open>src/transport/http2/slot.go\<close>, and the dialling and
  closing paths of \<open>client.go\<close>). Slots, generations of a slot's connection pool and connections are
  pointers in the code; here they are numbers, and \<open>h2\<close> holds the slots and the generations they
  point to, the next fresh generation, the connections that were hard-closed, and the counters.
\<close>

type_synonym conn_id = nat
type_synonym gen_id = nat
type_synonym slot_id = nat

record slotTransport =
  gtSlot :: slot_id
  gtConn :: "conn_id option"

record transportSlot =
  tsIdx :: nat
  tsGen :: "gen_id option"
  tsHasFactory :: bool
  tsActive :: int
  tsHeavy :: int
  tsIdleSince :: int
  tsBytesRecv :: int
  tsDegraded :: bool
  tsExpireAt :: int
  tsConnBytes :: int
  tsExpiring :: bool
  tsReverify :: bool
  tsLastBytes :: int
  tsLastHeavy :: nat
  tsLowCycles :: int
  tsRecoverCycles :: int
  tsSuspected :: bool
  tsProbeLowCycles :: int
  tsLastProbeAt :: int
  tsProbeHoldUntil :: int
  tsProbeBackoff :: nat
  tsProbeConn :: "conn_id option"

record h2 =
  hSlots :: "slot_id \<Rightarrow> transportSlot"
  hGens :: "gen_id \<Rightarrow> slotTransport"
  hNextGen :: gen_id
  hClosed :: "conn_id list"
  hIdleClosed :: "gen_id list"
  hStats :: stats

definition upd_slot :: "slot_id \<Rightarrow> (transportSlot \<Rightarrow> transportSlot) \<Rightarrow> h2 \<Rightarrow> h2" where
  "upd_slot s f h = h\<lparr>hSlots := (hSlots h)(s := f (hSlots h s))\<rparr>"

definition h2_stats :: "(stats \<Rightarrow> stats) \<Rightarrow> h2 \<Rightarrow> h2" where
  "h2_stats f h = h\<lparr>hStats := f (hStats h)\<rparr>"

text \<open>\<open>CloseIdleConnections\<close> on the pool of a generation.\<close>

definition CloseIdleConnections :: "gen_id \<Rightarrow> h2 \<Rightarrow> h2" where
  "CloseIdleConnections g h = h\<lparr>hIdleClosed := g # hIdleClosed h\<rparr>"

section \<open>Rotation state\<close>

definition resetRotation :: "transportSlot \<Rightarrow> transportSlot" where
  "resetRotation s = s\<lparr>tsExpireAt := 0, tsConnBytes := 0, tsExpiring := False, tsDegraded := False,
     tsReverify := False\<rparr>"

text \<open>\<open>rotationLifetime\<close>: \<open>draw\<close> is the random number, taken modulo its range.\<close>

definition rotationLifetime :: "int \<Rightarrow> nat \<Rightarrow> int" where
  "rotationLifetime base draw =
     (let span = int64 (base * 3) sdiv 10
      in if span \<le> 0 then base else base - span + int draw mod (2 * span + 1))"

definition resetConn :: "int \<Rightarrow> nat \<Rightarrow> int \<Rightarrow> transportSlot \<Rightarrow> transportSlot" where
  "resetConn connLifetime draw now s =
     (resetRotation s)\<lparr>tsExpireAt := now + rotationLifetime connLifetime draw, tsIdleSince := now\<rparr>"

definition idleFor :: "transportSlot \<Rightarrow> int \<Rightarrow> int" where
  "idleFor s now = (if tsIdleSince s = 0 then 0 else now - tsIdleSince s)"

section \<open>Generations and connection identities\<close>

definition connIdentity :: "h2 \<Rightarrow> slot_id \<Rightarrow> conn_id option" where
  "connIdentity h s = (case tsGen (hSlots h s) of Some g \<Rightarrow> gtConn (hGens h g) | None \<Rightarrow> None)"

text \<open>\<open>newGen\<close> builds an empty pool; the compare-and-swap installs it only on the generation seen.\<close>

definition advanceGeneration :: "slot_id \<Rightarrow> gen_id option \<Rightarrow> h2 \<Rightarrow> bool \<times> h2" where
  "advanceGeneration s gen h =
     (if \<not> tsHasFactory (hSlots h s) \<or> gen = None then (False, h)
      else
        (let n = hNextGen h;
             h = h\<lparr>hGens := (hGens h)(n := \<lparr>gtSlot = s, gtConn = None\<rparr>), hNextGen := Suc n\<rparr>
         in if tsGen (hSlots h s) = gen then (True, upd_slot s (\<lambda>x. x\<lparr>tsGen := Some n\<rparr>) h)
            else (False, h)))"

definition takeConn :: "gen_id option \<Rightarrow> conn_id option \<Rightarrow> h2 \<Rightarrow> conn_id option \<times> h2" where
  "takeConn gen expect h =
     (case gen of
        None \<Rightarrow> (None, h)
      | Some g \<Rightarrow>
          (case (case expect of None \<Rightarrow> gtConn (hGens h g) | Some c \<Rightarrow> Some c) of
             None \<Rightarrow> (None, h)
           | Some c \<Rightarrow>
               (if gtConn (hGens h g) = Some c
                then (Some c, h\<lparr>hGens := (hGens h)(g := (hGens h g)\<lparr>gtConn := None\<rparr>)\<rparr>)
                else (None, h))))"

definition retireGeneration :: "slot_id \<Rightarrow> gen_id option \<Rightarrow> conn_id option \<Rightarrow> h2 \<Rightarrow> h2" where
  "retireGeneration s gen conn h =
     (case takeConn gen conn h of
        (Some _, h) \<Rightarrow> snd (advanceGeneration s gen h)
      | (None, h) \<Rightarrow> h)"

definition retireConn :: "slot_id \<Rightarrow> gen_id option \<Rightarrow> conn_id option \<Rightarrow> h2 \<Rightarrow> conn_id option \<times> h2" where
  "retireConn s gen expect h =
     (case takeConn gen expect h of
        (None, h) \<Rightarrow> (None, h)
      | (Some sc, h) \<Rightarrow>
          (if tsGen (hSlots h s) = gen
           then
             (let h = upd_slot s resetRotation h
              in case advanceGeneration s gen h of
                   (True, h) \<Rightarrow> (Some sc, (case gen of Some g \<Rightarrow> CloseIdleConnections g h | None \<Rightarrow> h))
                 | (False, h) \<Rightarrow> (Some sc, h))
           else (Some sc, h)))"

definition close_conn :: "conn_id \<Rightarrow> h2 \<Rightarrow> h2" where
  "close_conn c h = h\<lparr>hClosed := c # hClosed h\<rparr>"

definition invalidateConnIf :: "slot_id \<Rightarrow> gen_id option \<Rightarrow> conn_id option \<Rightarrow> h2 \<Rightarrow> bool \<times> h2" where
  "invalidateConnIf s gen expect h =
     (case expect of
        None \<Rightarrow> (False, h)
      | Some _ \<Rightarrow>
          (case retireConn s gen expect h of
             (None, h) \<Rightarrow> (False, h)
           | (Some sc, h) \<Rightarrow> (True, close_conn sc h)))"

definition retireIdleConn :: "slot_id \<Rightarrow> gen_id option \<Rightarrow> h2 \<Rightarrow> bool \<times> h2" where
  "retireIdleConn s gen h =
     (case retireConn s gen None h of
        (None, h) \<Rightarrow> (False, h)
      | (Some _, h) \<Rightarrow> (True, h))"

section \<open>Dialling and closing\<close>

text \<open>
  The end of \<open>DialTLSContext\<close>, once the TLS connection \<open>c\<close> is up: it is registered in the generation
  it was dialled for, and the slot's rotation state starts anew if that generation is still current.
\<close>

definition dial_register :: "int \<Rightarrow> nat \<Rightarrow> int \<Rightarrow> gen_id \<Rightarrow> conn_id \<Rightarrow> h2 \<Rightarrow> h2" where
  "dial_register connLifetime draw now g c h =
     (let s = gtSlot (hGens h g);
          h = (if tsGen (hSlots h s) = Some g then upd_slot s (resetConn connLifetime draw now) h else h);
          old = gtConn (hGens h g);
          h = h\<lparr>hGens := (hGens h)(g := (hGens h g)\<lparr>gtConn := Some c\<rparr>)\<rparr>
      in if old \<noteq> None then h2_stats RecordSecondConnInGeneration h else h)"

definition trackedConn_Close :: "gen_id \<Rightarrow> conn_id \<Rightarrow> h2 \<Rightarrow> h2" where
  "trackedConn_Close g self h =
     (let s = gtSlot (hGens h g) in close_conn self (retireGeneration s (Some g) (Some self) h))"

text \<open>\<open>newSlot\<close>: a slot with a first, empty generation.\<close>

definition newSlot :: "slot_id \<Rightarrow> h2 \<Rightarrow> h2" where
  "newSlot s h =
     (let n = hNextGen h
      in h\<lparr>hGens := (hGens h)(n := \<lparr>gtSlot = s, gtConn = None\<rparr>), hNextGen := Suc n,
           hSlots := (hSlots h)(s := \<lparr>tsIdx = 0, tsGen = Some n, tsHasFactory = True, tsActive = 0, tsHeavy = 0,
             tsIdleSince = 0, tsBytesRecv = 0, tsDegraded = False, tsExpireAt = 0, tsConnBytes = 0,
             tsExpiring = False, tsReverify = False, tsLastBytes = 0, tsLastHeavy = 0, tsLowCycles = 0,
             tsRecoverCycles = 0, tsSuspected = False, tsProbeLowCycles = 0, tsLastProbeAt = 0,
             tsProbeHoldUntil = 0, tsProbeBackoff = 0, tsProbeConn = None\<rparr>)\<rparr>)"

end
