(* ===== verification/H2Claims.thy ===== *)
theory H2Claims
  imports H2Slot
begin

text \<open>
  Who owns a connection of the HTTP/2 transport. The health loop, the streams, the suspend handling
  and the HTTP library may all want to close the same connection; each has to take it out of its
  generation by a compare-and-swap first. This theory shows that a connection is claimed once, that
  declaring one dead touches nothing else, and the bounds of the rotation deadline.
\<close>

section \<open>Well-formed transports\<close>

text \<open>
  Generation numbers are allocated in order: a slot's generation and every generation with a
  connection are below the next fresh number, and a generation belongs to the slot that made it.
\<close>

definition h2_ok :: "h2 \<Rightarrow> bool" where
  "h2_ok h \<longleftrightarrow>
     (\<forall>s g. tsGen (hSlots h s) = Some g \<longrightarrow> g < hNextGen h) \<and>
     (\<forall>g. hNextGen h \<le> g \<longrightarrow> gtConn (hGens h g) = None)"

lemma h2_okD:
  "h2_ok h \<Longrightarrow> tsGen (hSlots h s) = Some g \<Longrightarrow> g < hNextGen h"
  "h2_ok h \<Longrightarrow> hNextGen h \<le> g \<Longrightarrow> gtConn (hGens h g) = None"
  by (auto simp: h2_ok_def)

lemma upd_slot_simps [simp]:
  "hSlots (upd_slot s f h) s' = (if s' = s then f (hSlots h s) else hSlots h s')"
  "hGens (upd_slot s f h) = hGens h" "hNextGen (upd_slot s f h) = hNextGen h" "hClosed (upd_slot s f h) = hClosed h"
  "hStats (upd_slot s f h) = hStats h" "hIdleClosed (upd_slot s f h) = hIdleClosed h"
  by (simp_all add: upd_slot_def)

lemma resetRotation_simps [simp]:
  "tsGen (resetRotation x) = tsGen x" "tsHasFactory (resetRotation x) = tsHasFactory x"
  "tsActive (resetRotation x) = tsActive x" "tsHeavy (resetRotation x) = tsHeavy x"
  "tsExpiring (resetRotation x) = False" "tsDegraded (resetRotation x) = False" "tsReverify (resetRotation x) = False"
  "tsExpireAt (resetRotation x) = 0" "tsConnBytes (resetRotation x) = 0" "tsIdleSince (resetRotation x) = tsIdleSince x"
  by (simp_all add: resetRotation_def)

text \<open>The connection a compare-and-swap claims, and nothing else, leaves its generation.\<close>

lemma takeConn_Some:
  assumes "takeConn (Some g) e h = (Some c, h')"
  shows "gtConn (hGens h g) = Some c \<and> (e = None \<or> e = Some c) \<and>
     h' = h\<lparr>hGens := (hGens h)(g := (hGens h g)\<lparr>gtConn := None\<rparr>)\<rparr>"
  using assms by (auto simp: takeConn_def split: option.splits if_splits)

lemma takeConn_None: "takeConn gen e h = (None, h') \<Longrightarrow> h' = h"
  by (auto simp: takeConn_def split: option.splits if_splits)

text \<open>What retiring a connection does to the slot and the generations.\<close>

lemma retireConn_cases:
  assumes ok: "h2_ok h" and r: "retireConn s (Some g) e h = (r, h')"
  shows "(case r of
     None \<Rightarrow> h' = h
   | Some c \<Rightarrow> gtConn (hGens h g) = Some c \<and> (e = None \<or> e = Some c) \<and> hClosed h' = hClosed h \<and> hStats h' = hStats h \<and>
       (\<forall>g'. gtConn (hGens h' g') = (if g' = g then None else gtConn (hGens h g'))) \<and>
       hNextGen h \<le> hNextGen h' \<and>
       (\<forall>s'. s' \<noteq> s \<longrightarrow> hSlots h' s' = hSlots h s') \<and>
       (if tsGen (hSlots h s) = Some g then
          hSlots h' s = (resetRotation (hSlots h s))\<lparr>tsGen :=
            if tsHasFactory (hSlots h s) then Some (hNextGen h) else Some g\<rparr>
        else hSlots h' s = hSlots h s)) \<and> h2_ok h'"
proof (cases "takeConn (Some g) e h")
  case (Pair t h1)
  show ?thesis
  proof (cases t)
    case None
    then show ?thesis using r Pair takeConn_None [of "Some g" e h h1] ok by (auto simp: retireConn_def)
  next
    case (Some c)
    note t = takeConn_Some [OF Pair [unfolded Some]]
    have g: "g < hNextGen h" using t h2_okD(2) [OF ok, of g] by (cases "g < hNextGen h") auto
    have upd: "x\<lparr>tsGen := Some g\<rparr> = x" if "tsGen x = Some g" for x :: transportSlot using that by (cases x) simp
    have rc: "r = Some c"
      using r Pair Some by (auto simp: retireConn_def Let_def split: if_splits prod.splits bool.splits)
    have lt: "\<And>s g. tsGen (hSlots h s) = Some g \<Longrightarrow> g < Suc (hNextGen h)" using h2_okD(1) [OF ok] by (simp add: less_SucI)
    show ?thesis
      unfolding rc option.case using r Pair Some t ok g
      by (auto simp: retireConn_def advanceGeneration_def CloseIdleConnections_def Let_def h2_ok_def upd
          dest: lt split: if_splits)
  qed
qed

section \<open>Claims\<close>

text \<open>
  The steps that touch connection identities, with a ghost list of the connections that some closer
  has claimed (its compare-and-swap took them out of their generation). Fresh connections get fresh
  numbers.
\<close>

record claims =
  clH :: h2
  clNext :: conn_id
  clTaken :: "conn_id list"

definition note_claim :: "gen_id \<Rightarrow> h2 \<Rightarrow> claims \<Rightarrow> claims" where
  "note_claim g h' c =
     c\<lparr>clH := h',
       clTaken := (case (gtConn (hGens (clH c) g), gtConn (hGens h' g)) of
                     (Some x, None) \<Rightarrow> x # clTaken c | _ \<Rightarrow> clTaken c)\<rparr>"

inductive claim_step :: "claims \<Rightarrow> claims \<Rightarrow> bool" where
  dial: "g < hNextGen (clH c) \<Longrightarrow>
     claim_step c (c\<lparr>clH := dial_register lt draw now g (clNext c) (clH c), clNext := Suc (clNext c)\<rparr>)"
| invalidate: "claim_step c (note_claim g (snd (invalidateConnIf s (Some g) e (clH c))) c)"
| retire_idle: "claim_step c (note_claim g (snd (retireIdleConn s (Some g) (clH c))) c)"
| tracked: "claim_step c (note_claim g (trackedConn_Close g x (clH c)) c)"
| other: "hGens h' = hGens (clH c) \<Longrightarrow> hNextGen h' = hNextGen (clH c) \<Longrightarrow>
     (\<And>s. tsGen (hSlots h' s) = tsGen (hSlots (clH c) s)) \<Longrightarrow> claim_step c (c\<lparr>clH := h'\<rparr>)"

inductive_cases claim_stepE: "claim_step c c'"

definition claim_init :: "claims \<Rightarrow> bool" where
  "claim_init c \<longleftrightarrow> h2_ok (clH c) \<and> (\<forall>g. gtConn (hGens (clH c) g) = None) \<and> clTaken c = []"

definition claim_inv :: "claims \<Rightarrow> bool" where
  "claim_inv c \<longleftrightarrow> h2_ok (clH c) \<and> distinct (clTaken c) \<and>
     (\<forall>g x. gtConn (hGens (clH c) g) = Some x \<longrightarrow> x < clNext c \<and> x \<notin> set (clTaken c)) \<and>
     (\<forall>x \<in> set (clTaken c). x < clNext c) \<and>
     (\<forall>g g' x. gtConn (hGens (clH c) g) = Some x \<longrightarrow> gtConn (hGens (clH c) g') = Some x \<longrightarrow> g = g')"

text \<open>Taking at most the connection of one generation keeps the invariant.\<close>

lemma claim_inv_take:
  assumes inv: "claim_inv c" and ok: "h2_ok h'"
    and conns: "\<And>g'. gtConn (hGens h' g') = (if g' = g \<and> taken then None else gtConn (hGens (clH c) g'))"
  shows "claim_inv (note_claim g h' c)"
proof (cases "taken \<and> gtConn (hGens (clH c) g) \<noteq> None")
  case True
  then obtain x where x: "gtConn (hGens (clH c) g) = Some x" by auto
  have "note_claim g h' c = c\<lparr>clH := h', clTaken := x # clTaken c\<rparr>"
    using x conns [of g] True by (simp add: note_claim_def)
  moreover have "x < clNext c" "x \<notin> set (clTaken c)" using inv x by (auto simp: claim_inv_def)
  moreover have "y \<noteq> x" if "gtConn (hGens h' g') = Some y" for g' y
  proof
    assume "y = x"
    with that conns [of g'] have "gtConn (hGens (clH c) g') = Some x" "g' \<noteq> g" using True by (auto split: if_splits)
    then show False using inv x unfolding claim_inv_def by blast
  qed
  moreover have "gtConn (hGens (clH c) g') = Some y" if "gtConn (hGens h' g') = Some y" for g' y
    using that conns [of g'] by (auto split: if_splits)
  ultimately show ?thesis using inv ok unfolding claim_inv_def by (simp; metis)
next
  case False
  then have same: "gtConn (hGens h' g') = gtConn (hGens (clH c) g')" for g' using conns [of g'] by auto
  then have "note_claim g h' c = c\<lparr>clH := h'\<rparr>"
    by (auto simp: note_claim_def split: option.splits)
  then show ?thesis using inv ok same unfolding claim_inv_def by simp
qed

lemma retireConn_conns:
  assumes "h2_ok h" "retireConn s (Some g) e h = (r, h')"
  shows "h2_ok h' \<and> (\<forall>g'. gtConn (hGens h' g') = (if g' = g \<and> r \<noteq> None then None else gtConn (hGens h g')))"
  using retireConn_cases [OF assms] by (auto split: option.splits)

lemma close_conn_simps [simp]:
  "hGens (close_conn c h) = hGens h" "hSlots (close_conn c h) = hSlots h" "hNextGen (close_conn c h) = hNextGen h"
  "hClosed (close_conn c h) = c # hClosed h" "h2_ok (close_conn c h) = h2_ok h"
  "connIdentity (close_conn c h) s = connIdentity h s"
  by (simp_all add: close_conn_def h2_ok_def connIdentity_def split: option.split)

lemma retireGeneration_conns:
  assumes ok: "h2_ok h"
  shows "\<exists>taken. h2_ok (retireGeneration s (Some g) e h) \<and>
     (\<forall>g'. gtConn (hGens (retireGeneration s (Some g) e h) g') = (if g' = g \<and> taken then None else gtConn (hGens h g')))"
proof (cases "takeConn (Some g) e h")
  case (Pair t h1)
  show ?thesis
  proof (cases t)
    case None
    then have "retireGeneration s (Some g) e h = h"
      using Pair takeConn_None [of "Some g" e h h1] by (simp add: retireGeneration_def)
    then show ?thesis using ok by (intro exI [of _ False]) simp
  next
    case (Some c)
    note t = takeConn_Some [OF Pair [unfolded Some]]
    then have g: "g < hNextGen h" using h2_okD(2) [OF ok, of g] by (cases "g < hNextGen h") auto
    show ?thesis
      by (rule exI [of _ True])
        (use Pair Some t ok g in \<open>auto simp: retireGeneration_def advanceGeneration_def Let_def h2_ok_def intro: less_SucI\<close>)
  qed
qed

lemma claim_inv_step: "claim_inv c \<Longrightarrow> claim_step c c' \<Longrightarrow> claim_inv c'"
proof (erule claim_stepE)
  fix g lt draw now
  assume inv: "claim_inv c" and g: "g < hNextGen (clH c)"
    and c': "c' = c\<lparr>clH := dial_register lt draw now g (clNext c) (clH c), clNext := Suc (clNext c)\<rparr>"
  let ?h = "dial_register lt draw now g (clNext c) (clH c)"
  have conns: "gtConn (hGens ?h g') = (if g' = g then Some (clNext c) else gtConn (hGens (clH c) g'))" for g'
    by (simp add: dial_register_def Let_def h2_stats_def)
  have "h2_ok ?h"
    using inv g by (auto simp: claim_inv_def h2_ok_def dial_register_def Let_def h2_stats_def resetConn_def)
  moreover have "x < clNext c" if "gtConn (hGens (clH c) g') = Some x" for g' x
    using inv that by (auto simp: claim_inv_def)
  ultimately show "claim_inv c'"
    using inv unfolding c' claim_inv_def by (auto simp: conns less_Suc_eq split: if_splits)
next
  fix g s e
  assume inv: "claim_inv c" and c': "c' = note_claim g (snd (invalidateConnIf s (Some g) e (clH c))) c"
  obtain r h' where r: "retireConn s (Some g) e (clH c) = (r, h')" by fastforce
  have ok: "h2_ok (clH c)" using inv by (simp add: claim_inv_def)
  note rc = retireConn_conns [OF ok r]
  have "snd (invalidateConnIf s (Some g) e (clH c)) =
      (if e = None then clH c else case r of None \<Rightarrow> h' | Some x \<Rightarrow> close_conn x h')"
    using r by (auto simp: invalidateConnIf_def split: option.splits)
  then show "claim_inv c'"
    unfolding c' using rc ok
    by (intro claim_inv_take [OF inv, of _ _ "e \<noteq> None \<and> r \<noteq> None"]) (auto split: option.splits)
next
  fix g s
  assume inv: "claim_inv c" and c': "c' = note_claim g (snd (retireIdleConn s (Some g) (clH c))) c"
  obtain r h' where r: "retireConn s (Some g) None (clH c) = (r, h')" by fastforce
  have ok: "h2_ok (clH c)" using inv by (simp add: claim_inv_def)
  note rc = retireConn_conns [OF ok r]
  have "snd (retireIdleConn s (Some g) (clH c)) = h'"
    using r by (auto simp: retireIdleConn_def split: option.splits)
  then show "claim_inv c'" unfolding c' using rc by (intro claim_inv_take [OF inv, of _ _ "r \<noteq> None"]) auto
next
  fix g x
  assume inv: "claim_inv c" and c': "c' = note_claim g (trackedConn_Close g x (clH c)) c"
  have ok: "h2_ok (clH c)" using inv by (simp add: claim_inv_def)
  obtain taken where "h2_ok (trackedConn_Close g x (clH c))"
    "\<And>g'. gtConn (hGens (trackedConn_Close g x (clH c)) g') = (if g' = g \<and> taken then None else gtConn (hGens (clH c) g'))"
    using retireGeneration_conns [OF ok, of "gtSlot (hGens (clH c) g)" g "Some x"]
    by (auto simp: trackedConn_Close_def Let_def)
  then show "claim_inv c'" unfolding c' by (rule claim_inv_take [OF inv])
next
  fix h' assume "claim_inv c" "c' = c\<lparr>clH := h'\<rparr>" "hGens h' = hGens (clH c)" "hNextGen h' = hNextGen (clH c)"
    "\<And>s. tsGen (hSlots h' s) = tsGen (hSlots (clH c) s)"
  then show "claim_inv c'" by (simp add: claim_inv_def h2_ok_def)
qed

interpretation claims: step_invariant claim_init claim_step claim_inv
  by unfold_locales (simp add: claim_init_def claim_inv_def, fact claim_inv_step)

section \<open>Properties\<close>


definition empty_h2 :: h2 where
  "empty_h2 = \<lparr>hSlots = (\<lambda>_. hSlots (newSlot 0 \<lparr>hSlots = (\<lambda>_. undefined), hGens = (\<lambda>_. \<lparr>gtSlot = 0, gtConn = None\<rparr>),
       hNextGen = 0, hClosed = [], hIdleClosed = [], hStats = init_stats\<rparr>) 0),
     hGens = (\<lambda>_. \<lparr>gtSlot = 0, gtConn = None\<rparr>), hNextGen = 1, hClosed = [], hIdleClosed = [], hStats = init_stats\<rparr>"

lemma empty_h2_ok: "h2_ok empty_h2"
  by (simp add: h2_ok_def empty_h2_def newSlot_def Let_def)


text \<open>
  Declaring a connection dead is precise: it succeeds only while the generation still holds
  exactly that connection, closes that connection and no other, and leaves every other slot alone;
  if the generation is the slot's current one, the slot gets a fresh empty generation, so that the
  next stream has to dial, and its rotation state is cleared. Otherwise nothing changes.
\<close>

theorem invalidate_precise:
  assumes "h2_ok h"
  shows "case invalidateConnIf s (Some g) e h of
     (False, h') \<Rightarrow> h' = h
   | (True, h') \<Rightarrow> (\<exists>c. e = Some c \<and> gtConn (hGens h g) = Some c \<and> hClosed h' = c # hClosed h \<and>
       gtConn (hGens h' g) = None \<and> (s' = s \<or> hSlots h' s' = hSlots h s') \<and>
       (if tsGen (hSlots h s) = Some g \<and> tsHasFactory (hSlots h s)
        then connIdentity h' s = None \<and> tsGen (hSlots h' s) = Some (hNextGen h) \<and>
          \<not> tsExpiring (hSlots h' s) \<and> \<not> tsDegraded (hSlots h' s) \<and> tsActive (hSlots h' s) = tsActive (hSlots h s)
        else tsActive (hSlots h' s) = tsActive (hSlots h s)) \<and>
       fst (invalidateConnIf s (Some g) e h') = False)"
proof (cases e)
  case None
  then show ?thesis by (simp add: invalidateConnIf_def)
next
  case (Some c)
  obtain r h' where r: "retireConn s (Some g) e h = (r, h')" by fastforce
  note rc = retireConn_cases [OF assms r]
  show ?thesis
  proof (cases r)
    case None
    then show ?thesis using rc r Some by (simp add: invalidateConnIf_def)
  next
    case taken: (Some x)
    have f: "gtConn (hGens h g) = Some c" "x = c" "hClosed h' = hClosed h" "gtConn (hGens h' g) = None"
        "s' = s \<or> hSlots h' s' = hSlots h s'" "tsActive (hSlots h' s) = tsActive (hSlots h s)"
      using rc Some by (auto simp: taken split: if_splits)
    have "connIdentity h' s = None \<and> tsGen (hSlots h' s) = Some (hNextGen h) \<and>
          \<not> tsExpiring (hSlots h' s) \<and> \<not> tsDegraded (hSlots h' s)"
      if "tsGen (hSlots h s) = Some g" "tsHasFactory (hSlots h s)"
      using rc that h2_okD(2) [OF assms, of "hNextGen h"] by (simp add: taken connIdentity_def)
    moreover have "takeConn (Some g) (Some c) (close_conn c h') = (None, close_conn c h')"
      using f(4) by (simp add: takeConn_def)
    then have "invalidateConnIf s (Some g) e (close_conn c h') = (False, close_conn c h')"
      by (simp add: invalidateConnIf_def retireConn_def Some)
    ultimately show ?thesis using r f Some taken by (simp add: invalidateConnIf_def)
  qed
qed

theorem invalidate_precise_witness:
  "\<exists>h'. invalidateConnIf 0 (Some 0) (Some 5) (dial_register 9 0 0 0 5 empty_h2) = (True, h') \<and> connIdentity h' 0 = None"
proof -
  let ?h = "dial_register 9 0 0 0 5 empty_h2"
  have ok: "h2_ok ?h"
    by (simp add: h2_ok_def dial_register_def empty_h2_def newSlot_def Let_def resetConn_def)
  have c: "gtConn (hGens ?h 0) = Some 5" "tsGen (hSlots ?h 0) = Some 0" "tsHasFactory (hSlots ?h 0)"
    by (simp_all add: dial_register_def empty_h2_def newSlot_def Let_def resetConn_def)
  then have "fst (invalidateConnIf 0 (Some 0) (Some 5) ?h) = True"
    by (simp add: invalidateConnIf_def retireConn_def takeConn_def split: prod.split option.split bool.split)
  then show ?thesis
    using invalidate_precise [OF ok, where s = 0 and g = 0 and e = "Some 5" and s' = 0] c
    by (cases "invalidateConnIf 0 (Some 0) (Some 5) ?h") auto
qed

text \<open>
  The lifetime drawn for a connection stays within 30 percent of the configured one.
\<close>

theorem rotation_jitter_bounds:
  assumes "0 < base" "base * 3 < 2 ^ 63"
  shows "base * 7 \<le> rotationLifetime base draw * 10 \<and> rotationLifetime base draw * 10 \<le> base * 13"
proof -
  define span where "span = base * 3 div 10"
  have eq: "int64 (base * 3) sdiv 10 = span" using assms by (simp add: span_def sdiv_nonneg)
  have sp: "0 \<le> span" "span * 10 \<le> base * 3" using assms by (simp_all add: span_def)
  have pos: "0 < 2 * span + 1" using sp(1) by simp
  define m where "m = int draw mod (2 * span + 1)"
  have "0 \<le> m" "m < 2 * span + 1"
    unfolding m_def by (rule pos_mod_sign [OF pos], rule pos_mod_bound [OF pos])
  then show ?thesis using sp assms unfolding rotationLifetime_def Let_def eq m_def [symmetric] by auto
qed

theorem rotation_jitter_bounds_witness: "rotationLifetime (360 * Second) 12345 * 10 \<le> 360 * Second * 13"
  using rotation_jitter_bounds [of "360 * Second" 12345] by simp

end
