(* ===== verification/H2Scheduler.thy ===== *)
theory H2Scheduler
  imports H2Slot
begin

text \<open>
  The tiered scheduler of the HTTP/2 transport (\<open>src/transport/http2/scheduler.go\<close>). A pool is its
  slots, as numbers into the transport's slots, and the count of live ones; the live slots are the
  first \<open>liveCount\<close>. Loads are 32-bit integers and wrap. Indexing an empty pool panics in Go; it is
  \<open>None\<close> here. The functions that record statistics return the transport with its counters.
\<close>

record slotPool =
  spSlots :: "slot_id list"
  spLive :: nat
  spMaxSlots :: nat
  spBase :: int

record slotScheduler =
  scPriority :: slotPool
  scBulk :: slotPool


text \<open>\<open>newScheduler\<close> renumbers the slots of each pool; \<open>slots\<close> are the slots it is given.\<close>

definition newScheduler :: "int \<Rightarrow> slot_id list \<Rightarrow> int \<Rightarrow> int \<Rightarrow> h2 \<Rightarrow> (slotScheduler \<times> h2) option" where
  "newScheduler maxSlots slots threshold prioritySlots h =
     (let pMax = max (min prioritySlots maxSlots) 1;
          bMax = maxSlots - pMax;
          (pMax, bMax) =
            (if bMax < 1 then (if pMax > 1 then (maxSlots - 1, 1) else (pMax, 0)) else (pMax, bMax));
          p = nat pMax; b = nat bMax;
          h' = fold (\<lambda>i. upd_slot (slots ! i) (\<lambda>x. x\<lparr>tsIdx := i\<rparr>)) [0..<p] h;
          h' = fold (\<lambda>i. upd_slot (slots ! (p + i)) (\<lambda>x. x\<lparr>tsIdx := i\<rparr>)) [0..<b] h'
      in if length slots < p + b then None
         else Some (\<lparr>scPriority = \<lparr>spSlots = take p slots, spLive = 0, spMaxSlots = p, spBase = threshold\<rparr>,
           scBulk = \<lparr>spSlots = drop p slots, spLive = 0, spMaxSlots = b, spBase = int32 (threshold * 2)\<rparr>\<rparr>, h'))"

text \<open>Which pool is meant: pools are compared by identity in the code.\<close>

datatype pool_id = Priority | Bulk

definition the_pool :: "slotScheduler \<Rightarrow> pool_id \<Rightarrow> slotPool" where
  "the_pool sc i = (case i of Priority \<Rightarrow> scPriority sc | Bulk \<Rightarrow> scBulk sc)"

definition upd_pool :: "pool_id \<Rightarrow> (slotPool \<Rightarrow> slotPool) \<Rightarrow> slotScheduler \<Rightarrow> slotScheduler" where
  "upd_pool i f sc = (case i of
     Priority \<Rightarrow> sc\<lparr>scPriority := f (scPriority sc)\<rparr> | Bulk \<Rightarrow> sc\<lparr>scBulk := f (scBulk sc)\<rparr>)"

definition poolOf :: "slotScheduler \<Rightarrow> bool \<Rightarrow> pool_id" where
  "poolOf sc highPriority = (if highPriority \<or> spMaxSlots (scBulk sc) = 0 then Priority else Bulk)"

definition otherPool :: "pool_id \<Rightarrow> pool_id" where
  "otherPool i = (case i of Priority \<Rightarrow> Bulk | Bulk \<Rightarrow> Priority)"

section \<open>Tiers and weights\<close>

datatype slotTier = tierActive | tierExpiring | tierHeavy | tierDegraded | tierRetiring

definition weightHeavy :: int where [simp]: "weightHeavy = 4"
definition weightExpiring :: int where [simp]: "weightExpiring = 8"
definition weightDegraded :: int where [simp]: "weightDegraded = 16"

definition slotTierOf :: "transportSlot \<Rightarrow> slotTier" where
  "slotTierOf s =
     (if tsDegraded s \<and> tsExpiring s then tierRetiring
      else if tsDegraded s then tierDegraded
      else if tsHeavy s > 0 then tierHeavy
      else if tsExpiring s then tierExpiring
      else tierActive)"

definition negativeScore :: "transportSlot \<Rightarrow> int" where
  "negativeScore s =
     (let score = 0;
          score = (if tsDegraded s then score + weightDegraded else score);
          score = (if tsHeavy s > 0 then score + weightHeavy else score);
          score = (if tsExpiring s then score + weightExpiring else score)
      in score)"

definition slotWeight :: "transportSlot \<Rightarrow> int" where
  "slotWeight s =
     (let w = 1;
          w = (if tsHeavy s > 0 then w * weightHeavy else w);
          w = (if tsExpiring s then w * weightExpiring else w);
          w = (if tsDegraded s then w * weightDegraded else w)
      in w)"

definition weightedActive :: "transportSlot \<Rightarrow> int" where
  "weightedActive s =
     (let n = tsActive s;
          n = (if n = 0 \<and> (tsExpiring s \<or> tsDegraded s) then 1 else n)
      in int32 (n * slotWeight s))"

definition draining :: "transportSlot \<Rightarrow> bool" where
  "draining s = (tsActive s = 0 \<and> (tsExpiring s \<or> tsDegraded s))"

section \<open>Pressure\<close>

function floorLog2 :: "int \<Rightarrow> int" where
  "floorLog2 v = (if v > 1 then floorLog2 (v div 2) + 1 else 0)"
  by pat_completeness auto
termination by (relation "measure nat") auto

declare floorLog2.simps [simp del]

definition tierCap :: "slotTier \<Rightarrow> int \<Rightarrow> int \<Rightarrow> int" where
  "tierCap tier level base =
     (if level = 0 then (if tier = tierActive then base else 0)
      else if tier = tierActive then 0
      else if tier = tierRetiring then 0
      else int32 (base * 2 ^ nat (level - 1)))"

text \<open>The loops over the live slots, on the list of these slots.\<close>

definition minActiveInTier :: "transportSlot list \<Rightarrow> slotTier \<Rightarrow> int \<times> bool" where
  "minActiveInTier sls tier =
     fold (\<lambda>sl (mn, found).
        if slotTierOf sl \<noteq> tier then (mn, found)
        else (if tsActive sl < mn then tsActive sl else mn, True)) sls (MaxInt32, False)"

definition minActiveInRange :: "transportSlot list \<Rightarrow> int" where
  "minActiveInRange sls =
     (let mn = fold (\<lambda>sl mn. if tsActive sl < mn then tsActive sl else mn) sls MaxInt32
      in if mn = MaxInt32 then 0 else mn)"

definition pressureLevel :: "int \<Rightarrow> transportSlot list \<Rightarrow> int option" where
  "pressureLevel base sls =
     (case minActiveInTier sls tierActive of
        (activeMin, hasActive) \<Rightarrow>
          (if hasActive \<and> activeMin < base then Some 0
           else if base = 0 then None
           else if hasActive then Some (1 + floorLog2 (activeMin sdiv base))
           else Some (1 + floorLog2 (max (minActiveInRange sls) base sdiv base))))"

section \<open>Selection\<close>

text \<open>The closure \<open>consider\<close>: the best slot of a tier below the tier's capacity.\<close>

definition consider_tier :: "(slot_id \<Rightarrow> transportSlot) \<Rightarrow> slot_id list \<Rightarrow> int \<Rightarrow> int \<Rightarrow> slotTier \<Rightarrow> slot_id option" where
  "consider_tier sl ids level base tier =
     (let cap = tierCap tier level base
      in if cap \<le> 0 then None
         else fst (fold (\<lambda>i (best, bestActive, bestNeg).
                let s = sl i
                in if slotTierOf s \<noteq> tier \<or> draining s then (best, bestActive, bestNeg)
                   else if weightedActive s \<ge> cap then (best, bestActive, bestNeg)
                   else
                     let a = tsActive s; neg = negativeScore s
                     in if a < bestActive \<or> (a = bestActive \<and> neg < bestNeg)
                        then (Some i, a, neg) else (best, bestActive, bestNeg))
              ids (None, MaxInt32, MaxInt32)))"

text \<open>
  One iteration of \<open>leastActive\<close>; the state is the best slot and the last resort with their loads and
  scores, and the counters. \<open>draining(lastResort)\<close> on a nil last resort panics: \<open>None\<close>.
\<close>

type_synonym least_state =
  "slot_id option \<times> int \<times> int \<times> slot_id option \<times> int \<times> int \<times> stats"

definition least_step ::
  "(slot_id \<Rightarrow> transportSlot) \<Rightarrow> bool \<Rightarrow> slot_id \<Rightarrow> least_state option \<Rightarrow> least_state option" where
  "least_step sl recordStats i st =
     (case st of
        None \<Rightarrow> None
      | Some (best, minWeighted, minNeg, lastResort, resWeighted, resNeg, g) \<Rightarrow>
          (let s = sl i; w = weightedActive s; neg = negativeScore s; tier = slotTierOf s
           in if tier = tierRetiring \<or> draining s then
                (let g = (if recordStats \<and> tier = tierRetiring then RecordTierRetiringSkipped g else g);
                     better =
                       (if w < resWeighted then Some True
                        else if w = resWeighted then
                          (if neg < resNeg then Some True
                           else if neg = resNeg \<and> \<not> draining s then
                             (case lastResort of None \<Rightarrow> None | Some r \<Rightarrow> Some (draining (sl r)))
                           else Some False)
                        else Some False)
                 in case better of
                      None \<Rightarrow> None
                    | Some True \<Rightarrow> Some (best, minWeighted, minNeg, Some i, w, neg, g)
                    | Some False \<Rightarrow> Some (best, minWeighted, minNeg, lastResort, resWeighted, resNeg, g))
              else if w > minWeighted \<or> (w = minWeighted \<and> neg \<ge> minNeg)
              then Some (best, minWeighted, minNeg, lastResort, resWeighted, resNeg, g)
              else Some (Some i, w, neg, lastResort, resWeighted, resNeg, g)))"

definition leastActive ::
  "(slot_id \<Rightarrow> transportSlot) \<Rightarrow> slotPool \<Rightarrow> nat \<Rightarrow> bool \<Rightarrow> stats \<Rightarrow> (slot_id \<times> stats) option" where
  "leastActive sl p live recordStats g =
     (if live = 0 then (case spSlots p of [] \<Rightarrow> None | s # _ \<Rightarrow> Some (s, g))
      else if length (spSlots p) < live then None
      else case fold (least_step sl recordStats) (take live (spSlots p))
        (Some (None, MaxInt32, MaxInt32, None, MaxInt32, MaxInt32, g)) of
        None \<Rightarrow> None
      | Some (best, _, _, lastResort, _, _, g) \<Rightarrow>
          (case best of
             Some b \<Rightarrow> Some (b, g)
           | None \<Rightarrow> (case lastResort of Some r \<Rightarrow> Some (r, g) | None \<Rightarrow> None)))"

text \<open>\<open>tieredSelectAt\<close>; the second half, from the search of the expiring tier on, is on its own.\<close>

definition select_negative ::
  "(slot_id \<Rightarrow> transportSlot) \<Rightarrow> slotPool \<Rightarrow> nat \<Rightarrow> int \<Rightarrow> bool \<Rightarrow> stats \<Rightarrow> (slot_id \<times> bool \<times> stats) option" where
  "select_negative sl p live level recordStats g =
     (let ids = take live (spSlots p)
      in case consider_tier sl ids level (spBase p) tierExpiring of
           Some b \<Rightarrow> Some (b, False, if recordStats then RecordTierExpiring g else g)
         | None \<Rightarrow>
             (case consider_tier sl ids level (spBase p) tierHeavy of
                Some b \<Rightarrow> Some (b, False, if recordStats then RecordTierHeavy g else g)
              | None \<Rightarrow>
                  (case consider_tier sl ids level (spBase p) tierDegraded of
                     Some b \<Rightarrow> Some (b, False, if recordStats then RecordTierDegraded g else g)
                   | None \<Rightarrow>
                       (case leastActive sl p live recordStats g of
                          None \<Rightarrow> None
                        | Some (b, g) \<Rightarrow> Some (b, True, g)))))"

definition tieredSelectAt ::
  "(slot_id \<Rightarrow> transportSlot) \<Rightarrow> slotPool \<Rightarrow> nat \<Rightarrow> bool \<Rightarrow> stats \<Rightarrow> (slot_id \<times> bool \<times> stats) option" where
  "tieredSelectAt sl p live recordStats g =
     (if live = 0 then (case spSlots p of [] \<Rightarrow> None | s # _ \<Rightarrow> Some (s, False, g))
      else if length (spSlots p) < live then None
      else
        (let ids = take live (spSlots p)
         in case pressureLevel (spBase p) (map sl ids) of
              None \<Rightarrow> None
            | Some level \<Rightarrow>
                (if level = 0 then
                   (case consider_tier sl ids level (spBase p) tierActive of
                      Some b \<Rightarrow> Some (b, False, g)
                    | None \<Rightarrow> select_negative sl p live 1 recordStats g)
                 else select_negative sl p live level recordStats g)))"

definition tieredSelect ::
  "(slot_id \<Rightarrow> transportSlot) \<Rightarrow> slotPool \<Rightarrow> stats \<Rightarrow> (slot_id \<times> bool \<times> stats) option" where
  "tieredSelect sl p g = tieredSelectAt sl p (spLive p) True g"

definition saturatedIn :: "(slot_id \<Rightarrow> transportSlot) \<Rightarrow> slotPool \<Rightarrow> nat \<Rightarrow> bool option" where
  "saturatedIn sl p live = map_option (\<lambda>(_, sat, _). sat) (tieredSelectAt sl p live False init_stats)"

definition pick :: "slotScheduler \<Rightarrow> bool \<Rightarrow> h2 \<Rightarrow> (slot_id \<times> h2) option" where
  "pick sc highPriority h =
     (let pool = poolOf sc highPriority; sl = hSlots h
      in case tieredSelect sl (the_pool sc pool) (hStats h) of
           None \<Rightarrow> None
         | Some (slot, saturated, g) \<Rightarrow>
             (if saturated then
                (let g = (if highPriority then RecordPriorityFallback g else RecordBulkFallback g);
                     other = the_pool sc (otherPool pool)
                 in if spMaxSlots other > 0 then
                      (case tieredSelect sl other g of
                         None \<Rightarrow> None
                       | Some (otherSlot, otherSat, g) \<Rightarrow>
                           (if \<not> otherSat \<or> weightedActive (sl otherSlot) < weightedActive (sl slot)
                            then Some (otherSlot, h\<lparr>hStats := g\<rparr>) else Some (slot, h\<lparr>hStats := g\<rparr>)))
                    else Some (slot, h\<lparr>hStats := g\<rparr>))
              else Some (slot, h\<lparr>hStats := g\<rparr>)))"

section \<open>Growing and shrinking\<close>

definition growTarget :: "(slot_id \<Rightarrow> transportSlot) \<Rightarrow> slotScheduler \<Rightarrow> pool_id \<Rightarrow> (pool_id \<times> nat) option option" where
  "growTarget sl sc pool =
     (let p = the_pool sc pool; live = spLive p;
          other = the_pool sc (otherPool pool); olive = spLive other;
          sibling =
            (if olive < spMaxSlots other then
               (if olive = 0 then Some (Some (otherPool pool, olive))
                else map_option (\<lambda>sat. if sat then Some (otherPool pool, olive) else None)
                       (saturatedIn sl other olive))
             else Some None)
      in if live < spMaxSlots p then
           (if live = 0 then Some (Some (pool, live))
            else map_option (\<lambda>sat. if sat then Some (pool, live) else None) (saturatedIn sl p live))
         else if live > 0 then
           (case saturatedIn sl p live of
              None \<Rightarrow> None
            | Some sat \<Rightarrow> (if \<not> sat then Some None else sibling))
         else sibling)"

text \<open>
  \<open>grow\<close>: the pool that grew and its count of live slots, or nothing. \<open>None\<close> is a panic. The first
  evaluation of \<open>growTarget\<close>, before the lock, only saves taking it.
\<close>

definition grow ::
  "slotScheduler \<Rightarrow> bool \<Rightarrow> h2 \<Rightarrow> ((pool_id \<times> nat) option \<times> slotScheduler \<times> h2) option" where
  "grow sc highPriority h =
     (case growTarget (hSlots h) sc (poolOf sc highPriority) of
        None \<Rightarrow> None
      | Some None \<Rightarrow> Some (None, sc, h)
      | Some (Some (target, live)) \<Rightarrow>
          (let p = the_pool sc target
           in if live = 0 \<and> spMaxSlots p \<ge> 2 then
                (if length (spSlots p) < 2 then None
                 else
                   Some (Some (target, 2), upd_pool target (\<lambda>p. p\<lparr>spLive := spLive p + 2\<rparr>) sc,
                     upd_slot (spSlots p ! (live + 1)) resetRotation
                       (upd_slot (spSlots p ! live) resetRotation h)))
              else if length (spSlots p) \<le> live then None
              else Some (Some (target, live + 1), upd_pool target (\<lambda>p. p\<lparr>spLive := spLive p + 1\<rparr>) sc,
                     upd_slot (spSlots p ! live) resetRotation h)))"

definition removeAtLocked :: "nat \<Rightarrow> nat \<Rightarrow> slotPool \<Rightarrow> slotPool" where
  "removeAtLocked i live p =
     (let lst = live - 1; xs = spSlots p;
          xs' = (if i \<noteq> lst then xs[i := xs ! lst, lst := xs ! i] else xs)
      in p\<lparr>spSlots := xs', spLive := spLive p - 1\<rparr>)"

definition removeIdleLocked :: "(slot_id \<Rightarrow> transportSlot) \<Rightarrow> slotPool \<Rightarrow> slotPool option" where
  "removeIdleLocked sl p =
     map_option (\<lambda>i. removeAtLocked i (spLive p) p)
       (find (\<lambda>i. tsActive (sl (spSlots p ! i)) = 0) [0..<spLive p])"

function shrink_pool :: "(slot_id \<Rightarrow> transportSlot) \<Rightarrow> slotPool \<Rightarrow> slotPool" where
  "shrink_pool sl p = (case removeIdleLocked sl p of None \<Rightarrow> p | Some p' \<Rightarrow> shrink_pool sl p')"
  by pat_completeness auto
termination
proof (relation "measure (\<lambda>(sl, p). spLive p)")
  fix sl p p'
  assume "removeIdleLocked sl p = Some p'"
  then show "((sl, p'), sl, p) \<in> measure (\<lambda>(sl, p). spLive p)"
    by (auto simp: removeIdleLocked_def removeAtLocked_def Let_def find_Some_iff)
qed simp

declare shrink_pool.simps [simp del]

definition shrinkIdleLocked :: "(slot_id \<Rightarrow> transportSlot) \<Rightarrow> slotScheduler \<Rightarrow> slotScheduler" where
  "shrinkIdleLocked sl sc =
     \<lparr>scPriority = shrink_pool sl (scPriority sc), scBulk = shrink_pool sl (scBulk sc)\<rparr>"

definition find_live :: "slot_id \<Rightarrow> slotPool \<Rightarrow> nat option" where
  "find_live s p = find (\<lambda>i. spSlots p ! i = s) [0..<spLive p]"

definition sched_remove :: "slot_id \<Rightarrow> (slot_id \<Rightarrow> transportSlot) \<Rightarrow> slotScheduler \<Rightarrow> bool \<times> slotScheduler" where
  "sched_remove s sl sc =
     (if tsActive (sl s) \<noteq> 0 then (False, sc)
      else case find_live s (scPriority sc) of
             Some i \<Rightarrow> (True, upd_pool Priority (\<lambda>p. removeAtLocked i (spLive p) p) sc)
           | None \<Rightarrow>
               (case find_live s (scBulk sc) of
                  Some i \<Rightarrow> (True, upd_pool Bulk (\<lambda>p. removeAtLocked i (spLive p) p) sc)
                | None \<Rightarrow> (False, sc)))"

end
