(* ===== verification/H2Scheduling.thy ===== *)
theory H2Scheduling
  imports H2Claims H2Scheduler "HOL-Library.Multiset"
begin

text \<open>
  The tiered scheduler is correct: selection is total and prefers healthy, lightly loaded connections,
  and growing, shrinking and removing keep the pools well formed. The two searches of the code are
  loops that keep the best candidate; their invariant is proved once (\<open>keep_best\<close>). The locale
  \<open>pool_predicate\<close> states what a predicate on pools must survive for the scheduler to keep it; it is
  interpreted for the shape of a pool and for its set of slots.
\<close>

section \<open>Loads\<close>

text \<open>A slot that is due for eviction: retiring, or idle and expiring or degraded.\<close>

definition evicting :: "transportSlot \<Rightarrow> bool" where
  "evicting s \<longleftrightarrow> slotTierOf s = tierRetiring \<or> draining s"

lemma negativeScore_bounds [size_bounds]: "0 \<le> negativeScore s \<and> negativeScore s \<le> 28"
  by (simp add: negativeScore_def)

lemma int32_le [simp]: "int32 x \<le> 2147483647"
  using int32_range [of x] by simp

lemma weightedActive_le [size_bounds]: "weightedActive s \<le> MaxInt32"
  by (simp add: weightedActive_def Let_def)

lemma tierActive_iff: "slotTierOf s = tierActive \<longleftrightarrow> \<not> tsDegraded s \<and> \<not> tsExpiring s \<and> tsHeavy s \<le> 0"
  by (auto simp: slotTierOf_def)

lemma tierActive_not_evicting: "slotTierOf s = tierActive \<Longrightarrow> \<not> evicting s"
  by (simp add: evicting_def draining_def) (simp add: tierActive_iff)

lemma weightedActive_tierActive:
  "slotTierOf s = tierActive \<Longrightarrow> 0 \<le> tsActive s \<Longrightarrow> tsActive s \<le> MaxInt32 \<Longrightarrow> weightedActive s = tsActive s"
  by (simp add: tierActive_iff weightedActive_def slotWeight_def)

section \<open>The best of a list\<close>

text \<open>
  Both searches keep the best candidate so far, by a primary and a secondary key. \<open>keep_best\<close> is that
  loop on its own; a candidate is found as soon as one has a secondary key below the initial one.
\<close>

definition keep_step ::
  "('a \<Rightarrow> bool) \<Rightarrow> ('a \<Rightarrow> int) \<Rightarrow> ('a \<Rightarrow> int) \<Rightarrow> 'a \<Rightarrow> 'a option \<times> int \<times> int \<Rightarrow> 'a option \<times> int \<times> int" where
  "keep_step ok k1 k2 i st =
     (case st of (best, b1, b2) \<Rightarrow>
        if ok i \<and> (k1 i < b1 \<or> (k1 i = b1 \<and> k2 i < b2)) then (Some i, k1 i, k2 i) else (best, b1, b2))"

definition keep_inv ::
  "('a \<Rightarrow> bool) \<Rightarrow> ('a \<Rightarrow> int) \<Rightarrow> ('a \<Rightarrow> int) \<Rightarrow> 'a list \<Rightarrow> 'a option \<times> int \<times> int \<Rightarrow> bool" where
  "keep_inv ok k1 k2 xs st =
     (case st of
        (None, b1, b2) \<Rightarrow> b1 = MaxInt32 \<and> b2 = MaxInt32 \<and> (\<forall>x \<in> set xs. \<not> ok x)
      | (Some b, b1, b2) \<Rightarrow> b \<in> set xs \<and> ok b \<and> b1 = k1 b \<and> b2 = k2 b \<and> (\<forall>x \<in> set xs. ok x \<longrightarrow> k1 b \<le> k1 x))"

lemma keep_inv_step:
  assumes "keep_inv ok k1 k2 xs st" "k1 i \<le> MaxInt32" "k2 i < MaxInt32"
  shows "keep_inv ok k1 k2 (xs @ [i]) (keep_step ok k1 k2 i st)"
  using assms by (cases st; cases "fst st") (force simp: keep_inv_def keep_step_def)+

lemma keep_inv_fold:
  assumes "keep_inv ok k1 k2 ys st" "\<And>x. x \<in> set xs \<Longrightarrow> k1 x \<le> MaxInt32" "\<And>x. k2 x < MaxInt32"
  shows "keep_inv ok k1 k2 (ys @ xs) (fold (keep_step ok k1 k2) xs st)"
  using assms
proof (induction xs arbitrary: ys st)
  case (Cons x xs)
  have "keep_inv ok k1 k2 (ys @ [x]) (keep_step ok k1 k2 x st)"
    by (rule keep_inv_step) (use Cons.prems in auto)
  from Cons.IH [OF this] Cons.prems show ?case by simp
qed simp

lemma keep_best:
  assumes "\<And>x. x \<in> set xs \<Longrightarrow> k1 x \<le> MaxInt32" "\<And>x. k2 x < MaxInt32"
  shows "keep_inv ok k1 k2 xs (fold (keep_step ok k1 k2) xs (None, MaxInt32, MaxInt32))"
  using keep_inv_fold [of ok k1 k2 "[]" "(None, MaxInt32, MaxInt32)" xs] assms by (simp add: keep_inv_def)

section \<open>The searches\<close>

definition loads_ok :: "(slot_id \<Rightarrow> transportSlot) \<Rightarrow> slot_id list \<Rightarrow> bool" where
  "loads_ok sl ids \<longleftrightarrow> (\<forall>i \<in> set ids. 0 \<le> tsActive (sl i) \<and> tsActive (sl i) \<le> MaxInt32)"

lemma consider_tier_keep:
  assumes "0 < tierCap tier level base"
  shows "consider_tier sl ids level base tier = fst (fold (keep_step
       (\<lambda>i. slotTierOf (sl i) = tier \<and> \<not> draining (sl i) \<and> weightedActive (sl i) < tierCap tier level base)
       (\<lambda>i. tsActive (sl i)) (\<lambda>i. negativeScore (sl i))) ids (None, MaxInt32, MaxInt32))"
proof -
  have "fold f ids st = fold g ids st" if "f = g" for f g and ids :: "slot_id list" and st :: "slot_id option \<times> int \<times> int"
    using that by simp
  then show ?thesis
    using assms unfolding consider_tier_def Let_def
    by (auto intro!: arg_cong [where f = fst] fold_cong simp: keep_step_def fun_eq_iff)
qed

lemma consider_tier_spec:
  assumes "loads_ok sl ids"
  shows "case consider_tier sl ids level base tier of
     Some b \<Rightarrow> b \<in> set ids \<and> slotTierOf (sl b) = tier \<and> \<not> draining (sl b) \<and>
       weightedActive (sl b) < tierCap tier level base \<and>
       (\<forall>i \<in> set ids. slotTierOf (sl i) = tier \<and> \<not> draining (sl i) \<and> weightedActive (sl i) < tierCap tier level base \<longrightarrow>
          tsActive (sl b) \<le> tsActive (sl i))
   | None \<Rightarrow> tierCap tier level base \<le> 0 \<or>
       (\<forall>i \<in> set ids. slotTierOf (sl i) = tier \<longrightarrow> draining (sl i) \<or> tierCap tier level base \<le> weightedActive (sl i))"
proof (cases "0 < tierCap tier level base")
  case True
  let ?f = "fold (keep_step
       (\<lambda>i. slotTierOf (sl i) = tier \<and> \<not> draining (sl i) \<and> weightedActive (sl i) < tierCap tier level base)
       (\<lambda>i. tsActive (sl i)) (\<lambda>i. negativeScore (sl i))) ids (None, MaxInt32, MaxInt32)"
  have n: "negativeScore x < MaxInt32" for x using negativeScore_bounds [of x] by simp
  have "keep_inv (\<lambda>i. slotTierOf (sl i) = tier \<and> \<not> draining (sl i) \<and> weightedActive (sl i) < tierCap tier level base)
       (\<lambda>i. tsActive (sl i)) (\<lambda>i. negativeScore (sl i)) ids ?f"
    by (rule keep_best) (use assms n in \<open>auto simp: loads_ok_def\<close>)
  then show ?thesis unfolding consider_tier_keep [OF True]
    by (cases ?f; cases "fst ?f") (auto simp: keep_inv_def not_less)
qed (simp add: consider_tier_def)

text \<open>The fallback never meets a nil last resort, and finds the lightest slot not due for eviction.\<close>

definition least_inv :: "(slot_id \<Rightarrow> transportSlot) \<Rightarrow> slot_id list \<Rightarrow> least_state option \<Rightarrow> bool" where
  "least_inv sl xs st =
     (case st of None \<Rightarrow> False
      | Some (best, b1, b2, res, r1, r2, g) \<Rightarrow>
          keep_inv (\<lambda>i. \<not> evicting (sl i)) (\<lambda>i. weightedActive (sl i)) (\<lambda>i. negativeScore (sl i)) xs (best, b1, b2) \<and>
          keep_inv (\<lambda>i. evicting (sl i)) (\<lambda>i. weightedActive (sl i)) (\<lambda>i. negativeScore (sl i)) xs (res, r1, r2))"

lemma keep_inv_skip: "keep_inv ok k1 k2 xs st \<Longrightarrow> \<not> ok i \<Longrightarrow> keep_inv ok k1 k2 (xs @ [i]) st"
  by (auto simp: keep_inv_def split: option.splits prod.splits)

lemma keep_inv_replace:
  "keep_inv ok k1 k2 xs (b, b1, b2) \<Longrightarrow> ok i \<Longrightarrow> k1 i \<le> b1 \<Longrightarrow> keep_inv ok k1 k2 (xs @ [i]) (Some i, k1 i, k2 i)"
  by (cases b) (auto simp: keep_inv_def)

lemma keep_inv_keep:
  "keep_inv ok k1 k2 xs (Some b, b1, b2) \<Longrightarrow> b1 \<le> k1 i \<Longrightarrow> keep_inv ok k1 k2 (xs @ [i]) (Some b, b1, b2)"
  by (auto simp: keep_inv_def)

lemma least_inv_step:
  assumes inv: "least_inv sl xs st"
  shows "least_inv sl (xs @ [i]) (least_step sl rs i st)"
proof -
  obtain best b1 b2 res r1 r2 g where st: "st = Some (best, b1, b2, res, r1, r2, g)"
    using inv by (auto simp: least_inv_def split: option.splits)
  let ?w = "\<lambda>i. weightedActive (sl i)" and ?n = "\<lambda>i. negativeScore (sl i)"
  have kb: "keep_inv (\<lambda>i. \<not> evicting (sl i)) ?w ?n xs (best, b1, b2)"
    and kr: "keep_inv (\<lambda>i. evicting (sl i)) ?w ?n xs (res, r1, r2)" using inv by (auto simp: least_inv_def st)
  have w: "?w i \<le> MaxInt32" and n: "?n i < MaxInt32" using weightedActive_le [of "sl i"] negativeScore_bounds [of "sl i"] by auto
  show ?thesis
  proof (cases "evicting (sl i)")
    case True
    then have ev: "slotTierOf (sl i) = tierRetiring \<or> draining (sl i)" by (simp add: evicting_def)
    have kb': "keep_inv (\<lambda>i. \<not> evicting (sl i)) ?w ?n (xs @ [i]) (best, b1, b2)"
      using kb True by (simp add: keep_inv_skip)
    consider (take) "?w i \<le> r1" "\<exists>g. least_step sl rs i st = Some (best, b1, b2, Some i, ?w i, ?n i, g)"
      | (skip) "r1 \<le> ?w i" "res \<noteq> None" "\<exists>g. least_step sl rs i st = Some (best, b1, b2, res, r1, r2, g)"
    proof (cases res)
      case None
      then have "r1 = MaxInt32" "r2 = MaxInt32" using kr by (auto simp: keep_inv_def)
      then show ?thesis using w n ev that(1) unfolding st least_step_def Let_def by (auto simp: None)
    next
      case (Some r)
      define bet where "bet = (?w i < r1 \<or> (?w i = r1 \<and> (?n i < r2 \<or> (?n i = r2 \<and> \<not> draining (sl i) \<and> draining (sl r)))))"
      define g' where "g' = (if rs \<and> slotTierOf (sl i) = tierRetiring then RecordTierRetiringSkipped g else g)"
      have "least_step sl rs i st =
          Some (if bet then (best, b1, b2, Some i, ?w i, ?n i, g') else (best, b1, b2, res, r1, r2, g'))"
        using ev unfolding st least_step_def Let_def Some g'_def [symmetric]
        by (simp add: bet_def g'_def split: bool.split)
      then show ?thesis using that Some by (cases bet) (auto simp: bet_def)
    qed
    then show ?thesis
    proof cases
      case take
      then show ?thesis using kb' keep_inv_replace [OF kr True] by (auto simp: least_inv_def)
    next
      case skip
      then show ?thesis using kb' keep_inv_keep kr by (auto simp: least_inv_def)
    qed
  next
    case False
    then have nev: "\<not> (slotTierOf (sl i) = tierRetiring \<or> draining (sl i))" by (simp add: evicting_def)
    have kr': "keep_inv (\<lambda>i. evicting (sl i)) ?w ?n (xs @ [i]) (res, r1, r2)"
      using kr False by (simp add: keep_inv_skip)
    have "keep_inv (\<lambda>i. \<not> evicting (sl i)) ?w ?n (xs @ [i]) (keep_step (\<lambda>i. \<not> evicting (sl i)) ?w ?n i (best, b1, b2))"
      by (rule keep_inv_step [OF kb w n])
    then show ?thesis using kr' nev False
      unfolding st least_step_def least_inv_def Let_def keep_step_def by (auto split: if_splits)
  qed
qed

lemma least_inv_fold: "least_inv sl ys st \<Longrightarrow> least_inv sl (ys @ xs) (fold (least_step sl rs) xs st)"
proof (induction xs arbitrary: ys st)
  case (Cons x xs)
  from Cons.IH [OF least_inv_step [OF Cons.prems]] show ?case by simp
qed simp

lemma leastActive_spec:
  assumes "0 < live" "live \<le> length (spSlots p)"
  shows "\<exists>b g'. leastActive sl p live rs g = Some (b, g') \<and> b \<in> set (take live (spSlots p)) \<and>
     (\<forall>i \<in> set (take live (spSlots p)). \<not> evicting (sl i) \<longrightarrow>
        \<not> evicting (sl b) \<and> weightedActive (sl b) \<le> weightedActive (sl i))"
proof -
  let ?ids = "take live (spSlots p)"
  let ?f = "fold (least_step sl rs) ?ids (Some (None, MaxInt32, MaxInt32, None, MaxInt32, MaxInt32, g))"
  have "least_inv sl [] (Some (None, MaxInt32, MaxInt32, None, MaxInt32, MaxInt32, g))"
    by (simp add: least_inv_def keep_inv_def)
  from least_inv_fold [OF this, of ?ids rs] have inv: "least_inv sl ?ids ?f" by simp
  then obtain best b1 b2 res r1 r2 g' where f: "?f = Some (best, b1, b2, res, r1, r2, g')"
    by (auto simp: least_inv_def split: option.splits)
  have ne: "?ids \<noteq> []" using assms by auto
  have kb: "keep_inv (\<lambda>i. \<not> evicting (sl i)) (\<lambda>i. weightedActive (sl i)) (\<lambda>i. negativeScore (sl i)) ?ids (best, b1, b2)"
    and kr: "keep_inv (\<lambda>i. evicting (sl i)) (\<lambda>i. weightedActive (sl i)) (\<lambda>i. negativeScore (sl i)) ?ids (res, r1, r2)"
    using inv [unfolded f] by (simp_all add: least_inv_def)
  have l: "leastActive sl p live rs g = (case best of Some b \<Rightarrow> Some (b, g') | None \<Rightarrow> (case res of Some r \<Rightarrow> Some (r, g') | None \<Rightarrow> None))"
    using assms by (simp only: leastActive_def f) (simp split: option.split)
  show ?thesis
  proof (cases best)
    case None
    then have "\<forall>x \<in> set ?ids. evicting (sl x)" using kb by (auto simp: keep_inv_def)
    moreover have "res \<noteq> None"
    proof
      assume "res = None"
      then have "\<forall>x \<in> set ?ids. \<not> evicting (sl x)" using kr by (simp add: keep_inv_def)
      then show False using calculation ne by (metis list.set_sel(1))
    qed
    ultimately show ?thesis using l None kr by (auto simp: keep_inv_def)
  next
    case (Some b)
    then show ?thesis using l kb by (auto simp: keep_inv_def)
  qed
qed


section \<open>Tiered selection\<close>

lemma minActiveInTier_fold:
  "fst (fold (\<lambda>sl (mn, found). if slotTierOf sl \<noteq> tier then (mn, found)
        else (if tsActive sl < mn then tsActive sl else mn, True)) sls (m, fd)) < b \<longleftrightarrow>
     m < b \<or> (\<exists>s \<in> set sls. slotTierOf s = tier \<and> tsActive s < b)"
  "snd (fold (\<lambda>sl (mn, found). if slotTierOf sl \<noteq> tier then (mn, found)
        else (if tsActive sl < mn then tsActive sl else mn, True)) sls (m, fd)) \<longleftrightarrow>
     fd \<or> (\<exists>s \<in> set sls. slotTierOf s = tier)"
  by (induction sls arbitrary: m fd) (auto split: if_splits)

lemma minActiveInTier_spec:
  assumes "minActiveInTier sls tier = (mn, found)" "b \<le> MaxInt32"
  shows "mn < b \<longleftrightarrow> (\<exists>s \<in> set sls. slotTierOf s = tier \<and> tsActive s < b)"
    and "found \<longleftrightarrow> (\<exists>s \<in> set sls. slotTierOf s = tier)"
  using minActiveInTier_fold [of tier sls MaxInt32 False] assms by (auto simp: minActiveInTier_def)

lemma floorLog2_nonneg [simp]: "0 \<le> floorLog2 v"
  by (induction v rule: floorLog2.induct) (subst floorLog2.simps, simp)

lemma pressureLevel_spec:
  assumes "0 < base" "base \<le> MaxInt32"
  shows "\<exists>level \<ge> 0. pressureLevel base sls = Some level \<and>
     (level = 0 \<longleftrightarrow> (\<exists>s \<in> set sls. slotTierOf s = tierActive \<and> tsActive s < base))"
proof -
  obtain mn found where m: "minActiveInTier sls tierActive = (mn, found)" by fastforce
  have p: "1 + floorLog2 v \<noteq> 0" "0 \<le> 1 + floorLog2 v" for v using floorLog2_nonneg [of v] by linarith+
  show ?thesis
    using minActiveInTier_spec [OF m assms(2)] assms(1) p by (simp add: pressureLevel_def m)
qed

definition pool_ok :: "slotPool \<Rightarrow> bool" where
  "pool_ok p \<longleftrightarrow> spLive p \<le> spMaxSlots p \<and> length (spSlots p) = spMaxSlots p \<and> distinct (spSlots p) \<and>
     0 < spBase p \<and> spBase p \<le> MaxInt32"

definition live_slots :: "slotPool \<Rightarrow> slot_id set" where
  "live_slots p = set (take (spLive p) (spSlots p))"

definition lightest :: "(slot_id \<Rightarrow> transportSlot) \<Rightarrow> slot_id list \<Rightarrow> slot_id \<Rightarrow> bool" where
  "lightest sl ids b \<longleftrightarrow> (\<forall>i \<in> set ids. \<not> evicting (sl i) \<longrightarrow> \<not> evicting (sl b) \<and> weightedActive (sl b) \<le> weightedActive (sl i))"

lemma select_negative_spec:
  assumes "0 < live" "live \<le> length (spSlots p)" "loads_ok sl (take live (spSlots p))"
  shows "\<exists>b sat g'. select_negative sl p live level rs g = Some (b, sat, g') \<and> b \<in> set (take live (spSlots p)) \<and>
     (if sat then lightest sl (take live (spSlots p)) b else \<not> evicting (sl b))"
proof -
  let ?ids = "take live (spSlots p)" and ?c = "\<lambda>tier. consider_tier sl (take live (spSlots p)) level (spBase p) tier"
  have c: "b \<in> set ?ids \<and> \<not> evicting (sl b)" if "?c tier = Some b" "tier \<noteq> tierRetiring" for tier b
    using consider_tier_spec [OF assms(3), where level = level and base = "spBase p" and tier = tier] that by (auto simp: evicting_def)
  obtain b g' where l: "leastActive sl p live rs g = Some (b, g')" "b \<in> set ?ids" "lightest sl ?ids b"
    using leastActive_spec [OF assms(1,2), of sl rs g] unfolding lightest_def by blast
  have "(\<exists>tier b g'. ?c tier = Some b \<and> tier \<noteq> tierRetiring \<and> select_negative sl p live level rs g = Some (b, False, g')) \<or>
     select_negative sl p live level rs g = Some (b, True, g')"
    by (cases "?c tierExpiring"; cases "?c tierHeavy"; cases "?c tierDegraded")
      (simp_all add: select_negative_def l(1); blast)+
  then show ?thesis
  proof (elim disjE exE conjE)
    fix tier b' g''
    assume "?c tier = Some b'" "tier \<noteq> tierRetiring" "select_negative sl p live level rs g = Some (b', False, g'')"
    then show ?thesis using c [of tier b'] by auto
  qed (use l in auto)
qed

lemma tieredSelectAt_spec:
  assumes "0 < live" "live \<le> length (spSlots p)" "loads_ok sl (take live (spSlots p))" "0 < spBase p" "spBase p \<le> MaxInt32"
  shows "\<exists>b sat g'. tieredSelectAt sl p live rs g = Some (b, sat, g') \<and> b \<in> set (take live (spSlots p)) \<and>
     (if sat then lightest sl (take live (spSlots p)) b else \<not> evicting (sl b)) \<and>
     ((\<exists>i \<in> set (take live (spSlots p)). slotTierOf (sl i) = tierActive \<and> tsActive (sl i) < spBase p) \<longrightarrow>
        \<not> sat \<and> slotTierOf (sl b) = tierActive \<and>
        (\<forall>i \<in> set (take live (spSlots p)). slotTierOf (sl i) = tierActive \<longrightarrow> tsActive (sl b) \<le> tsActive (sl i)))"
proof -
  let ?ids = "take live (spSlots p)"
  obtain level where lv: "pressureLevel (spBase p) (map sl ?ids) = Some level"
    "level = 0 \<longleftrightarrow> (\<exists>i \<in> set ?ids. slotTierOf (sl i) = tierActive \<and> tsActive (sl i) < spBase p)"
    using pressureLevel_spec [OF assms(4,5), of "map sl ?ids"] by auto
  have sel: "tieredSelectAt sl p live rs g = (if level = 0 then
       (case consider_tier sl ?ids level (spBase p) tierActive of Some b \<Rightarrow> Some (b, False, g)
        | None \<Rightarrow> select_negative sl p live 1 rs g) else select_negative sl p live level rs g)"
    using assms lv(1) by (simp add: tieredSelectAt_def)
  show ?thesis
  proof (cases "level = 0")
    case False
    then have none: "\<not> (\<exists>i \<in> set ?ids. slotTierOf (sl i) = tierActive \<and> tsActive (sl i) < spBase p)" using lv(2) by simp
    have "tieredSelectAt sl p live rs g = select_negative sl p live level rs g" using False sel by simp
    then show ?thesis using select_negative_spec [OF assms(1-3), of level rs g] none by metis
  next
    case True
    then obtain i where i: "i \<in> set ?ids" "slotTierOf (sl i) = tierActive" "tsActive (sl i) < spBase p" using lv(2) by auto
    have cap: "tierCap tierActive 0 (spBase p) = spBase p" by (simp add: tierCap_def)
    have wt: "weightedActive (sl j) = tsActive (sl j) \<and> \<not> draining (sl j)"
      if "j \<in> set ?ids" "slotTierOf (sl j) = tierActive" for j
      using weightedActive_tierActive [OF that(2)] tierActive_not_evicting [OF that(2)] that(1) assms(3)
      by (auto simp: loads_ok_def evicting_def)
    note c = consider_tier_spec [OF assms(3), where level = 0 and base = "spBase p" and tier = tierActive, unfolded cap]
    obtain b where b: "consider_tier sl ?ids 0 (spBase p) tierActive = Some b"
      using c i wt [OF i(1,2)] assms(4) by (cases "consider_tier sl ?ids 0 (spBase p) tierActive") force+
    have bb: "b \<in> set ?ids" "slotTierOf (sl b) = tierActive" "tsActive (sl b) < spBase p"
      using c wt unfolding b by force+
    have "tsActive (sl b) \<le> tsActive (sl j)" if j: "j \<in> set ?ids" "slotTierOf (sl j) = tierActive" for j
    proof (cases "tsActive (sl j) < spBase p")
      case True
      then show ?thesis using c j wt [OF j] unfolding b by force
    next
      case False
      then show ?thesis using bb(3) by simp
    qed
    moreover have "tieredSelectAt sl p live rs g = Some (b, False, g)" using sel b True by simp
    ultimately show ?thesis using bb tierActive_not_evicting [OF bb(2)] by auto
  qed
qed


section \<open>Schedulers\<close>

definition sched_ok :: "slotScheduler \<Rightarrow> bool" where
  "sched_ok sc \<longleftrightarrow> pool_ok (scPriority sc) \<and> pool_ok (scBulk sc) \<and> 0 < spMaxSlots (scPriority sc) \<and>
     set (spSlots (scPriority sc)) \<inter> set (spSlots (scBulk sc)) = {}"

definition all_slots :: "slotScheduler \<Rightarrow> slot_id list" where
  "all_slots sc = spSlots (scPriority sc) @ spSlots (scBulk sc)"

definition live_of :: "slotScheduler \<Rightarrow> slot_id set" where
  "live_of sc = live_slots (scPriority sc) \<union> live_slots (scBulk sc)"

lemma pool_ok_the: "sched_ok sc \<Longrightarrow> pool_ok (the_pool sc i)"
  by (cases i) (simp_all add: sched_ok_def the_pool_def)

lemma poolOf_nonempty: "sched_ok sc \<Longrightarrow> 0 < spMaxSlots (the_pool sc (poolOf sc hp))"
  by (auto simp: sched_ok_def poolOf_def the_pool_def)

lemma slots_of_pool: "set (spSlots (the_pool sc i)) \<subseteq> set (all_slots sc)"
  by (cases i) (auto simp: all_slots_def the_pool_def)

lemma live_of_pool: "live_slots (the_pool sc i) \<subseteq> live_of sc"
  by (cases i) (auto simp: live_of_def the_pool_def)

lemma live_subset: "live_slots p \<subseteq> set (spSlots p)"
  by (auto simp: live_slots_def dest: in_set_takeD)

lemma loads_take: "loads_ok sl xs \<Longrightarrow> set ys \<subseteq> set xs \<Longrightarrow> loads_ok sl ys"
  by (auto simp: loads_ok_def)

lemma otherPool_simps [simp]: "otherPool Priority = Bulk" "otherPool Bulk = Priority" "otherPool (otherPool i) = i" "otherPool i \<noteq> i"
  by (simp_all add: otherPool_def split: pool_id.split)

text \<open>What a pool may hand out: a live slot, or its first one as long as it has none.\<close>

definition candidates :: "slotPool \<Rightarrow> slot_id set" where
  "candidates p = (if spLive p = 0 then {hd (spSlots p)} else live_slots p)"

lemma tieredSelect_total:
  assumes ok: "pool_ok p" "0 < spMaxSlots p" and l: "loads_ok sl (spSlots p)"
  shows "\<exists>b sat g'. tieredSelectAt sl p (spLive p) rs g = Some (b, sat, g') \<and> b \<in> candidates p \<and> (sat \<longrightarrow> 0 < spLive p)"
proof (cases "spLive p = 0")
  case True
  then show ?thesis using ok by (cases "spSlots p") (auto simp: tieredSelectAt_def candidates_def pool_ok_def)
next
  case False
  have "loads_ok sl (take (spLive p) (spSlots p))" by (rule loads_take [OF l]) (rule set_take_subset)
  then show ?thesis using tieredSelectAt_spec [of "spLive p" p sl rs g] False ok
    by (auto simp: pool_ok_def candidates_def live_slots_def)
qed

text \<open>Recording statistics does not influence which slot is selected.\<close>

lemma least_step_stats:
  "rel_option (\<lambda>(a, b, c, d, e, f, _) (a', b', c', d', e', f', _). (a, b, c, d, e, f) = (a', b', c', d', e', f')) st st' \<Longrightarrow>
   rel_option (\<lambda>(a, b, c, d, e, f, _) (a', b', c', d', e', f', _). (a, b, c, d, e, f) = (a', b', c', d', e', f'))
     (least_step sl rs i st) (least_step sl rs' i st')"
  by (cases st; cases st') (auto simp: least_step_def Let_def split: bool.split option.split)

lemma least_fold_stats:
  "rel_option (\<lambda>(a, b, c, d, e, f, _) (a', b', c', d', e', f', _). (a, b, c, d, e, f) = (a', b', c', d', e', f')) st st' \<Longrightarrow>
   rel_option (\<lambda>(a, b, c, d, e, f, _) (a', b', c', d', e', f', _). (a, b, c, d, e, f) = (a', b', c', d', e', f'))
     (fold (least_step sl rs) xs st) (fold (least_step sl rs') xs st')"
proof (induction xs arbitrary: st st')
  case (Cons x xs)
  show ?case using Cons.IH [OF least_step_stats [OF Cons.prems, of sl rs x rs']] by simp
qed simp

lemma leastActive_stats: "map_option fst (leastActive sl p live rs g) = map_option fst (leastActive sl p live rs' g')"
proof -
  define i where "i g = Some (None :: slot_id option, MaxInt32, MaxInt32, None :: slot_id option, MaxInt32, MaxInt32, g :: stats)" for g
  have "rel_option (\<lambda>(a, b, c, d, e, f, _) (a', b', c', d', e', f', _). (a, b, c, d, e, f) = (a', b', c', d', e', f')) (i g) (i g')"
    by (simp add: i_def)
  from least_fold_stats [OF this, of sl rs "take live (spSlots p)" rs'] show ?thesis
    unfolding leastActive_def i_def
    by (auto simp: option_rel_Some1 split: option.splits list.split elim!: option.rel_cases)
qed


lemma select_negative_stats:
  "map_option (\<lambda>(b, s, _). (b, s)) (select_negative sl p live level rs g) =
   map_option (\<lambda>(b, s, _). (b, s)) (select_negative sl p live level rs' g')"
proof -
  let ?c = "consider_tier sl (take live (spSlots p)) level (spBase p)"
  have "map_option (\<lambda>(b, s, _). (b, s)) (select_negative sl p live level rs g) =
     (case ?c tierExpiring of Some b \<Rightarrow> Some (b, False) | None \<Rightarrow> (case ?c tierHeavy of Some b \<Rightarrow> Some (b, False)
      | None \<Rightarrow> (case ?c tierDegraded of Some b \<Rightarrow> Some (b, False)
      | None \<Rightarrow> map_option (\<lambda>b. (b, True)) (map_option fst (leastActive sl p live rs g)))))" for rs g
    by (cases "?c tierExpiring"; cases "?c tierHeavy"; cases "?c tierDegraded"; cases "leastActive sl p live rs g")
      (auto simp: select_negative_def)
  then show ?thesis by (simp only: leastActive_stats [of sl p live rs g rs' g'])
qed

lemma tieredSelectAt_stats:
  "map_option (\<lambda>(b, s, _). (b, s)) (tieredSelectAt sl p live rs g) =
   map_option (\<lambda>(b, s, _). (b, s)) (tieredSelectAt sl p live rs' g')"
  using select_negative_stats [of sl p live 1 rs g rs' g'] select_negative_stats [of sl p live _ rs g rs' g']
  by (auto simp: tieredSelectAt_def Let_def split: option.split list.split)

text \<open>So the question \<open>saturatedIn\<close> asks is the one \<open>tieredSelect\<close> answers.\<close>

lemma saturatedIn_iff:
  assumes "tieredSelectAt sl p live rs g = Some (b, sat, g')"
  shows "saturatedIn sl p live = Some sat"
  using tieredSelectAt_stats [of sl p live rs g False init_stats] assms
  by (cases "tieredSelectAt sl p live False init_stats") (auto simp: saturatedIn_def)

lemma saturatedIn_total:
  assumes "pool_ok p" "0 < spMaxSlots p" "loads_ok sl (spSlots p)"
  obtains sat where "saturatedIn sl p (spLive p) = Some sat" "sat \<longrightarrow> 0 < spLive p"
  using tieredSelect_total [OF assms, of False init_stats] by (auto simp: saturatedIn_def)

lemma growTarget_spec:
  assumes ok: "sched_ok sc" and l: "loads_ok sl (all_slots sc)" and own: "0 < spMaxSlots (the_pool sc i)"
  shows "\<exists>r. growTarget sl sc i = Some r \<and> (case r of
     Some (t, live) \<Rightarrow> live = spLive (the_pool sc t) \<and> live < spMaxSlots (the_pool sc t) \<and>
        (0 < live \<longrightarrow> saturatedIn sl (the_pool sc t) live = Some True) \<and>
        (t = i \<or> spLive (the_pool sc i) = spMaxSlots (the_pool sc i))
   | None \<Rightarrow> 0 < spLive (the_pool sc i) \<and>
        (saturatedIn sl (the_pool sc i) (spLive (the_pool sc i)) = Some False \<or>
         0 < spLive (the_pool sc (otherPool i)) \<or> spMaxSlots (the_pool sc (otherPool i)) = 0))"
proof -
  have lp: "loads_ok sl (spSlots (the_pool sc j))" for j by (rule loads_take [OF l slots_of_pool])
  obtain sat where s: "saturatedIn sl (the_pool sc i) (spLive (the_pool sc i)) = Some sat"
    using saturatedIn_total [OF pool_ok_the [OF ok] own lp] by blast
  have le: "spLive (the_pool sc j) \<le> spMaxSlots (the_pool sc j)" for j using pool_ok_the [OF ok, of j] by (simp add: pool_ok_def)
  show ?thesis
  proof (cases "spMaxSlots (the_pool sc (otherPool i)) = 0")
    case True
    then show ?thesis using s own le [of i] by (auto simp: growTarget_def Let_def)
  next
    case False
    then have "0 < spMaxSlots (the_pool sc (otherPool i))" by simp
    then obtain sat' where "saturatedIn sl (the_pool sc (otherPool i)) (spLive (the_pool sc (otherPool i))) = Some sat'"
      using saturatedIn_total [OF pool_ok_the [OF ok] _ lp] by blast
    then show ?thesis using s own le [of i] False by (auto simp: growTarget_def Let_def)
  qed
qed

lemma upd_pool_simps [simp]:
  "the_pool (upd_pool i f sc) i = f (the_pool sc i)"
  "the_pool (upd_pool i f sc) (otherPool i) = the_pool sc (otherPool i)"
  by (cases i; simp add: upd_pool_def the_pool_def)+

lemma upd_pool_other: "j \<noteq> i \<Longrightarrow> the_pool (upd_pool i f sc) j = the_pool sc j"
  by (cases i; cases j; simp add: upd_pool_def the_pool_def)

lemma sched_ok_pools: "sched_ok sc \<longleftrightarrow> (\<forall>i. pool_ok (the_pool sc i)) \<and> 0 < spMaxSlots (the_pool sc Priority) \<and>
     set (spSlots (the_pool sc Priority)) \<inter> set (spSlots (the_pool sc Bulk)) = {}"
  unfolding sched_ok_def the_pool_def by (auto split: pool_id.splits)

text \<open>
  \<open>grow\<close> never panics. It either leaves everything as it is, or makes one more slot of a pool live
  (two if it had none), with cleared rotation state.
\<close>

lemma grow_spec:
  assumes ok: "sched_ok sc" and l: "loads_ok (hSlots h) (all_slots sc)"
  shows "\<exists>r sc' h'. grow sc hp h = Some (r, sc', h') \<and> (case r of
     None \<Rightarrow> sc' = sc \<and> h' = h \<and> growTarget (hSlots h) sc (poolOf sc hp) = Some None
   | Some (t, n) \<Rightarrow> growTarget (hSlots h) sc (poolOf sc hp) = Some (Some (t, spLive (the_pool sc t))) \<and>
       spLive (the_pool sc t) < n \<and> n \<le> spMaxSlots (the_pool sc t) \<and>
       n = spLive (the_pool sc t) + (if spLive (the_pool sc t) = 0 \<and> 2 \<le> spMaxSlots (the_pool sc t) then 2 else 1) \<and>
       sc' = upd_pool t (\<lambda>p. p\<lparr>spLive := n\<rparr>) sc \<and> hStats h' = hStats h \<and> hGens h' = hGens h \<and> hNextGen h' = hNextGen h \<and>
       (\<forall>s. hSlots h' s = (if s \<in> set (take n (spSlots (the_pool sc t))) - live_slots (the_pool sc t)
                        then resetRotation (hSlots h s) else hSlots h s)))"
proof -
  obtain r where r: "growTarget (hSlots h) sc (poolOf sc hp) = Some r"
    using growTarget_spec [OF ok l poolOf_nonempty [OF ok]] by blast
  show ?thesis
  proof (cases r)
    case None
    then show ?thesis using r by (simp add: grow_def)
  next
    case (Some tl)
    obtain t live where tl: "tl = (t, live)" by fastforce
    let ?p = "the_pool sc t"
    have t: "live = spLive ?p" "live < spMaxSlots ?p"
      using growTarget_spec [OF ok l poolOf_nonempty [OF ok], of hp] r by (auto simp: Some tl)
    have len: "length (spSlots ?p) = spMaxSlots ?p" and d: "distinct (spSlots ?p)"
      using pool_ok_the [OF ok, of t] by (auto simp: pool_ok_def)
    have sub: "?p\<lparr>spLive := spLive ?p + k\<rparr> = ?p\<lparr>spLive := live + k\<rparr>" for k using t by simp
    have tk: "take (Suc k) (spSlots ?p) = take k (spSlots ?p) @ [spSlots ?p ! k]" if "k < spMaxSlots ?p" for k
      using that len by (simp add: take_Suc_conv_app_nth)
    have notin: "spSlots ?p ! k \<notin> set (take live (spSlots ?p))" if "live \<le> k" "k < spMaxSlots ?p" for k
      using that d len by (auto simp: in_set_conv_nth nth_eq_iff_index_eq)
    show ?thesis
    proof (cases "live = 0 \<and> 2 \<le> spMaxSlots ?p")
      case True
      have two: "take 2 (spSlots ?p) = [spSlots ?p ! 0, spSlots ?p ! 1]"
        using tk [of 0] tk [of 1] True by (simp add: numeral_2_eq_2)
      have ne: "spSlots ?p ! 0 \<noteq> spSlots ?p ! 1" using d len True by (simp add: nth_eq_iff_index_eq)
      have "grow sc hp h = Some (Some (t, 2), upd_pool t (\<lambda>p. p\<lparr>spLive := 2\<rparr>) sc,
          upd_slot (spSlots ?p ! 1) resetRotation (upd_slot (spSlots ?p ! 0) resetRotation h))"
        using True r t len by (cases t) (simp_all add: grow_def Some tl Let_def upd_pool_def the_pool_def)
      then show ?thesis using True t two ne r by (auto simp: upd_slot_def live_slots_def Some tl)
    next
      case False
      have "grow sc hp h = Some (Some (t, live + 1), upd_pool t (\<lambda>p. p\<lparr>spLive := live + 1\<rparr>) sc,
          upd_slot (spSlots ?p ! live) resetRotation h)"
        using False r t len by (cases t) (auto simp add: grow_def Some tl Let_def upd_pool_def the_pool_def)
      then show ?thesis using False t tk [of live] notin [of live] r
        by (auto simp: upd_slot_def live_slots_def Some tl)
    qed
  qed
qed


lemma pick_spec:
  assumes ok: "sched_ok sc" and l: "loads_ok (hSlots h) (all_slots sc)"
  shows "\<exists>b h'. pick sc hp h = Some (b, h') \<and> hSlots h' = hSlots h \<and> hGens h' = hGens h \<and> hNextGen h' = hNextGen h \<and>
     hClosed h' = hClosed h \<and> hIdleClosed h' = hIdleClosed h \<and>
     (b \<in> candidates (the_pool sc (poolOf sc hp)) \<or>
      (b \<in> candidates (the_pool sc (otherPool (poolOf sc hp))) \<and> 0 < spMaxSlots (the_pool sc (otherPool (poolOf sc hp))) \<and>
       saturatedIn (hSlots h) (the_pool sc (poolOf sc hp)) (spLive (the_pool sc (poolOf sc hp))) = Some True))"
proof -
  let ?i = "poolOf sc hp" and ?sl = "hSlots h"
  have lp: "loads_ok ?sl (spSlots (the_pool sc j))" for j by (rule loads_take [OF l slots_of_pool])
  obtain b sat g where s: "tieredSelect ?sl (the_pool sc ?i) (hStats h) = Some (b, sat, g)" "b \<in> candidates (the_pool sc ?i)"
    using tieredSelect_total [OF pool_ok_the [OF ok] poolOf_nonempty [OF ok] lp, where rs = True] unfolding tieredSelect_def by blast
  define g' where "g' = (if hp then RecordPriorityFallback g else RecordBulkFallback g)"
  show ?thesis
  proof (cases "sat \<and> 0 < spMaxSlots (the_pool sc (otherPool ?i))")
    case False
    then show ?thesis using s by (cases sat) (auto simp: pick_def Let_def)
  next
    case True
    then obtain b2 sat2 g2 where s2: "tieredSelect ?sl (the_pool sc (otherPool ?i)) g' = Some (b2, sat2, g2)"
      "b2 \<in> candidates (the_pool sc (otherPool ?i))"
      using tieredSelect_total [OF pool_ok_the [OF ok] _ lp, where rs = True] unfolding tieredSelect_def by blast
    have sat: "saturatedIn ?sl (the_pool sc ?i) (spLive (the_pool sc ?i)) = Some True"
      using saturatedIn_iff [OF s(1) [unfolded tieredSelect_def]] True by simp
    have "pick sc hp h = Some (if \<not> sat2 \<or> weightedActive (?sl b2) < weightedActive (?sl b) then b2 else b, h\<lparr>hStats := g2\<rparr>)"
      using s s2(1) True by (simp add: pick_def Let_def g'_def [symmetric])
    then show ?thesis using s(2) s2(2) sat True by auto
  qed
qed

section \<open>Shrinking\<close>

text \<open>Swap-removal permutes the slots and takes exactly the slot at the index out of the live ones.\<close>

lemma removeAtLocked_spec:
  assumes "i < spLive p" "spLive p \<le> length (spSlots p)" "distinct (spSlots p)"
  shows "mset (spSlots (removeAtLocked i (spLive p) p)) = mset (spSlots p)"
    and "spLive (removeAtLocked i (spLive p) p) = spLive p - 1"
    and "live_slots (removeAtLocked i (spLive p) p) = live_slots p - {spSlots p ! i}"
    and "spMaxSlots (removeAtLocked i (spLive p) p) = spMaxSlots p" "spBase (removeAtLocked i (spLive p) p) = spBase p"
proof -
  let ?xs = "spSlots p" and ?l = "spLive p - 1"
  have l: "?l < length ?xs" "i \<le> ?l" using assms by auto
  show "mset (spSlots (removeAtLocked i (spLive p) p)) = mset ?xs"
    using l by (auto simp: removeAtLocked_def Let_def mset_swap)
  show "spLive (removeAtLocked i (spLive p) p) = ?l" "spMaxSlots (removeAtLocked i (spLive p) p) = spMaxSlots p"
    "spBase (removeAtLocked i (spLive p) p) = spBase p" by (simp_all add: removeAtLocked_def Let_def)
  have tk: "take (spLive p) ?xs = take ?l ?xs @ [?xs ! ?l]"
    using l assms(1) take_Suc_conv_app_nth [of ?l ?xs] by simp
  then have d: "distinct (take ?l ?xs @ [?xs ! ?l])" using assms(3) by (metis distinct_take)
  show "live_slots (removeAtLocked i (spLive p) p) = live_slots p - {?xs ! i}"
  proof (cases "i = ?l")
    case True
    then show ?thesis using tk d by (auto simp: live_slots_def removeAtLocked_def Let_def)
  next
    case False
    then have i: "i < length (take ?l ?xs)" using l by auto
    have "take ?l (?xs[i := ?xs ! ?l, ?l := ?xs ! i]) = (take ?l ?xs)[i := ?xs ! ?l]"
      by (simp add: take_update_swap list_update_beyond)
    moreover have "set ((take ?l ?xs)[i := ?xs ! ?l]) = insert (?xs ! ?l) (set (take ?l ?xs) - {take ?l ?xs ! i})"
      using d i by (simp add: set_update_distinct)
    moreover have "take ?l ?xs ! i = ?xs ! i" "?xs ! ?l \<noteq> ?xs ! i"
      using i d False assms(3) l by (auto simp: nth_eq_iff_index_eq)
    ultimately show ?thesis using tk False by (auto simp: live_slots_def removeAtLocked_def Let_def)
  qed
qed

text \<open>
  A predicate on pools that swap-removal and growing keep is kept by every operation of the scheduler.
\<close>

locale pool_predicate =
  fixes P :: "slotPool \<Rightarrow> bool"
  assumes removeAt: "P p \<Longrightarrow> i < spLive p \<Longrightarrow> P (removeAtLocked i (spLive p) p)"
    and growing: "P p \<Longrightarrow> spLive p < n \<Longrightarrow> n \<le> spMaxSlots p \<Longrightarrow> P (p\<lparr>spLive := n\<rparr>)"
begin

lemma removeIdle: "P p \<Longrightarrow> removeIdleLocked sl p = Some p' \<Longrightarrow> P p'"
  by (auto simp: removeIdleLocked_def find_Some_iff intro: removeAt)

lemma shrink_pool: "P p \<Longrightarrow> P (shrink_pool sl p)"
proof (induction sl p rule: shrink_pool.induct)
  case (1 sl p)
  then show ?case using removeIdle [of p sl] by (subst shrink_pool.simps) (auto split: option.split)
qed

lemma shrink: "P (the_pool sc i) \<Longrightarrow> P (the_pool (shrinkIdleLocked sl sc) i)"
  using shrink_pool [of _ sl] by (cases i) (simp_all add: shrinkIdleLocked_def the_pool_def)

lemma remove: "(\<And>i. P (the_pool sc i)) \<Longrightarrow> P (the_pool (snd (sched_remove s sl sc)) i)"
proof -
  assume p: "\<And>i. P (the_pool sc i)"
  have rm: "P (the_pool (upd_pool j (\<lambda>p. removeAtLocked k (spLive p) p) sc) i)" if "find_live s (the_pool sc j) = Some k" for j k
    using that p removeAt by (cases "i = j") (auto simp: find_live_def find_Some_iff upd_pool_other)
  show ?thesis
    using p rm [of Priority] rm [of Bulk]
    by (auto simp: sched_remove_def the_pool_def [of sc] split: option.split)
qed

lemma grown:
  assumes "sched_ok sc" "loads_ok (hSlots h) (all_slots sc)" "grow sc hp h = Some (r, sc', h')" "\<And>i. P (the_pool sc i)"
  shows "P (the_pool sc' i)"
proof (cases r)
  case None
  then show ?thesis using grow_spec [OF assms(1,2), of hp] assms(3,4) by auto
next
  case (Some tn)
  obtain t n where tn: "tn = (t, n)" by fastforce
  have "sc' = upd_pool t (\<lambda>p. p\<lparr>spLive := n\<rparr>) sc" "spLive (the_pool sc t) < n" "n \<le> spMaxSlots (the_pool sc t)"
    using grow_spec [OF assms(1,2), of hp] assms(3) by (auto simp: Some tn)
  then show ?thesis using growing assms(4) by (cases "i = t") (simp_all add: upd_pool_other)
qed

end

interpretation pool_shape: pool_predicate pool_ok
proof unfold_locales
  fix p i assume "pool_ok p" "i < spLive p"
  then show "pool_ok (removeAtLocked i (spLive p) p)"
    using removeAtLocked_spec(1,2,4,5) [of i p]
      mset_eq_imp_distinct_iff [OF removeAtLocked_spec(1), of i p] mset_eq_length [OF removeAtLocked_spec(1), of i p]
    by (auto simp: pool_ok_def)
qed (simp add: pool_ok_def)

interpretation pool_slots: pool_predicate "\<lambda>p. pool_ok p \<and> mset (spSlots p) = m" for m
proof unfold_locales
  fix p i assume "pool_ok p \<and> mset (spSlots p) = m" "i < spLive p"
  then show "pool_ok (removeAtLocked i (spLive p) p) \<and> mset (spSlots (removeAtLocked i (spLive p) p)) = m"
    using removeAtLocked_spec(1) [of i p] pool_shape.removeAt [of p i] by (simp add: pool_ok_def)
qed (simp add: pool_ok_def)


lemma live_nth: "pool_ok p \<Longrightarrow> s \<in> live_slots p \<longleftrightarrow> (\<exists>i < spLive p. spSlots p ! i = s)"
  by (auto simp: live_slots_def in_set_conv_nth pool_ok_def)

lemma removeIdleLocked_spec:
  assumes "pool_ok p"
  shows "case removeIdleLocked sl p of
     None \<Rightarrow> (\<forall>s \<in> live_slots p. tsActive (sl s) \<noteq> 0)
   | Some p' \<Rightarrow> (\<exists>s. tsActive (sl s) = 0 \<and> live_slots p' = live_slots p - {s})"
proof (cases "find (\<lambda>i. tsActive (sl (spSlots p ! i)) = 0) [0..<spLive p]")
  case None
  then have "removeIdleLocked sl p = None" "\<forall>i < spLive p. tsActive (sl (spSlots p ! i)) \<noteq> 0"
    by (simp add: removeIdleLocked_def) (use None in \<open>auto simp: find_None_iff\<close>)
  then show ?thesis using live_nth [OF assms] by auto
next
  case (Some i)
  then have "i < spLive p" "tsActive (sl (spSlots p ! i)) = 0" by (auto simp: find_Some_iff)
  then show ?thesis using removeAtLocked_spec(3) [of i p] assms Some by (auto simp: removeIdleLocked_def pool_ok_def)
qed

lemma shrink_pool_live: "pool_ok p \<Longrightarrow> live_slots (shrink_pool sl p) = {s \<in> live_slots p. tsActive (sl s) \<noteq> 0}"
proof (induction sl p rule: shrink_pool.induct)
  case (1 sl p)
  show ?case
  proof (cases "removeIdleLocked sl p")
    case None
    then show ?thesis using removeIdleLocked_spec [OF 1(2), of sl] by (subst shrink_pool.simps) auto
  next
    case (Some p')
    then have "live_slots (shrink_pool sl p') = {s \<in> live_slots p'. tsActive (sl s) \<noteq> 0}"
      using 1 pool_shape.removeIdle by blast
    then show ?thesis using removeIdleLocked_spec [OF 1(2), of sl] Some by (subst shrink_pool.simps) auto
  qed
qed

lemma all_slots_mset: "mset (all_slots sc) = mset (spSlots (the_pool sc Priority)) + mset (spSlots (the_pool sc Bulk))"
  by (simp add: all_slots_def the_pool_def)

text \<open>The operations keep the scheduler well formed and only permute the slots within their pools.\<close>

definition same_slots :: "slotScheduler \<Rightarrow> slotScheduler \<Rightarrow> bool" where
  "same_slots sc sc' \<longleftrightarrow> (\<forall>i. mset (spSlots (the_pool sc' i)) = mset (spSlots (the_pool sc i)) \<and>
     spMaxSlots (the_pool sc' i) = spMaxSlots (the_pool sc i))"

lemma sched_ok_same: "sched_ok sc \<Longrightarrow> same_slots sc sc' \<Longrightarrow> (\<And>i. pool_ok (the_pool sc' i)) \<Longrightarrow> sched_ok sc'"
  unfolding sched_ok_pools same_slots_def by (metis set_mset_mset)

lemma same_slotsI:
  assumes "\<And>i m. pool_ok (the_pool sc i) \<and> mset (spSlots (the_pool sc i)) = m \<Longrightarrow>
       pool_ok (the_pool sc' i) \<and> mset (spSlots (the_pool sc' i)) = m" "sched_ok sc"
  shows "same_slots sc sc' \<and> sched_ok sc'"
proof -
  have p: "pool_ok (the_pool sc' i)" "mset (spSlots (the_pool sc' i)) = mset (spSlots (the_pool sc i))" for i
    using assms(1) [of i] pool_ok_the [OF assms(2), of i] by simp_all
  then have "same_slots sc sc'"
    using pool_ok_the [OF assms(2)] by (simp add: same_slots_def pool_ok_def) (metis size_mset)
  then show ?thesis using sched_ok_same [OF assms(2)] p by blast
qed

lemma shrink_ok: "sched_ok sc \<Longrightarrow> same_slots sc (shrinkIdleLocked sl sc) \<and> sched_ok (shrinkIdleLocked sl sc)"
  by (rule same_slotsI) (rule pool_slots.shrink)

text \<open>An operation that replaces one pool by one with the same slots.\<close>

lemma live_of_split: "live_of sc = live_slots (the_pool sc t) \<union> live_slots (the_pool sc (otherPool t))"
  by (cases t) (auto simp: live_of_def the_pool_def)

lemma live_disjoint:
  assumes "sched_ok sc" shows "live_slots (the_pool sc t) \<inter> live_slots (the_pool sc (otherPool t)) = {}"
  using assms live_subset [of "the_pool sc t"] live_subset [of "the_pool sc (otherPool t)"]
  by (cases t) (auto simp: sched_ok_def the_pool_def)

lemma replace_pool_ok:
  assumes ok: "sched_ok sc" and q: "pool_ok q" "mset (spSlots q) = mset (spSlots (the_pool sc t))"
      "spMaxSlots q = spMaxSlots (the_pool sc t)" "the_pool sc' t = q" "the_pool sc' (otherPool t) = the_pool sc (otherPool t)"
  shows "same_slots sc sc' \<and> sched_ok sc' \<and> live_of sc' = live_slots q \<union> live_slots (the_pool sc (otherPool t))"
proof -
  have ss: "same_slots sc sc'" unfolding same_slots_def
  proof
    fix i show "mset (spSlots (the_pool sc' i)) = mset (spSlots (the_pool sc i)) \<and> spMaxSlots (the_pool sc' i) = spMaxSlots (the_pool sc i)"
      using q by (cases i; cases t) simp_all
  qed
  have "pool_ok (the_pool sc' i)" for i using q pool_ok_the [OF ok, of i] by (cases i; cases t) simp_all
  then show ?thesis using ss sched_ok_same [OF ok ss] live_of_split [of sc' t] q(4,5) by simp
qed

lemma find_live_spec:
  assumes "pool_ok p"
  shows "case find_live s p of Some i \<Rightarrow> i < spLive p \<and> spSlots p ! i = s \<and> s \<in> live_slots p | None \<Rightarrow> s \<notin> live_slots p"
  using assms by (auto simp: find_live_def find_Some_iff find_None_iff live_nth split: option.split)

lemma remove_from_pool:
  assumes ok: "sched_ok sc" and i: "find_live s (the_pool sc t) = Some i"
    and sc': "sc' = upd_pool t (\<lambda>p. removeAtLocked i (spLive p) p) sc"
  shows "s \<in> live_of sc \<and> live_of sc' = live_of sc - {s} \<and> same_slots sc sc' \<and> sched_ok sc'"
proof -
  let ?p = "the_pool sc t"
  have pk: "pool_ok ?p" by (rule pool_ok_the [OF ok])
  have s: "i < spLive ?p" "spSlots ?p ! i = s" "s \<in> live_slots ?p" using find_live_spec [OF pk, of s] i by auto
  have rm: "live_slots (removeAtLocked i (spLive ?p) ?p) = live_slots ?p - {s}"
      "mset (spSlots (removeAtLocked i (spLive ?p) ?p)) = mset (spSlots ?p)"
      "spMaxSlots (removeAtLocked i (spLive ?p) ?p) = spMaxSlots ?p"
    using removeAtLocked_spec [of i ?p] s pk by (simp_all add: pool_ok_def)
  have "s \<notin> live_slots (the_pool sc (otherPool t))" using live_disjoint [OF ok, of t] s(3) by blast
  then show ?thesis
    using replace_pool_ok [OF ok pool_shape.removeAt [OF pk s(1)] rm(2,3), of sc'] live_of_split [of sc t] s(3)
    by (auto simp: sc' rm(1))
qed

lemma remove_ok:
  assumes ok: "sched_ok sc" and r: "sched_remove s sl sc = (r, sc')"
  shows "(r \<longleftrightarrow> tsActive (sl s) = 0 \<and> s \<in> live_of sc) \<and> live_of sc' = (if r then live_of sc - {s} else live_of sc) \<and>
     same_slots sc sc' \<and> sched_ok sc'"
proof (cases "tsActive (sl s) = 0")
  case False
  then show ?thesis using r ok by (auto simp: sched_remove_def same_slots_def)
next
  case idle: True
  note pf = find_live_spec [OF pool_ok_the [OF ok, of Priority], of s]
    and bf = find_live_spec [OF pool_ok_the [OF ok, of Bulk], of s]
  show ?thesis
  proof (cases "find_live s (the_pool sc Priority)")
    case (Some i)
    then have "r \<and> sc' = upd_pool Priority (\<lambda>p. removeAtLocked i (spLive p) p) sc"
      using r idle by (auto simp: sched_remove_def the_pool_def)
    then show ?thesis using remove_from_pool [OF ok Some] idle by simp
  next
    case none: None
    show ?thesis
    proof (cases "find_live s (the_pool sc Bulk)")
      case (Some i)
      then have "r \<and> sc' = upd_pool Bulk (\<lambda>p. removeAtLocked i (spLive p) p) sc"
        using r idle none by (auto simp: sched_remove_def the_pool_def)
      then show ?thesis using remove_from_pool [OF ok Some] idle by simp
    next
      case None
      then have "\<not> r \<and> sc' = sc" using r idle none by (auto simp: sched_remove_def the_pool_def)
      then show ?thesis using ok pf bf none None live_of_split [of sc Priority] by (simp add: same_slots_def)
    qed
  qed
qed

lemma grow_ok:
  assumes ok: "sched_ok sc" and l: "loads_ok (hSlots h) (all_slots sc)" and g: "grow sc hp h = Some (r, sc', h')"
  shows "same_slots sc sc' \<and> sched_ok sc' \<and> live_of sc \<subseteq> live_of sc' \<and> (\<forall>s. tsActive (hSlots h' s) = tsActive (hSlots h s)) \<and>
     (\<forall>s. tsHeavy (hSlots h' s) = tsHeavy (hSlots h s)) \<and> (\<forall>s. tsGen (hSlots h' s) = tsGen (hSlots h s)) \<and>
     (\<forall>s. s \<in> live_of sc \<or> s \<notin> live_of sc' \<longrightarrow> hSlots h' s = hSlots h s) \<and>
     (\<forall>s. s \<in> live_of sc' - live_of sc \<longrightarrow> hSlots h' s = resetRotation (hSlots h s))"
proof (cases r)
  case None
  then show ?thesis using grow_spec [OF ok l, of hp] g ok by (auto simp: same_slots_def)
next
  case (Some tn)
  obtain t n where tn: "tn = (t, n)" by fastforce
  have f: "sc' = upd_pool t (\<lambda>p. p\<lparr>spLive := n\<rparr>) sc" "spLive (the_pool sc t) < n" "n \<le> spMaxSlots (the_pool sc t)"
    and sl: "\<And>s. hSlots h' s = (if s \<in> set (take n (spSlots (the_pool sc t))) - live_slots (the_pool sc t)
                        then resetRotation (hSlots h s) else hSlots h s)"
    using grow_spec [OF ok l, of hp] g by (auto simp: Some tn)
  have p': "the_pool sc' t = (the_pool sc t)\<lparr>spLive := n\<rparr>" and po: "the_pool sc' (otherPool t) = the_pool sc (otherPool t)"
    by (simp_all add: f)
  have q: "pool_ok ((the_pool sc t)\<lparr>spLive := n\<rparr>)" by (rule pool_shape.growing [OF pool_ok_the [OF ok] f(2,3)])
  have ss: "same_slots sc sc'" "sched_ok sc'"
    and lv': "live_of sc' = live_slots (the_pool sc' t) \<union> live_slots (the_pool sc (otherPool t))"
    using replace_pool_ok [OF ok q _ _ p' po] by (simp_all add: p')
  have sub: "live_slots (the_pool sc t) \<subseteq> live_slots (the_pool sc' t)"
    using f(2) set_take_subset_set_take [of "spLive (the_pool sc t)" n] by (simp add: p' live_slots_def)
  have dis: "live_slots (the_pool sc' t) \<inter> live_slots (the_pool sc (otherPool t)) = {}"
    using live_disjoint [OF ss(2), of t] po by simp
  have "s \<in> set (take n (spSlots (the_pool sc t))) \<longleftrightarrow> s \<in> live_slots (the_pool sc' t)" for s
    by (simp add: p' live_slots_def)
  then have new: "s \<in> set (take n (spSlots (the_pool sc t))) - live_slots (the_pool sc t) \<longleftrightarrow> s \<in> live_of sc' - live_of sc" for s
    using lv' live_of_split [of sc t] dis by blast
  have "live_of sc \<subseteq> live_of sc'" using sub lv' live_of_split [of sc t] by blast
  then show ?thesis using ss unfolding sl new by simp
qed

section \<open>Building the scheduler\<close>

lemma fold_idx_slots:
  "(\<And>x i. tsActive (f i x) = tsActive x \<and> tsHeavy (f i x) = tsHeavy x \<and> tsGen (f i x) = tsGen x) \<Longrightarrow>
   tsActive (hSlots (fold (\<lambda>i. upd_slot (a i) (f i)) xs h) s) = tsActive (hSlots h s) \<and>
   tsHeavy (hSlots (fold (\<lambda>i. upd_slot (a i) (f i)) xs h) s) = tsHeavy (hSlots h s) \<and>
   tsGen (hSlots (fold (\<lambda>i. upd_slot (a i) (f i)) xs h) s) = tsGen (hSlots h s)"
  by (induction xs arbitrary: h) (simp_all add: upd_slot_def)

lemma newScheduler_ok:
  assumes "1 \<le> maxSlots" "length slots = nat maxSlots" "distinct slots" "0 < threshold" "threshold * 2 \<le> MaxInt32"
  shows "\<exists>sc h'. newScheduler maxSlots slots threshold prioritySlots h = Some (sc, h') \<and> sched_ok sc \<and> all_slots sc = slots \<and>
     live_of sc = {} \<and> spMaxSlots (scPriority sc) + spMaxSlots (scBulk sc) = nat maxSlots \<and>
     (2 \<le> maxSlots \<longleftrightarrow> 0 < spMaxSlots (scBulk sc)) \<and>
     (1 \<le> prioritySlots \<and> prioritySlots < maxSlots \<longrightarrow> int (spMaxSlots (scPriority sc)) = prioritySlots) \<and>
     (\<forall>s. tsActive (hSlots h' s) = tsActive (hSlots h s) \<and> tsHeavy (hSlots h' s) = tsHeavy (hSlots h s) \<and>
        tsGen (hSlots h' s) = tsGen (hSlots h s))"
proof -
  define pMax where "pMax = max (min prioritySlots maxSlots) 1"
  define p where "p = (if maxSlots - pMax < 1 then (if pMax > 1 then maxSlots - 1 else pMax) else pMax)"
  define b where "b = (if maxSlots - pMax < 1 then (if pMax > 1 then 1 else 0) else maxSlots - pMax)"
  have pb: "1 \<le> p" "0 \<le> b" "p + b = maxSlots" "2 \<le> maxSlots \<longleftrightarrow> 0 < b" "1 \<le> prioritySlots \<and> prioritySlots < maxSlots \<longrightarrow> p = prioritySlots"
    using assms(1) by (auto simp: p_def b_def pMax_def)
  have len: "nat p + nat b = length slots" using pb assms(2) by linarith
  define h' where "h' = fold (\<lambda>i. upd_slot (slots ! (nat p + i)) (\<lambda>x. x\<lparr>tsIdx := i\<rparr>)) [0..<nat b]
     (fold (\<lambda>i. upd_slot (slots ! i) (\<lambda>x. x\<lparr>tsIdx := i\<rparr>)) [0..<nat p] h)"
  let ?sc = "\<lparr>scPriority = \<lparr>spSlots = take (nat p) slots, spLive = 0, spMaxSlots = nat p, spBase = threshold\<rparr>,
           scBulk = \<lparr>spSlots = drop (nat p) slots, spLive = 0, spMaxSlots = nat b, spBase = int32 (threshold * 2)\<rparr>\<rparr>"
  have pair: "(if maxSlots - pMax < 1 then (if pMax > 1 then (maxSlots - 1, 1) else (pMax, 0)) else (pMax, maxSlots - pMax)) = (p, b)"
    by (simp add: p_def b_def)
  have new: "newScheduler maxSlots slots threshold prioritySlots h = Some (?sc, h')"
    using len unfolding newScheduler_def Let_def pMax_def [symmetric] pair h'_def by simp
  have i32: "int32 (threshold * 2) = threshold * 2" using assms(4,5) by simp
  have "sched_ok ?sc"
    using pb(1,2) len assms(3-5) set_take_disj_set_drop_if_distinct [OF assms(3), of "nat p" "nat p"]
    by (simp add: sched_ok_def pool_ok_def i32)
  moreover have "all_slots ?sc = slots" "live_of ?sc = {}" by (simp_all add: all_slots_def live_of_def live_slots_def)
  moreover have "tsActive (hSlots h' s) = tsActive (hSlots h s) \<and> tsHeavy (hSlots h' s) = tsHeavy (hSlots h s) \<and>
        tsGen (hSlots h' s) = tsGen (hSlots h s)" for s
    unfolding h'_def by (simp add: fold_idx_slots)
  ultimately show ?thesis
    unfolding new using pb assms(1) by (intro exI [of _ ?sc] exI [of _ h']) auto
qed


section \<open>Properties\<close>

text \<open>
  Selection in a pool with live slots always finds one of them. If some healthy slot carries
  fewer streams than the pool's base, the least loaded healthy slot is taken and the pool is not
  saturated. A slot due for eviction is taken only when no other slot is left, and a saturated pool
  hands out the slot with the least weighted load.
\<close>

theorem tiered_selection:
  assumes "pool_ok p" "0 < spLive p" "loads_ok sl (spSlots p)"
  shows "\<exists>b sat g'. tieredSelect sl p g = Some (b, sat, g') \<and> b \<in> live_slots p \<and>
     ((\<exists>i \<in> live_slots p. \<not> evicting (sl i)) \<longrightarrow> \<not> evicting (sl b)) \<and>
     (sat \<longrightarrow> (\<forall>i \<in> live_slots p. \<not> evicting (sl i) \<longrightarrow> weightedActive (sl b) \<le> weightedActive (sl i))) \<and>
     ((\<exists>i \<in> live_slots p. slotTierOf (sl i) = tierActive \<and> tsActive (sl i) < spBase p) \<longrightarrow>
        \<not> sat \<and> slotTierOf (sl b) = tierActive \<and>
        (\<forall>i \<in> live_slots p. slotTierOf (sl i) = tierActive \<longrightarrow> tsActive (sl b) \<le> tsActive (sl i)))"
proof -
  have "loads_ok sl (take (spLive p) (spSlots p))" by (rule loads_take [OF assms(3) set_take_subset])
  then obtain b sat g' where b: "tieredSelect sl p g = Some (b, sat, g')" "b \<in> live_slots p"
    "if sat then lightest sl (take (spLive p) (spSlots p)) b else \<not> evicting (sl b)"
    "(\<exists>i \<in> live_slots p. slotTierOf (sl i) = tierActive \<and> tsActive (sl i) < spBase p) \<longrightarrow>
        \<not> sat \<and> slotTierOf (sl b) = tierActive \<and>
        (\<forall>i \<in> live_slots p. slotTierOf (sl i) = tierActive \<longrightarrow> tsActive (sl b) \<le> tsActive (sl i))"
    using tieredSelectAt_spec [of "spLive p" p sl True g] assms
    unfolding tieredSelect_def live_slots_def pool_ok_def by auto
  have "(\<exists>i \<in> live_slots p. \<not> evicting (sl i)) \<longrightarrow> \<not> evicting (sl b)"
    and "sat \<longrightarrow> (\<forall>i \<in> live_slots p. \<not> evicting (sl i) \<longrightarrow> weightedActive (sl b) \<le> weightedActive (sl i))"
    using b(3) by (auto simp: lightest_def live_slots_def split: if_splits)
  then show ?thesis using b(1,2,4) by blast
qed

definition demo_slot :: "int \<Rightarrow> bool \<Rightarrow> transportSlot" where
  "demo_slot a ex = (hSlots empty_h2 0)\<lparr>tsActive := a, tsExpiring := ex\<rparr>"

definition demo_pool :: slotPool where
  "demo_pool = \<lparr>spSlots = [0, 1, 2], spLive = 2, spMaxSlots = 3, spBase = 8\<rparr>"

lemma demo_simps [simp]:
  "tsActive (demo_slot a ex) = a" "tsExpiring (demo_slot a ex) = ex" "tsDegraded (demo_slot a ex) = False" "tsHeavy (demo_slot a ex) = 0"
  by (simp_all add: demo_slot_def empty_h2_def newSlot_def Let_def)

theorem tiered_selection_witness:
  "\<exists>b g'. tieredSelect (\<lambda>i. if i = 0 then demo_slot 5 True else demo_slot 7 False) demo_pool init_stats = Some (b, False, g') \<and> b = 1"
proof -
  let ?sl = "\<lambda>i :: slot_id. if i = 0 then demo_slot 5 True else demo_slot 7 False"
  have "pool_ok demo_pool" "0 < spLive demo_pool" "loads_ok ?sl (spSlots demo_pool)"
    by (simp_all add: pool_ok_def demo_pool_def loads_ok_def)
  note s = tiered_selection [OF this, of init_stats]
  have live: "live_slots demo_pool = {0, 1}" by (simp add: live_slots_def demo_pool_def numeral_2_eq_2)
  have t: "slotTierOf (?sl 1) = tierActive" "slotTierOf (?sl 0) = tierExpiring" by (simp_all add: slotTierOf_def)
  from s obtain b sat g' where b: "tieredSelect ?sl demo_pool init_stats = Some (b, sat, g')" "b \<in> {0, 1}"
    "\<not> sat \<and> slotTierOf (?sl b) = tierActive"
    unfolding live using t(1) by (force simp: demo_pool_def)
  then show ?thesis using t by auto
qed

text \<open>
  Picking a slot for a stream never fails and never indexes an empty pool: it returns a live slot
  of the stream's pool (the first slot if none is live), or, when that pool is saturated, such a slot
  of the other one. It changes nothing but the counters.
\<close>

theorem pick_never_fails:
  assumes "sched_ok sc" "loads_ok (hSlots h) (all_slots sc)"
  shows "\<exists>b h'. pick sc hp h = Some (b, h') \<and> b \<in> set (all_slots sc) \<and> h' = h\<lparr>hStats := hStats h'\<rparr> \<and>
     (b \<in> candidates (the_pool sc (poolOf sc hp)) \<or>
      (b \<in> candidates (the_pool sc (otherPool (poolOf sc hp))) \<and>
       saturatedIn (hSlots h) (the_pool sc (poolOf sc hp)) (spLive (the_pool sc (poolOf sc hp))) = Some True))"
proof -
  obtain b h' where b: "pick sc hp h = Some (b, h')" "hSlots h' = hSlots h \<and> hGens h' = hGens h \<and> hNextGen h' = hNextGen h \<and>
     hClosed h' = hClosed h \<and> hIdleClosed h' = hIdleClosed h"
    "b \<in> candidates (the_pool sc (poolOf sc hp)) \<or>
      (b \<in> candidates (the_pool sc (otherPool (poolOf sc hp))) \<and> 0 < spMaxSlots (the_pool sc (otherPool (poolOf sc hp))) \<and>
       saturatedIn (hSlots h) (the_pool sc (poolOf sc hp)) (spLive (the_pool sc (poolOf sc hp))) = Some True)"
    using pick_spec [OF assms, of hp] by auto
  have "b \<in> set (spSlots (the_pool sc i))" if "b \<in> candidates (the_pool sc i)" "0 < spMaxSlots (the_pool sc i)" for i
    using that pool_ok_the [OF assms(1), of i] live_subset [of "the_pool sc i"]
    by (cases "spSlots (the_pool sc i)") (auto simp: candidates_def pool_ok_def split: if_splits)
  then have "b \<in> set (all_slots sc)" using b(3) poolOf_nonempty [OF assms(1), of hp] slots_of_pool by blast
  moreover have "h' = h\<lparr>hStats := hStats h'\<rparr>" using b(2) by (cases h; cases h') simp
  ultimately show ?thesis using b by blast
qed

definition demo_sched :: slotScheduler where
  "demo_sched = \<lparr>scPriority = demo_pool, scBulk = \<lparr>spSlots = [3], spLive = 0, spMaxSlots = 1, spBase = 16\<rparr>\<rparr>"

lemma demo_sched_ok: "sched_ok demo_sched" "loads_ok (hSlots empty_h2) (all_slots demo_sched)"
  by (simp_all add: sched_ok_def pool_ok_def demo_sched_def demo_pool_def loads_ok_def all_slots_def empty_h2_def newSlot_def Let_def)

theorem pick_never_fails_witness: "\<exists>b h'. pick demo_sched False empty_h2 = Some (b, h') \<and> b \<in> {0, 1, 2, 3}"
  using pick_never_fails [OF demo_sched_ok, of False] by (force simp: all_slots_def demo_sched_def demo_pool_def)

text \<open>
  Growing never panics and never exceeds a pool. A pool that has live slots grows by one, and only
  if a selection in it is saturated; an empty one gets two slots at once where it can. Slots that become
  live start with cleared rotation state, every other slot is left alone, and no pool gains or loses slots.
\<close>

theorem grow_bounded:
  assumes "sched_ok sc" "loads_ok (hSlots h) (all_slots sc)"
  shows "\<exists>r sc' h'. grow sc hp h = Some (r, sc', h') \<and> sched_ok sc' \<and> same_slots sc sc' \<and>
     (case r of
        None \<Rightarrow> sc' = sc \<and> h' = h \<and> 0 < spLive (the_pool sc (poolOf sc hp))
      | Some (t, n) \<Rightarrow> spLive (the_pool sc' t) = n \<and> the_pool sc' (otherPool t) = the_pool sc (otherPool t) \<and>
          (if spLive (the_pool sc t) = 0 then n = min 2 (spMaxSlots (the_pool sc t))
           else n = spLive (the_pool sc t) + 1 \<and>
             saturatedIn (hSlots h) (the_pool sc t) (spLive (the_pool sc t)) = Some True)) \<and>
     (\<forall>s. hSlots h' s = (if s \<in> live_of sc' - live_of sc then resetRotation (hSlots h s) else hSlots h s))"
proof -
  obtain r sc' h' where g: "grow sc hp h = Some (r, sc', h')" and r: "case r of
     None \<Rightarrow> sc' = sc \<and> h' = h \<and> growTarget (hSlots h) sc (poolOf sc hp) = Some None
   | Some (t, n) \<Rightarrow> growTarget (hSlots h) sc (poolOf sc hp) = Some (Some (t, spLive (the_pool sc t))) \<and>
       n \<le> spMaxSlots (the_pool sc t) \<and>
       n = spLive (the_pool sc t) + (if spLive (the_pool sc t) = 0 \<and> 2 \<le> spMaxSlots (the_pool sc t) then 2 else 1) \<and>
       sc' = upd_pool t (\<lambda>p. p\<lparr>spLive := n\<rparr>) sc"
    using grow_spec [OF assms, of hp] by (fastforce split: option.splits prod.splits)
  note ok = grow_ok [OF assms g]
  note tg = growTarget_spec [OF assms poolOf_nonempty [OF assms(1)], of hp]
  have sl: "hSlots h' s = (if s \<in> live_of sc' - live_of sc then resetRotation (hSlots h s) else hSlots h s)" for s
    using ok by auto
  show ?thesis
  proof (cases r)
    case None
    then show ?thesis using g r ok tg sl by auto
  next
    case (Some tn)
    obtain t n where tn: "tn = (t, n)" by fastforce
    have "saturatedIn (hSlots h) (the_pool sc t) (spLive (the_pool sc t)) = Some True" if "0 < spLive (the_pool sc t)"
      using tg r that by (auto simp: Some tn)
    then have "case r of None \<Rightarrow> False
      | Some (t, n) \<Rightarrow> spLive (the_pool sc' t) = n \<and> the_pool sc' (otherPool t) = the_pool sc (otherPool t) \<and>
          (if spLive (the_pool sc t) = 0 then n = min 2 (spMaxSlots (the_pool sc t))
           else n = spLive (the_pool sc t) + 1 \<and>
             saturatedIn (hSlots h) (the_pool sc t) (spLive (the_pool sc t)) = Some True)"
      using r by (auto simp: Some tn min_def)
    then show ?thesis using g ok sl by (simp add: Some tn)
  qed
qed

theorem grow_bounded_witness: "\<exists>sc' h'. grow demo_sched False empty_h2 = Some (Some (Bulk, 1), sc', h') \<and> sched_ok sc'"
proof -
  have "\<exists>sc' h'. grow demo_sched False empty_h2 = Some (Some (Bulk, 1), sc', h')"
    by (simp add: grow_def growTarget_def poolOf_def demo_sched_def the_pool_def Let_def)
  then show ?thesis using grow_bounded [OF demo_sched_ok, of False] by fastforce
qed

text \<open>
  Shrinking retires exactly the idle slots: afterwards the live slots are the live ones with a
  stream. Removing a slot succeeds exactly if it is live and has no stream, and takes only that slot
  out. Both keep the scheduler well formed and only permute the slots of a pool.
\<close>

theorem shrink_retires_idle:
  assumes "sched_ok sc"
  shows "live_of (shrinkIdleLocked sl sc) = {s \<in> live_of sc. tsActive (sl s) \<noteq> 0} \<and>
     sched_ok (shrinkIdleLocked sl sc) \<and> same_slots sc (shrinkIdleLocked sl sc) \<and>
     (case sched_remove s sl sc of (r, sc') \<Rightarrow>
        (r \<longleftrightarrow> tsActive (sl s) = 0 \<and> s \<in> live_of sc) \<and> live_of sc' = (if r then live_of sc - {s} else live_of sc) \<and>
        sched_ok sc' \<and> same_slots sc sc')"
proof -
  have "live_of (shrinkIdleLocked sl sc) = {s \<in> live_of sc. tsActive (sl s) \<noteq> 0}"
    using assms shrink_pool_live by (auto simp: live_of_def shrinkIdleLocked_def sched_ok_def)
  then show ?thesis using shrink_ok [OF assms] remove_ok [OF assms, of s sl] by (cases "sched_remove s sl sc") simp
qed

theorem shrink_retires_idle_witness: "live_of (shrinkIdleLocked (hSlots empty_h2) demo_sched) = {}"
  using shrink_retires_idle [OF demo_sched_ok(1), of "hSlots empty_h2" 0]
  by (simp add: empty_h2_def newSlot_def Let_def)

end
