(* ===== verification/H2Lifecycle.thy ===== *)
theory H2Lifecycle
  imports H2Scheduling
begin

text \<open>
  The health loop of the HTTP/2 transport (\<open>src/transport/http2/lifecycle.go\<close>): detection of system
  suspends, throughput and probe verdicts per slot, rotation of old connections and retirement of
  degraded ones. The clock is an argument (nanoseconds; 0 stands for the zero \<open>time.Time\<close>), and so is
  what a probe of a slot reports, together with the transport it leaves behind, since the HTTP library
  may dial or drop connections meanwhile. A slot of a transport always has a generation.
\<close>

datatype probeVerdict = probeInconclusive | probeFast | probeSlow | probeUnsupported

record slotLifecycle =
  lcConnLifetime :: int
  lcConnMaxBytes :: int
  lcIdleTimeout :: int
  lcHasProbe :: bool
  lcProbeUnsupported :: bool
  lcUnsupportedCount :: int
  lcBaseline :: int
  lcSuspendEvents :: int
  lcSamplingEpoch :: int

text \<open>The state the loop works on: the scheduler, the slots and connections, and its own.\<close>

record transport =
  tpSched :: slotScheduler
  tpH :: h2
  tpLife :: slotLifecycle

definition upd_h :: "(h2 \<Rightarrow> h2) \<Rightarrow> transport \<Rightarrow> transport" where
  "upd_h f t = t\<lparr>tpH := f (tpH t)\<rparr>"

definition upd_life :: "(slotLifecycle \<Rightarrow> slotLifecycle) \<Rightarrow> transport \<Rightarrow> transport" where
  "upd_life f t = t\<lparr>tpLife := f (tpLife t)\<rparr>"

definition slot_at :: "slot_id \<Rightarrow> transport \<Rightarrow> transportSlot" where
  "slot_at s t = hSlots (tpH t) s"

text \<open>The snapshot of a pool's live slots, taken under the read lock.\<close>

definition live_snapshot :: "slotPool \<Rightarrow> slot_id list" where
  "live_snapshot p = take (spLive p) (spSlots p)"

text \<open>
  The loops over both pools: the snapshot of the second pool is taken after the first one is done.
\<close>

definition for_live :: "(slot_id \<Rightarrow> transport \<Rightarrow> transport) \<Rightarrow> transport \<Rightarrow> transport" where
  "for_live f t =
     (let t = fold f (live_snapshot (scPriority (tpSched t))) t
      in fold f (live_snapshot (scBulk (tpSched t))) t)"

section \<open>Suspends\<close>

definition suspendBaselineUnset :: int where [simp]: "suspendBaselineUnset = 0"

text \<open>
  \<open>suspendOffset\<close> of a wall clock reading and a monotonic one; \<open>sampleOffset\<close> exchanges the baseline
  and returns the divergence since the last sample.
\<close>

definition suspendOffset :: "int \<Rightarrow> int \<Rightarrow> int" where
  "suspendOffset wall elapsed = int64 (wall - elapsed)"

definition sampleOffset :: "int \<Rightarrow> int \<Rightarrow> (int \<times> bool) \<times> int" where
  "sampleOffset offset baseline =
     (if baseline = suspendBaselineUnset then ((0, False), offset)
      else ((int64 (offset - baseline), True), offset))"

definition retireIdle_one :: "int \<Rightarrow> slot_id \<Rightarrow> nat \<times> transport \<Rightarrow> nat \<times> transport" where
  "retireIdle_one now s rt =
     (let (retired, t) = rt; x = slot_at s t; gen = tsGen x
      in if gen = None \<or> tsActive x \<noteq> 0 \<or> idleFor x now \<le> lcIdleTimeout (tpLife t) then (retired, t)
         else case retireIdleConn s gen (tpH t) of
                (ok, h) \<Rightarrow> (if ok then Suc retired else retired, t\<lparr>tpH := h\<rparr>))"

definition retireIdlePastH2Timeout :: "int \<Rightarrow> transport \<Rightarrow> nat \<times> transport" where
  "retireIdlePastH2Timeout now t =
     (if lcIdleTimeout (tpLife t) \<le> 0 then (0, t)
      else
        (let (r, t) = fold (retireIdle_one now) (live_snapshot (scPriority (tpSched t))) (0, t)
         in fold (retireIdle_one now) (live_snapshot (scBulk (tpSched t))) (r, t)))"

definition arm_one :: "slot_id \<Rightarrow> nat \<times> transport \<Rightarrow> nat \<times> transport" where
  "arm_one s at =
     (let (armed, t) = at
      in if connIdentity (tpH t) s \<noteq> None
         then (if tsReverify (slot_at s t) then armed else Suc armed, upd_h (upd_slot s (\<lambda>x. x\<lparr>tsReverify := True\<rparr>)) t)
         else (armed, t))"

definition armSuspects :: "transport \<Rightarrow> nat \<times> transport" where
  "armSuspects t =
     (if \<not> lcHasProbe (tpLife t) then (0, t)
      else
        (let (a, t) = fold arm_one (live_snapshot (scPriority (tpSched t))) (0, t)
         in fold arm_one (live_snapshot (scBulk (tpSched t))) (a, t)))"

definition reportSuspend :: "int \<Rightarrow> transport \<Rightarrow> transport" where
  "reportSuspend now t =
     (let t = upd_h (h2_stats RecordSuspendDetected) t;
          (_, t) = retireIdlePastH2Timeout now t;
          (_, t) = armSuspects t
      in t)"

definition observeSuspend :: "int \<Rightarrow> int \<Rightarrow> transport \<Rightarrow> transport" where
  "observeSuspend now offset t =
     (let ((divergence, ok), b) = sampleOffset offset (lcBaseline (tpLife t));
          t = upd_life (\<lambda>l. l\<lparr>lcBaseline := b\<rparr>) t
      in if \<not> ok \<or> divergence < SuspendDivergenceThreshold then t
         else reportSuspend now (upd_life (\<lambda>l. l\<lparr>lcSuspendEvents := int64 (lcSuspendEvents l + 1)\<rparr>) t))"

definition resetSamplingOnSuspend :: "transport \<Rightarrow> transport" where
  "resetSamplingOnSuspend t =
     (let events = lcSuspendEvents (tpLife t)
      in if events = lcSamplingEpoch (tpLife t) then t
         else for_live (\<lambda>s. upd_h (upd_slot s (\<lambda>x. x\<lparr>tsLastHeavy := 0\<rparr>)))
                (upd_life (\<lambda>l. l\<lparr>lcSamplingEpoch := events\<rparr>) t))"

section \<open>Throughput\<close>

definition probeStateStale :: "h2 \<Rightarrow> slot_id \<Rightarrow> bool" where
  "probeStateStale h s = (tsProbeConn (hSlots h s) \<noteq> None \<and> tsProbeConn (hSlots h s) \<noteq> connIdentity h s)"

definition clearProbeProgress :: "transportSlot \<Rightarrow> transportSlot" where
  "clearProbeProgress x = x\<lparr>tsProbeLowCycles := 0, tsProbeBackoff := 0\<rparr>"

definition resetProbeState :: "transportSlot \<Rightarrow> transportSlot" where
  "resetProbeState x =
     (clearProbeProgress (x\<lparr>tsProbeConn := None, tsSuspected := False\<rparr>))\<lparr>tsProbeHoldUntil := 0, tsLastProbeAt := 0\<rparr>"

text \<open>\<open>throughput\<close> of one interval, in bytes per second.\<close>

definition throughput_of :: "int \<Rightarrow> transportSlot \<Rightarrow> int" where
  "throughput_of interval x =
     (let perSec = interval sdiv Second;
          perSec = (if perSec \<le> 0 then 1 else perSec)
      in int64 (tsBytesRecv x - tsLastBytes x) sdiv perSec)"

text \<open>
  \<open>evaluateSlotHealth\<close> on the slot's record, with the slot's current connection; the flag says that the
  slot has just been marked as degraded. The probe state of a connection that is gone is dropped first.
\<close>

definition slot_health ::
  "slotLifecycle \<Rightarrow> conn_id option \<Rightarrow> int \<Rightarrow> int \<Rightarrow> bool \<Rightarrow> transportSlot \<Rightarrow> transportSlot \<times> bool" where
  "slot_health lc conn now interval linkOK x =
     (let x = (if tsProbeConn x \<noteq> None \<and> tsProbeConn x \<noteq> conn then resetProbeState x else x)
      in if tsHeavy x = 0 then (clearProbeProgress (x\<lparr>tsLastHeavy := 0, tsSuspected := False\<rparr>), False)
         else if tsLastHeavy x = 0 then
           (x\<lparr>tsLastHeavy := 1, tsLastBytes := tsBytesRecv x, tsLowCycles := 0, tsRecoverCycles := 0\<rparr>, False)
         else if \<not> linkOK then (x\<lparr>tsLastBytes := tsBytesRecv x\<rparr>, False)
         else if now < tsProbeHoldUntil x then (x\<lparr>tsLastBytes := tsBytesRecv x\<rparr>, False)
         else
           (let throughput = throughput_of interval x;
                x = x\<lparr>tsLastBytes := tsBytesRecv x\<rparr>
            in if throughput \<ge> DegradedThroughputThreshold then
                 (let x = clearProbeProgress (x\<lparr>tsLowCycles := 0, tsSuspected := False\<rparr>)
                  in if tsDegraded x
                     then
                       (let x = x\<lparr>tsRecoverCycles := tsRecoverCycles x + 1\<rparr>
                        in if tsRecoverCycles x \<ge> DegradedRecoverCycles
                           then (x\<lparr>tsDegraded := False, tsRecoverCycles := 0\<rparr>, False) else (x, False))
                     else (x, False))
               else
                 (let x = x\<lparr>tsRecoverCycles := 0, tsLowCycles := tsLowCycles x + 1\<rparr>
                  in if tsLowCycles x \<ge> DegradedPersistCycles \<and> \<not> tsDegraded x then
                       (let x = x\<lparr>tsLowCycles := 0\<rparr>
                        in if lcProbeUnsupported lc \<or> \<not> lcHasProbe lc then (x\<lparr>tsDegraded := True\<rparr>, True)
                           else (x\<lparr>tsSuspected := True, tsProbeConn := conn\<rparr>, False))
                     else (x, False))))"

definition evaluateSlotHealth :: "int \<Rightarrow> slot_id \<Rightarrow> int \<Rightarrow> bool \<Rightarrow> transport \<Rightarrow> transport" where
  "evaluateSlotHealth now s interval linkOK t =
     (let (x, degraded) = slot_health (tpLife t) (connIdentity (tpH t) s) now interval linkOK (slot_at s t);
          t = upd_h (upd_slot s (\<lambda>_. x)) t
      in if degraded then upd_h (h2_stats RecordSlotDegraded) t else t)"

section \<open>Probes\<close>

text \<open>The doubling loop of \<open>probeCooldown\<close>.\<close>

fun cooldown_loop :: "nat \<Rightarrow> int \<Rightarrow> int" where
  "cooldown_loop 0 d = d"
| "cooldown_loop (Suc n) d = (if d < ProbeMaxBackoff then cooldown_loop n (d * 2) else d)"

definition probeCooldown :: "nat \<Rightarrow> int" where
  "probeCooldown backoff = min (cooldown_loop backoff ProbeCooldown) ProbeMaxBackoff"

definition maxDuration :: int where [simp]: "maxDuration = 2 ^ 63 - 1"

text \<open>\<open>now.Sub(lastProbeAt)\<close>, which saturates for the zero time.\<close>

definition since_probe :: "int \<Rightarrow> transportSlot \<Rightarrow> int" where
  "since_probe now x = (if tsLastProbeAt x = 0 then maxDuration else now - tsLastProbeAt x)"

type_synonym probe_fun = "slot_id \<Rightarrow> h2 \<Rightarrow> probeVerdict \<times> h2"

definition probe_verdict_slot :: "int \<Rightarrow> conn_id option \<Rightarrow> probeVerdict \<Rightarrow> transportSlot \<Rightarrow> transportSlot" where
  "probe_verdict_slot now conn verdict x =
     (let x = x\<lparr>tsProbeConn := conn, tsLastProbeAt := now,
                tsProbeBackoff := (if verdict = probeInconclusive then Suc (tsProbeBackoff x) else 0)\<rparr>
      in case verdict of
           probeFast \<Rightarrow> x\<lparr>tsProbeLowCycles := 0, tsSuspected := False, tsProbeHoldUntil := now + ProbeHoldWindow\<rparr>
         | probeSlow \<Rightarrow>
             (let x = x\<lparr>tsProbeLowCycles := tsProbeLowCycles x + 1\<rparr>
              in if tsProbeLowCycles x \<ge> ProbeConfirmCycles
                 then x\<lparr>tsProbeLowCycles := 0, tsSuspected := False, tsDegraded := True\<rparr> else x)
         | _ \<Rightarrow> x)"

definition probeSlot :: "probe_fun \<Rightarrow> int \<Rightarrow> slot_id \<Rightarrow> transport \<Rightarrow> transport" where
  "probeSlot probe now s t =
     (let conn = connIdentity (tpH t) s
      in if conn = None then upd_h (upd_slot s resetProbeState) t
         else
           (let (verdict, h) = probe s (tpH t);
                t = t\<lparr>tpH := h2_stats RecordSlotProbeGet h\<rparr>
            in if connIdentity (tpH t) s \<noteq> conn then upd_h (upd_slot s resetProbeState) t
               else
                 (let x = slot_at s t; x' = probe_verdict_slot now conn verdict x;
                      t = upd_h (upd_slot s (\<lambda>_. x')) t
                  in case verdict of
                       probeSlow \<Rightarrow>
                         (let t = upd_h (h2_stats RecordSlotProbeSlow) t
                          in if tsProbeLowCycles x + 1 \<ge> ProbeConfirmCycles
                             then upd_h (h2_stats RecordSlotDegraded) t else t)
                     | probeUnsupported \<Rightarrow>
                         (let t = upd_life (\<lambda>l. l\<lparr>lcUnsupportedCount := lcUnsupportedCount l + 1\<rparr>) t
                          in if lcUnsupportedCount (tpLife t) \<ge> 2
                             then upd_h (h2_stats RecordSlotProbeUnsupported)
                                    (upd_life (\<lambda>l. l\<lparr>lcProbeUnsupported := True\<rparr>) t)
                             else t)
                     | _ \<Rightarrow> t)))"

definition probe_one :: "probe_fun \<Rightarrow> int \<Rightarrow> slot_id \<Rightarrow> nat \<times> transport \<Rightarrow> nat \<times> transport" where
  "probe_one probe now s pt =
     (let (probed, t) = pt
      in if \<not> probed < ProbeMaxPerInterval then (probed, t)
         else
           (let t = (if probeStateStale (tpH t) s then upd_h (upd_slot s resetProbeState) t else t);
                x = slot_at s t
            in if \<not> tsSuspected x \<or> tsDegraded x then (probed, t)
               else if connIdentity (tpH t) s = None then (probed, upd_h (upd_slot s resetProbeState) t)
               else if since_probe now x < probeCooldown (tsProbeBackoff x) then (probed, t)
               else (Suc probed, probeSlot probe now s t)))"

definition evaluateProbes :: "probe_fun \<Rightarrow> int \<Rightarrow> bool \<Rightarrow> transport \<Rightarrow> nat \<times> transport" where
  "evaluateProbes probe now linkOK t =
     (if \<not> linkOK \<or> lcProbeUnsupported (tpLife t) \<or> \<not> lcHasProbe (tpLife t) then (0, t)
      else
        (let (n, t) = fold (probe_one probe now) (live_snapshot (scPriority (tpSched t))) (0, t)
         in fold (probe_one probe now) (live_snapshot (scBulk (tpSched t))) (n, t)))"

section \<open>Rotation and retirement\<close>

definition rotationDue :: "slotLifecycle \<Rightarrow> transportSlot \<Rightarrow> int \<Rightarrow> bool" where
  "rotationDue lc x now =
     (if lcConnLifetime lc > 0 \<and> tsExpireAt x > 0 \<and> now \<ge> tsExpireAt x then True
      else lcConnMaxBytes lc > 0 \<and> tsConnBytes x \<ge> lcConnMaxBytes lc)"

text \<open>\<open>s.transport().CloseIdleConnections()\<close>.\<close>

definition close_idle :: "slot_id \<Rightarrow> h2 \<Rightarrow> h2" where
  "close_idle s h = (case tsGen (hSlots h s) of Some g \<Rightarrow> CloseIdleConnections g h | None \<Rightarrow> h)"

definition evaluateRotation :: "int \<Rightarrow> slot_id \<Rightarrow> transport \<Rightarrow> transport" where
  "evaluateRotation now s t =
     (let x = slot_at s t
      in if tsExpiring x then
           (if tsActive x = 0
            then upd_h (\<lambda>h. h2_stats RecordConnRotated
                   (upd_slot s (\<lambda>x. x\<lparr>tsExpiring := False, tsExpireAt := 0, tsConnBytes := 0\<rparr>) (close_idle s h))) t
            else t)
         else if rotationDue (tpLife t) x now then upd_h (upd_slot s (\<lambda>x. x\<lparr>tsExpiring := True\<rparr>)) t
         else t)"

definition retire :: "slot_id \<Rightarrow> transport \<Rightarrow> transport" where
  "retire s t =
     (let t = upd_h (close_idle s) t;
          (removed, sc) = sched_remove s (hSlots (tpH t)) (tpSched t);
          t = t\<lparr>tpSched := sc\<rparr>
      in if removed then upd_h (h2_stats RecordSlotRetiredDegraded) t else t)"

definition evaluate_slot :: "int \<Rightarrow> int \<Rightarrow> bool \<Rightarrow> slot_id \<Rightarrow> transport \<Rightarrow> transport" where
  "evaluate_slot now interval linkOK s t =
     (let t = evaluateSlotHealth now s interval linkOK t;
          t = evaluateRotation now s t
      in if linkOK \<and> tsDegraded (slot_at s t) \<and> tsActive (slot_at s t) = 0 then retire s t else t)"

definition DegradedMaxRTT :: int where [simp]: "DegradedMaxRTT = 800 * Millisecond"

definition evaluate :: "probe_fun \<Rightarrow> int \<Rightarrow> int \<Rightarrow> transport \<Rightarrow> transport" where
  "evaluate probe now interval t =
     (let linkOK = (AvgRTT (Collect_stats (hStats (tpH t))) \<le> DegradedMaxRTT);
          t = for_live (evaluate_slot now interval linkOK) t
      in snd (evaluateProbes probe now linkOK t))"

text \<open>One tick of \<open>run\<close>.\<close>

definition lifecycle_tick :: "probe_fun \<Rightarrow> int \<Rightarrow> int \<Rightarrow> transport \<Rightarrow> transport" where
  "lifecycle_tick probe now offset t =
     evaluate probe now HealthCheckInterval (resetSamplingOnSuspend (observeSuspend now offset t))"

end
