(* ===== verification/H2Stream.thy ===== *)
theory H2Stream
  imports H2Lifecycle
begin

text \<open>
  Streams over the HTTP/2 transport (\<open>src/transport/http2/stream.go\<close>, \<open>client.go\<close>). A stream works on
  its own record and on the transport's slots and connections. What the HTTP library answers - the
  outcome of a round trip, of a read of the response body, of a write to the request pipe - is an
  argument of the operation. Errors are values; \<open>Join\<close> is \<open>fmt.Errorf\<close> with two wrapped errors.
\<close>

datatype herr =
    ErrEOF
  | ErrClosedPipe
  | ErrConnRetired
  | HandshakeRejectedError int
  | ErrOther nat
  | Join herr herr

fun errors_Is :: "herr \<Rightarrow> herr \<Rightarrow> bool" where
  "errors_Is (Join a b) target = (Join a b = target \<or> errors_Is a target \<or> errors_Is b target)"
| "errors_Is e target = (e = target)"

fun IsHandshakeRejected :: "herr \<Rightarrow> bool" where
  "IsHandshakeRejected (HandshakeRejectedError _) = True"
| "IsHandshakeRejected (Join a b) = (IsHandshakeRejected a \<or> IsHandshakeRejected b)"
| "IsHandshakeRejected _ = False"

datatype heavyState = heavyIdle | heavyMarked | heavyReleased

record http2Stream =
  hsSlot :: "slot_id option"
  hsGen :: "gen_id option"
  hsConn :: "conn_id option"
  hsReady :: bool
  hsEndpoint :: string
  hsTarget :: string
  hsBootstrapSentAt :: int
  hsR :: "nat option"
  hsRespErr :: "herr option"
  hsClosed :: bool
  hsRtErr :: "herr option"
  hsStart :: int
  hsTransferred :: int
  hsHeavy :: heavyState
  hsDone :: bool
  hsCanceled :: bool
  hsWriteClosed :: bool
  hsBodyClosed :: "nat list"

type_synonym 'a on_stream = "http2Stream \<times> h2 \<Rightarrow> 'a \<times> http2Stream \<times> h2"

section \<open>Heavy streams\<close>

definition accumulate :: "int \<Rightarrow> int \<Rightarrow> http2Stream \<times> h2 \<Rightarrow> http2Stream \<times> h2" where
  "accumulate now n sh =
     (case sh of (s, h) \<Rightarrow>
       (case hsSlot s of
          None \<Rightarrow> (s, h)
        | Some i \<Rightarrow>
            (if n \<le> 0 then (s, h)
             else
               (let total = int64 (hsTransferred s + n);
                    s = s\<lparr>hsTransferred := total\<rparr>;
                    fast = total \<ge> HeavyStreamThresholdBytes;
                    slow = total \<ge> HeavyStreamSlowThresholdBytes \<and> now - hsStart s \<ge> HeavyStreamMinAge
                in if hsHeavy s \<noteq> heavyIdle then (s, h)
                   else if \<not> fast \<and> \<not> slow then (s, h)
                   else (s\<lparr>hsHeavy := heavyMarked\<rparr>, upd_slot i (\<lambda>x. x\<lparr>tsHeavy := int32 (tsHeavy x + 1)\<rparr>) h)))))"

definition trackRead :: "int \<Rightarrow> int \<Rightarrow> http2Stream \<times> h2 \<Rightarrow> http2Stream \<times> h2" where
  "trackRead now n sh =
     (case sh of (s, h) \<Rightarrow>
       (case hsSlot s of
          None \<Rightarrow> (s, h)
        | Some i \<Rightarrow>
            (if n \<le> 0 then (s, h)
             else accumulate now n
               (s, upd_slot i (\<lambda>x. x\<lparr>tsBytesRecv := int64 (tsBytesRecv x + n), tsConnBytes := int64 (tsConnBytes x + n)\<rparr>) h))))"

definition trackWrite :: "int \<Rightarrow> int \<Rightarrow> http2Stream \<times> h2 \<Rightarrow> http2Stream \<times> h2" where
  "trackWrite now n sh =
     (case sh of (s, h) \<Rightarrow>
       (case hsSlot s of
          None \<Rightarrow> (s, h)
        | Some i \<Rightarrow>
            (if n \<le> 0 then (s, h)
             else accumulate now n (s, upd_slot i (\<lambda>x. x\<lparr>tsConnBytes := int64 (tsConnBytes x + n)\<rparr>) h))))"

definition releaseHeavy :: "http2Stream \<times> h2 \<Rightarrow> http2Stream \<times> h2" where
  "releaseHeavy sh =
     (case sh of (s, h) \<Rightarrow>
       (case hsSlot s of
          None \<Rightarrow> (s, h)
        | Some i \<Rightarrow>
            (case hsHeavy s of
               heavyMarked \<Rightarrow> (s\<lparr>hsHeavy := heavyReleased\<rparr>, upd_slot i (\<lambda>x. x\<lparr>tsHeavy := int32 (tsHeavy x - 1)\<rparr>) h)
             | heavyIdle \<Rightarrow> (s\<lparr>hsHeavy := heavyReleased\<rparr>, h)
             | heavyReleased \<Rightarrow> (s, h))))"

text \<open>Taking and giving back a place in a slot, as \<open>Open\<close> and the callback \<open>done\<close> do.\<close>

definition slot_enter :: "slot_id \<Rightarrow> h2 \<Rightarrow> h2" where
  "slot_enter i h = upd_slot i (\<lambda>x.
     (let a = int32 (tsActive x + 1) in x\<lparr>tsActive := a, tsIdleSince := (if a = 1 then 0 else tsIdleSince x)\<rparr>)) h"

definition slot_leave :: "int \<Rightarrow> slot_id \<Rightarrow> h2 \<Rightarrow> h2" where
  "slot_leave now i h = upd_slot i (\<lambda>x.
     (let a = int32 (tsActive x - 1) in x\<lparr>tsActive := a, tsIdleSince := (if a = 0 then now else tsIdleSince x)\<rparr>)) h"

text \<open>The stream's \<open>done\<close>, a \<open>sync.OnceFunc\<close>.\<close>

definition stream_done :: "int \<Rightarrow> http2Stream \<times> h2 \<Rightarrow> http2Stream \<times> h2" where
  "stream_done now sh =
     (case sh of (s, h) \<Rightarrow>
       (if hsDone s then (s, h)
        else
          (let (s, h) = releaseHeavy (s\<lparr>hsDone := True\<rparr>, h);
               h = (case hsSlot s of Some i \<Rightarrow> slot_leave now i h | None \<Rightarrow> h)
           in (s\<lparr>hsCanceled := True\<rparr>, h2_stats RecordStreamClosed h))))"

section \<open>Results\<close>

definition wrapRetired :: "http2Stream \<times> h2 \<Rightarrow> herr option \<Rightarrow> herr option" where
  "wrapRetired sh err =
     (case sh of (s, h) \<Rightarrow>
       (case err of
          None \<Rightarrow> None
        | Some e \<Rightarrow>
            (if errors_Is e ErrEOF \<or> errors_Is e ErrConnRetired then Some e
             else case (hsGen s, hsSlot s) of
                    (Some g, Some i) \<Rightarrow>
                      (if tsGen (hSlots h i) = Some g then Some e else Some (Join ErrConnRetired e))
                  | _ \<Rightarrow> Some e)))"

definition setRoundTripErr :: "herr option \<Rightarrow> http2Stream \<Rightarrow> http2Stream" where
  "setRoundTripErr e s = s\<lparr>hsRtErr := e\<rparr>"

definition MarkBootstrapSent :: "int \<Rightarrow> http2Stream \<Rightarrow> http2Stream" where
  "MarkBootstrapSent now s = s\<lparr>hsBootstrapSentAt := now\<rparr>"

text \<open>\<open>stats.RecordRTT\<close>: the first sample is the average, later ones are mixed in by \<open>ewma\<close>.\<close>

definition RecordRTT :: "(int \<Rightarrow> int \<Rightarrow> int) \<Rightarrow> int \<Rightarrow> stats \<Rightarrow> stats" where
  "RecordRTT ewma d g =
     counter_add rttCount 1 (g\<lparr>gRttEWMA := (if gCounters g rttCount = 0 then d else ewma d (gRttEWMA g))\<rparr>)"

text \<open>\<open>deliver\<close>: the response body, if there is a response, or the error of the round trip.\<close>

definition deliver :: "(int \<Rightarrow> int \<Rightarrow> int) \<Rightarrow> int \<Rightarrow> nat option \<Rightarrow> herr option \<Rightarrow> http2Stream \<times> h2 \<Rightarrow> http2Stream \<times> h2" where
  "deliver ewma now body err sh =
     (case sh of (s, h) \<Rightarrow>
       (let s = s\<lparr>hsR := body, hsRespErr := err\<rparr>;
            s = (case hsR s of
                   Some b \<Rightarrow> (if hsClosed s
                     then s\<lparr>hsR := None, hsBodyClosed := b # hsBodyClosed s,
                            hsRespErr := (if hsRespErr s = None then Some ErrClosedPipe else hsRespErr s)\<rparr>
                     else s)
                 | None \<Rightarrow> s);
            s = setRoundTripErr err s;
            h = (if err = None \<and> body \<noteq> None \<and> hsBootstrapSentAt s > 0
                 then h2_stats (RecordRTT ewma (now - hsBootstrapSentAt s)) h else h)
        in (s\<lparr>hsReady := True\<rparr>, h)))"

text \<open>
  What the goroutine of \<open>Open\<close> makes of a round trip: an error is passed on, a refusal closes its body
  and becomes an error, and only a 200 delivers a body.
\<close>

definition round_trip_result :: "(int \<times> nat) + herr \<Rightarrow> nat option \<times> herr option \<times> nat list" where
  "round_trip_result r =
     (case r of
        Inr e \<Rightarrow> (None, Some e, [])
      | Inl (status, body) \<Rightarrow>
          (if status \<noteq> 200 then (None, Some (HandshakeRejectedError status), [body]) else (Some body, None, [])))"

definition run_round_trip ::
  "(int \<Rightarrow> int \<Rightarrow> int) \<Rightarrow> int \<Rightarrow> (int \<times> nat) + herr \<Rightarrow> http2Stream \<times> h2 \<Rightarrow> http2Stream \<times> h2" where
  "run_round_trip ewma now r sh =
     (case sh of (s, h) \<Rightarrow>
       (let (body, err, closed) = round_trip_result r;
            s = s\<lparr>hsBodyClosed := closed @ hsBodyClosed s, hsWriteClosed := (err \<noteq> None \<or> hsWriteClosed s)\<rparr>
        in deliver ewma now body err (s, h)))"

definition roundTripErr :: "http2Stream \<times> h2 \<Rightarrow> herr option" where
  "roundTripErr sh = wrapRetired sh (hsRtErr (fst sh))"

text \<open>
  \<open>AwaitResponse\<close>: \<open>Inr\<close> is the return value, \<open>Inl\<close> that it still waits; \<open>ctx_err\<close> is the context's
  error, once it is done.
\<close>

definition AwaitResponse :: "herr option \<Rightarrow> http2Stream \<times> h2 \<Rightarrow> unit + herr option" where
  "AwaitResponse ctx_err sh =
     (if hsReady (fst sh) then
        (case roundTripErr sh of
           Some e \<Rightarrow> (if \<not> IsHandshakeRejected e then Inr (Some e) else Inr None)
         | None \<Rightarrow> Inr None)
      else case ctx_err of Some e \<Rightarrow> Inr (Some e) | None \<Rightarrow> Inl ())"

section \<open>Reading and writing\<close>

text \<open>
  \<open>Read\<close> waits for the response (\<open>None\<close>). \<open>res\<close> is what the body's \<open>Read\<close> returns.
\<close>

definition Read :: "int \<Rightarrow> int \<times> herr option \<Rightarrow> http2Stream \<times> h2 \<Rightarrow> ((int \<times> herr option) \<times> http2Stream \<times> h2) option" where
  "Read now res sh =
     (case sh of (s, h) \<Rightarrow>
       (if \<not> hsReady s then None
        else if hsClosed s then Some ((0, Some ErrClosedPipe), s, h)
        else case hsR s of
               None \<Rightarrow>
                 (let sh = stream_done now (s, h)
                  in case hsRespErr s of
                       Some e \<Rightarrow> Some ((0, wrapRetired sh (Some e)), sh)
                     | None \<Rightarrow> Some ((0, Some ErrEOF), sh))
             | Some _ \<Rightarrow>
                 (let (n, err) = res;
                      sh = (if n > 0 then trackRead now n (s, h) else (s, h))
                  in case err of
                       None \<Rightarrow> Some ((n, None), sh)
                     | Some e \<Rightarrow> (let sh = stream_done now sh in Some ((n, wrapRetired sh (Some e)), sh)))))"

definition Write :: "int \<Rightarrow> int \<times> herr option \<Rightarrow> http2Stream \<times> h2 \<Rightarrow> (int \<times> herr option) \<times> http2Stream \<times> h2" where
  "Write now res sh =
     (let (n, err) = res;
          sh = (if n > 0 then trackWrite now n sh else sh)
      in case err of
           None \<Rightarrow> ((n, None), sh)
         | Some e \<Rightarrow>
             (let sh = stream_done now sh
              in if errors_Is e ErrClosedPipe then
                   (case hsRtErr (fst sh) of
                      Some rt \<Rightarrow> ((n, wrapRetired sh (Some (Join ErrClosedPipe rt))), sh)
                    | None \<Rightarrow> ((n, wrapRetired sh (Some e)), sh))
                 else ((n, wrapRetired sh (Some e)), sh)))"

definition CloseWrite :: "http2Stream \<Rightarrow> http2Stream" where
  "CloseWrite s = s\<lparr>hsWriteClosed := True\<rparr>"

definition Close :: "int \<Rightarrow> http2Stream \<times> h2 \<Rightarrow> http2Stream \<times> h2" where
  "Close now sh =
     (case sh of (s, h) \<Rightarrow>
       (let s = s\<lparr>hsCanceled := True, hsWriteClosed := True, hsClosed := True\<rparr>;
            r = hsR s;
            s = s\<lparr>hsR := None, hsRespErr := (if hsRespErr s = None then Some ErrClosedPipe else hsRespErr s)\<rparr>;
            s = (case r of Some b \<Rightarrow> s\<lparr>hsBodyClosed := b # hsBodyClosed s\<rparr> | None \<Rightarrow> s)
        in stream_done now (s, h)))"

section \<open>Connections\<close>

definition noteConn :: "conn_id option \<Rightarrow> http2Stream \<Rightarrow> http2Stream" where
  "noteConn c s = (case c of Some c \<Rightarrow> s\<lparr>hsConn := Some c\<rparr> | None \<Rightarrow> s)"

definition InvalidateConn :: "http2Stream \<times> h2 \<Rightarrow> h2" where
  "InvalidateConn sh =
     (case sh of (s, h) \<Rightarrow>
       (case (hsSlot s, hsGen s, hsConn s) of
          (Some i, Some g, Some c) \<Rightarrow> snd (invalidateConnIf i (Some g) (Some c) h)
        | _ \<Rightarrow> h))"

definition SlotDraining :: "http2Stream \<times> h2 \<Rightarrow> bool" where
  "SlotDraining sh =
     (case hsSlot (fst sh) of None \<Rightarrow> False
      | Some i \<Rightarrow> tsExpiring (hSlots (snd sh) i) \<or> tsDegraded (hSlots (snd sh) i))"

text \<open>\<open>liveness\<close> is the check of one generation, absent when no probe token is configured.\<close>

type_synonym liveness_fun = "(gen_id \<Rightarrow> h2 \<Rightarrow> (bool \<times> bool) \<times> h2) option"

definition ConnAlive :: "liveness_fun \<Rightarrow> http2Stream \<times> h2 \<Rightarrow> (bool \<times> bool) \<times> h2" where
  "ConnAlive liveness sh =
     (case (liveness, hsGen (fst sh)) of
        (Some f, Some g) \<Rightarrow> f g (snd sh)
      | _ \<Rightarrow> ((False, False), snd sh))"

text \<open>
  \<open>slotProber.alive\<close>: \<open>head\<close> is the round trip of the HEAD request, which may change the
  connections, and \<open>url_ok\<close> that the request could be built at all.
\<close>

definition prober_alive :: "bool \<Rightarrow> (gen_id \<Rightarrow> h2 \<Rightarrow> bool \<times> h2) \<Rightarrow> gen_id \<Rightarrow> h2 \<Rightarrow> (bool \<times> bool) \<times> h2" where
  "prober_alive url_ok head g h =
     (case gtConn (hGens h g) of
        None \<Rightarrow> ((False, False), h)
      | Some c \<Rightarrow>
          (if \<not> url_ok then ((False, False), h)
           else let (ok, h) = head g (h2_stats RecordSlotProbeHead h)
           in if \<not> ok then ((False, True), h)
              else if gtConn (hGens h g) \<noteq> Some c then ((False, True), h)
              else ((True, True), h)))"

end
