(* ===== verification/H2Client.thy ===== *)
theory H2Client
  imports Complex_Main H2Stream
begin

text \<open>
  The HTTP/2 transport as its clients see it (\<open>src/transport/http2/client.go\<close>): building it, opening
  streams, closing idle connections and reporting. The clock readings, the answers of the HTTP library
  and the liveness check are arguments. \<open>None\<close> is a panic (an index out of range or a division by zero).
\<close>

definition maxGrowEvents :: nat where [simp]: "maxGrowEvents = 16"

record OpenRequest =
  orEndpoint :: string
  orSalt :: string
  orHighPriority :: bool
  orTarget :: string

record GrowEvent =
  geTime :: int
  gePool :: string
  geLive :: nat
  geEndpoint :: string
  geTarget :: string

record http2Transport =
  htT :: transport
  htGrowEvents :: "GrowEvent list"
  htCanceled :: bool

section \<open>Construction\<close>

record h2Config =
  hcHasTLS :: bool
  hcMaxSlotCount :: int
  hcStreamThreshold :: int
  hcPrioritySlotRatio :: real
  hcTimeouts :: Timeouts
  hcConnMaxBytes :: int
  hcProbeToken :: string

definition DefaultPrioritySlotRatio :: real where [simp]: "DefaultPrioritySlotRatio = 4 / 10"

definition New_maxSlots :: "h2Config \<Rightarrow> int" where
  "New_maxSlots cfg =
     (let maxSlots = hcMaxSlotCount cfg;
          maxSlots = (if maxSlots < 1 then 6 else maxSlots)
      in if maxSlots > MaxConnCountMax then MaxConnCountMax else maxSlots)"

definition New_threshold :: "h2Config \<Rightarrow> int" where
  "New_threshold cfg =
     (let threshold = int32 (hcStreamThreshold cfg);
          threshold = (if threshold < 1 then 8 else threshold)
      in if threshold > MaxStreamThreshold then MaxStreamThreshold else threshold)"

text \<open>\<open>fl\<close> is the rounding of \<open>float64\<close>.\<close>

definition New_prioritySlots :: "(real \<Rightarrow> real) \<Rightarrow> h2Config \<Rightarrow> int" where
  "New_prioritySlots fl cfg =
     (let maxSlots = New_maxSlots cfg;
          ratio = hcPrioritySlotRatio cfg;
          ratio = (if ratio \<le> 0 \<or> ratio > 1 then DefaultPrioritySlotRatio else ratio)
      in min (max \<lfloor>fl (fl (of_int maxSlots) * ratio)\<rfloor> 1) maxSlots)"

text \<open>
  \<open>New\<close> refuses a missing TLS configuration. The slots are numbered from 0, and \<open>h\<close> is the memory they
  are allocated in; starting the health loop is the caller's business here.
\<close>

definition newTransport :: "(real \<Rightarrow> real) \<Rightarrow> h2Config \<Rightarrow> h2 \<Rightarrow> (string + http2Transport) option" where
  "newTransport fl cfg h =
     (if \<not> hcHasTLS cfg then Some (Inl ''http2: TLSConfig is required'')
      else
        (let maxSlots = New_maxSlots cfg;
             timeouts = Timeouts_Normalize (hcTimeouts cfg);
             connMaxBytes = (if hcConnMaxBytes cfg \<le> 0 then DefaultConnMaxBytes else hcConnMaxBytes cfg);
             slots = [0..<nat maxSlots];
             h = fold newSlot slots h
         in case newScheduler maxSlots slots (New_threshold cfg) (New_prioritySlots fl cfg) h of
              None \<Rightarrow> None
            | Some (sc, h) \<Rightarrow>
                Some (Inr \<lparr>htT = \<lparr>tpSched = sc, tpH = h,
                        tpLife = \<lparr>lcConnLifetime = tConnLifetime timeouts, lcConnMaxBytes = connMaxBytes,
                          lcIdleTimeout = tIdleConn timeouts, lcHasProbe = (hcProbeToken cfg \<noteq> []),
                          lcProbeUnsupported = False, lcUnsupportedCount = 0, lcBaseline = suspendBaselineUnset,
                          lcSuspendEvents = 0, lcSamplingEpoch = 0\<rparr>\<rparr>,
                      htGrowEvents = [], htCanceled = False\<rparr>)))"

section \<open>Opening a stream\<close>

definition protoOfEndpoint :: "string \<Rightarrow> string" where
  "protoOfEndpoint endpoint =
     (if endpoint = EndpointTCP then ''tcp''
      else if endpoint = EndpointUDP then ''udp''
      else if endpoint = EndpointICMP then ''icmp''
      else if endpoint = EndpointProbe then ''probe''
      else endpoint)"

definition recordGrowEvent :: "int \<Rightarrow> string \<Rightarrow> nat \<Rightarrow> OpenRequest \<Rightarrow> http2Transport \<Rightarrow> http2Transport" where
  "recordGrowEvent now pool live req t =
     (let ev = \<lparr>geTime = now, gePool = pool, geLive = live, geEndpoint = orEndpoint req, geTarget = orTarget req\<rparr>;
          evs = htGrowEvents t @ [ev]
      in t\<lparr>htGrowEvents := (if length evs > maxGrowEvents then drop (length evs - maxGrowEvents) evs else evs)\<rparr>)"

definition upd_t :: "(transport \<Rightarrow> transport) \<Rightarrow> http2Transport \<Rightarrow> http2Transport" where
  "upd_t f t = t\<lparr>htT := f (htT t)\<rparr>"

text \<open>The first half of \<open>Open\<close>: suspend detection, accounting and growing.\<close>

definition open_grow :: "int \<Rightarrow> int \<Rightarrow> OpenRequest \<Rightarrow> http2Transport \<Rightarrow> http2Transport option" where
  "open_grow now offset req t =
     (let t = upd_t (observeSuspend now offset) t;
          t = upd_t (upd_h (h2_stats RecordStreamOpened)) t
      in case grow (tpSched (htT t)) (orHighPriority req) (tpH (htT t)) of
           None \<Rightarrow> None
         | Some (None, _, _) \<Rightarrow> Some t
         | Some (Some (pool, live), sc, h) \<Rightarrow>
             (let h = (if pool = Priority then h2_stats RecordSlotGrownPriority h else h2_stats RecordSlotGrownBulk h);
                  t = upd_t (\<lambda>x. x\<lparr>tpSched := sc, tpH := h\<rparr>) t
              in Some (recordGrowEvent now (if pool = Priority then ''priority'' else ''bulk'') live req t)))"

text \<open>The part under the read lock: picking a slot and taking a place in it.\<close>

definition open_pick :: "OpenRequest \<Rightarrow> http2Transport \<Rightarrow> (slot_id \<times> http2Transport) option" where
  "open_pick req t =
     (case pick (tpSched (htT t)) (orHighPriority req) (tpH (htT t)) of
        None \<Rightarrow> None
      | Some (slot, h) \<Rightarrow>
          (let h = slot_enter slot h;
               h = h2_stats (if orHighPriority req then RecordStreamOpenedPriority else RecordStreamOpenedBulk) h
           in Some (slot, upd_t (\<lambda>x. x\<lparr>tpH := h\<rparr>) t)))"

text \<open>\<open>ctx_done\<close>: the caller's context is already cancelled.\<close>

definition reverifySlot :: "liveness_fun \<Rightarrow> bool \<Rightarrow> slot_id \<Rightarrow> h2 \<Rightarrow> h2" where
  "reverifySlot liveness ctx_done s h =
     (let clear = upd_slot s (\<lambda>x. x\<lparr>tsReverify := False\<rparr>)
      in if \<not> tsReverify (hSlots h s) then h
         else case (tsGen (hSlots h s), liveness) of
                (Some g, Some f) \<Rightarrow>
                  (case gtConn (hGens h g) of
                     None \<Rightarrow> clear h
                   | Some probed \<Rightarrow>
                       (if ctx_done then h
                        else
                          (let ((alive, known), h) = f g h
                           in if \<not> known then clear h
                              else if alive then clear (h2_stats RecordSuspendReverifyAlive h)
                              else case invalidateConnIf s (Some g) (Some probed) h of
                                     (True, h) \<Rightarrow> clear (h2_stats RecordSuspendReverifyReplaced h)
                                   | (False, h) \<Rightarrow> clear h)))
              | _ \<Rightarrow> clear h)"

definition new_stream :: "int \<Rightarrow> slot_id \<Rightarrow> OpenRequest \<Rightarrow> http2Stream" where
  "new_stream now slot req =
     \<lparr>hsSlot = Some slot, hsGen = None, hsConn = None, hsReady = False, hsEndpoint = orEndpoint req,
      hsTarget = orTarget req, hsBootstrapSentAt = 0, hsR = None, hsRespErr = None, hsClosed = False,
      hsRtErr = None, hsStart = now, hsTransferred = 0, hsHeavy = heavyIdle, hsDone = False,
      hsCanceled = False, hsWriteClosed = False, hsBodyClosed = []\<rparr>"

text \<open>
  \<open>Open\<close>: a stream, or the error. \<open>req_err\<close> is the outcome of building the HTTP request; when it fails,
  the place in the slot is given back. \<open>ctx_err\<close> is the error of a cancelled transport.
\<close>

definition Open ::
  "liveness_fun \<Rightarrow> bool \<Rightarrow> herr option \<Rightarrow> herr \<Rightarrow> int \<Rightarrow> int \<Rightarrow> OpenRequest \<Rightarrow> http2Transport \<Rightarrow>
     ((http2Stream + herr) \<times> http2Transport) option" where
  "Open liveness ctx_done req_err ctx_err now offset req t =
     (if htCanceled t then Some (Inr ctx_err, t)
      else case open_grow now offset req t of
             None \<Rightarrow> None
           | Some t \<Rightarrow>
               (case open_pick req t of
                  None \<Rightarrow> None
                | Some (slot, t) \<Rightarrow>
                    (let t = upd_t (upd_h (reverifySlot liveness ctx_done slot)) t
                     in case req_err of
                          Some e \<Rightarrow> Some (Inr e, upd_t (upd_h (\<lambda>h. h2_stats RecordStreamClosed (slot_leave now slot h))) t)
                        | None \<Rightarrow> Some (Inl (new_stream now slot req), t))))"

text \<open>The goroutine of \<open>Open\<close> takes the slot's current generation when it submits the request.\<close>

definition submit :: "http2Stream \<times> h2 \<Rightarrow> http2Stream \<times> h2" where
  "submit sh = (case sh of (s, h) \<Rightarrow>
     (case hsSlot s of Some i \<Rightarrow> (s\<lparr>hsGen := tsGen (hSlots h i)\<rparr>, h) | None \<Rightarrow> (s, h)))"

section \<open>Closing and reporting\<close>

definition CloseIdle :: "http2Transport \<Rightarrow> http2Transport" where
  "CloseIdle t =
     (let sc = tpSched (htT t);
          h = fold close_idle (spSlots (scPriority sc) @ spSlots (scBulk sc)) (tpH (htT t))
      in upd_t (\<lambda>x. x\<lparr>tpH := h, tpSched := shrinkIdleLocked (hSlots h) sc\<rparr>) t)"

definition Transport_Close :: "http2Transport \<Rightarrow> http2Transport" where
  "Transport_Close t =
     (let sc = tpSched (htT t)
      in upd_t (upd_h (fold close_idle (live_snapshot (scPriority sc) @ live_snapshot (scBulk sc)))) (t\<lparr>htCanceled := True\<rparr>))"

record TransportStats =
  xsConns :: nat
  xsActiveStreams :: int
  xsPriorityActiveStreams :: int
  xsBulkActiveStreams :: int
  xsPriorityConns :: nat
  xsBulkConns :: nat
  xsGrowEvents :: "GrowEvent list"

definition sum_active :: "(slot_id \<Rightarrow> transportSlot) \<Rightarrow> slot_id list \<Rightarrow> int" where
  "sum_active sl ids = fold (\<lambda>i n. n + tsActive (sl i)) ids 0"

definition Transport_Stats :: "http2Transport \<Rightarrow> TransportStats" where
  "Transport_Stats t =
     (let sc = tpSched (htT t); sl = hSlots (tpH (htT t));
          pa = sum_active sl (live_snapshot (scPriority sc)); ba = sum_active sl (live_snapshot (scBulk sc))
      in \<lparr>xsConns = spLive (scPriority sc) + spLive (scBulk sc), xsActiveStreams = pa + ba,
          xsPriorityActiveStreams = pa, xsBulkActiveStreams = ba,
          xsPriorityConns = spLive (scPriority sc), xsBulkConns = spLive (scBulk sc),
          xsGrowEvents = rev (htGrowEvents t)\<rparr>)"

definition slotStatus :: "transportSlot \<Rightarrow> int \<Rightarrow> string" where
  "slotStatus s active =
     (let parts = (if tsHeavy s > 0 then [''heavy''] else []);
          parts = (if tsDegraded s then parts @ [''degraded''] else parts);
          parts = (if tsExpiring s then parts @ [''expiring''] else parts)
      in if parts = [] then (if active = 0 then ''idle'' else ''active'')
         else foldl (\<lambda>acc p. if acc = [] then p else acc @ ''+'' @ p) [] parts)"

end
