(* ===== verification/H2Health.thy ===== *)
theory H2Health
  imports H2Client
begin

text \<open>
  The health loop is safe and deliberate. \<open>calm\<close> collects what it must not touch; every function of the
  loop is calm, and so is a tick. Two step relations with their invariants (interpretations of the
  prelude's \<open>step_invariant\<close>) show that slots are degraded only after persistent low throughput, and that
  the samplers of the clocks, which race without a lock, account for every suspend once.
\<close>

section \<open>What the health loop leaves alone\<close>

text \<open>
  \<open>calm t t'\<close>: no stream is disturbed on the way from \<open>t\<close> to \<open>t'\<close>. The stream counts of all slots are
  the same, no connection is closed by force, a slot with streams keeps its generation and stays live,
  and the scheduler stays well formed.
\<close>

definition calm :: "transport \<Rightarrow> transport \<Rightarrow> bool" where
  "calm t t' \<longleftrightarrow>
     (\<forall>s. tsActive (slot_at s t') = tsActive (slot_at s t) \<and> tsHeavy (slot_at s t') = tsHeavy (slot_at s t) \<and>
        (tsActive (slot_at s t) = 0 \<or> tsGen (slot_at s t') = tsGen (slot_at s t))) \<and>
     hClosed (tpH t') = hClosed (tpH t) \<and>
     (sched_ok (tpSched t) \<longrightarrow> sched_ok (tpSched t') \<and> same_slots (tpSched t) (tpSched t') \<and>
        live_of (tpSched t') \<subseteq> live_of (tpSched t) \<and>
        (\<forall>s \<in> live_of (tpSched t) - live_of (tpSched t'). tsActive (slot_at s t) = 0))"

lemma calm_refl [simp]: "calm t t"
  by (auto simp: calm_def same_slots_def)

lemma calm_trans:
  assumes "calm t u" "calm u v" shows "calm t v"
proof -
  have "sched_ok (tpSched v) \<and> same_slots (tpSched t) (tpSched v) \<and> live_of (tpSched v) \<subseteq> live_of (tpSched t) \<and>
      (\<forall>s \<in> live_of (tpSched t) - live_of (tpSched v). tsActive (slot_at s t) = 0)" if "sched_ok (tpSched t)"
    using assms that unfolding calm_def by (auto simp: same_slots_def; metis)
  then show ?thesis using assms unfolding calm_def by (auto; metis)
qed

lemma calm_fold: "(\<And>x t. calm t (f x t)) \<Longrightarrow> calm t (fold f xs t)"
  by (induction xs arbitrary: t) (auto intro: calm_trans)

lemma calm_fold_pair:
  "(\<And>x n t. calm t (snd (f x (n, t)))) \<Longrightarrow> calm (snd nt) (snd (fold f xs nt))"
proof (induction xs arbitrary: nt)
  case (Cons x xs)
  have "calm (snd nt) (snd (f x nt))" using Cons.prems by (cases nt) simp
  moreover have "calm (snd (f x nt)) (snd (fold f xs (f x nt)))" by (rule Cons.IH) (rule Cons.prems)
  ultimately show ?case by (auto intro: calm_trans)
qed simp

lemma calm_upd_slot [intro]:
  "(\<And>x. tsActive (f x) = tsActive x \<and> tsHeavy (f x) = tsHeavy x \<and> tsGen (f x) = tsGen x) \<Longrightarrow> calm t (upd_h (upd_slot s f) t)"
  by (auto simp: calm_def upd_h_def slot_at_def same_slots_def)

text \<open>Replacing the record of a slot by one with the same counts and generation.\<close>

lemma calm_set_slot [intro]:
  "tsActive x = tsActive (slot_at s t) \<Longrightarrow> tsHeavy x = tsHeavy (slot_at s t) \<Longrightarrow> tsGen x = tsGen (slot_at s t) \<Longrightarrow>
   calm t (upd_h (upd_slot s (\<lambda>_. x)) t)"
  by (auto simp: calm_def upd_h_def slot_at_def same_slots_def)

lemma calm_stats [intro]: "calm t (upd_h (h2_stats f) t)"
  by (auto simp: calm_def upd_h_def slot_at_def h2_stats_def same_slots_def)

lemma calm_life [intro]: "calm t (upd_life f t)"
  by (auto simp: calm_def upd_life_def slot_at_def same_slots_def)

lemma calm_close_idle [intro]: "calm t (upd_h (close_idle s) t)"
  by (auto simp: calm_def upd_h_def slot_at_def close_idle_def CloseIdleConnections_def same_slots_def split: option.split)

lemma for_live_calm: "(\<And>s t. calm t (f s t)) \<Longrightarrow> calm t (for_live f t)"
  unfolding for_live_def Let_def by (rule calm_trans [OF calm_fold calm_fold])

section \<open>Suspends\<close>

lemma retireIdleConn_frame:
  assumes "retireIdleConn s gen h = (r, h')"
  shows "hClosed h' = hClosed h \<and> tsActive (hSlots h' s) = tsActive (hSlots h s) \<and> tsHeavy (hSlots h' s) = tsHeavy (hSlots h s) \<and>
     (\<forall>s'. s' \<noteq> s \<longrightarrow> hSlots h' s' = hSlots h s')"
  using assms
  by (auto simp: retireIdleConn_def retireConn_def takeConn_def advanceGeneration_def CloseIdleConnections_def Let_def
      split: option.splits if_splits prod.splits bool.splits)

lemma retireIdle_one_calm: "calm t (snd (retireIdle_one now s (n, t)))"
proof (cases "tsGen (slot_at s t) = None \<or> tsActive (slot_at s t) \<noteq> 0 \<or> idleFor (slot_at s t) now \<le> lcIdleTimeout (tpLife t)")
  case True
  then show ?thesis by (simp add: retireIdle_one_def)
next
  case False
  obtain r h' where r: "retireIdleConn s (tsGen (slot_at s t)) (tpH t) = (r, h')" by fastforce
  have "snd (retireIdle_one now s (n, t)) = t\<lparr>tpH := h'\<rparr>" using False r by (auto simp: retireIdle_one_def Let_def)
  then show ?thesis using False retireIdleConn_frame [OF r]
    by (auto simp: calm_def slot_at_def same_slots_def) metis+
qed

lemma retireIdle_calm: "calm t (snd (retireIdlePastH2Timeout now t))"
proof -
  have f: "calm (snd nt) (snd (fold (retireIdle_one now) xs nt))" for xs nt
    by (rule calm_fold_pair) (rule retireIdle_one_calm)
  show ?thesis
    using f [of "(0, t)"] f by (auto simp: retireIdlePastH2Timeout_def Let_def split: prod.split) (metis calm_trans snd_conv)
qed

lemma arm_one_calm: "calm t (snd (arm_one s (n, t)))"
  by (auto simp: arm_one_def Let_def)

lemma armSuspects_calm: "calm t (snd (armSuspects t))"
proof -
  have f: "calm (snd nt) (snd (fold arm_one xs nt))" for xs nt
    by (rule calm_fold_pair) (rule arm_one_calm)
  show ?thesis
    using f [of "(0, t)"] f by (auto simp: armSuspects_def Let_def split: prod.split) (metis calm_trans snd_conv)
qed

lemma reportSuspend_calm: "calm t (reportSuspend now t)"
proof -
  have eq: "reportSuspend now t = snd (armSuspects (snd (retireIdlePastH2Timeout now (upd_h (h2_stats RecordSuspendDetected) t))))"
    by (simp add: reportSuspend_def Let_def split: prod.split)
  show ?thesis unfolding eq by (rule calm_trans [OF calm_stats calm_trans [OF retireIdle_calm armSuspects_calm]])
qed

lemma observeSuspend_calm: "calm t (observeSuspend now off t)"
  by (auto simp: observeSuspend_def Let_def split: prod.split intro: calm_trans [OF calm_life [THEN calm_trans, OF calm_life] reportSuspend_calm])

lemma resetSampling_calm: "calm t (resetSamplingOnSuspend t)"
proof -
  have "calm u (for_live (\<lambda>s. upd_h (upd_slot s (\<lambda>x. x\<lparr>tsLastHeavy := 0\<rparr>))) u)" for u
    by (rule for_live_calm) (rule calm_upd_slot, simp)
  then show ?thesis by (auto simp: resetSamplingOnSuspend_def Let_def intro: calm_trans [OF calm_life])
qed


section \<open>Evaluating a slot\<close>

lemma resetProbeState_simps [simp]:
  "tsActive (resetProbeState x) = tsActive x" "tsHeavy (resetProbeState x) = tsHeavy x" "tsGen (resetProbeState x) = tsGen x"
  "tsActive (clearProbeProgress x) = tsActive x" "tsHeavy (clearProbeProgress x) = tsHeavy x" "tsGen (clearProbeProgress x) = tsGen x"
  "tsDegraded (resetProbeState x) = tsDegraded x" "tsDegraded (clearProbeProgress x) = tsDegraded x"
  "tsExpiring (resetProbeState x) = tsExpiring x" "tsExpiring (clearProbeProgress x) = tsExpiring x"
  "tsLowCycles (resetProbeState x) = tsLowCycles x" "tsLowCycles (clearProbeProgress x) = tsLowCycles x"
  "tsLastHeavy (resetProbeState x) = tsLastHeavy x" "tsRecoverCycles (clearProbeProgress x) = tsRecoverCycles x"
  by (simp_all add: resetProbeState_def clearProbeProgress_def)

lemma slot_at_simps [simp]:
  "slot_at s (upd_h (upd_slot s f) t) = f (slot_at s t)" "slot_at s (upd_h (h2_stats g) t) = slot_at s t"
  "slot_at s (upd_life l t) = slot_at s t" "tpLife (upd_h k t) = tpLife t" "tpSched (upd_h k t) = tpSched t"
  "tpSched (upd_life l t) = tpSched t" "tpH (upd_life l t) = tpH t" "tpH (upd_h k t) = k (tpH t)"
  by (simp_all add: slot_at_def upd_h_def upd_life_def h2_stats_def)

lemma h2_stats_simps [simp]:
  "hSlots (h2_stats f h) = hSlots h" "hGens (h2_stats f h) = hGens h" "hClosed (h2_stats f h) = hClosed h" "hNextGen (h2_stats f h) = hNextGen h"
  by (simp_all add: h2_stats_def)

text \<open>An update of one slot that also counts something.\<close>

lemma calm_upd [intro]:
  assumes "\<And>h s'. tsActive (hSlots (f h) s') = tsActive (hSlots h s') \<and> tsHeavy (hSlots (f h) s') = tsHeavy (hSlots h s') \<and>
       tsGen (hSlots (f h) s') = tsGen (hSlots h s')" "\<And>h. hClosed (f h) = hClosed h"
  shows "calm t (upd_h f t)"
  using assms by (auto simp: calm_def slot_at_def same_slots_def)

lemma connIdentity_upd [simp]:
  "(\<And>x. tsGen (f x) = tsGen x) \<Longrightarrow> connIdentity (upd_slot s f h) s' = connIdentity h s'"
  by (simp add: connIdentity_def split: option.split)

lemma slot_health_frame:
  assumes "slot_health lc conn now interval linkOK x = (x', d)"
  shows "tsActive x' = tsActive x \<and> tsHeavy x' = tsHeavy x \<and> tsGen x' = tsGen x \<and> tsExpiring x' = tsExpiring x"
  using assms by (auto simp: slot_health_def Let_def split: if_splits)

lemma evaluateSlotHealth_calm: "calm t (evaluateSlotHealth now s interval linkOK t)"
proof -
  obtain x d where x: "slot_health (tpLife t) (connIdentity (tpH t) s) now interval linkOK (slot_at s t) = (x, d)" by fastforce
  note f = slot_health_frame [OF x]
  have "calm t (upd_h (upd_slot s (\<lambda>_. x)) t)" using f by (intro calm_set_slot) simp_all
  then show ?thesis using x by (auto simp: evaluateSlotHealth_def Let_def intro: calm_trans [OF _ calm_stats])
qed

lemma evaluateRotation_calm: "calm t (evaluateRotation now s t)"
proof -
  have "calm t (upd_h (\<lambda>h. h2_stats RecordConnRotated
       (upd_slot s (\<lambda>x. x\<lparr>tsExpiring := False, tsExpireAt := 0, tsConnBytes := 0\<rparr>) (close_idle s h))) t)"
    by (rule calm_upd) (auto simp: close_idle_def CloseIdleConnections_def split: option.split)
  moreover have "calm t (upd_h (upd_slot s (\<lambda>x. x\<lparr>tsExpiring := True\<rparr>)) t)" by (rule calm_upd_slot) simp
  ultimately show ?thesis by (simp add: evaluateRotation_def Let_def)
qed

lemma sched_calm:
  assumes "sched_remove s (hSlots (tpH t)) (tpSched t) = (r, sc)"
  shows "calm t (t\<lparr>tpSched := sc\<rparr>)"
  using remove_ok [OF _ assms] by (auto simp: calm_def slot_at_def split: if_splits)

lemma retire_calm: "calm t (retire s t)"
proof -
  let ?u = "upd_h (close_idle s) t"
  obtain r sc where r: "sched_remove s (hSlots (tpH ?u)) (tpSched ?u) = (r, sc)" by fastforce
  have "calm t (?u\<lparr>tpSched := sc\<rparr>)" by (rule calm_trans [OF calm_close_idle sched_calm [OF r]])
  then show ?thesis using r by (auto simp: retire_def Let_def intro: calm_trans [OF _ calm_stats])
qed

lemma evaluate_slot_calm: "calm t (evaluate_slot now interval linkOK s t)"
  unfolding evaluate_slot_def Let_def
  by (auto intro: calm_trans [OF calm_trans [OF evaluateSlotHealth_calm evaluateRotation_calm] retire_calm]
      calm_trans [OF evaluateSlotHealth_calm evaluateRotation_calm])

section \<open>Probing\<close>

text \<open>What is required of the HTTP library during a probe: it disturbs no stream either.\<close>

definition probe_calm :: "probe_fun \<Rightarrow> bool" where
  "probe_calm probe \<longleftrightarrow> (\<forall>t s. calm t (t\<lparr>tpH := snd (probe s (tpH t))\<rparr>))"

lemma probe_verdict_slot_simps [simp]:
  "tsActive (probe_verdict_slot now c v x) = tsActive x" "tsHeavy (probe_verdict_slot now c v x) = tsHeavy x"
  "tsGen (probe_verdict_slot now c v x) = tsGen x"
  by (simp_all add: probe_verdict_slot_def Let_def split: probeVerdict.split)

lemma probeSlot_calm:
  assumes "probe_calm probe" shows "calm t (probeSlot probe now s t)"
proof -
  obtain v h where p: "probe s (tpH t) = (v, h)" by fastforce
  let ?u = "t\<lparr>tpH := h2_stats RecordSlotProbeGet h\<rparr>"
  have "calm t (t\<lparr>tpH := h\<rparr>)" using assms p unfolding probe_calm_def by (metis snd_conv)
  from calm_trans [OF this calm_stats [of _ RecordSlotProbeGet]] have u: "calm t ?u" by (simp add: upd_h_def)
  have r: "calm w (upd_h (upd_slot s resetProbeState) w)" for w by (rule calm_upd_slot) simp
  let ?w = "upd_h (upd_slot s (\<lambda>_. probe_verdict_slot now (connIdentity (tpH t) s) v (slot_at s ?u))) ?u"
  have w: "calm t ?w" by (rule calm_trans [OF u]) (rule calm_set_slot, simp_all)
  have st: "calm t (upd_h (h2_stats f) v)" if "calm t v" for f v by (rule calm_trans [OF that calm_stats])
  have lf: "calm t (upd_life f v)" if "calm t v" for f v by (rule calm_trans [OF that calm_life])
  show ?thesis
  proof (cases "connIdentity (tpH t) s = None \<or> connIdentity (tpH ?u) s \<noteq> connIdentity (tpH t) s")
    case True
    then show ?thesis using r calm_trans [OF u r] p by (auto simp: probeSlot_def Let_def)
  next
    case False
    then show ?thesis using w p by (cases v) (auto simp: probeSlot_def Let_def intro!: st lf)
  qed
qed

lemma probe_one_calm:
  assumes "probe_calm probe" shows "calm t (snd (probe_one probe now s (n, t)))"
proof -
  define u where "u = (if probeStateStale (tpH t) s then upd_h (upd_slot s resetProbeState) t else t)"
  have r: "calm w (upd_h (upd_slot s resetProbeState) w)" for w by (rule calm_upd_slot) simp
  have u: "calm t u" by (simp add: u_def r)
  show ?thesis
    using u calm_trans [OF u r] calm_trans [OF u probeSlot_calm [OF assms]]
    by (simp add: probe_one_def u_def [symmetric] Let_def)
qed

lemma evaluateProbes_calm: "probe_calm probe \<Longrightarrow> calm t (snd (evaluateProbes probe now linkOK t))"
proof -
  assume p: "probe_calm probe"
  have f: "calm (snd nt) (snd (fold (probe_one probe now) xs nt))" for xs nt
    by (rule calm_fold_pair) (rule probe_one_calm [OF p])
  show ?thesis
    using f [of "(0, t)"] f by (auto simp: evaluateProbes_def Let_def split: prod.split) (metis calm_trans snd_conv)
qed

lemma evaluate_calm: "probe_calm probe \<Longrightarrow> calm t (evaluate probe now interval t)"
  unfolding evaluate_def Let_def by (rule calm_trans [OF for_live_calm [OF evaluate_slot_calm] evaluateProbes_calm])

lemma tick_calm: "probe_calm probe \<Longrightarrow> calm t (lifecycle_tick probe now off t)"
  unfolding lifecycle_tick_def
  by (rule calm_trans [OF calm_trans [OF observeSuspend_calm resetSampling_calm] evaluate_calm])


section \<open>Persistence of low throughput\<close>

text \<open>
  A slot seen by the health loop, with a ghost count of the intervals of low throughput in a row. A
  sample is taken when the slot carried a heavy stream for the whole interval, the link is fine and no
  probe has cleared the slot lately; other evaluations do not count either way, except that a first
  heavy stream starts a new sequence. In between, streams change everything but the counters of the loop.
\<close>

record health_watch =
  hwSlot :: transportSlot
  hwLow :: nat
  hwConn :: "conn_id option"

definition sampled :: "bool \<Rightarrow> int \<Rightarrow> conn_id option \<Rightarrow> transportSlot \<Rightarrow> bool" where
  "sampled linkOK now conn x \<longleftrightarrow> tsHeavy x \<noteq> 0 \<and> tsLastHeavy x \<noteq> 0 \<and> linkOK \<and>
     \<not> (now < tsProbeHoldUntil x \<and> (tsProbeConn x = None \<or> tsProbeConn x = conn))"

definition watch_eval :: "slotLifecycle \<Rightarrow> int \<Rightarrow> int \<Rightarrow> bool \<Rightarrow> health_watch \<Rightarrow> health_watch" where
  "watch_eval lc now interval linkOK w =
     (let x = hwSlot w; x' = fst (slot_health lc (hwConn w) now interval linkOK x)
      in w\<lparr>hwSlot := x',
           hwLow := (if sampled linkOK now (hwConn w) x
                     then (if throughput_of interval x < DegradedThroughputThreshold then Suc (hwLow w) else 0)
                     else if tsHeavy x \<noteq> 0 \<and> tsLastHeavy x = 0 then 0
                     else hwLow w)\<rparr>)"

inductive watch_step :: "health_watch \<Rightarrow> health_watch \<Rightarrow> bool" where
  eval: "0 < interval \<Longrightarrow> 0 \<le> now \<Longrightarrow> watch_step w (watch_eval lc now interval linkOK w)"
| other: "tsLowCycles x = tsLowCycles (hwSlot w) \<Longrightarrow> watch_step w (w\<lparr>hwSlot := x, hwConn := c\<rparr>)"

inductive_cases watch_stepE: "watch_step w w'"

definition watch_init :: "health_watch \<Rightarrow> bool" where
  "watch_init w \<longleftrightarrow> tsLowCycles (hwSlot w) = 0"

definition watch_inv :: "health_watch \<Rightarrow> bool" where
  "watch_inv w \<longleftrightarrow> 0 \<le> tsLowCycles (hwSlot w) \<and> tsLowCycles (hwSlot w) \<le> int (hwLow w)"

lemma throughput_resetProbeState [simp]: "throughput_of interval (resetProbeState x) = throughput_of interval x"
  by (simp add: throughput_of_def resetProbeState_def clearProbeProgress_def)

lemma resetProbeState_hold [simp]: "tsProbeHoldUntil (resetProbeState x) = 0"
  by (simp add: resetProbeState_def)

text \<open>The counter of low cycles, and when a slot is marked.\<close>

lemma slot_health_low:
  assumes h: "slot_health lc conn now interval linkOK x = (x', d)" and now: "0 \<le> now"
  shows "tsLowCycles x' =
       (if sampled linkOK now conn x
        then if throughput_of interval x < DegradedThroughputThreshold
             then if tsLowCycles x + 1 \<ge> DegradedPersistCycles \<and> \<not> tsDegraded x then 0 else tsLowCycles x + 1
             else 0
        else if tsHeavy x \<noteq> 0 \<and> tsLastHeavy x = 0 then 0 else tsLowCycles x)"
    and "d \<longleftrightarrow> tsDegraded x' \<and> \<not> tsDegraded x"
    and "d \<Longrightarrow> sampled linkOK now conn x \<and> throughput_of interval x < DegradedThroughputThreshold \<and>
       tsLowCycles x + 1 \<ge> DegradedPersistCycles \<and> (lcProbeUnsupported lc \<or> \<not> lcHasProbe lc)"
    and "tsSuspected x' \<and> \<not> tsSuspected x \<Longrightarrow> sampled linkOK now conn x \<and> throughput_of interval x < DegradedThroughputThreshold \<and>
       tsLowCycles x + 1 \<ge> DegradedPersistCycles \<and> tsProbeConn x' = conn"
proof -
  let ?y = "if tsProbeConn x \<noteq> None \<and> tsProbeConn x \<noteq> conn then resetProbeState x else x"
  have hold: "now < tsProbeHoldUntil ?y \<longleftrightarrow> now < tsProbeHoldUntil x \<and> (tsProbeConn x = None \<or> tsProbeConn x = conn)"
    using now by auto
  have y: "tsHeavy ?y = tsHeavy x" "tsLastHeavy ?y = tsLastHeavy x" "tsLowCycles ?y = tsLowCycles x"
    "tsDegraded ?y = tsDegraded x" "throughput_of interval ?y = throughput_of interval x" by simp_all
  have susp: "tsSuspected ?y \<longrightarrow> tsSuspected x" by (auto simp: resetProbeState_def clearProbeProgress_def)
  show "tsLowCycles x' = (if sampled linkOK now conn x
        then if throughput_of interval x < DegradedThroughputThreshold
             then if tsLowCycles x + 1 \<ge> DegradedPersistCycles \<and> \<not> tsDegraded x then 0 else tsLowCycles x + 1
             else 0
        else if tsHeavy x \<noteq> 0 \<and> tsLastHeavy x = 0 then 0 else tsLowCycles x)"
    using h hold y unfolding slot_health_def Let_def sampled_def by (auto split: if_splits)
  show "d \<longleftrightarrow> tsDegraded x' \<and> \<not> tsDegraded x"
    using h y unfolding slot_health_def Let_def by (auto split: if_splits)
  show "sampled linkOK now conn x \<and> throughput_of interval x < DegradedThroughputThreshold \<and>
       tsLowCycles x + 1 \<ge> DegradedPersistCycles \<and> (lcProbeUnsupported lc \<or> \<not> lcHasProbe lc)" if d
    using that h hold y unfolding slot_health_def Let_def sampled_def by (auto split: if_splits)
  show "sampled linkOK now conn x \<and> throughput_of interval x < DegradedThroughputThreshold \<and>
       tsLowCycles x + 1 \<ge> DegradedPersistCycles \<and> tsProbeConn x' = conn" if "tsSuspected x' \<and> \<not> tsSuspected x"
    using that h hold y susp unfolding slot_health_def Let_def sampled_def by (auto simp: clearProbeProgress_def split: if_splits)
qed


lemma watch_inv_eval:
  assumes "watch_inv w" "0 \<le> now"
  shows "watch_inv (watch_eval lc now interval linkOK w)"
proof -
  obtain x' d where h: "slot_health lc (hwConn w) now interval linkOK (hwSlot w) = (x', d)" by fastforce
  show ?thesis using assms(1) slot_health_low(1) [OF h assms(2)]
    by (simp add: watch_inv_def watch_eval_def Let_def h)
qed

interpretation watch: step_invariant watch_init watch_step watch_inv
proof unfold_locales
  fix w w' assume "watch_inv w" "watch_step w w'"
  from this(2,1) show "watch_inv w'" by (cases rule: watch_step.cases) (auto simp: watch_inv_def watch_inv_eval [unfolded watch_inv_def])
qed (simp add: watch_init_def watch_inv_def)

section \<open>Sampling the clocks\<close>

text \<open>
  The sampler is shared by the health loop and by every opening stream, without a lock: a sampler loads
  the baseline and then tries to exchange it for its own offset, starting over if another one was
  faster. Each sampler is at a program point; the ghost list collects the divergences reported.
\<close>

datatype sampler = Idle | Fresh int | Loaded int int

record samplers =
  smPc :: "nat \<Rightarrow> sampler"
  smBase :: int
  smFirst :: "int option"
  smReported :: "int list"

inductive sampler_step :: "samplers \<Rightarrow> samplers \<Rightarrow> bool" where
  start: "smPc m i = Idle \<Longrightarrow> offset \<noteq> suspendBaselineUnset \<Longrightarrow> sampler_step m (m\<lparr>smPc := (smPc m)(i := Fresh offset)\<rparr>)"
| load: "smPc m i = Fresh offset \<Longrightarrow> sampler_step m (m\<lparr>smPc := (smPc m)(i := Loaded offset (smBase m))\<rparr>)"
| retry: "smPc m i = Loaded offset prev \<Longrightarrow> smBase m \<noteq> prev \<Longrightarrow>
     sampler_step m (m\<lparr>smPc := (smPc m)(i := Fresh offset)\<rparr>)"
| first: "smPc m i = Loaded offset prev \<Longrightarrow> smBase m = prev \<Longrightarrow> sampleOffset offset prev = ((dv, False), b) \<Longrightarrow>
     sampler_step m (m\<lparr>smPc := (smPc m)(i := Idle), smBase := b, smFirst := Some offset\<rparr>)"
| report: "smPc m i = Loaded offset prev \<Longrightarrow> smBase m = prev \<Longrightarrow> sampleOffset offset prev = ((dv, True), b) \<Longrightarrow>
     sampler_step m (m\<lparr>smPc := (smPc m)(i := Idle), smBase := b, smReported := dv # smReported m\<rparr>)"

inductive_cases sampler_stepE: "sampler_step m m'"

definition sampler_init :: "samplers \<Rightarrow> bool" where
  "sampler_init m \<longleftrightarrow> smBase m = suspendBaselineUnset \<and> smFirst m = None \<and> smReported m = [] \<and> (\<forall>i. smPc m i = Idle)"

definition sampler_inv :: "samplers \<Rightarrow> bool" where
  "sampler_inv m \<longleftrightarrow> (\<forall>i off. smPc m i = Fresh off \<longrightarrow> off \<noteq> 0) \<and> (\<forall>i off prev. smPc m i = Loaded off prev \<longrightarrow> off \<noteq> 0) \<and>
     (case smFirst m of None \<Rightarrow> smBase m = 0 \<and> smReported m = []
      | Some f \<Rightarrow> smBase m \<noteq> 0 \<and> int64 (sum_list (smReported m)) = int64 (smBase m - f))"

lemma int64_eq_iff: "int64 x = int64 y \<longleftrightarrow> 2 ^ 64 dvd x - y"
  by (simp add: int64_def mod_eq_dvd_iff)

lemma int64_sum: "int64 x = int64 y \<Longrightarrow> int64 (int64 z + x) = int64 (z + y)"
proof -
  assume "int64 x = int64 y"
  moreover have "(2 :: int) ^ 64 dvd int64 z - z"
    unfolding int64_def by (simp add: mod_eq_dvd_iff [symmetric] algebra_simps)
  ultimately have "2 ^ 64 dvd (int64 z - z) + (x - y)" unfolding int64_eq_iff by (rule dvd_add [rotated])
  then show ?thesis unfolding int64_eq_iff by (simp add: algebra_simps)
qed

lemma sampler_inv_report:
  assumes inv: "sampler_inv m" and pc: "smPc m i = Loaded offset (smBase m)" and s: "sampleOffset offset (smBase m) = ((dv, True), b)"
  shows "sampler_inv (m\<lparr>smPc := (smPc m)(i := Idle), smBase := b, smReported := dv # smReported m\<rparr>)"
proof -
  have p: "smBase m \<noteq> 0" "dv = int64 (offset - smBase m)" "b = offset" using s by (auto simp: sampleOffset_def split: if_splits)
  then obtain f where f: "smFirst m = Some f" using inv by (auto simp: sampler_inv_def split: option.splits)
  have o: "offset \<noteq> 0" using inv pc unfolding sampler_inv_def by blast
  have "int64 (dv + sum_list (smReported m)) = int64 (offset - f)"
    using int64_sum [of "sum_list (smReported m)" "smBase m - f" "offset - smBase m"] inv f p by (simp add: sampler_inv_def)
  then show ?thesis using inv f o p(3) by (simp add: sampler_inv_def)
qed

lemma sampler_inv_step: "sampler_inv m \<Longrightarrow> sampler_step m m' \<Longrightarrow> sampler_inv m'"
  by (erule sampler_stepE)
    (auto intro: sampler_inv_report, auto simp: sampler_inv_def sampleOffset_def split: if_splits option.splits, blast+)

interpretation sampling: step_invariant sampler_init sampler_step sampler_inv
  by unfold_locales (simp add: sampler_init_def sampler_inv_def, fact sampler_inv_step)


section \<open>Properties\<close>

text \<open>
  A tick of the health loop - suspend detection, throughput, rotation, retirement and probes - never
  disturbs a stream, as long as the HTTP library does not while it runs a probe: no connection is closed
  by force, the stream counts stay, and a slot with streams keeps its generation and stays live.
\<close>

theorem health_loop_disturbs_no_stream:
  assumes "probe_calm probe" "sched_ok (tpSched t)" "t' = lifecycle_tick probe now off t"
  shows "hClosed (tpH t') = hClosed (tpH t) \<and> sched_ok (tpSched t') \<and> same_slots (tpSched t) (tpSched t') \<and>
     tsActive (slot_at s t') = tsActive (slot_at s t) \<and> tsHeavy (slot_at s t') = tsHeavy (slot_at s t) \<and>
     (if tsActive (slot_at s t) = 0 then s \<notin> live_of (tpSched t') \<or> s \<in> live_of (tpSched t)
      else tsGen (slot_at s t') = tsGen (slot_at s t) \<and> (s \<in> live_of (tpSched t') \<longleftrightarrow> s \<in> live_of (tpSched t)))"
proof -
  have "calm t t'" unfolding assms(3) by (rule tick_calm [OF assms(1)])
  then show ?thesis using assms(2) by (auto simp: calm_def)
qed

definition quiet_probe :: probe_fun where "quiet_probe s h = (probeSlow, h)"

lemma quiet_probe_calm: "probe_calm quiet_probe"
  by (simp add: probe_calm_def quiet_probe_def)

definition demo_life :: slotLifecycle where
  "demo_life = \<lparr>lcConnLifetime = 1, lcConnMaxBytes = 1000, lcIdleTimeout = 5, lcHasProbe = True, lcProbeUnsupported = False,
     lcUnsupportedCount = 0, lcBaseline = 0, lcSuspendEvents = 0, lcSamplingEpoch = 0\<rparr>"

definition demo_transport :: transport where
  "demo_transport = \<lparr>tpSched = demo_sched, tpH = empty_h2, tpLife = demo_life\<rparr>"

theorem health_loop_disturbs_no_stream_witness:
  "hClosed (tpH (lifecycle_tick quiet_probe 7 9 demo_transport)) = []"
  using health_loop_disturbs_no_stream [OF quiet_probe_calm, of demo_transport "lifecycle_tick quiet_probe 7 9 demo_transport" 7 9 0]
    demo_sched_ok(1) by (simp add: demo_transport_def empty_h2_def)

text \<open>
  A slot is marked as degraded, or put under suspicion and handed to the prober, only at the end of
  at least three consecutive intervals of low throughput: intervals in which it carried a heavy stream on
  a healthy link and was not under the protection of a fast probe. Whatever the streams do meanwhile.
\<close>

theorem degradation_needs_persistence:
  assumes "reachable_from watch_init watch_step w" "0 \<le> now"
    and "slot_health lc (hwConn w) now interval linkOK (hwSlot w) = (x', d)"
  shows "(d \<longleftrightarrow> tsDegraded x' \<and> \<not> tsDegraded (hwSlot w)) \<and>
     (\<not> (d \<or> tsSuspected x' \<and> \<not> tsSuspected (hwSlot w)) \<or>
      (DegradedPersistCycles \<le> int (hwLow (watch_eval lc now interval linkOK w)) \<and> linkOK \<and> tsHeavy (hwSlot w) \<noteq> 0 \<and>
       throughput_of interval (hwSlot w) < DegradedThroughputThreshold))"
proof -
  have inv: "watch_inv w" by (rule watch.inv_reachable [OF assms(1)])
  note sl = slot_health_low [OF assms(3,2)]
  have "DegradedPersistCycles \<le> int (hwLow (watch_eval lc now interval linkOK w)) \<and> linkOK \<and> tsHeavy (hwSlot w) \<noteq> 0 \<and>
       throughput_of interval (hwSlot w) < DegradedThroughputThreshold"
    if "d \<or> tsSuspected x' \<and> \<not> tsSuspected (hwSlot w)"
  proof -
    have s: "sampled linkOK now (hwConn w) (hwSlot w)" "throughput_of interval (hwSlot w) < DegradedThroughputThreshold"
      "DegradedPersistCycles \<le> tsLowCycles (hwSlot w) + 1" using that sl(3,4) by auto
    have "int (hwLow (watch_eval lc now interval linkOK w)) = int (hwLow w) + 1"
      using s by (simp add: watch_eval_def Let_def)
    then show ?thesis using s inv by (simp add: watch_inv_def sampled_def)
  qed
  then show ?thesis using sl(2) by blast
qed

definition slow_slot :: transportSlot where
  "slow_slot = (hSlots empty_h2 0)\<lparr>tsHeavy := 1, tsLastHeavy := 1\<rparr>"

lemma slow_slot_simps [simp]:
  "tsHeavy slow_slot = 1" "tsLastHeavy slow_slot = 1" "tsLowCycles slow_slot = 0" "tsProbeConn slow_slot = None"
  "tsProbeHoldUntil slow_slot = 0" "tsBytesRecv slow_slot = 0" "tsLastBytes slow_slot = 0" "tsDegraded slow_slot = False"
  by (simp_all add: slow_slot_def empty_h2_def newSlot_def Let_def)

theorem degradation_needs_persistence_witness:
  "\<exists>d x'. slot_health (demo_life\<lparr>lcHasProbe := False\<rparr>) None 0 (5 * Second) True (slow_slot\<lparr>tsLowCycles := 2\<rparr>) = (x', d) \<and> d = tsDegraded x'"
proof -
  let ?lc = "demo_life\<lparr>lcHasProbe := False\<rparr>"
  let ?w = "\<lparr>hwSlot = slow_slot, hwLow = 0, hwConn = None\<rparr>"
  let ?e = "watch_eval ?lc 0 (5 * Second) True"
  have st: "watch_step w (?e w)" for w by (rule watch_step.eval) simp_all
  have "watch_init ?w" by (simp add: watch_init_def)
  then have "reachable_from watch_init watch_step (?e ?w)" by (rule reachable_from.step [OF reachable_from.start]) (rule st)
  then have r: "reachable_from watch_init watch_step (?e (?e ?w))" by (rule reachable_from.step) (rule st)
  have e: "hwSlot (?e (?e ?w)) = slow_slot\<lparr>tsLowCycles := 2\<rparr>" "hwConn (?e (?e ?w)) = None"
    by (simp_all add: watch_eval_def slot_health_def Let_def demo_life_def throughput_of_def sdiv_nonneg) (simp add: slow_slot_def empty_h2_def newSlot_def Let_def)
  obtain d x' where h: "slot_health ?lc None 0 (5 * Second) True (slow_slot\<lparr>tsLowCycles := 2\<rparr>) = (x', d)" by fastforce
  from degradation_needs_persistence [OF r, of 0 ?lc "5 * Second" True x' d] h e show ?thesis by auto
qed

text \<open>
  However many samplers run, and however their loads and exchanges interleave, the divergences they
  report add up to the divergence of the clocks since the first sample: a suspend is accounted for once.
\<close>

theorem suspend_accounted_once:
  assumes "reachable_from sampler_init sampler_step m"
  shows "case smFirst m of None \<Rightarrow> smReported m = []
     | Some f \<Rightarrow> int64 (sum_list (smReported m)) = int64 (smBase m - f)"
  using sampling.inv_reachable [OF assms] by (auto simp: sampler_inv_def split: option.splits)

theorem suspend_accounted_once_witness: "\<exists>m :: samplers. smReported m = [5] \<and> int64 (sum_list (smReported m)) = 5"
proof -
  define m where "m p b f r = \<lparr>smPc = (\<lambda>_. Idle)(0 := p), smBase = b, smFirst = f, smReported = r\<rparr>" for p b f r
  note st = reachable_from.step [of sampler_init sampler_step]
  have "reachable_from sampler_init sampler_step (m Idle 0 None [])"
    by (rule reachable_from.start) (simp add: sampler_init_def m_def)
  then have "reachable_from sampler_init sampler_step (m (Fresh 100) 0 None [])"
    by (rule st) (use sampler_step.start [of "m Idle 0 None []" 0 100] in \<open>simp add: m_def\<close>)
  then have "reachable_from sampler_init sampler_step (m (Loaded 100 0) 0 None [])"
    by (rule st) (use sampler_step.load [of "m (Fresh 100) 0 None []" 0 100] in \<open>simp add: m_def\<close>)
  then have "reachable_from sampler_init sampler_step (m Idle 100 (Some 100) [])"
    by (rule st) (use sampler_step.first [of "m (Loaded 100 0) 0 None []" 0 100 0 0 100] in \<open>simp add: m_def sampleOffset_def\<close>)
  then have "reachable_from sampler_init sampler_step (m (Fresh 105) 100 (Some 100) [])"
    by (rule st) (use sampler_step.start [of "m Idle 100 (Some 100) []" 0 105] in \<open>simp add: m_def\<close>)
  then have "reachable_from sampler_init sampler_step (m (Loaded 105 100) 100 (Some 100) [])"
    by (rule st) (use sampler_step.load [of "m (Fresh 105) 100 (Some 100) []" 0 105] in \<open>simp add: m_def\<close>)
  then have "reachable_from sampler_init sampler_step (m Idle 105 (Some 100) [5])"
    by (rule st) (use sampler_step.report [of "m (Loaded 105 100) 100 (Some 100) []" 0 105 100 5 105] in \<open>simp add: m_def sampleOffset_def\<close>)
  from suspend_accounted_once [OF this] have "smReported (m Idle 105 (Some 100) [5]) = [5] \<and>
      int64 (sum_list (smReported (m Idle 105 (Some 100) [5]))) = 5" by (simp add: m_def)
  then show ?thesis by (rule exI)
qed

text \<open>
  Probes are rationed: at most two a tick, and the pause after inconclusive ones doubles from 15
  seconds up to 10 minutes.
\<close>

lemma cooldown_loop_eq: "0 < d \<Longrightarrow> min (cooldown_loop n d) ProbeMaxBackoff = min (d * 2 ^ n) ProbeMaxBackoff"
proof (induction n arbitrary: d)
  case (Suc n)
  show ?case
  proof (cases "d < ProbeMaxBackoff")
    case True
    then show ?thesis using Suc.IH [of "d * 2"] Suc.prems by (simp add: algebra_simps)
  next
    case False
    moreover have "d * 1 \<le> d * 2 ^ Suc n" using Suc.prems one_le_power [of "2 :: int" "Suc n"] by (intro mult_left_mono) linarith+
    ultimately have "ProbeMaxBackoff \<le> d * 2 ^ Suc n" by linarith
    moreover have "cooldown_loop (Suc n) d = d" using False by simp
    ultimately show ?thesis using False by linarith
  qed
qed simp

lemma probe_one_count: "fst nt \<le> ProbeMaxPerInterval \<Longrightarrow> fst (fold (probe_one probe now) xs nt) \<le> ProbeMaxPerInterval"
proof (induction xs arbitrary: nt)
  case (Cons x xs)
  have "fst (probe_one probe now x nt) \<le> ProbeMaxPerInterval" using Cons.prems by (cases nt) (simp add: probe_one_def Let_def)
  then show ?case using Cons.IH by simp
qed simp

theorem probes_rationed:
  "fst (evaluateProbes probe now linkOK t) \<le> ProbeMaxPerInterval \<and>
   probeCooldown n = min (15 * Second * 2 ^ n) (600 * Second)"
proof -
  have "probeCooldown n = min (15 * Second * 2 ^ n) (600 * Second)"
    using cooldown_loop_eq [of ProbeCooldown n] by (simp add: probeCooldown_def)
  moreover have "fst (evaluateProbes probe now linkOK t) \<le> ProbeMaxPerInterval"
  proof -
    obtain n u where u: "fold (probe_one probe now) (live_snapshot (scPriority (tpSched t))) (0, t) = (n, u)" by fastforce
    have "n \<le> ProbeMaxPerInterval" using probe_one_count [of "(0, t)" probe now "live_snapshot (scPriority (tpSched t))"] u by simp
    then have "fst (fold (probe_one probe now) (live_snapshot (scBulk (tpSched u))) (n, u)) \<le> ProbeMaxPerInterval"
      by (intro probe_one_count) simp
    then show ?thesis using u by (simp add: evaluateProbes_def)
  qed
  ultimately show ?thesis by simp
qed

text \<open>
  Rotation waits for the streams and happens once per connection: a connection past its deadline or
  its volume is only marked; a marked slot with streams is left as it is; once idle, its idle connections
  are closed and it is due again only after new traffic or a new connection.
\<close>

theorem rotation_waits:
  assumes "0 < lcConnMaxBytes (tpLife t)" "t' = evaluateRotation now s t"
  shows "if tsExpiring (slot_at s t) then
       (if tsActive (slot_at s t) = 0
        then \<not> tsExpiring (slot_at s t') \<and> \<not> rotationDue (tpLife t') (slot_at s t') later \<and>
          tsGen (slot_at s t') = tsGen (slot_at s t) \<and>
          (case tsGen (slot_at s t) of None \<Rightarrow> True | Some g \<Rightarrow> hIdleClosed (tpH t') = g # hIdleClosed (tpH t))
        else t' = t)
     else tsExpiring (slot_at s t') = rotationDue (tpLife t) (slot_at s t) now \<and>
       slot_at s t' = (slot_at s t)\<lparr>tsExpiring := tsExpiring (slot_at s t')\<rparr> \<and> hIdleClosed (tpH t') = hIdleClosed (tpH t)"
proof -
  have id: "hIdleClosed (h2_stats f h) = hIdleClosed h" "hSlots (close_idle s h) = hSlots h" for f h
    by (auto simp: h2_stats_def close_idle_def CloseIdleConnections_def split: option.split)
  have sl: "slot_at s (upd_h (\<lambda>h. h2_stats f (upd_slot s g (close_idle s h))) t) = g (slot_at s t)" for f g
    by (simp add: slot_at_def id)
  show ?thesis
  proof (cases "tsExpiring (slot_at s t)")
    case True
    have ic: "hIdleClosed (upd_slot s g h) = hIdleClosed h" for g h by (simp add: upd_slot_def)
    from True show ?thesis using assms(1) unfolding assms(2)
      by (simp add: evaluateRotation_def Let_def sl rotationDue_def)
        (simp add: evaluateRotation_def ic id close_idle_def CloseIdleConnections_def slot_at_def split: option.split)
  next
    case False
    have "slot_at s t = (slot_at s t)\<lparr>tsExpiring := False\<rparr>" using False by (cases "slot_at s t") simp
    then show ?thesis using False unfolding assms(2) by (auto simp: evaluateRotation_def Let_def)
  qed
qed

theorem rotation_waits_witness: "tsExpiring (slot_at 0 (evaluateRotation 7 0 demo_transport)) = rotationDue demo_life (slot_at 0 demo_transport) 7"
  using rotation_waits [of demo_transport "evaluateRotation 7 0 demo_transport" 7 0 0]
  by (simp add: demo_transport_def demo_life_def slot_at_def empty_h2_def newSlot_def Let_def)

end
