(* ===== verification/H2Streams.thy ===== *)
theory H2Streams
  imports H2Health
begin

text \<open>
  The HTTP/2 transport as a whole. Each operation of a stream is summarised by its \<open>effect\<close> on the slot
  counters; the world of a transport and its streams is a step relation whose invariant ties the counters
  to the open streams. A second step relation follows the response body of one stream. Both are
  interpretations of the prelude's \<open>step_invariant\<close>.
\<close>

section \<open>The effect of a stream's operations\<close>

abbreviation marked :: "http2Stream \<Rightarrow> bool" where
  "marked s \<equiv> hsHeavy s = heavyMarked"

definition stream_ok :: "http2Stream \<Rightarrow> bool" where
  "stream_ok s \<longleftrightarrow> (hsDone s \<longleftrightarrow> hsHeavy s = heavyReleased)"

text \<open>The counts of the stream's slot leave room for it.\<close>

definition fits :: "http2Stream \<times> h2 \<Rightarrow> bool" where
  "fits sh \<longleftrightarrow> stream_ok (fst sh) \<and> (\<exists>i. hsSlot (fst sh) = Some i \<and>
     (let x = hSlots (snd sh) i
      in 0 \<le> tsActive x \<and> tsActive x \<le> MaxInt32 \<and> (hsDone (fst sh) \<or> 1 \<le> tsActive x) \<and>
         0 \<le> tsHeavy x \<and> tsHeavy x \<le> MaxInt32 \<and> (if marked (fst sh) then 1 \<le> tsHeavy x else tsHeavy x < MaxInt32)))"

definition effect :: "http2Stream \<times> h2 \<Rightarrow> http2Stream \<times> h2 \<Rightarrow> bool" where
  "effect sh sh' \<longleftrightarrow>
     hsSlot (fst sh') = hsSlot (fst sh) \<and> stream_ok (fst sh') \<and> (hsDone (fst sh) \<longrightarrow> hsDone (fst sh')) \<and>
     (\<forall>i. tsActive (hSlots (snd sh') i) =
        tsActive (hSlots (snd sh) i) - of_bool (hsSlot (fst sh) = Some i \<and> \<not> hsDone (fst sh) \<and> hsDone (fst sh'))) \<and>
     (\<forall>i. tsHeavy (hSlots (snd sh') i) = tsHeavy (hSlots (snd sh) i)
        + of_bool (hsSlot (fst sh) = Some i \<and> marked (fst sh')) - of_bool (hsSlot (fst sh) = Some i \<and> marked (fst sh)))"

lemma effect_fits: "fits sh \<Longrightarrow> effect sh sh' \<Longrightarrow> fits sh'"
  by (cases "hsDone (fst sh')"; cases "marked (fst sh')"; cases "marked (fst sh)")
    (auto simp: fits_def effect_def Let_def stream_ok_def)

lemma effect_trans: "effect a b \<Longrightarrow> effect b c \<Longrightarrow> effect a c"
  by (auto simp: effect_def)

lemma effect_refl: "fits sh \<Longrightarrow> effect sh sh"
  by (auto simp: effect_def fits_def)

text \<open>Operations that touch neither the counts nor the stream's state.\<close>

lemma effect_same:
  assumes "fits (s, h)" "hsSlot s' = hsSlot s" "hsDone s' = hsDone s" "hsHeavy s' = hsHeavy s"
    "\<And>i. tsActive (hSlots h' i) = tsActive (hSlots h i) \<and> tsHeavy (hSlots h' i) = tsHeavy (hSlots h i)"
  shows "effect (s, h) (s', h')"
  using assms by (auto simp: effect_def fits_def stream_ok_def)

lemma accumulate_effect:
  assumes "fits (s, h)" shows "effect (s, h) (accumulate now n (s, h))"
proof -
  obtain i where i: "hsSlot s = Some i" using assms by (auto simp: fits_def)
  have "int32 (tsHeavy (hSlots h i) + 1) = tsHeavy (hSlots h i) + 1" if "hsHeavy s = heavyIdle"
    using assms i that by (auto simp: fits_def Let_def)
  then show ?thesis using assms i
    by (auto simp: accumulate_def Let_def effect_def fits_def stream_ok_def)
qed

lemma track_effect:
  assumes "fits (s, h)"
  shows "effect (s, h) (trackRead now n (s, h))" "effect (s, h) (trackWrite now n (s, h))"
proof -
  obtain i where i: "hsSlot s = Some i" using assms by (auto simp: fits_def)
  have *: "effect (s, h) (accumulate now n (s, upd_slot i f h))"
    if "\<And>x. tsActive (f x) = tsActive x \<and> tsHeavy (f x) = tsHeavy x" for f
  proof -
    have e: "effect (s, h) (s, upd_slot i f h)" by (rule effect_same [OF assms]) (simp_all add: that)
    show ?thesis by (rule effect_trans [OF e accumulate_effect [OF effect_fits [OF assms e]]])
  qed
  show "effect (s, h) (trackRead now n (s, h))" "effect (s, h) (trackWrite now n (s, h))"
    using effect_refl [OF assms] by (simp_all add: trackRead_def trackWrite_def i *)
qed

lemma stream_done_effect:
  assumes "fits (s, h)" shows "effect (s, h) (stream_done now (s, h))"
proof -
  obtain i where i: "hsSlot s = Some i" using assms by (auto simp: fits_def)
  let ?x = "hSlots h i"
  show ?thesis
  proof (cases "hsDone s")
    case True
    then show ?thesis using effect_refl [OF assms] by (simp add: stream_done_def)
  next
    case False
    have a: "int32 (tsActive ?x - 1) = tsActive ?x - 1" using assms i False by (auto simp: fits_def Let_def)
    have m: "int32 (tsHeavy ?x - 1) = tsHeavy ?x - 1" if "marked s" using assms i that by (auto simp: fits_def Let_def)
    show ?thesis using assms i False a m
      by (cases "hsHeavy s")
        (auto simp: stream_done_def releaseHeavy_def slot_leave_def Let_def effect_def fits_def stream_ok_def)
  qed
qed

lemma stream_done_done: "hsDone (fst (stream_done now (s, h)))"
  by (auto simp: stream_done_def releaseHeavy_def Let_def split: option.split heavyState.split)

text \<open>Sequences: count some bytes, then maybe finish.\<close>

lemma track_done_effect:
  assumes "fits (s, h)"
  shows "effect (s, h) (stream_done now (trackRead now n (s, h)))" "effect (s, h) (stream_done now (trackWrite now n (s, h)))"
  using track_effect [OF assms] effect_fits [OF assms] stream_done_effect effect_trans by (metis prod.collapse)+

lemma Read_effect:
  assumes f: "fits (s, h)" and r: "Read now res (s, h) = Some (v, sh')"
  shows "effect (s, h) sh'"
  using r track_effect(1) [OF f] track_done_effect(1) [OF f] stream_done_effect [OF f] effect_refl [OF f]
  by (auto simp: Read_def Let_def split: if_splits option.splits prod.splits)

lemma Write_effect:
  assumes f: "fits (s, h)" and r: "Write now res (s, h) = (v, sh')"
  shows "effect (s, h) sh'"
  using r track_effect(2) [OF f] track_done_effect(2) [OF f] stream_done_effect [OF f] effect_refl [OF f]
  by (auto simp: Write_def Let_def split: if_splits option.splits prod.splits)

lemma Close_effect:
  assumes f: "fits (s, h)" shows "effect (s, h) (Close now (s, h))"
proof -
  define s' where "s' = (let s = s\<lparr>hsCanceled := True, hsWriteClosed := True, hsClosed := True\<rparr>;
            r = hsR s;
            s = s\<lparr>hsR := None, hsRespErr := (if hsRespErr s = None then Some ErrClosedPipe else hsRespErr s)\<rparr>
        in (case r of Some b \<Rightarrow> s\<lparr>hsBodyClosed := b # hsBodyClosed s\<rparr> | None \<Rightarrow> s))"
  have "effect (s, h) (s', h)" by (rule effect_same [OF f]) (simp_all add: s'_def Let_def split: option.split)
  moreover have "Close now (s, h) = stream_done now (s', h)" by (simp add: Close_def s'_def Let_def)
  ultimately show ?thesis using stream_done_effect effect_fits [OF f] effect_trans by metis
qed

lemma run_round_trip_effect:
  assumes f: "fits (s, h)" shows "effect (s, h) (run_round_trip ewma now r (s, h))"
proof -
  obtain s' h' where r: "run_round_trip ewma now r (s, h) = (s', h')" by fastforce
  have "hsSlot s' = hsSlot s \<and> hsDone s' = hsDone s \<and> hsHeavy s' = hsHeavy s \<and> hSlots h' = hSlots h"
    using r by (auto simp: run_round_trip_def deliver_def setRoundTripErr_def Let_def split: prod.splits option.splits if_splits)
  then show ?thesis unfolding r by (intro effect_same [OF f]) simp_all
qed

lemma invalidate_counts:
  "tsActive (hSlots (snd (invalidateConnIf s g e h)) i) = tsActive (hSlots h i) \<and>
   tsHeavy (hSlots (snd (invalidateConnIf s g e h)) i) = tsHeavy (hSlots h i)"
  by (auto simp: invalidateConnIf_def retireConn_def takeConn_def advanceGeneration_def CloseIdleConnections_def close_conn_def Let_def
      split: option.splits if_splits prod.splits bool.splits)


section \<open>Everything together\<close>

text \<open>
  The transport with all the streams it has opened. The steps are the critical sections of the code:
  opening is split where other goroutines may come in between. A step of the HTTP library is a dial, a
  close of a connection, or what it does while it answers a probe; it must not touch the counts.
\<close>

record world =
  wT :: http2Transport
  wStreams :: "http2Stream list"

inductive stream_step :: "http2Stream \<times> h2 \<Rightarrow> http2Stream \<times> h2 \<Rightarrow> bool" where
  read: "Read now res sh = Some (v, sh') \<Longrightarrow> stream_step sh sh'"
| wrote: "Write now res sh = (v, sh') \<Longrightarrow> stream_step sh sh'"
| close: "stream_step sh (Close now sh)"
| result: "stream_step sh (run_round_trip ewma now r sh)"
| submitted: "stream_step sh (submit sh)"
| got_conn: "stream_step (s, h) (noteConn c s, h)"
| invalidate: "stream_step (s, h) (s, InvalidateConn (s, h))"
| bootstrap: "stream_step (s, h) (MarkBootstrapSent now s, h)"
| close_write: "stream_step (s, h) (CloseWrite s, h)"

inductive_cases stream_stepE: "stream_step sh sh'"

definition counts_kept :: "h2 \<Rightarrow> h2 \<Rightarrow> bool" where
  "counts_kept h h' \<longleftrightarrow> (\<forall>i. tsActive (hSlots h' i) = tsActive (hSlots h i) \<and> tsHeavy (hSlots h' i) = tsHeavy (hSlots h i))"

definition upd_world :: "(h2 \<Rightarrow> h2) \<Rightarrow> world \<Rightarrow> world" where
  "upd_world f w = w\<lparr>wT := upd_t (upd_h f) (wT w)\<rparr>"

definition world_h :: "world \<Rightarrow> h2" where
  "world_h w = tpH (htT (wT w))"

inductive world_step :: "world \<Rightarrow> world \<Rightarrow> bool" where
  grow: "open_grow now off req (wT w) = Some t \<Longrightarrow> world_step w (w\<lparr>wT := t\<rparr>)"
| pick: "length (wStreams w) < 2 ^ 31 - 1 \<Longrightarrow> open_pick req (wT w) = Some (slot, t) \<Longrightarrow>
     world_step w (w\<lparr>wT := t, wStreams := wStreams w @ [new_stream now slot req]\<rparr>)"
| reverify: "(\<And>f g h. liveness = Some f \<Longrightarrow> counts_kept h (snd (f g h))) \<Longrightarrow>
     world_step w (upd_world (reverifySlot liveness ctx_done slot) w)"
| abort: "wStreams w = xs @ s # ys \<Longrightarrow> hsHeavy s = heavyIdle \<Longrightarrow> hsSlot s = Some slot \<Longrightarrow>
     world_step w ((upd_world (\<lambda>h. h2_stats RecordStreamClosed (slot_leave now slot h)) w)\<lparr>wStreams := xs @ ys\<rparr>)"
| stream: "wStreams w = xs @ s # ys \<Longrightarrow> stream_step (s, world_h w) (s', h') \<Longrightarrow>
     world_step w ((upd_world (\<lambda>_. h') w)\<lparr>wStreams := xs @ s' # ys\<rparr>)"
| tick: "probe_calm probe \<Longrightarrow> world_step w (w\<lparr>wT := upd_t (lifecycle_tick probe now off) (wT w)\<rparr>)"
| close_idle: "world_step w (w\<lparr>wT := CloseIdle (wT w)\<rparr>)"
| close: "world_step w (w\<lparr>wT := Transport_Close (wT w)\<rparr>)"
| dial: "world_step w (upd_world (dial_register lt draw now g c) w)"
| conn_closed: "world_step w (upd_world (trackedConn_Close g c) w)"

inductive_cases world_stepE: "world_step w w'"

definition open_on :: "slot_id \<Rightarrow> http2Stream list \<Rightarrow> nat" where
  "open_on i xs = length (filter (\<lambda>s. hsSlot s = Some i \<and> \<not> hsDone s) xs)"

definition heavy_on :: "slot_id \<Rightarrow> http2Stream list \<Rightarrow> nat" where
  "heavy_on i xs = length (filter (\<lambda>s. hsSlot s = Some i \<and> marked s) xs)"

definition counts_inv :: "h2 \<Rightarrow> http2Stream list \<Rightarrow> bool" where
  "counts_inv h xs \<longleftrightarrow> (\<forall>i. tsActive (hSlots h i) = int (open_on i xs) \<and> tsHeavy (hSlots h i) = int (heavy_on i xs)) \<and>
     (\<forall>s \<in> set xs. stream_ok s \<and> hsSlot s \<noteq> None) \<and> length xs < 2 ^ 31"

definition world_inv :: "world \<Rightarrow> bool" where
  "world_inv w \<longleftrightarrow> sched_ok (tpSched (htT (wT w))) \<and> counts_inv (world_h w) (wStreams w)"

lemma heavy_le_open: "\<forall>s \<in> set xs. stream_ok s \<Longrightarrow> heavy_on i xs \<le> open_on i xs"
  unfolding heavy_on_def open_on_def by (induction xs) (auto simp: stream_ok_def)

lemma counts_fits:
  assumes "counts_inv h (xs @ s # ys)" shows "fits (s, h)"
proof -
  obtain i where i: "hsSlot s = Some i" using assms by (auto simp: counts_inv_def)
  have len: "length (filter P zs) \<le> length zs" for P and zs :: "http2Stream list" by (rule length_filter_le)
  have "open_on i (xs @ s # ys) \<le> length xs + length ys + of_bool (\<not> hsDone s)" "of_bool (\<not> hsDone s) \<le> open_on i (xs @ s # ys)"
    "heavy_on i (xs @ s # ys) \<le> length xs + length ys + of_bool (marked s)" "of_bool (marked s) \<le> heavy_on i (xs @ s # ys)"
    using i by (auto simp: open_on_def heavy_on_def intro: add_mono len)
  moreover have "length xs + length ys + 1 < 2 ^ 31" "stream_ok s" using assms by (auto simp: counts_inv_def)
  moreover have "tsActive (hSlots h i) = int (open_on i (xs @ s # ys))" "tsHeavy (hSlots h i) = int (heavy_on i (xs @ s # ys))"
    using assms by (auto simp: counts_inv_def)
  ultimately show ?thesis using i unfolding fits_def by (cases "hsDone s"; cases "marked s") (auto simp: Let_def)
qed

lemma counts_inv_effect:
  assumes "counts_inv h (xs @ s # ys)" "effect (s, h) (s', h')" shows "counts_inv h' (xs @ s' # ys)"
proof -
  have "tsActive (hSlots h' i) = int (open_on i (xs @ s' # ys))" "tsHeavy (hSlots h' i) = int (heavy_on i (xs @ s' # ys))" for i
    using assms by (auto simp: counts_inv_def effect_def open_on_def heavy_on_def)
  then show ?thesis using assms by (auto simp: counts_inv_def effect_def)
qed

lemma counts_inv_kept: "counts_inv h xs \<Longrightarrow> counts_kept h h' \<Longrightarrow> counts_inv h' xs"
  by (simp add: counts_inv_def counts_kept_def)

lemma counts_kept_trans: "counts_kept a b \<Longrightarrow> counts_kept b c \<Longrightarrow> counts_kept a c"
  by (simp add: counts_kept_def)

lemma counts_kept_refl [simp]: "counts_kept h h"
  by (simp add: counts_kept_def)

lemma stream_step_effect:
  assumes "fits sh" "stream_step sh sh'" shows "effect sh sh'"
  using assms(2,1)
proof (cases rule: stream_step.cases)
  case (read now res v)
  then show ?thesis using Read_effect assms(1) by (metis prod.collapse)
next
  case (wrote now res v)
  then show ?thesis using Write_effect assms(1) by (metis prod.collapse)
next
  case (close now)
  then show ?thesis using Close_effect assms(1) by (metis prod.collapse)
next
  case (result ewma now r)
  then show ?thesis using run_round_trip_effect assms(1) by (metis prod.collapse)
next
  case submitted
  then show ?thesis using assms(1) by (cases sh) (auto simp: submit_def intro!: effect_same split: option.split)
next
  case (got_conn s h c)
  then show ?thesis using assms(1) by (auto simp: noteConn_def intro!: effect_same split: option.split)
next
  case (invalidate s h)
  then show ?thesis using assms(1) by (auto simp: InvalidateConn_def invalidate_counts intro!: effect_same split: option.split)
next
  case (bootstrap s h now)
  then show ?thesis using assms(1) by (auto simp: MarkBootstrapSent_def intro!: effect_same)
next
  case (close_write s h)
  then show ?thesis using assms(1) by (auto simp: CloseWrite_def intro!: effect_same)
qed


lemma world_simps [simp]:
  "world_h (upd_world f w) = f (world_h w)" "wStreams (upd_world f w) = wStreams w"
  "tpSched (htT (wT (upd_world f w))) = tpSched (htT (wT w))"
  "htT (upd_t k t) = k (htT t)" "htGrowEvents (upd_t k t) = htGrowEvents t"
  "world_h (w\<lparr>wStreams := xs\<rparr>) = world_h w" "world_h (w\<lparr>wT := t\<rparr>) = tpH (htT t)"
  by (simp_all add: world_h_def upd_world_def upd_t_def)

lemma calm_counts: "calm t t' \<Longrightarrow> counts_kept (tpH t) (tpH t')"
  by (simp add: calm_def counts_kept_def slot_at_def)

lemma calm_sched: "calm t t' \<Longrightarrow> sched_ok (tpSched t) \<Longrightarrow> sched_ok (tpSched t')"
  by (simp add: calm_def)

lemma counts_loads:
  assumes "counts_inv h xs" shows "loads_ok (hSlots h) ids"
proof -
  have "int (open_on i xs) \<le> MaxInt32" for i
  proof -
    have "open_on i xs \<le> length xs" by (simp add: open_on_def)
    moreover have "length xs < 2 ^ 31" using assms by (simp add: counts_inv_def)
    ultimately show ?thesis by simp
  qed
  then show ?thesis using assms by (auto simp: loads_ok_def counts_inv_def)
qed

text \<open>The first half of \<open>Open\<close>.\<close>

lemma open_grow_ok:
  assumes ok: "sched_ok (tpSched (htT t))" and c: "counts_inv (tpH (htT t)) xs"
  shows "\<exists>t'. open_grow now off req t = Some t' \<and> sched_ok (tpSched (htT t')) \<and> counts_inv (tpH (htT t')) xs \<and>
     (\<exists>sc h r sc' h'. sched_ok sc \<and> counts_inv h xs \<and> live_of sc \<subseteq> live_of (tpSched (htT t)) \<and>
        same_slots (tpSched (htT t)) sc \<and> (\<forall>s \<in> live_of (tpSched (htT t)) - live_of sc. tsActive (hSlots h s) = 0) \<and>
        grow sc (orHighPriority req) h = Some (r, sc', h') \<and>
        tpSched (htT t') = sc' \<and> hSlots (tpH (htT t')) = hSlots h')"
proof -
  define u where "u = upd_t (upd_h (h2_stats RecordStreamOpened)) (upd_t (observeSuspend now off) t)"
  have cu: "calm (htT t) (htT u)" unfolding u_def by simp (rule calm_trans [OF observeSuspend_calm calm_stats])
  have oku: "sched_ok (tpSched (htT u))" by (rule calm_sched [OF cu ok])
  have ccu: "counts_inv (tpH (htT u)) xs" by (rule counts_inv_kept [OF c calm_counts [OF cu]])
  obtain r sc' h' where g: "grow (tpSched (htT u)) (orHighPriority req) (tpH (htT u)) = Some (r, sc', h')"
    using grow_spec [OF oku counts_loads [OF ccu], of "orHighPriority req"] by blast
  note gk = grow_ok [OF oku counts_loads [OF ccu] g]
  have ck: "counts_kept (tpH (htT u)) h'" using gk by (simp add: counts_kept_def)
  have act: "\<forall>s \<in> live_of (tpSched (htT t)) - live_of (tpSched (htT u)). tsActive (hSlots (tpH (htT u)) s) = 0"
    using cu ok by (auto simp: calm_def slot_at_def)
  have base: "live_of (tpSched (htT u)) \<subseteq> live_of (tpSched (htT t))" "same_slots (tpSched (htT t)) (tpSched (htT u))"
    using cu ok by (auto simp: calm_def)
  have "\<exists>t'. open_grow now off req t = Some t' \<and> tpSched (htT t') = sc' \<and> hSlots (tpH (htT t')) = hSlots h'"
  proof (cases r)
    case None
    then have "sc' = tpSched (htT u) \<and> h' = tpH (htT u)"
      using grow_spec [OF oku counts_loads [OF ccu], of "orHighPriority req"] g by auto
    then show ?thesis using g None unfolding open_grow_def Let_def u_def [symmetric] by simp
  next
    case (Some pl)
    then show ?thesis using g unfolding open_grow_def Let_def u_def [symmetric]
      by (cases pl) (simp add: recordGrowEvent_def Let_def)
  qed
  then obtain t' where t': "open_grow now off req t = Some t'" "tpSched (htT t') = sc'" "hSlots (tpH (htT t')) = hSlots h'" by blast
  have "counts_inv (tpH (htT t')) xs"
    using counts_inv_kept [OF ccu ck] t'(3) by (simp add: counts_inv_def)
  then show ?thesis using t' gk oku ccu act base g by blast
qed

text \<open>The second half.\<close>

lemma slot_enter_counts:
  assumes c: "counts_inv h xs" and len: "length xs < 2 ^ 31 - 1"
  shows "counts_inv (slot_enter slot h) (xs @ [new_stream now slot req])"
proof -
  have "open_on slot xs \<le> length xs" by (simp add: open_on_def)
  then have "int32 (tsActive (hSlots h slot) + 1) = tsActive (hSlots h slot) + 1" using c len by (simp add: counts_inv_def)
  then show ?thesis using c len
    by (auto simp: counts_inv_def slot_enter_def Let_def open_on_def heavy_on_def new_stream_def stream_ok_def)
qed

lemma open_pick_ok:
  assumes ok: "sched_ok (tpSched (htT t))" and c: "counts_inv (tpH (htT t)) xs" and len: "length xs < 2 ^ 31 - 1"
  shows "\<exists>slot t' h'. open_pick req t = Some (slot, t') \<and> tpSched (htT t') = tpSched (htT t) \<and>
     counts_inv (tpH (htT t')) (xs @ [new_stream now slot req]) \<and>
     pick (tpSched (htT t)) (orHighPriority req) (tpH (htT t)) = Some (slot, h')"
proof -
  obtain b h' where p: "pick (tpSched (htT t)) (orHighPriority req) (tpH (htT t)) = Some (b, h')" "hSlots h' = hSlots (tpH (htT t))"
    using pick_spec [OF ok counts_loads [OF c], of "orHighPriority req"] by auto
  have "counts_inv h' xs" using c p(2) by (simp add: counts_inv_def)
  from slot_enter_counts [OF this len, of b now req]
  have "counts_inv (h2_stats f (slot_enter b h')) (xs @ [new_stream now b req])" for f by (simp add: counts_inv_def)
  then show ?thesis using p(1) by (simp add: open_pick_def Let_def)
qed


text \<open>The remaining steps keep the counts of all slots.\<close>

lemma counts_kept_upd: "(\<And>x. tsActive (f x) = tsActive x \<and> tsHeavy (f x) = tsHeavy x) \<Longrightarrow> counts_kept h (upd_slot s f h)"
  by (simp add: counts_kept_def)

lemma counts_kept_stats [simp]: "counts_kept a (h2_stats f b) \<longleftrightarrow> counts_kept a b"
  by (simp add: counts_kept_def)

lemma close_idle_counts: "hSlots (close_idle s h) = hSlots h"
  by (simp add: close_idle_def CloseIdleConnections_def split: option.split)

lemma fold_close_idle: "hSlots (fold close_idle xs h) = hSlots h"
  by (induction xs arbitrary: h) (simp_all add: close_idle_counts)

lemma dial_counts: "counts_kept h (dial_register lt draw now g c h)"
  by (simp add: counts_kept_def dial_register_def Let_def resetConn_def)

lemma closed_counts: "counts_kept h (trackedConn_Close g c h)"
  by (auto simp: counts_kept_def trackedConn_Close_def close_conn_def retireGeneration_def takeConn_def advanceGeneration_def Let_def
      split: option.splits if_splits prod.splits)

lemma reverify_counts:
  assumes "\<And>f g h. liveness = Some f \<Longrightarrow> counts_kept h (snd (f g h))"
  shows "counts_kept h (reverifySlot liveness cd s h)"
proof -
  have clear: "counts_kept a (upd_slot s (\<lambda>x. x\<lparr>tsReverify := False\<rparr>) b)" if "counts_kept a b" for a b
    using that by (simp add: counts_kept_def)
  have inv: "counts_kept a h'" if "invalidateConnIf s g e b = (r, h')" "counts_kept a b" for a b g e r h'
    using that invalidate_counts [of s g e b] by (simp add: counts_kept_def)
  show ?thesis
    using assms inv by (auto simp: reverifySlot_def Let_def split: option.split prod.split bool.split intro!: clear) (metis snd_conv)+
qed

lemma abort_counts:
  assumes c: "counts_inv h (xs @ s # ys)" and s: "hsHeavy s = heavyIdle" "hsSlot s = Some slot"
  shows "counts_inv (slot_leave now slot h) (xs @ ys)"
proof -
  have "fits (s, h)" by (rule counts_fits [OF c])
  then have "int32 (tsActive (hSlots h slot) - 1) = tsActive (hSlots h slot) - 1" using s by (auto simp: fits_def Let_def stream_ok_def)
  then show ?thesis using c s by (auto simp: counts_inv_def slot_leave_def Let_def open_on_def heavy_on_def stream_ok_def)
qed

lemma world_inv_h:
  assumes "world_inv w" "counts_kept (world_h w) h" "h = f (world_h w)" shows "world_inv (upd_world f w)"
  using assms counts_inv_kept by (auto simp: world_inv_def)

lemma world_inv_step:
  assumes inv: "world_inv w" and st: "world_step w w'" shows "world_inv w'"
  using st
proof (cases rule: world_step.cases)
  case (grow now off req t)
  then show ?thesis using inv open_grow_ok [of "wT w" "wStreams w" now off req] by (auto simp: world_inv_def world_h_def)
next
  case (pick req slot t now)
  then show ?thesis using inv open_pick_ok [of "wT w" "wStreams w" req now] by (auto simp: world_inv_def world_h_def)
next
  case reverify
  then show ?thesis using world_inv_h [OF inv] reverify_counts by metis
next
  case (abort xs s ys slot now)
  have "counts_inv (slot_leave now slot (world_h w)) (xs @ ys)"
    using inv abort abort_counts by (auto simp: world_inv_def)
  then show ?thesis using inv abort(1) by (simp add: world_inv_def counts_inv_def)
next
  case (stream xs s ys s' h')
  have c: "counts_inv (world_h w) (xs @ s # ys)" using inv stream(2) by (simp add: world_inv_def)
  have "counts_inv h' (xs @ s' # ys)"
    by (rule counts_inv_effect [OF c stream_step_effect [OF counts_fits [OF c] stream(3)]])
  then show ?thesis using inv stream(1) by (simp add: world_inv_def)
next
  case (tick probe now off)
  note cm = tick_calm [OF tick(2), of "htT (wT w)" now off]
  show ?thesis using inv tick(1) calm_sched [OF cm] counts_inv_kept [OF _ calm_counts [OF cm]] by (simp add: world_inv_def world_h_def)
next
  case close_idle
  then show ?thesis using inv shrink_ok by (auto simp: world_inv_def world_h_def CloseIdle_def Let_def counts_inv_def fold_close_idle)
next
  case close
  then show ?thesis using inv by (simp add: world_inv_def world_h_def Transport_Close_def Let_def counts_inv_def fold_close_idle)
next
  case dial
  then show ?thesis using world_inv_h [OF inv dial_counts] by metis
next
  case conn_closed
  then show ?thesis using world_inv_h [OF inv closed_counts] by metis
qed

definition world_init :: "world \<Rightarrow> bool" where
  "world_init w \<longleftrightarrow> sched_ok (tpSched (htT (wT w))) \<and> wStreams w = [] \<and>
     (\<forall>i. tsActive (hSlots (world_h w) i) = 0 \<and> tsHeavy (hSlots (world_h w) i) = 0)"

interpretation worlds: step_invariant world_init world_step world_inv
  by unfold_locales (simp add: world_init_def world_inv_def counts_inv_def open_on_def heavy_on_def, fact world_inv_step)


section \<open>Opening lands on a live slot\<close>

text \<open>
  Slots outside the live part of the pools carry no stream. (Between the two halves of an opening another
  goroutine may shrink the pools; a stream may then start on the first slot of an empty pool, which the
  next growth makes live again. The theorem is about an opening that is not interrupted in this way.)
\<close>

definition idle_outside :: "slotScheduler \<Rightarrow> http2Stream list \<Rightarrow> bool" where
  "idle_outside sc xs \<longleftrightarrow> (\<forall>i. i \<notin> live_of sc \<longrightarrow> open_on i xs = 0)"

lemma candidates_live: "0 < spLive p \<Longrightarrow> candidates p = live_slots p"
  by (simp add: candidates_def)

lemma grow_then_pick:
  assumes ok: "sched_ok sc" and l: "loads_ok (hSlots h) (all_slots sc)" and g: "grow sc hp h = Some (r, sc', h')"
    and idle: "\<And>s. s \<notin> live_of sc \<Longrightarrow> tsActive (hSlots h s) = 0 \<and> tsHeavy (hSlots h s) = 0"
    and pk: "pick sc' hp h'' = Some (b, k)" and h'': "hSlots h'' = hSlots h'"
  shows "b \<in> live_of sc'"
proof -
  let ?i = "poolOf sc hp"
  note gk = grow_ok [OF ok l g]
  have ok': "sched_ok sc'" and max: "spMaxSlots (the_pool sc' j) = spMaxSlots (the_pool sc j)" for j
    using gk by (auto simp: same_slots_def)
  have pool: "poolOf sc' hp = ?i" using max [of Bulk] by (simp add: poolOf_def the_pool_def)
  have l': "loads_ok (hSlots h'') (all_slots sc')"
  proof -
    have "set (spSlots (the_pool sc' j)) = set (spSlots (the_pool sc j))" for j using gk unfolding same_slots_def by (metis set_mset_mset)
    from this [of Priority] this [of Bulk] have "set (all_slots sc') = set (all_slots sc)" by (simp add: all_slots_def the_pool_def)
    then show ?thesis using l gk h'' by (simp add: loads_ok_def)
  qed
  note ps = pick_spec [OF ok' l', of hp, unfolded pk pool]
  note tg = growTarget_spec [OF ok l poolOf_nonempty [OF ok], of hp]
  have own: "0 < spLive (the_pool sc' ?i) \<and>
      (saturatedIn (hSlots h'') (the_pool sc' ?i) (spLive (the_pool sc' ?i)) \<noteq> Some True \<or>
       0 < spLive (the_pool sc' (otherPool ?i)) \<or> spMaxSlots (the_pool sc' (otherPool ?i)) = 0)"
  proof (cases r)
    case None
    then have "sc' = sc" "h' = h" "growTarget (hSlots h) sc ?i = Some None" using grow_spec [OF ok l, of hp] g by auto
    then show ?thesis using tg h'' by auto
  next
    case (Some tn)
    obtain t n where tn: "tn = (t, n)" by fastforce
    have t: "growTarget (hSlots h) sc ?i = Some (Some (t, spLive (the_pool sc t)))" "spLive (the_pool sc t) < n"
      "sc' = upd_pool t (\<lambda>p. p\<lparr>spLive := n\<rparr>) sc" "n \<le> spMaxSlots (the_pool sc t)"
      using grow_spec [OF ok l, of hp] g by (auto simp: Some tn)
    show ?thesis
    proof (cases "t = ?i")
      case False
      then have o: "t = otherPool ?i" by (cases t; cases ?i) auto
      have "spLive (the_pool sc ?i) = spMaxSlots (the_pool sc ?i)" using tg t(1) False by auto
      moreover have "the_pool sc' ?i = the_pool sc ?i" using False t(3) by (simp add: upd_pool_other)
      ultimately show ?thesis using poolOf_nonempty [OF ok, of hp] t(2,3) o by simp
    next
      case True
      let ?p = "the_pool sc ?i" and ?q = "the_pool sc' ?i"
      have q: "?q = ?p\<lparr>spLive := n\<rparr>" using t(3) True by simp
      define s where "s = spSlots ?p ! spLive ?p"
      have pok: "pool_ok ?p" "pool_ok ?q" by (rule pool_ok_the [OF ok], rule pool_ok_the [OF ok'])
      have len: "spLive ?p < length (spSlots ?p)" using t True pok(1) by (simp add: pool_ok_def)
      have new: "s \<in> live_slots ?q" using len t(2) True pok(2) unfolding live_nth [OF pok(2)] by (auto simp: q s_def)
      have "s \<notin> live_slots ?p"
        using pok(1) len by (auto simp: live_nth s_def pool_ok_def nth_eq_iff_index_eq)
      moreover have "s \<notin> live_slots (the_pool sc (otherPool ?i))"
        using live_disjoint [OF ok', of ?i] new t(3) True by auto
      ultimately have out: "s \<notin> live_of sc" using live_of_split [of sc ?i] by simp
      have s_in: "s \<in> live_of sc'" using new live_of_pool by blast
      have sl: "hSlots h'' s = resetRotation (hSlots h s)" using gk s_in out h'' by simp
      then have hs: "slotTierOf (hSlots h'' s) = tierActive" "tsActive (hSlots h'' s) = 0"
        using idle [OF out] by (simp_all add: tierActive_iff)
      have ld: "loads_ok (hSlots h'') (take (spLive ?q) (spSlots ?q))"
        by (rule loads_take [OF l' order_trans [OF set_take_subset slots_of_pool]])
      have live: "0 < spLive ?q" using t(2) q by simp
      have "\<exists>i \<in> set (take (spLive ?q) (spSlots ?q)). slotTierOf (hSlots h'' i) = tierActive \<and> tsActive (hSlots h'' i) < spBase ?q"
        using new hs pok(2) by (auto simp: live_slots_def pool_ok_def)
      moreover have c: "spLive ?q \<le> length (spSlots ?q)" "0 < spBase ?q" "spBase ?q \<le> MaxInt32"
        using pok(2) by (simp_all add: pool_ok_def)
      ultimately obtain b' sat g' where "tieredSelectAt (hSlots h'') ?q (spLive ?q) False init_stats = Some (b', sat, g')" "\<not> sat"
        using tieredSelectAt_spec [OF live c(1) ld c(2,3), of False init_stats] by (elim exE conjE impE) simp_all
      then show ?thesis using live saturatedIn_iff by fastforce
    qed
  qed
  have "b \<in> live_slots (the_pool sc' ?i) \<or> b \<in> live_slots (the_pool sc' (otherPool ?i))"
    using ps own candidates_live by auto
  then show ?thesis using live_of_pool by blast
qed


section \<open>Response bodies\<close>

text \<open>
  A stream together with the answer of its round trip, once there is one. The answer comes once; closing,
  reading and writing may happen before or after it, in any order.
\<close>

record answered =
  anS :: "http2Stream \<times> h2"
  anAnswer :: "((int \<times> nat) + herr) option"

inductive answer_step :: "answered \<Rightarrow> answered \<Rightarrow> bool" where
  answer: "anAnswer a = None \<Longrightarrow>
     answer_step a (a\<lparr>anS := run_round_trip ewma now r (anS a), anAnswer := Some r\<rparr>)"
| close: "answer_step a (a\<lparr>anS := Close now (anS a)\<rparr>)"
| read: "Read now res (anS a) = Some (v, sh) \<Longrightarrow> answer_step a (a\<lparr>anS := sh\<rparr>)"
| wrote: "Write now res (anS a) = (v, sh) \<Longrightarrow> answer_step a (a\<lparr>anS := sh\<rparr>)"

definition answer_init :: "answered \<Rightarrow> bool" where
  "answer_init a \<longleftrightarrow> (\<exists>now slot req h. anS a = (new_stream now slot req, h)) \<and> anAnswer a = None"

definition answer_inv :: "answered \<Rightarrow> bool" where
  "answer_inv a \<longleftrightarrow> (let s = fst (anS a) in
     case anAnswer a of
       None \<Rightarrow> hsBodyClosed s = [] \<and> hsR s = None \<and> \<not> hsReady s
     | Some (Inr e) \<Rightarrow> hsBodyClosed s = [] \<and> hsR s = None \<and> hsReady s
     | Some (Inl (status, b)) \<Rightarrow> hsReady s \<and>
         (if status \<noteq> 200 \<or> hsClosed s then hsBodyClosed s = [b] \<and> hsR s = None
          else hsBodyClosed s = [] \<and> hsR s = Some b))"

definition body_view :: "http2Stream \<Rightarrow> nat list \<times> nat option \<times> bool \<times> bool" where
  "body_view s = (hsBodyClosed s, hsR s, hsReady s, hsClosed s)"

lemma stream_done_body: "body_view (fst (stream_done now sh)) = body_view (fst sh)"
  by (cases sh) (auto simp: body_view_def stream_done_def releaseHeavy_def Let_def split: option.split heavyState.split)

lemma track_body:
  "body_view (fst (trackRead now n sh)) = body_view (fst sh)" "body_view (fst (trackWrite now n sh)) = body_view (fst sh)"
  by (cases sh; auto simp: body_view_def trackRead_def trackWrite_def accumulate_def Let_def split: option.split)+

lemma Read_body: "Read now res sh = Some (v, sh') \<Longrightarrow> body_view (fst sh') = body_view (fst sh)"
  by (cases sh) (auto simp: Read_def Let_def stream_done_body track_body split: if_splits option.splits prod.splits)

lemma Write_body: "Write now res sh = (v, sh') \<Longrightarrow> body_view (fst sh') = body_view (fst sh)"
  by (cases sh) (auto simp: Write_def Let_def stream_done_body track_body split: if_splits option.splits prod.splits)

lemma Close_body:
  "body_view (fst (Close now sh)) = (case hsR (fst sh) of None \<Rightarrow> hsBodyClosed (fst sh) | Some b \<Rightarrow> b # hsBodyClosed (fst sh),
     None, hsReady (fst sh), True)"
  unfolding Close_def by (cases sh) (simp add: stream_done_body Let_def, simp add: body_view_def split: option.split)

lemma answer_inv_view:
  "body_view (fst sh) = body_view (fst (anS a)) \<Longrightarrow> answer_inv a \<Longrightarrow> answer_inv (a\<lparr>anS := sh\<rparr>)"
  unfolding answer_inv_def body_view_def Let_def by (auto split: option.splits sum.splits)

lemma run_round_trip_body:
  assumes "body_view s = ([], None, False, c)"
  shows "body_view (fst (run_round_trip ewma now r (s, h))) =
     (case r of Inr e \<Rightarrow> ([], None, True, c)
      | Inl (status, b) \<Rightarrow> (if status \<noteq> 200 \<or> c then ([b], None, True, c) else ([], Some b, True, c)))"
  using assms by (auto simp: body_view_def run_round_trip_def round_trip_result_def deliver_def setRoundTripErr_def Let_def
      split: sum.splits prod.splits)

lemma answer_inv_step:
  assumes inv: "answer_inv a" and st: "answer_step a a'" shows "answer_inv a'"
  using st
proof (cases rule: answer_step.cases)
  case (answer r ewma now)
  obtain s h where sh: "anS a = (s, h)" by fastforce
  have "body_view s = ([], None, False, hsClosed s)" using inv answer(2) sh by (simp add: answer_inv_def body_view_def)
  from run_round_trip_body [OF this, of ewma now r h] show ?thesis
    unfolding answer(1) by (auto simp: answer_inv_def body_view_def sh split: sum.splits prod.splits if_splits)
next
  case (close now)
  show ?thesis using inv Close_body [of now "anS a"] unfolding close(1)
    by (auto simp: answer_inv_def body_view_def Let_def split: option.splits sum.splits prod.splits if_splits)
next
  case (read now res v sh)
  then show ?thesis using answer_inv_view [OF Read_body inv] by simp
next
  case (wrote now res v sh)
  then show ?thesis using answer_inv_view [OF Write_body inv] by simp
qed

interpretation answers: step_invariant answer_init answer_step answer_inv
proof unfold_locales
  fix a assume "answer_init a"
  then show "answer_inv a" by (auto simp: answer_init_def answer_inv_def new_stream_def)
qed (fact answer_inv_step)


section \<open>Properties\<close>

text \<open>
  In every state the transport can reach, whatever streams, the health loop and the HTTP library do
  and in whatever order: each slot's counters are exactly the streams open on it and those of them marked
  as heavy, so a slot reported idle has no stream; the pools are well formed; and the next opening panics
  neither when it grows a pool nor when it picks a slot.
\<close>

theorem stream_counts_exact:
  assumes "reachable_from world_init world_step w" "length (wStreams w) < 2 ^ 31 - 1"
  shows "tsActive (hSlots (world_h w) i) = int (open_on i (wStreams w)) \<and>
     tsHeavy (hSlots (world_h w) i) = int (heavy_on i (wStreams w)) \<and> heavy_on i (wStreams w) \<le> open_on i (wStreams w) \<and>
     sched_ok (tpSched (htT (wT w))) \<and> open_grow now off req (wT w) \<noteq> None \<and> open_pick req (wT w) \<noteq> None"
proof -
  have inv: "sched_ok (tpSched (htT (wT w)))" "counts_inv (tpH (htT (wT w))) (wStreams w)"
    using worlds.inv_reachable [OF assms(1)] by (simp_all add: world_inv_def world_h_def)
  have "heavy_on i (wStreams w) \<le> open_on i (wStreams w)" using inv(2) by (intro heavy_le_open) (simp add: counts_inv_def)
  moreover have "tsActive (hSlots (world_h w) i) = int (open_on i (wStreams w))"
    "tsHeavy (hSlots (world_h w) i) = int (heavy_on i (wStreams w))" using inv(2) by (simp_all add: counts_inv_def world_h_def)
  moreover have "open_grow now off req (wT w) \<noteq> None" using open_grow_ok [OF inv, of now off req] by auto
  moreover have "open_pick req (wT w) \<noteq> None" using open_pick_ok [OF inv assms(2), of req now] by auto
  ultimately show ?thesis using inv(1) by blast
qed

definition demo_world :: world where
  "demo_world = \<lparr>wT = \<lparr>htT = demo_transport, htGrowEvents = [], htCanceled = False\<rparr>, wStreams = []\<rparr>"

lemma demo_world_init: "world_init demo_world"
  using demo_sched_ok(1)
  by (simp add: world_init_def demo_world_def world_h_def demo_transport_def empty_h2_def newSlot_def Let_def)

definition demo_req :: OpenRequest where
  "demo_req = \<lparr>orEndpoint = EndpointTCP, orSalt = ''s'', orHighPriority = True, orTarget = ''example.com:443''\<rparr>"

theorem stream_counts_exact_witness: "\<exists>w :: world. open_on 0 (wStreams w) = 1 \<and> tsActive (hSlots (world_h w) 0) = 1"
proof -
  have p: "sched_ok (tpSched (htT (wT demo_world)))" "counts_inv (tpH (htT (wT demo_world))) []"
    using worlds.inv_init [OF demo_world_init] by (simp_all add: world_inv_def world_h_def demo_world_def)
  obtain slot t where o: "open_pick demo_req (wT demo_world) = Some (slot, t)"
    using open_pick_ok [OF p, of demo_req 0] by auto
  have s0: "slot = 0"
    using o by (simp add: open_pick_def demo_world_def demo_transport_def demo_req_def pick_def poolOf_def the_pool_def demo_sched_def
        demo_pool_def tieredSelect_def tieredSelectAt_def pressureLevel_def minActiveInTier_def slotTierOf_def empty_h2_def newSlot_def
        consider_tier_def tierCap_def draining_def weightedActive_def slotWeight_def negativeScore_def numeral_2_eq_2 Let_def)
  let ?w = "demo_world\<lparr>wT := t, wStreams := wStreams demo_world @ [new_stream 0 slot demo_req]\<rparr>"
  have "world_step demo_world ?w" by (rule world_step.pick [OF _ o]) (simp add: demo_world_def)
  moreover have "reachable_from world_init world_step demo_world" using demo_world_init by (rule reachable_from.start)
  ultimately have r: "reachable_from world_init world_step ?w" by (rule reachable_from.step [rotated])
  have "tsActive (hSlots (world_h ?w) 0) = int (open_on 0 (wStreams ?w))"
    using stream_counts_exact [OF r, of 0] by (simp add: demo_world_def)
  moreover have "open_on 0 (wStreams ?w) = 1" by (simp add: open_on_def new_stream_def s0 demo_world_def)
  ultimately have "open_on 0 (wStreams ?w) = 1 \<and> tsActive (hSlots (world_h ?w) 0) = 1" by simp
  then show ?thesis by (rule exI)
qed

text \<open>
  If no slot outside the live ones carries a stream, an uninterrupted opening puts its stream on a
  live slot, and afterwards this still holds.
\<close>

theorem open_uses_live_slot:
  assumes inv: "sched_ok (tpSched (htT t))" "counts_inv (tpH (htT t)) xs" "idle_outside (tpSched (htT t)) xs"
    and op: "Open liveness cd None ce now off req t = Some (Inl s, t')"
  shows "\<exists>b. hsSlot s = Some b \<and> b \<in> live_of (tpSched (htT t')) \<and> idle_outside (tpSched (htT t')) (xs @ [s])"
proof -
  obtain t1 where t1: "open_grow now off req t = Some t1" using op by (auto simp: Open_def split: if_splits option.splits)
  obtain b t2 where t2: "open_pick req t1 = Some (b, t2)" "s = new_stream now b req"
    "t' = upd_t (upd_h (reverifySlot liveness cd b)) t2"
    using op t1 by (auto simp: Open_def Let_def split: if_splits option.splits)
  obtain sc h r h' where g: "sched_ok sc" "counts_inv h xs" "live_of sc \<subseteq> live_of (tpSched (htT t))"
      "\<forall>s \<in> live_of (tpSched (htT t)) - live_of sc. tsActive (hSlots h s) = 0"
      "grow sc (orHighPriority req) h = Some (r, tpSched (htT t1), h')" "hSlots (tpH (htT t1)) = hSlots h'"
    using open_grow_ok [OF inv(1,2), of now off req] t1 by auto
  have zero: "tsActive (hSlots h i) = 0 \<and> tsHeavy (hSlots h i) = 0" if "i \<notin> live_of sc" for i
  proof -
    have "open_on i xs = 0"
      using that g(2,4) inv(3) by (cases "i \<in> live_of (tpSched (htT t))") (auto simp: idle_outside_def counts_inv_def)
    moreover have "heavy_on i xs \<le> open_on i xs" using g(2) by (intro heavy_le_open) (simp add: counts_inv_def)
    ultimately show ?thesis using g(2) by (simp add: counts_inv_def)
  qed
  obtain k where pk: "pick (tpSched (htT t1)) (orHighPriority req) (tpH (htT t1)) = Some (b, k)"
    using t2(1) by (auto simp: open_pick_def Let_def split: option.splits)
  have live: "b \<in> live_of (tpSched (htT t1))"
    by (rule grow_then_pick [OF g(1) counts_loads [OF g(2)] g(5) zero pk g(6)])
  have sc': "tpSched (htT t') = tpSched (htT t1)"
    using t2(1,3) by (auto simp: open_pick_def Let_def split: option.splits)
  have "live_of sc \<subseteq> live_of (tpSched (htT t1))" using grow_ok [OF g(1) counts_loads [OF g(2)] g(5)] by blast
  then have "open_on i (xs @ [s]) = 0" if "i \<notin> live_of (tpSched (htT t1))" for i
  proof -
    assume sub: "live_of sc \<subseteq> live_of (tpSched (htT t1))"
    have "open_on i xs = 0" using zero [of i] sub that g(2) by (auto simp: counts_inv_def)
    moreover have "i \<noteq> b" using live that by blast
    ultimately show ?thesis by (simp add: open_on_def t2(2) new_stream_def)
  qed
  then show ?thesis using live sc' by (simp add: t2(2) new_stream_def idle_outside_def)
qed

theorem open_uses_live_slot_witness:
  "\<exists>s t'. Open None False None ErrEOF 0 9 demo_req (wT demo_world) = Some (Inl s, t') \<and> (\<exists>b. hsSlot s = Some b \<and> b \<in> live_of (tpSched (htT t')))"
proof -
  have p: "sched_ok (tpSched (htT (wT demo_world)))" "counts_inv (tpH (htT (wT demo_world))) []"
    using worlds.inv_init [OF demo_world_init] by (simp_all add: world_inv_def world_h_def demo_world_def)
  have i: "idle_outside (tpSched (htT (wT demo_world))) []" by (simp add: idle_outside_def open_on_def)
  obtain t1 where t1: "open_grow 0 9 demo_req (wT demo_world) = Some t1" "sched_ok (tpSched (htT t1))" "counts_inv (tpH (htT t1)) []"
    using open_grow_ok [OF p, of 0 9 demo_req] by blast
  obtain b t2 where t2: "open_pick demo_req t1 = Some (b, t2)" using open_pick_ok [OF t1(2,3), of demo_req 0] by auto
  have "\<exists>s t'. Open None False None ErrEOF 0 9 demo_req (wT demo_world) = Some (Inl s, t')"
    using t1 t2 by (simp add: Open_def demo_world_def)
  then obtain s t' where o: "Open None False None ErrEOF 0 9 demo_req (wT demo_world) = Some (Inl s, t')" by blast
  show ?thesis using o open_uses_live_slot [OF p i o] by blast
qed

text \<open>
  C36. A response body is never leaked and never closed twice: once the answer is there and the stream is
  closed, in whichever order, the body of the response has been closed exactly once; a refused request's
  body is closed at once; and the stream hands out only the body of an accepted one.
\<close>

theorem response_body_closed_once:
  assumes "reachable_from answer_init answer_step a"
  shows "case anAnswer a of
       None \<Rightarrow> hsBodyClosed (fst (anS a)) = []
     | Some (Inr e) \<Rightarrow> hsBodyClosed (fst (anS a)) = []
     | Some (Inl (status, b)) \<Rightarrow>
         (if status \<noteq> 200 \<or> hsClosed (fst (anS a)) then hsBodyClosed (fst (anS a)) = [b] \<and> hsR (fst (anS a)) = None
          else hsBodyClosed (fst (anS a)) = [] \<and> hsR (fst (anS a)) = Some b)"
  using answers.inv_reachable [OF assms]
  by (auto simp: answer_inv_def Let_def split: option.splits sum.splits)

theorem response_body_closed_once_witness:
  "\<exists>a :: answered. reachable_from answer_init answer_step a \<and> anAnswer a = Some (Inl (200, 7)) \<and> hsClosed (fst (anS a)) \<and>
     hsBodyClosed (fst (anS a)) = [7]"
proof -
  let ?a = "\<lparr>anS = (new_stream 0 0 demo_req, empty_h2), anAnswer = None\<rparr>"
  let ?b = "?a\<lparr>anS := Close 0 (anS ?a)\<rparr>"
  let ?c = "?b\<lparr>anS := run_round_trip (\<lambda>a b. a) 0 (Inl (200, 7)) (anS ?b), anAnswer := Some (Inl (200, 7))\<rparr>"
  have "reachable_from answer_init answer_step ?a"
    by (rule reachable_from.start) (auto simp: answer_init_def)
  then have "reachable_from answer_init answer_step ?b" by (rule reachable_from.step) (rule answer_step.close)
  then have r: "reachable_from answer_init answer_step ?c" by (rule reachable_from.step) (rule answer_step.answer, simp)
  have "hsClosed (fst (anS ?c))"
    using Close_body [of 0 "(new_stream 0 0 demo_req, empty_h2)"]
    by (auto simp: run_round_trip_def deliver_def setRoundTripErr_def round_trip_result_def body_view_def Let_def split: prod.split option.split)
  moreover from this have "anAnswer ?c = Some (Inl (200, 7)) \<and> hsBodyClosed (fst (anS ?c)) = [7]"
    using response_body_closed_once [OF r] by simp
  ultimately show ?thesis using r by blast
qed

text \<open>
  Errors keep their meaning: the error a stream reports still matches everything the original one
  matched, it matches \<open>ErrConnRetired\<close> exactly if it did before or the slot has moved on to another
  generation since the request was submitted (a regular end is never marked), and a refused handshake is
  a result, not a failure, for a caller that waits for the response.
\<close>

theorem stream_errors:
  "\<exists>e'. wrapRetired (s, h) (Some e) = Some e' \<and>
     (\<not> (errors_Is e target \<and> \<not> errors_Is e' target)) \<and>
     (errors_Is e' ErrConnRetired \<longleftrightarrow> errors_Is e ErrConnRetired \<or>
        (\<not> errors_Is e ErrEOF \<and> (\<exists>g i. hsGen s = Some g \<and> hsSlot s = Some i \<and> tsGen (hSlots h i) \<noteq> Some g))) \<and>
     AwaitResponse ctx (s\<lparr>hsReady := True, hsRtErr := Some (HandshakeRejectedError code)\<rparr>, h) = Inr None \<and>
     AwaitResponse ctx (s\<lparr>hsReady := True, hsRtErr := Some (ErrOther n)\<rparr>, h) \<noteq> Inr None"
proof -
  have "AwaitResponse ctx (s\<lparr>hsReady := True, hsRtErr := Some (HandshakeRejectedError code)\<rparr>, h) = Inr None"
    by (auto simp: AwaitResponse_def roundTripErr_def wrapRetired_def split: option.split)
  moreover have "AwaitResponse ctx (s\<lparr>hsReady := True, hsRtErr := Some (ErrOther n)\<rparr>, h) \<noteq> Inr None"
    by (auto simp: AwaitResponse_def roundTripErr_def wrapRetired_def split: option.split)
  moreover have "\<exists>e'. wrapRetired (s, h) (Some e) = Some e' \<and> (\<not> (errors_Is e target \<and> \<not> errors_Is e' target)) \<and>
     (errors_Is e' ErrConnRetired \<longleftrightarrow> errors_Is e ErrConnRetired \<or>
        (\<not> errors_Is e ErrEOF \<and> (\<exists>g i. hsGen s = Some g \<and> hsSlot s = Some i \<and> tsGen (hSlots h i) \<noteq> Some g)))"
    by (auto simp: wrapRetired_def split: option.split)
  ultimately show ?thesis by blast
qed

lemma newSlot_fold:
  assumes "\<And>i. tsActive (hSlots h i) = 0 \<and> tsHeavy (hSlots h i) = 0"
  shows "tsActive (hSlots (fold newSlot xs h) i) = 0 \<and> tsHeavy (hSlots (fold newSlot xs h) i) = 0"
  using assms
proof (induction xs arbitrary: h)
  case (Cons x xs)
  show ?case using Cons.IH [of "newSlot x h"] Cons.prems by (simp add: newSlot_def Let_def)
qed simp

lemma New_bounds:
  "1 \<le> New_maxSlots cfg" "New_maxSlots cfg \<le> MaxConnCountMax" "0 < New_threshold cfg" "New_threshold cfg \<le> MaxStreamThreshold"
  by (simp_all add: New_maxSlots_def New_threshold_def Let_def)

text \<open>
  Building a transport fails only for want of a TLS configuration. Otherwise every configuration
  gives a transport in the initial state of the invariants above: two well formed pools that share the
  slots, a bulk pool as soon as there are two, no live slot, no stream and a positive volume limit.
\<close>

theorem newTransport_starts:
  assumes "\<And>i. tsActive (hSlots h i) = 0 \<and> tsHeavy (hSlots h i) = 0"
  shows "case newTransport fl cfg h of
      None \<Rightarrow> False
    | Some (Inl e) \<Rightarrow> \<not> hcHasTLS cfg
    | Some (Inr t) \<Rightarrow> hcHasTLS cfg \<and> world_init \<lparr>wT = t, wStreams = []\<rparr> \<and>
        idle_outside (tpSched (htT t)) [] \<and> live_of (tpSched (htT t)) = {} \<and>
        0 < lcConnMaxBytes (tpLife (htT t)) \<and>
        length (all_slots (tpSched (htT t))) = nat (New_maxSlots cfg) \<and>
        (2 \<le> New_maxSlots cfg \<longleftrightarrow> 0 < spMaxSlots (scBulk (tpSched (htT t))))"
proof (cases "hcHasTLS cfg")
  case False
  then show ?thesis by (simp add: newTransport_def)
next
  case True
  have th: "New_threshold cfg * 2 \<le> MaxInt32" using New_bounds(4) [of cfg] by simp
  let ?m = "New_maxSlots cfg" and ?h = "fold newSlot [0..<nat (New_maxSlots cfg)] h"
  obtain sc h' where s: "newScheduler ?m [0..<nat ?m] (New_threshold cfg) (New_prioritySlots fl cfg) ?h = Some (sc, h')"
    "sched_ok sc" "all_slots sc = [0..<nat ?m]" "live_of sc = {}" "2 \<le> ?m \<longleftrightarrow> 0 < spMaxSlots (scBulk sc)"
    "\<And>s. tsActive (hSlots h' s) = tsActive (hSlots ?h s) \<and> tsHeavy (hSlots h' s) = tsHeavy (hSlots ?h s)"
    using newScheduler_ok [OF New_bounds(1) [of cfg] _ _ New_bounds(3) [of cfg] th, where slots = "[0..<nat ?m]" and prioritySlots = "New_prioritySlots fl cfg" and h = ?h] by auto
  have z: "tsActive (hSlots h' i) = 0 \<and> tsHeavy (hSlots h' i) = 0" for i using s(6) newSlot_fold [OF assms] by simp
  show ?thesis using True s(2-5) z
    by (simp add: newTransport_def Let_def s(1) world_init_def world_h_def idle_outside_def open_on_def)
qed

theorem newTransport_starts_witness:
  "\<exists>t. newTransport id \<lparr>hcHasTLS = True, hcMaxSlotCount = 0, hcStreamThreshold = 0, hcPrioritySlotRatio = 0,
     hcTimeouts = NewTimeouts 0, hcConnMaxBytes = 0, hcProbeToken = []\<rparr> empty_h2 = Some (Inr t) \<and>
     world_init \<lparr>wT = t, wStreams = []\<rparr>"
proof -
  let ?cfg = "\<lparr>hcHasTLS = True, hcMaxSlotCount = 0, hcStreamThreshold = 0, hcPrioritySlotRatio = 0,
     hcTimeouts = NewTimeouts 0, hcConnMaxBytes = 0, hcProbeToken = []\<rparr>"
  have "tsActive (hSlots empty_h2 i) = 0 \<and> tsHeavy (hSlots empty_h2 i) = 0" for i
    by (simp add: empty_h2_def newSlot_def Let_def)
  from newTransport_starts [OF this, where fl = id and cfg = ?cfg] show ?thesis
    by (cases "newTransport id ?cfg empty_h2") (auto split: sum.splits)
qed

end
