(* ===== verification/Hosts.thy ===== *)
theory Hosts
  imports Prelude
begin

text \<open>
  What the code uses of the Go packages \<open>strings\<close>, \<open>net\<close> and \<open>net/netip\<close> on host names and
  addresses, and the repository's own helpers over them (\<open>util/domain.go\<close>, \<open>util/net.go\<close>, the
  normalisation of \<open>rule/set.go\<close>). A host is a Go string over ASCII: case and white space are
  those of ASCII.
\<close>

section \<open>Package strings\<close>

fun IndexByte :: "string \<Rightarrow> char \<Rightarrow> nat option" where
  "IndexByte [] c = None"
| "IndexByte (x # xs) c = (if x = c then Some 0 else map_option Suc (IndexByte xs c))"

definition LastIndexByte :: "string \<Rightarrow> char \<Rightarrow> nat option" where
  "LastIndexByte s c = map_option (\<lambda>i. length s - Suc i) (IndexByte (rev s) c)"

definition HasPrefix :: "string \<Rightarrow> string \<Rightarrow> bool" where
  "HasPrefix s p \<longleftrightarrow> take (length p) s = p"

definition HasSuffix :: "string \<Rightarrow> string \<Rightarrow> bool" where
  "HasSuffix s p \<longleftrightarrow> length p \<le> length s \<and> drop (length s - length p) s = p"

definition TrimPrefix :: "string \<Rightarrow> string \<Rightarrow> string" where
  "TrimPrefix s p = (if HasPrefix s p then drop (length p) s else s)"

definition TrimSuffix :: "string \<Rightarrow> string \<Rightarrow> string" where
  "TrimSuffix s p = (if HasSuffix s p then take (length s - length p) s else s)"

definition is_space :: "char \<Rightarrow> bool" where
  "is_space c \<longleftrightarrow> c \<in> {CHR '' '', CHR 0x09, CHR 0x0A, CHR 0x0B, CHR 0x0C, CHR 0x0D}"

definition TrimSpace :: "string \<Rightarrow> string" where
  "TrimSpace s = rev (dropWhile is_space (rev (dropWhile is_space s)))"

definition lower :: "char \<Rightarrow> char" where
  "lower c = (if 65 \<le> (of_char c :: nat) \<and> (of_char c :: nat) \<le> 90 then char_of ((of_char c :: nat) + 32) else c)"

definition ToLower :: "string \<Rightarrow> string" where
  "ToLower s = map lower s"

section \<open>Addresses\<close>

definition is_digit :: "char \<Rightarrow> bool" where
  "is_digit c \<longleftrightarrow> 48 \<le> (of_char c :: nat) \<and> (of_char c :: nat) \<le> 57"

definition digit :: "char \<Rightarrow> nat" where
  "digit c = of_char c - 48"

definition hex :: "char \<Rightarrow> nat option" where
  "hex c =
     (let n = (of_char c :: nat)
      in if 48 \<le> n \<and> n \<le> 57 then Some (n - 48)
         else if 97 \<le> n \<and> n \<le> 102 then Some (n - 87)
         else if 65 \<le> n \<and> n \<le> 70 then Some (n - 55) else None)"

text \<open>
  \<open>netip.parseIPv4Fields\<close>: \<open>prev\<close> is the character before the current one, \<open>fields\<close> the fields
  stored so far, \<open>val\<close> and \<open>digLen\<close> the field being read.
\<close>

fun parseIPv4Fields :: "char option \<Rightarrow> nat list \<Rightarrow> nat \<Rightarrow> nat \<Rightarrow> string \<Rightarrow> nat list option" where
  "parseIPv4Fields prev fields val digLen [] =
     (if length fields < 3 then None else Some (fields @ [val]))"
| "parseIPv4Fields prev fields val digLen (c # s) =
     (if is_digit c then
        (if digLen = 1 \<and> val = 0 then None
         else if val * 10 + digit c > 255 then None
         else parseIPv4Fields (Some c) fields (val * 10 + digit c) (Suc digLen) s)
      else if c = CHR ''.'' then
        (if prev = None \<or> s = [] \<or> prev = Some (CHR ''.'') then None
         else if length fields = 3 then None
         else parseIPv4Fields (Some c) (fields @ [val]) 0 0 s)
      else None)"

definition parseIPv4 :: "string \<Rightarrow> bytes option" where
  "parseIPv4 s = map_option (map word_of_nat) (parseIPv4Fields None [] 0 0 s)"

text \<open>The hexadecimal digits at the start of a group: their number and value, \<open>None\<close> for more than four.\<close>

fun hex_group :: "nat \<Rightarrow> int \<Rightarrow> string \<Rightarrow> (nat \<times> int \<times> string) option" where
  "hex_group off acc [] = Some (off, acc, [])"
| "hex_group off acc (c # s) =
     (case hex c of
        None \<Rightarrow> Some (off, acc, c # s)
      | Some d \<Rightarrow> (if off > 3 then None else hex_group (Suc off) (acc * 16 + int d) s))"

text \<open>
  The loop of \<open>netip.parseIPv6\<close>: the bytes stored so far and the position of the ellipsis. The loop
  runs while fewer than sixteen bytes are stored; what follows them is garbage.
\<close>

function parseIPv6_loop :: "bytes \<Rightarrow> nat option \<Rightarrow> string \<Rightarrow> (bytes \<times> nat option) option" where
  "parseIPv6_loop ip ellipsis s =
     (if length ip \<ge> 16 then (if s = [] then Some (ip, ellipsis) else None)
      else
        (case hex_group 0 0 s of
           None \<Rightarrow> None
         | Some (off, acc, rest) \<Rightarrow>
             (if off = 0 then None
              else if rest \<noteq> [] \<and> hd rest = CHR ''.'' then
                (if ellipsis = None \<and> length ip \<noteq> 12 then None
                 else if length ip + 4 > 16 then None
                 else map_option (\<lambda>v4. (ip @ v4, ellipsis)) (parseIPv4 s))
              else
                (let ip = ip @ [word_of_int (acc div 256), word_of_int acc]
                 in if rest = [] then Some (ip, ellipsis)
                    else if hd rest \<noteq> CHR '':'' \<or> length rest = 1 then None
                    else if rest ! 1 = CHR '':'' then
                      (if ellipsis \<noteq> None then None
                       else if length rest = 2 then Some (ip, Some (length ip))
                       else parseIPv6_loop ip (Some (length ip)) (drop 2 rest))
                    else parseIPv6_loop ip ellipsis (tl rest)))))"
  by pat_completeness auto
termination
  by (relation "measure (\<lambda>(ip, _, _). 16 - length ip)") auto

definition expand_ellipsis :: "bytes \<times> nat option \<Rightarrow> bytes option" where
  "expand_ellipsis r =
     (case r of (ip, ellipsis) \<Rightarrow>
       (if length ip < 16 then
          (case ellipsis of
             None \<Rightarrow> None
           | Some e \<Rightarrow> Some (take e ip @ replicate (16 - length ip) 0 @ drop e ip))
        else if ellipsis \<noteq> None then None else Some ip))"

text \<open>\<open>netip.parseIPv6\<close> for an address without a zone; \<open>net.ParseIP\<close> refuses those with one.\<close>

definition parseIPv6 :: "string \<Rightarrow> bytes option" where
  "parseIPv6 s =
     (if HasPrefix s ''::'' then
        (if length s = 2 then Some (replicate 16 0)
         else Option.bind (parseIPv6_loop [] (Some 0) (drop 2 s)) expand_ellipsis)
      else Option.bind (parseIPv6_loop [] None s) expand_ellipsis)"

definition v4InV6Prefix :: bytes where
  "v4InV6Prefix = [0, 0, 0, 0, 0, 0, 0, 0, 0, 0, 0xff, 0xff]"

text \<open>
  \<open>netip.ParseAddr\<close>: the first of the characters dot, colon and percent decides the family. The
  bytes of the result are four for an IPv4 address and sixteen otherwise.
\<close>

definition ParseAddr :: "string \<Rightarrow> bytes option" where
  "ParseAddr s =
     (case filter (\<lambda>c. c = CHR ''.'' \<or> c = CHR '':'' \<or> c = CHR ''%'') s of
        [] \<Rightarrow> None
      | c # _ \<Rightarrow>
          (if c = CHR ''.'' then parseIPv4 s
           else if c = CHR '':'' then (if CHR ''%'' \<in> set s then None else parseIPv6 s)
           else None))"

definition As16 :: "bytes \<Rightarrow> bytes" where
  "As16 ip = (if length ip = 4 then v4InV6Prefix @ ip else ip)"

text \<open>\<open>net.ParseIP\<close> and \<open>IP.To4\<close>: an IP is sixteen bytes, an IPv4 address behind the prefix.\<close>

definition ParseIP :: "string \<Rightarrow> bytes option" where
  "ParseIP s = map_option As16 (ParseAddr s)"

definition To4 :: "bytes \<Rightarrow> bytes option" where
  "To4 ip =
     (if length ip = 4 then Some ip
      else if length ip = 16 \<and> take 12 ip = v4InV6Prefix then Some (drop 12 ip) else None)"

text \<open>\<open>net.SplitHostPort\<close> without the text of its errors.\<close>

definition SplitHostPort :: "string \<Rightarrow> (string \<times> string) option" where
  "SplitHostPort hostport =
     (case LastIndexByte hostport (CHR '':'') of
        None \<Rightarrow> None
      | Some i \<Rightarrow>
          (case
             (if hostport ! 0 = CHR ''['' then
                (case IndexByte hostport (CHR '']'') of
                   None \<Rightarrow> None
                 | Some e \<Rightarrow>
                     (if e + 1 = length hostport \<or> e + 1 \<noteq> i then None
                      else Some (take (e - 1) (drop 1 hostport), 1, e + 1)))
              else if CHR '':'' \<in> set (take i hostport) then None
              else Some (take i hostport, 0, 0)) of
             None \<Rightarrow> None
           | Some (host, j, k) \<Rightarrow>
               (if CHR ''['' \<in> set (drop j hostport) \<or> CHR '']'' \<in> set (drop k hostport) then None
                else Some (host, drop (i + 1) hostport))))"

section \<open>The repository's helpers\<close>

definition IsIP :: "string \<Rightarrow> bool" where
  "IsIP ip \<longleftrightarrow> ParseIP ip \<noteq> None"

definition lan_v4 :: "bytes \<Rightarrow> bool" where
  "lan_v4 ip \<longleftrightarrow>
     ip ! 0 = 0 \<or> ip ! 0 = 10 \<or> (ip ! 0 = 100 \<and> 64 \<le> ip ! 1 \<and> ip ! 1 \<le> 127) \<or> ip ! 0 = 127 \<or>
     (ip ! 0 = 169 \<and> ip ! 1 = 254) \<or> (ip ! 0 = 172 \<and> ip ! 1 AND 0xf0 = 16) \<or>
     (ip ! 0 = 192 \<and> ip ! 1 = 168) \<or> (ip ! 0 = 192 \<and> ip ! 1 = 0) \<or>
     (ip ! 0 = 198 \<and> (ip ! 1 = 18 \<or> ip ! 1 = 19)) \<or>
     (ip ! 0 = 198 \<and> ip ! 1 = 51 \<and> ip ! 2 = 100) \<or>
     (ip ! 0 = 203 \<and> ip ! 1 = 0 \<and> ip ! 2 = 113) \<or> ip ! 0 \<ge> 224"

text \<open>
  The predicates of \<open>net.IP\<close> on an address of sixteen bytes that is not IPv4: private, loopback,
  link-local multicast and unicast, unspecified, multicast and interface-local multicast.
\<close>

definition lan_v6 :: "bytes \<Rightarrow> bool" where
  "lan_v6 ip \<longleftrightarrow>
     ip ! 0 AND 0xfe = 0xfc \<or> ip = replicate 15 0 @ [1] \<or>
     (ip ! 0 = 0xff \<and> ip ! 1 AND 0x0f = 0x02) \<or> (ip ! 0 = 0xfe \<and> ip ! 1 AND 0xc0 = 0x80) \<or>
     ip = replicate 16 0 \<or> ip ! 0 = 0xff \<or> (ip ! 0 = 0xff \<and> ip ! 1 AND 0x0f = 0x01)"

definition lan_ip :: "bytes \<Rightarrow> bool" where
  "lan_ip ip = (case To4 ip of Some ip4 \<Rightarrow> lan_v4 ip4 | None \<Rightarrow> lan_v6 ip)"

definition IsLANIP :: "string \<Rightarrow> bool" where
  "IsLANIP ip = (case ParseIP ip of None \<Rightarrow> False | Some ip \<Rightarrow> lan_ip ip)"

definition IsIPV6 :: "string \<Rightarrow> bool" where
  "IsIPV6 ip =
     (case ParseIP ip of
        None \<Rightarrow> False
      | Some ip \<Rightarrow> (if To4 ip \<noteq> None then False else length ip = 16))"

definition IsIPV6Addr :: "string \<Rightarrow> bool" where
  "IsIPV6Addr addr = IsIPV6 (case SplitHostPort addr of Some (host, _) \<Rightarrow> host | None \<Rightarrow> [])"

text \<open>
  \<open>SubDomains\<close>: the loop collects what follows each dot, up to a dot at the start; the last entry
  is dropped.
\<close>

function sub_loop :: "string \<Rightarrow> string list" where
  "sub_loop domain =
     (case IndexByte domain (CHR ''.'') of
        Some (Suc i) \<Rightarrow> drop (Suc (Suc i)) domain # sub_loop (drop (Suc (Suc i)) domain)
      | _ \<Rightarrow> [])"
  by pat_completeness auto

lemma IndexByte_bound: "IndexByte s c = Some i \<Longrightarrow> i < length s \<and> s ! i = c"
  by (induction s arbitrary: i) (auto split: if_splits)

termination sub_loop
  by (relation "measure length") (auto dest: IndexByte_bound)

definition SubDomains :: "string \<Rightarrow> string list" where
  "SubDomains domain =
     (if domain = [] then []
      else let subs = sub_loop domain
           in if length subs > 1 then take (length subs - 1) subs else [])"

definition NormalizeHost :: "string \<Rightarrow> string" where
  "NormalizeHost host =
     (if host = [] then []
      else
        (let host =
           (if IndexByte host (CHR '':'') \<noteq> None \<or> HasPrefix host ''['' then
              (case SplitHostPort host of
                 Some (h, _) \<Rightarrow> h
               | None \<Rightarrow>
                   (if HasPrefix host ''['' \<and> HasSuffix host '']''
                    then take (length host - 2) (drop 1 host) else host))
            else host)
         in ToLower (TrimSuffix host ''.'')))"

definition normalizeDomainKey :: "string \<Rightarrow> string" where
  "normalizeDomainKey domain = ToLower (TrimSuffix domain ''.'')"

text \<open>\<open>canonicalIP\<close>: the text of an IP stands for its bytes, four for IPv4 and IPv4-mapped IPv6.\<close>

definition canonicalIP :: "bytes \<Rightarrow> bytes" where
  "canonicalIP ip = (case To4 ip of Some ip4 \<Rightarrow> ip4 | None \<Rightarrow> ip)"

declare parseIPv6_loop.simps [simp del] sub_loop.simps [simp del]

section \<open>Hosts with ports\<close>

lemma IndexByte_append: "c \<notin> set p \<Longrightarrow> IndexByte (p @ c # s) c = Some (length p)"
  by (induction p) auto

text \<open>A bare host: what stands before a port, inside or outside of brackets.\<close>

definition bare :: "string \<Rightarrow> bool" where
  "bare h \<longleftrightarrow> CHR ''['' \<notin> set h \<and> CHR '']'' \<notin> set h"

lemma LastIndexByte_append: "c \<notin> set s \<Longrightarrow> LastIndexByte (p @ c # s) c = Some (length p)"
  by (simp add: LastIndexByte_def IndexByte_append)

lemma SplitHostPort_plain:
  assumes "bare h" "CHR '':'' \<notin> set h" "bare p" "CHR '':'' \<notin> set p"
  shows "SplitHostPort (h @ CHR '':'' # p) = Some (h, p)"
proof -
  have "(h @ CHR '':'' # p) ! 0 \<noteq> CHR ''[''" using assms(1) by (cases h) (auto simp: bare_def)
  then show ?thesis using assms by (simp add: SplitHostPort_def LastIndexByte_append bare_def)
qed

lemma SplitHostPort_bracketed:
  assumes "bare h" "bare p" "CHR '':'' \<notin> set p"
  shows "SplitHostPort (CHR ''['' # h @ CHR '']'' # CHR '':'' # p) = Some (h, p)"
proof -
  have last: "LastIndexByte (CHR ''['' # h @ CHR '']'' # CHR '':'' # p) (CHR '':'') = Some (length h + 2)"
    using LastIndexByte_append [OF assms(3), of "CHR ''['' # h @ [CHR '']'']"] by simp
  have "IndexByte (CHR ''['' # h @ CHR '']'' # CHR '':'' # p) (CHR '']'') = Some (length h + 1)"
    using IndexByte_append [of "CHR '']''" "CHR ''['' # h" "CHR '':'' # p"] assms by (simp add: bare_def)
  with last show ?thesis
    using assms by (auto simp: SplitHostPort_def bare_def)
qed

end
