(* ===== verification/ServerGate.thy ===== *)
theory ServerGate
  imports Crypto Hosts
begin

text \<open>
  The gate of the server (\<open>server/handler\<close>): what a request has to pass before a session begins.
  The replay cache of salts, the limiter of handshakes per source address, the cache of resolved
  names, the order of the checks in \<open>preflight\<close> and the token of the probe endpoint. The packages
  \<open>freecache\<close> and \<open>golang.org/x/time/rate\<close> and the resolver are parameters. Times are nanoseconds.
\<close>

section \<open>Package encoding/base64\<close>

text \<open>
  \<open>RawURLEncoding\<close>: no padding, and not strict, so that the bits of the last character that no byte
  needs are ignored. Line breaks in the input are skipped.
\<close>

definition b64_alphabet :: string where
  "b64_alphabet = ''ABCDEFGHIJKLMNOPQRSTUVWXYZabcdefghijklmnopqrstuvwxyz0123456789-_''"

definition b64_value :: "char \<Rightarrow> nat option" where
  "b64_value c = IndexByte b64_alphabet c"

fun b64_encode :: "nat list \<Rightarrow> string" where
  "b64_encode [] = []"
| "b64_encode [a] = [b64_alphabet ! (a div 4), b64_alphabet ! (a mod 4 * 16)]"
| "b64_encode [a, b] =
     [b64_alphabet ! (a div 4), b64_alphabet ! (a mod 4 * 16 + b div 16), b64_alphabet ! (b mod 16 * 4)]"
| "b64_encode (a # b # c # rest) =
     b64_alphabet ! (a div 4) # b64_alphabet ! (a mod 4 * 16 + b div 16) #
     b64_alphabet ! (b mod 16 * 4 + c div 64) # b64_alphabet ! (c mod 64) # b64_encode rest"

fun b64_decode :: "nat list \<Rightarrow> nat list option" where
  "b64_decode [] = Some []"
| "b64_decode [a] = None"
| "b64_decode [a, b] = Some [a * 4 + b div 16]"
| "b64_decode [a, b, c] = Some [a * 4 + b div 16, b mod 16 * 16 + c div 4]"
| "b64_decode (a # b # c # d # rest) =
     map_option (\<lambda>r. (a * 4 + b div 16) # (b mod 16 * 16 + c div 4) # (c mod 4 * 64 + d) # r) (b64_decode rest)"

definition EncodeToString :: "bytes \<Rightarrow> string" where
  "EncodeToString b = b64_encode (map unat b)"

definition DecodeString :: "string \<Rightarrow> bytes option" where
  "DecodeString s =
     (let vs = map b64_value (filter (\<lambda>c. c \<noteq> CHR 0x0A \<and> c \<noteq> CHR 0x0D) s)
      in if None \<in> set vs then None else map_option (map word_of_nat) (b64_decode (map the vs)))"

definition probeKDFInfo :: string where
  "probeKDFInfo = ''easyss-v3-probe''"

definition ProbeToken :: "crypto_lib \<Rightarrow> bytes \<Rightarrow> string result" where
  "ProbeToken lib masterKey =
     (case fst (ReadFull (hkdf_reader lib masterKey [] probeKDFInfo) saltSize) of
        Inl e \<Rightarrow> Inl e
      | Inr b \<Rightarrow> Inr (EncodeToString b))"

section \<open>The replay cache\<close>

record 'c freecache_lib =
  fcGet :: "'c \<Rightarrow> int \<Rightarrow> string \<Rightarrow> bool"
  fcSet :: "'c \<Rightarrow> int \<Rightarrow> string \<Rightarrow> int \<Rightarrow> 'c"

definition saltCacheTTL :: int where
  "saltCacheTTL = 24 * 60 * 60 * 1000000000"

text \<open>\<open>MarkSeen\<close> is one critical section; freecache counts its expiry in whole seconds.\<close>

definition MarkSeen :: "'c freecache_lib \<Rightarrow> int \<Rightarrow> string \<Rightarrow> string \<Rightarrow> 'c \<Rightarrow> bool \<times> 'c" where
  "MarkSeen lib now endpoint saltB64 c =
     (let key = endpoint @ saltB64
      in if fcGet lib c now key then (True, c)
         else (False, fcSet lib c now key (saltCacheTTL div 1000000000)))"

section \<open>The rate limiter\<close>

record 'l limiter_lib =
  limNew :: "'l"
  limAllowN :: "int \<Rightarrow> 'l \<Rightarrow> bool \<times> 'l"

definition ipCleanupThreshold :: nat where "ipCleanupThreshold = 4096"
definition ipCleanupInterval :: int where "ipCleanupInterval = 60 * 1000000000"
definition ipCleanupTTL :: int where "ipCleanupTTL = 30 * 60 * 1000000000"
definition ipHardCap :: nat where "ipHardCap = 65536"

record 'l ipRateEntry =
  ieLim :: 'l
  ieLastSeen :: int

record 'l ipRateLimiter =
  ilEntries :: "string \<rightharpoonup> 'l ipRateEntry"
  ilLastCleanup :: int
  ilLastCapWarn :: int

definition cleanupLocked :: "int \<Rightarrow> 'l ipRateLimiter \<Rightarrow> 'l ipRateLimiter" where
  "cleanupLocked now l =
     l\<lparr>ilEntries := (\<lambda>ip. case ilEntries l ip of
         Some e \<Rightarrow> (if now - ieLastSeen e > ipCleanupTTL then None else Some e)
       | None \<Rightarrow> None)\<rparr>"

definition entry_count :: "'l ipRateLimiter \<Rightarrow> nat" where
  "entry_count l = card (dom (ilEntries l))"

definition Allow_existing :: "'l limiter_lib \<Rightarrow> int \<Rightarrow> string \<Rightarrow> 'l ipRateEntry \<Rightarrow> 'l ipRateLimiter \<Rightarrow> bool \<times> 'l ipRateLimiter" where
  "Allow_existing lib now ip e l =
     (case limAllowN lib now (ieLim e) of (ok, lim) \<Rightarrow>
        (ok, l\<lparr>ilEntries := (ilEntries l)(ip \<mapsto> e\<lparr>ieLim := lim, ieLastSeen := now\<rparr>)\<rparr>))"

definition Allow :: "'l limiter_lib \<Rightarrow> int \<Rightarrow> string \<Rightarrow> 'l ipRateLimiter \<Rightarrow> bool \<times> 'l ipRateLimiter" where
  "Allow lib now ip l =
     (let l = (if entry_count l \<ge> ipCleanupThreshold \<and> now - ilLastCleanup l \<ge> ipCleanupInterval
               then (cleanupLocked now l)\<lparr>ilLastCleanup := now\<rparr> else l)
      in case ilEntries l ip of
           Some e \<Rightarrow> Allow_existing lib now ip e l
         | None \<Rightarrow>
             (let full = entry_count l \<ge> ipHardCap;
                  l = (if full then (cleanupLocked now l)\<lparr>ilLastCleanup := now\<rparr> else l)
              in if full \<and> entry_count l \<ge> ipHardCap
                 then (True, if now - ilLastCapWarn l \<ge> ipCleanupInterval then l\<lparr>ilLastCapWarn := now\<rparr> else l)
                 else Allow_existing lib now ip \<lparr>ieLim = limNew lib, ieLastSeen = now\<rparr> l))"

section \<open>Addresses and resolution\<close>

text \<open>A \<open>netip.Addr\<close> is its four or sixteen bytes and its zone.\<close>

type_synonym addr = "bytes \<times> string"

definition Is4 :: "addr \<Rightarrow> bool" where
  "Is4 a \<longleftrightarrow> length (fst a) = 4"

definition Unmap :: "addr \<Rightarrow> addr" where
  "Unmap a = (case To4 (fst a) of Some ip4 \<Rightarrow> (ip4, []) | None \<Rightarrow> a)"

definition ParseAddr_zone :: "string \<Rightarrow> addr option" where
  "ParseAddr_zone s =
     (case filter (\<lambda>c. c = CHR ''.'' \<or> c = CHR '':'' \<or> c = CHR ''%'') s of
        [] \<Rightarrow> None
      | c # _ \<Rightarrow>
          (if c = CHR ''.'' then map_option (\<lambda>ip. (ip, [])) (parseIPv4 s)
           else if c = CHR '':'' then
             (case IndexByte s (CHR ''%'') of
                None \<Rightarrow> map_option (\<lambda>ip. (ip, [])) (parseIPv6 s)
              | Some i \<Rightarrow>
                  (if drop (i + 1) s = [] then None
                   else map_option (\<lambda>ip. (ip, drop (i + 1) s)) (parseIPv6 (take i s))))
           else None))"

text \<open>
  \<open>FirstLANAddr\<close>: without its zone, the text of an address reads back as the address, so that
  \<open>IsLANIP\<close> sees its bytes.
\<close>

definition FirstLANAddr :: "addr list \<Rightarrow> addr option" where
  "FirstLANAddr addrs = List.find (\<lambda>a. lan_ip (As16 (fst a))) addrs"

text \<open>\<open>ResolveHostIPs\<close> over the resolver's answer for a host name.\<close>

definition ResolveHostIPs :: "(string \<Rightarrow> addr list result) \<Rightarrow> string \<Rightarrow> addr list result" where
  "ResolveHostIPs lookupNetIP addr =
     (let host = (case SplitHostPort addr of Some (h, _) \<Rightarrow> h | None \<Rightarrow> addr)
      in if host = [] then Inl (Msg ''empty host'')
         else case ParseAddr_zone host of
                Some ip \<Rightarrow> Inr [Unmap ip]
              | None \<Rightarrow>
                  (case lookupNetIP host of
                     Inl err \<Rightarrow> Inl err
                   | Inr ips \<Rightarrow>
                       (if ips = [] then Inl (Msg (''no addresses for '' @ host)) else Inr (map Unmap ips))))"

definition resolveCacheMax :: nat where
  "resolveCacheMax = 1024"

record resolveEntry =
  reAddrs :: "addr list"
  reExpires :: int

record resolveCache =
  rsTTL :: int
  rsMax :: nat
  rsEntries :: "string \<rightharpoonup> resolveEntry"

definition newResolveCache :: "int \<Rightarrow> resolveCache" where
  "newResolveCache ttl = \<lparr>rsTTL = ttl, rsMax = resolveCacheMax, rsEntries = Map.empty\<rparr>"

definition load :: "int \<Rightarrow> string \<Rightarrow> resolveCache \<Rightarrow> addr list option" where
  "load now key c =
     (case rsEntries c key of
        None \<Rightarrow> None
      | Some e \<Rightarrow> (if now > reExpires e then None else Some (reAddrs e)))"

text \<open>
  The loop of \<open>evictLocked\<close> visits the keys in an order the run-time chooses; \<open>oldest\<close> is empty as
  long as no entry has survived.
\<close>

fun evict_loop ::
  "int \<Rightarrow> string list \<Rightarrow> string \<times> int \<Rightarrow> (string \<rightharpoonup> resolveEntry) \<Rightarrow> (string \<times> int) \<times> (string \<rightharpoonup> resolveEntry)" where
  "evict_loop now [] oldest m = (oldest, m)"
| "evict_loop now (k # ks) oldest m =
     (case m k of
        None \<Rightarrow> evict_loop now ks oldest m
      | Some e \<Rightarrow>
          (if now > reExpires e then evict_loop now ks oldest (m(k := None))
           else if fst oldest = [] \<or> reExpires e < snd oldest then evict_loop now ks (k, reExpires e) m
           else evict_loop now ks oldest m))"

definition evictLocked :: "int \<Rightarrow> string list \<Rightarrow> resolveCache \<Rightarrow> resolveCache" where
  "evictLocked now order c =
     (case evict_loop now order ([], 0) (rsEntries c) of
        ((oldestKey, _), m) \<Rightarrow>
          (if card (dom m) \<ge> rsMax c \<and> oldestKey \<noteq> [] then c\<lparr>rsEntries := m(oldestKey := None)\<rparr>
           else c\<lparr>rsEntries := m\<rparr>))"

definition resolve_store :: "int \<Rightarrow> string list \<Rightarrow> string \<Rightarrow> addr list \<Rightarrow> resolveCache \<Rightarrow> resolveCache" where
  "resolve_store now order key addrs c =
     (let c = (if card (dom (rsEntries c)) \<ge> rsMax c then evictLocked now order c else c)
      in c\<lparr>rsEntries := (rsEntries c)(key \<mapsto> \<lparr>reAddrs = addrs, reExpires = now + rsTTL c\<rparr>)\<rparr>)"

definition resolveCacheKey :: "string \<Rightarrow> string option" where
  "resolveCacheKey target =
     (let host = (case SplitHostPort target of Some (h, _) \<Rightarrow> h | None \<Rightarrow> target)
      in if host = [] then None else if ParseAddr_zone host \<noteq> None then None else Some host)"

text \<open>
  \<open>lookup\<close>: \<open>gone\<close> is the error of a context that ends before the shared resolution does; the
  resolution goes on and fills the cache all the same.
\<close>

definition resolve_lookup ::
  "(string \<Rightarrow> addr list result) \<Rightarrow> go_error option \<Rightarrow> int \<Rightarrow> string list \<Rightarrow> string \<Rightarrow> resolveCache \<Rightarrow>
     addr list result \<times> resolveCache" where
  "resolve_lookup resolve gone now order target c =
     (case resolveCacheKey target of
        None \<Rightarrow> (resolve target, c)
      | Some key \<Rightarrow>
          (case load now key c of
             Some addrs \<Rightarrow> (Inr addrs, c)
           | None \<Rightarrow>
               (let res = resolve target;
                    c = (case res of Inr addrs \<Rightarrow> resolve_store now order key addrs c | Inl _ \<Rightarrow> c)
                in (case gone of Some e \<Rightarrow> Inl e | None \<Rightarrow> res, c))))"

section \<open>The proxy handler\<close>

record request =
  rqProtoMajor :: nat
  rqMethod :: string
  rqSaltHeader :: string
  rqRemoteAddr :: string
  rqPath :: string
  rqBody :: src

datatype response = Fallback_page | Status nat

record handshakeResult =
  hrKeys :: StreamKeys
  hrFirst :: FirstRecord
  hrEndpoint :: string
  hrTarget :: string
  hrMethod :: Method
  hrAddrs :: "addr list"

record ('c, 'l) ProxyHandler =
  phMasterKey :: bytes
  phAllowedMethods :: "Method set"
  phSaltCache :: 'c
  phIpLimiter :: "'l ipRateLimiter"
  phEnv :: env

text \<open>What the run-time and the libraries contribute to one request.\<close>

record ('c, 'l) surroundings =
  suCrypto :: crypto_lib
  suFreecache :: "'c freecache_lib"
  suLimiter :: "'l limiter_lib"
  suResolve :: "string \<Rightarrow> addr list result"
  suNow :: int
  suWait :: wait_event

definition allowed_methods :: "string list \<Rightarrow> Method set" where
  "allowed_methods names =
     (let allowed = {m \<in> MethodFromString ` set names. m \<noteq> 0}
      in if allowed = {} \<and> names = [] then {MethodAES256GCM, MethodChaCha20Poly1305} else allowed)"

definition maxHandshakeTimeout :: int where
  "maxHandshakeTimeout = 8 * 1000000000"

definition handshake_timeout :: "int \<Rightarrow> int \<Rightarrow> int" where
  "handshake_timeout override base = min (if override \<le> 0 then base else override) maxHandshakeTimeout"

definition clientIP :: "string \<Rightarrow> string" where
  "clientIP remoteAddr = (case SplitHostPort remoteAddr of Some (h, _) \<Rightarrow> h | None \<Rightarrow> remoteAddr)"

definition handshake_error :: "('c, 'l) ProxyHandler \<Rightarrow> ('c, 'l) ProxyHandler" where
  "handshake_error h = h\<lparr>phEnv := with_stats RecordServerHandshakeError (phEnv h)\<rparr>"

text \<open>The second half of \<open>preflight\<close>: the checks of a record that could be read.\<close>

definition preflight_record ::
  "('c, 'l) surroundings \<Rightarrow> StreamKeys \<Rightarrow> FirstRecord \<Rightarrow> string \<Rightarrow> ('c, 'l) ProxyHandler \<Rightarrow>
     (response + handshakeResult) \<times> ('c, 'l) ProxyHandler" where
  "preflight_record su sk first endpoint h =
     (if \<not> MatchesEndpoint (frHandshake first) endpoint then (Inl (Status 404), handshake_error h)
      else if hMethod (frHandshake first) \<notin> phAllowedMethods h then (Inl (Status 405), handshake_error h)
      else
        (let target = hTarget (frHandshake first);
             res = suResolve su target;
             accept = (\<lambda>addrs. (Inr \<lparr>hrKeys = sk, hrFirst = first, hrEndpoint = endpoint, hrTarget = target,
               hrMethod = hMethod (frHandshake first), hrAddrs = addrs\<rparr>, h))
         in case res of
              Inl _ \<Rightarrow> accept []
            | Inr addrs \<Rightarrow>
                (if FirstLANAddr addrs \<noteq> None then (Inl (Status 400), handshake_error h) else accept addrs)))"

definition preflight ::
  "('c, 'l) surroundings \<Rightarrow> request \<Rightarrow> ('c, 'l) ProxyHandler \<Rightarrow>
     (response + handshakeResult) \<times> ('c, 'l) ProxyHandler" where
  "preflight su r h =
     (if rqProtoMajor r < 2 then (Inl Fallback_page, h)
      else if rqMethod r \<noteq> ''POST'' then (Inl Fallback_page, h)
      else if rqSaltHeader r = [] then (Inl Fallback_page, h)
      else case DecodeString (rqSaltHeader r) of
        None \<Rightarrow> (Inl Fallback_page, h)
      | Some salt \<Rightarrow>
          (if length salt \<noteq> 16 then (Inl Fallback_page, h)
           else case Allow (suLimiter su) (suNow su) (clientIP (rqRemoteAddr r)) (phIpLimiter h) of (ok, lim) \<Rightarrow>
             (let h = h\<lparr>phIpLimiter := lim\<rparr>
              in if \<not> ok then (Inl (Status 429), handshake_error h)
                 else case MarkSeen (suFreecache su) (suNow su) (rqPath r) (rqSaltHeader r) (phSaltCache h) of
                   (replay, cache) \<Rightarrow>
                     (let h = h\<lparr>phSaltCache := cache\<rparr>
                      in if replay then (Inl (Status 400), handshake_error h)
                         else case NewStreamKeys (suCrypto su) (phMasterKey h) salt (rqPath r) of
                           Inl _ \<Rightarrow> (Inl Fallback_page, h)
                         | Inr sk \<Rightarrow>
                             (case ReadFirstRecord (suCrypto su) (phEnv h) sk (rqBody r) of (res, _, env) \<Rightarrow>
                               (let h = h\<lparr>phEnv := env\<rparr>
                                in case fst (ReadFirstRecordWithTimeout (suWait su) res) of
                                     Inl err \<Rightarrow>
                                       (Inl (if errors_is err ErrHandshakeTimeout then Status 408 else Fallback_page),
                                        handshake_error h)
                                   | Inr first \<Rightarrow> preflight_record su sk first (rqPath r) h))))))"

section \<open>The probe endpoint\<close>

record 'l ProbeHandler =
  pbPayload :: bytes
  pbToken :: bytes
  pbLimiter :: "'l ipRateLimiter"
  pbStats :: stats

definition NewProbeHandler :: "crypto_lib \<Rightarrow> bytes \<Rightarrow> bytes \<Rightarrow> stats \<Rightarrow> 'l ProbeHandler result" where
  "NewProbeHandler lib masterKey payload g =
     (case ProbeToken lib masterKey of
        Inl e \<Rightarrow> Inl e
      | Inr tokenB64 \<Rightarrow>
          (case DecodeString tokenB64 of
             None \<Rightarrow> Inl (Msg ''illegal base64 data'')
           | Some token \<Rightarrow>
               Inr \<lparr>pbPayload = payload, pbToken = token,
                    pbLimiter = \<lparr>ilEntries = Map.empty, ilLastCleanup = 0, ilLastCapWarn = 0\<rparr>, pbStats = g\<rparr>))"

definition probeChunkSize :: nat where
  "probeChunkSize = 32 * 1024"

text \<open>
  The writes of the payload, one chunk each; \<open>fails\<close> says which write, if any, fails, and ends the
  response. The result is the list of chunks that were written.
\<close>

function probe_chunks :: "nat option \<Rightarrow> bytes \<Rightarrow> bytes list" where
  "probe_chunks fails payload =
     (if payload = [] \<or> fails = Some 0 then []
      else take probeChunkSize payload # probe_chunks (map_option (\<lambda>n. n - 1) fails) (drop probeChunkSize payload))"
  by pat_completeness auto
termination
  by (relation "measure (\<lambda>(_, p). length p)") (auto simp: probeChunkSize_def)

declare probe_chunks.simps [simp del]

definition Probe_ServeHTTP ::
  "'l limiter_lib \<Rightarrow> int \<Rightarrow> nat option \<Rightarrow> request \<Rightarrow> 'l ProbeHandler \<Rightarrow> (response + bytes list) \<times> 'l ProbeHandler" where
  "Probe_ServeHTTP lib now fails r h =
     (if rqProtoMajor r < 2 then (Inl Fallback_page, h)
      else if rqSaltHeader r = [] then (Inl Fallback_page, h)
      else case DecodeString (rqSaltHeader r) of
        None \<Rightarrow> (Inl Fallback_page, h)
      | Some token \<Rightarrow>
          (if length token \<noteq> length (pbToken h) \<or> token \<noteq> pbToken h then (Inl Fallback_page, h)
           else case Allow lib now (clientIP (rqRemoteAddr r)) (pbLimiter h) of (ok, lim) \<Rightarrow>
             (let h = h\<lparr>pbLimiter := lim\<rparr>
              in if \<not> ok then (Inl (Status 429), h)
                 else (Inr (probe_chunks fails (pbPayload h)), h\<lparr>pbStats := RecordServerProbe (pbStats h)\<rparr>))))"

end
