(* ===== verification/Copying.thy ===== *)
theory Copying
  imports Shaping Hosts
begin

text \<open>
  The copying loops of both ends: \<open>server/handler/tcp.go\<close> and \<open>session.go\<close> between a target and the
  tunnel, \<open>client/proxy/stream.go\<close> between a local connection and the tunnel, and
  \<open>client/proxy/route.go\<close> between two connections. A connection that is read from is the bytes that
  arrive and the error after them; how much each \<open>Read\<close> returns, within its buffer, is up to the
  run-time. A connection that is written to is a state and its \<open>Write\<close>.
\<close>

section \<open>Connections\<close>

record conn_src =
  csData :: bytes
  csErr :: go_error
  csSize :: "nat \<Rightarrow> nat"
  csTick :: nat
  csEager :: bool

text \<open>
  A \<open>Read\<close> into a buffer of \<open>cap\<close> bytes: at least one byte while there is one, and the error together
  with the last byte (\<open>csEager\<close>) or on its own.
\<close>

definition conn_read :: "nat \<Rightarrow> conn_src \<Rightarrow> bytes \<times> go_error option \<times> conn_src" where
  "conn_read cap src =
     (let n = min (max 1 (csSize src (csTick src))) cap;
          rest = drop n (csData src)
      in (take n (csData src),
          if csData src = [] \<or> (csEager src \<and> rest = []) then Some (csErr src) else None,
          src\<lparr>csData := rest, csTick := Suc (csTick src)\<rparr>))"

lemma conn_read_facts:
  assumes "conn_read cap src = (d, err, src')"
  shows "csData src = d @ csData src'" "length d \<le> cap" "0 < cap \<Longrightarrow> csData src \<noteq> [] \<Longrightarrow> d \<noteq> []"
    "csData src = [] \<Longrightarrow> err = Some (csErr src)" "err = Some e \<Longrightarrow> e = csErr src \<and> csData src' = []" "csErr src' = csErr src"
  using assms by (auto simp: conn_read_def Let_def split: if_splits)

type_synonym 'd conn_write = "bytes \<Rightarrow> 'd \<Rightarrow> go_error option \<times> 'd"

text \<open>What the copying loops use of a \<open>shaper.Shaper\<close>.\<close>

record 's sender =
  sdData :: "bytes \<Rightarrow> 's \<Rightarrow> (unit result \<times> 's) outcome"
  sdFrame :: "Frame \<Rightarrow> 's \<Rightarrow> (unit result \<times> 's) outcome"
  sdFlush :: "'s \<Rightarrow> (unit result \<times> 's) outcome"

section \<open>Reading into a growing buffer\<close>

text \<open>
  The loop that \<open>copyFromTarget\<close>, \<open>copyLocalToRemote\<close> and \<open>copyHalfClose\<close> have in common: read, hand
  the bytes on, grow the buffer after a full read, until a write or a read fails. \<open>Blocks\<close> stands for
  the spinning that an empty buffer would cause.
\<close>

datatype pump_end = Write_failed go_error | Read_ended go_error

record 's copying =
  pmReader :: Reader
  pmPool :: Allocator
  pmSrc :: conn_src
  pmOut :: 's

definition pump_grow :: "nat \<Rightarrow> bool \<Rightarrow> 's copying \<Rightarrow> 's copying outcome" where
  "pump_grow pick full p =
     (if full
      then (case Grow (pmPool p) pick (pmReader p) of
              (Inl _, al) \<Rightarrow> Panics ''bytespool''
            | (Inr r, al) \<Rightarrow> Done (p\<lparr>pmReader := r, pmPool := al\<rparr>))
      else Done p)"

definition pump_once ::
  "(bytes \<Rightarrow> 's \<Rightarrow> (unit result \<times> 's) outcome) \<Rightarrow> nat \<Rightarrow> 's copying \<Rightarrow> (pump_end option \<times> 's copying) outcome" where
  "pump_once push pick p =
     (case conn_read (Cap (pmReader p)) (pmSrc p) of (d, err, src) \<Rightarrow>
        (let ending = map_option Read_ended err; p = p\<lparr>pmSrc := src\<rparr>
         in if d = [] then Done (ending, p)
            else obind (push d (pmOut p)) (\<lambda>(r, s).
              case r of
                Inl e \<Rightarrow> Done (Some (Write_failed e), p\<lparr>pmOut := s\<rparr>)
              | Inr _ \<Rightarrow>
                  obind (pump_grow pick (length d = Cap (pmReader p)) (p\<lparr>pmOut := s\<rparr>)) (\<lambda>p. Done (ending, p)))))"

lemma pump_grow_src: "pump_grow pick full p = Done p' \<Longrightarrow> pmSrc p' = pmSrc p"
  by (auto simp: pump_grow_def split: if_splits prod.splits sum.splits)

lemma pump_once_progress:
  assumes "pump_once push pick p = Done (None, p')" "0 < Cap (pmReader p)"
  shows "length (csData (pmSrc p')) < length (csData (pmSrc p))"
proof -
  obtain d err src where r: "conn_read (Cap (pmReader p)) (pmSrc p) = (d, err, src)" using prod_cases3 by blast
  have "pmSrc p' = src"
    using assms(1) r by (auto simp: pump_once_def Let_def obind_Done dest: pump_grow_src split: if_splits sum.splits)
      (metis old.unit.exhaust sumE)
  moreover have "err = None"
    using assms(1) r by (auto simp: pump_once_def Let_def obind_Done split: if_splits sum.splits)
      (metis old.unit.exhaust sumE)
  moreover from this have "d \<noteq> []" using conn_read_facts(3,4) [OF r] assms(2) by auto
  moreover have "length (csData (pmSrc p)) = length d + length (csData src)"
    using conn_read_facts(1) [OF r] by simp
  ultimately show ?thesis by simp
qed

function pump ::
  "(bytes \<Rightarrow> 's \<Rightarrow> (unit result \<times> 's) outcome) \<Rightarrow> nat \<Rightarrow> 's copying \<Rightarrow> (pump_end \<times> 's copying) outcome" where
  "pump push pick p =
     (if Cap (pmReader p) = 0 then Blocks
      else case pump_once push pick p of
             Done (Some e, p) \<Rightarrow> Done (e, p)
           | Done (None, p) \<Rightarrow> pump push pick p
           | Panics m \<Rightarrow> Panics m
           | Blocks \<Rightarrow> Blocks)"
  by pat_completeness auto
termination
  by (relation "measure (\<lambda>(_, _, p). length (csData (pmSrc p)))") (auto dest: pump_once_progress)

declare pump.simps [simp del]

text \<open>
  The caller borrows the buffer before the loop and gives it back on return, after what it does at the
  end of the loop (\<open>finish\<close>).
\<close>

definition with_buffer ::
  "(bytes \<Rightarrow> 's \<Rightarrow> (unit result \<times> 's) outcome) \<Rightarrow> (pump_end \<Rightarrow> 's \<Rightarrow> (go_error option \<times> 's) outcome) \<Rightarrow>
     nat \<Rightarrow> int \<Rightarrow> Allocator \<Rightarrow> conn_src \<Rightarrow> 's \<Rightarrow> (go_error option \<times> 's \<times> Allocator) outcome" where
  "with_buffer push finish pick maxBuf al src s =
     (case netbuf_NewReader al pick (int MinRecordBufferSize) maxBuf of
        None \<Rightarrow> Blocks
      | Some (r, al) \<Rightarrow>
          obind (pump push pick \<lparr>pmReader = r, pmPool = al, pmSrc = src, pmOut = s\<rparr>) (\<lambda>(e, p).
            obind (finish e (pmOut p)) (\<lambda>(err, s).
              case Release (pmPool p) (pmReader p) of
                (Inl _, al) \<Rightarrow> Panics ''bytespool''
              | (Inr _, al) \<Rightarrow> Done (err, s, al))))"

definition TCPStreamBufferSize :: int where
  "TCPStreamBufferSize = 15 * 1024"

definition ServerTCPStreamBufferSize :: int where
  "ServerTCPStreamBufferSize = 31 * 1024"

section \<open>Server: from the target to the tunnel\<close>

definition send_fin :: "'s sender \<Rightarrow> 's \<Rightarrow> 's outcome" where
  "send_fin tx s =
     obind (sdFrame tx NewFrameFIN s) (\<lambda>(_, s). obind (sdFlush tx s) (\<lambda>(_, s). Done s))"

definition copyFromTarget ::
  "'s sender \<Rightarrow> nat \<Rightarrow> Allocator \<Rightarrow> conn_src \<Rightarrow> 's \<Rightarrow> (go_error option \<times> 's \<times> Allocator) outcome" where
  "copyFromTarget tx pick =
     with_buffer (sdData tx)
       (\<lambda>ending s. case ending of
          Write_failed e \<Rightarrow> Done (Some e, s)
        | Read_ended e \<Rightarrow>
            (if errors_is e io_EOF then obind (send_fin tx s) (\<lambda>s. Done (None, s)) else Done (Some e, s)))
       pick ServerTCPStreamBufferSize"

section \<open>Client: from the local connection to the tunnel\<close>

definition net_ErrClosed :: go_error where
  "net_ErrClosed = Sentinel ''use of closed network connection''"

definition errLocalConnClosed :: go_error where
  "errLocalConnClosed = Msg ''local connection closed''"

text \<open>
  The text of an error: what \<open>Error\<close> prints, up to the numbers that the model leaves out. A wrapped
  error prints its own text and those of the errors inside.
\<close>

fun error_text :: "go_error \<Rightarrow> string" where
  "error_text (Sentinel m) = m"
| "error_text (Msg m) = m"
| "error_text (Wrap m es) = m @ concat (map (\<lambda>e. '': '' @ error_text e) es)"
| "error_text (Panic m) = m"

definition contains_text :: "string \<Rightarrow> string \<Rightarrow> bool" where
  "contains_text p s \<longleftrightarrow> list_ex (\<lambda>i. take (length p) (drop i s) = p) [0..<Suc (length s)]"

definition isLocalConnClosedError :: "go_error \<Rightarrow> bool" where
  "isLocalConnClosedError e \<longleftrightarrow>
     errors_is e net_ErrClosed \<or> errors_is e io_ErrClosedPipe \<or>
     list_ex (\<lambda>p. contains_text p (ToLower (error_text e)))
       [''use of closed network connection'', ''forcibly closed by the remote host'',
        ''software caused connection abort'', ''connection was aborted'', ''broken pipe'']"

text \<open>The counters of the client move along with the sender's state.\<close>

definition counted_push ::
  "'s sender \<Rightarrow> bytes \<Rightarrow> 's \<times> stats \<Rightarrow> (unit result \<times> 's \<times> stats) outcome" where
  "counted_push tx d sg =
     obind (sdData tx d (fst sg)) (\<lambda>(r, s). Done (r, s, RecordRawBytesSent (int (length d)) (snd sg)))"

definition copyLocalToRemote ::
  "'s sender \<Rightarrow> nat \<Rightarrow> Allocator \<Rightarrow> conn_src \<Rightarrow> 's \<times> stats \<Rightarrow>
     (go_error option \<times> ('s \<times> stats) \<times> Allocator) outcome" where
  "copyLocalToRemote tx pick =
     with_buffer (counted_push tx)
       (\<lambda>ending (s, g). case ending of
          Write_failed e \<Rightarrow>
            obind (sdFlush tx s) (\<lambda>(_, s).
              Done (if errors_is e io_ErrClosedPipe \<or> errors_is e ErrClosed then None else Some e, s, g))
        | Read_ended e \<Rightarrow>
            obind (send_fin tx s) (\<lambda>s.
              Done (if errors_is e io_EOF then None
                    else if isLocalConnClosedError e then Some errLocalConnClosed else Some e, s, g)))
       pick TCPStreamBufferSize"

section \<open>Client: between two connections\<close>

definition write_push :: "'d conn_write \<Rightarrow> bytes \<Rightarrow> 'd \<Rightarrow> (unit result \<times> 'd) outcome" where
  "write_push w d c = (case w d c of (None, c) \<Rightarrow> Done (Inr (), c) | (Some e, c) \<Rightarrow> Done (Inl e, c))"

definition copyHalfClose ::
  "'d conn_write \<Rightarrow> ('d \<Rightarrow> 'd) \<Rightarrow> nat \<Rightarrow> Allocator \<Rightarrow> conn_src \<Rightarrow> 'd \<Rightarrow> (go_error option \<times> 'd \<times> Allocator) outcome" where
  "copyHalfClose w closeWrite pick =
     with_buffer (write_push w)
       (\<lambda>ending dst. case ending of
          Write_failed e \<Rightarrow> Done (Some e, dst)
        | Read_ended e \<Rightarrow> (if errors_is e io_EOF then Done (None, closeWrite dst) else Done (Some e, dst)))
       pick TCPStreamBufferSize"

section \<open>Server: from the tunnel to the target\<close>

text \<open>A frame read from the tunnel leaves less to read: fewer bytes, or fewer decoded frames.\<close>

definition tunnel_left :: "DecryptedReader \<Rightarrow> nat \<times> nat" where
  "tunnel_left dr = (length (sData (rrSrc (drReader dr))), length (drFrames dr))"

lemma ReadRecord_consumes:
  assumes "ReadRecord env rr = (Inr p, rr', env')"
  shows "length (sData (rrSrc rr')) < length (sData (rrSrc rr))"
proof -
  obtain x r where f: "ReadFull (rrSrc rr) MaxCipherLenSize = (x, r)" by fastforce
  with assms obtain lenBuf where x: "x = Inr lenBuf" by (auto simp: ReadRecord_def split: sum.splits if_splits)
  have "length (sData r) < length (sData (rrSrc rr))"
    using f x by (auto simp: ReadFull_def split: if_splits)
  moreover have "length (sData (rrSrc rr')) \<le> length (sData r)"
    using assms f x
    by (auto simp: ReadRecord_def Let_def split: sum.splits if_splits prod.splits option.splits)
      (auto simp: ReadFull_def split: if_splits)
  ultimately show ?thesis by simp
qed

lemma ReadFrame_progress:
  "ReadFrame env dr = (Inr f, dr', env') \<Longrightarrow> (tunnel_left dr', tunnel_left dr) \<in> less_than <*lex*> less_than"
  by (auto simp: ReadFrame_def tunnel_left_def dest: ReadRecord_consumes split: list.splits prod.splits sum.splits)


text \<open>\<open>nextClientFrame\<close>: padding and cover are skipped; the flag says that the stream is over.\<close>

function nextClientFrame :: "env \<Rightarrow> DecryptedReader \<Rightarrow> (Frame \<times> bool) result \<times> DecryptedReader \<times> env" where
  "nextClientFrame env dr =
     (case ReadFrame env dr of
        (Inl e, dr, env) \<Rightarrow> (Inl e, dr, env)
      | (Inr f, dr, env) \<Rightarrow>
          (if fType f = FrameFIN \<or> fType f = FrameRST then (Inr (f, True), dr, env)
           else if fType f = FramePADDING \<or> fType f = FrameCOVER then nextClientFrame env dr
           else (Inr (f, False), dr, env)))"
  by pat_completeness auto
termination
  by (relation "inv_image (less_than <*lex*> less_than) (\<lambda>(_, dr). tunnel_left dr)")
    (auto dest: ReadFrame_progress [OF sym])

declare nextClientFrame.simps [simp del]

lemma nextClientFrame_progress:
  "nextClientFrame env dr = (Inr x, dr', env') \<Longrightarrow> (tunnel_left dr', tunnel_left dr) \<in> less_than <*lex*> less_than"
proof (induction env dr rule: nextClientFrame.induct)
  case (1 env dr)
  obtain y d1 e1 where r: "ReadFrame env dr = (y, d1, e1)" using prod_cases3 by blast
  obtain f where y: "y = Inr f" using 1(2) r by (auto simp: nextClientFrame.simps [of env dr] split: sum.splits)
  have p: "(tunnel_left d1, tunnel_left dr) \<in> less_than <*lex*> less_than" using ReadFrame_progress r y by blast
  show ?case
  proof (cases "fType f = FramePADDING \<or> fType f = FrameCOVER")
    case True
    then have "nextClientFrame e1 d1 = (Inr x, dr', env')"
      using 1(2) r y by (auto simp: nextClientFrame.simps [of env dr])
    then have "(tunnel_left dr', tunnel_left d1) \<in> less_than <*lex*> less_than"
      using 1(1) [of "Inr f" "(d1, e1)" f d1 e1] r y True by auto
    then show ?thesis using p by (auto simp: tunnel_left_def)
  next
    case False
    then show ?thesis using 1(2) r y p by (auto simp: nextClientFrame.simps [of env dr] split: if_splits)
  qed
qed

section \<open>Server: from the tunnel to the target, continued\<close>

record 'd client_copy =
  ccReader :: DecryptedReader
  ccEnv :: env
  ccDst :: 'd

function copyFromClient ::
  "'d conn_write \<Rightarrow> ('d \<Rightarrow> 'd) \<Rightarrow> 'd client_copy \<Rightarrow> go_error option \<times> 'd client_copy" where
  "copyFromClient w closeWrite c =
     (case nextClientFrame (ccEnv c) (ccReader c) of
        (Inl e, dr, env) \<Rightarrow> (Some e, c\<lparr>ccReader := dr, ccEnv := env\<rparr>)
      | (Inr (frame, done), dr, env) \<Rightarrow>
          (let c = c\<lparr>ccReader := dr, ccEnv := env\<rparr>
           in if done
              then (if fType frame = FrameRST then (Some io_EOF, c)
                    else (None, c\<lparr>ccDst := closeWrite (ccDst c)\<rparr>))
              else if fPayload frame = [] then copyFromClient w closeWrite c
              else (case w (fPayload frame) (ccDst c) of
                      (Some wErr, d) \<Rightarrow> (Some wErr, c\<lparr>ccDst := d\<rparr>)
                    | (None, d) \<Rightarrow> copyFromClient w closeWrite (c\<lparr>ccDst := d\<rparr>))))"
  by pat_completeness auto
termination
  by (relation "inv_image (less_than <*lex*> less_than) (\<lambda>(_, _, c). tunnel_left (ccReader c))")
    (auto dest: nextClientFrame_progress [OF sym])

declare copyFromClient.simps [simp del]

section \<open>Client: from the tunnel to the local connection\<close>

definition ErrServerRejectedHandshake :: go_error where
  "ErrServerRejectedHandshake = Msg ''handshake rejected by server''"

definition ErrStreamReset :: go_error where
  "ErrStreamReset = Msg ''stream reset by peer''"

text \<open>
  \<open>classifyFirstReadError\<close>; \<open>rejected\<close> is \<open>transport.IsHandshakeRejected\<close>.
\<close>

definition classifyFirstReadError :: "(go_error \<Rightarrow> bool) \<Rightarrow> go_error \<Rightarrow> go_error" where
  "classifyFirstReadError rejected err =
     (if errors_is err ErrServerRejectedHandshake then err
      else if rejected err then err
      else if list_ex (\<lambda>p. contains_text p (error_text err))
        [''crypto: ciphertext exceeds max'', ''crypto: zero-length ciphertext'', ''crypto: decrypt record'']
      then Wrap ''server returned a non-encrypted payload (check master_key or server config)'' [ErrServerRejectedHandshake]
      else err)"

text \<open>
  The prefetching goroutine reads ahead of the local connection and puts what it finds into a
  queue, data and the end of the stream alike. As the queue keeps the order and has a single reader,
  what the reader sees is this list, whatever the two sides' timing; a full queue only makes the
  goroutine wait. An end of file closes the queue without an item.
\<close>

datatype prefetched = Fetched bytes | Fetched_fin | Fetched_rst | Fetched_err go_error

function prefetch :: "(go_error \<Rightarrow> bool) \<Rightarrow> bool \<Rightarrow> env \<Rightarrow> DecryptedReader \<Rightarrow> prefetched list" where
  "prefetch rejected first env rx =
     (case ReadFrame env rx of
        (Inl e, _, _) \<Rightarrow>
          (let e = (if first then classifyFirstReadError rejected e else e)
           in if errors_is e io_EOF then [] else [Fetched_err e])
      | (Inr frame, rx, env) \<Rightarrow>
          (if fType frame = FrameDATA
           then (if fPayload frame = [] then prefetch rejected False env rx
                 else Fetched (fPayload frame) # prefetch rejected False env rx)
           else if fType frame = FrameFIN then [Fetched_fin]
           else if fType frame = FrameRST then [Fetched_rst]
           else prefetch rejected False env rx))"
  by pat_completeness auto
termination
  by (relation "inv_image (less_than <*lex*> less_than) (\<lambda>(_, _, _, rx). tunnel_left rx)")
    (auto dest: ReadFrame_progress [OF sym])

declare prefetch.simps [simp del]

fun write_local :: "'d conn_write \<Rightarrow> prefetched list \<Rightarrow> 'd \<Rightarrow> stats \<Rightarrow> go_error option \<times> 'd \<times> stats" where
  "write_local w [] dst g = (None, dst, g)"
| "write_local w (Fetched_err e # items) dst g = (Some e, dst, g)"
| "write_local w (Fetched_rst # items) dst g = (Some (Wrap [] [ErrStreamReset]), dst, g)"
| "write_local w (Fetched_fin # items) dst g = (None, dst, g)"
| "write_local w (Fetched data # items) dst g =
     (case w data dst of
        (Some wErr, dst) \<Rightarrow> (Some (if isLocalConnClosedError wErr then errLocalConnClosed else wErr), dst, g)
      | (None, dst) \<Rightarrow> write_local w items dst (RecordRawBytesRecv (int (length data)) g))"

definition copyRemoteToLocal ::
  "(go_error \<Rightarrow> bool) \<Rightarrow> 'd conn_write \<Rightarrow> env \<Rightarrow> DecryptedReader \<Rightarrow> 'd \<Rightarrow> stats \<Rightarrow> go_error option \<times> 'd \<times> stats" where
  "copyRemoteToLocal rejected w env rx dst g = write_local w (prefetch rejected True env rx) dst g"

end
