(* ===== verification/Outbound.thy ===== *)
theory Outbound
  imports ServerGate Copying "HOL-Library.Multiset"
begin

text \<open>
  \<open>server/handler/session.go\<close>: how the server reaches a target. The addresses that were checked in the
  handshake are dialled one after the other, within one budget of time. The network is a parameter:
  what an attempt returns, what the clock says, and whether the caller has gone.
\<close>

section \<open>Addresses as text\<close>

fun nat_text :: "nat \<Rightarrow> string" where
  "nat_text n = (if n < 10 then [char_of (48 + n)] else nat_text (n div 10) @ [char_of (48 + n mod 10)])"

declare nat_text.simps [simp del]

definition hex_char :: "nat \<Rightarrow> char" where
  "hex_char n = char_of (if n < 10 then 48 + n else 87 + n)"

fun hex_text :: "nat \<Rightarrow> string" where
  "hex_text n = (if n < 16 then [hex_char n] else hex_text (n div 16) @ [hex_char (n mod 16)])"

declare hex_text.simps [simp del]

fun join_text :: "string \<Rightarrow> string list \<Rightarrow> string" where
  "join_text sep [] = []"
| "join_text sep [s] = s"
| "join_text sep (s # t # ts) = s @ sep @ join_text sep (t # ts)"

definition v4_text :: "bytes \<Rightarrow> string" where
  "v4_text ip = join_text ''.'' (map (\<lambda>b. nat_text (unat b)) ip)"

fun groups_of :: "bytes \<Rightarrow> nat list" where
  "groups_of (a # b # rest) = (256 * unat a + unat b) # groups_of rest"
| "groups_of _ = []"

text \<open>The first of the longest runs of at least two zero groups: where it starts and ends.\<close>

definition zero_run :: "nat list \<Rightarrow> (nat \<times> nat) option" where
  "zero_run gs =
     fold (\<lambda>i best.
       (let l = length (takeWhile (\<lambda>g. g = 0) (drop i gs))
        in if l \<ge> 2 \<and> l > (case best of None \<Rightarrow> 0 | Some (s, e) \<Rightarrow> e - s) then Some (i, i + l) else best))
       [0..<length gs] None"

definition v6_text :: "bytes \<Rightarrow> string" where
  "v6_text ip =
     (let gs = groups_of ip; hexes = (\<lambda>xs. join_text '':'' (map hex_text xs))
      in case zero_run gs of
           None \<Rightarrow> hexes gs
         | Some (s, e) \<Rightarrow> hexes (take s gs) @ ''::'' @ hexes (drop e gs))"

text \<open>\<open>netip.Addr.String\<close> and \<open>net.JoinHostPort\<close>.\<close>

definition addr_String :: "addr \<Rightarrow> string" where
  "addr_String a =
     (let zone = (if snd a = [] then [] else ''%'' @ snd a)
      in if Is4 a then v4_text (fst a)
         else case To4 (fst a) of
                Some ip4 \<Rightarrow> ''::ffff:'' @ v4_text ip4 @ zone
              | None \<Rightarrow> v6_text (fst a) @ zone)"

definition JoinHostPort :: "string \<Rightarrow> string \<Rightarrow> string" where
  "JoinHostPort host port =
     (if CHR '':'' \<in> set host then ''['' @ host @ '']:'' @ port else host @ '':'' @ port)"

section \<open>Candidates\<close>

record dial_ctx =
  dxPreferred :: "addr option"
  dxResolved :: "addr list"
  dxDeadline :: "int option"

definition withPreferredFamily :: "addr option \<Rightarrow> dial_ctx \<Rightarrow> dial_ctx" where
  "withPreferredFamily a ctx = (case a of None \<Rightarrow> ctx | Some a \<Rightarrow> ctx\<lparr>dxPreferred := Some a\<rparr>)"

definition withResolvedAddrs :: "addr list \<Rightarrow> dial_ctx \<Rightarrow> dial_ctx" where
  "withResolvedAddrs addrs ctx = (if addrs = [] then ctx else ctx\<lparr>dxResolved := addrs\<rparr>)"

definition resolvedAddrs :: "dial_ctx \<Rightarrow> addr list option" where
  "resolvedAddrs ctx = (if dxResolved ctx = [] then None else Some (dxResolved ctx))"

text \<open>The loop that takes turns, the preferred family first.\<close>

fun take_turns :: "'a list \<Rightarrow> 'a list \<Rightarrow> 'a list" where
  "take_turns (p # ps) (r # rs) = p # r # take_turns ps rs"
| "take_turns [] rs = rs"
| "take_turns ps [] = ps"

definition orderByFamily :: "addr list \<Rightarrow> addr option \<Rightarrow> addr list" where
  "orderByFamily addrs prefer =
     (case prefer of
        None \<Rightarrow> addrs
      | Some p \<Rightarrow>
          (if length addrs < 2 then addrs
           else take_turns (filter (\<lambda>a. Is4 a = Is4 p) addrs) (filter (\<lambda>a. Is4 a \<noteq> Is4 p) addrs)))"

text \<open>\<open>candidates\<close>; the resolver is asked only when the handshake left no addresses.\<close>

definition ssrf_error :: go_error where
  "ssrf_error = Msg ''ssrf: rejected lan destination''"

definition candidates :: "(string \<Rightarrow> addr list result) \<Rightarrow> dial_ctx \<Rightarrow> string \<Rightarrow> addr list result" where
  "candidates resolve ctx target =
     (case (case resolvedAddrs ctx of Some addrs \<Rightarrow> Inr addrs | None \<Rightarrow> resolve target) of
        Inl err \<Rightarrow> Inl err
      | Inr addrs \<Rightarrow>
          (if FirstLANAddr addrs \<noteq> None then Inl ssrf_error
           else Inr (orderByFamily addrs (dxPreferred ctx))))"

definition dialAddr :: "addr \<Rightarrow> string \<Rightarrow> string" where
  "dialAddr a target =
     (case SplitHostPort target of
        None \<Rightarrow> addr_String a
      | Some (_, port) \<Rightarrow> JoinHostPort (addr_String a) port)"

section \<open>Attempts\<close>

definition attemptDeadline :: "int \<Rightarrow> int \<Rightarrow> nat \<Rightarrow> int \<Rightarrow> int" where
  "attemptDeadline now deadline candidatesLeft minBudget =
     (let left = deadline - now
      in if left \<le> 0 then now
         else (let share = left sdiv int candidatesLeft
               in now + (if share < minBudget then min left minBudget else share)))"

definition errClientGone :: go_error where
  "errClientGone = Sentinel ''client gone''"

definition defaultDialAttemptMinBudget :: int where
  "defaultDialAttemptMinBudget = 2 * 1000000000"

text \<open>
  A connection is the text of its remote address, if it has one. \<open>nwAttempt\<close> is one call of
  \<open>DialContext\<close> under a deadline; \<open>nwGone\<close> says that the caller's context has ended.
\<close>

type_synonym conn = "string option"

record 'n network =
  nwNow :: "'n \<Rightarrow> int"
  nwGone :: "'n \<Rightarrow> bool"
  nwAttempt :: "int option \<Rightarrow> string \<Rightarrow> 'n \<Rightarrow> conn result \<times> 'n"

record attempt =
  atAddr :: string
  atStart :: int
  atDeadline :: "int option"

text \<open>The loop of \<open>dialAddrs\<close>; the attempts it makes are listed beside its result.\<close>

fun dial_loop ::
  "'n network \<Rightarrow> int \<Rightarrow> int option \<Rightarrow> string \<Rightarrow> addr list \<Rightarrow> 'n \<Rightarrow> conn result \<times> attempt list \<times> 'n" where
  "dial_loop nw minBudget deadline target [] n = (Inl (Msg ''no candidate addresses to dial''), [], n)"
| "dial_loop nw minBudget deadline target (a # addrs) n =
     (let now = nwNow nw n;
          d = map_option (\<lambda>d. attemptDeadline now d (Suc (length addrs)) minBudget) deadline;
          text = dialAddr a target;
          this = \<lparr>atAddr = text, atStart = now, atDeadline = d\<rparr>
      in case nwAttempt nw d text n of
           (Inr conn, n) \<Rightarrow> (Inr conn, [this], n)
         | (Inl err, n) \<Rightarrow>
             (if nwGone nw n then (Inl (Wrap ''client gone'' [errClientGone]), [this], n)
              else if addrs = [] \<or> (case deadline of None \<Rightarrow> False | Some d \<Rightarrow> nwNow nw n \<ge> d) then (Inl err, [this], n)
              else (case dial_loop nw minBudget deadline target addrs n of (r, later, n) \<Rightarrow> (r, this # later, n))))"

definition dialAddrs ::
  "'n network \<Rightarrow> int \<Rightarrow> dial_ctx \<Rightarrow> int \<Rightarrow> string \<Rightarrow> addr list \<Rightarrow> 'n \<Rightarrow> conn result \<times> attempt list \<times> 'n" where
  "dialAddrs nw minBudget ctx timeout target addrs n =
     (let deadline =
        (if timeout > 0
         then Some (case dxDeadline ctx of None \<Rightarrow> nwNow nw n + timeout | Some d \<Rightarrow> min d (nwNow nw n + timeout))
         else dxDeadline ctx)
      in dial_loop nw minBudget deadline target addrs n)"

definition outbound ::
  "'n network \<Rightarrow> (string \<Rightarrow> addr list result) \<Rightarrow> int \<Rightarrow> dial_ctx \<Rightarrow> int \<Rightarrow> string \<Rightarrow> 'n \<Rightarrow>
     conn result \<times> attempt list \<times> 'n" where
  "outbound nw resolve minBudget ctx timeout target n =
     (case candidates resolve ctx target of
        Inl err \<Rightarrow> (Inl err, [], n)
      | Inr addrs \<Rightarrow> dialAddrs nw minBudget ctx timeout target addrs n)"

section \<open>The dialer\<close>

definition lanHostOf :: "string \<Rightarrow> string" where
  "lanHostOf s =
     (case SplitHostPort s of
        Some (host, _) \<Rightarrow> host
      | None \<Rightarrow> (case LastIndexByte s (CHR ''%'') of Some i \<Rightarrow> take i s | None \<Rightarrow> s))"

definition rejectLANConn :: "conn \<Rightarrow> go_error option" where
  "rejectLANConn c =
     (case c of
        None \<Rightarrow> None
      | Some ra \<Rightarrow> (if IsLANIP (lanHostOf ra) then Some ssrf_error else None))"

definition remoteString :: "conn \<Rightarrow> string" where
  "remoteString c = (case c of None \<Rightarrow> [] | Some ra \<Rightarrow> ra)"

text \<open>The upstream proxy, if one is configured: its address, its rules and its \<open>DialContext\<close>.\<close>

record 'n next_proxy =
  npHost :: string
  npShouldProxy :: "string \<Rightarrow> bool"
  npDial :: "string \<Rightarrow> 'n \<Rightarrow> conn result \<times> 'n"

record 'n dialer =
  dlNextProxy :: "'n next_proxy option"
  dlResolve :: "string \<Rightarrow> addr list result"
  dlNetwork :: "'n network"
  dlTimeout :: int
  dlAttemptMinBudget :: int

definition usesNextProxy :: "'n dialer \<Rightarrow> string \<Rightarrow> bool" where
  "usesNextProxy d target = (case dlNextProxy d of None \<Rightarrow> False | Some np \<Rightarrow> npShouldProxy np target)"

text \<open>
  \<open>dialVia\<close>, with the attempts of a direct connection. \<open>dlNetwork\<close> closes a connection that
  \<open>rejectLANConn\<close> refuses; the model drops it.
\<close>

definition dialVia ::
  "'n dialer \<Rightarrow> dial_ctx \<Rightarrow> string \<Rightarrow> bool \<Rightarrow> 'n \<Rightarrow> (conn \<times> string) result \<times> attempt list \<times> 'n" where
  "dialVia d ctx target viaNextProxy n =
     (case (if viaNextProxy then dlNextProxy d else None) of
        Some np \<Rightarrow>
          (let addrs = (case resolvedAddrs ctx of
                          Some addrs \<Rightarrow> addrs
                        | None \<Rightarrow> (case dlResolve d target of Inr addrs \<Rightarrow> addrs | Inl _ \<Rightarrow> []))
           in if FirstLANAddr addrs \<noteq> None then (Inl ssrf_error, [], n)
              else (case npDial np target n of
                      (Inl err, n) \<Rightarrow> (Inl err, [], n)
                    | (Inr conn, n) \<Rightarrow> (Inr (conn, npHost np), [], n)))
      | None \<Rightarrow>
          (case outbound (dlNetwork d) (dlResolve d) (dlAttemptMinBudget d) ctx (dlTimeout d) target n of
             (Inl err, tries, n) \<Rightarrow> (Inl err, tries, n)
           | (Inr conn, tries, n) \<Rightarrow>
               (case rejectLANConn conn of
                  Some err \<Rightarrow> (Inl err, tries, n)
                | None \<Rightarrow> (Inr (conn, remoteString conn), tries, n))))"

definition dialTarget ::
  "'n dialer \<Rightarrow> dial_ctx \<Rightarrow> string \<Rightarrow> 'n \<Rightarrow> (conn \<times> string) result \<times> attempt list \<times> 'n" where
  "dialTarget d ctx target = dialVia d ctx target (usesNextProxy d target)"

end
