(* ===== verification/Dialing.thy ===== *)
theory Dialing
  imports Outbound
begin

text \<open>
  What outbound dialling promises: only checked addresses are dialled, in an order that alternates
  between the families, and within the budget, of which every candidate gets its share.
\<close>

section \<open>The order of the candidates\<close>

lemma mset_take_turns [simp]: "mset (take_turns ps rs) = mset ps + mset rs"
  by (induction ps rs rule: take_turns.induct) auto

lemma filter_take_turns:
  "(\<forall>x \<in> set ps. P x) \<Longrightarrow> (\<forall>x \<in> set rs. \<not> P x) \<Longrightarrow> filter P (take_turns ps rs) = ps \<and> filter (\<lambda>x. \<not> P x) (take_turns ps rs) = rs"
  by (induction ps rs rule: take_turns.induct) (auto simp: filter_id_conv filter_empty_conv)

lemma length_take_turns [simp]: "length (take_turns ps rs) = length ps + length rs"
  by (induction ps rs rule: take_turns.induct) auto

lemma nth_take_turns:
  "i < min (length ps) (length rs) \<Longrightarrow> take_turns ps rs ! (2 * i) = ps ! i \<and> take_turns ps rs ! Suc (2 * i) = rs ! i"
proof (induction ps rs arbitrary: i rule: take_turns.induct)
  case (1 p ps r rs)
  then show ?case by (cases i) auto
qed auto

section \<open>Deadlines\<close>

lemma attemptDeadline_bounds:
  assumes "0 < k" "now < deadline" "0 \<le> minBudget"
  shows "attemptDeadline now deadline k minBudget \<le> deadline" "now + min (deadline - now) minBudget \<le> attemptDeadline now deadline k minBudget"
    "now + (deadline - now) div int k \<le> attemptDeadline now deadline k minBudget"
proof -
  have s: "(deadline - now) sdiv int k = (deadline - now) div int k" using assms by (simp add: sdiv_nonneg)
  have "(deadline - now) div int k \<le> deadline - now"
    using zdiv_mono2 [of "deadline - now" 1 "int k"] assms by simp
  then show "attemptDeadline now deadline k minBudget \<le> deadline" "now + min (deadline - now) minBudget \<le> attemptDeadline now deadline k minBudget"
    "now + (deadline - now) div int k \<le> attemptDeadline now deadline k minBudget"
    using assms s by (auto simp: attemptDeadline_def Let_def)
qed

text \<open>
  What \<open>DialContext\<close> documents: an attempt takes time, and ends by its deadline.
\<close>

definition net_timely :: "'n network \<Rightarrow> bool" where
  "net_timely nw \<longleftrightarrow>
     (\<forall>d a n. nwNow nw n \<le> nwNow nw (snd (nwAttempt nw (Some d) a n)) \<and>
        nwNow nw (snd (nwAttempt nw (Some d) a n)) \<le> max d (nwNow nw n))"

lemma net_timelyD: "net_timely nw \<Longrightarrow> nwNow nw (snd (nwAttempt nw (Some d) a n)) \<le> max d (nwNow nw n)"
  by (simp add: net_timely_def)

lemma dial_loop_addrs:
  "dial_loop nw b D target addrs n = (r, tries, n') \<Longrightarrow>
     map atAddr tries = map (\<lambda>a. dialAddr a target) (take (length tries) addrs)"
  by (induction addrs arbitrary: n r tries n')
    (auto simp: Let_def split: prod.splits sum.splits if_splits)

definition attempt_ok :: "int \<Rightarrow> int \<Rightarrow> attempt \<Rightarrow> bool" where
  "attempt_ok b D t \<longleftrightarrow>
     atStart t < D \<and> (\<exists>d. atDeadline t = Some d \<and> d \<le> D \<and> atStart t + min (D - atStart t) b \<le> d)"

lemma dial_loop_budget:
  assumes "net_timely nw" "0 \<le> b"
  shows "dial_loop nw b (Some D) target addrs n = (r, tries, n') \<Longrightarrow> nwNow nw n < D \<Longrightarrow>
    nwNow nw n' \<le> D \<and> (\<forall>t \<in> set tries. attempt_ok b D t)"
proof (induction addrs arbitrary: n r tries n')
  case (Cons a addrs)
  let ?d = "attemptDeadline (nwNow nw n) D (Suc (length addrs)) b"
  obtain x n1 where x: "nwAttempt nw (Some ?d) (dialAddr a target) n = (x, n1)" by fastforce
  note d = attemptDeadline_bounds [of "Suc (length addrs)", OF _ Cons.prems(2) assms(2)]
  have here: "attempt_ok b D \<lparr>atAddr = t, atStart = nwNow nw n, atDeadline = Some ?d\<rparr>" for t
    using d(1,2) Cons.prems(2) by (simp add: attempt_ok_def)
  have "nwNow nw n1 \<le> max ?d (nwNow nw n)" using net_timelyD [OF assms(1), of ?d "dialAddr a target" n] x by simp
  then have n1: "nwNow nw n1 \<le> D" using d(1) Cons.prems(2) by simp
  have later: "dial_loop nw b (Some D) target addrs n1 = (r2, tr2, n2) \<Longrightarrow> D \<noteq> nwNow nw n1 \<Longrightarrow>
      nwNow nw n2 \<le> D"
    "dial_loop nw b (Some D) target addrs n1 = (r2, tr2, n2) \<Longrightarrow> D \<noteq> nwNow nw n1 \<Longrightarrow> t \<in> set tr2 \<Longrightarrow> attempt_ok b D t"
    for r2 tr2 n2 t
    using Cons.IH [of n1 r2 tr2 n2] n1 by auto
  show ?case
    using Cons.prems x n1 here
    by (auto simp: Let_def split: sum.splits if_splits prod.splits dest: later(1) intro: later(2))
qed simp

lemma dial_loop_all_tried:
  assumes "net_timely nw" "0 < b"
  shows "dial_loop nw b (Some D) target addrs n = (r, tries, n') \<Longrightarrow> int (length addrs) * b \<le> D - nwNow nw n \<Longrightarrow>
    (\<exists>c. r = Inr c) \<or> nwGone nw n' \<or> length tries = length addrs"
proof (induction addrs arbitrary: n r tries n')
  case (Cons a addrs)
  define k where "k = int (Suc (length addrs))"
  define left where "left = D - nwNow nw n"
  have k: "0 < k" "int (length addrs) = k - 1" by (simp_all add: k_def)
  have left: "k * b \<le> left" using Cons.prems(2) by (simp add: k_def left_def)
  then have share: "b \<le> left div k" using k(1) by (simp add: zdiv_mono1 [of "k * b" left k, simplified])
  have pos: "0 < left" using left k(1) assms(2) by (metis mult_pos_pos order_less_le_trans)
  let ?d = "attemptDeadline (nwNow nw n) D (Suc (length addrs)) b"
  have d: "?d = nwNow nw n + left div k"
    using pos share by (simp add: attemptDeadline_def Let_def left_def [symmetric] sdiv_nonneg k_def)
  obtain x n1 where x: "nwAttempt nw (Some ?d) (dialAddr a target) n = (x, n1)" by fastforce
  have "nwNow nw n1 \<le> max ?d (nwNow nw n)" using net_timelyD [OF assms(1), of ?d "dialAddr a target" n] x by simp
  then have n1: "nwNow nw n1 \<le> nwNow nw n + left div k" using d share assms(2) by simp
  have "k * (left div k) \<le> left" using mult_div_mod_eq [of k left] pos_mod_sign [of k left] k(1) by linarith
  moreover have "(k - 1) * b \<le> (k - 1) * (left div k)" using share k by (intro mult_left_mono) auto
  ultimately have rest: "int (length addrs) * b \<le> D - nwNow nw n1"
    using n1 unfolding k(2) left_def [symmetric] by (simp add: left_def algebra_simps)
  have alive: "nwNow nw n1 < D" if "addrs \<noteq> []"
  proof -
    have "1 * b \<le> int (length addrs) * b" using that assms(2) by (intro mult_right_mono) (cases addrs; simp)+
    then show ?thesis using rest assms(2) by linarith
  qed
  show ?case
    using Cons.prems(1) x alive Cons.IH [of n1] rest
    by (auto simp: Let_def split: sum.splits if_splits prod.splits)
qed simp

section \<open>Properties\<close>

lemma filter_turns:
  fixes addrs :: "addr list"
  defines "turns b \<equiv> take_turns (filter (\<lambda>a. Is4 a = b) addrs) (filter (\<lambda>a. Is4 a \<noteq> b) addrs)"
  shows "mset (turns b) = mset addrs" "filter Is4 (turns b) = filter Is4 addrs"
    "filter (\<lambda>a. \<not> Is4 a) (turns b) = filter (\<lambda>a. \<not> Is4 a) addrs"
proof -
  have "mset (filter (\<lambda>a. Is4 a = b) addrs) + mset (filter (\<lambda>a. Is4 a \<noteq> b) addrs) = mset addrs"
    by (induction addrs) auto
  then show "mset (turns b) = mset addrs" by (simp only: turns_def mset_take_turns)
  have "filter Is4 (take_turns (filter Is4 addrs) (filter (\<lambda>a. \<not> Is4 a) addrs)) = filter Is4 addrs \<and>
      filter (\<lambda>a. \<not> Is4 a) (take_turns (filter Is4 addrs) (filter (\<lambda>a. \<not> Is4 a) addrs)) = filter (\<lambda>a. \<not> Is4 a) addrs"
    by (rule filter_take_turns) auto
  moreover have "filter (\<lambda>a. \<not> Is4 a) (take_turns (filter (\<lambda>a. \<not> Is4 a) addrs) (filter Is4 addrs)) = filter (\<lambda>a. \<not> Is4 a) addrs \<and>
      filter (\<lambda>a. \<not> \<not> Is4 a) (take_turns (filter (\<lambda>a. \<not> Is4 a) addrs) (filter Is4 addrs)) = filter Is4 addrs"
    by (rule filter_take_turns) auto
  ultimately show "filter Is4 (turns b) = filter Is4 addrs" "filter (\<lambda>a. \<not> Is4 a) (turns b) = filter (\<lambda>a. \<not> Is4 a) addrs"
    unfolding turns_def by (cases b; simp only: simp_thms)+
qed

lemma orderByFamily_facts:
  "mset (orderByFamily addrs p) = mset addrs"
  "filter Is4 (orderByFamily addrs p) = filter Is4 addrs"
  "filter (\<lambda>a. \<not> Is4 a) (orderByFamily addrs p) = filter (\<lambda>a. \<not> Is4 a) addrs"
proof -
  consider "orderByFamily addrs p = addrs"
    | b where "orderByFamily addrs p = take_turns (filter (\<lambda>a. Is4 a = b) addrs) (filter (\<lambda>a. Is4 a \<noteq> b) addrs)"
  proof (cases p)
    case None
    show thesis by (rule that(1)) (simp only: None orderByFamily_def option.case)
  next
    case (Some q)
    show thesis
    proof (cases "length addrs < 2")
      case True
      show thesis by (rule that(1)) (simp only: True Some orderByFamily_def option.case if_True)
    next
      case False
      show thesis by (rule that(2) [of "Is4 q"]) (simp only: False Some orderByFamily_def option.case if_False)
    qed
  qed
  then show "mset (orderByFamily addrs p) = mset addrs" "filter Is4 (orderByFamily addrs p) = filter Is4 addrs"
    "filter (\<lambda>a. \<not> Is4 a) (orderByFamily addrs p) = filter (\<lambda>a. \<not> Is4 a) addrs"
    by (cases; simp only: filter_turns)+
qed

lemma orderByFamily_turns:
  assumes "i < min (length (filter (\<lambda>a. Is4 a = Is4 p) addrs)) (length (filter (\<lambda>a. Is4 a \<noteq> Is4 p) addrs))"
  shows "Is4 (orderByFamily addrs (Some p) ! (2 * i)) = Is4 p" "Is4 (orderByFamily addrs (Some p) ! Suc (2 * i)) \<noteq> Is4 p"
proof -
  let ?ps = "filter (\<lambda>a. Is4 a = Is4 p) addrs" and ?rs = "filter (\<lambda>a. Is4 a \<noteq> Is4 p) addrs"
  have "length ?ps + length ?rs = length addrs" by (rule sum_length_filter_compl)
  then have "2 \<le> length addrs" using assms by auto
  then have o: "orderByFamily addrs (Some p) = take_turns ?ps ?rs" by (simp add: orderByFamily_def)
  have "?ps ! i \<in> set ?ps" "?rs ! i \<in> set ?rs" using assms by (intro nth_mem; simp)+
  then show "Is4 (orderByFamily addrs (Some p) ! (2 * i)) = Is4 p" "Is4 (orderByFamily addrs (Some p) ! Suc (2 * i)) \<noteq> Is4 p"
    using nth_take_turns [OF assms] unfolding o by (auto simp only: set_filter mem_Collect_eq)
qed

text \<open>
  The order of the candidates is a preference and no filter: no address is lost or added, each
  family keeps the order the resolver gave it, and as long as both families have addresses left they
  alternate, the client's own family first.
\<close>

theorem candidates_alternate:
  assumes "candidates resolve ctx target = Inr cs" "dxResolved ctx = addrs" "addrs \<noteq> []"
  shows "mset cs = mset addrs \<and> filter Is4 cs = filter Is4 addrs \<and> filter (\<lambda>a. \<not> Is4 a) cs = filter (\<lambda>a. \<not> Is4 a) addrs \<and>
    (\<forall>p i. dxPreferred ctx = Some p \<and>
       i < min (length (filter (\<lambda>a. Is4 a = Is4 p) addrs)) (length (filter (\<lambda>a. Is4 a \<noteq> Is4 p) addrs)) \<longrightarrow>
       Is4 (cs ! (2 * i)) = Is4 p \<and> Is4 (cs ! Suc (2 * i)) \<noteq> Is4 p)"
proof -
  have "cs = orderByFamily addrs (dxPreferred ctx)"
    using assms by (auto simp: candidates_def resolvedAddrs_def split: if_splits)
  then show ?thesis using orderByFamily_facts orderByFamily_turns by auto
qed

text \<open>
  C33. Dialling keeps to its budget and shares it out: it ends within the timeout, each attempt has at
  least the smaller of the minimum and what is left, none may outlast the whole, and when the budget
  gives every candidate its minimum, every candidate is tried unless one answers or the caller leaves.
\<close>

theorem dial_within_budget:
  assumes "net_timely nw" "0 < timeout" "0 < b" "dxDeadline ctx = None"
    and "dialAddrs nw b ctx timeout target addrs n = (r, tries, n')"
  shows "nwNow nw n' \<le> nwNow nw n + timeout \<and> (\<forall>t \<in> set tries. attempt_ok b (nwNow nw n + timeout) t) \<and>
    map atAddr tries = map (\<lambda>a. dialAddr a target) (take (length tries) addrs) \<and>
    (int (length addrs) * b \<le> timeout \<longrightarrow> (\<exists>c. r = Inr c) \<or> nwGone nw n' \<or> length tries = length addrs)"
proof -
  have l: "dial_loop nw b (Some (nwNow nw n + timeout)) target addrs n = (r, tries, n')"
    using assms by (simp add: dialAddrs_def)
  show ?thesis
    using dial_loop_budget [OF assms(1) _ l] dial_loop_all_tried [OF assms(1,3) l] dial_loop_addrs [OF l] assms(2,3) by auto
qed

text \<open>The addresses a dial is checked against: those of the handshake, else the resolver's.\<close>

definition known_addrs :: "'n dialer \<Rightarrow> dial_ctx \<Rightarrow> string \<Rightarrow> addr list" where
  "known_addrs d ctx target =
     (case resolvedAddrs ctx of
        Some addrs \<Rightarrow> addrs
      | None \<Rightarrow> (case dlResolve d target of Inr addrs \<Rightarrow> addrs | Inl _ \<Rightarrow> []))"

lemma outbound_tries:
  assumes "outbound nw resolve b ctx timeout target n = (r, tries, n')" "t \<in> set tries"
  shows "\<exists>a addrs. candidates resolve ctx target = Inr addrs \<and> a \<in> set addrs \<and> atAddr t = dialAddr a target"
proof -
  obtain addrs where c: "candidates resolve ctx target = Inr addrs"
      and d: "dialAddrs nw b ctx timeout target addrs n = (r, tries, n')"
    using assms by (auto simp: outbound_def split: sum.splits)
  have "atAddr t \<in> set (map atAddr tries)" using assms(2) by simp
  also have "map atAddr tries = map (\<lambda>a. dialAddr a target) (take (length tries) addrs)"
    using d dial_loop_addrs by (auto simp: dialAddrs_def Let_def)
  finally show ?thesis using c by (auto dest: in_set_takeD)
qed

lemma candidates_known:
  assumes "candidates (dlResolve d) ctx target = Inr addrs"
  shows "set addrs = set (known_addrs d ctx target)" "\<forall>a \<in> set addrs. \<not> lan_ip (As16 (fst a))"
proof -
  show s: "set addrs = set (known_addrs d ctx target)"
    using assms orderByFamily_facts(1) [of _ "dxPreferred ctx", THEN mset_eq_setD]
    by (auto simp: candidates_def known_addrs_def split: option.splits sum.splits if_splits)
  show "\<forall>a \<in> set addrs. \<not> lan_ip (As16 (fst a))"
    using assms unfolding s
    by (auto simp: candidates_def known_addrs_def FirstLANAddr_def find_None_iff split: option.splits sum.splits if_splits)
qed

text \<open>
  C12. No way into the local network: every address that is dialled is one of those that were checked,
  and none of these is local; a target with a local address among them is refused without an attempt;
  what the handshake resolved is not resolved again; and a direct connection that ends up at a local
  address is given up.
\<close>

theorem only_checked_addresses_dialled:
  assumes "dialTarget d ctx target n = (r, tries, n')"
  shows "(\<forall>t \<in> set tries. \<exists>a \<in> set (known_addrs d ctx target). atAddr t = dialAddr a target \<and> \<not> lan_ip (As16 (fst a))) \<and>
    ((\<exists>a \<in> set (known_addrs d ctx target). lan_ip (As16 (fst a))) \<longrightarrow> r = Inl ssrf_error \<and> tries = [] \<and> n' = n) \<and>
    (dxResolved ctx \<noteq> [] \<longrightarrow> (\<forall>resolve. dialTarget (d\<lparr>dlResolve := resolve\<rparr>) ctx target n = (r, tries, n'))) \<and>
    (\<forall>ra via. r = Inr (Some ra, via) \<and> \<not> usesNextProxy d target \<longrightarrow> \<not> IsLANIP (lanHostOf ra))"
proof (intro conjI ballI allI impI)
  fix t assume t: "t \<in> set tries"
  then obtain r2 n2 where "outbound (dlNetwork d) (dlResolve d) (dlAttemptMinBudget d) ctx (dlTimeout d) target n = (r2, tries, n2)"
    using assms by (auto simp: dialTarget_def dialVia_def Let_def split: if_splits option.splits prod.splits sum.splits)
  then show "\<exists>a \<in> set (known_addrs d ctx target). atAddr t = dialAddr a target \<and> \<not> lan_ip (As16 (fst a))"
    using outbound_tries [OF _ t] candidates_known by metis
next
  assume "\<exists>a \<in> set (known_addrs d ctx target). lan_ip (As16 (fst a))"
  then have l: "FirstLANAddr (known_addrs d ctx target) \<noteq> None" by (auto simp: FirstLANAddr_def find_None_iff)
  then have "candidates (dlResolve d) ctx target = Inl ssrf_error"
    by (auto simp: candidates_def known_addrs_def FirstLANAddr_def split: option.splits sum.splits)
  then have "outbound (dlNetwork d) (dlResolve d) (dlAttemptMinBudget d) ctx (dlTimeout d) target n = (Inl ssrf_error, [], n)"
    by (simp add: outbound_def)
  then have "dialTarget d ctx target n = (Inl ssrf_error, [], n)"
    using l by (auto simp: dialTarget_def dialVia_def known_addrs_def [symmetric] split: option.splits)
  then show "r = Inl ssrf_error" "tries = []" "n' = n" using assms by simp_all
next
  fix resolve assume "dxResolved ctx \<noteq> []"
  then show "dialTarget (d\<lparr>dlResolve := resolve\<rparr>) ctx target n = (r, tries, n')"
    unfolding assms [symmetric]
    by (cases "dlNextProxy d")
      (simp_all add: dialTarget_def dialVia_def outbound_def candidates_def resolvedAddrs_def usesNextProxy_def)
next
  fix ra via assume "r = Inr (Some ra, via) \<and> \<not> usesNextProxy d target"
  then show "\<not> IsLANIP (lanHostOf ra)"
    using assms by (auto simp: dialTarget_def dialVia_def rejectLANConn_def split: prod.splits sum.splits option.splits if_splits)
qed

section \<open>Concrete instances\<close>

text \<open>A network on which every attempt runs into its deadline; its state is the clock.\<close>

definition silent_net :: "int network" where
  "silent_net = \<lparr>nwNow = (\<lambda>n. n), nwGone = (\<lambda>_. False),
     nwAttempt = (\<lambda>d _ n. (Inl (Msg ''i/o timeout''), case d of None \<Rightarrow> n + 1 | Some t \<Rightarrow> max n t))\<rparr>"

definition demo_addrs :: "addr list" where
  "demo_addrs = [([1, 1, 1, 1], []), ([8, 8, 8, 8], []), ([32, 1, 0, 0, 0, 0, 0, 0, 0, 0, 0, 0, 0, 0, 0, 1], [])]"

definition demo_ctx :: dial_ctx where
  "demo_ctx = \<lparr>dxPreferred = Some ([9, 9, 9, 9], []), dxResolved = demo_addrs, dxDeadline = None\<rparr>"

lemma silent_net_timely: "net_timely silent_net"
  by (simp add: net_timely_def silent_net_def)

lemma demo_public: "FirstLANAddr demo_addrs = None"
  by code_simp

theorem candidates_alternate_witness:
  "\<exists>cs. candidates (\<lambda>_. Inl io_EOF) demo_ctx ''a:80'' = Inr cs \<and> mset cs = mset demo_addrs"
proof -
  have "candidates (\<lambda>_. Inl io_EOF) demo_ctx ''a:80'' = Inr (orderByFamily demo_addrs (dxPreferred demo_ctx))"
    using demo_public by (simp add: candidates_def demo_ctx_def resolvedAddrs_def demo_addrs_def)
  then show ?thesis
    using candidates_alternate [of "\<lambda>_. Inl io_EOF" demo_ctx "''a:80''"] by (auto simp: demo_ctx_def demo_addrs_def)
qed

theorem dial_within_budget_witness:
  "\<exists>r tries n'. dialAddrs silent_net 2 demo_ctx 10 ''a:80'' demo_addrs 0 = (r, tries, n') \<and> n' \<le> 10 \<and>
     ((\<exists>c. r = Inr c) \<or> length tries = 3)"
proof -
  obtain r tries n' where d: "dialAddrs silent_net 2 demo_ctx 10 ''a:80'' demo_addrs 0 = (r, tries, n')"
    using prod_cases3 by blast
  then show ?thesis
    using dial_within_budget [OF silent_net_timely _ _ _ d] by (auto simp: demo_ctx_def silent_net_def demo_addrs_def)
qed

definition demo_dialer :: "int dialer" where
  "demo_dialer = \<lparr>dlNextProxy = None, dlResolve = (\<lambda>_. Inr [([10, 0, 0, 1], [])]), dlNetwork = silent_net,
     dlTimeout = 10, dlAttemptMinBudget = 2\<rparr>"

theorem only_checked_addresses_dialled_witness:
  "dialTarget demo_dialer (demo_ctx\<lparr>dxResolved := []\<rparr>) ''a:80'' 0 = (Inl ssrf_error, [], 0)"
proof -
  obtain r tries n' where d: "dialTarget demo_dialer (demo_ctx\<lparr>dxResolved := []\<rparr>) ''a:80'' 0 = (r, tries, n')"
    using prod_cases3 by blast
  have "lan_ip (As16 [10, 0, 0, 1])" by code_simp
  then have "\<exists>a \<in> set (known_addrs demo_dialer (demo_ctx\<lparr>dxResolved := []\<rparr>) ''a:80''). lan_ip (As16 (fst a))"
    by (simp add: known_addrs_def demo_dialer_def resolvedAddrs_def)
  then show ?thesis using only_checked_addresses_dialled [OF d] d by simp
qed

end
