(* ===== verification/Delivery.thy ===== *)
theory Delivery
  imports Copying
begin

text \<open>
  What the copying loops deliver. The locale \<open>frame_sender\<close> states what they rely on of a shaper: a
  push that returns has added its frame to what will be sent. It is interpreted on the batching
  shaper; with the record channel below, the two halves of the tunnel compose to a byte stream.
\<close>

section \<open>The loop\<close>

lemma pump_delivers:
  fixes push :: "bytes \<Rightarrow> 's \<Rightarrow> (unit result \<times> 's) outcome"
  assumes push: "\<And>cs s d. R cs s \<Longrightarrow> d \<noteq> [] \<Longrightarrow> length d \<le> B \<Longrightarrow> \<exists>s'. push d s = Done (Inr (), s') \<and> R (cs @ [d]) s'"
    and "reader_inv (pmReader p)" "rdMax (pmReader p) \<le> int B" "alloc_inv (pmPool p)" "R cs (pmOut p)"
  shows "\<exists>p' ds. pump push pick p = Done (Read_ended (csErr (pmSrc p)), p') \<and> concat ds = csData (pmSrc p) \<and>
    R (cs @ ds) (pmOut p') \<and> alloc_inv (pmPool p') \<and> reader_inv (pmReader p')"
  using assms(2-)
proof (induction "length (csData (pmSrc p))" arbitrary: p cs rule: less_induct)
  case less
  obtain j k where jk: "rdMax (pmReader p) = 2 ^ j" "k \<le> j" "length (rdBuf (pmReader p)) = 2 ^ k"
    using less.prems(1) by (auto simp: reader_inv_def)
  have cap: "0 < Cap (pmReader p)" using jk by (simp add: Cap_def)
  have "(2 :: int) ^ k \<le> 2 ^ j" using jk(2) by (intro power_increasing) auto
  then have "int (Cap (pmReader p)) \<le> rdMax (pmReader p)" using jk(1,3) by (simp add: Cap_def)
  then have "int (Cap (pmReader p)) \<le> int B" using less.prems(2) by linarith
  then have capB: "Cap (pmReader p) \<le> B" by simp
  obtain d err src where r: "conn_read (Cap (pmReader p)) (pmSrc p) = (d, err, src)" using prod_cases3 by blast
  note f = conn_read_facts [OF r]
  define p1 where "p1 = p\<lparr>pmSrc := src\<rparr>"
  have once: "\<exists>p2 cs2. pump_once push pick p = Done (map_option Read_ended err, p2) \<and> R (cs @ cs2) (pmOut p2) \<and>
      concat cs2 = d \<and> pmSrc p2 = src \<and> reader_inv (pmReader p2) \<and> rdMax (pmReader p2) = rdMax (pmReader p) \<and>
      alloc_inv (pmPool p2)"
  proof (cases "d = []")
    case True
    then show ?thesis using r less.prems
      by (intro exI [of _ "p1"] exI [of _ "[]"]) (simp add: pump_once_def p1_def Let_def)
  next
    case False
    obtain s' where s': "push d (pmOut p) = Done (Inr (), s')" "R (cs @ [d]) s'"
      using push [OF less.prems(4) False] f(2) capB by auto
    obtain r2 al2 where g: "Grow (pmPool p) pick (pmReader p) = (Inr r2, al2)" "reader_inv r2" "alloc_inv al2"
        "rdMax r2 = rdMax (pmReader p)"
      using Grow_inv [OF less.prems(3,1)] by blast
    define p2 where "p2 = (if length d = Cap (pmReader p) then p1\<lparr>pmOut := s', pmReader := r2, pmPool := al2\<rparr>
      else p1\<lparr>pmOut := s'\<rparr>)"
    have "pump_once push pick p = Done (map_option Read_ended err, p2)"
      using r False s'(1) g(1) by (simp add: pump_once_def pump_grow_def p1_def p2_def Let_def)
    then show ?thesis using s'(2) g less.prems
      by (intro exI [of _ p2] exI [of _ "[d]"]) (simp add: p2_def p1_def)
  qed
  then obtain p2 cs2 where o: "pump_once push pick p = Done (map_option Read_ended err, p2)" "R (cs @ cs2) (pmOut p2)"
      "concat cs2 = d" "pmSrc p2 = src" "reader_inv (pmReader p2)" "rdMax (pmReader p2) = rdMax (pmReader p)"
      "alloc_inv (pmPool p2)" by blast
  show ?case
  proof (cases err)
    case (Some e)
    then have "pump push pick p = Done (Read_ended e, p2)" using o(1) cap by (simp add: pump.simps [of push pick p])
    moreover have "e = csErr (pmSrc p)" "concat cs2 = csData (pmSrc p)" using f(5) [OF Some] f(1) o(3) by auto
    ultimately show ?thesis using o by blast
  next
    case None
    then have step: "pump push pick p = pump push pick p2" using o(1) cap by (simp add: pump.simps [of push pick p])
    have "length (csData (pmSrc p2)) < length (csData (pmSrc p))"
      using pump_once_progress [of push pick p p2] o(1) None cap by simp
    then obtain p' ds where "pump push pick p2 = Done (Read_ended (csErr (pmSrc p2)), p')" "concat ds = csData (pmSrc p2)"
        "R ((cs @ cs2) @ ds) (pmOut p')" "alloc_inv (pmPool p')" "reader_inv (pmReader p')"
      using less.hyps [of p2 "cs @ cs2"] o less.prems(2) by auto
    then show ?thesis
      using step o f(1,6) by (intro exI [of _ p'] exI [of _ "cs2 @ ds"]) simp
  qed
qed

lemma NewReader_limit:
  assumes "alloc_inv al" "netbuf_NewReader al pick hint maxsz = Some (r, al')" "0 < maxsz" "maxsz \<le> 2 ^ 15"
  shows "rdMax r \<le> 2 ^ 15"
proof -
  obtain k where k: "normalized maxsz Hint = Some (2 ^ k)" "k = 0 \<or> 2 ^ (k - 1) < maxsz"
    using normalized_class [of maxsz] assms(3,4) by auto
  have "k \<le> 15"
  proof (rule ccontr)
    assume "\<not> k \<le> 15"
    then have "(2 :: int) ^ 15 \<le> 2 ^ (k - 1)" by (intro power_increasing) auto
    then show False using k(2) assms(4) \<open>\<not> k \<le> 15\<close> by auto
  qed
  then have "(2 :: int) ^ k \<le> 2 ^ 15" by (intro power_increasing) auto
  then show ?thesis
    using assms(2) k(1) by (auto simp: netbuf_NewReader_def Let_def split: option.splits prod.splits)
qed

lemma with_buffer_delivers:
  fixes push :: "bytes \<Rightarrow> 's \<Rightarrow> (unit result \<times> 's) outcome"
  assumes "\<And>cs s d. R cs s \<Longrightarrow> d \<noteq> [] \<Longrightarrow> length d \<le> 32768 \<Longrightarrow> \<exists>s'. push d s = Done (Inr (), s') \<and> R (cs @ [d]) s'"
    and "alloc_inv al" "0 < maxBuf" "maxBuf \<le> 2 ^ 15" "R cs s"
    and finish: "\<And>ds s'. concat ds = csData src \<Longrightarrow> R (cs @ ds) s' \<Longrightarrow>
      \<exists>err s2. finish (Read_ended (csErr src)) s' = Done (err, s2) \<and> P ds err s2"
  shows "\<exists>ds err s2 al2. with_buffer push finish pick maxBuf al src s = Done (err, s2, al2) \<and>
    concat ds = csData src \<and> P ds err s2 \<and> alloc_inv al2"
proof -
  obtain r al1 where r: "netbuf_NewReader al pick (int MinRecordBufferSize) maxBuf = Some (r, al1)" "reader_inv r" "alloc_inv al1"
    using netbuf_NewReader_inv [OF assms(2), of "int MinRecordBufferSize" maxBuf pick] assms(4) by auto
  have "rdMax r \<le> int 32768" using NewReader_limit [OF assms(2) r(1) assms(3,4)] by simp
  then obtain p ds where p: "pump push pick \<lparr>pmReader = r, pmPool = al1, pmSrc = src, pmOut = s\<rparr> =
      Done (Read_ended (csErr src), p)" "concat ds = csData src" "R (cs @ ds) (pmOut p)" "alloc_inv (pmPool p)"
      "reader_inv (pmReader p)"
    using pump_delivers [of R 32768 push "\<lparr>pmReader = r, pmPool = al1, pmSrc = src, pmOut = s\<rparr>" cs pick] assms(1,5) r
    by auto
  obtain err s2 where f: "finish (Read_ended (csErr src)) (pmOut p) = Done (err, s2)" "P ds err s2"
    using finish [OF p(2,3)] by blast
  obtain r3 al3 where "Release (pmPool p) (pmReader p) = (Inr r3, al3)" "alloc_inv al3"
    using Release_inv [OF p(4,5)] by blast
  then show ?thesis using r(1) p(1,2) f by (auto simp: with_buffer_def)
qed

section \<open>Senders\<close>

definition data_frame :: "bytes \<Rightarrow> Frame" where
  "data_frame d = frame_norm \<lparr>fType = FrameDATA, fLength = 0, fPayload = d\<rparr>"

lemma data_frame_simps [simp]: "fType (data_frame d) = 0" "fPayload (data_frame d) = d"
  by (simp_all add: data_frame_def frame_norm_def)

locale frame_sender =
  fixes tx :: "'s sender" and sent :: "Frame list \<Rightarrow> 's \<Rightarrow> bool"
  assumes push_data: "sent fs s \<Longrightarrow> length d \<le> 65514 \<Longrightarrow> \<exists>s'. sdData tx d s = Done (Inr (), s') \<and> sent (fs @ [data_frame d]) s'"
    and push_fin: "sent fs s \<Longrightarrow> \<exists>s'. sdFrame tx NewFrameFIN s = Done (Inr (), s') \<and> sent (fs @ [NewFrameFIN]) s'"
    and flush: "sent fs s \<Longrightarrow> \<exists>r s'. sdFlush tx s = Done (r, s') \<and> sent fs s'"
begin

lemma fin_sent: "sent fs s \<Longrightarrow> \<exists>s'. send_fin tx s = Done s' \<and> sent (fs @ [NewFrameFIN]) s'"
proof -
  assume "sent fs s"
  then obtain s1 where 1: "sdFrame tx NewFrameFIN s = Done (Inr (), s1)" "sent (fs @ [NewFrameFIN]) s1"
    using push_fin by blast
  then obtain r s2 where "sdFlush tx s1 = Done (r, s2)" "sent (fs @ [NewFrameFIN]) s2" using flush by blast
  with 1 show ?thesis by (simp add: send_fin_def)
qed

text \<open>However the target's side ends, its bytes have been pushed; the end of the stream follows them only if it is the target's.\<close>

lemma target_ended:
  assumes "sent fs s" "alloc_inv al"
  shows "\<exists>ds s2 al2. copyFromTarget tx pick al src s = Done (if errors_is (csErr src) io_EOF then None else Some (csErr src), s2, al2) \<and>
    concat ds = csData src \<and> sent (fs @ map data_frame ds @ (if errors_is (csErr src) io_EOF then [NewFrameFIN] else [])) s2 \<and> alloc_inv al2"
proof -
  let ?err = "if errors_is (csErr src) io_EOF then None else Some (csErr src)"
  let ?fin = "if errors_is (csErr src) io_EOF then [NewFrameFIN] else []"
  have "\<exists>ds err s2 al2. copyFromTarget tx pick al src s = Done (err, s2, al2) \<and> concat ds = csData src \<and>
      (err = ?err \<and> sent (fs @ map data_frame ds @ ?fin) s2) \<and> alloc_inv al2"
    unfolding copyFromTarget_def
  proof (rule with_buffer_delivers [where R = "\<lambda>cs s. sent (fs @ map data_frame cs) s" and cs = "[]"])
    fix cs s' d
    assume "sent (fs @ map data_frame cs) s'" "length (d :: bytes) \<le> 32768"
    then show "\<exists>s2. sdData tx d s' = Done (Inr (), s2) \<and> sent (fs @ map data_frame (cs @ [d])) s2"
      using push_data [of "fs @ map data_frame cs" s' d] by auto
  next
    fix ds s'
    assume a: "sent (fs @ map data_frame ([] @ ds)) s'"
    then obtain s2 where "send_fin tx s' = Done s2" "sent ((fs @ map data_frame ds) @ [NewFrameFIN]) s2"
      using fin_sent by force
    then show "\<exists>err s2. (case Read_ended (csErr src) of
          Write_failed e \<Rightarrow> Done (Some e, s')
        | Read_ended e \<Rightarrow>
            (if errors_is e io_EOF then obind (send_fin tx s') (\<lambda>s. Done (None, s)) else Done (Some e, s'))) = Done (err, s2) \<and>
        err = ?err \<and> sent (fs @ map data_frame ds @ ?fin) s2"
      using a by simp
  qed (use assms in \<open>simp_all add: ServerTCPStreamBufferSize_def\<close>)
  then show ?thesis by blast
qed

lemma target_sent:
  assumes "sent fs s" "alloc_inv al" "csErr src = io_EOF"
  shows "\<exists>ds s2 al2. copyFromTarget tx pick al src s = Done (None, s2, al2) \<and> concat ds = csData src \<and>
    sent (fs @ map data_frame ds @ [NewFrameFIN]) s2 \<and> alloc_inv al2"
  using target_ended [OF assms(1,2), of pick src] assms(3) by simp

lemma local_sent:
  assumes "sent fs s" "alloc_inv al" "csErr src = io_EOF"
  shows "\<exists>ds s2 g2 al2. copyLocalToRemote tx pick al src (s, g) = Done (None, (s2, g2), al2) \<and> concat ds = csData src \<and>
    sent (fs @ map data_frame ds @ [NewFrameFIN]) s2 \<and> alloc_inv al2"
proof -
  have "\<exists>ds err s2 al2. copyLocalToRemote tx pick al src (s, g) = Done (err, s2, al2) \<and> concat ds = csData src \<and>
      (err = None \<and> sent (fs @ map data_frame ds @ [NewFrameFIN]) (fst s2)) \<and> alloc_inv al2"
    unfolding copyLocalToRemote_def
  proof (rule with_buffer_delivers [where R = "\<lambda>cs s. sent (fs @ map data_frame cs) (fst s)" and cs = "[]"])
    fix cs and s' :: "'s \<times> stats" and d
    assume "sent (fs @ map data_frame cs) (fst s')" "length (d :: bytes) \<le> 32768"
    then obtain s2 where "sdData tx d (fst s') = Done (Inr (), s2)" "sent ((fs @ map data_frame cs) @ [data_frame d]) s2"
      using push_data [of "fs @ map data_frame cs" "fst s'" d] by auto
    then show "\<exists>s2. counted_push tx d s' = Done (Inr (), s2) \<and> sent (fs @ map data_frame (cs @ [d])) (fst s2)"
      by (simp add: counted_push_def)
  next
    fix ds and s' :: "'s \<times> stats"
    assume "sent (fs @ map data_frame ([] @ ds)) (fst s')"
    then obtain s2 where "send_fin tx (fst s') = Done s2" "sent ((fs @ map data_frame ds) @ [NewFrameFIN]) s2"
      using fin_sent by force
    then show "\<exists>err s2. (case s' of (s, g) \<Rightarrow> case Read_ended (csErr src) of
          Write_failed e \<Rightarrow>
            obind (sdFlush tx s) (\<lambda>(_, s).
              Done (if errors_is e io_ErrClosedPipe \<or> errors_is e ErrClosed then None else Some e, s, g))
        | Read_ended e \<Rightarrow>
            obind (send_fin tx s) (\<lambda>s.
              Done (if errors_is e io_EOF then None
                    else if isLocalConnClosedError e then Some errLocalConnClosed else Some e, s, g))) = Done (err, s2) \<and>
        err = None \<and> sent (fs @ map data_frame ds @ [NewFrameFIN]) (fst s2)"
      using assms(3) by (cases s') simp
  qed (use assms in \<open>simp_all add: TCPStreamBufferSize_def\<close>)
  then show ?thesis by force
qed

end

text \<open>The batching shaper on a working stream.\<close>

definition shaper_sender :: "bytes batchShaper sender" where
  "shaper_sender = \<lparr>sdData = PushData buffer_sink, sdFrame = (\<lambda>f. PushFrame buffer_sink f []), sdFlush = Flush buffer_sink\<rparr>"

definition shaper_sent :: "aead \<Rightarrow> CounterNonce \<Rightarrow> bytes \<Rightarrow> Frame list \<Rightarrow> bytes batchShaper \<Rightarrow> bool" where
  "shaper_sent a cn aad fs bs \<longleftrightarrow> \<not> bsClosing bs \<and> (\<exists>acc. carries a cn aad acc bs \<and> filter is_cargo acc = filter is_cargo fs)"

lemma shaper_push_frame:
  assumes "shaper_sent a cn aad fs bs" "length (fPayload f) \<le> 65514" "fType f \<noteq> FrameCOVER"
  shows "\<exists>bs'. PushFrame buffer_sink f [] bs = Done (Inr (), bs') \<and> shaper_sent a cn aad (fs @ [frame_norm f]) bs'"
proof -
  obtain acc where c: "carries a cn aad acc bs" "filter is_cargo acc = filter is_cargo fs" "\<not> bsClosing bs"
    using assms(1) by (auto simp: shaper_sent_def)
  then have "bsErr bs = None" by (simp add: carries_def)
  then obtain r bs' acc' where "PushFrame buffer_sink f [] bs = Done (r, bs')" "carries a cn aad acc' bs'"
      "bsClosing bs' = bsClosing bs" "r = Inr () \<and> acc' = acc @ [frame_norm f]"
    using buf.push_frame [OF c(1,3), of f "[]"] buffer_never_fails [of a cn aad] assms(2,3)
    by (auto split: if_splits)
  then show ?thesis using c by (auto simp: shaper_sent_def)
qed

interpretation tunnel: frame_sender shaper_sender "shaper_sent a cn aad" for a cn aad
proof unfold_locales
  fix fs bs and d :: bytes
  assume s: "shaper_sent a cn aad fs bs" and d: "length d \<le> 65514"
  then obtain acc where c: "carries a cn aad acc bs" "filter is_cargo acc = filter is_cargo fs" "\<not> bsClosing bs"
    by (auto simp: shaper_sent_def)
  then have "bsErr bs = None" by (simp add: carries_def)
  then obtain r bs' acc' where "PushData buffer_sink d bs = Done (r, bs')" "carries a cn aad acc' bs'" "bsClosing bs' = bsClosing bs"
      "r = Inr () \<and> acc' = acc @ [data_frame d]"
    using buf.push_data [OF c(1,3), of d] buffer_never_fails [of a cn aad] d
    by (auto simp: data_frame_def split: if_splits)
  then show "\<exists>s'. sdData shaper_sender d bs = Done (Inr (), s') \<and> shaper_sent a cn aad (fs @ [data_frame d]) s'"
    using c by (auto simp: shaper_sender_def shaper_sent_def)
next
  fix fs bs
  assume "shaper_sent a cn aad fs bs"
  then show "\<exists>s'. sdFrame shaper_sender NewFrameFIN bs = Done (Inr (), s') \<and> shaper_sent a cn aad (fs @ [NewFrameFIN]) s'"
    using shaper_push_frame [of a cn aad fs bs NewFrameFIN] by (simp add: shaper_sender_def NewFrameFIN_def frame_norm_def)
next
  fix fs bs
  assume "shaper_sent a cn aad fs bs"
  then obtain acc where c: "carries a cn aad acc bs" "filter is_cargo acc = filter is_cargo fs" "\<not> bsClosing bs"
    by (auto simp: shaper_sent_def)
  then obtain r bs' where "flushAndWrite buffer_sink True bs = Done (r, bs')" "carries a cn aad acc bs'" "same_frame bs bs'"
    using buf.flush_returns by blast
  then show "\<exists>r s'. sdFlush shaper_sender bs = Done (r, s') \<and> shaper_sent a cn aad fs s'"
    using c by (auto simp: shaper_sender_def shaper_sent_def Flush_def shaper_flush_def same_frame_def)
qed

section \<open>Receivers\<close>

text \<open>What the receivers make of a list of frames and the error after it.\<close>

fun fetched :: "(go_error \<Rightarrow> bool) \<Rightarrow> bool \<Rightarrow> Frame list \<Rightarrow> go_error \<Rightarrow> prefetched list" where
  "fetched rejected first [] e =
     (let e = (if first then classifyFirstReadError rejected e else e)
      in if errors_is e io_EOF then [] else [Fetched_err e])"
| "fetched rejected first (f # fs) e =
     (if fType f = FrameDATA
      then (if fPayload f = [] then fetched rejected False fs e else Fetched (fPayload f) # fetched rejected False fs e)
      else if fType f = FrameFIN then [Fetched_fin]
      else if fType f = FrameRST then [Fetched_rst]
      else fetched rejected False fs e)"

lemma prefetch_frames:
  "read_frames n env rx = (fs, Some e) \<Longrightarrow> prefetch rejected first env rx = fetched rejected first fs e"
proof (induction n arbitrary: env rx fs first)
  case (Suc n)
  obtain x rx' env' where r: "ReadFrame env rx = (x, rx', env')" using prod_cases3 by blast
  show ?case
  proof (cases x)
    case (Inl err)
    then show ?thesis using Suc.prems r by (simp add: prefetch.simps [of rejected first env rx])
  next
    case (Inr f)
    then obtain gs where g: "read_frames n env' rx' = (gs, Some e)" "fs = f # gs"
      using Suc.prems r by (auto split: prod.splits)
    then show ?thesis using Suc.IH [OF g(1)] r Inr by (simp add: prefetch.simps [of rejected first env rx])
  qed
qed simp

lemma fetched_cargo:
  "filter is_cargo fs = map data_frame ds @ [NewFrameFIN] \<Longrightarrow>
     fetched rejected first fs e = map Fetched (filter (\<lambda>d. d \<noteq> []) ds) @ [Fetched_fin]"
proof (induction fs arbitrary: ds first)
  case (Cons f fs)
  show ?case
  proof (cases "is_cargo f")
    case False
    then show ?thesis using Cons by (auto simp: is_cargo_def)
  next
    case True
    show ?thesis
    proof (cases ds)
      case Nil
      then have "f = NewFrameFIN" using True Cons.prems by simp
      then show ?thesis using Nil by (simp add: NewFrameFIN_def)
    next
      case (Cons d ds')
      then show ?thesis using True Cons.prems Cons.IH [of ds' False] by auto
    qed
  qed
qed simp

text \<open>A connection that takes every byte.\<close>

definition take_all :: "bytes conn_write" where
  "take_all d c = (None, c @ d)"

lemma write_local_all:
  "\<exists>g'. write_local take_all (map Fetched ds @ [Fetched_fin]) dst g = (None, dst @ concat ds, g')"
proof (induction ds arbitrary: dst g)
  case (Cons d ds)
  then show ?case using Cons [of "dst @ d" "RecordRawBytesRecv (int (length d)) g"] by (simp add: take_all_def)
qed simp

lemma concat_nonempty [simp]: "concat (filter (\<lambda>d. d \<noteq> []) ds) = concat ds"
  by (induction ds) auto

lemma nextClientFrame_frames:
  assumes "read_frames n env rx = (fs, Some e)"
  shows "case filter is_cargo fs of
      [] \<Rightarrow> \<exists>rx' env'. nextClientFrame env rx = (Inl e, rx', env')
    | f # gs \<Rightarrow> \<exists>rx' env' m hs. nextClientFrame env rx = (Inr (f, fType f = FrameFIN \<or> fType f = FrameRST), rx', env') \<and>
        read_frames m env' rx' = (hs, Some e) \<and> filter is_cargo hs = gs"
  using assms
proof (induction n arbitrary: env rx fs)
  case (Suc n)
  obtain x rx' env' where r: "ReadFrame env rx = (x, rx', env')" using prod_cases3 by blast
  show ?case
  proof (cases x)
    case (Inl err)
    then show ?thesis using Suc.prems r by (auto simp: nextClientFrame.simps [of env rx])
  next
    case (Inr f)
    then obtain gs where g: "read_frames n env' rx' = (gs, Some e)" "fs = f # gs"
      using Suc.prems r by (auto split: prod.splits)
    show ?thesis
    proof (cases "is_cargo f")
      case True
      then have "nextClientFrame env rx = (Inr (f, fType f = FrameFIN \<or> fType f = FrameRST), rx', env')"
        using r Inr by (auto simp: nextClientFrame.simps [of env rx] is_cargo_def)
      then show ?thesis using g True by auto
    next
      case False
      then have "nextClientFrame env rx = nextClientFrame env' rx'"
        using r Inr by (auto simp: nextClientFrame.simps [of env rx] is_cargo_def)
      then show ?thesis using Suc.IH [OF g(1)] g(2) False by (simp cong: list.case_cong)
    qed
  qed
qed simp

lemma copyFromClient_frames:
  assumes "read_frames n (ccEnv c) (ccReader c) = (fs, Some e)" "filter is_cargo fs = map data_frame ds @ [NewFrameFIN]"
  shows "\<exists>c'. copyFromClient take_all closeWrite c = (None, c') \<and> ccDst c' = closeWrite (ccDst c @ concat ds)"
  using assms
proof (induction ds arbitrary: c n fs)
  case Nil
  then obtain rx' env' where "nextClientFrame (ccEnv c) (ccReader c) = (Inr (NewFrameFIN, True), rx', env')"
    using nextClientFrame_frames [OF Nil(1)] by (auto simp: NewFrameFIN_def)
  then show ?case by (simp add: copyFromClient.simps [of _ _ c] NewFrameFIN_def Let_def)
next
  case (Cons d ds)
  then obtain rx' env' m hs where r: "nextClientFrame (ccEnv c) (ccReader c) = (Inr (data_frame d, False), rx', env')"
      "read_frames m env' rx' = (hs, Some e)" "filter is_cargo hs = map data_frame ds @ [NewFrameFIN]"
    using nextClientFrame_frames [OF Cons.prems(1)] by auto
  define c1 where "c1 = c\<lparr>ccReader := rx', ccEnv := env', ccDst := ccDst c @ d\<rparr>"
  have "copyFromClient take_all closeWrite c = copyFromClient take_all closeWrite c1"
    using r(1) by (cases "d = []") (simp_all add: copyFromClient.simps [of _ _ c] take_all_def c1_def Let_def)
  moreover have "\<exists>c'. copyFromClient take_all closeWrite c1 = (None, c') \<and> ccDst c' = closeWrite (ccDst c1 @ concat ds)"
    by (rule Cons.IH [of m c1 hs]) (use r(2,3) in \<open>simp_all add: c1_def\<close>)
  ultimately show ?case by (simp add: c1_def)
qed

section \<open>Through the tunnel\<close>

lemma session_channel:
  assumes "lib_ok lib" "keys_ok sk" "dir = DirC2S \<or> dir = DirS2C" "m = MethodAES256GCM \<or> m = MethodChaCha20Poly1305"
    and "env_ok env" "env_ok env2"
  obtains a cn aad rw bs where "NewWriter lib sk dir m = Inr rw" "Shaper_New ratio rw cfg [] env rt = Done bs"
    "shaper_sent a cn aad [] bs"
    "\<And>fs bs1. shaper_sent a cn aad fs bs1 \<Longrightarrow>
       \<exists>bs2 rx n gs. Shaper_Close buffer_sink bs1 = Done (Inr (), bs2) \<and>
         NewReader lib sk \<lparr>sData = bsOut bs2, sErr = io_EOF\<rparr> dir m = Inr rx \<and>
         read_frames n env2 rx = (gs, Some io_EOF) \<and> filter is_cargo gs = filter is_cargo fs"
proof -
  obtain a pre where e: "newEncryptor lib sk sessionPhase dir m = Inr (a, NewCounterNonce pre)" "aead_ok a" "length pre = 4"
    using newEncryptor_session [OF assms(1-4)] by blast
  let ?cn = "NewCounterNonce pre" and ?aad = "stream_aad sk dir sessionPhase m"
  have w: "NewWriter lib sk dir m = Inr (NewRecordWriter a ?cn ?aad)"
    using e(1) by (simp add: NewWriter_def newRecordWriter_def)
  obtain bs where n: "Shaper_New ratio (NewRecordWriter a ?cn ?aad) cfg [] env rt = Done bs" "carries a ?cn ?aad [] bs"
      "\<not> bsClosing bs"
    using New_carries [OF e(2,3) assms(5)] by blast
  have start: "shaper_sent a ?cn ?aad [] bs" using n by (auto simp: shaper_sent_def)
  have "\<exists>bs2 rx n gs. Shaper_Close buffer_sink bs1 = Done (Inr (), bs2) \<and>
         NewReader lib sk \<lparr>sData = bsOut bs2, sErr = io_EOF\<rparr> dir m = Inr rx \<and>
         read_frames n env2 rx = (gs, Some io_EOF) \<and> filter is_cargo gs = filter is_cargo fs"
    if s: "shaper_sent a ?cn ?aad fs bs1" for fs bs1
  proof -
    obtain acc where c: "carries a ?cn ?aad acc bs1" "filter is_cargo acc = filter is_cargo fs"
      using s by (auto simp: shaper_sent_def)
    obtain bs2 gs where b: "Shaper_Close buffer_sink bs1 = Done (Inr (), bs2)" "groups_ok gs"
        "bsOut bs2 = wire a ?cn ?aad (map EncodeFrames gs)" "filter is_cargo (map frame_norm (concat gs)) = filter is_cargo acc"
      using carries_close [OF c(1)] by blast
    let ?rx = "NewDecryptedReader \<lparr>sData = bsOut bs2, sErr = io_EOF\<rparr> ?aad a ?cn"
    have "read_frames (Suc (length (concat gs))) env2 ?rx = (map frame_norm (concat gs), Some io_EOF)"
      by (rule read_frames_wire)
        (use e assms(6) b in \<open>simp_all add: NewDecryptedReader_def NewRecordReader_def nonce_ok_def NewCounterNonce_def\<close>)
    moreover have "NewReader lib sk \<lparr>sData = bsOut bs2, sErr = io_EOF\<rparr> dir m = Inr ?rx" using e(1) by (simp add: NewReader_def)
    ultimately show ?thesis using b c(2) by metis
  qed
  then show thesis using that [OF w n(1) start] by blast
qed

text \<open>
  C2. A download arrives: whatever the target sends until it closes, in whatever pieces it is read, goes
  through the server's copying loop, the shaper with its padding, the records and the client's
  prefetching, and is written to the local connection exactly as it was sent; both loops end without
  an error, and the buffers are back in the pool.
\<close>

theorem download_arrives:
  assumes "lib_ok lib" "length mk = 32" "length salt = 16" "NewStreamKeys lib mk salt ep = Inr sk"
    and "m = MethodAES256GCM \<or> m = MethodChaCha20Poly1305" "env_ok env" "env_ok env2" "alloc_inv al"
    and "csErr target = io_EOF"
  shows "\<exists>rw bs bs1 al1 bs2 rx g1. NewWriter lib sk DirS2C m = Inr rw \<and> Shaper_New ratio rw cfg [] env rt = Done bs \<and>
    copyFromTarget shaper_sender pick al target bs = Done (None, bs1, al1) \<and> alloc_inv al1 \<and>
    Shaper_Close buffer_sink bs1 = Done (Inr (), bs2) \<and>
    NewReader lib sk \<lparr>sData = bsOut bs2, sErr = io_EOF\<rparr> DirS2C m = Inr rx \<and>
    copyRemoteToLocal rejected take_all env2 rx [] g = (None, csData target, g1)"
proof -
  have sk: "keys_ok sk" using NewStreamKeys_ok [OF assms(1-3), of ep] assms(4) by auto
  obtain a cn aad rw bs where ch: "NewWriter lib sk DirS2C m = Inr rw" "Shaper_New ratio rw cfg [] env rt = Done bs"
      "shaper_sent a cn aad [] bs"
      "\<And>fs bs1. shaper_sent a cn aad fs bs1 \<Longrightarrow>
       \<exists>bs2 rx n gs. Shaper_Close buffer_sink bs1 = Done (Inr (), bs2) \<and>
         NewReader lib sk \<lparr>sData = bsOut bs2, sErr = io_EOF\<rparr> DirS2C m = Inr rx \<and>
         read_frames n env2 rx = (gs, Some io_EOF) \<and> filter is_cargo gs = filter is_cargo fs"
    by (rule session_channel [OF assms(1) sk disjI2 [OF refl] assms(5-7)]) (rule that)
  obtain ds bs1 al1 where t: "copyFromTarget shaper_sender pick al target bs = Done (None, bs1, al1)" "concat ds = csData target"
      "shaper_sent a cn aad ([] @ map data_frame ds @ [NewFrameFIN]) bs1" "alloc_inv al1"
    using tunnel.target_sent [OF ch(3) assms(8,9)] by blast
  obtain bs2 rx n gs where r: "Shaper_Close buffer_sink bs1 = Done (Inr (), bs2)"
      "NewReader lib sk \<lparr>sData = bsOut bs2, sErr = io_EOF\<rparr> DirS2C m = Inr rx"
      "read_frames n env2 rx = (gs, Some io_EOF)"
      "filter is_cargo gs = map data_frame ds @ [NewFrameFIN]"
    using ch(4) [OF t(3)] by (auto simp: is_cargo_def NewFrameFIN_def o_def)
  have "prefetch rejected True env2 rx = map Fetched (filter (\<lambda>d. d \<noteq> []) ds) @ [Fetched_fin]"
    using prefetch_frames [OF r(3)] fetched_cargo [OF r(4)] by simp
  then obtain g1 where "copyRemoteToLocal rejected take_all env2 rx [] g = (None, csData target, g1)"
    using write_local_all [of "filter (\<lambda>d. d \<noteq> []) ds" "[]" g] t(2) by (auto simp: copyRemoteToLocal_def)
  then show ?thesis using ch(1,2) t(1,4) r(1,2) by blast
qed

text \<open>
  An upload arrives: whatever the local program sends until it closes its side goes through the
  client's copying loop, the shaper with its padding and the records, and the server writes it to the
  target exactly as it was sent, and only then closes that side of the target's connection.
\<close>

theorem upload_arrives:
  assumes "lib_ok lib" "length mk = 32" "length salt = 16" "NewStreamKeys lib mk salt ep = Inr sk"
    and "m = MethodAES256GCM \<or> m = MethodChaCha20Poly1305" "env_ok env" "env_ok env2" "alloc_inv al"
    and "csErr local = io_EOF"
  shows "\<exists>rw bs bs1 g1 al1 bs2 rx c. NewWriter lib sk DirC2S m = Inr rw \<and> Shaper_New ratio rw cfg [] env rt = Done bs \<and>
    copyLocalToRemote shaper_sender pick al local (bs, g) = Done (None, (bs1, g1), al1) \<and> alloc_inv al1 \<and>
    Shaper_Close buffer_sink bs1 = Done (Inr (), bs2) \<and>
    NewReader lib sk \<lparr>sData = bsOut bs2, sErr = io_EOF\<rparr> DirC2S m = Inr rx \<and>
    copyFromClient take_all closeWrite \<lparr>ccReader = rx, ccEnv = env2, ccDst = []\<rparr> = (None, c) \<and>
    ccDst c = closeWrite (csData local)"
proof -
  have sk: "keys_ok sk" using NewStreamKeys_ok [OF assms(1-3), of ep] assms(4) by auto
  obtain a cn aad rw bs where ch: "NewWriter lib sk DirC2S m = Inr rw" "Shaper_New ratio rw cfg [] env rt = Done bs"
      "shaper_sent a cn aad [] bs"
      "\<And>fs bs1. shaper_sent a cn aad fs bs1 \<Longrightarrow>
       \<exists>bs2 rx n gs. Shaper_Close buffer_sink bs1 = Done (Inr (), bs2) \<and>
         NewReader lib sk \<lparr>sData = bsOut bs2, sErr = io_EOF\<rparr> DirC2S m = Inr rx \<and>
         read_frames n env2 rx = (gs, Some io_EOF) \<and> filter is_cargo gs = filter is_cargo fs"
    by (rule session_channel [OF assms(1) sk disjI1 [OF refl] assms(5-7)]) (rule that)
  obtain ds bs1 g1 al1 where t: "copyLocalToRemote shaper_sender pick al local (bs, g) = Done (None, (bs1, g1), al1)"
      "concat ds = csData local" "shaper_sent a cn aad ([] @ map data_frame ds @ [NewFrameFIN]) bs1" "alloc_inv al1"
    using tunnel.local_sent [OF ch(3) assms(8,9)] by blast
  obtain bs2 rx n gs where r: "Shaper_Close buffer_sink bs1 = Done (Inr (), bs2)"
      "NewReader lib sk \<lparr>sData = bsOut bs2, sErr = io_EOF\<rparr> DirC2S m = Inr rx"
      "read_frames n env2 rx = (gs, Some io_EOF)"
      "filter is_cargo gs = map data_frame ds @ [NewFrameFIN]"
    using ch(4) [OF t(3)] by (auto simp: is_cargo_def NewFrameFIN_def o_def)
  obtain c where "copyFromClient take_all closeWrite \<lparr>ccReader = rx, ccEnv = env2, ccDst = []\<rparr> = (None, c)"
      "ccDst c = closeWrite (csData local)"
    using copyFromClient_frames [of n "\<lparr>ccReader = rx, ccEnv = env2, ccDst = []\<rparr>" gs io_EOF ds closeWrite] r(3,4) t(2) by auto
  then show ?thesis using ch(1,2) t(1,4) r(1,2) by blast
qed

definition demo_conn :: conn_src where
  "demo_conn = \<lparr>csData = [1, 2, 3], csErr = io_EOF, csSize = (\<lambda>_. 2), csTick = 0, csEager = False\<rparr>"

theorem download_arrives_witness:
  "\<exists>sk rw bs bs1 al1 bs2 rx g1. NewStreamKeys null_lib (replicate 32 0) (replicate 16 0) ''/v3/tcp'' = Inr sk \<and>
    NewWriter null_lib sk DirS2C MethodAES256GCM = Inr rw \<and>
    Shaper_New (3 / 100) rw plain_config [] init_env still_runtime = Done bs \<and>
    copyFromTarget shaper_sender 0 (NewAllocatorWithLimit 64) demo_conn bs = Done (None, bs1, al1) \<and>
    Shaper_Close buffer_sink bs1 = Done (Inr (), bs2) \<and>
    NewReader null_lib sk \<lparr>sData = bsOut bs2, sErr = io_EOF\<rparr> DirS2C MethodAES256GCM = Inr rx \<and>
    copyRemoteToLocal (\<lambda>_. False) take_all init_env rx [] init_stats = (None, [1, 2, 3], g1)"
proof -
  obtain sk where sk: "NewStreamKeys null_lib (replicate 32 0) (replicate 16 0) ''/v3/tcp'' = Inr sk"
    using NewStreamKeys_ok [OF null_lib_ok, of "replicate 32 0" "replicate 16 0" "''/v3/tcp''"] by auto
  show ?thesis
    using download_arrives [OF null_lib_ok _ _ sk disjI1 [OF refl] init_env_ok init_env_ok alloc_inv_new [of 64],
        where target = demo_conn and ratio = "3 / 100" and cfg = plain_config and rt = still_runtime and pick = 0
          and rejected = "\<lambda>_. False" and g = init_stats] sk
    by (simp add: demo_conn_def) blast
qed

theorem upload_arrives_witness:
  "\<exists>sk rw bs bs1 g1 al1 bs2 rx c. NewStreamKeys null_lib (replicate 32 0) (replicate 16 0) ''/v3/tcp'' = Inr sk \<and>
    NewWriter null_lib sk DirC2S MethodAES256GCM = Inr rw \<and>
    Shaper_New (3 / 100) rw plain_config [] init_env still_runtime = Done bs \<and>
    copyLocalToRemote shaper_sender 0 (NewAllocatorWithLimit 64) demo_conn (bs, init_stats) = Done (None, (bs1, g1), al1) \<and>
    Shaper_Close buffer_sink bs1 = Done (Inr (), bs2) \<and>
    NewReader null_lib sk \<lparr>sData = bsOut bs2, sErr = io_EOF\<rparr> DirC2S MethodAES256GCM = Inr rx \<and>
    copyFromClient take_all (\<lambda>d. d @ [255]) \<lparr>ccReader = rx, ccEnv = init_env, ccDst = []\<rparr> = (None, c) \<and>
    ccDst c = [1, 2, 3, 255]"
proof -
  obtain sk where sk: "NewStreamKeys null_lib (replicate 32 0) (replicate 16 0) ''/v3/tcp'' = Inr sk"
    using NewStreamKeys_ok [OF null_lib_ok, of "replicate 32 0" "replicate 16 0" "''/v3/tcp''"] by auto
  show ?thesis
    using upload_arrives [OF null_lib_ok _ _ sk disjI1 [OF refl] init_env_ok init_env_ok alloc_inv_new [of 64],
        where local = demo_conn and ratio = "3 / 100" and cfg = plain_config and rt = still_runtime and pick = 0
          and closeWrite = "\<lambda>d. d @ [255]" and g = init_stats] sk
    by (simp add: demo_conn_def) blast
qed

end
