(* ===== verification/Relay.thy ===== *)
theory Relay
  imports Prelude
begin

text \<open>
  Package \<open>relay\<close>: two copying goroutines under one idle timeout. The loop of \<open>bidirectional\<close> is a
  function of the events its \<open>select\<close> takes, each with the time it is taken at; what \<open>drainWhen\<close>
  says is part of the tick that asks it.
\<close>

section \<open>The loop\<close>

record Result =
  rErr :: "go_error option"
  rTimedOut :: bool
  rDrained :: bool

datatype relay_event =
    Copied "go_error option"
  | Activity
  | DrainTick bool
  | IdleTimer

record relay_state =
  rlReceived :: nat
  rlFirstErr :: "go_error option"
  rlIdleSince :: int

text \<open>The period of the drain ticker; without a drain condition there is none.\<close>

definition drain_tick :: "int \<Rightarrow> int" where
  "drain_tick drainIdle = max (drainIdle div 6) (10 * 1000000)"

definition real_error :: "go_error option \<Rightarrow> bool" where
  "real_error err = (case err of None \<Rightarrow> False | Some e \<Rightarrow> \<not> errors_is e io_EOF)"

definition relay_step :: "int \<Rightarrow> int \<Rightarrow> relay_event \<Rightarrow> relay_state \<Rightarrow> Result + relay_state" where
  "relay_step drainIdle now ev st =
     (case ev of
        Copied err \<Rightarrow>
          (let received = Suc (rlReceived st);
               firstErr = (if real_error err \<and> rlFirstErr st = None then err else rlFirstErr st)
           in if firstErr \<noteq> None \<or> received = 2
              then Inl \<lparr>rErr = firstErr, rTimedOut = False, rDrained = False\<rparr>
              else Inr \<lparr>rlReceived = received, rlFirstErr = firstErr, rlIdleSince = now\<rparr>)
      | Activity \<Rightarrow> Inr (st\<lparr>rlIdleSince := now\<rparr>)
      | DrainTick due \<Rightarrow>
          (if due \<and> now - rlIdleSince st \<ge> drainIdle
           then Inl \<lparr>rErr = Some (Msg ''stream drained: idle while the slot is due for eviction''),
                     rTimedOut = True, rDrained = True\<rparr>
           else Inr st)
      | IdleTimer \<Rightarrow> Inl \<lparr>rErr = Some (Msg ''relay idle timeout''), rTimedOut = True, rDrained = False\<rparr>)"

text \<open>
  The whole call: the result, if the events lead to one, and the events left over. \<open>onClose\<close> is
  deferred, so that it runs once on the way out and never before; \<open>closes\<close> counts its calls.
\<close>

fun bidirectional :: "int \<Rightarrow> (int \<times> relay_event) list \<Rightarrow> relay_state \<Rightarrow> nat \<Rightarrow> Result option \<times> nat \<times> (int \<times> relay_event) list" where
  "bidirectional drainIdle [] st closes = (None, closes, [])"
| "bidirectional drainIdle ((now, ev) # evs) st closes =
     (case relay_step drainIdle now ev st of
        Inl res \<Rightarrow> (Some res, Suc closes, evs)
      | Inr st \<Rightarrow> bidirectional drainIdle evs st closes)"

definition relay_start :: "int \<Rightarrow> relay_state" where
  "relay_start now = \<lparr>rlReceived = 0, rlFirstErr = None, rlIdleSince = now\<rparr>"

section \<open>What the surroundings deliver\<close>

text \<open>
  The select takes events in the order of time. Each copying goroutine reports once. The idle timer is
  restarted with \<open>rlIdleSince\<close> and fires when the timeout has passed since; ticks come only when there
  is a drain condition. \<open>relay_trace\<close> says so of a list of events from a state on.
\<close>

fun relay_trace :: "int \<Rightarrow> int \<Rightarrow> bool \<Rightarrow> int \<Rightarrow> (int \<times> relay_event) list \<Rightarrow> relay_state \<Rightarrow> bool" where
  "relay_trace idleTimeout drainIdle drains clock [] st = True"
| "relay_trace idleTimeout drainIdle drains clock ((now, ev) # evs) st =
     (clock \<le> now \<and>
      (case ev of IdleTimer \<Rightarrow> now \<ge> rlIdleSince st + idleTimeout | DrainTick _ \<Rightarrow> drains | _ \<Rightarrow> True) \<and>
      (case relay_step drainIdle now ev st of
         Inl _ \<Rightarrow> True
       | Inr st \<Rightarrow> relay_trace idleTimeout drainIdle drains now evs st))"

section \<open>Facts\<close>

lemma relay_closes:
  "bidirectional drainIdle evs st closes = (res, n, rest) \<Longrightarrow> n = closes + (if res = None then 0 else 1)"
  by (induction drainIdle evs st closes rule: bidirectional.induct) (auto split: sum.splits)

text \<open>The results the goroutines report, in order.\<close>

fun reports :: "(int \<times> relay_event) list \<Rightarrow> go_error option list" where
  "reports [] = []"
| "reports ((_, Copied err) # evs) = err # reports evs"
| "reports (_ # evs) = reports evs"

lemma reports_append [simp]: "reports (xs @ ys) = reports xs @ reports ys"
  by (induction xs rule: reports.induct) auto

definition fresh_state :: "relay_state \<Rightarrow> bool" where
  "fresh_state st \<longleftrightarrow> rlReceived st \<le> 1 \<and> rlFirstErr st = None"

lemma relay_step_fresh:
  "fresh_state st \<Longrightarrow> relay_step d now ev st = Inr st2 \<Longrightarrow> fresh_state st2"
  by (auto simp: fresh_state_def relay_step_def Let_def split: relay_event.splits if_splits)

definition first_error :: "go_error option list \<Rightarrow> go_error option" where
  "first_error rs = (case filter real_error rs of [] \<Rightarrow> None | e # _ \<Rightarrow> e)"

lemma first_error_simps [simp]:
  "first_error [] = None" "real_error e \<Longrightarrow> first_error (e # rs) = e" "\<not> real_error e \<Longrightarrow> first_error (e # rs) = first_error rs"
  by (simp_all add: first_error_def)

lemma real_error_Some: "real_error err \<Longrightarrow> err \<noteq> None"
  by (auto simp: real_error_def split: option.splits)

lemma relay_split:
  assumes "bidirectional d evs st closes = (Some res, n, rest)"
  shows "\<exists>used. evs = used @ rest \<and> used \<noteq> []"
  using assms
proof (induction d evs st closes rule: bidirectional.induct)
  case (2 d now ev evs st closes)
  show ?case
  proof (cases "relay_step d now ev st")
    case (Inl r)
    then show ?thesis using 2(2) by (auto intro!: exI [of _ "[(now, ev)]"])
  next
    case (Inr st2)
    then obtain used where "evs = used @ rest" using 2 by auto
    then show ?thesis by (intro exI [of _ "(now, ev) # used"]) simp
  qed
qed simp

lemma relay_outcome:
  assumes "fresh_state st" "bidirectional d (used @ rest) st closes = (Some res, n, rest)" "\<not> rTimedOut res"
  shows "rErr res = first_error (reports used) \<and>
    (rErr res = None \<longrightarrow> rlReceived st + length (reports used) = 2)"
  using assms
proof (induction used arbitrary: st)
  case Nil
  then show ?case using relay_split [OF Nil(2)] by auto
next
  case (Cons x used)
  obtain now ev where x: "x = (now, ev)" by (cases x)
  show ?case
  proof (cases "relay_step d now ev st")
    case (Inl r)
    then have "r = res" "used = []" using Cons.prems x by auto
    with Inl show ?thesis
      using Cons.prems x
      by (auto simp: relay_step_def fresh_state_def Let_def dest: real_error_Some split: relay_event.splits if_splits)
  next
    case (Inr st2)
    have "rErr res = first_error (reports used) \<and> (rErr res = None \<longrightarrow> rlReceived st2 + length (reports used) = 2)"
      using Cons Inr x relay_step_fresh [OF Cons.prems(1) Inr] by auto
    with Inr show ?thesis
      using Cons.prems x
      by (auto simp: relay_step_def fresh_state_def Let_def dest: real_error_Some split: relay_event.splits if_splits)
  qed
qed

text \<open>The times at which the relay saw traffic.\<close>

definition traffic :: "(int \<times> relay_event) list \<Rightarrow> int set" where
  "traffic evs = {t. \<exists>ev. (t, ev) \<in> set evs \<and> (ev = Activity \<or> (\<exists>err. ev = Copied err))}"

lemma traffic_Cons: "traffic ((t, ev) # evs) = (if ev = Activity \<or> (\<exists>err. ev = Copied err) then {t} else {}) \<union> traffic evs"
  by (auto simp: traffic_def)

lemma relay_idle:
  assumes "relay_trace idle d drains clock (used @ rest) st"
    and "bidirectional d (used @ rest) st closes = (Some res, n, rest)" "rTimedOut res" "rlIdleSince st \<le> clock"
  shows "\<exists>now ev. last used = (now, ev) \<and>
    (\<forall>t \<in> insert (rlIdleSince st) (traffic used). t + (if rDrained res then d else idle) \<le> now) \<and>
    (rDrained res \<longrightarrow> drains \<and> ev = DrainTick True)"
  using assms
proof (induction used arbitrary: st clock)
  case Nil
  then show ?case using relay_split [OF Nil(2)] by auto
next
  case (Cons x used)
  obtain now ev where x: "x = (now, ev)" by (cases x)
  show ?case
  proof (cases "relay_step d now ev st")
    case (Inl r)
    then have "r = res" "used = []" using Cons.prems x by auto
    with Inl show ?thesis
      using Cons.prems x
      by (auto simp: relay_step_def traffic_def Let_def split: relay_event.splits if_splits)
  next
    case (Inr st2)
    then have ne: "used \<noteq> []" using Cons.prems(2) x relay_split [of d "used @ rest" st2 closes res n rest] by auto
    have idle: "rlIdleSince st2 = (if ev = Activity \<or> (\<exists>err. ev = Copied err) then now else rlIdleSince st)"
      using Inr by (auto simp: relay_step_def Let_def split: relay_event.splits if_splits)
    have le: "clock \<le> now" "relay_trace idle d drains now (used @ rest) st2"
      using Cons.prems(1) x Inr by (auto split: relay_event.splits)
    have "\<exists>t e. last used = (t, e) \<and>
      (\<forall>t' \<in> insert (rlIdleSince st2) (traffic used). t' + (if rDrained res then d else idle) \<le> t) \<and>
      (rDrained res \<longrightarrow> drains \<and> e = DrainTick True)"
      using Cons.IH [OF le(2), of ] Cons.prems(2-4) Inr x le(1) idle by auto
    then show ?thesis
      using ne idle le(1) Cons.prems(4) x by (auto simp: traffic_Cons split: if_splits)
  qed
qed

lemma relay_ends:
  assumes "bidirectional d evs st closes = (None, n, rest)" "fresh_state st"
  shows "(\<forall>t. (t, IdleTimer) \<notin> set evs) \<and> rlReceived st + length (reports evs) < 2 \<and>
    (\<forall>e \<in> set (reports evs). \<not> real_error e)"
  using assms
proof (induction d evs st closes rule: bidirectional.induct)
  case (1 d st closes)
  then show ?case by (simp add: fresh_state_def)
next
  case (2 d now ev evs st closes)
  then obtain st2 where st2: "relay_step d now ev st = Inr st2" by (auto split: sum.splits)
  have ih: "(\<forall>t. (t, IdleTimer) \<notin> set evs) \<and> rlReceived st2 + length (reports evs) < 2 \<and>
    (\<forall>e \<in> set (reports evs). \<not> real_error e)"
    using 2 st2 relay_step_fresh [OF 2(3) st2] by simp
  then show ?case
    using st2 2(3)
    by (auto simp: relay_step_def fresh_state_def Let_def dest: real_error_Some split: relay_event.splits if_splits)
qed

section \<open>Properties\<close>

text \<open>
  C32. How a relay ends: the resources are closed exactly once, when the relay returns and not before.
  It returns when the idle timer fires, when a direction fails or when both have finished; a result
  that is no timeout is the first real error that was reported, and no error only after both
  directions have ended without one.
\<close>

theorem relay_returns:
  assumes "bidirectional d evs (relay_start now) 0 = (res, closes, rest)"
  shows "(res = None \<longrightarrow> closes = 0) \<and> (res \<noteq> None \<longrightarrow> closes = 1) \<and>
    ((\<exists>t. (t, IdleTimer) \<in> set evs) \<or> (\<exists>e \<in> set (reports evs). real_error e) \<or> 2 \<le> length (reports evs) \<longrightarrow> res \<noteq> None) \<and>
    (\<forall>r. res = Some r \<and> \<not> rTimedOut r \<longrightarrow>
       (\<exists>used. evs = used @ rest \<and> rErr r = first_error (reports used) \<and>
          (rErr r = None \<longrightarrow> length (reports used) = 2)))"
proof -
  have st: "fresh_state (relay_start now)" by (simp add: fresh_state_def relay_start_def)
  have "\<exists>used. evs = used @ rest \<and> rErr r = first_error (reports used) \<and> (rErr r = None \<longrightarrow> length (reports used) = 2)"
    if r: "res = Some r" "\<not> rTimedOut r" for r
  proof -
    obtain used where u: "evs = used @ rest" using relay_split assms r(1) by blast
    show ?thesis
      using relay_outcome [OF st, of d used rest 0 r closes] assms r u by (auto simp: relay_start_def)
  qed
  moreover have "res = None \<Longrightarrow> (\<forall>t. (t, IdleTimer) \<notin> set evs) \<and> length (reports evs) < 2 \<and>
      (\<forall>e \<in> set (reports evs). \<not> real_error e)"
    using relay_ends [OF _ st] assms by (auto simp: relay_start_def)
  ultimately show ?thesis using relay_closes [OF assms] by (auto simp: not_le [symmetric])
qed

theorem relay_returns_witness:
  "\<exists>r. bidirectional 5 [(1, Activity), (2, Copied (Some io_EOF)), (3, Copied (Some (Msg ''reset''))), (4, Activity)]
      (relay_start 0) 0 = (Some r, 1, [(4, Activity)]) \<and> rErr r = Some (Msg ''reset'')"
proof -
  let ?evs = "[(1, Activity), (2, Copied (Some io_EOF)), (3, Copied (Some (Msg ''reset''))), (4, Activity)]"
  obtain res closes rest where b: "bidirectional 5 ?evs (relay_start 0) 0 = (res, closes, rest)"
    using prod_cases3 by blast
  have "res = Some \<lparr>rErr = Some (Msg ''reset''), rTimedOut = False, rDrained = False\<rparr> \<and> rest = [(4, Activity)]"
    using b by (simp add: relay_start_def relay_step_def real_error_def io_EOF_def Let_def)
  then show ?thesis using b relay_returns [OF b] by auto
qed

text \<open>
  Only idle relays are cut off: when the relay ends by the idle timeout, no traffic was seen for that
  long, and when it is drained, no traffic was seen for the drain period, the drain condition held and
  the relay has one. \<open>drainIdle\<close> and \<open>idleTimeout\<close> count from the last activity or the end of the first
  direction.
\<close>

theorem only_idle_relays_cut:
  assumes "relay_trace idleTimeout drainIdle drains now evs (relay_start now)"
    and "bidirectional drainIdle evs (relay_start now) 0 = (Some res, closes, rest)" "rTimedOut res"
  shows "\<exists>used t ev. evs = used @ rest \<and> last used = (t, ev) \<and>
    (\<forall>x \<in> insert now (traffic used). x + (if rDrained res then drainIdle else idleTimeout) \<le> t) \<and>
    (rDrained res \<longrightarrow> drains \<and> ev = DrainTick True)"
proof -
  obtain used where u: "evs = used @ rest" using relay_split assms(2) by blast
  show ?thesis
    using relay_idle [of idleTimeout drainIdle drains now used rest "relay_start now" 0 res closes] assms u
    by (auto simp: relay_start_def)
qed

theorem only_idle_relays_cut_witness:
  "\<exists>res. bidirectional 5 [(1, Activity), (4, DrainTick True), (8, DrainTick True)] (relay_start 0) 0 = (Some res, 1, []) \<and>
    rDrained res \<and> 1 + 5 \<le> (8 :: int)"
proof -
  let ?evs = "[(1, Activity), (4, DrainTick True), (8, DrainTick True)]"
  have t: "relay_trace 30 5 True 0 ?evs (relay_start 0)" by (simp add: relay_start_def relay_step_def)
  obtain res where b: "bidirectional 5 ?evs (relay_start 0) 0 = (Some res, 1, [])" "rTimedOut res" "rDrained res"
    by (simp add: relay_start_def relay_step_def)
  then show ?thesis using only_idle_relays_cut [OF t b(1,2)] by (auto simp: traffic_def)
qed

end
