(* ===== verification/Gate.thy ===== *)
theory Gate
  imports ServerGate Records
begin

text \<open>
  What the gate of the server guarantees: salts are accepted once, the tables of the limiter and of
  the resolver stay within their bounds, and only an authenticated request for a public target
  becomes a session.
\<close>

section \<open>Base64\<close>

lemma IndexByte_nth: "distinct s \<Longrightarrow> n < length s \<Longrightarrow> IndexByte s (s ! n) = Some n"
  by (induction s arbitrary: n) (auto simp: nth_Cons split: nat.split)

lemma alphabet_facts: "distinct b64_alphabet" "length b64_alphabet = 64"
  "CHR 0x0A \<notin> set b64_alphabet" "CHR 0x0D \<notin> set b64_alphabet"
  by code_simp+

lemma b64_value_nth [simp]: "n < 64 \<Longrightarrow> b64_value (b64_alphabet ! n) = Some n"
  by (simp add: b64_value_def IndexByte_nth alphabet_facts)

lemma alphabet_printable: "n < 64 \<Longrightarrow> b64_alphabet ! n \<noteq> CHR 0x0A \<and> b64_alphabet ! n \<noteq> CHR 0x0D"
  by (metis alphabet_facts(2-4) nth_mem)

text \<open>The six-bit groups of a byte string.\<close>

fun sextets :: "nat list \<Rightarrow> nat list" where
  "sextets [] = []"
| "sextets [a] = [a div 4, a mod 4 * 16]"
| "sextets [a, b] = [a div 4, a mod 4 * 16 + b div 16, b mod 16 * 4]"
| "sextets (a # b # c # rest) =
     [a div 4, a mod 4 * 16 + b div 16, b mod 16 * 4 + c div 64, c mod 64] @ sextets rest"

lemma b64_encode_sextets: "b64_encode ns = map (\<lambda>n. b64_alphabet ! n) (sextets ns)"
  by (induction ns rule: sextets.induct) simp_all

lemma sextets_small: "\<forall>n \<in> set ns. n < 256 \<Longrightarrow> \<forall>n \<in> set (sextets ns). n < 64"
  by (induction ns rule: sextets.induct) auto

lemma b64_decode_sextets: "\<forall>n \<in> set ns. n < 256 \<Longrightarrow> b64_decode (sextets ns) = Some ns"
proof (induction ns rule: sextets.induct)
  case (4 a b c rest)
  then have "b div 16 < 16" "c div 64 < 4" by auto
  then have "b div 16 div 16 = 0" "b div 16 mod 16 = b div 16" "c div 64 div 4 = 0" "c div 64 mod 4 = c div 64"
    by simp_all
  then show ?case using 4 by simp
next
  case (3 a b)
  then have "b div 16 < 16" by auto
  then have "b div 16 div 16 = 0" "b div 16 mod 16 = b div 16" by simp_all
  then show ?case by simp
qed simp_all

lemma DecodeString_EncodeToString [codec_simps]: "DecodeString (EncodeToString b) = Some b"
proof -
  let ?ns = "map unat b"
  have "unat w < 256" for w :: byte using unsigned_less [of w] by simp
  then have small: "\<forall>n \<in> set ?ns. n < 256" by auto
  note six = sextets_small [OF small]
  have "filter (\<lambda>c. c \<noteq> CHR 0x0A \<and> c \<noteq> CHR 0x0D) (b64_encode ?ns) = b64_encode ?ns"
    unfolding b64_encode_sextets by (rule filter_True) (use six alphabet_printable in auto)
  moreover have "map b64_value (b64_encode ?ns) = map Some (sextets ?ns)"
    unfolding b64_encode_sextets using six by simp
  ultimately show ?thesis
    using b64_decode_sextets [OF small] by (simp add: DecodeString_def EncodeToString_def comp_def image_iff)
qed

section \<open>Salts\<close>

text \<open>
  What the code relies on of \<open>freecache\<close> as long as the salts of a day fit into the cache: an entry
  is found until it expires, setting another one does not lose it, and nothing is found that was
  not set.
\<close>

definition cache_retains :: "'c freecache_lib \<Rightarrow> bool" where
  "cache_retains lib \<longleftrightarrow>
     (\<forall>c now key ttl t. t < now + ttl * 1000000000 \<longrightarrow> fcGet lib (fcSet lib c now key ttl) t key) \<and>
     (\<forall>c now key ttl t k. fcGet lib c t k \<longrightarrow> fcGet lib (fcSet lib c now key ttl) t k) \<and>
     (\<forall>c now key ttl t k. fcGet lib (fcSet lib c now key ttl) t k \<longrightarrow> k = key \<or> fcGet lib c t k)"

fun mark_all :: "'c freecache_lib \<Rightarrow> (int \<times> string \<times> string) list \<Rightarrow> 'c \<Rightarrow> bool list" where
  "mark_all lib [] c = []"
| "mark_all lib ((now, endpoint, salt) # reqs) c =
     (case MarkSeen lib now endpoint salt c of (replay, c) \<Rightarrow> replay # mark_all lib reqs c)"

lemma MarkSeen_keeps: "cache_retains lib \<Longrightarrow> fcGet lib c t k \<Longrightarrow> fcGet lib (snd (MarkSeen lib now e s c)) t k"
  by (simp add: MarkSeen_def cache_retains_def Let_def)

lemma MarkSeen_stores:
  "cache_retains lib \<Longrightarrow> MarkSeen lib now e s c = (False, c') \<Longrightarrow> t < now + saltCacheTTL \<Longrightarrow> fcGet lib c' t (e @ s)"
  by (auto simp: MarkSeen_def cache_retains_def Let_def saltCacheTTL_def split: if_splits)

lemma mark_all_seen:
  assumes "cache_retains lib" "\<And>t. t < limit \<Longrightarrow> fcGet lib c t (e @ s)"
    and "j < length reqs" "reqs ! j = (t2, e, s)" "t2 < limit"
  shows "mark_all lib reqs c ! j"
  using assms(2-)
proof (induction reqs arbitrary: c j)
  case (Cons r reqs)
  obtain now e' s' where r: "r = (now, e', s')" by (cases r)
  obtain b c' where m: "MarkSeen lib now e' s' c = (b, c')" by fastforce
  have keep: "fcGet lib c' t (e @ s)" if "t < limit" for t
    using MarkSeen_keeps [OF assms(1) Cons.prems(1) [OF that], of now e' s'] m by simp
  show ?case
  proof (cases j)
    case 0
    then show ?thesis using Cons.prems r m by (auto simp: MarkSeen_def Let_def split: prod.split if_splits)
  next
    case (Suc i)
    then show ?thesis using Cons.IH [OF keep, of i] Cons.prems r m by (simp split: prod.split)
  qed
qed simp

lemma mark_all_once:
  assumes "cache_retains lib" "i < j" "j < length reqs" "reqs ! i = (t1, e, s)" "reqs ! j = (t2, e, s)"
    and "\<not> mark_all lib reqs c ! i" "t2 < t1 + saltCacheTTL"
  shows "mark_all lib reqs c ! j"
  using assms(2-)
proof (induction reqs arbitrary: c i j)
  case (Cons r reqs)
  obtain now e' s' where r: "r = (now, e', s')" by (cases r)
  obtain b c' where m: "MarkSeen lib now e' s' c = (b, c')" by fastforce
  obtain j' where j: "j = Suc j'" using Cons.prems(1) by (cases j) auto
  show ?case
  proof (cases i)
    case 0
    then have "MarkSeen lib t1 e s c = (False, c')" using Cons.prems r m by (auto split: prod.splits)
    then have "fcGet lib c' t (e @ s)" if "t < t1 + saltCacheTTL" for t
      using MarkSeen_stores [OF assms(1)] that by blast
    then have "mark_all lib reqs c' ! j'"
      using mark_all_seen [OF assms(1), of "t1 + saltCacheTTL" c' e s j' reqs t2] Cons.prems j by simp
    then show ?thesis using r m j by (simp split: prod.split)
  next
    case (Suc i')
    then show ?thesis
      using Cons.IH [of i' j' c'] Cons.prems r m j by (simp split: prod.splits)
  qed
qed simp

text \<open>The cache key is the text of the header, and the text is not unique for a salt.\<close>

lemma salt_spelling:
  "DecodeString ''AAAAAAAAAAAAAAAAAAAAAA'' = Some (replicate 16 0)"
  "DecodeString ''AAAAAAAAAAAAAAAAAAAAAB'' = Some (replicate 16 0)"
  by code_simp+

text \<open>
  The replay check compares spellings, not salts: there is a salt with two spellings that the server
  decodes alike, and after a request with the one, a request with the other at the same endpoint is
  not taken for a replay, whatever the times and however well the cache retains its entries.
\<close>

theorem replayed_by_spare_bits:
  assumes "cache_retains lib" "\<And>t k. \<not> fcGet lib c t k"
  shows "\<exists>salt s s'. DecodeString s = Some salt \<and> DecodeString s' = Some salt \<and> length salt = 16 \<and>
    mark_all lib [(t1, e, s), (t2, e, s')] c = [False, False]"
proof -
  let ?s = "''AAAAAAAAAAAAAAAAAAAAAA''" and ?s' = "''AAAAAAAAAAAAAAAAAAAAAB''"
  let ?c = "fcSet lib c t1 (e @ ?s) (saltCacheTTL div 1000000000)"
  have "\<not> fcGet lib ?c t2 (e @ ?s')"
  proof
    assume "fcGet lib ?c t2 (e @ ?s')"
    then have "e @ ?s' = e @ ?s \<or> fcGet lib c t2 (e @ ?s')"
      using assms(1) unfolding cache_retains_def by blast
    then show False using assms(2) by simp
  qed
  then have "mark_all lib [(t1, e, ?s), (t2, e, ?s')] c = [False, False]"
    using assms(2) by (simp add: MarkSeen_def Let_def)
  then show ?thesis using salt_spelling by (intro exI [of _ "replicate 16 0"] exI [of _ ?s] exI [of _ ?s']) simp
qed

section \<open>The limiter\<close>

definition limiter_ok :: "'l ipRateLimiter \<Rightarrow> bool" where
  "limiter_ok l \<longleftrightarrow> finite (dom (ilEntries l)) \<and> entry_count l \<le> ipHardCap"

text \<open>An entry that a cleanup at \<open>now\<close> keeps.\<close>

definition fresh :: "int \<Rightarrow> 'l ipRateEntry \<Rightarrow> bool" where
  "fresh now e \<longleftrightarrow> now - ieLastSeen e \<le> ipCleanupTTL"

lemma cleanup_entry: "ilEntries (cleanupLocked now l) ip = Some e \<longleftrightarrow> ilEntries l ip = Some e \<and> fresh now e"
  by (auto simp: cleanupLocked_def fresh_def split: option.split)

lemma cleanup_dom: "dom (ilEntries (cleanupLocked now l)) \<subseteq> dom (ilEntries l)"
  using cleanup_entry [of now l] by (auto simp: dom_def)

lemma cleanup_ok:
  assumes "limiter_ok l"
  shows "limiter_ok ((cleanupLocked now l)\<lparr>ilLastCleanup := t\<rparr>)"
    "entry_count (cleanupLocked now l) \<le> entry_count l"
  using assms cleanup_dom [of now l] card_mono [OF _ cleanup_dom, of l now]
  by (auto simp: limiter_ok_def entry_count_def dest: finite_subset)

lemma limiter_ok_insert:
  "limiter_ok l \<Longrightarrow> ip \<in> dom (ilEntries l) \<or> entry_count l < ipHardCap \<Longrightarrow>
     limiter_ok (snd (Allow_existing lib now ip e l))"
  by (auto simp: limiter_ok_def entry_count_def Allow_existing_def card_insert_if insert_absorb split: prod.split)

lemma Allow_existing_facts:
  assumes "Allow_existing lib now ip e l = (ok, l2)"
  shows "ok = fst (limAllowN lib now (ieLim e))"
    "ilEntries l2 = (ilEntries l)(ip \<mapsto> \<lparr>ieLim = snd (limAllowN lib now (ieLim e)), ieLastSeen = now\<rparr>)"
  using assms by (auto simp: Allow_existing_def split: prod.splits)

text \<open>The table after the scheduled cleanup and after the one forced by a full table.\<close>

definition tidied :: "int \<Rightarrow> 'l ipRateLimiter \<Rightarrow> 'l ipRateLimiter" where
  "tidied now l =
     (if entry_count l \<ge> ipCleanupThreshold \<and> now - ilLastCleanup l \<ge> ipCleanupInterval
      then (cleanupLocked now l)\<lparr>ilLastCleanup := now\<rparr> else l)"

lemma tidied_facts:
  assumes "limiter_ok l"
  shows "limiter_ok (tidied now l)"
    "ilEntries (tidied now l) ip = Some e \<Longrightarrow> ilEntries l ip = Some e"
    "ilEntries l ip = Some e \<Longrightarrow> fresh now e \<Longrightarrow> ilEntries (tidied now l) ip = Some e"
  using cleanup_ok(1) [OF assms, of now now] assms cleanup_entry [of now l ip e]
  by (auto simp: tidied_def split: if_splits)

lemma Allow_tidied:
  "Allow lib now ip l =
     (case ilEntries (tidied now l) ip of
        Some e \<Rightarrow> Allow_existing lib now ip e (tidied now l)
      | None \<Rightarrow>
          (if entry_count (tidied now l) < ipHardCap
           then Allow_existing lib now ip \<lparr>ieLim = limNew lib, ieLastSeen = now\<rparr> (tidied now l)
           else (let l2 = (cleanupLocked now (tidied now l))\<lparr>ilLastCleanup := now\<rparr>
                 in if entry_count l2 \<ge> ipHardCap
                    then (True, if now - ilLastCapWarn l2 \<ge> ipCleanupInterval then l2\<lparr>ilLastCapWarn := now\<rparr> else l2)
                    else Allow_existing lib now ip \<lparr>ieLim = limNew lib, ieLastSeen = now\<rparr> l2)))"
  unfolding Allow_def tidied_def [symmetric] Let_def by (simp split: option.split)

section \<open>The resolver's cache\<close>

lemma evict_loop_map:
  "distinct ks \<Longrightarrow> snd (evict_loop now ks o1 m) =
     (\<lambda>k. case m k of Some e \<Rightarrow> (if k \<in> set ks \<and> now > reExpires e then None else Some e) | None \<Rightarrow> None)"
proof (induction ks arbitrary: o1 m)
  case Nil
  then show ?case by (auto simp: fun_eq_iff split: option.split)
next
  case (Cons k ks)
  show ?case
  proof (cases "m k")
    case None
    then show ?thesis using Cons by (auto simp: fun_eq_iff split: option.split)
  next
    case (Some e)
    then show ?thesis using Cons by (auto simp: fun_eq_iff split: option.split)
  qed
qed

text \<open>The surviving entry that expires first.\<close>

definition live :: "int \<Rightarrow> (string \<rightharpoonup> resolveEntry) \<Rightarrow> string \<Rightarrow> int \<Rightarrow> bool" where
  "live now m k x \<longleftrightarrow> (\<exists>e. m k = Some e \<and> now \<le> reExpires e \<and> x = reExpires e)"

lemma evict_loop_oldest:
  fixes m :: "string \<rightharpoonup> resolveEntry" and o1 :: "string \<times> int" and now :: int
  assumes "distinct ks" "[] \<notin> set ks"
  defines "o2 \<equiv> fst (evict_loop now ks o1 m)"
  shows "(fst o2 \<noteq> [] \<longrightarrow> o2 = o1 \<or> fst o2 \<in> set ks \<and> live now m (fst o2) (snd o2)) \<and>
    (fst o1 \<noteq> [] \<longrightarrow> fst o2 \<noteq> [] \<and> snd o2 \<le> snd o1) \<and>
    (\<forall>k x. k \<in> set ks \<and> live now m k x \<longrightarrow> fst o2 \<noteq> [] \<and> snd o2 \<le> x)"
  using assms(1,2) unfolding o2_def
proof (induction ks arbitrary: o1 m)
  case (Cons k ks)
  have other: "live now (m(k := None)) k' x \<longleftrightarrow> live now m k' x" if "k' \<in> set ks" for k' x
    using that Cons.prems(1) by (auto simp: live_def)
  show ?case
  proof (cases "\<exists>x. live now m k x")
    case False
    define m' where "m' = (if m k = None then m else m(k := None))"
    have m': "live now m' k' x \<longleftrightarrow> live now m k' x" if "k' \<in> set ks" for k' x
      using other [OF that] by (simp add: m'_def)
    have "evict_loop now (k # ks) o1 m = evict_loop now ks o1 m'"
      using False by (auto simp: live_def m'_def split: option.split)
    moreover have "distinct ks" "[] \<notin> set ks" using Cons.prems by auto
    note ih = Cons.IH [OF this, of o1 m']
    moreover have "k' \<in> set (k # ks) \<and> live now m k' x \<longrightarrow> k' \<in> set ks \<and> live now m' k' x" for k' x
      using False m' by auto
    ultimately show ?thesis using m' by (metis list.set_intros(2))
  next
    case True
    then obtain e where e: "m k = Some e" "now \<le> reExpires e" by (auto simp: live_def)
    then have k: "live now m k x \<longleftrightarrow> x = reExpires e" for x by (auto simp: live_def)
    show ?thesis
    proof (cases "fst o1 = [] \<or> reExpires e < snd o1")
      case True
      then have "evict_loop now (k # ks) o1 m = evict_loop now ks (k, reExpires e) m" using e by simp
      then show ?thesis using Cons.IH [of "(k, reExpires e)" m] Cons.prems True k by auto
    next
      case False
      then have "evict_loop now (k # ks) o1 m = evict_loop now ks o1 m" using e by simp
      then show ?thesis using Cons.IH [of o1 m] Cons.prems False k by auto
    qed
  qed
qed simp

text \<open>
  The invariant of the cache: within its bound, and every entry is an answer the resolver gave;
  \<open>H\<close> collects those answers with their times.
\<close>

definition resolve_ok :: "(string \<times> addr list \<times> int) set \<Rightarrow> resolveCache \<Rightarrow> bool" where
  "resolve_ok H c \<longleftrightarrow>
     0 < rsMax c \<and> finite (dom (rsEntries c)) \<and> card (dom (rsEntries c)) \<le> rsMax c \<and> [] \<notin> dom (rsEntries c) \<and>
     (\<forall>k e. rsEntries c k = Some e \<longrightarrow> (\<exists>t. (k, reAddrs e, t) \<in> H \<and> reExpires e = t + rsTTL c))"

definition visits :: "string list \<Rightarrow> resolveCache \<Rightarrow> bool" where
  "visits order c \<longleftrightarrow> distinct order \<and> set order = dom (rsEntries c)"

lemma evict_makes_room:
  fixes now :: int
  assumes "resolve_ok H c" "visits order c" "card (dom (rsEntries c)) \<ge> rsMax c"
  defines "c2 \<equiv> evictLocked now order c"
  shows "card (dom (rsEntries c2)) < rsMax c" "rsEntries c2 k = Some e \<Longrightarrow> rsEntries c k = Some e"
    "rsTTL c2 = rsTTL c" "rsMax c2 = rsMax c"
proof -
  obtain o2 m where ev: "evict_loop now order ([], 0) (rsEntries c) = (o2, m)" by fastforce
  have m: "m = (\<lambda>k. case rsEntries c k of
      Some e \<Rightarrow> (if k \<in> set order \<and> now > reExpires e then None else Some e) | None \<Rightarrow> None)"
    using evict_loop_map [of order now "([], 0)" "rsEntries c"] ev assms(2) by (simp add: visits_def)
  have sub: "dom m \<subseteq> dom (rsEntries c)" by (auto simp: m split: option.splits if_splits)
  have fin: "finite (dom (rsEntries c))" and max: "card (dom (rsEntries c)) = rsMax c" and pos: "0 < rsMax c"
    and ne: "[] \<notin> dom (rsEntries c)"
    using assms(1,3) by (auto simp: resolve_ok_def)
  note old = evict_loop_oldest [of order now "([], 0)" "rsEntries c", unfolded ev fst_conv snd_conv]
  have dord: "distinct order" and sord: "set order = dom (rsEntries c)" using assms(2) by (auto simp: visits_def)
  show "card (dom (rsEntries c2)) < rsMax c"
  proof (cases "dom m = dom (rsEntries c)")
    case False
    then have "card (dom m) < rsMax c" using psubset_card_mono [OF fin, of "dom m"] sub max by auto
    then show ?thesis by (cases o2) (simp add: c2_def evictLocked_def ev)
  next
    case True
    obtain k where k: "k \<in> dom m" using True pos max by (metis card.empty ex_in_conv less_numeral_extra(3))
    then have "k \<in> set order" using True sord by simp
    with k obtain e where e: "rsEntries c k = Some e" "now \<le> reExpires e" "k \<in> set order"
      by (auto simp: m split: option.splits if_splits)
    then have "live now (rsEntries c) k (reExpires e)" by (simp add: live_def)
    then have o2: "fst o2 \<noteq> []" using old dord ne sord e(3) by blast
    moreover have "fst o2 \<noteq> [] \<longrightarrow> o2 = ([], 0) \<or> fst o2 \<in> set order" using old dord ne sord by blast
    ultimately have o2: "fst o2 \<noteq> []" "fst o2 \<in> set order" by auto
    then have "dom (rsEntries c2) = dom m - {fst o2}"
      using True max by (cases o2) (simp add: c2_def evictLocked_def ev)
    then show ?thesis using o2 True max fin pos sord by (simp add: card_Diff_singleton_if)
  qed
  show "rsEntries c2 k = Some e \<Longrightarrow> rsEntries c k = Some e"
    by (cases o2) (auto simp: c2_def evictLocked_def ev m split: option.splits if_splits)
  show "rsTTL c2 = rsTTL c" "rsMax c2 = rsMax c"
    by (cases o2; simp add: c2_def evictLocked_def ev)+
qed

lemma resolve_ok_store:
  assumes "resolve_ok H c" "visits order c" "key \<noteq> []"
  shows "resolve_ok (insert (key, addrs, now) H) (resolve_store now order key addrs c)"
proof -
  define c2 where "c2 = (if card (dom (rsEntries c)) \<ge> rsMax c then evictLocked now order c else c)"
  have c2: "card (dom (rsEntries c2)) < rsMax c" "rsTTL c2 = rsTTL c" "rsMax c2 = rsMax c"
    and sub: "rsEntries c2 k = Some e \<Longrightarrow> rsEntries c k = Some e" for k e
    using evict_makes_room [OF assms(1,2), of now] by (auto simp: c2_def split: if_splits)
  have dsub: "dom (rsEntries c2) \<subseteq> dom (rsEntries c)" using sub by (auto simp: dom_def)
  have fin: "finite (dom (rsEntries c2))" using assms(1) finite_subset [OF dsub] by (auto simp: resolve_ok_def)
  have "resolve_store now order key addrs c =
      c2\<lparr>rsEntries := (rsEntries c2)(key \<mapsto> \<lparr>reAddrs = addrs, reExpires = now + rsTTL c2\<rparr>)\<rparr>"
    by (simp add: resolve_store_def c2_def Let_def)
  moreover have "\<exists>t. (k, reAddrs e, t) \<in> H \<and> reExpires e = t + rsTTL c" if "rsEntries c2 k = Some e" for k e
    using assms(1) sub [OF that] by (auto simp: resolve_ok_def)
  ultimately show ?thesis
    using assms c2 fin dsub by (auto simp: resolve_ok_def card_insert_if)
qed

section \<open>The gate\<close>

lemma first_record_in_time: "fst (ReadFirstRecordWithTimeout w res) = Inr x \<Longrightarrow> res = Inr x"
  by (cases w) (auto split: if_splits)

lemma FirstLANAddr_None: "FirstLANAddr addrs = None \<longleftrightarrow> (\<forall>a \<in> set addrs. \<not> lan_ip (As16 (fst a)))"
  by (auto simp: FirstLANAddr_def find_None_iff)

section \<open>Properties\<close>

text \<open>
  A salt is accepted once a day: as long as the cache retains what it is given, a salt header that
  was accepted at an endpoint is refused there by every later request of the next twenty-four
  hours, whatever other requests come in between.
\<close>

theorem replayed_salts_refused:
  assumes "cache_retains lib" "i < j" "j < length reqs" "reqs ! i = (t1, e, s)" "reqs ! j = (t2, e, s)"
    and "\<not> mark_all lib reqs c ! i" "t2 < t1 + saltCacheTTL"
  shows "mark_all lib reqs c ! j"
  using assms by (rule mark_all_once)

text \<open>
  The limiter keeps its table within the hard cap and never lets a busy address escape its bucket:
  an address seen within half an hour is decided by its own bucket, which no other address's request
  touches, and an address is admitted without one only when the table is full of such entries.
\<close>

theorem limiter_bounded:
  fixes lib :: "'l limiter_lib"
  assumes "limiter_ok l" "Allow lib now ip l = (ok, l2)"
  shows "limiter_ok l2 \<and>
    (\<forall>e. ilEntries l ip = Some e \<and> fresh now e \<longrightarrow>
       ok = fst (limAllowN lib now (ieLim e)) \<and>
       ilEntries l2 ip = Some \<lparr>ieLim = snd (limAllowN lib now (ieLim e)), ieLastSeen = now\<rparr>) \<and>
    (\<forall>ip2 e. ip2 \<noteq> ip \<and> ilEntries l ip2 = Some e \<and> fresh now e \<longrightarrow> ilEntries l2 ip2 = Some e) \<and>
    (ilEntries l2 ip = None \<longrightarrow> ok \<and> entry_count l2 = ipHardCap \<and> (\<forall>ip2 e. ilEntries l2 ip2 = Some e \<longrightarrow> fresh now e))"
proof -
  define l1 where "l1 = tidied now l"
  note t = tidied_facts [OF assms(1), where now = now, folded l1_def]
  define n where "n = (\<lparr>ieLim = limNew lib, ieLastSeen = now\<rparr> :: 'l ipRateEntry)"
  define l3 where "l3 = (cleanupLocked now l1)\<lparr>ilLastCleanup := now\<rparr>"
  have l3: "limiter_ok l3" "ilEntries l3 ip = Some e \<longleftrightarrow> ilEntries l1 ip = Some e \<and> fresh now e" for ip e
    using cleanup_ok(1) [OF t(1)] cleanup_entry [of now l1] by (simp_all add: l3_def)
  have other: "ilEntries l ip = Some e \<Longrightarrow> fresh now e \<Longrightarrow> ilEntries l3 ip = Some e" for ip e
    using t(3) l3(2) by blast
  note all = assms(2) [unfolded Allow_tidied, folded l1_def, folded l3_def n_def]
  consider (known) e where "ilEntries l1 ip = Some e" "Allow_existing lib now ip e l1 = (ok, l2)"
    | (new) "ilEntries l1 ip = None" "entry_count l1 < ipHardCap" "Allow_existing lib now ip n l1 = (ok, l2)"
    | (forced) "ilEntries l1 ip = None" "entry_count l3 < ipHardCap" "Allow_existing lib now ip n l3 = (ok, l2)"
    | (untracked) "ilEntries l1 ip = None" "entry_count l3 \<ge> ipHardCap" "ok" "ilEntries l2 = ilEntries l3"
    using all by (auto simp: Let_def split: option.splits if_splits)
  then show ?thesis
  proof cases
    case (known e)
    have ok: "limiter_ok l2"
      using limiter_ok_insert [OF t(1), of ip lib now e] known by (simp add: domI)
    have "ilEntries l ip = Some e2 \<Longrightarrow> fresh now e2 \<Longrightarrow> e2 = e" for e2
      using t(3) [of ip e2] known(1) by simp
    then show ?thesis
      using ok t(3) unfolding Allow_existing_facts [OF known(2)] by (auto simp only: fun_upd_apply simp_thms split: if_splits)
  next
    case new
    then have "ilEntries l ip = Some e \<Longrightarrow> \<not> fresh now e" for e using t(3) by fastforce
    with new show ?thesis
      using limiter_ok_insert [OF t(1), of ip lib now n] t(3) Allow_existing_facts [OF new(3)] by auto
  next
    case forced
    then have "ilEntries l ip = Some e \<Longrightarrow> \<not> fresh now e" for e using t(3) by fastforce
    with forced show ?thesis
      using limiter_ok_insert [OF l3(1), of ip lib now n] other Allow_existing_facts [OF forced(3)] by auto
  next
    case untracked
    then have "ilEntries l ip = Some e \<Longrightarrow> \<not> fresh now e" for e using t(3) by fastforce
    moreover have "limiter_ok l2" "entry_count l2 = ipHardCap"
      using untracked l3(1) by (auto simp: limiter_ok_def entry_count_def)
    ultimately show ?thesis using untracked other l3(2) by auto
  qed
qed

text \<open>
  The resolver's cache holds at most its bound and answers only with what the resolver said for
  that very name within the time to live: every lookup keeps the invariant, with the new answer
  added to the history, and an answer is fresh from the resolver or an unexpired one from the
  history.
\<close>

theorem resolve_cache_answers:
  assumes "resolve_ok H c" "visits order c" "resolve_lookup resolve gone now order target c = (res, c2)"
  shows "(\<exists>H2. resolve_ok H2 c2 \<and> H2 \<subseteq> H \<union> {(key, addrs, now) | key addrs.
        resolveCacheKey target = Some key \<and> resolve target = Inr addrs}) \<and>
    card (dom (rsEntries c2)) \<le> rsMax c2 \<and>
    (\<forall>addrs. res = Inr addrs \<longrightarrow> resolve target = Inr addrs \<or>
       (\<exists>key t. resolveCacheKey target = Some key \<and> (key, addrs, t) \<in> H \<and> now \<le> t + rsTTL c))"
proof (cases "resolveCacheKey target")
  case None
  then show ?thesis using assms by (auto simp: resolve_lookup_def resolve_ok_def intro!: exI [of _ H])
next
  case (Some key)
  then have ne: "key \<noteq> []" by (auto simp: resolveCacheKey_def Let_def split: if_splits)
  show ?thesis
  proof (cases "load now key c")
    case hit: (Some addrs)
    then obtain e where "rsEntries c key = Some e" "now \<le> reExpires e" "addrs = reAddrs e"
      by (auto simp: load_def split: option.splits if_splits)
    then have "\<exists>t. (key, addrs, t) \<in> H \<and> now \<le> t + rsTTL c"
      using assms(1) unfolding resolve_ok_def by metis
    moreover have "res = Inr addrs" "c2 = c" using assms(3) Some hit by (simp_all add: resolve_lookup_def)
    ultimately show ?thesis using assms(1) Some by (auto simp: resolve_ok_def intro!: exI [of _ H])
  next
    case miss: None
    show ?thesis
    proof (cases "resolve target")
      case (Inl e)
      then have "c2 = c" "res = (case gone of Some e \<Rightarrow> Inl e | None \<Rightarrow> Inl e)"
        using assms(3) Some miss by (simp_all add: resolve_lookup_def)
      then show ?thesis using assms(1) by (auto simp: resolve_ok_def intro!: exI [of _ H] split: option.splits)
    next
      case (Inr addrs)
      have "c2 = resolve_store now order key addrs c" and res: "res = Inr a \<Longrightarrow> a = addrs" for a
        using assms(3) Some miss Inr by (auto simp: resolve_lookup_def Let_def split: option.splits)
      then have "resolve_ok (insert (key, addrs, now) H) c2" using resolve_ok_store [OF assms(1,2) ne] by simp
      moreover from this have "card (dom (rsEntries c2)) \<le> rsMax c2" by (simp add: resolve_ok_def)
      ultimately show ?thesis using res Inr Some by (intro conjI exI [of _ "insert (key, addrs, now) H"]) auto
    qed
  qed
qed


text \<open>
  To somebody without the key the server is a web site: a request that does not look like a
  handshake gets the fallback page and changes nothing; one whose first record arrives but does not
  decrypt gets that page too, unless it is over its rate or repeats a salt; the answers 404 and 405,
  which only an insider understands, are given only to a record that decrypted.
\<close>

theorem preflight_hides:
  "(rqProtoMajor r < 2 \<or> rqMethod r \<noteq> ''POST'' \<or> DecodeString (rqSaltHeader r) = None \<or>
    length (the (DecodeString (rqSaltHeader r))) \<noteq> 16 \<longrightarrow> preflight su r h = (Inl Fallback_page, h)) \<and>
   (fst (preflight su r h) \<in> {Inl (Status 404), Inl (Status 405)} \<longrightarrow>
      (\<exists>salt sk first. DecodeString (rqSaltHeader r) = Some salt \<and>
         NewStreamKeys (suCrypto su) (phMasterKey h) salt (rqPath r) = Inr sk \<and>
         fst (ReadFirstRecord (suCrypto su) (phEnv h) sk (rqBody r)) = Inr first)) \<and>
   (fst (preflight su r h) = Inl (Status code) \<longrightarrow> code \<in> {400, 404, 405, 408, 429}) \<and>
   (DecodeString (rqSaltHeader r) = Some salt \<and> NewStreamKeys (suCrypto su) (phMasterKey h) salt (rqPath r) = Inr sk \<and>
    fst (ReadFirstRecord (suCrypto su) (phEnv h) sk (rqBody r)) = Inl e \<and> \<not> errors_is e ErrHandshakeTimeout \<and>
    suWait su = ResultReady \<longrightarrow> fst (preflight su r h) \<in> {Inl Fallback_page, Inl (Status 400), Inl (Status 429)})"
proof (intro conjI impI)
  assume "rqProtoMajor r < 2 \<or> rqMethod r \<noteq> ''POST'' \<or> DecodeString (rqSaltHeader r) = None \<or>
    length (the (DecodeString (rqSaltHeader r))) \<noteq> 16"
  then show "preflight su r h = (Inl Fallback_page, h)"
    by (auto simp: preflight_def split: option.split)
next
  assume "fst (preflight su r h) \<in> {Inl (Status 404), Inl (Status 405)}"
  then show "\<exists>salt sk first. DecodeString (rqSaltHeader r) = Some salt \<and>
         NewStreamKeys (suCrypto su) (phMasterKey h) salt (rqPath r) = Inr sk \<and>
         fst (ReadFirstRecord (suCrypto su) (phEnv h) sk (rqBody r)) = Inr first"
    by (auto simp: preflight_def Let_def dest!: first_record_in_time split: if_splits option.splits prod.splits sum.splits)
next
  assume "fst (preflight su r h) = Inl (Status code)"
  then show "code \<in> {400, 404, 405, 408, 429}"
    by (auto simp: preflight_def preflight_record_def Let_def split: if_splits option.splits prod.splits sum.splits)
next
  assume "DecodeString (rqSaltHeader r) = Some salt \<and> NewStreamKeys (suCrypto su) (phMasterKey h) salt (rqPath r) = Inr sk \<and>
    fst (ReadFirstRecord (suCrypto su) (phEnv h) sk (rqBody r)) = Inl e \<and> \<not> errors_is e ErrHandshakeTimeout \<and>
    suWait su = ResultReady"
  then show "fst (preflight su r h) \<in> {Inl Fallback_page, Inl (Status 400), Inl (Status 429)}"
    by (auto simp: preflight_def Let_def split: if_splits option.splits prod.splits sum.splits)
qed

lemma handshake_accepted:
  assumes "lib_ok (suCrypto su)" "length (phMasterKey h) = 32" "length salt = 16" "env_ok env" "env_ok (phEnv h)"
    and hs: "hVersion hs = Version3" "NewFrameHANDSHAKE hs = Inr f" "\<forall>g \<in> set fs. frame_fits g"
      "length (EncodeFrames (f # fs)) \<le> 65517"
    and "NewStreamKeys (suCrypto su) (phMasterKey h) salt (rqPath r) = Inr sk"
      "BootstrapWriter (suCrypto su) sk = Inr rw"
      "WriteRecord buffer_writer env rw [] (EncodeFrames (f # fs)) = (Inr (), rw', out, env')"
    and "rqProtoMajor r = 2" "rqMethod r = ''POST''" "rqSaltHeader r = EncodeToString salt"
      "rqBody r = \<lparr>sData = out @ rest, sErr = err\<rparr>"
    and "suWait su = ResultReady"
      "fst (Allow (suLimiter su) (suNow su) (clientIP (rqRemoteAddr r)) (phIpLimiter h))"
      "\<not> fcGet (suFreecache su) (phSaltCache h) (suNow su) (rqPath r @ rqSaltHeader r)"
    and "MatchesEndpoint hs (rqPath r)" "hMethod hs \<in> phAllowedMethods h"
      "suResolve su (hTarget hs) = Inr addrs" "\<forall>a \<in> set addrs. \<not> lan_ip (As16 (fst a))"
  shows "fst (preflight su r h) = Inr \<lparr>hrKeys = sk,
    hrFirst = \<lparr>frHandshake = hs, frLeftover = map frame_norm fs\<rparr>, hrEndpoint = rqPath r, hrTarget = hTarget hs,
    hrMethod = hMethod hs, hrAddrs = addrs\<rparr>"
proof -
  obtain env3 where r: "ReadFirstRecord (suCrypto su) (phEnv h) sk (rqBody r) =
      (Inr \<lparr>frHandshake = hs, frLeftover = map frame_norm fs\<rparr>, \<lparr>sData = rest, sErr = err\<rparr>, env3)"
    using first_record_delivered [OF assms(1-5) hs, of "rqPath r" rest err] assms(10-12,16) by auto
  have salt: "EncodeToString salt \<noteq> []" using assms(3) DecodeString_EncodeToString [of salt]
    by (cases "EncodeToString salt = []") (simp_all add: DecodeString_def)
  obtain lim where lim: "Allow (suLimiter su) (suNow su) (clientIP (rqRemoteAddr r)) (phIpLimiter h) = (True, lim)"
    using assms(18) by (cases "Allow (suLimiter su) (suNow su) (clientIP (rqRemoteAddr r)) (phIpLimiter h)") auto
  obtain cache where "MarkSeen (suFreecache su) (suNow su) (rqPath r) (rqSaltHeader r) (phSaltCache h) = (False, cache)"
    using assms(19) by (simp add: MarkSeen_def Let_def)
  then show ?thesis
    using assms salt lim r
    by (simp add: preflight_def preflight_record_def Let_def DecodeString_EncodeToString FirstLANAddr_None)
qed

text \<open>
  C7. A genuine client gets in: a POST whose header is the encoding of its salt and whose body starts
  with the record that the client writes for its handshake is accepted, with that handshake, the
  frames sent along with it and the addresses found, provided the limiter admits the address, the salt
  is new, the method allowed, and the target not local.
\<close>

theorem genuine_handshake_accepted:
  assumes "lib_ok (suCrypto su)" "length (phMasterKey h) = 32" "length salt = 16" "env_ok env" "env_ok (phEnv h)"
    and hs: "hVersion hs = Version3" "NewFrameHANDSHAKE hs = Inr f" "\<forall>g \<in> set fs. frame_fits g"
      "length (EncodeFrames (f # fs)) \<le> 65517"
    and "NewStreamKeys (suCrypto su) (phMasterKey h) salt (rqPath r) = Inr sk"
      "BootstrapWriter (suCrypto su) sk = Inr rw"
      "WriteRecord buffer_writer env rw [] (EncodeFrames (f # fs)) = (Inr (), rw', out, env')"
    and "rqProtoMajor r = 2" "rqMethod r = ''POST''" "rqSaltHeader r = EncodeToString salt"
      "rqBody r = \<lparr>sData = out @ rest, sErr = err\<rparr>"
    and "suWait su = ResultReady"
      "fst (Allow (suLimiter su) (suNow su) (clientIP (rqRemoteAddr r)) (phIpLimiter h))"
      "\<not> fcGet (suFreecache su) (phSaltCache h) (suNow su) (rqPath r @ rqSaltHeader r)"
    and "MatchesEndpoint hs (rqPath r)" "hMethod hs \<in> phAllowedMethods h"
      "suResolve su (hTarget hs) = Inr addrs" "\<forall>a \<in> set addrs. \<not> lan_ip (As16 (fst a))"
  shows "fst (preflight su r h) = Inr \<lparr>hrKeys = sk,
    hrFirst = \<lparr>frHandshake = hs, frLeftover = map frame_norm fs\<rparr>, hrEndpoint = rqPath r, hrTarget = hTarget hs,
    hrMethod = hMethod hs, hrAddrs = addrs\<rparr>"
  by (rule handshake_accepted [OF assms])

section \<open>Concrete instances\<close>

text \<open>A cache that never evicts and a bucket of a hundred tokens that are not refilled.\<close>

definition list_cache :: "(string \<times> int) list freecache_lib" where
  "list_cache =
     \<lparr>fcGet = (\<lambda>c now k. list_ex (\<lambda>(k2, x). k2 = k \<and> now < x) c),
      fcSet = (\<lambda>c now k ttl. (k, now + ttl * 1000000000) # c)\<rparr>"

definition plain_bucket :: "int limiter_lib" where
  "plain_bucket = \<lparr>limNew = 100, limAllowN = (\<lambda>_ n. (0 < n, n - 1))\<rparr>"

lemma list_cache_retains: "cache_retains list_cache"
  by (auto simp: cache_retains_def list_cache_def list_ex_iff)

definition no_entries :: "int ipRateLimiter" where
  "no_entries = \<lparr>ilEntries = Map.empty, ilLastCleanup = 0, ilLastCapWarn = 0\<rparr>"

theorem replayed_salts_refused_witness:
  "mark_all list_cache [(0, ''/v3/tcp'', ''AAAAAAAAAAAAAAAAAAAAAA''), (5, ''/v3/udp'', ''BAAAAAAAAAAAAAAAAAAAAA''),
     (3600000000000, ''/v3/tcp'', ''AAAAAAAAAAAAAAAAAAAAAA'')] [] ! 2"
  by (rule replayed_salts_refused [OF list_cache_retains, where i = 0 and ?t1.0 = 0 and ?t2.0 = 3600000000000
        and e = "''/v3/tcp''" and s = "''AAAAAAAAAAAAAAAAAAAAAA''"])
    (simp_all add: MarkSeen_def list_cache_def saltCacheTTL_def)

theorem replayed_by_spare_bits_witness:
  "\<exists>salt s s'. DecodeString s = Some salt \<and> DecodeString s' = Some salt \<and> length salt = 16 \<and>
    mark_all list_cache [(0, ''/v3/tcp'', s), (1, ''/v3/tcp'', s')] [] = [False, False]"
  by (rule replayed_by_spare_bits [OF list_cache_retains]) (simp add: list_cache_def)

theorem limiter_bounded_witness:
  "fst (Allow plain_bucket 5 ''a'' (no_entries\<lparr>ilEntries := [''a'' \<mapsto> \<lparr>ieLim = 0, ieLastSeen = 1\<rparr>]\<rparr>)) = False"
proof -
  let ?l = "no_entries\<lparr>ilEntries := [''a'' \<mapsto> \<lparr>ieLim = 0, ieLastSeen = 1\<rparr>]\<rparr>"
  obtain ok l2 where a: "Allow plain_bucket 5 ''a'' ?l = (ok, l2)" by fastforce
  have "limiter_ok ?l" by (simp add: limiter_ok_def entry_count_def ipHardCap_def)
  then show ?thesis
    using limiter_bounded [OF _ a] a by (simp add: plain_bucket_def fresh_def ipCleanupTTL_def)
qed

theorem resolve_cache_answers_witness:
  "\<exists>res c2. resolve_lookup (\<lambda>_. Inr [([1, 2, 3, 4], [])]) None 0 [] ''a.b:80'' (newResolveCache 9) = (res, c2) \<and>
     card (dom (rsEntries c2)) \<le> rsMax c2"
proof -
  obtain res c2 where a: "resolve_lookup (\<lambda>_. Inr [([1, 2, 3, 4], [])]) None 0 [] ''a.b:80'' (newResolveCache 9) = (res, c2)"
    by fastforce
  have "resolve_ok {} (newResolveCache 9)" "visits [] (newResolveCache 9)"
    by (simp_all add: resolve_ok_def visits_def newResolveCache_def resolveCacheMax_def)
  then have "card (dom (rsEntries c2)) \<le> rsMax c2" using resolve_cache_answers [OF _ _ a] by blast
  with a show ?thesis by (intro exI conjI)
qed

text \<open>A client that asks for port 80 of \<open>a\<close>, which resolves to a public address.\<close>

definition example_handshake :: Handshake where
  "example_handshake = \<lparr>hVersion = 3, hProto = 1, hMethod = 1, hTarget = ''a:80''\<rparr>"

definition example_su :: "((string \<times> int) list, int) surroundings" where
  "example_su = \<lparr>suCrypto = null_lib, suFreecache = list_cache, suLimiter = plain_bucket,
     suResolve = (\<lambda>_. Inr [([8, 8, 8, 8], [])]), suNow = 0, suWait = ResultReady\<rparr>"

definition example_handler :: "((string \<times> int) list, int) ProxyHandler" where
  "example_handler = \<lparr>phMasterKey = replicate 32 0, phAllowedMethods = allowed_methods [], phSaltCache = [],
     phIpLimiter = no_entries, phEnv = init_env\<rparr>"

definition example_request :: "bytes \<Rightarrow> request" where
  "example_request out = \<lparr>rqProtoMajor = 2, rqMethod = ''POST'', rqSaltHeader = EncodeToString (replicate 16 0),
     rqRemoteAddr = ''9.9.9.9:1234'', rqPath = ''/v3/tcp'', rqBody = \<lparr>sData = out, sErr = io_EOF\<rparr>\<rparr>"

definition example_frame :: Frame where
  "example_frame = \<lparr>fType = 6, fLength = 7, fPayload = Handshake_Encode example_handshake\<rparr>"

lemma example_bootstrap:
  "\<exists>sk rw rw' out env'. NewStreamKeys null_lib (replicate 32 0) (replicate 16 0) ''/v3/tcp'' = Inr sk \<and>
     BootstrapWriter null_lib sk = Inr rw \<and>
     WriteRecord buffer_writer init_env rw [] (EncodeFrames [example_frame]) = (Inr (), rw', out, env')"
  and example_frame: "NewFrameHANDSHAKE example_handshake = Inr example_frame"
    "length (EncodeFrames [example_frame]) \<le> 65517" "hVersion example_handshake = Version3"
proof -
  show f: "NewFrameHANDSHAKE example_handshake = Inr example_frame" "length (EncodeFrames [example_frame]) \<le> 65517"
    "hVersion example_handshake = Version3"
    by (simp_all add: NewFrameHANDSHAKE_def NewFrame_def NewFrameWithPayload_def checkPayloadLen_def
      Handshake_Encode_def example_handshake_def example_frame_def)
  have b: "\<forall>g \<in> set []. frame_fits g" by simp
  have l: "length (replicate 32 (0 :: byte)) = 32" "length (replicate 16 (0 :: byte)) = 16" by simp_all
  show "\<exists>sk rw rw' out env'. NewStreamKeys null_lib (replicate 32 0) (replicate 16 0) ''/v3/tcp'' = Inr sk \<and>
     BootstrapWriter null_lib sk = Inr rw \<and>
     WriteRecord buffer_writer init_env rw [] (EncodeFrames [example_frame]) = (Inr (), rw', out, env')"
    using first_record_delivered [OF null_lib_ok l init_env_ok init_env_ok f(3) f(1) b f(2), of "''/v3/tcp''" "[]" io_EOF]
    by blast
qed

lemma example_gate:
  "\<not> lan_ip (As16 [8, 8, 8, 8])" "fst (Allow plain_bucket 0 c no_entries)"
  by code_simp (simp add: Allow_def Allow_existing_def plain_bucket_def no_entries_def entry_count_def
      ipCleanupThreshold_def ipHardCap_def)

lemmas example_defs = example_su_def example_handler_def example_request_def example_handshake_def list_cache_def
  allowed_methods_def MatchesEndpoint_def

theorem genuine_handshake_accepted_witness:
  "\<exists>out res. fst (preflight example_su (example_request out) example_handler) = Inr res \<and>
     frHandshake (hrFirst res) = example_handshake"
proof -
  obtain sk rw rw' out env' where w: "NewStreamKeys null_lib (replicate 32 0) (replicate 16 0) ''/v3/tcp'' = Inr sk"
      "BootstrapWriter null_lib sk = Inr rw"
      "WriteRecord buffer_writer init_env rw [] (EncodeFrames [example_frame]) = (Inr (), rw', out, env')"
    using example_bootstrap by blast
  have "fst (preflight example_su (example_request out) example_handler) = Inr \<lparr>hrKeys = sk,
    hrFirst = \<lparr>frHandshake = example_handshake, frLeftover = map frame_norm []\<rparr>,
    hrEndpoint = rqPath (example_request out), hrTarget = hTarget example_handshake,
    hrMethod = hMethod example_handshake, hrAddrs = [([8, 8, 8, 8], [])]\<rparr>"
    by (rule genuine_handshake_accepted [where env = init_env and salt = "replicate 16 0" and f = example_frame and rw = rw
          and rw' = rw' and out = out and env' = env' and rest = "[]" and err = io_EOF])
      (use w example_frame example_gate null_lib_ok init_env_ok in \<open>simp_all add: example_defs\<close>)
  then show ?thesis by (metis handshakeResult.select_convs(2) FirstRecord.select_convs(1))
qed


theorem preflight_hides_witness:
  "preflight example_su (example_request []\<lparr>rqMethod := ''GET''\<rparr>) example_handler = (Inl Fallback_page, example_handler)"
  using preflight_hides [where r = "example_request []\<lparr>rqMethod := ''GET''\<rparr>" and su = example_su and h = example_handler]
  by simp

end
