(* ===== verification/ServerSession.thy ===== *)
theory ServerSession
  imports Dialing Delivery Relay Gate
begin

text \<open>
  \<open>server/handler/serve.go\<close>, \<open>stream.go\<close> and \<open>tcp.go\<close>: what happens to a request that passed
  \<open>preflight\<close>. The session's reader and shaper are created, the handler of the endpoint runs, and
  the response is torn down: a reset if the stream failed, then what is left in the shaper.
\<close>

section \<open>The result of a stream\<close>

record streamResult =
  srRemote :: string
  srBytes :: int
  srTimedOut :: bool
  srDialFailed :: bool
  srErr :: "go_error option"

definition needsRST :: "streamResult \<Rightarrow> bool" where
  "needsRST r \<longleftrightarrow> srDialFailed r \<or> (case srErr r of None \<Rightarrow> False | Some e \<Rightarrow> \<not> errors_is e io_EOF)"

definition os_ErrDeadlineExceeded :: go_error where
  "os_ErrDeadlineExceeded = Sentinel ''i/o timeout''"

definition http_ErrBodyReadAfterClose :: go_error where
  "http_ErrBodyReadAfterClose = Sentinel ''http: invalid Read on closed Body''"

definition errStreamIdleTimeout :: go_error where
  "errStreamIdleTimeout = Sentinel ''tcp stream idle timeout''"

definition transientStreamPatterns :: "string list" where
  "transientStreamPatterns =
     [''stream error: stream id '', ''stream closed'', ''client disconnected'', ''client connection lost'']"

definition server_isTransientStreamError :: "go_error option \<Rightarrow> bool" where
  "server_isTransientStreamError err =
     (case err of
        None \<Rightarrow> False
      | Some e \<Rightarrow>
          list_ex (errors_is e)
            [net_ErrClosed, io_ErrClosedPipe, errClientGone, os_ErrDeadlineExceeded, http_ErrBodyReadAfterClose,
             errStreamIdleTimeout] \<or>
          list_ex (\<lambda>p. contains_text p (ToLower (error_text e))) transientStreamPatterns)"

text \<open>The counting that goes with the one log line of a stream.\<close>

definition logHandlerResult :: "streamResult \<Rightarrow> stats \<Rightarrow> stats" where
  "logHandlerResult res g =
     (if \<not> needsRST res then g
      else if server_isTransientStreamError (srErr res) then RecordServerStreamCancel g
      else g)"

section \<open>The TCP handler\<close>

text \<open>
  \<open>Handle\<close>: the relay is the list of the events its loop sees (theory \<open>Relay\<close>), \<open>bytes\<close> what the
  meter has counted at the end. The result is \<open>None\<close> while the relay has not returned.
\<close>

definition tcp_Handle ::
  "'n dialer \<Rightarrow> dial_ctx \<Rightarrow> string \<Rightarrow> (int \<times> relay_event) list \<Rightarrow> int \<Rightarrow> 'n \<Rightarrow> streamResult option \<times> 'n" where
  "tcp_Handle d ctx target evs bytes n =
     (case dialTarget d ctx target n of
        (Inl err, _, n) \<Rightarrow>
          (Some \<lparr>srRemote = [], srBytes = 0, srTimedOut = False, srDialFailed = True, srErr = Some err\<rparr>, n)
      | (Inr (conn, remote), _, n) \<Rightarrow>
          (case bidirectional 0 evs (relay_start (nwNow (dlNetwork d) n)) 0 of
             (None, _) \<Rightarrow> (None, n)
           | (Some res, _) \<Rightarrow>
               (Some \<lparr>srRemote = remote, srBytes = bytes, srTimedOut = rTimedOut res, srDialFailed = False,
                  srErr = (if rTimedOut res then Some (Wrap ''tcp stream idle timeout'' [errStreamIdleTimeout])
                           else rErr res)\<rparr>, n)))"

text \<open>
  \<open>Handle\<close> with the two directions it runs. \<open>ttSrc\<close> is what \<open>copyFromTarget\<close> reads until it ends, of itself or
  because the relay has returned and closed the connection; \<open>ttWrite\<close>, \<open>ttCloseWrite\<close> and \<open>ttDst\<close> are the target as
  \<open>copyFromClient\<close> writes to it, and \<open>ttBytes\<close> what the meter has counted. The turns are those of the relay's
  loop: a direction reports its end, bytes move, or the idle timer fires.
\<close>

record 'd tcp_target =
  ttSrc :: conn_src
  ttWrite :: "'d conn_write"
  ttCloseWrite :: "'d \<Rightarrow> 'd"
  ttDst :: 'd
  ttBytes :: int

datatype tcp_turn = Client_reports | Target_reports | Bytes_moved | Idle_fired

fun tcp_turn_event :: "go_error option \<Rightarrow> go_error option \<Rightarrow> tcp_turn \<Rightarrow> relay_event" where
  "tcp_turn_event cErr tErr Client_reports = Copied cErr"
| "tcp_turn_event cErr tErr Target_reports = Copied tErr"
| "tcp_turn_event cErr tErr Bytes_moved = Activity"
| "tcp_turn_event cErr tErr Idle_fired = IdleTimer"

definition tcp_serve ::
  "'s sender \<Rightarrow> 'n dialer \<Rightarrow> 'd tcp_target \<Rightarrow> (int \<times> tcp_turn) list \<Rightarrow> nat \<Rightarrow> Allocator \<Rightarrow> env \<Rightarrow> 'n \<Rightarrow>
     dial_ctx \<Rightarrow> DecryptedReader \<Rightarrow> string \<Rightarrow> 's \<Rightarrow> (streamResult \<times> 's) outcome" where
  "tcp_serve tx d t turns pick al env n ctx dr target s2c =
     (case fst (dialTarget d ctx target n) of
        Inl err \<Rightarrow> Done (\<lparr>srRemote = [], srBytes = 0, srTimedOut = False, srDialFailed = True, srErr = Some err\<rparr>, s2c)
      | Inr _ \<Rightarrow>
          (let cErr = fst (copyFromClient (ttWrite t) (ttCloseWrite t) \<lparr>ccReader = dr, ccEnv = env, ccDst = ttDst t\<rparr>)
           in obind (copyFromTarget tx pick al (ttSrc t) s2c) (\<lambda>(tErr, s2c, _).
                case fst (tcp_Handle d ctx target (map (\<lambda>(now, turn). (now, tcp_turn_event cErr tErr turn)) turns) (ttBytes t) n) of
                  None \<Rightarrow> Blocks
                | Some out \<Rightarrow> Done (out, s2c))))"

section \<open>The session\<close>

text \<open>\<open>netip.ParseAddrPort\<close>, without the port.\<close>

definition parse_port :: "string \<Rightarrow> bool" where
  "parse_port p \<longleftrightarrow> p \<noteq> [] \<and> list_all is_digit p \<and> foldl (\<lambda>v c. v * 10 + int (digit c)) 0 p \<le> 65535"

definition ParseAddrPort :: "string \<Rightarrow> addr option" where
  "ParseAddrPort s =
     (case LastIndexByte s (CHR '':'') of
        None \<Rightarrow> None
      | Some i \<Rightarrow>
          (let ip = take i s; port = drop (i + 1) s; v6 = (ip \<noteq> [] \<and> hd ip = CHR ''['');
               inner = (if v6 then butlast (tl ip) else ip)
           in if ip = [] \<or> \<not> parse_port port \<or> v6 \<and> (length ip < 2 \<or> last ip \<noteq> CHR '']'') then None
              else case ParseAddr_zone inner of
                     None \<Rightarrow> None
                   | Some a \<Rightarrow> (if v6 = Is4 a then None else Some a)))"

definition clientPreferredFamily :: "string \<Rightarrow> addr option" where
  "clientPreferredFamily remoteAddr = map_option Unmap (ParseAddrPort remoteAddr)"

definition udpBatchWindowMS :: int where
  "udpBatchWindowMS = 1"

definition sendRST :: "'s sender \<Rightarrow> 's \<Rightarrow> 's outcome" where
  "sendRST tx s = obind (sdFrame tx NewFrameRST s) (\<lambda>(_, s). obind (sdFlush tx s) (\<lambda>(_, s). Done s))"

text \<open>
  \<open>teardownSession\<close> within its budget. When the budget is over, the write deadline makes the pending
  write fail; the stream then behaves as one whose writes fail.
\<close>

definition teardownSession ::
  "'s sender \<Rightarrow> ('s \<Rightarrow> (unit result \<times> 's) outcome) \<Rightarrow> streamResult \<Rightarrow> 's \<Rightarrow> 's outcome" where
  "teardownSession tx close result s =
     obind (if needsRST result then sendRST tx s else Done s) (\<lambda>s. obind (close s) (\<lambda>(_, s). Done s))"

text \<open>
  The handlers of the three endpoints, on the session's reader, its shaper and the target. A session
  changes the shaper and, through its environment, the counters.
\<close>

record 's session_handlers =
  shTCP :: "dial_ctx \<Rightarrow> DecryptedReader \<Rightarrow> string \<Rightarrow> 's \<Rightarrow> (streamResult \<times> 's) outcome"
  shUDP :: "dial_ctx \<Rightarrow> DecryptedReader \<Rightarrow> string \<Rightarrow> 's \<Rightarrow> (streamResult \<times> 's) outcome"
  shICMP :: "DecryptedReader \<Rightarrow> string \<Rightarrow> 's \<Rightarrow> (streamResult \<times> 's) outcome"

definition count_stream :: "(stats \<Rightarrow> stats) \<Rightarrow> 'w batchShaper \<Rightarrow> 'w batchShaper" where
  "count_stream f bs = bs\<lparr>bsEnv := with_stats f (bsEnv bs)\<rparr>"

definition no_result :: streamResult where
  "no_result = \<lparr>srRemote = [], srBytes = 0, srTimedOut = False, srDialFailed = False, srErr = None\<rparr>"

definition run_handler ::
  "'w batchShaper session_handlers \<Rightarrow> dial_ctx \<Rightarrow> handshakeResult \<Rightarrow> DecryptedReader \<Rightarrow> 'w batchShaper \<Rightarrow>
     (streamResult \<times> 'w batchShaper) outcome" where
  "run_handler hs ctx res rx bs =
     (if hrEndpoint res = EndpointTCP then shTCP hs ctx rx (hrTarget res) (count_stream RecordServerTCPStream bs)
      else if hrEndpoint res = EndpointUDP then shUDP hs ctx rx (hrTarget res) (count_stream RecordServerUDPStream bs)
      else if hrEndpoint res = EndpointICMP then shICMP hs rx (hrTarget res) (count_stream RecordServerICMPStream bs)
      else Done (no_result, bs))"

text \<open>
  \<open>serveSession\<close>: an error status if the session's ciphers cannot be set up, else the shaper at the end.
  \<open>body\<close> is what \<open>preflight\<close> left of the request's body, \<open>out\<close> the response.
\<close>

definition serveSession ::
  "crypto_lib \<Rightarrow> rat \<Rightarrow> shaper_Config \<Rightarrow> 'w sink \<Rightarrow> 'w batchShaper sender \<Rightarrow> 'w batchShaper session_handlers \<Rightarrow>
     string \<Rightarrow> src \<Rightarrow> 'w \<Rightarrow> env \<Rightarrow> runtime \<Rightarrow> handshakeResult \<Rightarrow> (response + 'w batchShaper) outcome" where
  "serveSession lib ratio cfg snk tx hs remoteAddr body out env rt res =
     (case NewWriter lib (hrKeys res) DirS2C (hrMethod res) of
        Inl _ \<Rightarrow> Done (Inl (Status 500))
      | Inr s2cWriter \<Rightarrow>
          (case NewReader lib (hrKeys res) body DirC2S (hrMethod res) of
             Inl _ \<Rightarrow> Done (Inl (Status 500))
           | Inr c2sReader \<Rightarrow>
               (let rx = SetLeftoverFrames c2sReader (frLeftover (hrFirst res));
                    cfg = (if hrEndpoint res = EndpointUDP then cfg\<lparr>cfBatchWindowMS := udpBatchWindowMS\<rparr> else cfg);
                    ctx = withResolvedAddrs (hrAddrs res)
                      (withPreferredFamily (clientPreferredFamily remoteAddr)
                        \<lparr>dxPreferred = None, dxResolved = [], dxDeadline = None\<rparr>)
                in obind (Shaper_New ratio s2cWriter cfg out env rt) (\<lambda>bs.
                     obind (run_handler hs ctx res rx bs) (\<lambda>(r, bs).
                       obind (teardownSession tx (Shaper_Close snk) r (count_stream (logHandlerResult r) bs)) (\<lambda>bs.
                         Done (Inr bs)))))))"

section \<open>Resetting a stream\<close>

locale reset_sender = frame_sender tx sent
  for tx :: "'s sender" and sent :: "Frame list \<Rightarrow> 's \<Rightarrow> bool" +
  assumes push_rst: "sent fs s \<Longrightarrow> \<exists>s'. sdFrame tx NewFrameRST s = Done (Inr (), s') \<and> sent (fs @ [NewFrameRST]) s'"
begin

lemma rst_sent: "sent fs s \<Longrightarrow> \<exists>s'. sendRST tx s = Done s' \<and> sent (fs @ [NewFrameRST]) s'"
proof -
  assume "sent fs s"
  then obtain s1 where 1: "sdFrame tx NewFrameRST s = Done (Inr (), s1)" "sent (fs @ [NewFrameRST]) s1"
    using push_rst by blast
  then obtain r s2 where "sdFlush tx s1 = Done (r, s2)" "sent (fs @ [NewFrameRST]) s2" using flush by blast
  with 1 show ?thesis by (simp add: sendRST_def)
qed

lemma torn_down:
  assumes "sent fs s" "\<And>fs s. sent fs s \<Longrightarrow> \<exists>r s'. close s = Done (r, s') \<and> P fs s'"
  shows "\<exists>s'. teardownSession tx close res s = Done s' \<and> P (fs @ (if needsRST res then [NewFrameRST] else [])) s'"
proof (cases "needsRST res")
  case True
  obtain s1 where "sendRST tx s = Done s1" "sent (fs @ [NewFrameRST]) s1" using rst_sent [OF assms(1)] by blast
  then show ?thesis using True assms(2) by (fastforce simp: teardownSession_def)
next
  case False
  then show ?thesis using assms by (fastforce simp: teardownSession_def)
qed

end

interpretation session_tx: reset_sender shaper_sender "shaper_sent a cn aad" for a cn aad
proof unfold_locales
  fix fs bs
  assume "shaper_sent a cn aad fs bs"
  then show "\<exists>s'. sdFrame shaper_sender NewFrameRST bs = Done (Inr (), s') \<and> shaper_sent a cn aad (fs @ [NewFrameRST]) s'"
    using shaper_push_frame [of a cn aad fs bs NewFrameRST] by (simp add: shaper_sender_def NewFrameRST_def frame_norm_def)
qed

text \<open>What the client makes of data frames with something else after them.\<close>

lemma fetched_data:
  "filter is_cargo fs = map data_frame ds @ gs \<Longrightarrow>
     \<exists>b fs'. fetched rejected first fs e = map Fetched (filter (\<lambda>d. d \<noteq> []) ds) @ fetched rejected b fs' e \<and>
       filter is_cargo fs' = gs"
proof (induction fs arbitrary: ds first)
  case Nil
  then show ?case by (intro exI [of _ first] exI [of _ "[]"]) simp
next
  case (Cons f fs)
  show ?case
  proof (cases "is_cargo f")
    case False
    then show ?thesis using Cons.IH [of ds False] Cons.prems by (auto simp: is_cargo_def)
  next
    case True
    show ?thesis
    proof (cases ds)
      case Nil
      then show ?thesis using Cons.prems by (intro exI [of _ first] exI [of _ "f # fs"]) simp
    next
      case (Cons d ds')
      then have "f = data_frame d" "filter is_cargo fs = map data_frame ds' @ gs" using True Cons.prems by simp_all
      then show ?thesis using Cons.IH [of ds' False] Cons by auto
    qed
  qed
qed

lemma fetched_nothing: "filter is_cargo fs = [] \<Longrightarrow> fetched rejected first fs io_EOF = []"
proof (induction fs arbitrary: first)
  case Nil
  have "classifyFirstReadError rejected io_EOF = io_EOF" by (simp add: classifyFirstReadError_def io_EOF_def contains_text_def upt_rec)
  then show ?case by simp
next
  case (Cons f fs)
  then show ?case by (auto simp: is_cargo_def split: if_splits)
qed

lemma fetched_reset: "filter is_cargo fs = [NewFrameRST] \<Longrightarrow> fetched rejected first fs e = [Fetched_rst]"
  by (induction fs arbitrary: first) (auto simp: is_cargo_def NewFrameRST_def split: if_splits)

lemma write_local_data:
  "\<exists>g'. write_local take_all (map Fetched ds @ items) dst g = write_local take_all items (dst @ concat ds) g'"
proof (induction ds arbitrary: dst g)
  case (Cons d ds)
  then show ?case using Cons [of "dst @ d" "RecordRawBytesRecv (int (length d)) g"] by (simp add: take_all_def)
qed auto

lemma shaper_sent_counted [simp]: "shaper_sent a cn aad fs (count_stream f bs) \<longleftrightarrow> shaper_sent a cn aad fs bs"
  by (simp add: shaper_sent_def count_stream_def carries_def bs_ok_def env_ok_def with_stats_def plain_len_def plain_cap_def)

section \<open>The TCP handler ends\<close>

text \<open>
  A relay whose directions report at most once each returns when the idle timer fires or both have reported,
  and a stream whose target did not end it is then one that has failed.
\<close>

lemma reports_turns:
  "reports (map (\<lambda>(now, turn). (now, tcp_turn_event cErr tErr turn)) turns) =
     map (\<lambda>x. if snd x = Client_reports then cErr else tErr) (filter (\<lambda>x. snd x \<in> {Client_reports, Target_reports}) turns)"
proof (induction turns)
  case (Cons x turns)
  then show ?case by (cases x; cases "snd x") auto
qed simp

lemma idle_turns:
  "(now, IdleTimer) \<in> set (map (\<lambda>(now, turn). (now, tcp_turn_event cErr tErr turn)) turns) \<longleftrightarrow> (now, Idle_fired) \<in> set turns"
proof (induction turns)
  case (Cons x turns)
  then show ?case by (cases x; cases "snd x") auto
qed simp

definition relay_over :: "(int \<times> tcp_turn) list \<Rightarrow> bool" where
  "relay_over turns \<longleftrightarrow> length (filter (\<lambda>x. snd x = Client_reports) turns) \<le> 1 \<and> length (filter (\<lambda>x. snd x = Target_reports) turns) \<le> 1 \<and>
     (list_ex (\<lambda>x. snd x = Idle_fired) turns \<or> {Client_reports, Target_reports} \<subseteq> set (map snd turns))"

lemma two_kinds:
  "length (filter (\<lambda>x. snd x \<in> {Client_reports, Target_reports}) turns) =
     length (filter (\<lambda>x. snd x = Client_reports) turns) + length (filter (\<lambda>x. snd x = Target_reports) turns)"
  by (induction turns) auto

lemma kind_present: "k \<in> set (map snd turns) \<longleftrightarrow> 0 < length (filter (\<lambda>x. snd x = k) turns)"
  by (induction turns) auto

lemma relay_over_returns:
  assumes "relay_over turns" "tErr = (if eof then None else Some e)" "\<not> eof \<Longrightarrow> real_error (Some e)"
    and "evs = map (\<lambda>(now, turn). (now, tcp_turn_event cErr tErr turn)) turns"
  shows "\<exists>res closes rest. bidirectional 0 evs (relay_start now) 0 = (Some res, closes, rest) \<and>
    (\<not> eof \<longrightarrow> rTimedOut res \<or> real_error (rErr res))"
proof -
  obtain res closes rest where b: "bidirectional 0 evs (relay_start now) 0 = (res, closes, rest)" using prod_cases3 by blast
  have st: "fresh_state (relay_start now)" by (simp add: fresh_state_def relay_start_def)
  have r: "length (reports evs) = length (filter (\<lambda>x. snd x = Client_reports) turns) + length (filter (\<lambda>x. snd x = Target_reports) turns)"
    unfolding assms(4) reports_turns by (simp add: two_kinds del: insert_iff)
  have "(\<exists>t. (t, IdleTimer) \<in> set evs) \<or> 2 \<le> length (reports evs)"
  proof (cases "list_ex (\<lambda>x. snd x = Idle_fired) turns")
    case True
    then obtain t where "(t, Idle_fired) \<in> set turns" by (auto simp: list_ex_iff)
    then show ?thesis using idle_turns [of t cErr tErr turns] assms(4) by blast
  next
    case False
    then have "Client_reports \<in> set (map snd turns)" "Target_reports \<in> set (map snd turns)" using assms(1) by (simp_all add: relay_over_def)
    then show ?thesis using r unfolding kind_present by linarith
  qed
  then obtain rs where rs: "res = Some rs" using relay_ends [of 0 evs "relay_start now" 0 closes rest, OF _ st] b
    by (cases res) (auto simp: relay_start_def)
  have "rTimedOut rs \<or> real_error (rErr rs)" if "\<not> eof"
  proof (rule ccontr)
    assume n: "\<not> (rTimedOut rs \<or> real_error (rErr rs))"
    obtain used where u: "evs = used @ rest" using relay_split b rs by blast
    have o: "rErr rs = first_error (reports used)" "rErr rs = None \<longrightarrow> length (reports used) = 2"
      using relay_outcome [OF st, of 0 used rest 0 rs closes] b rs u n by (auto simp: relay_start_def)
    have fe: "filter real_error (reports used) = []"
    proof (cases "filter real_error (reports used)")
      case (Cons x xs)
      then have "real_error x" by (metis filter_eq_ConsD)
      then show ?thesis using n o(1) Cons by (simp add: first_error_def)
    qed simp
    then have "length (reports used) = 2" using o by (simp add: first_error_def)
    moreover have "length (reports evs) = length (reports used) + length (reports rest)" using u by simp
    moreover have "length (reports evs) \<le> 2" unfolding r using assms(1) by (simp add: relay_over_def)
    ultimately have "reports rest = []" by simp
    then have "reports evs = reports used" using u by simp
    then have l: "length (reports evs) = 2" "filter real_error (reports evs) = []"
      using \<open>length (reports used) = 2\<close> fe by simp_all
    then have "0 < length (filter (\<lambda>x. snd x = Target_reports) turns)" using r assms(1) by (auto simp: relay_over_def)
    then obtain x where "x \<in> set turns" "snd x = Target_reports" by (auto simp: filter_empty_conv)
    then have "tErr \<in> set (reports evs)" unfolding assms(4) reports_turns by force
    then show False using l(2) assms(2,3) that by (auto simp: filter_empty_conv)
  qed
  then show ?thesis using b rs by blast
qed

lemma tcp_serve_ends:
  assumes "shaper_sent a cn aad [] bs" "alloc_inv al" "relay_over turns"
  shows "\<exists>r ds bs'. tcp_serve shaper_sender d t turns pick al env n ctx dr target bs = Done (r, bs') \<and>
    concat ds = (if isl (fst (dialTarget d ctx target n)) then [] else csData (ttSrc t)) \<and>
    shaper_sent a cn aad (map data_frame ds @ (if isl (fst (dialTarget d ctx target n)) \<or> \<not> errors_is (csErr (ttSrc t)) io_EOF then []
      else [NewFrameFIN])) bs' \<and>
    (isl (fst (dialTarget d ctx target n)) \<or> \<not> errors_is (csErr (ttSrc t)) io_EOF \<longrightarrow> needsRST r)"
proof (cases "fst (dialTarget d ctx target n)")
  case (Inl err)
  then obtain tries n' where dt: "dialTarget d ctx target n = (Inl err, tries, n')" by (metis prod.collapse)
  let ?r = "\<lparr>srRemote = [], srBytes = 0, srTimedOut = False, srDialFailed = True, srErr = Some err\<rparr>"
  have "tcp_serve shaper_sender d t turns pick al env n ctx dr target bs = Done (?r, bs)" using dt by (simp add: tcp_serve_def)
  moreover have "needsRST ?r" by (simp add: needsRST_def)
  ultimately show ?thesis using assms(1) dt by (intro exI [of _ ?r] exI [of _ "[]"] exI [of _ bs]) simp
next
  case (Inr conn)
  let ?eof = "errors_is (csErr (ttSrc t)) io_EOF"
  let ?tErr = "if ?eof then None else Some (csErr (ttSrc t))"
  let ?c = "fst (copyFromClient (ttWrite t) (ttCloseWrite t) \<lparr>ccReader = dr, ccEnv = env, ccDst = ttDst t\<rparr>)"
  let ?evs = "map (\<lambda>(now, turn). (now, tcp_turn_event ?c ?tErr turn)) turns"
  obtain ds bs' al' where c: "copyFromTarget shaper_sender pick al (ttSrc t) bs = Done (?tErr, bs', al')" "concat ds = csData (ttSrc t)"
      "shaper_sent a cn aad ([] @ map data_frame ds @ (if ?eof then [NewFrameFIN] else [])) bs'"
    using tunnel.target_ended [OF assms(1,2)] by blast
  obtain remote tries n' where dt: "dialTarget d ctx target n = (Inr (fst conn, remote), tries, n')"
    using Inr by (metis prod.collapse prod_cases3 fst_conv)
  obtain res closes rest where b: "bidirectional 0 ?evs (relay_start (nwNow (dlNetwork d) n')) 0 = (Some res, closes, rest)"
      "\<not> ?eof \<longrightarrow> rTimedOut res \<or> real_error (rErr res)"
    using relay_over_returns [OF assms(3), where eof = ?eof and e = "csErr (ttSrc t)" and cErr = ?c and tErr = ?tErr and now = "nwNow (dlNetwork d) n'" and evs = ?evs]
    by (auto simp: real_error_def)
  define r where "r = \<lparr>srRemote = remote, srBytes = ttBytes t, srTimedOut = rTimedOut res, srDialFailed = False,
    srErr = (if rTimedOut res then Some (Wrap ''tcp stream idle timeout'' [errStreamIdleTimeout]) else rErr res)\<rparr>"
  have "fst (tcp_Handle d ctx target ?evs (ttBytes t) n) = Some r" using dt b(1) by (simp add: tcp_Handle_def r_def)
  then have "tcp_serve shaper_sender d t turns pick al env n ctx dr target bs = Done (r, bs')"
    using Inr c(1) by (simp add: tcp_serve_def Let_def)
  moreover have "?eof \<or> needsRST r"
    using b(2) by (auto simp: needsRST_def r_def real_error_def errStreamIdleTimeout_def io_EOF_def split: option.splits)
  ultimately show ?thesis using c(2,3) Inr by auto
qed

section \<open>Properties\<close>

lemma fetched_end:
  "filter is_cargo fs = f # gs \<Longrightarrow> fType f = FrameFIN \<or> fType f = FrameRST \<Longrightarrow>
     fetched rejected first fs e = [if fType f = FrameFIN then Fetched_fin else Fetched_rst]"
  by (induction fs arbitrary: first) (auto simp: is_cargo_def split: if_splits)


text \<open>
  A target that sends two bytes and then breaks the connection; the failure is reported while the client's
  direction still waits.
\<close>

definition answering_net :: "int network" where
  "answering_net = \<lparr>nwNow = (\<lambda>n. n), nwGone = (\<lambda>_. False),
     nwAttempt = (\<lambda>d a n. (Inr (Some ''8.8.8.8:443''), n + 1))\<rparr>"

definition broken_target :: "bytes tcp_target" where
  "broken_target = \<lparr>ttSrc = demo_conn\<lparr>csData := [7, 8], csErr := Msg ''connection reset by peer''\<rparr>, ttWrite = take_all,
     ttCloseWrite = (\<lambda>d. d), ttDst = [], ttBytes = 2\<rparr>"

definition broken_session :: "bytes batchShaper session_handlers" where
  "broken_session = \<lparr>shTCP = tcp_serve shaper_sender (demo_dialer\<lparr>dlNetwork := answering_net\<rparr>) broken_target
        [(1, Bytes_moved), (2, Target_reports), (30, Idle_fired)] 0 (NewAllocatorWithLimit 64) init_env 0,
      shUDP = (\<lambda>ctx rx target bs. Blocks), shICMP = (\<lambda>rx target bs. Blocks)\<rparr>"

definition broken_request :: "StreamKeys \<Rightarrow> handshakeResult" where
  "broken_request sk = \<lparr>hrKeys = sk, hrFirst = \<lparr>frHandshake = example_handshake, frLeftover = []\<rparr>, hrEndpoint = ''/v3/tcp'',
        hrTarget = ''8.8.8.8:443'', hrMethod = MethodAES256GCM, hrAddrs = [([8, 8, 8, 8], [])]\<rparr>"

lemma broken_dials:
  "\<not> isl (fst (dialTarget (demo_dialer\<lparr>dlNetwork := answering_net\<rparr>) (withResolvedAddrs [([8, 8, 8, 8], [])]
     (withPreferredFamily (clientPreferredFamily ''9.9.9.9:1'') \<lparr>dxPreferred = None, dxResolved = [], dxDeadline = None\<rparr>)) ''8.8.8.8:443'' 0))"
  by code_simp


end
