(* ===== verification/Bootstrap.thy ===== *)
theory Bootstrap
  imports ServerSession
begin

text \<open>
  \<open>client/proxy/stream.go\<close>: opening a stream. The handshake and the first frames go out as one
  record; when the connection turns out to be dead, the stream is opened again on another one, up to
  three times. Each attempt has its own surroundings: the salt it draws, what the transport answers,
  and what has become of the caller's context by then.
\<close>

section \<open>Requests\<close>

record streamRequest =
  sqEndpoint :: string
  sqProto :: Proto
  sqTarget :: string
  sqMethod :: Method
  sqFrames :: "Frame list"
  sqBatchWindowMS :: int

definition newStreamRequest :: "Proto \<Rightarrow> string \<Rightarrow> Method \<Rightarrow> streamRequest" where
  "newStreamRequest proto target method =
     \<lparr>sqEndpoint = (if proto = ProtoTCP then EndpointTCP else if proto = ProtoUDP then EndpointUDP
        else if proto = ProtoICMP then EndpointICMP else []),
      sqProto = proto, sqTarget = target, sqMethod = method, sqFrames = [], sqBatchWindowMS = 0\<rparr>"

definition tcpStreamRequest :: "string \<Rightarrow> Method \<Rightarrow> streamRequest" where
  "tcpStreamRequest = newStreamRequest ProtoTCP"

definition udpStreamRequest :: "string \<Rightarrow> Method \<Rightarrow> streamRequest" where
  "udpStreamRequest = newStreamRequest ProtoUDP"

definition icmpStreamRequest :: "string \<Rightarrow> Method \<Rightarrow> streamRequest" where
  "icmpStreamRequest = newStreamRequest ProtoICMP"

definition withFrames :: "Frame list \<Rightarrow> streamRequest \<Rightarrow> streamRequest" where
  "withFrames frames r = r\<lparr>sqFrames := frames\<rparr>"

definition withBatchWindow :: "int \<Rightarrow> streamRequest \<Rightarrow> streamRequest" where
  "withBatchWindow ms r = r\<lparr>sqBatchWindowMS := ms\<rparr>"

definition isInteractivePort :: "string \<Rightarrow> bool" where
  "isInteractivePort target =
     (case SplitHostPort target of
        None \<Rightarrow> False
      | Some (_, port) \<Rightarrow> port \<in> {''22'', ''80'', ''443'', ''8080'', ''8443''})"

section \<open>The bootstrap record\<close>

definition encodedLen :: "Frame list \<Rightarrow> nat" where
  "encodedLen frames = sum_list (map EncodedLen frames)"

definition bootstrapMaxPayload :: "string \<Rightarrow> int" where
  "bootstrapMaxPayload target = int MaxWriteRecordPlaintext - int (length target) - 9"

definition request_handshake :: "streamRequest \<Rightarrow> Handshake" where
  "request_handshake req = \<lparr>hVersion = Version3, hProto = sqProto req, hMethod = sqMethod req, hTarget = sqTarget req\<rparr>"

definition buildBootstrapPlaintext :: "streamRequest \<Rightarrow> runtime \<Rightarrow> env \<Rightarrow> bytes result \<times> runtime \<times> env" where
  "buildBootstrapPlaintext req rt env =
     (case NewFrameHANDSHAKE (request_handshake req) of
        Inl e \<Rightarrow> (Inl e, rt, env)
      | Inr hsFrame \<Rightarrow>
          (let frames = hsFrame # sqFrames req
           in if encodedLen frames > MaxWriteRecordPlaintext
              then (Inl (Msg ''bootstrap record plaintext exceeds max''), rt, env)
              else (case buildPaddingFrame (int (encodedLen frames)) (int MaxWriteRecordPlaintext) rt env of
                      (None, rt, env) \<Rightarrow> (Inr (EncodeFrames frames), rt, env)
                    | (Some padFrame, rt, env) \<Rightarrow> (Inr (EncodeFrames (frames @ [padFrame])), rt, env))))"

section \<open>Attempts\<close>

definition bootstrapMaxAttempts :: nat where
  "bootstrapMaxAttempts = 3"

definition context_DeadlineExceeded :: go_error where
  "context_DeadlineExceeded = Sentinel ''context deadline exceeded''"

text \<open>
  What one attempt meets: the salt, the answer of \<open>Open\<close>, the stream, the answer of \<open>AwaitResponse\<close>
  (\<open>None\<close> when the stream cannot be waited for), the answer of \<open>ConnAlive\<close> (alive and known), whether
  the stream supports \<open>InvalidateConn\<close>, and the error of the caller's context after the write, after
  the wait and when the attempt is given up.
\<close>

record 'w surrounds =
  baSalt :: "bytes result"
  baOpen :: "go_error option"
  baStream :: 'w
  baAwait :: "go_error option option"
  baAlive :: "(bool \<times> bool) option"
  baInvalidates :: bool
  baCtxWrite :: "go_error option"
  baCtxWait :: "go_error option"
  baCtxEnd :: "go_error option"

datatype boot_event =
    Opened nat bytes
  | Marked nat
  | Closed nat
  | Invalidated nat
  | Settled nat
  | IdleClosed

record 'w bootstrapSession =
  bnIndex :: nat
  bnStream :: 'w
  bnKeys :: StreamKeys
  bnSalt :: bytes

definition awaitBootstrapResponse :: "'w surrounds \<Rightarrow> go_error option" where
  "awaitBootstrapResponse ba =
     (case baAwait ba of
        None \<Rightarrow> None
      | Some None \<Rightarrow> None
      | Some (Some err) \<Rightarrow>
          (case baCtxWait ba of
             Some ce \<Rightarrow> Some ce
           | None \<Rightarrow>
               (if \<not> errors_is err context_DeadlineExceeded then Some err
                else case baAlive ba of
                       Some (alive, known) \<Rightarrow> (if known \<and> alive then None else Some err)
                     | None \<Rightarrow> Some err)))"

text \<open>
  The loop from attempt \<open>k\<close> on, with \<open>left\<close> attempts after it. \<open>settleDeadStream\<close> does nothing to a
  stream that cannot be waited for.
\<close>

definition settle :: "nat \<Rightarrow> 'w surrounds \<Rightarrow> boot_event list" where
  "settle k ba = (if baAwait ba = None then [] else [Settled k])"

fun boot_loop ::
  "crypto_lib \<Rightarrow> 'w sink \<Rightarrow> bytes \<Rightarrow> (nat \<Rightarrow> 'w surrounds) \<Rightarrow> streamRequest \<Rightarrow> bytes \<Rightarrow> nat \<Rightarrow> nat \<Rightarrow> env \<Rightarrow>
     'w bootstrapSession result \<times> boot_event list \<times> env" where
  "boot_loop lib snk masterKey sur req plaintext k left env =
     (let ba = sur k
      in case baSalt ba of
           Inl e \<Rightarrow> (Inl (Wrap ''generate salt'' [e]), [], env)
         | Inr salt \<Rightarrow>
             (case baOpen ba of
                Some e \<Rightarrow> (Inl (Wrap ''transport open'' [e]), [], env)
              | None \<Rightarrow>
                  (case NewStreamKeys lib masterKey salt (sqEndpoint req) of
                     Inl e \<Rightarrow> (Inl (Wrap ''stream keys'' [e]), [Opened k salt, Closed k], env)
                   | Inr sk \<Rightarrow>
                       (case BootstrapWriter lib sk of
                          Inl e \<Rightarrow> (Inl (Wrap ''bootstrap writer'' [e]), [Opened k salt, Closed k], env)
                        | Inr rw \<Rightarrow>
                            (case WriteRecord (snkWrite snk) env rw (baStream ba) plaintext of
                               (Inl e, _, _, env) \<Rightarrow>
                                 (case left of
                                    0 \<Rightarrow> (Inl (Wrap ''write handshake'' [e]), [Opened k salt, Closed k], env)
                                  | Suc left \<Rightarrow>
                                      (if errors_is e io_ErrClosedPipe \<and> baCtxWrite ba = None
                                       then (case boot_loop lib snk masterKey sur req plaintext (Suc k) left env of
                                               (r, evs, env) \<Rightarrow>
                                                 (r, [Opened k salt, Closed k] @ settle k ba @ [IdleClosed] @ evs, env))
                                       else (Inl (Wrap ''write handshake'' [e]), [Opened k salt, Closed k], env)))
                             | (Inr _, _, out, env) \<Rightarrow>
                                 (let out = snkFlush snk out
                                  in case awaitBootstrapResponse ba of
                                       None \<Rightarrow>
                                         (Inr \<lparr>bnIndex = k, bnStream = out, bnKeys = sk, bnSalt = salt\<rparr>,
                                          [Opened k salt, Marked k], env)
                                     | Some err \<Rightarrow>
                                         (case baCtxEnd ba of
                                            Some ce \<Rightarrow> (Inl ce, [Opened k salt, Marked k, Closed k], env)
                                          | None \<Rightarrow>
                                              (let evs = [Opened k salt, Marked k] @
                                                     (if baInvalidates ba then [Invalidated k] else []) @ [Closed k]
                                               in case left of
                                                    0 \<Rightarrow> (Inl err, evs, env)
                                                  | Suc left \<Rightarrow>
                                                      (case boot_loop lib snk masterKey sur req plaintext (Suc k) left env of
                                                         (r, later, env) \<Rightarrow>
                                                           (r, evs @ (if baInvalidates ba then [] else settle k ba @ [IdleClosed]) @
                                                              later, env))))))))))"

declare boot_loop.simps [simp del]

definition openAndBootstrap ::
  "crypto_lib \<Rightarrow> 'w sink \<Rightarrow> bytes \<Rightarrow> (nat \<Rightarrow> 'w surrounds) \<Rightarrow> streamRequest \<Rightarrow> runtime \<Rightarrow> env \<Rightarrow>
     'w bootstrapSession result \<times> boot_event list \<times> runtime \<times> env" where
  "openAndBootstrap lib snk masterKey sur req rt env =
     (case buildBootstrapPlaintext req rt env of
        (Inl e, rt, env) \<Rightarrow> (Inl e, [], rt, env)
      | (Inr plaintext, rt, env) \<Rightarrow>
          (case boot_loop lib snk masterKey sur req plaintext 1 (bootstrapMaxAttempts - 1) env of
             (r, evs, env) \<Rightarrow> (r, evs, rt, env)))"

section \<open>Sessions\<close>

record 'w session =
  snTx :: "'w batchShaper"
  snRx :: DecryptedReader

text \<open>
  \<open>newSession\<close> on the answer of \<open>openAndBootstrap\<close>; \<open>down\<close> is the response body. The flag says that
  the stream is closed because the session could not be set up.
\<close>

definition newSession ::
  "crypto_lib \<Rightarrow> rat \<Rightarrow> shaper_Config \<Rightarrow> 'w sink \<Rightarrow> streamRequest \<Rightarrow> src \<Rightarrow> 'w bootstrapSession \<Rightarrow> env \<Rightarrow> runtime \<Rightarrow>
     ('w session result \<times> bool) outcome" where
  "newSession lib ratio cfg snk req down bn env rt =
     (case NewWriter lib (bnKeys bn) DirC2S (sqMethod req) of
        Inl e \<Rightarrow> Done (Inl (Wrap ''c2s session writer'' [e]), True)
      | Inr txWriter \<Rightarrow>
          (let cfg = (if sqBatchWindowMS req > 0 then cfg\<lparr>cfBatchWindowMS := sqBatchWindowMS req\<rparr> else cfg)
           in obind (Shaper_New ratio txWriter cfg (bnStream bn) env rt) (\<lambda>tx.
                case NewReader lib (bnKeys bn) down DirS2C (sqMethod req) of
                  Inl e \<Rightarrow> obind (Shaper_Close snk tx) (\<lambda>_. Done (Inl (Wrap ''s2c session reader'' [e]), True))
                | Inr rx \<Rightarrow> Done (Inr \<lparr>snTx = tx, snRx = rx\<rparr>, False))))"

text \<open>
  \<open>openStream\<close>, up to the session: what has arrived within eight milliseconds (\<open>early\<close>) is read into
  a pooled buffer and merged into the bootstrap record.
\<close>

definition merge_first ::
  "bool \<Rightarrow> conn_src \<Rightarrow> streamRequest \<Rightarrow> env \<Rightarrow> (streamRequest \<times> conn_src \<times> env) outcome" where
  "merge_first early local req env =
     (case bytespool_Get env (int MinRecordBufferSize) of
        (None, _) \<Rightarrow> Panics ''slice bounds out of range''
      | (Some (buf, n), env) \<Rightarrow>
          (case (if early then conn_read n local else ([], None, local)) of (d, _, local) \<Rightarrow>
             (case (if d = [] then Inr req else case NewFrameDATA d of Inl e \<Rightarrow> Inl e | Inr f \<Rightarrow> Inr (withFrames [f] req)) of
                Inl e \<Rightarrow> Panics ''payload too large''
              | Inr req \<Rightarrow>
                  (case bytespool_MustPut env buf of
                     (Inl _, _) \<Rightarrow> Panics ''allocator Put() incorrect buffer size''
                   | (Inr _, env) \<Rightarrow> Done (req, local, env)))))"

section \<open>The end of a relay\<close>

definition ErrStreamIdleTimeout :: go_error where
  "ErrStreamIdleTimeout = Sentinel ''stream idle timeout''"

definition relay_end :: "Result \<Rightarrow> stats \<Rightarrow> go_error option \<times> stats" where
  "relay_end result g =
     (if rDrained result then (Some (Wrap ''drained (slot due for eviction)'' [ErrStreamIdleTimeout]), RecordStreamDrained g)
      else if rTimedOut result then (Some (Wrap ''timeout'' [ErrStreamIdleTimeout]), g)
      else case rErr result of
             None \<Rightarrow> (None, g)
           | Some e \<Rightarrow>
               (if \<not> errors_is e errLocalConnClosed \<and> \<not> errors_is e io_ErrClosedPipe then (Some e, g) else (None, g)))"

definition client_isTransientStreamError ::
  "(go_error \<Rightarrow> bool) \<Rightarrow> go_error \<Rightarrow> go_error option \<Rightarrow> bool" where
  "client_isTransientStreamError rejected ErrConnRetired err =
     (case err of
        None \<Rightarrow> False
      | Some e \<Rightarrow>
          errors_is e ErrStreamIdleTimeout \<or> errors_is e ErrStreamReset \<or> errors_is e ErrServerRejectedHandshake \<or>
          rejected e \<or> errors_is e ErrConnRetired \<or>
          list_ex (\<lambda>p. contains_text p (ToLower (error_text e)))
            [''client connection lost'', ''force closed via clientconn.close'', ''http2: stream closed'',
             ''connection reset by peer'', ''broken pipe'', ''connection was aborted''])"

end
