(* ===== verification/Opening.thy ===== *)
theory Opening
  imports Bootstrap
begin

text \<open>
  What opening a stream promises: streams that are given up are closed and connections are declared
  dead only on evidence, a dead connection is survived, and what the client sends first is what the
  server accepts.
\<close>

section \<open>Discipline of the attempts\<close>

lemmas boot_splits = sum.splits option.splits prod.splits if_splits nat.splits

definition opened_streams :: "boot_event list \<Rightarrow> nat set" where
  "opened_streams evs = {j. \<exists>s. Opened j s \<in> set evs}"

definition closed_streams :: "boot_event list \<Rightarrow> nat set" where
  "closed_streams evs = {j. Closed j \<in> set evs}"

lemma opened_simps [simp]:
  "opened_streams [] = {}" "opened_streams (Opened j s # evs) = insert j (opened_streams evs)" "opened_streams (xs @ ys) = opened_streams xs \<union> opened_streams ys"
  "opened_streams (Marked j # evs) = opened_streams evs" "opened_streams (Closed j # evs) = opened_streams evs"
  "opened_streams (Invalidated j # evs) = opened_streams evs" "opened_streams (IdleClosed # evs) = opened_streams evs" "opened_streams (settle j ba) = {}"
  by (auto simp: opened_streams_def settle_def)

lemma closed_simps [simp]:
  "closed_streams [] = {}" "closed_streams (Closed j # evs) = insert j (closed_streams evs)" "closed_streams (xs @ ys) = closed_streams xs \<union> closed_streams ys"
  "closed_streams (Opened j s # evs) = closed_streams evs" "closed_streams (Marked j # evs) = closed_streams evs"
  "closed_streams (Invalidated j # evs) = closed_streams evs" "closed_streams (IdleClosed # evs) = closed_streams evs" "closed_streams (settle j ba) = {}"
  by (auto simp: closed_streams_def settle_def)

text \<open>Writing the bootstrap record keeps the pool sound, whatever stream it goes to.\<close>

definition pool_kept :: "crypto_lib \<Rightarrow> bytes \<Rightarrow> bytes \<Rightarrow> env \<Rightarrow> env \<Rightarrow> bool" where
  "pool_kept lib mk p env env2 \<longleftrightarrow> (lib_ok lib \<and> length mk = 32 \<and> length p \<le> 65517 \<and> env_ok env \<longrightarrow> env_ok env2)"

lemma bootstrap_write_pool:
  assumes "NewStreamKeys lib mk salt ep = Inr sk" "BootstrapWriter lib sk = Inr rw"
    "WriteRecord wr env rw w p = (x, rw', w', env')"
  shows "pool_kept lib mk p env env'"
  unfolding pool_kept_def
proof
  assume a: "lib_ok lib \<and> length mk = 32 \<and> length p \<le> 65517 \<and> env_ok env"
  have "length salt = 16" using assms(1) by (auto simp: NewStreamKeys_def split: if_splits)
  then have "keys_ok sk" using NewStreamKeys_ok [of lib mk salt ep] a assms(1) by auto
  moreover have "rw = NewRecordWriter (stBootstrapEncryptor sk) (NewCounterNonce (stBootstrapNoncePrefix sk))
      (stream_aad sk DirC2S bootstrapPhase MethodAES256GCM)"
    using assms(2) by (simp add: BootstrapWriter_def newRecordWriter_def newEncryptor_def)
  ultimately have "aead_ok (rwEnc rw)" "nonce_ok (rwCounter rw)" "rwMaxPlain rw = 65517"
    by (simp_all add: NewRecordWriter_def keys_ok_def nonce_ok_def NewCounterNonce_def)
  then obtain env1 where e: "env_ok env1" "WriteRecord wr env rw w p =
      (let b = record_bytes (rwEnc rw) (rwCounter rw) (rwAad rw) p;
           rw' = rw\<lparr>rwCounter := snd (Next (rwCounter rw))\<rparr>
       in case writeFully wr w b of
            (Inl e, w') \<Rightarrow> (Inl (Wrap ''crypto: write record'' [e]), rw', w', env1)
          | (Inr _, w') \<Rightarrow> (Inr (), rw', w', with_stats (RecordRecordWritten \<circ>
               RecordBytesSent (int (length p + 19))) env1))"
    using WriteRecord_eq [of rw env p wr w] a by auto
  obtain y w2 where "writeFully wr w (record_bytes (rwEnc rw) (rwCounter rw) (rwAad rw) p) = (y, w2)" by fastforce
  then show "env_ok env'" using e assms(3) by (cases y) (auto simp: env_ok_def with_stats_def)
qed

text \<open>How one attempt and the loop after it combine.\<close>

inductive attempt_run ::
  "crypto_lib \<Rightarrow> 'w sink \<Rightarrow> bytes \<Rightarrow> (nat \<Rightarrow> 'w surrounds) \<Rightarrow> streamRequest \<Rightarrow> bytes \<Rightarrow> nat \<Rightarrow> nat \<Rightarrow> env \<Rightarrow>
     'w bootstrapSession result \<Rightarrow> boot_event list \<Rightarrow> bool"
  for lib snk mk sur req p where
  no_stream: "(\<exists>e. baSalt (sur k) = Inl e) \<or> baOpen (sur k) \<noteq> None \<Longrightarrow>
     attempt_run lib snk mk sur req p k left env (Inl e) []"
| failed: "baSalt (sur k) = Inr salt \<Longrightarrow> attempt_run lib snk mk sur req p k left env (Inl e) [Opened k salt, Closed k]"
| cancelled: "baSalt (sur k) = Inr salt \<Longrightarrow> baCtxEnd (sur k) = Some ce \<Longrightarrow>
     attempt_run lib snk mk sur req p k left env (Inl ce) [Opened k salt, Marked k, Closed k]"
| success: "baSalt (sur k) = Inr salt \<Longrightarrow> NewStreamKeys lib mk salt (sqEndpoint req) = Inr sk \<Longrightarrow>
     BootstrapWriter lib sk = Inr rw \<Longrightarrow> WriteRecord (snkWrite snk) env rw (baStream (sur k)) p = (Inr (), rw', out, env') \<Longrightarrow>
     awaitBootstrapResponse (sur k) = None \<Longrightarrow>
     attempt_run lib snk mk sur req p k left env
       (Inr \<lparr>bnIndex = k, bnStream = snkFlush snk out, bnKeys = sk, bnSalt = salt\<rparr>) [Opened k salt, Marked k]"
| rewrite: "baSalt (sur k) = Inr salt \<Longrightarrow> baCtxWrite (sur k) = None \<Longrightarrow> pool_kept lib mk p env env2 \<Longrightarrow>
     attempt_run lib snk mk sur req p (Suc k) left env2 r evs \<Longrightarrow>
     attempt_run lib snk mk sur req p k (Suc left) env r ([Opened k salt, Closed k] @ settle k (sur k) @ [IdleClosed] @ evs)"
| given_up: "baSalt (sur k) = Inr salt \<Longrightarrow> awaitBootstrapResponse (sur k) = Some err \<Longrightarrow> baCtxEnd (sur k) = None \<Longrightarrow>
     attempt_run lib snk mk sur req p k 0 env (Inl err)
       ([Opened k salt, Marked k] @ (if baInvalidates (sur k) then [Invalidated k] else []) @ [Closed k])"
| dead: "baSalt (sur k) = Inr salt \<Longrightarrow> awaitBootstrapResponse (sur k) = Some err \<Longrightarrow> baCtxEnd (sur k) = None \<Longrightarrow>
     pool_kept lib mk p env env2 \<Longrightarrow>
     attempt_run lib snk mk sur req p (Suc k) left env2 r evs \<Longrightarrow>
     attempt_run lib snk mk sur req p k (Suc left) env r
       (([Opened k salt, Marked k] @ (if baInvalidates (sur k) then [Invalidated k] else []) @ [Closed k]) @
        (if baInvalidates (sur k) then [] else settle k (sur k) @ [IdleClosed]) @ evs)"

lemma given_up_on:
  assumes "baSalt (sur k) = Inr salt" "awaitBootstrapResponse (sur k) = Some err" "baCtxEnd (sur k) = None"
  shows "baInvalidates (sur k) \<Longrightarrow> attempt_run lib snk mk sur req p k 0 env (Inl err) [Opened k salt, Marked k, Invalidated k, Closed k]"
    "\<not> baInvalidates (sur k) \<Longrightarrow> attempt_run lib snk mk sur req p k 0 env (Inl err) [Opened k salt, Marked k, Closed k]"
  using given_up [where sur = sur and k = k, OF assms, of lib snk mk req p env] by simp_all

lemma dead_on:
  assumes "baSalt (sur k) = Inr salt" "awaitBootstrapResponse (sur k) = Some err" "baCtxEnd (sur k) = None"
    and "pool_kept lib mk p env env2" "attempt_run lib snk mk sur req p (Suc k) left env2 r evs"
  shows "baInvalidates (sur k) \<Longrightarrow>
      attempt_run lib snk mk sur req p k (Suc left) env r (Opened k salt # Marked k # Invalidated k # Closed k # evs)"
    "\<not> baInvalidates (sur k) \<Longrightarrow>
      attempt_run lib snk mk sur req p k (Suc left) env r (Opened k salt # Marked k # Closed k # settle k (sur k) @ IdleClosed # evs)"
  using dead [where sur = sur and k = k, OF assms] by simp_all

lemma rewrite_on:
  assumes "baSalt (sur k) = Inr salt" "baCtxWrite (sur k) = None" "pool_kept lib mk p env env2" "attempt_run lib snk mk sur req p (Suc k) left env2 r evs"
  shows "attempt_run lib snk mk sur req p k (Suc left) env r (Opened k salt # Closed k # settle k (sur k) @ IdleClosed # evs)"
  using rewrite [where sur = sur and k = k, OF assms] by simp

lemma boot_loop_run:
  "boot_loop lib snk mk sur req p k left env = (r, evs, env') \<Longrightarrow> attempt_run lib snk mk sur req p k left env r evs"
proof (induction left arbitrary: k env r evs env')
  case 0
  then show ?case
    by (subst (asm) boot_loop.simps)
      (auto simp: Let_def intro: no_stream failed cancelled success given_up_on split: boot_splits)
next
  case (Suc left)
  from Suc.prems show ?case
    by (subst (asm) boot_loop.simps)
      (auto simp: Let_def intro: no_stream failed cancelled success rewrite_on dead_on Suc.IH bootstrap_write_pool split: boot_splits)
qed

lemma run_streams:
  "attempt_run lib snk mk sur req p k left env r evs \<Longrightarrow>
     opened_streams evs \<subseteq> {k..k + left} \<and>
     opened_streams evs = closed_streams evs \<union> (case r of Inl _ \<Rightarrow> {} | Inr bn \<Rightarrow> {bnIndex bn}) \<and>
     (\<forall>bn. r = Inr bn \<longrightarrow> bnIndex bn \<notin> closed_streams evs \<and> k \<le> bnIndex bn)"
  by (induction rule: attempt_run.induct) (auto split: sum.splits)

lemma run_salts:
  "attempt_run lib snk mk sur req p k left env r evs \<Longrightarrow> Opened j s \<in> set evs \<Longrightarrow> baSalt (sur j) = Inr s"
  by (induction rule: attempt_run.induct) (auto simp: settle_def split: if_splits)

lemma run_invalidates:
  "attempt_run lib snk mk sur req p k left env r evs \<Longrightarrow> Invalidated j \<in> set evs \<Longrightarrow>
     awaitBootstrapResponse (sur j) \<noteq> None \<and> baCtxEnd (sur j) = None"
  by (induction rule: attempt_run.induct) (auto simp: settle_def split: if_splits)

lemma run_session:
  "attempt_run lib snk mk sur req p k left env r evs \<Longrightarrow> r = Inr bn \<Longrightarrow>
     NewStreamKeys lib mk (bnSalt bn) (sqEndpoint req) = Inr (bnKeys bn) \<and> baSalt (sur (bnIndex bn)) = Inr (bnSalt bn) \<and>
     (\<exists>rw env2 rw' out env'. BootstrapWriter lib (bnKeys bn) = Inr rw \<and> pool_kept lib mk p env env2 \<and>
        WriteRecord (snkWrite snk) env2 rw (baStream (sur (bnIndex bn))) p = (Inr (), rw', out, env') \<and>
        bnStream bn = snkFlush snk out)"
  by (induction rule: attempt_run.induct) (auto simp: pool_kept_def, blast+)

text \<open>
  C18. Opening a stream leaves nothing behind: at most three streams are opened, each with the salt drawn
  for it; all of them are closed again but the one that is returned, and that one carries exactly the
  bootstrap record under the keys of its salt; a connection is declared dead only for an attempt whose
  response did not come and whose caller is still there.
\<close>

theorem bootstrap_disciplined:
  assumes "openAndBootstrap lib snk mk sur req rt env = (r, evs, rt', env')"
  shows "opened_streams evs \<subseteq> {1..bootstrapMaxAttempts} \<and>
    opened_streams evs = closed_streams evs \<union> (case r of Inl _ \<Rightarrow> {} | Inr bn \<Rightarrow> {bnIndex bn}) \<and>
    (\<forall>j s. Opened j s \<in> set evs \<longrightarrow> baSalt (sur j) = Inr s) \<and>
    (\<forall>j. Invalidated j \<in> set evs \<longrightarrow> awaitBootstrapResponse (sur j) \<noteq> None \<and> baCtxEnd (sur j) = None) \<and>
    (\<forall>bn. r = Inr bn \<longrightarrow> bnIndex bn \<notin> closed_streams evs \<and>
       NewStreamKeys lib mk (bnSalt bn) (sqEndpoint req) = Inr (bnKeys bn) \<and>
       (\<exists>p rt1 env1 rw env2 rw' out env3. buildBootstrapPlaintext req rt env = (Inr p, rt1, env1) \<and>
          BootstrapWriter lib (bnKeys bn) = Inr rw \<and>
          WriteRecord (snkWrite snk) env2 rw (baStream (sur (bnIndex bn))) p = (Inr (), rw', out, env3) \<and>
          bnStream bn = snkFlush snk out))"
proof -
  obtain x rt1 env1 where b: "buildBootstrapPlaintext req rt env = (x, rt1, env1)" using prod_cases3 by blast
  show ?thesis
  proof (cases x)
    case (Inl e)
    then show ?thesis using assms b by (auto simp: openAndBootstrap_def)
  next
    case (Inr p)
    then obtain env2 where "boot_loop lib snk mk sur req p 1 (bootstrapMaxAttempts - 1) env1 = (r, evs, env2)"
      using assms b by (auto simp: openAndBootstrap_def split: prod.splits)
    then have run: "attempt_run lib snk mk sur req p 1 (bootstrapMaxAttempts - 1) env1 r evs" by (rule boot_loop_run)
    show ?thesis
      using run_streams [OF run] run_salts [OF run] run_invalidates [OF run] run_session [OF run] b Inr
      by (auto simp: bootstrapMaxAttempts_def) blast
  qed
qed

section \<open>The bootstrap record\<close>

definition frame_wf :: "Frame \<Rightarrow> bool" where
  "frame_wf f \<longleftrightarrow> frame_fits f \<and> frame_norm f = f"

lemma encodedLen_wf: "\<forall>f \<in> set fs. frame_wf f \<Longrightarrow> encodedLen fs = length (EncodeFrames fs)"
proof (induction fs)
  case (Cons f fs)
  have f: "frame_fits f" "fLength f = word_of_nat (length (fPayload f))"
    using Cons.prems unfolding frame_wf_def frame_norm_def by (simp, metis Frame.select_convs(2) Frame.surjective Frame.update_convs(2) list.set_intros(1))
  then have "EncodedLen f = length (AppendFrame [] f)" using unat_payload_len [OF f(1)] by (simp add: EncodedLen_def)
  then show ?case using Cons by (simp add: encodedLen_def)
qed (simp add: encodedLen_def)

lemma handshake_frame:
  assumes "NewFrameHANDSHAKE h = Inr f"
  shows "frame_wf f" "length (AppendFrame [] f) = 6 + length (hTarget h)"
  using assms
  by (auto simp: NewFrameHANDSHAKE_def NewFrame_def NewFrameWithPayload_def checkPayloadLen_def frame_wf_def
      frame_fits_def frame_norm_def AppendFrame_def Handshake_Encode_def split: if_splits)

lemma plaintext_frames:
  assumes "buildBootstrapPlaintext req rt env = (Inr p, rt', env')" "\<forall>f \<in> set (sqFrames req). frame_wf f" "env_ok env"
  shows "\<exists>f pad. NewFrameHANDSHAKE (request_handshake req) = Inr f \<and> p = EncodeFrames (f # sqFrames req @ pad) \<and>
    (\<forall>g \<in> set pad. fType g = FramePADDING \<and> frame_fits g) \<and> length p \<le> 65517 \<and> env_ok env'"
proof -
  obtain f where f: "NewFrameHANDSHAKE (request_handshake req) = Inr f"
    using assms(1) by (auto simp: buildBootstrapPlaintext_def split: sum.splits)
  let ?fs = "f # sqFrames req"
  have len: "encodedLen ?fs = length (EncodeFrames ?fs)" using handshake_frame(1) [OF f] assms(2) by (intro encodedLen_wf) auto
  have fit: "encodedLen ?fs \<le> 65517"
    using assms(1) f by (auto simp: buildBootstrapPlaintext_def Let_def MaxWriteRecordPlaintext_def split: if_splits)
  obtain pad rt1 env1 where pd: "buildPaddingFrame (int (encodedLen ?fs)) (int MaxWriteRecordPlaintext) rt env = (pad, rt1, env1)"
    using prod_cases3 by blast
  have "0 < encodedLen ?fs" by (simp add: encodedLen_def EncodedLen_def)
  then have pos: "0 < int (encodedLen ?fs)" by simp
  show ?thesis
  proof (cases pad)
    case None
    then have "p = EncodeFrames (f # sqFrames req @ [])" "env' = env1"
      using assms(1) f pd fit by (auto simp: buildBootstrapPlaintext_def Let_def MaxWriteRecordPlaintext_def)
    then show ?thesis
      using f fit len buildPaddingFrame_env [OF pd assms(3)] by (intro exI [of _ f] exI [of _ "[]"]) simp
  next
    case (Some g)
    then have p: "p = EncodeFrames (f # sqFrames req @ [g])" "env' = env1"
      using assms(1) f pd fit by (auto simp: buildBootstrapPlaintext_def Let_def MaxWriteRecordPlaintext_def)
    note g = buildPaddingFrame_Some [OF pd [unfolded Some] pos]
    have "length p \<le> 65517"
      using g p(1) len by (simp add: MaxWriteRecordPlaintext_def AppendFrame_def)
    then show ?thesis
      using f g p buildPaddingFrame_env [OF pd assms(3)]
      by (intro exI [of _ f] exI [of _ "[g]"]) (simp add: frame_fits_def)
  qed
qed

lemma plaintext_fits:
  assumes "length (sqTarget req) + 6 + encodedLen (sqFrames req) \<le> 65517"
  shows "\<exists>p rt' env'. buildBootstrapPlaintext req rt env = (Inr p, rt', env')"
proof -
  have "length (Handshake_Encode (request_handshake req)) \<le> 65535"
    using assms by (simp add: Handshake_Encode_def request_handshake_def)
  then obtain f where f: "NewFrameHANDSHAKE (request_handshake req) = Inr f"
    by (auto simp: NewFrameHANDSHAKE_def NewFrame_def NewFrameWithPayload_def checkPayloadLen_def)
  have "EncodedLen f = 6 + length (sqTarget req)"
    using handshake_frame [OF f] encodedLen_wf [of "[f]"] by (simp add: encodedLen_def request_handshake_def)
  then have "encodedLen (f # sqFrames req) \<le> MaxWriteRecordPlaintext"
    using assms by (simp add: encodedLen_def MaxWriteRecordPlaintext_def)
  then show ?thesis using f by (auto simp: buildBootstrapPlaintext_def Let_def split: prod.splits option.splits)
qed

section \<open>Surviving dead connections\<close>

lemma bootstrap_write:
  assumes "lib_ok lib" "length mk = 32" "length salt = 16" "env_ok env" "length p \<le> 65517"
  obtains sk rw rw' out env' where "NewStreamKeys lib mk salt ep = Inr sk" "BootstrapWriter lib sk = Inr rw"
    "WriteRecord buffer_writer env rw [] p = (Inr (), rw', out, env')" "env_ok env'"
proof -
  obtain sk where sk: "NewStreamKeys lib mk salt ep = Inr sk" "keys_ok sk" using NewStreamKeys_ok [OF assms(1-3)] by blast
  let ?rw = "NewRecordWriter (stBootstrapEncryptor sk) (NewCounterNonce (stBootstrapNoncePrefix sk))
    (stream_aad sk DirC2S bootstrapPhase MethodAES256GCM)"
  have "BootstrapWriter lib sk = Inr ?rw" by (simp add: BootstrapWriter_def newRecordWriter_def newEncryptor_def)
  moreover obtain rw' env' where "env_ok env'" "WriteRecord buffer_writer env ?rw [] p = (Inr (), rw',
      [] @ record_bytes (rwEnc ?rw) (rwCounter ?rw) (rwAad ?rw) p, env')"
    using write_one_record [of ?rw env p "[]"] sk(2) assms(4,5)
    by (auto simp: NewRecordWriter_def keys_ok_def nonce_ok_def NewCounterNonce_def)
  ultimately show thesis using that sk(1) by blast
qed

text \<open>An attempt that gets as far as waiting for the response, and one that waits in vain.\<close>

definition attempt_sound :: "bytes surrounds \<Rightarrow> bool" where
  "attempt_sound ba \<longleftrightarrow> (\<exists>salt. baSalt ba = Inr salt \<and> length salt = 16) \<and> baOpen ba = None \<and> baStream ba = []"

definition attempt_dead :: "bytes surrounds \<Rightarrow> bool" where
  "attempt_dead ba \<longleftrightarrow> attempt_sound ba \<and> awaitBootstrapResponse ba \<noteq> None \<and> baCtxEnd ba = None"

lemma boot_loop_step:
  assumes "lib_ok lib" "length mk = 32" "env_ok env" "length p \<le> 65517" "attempt_sound (sur k)"
  shows "awaitBootstrapResponse (sur k) = None \<Longrightarrow>
      \<exists>bn evs env'. boot_loop lib buffer_sink mk sur req p k left env = (Inr bn, evs, env') \<and> bnIndex bn = k"
    "attempt_dead (sur k) \<Longrightarrow> \<exists>env1. env_ok env1 \<and>
      (\<forall>bn evs env'. boot_loop lib buffer_sink mk sur req p (Suc k) left env1 = (Inr bn, evs, env') \<longrightarrow>
        (\<exists>evs'. boot_loop lib buffer_sink mk sur req p k (Suc left) env = (Inr bn, evs', env')))"
proof -
  obtain salt where s: "baSalt (sur k) = Inr salt" "length salt = 16" "baOpen (sur k) = None" "baStream (sur k) = []"
    using assms(5) by (auto simp: attempt_sound_def)
  obtain sk rw rw' out env1 where w: "NewStreamKeys lib mk salt (sqEndpoint req) = Inr sk" "BootstrapWriter lib sk = Inr rw"
    "WriteRecord buffer_writer env rw [] p = (Inr (), rw', out, env1)" "env_ok env1"
    by (rule bootstrap_write [OF assms(1,2) s(2) assms(3,4)])
  show "\<exists>bn evs env'. boot_loop lib buffer_sink mk sur req p k left env = (Inr bn, evs, env') \<and> bnIndex bn = k"
    if "awaitBootstrapResponse (sur k) = None"
    using that s w by (subst boot_loop.simps) (simp add: Let_def buffer_sink_def)
  show "\<exists>env1. env_ok env1 \<and>
      (\<forall>bn evs env'. boot_loop lib buffer_sink mk sur req p (Suc k) left env1 = (Inr bn, evs, env') \<longrightarrow>
        (\<exists>evs'. boot_loop lib buffer_sink mk sur req p k (Suc left) env = (Inr bn, evs', env')))"
    if "attempt_dead (sur k)"
  proof (intro exI [of _ env1] conjI allI impI w(4))
    fix bn evs env'
    assume "boot_loop lib buffer_sink mk sur req p (Suc k) left env1 = (Inr bn, evs, env')"
    then show "\<exists>evs'. boot_loop lib buffer_sink mk sur req p k (Suc left) env = (Inr bn, evs', env')"
      using that s w by (subst boot_loop.simps) (auto simp: Let_def buffer_sink_def attempt_dead_def)
  qed
qed

lemma boot_loop_survives:
  assumes "lib_ok lib" "length mk = 32" "length p \<le> 65517" "attempt_sound (sur m)" "awaitBootstrapResponse (sur m) = None"
  shows "env_ok env \<Longrightarrow> k \<le> m \<Longrightarrow> m \<le> k + left \<Longrightarrow> \<forall>j \<in> {k..<m}. attempt_dead (sur j) \<Longrightarrow>
    \<exists>bn evs env'. boot_loop lib buffer_sink mk sur req p k left env = (Inr bn, evs, env') \<and> bnIndex bn = m"
proof (induction "m - k" arbitrary: k left env)
  case 0
  then have "k = m" by simp
  then show ?case using boot_loop_step(1) [OF assms(1,2) 0(2) assms(3)] assms(4,5) by blast
next
  case (Suc d)
  then obtain left' where l: "left = Suc left'" "m \<le> Suc k + left'" by (cases left) auto
  have dead: "attempt_dead (sur k)" using Suc.prems Suc.hyps(2) by auto
  then obtain env1 where e: "env_ok env1" "\<forall>bn evs env'. boot_loop lib buffer_sink mk sur req p (Suc k) left' env1 = (Inr bn, evs, env') \<longrightarrow>
        (\<exists>evs'. boot_loop lib buffer_sink mk sur req p k (Suc left') env = (Inr bn, evs', env'))"
    using boot_loop_step(2) [where sur = sur and k = k and left = left' and req = req, OF assms(1,2) Suc.prems(1) assms(3) _ dead] dead
    by (auto simp: attempt_dead_def)
  have "\<exists>bn evs env'. boot_loop lib buffer_sink mk sur req p (Suc k) left' env1 = (Inr bn, evs, env') \<and> bnIndex bn = m"
    using Suc.hyps(2) Suc.prems(4) l(2) e(1) by (intro Suc.hyps(1)) auto
  then show ?case using e(2) l(1) by blast
qed

lemma opening_survives:
  assumes "lib_ok lib" "length mk = 32" "env_ok env" "\<forall>f \<in> set (sqFrames req). frame_wf f"
    and "length (sqTarget req) + 6 + encodedLen (sqFrames req) \<le> 65517"
    and "1 \<le> m" "m \<le> bootstrapMaxAttempts" "\<forall>j \<in> {1..<m}. attempt_dead (sur j)"
    and "attempt_sound (sur m)" "awaitBootstrapResponse (sur m) = None"
  shows "\<exists>bn evs rt' env'. openAndBootstrap lib buffer_sink mk sur req rt env = (Inr bn, evs, rt', env') \<and> bnIndex bn = m"
proof -
  obtain p rt1 env1 where p: "buildBootstrapPlaintext req rt env = (Inr p, rt1, env1)" using plaintext_fits [OF assms(5)] by blast
  have l: "length p \<le> 65517" "env_ok env1" using plaintext_frames [OF p assms(4,3)] by auto
  obtain bn evs env2 where "boot_loop lib buffer_sink mk sur req p 1 (bootstrapMaxAttempts - 1) env1 = (Inr bn, evs, env2)"
      "bnIndex bn = m"
    using boot_loop_survives [where sur = sur and m = m, OF assms(1,2) l(1) assms(9,10) l(2) assms(6), of "bootstrapMaxAttempts - 1" req] assms(7,8)
    by (auto simp: bootstrapMaxAttempts_def)
  then show ?thesis using p by (simp add: openAndBootstrap_def)
qed

text \<open>
  C17. Dead connections are survived: when the connections of the first one or two attempts turn out to be
  dead while the caller waits, and the next attempt is answered, then that stream is returned.
\<close>

theorem dead_connections_survived:
  assumes "lib_ok lib" "length mk = 32" "env_ok env" "\<forall>f \<in> set (sqFrames req). frame_wf f"
    and "length (sqTarget req) + 6 + encodedLen (sqFrames req) \<le> 65517"
    and "1 \<le> m" "m \<le> bootstrapMaxAttempts" "\<forall>j \<in> {1..<m}. attempt_dead (sur j)"
    and "attempt_sound (sur m)" "awaitBootstrapResponse (sur m) = None"
  shows "\<exists>bn evs rt' env'. openAndBootstrap lib buffer_sink mk sur req rt env = (Inr bn, evs, rt', env') \<and> bnIndex bn = m"
  by (rule opening_survives [OF assms])

section \<open>From the client to the server\<close>

lemma frame_wf_norm: "\<forall>f \<in> set fs. frame_wf f \<Longrightarrow> map frame_norm fs = fs"
  by (induction fs) (auto simp: frame_wf_def)

lemma opened_stream_accepted:
  assumes "lib_ok lib" "length mk = 32" "env_ok env" "req = newStreamRequest proto target method\<lparr>sqFrames := fs, sqBatchWindowMS := window\<rparr>"
      "proto \<in> {ProtoTCP, ProtoUDP, ProtoICMP}" "\<forall>f \<in> set fs. frame_wf f"
    and "openAndBootstrap lib buffer_sink mk sur req rt env = (Inr bn, evs, rt', env')"
      "attempt_sound (sur (bnIndex bn))"
    and "suCrypto su = lib" "phMasterKey h = mk" "env_ok (phEnv h)" "suWait su = ResultReady"
    and "rqProtoMajor r = 2" "rqMethod r = ''POST''" "rqSaltHeader r = EncodeToString (bnSalt bn)" "rqPath r = sqEndpoint req"
      "rqBody r = \<lparr>sData = bnStream bn @ rest, sErr = err\<rparr>"
    and "fst (Allow (suLimiter su) (suNow su) (clientIP (rqRemoteAddr r)) (phIpLimiter h))"
      "\<not> fcGet (suFreecache su) (phSaltCache h) (suNow su) (rqPath r @ rqSaltHeader r)"
      "method \<in> phAllowedMethods h" "suResolve su target = Inr addrs" "\<forall>a \<in> set addrs. \<not> lan_ip (As16 (fst a))"
  shows "\<exists>res pad. fst (preflight su r h) = Inr res \<and> hrKeys res = bnKeys bn \<and> hrTarget res = target \<and>
    hrMethod res = method \<and> hrEndpoint res = sqEndpoint req \<and> hrAddrs res = addrs \<and>
    frLeftover (hrFirst res) = fs @ pad \<and> (\<forall>g \<in> set pad. fType g = FramePADDING)"
proof -
  obtain p rt1 env1 where p: "buildBootstrapPlaintext req rt env = (Inr p, rt1, env1)"
      and l: "\<exists>env2. boot_loop lib buffer_sink mk sur req p 1 (bootstrapMaxAttempts - 1) env1 = (Inr bn, evs, env2)"
    using assms(7) by (auto simp: openAndBootstrap_def split: prod.splits sum.splits)
  obtain f pad where f: "NewFrameHANDSHAKE (request_handshake req) = Inr f" "p = EncodeFrames (f # fs @ pad)"
      "\<forall>g \<in> set pad. fType g = FramePADDING \<and> frame_fits g" "length p \<le> 65517" "env_ok env1"
    using plaintext_frames [OF p _ assms(3)] assms(4,6) by auto
  obtain env2 where "boot_loop lib buffer_sink mk sur req p 1 (bootstrapMaxAttempts - 1) env1 = (Inr bn, evs, env2)" using l by blast
  note run = run_session [OF boot_loop_run [OF this] refl]
  obtain rw env3 rw' env4 where w: "env_ok env3" "NewStreamKeys lib mk (bnSalt bn) (sqEndpoint req) = Inr (bnKeys bn)"
      "BootstrapWriter lib (bnKeys bn) = Inr rw" "WriteRecord buffer_writer env3 rw [] p = (Inr (), rw', bnStream bn, env4)"
      "length (bnSalt bn) = 16"
    using run assms(1,2,8) f(4,5) by (auto simp: buffer_sink_def attempt_sound_def pool_kept_def)
  have acc: "fst (preflight su r h) = Inr \<lparr>hrKeys = bnKeys bn,
    hrFirst = \<lparr>frHandshake = request_handshake req, frLeftover = map frame_norm (fs @ pad)\<rparr>, hrEndpoint = rqPath r,
    hrTarget = hTarget (request_handshake req), hrMethod = hMethod (request_handshake req), hrAddrs = addrs\<rparr>"
    using w f assms
    by (intro handshake_accepted [where env = env3 and salt = "bnSalt bn" and f = f and rw = rw and rw' = rw' and env' = env4
          and out = "bnStream bn" and rest = rest and err = err])
      (auto simp: request_handshake_def MatchesEndpoint_def newStreamRequest_def frame_wf_def)
  then show ?thesis
    using assms(4,6,16) f(3) frame_wf_norm [OF assms(6)]
    by (intro exI [of _ "\<lparr>hrKeys = bnKeys bn,
    hrFirst = \<lparr>frHandshake = request_handshake req, frLeftover = map frame_norm (fs @ pad)\<rparr>, hrEndpoint = rqPath r,
    hrTarget = hTarget (request_handshake req), hrMethod = hMethod (request_handshake req), hrAddrs = addrs\<rparr>"]
      exI [of _ "map frame_norm pad"]) (auto simp: request_handshake_def newStreamRequest_def frame_norm_def)
qed

lemma bootstrap_session_keys:
  assumes "openAndBootstrap lib snk mk sur req rt env = (Inr bn, evs, rt', env')"
  shows "NewStreamKeys lib mk (bnSalt bn) (sqEndpoint req) = Inr (bnKeys bn) \<and> baSalt (sur (bnIndex bn)) = Inr (bnSalt bn)"
proof -
  obtain p k left env1 env2 where "boot_loop lib snk mk sur req p k left env1 = (Inr bn, evs, env2)"
    using assms by (auto simp: openAndBootstrap_def split: prod.splits sum.splits)
  then show ?thesis using run_session [OF boot_loop_run] by blast
qed

lemma merge_first_facts:
  assumes "env_ok env" "merge_first early local req env = Done (req', local1, env1)"
  shows "\<exists>d. csData local = d @ csData local1 \<and> csErr local1 = csErr local \<and> env_ok env1 \<and>
    req' = (if d = [] then req else withFrames [data_frame d] req) \<and> length d \<le> 4096"
proof -
  obtain buf env2 where b: "bytespool_Get env (int 4096) = (Some (buf, 4096), env2)" "\<exists>k < 18. length buf = 2 ^ k" "env_ok env2"
    using bytespool_Get_served [OF assms(1), of 4096] by auto
  obtain d e src where c: "(if early then conn_read 4096 local else ([], None, local)) = (d, e, src)" using prod_cases3 by blast
  have f: "csData local = d @ csData src" "length d \<le> 4096" "csErr src = csErr local"
  proof -
    have "csData local = d @ csData src \<and> length d \<le> 4096 \<and> csErr src = csErr local"
    proof (cases early)
      case True
      then have "conn_read 4096 local = (d, e, src)" using c by simp
      from conn_read_facts(1,2,6) [OF this] show ?thesis by blast
    next
      case False
      then have "d = []" "src = local" using c by simp_all
      then show ?thesis by simp
    qed
    then show "csData local = d @ csData src" "length d \<le> 4096" "csErr src = csErr local" by blast+
  qed
  have "NewFrameDATA d = Inr (data_frame d)"
    using f(2) by (simp add: NewFrameDATA_def NewFrame_def NewFrameWithPayload_def checkPayloadLen_def data_frame_def frame_norm_def)
  then have m: "req' = (if d = [] then req else withFrames [data_frame d] req) \<and> local1 = src \<and> (\<exists>x. bytespool_MustPut env2 buf = (x, env1))"
    using assms(2) b(1) c by (auto simp: merge_first_def split: if_splits sum.splits prod.splits)
  then have "env_ok env1" using bytespool_MustPut_class [OF b(3)] b(2) by fastforce
  then show ?thesis using f m by blast
qed

text \<open>
  C1. A whole upload: the first bytes travel in the bootstrap record, the others in the session's
  records. When the client has opened the stream and copied its local connection to the end, a server
  with the same master key that lets the request pass hands all of it to the target, in order, the
  first bytes first, and then closes that side.
\<close>

theorem session_upload_arrives:
  assumes "lib_ok lib" "length mk = 32" "env_ok env" "env_ok envc" "env_ok envs" "alloc_inv al" "csErr local = io_EOF"
    and "method = MethodAES256GCM \<or> method = MethodChaCha20Poly1305"
    and "merge_first early local (tcpStreamRequest target method) env = Done (req, local1, env1)"
    and "openAndBootstrap lib buffer_sink mk sur req rt env1 = (Inr bn, evs, rt', env2)" "attempt_sound (sur (bnIndex bn))"
    and "suCrypto su = lib" "phMasterKey h = mk" "env_ok (phEnv h)" "suWait su = ResultReady"
    and "rqProtoMajor r = 2" "rqMethod r = ''POST''" "rqSaltHeader r = EncodeToString (bnSalt bn)" "rqPath r = EndpointTCP"
    and "fst (Allow (suLimiter su) (suNow su) (clientIP (rqRemoteAddr r)) (phIpLimiter h))"
      "\<not> fcGet (suFreecache su) (phSaltCache h) (suNow su) (rqPath r @ rqSaltHeader r)"
      "method \<in> phAllowedMethods h" "suResolve su target = Inr addrs" "\<forall>a \<in> set addrs. \<not> lan_ip (As16 (fst a))"
  shows "\<exists>rw bs bs1 g1 al1 bs2 res rx c. NewWriter lib (bnKeys bn) DirC2S method = Inr rw \<and>
    Shaper_New ratio rw cfg [] envc rt' = Done bs \<and>
    copyLocalToRemote shaper_sender pick al local1 (bs, g) = Done (None, (bs1, g1), al1) \<and>
    Shaper_Close buffer_sink bs1 = Done (Inr (), bs2) \<and>
    fst (preflight su (r\<lparr>rqBody := \<lparr>sData = bnStream bn @ bsOut bs2, sErr = io_EOF\<rparr>\<rparr>) h) = Inr res \<and>
    NewReader lib (hrKeys res) \<lparr>sData = bsOut bs2, sErr = io_EOF\<rparr> DirC2S (hrMethod res) = Inr rx \<and>
    copyFromClient take_all closeWrite
      \<lparr>ccReader = SetLeftoverFrames rx (frLeftover (hrFirst res)), ccEnv = envs, ccDst = []\<rparr> = (None, c) \<and>
    ccDst c = closeWrite (csData local)"
proof -
  obtain d err where d: "csData local = d @ csData local1" "csErr local1 = csErr local" "env_ok env1"
      "req = (if d = [] then tcpStreamRequest target method else withFrames [data_frame d] (tcpStreamRequest target method))"
      "length d \<le> 4096"
    using merge_first_facts [OF assms(3,9)] by blast
  define fs where "fs = (if d = [] then [] else [data_frame d])"
  have wf: "\<forall>f \<in> set fs. frame_wf f"
    using d(5) by (auto simp: fs_def frame_wf_def frame_fits_def data_frame_def frame_norm_def)
  have req: "req = newStreamRequest ProtoTCP target method\<lparr>sqFrames := fs, sqBatchWindowMS := 0\<rparr>"
    using d(4) by (simp add: fs_def withFrames_def tcpStreamRequest_def newStreamRequest_def)
  have ep: "sqEndpoint req = EndpointTCP" by (simp add: req newStreamRequest_def)
  obtain sk where sk: "NewStreamKeys lib mk (bnSalt bn) (sqEndpoint req) = Inr (bnKeys bn)" "length (bnSalt bn) = 16"
    using bootstrap_session_keys [OF assms(10)] assms(11) by (auto simp: attempt_sound_def)
  have keys: "keys_ok (bnKeys bn)" using NewStreamKeys_ok [OF assms(1,2) sk(2), of "sqEndpoint req"] sk(1) by auto
  obtain a cn aad rw bs where ch: "NewWriter lib (bnKeys bn) DirC2S method = Inr rw" "Shaper_New ratio rw cfg [] envc rt' = Done bs"
      "shaper_sent a cn aad [] bs"
      "\<And>fs bs1. shaper_sent a cn aad fs bs1 \<Longrightarrow>
       \<exists>bs2 rx n gs. Shaper_Close buffer_sink bs1 = Done (Inr (), bs2) \<and>
         NewReader lib (bnKeys bn) \<lparr>sData = bsOut bs2, sErr = io_EOF\<rparr> DirC2S method = Inr rx \<and>
         read_frames n envs rx = (gs, Some io_EOF) \<and> filter is_cargo gs = filter is_cargo fs"
    by (rule session_channel [OF assms(1) keys disjI1 [OF refl] assms(8,4,5)]) (rule that)
  obtain ds bs1 g1 al1 where t: "copyLocalToRemote shaper_sender pick al local1 (bs, g) = Done (None, (bs1, g1), al1)"
      "concat ds = csData local1" "shaper_sent a cn aad ([] @ map data_frame ds @ [NewFrameFIN]) bs1"
    using tunnel.local_sent [OF ch(3) assms(6), of local1 pick g] d(2) assms(7) by auto
  obtain bs2 rx n gs where r: "Shaper_Close buffer_sink bs1 = Done (Inr (), bs2)"
      "NewReader lib (bnKeys bn) \<lparr>sData = bsOut bs2, sErr = io_EOF\<rparr> DirC2S method = Inr rx"
      "read_frames n envs rx = (gs, Some io_EOF)" "filter is_cargo gs = map data_frame ds @ [NewFrameFIN]"
    using ch(4) [OF t(3)] by (auto simp: is_cargo_def NewFrameFIN_def o_def)
  obtain res pad where p: "fst (preflight su (r\<lparr>rqBody := \<lparr>sData = bnStream bn @ bsOut bs2, sErr = io_EOF\<rparr>\<rparr>) h) = Inr res"
      "hrKeys res = bnKeys bn" "hrMethod res = method" "frLeftover (hrFirst res) = fs @ pad" "\<forall>g \<in> set pad. fType g = FramePADDING"
    using opened_stream_accepted [OF assms(1,2) d(3) req _ wf assms(10,11-15),
        of "r\<lparr>rqBody := \<lparr>sData = bnStream bn @ bsOut bs2, sErr = io_EOF\<rparr>\<rparr>" "bsOut bs2" io_EOF addrs] assms(16-24) ep
    by auto
  have "drFrames rx = []" using r(2) by (auto simp: NewReader_def NewDecryptedReader_def split: sum.splits prod.splits)
  then have "rx\<lparr>drFrames := []\<rparr> = rx" by simp
  then have "read_frames (length (fs @ pad) + n) envs (SetLeftoverFrames rx (fs @ pad)) = ((fs @ pad) @ gs, Some io_EOF)"
    using read_frames_leftover [of "SetLeftoverFrames rx (fs @ pad)" "fs @ pad" n envs] r(3)
    by (simp add: SetLeftoverFrames_def)
  moreover have "filter is_cargo ((fs @ pad) @ gs) = map data_frame (if d = [] then ds else d # ds) @ [NewFrameFIN]"
  proof -
    have "filter is_cargo pad = []" using p(5) by (auto simp: is_cargo_def filter_empty_conv)
    then show ?thesis using r(4) by (simp add: fs_def is_cargo_def)
  qed
  ultimately obtain c where "copyFromClient take_all closeWrite
      \<lparr>ccReader = SetLeftoverFrames rx (frLeftover (hrFirst res)), ccEnv = envs, ccDst = []\<rparr> = (None, c)"
      "ccDst c = closeWrite (csData local)"
    using copyFromClient_frames [of _ "\<lparr>ccReader = SetLeftoverFrames rx (fs @ pad), ccEnv = envs, ccDst = []\<rparr>" "(fs @ pad) @ gs"
        io_EOF "if d = [] then ds else d # ds" closeWrite] t(2) d(1) p(4) by fastforce
  then show ?thesis using ch(1,2) t(1) r(1,2) p(1-3) by metis
qed

section \<open>Concrete instances\<close>

text \<open>The first connection is dead, the second answers.\<close>

definition demo_sur :: "nat \<Rightarrow> bytes surrounds" where
  "demo_sur k = \<lparr>baSalt = Inr (replicate 16 (of_nat k)), baOpen = None, baStream = [],
     baAwait = Some (if k = 1 then Some context_DeadlineExceeded else None), baAlive = Some (False, True),
     baInvalidates = True, baCtxWrite = None, baCtxWait = None, baCtxEnd = None\<rparr>"

lemma demo_sur_facts:
  "attempt_sound (demo_sur k)" "awaitBootstrapResponse (demo_sur 2) = None" "\<forall>j \<in> {1..<2}. attempt_dead (demo_sur j)"
proof -
  show "attempt_sound (demo_sur k)" by (simp add: demo_sur_def attempt_sound_def)
  show "awaitBootstrapResponse (demo_sur 2) = None" by (simp add: demo_sur_def awaitBootstrapResponse_def)
  have "attempt_dead (demo_sur 1)" by (simp add: demo_sur_def awaitBootstrapResponse_def attempt_dead_def attempt_sound_def)
  then show "\<forall>j \<in> {1..<2}. attempt_dead (demo_sur j)" by (auto simp: le_less_Suc_eq numeral_2_eq_2)
qed

lemma demo_opens:
  assumes "\<forall>f \<in> set (sqFrames req). frame_wf f" "length (sqTarget req) + 6 + encodedLen (sqFrames req) \<le> 65517" "env_ok env"
  shows "\<exists>bn evs rt' env'. openAndBootstrap null_lib buffer_sink (replicate 32 0) demo_sur req rt env = (Inr bn, evs, rt', env') \<and>
    bnIndex bn = 2"
  by (rule opening_survives [OF null_lib_ok]) (use assms demo_sur_facts in \<open>simp_all add: bootstrapMaxAttempts_def\<close>)

definition demo_request :: streamRequest where
  "demo_request = tcpStreamRequest ''a:80'' MethodAES256GCM"

lemma demo_request_fits:
  "\<forall>f \<in> set (sqFrames demo_request). frame_wf f" "length (sqTarget demo_request) + 6 + encodedLen (sqFrames demo_request) \<le> 65517"
  by (simp_all add: demo_request_def tcpStreamRequest_def newStreamRequest_def encodedLen_def)

theorem bootstrap_disciplined_witness:
  "\<exists>bn evs rt' env'. openAndBootstrap null_lib buffer_sink (replicate 32 0) demo_sur demo_request still_runtime init_env =
     (Inr bn, evs, rt', env') \<and> opened_streams evs = closed_streams evs \<union> {2}"
proof -
  obtain bn evs rt' env' where o: "openAndBootstrap null_lib buffer_sink (replicate 32 0) demo_sur demo_request still_runtime init_env =
     (Inr bn, evs, rt', env')" "bnIndex bn = 2"
    using demo_opens [OF demo_request_fits init_env_ok] by blast
  then show ?thesis using bootstrap_disciplined [OF o(1)] by auto
qed

theorem dead_connections_survived_witness:
  "\<exists>bn evs rt' env'. openAndBootstrap null_lib buffer_sink (replicate 32 0) demo_sur demo_request still_runtime init_env =
     (Inr bn, evs, rt', env') \<and> bnIndex bn = 2"
  by (rule dead_connections_survived [OF null_lib_ok])
    (use demo_request_fits init_env_ok demo_sur_facts in \<open>simp_all add: bootstrapMaxAttempts_def\<close>)

lemma demo_merge: "\<exists>env1. merge_first False demo_conn demo_request init_env = Done (demo_request, demo_conn, env1)"
proof -
  obtain buf env2 k where b: "bytespool_Get init_env (int 4096) = (Some (buf, 4096), env2)" "k < 18" "length buf = 2 ^ k" "env_ok env2"
    using bytespool_Get_served [OF init_env_ok, of 4096] by auto
  then obtain env3 where "bytespool_MustPut env2 buf = (Inr (), env3)" using bytespool_MustPut_class by blast
  then show ?thesis using b(1) by (simp add: merge_first_def)
qed

theorem session_upload_arrives_witness:
  "\<exists>(bn :: bytes bootstrapSession) body rest res rx c.
     fst (preflight example_su (example_request body\<lparr>rqSaltHeader := EncodeToString (bnSalt bn)\<rparr>) example_handler) = Inr res \<and>
     NewReader null_lib (hrKeys res) \<lparr>sData = rest, sErr = io_EOF\<rparr> DirC2S (hrMethod res) = Inr rx \<and>
     copyFromClient take_all (\<lambda>d. d @ [255])
       \<lparr>ccReader = SetLeftoverFrames rx (frLeftover (hrFirst res)), ccEnv = init_env, ccDst = []\<rparr> = (None, c) \<and>
     ccDst c = [1, 2, 3, 255]"
proof -
  obtain env1 where m: "merge_first False demo_conn demo_request init_env = Done (demo_request, demo_conn, env1)"
    using demo_merge by blast
  have e1: "env_ok env1" using merge_first_facts [OF init_env_ok m] by blast
  obtain bn evs rt' env' where o: "openAndBootstrap null_lib buffer_sink (replicate 32 0) demo_sur demo_request still_runtime env1 =
     (Inr bn, evs, rt', env')"
    using demo_opens [OF demo_request_fits e1] by blast
  let ?r = "example_request []\<lparr>rqSaltHeader := EncodeToString (bnSalt bn)\<rparr>"
  have "\<exists>rw bs bs1 g1 al1 bs2 res rx c. NewWriter null_lib (bnKeys bn) DirC2S MethodAES256GCM = Inr rw \<and>
    Shaper_New (3 / 100) rw plain_config [] init_env rt' = Done bs \<and>
    copyLocalToRemote shaper_sender 0 (NewAllocatorWithLimit 64) demo_conn (bs, init_stats) = Done (None, (bs1, g1), al1) \<and>
    Shaper_Close buffer_sink bs1 = Done (Inr (), bs2) \<and>
    fst (preflight example_su (?r\<lparr>rqBody := \<lparr>sData = bnStream bn @ bsOut bs2, sErr = io_EOF\<rparr>\<rparr>) example_handler) = Inr res \<and>
    NewReader null_lib (hrKeys res) \<lparr>sData = bsOut bs2, sErr = io_EOF\<rparr> DirC2S (hrMethod res) = Inr rx \<and>
    copyFromClient take_all (\<lambda>d. d @ [255])
      \<lparr>ccReader = SetLeftoverFrames rx (frLeftover (hrFirst res)), ccEnv = init_env, ccDst = []\<rparr> = (None, c) \<and>
    ccDst c = csData demo_conn @ [255]"
    by (rule session_upload_arrives [OF null_lib_ok _ init_env_ok init_env_ok init_env_ok alloc_inv_new _ _
          m [unfolded demo_request_def] o [unfolded demo_request_def], where addrs = "[([8, 8, 8, 8], [])]"])
      (use demo_sur_facts(1) example_gate init_env_ok in \<open>simp_all add: demo_conn_def example_defs\<close>)
  then obtain bs2 :: "bytes batchShaper" and res rx c where "fst (preflight example_su (?r\<lparr>rqBody := \<lparr>sData = bnStream bn @ bsOut bs2, sErr = io_EOF\<rparr>\<rparr>) example_handler) = Inr res"
      "NewReader null_lib (hrKeys res) \<lparr>sData = bsOut bs2, sErr = io_EOF\<rparr> DirC2S (hrMethod res) = Inr rx"
      "copyFromClient take_all (\<lambda>d. d @ [255])
        \<lparr>ccReader = SetLeftoverFrames rx (frLeftover (hrFirst res)), ccEnv = init_env, ccDst = []\<rparr> = (None, c)"
      "ccDst c = csData demo_conn @ [255]" by blast
  moreover have "?r\<lparr>rqBody := \<lparr>sData = bnStream bn @ bsOut bs2, sErr = io_EOF\<rparr>\<rparr> =
      example_request (bnStream bn @ bsOut bs2)\<lparr>rqSaltHeader := EncodeToString (bnSalt bn)\<rparr>"
    by (simp add: example_request_def)
  moreover have "csData demo_conn @ [255] = [1, 2, 3, 255]" by (simp add: demo_conn_def)
  ultimately show ?thesis by metis
qed

end
