(* ===== verification/Datagrams.thy ===== *)
theory Datagrams
  imports Opening
begin

text \<open>
  \<open>client/proxy/stream.go\<close>, second half: an exchange of UDP datagrams over one stream, and the single
  question and answer of an ICMP stream.
\<close>

section \<open>Exchanges\<close>

record 's udp_exchange =
  ueTx :: 's
  ueReader :: DecryptedReader
  ueLastSeen :: int
  ueFirstRead :: bool
  ueClosed :: bool
  ueCloseDone :: bool
  ueStreamOpen :: bool

definition ue_Send ::
  "'s sender \<Rightarrow> int \<Rightarrow> bytes \<Rightarrow> 's udp_exchange \<times> stats \<Rightarrow> (unit result \<times> 's udp_exchange \<times> stats) outcome" where
  "ue_Send tx now data ueg =
     (case ueg of (ue, g) \<Rightarrow>
        (if ueClosed ue then Done (Inl ErrClosed, ue, g)
         else let ue = ue\<lparr>ueLastSeen := now\<rparr>
              in case NewFrameWithPayload FrameDATAGRAM data of
                   Inl e \<Rightarrow> Panics ''payload too large''
                 | Inr frame \<Rightarrow>
                     obind (sdFrame tx frame (ueTx ue)) (\<lambda>(r, s).
                       Done (r, ue\<lparr>ueTx := s\<rparr>, RecordRawBytesSent (int (length data)) g))))"

text \<open>\<open>Receive\<close>: the clock is read once for each frame; \<open>now\<close> gives its successive values.\<close>

function ue_Receive ::
  "(go_error \<Rightarrow> bool) \<Rightarrow> (nat \<Rightarrow> int) \<Rightarrow> nat \<Rightarrow> env \<Rightarrow> 's udp_exchange \<times> stats \<Rightarrow> bytes result \<times> env \<times> 's udp_exchange \<times> stats" where
  "ue_Receive rejected now i env (ue, g) =
     (case ReadFrame env (ueReader ue) of
        (Inl e, rx, env) \<Rightarrow>
          (Inl (if ueFirstRead ue then e else classifyFirstReadError rejected e), env,
           ue\<lparr>ueReader := rx, ueFirstRead := True\<rparr>, g)
      | (Inr frame, rx, env) \<Rightarrow>
          (let ue = ue\<lparr>ueReader := rx, ueFirstRead := True, ueLastSeen := now i\<rparr>
           in if fType frame = FrameDATAGRAM
              then (Inr (fPayload frame), env, ue, RecordRawBytesRecv (int (length (fPayload frame))) g)
              else if fType frame = FrameFIN then (Inl io_EOF, env, ue, g)
              else if fType frame = FrameRST then (Inl (Msg ''udp stream reset''), env, ue, g)
              else if fType frame = FramePADDING \<or> fType frame = FrameCOVER then ue_Receive rejected now (Suc i) env (ue, g)
              else (Inl (Msg ''unexpected frame type''), env, ue, g)))"
  by pat_completeness auto
termination
  by (relation "inv_image (less_than <*lex*> less_than) (\<lambda>(_, _, _, _, ue, _). tunnel_left (ueReader ue))")
    (auto dest: ReadFrame_progress [OF sym])

declare ue_Receive.simps [simp del]

text \<open>
  \<open>Close\<close>. Its goroutine pushes the end of the stream, closes the shaper and then the stream; when
  that takes longer than the grace period (\<open>late\<close>), the stream is closed under it and its writes fail.
\<close>

definition ue_Close ::
  "'s sender \<Rightarrow> ('s \<Rightarrow> (unit result \<times> 's) outcome) \<Rightarrow> bool \<Rightarrow> 's udp_exchange \<Rightarrow> 's udp_exchange outcome" where
  "ue_Close tx close late ue =
     (if ueCloseDone ue then Done ue
      else let ue = ue\<lparr>ueClosed := True, ueCloseDone := True\<rparr>
           in if late then Done (ue\<lparr>ueStreamOpen := False\<rparr>)
              else obind (sdFrame tx NewFrameFIN (ueTx ue)) (\<lambda>(_, s).
                     obind (sdFlush tx s) (\<lambda>(_, s).
                       obind (close s) (\<lambda>(_, s). Done (ue\<lparr>ueTx := s, ueStreamOpen := False\<rparr>)))))"

text \<open>
  \<open>OpenUDPExchange\<close>: the first datagram goes into the bootstrap record when it fits there, and is sent
  right after the handshake when it does not. \<open>session\<close> is \<open>newSession\<close> on the request.
\<close>

definition udp_request :: "string \<Rightarrow> Method \<Rightarrow> bytes \<Rightarrow> stats \<Rightarrow> (streamRequest \<times> bool \<times> stats) outcome" where
  "udp_request target method firstPayload g =
     (let req = udpStreamRequest target method; g = RecordUDPAssociation g
      in if firstPayload \<noteq> [] \<and> int (length firstPayload) \<le> bootstrapMaxPayload target
         then (case NewFrameDATAGRAM firstPayload of
                 Inl _ \<Rightarrow> Panics ''payload too large''
               | Inr f \<Rightarrow> Done (withFrames [f] req, True, RecordRawBytesSent (int (length firstPayload)) g))
         else Done (req, False, g))"

definition OpenUDPExchange ::
  "'s sender \<Rightarrow> ('s \<Rightarrow> (unit result \<times> 's) outcome) \<Rightarrow> (streamRequest \<Rightarrow> ('s \<times> DecryptedReader) result) \<Rightarrow> int \<Rightarrow>
     string \<Rightarrow> Method \<Rightarrow> bytes \<Rightarrow> stats \<Rightarrow> ('s udp_exchange result \<times> stats) outcome" where
  "OpenUDPExchange tx close session now target method firstPayload g =
     obind (udp_request target method firstPayload g) (\<lambda>(req, mergeFirst, g).
       case session (withBatchWindow 1 req) of
         Inl e \<Rightarrow> Done (Inl (Wrap ''udp bootstrap'' [e]), g)
       | Inr (s, rx) \<Rightarrow>
           (let ue = \<lparr>ueTx = s, ueReader = rx, ueLastSeen = now, ueFirstRead = False, ueClosed = False,
                      ueCloseDone = False, ueStreamOpen = True\<rparr>
            in if firstPayload \<noteq> [] \<and> \<not> mergeFirst
               then obind (ue_Send tx now firstPayload (ue, g)) (\<lambda>(r, ue, g).
                      case r of
                        Inl e \<Rightarrow> obind (ue_Close tx close False ue) (\<lambda>_. Done (Inl (Wrap ''send first datagram'' [e]), g))
                      | Inr _ \<Rightarrow> Done (Inr ue, g))
               else Done (Inr ue, g)))"

section \<open>ICMP\<close>

text \<open>\<open>icmpStream\<close> after its session is open: the first frame is the answer.\<close>

definition icmp_reply :: "(go_error \<Rightarrow> bool) \<Rightarrow> env \<Rightarrow> DecryptedReader \<Rightarrow> bytes result" where
  "icmp_reply rejected env rx =
     (case fst (ReadFrame env rx) of
        Inl e \<Rightarrow> Inl (Wrap ''read first reply frame'' [classifyFirstReadError rejected e])
      | Inr frame \<Rightarrow>
          (if fType frame = FrameRST then Inl (Msg ''icmp rejected by server'')
           else if fType frame \<noteq> FrameDATA then Inl (Msg ''expected DATA frame'')
           else Inr (fPayload frame)))"

section \<open>Datagrams through the tunnel\<close>

definition datagram_frame :: "bytes \<Rightarrow> Frame" where
  "datagram_frame d = frame_norm \<lparr>fType = FrameDATAGRAM, fLength = 0, fPayload = d\<rparr>"

lemma datagram_frame_simps [simp]:
  "fType (datagram_frame d) = 1" "fPayload (datagram_frame d) = d" "is_cargo (datagram_frame d)" "frame_norm (datagram_frame d) = datagram_frame d"
  by (simp_all add: datagram_frame_def frame_norm_def is_cargo_def)

lemma NewFrameWithPayload_datagram: "length d \<le> 65535 \<Longrightarrow> NewFrameWithPayload FrameDATAGRAM d = Inr (datagram_frame d)"
  by (simp add: NewFrameWithPayload_def checkPayloadLen_def datagram_frame_def frame_norm_def)

fun send_all ::
  "'s sender \<Rightarrow> (int \<times> bytes) list \<Rightarrow> 's udp_exchange \<times> stats \<Rightarrow> ('s udp_exchange \<times> stats) outcome" where
  "send_all tx [] ueg = Done ueg"
| "send_all tx ((now, d) # ds) ueg = obind (ue_Send tx now d ueg) (\<lambda>(_, ueg). send_all tx ds ueg)"

lemma send_all_sent:
  "shaper_sent a cn aad fs (ueTx ue) \<Longrightarrow> \<not> ueClosed ue \<Longrightarrow> \<forall>(t, d) \<in> set ds. length d \<le> 65514 \<Longrightarrow>
     \<exists>ue' g'. send_all shaper_sender ds (ue, g) = Done (ue', g') \<and> \<not> ueClosed ue' \<and> ueCloseDone ue' = ueCloseDone ue \<and>
       ueReader ue' = ueReader ue \<and> shaper_sent a cn aad (fs @ map (\<lambda>(t, d). datagram_frame d) ds) (ueTx ue')"
proof (induction ds arbitrary: fs ue g)
  case (Cons td ds)
  obtain t d where td: "td = (t, d)" "length d \<le> 65514" using Cons.prems(3) by (cases td) auto
  obtain s' where s': "PushFrame buffer_sink (datagram_frame d) [] (ueTx ue) = Done (Inr (), s')"
      "shaper_sent a cn aad (fs @ [datagram_frame d]) s'"
    using shaper_push_frame [OF Cons.prems(1), of "datagram_frame d"] td(2) by auto
  define ue1 where "ue1 = ue\<lparr>ueLastSeen := t, ueTx := s'\<rparr>"
  have "ue_Send shaper_sender t d (ue, g) = Done (Inr (), ue1, RecordRawBytesSent (int (length d)) g)"
    using s'(1) Cons.prems(2) td(2)
    by (simp add: ue_Send_def NewFrameWithPayload_datagram [simplified] shaper_sender_def ue1_def)
  moreover have "\<exists>ue' g'. send_all shaper_sender ds (ue1, RecordRawBytesSent (int (length d)) g) = Done (ue', g') \<and> \<not> ueClosed ue' \<and>
      ueCloseDone ue' = ueCloseDone ue1 \<and> ueReader ue' = ueReader ue1 \<and>
      shaper_sent a cn aad ((fs @ [datagram_frame d]) @ map (\<lambda>(t, d). datagram_frame d) ds) (ueTx ue')"
    using s'(2) Cons.prems by (intro Cons.IH) (auto simp: ue1_def)
  ultimately show ?case using td(1) by (auto simp: ue1_def)
qed auto


text \<open>
  The loop of \<open>receiveLoop\<close> (\<open>client/proxy/udp_pool.go\<close>): what it hands to \<open>onData\<close>, and the error that
  ends it. The clock is the same for all the frames of one call.
\<close>

lemma ue_Receive_progress:
  "ue_Receive rejected now i env ueg = (Inr d, env', ue', g') \<Longrightarrow>
     (tunnel_left (ueReader ue'), tunnel_left (ueReader (fst ueg))) \<in> less_than <*lex*> less_than"
proof (induction rejected now i env ueg arbitrary: d env' ue' g' rule: ue_Receive.induct)
  case (1 rejected now i env ue g)
  obtain x rx env1 where r: "ReadFrame env (ueReader ue) = (x, rx, env1)" using prod_cases3 by blast
  show ?case
  proof (cases x)
    case (Inl e)
    then show ?thesis using 1(2) r by (simp add: ue_Receive.simps [of _ _ _ _ ue])
  next
    case (Inr f)
    have p: "(tunnel_left rx, tunnel_left (ueReader ue)) \<in> less_than <*lex*> less_than"
      using ReadFrame_progress r Inr by blast
    show ?thesis
    proof (cases "fType f = FramePADDING \<or> fType f = FrameCOVER")
      case True
      then have "ue_Receive rejected now (Suc i) env1 (ue\<lparr>ueReader := rx, ueFirstRead := True, ueLastSeen := now i\<rparr>, g) = (Inr d, env', ue', g')"
        using 1(2) r Inr by (auto simp: ue_Receive.simps [of _ _ _ _ ue])
      then have "(tunnel_left (ueReader ue'), tunnel_left rx) \<in> less_than <*lex*> less_than"
        using 1(1) r Inr True by fastforce
      then show ?thesis using p by simp (meson transD trans_less_than trans_lex_prod)
    next
      case False
      then show ?thesis using 1(2) r Inr p by (auto simp: ue_Receive.simps [of _ _ _ _ ue] Let_def split: if_splits)
    qed
  qed
qed

function receive_loop ::
  "(go_error \<Rightarrow> bool) \<Rightarrow> int \<Rightarrow> env \<Rightarrow> 's udp_exchange \<times> stats \<Rightarrow> bytes list \<times> go_error \<times> 's udp_exchange \<times> stats" where
  "receive_loop rejected now env ueg =
     (case ue_Receive rejected (\<lambda>_. now) 0 env ueg of
        (Inl err, _, ue, g) \<Rightarrow> ([], err, ue, g)
      | (Inr data, env, ue, g) \<Rightarrow> (case receive_loop rejected now env (ue, g) of (ds, r) \<Rightarrow> (data # ds, r)))"
  by pat_completeness auto
termination
  by (relation "inv_image (less_than <*lex*> less_than) (\<lambda>(_, _, _, ueg). tunnel_left (ueReader (fst ueg)))")
    (auto dest: ue_Receive_progress [OF sym])

declare receive_loop.simps [simp del]

lemma ue_Receive_frames:
  assumes "read_frames n env (ueReader ue) = (fs, Some e)" "filter is_cargo fs = f # gs"
  shows "\<exists>rx' env' m hs t. read_frames m env' rx' = (hs, Some e) \<and> filter is_cargo hs = gs \<and>
    (let ue' = ue\<lparr>ueReader := rx', ueFirstRead := True, ueLastSeen := t\<rparr>
     in ue_Receive rejected now i env (ue, g) =
       (if fType f = FrameDATAGRAM then (Inr (fPayload f), env', ue', RecordRawBytesRecv (int (length (fPayload f))) g)
        else if fType f = FrameFIN then (Inl io_EOF, env', ue', g)
        else if fType f = FrameRST then (Inl (Msg ''udp stream reset''), env', ue', g)
        else (Inl (Msg ''unexpected frame type''), env', ue', g)))"
  using assms
proof (induction n arbitrary: env ue fs i)
  case (Suc n)
  obtain x rx' env' where r: "ReadFrame env (ueReader ue) = (x, rx', env')" using prod_cases3 by blast
  show ?case
  proof (cases x)
    case (Inl err)
    then show ?thesis using Suc.prems r by simp
  next
    case (Inr h)
    then obtain hs where g: "read_frames n env' rx' = (hs, Some e)" "fs = h # hs"
      using Suc.prems r by (auto split: prod.splits)
    define ue1 where "ue1 = ue\<lparr>ueReader := rx', ueFirstRead := True, ueLastSeen := now i\<rparr>"
    show ?thesis
    proof (cases "is_cargo h")
      case True
      then have "h = f" "filter is_cargo hs = gs" using Suc.prems(2) g(2) by auto
      moreover have "fType h \<noteq> 4" "fType h \<noteq> 5" using True by (auto simp: is_cargo_def)
      ultimately show ?thesis using g r Inr
        by (intro exI [of _ rx'] exI [of _ env'] exI [of _ n] exI [of _ hs] exI [of _ "now i"])
          (simp add: ue_Receive.simps [of _ _ _ _ ue] Let_def)
    next
      case False
      then have st: "ue_Receive rejected now i env (ue, g) = ue_Receive rejected now (Suc i) env' (ue1, g)"
        using r Inr by (auto simp: ue_Receive.simps [of _ _ _ _ ue] is_cargo_def ue1_def Let_def)
      have "filter is_cargo hs = f # gs" using Suc.prems(2) g(2) False by simp
      from Suc.IH [of env' ue1 hs "Suc i"] this g(1) show ?thesis unfolding st by (simp add: ue1_def)
    qed
  qed
qed simp

lemma receive_loop_frames:
  assumes "read_frames n env (ueReader ue) = (fs, Some e)" "filter is_cargo fs = map datagram_frame ds @ [NewFrameFIN]"
  shows "\<exists>ue' g'. receive_loop rejected now env (ue, g) = (ds, io_EOF, ue', g')"
  using assms
proof (induction ds arbitrary: env ue fs n g)
  case Nil
  then have "filter is_cargo fs = NewFrameFIN # []" by simp
  from ue_Receive_frames [OF Nil(1) this, of rejected "\<lambda>_. now" 0 g] show ?case
    by (auto simp: receive_loop.simps [of _ _ env] NewFrameFIN_def Let_def)
next
  case (Cons d ds)
  then have "filter is_cargo fs = datagram_frame d # (map datagram_frame ds @ [NewFrameFIN])" by simp
  from ue_Receive_frames [OF Cons.prems(1) this, of rejected "\<lambda>_. now" 0 g] obtain rx' env' m hs t where
    r: "read_frames m env' rx' = (hs, Some e)" "filter is_cargo hs = map datagram_frame ds @ [NewFrameFIN]"
      "ue_Receive rejected (\<lambda>_. now) 0 env (ue, g) =
        (Inr d, env', ue\<lparr>ueReader := rx', ueFirstRead := True, ueLastSeen := t\<rparr>, RecordRawBytesRecv (int (length d)) g)"
    by (auto simp: Let_def)
  moreover have "\<exists>ue' g'. receive_loop rejected now env'
      (ue\<lparr>ueReader := rx', ueFirstRead := True, ueLastSeen := t\<rparr>, RecordRawBytesRecv (int (length d)) g) = (ds, io_EOF, ue', g')"
    using r(1,2) by (intro Cons.IH [of m]) simp_all
  ultimately show ?case by (auto simp: receive_loop.simps [of _ _ env])
qed

end
