(* ===== verification/Rules.thy ===== *)
theory Rules
  imports Hosts
begin

text \<open>
  Package \<open>rule\<close>: rule files become sets of domains, addresses, networks and patterns, which the
  client's router and the server's next proxy match hosts against. The engine of package
  \<open>regexp\<close> is a parameter; a compiled expression is its source text, which is what \<open>String\<close>
  returns.
\<close>

section \<open>The regular expression engine\<close>

record regexp_lib =
  reCompile :: "string \<Rightarrow> go_error option"
  reMatch :: "string \<Rightarrow> string \<Rightarrow> bool"

definition regexp_Compile :: "regexp_lib \<Rightarrow> string \<Rightarrow> string result" where
  "regexp_Compile lib src = (case reCompile lib src of None \<Rightarrow> Inr src | Some e \<Rightarrow> Inl e)"

text \<open>\<open>regexp.QuoteMeta\<close> and \<open>strings.ReplaceAll\<close>.\<close>

definition meta_chars :: string where
  "meta_chars = [CHR 0x5C, CHR ''.'', CHR ''+'', CHR ''*'', CHR ''?'', CHR ''('', CHR '')'', CHR ''|'',
     CHR ''['', CHR '']'', CHR ''{'', CHR ''}'', CHR 0x5E, CHR ''$'']"

fun QuoteMeta :: "string \<Rightarrow> string" where
  "QuoteMeta [] = []"
| "QuoteMeta (c # s) = (if c \<in> set meta_chars then [CHR 0x5C, c] else [c]) @ QuoteMeta s"

function ReplaceAll :: "string \<Rightarrow> string \<Rightarrow> string \<Rightarrow> string" where
  "ReplaceAll [] old new = []"
| "ReplaceAll (c # s) old new =
     (if old \<noteq> [] \<and> HasPrefix (c # s) old then new @ ReplaceAll (drop (length old) (c # s)) old new
      else c # ReplaceAll s old new)"
  by pat_completeness auto
termination
  by (relation "measure (\<lambda>(s, _, _). length s)") auto

definition GlobToRegexp :: "regexp_lib \<Rightarrow> string \<Rightarrow> string result" where
  "GlobToRegexp lib pattern =
     (let escaped = QuoteMeta pattern;
          reStr = ReplaceAll escaped [CHR 0x5C, CHR ''*''] ''.*''
      in regexp_Compile lib ([CHR 0x5E] @ reStr @ ''$''))"

section \<open>Networks\<close>

record IPNet =
  netIP :: bytes
  netMask :: bytes

text \<open>\<open>net.dtoi\<close>, \<open>CIDRMask\<close>, \<open>IP.Mask\<close>, \<open>ParseCIDR\<close> and \<open>IPNet.Contains\<close>.\<close>

definition dtoi :: "string \<Rightarrow> nat option" where
  "dtoi s =
     (if s = [] \<or> \<not> list_all is_digit s then None
      else let n = fold (\<lambda>c n. n * 10 + int (digit c)) s 0 in if n \<ge> 0xFFFFFF then None else Some (nat n))"

fun CIDRMask :: "nat \<Rightarrow> nat \<Rightarrow> bytes" where
  "CIDRMask ones 0 = []"
| "CIDRMask ones (Suc k) =
     (if ones \<ge> 8 then 0xff # CIDRMask (ones - 8) k
      else NOT (word_of_nat (0xff div 2 ^ ones)) # CIDRMask 0 k)"

definition IP_Mask :: "bytes \<Rightarrow> bytes \<Rightarrow> bytes" where
  "IP_Mask ip m =
     (let ip = (if length m = 4 \<and> length ip = 16 \<and> take 12 ip = v4InV6Prefix then drop 12 ip else ip)
      in if length ip \<noteq> length m then [] else map2 (AND) ip m)"

definition ParseCIDR :: "string \<Rightarrow> IPNet option" where
  "ParseCIDR s =
     (case IndexByte s (CHR ''/'') of
        None \<Rightarrow> None
      | Some i \<Rightarrow>
          (case ParseAddr (take i s) of
             None \<Rightarrow> None
           | Some a \<Rightarrow>
               (case dtoi (drop (i + 1) s) of
                  None \<Rightarrow> None
                | Some n \<Rightarrow>
                    (if n > 8 * length a then None
                     else let m = CIDRMask n (length a)
                          in Some \<lparr>netIP = IP_Mask (As16 a) m, netMask = m\<rparr>))))"

definition networkNumberAndMask :: "IPNet \<Rightarrow> bytes \<times> bytes" where
  "networkNumberAndMask n =
     (let ip = (case To4 (netIP n) of Some ip4 \<Rightarrow> ip4 | None \<Rightarrow> netIP n); m = netMask n
      in if To4 (netIP n) = None \<and> length ip \<noteq> 16 then ([], [])
         else if length m = 4 then (if length ip \<noteq> 4 then ([], []) else (ip, m))
         else if length m = 16 then (ip, if length ip = 4 then drop 12 m else m)
         else ([], []))"

definition Contains :: "IPNet \<Rightarrow> bytes \<Rightarrow> bool" where
  "Contains n ip =
     (case networkNumberAndMask n of (nn, m) \<Rightarrow>
       (let ip = (case To4 ip of Some x \<Rightarrow> x | None \<Rightarrow> ip)
        in length ip = length nn \<and> map2 (AND) nn m = map2 (AND) ip m))"

section \<open>Rule sets\<close>

datatype Kind = KindDomain | KindIP | KindCIDR | KindGlob | KindRegexp

fun Kind_String :: "Kind \<Rightarrow> string" where
  "Kind_String KindIP = ''ip''"
| "Kind_String KindCIDR = ''cidr''"
| "Kind_String KindGlob = ''glob''"
| "Kind_String KindRegexp = ''regexp''"
| "Kind_String KindDomain = ''domain''"

record Error =
  erIndex :: nat
  erLine :: string
  erKind :: Kind
  erErr :: go_error

record Set =
  setDomains :: "string set"
  setIps :: "bytes set"
  setCidrs :: "IPNet list"
  setPatterns :: "string list"
  setCounts :: "Kind \<Rightarrow> nat"

definition New_Set :: Set where
  "New_Set = \<lparr>setDomains = {}, setIps = {}, setCidrs = [], setPatterns = [], setCounts = (\<lambda>_. 0)\<rparr>"

definition count :: "Kind \<Rightarrow> Set \<Rightarrow> Set" where
  "count k s = s\<lparr>setCounts := (setCounts s)(k := setCounts s k + 1)\<rparr>"

definition addIPLocked :: "bytes \<Rightarrow> Set \<Rightarrow> bool \<times> Set" where
  "addIPLocked key s =
     (if key \<in> setIps s then (False, s) else (True, count KindIP (s\<lparr>setIps := insert key (setIps s)\<rparr>)))"

definition addDomainLocked :: "string \<Rightarrow> Set \<Rightarrow> bool \<times> Set" where
  "addDomainLocked key s =
     (if key \<in> setDomains s then (False, s)
      else (True, count KindDomain (s\<lparr>setDomains := insert key (setDomains s)\<rparr>)))"

text \<open>\<open>builder.add\<close>: an unusable line is returned as an error, with index and line still empty.\<close>

definition builder_add :: "regexp_lib \<Rightarrow> string \<Rightarrow> Set \<Rightarrow> Error option \<times> Set" where
  "builder_add lib line s =
     (let fail = (\<lambda>k e. (Some \<lparr>erIndex = 0, erLine = [], erKind = k, erErr = e\<rparr>, s))
      in if HasPrefix line ''regexp:'' then
           (let pattern = TrimPrefix line ''regexp:''
            in if pattern = [] then fail KindRegexp (Msg ''empty pattern'')
               else (case regexp_Compile lib (''(?i)'' @ pattern) of
                       Inl e \<Rightarrow> fail KindRegexp e
                     | Inr re \<Rightarrow> (None, count KindRegexp (s\<lparr>setPatterns := setPatterns s @ [re]\<rparr>))))
         else if CHR ''*'' \<in> set line then
           (case GlobToRegexp lib line of
              Inl e \<Rightarrow> fail KindGlob e
            | Inr re \<Rightarrow>
                (case regexp_Compile lib (''(?i)'' @ re) of
                   Inl e \<Rightarrow> fail KindGlob e
                 | Inr re \<Rightarrow> (None, count KindGlob (s\<lparr>setPatterns := setPatterns s @ [re]\<rparr>))))
         else
           (case ParseCIDR line of
              Some ipnet \<Rightarrow> (None, count KindCIDR (s\<lparr>setCidrs := setCidrs s @ [ipnet]\<rparr>))
            | None \<Rightarrow>
                (case ParseIP line of
                   Some ip \<Rightarrow> (None, snd (addIPLocked (canonicalIP ip) s))
                 | None \<Rightarrow> (None, snd (addDomainLocked (normalizeDomainKey line) s)))))"

text \<open>The loop of \<open>ParseLines\<close>, from line number \<open>i\<close> on; \<open>allow\<close> is \<open>opts.AllowComments\<close>.\<close>

fun parse_from :: "regexp_lib \<Rightarrow> bool \<Rightarrow> nat \<Rightarrow> string list \<Rightarrow> Set \<times> Error list \<Rightarrow> Set \<times> Error list" where
  "parse_from lib allow i [] (s, errs) = (s, errs)"
| "parse_from lib allow i (line # lines) (s, errs) =
     (let trimmed = TrimSpace line
      in if trimmed = [] \<or> (allow \<and> HasPrefix trimmed ''#'')
         then parse_from lib allow (Suc i) lines (s, errs)
         else
           (case builder_add lib trimmed s of
              (None, s) \<Rightarrow> parse_from lib allow (Suc i) lines (s, errs)
            | (Some e, s) \<Rightarrow>
                parse_from lib allow (Suc i) lines (s, errs @ [e\<lparr>erIndex := i, erLine := trimmed\<rparr>])))"

definition ParseLines :: "regexp_lib \<Rightarrow> bool \<Rightarrow> string list \<Rightarrow> Set \<times> Error list" where
  "ParseLines lib allow lines = parse_from lib allow 0 lines (New_Set, [])"

text \<open>The receivers of the methods below may be nil.\<close>

definition Counts :: "Set option \<Rightarrow> nat \<times> nat \<times> nat \<times> nat" where
  "Counts so =
     (case so of
        None \<Rightarrow> (0, 0, 0, 0)
      | Some s \<Rightarrow> (setCounts s KindDomain, setCounts s KindIP, setCounts s KindCIDR,
                    setCounts s KindGlob + setCounts s KindRegexp))"

definition Set_Len :: "Set option \<Rightarrow> nat" where
  "Set_Len so =
     (case so of
        None \<Rightarrow> 0
      | Some s \<Rightarrow> sum_list (map (setCounts s) [KindDomain, KindIP, KindCIDR, KindGlob, KindRegexp]))"

definition matchIPLocked :: "Set \<Rightarrow> bytes \<Rightarrow> Kind \<times> bool" where
  "matchIPLocked s ip =
     (if canonicalIP ip \<in> setIps s then (KindIP, True)
      else if list_ex (\<lambda>cidr. Contains cidr ip) (setCidrs s) then (KindCIDR, True)
      else (KindIP, False))"

definition matchDomainLocked :: "regexp_lib \<Rightarrow> Set \<Rightarrow> string \<Rightarrow> Kind \<times> bool" where
  "matchDomainLocked lib s host =
     (if host \<in> setDomains s then (KindDomain, True)
      else if list_ex (\<lambda>sub. sub \<in> setDomains s) (SubDomains host) then (KindDomain, True)
      else if list_ex (\<lambda>re. reMatch lib re host) (setPatterns s) then (KindRegexp, True)
      else (KindDomain, False))"

definition MatchHostKind :: "regexp_lib \<Rightarrow> Set option \<Rightarrow> string \<Rightarrow> Kind \<times> bool" where
  "MatchHostKind lib so host =
     (case so of
        None \<Rightarrow> (KindDomain, False)
      | Some s \<Rightarrow>
          (let host = NormalizeHost host
           in if host = [] then (KindDomain, False)
              else case ParseIP host of
                     Some ip \<Rightarrow> matchIPLocked s ip
                   | None \<Rightarrow> matchDomainLocked lib s host))"

definition MatchHost :: "regexp_lib \<Rightarrow> Set option \<Rightarrow> string \<Rightarrow> bool" where
  "MatchHost lib so host = snd (MatchHostKind lib so host)"

definition HasDomain :: "regexp_lib \<Rightarrow> Set option \<Rightarrow> string \<Rightarrow> bool" where
  "HasDomain lib so domain =
     (case so of
        None \<Rightarrow> False
      | Some s \<Rightarrow>
          (let domain = NormalizeHost domain
           in if domain = [] then False else snd (matchDomainLocked lib s domain)))"

definition AddIP :: "string \<Rightarrow> Set option \<Rightarrow> bool \<times> Set option" where
  "AddIP ip so =
     (case so of
        None \<Rightarrow> (False, so)
      | Some s \<Rightarrow>
          (case ParseIP ip of
             None \<Rightarrow> (False, so)
           | Some parsed \<Rightarrow> map_prod id Some (addIPLocked (canonicalIP parsed) s)))"

definition AddDomain :: "string \<Rightarrow> Set option \<Rightarrow> bool \<times> Set option" where
  "AddDomain domain so =
     (case so of
        None \<Rightarrow> (False, so)
      | Some s \<Rightarrow>
          (let key = NormalizeHost domain
           in if key = [] then (False, so) else map_prod id Some (addDomainLocked key s)))"

section \<open>Rule files\<close>

text \<open>
  A file is what \<open>os.Stat\<close> says of its path and the bytes read from it, with the error that ends
  the reading, if any. \<open>bufio.Reader.ReadLine\<close> on a buffer of 4096 bytes cuts a longer line; its
  second result, which says so, is dropped by \<open>ReadFileLines\<close>.
\<close>

datatype file_stat = Regular | Irregular | Missing | StatError go_error

record rule_file =
  fiStat :: file_stat
  fiData :: string
  fiErr :: "go_error option"

definition FileExists :: "(string \<Rightarrow> rule_file) \<Rightarrow> string \<Rightarrow> bool \<times> go_error option" where
  "FileExists fs path =
     (case fiStat (fs path) of
        Regular \<Rightarrow> (True, None)
      | Irregular \<Rightarrow> (False, Some (Msg (path @ '' exists but is not regular file'')))
      | Missing \<Rightarrow> (False, None)
      | StatError e \<Rightarrow> (False, Some e))"

definition bufSize :: nat where
  "bufSize = 4096"

definition chop_cr :: "string \<Rightarrow> string" where
  "chop_cr line = (if line \<noteq> [] \<and> last line = CHR 0x0D then butlast line else line)"

text \<open>\<open>ReadLine\<close>: the line and what is left to read; \<open>None\<close> at the end.\<close>

definition ReadLine :: "string \<Rightarrow> (string \<times> string) option" where
  "ReadLine data =
     (if data = [] then None
      else
        (case IndexByte (take bufSize data) (CHR 0x0A) of
           Some i \<Rightarrow> Some (chop_cr (take i data), drop (Suc i) data)
         | None \<Rightarrow>
             (if length data \<ge> bufSize then
                (let line = take bufSize data
                 in if last line = CHR 0x0D then Some (butlast line, drop (bufSize - 1) data)
                    else Some (line, drop bufSize data))
              else Some (data, []))))"

lemma ReadLine_progress: "ReadLine data = Some (line, rest) \<Longrightarrow> length rest < length data"
  by (auto simp: ReadLine_def bufSize_def Let_def dest: IndexByte_bound split: if_splits option.splits)

function read_lines :: "string \<Rightarrow> string list" where
  "read_lines data =
     (case ReadLine data of None \<Rightarrow> [] | Some (line, rest) \<Rightarrow> line # read_lines rest)"
  by pat_completeness auto
termination
  by (relation "measure length") (auto dest: ReadLine_progress)

declare read_lines.simps [simp del]

definition ReadFileLines :: "(string \<Rightarrow> rule_file) \<Rightarrow> string \<Rightarrow> string list result" where
  "ReadFileLines fs path =
     (case FileExists fs path of
        (e, Some err) \<Rightarrow> Inl err
      | (False, None) \<Rightarrow> Inl (Wrap path [Sentinel ''file does not exist''])
      | (True, None) \<Rightarrow>
          (case fiErr (fs path) of
             Some e \<Rightarrow> Inl e
           | None \<Rightarrow> Inr (read_lines (fiData (fs path)))))"

definition ParseFile ::
  "regexp_lib \<Rightarrow> (string \<Rightarrow> rule_file) \<Rightarrow> bool \<Rightarrow> string \<Rightarrow> Set \<times> Error list \<times> go_error option" where
  "ParseFile lib fs allow path =
     (if path = [] then (New_Set, [], None)
      else
        (case ReadFileLines fs path of
           Inl err \<Rightarrow> (New_Set, [], Some err)
         | Inr lines \<Rightarrow> (case ParseLines lib allow lines of (s, errs) \<Rightarrow> (s, errs, None))))"

definition Error_error :: "Error \<Rightarrow> go_error" where
  "Error_error e = Wrap (''invalid '' @ Kind_String (erKind e) @ '' rule '' @ erLine e) [erErr e]"

definition FileError :: "string \<Rightarrow> Error list \<Rightarrow> go_error option" where
  "FileError path errs =
     (if errs = [] then None
      else
        (let maxShown = 3;
             shown = (if length errs > maxShown then take maxShown errs else errs);
             extra = (if length errs > maxShown then [Msg ''... and more''] else [])
         in Some (Wrap path [Wrap [] (map Error_error shown @ extra)])))"

section \<open>Domain lists\<close>

record DomainSet =
  dsDomains :: "string set"
  dsFull :: "string set"
  dsPatterns :: "string list"

text \<open>\<open>bytes.SplitSeq\<close> at newlines.\<close>

fun split_lines :: "string \<Rightarrow> string list" where
  "split_lines [] = [[]]"
| "split_lines (c # s) =
     (if c = CHR 0x0A then [] # split_lines s
      else case split_lines s of [] \<Rightarrow> [[c]] | l # ls \<Rightarrow> (c # l) # ls)"

definition domain_line :: "regexp_lib \<Rightarrow> string \<Rightarrow> DomainSet \<times> nat \<Rightarrow> DomainSet \<times> nat" where
  "domain_line lib line dk =
     (case dk of (ds, skipped) \<Rightarrow>
       (let trimmed = TrimSpace line
        in if trimmed = [] \<or> HasPrefix trimmed ''#'' then (ds, skipped)
           else if HasPrefix trimmed ''full:'' then
             (ds\<lparr>dsFull := insert (normalizeDomainKey (TrimPrefix trimmed ''full:'')) (dsFull ds)\<rparr>, skipped)
           else if HasPrefix trimmed ''regexp:'' then
             (case regexp_Compile lib (''(?i)'' @ TrimPrefix trimmed ''regexp:'') of
                Inl _ \<Rightarrow> (ds, Suc skipped)
              | Inr re \<Rightarrow> (ds\<lparr>dsPatterns := dsPatterns ds @ [re]\<rparr>, skipped))
           else (ds\<lparr>dsDomains := insert (normalizeDomainKey trimmed) (dsDomains ds)\<rparr>, skipped)))"

definition ParseDomainSet :: "regexp_lib \<Rightarrow> string \<Rightarrow> DomainSet \<times> nat" where
  "ParseDomainSet lib data =
     fold (domain_line lib) (split_lines data) (\<lparr>dsDomains = {}, dsFull = {}, dsPatterns = []\<rparr>, 0)"

definition DomainSet_Match :: "regexp_lib \<Rightarrow> DomainSet option \<Rightarrow> string \<Rightarrow> bool \<Rightarrow> bool" where
  "DomainSet_Match lib dso domain withSub =
     (case dso of
        None \<Rightarrow> False
      | Some ds \<Rightarrow>
          (let domain = NormalizeHost domain
           in if domain = [] then False
              else if domain \<in> dsFull ds then True
              else if domain \<in> dsDomains ds then True
              else if \<not> withSub then False
              else if list_ex (\<lambda>sub. sub \<in> dsDomains ds) (SubDomains domain) then True
              else list_ex (\<lambda>re. reMatch lib re domain) (dsPatterns ds)))"

definition DomainSet_Len :: "DomainSet option \<Rightarrow> nat" where
  "DomainSet_Len dso =
     (case dso of
        None \<Rightarrow> 0
      | Some ds \<Rightarrow> card (dsDomains ds) + card (dsFull ds) + length (dsPatterns ds))"

end
