(* ===== verification/DnsMsg.thy ===== *)
theory DnsMsg
  imports Rules Outbound
begin

text \<open>
  DNS messages as the code sees them, after \<open>miekg/dns\<close> has unpacked them: \<open>util/dnsutil.go\<close> and the
  repair of answers in \<open>client/dns/lookup.go\<close>. Unpacking, packing, the names of the record types, qualified
  names and the making of replies (\<open>SetReply\<close> and \<open>SetRcode\<close>: the message, the request) belong to that
  library and are parameters.
\<close>

section \<open>Messages\<close>

datatype rr_data = RR_A bytes | RR_AAAA bytes | RR_CNAME string | RR_SOA nat | RR_Other

record dns_RR =
  rrName :: string
  rrType :: nat
  rrTtl :: nat
  rrData :: rr_data

record dns_Question =
  qName :: string
  qType :: nat

record dns_Msg =
  mId :: nat
  mResponse :: bool
  mTruncated :: bool
  mRcode :: nat
  mQuestion :: "dns_Question list"
  mAnswer :: "dns_RR list"
  mNs :: "dns_RR list"
  mExtra :: "dns_RR list"

definition TypeA :: nat where [simp]: "TypeA = 1"
definition TypeAAAA :: nat where [simp]: "TypeAAAA = 28"
definition TypeOPT :: nat where [simp]: "TypeOPT = 41"
definition RcodeSuccess :: nat where [simp]: "RcodeSuccess = 0"
definition RcodeServerFailure :: nat where [simp]: "RcodeServerFailure = 2"
definition RcodeNameError :: nat where [simp]: "RcodeNameError = 3"

record dns_lib =
  dnUnpack :: "bytes \<Rightarrow> dns_Msg option"
  dnPack :: "dns_Msg \<Rightarrow> bytes result"
  dnTypeName :: "nat \<Rightarrow> string"
  dnFqdn :: "string \<Rightarrow> string"
  dnSetReply :: "dns_Msg \<Rightarrow> dns_Msg \<Rightarrow> dns_Msg"
  dnSetRcode :: "dns_Msg \<Rightarrow> dns_Msg \<Rightarrow> nat \<Rightarrow> dns_Msg"

text \<open>\<open>strings.EqualFold\<close>, on names in ASCII.\<close>

definition EqualFold :: "string \<Rightarrow> string \<Rightarrow> bool" where
  "EqualFold s t \<longleftrightarrow> ToLower s = ToLower t"

text \<open>\<open>net.IP.String\<close>.\<close>

definition IP_String :: "bytes \<Rightarrow> string" where
  "IP_String ip =
     (if ip = [] then ''<nil>''
      else case To4 ip of
             Some ip4 \<Rightarrow> v4_text ip4
           | None \<Rightarrow> (if length ip = 16 then v6_text ip
                      else ''?'' @ concat (map (\<lambda>b. [hex_char (unat b div 16), hex_char (unat b mod 16)]) ip)))"

section \<open>Requests, responses and answers\<close>

definition IsDNSRequest :: "dns_Msg \<Rightarrow> bool" where
  "IsDNSRequest msg \<longleftrightarrow> mQuestion msg \<noteq> [] \<and> \<not> mResponse msg"

definition IsDNSResponse :: "dns_Msg \<Rightarrow> bool" where
  "IsDNSResponse msg = (if mQuestion msg = [] then False else mResponse msg)"

definition answer_of :: "dns_RR \<Rightarrow> (string \<times> string) list" where
  "answer_of rr =
     (case rrData rr of
        RR_A ip \<Rightarrow> [(''A'', IP_String ip)]
      | RR_AAAA ip \<Rightarrow> [(''AAAA'', IP_String ip)]
      | RR_CNAME target \<Rightarrow> [(''CNAME'', TrimSuffix target ''.'')]
      | _ \<Rightarrow> [])"

text \<open>\<open>ForEachDNSAnswer\<close>, as the list of the calls of \<open>fn\<close>.\<close>

definition dns_answers :: "dns_Msg \<Rightarrow> (string \<times> string) list" where
  "dns_answers msg = concat (map answer_of (mAnswer msg))"

definition DNSAnswerStrings :: "dns_Msg \<Rightarrow> string list" where
  "DNSAnswerStrings msg = take 10 (map (\<lambda>(kind, value). kind @ '':'' @ value) (dns_answers msg))"

section \<open>Misplaced EDNS0 records\<close>

definition salvageable :: "dns_Question \<Rightarrow> dns_RR \<Rightarrow> bool" where
  "salvageable q rr \<longleftrightarrow> rrType rr = qType q \<and> EqualFold (rrName rr) (qName q)"

definition NormalizeEDNS0Answer :: "dns_Msg \<Rightarrow> bool \<times> dns_Msg" where
  "NormalizeEDNS0Answer msg =
     (case mQuestion msg of
        [] \<Rightarrow> (False, msg)
      | q # _ \<Rightarrow>
          (let optInAnswer = list_ex (\<lambda>rr. rrType rr = TypeOPT) (mAnswer msg);
               msg1 = msg\<lparr>mAnswer := filter (\<lambda>rr. rrType rr \<noteq> TypeOPT) (mAnswer msg)\<rparr>;
               msg2 = (if optInAnswer
                       then (let rest = filter (\<lambda>rr. rrType rr \<noteq> TypeOPT) (mExtra msg1)
                             in msg1\<lparr>mExtra := filter (\<lambda>rr. \<not> salvageable q rr) rest,
                                     mAnswer := mAnswer msg1 @ filter (salvageable q) rest\<rparr>)
                       else msg1);
               optInExtra = list_ex (\<lambda>rr. rrType rr = TypeOPT) (mExtra msg2)
           in (optInAnswer \<or> optInExtra, msg2\<lparr>mExtra := filter (\<lambda>rr. rrType rr \<noteq> TypeOPT) (mExtra msg2)\<rparr>)))"

definition no_opt :: "dns_Msg \<Rightarrow> bool" where
  "no_opt msg \<longleftrightarrow> (\<forall>rr \<in> set (mAnswer msg @ mExtra msg). rrType rr \<noteq> TypeOPT)"

text \<open>
  What the repair does to a message with a question: no OPT record is left, no other record is lost,
  the answers stay where they are, a message without an OPT record is not touched, and repairing twice
  is repairing once.
\<close>

lemma normalize_keeps [simp]:
  "mId (snd (NormalizeEDNS0Answer msg)) = mId msg" "mQuestion (snd (NormalizeEDNS0Answer msg)) = mQuestion msg"
  "mResponse (snd (NormalizeEDNS0Answer msg)) = mResponse msg" "mTruncated (snd (NormalizeEDNS0Answer msg)) = mTruncated msg"
  "mRcode (snd (NormalizeEDNS0Answer msg)) = mRcode msg" "mNs (snd (NormalizeEDNS0Answer msg)) = mNs msg"
  by (auto simp: NormalizeEDNS0Answer_def Let_def split: list.splits)

lemma normalize_no_opt: "mQuestion msg \<noteq> [] \<Longrightarrow> no_opt (snd (NormalizeEDNS0Answer msg))"
  by (auto simp: NormalizeEDNS0Answer_def no_opt_def Let_def salvageable_def split: list.splits if_splits)

lemma normalize_unchanged: "\<not> fst (NormalizeEDNS0Answer msg) \<Longrightarrow> snd (NormalizeEDNS0Answer msg) = msg"
proof (cases "mQuestion msg")
  case (Cons q qs)
  assume a: "\<not> fst (NormalizeEDNS0Answer msg)"
  have "filter (\<lambda>rr. rrType rr \<noteq> TypeOPT) xs = xs" if "\<not> list_ex (\<lambda>rr. rrType rr = TypeOPT) xs" for xs :: "dns_RR list"
    using that by (simp add: filter_id_conv list_ex_iff)
  then show ?thesis using a Cons by (auto simp: NormalizeEDNS0Answer_def Let_def)
qed (simp add: NormalizeEDNS0Answer_def)

lemma normalize_id: "no_opt msg \<Longrightarrow> NormalizeEDNS0Answer msg = (False, msg)"
proof -
  assume a: "no_opt msg"
  have "\<not> list_ex (\<lambda>rr. rrType rr = TypeOPT) (mAnswer msg)" "\<not> list_ex (\<lambda>rr. rrType rr = TypeOPT) (mExtra msg)"
      "filter (\<lambda>rr. rrType rr \<noteq> TypeOPT) (mAnswer msg) = mAnswer msg" "filter (\<lambda>rr. rrType rr \<noteq> TypeOPT) (mExtra msg) = mExtra msg"
    using a by (auto simp: no_opt_def list_ex_iff filter_id_conv)
  then show ?thesis by (auto simp: NormalizeEDNS0Answer_def Let_def split: list.splits)
qed

lemma normalize_records:
  assumes "mQuestion msg = q # qs"
  shows "mset (mAnswer (snd (NormalizeEDNS0Answer msg)) @ mExtra (snd (NormalizeEDNS0Answer msg))) =
    mset (filter (\<lambda>rr. rrType rr \<noteq> TypeOPT) (mAnswer msg @ mExtra msg))"
proof -
  let ?no = "\<lambda>rr. rrType rr \<noteq> TypeOPT"
  have again: "filter ?no (filter P (filter ?no xs)) = filter P (filter ?no xs)" for P and xs :: "dns_RR list"
    by (induction xs) auto
  have part: "mset (filter P xs) + mset (filter (\<lambda>rr. \<not> P rr) xs) = mset xs" for P and xs :: "dns_RR list"
    by (simp flip: multiset_partition)
  show ?thesis
    using assms part [of "salvageable q" "filter ?no (mExtra msg)"] again [of "\<lambda>rr. \<not> salvageable q rr" "mExtra msg"]
    by (auto simp: NormalizeEDNS0Answer_def Let_def simp del: mset_filter TypeOPT_def)
qed

end
