(* ===== verification/Matching.thy ===== *)
theory Matching
  imports Rules "HOL-Library.Sublist"
begin

text \<open>
  What the rule sets of package \<open>rule\<close> match: parent domains, the spellings of a host, the reading of
  a rule file as the union of its lines, the counters of a set, globs, and learning at run time.
\<close>

section \<open>Parent domains\<close>

text \<open>A host name as its labels.\<close>

fun join :: "string list \<Rightarrow> string" where
  "join [] = []"
| "join [l] = l"
| "join (l # ls) = l @ CHR ''.'' # join ls"

definition label :: "string \<Rightarrow> bool" where
  "label l \<longleftrightarrow> l \<noteq> [] \<and> CHR ''.'' \<notin> set l"

lemma IndexByte_absent [simp]: "c \<notin> set s \<Longrightarrow> IndexByte s c = None"
  by (induction s) auto

lemma IndexByte_None_iff [simp]: "IndexByte s c = None \<longleftrightarrow> c \<notin> set s"
  by (induction s) auto

lemma sub_loop_join:
  assumes "list_all label ls" "ls \<noteq> []"
  shows "sub_loop (join ls) = map (\<lambda>k. join (drop k ls)) [1..<length ls]"
  using assms
proof (induction ls rule: join.induct)
  case (2 l)
  then show ?case by (simp add: sub_loop.simps [of l] label_def)
next
  case (3 l l' ls)
  have ix: "IndexByte (join (l # l' # ls)) (CHR ''.'') = Some (Suc (length l - 1))"
    using 3(2) by (simp add: IndexByte_append label_def)
  have tail: "drop (Suc (Suc (length l - 1))) (join (l # l' # ls)) = join (l' # ls)"
    using 3(2) by (cases l) (simp_all add: label_def)
  have "sub_loop (join (l # l' # ls)) = join (l' # ls) # sub_loop (join (l' # ls))"
    by (subst sub_loop.simps) (simp only: ix tail option.case nat.case)
  also have "\<dots> = map (\<lambda>k. join (drop k (l # l' # ls))) (1 # map Suc [1..<Suc (length ls)])"
    using 3 by (simp add: comp_def del: upt_Suc)
  also have "1 # map Suc [1..<Suc (length ls)] = [1..<length (l # l' # ls)]"
    by (simp add: map_Suc_upt upt_conv_Cons del: upt_Suc)
  finally show ?case .
qed simp

lemma SubDomains_join:
  assumes "list_all label ls"
  shows "SubDomains (join ls) = map (\<lambda>k. join (drop k ls)) [1..<length ls - 1]"
proof (cases "ls = []")
  case False
  then have ne: "join ls \<noteq> []" using assms by (cases ls rule: join.cases) (auto simp: label_def)
  have "take (length ls - 2) [1..<length ls] = [1..<length ls - 1]" by (cases "length ls") (auto simp: take_upt)
  then show ?thesis
    using ne sub_loop_join [OF assms False] by (auto simp: SubDomains_def Let_def take_map numeral_2_eq_2)
qed (simp add: SubDomains_def)

section \<open>Spellings of a host\<close>

lemma of_char_lower:
  "(of_char (lower c) :: nat) = (if 65 \<le> (of_char c :: nat) \<and> (of_char c :: nat) \<le> 90 then of_char c + 32 else of_char c)"
  by (simp add: lower_def)

definition caseless :: "char \<Rightarrow> bool" where
  "caseless d \<longleftrightarrow> (of_char d :: nat) < 65 \<or> (90 < (of_char d :: nat) \<and> (of_char d :: nat) < 97)"

lemma caseless_punctuation [simp]:
  "caseless (CHR '':'')" "caseless (CHR ''['')" "caseless (CHR '']'')" "caseless (CHR ''.'')"
  by (simp_all add: caseless_def)

lemma char_eq_nat: "c = d \<longleftrightarrow> (of_char c :: nat) = of_char d"
  by (metis of_char_eq_iff)

lemma lower_lower [simp]: "lower (lower c) = lower c"
  unfolding char_eq_nat [of "lower (lower c)"] by (simp add: of_char_lower)

lemma lower_eq_caseless: "caseless d \<Longrightarrow> lower c = d \<longleftrightarrow> c = d"
  unfolding char_eq_nat by (auto simp: of_char_lower caseless_def)

lemma ToLower_ToLower [simp]: "ToLower (ToLower s) = ToLower s"
  by (simp add: ToLower_def)

lemma ToLower_simps [simp]:
  "length (ToLower s) = length s" "ToLower s = [] \<longleftrightarrow> s = []" "take n (ToLower s) = ToLower (take n s)"
  "drop n (ToLower s) = ToLower (drop n s)" "rev (ToLower s) = ToLower (rev s)"
  by (simp_all add: ToLower_def take_map drop_map rev_map)

lemma IndexByte_ToLower: "caseless d \<Longrightarrow> IndexByte (ToLower s) d = IndexByte s d"
  by (induction s) (auto simp: ToLower_def lower_eq_caseless)

lemma set_ToLower: "caseless d \<Longrightarrow> d \<in> set (ToLower s) \<longleftrightarrow> d \<in> set s"
  by (metis IndexByte_None_iff IndexByte_ToLower)

lemma ToLower_eq_caseless: "list_all caseless p \<Longrightarrow> ToLower s = p \<longleftrightarrow> s = p"
  by (induction p arbitrary: s) (auto simp: ToLower_def lower_eq_caseless map_eq_Cons_conv)

lemma HasPrefix_ToLower: "list_all caseless p \<Longrightarrow> HasPrefix (ToLower s) p \<longleftrightarrow> HasPrefix s p"
  by (simp add: HasPrefix_def ToLower_eq_caseless)

lemma HasSuffix_ToLower: "list_all caseless p \<Longrightarrow> HasSuffix (ToLower s) p \<longleftrightarrow> HasSuffix s p"
  by (simp add: HasSuffix_def ToLower_eq_caseless)

lemma nth_ToLower: "caseless d \<Longrightarrow> i < length s \<Longrightarrow> ToLower s ! i = d \<longleftrightarrow> s ! i = d"
  by (simp add: ToLower_def lower_eq_caseless)

lemma SplitHostPort_ToLower:
  "SplitHostPort (ToLower s) = map_option (map_prod ToLower ToLower) (SplitHostPort s)"
proof (cases "LastIndexByte s (CHR '':'')")
  case None
  then show ?thesis by (simp add: SplitHostPort_def LastIndexByte_def IndexByte_ToLower)
next
  case (Some i)
  then have "s \<noteq> []" by (auto simp: LastIndexByte_def)
  then show ?thesis
    using Some by (auto simp: SplitHostPort_def LastIndexByte_def IndexByte_ToLower nth_ToLower set_ToLower
        split: option.splits if_splits)
qed

lemma TrimSuffix_ToLower: "list_all caseless p \<Longrightarrow> TrimSuffix (ToLower s) p = ToLower (TrimSuffix s p)"
  by (simp add: TrimSuffix_def HasSuffix_ToLower)

lemma NormalizeHost_ToLower [simp]: "NormalizeHost (ToLower s) = NormalizeHost s"
proof -
  have "ToLower ''.'' = ''.''" by (simp add: ToLower_def lower_def)
  then show ?thesis
    by (auto simp: NormalizeHost_def Let_def IndexByte_ToLower HasPrefix_ToLower HasSuffix_ToLower set_ToLower
        SplitHostPort_ToLower TrimSuffix_ToLower split: option.split)
qed

lemma SplitHostPort_no_port: "SplitHostPort (CHR ''['' # h @ [CHR '']'']) = None" if "bare h"
proof -
  have "IndexByte (CHR ''['' # h @ [CHR '']'']) (CHR '']'') = Some (length h + 1)"
    using IndexByte_append [of "CHR '']''" "CHR ''['' # h" "[]"] that by (simp add: bare_def)
  then show ?thesis by (simp add: SplitHostPort_def split: option.split)
qed

definition host_key :: "string \<Rightarrow> string" where
  "host_key h = ToLower (TrimSuffix h ''.'')"

lemma NormalizeHost_plain: "CHR '':'' \<notin> set h \<Longrightarrow> CHR ''['' \<notin> set h \<Longrightarrow> NormalizeHost h = host_key h"
  by (cases h) (auto simp: NormalizeHost_def host_key_def HasPrefix_def TrimSuffix_def HasSuffix_def ToLower_def)

lemma NormalizeHost_port:
  assumes "bare h" "CHR '':'' \<notin> set h" "bare p" "CHR '':'' \<notin> set p"
  shows "NormalizeHost (h @ CHR '':'' # p) = host_key h"
  using SplitHostPort_plain [OF assms] by (simp add: NormalizeHost_def host_key_def)

lemma NormalizeHost_bracketed:
  assumes "bare h" "bare p" "CHR '':'' \<notin> set p"
  shows "NormalizeHost (CHR ''['' # h @ CHR '']'' # CHR '':'' # p) = host_key h"
    "NormalizeHost (CHR ''['' # h @ [CHR '']'']) = host_key h"
  using SplitHostPort_bracketed [OF assms] SplitHostPort_no_port [OF assms(1)]
  by (simp_all add: NormalizeHost_def host_key_def HasPrefix_def HasSuffix_def)

lemma host_key_dot: "\<not> HasSuffix h ''.'' \<Longrightarrow> host_key (h @ ''.'') = host_key h"
  by (auto simp: host_key_def TrimSuffix_def HasSuffix_def)

section \<open>Rules as a specification\<close>

text \<open>
  The abstract reading of a rule file: each usable line is one rule, a rule is a predicate on
  normalised hosts, and a set matches a host when one of its rules does.
\<close>

datatype Rule = Domain_rule string | IP_rule bytes | CIDR_rule IPNet | Pattern_rule string

definition rule_of :: "regexp_lib \<Rightarrow> string \<Rightarrow> (Kind \<times> go_error) + Rule" where
  "rule_of lib line =
     (if HasPrefix line ''regexp:'' then
        (if TrimPrefix line ''regexp:'' = [] then Inl (KindRegexp, Msg ''empty pattern'')
         else case reCompile lib (''(?i)'' @ TrimPrefix line ''regexp:'') of
                Some e \<Rightarrow> Inl (KindRegexp, e) | None \<Rightarrow> Inr (Pattern_rule (''(?i)'' @ TrimPrefix line ''regexp:'')))
      else if CHR ''*'' \<in> set line then
        (case GlobToRegexp lib line of
           Inl e \<Rightarrow> Inl (KindGlob, e)
         | Inr re \<Rightarrow> (case reCompile lib (''(?i)'' @ re) of
                        Some e \<Rightarrow> Inl (KindGlob, e) | None \<Rightarrow> Inr (Pattern_rule (''(?i)'' @ re))))
      else
        (case ParseCIDR line of
           Some n \<Rightarrow> Inr (CIDR_rule n)
         | None \<Rightarrow> (case ParseIP line of
                      Some ip \<Rightarrow> Inr (IP_rule (canonicalIP ip))
                    | None \<Rightarrow> Inr (Domain_rule (normalizeDomainKey line)))))"

fun rule_hit :: "regexp_lib \<Rightarrow> Rule \<Rightarrow> string \<Rightarrow> bool" where
  "rule_hit lib (Domain_rule k) host \<longleftrightarrow> \<not> IsIP host \<and> (host = k \<or> k \<in> set (SubDomains host))"
| "rule_hit lib (Pattern_rule re) host \<longleftrightarrow> \<not> IsIP host \<and> reMatch lib re host"
| "rule_hit lib (IP_rule k) host \<longleftrightarrow> map_option canonicalIP (ParseIP host) = Some k"
| "rule_hit lib (CIDR_rule n) host \<longleftrightarrow> (case ParseIP host of Some ip \<Rightarrow> Contains n ip | None \<Rightarrow> False)"

definition set_rules :: "Set \<Rightarrow> Rule set" where
  "set_rules s = Domain_rule ` setDomains s \<union> IP_rule ` setIps s \<union>
     CIDR_rule ` set (setCidrs s) \<union> Pattern_rule ` set (setPatterns s)"

text \<open>What counts as a rule: a line that is neither blank nor, where allowed, a comment.\<close>

definition effective :: "bool \<Rightarrow> string \<Rightarrow> bool" where
  "effective allow line \<longleftrightarrow>
     TrimSpace line \<noteq> [] \<and> \<not> (allow \<and> HasPrefix (TrimSpace line) ''#'')"

definition usable :: "regexp_lib \<Rightarrow> bool \<Rightarrow> string \<Rightarrow> Rule option" where
  "usable lib allow line =
     (if effective allow line then (case rule_of lib (TrimSpace line) of Inr r \<Rightarrow> Some r | Inl _ \<Rightarrow> None)
      else None)"

definition unusable :: "regexp_lib \<Rightarrow> bool \<Rightarrow> nat \<Rightarrow> string \<Rightarrow> Error option" where
  "unusable lib allow i line =
     (if effective allow line
      then (case rule_of lib (TrimSpace line) of
              Inl (k, e) \<Rightarrow> Some \<lparr>erIndex = i, erLine = TrimSpace line, erKind = k, erErr = e\<rparr>
            | Inr _ \<Rightarrow> None)
      else None)"

lemma set_rules_New [simp]: "set_rules New_Set = {}"
  by (simp add: set_rules_def New_Set_def)

lemma set_rules_count [simp]: "set_rules (count k s) = set_rules s"
  by (simp add: set_rules_def count_def)

lemma set_rules_addIP [simp]: "set_rules (snd (addIPLocked k s)) = insert (IP_rule k) (set_rules s)"
  by (auto simp: addIPLocked_def) (auto simp: set_rules_def)

lemma set_rules_addDomain [simp]:
  "set_rules (snd (addDomainLocked k s)) = insert (Domain_rule k) (set_rules s)"
  by (auto simp: addDomainLocked_def) (auto simp: set_rules_def)

lemma builder_add_rule:
  "builder_add lib line s =
     (case rule_of lib line of
        Inl (k, e) \<Rightarrow> (Some \<lparr>erIndex = 0, erLine = [], erKind = k, erErr = e\<rparr>, s)
      | Inr r \<Rightarrow> (None, snd (builder_add lib line s)))"
  and builder_add_set: "rule_of lib line = Inr r \<Longrightarrow>
     set_rules (snd (builder_add lib line s)) = insert r (set_rules s)"
proof -
  have pat: "set_rules (s\<lparr>setPatterns := setPatterns s @ [re]\<rparr>) = insert (Pattern_rule re) (set_rules s)"
    and net: "set_rules (s\<lparr>setCidrs := setCidrs s @ [n]\<rparr>) = insert (CIDR_rule n) (set_rules s)" for re n
    by (auto simp: set_rules_def)
  note defs = builder_add_def rule_of_def regexp_Compile_def Let_def
  have "(builder_add lib line s =
     (case rule_of lib line of
        Inl (k, e) \<Rightarrow> (Some \<lparr>erIndex = 0, erLine = [], erKind = k, erErr = e\<rparr>, s)
      | Inr r \<Rightarrow> (None, snd (builder_add lib line s)))) \<and>
     (rule_of lib line = Inr r \<longrightarrow> set_rules (snd (builder_add lib line s)) = insert r (set_rules s))"
  proof (cases "HasPrefix line ''regexp:''")
    case True
    then show ?thesis
      by (cases "TrimPrefix line ''regexp:'' = []"; cases "reCompile lib (''(?i)'' @ TrimPrefix line ''regexp:'')")
        (simp_all add: defs pat)
  next
    case no: False
    show ?thesis
    proof (cases "CHR ''*'' \<in> set line")
      case True
      with no show ?thesis
        by (cases "GlobToRegexp lib line"; cases "reCompile lib (''(?i)'' @ projr (GlobToRegexp lib line))")
          (simp_all add: defs pat)
    next
      case False
      with no show ?thesis
        by (cases "ParseCIDR line"; cases "ParseIP line") (simp_all add: defs net)
    qed
  qed
  then show "builder_add lib line s =
     (case rule_of lib line of
        Inl (k, e) \<Rightarrow> (Some \<lparr>erIndex = 0, erLine = [], erKind = k, erErr = e\<rparr>, s)
      | Inr r \<Rightarrow> (None, snd (builder_add lib line s)))"
    "rule_of lib line = Inr r \<Longrightarrow> set_rules (snd (builder_add lib line s)) = insert r (set_rules s)" by blast+
qed

lemma parse_from_spec:
  "set_rules (fst (parse_from lib allow i lines (s, errs))) =
     set_rules s \<union> {r. \<exists>l \<in> set lines. usable lib allow l = Some r} \<and>
   snd (parse_from lib allow i lines (s, errs)) =
     errs @ List.map_filter (\<lambda>(j, l). unusable lib allow j l) (enumerate i lines)"
proof (induction lines arbitrary: i s errs)
  case Nil
  then show ?case by (simp add: List.map_filter_def)
next
  case (Cons line lines)
  show ?case
  proof (cases "effective allow line")
    case False
    then show ?thesis
      using Cons by (auto simp: effective_def usable_def unusable_def List.map_filter_def)
  next
    case True
    then have step: "\<not> (TrimSpace line = [] \<or> allow \<and> HasPrefix (TrimSpace line) ''#'')"
      by (simp add: effective_def)
    show ?thesis
    proof (cases "rule_of lib (TrimSpace line)")
      case (Inl ke)
      obtain k e where ke: "ke = (k, e)" by (cases ke)
      have "builder_add lib (TrimSpace line) s = (Some \<lparr>erIndex = 0, erLine = [], erKind = k, erErr = e\<rparr>, s)"
        using builder_add_rule [of lib "TrimSpace line" s] by (simp add: Inl ke)
      then show ?thesis
        using step True Inl ke Cons
        by (auto simp: usable_def unusable_def List.map_filter_def Let_def)
    next
      case (Inr r)
      obtain s' where s': "builder_add lib (TrimSpace line) s = (None, s')"
        using builder_add_rule [of lib "TrimSpace line" s] by (simp add: Inr)
      moreover have "set_rules s' = insert r (set_rules s)"
        using builder_add_set [OF Inr, of s] s' by simp
      ultimately show ?thesis
        using step True Inr Cons by (auto simp: usable_def unusable_def List.map_filter_def Let_def)
    qed
  qed
qed

lemma MatchHost_rules:
  "MatchHost lib (Some s) h \<longleftrightarrow>
     NormalizeHost h \<noteq> [] \<and> (\<exists>r \<in> set_rules s. rule_hit lib r (NormalizeHost h))"
proof (cases "ParseIP (NormalizeHost h)")
  case None
  then show ?thesis
    by (auto simp: MatchHost_def MatchHostKind_def matchDomainLocked_def Let_def set_rules_def IsIP_def
        list_ex_iff bex_Un)
next
  case (Some ip)
  then show ?thesis
    by (auto simp: MatchHost_def MatchHostKind_def matchIPLocked_def Let_def set_rules_def IsIP_def
        list_ex_iff bex_Un)
qed

section \<open>Counters of a set\<close>

definition set_ok :: "Set \<Rightarrow> bool" where
  "set_ok s \<longleftrightarrow>
     finite (setDomains s) \<and> finite (setIps s) \<and>
     setCounts s KindDomain = card (setDomains s) \<and> setCounts s KindIP = card (setIps s) \<and>
     setCounts s KindCIDR = length (setCidrs s) \<and>
     setCounts s KindGlob + setCounts s KindRegexp = length (setPatterns s)"

lemma set_ok_New [simp]: "set_ok New_Set"
  by (simp add: set_ok_def New_Set_def)

lemma set_ok_add [simp]:
  "set_ok s \<Longrightarrow> set_ok (snd (addIPLocked k s))" "set_ok s \<Longrightarrow> set_ok (snd (addDomainLocked d s))"
  by (auto simp: set_ok_def addIPLocked_def addDomainLocked_def count_def)

lemma set_ok_builder [simp]: "set_ok s \<Longrightarrow> set_ok (snd (builder_add lib line s))"
  by (auto simp: builder_add_def Let_def split: option.split sum.split)
    (auto simp: set_ok_def count_def)

lemma set_ok_parse: "set_ok s \<Longrightarrow> set_ok (fst (parse_from lib allow i lines (s, errs)))"
proof (induction lines arbitrary: i s errs)
  case (Cons line lines)
  obtain e s' where b: "builder_add lib (TrimSpace line) s = (e, s')" by fastforce
  then have "set_ok s'" using set_ok_builder [OF Cons.prems, of lib "TrimSpace line"] by simp
  then show ?case using Cons b by (cases e) (simp_all add: Let_def)
qed simp

section \<open>Globs\<close>

text \<open>
  The fragment of the expression language that \<open>GlobToRegexp\<close> produces: quoted characters and
  \<open>.*\<close> between the anchors. \<open>glob_match\<close> is what package \<open>regexp\<close> documents for it under the
  flag \<open>i\<close>: the dot is any character but a newline and letters are compared without case.
\<close>

datatype gtok = Lit char | Star

fun render :: "gtok list \<Rightarrow> string" where
  "render [] = []"
| "render (Lit c # ts) = QuoteMeta [c] @ render ts"
| "render (Star # ts) = ''.*'' @ render ts"

fun glob_match :: "gtok list \<Rightarrow> string \<Rightarrow> bool" where
  "glob_match [] s = (s = [])"
| "glob_match (Lit c # ts) s = (case s of [] \<Rightarrow> False | x # xs \<Rightarrow> lower c = lower x \<and> glob_match ts xs)"
| "glob_match (Star # ts) [] = glob_match ts []"
| "glob_match (Star # ts) (x # xs) = (glob_match ts (x # xs) \<or> (x \<noteq> CHR 0x0A \<and> glob_match (Star # ts) xs))"

definition glob_tokens :: "string \<Rightarrow> gtok list" where
  "glob_tokens g = map (\<lambda>c. if c = CHR ''*'' then Star else Lit c) g"

definition glob_source :: "gtok list \<Rightarrow> string" where
  "glob_source ts = CHR 0x5E # render ts @ ''$''"

text \<open>What the code relies on of the engine.\<close>

definition engine_matches_globs :: "regexp_lib \<Rightarrow> bool" where
  "engine_matches_globs lib \<longleftrightarrow>
     (\<forall>ts. reCompile lib (glob_source ts) = None \<and> reCompile lib (''(?i)'' @ glob_source ts) = None \<and>
           reMatch lib (''(?i)'' @ glob_source ts) = glob_match ts)"

lemma ReplaceAll_skip: "c \<noteq> hd old \<Longrightarrow> old \<noteq> [] \<Longrightarrow> ReplaceAll (c # s) old new = c # ReplaceAll s old new"
  by (cases old) (auto simp: HasPrefix_def)

lemma ReplaceAll_QuoteMeta:
  "ReplaceAll (QuoteMeta g) [CHR 0x5C, CHR ''*''] ''.*'' = render (glob_tokens g)"
proof (induction g)
  case (Cons c g)
  consider "c = CHR ''*''" | "c \<noteq> CHR ''*''" "c \<in> set meta_chars" | "c \<notin> set meta_chars" by blast
  then show ?case
  proof cases
    case 1
    then show ?thesis using Cons by (simp add: meta_chars_def HasPrefix_def glob_tokens_def)
  next
    case 2
    then have q: "QuoteMeta (c # g) = CHR 0x5C # c # QuoteMeta g" by simp
    have "ReplaceAll (c # QuoteMeta g) [CHR 0x5C, CHR ''*''] ''.*'' = c # render (glob_tokens g)"
    proof (cases "c = CHR 0x5C")
      case True
      have "\<not> HasPrefix (c # QuoteMeta g) [CHR 0x5C, CHR ''*'']"
        by (cases g) (auto simp: HasPrefix_def meta_chars_def)
      then show ?thesis using Cons by simp
    next
      case False
      then show ?thesis using Cons ReplaceAll_skip [of c "[CHR 0x5C, CHR ''*'']" "QuoteMeta g" "''.*''"] by simp
    qed
    then show ?thesis using 2 q by (simp add: HasPrefix_def glob_tokens_def)
  next
    case 3
    then have "c \<noteq> CHR 0x5C" "c \<noteq> CHR ''*''" by (auto simp: meta_chars_def)
    then show ?thesis
      using 3 Cons ReplaceAll_skip [of c "[CHR 0x5C, CHR ''*'']" "QuoteMeta g" "''.*''"]
      by (simp add: glob_tokens_def)
  qed
qed (simp add: glob_tokens_def)

lemma rule_of_glob:
  assumes "engine_matches_globs lib" "CHR ''*'' \<in> set g" "\<not> HasPrefix g ''regexp:''"
  shows "rule_of lib g = Inr (Pattern_rule (''(?i)'' @ glob_source (glob_tokens g)))"
proof -
  have "GlobToRegexp lib g = Inr (glob_source (glob_tokens g))"
    using assms(1) ReplaceAll_QuoteMeta [of g]
    by (simp add: GlobToRegexp_def regexp_Compile_def engine_matches_globs_def glob_source_def Let_def)
  then show ?thesis using assms by (simp add: rule_of_def engine_matches_globs_def)
qed

text \<open>A leading star: the usual \<open>*.example.com\<close> is any host that ends in the rest.\<close>

lemma glob_match_literal: "glob_match (map Lit p) s \<longleftrightarrow> ToLower s = ToLower p"
  by (induction p arbitrary: s) (auto simp: ToLower_def split: list.split)

lemma glob_match_Star:
  "glob_match (Star # ts) s \<longleftrightarrow> (\<exists>u v. s = u @ v \<and> CHR 0x0A \<notin> set u \<and> glob_match ts v)"
proof (induction s)
  case (Cons x xs)
  have "(\<exists>u v. x # xs = u @ v \<and> CHR 0x0A \<notin> set u \<and> glob_match ts v) \<longleftrightarrow>
      glob_match ts (x # xs) \<or> (\<exists>u v. xs = u @ v \<and> CHR 0x0A \<notin> set (x # u) \<and> glob_match ts v)"
    (is "?l \<longleftrightarrow> ?r")
  proof
    assume ?l
    then obtain u v where "x # xs = u @ v" "CHR 0x0A \<notin> set u" "glob_match ts v" by blast
    then show ?r by (cases u) auto
  next
    assume ?r
    then show ?l
    proof
      assume "\<exists>u v. xs = u @ v \<and> CHR 0x0A \<notin> set (x # u) \<and> glob_match ts v"
      then obtain u v where "xs = u @ v" "CHR 0x0A \<notin> set (x # u)" "glob_match ts v" by blast
      then show ?l by (intro exI [of _ "x # u"] exI [of _ v]) simp
    qed (intro exI [of _ "[]"] exI [of _ "x # xs"], simp)
  qed
  with Cons show ?case by auto
qed simp

text \<open>An engine for the fragment: it reads the source back into tokens.\<close>

function tokens_of :: "string \<Rightarrow> gtok list" where
  "tokens_of [] = []"
| "tokens_of (c # s) =
     (if c = CHR 0x5C \<and> s \<noteq> [] then Lit (hd s) # tokens_of (tl s)
      else if c = CHR ''.'' \<and> s \<noteq> [] \<and> hd s = CHR ''*'' then Star # tokens_of (tl s)
      else Lit c # tokens_of s)"
  by pat_completeness auto
termination
  by (relation "measure length") auto

definition glob_engine :: regexp_lib where
  "glob_engine = \<lparr>reCompile = (\<lambda>_. None), reMatch = (\<lambda>src. glob_match (tokens_of (butlast (drop 5 src))))\<rparr>"

lemma tokens_of_render: "tokens_of (render ts) = ts"
  by (induction ts rule: render.induct) (auto simp: meta_chars_def)

lemma glob_engine_ok: "engine_matches_globs glob_engine"
  by (simp add: engine_matches_globs_def glob_engine_def glob_source_def tokens_of_render butlast_append)

section \<open>Properties\<close>

text \<open>
  C29. A rule file means the union of its usable lines: the set that \<open>ParseLines\<close> builds matches a
  host exactly when one of these lines does, by the reading of a single line that \<open>rule_of\<close> and
  \<open>rule_hit\<close> give; every other line that is neither blank nor a comment is reported once, in
  order, with its line number; and the counters of the set agree with its contents.
\<close>

theorem rule_files_refine:
  "(MatchHost lib (Some (fst (ParseLines lib allow lines))) host \<longleftrightarrow>
      NormalizeHost host \<noteq> [] \<and>
      (\<exists>r \<in> {r. \<exists>l \<in> set lines. usable lib allow l = Some r}. rule_hit lib r (NormalizeHost host))) \<and>
   snd (ParseLines lib allow lines) =
     List.map_filter (\<lambda>(i, l). unusable lib allow i l) (enumerate 0 lines) \<and>
   set_ok (fst (ParseLines lib allow lines))"
  unfolding ParseLines_def MatchHost_rules
  using parse_from_spec [of lib allow 0 lines New_Set "[]"] set_ok_parse [OF set_ok_New, of lib allow 0 lines "[]"]
  by simp

lemma SplitHostPort_colons:
  assumes "bare (a @ CHR '':'' # b @ CHR '':'' # c)"
  shows "SplitHostPort (a @ CHR '':'' # b @ CHR '':'' # c) = None"
proof -
  let ?v = "a @ CHR '':'' # b @ CHR '':'' # c"
  obtain u w where v: "?v = u @ CHR '':'' # w" "CHR '':'' \<notin> set w"
    using split_list_last [of "CHR '':''" ?v] by auto
  have "length w \<le> length c"
  proof (rule ccontr)
    assume "\<not> length w \<le> length c"
    then have "CHR '':'' \<in> set (drop (length ?v - length w) ?v)"
      by (simp add: drop_append drop_Cons')
    moreover have "drop (length ?v - length w) ?v = w" by (simp only: v(1)) simp
    ultimately have "CHR '':'' \<in> set w" by (simp only:)
    then show False using v(2) by simp
  qed
  moreover have len: "length a + 2 + length b + length c = length u + 1 + length w"
    using arg_cong [OF v(1), of length] by simp
  ultimately have "length a < length u" by simp
  then have "CHR '':'' \<in> set u"
    using arg_cong [OF v(1), of "\<lambda>x. x ! length a"] by (simp add: nth_append)
  moreover have "?v ! 0 \<noteq> CHR ''[''" using assms by (cases a) (auto simp: bare_def)
  moreover have "LastIndexByte ?v (CHR '':'') = Some (length u)" by (simp only: v(1) LastIndexByte_append [OF v(2)])
  moreover have "take (length u) ?v = u" by (simp only: v(1)) simp
  ultimately show ?thesis by (simp add: SplitHostPort_def)
qed

lemma NormalizeHost_v6:
  assumes "bare (a @ CHR '':'' # b @ CHR '':'' # c)"
  shows "NormalizeHost (a @ CHR '':'' # b @ CHR '':'' # c) = host_key (a @ CHR '':'' # b @ CHR '':'' # c)"
proof -
  have "\<not> HasPrefix (a @ CHR '':'' # b @ CHR '':'' # c) ''[''"
    using assms by (cases a) (auto simp: bare_def HasPrefix_def)
  then show ?thesis using SplitHostPort_colons [OF assms] by (simp add: NormalizeHost_def host_key_def)
qed

lemma match_normalized:
  "NormalizeHost x = NormalizeHost y \<Longrightarrow> MatchHostKind lib so x = MatchHostKind lib so y"
  "NormalizeHost x = NormalizeHost y \<Longrightarrow> DomainSet_Match lib dso x sub = DomainSet_Match lib dso y sub"
  by (simp_all add: MatchHostKind_def DomainSet_Match_def split: option.split)

text \<open>
  The spelling of a host does not matter to rule sets and domain lists: a port, capital letters
  and the final dot of a fully qualified name change nothing, and an IPv6 address matches alike
  with a port, in brackets and bare.
\<close>

theorem host_spelling_irrelevant:
  fixes host v6 port :: string
  assumes "bare host" "CHR '':'' \<notin> set host" "bare port" "CHR '':'' \<notin> set port"
    and "v6 = a @ CHR '':'' # b @ CHR '':'' # c" "bare v6"
  shows "MatchHostKind lib so (host @ '':'' @ port) = MatchHostKind lib so host \<and>
    MatchHostKind lib so (ToLower host) = MatchHostKind lib so host \<and>
    (\<not> HasSuffix host ''.'' \<longrightarrow> MatchHostKind lib so (host @ ''.'') = MatchHostKind lib so host) \<and>
    MatchHostKind lib so (''['' @ v6 @ '']:'' @ port) = MatchHostKind lib so v6 \<and>
    MatchHostKind lib so (''['' @ v6 @ '']'') = MatchHostKind lib so v6 \<and>
    DomainSet_Match lib dso (host @ '':'' @ port) sub = DomainSet_Match lib dso host sub \<and>
    DomainSet_Match lib dso (ToLower host) sub = DomainSet_Match lib dso host sub \<and>
    (\<not> HasSuffix host ''.'' \<longrightarrow> DomainSet_Match lib dso (host @ ''.'') sub = DomainSet_Match lib dso host sub)"
proof -
  have host: "NormalizeHost host = host_key host"
    using assms by (simp add: NormalizeHost_plain bare_def)
  have port: "NormalizeHost (host @ '':'' @ port) = NormalizeHost host"
    using NormalizeHost_port [OF assms(1-4)] host by simp
  have dot: "\<not> HasSuffix host ''.'' \<Longrightarrow> NormalizeHost (host @ ''.'') = NormalizeHost host"
    using assms host by (subst NormalizeHost_plain) (auto simp: bare_def host_key_dot)
  have v6: "NormalizeHost (''['' @ v6 @ '']:'' @ port) = NormalizeHost v6"
      "NormalizeHost (''['' @ v6 @ '']'') = NormalizeHost v6"
    using NormalizeHost_bracketed [OF assms(6) assms(3,4)] NormalizeHost_v6 [of a b c] assms(5,6) by simp_all
  show ?thesis
    by (intro conjI impI match_normalized;
        (rule port | rule v6 | rule NormalizeHost_ToLower | rule dot, assumption))
qed

theorem host_spelling_irrelevant_witness:
  "MatchHostKind glob_engine (Some (fst (ParseLines glob_engine True [''example.com'', ''2001:db8::1''])))
     ''Example.com:443'' = (KindDomain, True) \<and>
   MatchHostKind glob_engine (Some (fst (ParseLines glob_engine True [''example.com'', ''2001:db8::1''])))
     ''[2001:db8::1]:443'' = (KindIP, True)"
proof -
  let ?s = "Some (fst (ParseLines glob_engine True [''example.com'', ''2001:db8::1'']))"
  have "MatchHostKind glob_engine ?s ''Example.com'' = (KindDomain, True)"
    "MatchHostKind glob_engine ?s ''2001:db8::1'' = (KindIP, True)"
    by code_simp+
  then show ?thesis
    using host_spelling_irrelevant [of "''Example.com''" "''443''" "''2001:db8::1''" "''2001''" "''db8''" "'':1''"
        glob_engine ?s None True]
    by (simp add: bare_def)
qed

text \<open>
  A rule with a star is a glob: it is always usable, and it matches a host name, never an
  address, exactly when the whole name fits the pattern without regard to case, a star standing for
  any characters; in particular \<open>*.example.com\<close> takes every name that ends in \<open>.example.com\<close>.
\<close>

theorem glob_rules_match_globs:
  assumes "engine_matches_globs lib" "CHR ''*'' \<in> set g" "\<not> HasPrefix g ''regexp:''"
    and "TrimSpace g = g" "\<not> HasPrefix g ''#''"
  shows "snd (ParseLines lib allow [g]) = [] \<and>
    (MatchHost lib (Some (fst (ParseLines lib allow [g]))) host \<longleftrightarrow>
       NormalizeHost host \<noteq> [] \<and> \<not> IsIP (NormalizeHost host) \<and>
       glob_match (glob_tokens g) (NormalizeHost host)) \<and>
    (g = CHR ''*'' # p \<and> CHR ''*'' \<notin> set p \<longrightarrow>
       (glob_match (glob_tokens g) host \<longleftrightarrow>
          (\<exists>u v. host = u @ v \<and> CHR 0x0A \<notin> set u \<and> ToLower v = ToLower p)))"
proof -
  have ne: "g \<noteq> []" using assms(2) by auto
  have lits: "CHR ''*'' \<notin> set p \<Longrightarrow> map (\<lambda>c. if c = CHR ''*'' then Star else Lit c) p = map Lit p"
    by (induction p) auto
  have u: "usable lib allow g = Some (Pattern_rule (''(?i)'' @ glob_source (glob_tokens g)))"
    and n: "unusable lib allow 0 g = None"
    using rule_of_glob [OF assms(1-3)] assms(4,5) ne by (simp_all add: usable_def unusable_def effective_def)
  have "reMatch lib (''(?i)'' @ glob_source (glob_tokens g)) = glob_match (glob_tokens g)"
    using assms(1) unfolding engine_matches_globs_def by blast
  moreover have "snd (ParseLines lib allow [g]) = []"
    using n parse_from_spec [of lib allow 0 "[g]" New_Set "[]"] by (simp add: ParseLines_def List.map_filter_def)
  ultimately show ?thesis
    using u parse_from_spec [of lib allow 0 "[g]" New_Set "[]"]
    by (auto simp: MatchHost_rules ParseLines_def glob_tokens_def lits glob_match_Star glob_match_literal
        simp del: glob_match.simps(3,4))
qed

text \<open>
  A domain rule covers its subtree: among names made of labels, a set of domain rules takes the
  name itself and every name below a listed domain of at least two labels, so that a listed
  top-level domain does not take the names below it. Domain lists agree when asked to.
\<close>

theorem domain_rules_cover_subtrees:
  assumes "list_all label ls" "ls \<noteq> []" "setPatterns s = []"
  shows "snd (matchDomainLocked lib s (join ls)) \<longleftrightarrow>
    (\<exists>ks. suffix ks ls \<and> (ks = ls \<or> 2 \<le> length ks) \<and> join ks \<in> setDomains s)"
proof -
  have "(\<exists>x \<in> set (SubDomains (join ls)). x \<in> setDomains s) \<longleftrightarrow>
      (\<exists>k. 1 \<le> k \<and> k < length ls - 1 \<and> join (drop k ls) \<in> setDomains s)"
    by (auto simp: SubDomains_join [OF assms(1)])
  also have "\<dots> \<longleftrightarrow> (\<exists>ks. suffix ks ls \<and> ks \<noteq> ls \<and> 2 \<le> length ks \<and> join ks \<in> setDomains s)"
    (is "?l \<longleftrightarrow> ?r")
  proof
    assume ?l
    then obtain k where "1 \<le> k" "k < length ls - 1" "join (drop k ls) \<in> setDomains s" by blast
    moreover have "drop k ls \<noteq> ls"
    proof
      assume "drop k ls = ls"
      then have "length ls - k = length ls" by (metis length_drop)
      then show False using \<open>1 \<le> k\<close> \<open>k < length ls - 1\<close> by simp
    qed
    ultimately show ?r by (intro exI [of _ "drop k ls"]) (auto simp: suffix_drop)
  next
    assume ?r
    then obtain ks us where "ls = us @ ks" "us \<noteq> []" "2 \<le> length ks" "join ks \<in> setDomains s"
      by (auto simp: suffix_def)
    then show ?l by (intro exI [of _ "length us"]) (auto simp: Suc_le_eq)
  qed
  finally show ?thesis
    using assms(3) by (auto simp: matchDomainLocked_def list_ex_iff)
qed

lemma Set_Len_ok:
  "set_ok s \<Longrightarrow> Set_Len (Some s) =
     card (setDomains s) + card (setIps s) + length (setCidrs s) + length (setPatterns s)"
  by (simp add: set_ok_def Set_Len_def)

lemma AddIP_cases:
  "AddIP ip (Some s) =
     (case ParseIP ip of
        None \<Rightarrow> (False, Some s)
      | Some a \<Rightarrow> (canonicalIP a \<notin> setIps s, Some (snd (addIPLocked (canonicalIP a) s))))"
  by (simp add: AddIP_def addIPLocked_def split: option.split)

lemma AddDomain_cases:
  "AddDomain d (Some s) =
     (if NormalizeHost d = [] then (False, Some s)
      else (NormalizeHost d \<notin> setDomains s, Some (snd (addDomainLocked (NormalizeHost d) s))))"
  by (simp add: AddDomain_def addDomainLocked_def Let_def)

lemma learn_len:
  assumes "set_ok s"
  shows "Set_Len (Some (snd (addIPLocked k s))) = Set_Len (Some s) + (if k \<notin> setIps s then 1 else 0)"
    "Set_Len (Some (snd (addDomainLocked d s))) = Set_Len (Some s) + (if d \<notin> setDomains s then 1 else 0)"
  using assms by (simp_all add: Set_Len_def addIPLocked_def addDomainLocked_def count_def)

text \<open>
  Learning an address or a domain adds exactly that rule: the set then matches what it matched
  before and the hosts of the new rule, an IPv4-mapped address counting as the IPv4 address; the
  result says whether the entry is new, and the counters stay right.
\<close>

theorem learning_adds_one_rule:
  fixes ip d :: string and s :: Set
  assumes "set_ok s"
  defines "s1 \<equiv> the (snd (AddIP ip (Some s)))" and "s2 \<equiv> the (snd (AddDomain d (Some s)))"
  shows "set_ok s1 \<and> set_ok s2 \<and>
    Set_Len (Some s1) = Set_Len (Some s) + (if fst (AddIP ip (Some s)) then 1 else 0) \<and>
    Set_Len (Some s2) = Set_Len (Some s) + (if fst (AddDomain d (Some s)) then 1 else 0) \<and>
    (MatchHost lib (Some s1) host \<longleftrightarrow> MatchHost lib (Some s) host \<or>
       (IsIP ip \<and> map_option canonicalIP (ParseIP (NormalizeHost host)) = map_option canonicalIP (ParseIP ip))) \<and>
    (MatchHost lib (Some s2) host \<longleftrightarrow> MatchHost lib (Some s) host \<or>
       (NormalizeHost d \<noteq> [] \<and> NormalizeHost host \<noteq> [] \<and>
        rule_hit lib (Domain_rule (NormalizeHost d)) (NormalizeHost host)))"
proof (intro conjI)
  have empty: "ParseIP [] = None" by (simp add: ParseIP_def ParseAddr_def)
  show "set_ok s1" "set_ok s2"
    using assms(1) by (simp_all add: s1_def s2_def AddIP_cases AddDomain_cases split: option.split)
  show "Set_Len (Some s1) = Set_Len (Some s) + (if fst (AddIP ip (Some s)) then 1 else 0)"
    "Set_Len (Some s2) = Set_Len (Some s) + (if fst (AddDomain d (Some s)) then 1 else 0)"
    using learn_len [OF assms(1)] by (simp_all add: s1_def s2_def AddIP_cases AddDomain_cases split: option.split)
  show "MatchHost lib (Some s1) host \<longleftrightarrow> MatchHost lib (Some s) host \<or>
       (IsIP ip \<and> map_option canonicalIP (ParseIP (NormalizeHost host)) = map_option canonicalIP (ParseIP ip))"
    using empty by (cases "ParseIP ip"; cases "NormalizeHost host = []")
      (auto simp: s1_def AddIP_cases MatchHost_rules IsIP_def)
  show "MatchHost lib (Some s2) host \<longleftrightarrow> MatchHost lib (Some s) host \<or>
       (NormalizeHost d \<noteq> [] \<and> NormalizeHost host \<noteq> [] \<and>
        rule_hit lib (Domain_rule (NormalizeHost d)) (NormalizeHost host))"
    by (auto simp: s2_def AddDomain_cases MatchHost_rules)
qed

theorem learning_adds_one_rule_witness:
  "MatchHost glob_engine (Some (the (snd (AddIP ''::ffff:1.2.3.4'' (Some New_Set))))) ''1.2.3.4:443'' \<and>
   MatchHost glob_engine (Some (the (snd (AddDomain ''Example.com.'' (Some New_Set))))) ''www.example.com''"
proof -
  have "IsIP ''::ffff:1.2.3.4''"
    "map_option canonicalIP (ParseIP (NormalizeHost ''1.2.3.4:443'')) = map_option canonicalIP (ParseIP ''::ffff:1.2.3.4'')"
    "NormalizeHost ''Example.com.'' \<noteq> []" "NormalizeHost ''www.example.com'' \<noteq> []"
    "rule_hit glob_engine (Domain_rule (NormalizeHost ''Example.com.'')) (NormalizeHost ''www.example.com'')"
    by code_simp+
  then show ?thesis
    using learning_adds_one_rule [OF set_ok_New, of "''::ffff:1.2.3.4''" d glob_engine "''1.2.3.4:443''" for d]
      learning_adds_one_rule [OF set_ok_New, of ip "''Example.com.''" glob_engine "''www.example.com''" for ip]
    by (simp only:) blast
qed

theorem glob_rules_match_globs_witness:
  "MatchHost glob_engine (Some (fst (ParseLines glob_engine True [''*.example.com'']))) ''WWW.Example.com''"
proof -
  have "glob_match (glob_tokens ''*.example.com'') (NormalizeHost ''WWW.Example.com'')"
    "NormalizeHost ''WWW.Example.com'' \<noteq> []" "\<not> IsIP (NormalizeHost ''WWW.Example.com'')"
    "TrimSpace ''*.example.com'' = ''*.example.com''"
    by code_simp+
  then show ?thesis
    using glob_rules_match_globs [OF glob_engine_ok, of "''*.example.com''" True "''WWW.Example.com''" "[]"]
    by (simp add: HasPrefix_def)
qed

theorem domain_rules_cover_subtrees_witness:
  "snd (matchDomainLocked glob_engine (New_Set\<lparr>setDomains := {''example.com'', ''org''}\<rparr>) ''www.example.com'') \<and>
   \<not> snd (matchDomainLocked glob_engine (New_Set\<lparr>setDomains := {''example.com'', ''org''}\<rparr>) ''example.org'')"
proof -
  have a: "snd (matchDomainLocked glob_engine (New_Set\<lparr>setDomains := {''example.com'', ''org''}\<rparr>)
      (join [''www'', ''example'', ''com'']))"
    by (subst domain_rules_cover_subtrees)
      (auto simp: label_def New_Set_def intro!: exI [of _ "[''example'', ''com'']"] suffixI [of _ "[''www'']"])
  have "\<not> snd (matchDomainLocked glob_engine (New_Set\<lparr>setDomains := {''example.com'', ''org''}\<rparr>)
      (join [''example'', ''org'']))"
    by code_simp
  with a show ?thesis by simp
qed

text \<open>A line that does not fit the reader's buffer is cut: its first 4096 bytes become a line of their own.\<close>

lemma long_lines_are_cut:
  assumes "length data \<ge> bufSize" "CHR 0x0A \<notin> set (take bufSize data)" "data ! (bufSize - 1) \<noteq> CHR 0x0D"
  shows "read_lines data = take bufSize data # read_lines (drop bufSize data)"
proof -
  have "last (take bufSize data) = data ! (bufSize - 1)"
    using assms(1) by (subst last_conv_nth) (auto simp: bufSize_def)
  moreover have "data \<noteq> []" using assms(1) by (auto simp: bufSize_def)
  ultimately have "ReadLine data = Some (take bufSize data, drop bufSize data)"
    using assms by (simp add: ReadLine_def)
  then show ?thesis by (subst read_lines.simps) simp
qed

end
