(* ===== verification/NextProxy.thy ===== *)
theory NextProxy
  imports DnsMsg Matching Config
begin

text \<open>
  \<open>server/nextproxy/nextproxy.go\<close>: the upstream proxy of the server, the rules that say which hosts go
  through it, and the entries learnt from DNS answers. A \<open>nil\<close> receiver is \<open>None\<close>. \<open>url.Parse\<close> is a
  parameter; connecting to the proxy is left to the library it calls.
\<close>

section \<open>The proxy\<close>

record proxy_url =
  urlScheme :: string
  urlHost :: string
  urlUser :: "(string \<times> string option) option"

record NextProxy =
  npxURL :: proxy_url
  npxEnableUDP :: bool
  npxAllHost :: bool
  npxDialTimeout :: int
  npxRules :: Set
  npxLearnedIPs :: nat
  npxLearnedDomains :: nat

definition NextProxy_New :: "(string \<Rightarrow> proxy_url result) \<Rightarrow> string \<Rightarrow> bool \<Rightarrow> bool \<Rightarrow> NextProxy option result" where
  "NextProxy_New parse proxyURL enableUDP allHost =
     (if proxyURL = [] then Inr None
      else case parse proxyURL of
             Inl err \<Rightarrow> Inl err
           | Inr u \<Rightarrow>
               (if urlScheme u \<noteq> ''socks5'' then Inl (Msg (''unsupported next proxy scheme '' @ urlScheme u))
                else Inr (Some \<lparr>npxURL = u, npxEnableUDP = enableUDP, npxAllHost = allHost,
                            npxDialTimeout = tDial (NewTimeouts 0), npxRules = New_Set, npxLearnedIPs = 0,
                            npxLearnedDomains = 0\<rparr>)))"

definition LoadProxyFile ::
  "regexp_lib \<Rightarrow> (string \<Rightarrow> rule_file) \<Rightarrow> string \<Rightarrow> NextProxy option \<Rightarrow> go_error option \<times> NextProxy option" where
  "LoadProxyFile lib fs proxyFile npo =
     (case npo of
        None \<Rightarrow> (None, None)
      | Some np \<Rightarrow>
          (if proxyFile = [] then (None, Some np)
           else case ParseFile lib fs True proxyFile of
                  (_, _, Some err) \<Rightarrow> (Some err, Some np)
                | (s, parseErrs, None) \<Rightarrow>
                    (case FileError proxyFile parseErrs of
                       Some err \<Rightarrow> (Some err, Some np)
                     | None \<Rightarrow> (None, Some (np\<lparr>npxRules := s\<rparr>)))))"

definition np_ShouldProxy :: "regexp_lib \<Rightarrow> NextProxy option \<Rightarrow> string \<Rightarrow> bool" where
  "np_ShouldProxy lib npo host =
     (case npo of
        None \<Rightarrow> False
      | Some np \<Rightarrow> (if npxAllHost np then True else MatchHost lib (Some (npxRules np)) host))"

definition IsCustomDomain :: "regexp_lib \<Rightarrow> NextProxy option \<Rightarrow> string \<Rightarrow> bool" where
  "IsCustomDomain lib npo domain = (case npo of None \<Rightarrow> False | Some np \<Rightarrow> HasDomain lib (Some (npxRules np)) domain)"

definition maxLearnedEntries :: nat where
  "maxLearnedEntries = 4096"

definition np_AddIP :: "string \<Rightarrow> NextProxy option \<Rightarrow> NextProxy option" where
  "np_AddIP ip npo =
     (case npo of
        None \<Rightarrow> None
      | Some np \<Rightarrow>
          (if ParseIP ip = None then npo
           else if npxLearnedIPs np \<ge> maxLearnedEntries then npo
           else case AddIP ip (Some (npxRules np)) of
                  (True, Some s) \<Rightarrow> Some (np\<lparr>npxRules := s, npxLearnedIPs := Suc (npxLearnedIPs np)\<rparr>)
                | _ \<Rightarrow> npo))"

definition np_AddDomain :: "string \<Rightarrow> NextProxy option \<Rightarrow> NextProxy option" where
  "np_AddDomain domain npo =
     (case npo of
        None \<Rightarrow> None
      | Some np \<Rightarrow>
          (if npxLearnedDomains np \<ge> maxLearnedEntries then npo
           else case AddDomain domain (Some (npxRules np)) of
                  (True, Some s) \<Rightarrow> Some (np\<lparr>npxRules := s, npxLearnedDomains := Suc (npxLearnedDomains np)\<rparr>)
                | _ \<Rightarrow> npo))"

definition SetDialTimeout :: "int \<Rightarrow> NextProxy option \<Rightarrow> NextProxy option" where
  "SetDialTimeout d npo = map_option (\<lambda>np. np\<lparr>npxDialTimeout := d\<rparr>) npo"

definition credentials :: "NextProxy \<Rightarrow> (string \<times> string) option" where
  "credentials np =
     (case urlUser (npxURL np) of
        None \<Rightarrow> None
      | Some (user, pw) \<Rightarrow>
          (let password = (case pw of None \<Rightarrow> [] | Some p \<Rightarrow> p)
           in if user = [] \<and> password = [] then None else Some (user, password)))"

definition np_Host :: "NextProxy option \<Rightarrow> string" where
  "np_Host npo = (case npo of None \<Rightarrow> [] | Some np \<Rightarrow> urlHost (npxURL np))"

definition EnableUDP :: "NextProxy option \<Rightarrow> bool" where
  "EnableUDP npo = (case npo of None \<Rightarrow> False | Some np \<Rightarrow> npxEnableUDP np)"

section \<open>Learning\<close>

datatype learn_step = Learn_IP string | Learn_Domain string

fun learn :: "learn_step \<Rightarrow> NextProxy option \<Rightarrow> NextProxy option" where
  "learn (Learn_IP ip) npo = np_AddIP ip npo"
| "learn (Learn_Domain d) npo = np_AddDomain d npo"

text \<open>
  How the rules of a proxy relate to the rules it started with: what was learnt is what the counters
  say, and nothing else has changed.
\<close>

definition learnt_from :: "NextProxy \<Rightarrow> NextProxy \<Rightarrow> bool" where
  "learnt_from np0 np \<longleftrightarrow>
     (\<exists>ips ds. setIps (npxRules np) = setIps (npxRules np0) \<union> ips \<and> ips \<inter> setIps (npxRules np0) = {} \<and> finite ips \<and>
        card ips = npxLearnedIPs np - npxLearnedIPs np0 \<and> npxLearnedIPs np0 \<le> npxLearnedIPs np \<and>
        setDomains (npxRules np) = setDomains (npxRules np0) \<union> ds \<and> ds \<inter> setDomains (npxRules np0) = {} \<and> finite ds \<and>
        card ds = npxLearnedDomains np - npxLearnedDomains np0 \<and> npxLearnedDomains np0 \<le> npxLearnedDomains np) \<and>
     setCidrs (npxRules np) = setCidrs (npxRules np0) \<and> setPatterns (npxRules np) = setPatterns (npxRules np0) \<and>
     npxLearnedIPs np \<le> maxLearnedEntries \<and> npxLearnedDomains np \<le> maxLearnedEntries \<and>
     npxAllHost np = npxAllHost np0 \<and> npxEnableUDP np = npxEnableUDP np0 \<and> npxURL np = npxURL np0 \<and>
     npxDialTimeout np = npxDialTimeout np0"

lemma learnt_refl:
  "npxLearnedIPs np \<le> maxLearnedEntries \<Longrightarrow> npxLearnedDomains np \<le> maxLearnedEntries \<Longrightarrow> learnt_from np np"
  by (auto simp: learnt_from_def intro!: exI [of _ "{}"])

lemma np_AddIP_cases:
  "np_AddIP ip (Some np) = Some np \<or>
   (\<exists>k. k \<notin> setIps (npxRules np) \<and> npxLearnedIPs np < maxLearnedEntries \<and>
      np_AddIP ip (Some np) = Some (np\<lparr>npxRules := snd (addIPLocked k (npxRules np)), npxLearnedIPs := Suc (npxLearnedIPs np)\<rparr>))"
  by (auto simp: np_AddIP_def AddIP_def addIPLocked_def split: option.splits)

lemma np_AddDomain_cases:
  "np_AddDomain d (Some np) = Some np \<or>
   (\<exists>k. k \<notin> setDomains (npxRules np) \<and> npxLearnedDomains np < maxLearnedEntries \<and>
      np_AddDomain d (Some np) =
        Some (np\<lparr>npxRules := snd (addDomainLocked k (npxRules np)), npxLearnedDomains := Suc (npxLearnedDomains np)\<rparr>))"
  by (auto simp: np_AddDomain_def AddDomain_def addDomainLocked_def Let_def)

lemma learnt_ip:
  assumes "learnt_from np0 np" "k \<notin> setIps (npxRules np)" "npxLearnedIPs np < maxLearnedEntries"
  shows "learnt_from np0 (np\<lparr>npxRules := snd (addIPLocked k (npxRules np)), npxLearnedIPs := Suc (npxLearnedIPs np)\<rparr>)"
proof -
  obtain ips where "setIps (npxRules np) = setIps (npxRules np0) \<union> ips" "ips \<inter> setIps (npxRules np0) = {}" "finite ips"
      "card ips = npxLearnedIPs np - npxLearnedIPs np0" "npxLearnedIPs np0 \<le> npxLearnedIPs np"
    using assms(1) by (auto simp: learnt_from_def)
  then have "\<exists>ips. setIps (snd (addIPLocked k (npxRules np))) = setIps (npxRules np0) \<union> ips \<and> ips \<inter> setIps (npxRules np0) = {} \<and>
      finite ips \<and> card ips = Suc (npxLearnedIPs np) - npxLearnedIPs np0 \<and> npxLearnedIPs np0 \<le> Suc (npxLearnedIPs np)"
    using assms(2) by (intro exI [of _ "insert k ips"]) (auto simp: addIPLocked_def count_def)
  then show ?thesis using assms unfolding learnt_from_def by (auto simp: addIPLocked_def count_def)
qed

lemma learnt_domain:
  assumes "learnt_from np0 np" "k \<notin> setDomains (npxRules np)" "npxLearnedDomains np < maxLearnedEntries"
  shows "learnt_from np0 (np\<lparr>npxRules := snd (addDomainLocked k (npxRules np)), npxLearnedDomains := Suc (npxLearnedDomains np)\<rparr>)"
proof -
  obtain ds where "setDomains (npxRules np) = setDomains (npxRules np0) \<union> ds" "ds \<inter> setDomains (npxRules np0) = {}" "finite ds"
      "card ds = npxLearnedDomains np - npxLearnedDomains np0" "npxLearnedDomains np0 \<le> npxLearnedDomains np"
    using assms(1) by (auto simp: learnt_from_def)
  then have "\<exists>ds. setDomains (snd (addDomainLocked k (npxRules np))) = setDomains (npxRules np0) \<union> ds \<and>
      ds \<inter> setDomains (npxRules np0) = {} \<and> finite ds \<and> card ds = Suc (npxLearnedDomains np) - npxLearnedDomains np0 \<and>
      npxLearnedDomains np0 \<le> Suc (npxLearnedDomains np)"
    using assms(2) by (intro exI [of _ "insert k ds"]) (auto simp: addDomainLocked_def count_def)
  then show ?thesis using assms unfolding learnt_from_def by (auto simp: addDomainLocked_def count_def)
qed

lemma learn_keeps:
  assumes "learnt_from np0 np"
  shows "\<exists>np'. learn st (Some np) = Some np' \<and> learnt_from np0 np'"
  using np_AddIP_cases [of _ np] np_AddDomain_cases [of _ np] learnt_ip [OF assms] learnt_domain [OF assms] assms
  by (cases st) fastforce+

lemma learn_all_keeps:
  "learnt_from np0 np \<Longrightarrow> \<exists>np'. fold learn sts (Some np) = Some np' \<and> learnt_from np0 np'"
proof (induction sts arbitrary: np)
  case (Cons st sts)
  then show ?case using learn_keeps [OF Cons.prems, of st] by auto
qed auto

text \<open>More addresses and domains never unmatch a host.\<close>

lemma MatchHost_mono:
  assumes "setIps s \<subseteq> setIps s'" "setDomains s \<subseteq> setDomains s'" "setCidrs s' = setCidrs s" "setPatterns s' = setPatterns s"
    and "MatchHost lib (Some s) host"
  shows "MatchHost lib (Some s') host"
proof -
  have ip: "snd (matchIPLocked s a) \<Longrightarrow> snd (matchIPLocked s' a)" for a
    using assms(1,3) by (auto simp: matchIPLocked_def Let_def split: if_splits)
  have dom: "snd (matchDomainLocked lib s h) \<Longrightarrow> snd (matchDomainLocked lib s' h)" for h
    using assms(2,4) by (auto simp: matchDomainLocked_def list_ex_iff split: if_splits)
  show ?thesis using assms(5) ip dom
    by (auto simp: MatchHost_def MatchHostKind_def Let_def split: if_splits option.splits)
qed

text \<open>
  What DNS answers can do to the routing of the server is bounded: from a proxy that has learnt
  nothing yet, however many addresses and domains the answers bring, at most 4096 addresses and 4096
  domains are added to its rules. The configured rules stay, and a host that went through the upstream
  proxy before still does.
\<close>

theorem learning_bounded:
  assumes "npxLearnedIPs np = 0" "npxLearnedDomains np = 0"
  shows "\<exists>np'. fold learn sts (Some np) = Some np' \<and>
    setIps (npxRules np) \<subseteq> setIps (npxRules np') \<and> card (setIps (npxRules np') - setIps (npxRules np)) \<le> 4096 \<and>
    setDomains (npxRules np) \<subseteq> setDomains (npxRules np') \<and> card (setDomains (npxRules np') - setDomains (npxRules np)) \<le> 4096 \<and>
    (\<forall>host. np_ShouldProxy lib (Some np) host \<longrightarrow> np_ShouldProxy lib (Some np') host)"
proof -
  have "learnt_from np np" using assms by (intro learnt_refl) simp_all
  then obtain np' where f: "fold learn sts (Some np) = Some np'" "learnt_from np np'" using learn_all_keeps by blast
  then obtain ips ds where l: "setIps (npxRules np') = setIps (npxRules np) \<union> ips" "ips \<inter> setIps (npxRules np) = {}"
      "card ips = npxLearnedIPs np'" "setDomains (npxRules np') = setDomains (npxRules np) \<union> ds"
      "ds \<inter> setDomains (npxRules np) = {}" "card ds = npxLearnedDomains np'"
    using assms by (auto simp: learnt_from_def)
  have "setIps (npxRules np') - setIps (npxRules np) = ips" "setDomains (npxRules np') - setDomains (npxRules np) = ds"
    using l by auto
  moreover have "np_ShouldProxy lib (Some np') host" if "np_ShouldProxy lib (Some np) host" for host
    using that f(2) MatchHost_mono [of "npxRules np" "npxRules np'" lib host] l
    by (auto simp: np_ShouldProxy_def learnt_from_def split: if_splits)
  ultimately show ?thesis using f l by (auto simp: learnt_from_def maxLearnedEntries_def)
qed

definition demo_proxy :: NextProxy where
  "demo_proxy = \<lparr>npxURL = \<lparr>urlScheme = ''socks5'', urlHost = ''10.0.0.1:1080'', urlUser = None\<rparr>, npxEnableUDP = True,
     npxAllHost = False, npxDialTimeout = 0, npxRules = New_Set\<lparr>setDomains := {''example.com''}\<rparr>, npxLearnedIPs = 0,
     npxLearnedDomains = 0\<rparr>"

theorem learning_bounded_witness:
  "\<exists>np'. fold learn [Learn_Domain ''cdn.example.net'', Learn_IP ''8.8.8.8''] (Some demo_proxy) = Some np' \<and>
    ''example.com'' \<in> setDomains (npxRules np') \<and> card (setDomains (npxRules np') - {''example.com''}) \<le> 4096"
  using learning_bounded [of demo_proxy "[Learn_Domain ''cdn.example.net'', Learn_IP ''8.8.8.8'']" glob_engine]
  by (auto simp: demo_proxy_def)

end
