(* ===== verification/UdpSession.thy ===== *)
theory UdpSession
  imports NextProxy ServerSession
begin

text \<open>
  \<open>server/handler/udp.go\<close> and \<open>udp_dns.go\<close>: one UDP stream of a client. Datagrams go to one connection to
  the target and come back from it; when the target is a resolver, every query may ask for another
  route, direct or through the upstream proxy, and the connection is exchanged under the session.

  Connections are numbered in the order they are opened, and what the session does to them is kept in
  a trace. The main loop is driven by the list of what its \<open>select\<close> receives.
\<close>

section \<open>Routes\<close>

datatype dnsRoute = dnsRouteDirect | dnsRouteNextProxy

definition viaNextProxy :: "dnsRoute \<Rightarrow> bool" where
  "viaNextProxy r \<longleftrightarrow> r = dnsRouteNextProxy"

definition dnsPort :: string where
  "dnsPort = ''53''"

definition isDNSPort :: "string \<Rightarrow> bool" where
  "isDNSPort target = (case SplitHostPort target of None \<Rightarrow> False | Some (_, port) \<Rightarrow> port = dnsPort)"

definition dnsProxyAvailable :: "NextProxy option \<Rightarrow> bool" where
  "dnsProxyAvailable npo \<longleftrightarrow> npo \<noteq> None \<and> EnableUDP npo"

definition routeForDomain :: "regexp_lib \<Rightarrow> NextProxy option \<Rightarrow> string \<Rightarrow> dnsRoute" where
  "routeForDomain lib npo domain =
     (if dnsProxyAvailable npo \<and> domain \<noteq> [] \<and> np_ShouldProxy lib npo domain then dnsRouteNextProxy else dnsRouteDirect)"

section \<open>The session\<close>

record dnsState =
  dstEnabled :: bool
  dstRouter :: bool
  dstRouteSel :: dnsRoute
  dstDialDomain :: string
  dstRebindFailedAt :: "int option"
  dstChecked :: bool
  dstIntercept :: bool

datatype udp_effect = Dialled nat dnsRoute | Dropped nat | Watched nat | Wrote nat bytes

record 'n udpSession =
  usConn :: "nat option"
  usRemote :: string
  usConnRoute :: "dnsRoute option"
  usTarget :: string
  usDns :: dnsState
  usReaderRunning :: bool
  usTransferred :: int
  usClosed :: bool
  usNextProxy :: "NextProxy option"
  usNet :: 'n
  usOpened :: nat
  usTrace :: "udp_effect list"

text \<open>What a session uses of its surroundings; \<open>uwWrite\<close> is \<open>conn.Write\<close> on a connection.\<close>

record 'n udp_world =
  uwDialer :: "'n dialer"
  uwCtx :: dial_ctx
  uwRegexp :: regexp_lib
  uwDNS :: dns_lib
  uwWrite :: "nat \<Rightarrow> bytes \<Rightarrow> 'n \<Rightarrow> go_error option \<times> 'n"

definition uw_now :: "'n udp_world \<Rightarrow> 'n \<Rightarrow> int" where
  "uw_now w n = nwNow (dlNetwork (uwDialer w)) n"

definition note_effect :: "udp_effect \<Rightarrow> 'n udpSession \<Rightarrow> 'n udpSession" where
  "note_effect e s = s\<lparr>usTrace := usTrace s @ [e]\<rparr>"

definition upstreamRoute :: "'n udpSession \<Rightarrow> dnsRoute option" where
  "upstreamRoute s = (if usConn s = None then None else usConnRoute s)"

definition startUpstreamReader :: "nat \<Rightarrow> 'n udpSession \<Rightarrow> 'n udpSession" where
  "startUpstreamReader c s = note_effect (Watched c) s"

definition installUpstream :: "nat \<Rightarrow> string \<Rightarrow> dnsRoute \<Rightarrow> bool \<Rightarrow> 'n udpSession \<Rightarrow> nat option \<times> 'n udpSession" where
  "installUpstream c remote route watch s =
     (let old = usConn s; s = s\<lparr>usConn := Some c, usRemote := remote, usConnRoute := Some route\<rparr>
      in (old, if watch then startUpstreamReader c s else s))"

definition closeUpstream :: "'n udpSession \<Rightarrow> 'n udpSession" where
  "closeUpstream s =
     (let old = usConn s; s = s\<lparr>usConn := None, usConnRoute := None\<rparr>
      in case old of None \<Rightarrow> s | Some c \<Rightarrow> note_effect (Dropped c) s)"

text \<open>
  \<open>dialRoute\<close>: with a router the route decides between the two branches of \<open>dialVia\<close>, without one it
  is handed on. A connection that comes back gets the next number.
\<close>

definition router_dialRoute ::
  "'n udp_world \<Rightarrow> string \<Rightarrow> dnsRoute \<Rightarrow> 'n \<Rightarrow> (conn \<times> string) result \<times> attempt list \<times> 'n" where
  "router_dialRoute w target route n =
     (if \<not> viaNextProxy route then dialVia (uwDialer w) (uwCtx w) target False n
      else dialVia (uwDialer w) (uwCtx w) target True n)"

definition udp_dialRoute :: "'n udp_world \<Rightarrow> dnsRoute \<Rightarrow> 'n udpSession \<Rightarrow> (nat \<times> string) result \<times> 'n udpSession" where
  "udp_dialRoute w route s =
     (case (if dstRouter (usDns s) then router_dialRoute w (usTarget s) route (usNet s)
            else dialVia (uwDialer w) (uwCtx w) (usTarget s) (viaNextProxy route) (usNet s)) of
        (Inl err, _, n) \<Rightarrow> (Inl err, s\<lparr>usNet := n\<rparr>)
      | (Inr (_, remote), _, n) \<Rightarrow>
          (Inr (usOpened s, remote), note_effect (Dialled (usOpened s) route) (s\<lparr>usNet := n, usOpened := Suc (usOpened s)\<rparr>)))"

definition openUpstream :: "'n udp_world \<Rightarrow> string \<Rightarrow> dnsRoute \<Rightarrow> 'n udpSession \<Rightarrow> go_error option \<times> 'n udpSession" where
  "openUpstream w domain route s =
     (case udp_dialRoute w route s of
        (Inl err, s) \<Rightarrow> (Some (if domain \<noteq> [] then Wrap (''dns upstream dial for '' @ domain) [err] else err), s)
      | (Inr (c, remote), s) \<Rightarrow> (None, snd (installUpstream c remote route (usReaderRunning s) s)))"

definition rebindRoute :: "'n udp_world \<Rightarrow> dnsRoute \<Rightarrow> 'n udpSession \<Rightarrow> 'n udpSession" where
  "rebindRoute w route s =
     (case udp_dialRoute w route s of
        (Inl _, s) \<Rightarrow> s\<lparr>usDns := (usDns s)\<lparr>dstRebindFailedAt := Some (uw_now w (usNet s))\<rparr>\<rparr>
      | (Inr (c, remote), s) \<Rightarrow>
          (let s = s\<lparr>usDns := (usDns s)\<lparr>dstRebindFailedAt := None\<rparr>\<rparr>
           in case installUpstream c remote route True s of
                (None, s) \<Rightarrow> s
              | (Some old, s) \<Rightarrow> note_effect (Dropped old) s))"

definition rebindCooldown :: int where
  "rebindCooldown = 10 * 1000000000"

definition rebindCoolingDown :: "int \<Rightarrow> dnsState \<Rightarrow> bool" where
  "rebindCoolingDown now d = (case dstRebindFailedAt d of None \<Rightarrow> False | Some t \<Rightarrow> now - t < rebindCooldown)"

section \<open>Looking at the datagrams\<close>

definition dnsQueryDomain :: "dns_lib \<Rightarrow> bytes \<Rightarrow> string option" where
  "dnsQueryDomain lib payload =
     (case dnUnpack lib payload of
        None \<Rightarrow> None
      | Some msg \<Rightarrow>
          (if \<not> IsDNSRequest msg then None
           else case mQuestion msg of q # _ \<Rightarrow> Some (TrimSuffix (qName q) ''.'') | [] \<Rightarrow> None))"

definition targetRoute :: "'n udp_world \<Rightarrow> 'n udpSession \<Rightarrow> dnsRoute" where
  "targetRoute w s =
     (if usNextProxy s \<noteq> None \<and> EnableUDP (usNextProxy s) \<and> np_ShouldProxy (uwRegexp w) (usNextProxy s) (usTarget s)
      then dnsRouteNextProxy else dnsRouteDirect)"

definition noteDNSQuery :: "'n udp_world \<Rightarrow> bytes \<Rightarrow> 'n udpSession \<Rightarrow> 'n udpSession" where
  "noteDNSQuery w payload s =
     (case dnsQueryDomain (uwDNS w) payload of
        None \<Rightarrow> s
      | Some domain \<Rightarrow>
          (let route = (if dstRouter (usDns s) then routeForDomain (uwRegexp w) (usNextProxy s) domain else dnsRouteDirect);
               s = s\<lparr>usDns := (usDns s)\<lparr>dstIntercept := True, dstRouteSel := route, dstDialDomain := domain\<rparr>\<rparr>
           in case upstreamRoute s of
                None \<Rightarrow> s
              | Some connRoute \<Rightarrow>
                  (if connRoute \<noteq> route
                   then (if rebindCoolingDown (uw_now w (usNet s)) (usDns s) then s else rebindRoute w route s)
                   else s)))"

definition observeDNSFrame :: "'n udp_world \<Rightarrow> bytes \<Rightarrow> 'n udpSession \<Rightarrow> 'n udpSession" where
  "observeDNSFrame w payload s =
     (if dstEnabled (usDns s) then noteDNSQuery w payload s
      else if dstChecked (usDns s) then s
      else let s = s\<lparr>usDns := (usDns s)\<lparr>dstChecked := True\<rparr>\<rparr>
           in case dnsQueryDomain (uwDNS w) payload of
                None \<Rightarrow> s
              | Some _ \<Rightarrow> s\<lparr>usDns := (usDns s)\<lparr>dstIntercept := True\<rparr>\<rparr>)"

definition upstreamOrDial :: "'n udp_world \<Rightarrow> 'n udpSession \<Rightarrow> nat result \<times> 'n udpSession" where
  "upstreamOrDial w s =
     (case usConn s of
        Some c \<Rightarrow> (Inr c, s)
      | None \<Rightarrow>
          (let route = (if dstEnabled (usDns s) \<and> dstRouter (usDns s) then dstRouteSel (usDns s)
                        else if \<not> dstEnabled (usDns s) then targetRoute w s
                        else dnsRouteDirect)
           in case openUpstream w (dstDialDomain (usDns s)) route s of
                (Some err, s) \<Rightarrow> (Inl err, s)
              | (None, s) \<Rightarrow>
                  (case usConn s of
                     None \<Rightarrow> (Inl (Msg ''udp upstream not established''), s)
                   | Some c \<Rightarrow> (Inr c, s))))"

definition conn_Write :: "'n udp_world \<Rightarrow> nat \<Rightarrow> bytes \<Rightarrow> 'n udpSession \<Rightarrow> go_error option \<times> 'n udpSession" where
  "conn_Write w c payload s =
     (case uwWrite w c payload (usNet s) of
        (Some err, n) \<Rightarrow> (Some err, s\<lparr>usNet := n\<rparr>)
      | (None, n) \<Rightarrow> (None, note_effect (Wrote c payload) (s\<lparr>usNet := n\<rparr>)))"

definition observeClientFrame :: "'n udp_world \<Rightarrow> Frame \<Rightarrow> 'n udpSession \<Rightarrow> bool result \<times> 'n udpSession" where
  "observeClientFrame w f s =
     (if fType f \<noteq> FrameDATAGRAM \<or> fPayload f = []
      then (Inr (\<not> (fType f = FrameFIN \<or> fType f = FrameRST)), s)
      else let s = observeDNSFrame w (fPayload f) s
           in case upstreamOrDial w s of
                (Inl err, s) \<Rightarrow> (Inl err, s)
              | (Inr c, s) \<Rightarrow>
                  (case conn_Write w c (fPayload f) s of
                     (Some err, s) \<Rightarrow> (Inl err, s)
                   | (None, s) \<Rightarrow> (Inr True, s)))"

definition maybeDNS :: "dns_lib \<Rightarrow> bytes \<Rightarrow> dns_Msg option" where
  "maybeDNS lib payload =
     (if payload = [] then None
      else case dnUnpack lib payload of
             None \<Rightarrow> None
           | Some msg \<Rightarrow> (if \<not> IsDNSResponse msg then None else Some msg))"

definition learn_answer :: "string \<times> string \<Rightarrow> learn_step" where
  "learn_answer kv = (case kv of (kind, value) \<Rightarrow> if kind = ''CNAME'' then Learn_Domain value else Learn_IP value)"

definition learnFromDNS :: "'n udp_world \<Rightarrow> bytes \<Rightarrow> 'n udpSession \<Rightarrow> 'n udpSession" where
  "learnFromDNS w payload s =
     (if usNextProxy s = None \<or> \<not> dstIntercept (usDns s) then s
      else case maybeDNS (uwDNS w) payload of
             None \<Rightarrow> s
           | Some msg \<Rightarrow>
               (case mQuestion msg of
                  [] \<Rightarrow> s
                | q # _ \<Rightarrow>
                    (if \<not> IsCustomDomain (uwRegexp w) (usNextProxy s) (TrimSuffix (qName q) ''.'') then s
                     else s\<lparr>usNextProxy := fold learn (map learn_answer (dns_answers msg)) (usNextProxy s)\<rparr>)))"

section \<open>The readers\<close>

text \<open>
  One turn of \<open>readFromTarget\<close> on connection \<open>c\<close>: a datagram is cut to the capacity of the buffer by the
  read; \<open>tooLong\<close> is \<open>IsUDPMessageTooLong\<close>, which depends on the platform.
\<close>

datatype reader_turn = Reader_stops | Reader_skips | Reader_fails go_error | Reader_forwards bytes

definition udpBufSize :: nat where
  "udpBufSize = MaxUDPDataSize"

definition reader_turn ::
  "(go_error \<Rightarrow> bool) \<Rightarrow> nat \<Rightarrow> nat \<Rightarrow> nat option \<Rightarrow> bytes result \<Rightarrow> reader_turn" where
  "reader_turn tooLong capacity c upstream read =
     (case read of
        Inl err \<Rightarrow>
          (if upstream \<noteq> Some c then Reader_stops else if tooLong err then Reader_skips else Reader_fails err)
      | Inr datagram \<Rightarrow>
          (let readBuf = take capacity datagram
           in if length readBuf > udpBufSize then Reader_skips
              else if readBuf = [] then Reader_skips
              else Reader_forwards readBuf))"

definition targetReadError :: "(go_error \<Rightarrow> bool) \<Rightarrow> bool \<Rightarrow> go_error \<Rightarrow> go_error" where
  "targetReadError timeout sessionClosed err =
     (if errors_is err net_ErrClosed \<or> errors_is err os_ErrDeadlineExceeded then io_EOF
      else if timeout err then io_EOF
      else if sessionClosed then io_EOF
      else err)"

section \<open>The main loop\<close>

datatype udp_event =
    Target_result nat "bytes result"
  | Client_frame "Frame result"
  | Idle_expired
  | Session_done

definition udp_event ::
  "'n udp_world \<Rightarrow> (go_error \<Rightarrow> bool) \<Rightarrow> 's sender \<Rightarrow> udp_event \<Rightarrow> 'n udpSession \<Rightarrow> 's \<Rightarrow>
     (streamResult option \<times> 'n udpSession \<times> 's) outcome" where
  "udp_event w timeout tx ev s sh =
     (case ev of
        Session_done \<Rightarrow> Done (Some no_result, s, sh)
      | Idle_expired \<Rightarrow> Done (Some (no_result\<lparr>srTimedOut := True\<rparr>), s, sh)
      | Target_result c (Inl err) \<Rightarrow>
          (if Some c \<noteq> usConn s then Done (None, s, sh)
           else Done (Some (no_result\<lparr>srErr := Some (targetReadError timeout (usClosed s) err)\<rparr>), s, sh))
      | Target_result c (Inr payload) \<Rightarrow>
          (let s = s\<lparr>usTransferred := usTransferred s + int (length payload)\<rparr>;
               s = (if dstIntercept (usDns s) then learnFromDNS w payload s else s)
           in case NewFrameWithPayload FrameDATAGRAM payload of
                Inl _ \<Rightarrow> Panics ''payload too large''
              | Inr frame \<Rightarrow>
                  obind (sdFrame tx frame sh) (\<lambda>(r, sh).
                    case r of
                      Inl err \<Rightarrow> Done (Some (no_result\<lparr>srErr := Some err\<rparr>), s, sh)
                    | Inr _ \<Rightarrow> Done (None, s, sh)))
      | Client_frame (Inl err) \<Rightarrow> Done (Some (no_result\<lparr>srErr := Some err\<rparr>), s, sh)
      | Client_frame (Inr f) \<Rightarrow>
          (case observeClientFrame w f s of
             (Inl err, s) \<Rightarrow> Done (Some (no_result\<lparr>srErr := Some err\<rparr>), s, sh)
           | (Inr alive, s) \<Rightarrow> Done (if alive then None else Some no_result, s, sh)))"

fun udp_loop ::
  "'n udp_world \<Rightarrow> (go_error \<Rightarrow> bool) \<Rightarrow> 's sender \<Rightarrow> udp_event list \<Rightarrow> 'n udpSession \<Rightarrow> 's \<Rightarrow>
     (streamResult option \<times> 'n udpSession \<times> 's) outcome" where
  "udp_loop w timeout tx [] s sh = Done (None, s, sh)"
| "udp_loop w timeout tx (ev # evs) s sh =
     obind (udp_event w timeout tx ev s sh) (\<lambda>(r, s, sh).
       case r of Some res \<Rightarrow> Done (Some res, s, sh) | None \<Rightarrow> udp_loop w timeout tx evs s sh)"

definition udp_close :: "'n udpSession \<Rightarrow> 'n udpSession" where
  "udp_close s = (if usClosed s then s else (closeUpstream s)\<lparr>usClosed := True\<rparr>)"

text \<open>\<open>run\<close>; there is no result while the events that are given do not end the session.\<close>

definition udp_run ::
  "'n udp_world \<Rightarrow> (go_error \<Rightarrow> bool) \<Rightarrow> 's sender \<Rightarrow> udp_event list \<Rightarrow> 'n udpSession \<Rightarrow> 's \<Rightarrow>
     (streamResult option \<times> 'n udpSession \<times> 's) outcome" where
  "udp_run w timeout tx evs s sh =
     (let s = s\<lparr>usReaderRunning := True\<rparr>;
          s = (case usConn s of None \<Rightarrow> s | Some c \<Rightarrow> startUpstreamReader c s)
      in obind (udp_loop w timeout tx evs s sh) (\<lambda>(r, s, sh).
           case r of
             None \<Rightarrow> Done (None, s, sh)
           | Some res \<Rightarrow>
               (let s = udp_close s
                in Done (Some (res\<lparr>srRemote := usRemote s, srBytes := usTransferred s\<rparr>), s, sh))))"

definition newUDPSession :: "string \<Rightarrow> bool \<Rightarrow> bool \<Rightarrow> (nat \<times> string) option \<Rightarrow> NextProxy option \<Rightarrow> 'n \<Rightarrow> 'n udpSession" where
  "newUDPSession target dnsSession router conn np n =
     \<lparr>usConn = map_option fst conn, usRemote = (case conn of None \<Rightarrow> [] | Some (_, r) \<Rightarrow> r), usConnRoute = None,
      usTarget = target,
      usDns = \<lparr>dstEnabled = dnsSession, dstRouter = router, dstRouteSel = dnsRouteDirect, dstDialDomain = [],
               dstRebindFailedAt = None, dstChecked = False, dstIntercept = False\<rparr>,
      usReaderRunning = False, usTransferred = 0, usClosed = False, usNextProxy = np, usNet = n,
      usOpened = (case conn of None \<Rightarrow> 0 | Some (c, _) \<Rightarrow> Suc c), usTrace = []\<rparr>"

text \<open>\<open>Handle\<close>; a router is there exactly when an upstream proxy is configured (\<open>newUDPHandler\<close>).\<close>

definition udp_Handle ::
  "'n udp_world \<Rightarrow> (go_error \<Rightarrow> bool) \<Rightarrow> 's sender \<Rightarrow> NextProxy option \<Rightarrow> string \<Rightarrow> udp_event list \<Rightarrow> 'n \<Rightarrow> 's \<Rightarrow>
     (streamResult option \<times> 'n udpSession \<times> 's) outcome" where
  "udp_Handle w timeout tx np target evs n sh =
     (if isDNSPort target
      then udp_run w timeout tx evs (newUDPSession target True (np \<noteq> None) None np n) sh
      else case dialTarget (uwDialer w) (uwCtx w) target n of
             (Inl err, _, n) \<Rightarrow>
               Done (Some (no_result\<lparr>srDialFailed := True, srErr := Some err\<rparr>),
                     newUDPSession target False (np \<noteq> None) None np n, sh)
           | (Inr (_, remote), _, n) \<Rightarrow>
               (let s = newUDPSession target False (np \<noteq> None) (Some (0, remote)) np n
                in udp_run w timeout tx evs
                     (note_effect (Dialled 0 (if usesNextProxy (uwDialer w) target then dnsRouteNextProxy else dnsRouteDirect)) s) sh))"

text \<open>\<open>newUDPHandler\<close>: its dialer asks the rules of the upstream proxy only when that proxy takes UDP.\<close>

definition newUDPHandler ::
  "regexp_lib \<Rightarrow> NextProxy option \<Rightarrow> (string \<Rightarrow> 'n \<Rightarrow> conn result \<times> 'n) \<Rightarrow> int \<Rightarrow> 'n dialer \<Rightarrow> 'n dialer" where
  "newUDPHandler lib np dial dialTimeout deps =
     deps\<lparr>dlTimeout := dialTimeout,
          dlNextProxy := map_option (\<lambda>_. \<lparr>npHost = np_Host np,
             npShouldProxy = (\<lambda>target. EnableUDP np \<and> np_ShouldProxy lib np target), npDial = dial\<rparr>) np\<rparr>"

end
