(* ===== verification/UdpFlow.thy ===== *)
theory UdpFlow
  imports UdpSession
begin

text \<open>
  What a UDP session does with its connections: each is opened once, watched by one reader, written
  only while it is open, and closed once; a query goes out on the route its name asks for; datagrams
  keep their order in both directions.
\<close>

section \<open>Traces\<close>

definition dialled :: "udp_effect list \<Rightarrow> nat set" where
  "dialled tr = {c. \<exists>r. Dialled c r \<in> set tr}"

definition live :: "udp_effect list \<Rightarrow> nat set" where
  "live tr = dialled tr - {c. Dropped c \<in> set tr}"

text \<open>Whether an effect is allowed after the trace \<open>tr\<close>.\<close>

fun effect_ok :: "udp_effect list \<Rightarrow> udp_effect \<Rightarrow> bool" where
  "effect_ok tr (Dialled c r) \<longleftrightarrow> c \<notin> dialled tr"
| "effect_ok tr (Dropped c) \<longleftrightarrow> c \<in> live tr"
| "effect_ok tr (Watched c) \<longleftrightarrow> c \<in> live tr \<and> Watched c \<notin> set tr"
| "effect_ok tr (Wrote c d) \<longleftrightarrow> c \<in> live tr"

fun trace_ok_rev :: "udp_effect list \<Rightarrow> bool" where
  "trace_ok_rev [] \<longleftrightarrow> True"
| "trace_ok_rev (e # tr) \<longleftrightarrow> effect_ok (rev tr) e \<and> trace_ok_rev tr"

definition trace_ok :: "udp_effect list \<Rightarrow> bool" where
  "trace_ok tr = trace_ok_rev (rev tr)"

lemma trace_ok_simps [simp]: "trace_ok []" "trace_ok (tr @ [e]) \<longleftrightarrow> effect_ok tr e \<and> trace_ok tr"
  by (simp_all add: trace_ok_def)

lemma dialled_simps [simp]:
  "dialled [] = {}" "dialled (tr @ [Dialled c r]) = insert c (dialled tr)" "dialled (tr @ [Dropped c]) = dialled tr"
  "dialled (tr @ [Watched c]) = dialled tr" "dialled (tr @ [Wrote c d]) = dialled tr"
  by (auto simp: dialled_def)

lemma live_simps [simp]:
  "live [] = {}" "live (tr @ [Dropped c]) = live tr - {c}"
  "live (tr @ [Watched c]) = live tr" "live (tr @ [Wrote c d]) = live tr"
  by (auto simp: live_def)

lemma trace_ok_closed: "trace_ok tr \<Longrightarrow> Dropped c \<in> set tr \<or> Watched c \<in> set tr \<Longrightarrow> c \<in> dialled tr"
proof (induction tr rule: rev_induct)
  case (snoc e tr)
  then show ?case by (cases e) (auto simp: live_def)
qed simp

lemma live_Dialled [simp]: "trace_ok tr \<Longrightarrow> c \<notin> dialled tr \<Longrightarrow> live (tr @ [Dialled c r]) = insert c (live tr)"
  using trace_ok_closed [of tr c] by (auto simp: live_def dialled_def)

definition writes :: "udp_effect list \<Rightarrow> (nat \<times> bytes) list" where
  "writes tr = concat (map (\<lambda>e. case e of Wrote c d \<Rightarrow> [(c, d)] | _ \<Rightarrow> []) tr)"

lemma writes_simps [simp]:
  "writes [] = []" "writes (tr @ [Dialled c r]) = writes tr" "writes (tr @ [Dropped c]) = writes tr"
  "writes (tr @ [Watched c]) = writes tr" "writes (tr @ [Wrote c d]) = writes tr @ [(c, d)]"
  by (simp_all add: writes_def)

section \<open>The session's invariant\<close>

definition session_ok :: "'n udpSession \<Rightarrow> bool" where
  "session_ok s \<longleftrightarrow>
     trace_ok (usTrace s) \<and> dialled (usTrace s) = {..<usOpened s} \<and> live (usTrace s) = set_option (usConn s) \<and>
     (\<forall>c. usConn s = Some c \<longrightarrow> (Watched c \<in> set (usTrace s)) = usReaderRunning s) \<and>
     (\<forall>c r. usConn s = Some c \<longrightarrow> usConnRoute s = Some r \<longrightarrow> Dialled c r \<in> set (usTrace s)) \<and>
     (dstEnabled (usDns s) \<longrightarrow> usConn s \<noteq> None \<longrightarrow> usConnRoute s \<noteq> None)"

lemma session_ok_dns [simp]:
  "session_ok (s\<lparr>usDns := d\<rparr>) = session_ok s" if "dstEnabled d = dstEnabled (usDns s)"
  using that by (simp add: session_ok_def)

lemma session_ok_update [simp]:
  "session_ok (s\<lparr>usTransferred := b\<rparr>) = session_ok s" "session_ok (s\<lparr>usNextProxy := np\<rparr>) = session_ok s"
  "session_ok (s\<lparr>usNet := n\<rparr>) = session_ok s" "session_ok (s\<lparr>usClosed := cl\<rparr>) = session_ok s"
  by (simp_all add: session_ok_def)

text \<open>What dialling leaves alone.\<close>

lemma udp_dialRoute_fails:
  "udp_dialRoute w route s = (Inl err, s') \<Longrightarrow> \<exists>n. s' = s\<lparr>usNet := n\<rparr>"
  by (auto simp: udp_dialRoute_def split: prod.splits sum.splits)

lemma udp_dialRoute_opens:
  "udp_dialRoute w route s = (Inr (c, remote), s') \<Longrightarrow>
     c = usOpened s \<and> (\<exists>n. s' = note_effect (Dialled c route) (s\<lparr>usNet := n, usOpened := Suc c\<rparr>))"
  by (auto simp: udp_dialRoute_def split: prod.splits sum.splits)

lemma fresh_conn: "session_ok s \<Longrightarrow> usOpened s \<notin> dialled (usTrace s) \<and> usConn s \<noteq> Some (usOpened s) \<and>
    Watched (usOpened s) \<notin> set (usTrace s)"
proof -
  assume a: "session_ok s"
  then have 1: "usOpened s \<notin> dialled (usTrace s)" by (simp add: session_ok_def)
  moreover have "live (usTrace s) \<subseteq> dialled (usTrace s)" by (auto simp: live_def)
  ultimately show ?thesis using a trace_ok_closed [of "usTrace s" "usOpened s"] by (auto simp: session_ok_def)
qed

text \<open>What every step of a session keeps, beside the invariant.\<close>

definition keeps_mode :: "'n udpSession \<Rightarrow> 'n udpSession \<Rightarrow> bool" where
  "keeps_mode s s' \<longleftrightarrow> usReaderRunning s' = usReaderRunning s \<and> dstEnabled (usDns s') = dstEnabled (usDns s) \<and>
     dstRouter (usDns s') = dstRouter (usDns s) \<and> usTarget s' = usTarget s \<and> usClosed s' = usClosed s"

lemma keeps_mode_refl [simp]: "keeps_mode s s"
  by (simp add: keeps_mode_def)

lemma keeps_mode_trans: "keeps_mode s s1 \<Longrightarrow> keeps_mode s1 s2 \<Longrightarrow> keeps_mode s s2"
  by (simp add: keeps_mode_def)

lemma openUpstream_ok:
  assumes "session_ok s" "usConn s = None" "openUpstream w domain route s = (err, s')"
  shows "session_ok s' \<and> keeps_mode s s' \<and> writes (usTrace s') = writes (usTrace s) \<and>
    (case err of Some _ \<Rightarrow> usConn s' = None | None \<Rightarrow> \<exists>c. usConn s' = Some c \<and> usConnRoute s' = Some route)"
proof (cases "udp_dialRoute w route s")
  case (Pair r s1)
  show ?thesis
  proof (cases r)
    case (Inl e)
    then obtain n where "s1 = s\<lparr>usNet := n\<rparr>" using Pair udp_dialRoute_fails by blast
    then show ?thesis using assms Pair Inl by (auto simp: openUpstream_def keeps_mode_def)
  next
    case (Inr cr)
    then obtain c remote n where o: "r = Inr (c, remote)" "c = usOpened s"
        "s1 = note_effect (Dialled c route) (s\<lparr>usNet := n, usOpened := Suc c\<rparr>)"
      using Pair udp_dialRoute_opens by (metis surj_pair)
    then have s': "err = None" "s' = snd (installUpstream c remote route (usReaderRunning s1) s1)"
      using assms(3) Pair by (auto simp: openUpstream_def)
    show ?thesis using s' assms(1,2) o fresh_conn [OF assms(1)]
      by (auto simp: session_ok_def keeps_mode_def installUpstream_def startUpstreamReader_def note_effect_def Let_def lessThan_Suc simp del: append_assoc)
  qed
qed

lemma rebindRoute_ok:
  assumes "session_ok s" "usConn s = Some old" "usReaderRunning s"
  shows "session_ok (rebindRoute w route s) \<and> keeps_mode s (rebindRoute w route s) \<and>
    writes (usTrace (rebindRoute w route s)) = writes (usTrace s) \<and> usConn (rebindRoute w route s) \<noteq> None \<and>
    (usConnRoute (rebindRoute w route s) = Some route \<or>
     usConnRoute (rebindRoute w route s) = usConnRoute s \<and> (\<exists>err. fst (udp_dialRoute w route s) = Inl err))"
proof (cases "udp_dialRoute w route s")
  case (Pair r s1)
  show ?thesis
  proof (cases r)
    case (Inl e)
    then obtain n where "s1 = s\<lparr>usNet := n\<rparr>" using Pair udp_dialRoute_fails by blast
    then show ?thesis using assms Pair Inl by (auto simp: rebindRoute_def keeps_mode_def)
  next
    case (Inr cr)
    then obtain c remote n where o: "r = Inr (c, remote)" "c = usOpened s"
        "s1 = note_effect (Dialled c route) (s\<lparr>usNet := n, usOpened := Suc c\<rparr>)"
      using Pair udp_dialRoute_opens by (metis surj_pair)
    show ?thesis using Pair assms o fresh_conn [OF assms(1)]
      by (auto simp: rebindRoute_def session_ok_def keeps_mode_def installUpstream_def startUpstreamReader_def note_effect_def
          Let_def lessThan_Suc simp del: append_assoc)
  qed
qed

text \<open>The route a query asks for.\<close>

definition wanted_route :: "'n udp_world \<Rightarrow> 'n udpSession \<Rightarrow> string \<Rightarrow> dnsRoute" where
  "wanted_route w s domain =
     (if dstRouter (usDns s) then routeForDomain (uwRegexp w) (usNextProxy s) domain else dnsRouteDirect)"

lemma udp_dialRoute_dns:
  "dstRouter d = dstRouter (usDns s) \<Longrightarrow> fst (udp_dialRoute w route (s\<lparr>usDns := d\<rparr>)) = fst (udp_dialRoute w route s)"
  by (simp add: udp_dialRoute_def split: prod.splits sum.splits)

lemma noteDNSQuery_ok:
  assumes "session_ok s" "dstEnabled (usDns s)" "usReaderRunning s"
  shows "session_ok (noteDNSQuery w payload s) \<and> keeps_mode s (noteDNSQuery w payload s) \<and>
    writes (usTrace (noteDNSQuery w payload s)) = writes (usTrace s) \<and>
    (usConn (noteDNSQuery w payload s) = None) = (usConn s = None) \<and>
    (\<forall>d. dnsQueryDomain (uwDNS w) payload = Some d \<longrightarrow>
      dstRouteSel (usDns (noteDNSQuery w payload s)) = wanted_route w s d \<or> usConn s \<noteq> None) \<and>
    (\<forall>d. dnsQueryDomain (uwDNS w) payload = Some d \<longrightarrow> usConn s \<noteq> None \<longrightarrow>
      usConnRoute (noteDNSQuery w payload s) = Some (wanted_route w s d) \<or>
      rebindCoolingDown (uw_now w (usNet s)) (usDns s) \<or> (\<exists>err. fst (udp_dialRoute w (wanted_route w s d) s) = Inl err))"
proof (cases "dnsQueryDomain (uwDNS w) payload")
  case None
  then show ?thesis using assms by (simp add: noteDNSQuery_def)
next
  case (Some d)
  define s1 where "s1 = s\<lparr>usDns := (usDns s)\<lparr>dstIntercept := True, dstRouteSel := wanted_route w s d, dstDialDomain := d\<rparr>\<rparr>"
  have n: "noteDNSQuery w payload s =
     (case upstreamRoute s1 of
        None \<Rightarrow> s1
      | Some connRoute \<Rightarrow>
          (if connRoute \<noteq> wanted_route w s d
           then (if rebindCoolingDown (uw_now w (usNet s)) (usDns s) then s1 else rebindRoute w (wanted_route w s d) s1)
           else s1))"
    using Some by (simp add: noteDNSQuery_def s1_def Let_def wanted_route_def rebindCoolingDown_def cong: if_cong option.case_cong)
  have ok: "session_ok s1" "keeps_mode s s1" "writes (usTrace s1) = writes (usTrace s)" "usConn s1 = usConn s"
      "usReaderRunning s1" "usConnRoute s1 = usConnRoute s"
      "fst (udp_dialRoute w (wanted_route w s d) s1) = fst (udp_dialRoute w (wanted_route w s d) s)"
      "dstRouteSel (usDns s1) = wanted_route w s d"
    using assms udp_dialRoute_dns [of _ s w "wanted_route w s d"] by (auto simp: s1_def keeps_mode_def)
  show ?thesis
  proof (cases "usConn s")
    case None
    then show ?thesis using ok n Some by (simp add: upstreamRoute_def)
  next
    case (Some old)
    then obtain r where r: "usConnRoute s1 = Some r" using ok assms by (auto simp: session_ok_def)
    then have up: "upstreamRoute s1 = Some r" using Some ok(4) by (simp add: upstreamRoute_def)
    note rb = rebindRoute_ok [OF ok(1), of old w "wanted_route w s d"]
    show ?thesis using n up r ok rb Some \<open>dnsQueryDomain (uwDNS w) payload = Some d\<close>
      by (auto intro: keeps_mode_trans)
  qed
qed

lemma observeDNSFrame_ok:
  assumes "session_ok s" "usReaderRunning s"
  shows "session_ok (observeDNSFrame w payload s) \<and> keeps_mode s (observeDNSFrame w payload s) \<and>
    writes (usTrace (observeDNSFrame w payload s)) = writes (usTrace s) \<and>
    (usConn (observeDNSFrame w payload s) = None) = (usConn s = None)"
  using noteDNSQuery_ok [OF assms(1) _ assms(2), of w payload] assms
  by (auto simp: observeDNSFrame_def Let_def keeps_mode_def split: option.splits)

lemma upstreamOrDial_ok:
  assumes "session_ok s" "upstreamOrDial w s = (r, s')"
  shows "session_ok s' \<and> keeps_mode s s' \<and> writes (usTrace s') = writes (usTrace s) \<and>
    (\<forall>c. r = Inr c \<longrightarrow> usConn s' = Some c \<and> (if usConn s = None
       then dstEnabled (usDns s) \<longrightarrow> dstRouter (usDns s) \<longrightarrow> usConnRoute s' = Some (dstRouteSel (usDns s)) else s' = s))"
proof (cases "usConn s")
  case (Some c)
  then show ?thesis using assms by (auto simp: upstreamOrDial_def)
next
  case None
  define route where "route = (if dstEnabled (usDns s) \<and> dstRouter (usDns s) then dstRouteSel (usDns s)
                        else if \<not> dstEnabled (usDns s) then targetRoute w s
                        else dnsRouteDirect)"
  obtain err s1 where o: "openUpstream w (dstDialDomain (usDns s)) route s = (err, s1)" by fastforce
  note ok = openUpstream_ok [OF assms(1) None o]
  show ?thesis using assms(2) None o ok
    by (auto simp: upstreamOrDial_def route_def [symmetric] Let_def split: option.splits) (auto simp: route_def)
qed

lemma conn_Write_ok:
  assumes "session_ok s" "usConn s = Some c" "conn_Write w c payload s = (err, s')"
  shows "session_ok s' \<and> keeps_mode s s' \<and> usConn s' = Some c \<and> usConnRoute s' = usConnRoute s \<and>
    writes (usTrace s') = writes (usTrace s) @ (if err = None then [(c, payload)] else [])"
  using assms by (auto simp: conn_Write_def session_ok_def keeps_mode_def note_effect_def split: prod.splits option.splits)

lemma observeClientFrame_ok:
  assumes "session_ok s" "usReaderRunning s" "observeClientFrame w f s = (r, s')"
  shows "session_ok s' \<and> keeps_mode s s' \<and>
    (r = Inr True \<longrightarrow> map snd (writes (usTrace s')) = map snd (writes (usTrace s)) @
       (if fType f = FrameDATAGRAM \<and> fPayload f \<noteq> [] then [fPayload f] else []))"
proof (cases "fType f \<noteq> FrameDATAGRAM \<or> fPayload f = []")
  case True
  then show ?thesis using assms by (auto simp: observeClientFrame_def)
next
  case False
  define s1 where "s1 = observeDNSFrame w (fPayload f) s"
  have 1: "session_ok s1" "keeps_mode s s1" "writes (usTrace s1) = writes (usTrace s)"
    using observeDNSFrame_ok [OF assms(1,2)] by (simp_all add: s1_def)
  obtain u s2 where u: "upstreamOrDial w s1 = (u, s2)" by fastforce
  note 2 = upstreamOrDial_ok [OF 1(1) u]
  show ?thesis
  proof (cases u)
    case (Inl e)
    then show ?thesis using assms(3) False u 2 1 keeps_mode_trans
      by (auto simp: observeClientFrame_def s1_def [symmetric] Let_def)
  next
    case (Inr c)
    obtain err s3 where wr: "conn_Write w c (fPayload f) s2 = (err, s3)" by fastforce
    have 3: "session_ok s3" "keeps_mode s2 s3" "writes (usTrace s3) = writes (usTrace s2) @ (if err = None then [(c, fPayload f)] else [])"
      using conn_Write_ok [OF _ _ wr] 2 Inr by auto
    have "r = (case err of Some e \<Rightarrow> Inl e | None \<Rightarrow> Inr True)" "s' = s3"
      using assms(3) False u Inr wr by (auto simp: observeClientFrame_def s1_def [symmetric] Let_def split: option.splits)
    moreover have "keeps_mode s s3" using 1(2) 2 3(2) by (blast intro: keeps_mode_trans)
    ultimately show ?thesis using 1(3) 2 3(1,3) False by (auto split: option.splits)
  qed
qed

section \<open>The loop\<close>

fun client_datagram :: "udp_event \<Rightarrow> bytes list" where
  "client_datagram (Client_frame (Inr f)) = (if fType f = FrameDATAGRAM \<and> fPayload f \<noteq> [] then [fPayload f] else [])"
| "client_datagram _ = []"

fun target_datagram :: "udp_event \<Rightarrow> bytes list" where
  "target_datagram (Target_result c (Inr d)) = [d]"
| "target_datagram _ = []"

lemma learnFromDNS_frame:
  "\<exists>np. learnFromDNS w payload s = s\<lparr>usNextProxy := np\<rparr>"
proof -
  have "\<exists>np. s = s\<lparr>usNextProxy := np\<rparr>" by (intro exI [of _ "usNextProxy s"]) simp
  then show ?thesis by (auto simp: learnFromDNS_def split: option.splits list.splits)
qed

lemma udp_event_ok:
  assumes "session_ok s" "usReaderRunning s" "udp_event w timeout tx ev s sh = Done (r, s', sh')"
  shows "session_ok s' \<and> keeps_mode s s' \<and>
    (r = None \<longrightarrow> map snd (writes (usTrace s')) = map snd (writes (usTrace s)) @ client_datagram ev)"
proof (cases ev)
  case (Target_result c x)
  show ?thesis
  proof (cases x)
    case (Inl e)
    then show ?thesis using assms Target_result by (auto simp: udp_event_def split: if_splits)
  next
    case (Inr d)
    let ?t = "s\<lparr>usTransferred := usTransferred s + int (length d)\<rparr>"
    obtain np where "learnFromDNS w d ?t = ?t\<lparr>usNextProxy := np\<rparr>" using learnFromDNS_frame by blast
    then have "s' = ?t \<or> s' = ?t\<lparr>usNextProxy := np\<rparr>"
      using assms(3) Target_result Inr
      by (auto simp: udp_event_def Let_def obind_Done split: sum.splits if_splits) (metis old.unit.exhaust sumE)+
    then show ?thesis using assms(1) Target_result Inr by (auto simp: keeps_mode_def)
  qed
next
  case (Client_frame x)
  show ?thesis
  proof (cases x)
    case (Inl e)
    then show ?thesis using assms Client_frame by (auto simp: udp_event_def)
  next
    case (Inr f)
    obtain y s1 where o: "observeClientFrame w f s = (y, s1)" by fastforce
    note observeClientFrame_ok [OF assms(1,2) o]
    then show ?thesis using assms(3) Client_frame Inr o by (cases y) (auto simp: udp_event_def split: if_splits)
  qed
qed (use assms in \<open>auto simp: udp_event_def\<close>)

lemma udp_loop_ok:
  assumes "session_ok s" "usReaderRunning s" "udp_loop w timeout tx evs s sh = Done (r, s', sh')"
  shows "session_ok s' \<and> keeps_mode s s' \<and>
    (r = None \<longrightarrow> map snd (writes (usTrace s')) = map snd (writes (usTrace s)) @ concat (map client_datagram evs))"
  using assms
proof (induction evs arbitrary: s sh)
  case (Cons ev evs)
  obtain x s1 sh1 where e: "udp_event w timeout tx ev s sh = Done (x, s1, sh1)"
    using Cons.prems(3) by (auto simp: obind_Done)
  note ok = udp_event_ok [OF Cons.prems(1,2) e]
  show ?case
  proof (cases x)
    case (Some res)
    then show ?thesis using Cons.prems(3) e ok by auto
  next
    case None
    then have "udp_loop w timeout tx evs s1 sh1 = Done (r, s', sh')" using Cons.prems(3) e by simp
    moreover have "usReaderRunning s1" using ok Cons.prems(2) by (simp add: keeps_mode_def)
    ultimately show ?thesis using Cons.IH [of s1 sh1] ok None by (auto intro: keeps_mode_trans)
  qed
qed simp

text \<open>A session as \<open>run\<close> starts it.\<close>

definition run_start :: "'n udpSession \<Rightarrow> 'n udpSession" where
  "run_start s =
     (let s = s\<lparr>usReaderRunning := True\<rparr> in case usConn s of None \<Rightarrow> s | Some c \<Rightarrow> startUpstreamReader c s)"

definition handle_start :: "'n udp_world \<Rightarrow> NextProxy option \<Rightarrow> string \<Rightarrow> 'n \<Rightarrow> 'n udpSession option" where
  "handle_start w np target n =
     (if isDNSPort target then Some (newUDPSession target True (np \<noteq> None) None np n)
      else case dialTarget (uwDialer w) (uwCtx w) target n of
             (Inl err, _, n) \<Rightarrow> None
           | (Inr (_, remote), _, n) \<Rightarrow>
               Some (note_effect (Dialled 0 (if usesNextProxy (uwDialer w) target then dnsRouteNextProxy else dnsRouteDirect))
                       (newUDPSession target False (np \<noteq> None) (Some (0, remote)) np n)))"

lemma handle_start_ok:
  "handle_start w np target n = Some s \<Longrightarrow> session_ok s \<and> \<not> usReaderRunning s \<and> usTarget s = target \<and> \<not> usClosed s \<and>
     dstEnabled (usDns s) = isDNSPort target \<and> dstRouter (usDns s) = (np \<noteq> None) \<and> writes (usTrace s) = [] \<and> usNextProxy s = np"
  using live_Dialled [of "[]" 0] dialled_simps(2) [of "[]" 0] trace_ok_simps(2) [of "[]"] writes_simps(2) [of "[]"]
  by (auto simp: handle_start_def newUDPSession_def session_ok_def note_effect_def split: if_splits prod.splits sum.splits)

lemma run_start_ok:
  "session_ok s \<Longrightarrow> \<not> usReaderRunning s \<Longrightarrow> session_ok (run_start s) \<and> usReaderRunning (run_start s) \<and>
     writes (usTrace (run_start s)) = writes (usTrace s) \<and> usDns (run_start s) = usDns s \<and> usTarget (run_start s) = usTarget s \<and>
     usNextProxy (run_start s) = usNextProxy s \<and> usConn (run_start s) = usConn s \<and> usConnRoute (run_start s) = usConnRoute s"
  by (auto simp: run_start_def session_ok_def startUpstreamReader_def note_effect_def Let_def split: option.splits)

lemma udp_Handle_run:
  "handle_start w np target n = Some s \<Longrightarrow> udp_Handle w timeout tx np target evs n sh =
     obind (udp_loop w timeout tx evs (run_start s) sh) (\<lambda>(r, s, sh).
       case r of
         None \<Rightarrow> Done (None, s, sh)
       | Some res \<Rightarrow> Done (Some (res\<lparr>srRemote := usRemote (udp_close s), srBytes := usTransferred (udp_close s)\<rparr>), udp_close s, sh))"
  by (auto simp: handle_start_def udp_Handle_def udp_run_def run_start_def Let_def cong: option.case_cong split: if_splits prod.splits sum.splits)

lemma udp_close_ok: "session_ok s \<Longrightarrow> \<not> usClosed s \<Longrightarrow> session_ok (udp_close s) \<and> usConn (udp_close s) = None"
  by (auto simp: udp_close_def closeUpstream_def session_ok_def note_effect_def Let_def split: option.splits)

section \<open>Connections\<close>

text \<open>
  C20. The connections of a UDP session, at every moment of it and whatever the network answers: each
  is opened once, gets one reader, is written to only while it is open and closed at most once; the one
  connection that is open is the current one, with its reader running. When the session has ended,
  everything it opened is closed.
\<close>

theorem udp_connections_accounted:
  assumes "udp_Handle w timeout tx np target evs n sh = Done (r, s, sh')"
  shows "trace_ok (usTrace s) \<and> dialled (usTrace s) = {..<usOpened s} \<and> live (usTrace s) = set_option (usConn s) \<and>
    (case r of None \<Rightarrow> (\<forall>c. usConn s = Some c \<longrightarrow> Watched c \<in> set (usTrace s)) | Some _ \<Rightarrow> live (usTrace s) = {})"
proof (cases "handle_start w np target n")
  case None
  then have "usTrace s = []" "usOpened s = 0" "usConn s = None"
    using assms by (auto simp: handle_start_def udp_Handle_def newUDPSession_def split: if_splits prod.splits sum.splits)
  then show ?thesis by (auto split: option.splits)
next
  case (Some s0)
  note h = handle_start_ok [OF Some]
  have st: "session_ok (run_start s0)" "usReaderRunning (run_start s0)" "\<not> usClosed (run_start s0)"
    using h run_start_ok [of s0] by (auto simp: run_start_def startUpstreamReader_def note_effect_def Let_def split: option.splits)
  obtain r1 s1 sh1 where l: "udp_loop w timeout tx evs (run_start s0) sh = Done (r1, s1, sh1)"
    using assms udp_Handle_run [OF Some, of timeout tx evs sh] by (auto simp: obind_Done)
  have ok: "session_ok s1" "usReaderRunning s1" "\<not> usClosed s1"
    using udp_loop_ok [OF st(1,2) l] st by (auto simp: keeps_mode_def)
  have "s = (case r of None \<Rightarrow> s1 | Some _ \<Rightarrow> udp_close s1)" "(r = None) = (r1 = None)"
    using assms udp_Handle_run [OF Some, of timeout tx evs sh] l by (auto split: option.splits)
  then show ?thesis using ok udp_close_ok [OF ok(1,3)] by (auto simp: session_ok_def split: option.splits)
qed

text \<open>The route of the connection a query is written to.\<close>

lemma query_routed:
  assumes "session_ok s" "usReaderRunning s" "dstEnabled (usDns s)"
    and "fType f = FrameDATAGRAM" "fPayload f \<noteq> []" "dnsQueryDomain (uwDNS w) (fPayload f) = Some d"
    and "observeClientFrame w f s = (Inr True, s')"
  shows "\<exists>c r. last (writes (usTrace s')) = (c, fPayload f) \<and> Dialled c r \<in> set (usTrace s') \<and> usConn s' = Some c \<and>
    (r = wanted_route w s d \<or> usConn s \<noteq> None \<and> (rebindCoolingDown (uw_now w (usNet s)) (usDns s) \<or>
      (\<exists>err. fst (udp_dialRoute w (wanted_route w s d) s) = Inl err)))"
proof -
  define s1 where "s1 = noteDNSQuery w (fPayload f) s"
  note n = noteDNSQuery_ok [OF assms(1,3,2), of w "fPayload f", folded s1_def]
  obtain c s2 where u: "upstreamOrDial w s1 = (Inr c, s2)" "conn_Write w c (fPayload f) s2 = (None, s')"
    using assms(3-5,7) by (auto simp: observeClientFrame_def observeDNSFrame_def s1_def [symmetric] Let_def split: prod.splits sum.splits option.splits)
  have s1: "session_ok s1" using n by blast
  note 2 = upstreamOrDial_ok [OF s1 u(1)]
  have 3: "session_ok s'" "usConn s' = Some c" "usConnRoute s' = usConnRoute s2" "last (writes (usTrace s')) = (c, fPayload f)"
    "dstEnabled (usDns s')"
    using conn_Write_ok [OF _ _ u(2)] 2 n assms(3) by (auto simp: keeps_mode_def)
  obtain r where r: "usConnRoute s' = Some r" using 3 by (auto simp: session_ok_def)
  then have "Dialled c r \<in> set (usTrace s')" using 3 by (auto simp: session_ok_def)
  moreover have "r = wanted_route w s d \<or> usConn s \<noteq> None \<and> (rebindCoolingDown (uw_now w (usNet s)) (usDns s) \<or>
      (\<exists>err. fst (udp_dialRoute w (wanted_route w s d) s) = Inl err))"
  proof (cases "usConn s")
    case (Some old)
    then have "s2 = s1" using 2 n by auto
    then show ?thesis using n assms(6) r 3(3) Some by auto
  next
    case None
    then have "usConn s1 = None" using n by simp
    show ?thesis
    proof (cases "dstRouter (usDns s)")
      case True
      then have "usConnRoute s2 = Some (dstRouteSel (usDns s1))" using 2 n \<open>usConn s1 = None\<close> assms(3) by (auto simp: keeps_mode_def)
      then show ?thesis using n assms(6) None r 3(3) by auto
    next
      case False
      then have "openUpstream w (dstDialDomain (usDns s1)) dnsRouteDirect s1 = (None, s2)"
        using u(1) \<open>usConn s1 = None\<close> n assms(3)
        by (auto simp: upstreamOrDial_def keeps_mode_def split: prod.splits option.splits)
      from openUpstream_ok [OF s1 \<open>usConn s1 = None\<close> this] show ?thesis
        using r 3(3) False by (auto simp: wanted_route_def)
    qed
  qed
  ultimately show ?thesis using 3 by blast
qed

text \<open>
  C21. A query to a resolver leaves on the route its name asks for. Whatever came before in the session,
  when a query for a domain has been written, it was written to a connection opened on the route of that
  domain: direct, or through the upstream proxy when its rules cover the domain. The exceptions are
  the ones the code means: an open connection of the other route stays in use while a failed attempt
  to change it is less than ten seconds old, or when the attempt made for this very query fails.
\<close>

theorem dns_query_on_its_route:
  assumes "isDNSPort target" "handle_start w np target n = Some s0"
    and "udp_loop w timeout tx evs (run_start s0) sh = Done (None, s, sh1)"
    and "fType f = FrameDATAGRAM" "fPayload f \<noteq> []" "dnsQueryDomain (uwDNS w) (fPayload f) = Some d"
    and "observeClientFrame w f s = (Inr True, s')"
  shows "\<exists>c r route. last (writes (usTrace s')) = (c, fPayload f) \<and> Dialled c r \<in> set (usTrace s') \<and>
    route = (if np \<noteq> None then routeForDomain (uwRegexp w) (usNextProxy s) d else dnsRouteDirect) \<and>
    (r = route \<or> usConn s \<noteq> None \<and> (rebindCoolingDown (uw_now w (usNet s)) (usDns s) \<or>
      (\<exists>err. fst (udp_dialRoute w route s) = Inl err)))"
proof -
  note h = handle_start_ok [OF assms(2)]
  have st: "session_ok (run_start s0)" "usReaderRunning (run_start s0)" "dstEnabled (usDns (run_start s0))"
    using h run_start_ok [of s0] assms(1) by auto
  have l: "session_ok s" "usReaderRunning s" "dstEnabled (usDns s)" "dstRouter (usDns s) = (np \<noteq> None)"
    using udp_loop_ok [OF st(1,2) assms(3)] st h run_start_ok [of s0] by (auto simp: keeps_mode_def)
  from query_routed [OF l(1-3) assms(4-7)] show ?thesis using l(4) unfolding wanted_route_def by auto
qed

section \<open>Both directions\<close>

text \<open>
  As long as a session runs, every non-empty datagram the client has sent has been written to the
  target, once, unchanged and in order, across all the connections the session has used.
\<close>

theorem client_datagrams_in_order:
  assumes "handle_start w np target n = Some s0" "udp_loop w timeout tx evs (run_start s0) sh = Done (None, s, sh')"
  shows "map snd (writes (usTrace s)) = concat (map client_datagram evs)"
  using udp_loop_ok [OF _ _ assms(2)] handle_start_ok [OF assms(1)] run_start_ok [of s0] by auto

end
