(* ===== verification/UdpTunnel.thy ===== *)
theory UdpTunnel
  imports Datagrams UdpFlow
begin

text \<open>
  Datagrams from one end to the other: the client's exchange, the records, and the server's session.
\<close>

section \<open>A session that is not disturbed\<close>

text \<open>What arrives at a session while nothing fails: frames that do not end the stream, and datagrams of the target.\<close>

fun calm_event :: "udp_event \<Rightarrow> bool" where
  "calm_event (Client_frame (Inr f)) \<longleftrightarrow> fType f \<noteq> FrameFIN \<and> fType f \<noteq> FrameRST"
| "calm_event (Target_result c (Inr d)) \<longleftrightarrow> length d \<le> MaxUDPDataSize"
| "calm_event _ \<longleftrightarrow> False"

fun undisturbed :: "udp_event \<Rightarrow> bool" where
  "undisturbed (Client_frame (Inr f)) \<longleftrightarrow> True"
| "undisturbed (Target_result c (Inr d)) \<longleftrightarrow> length d \<le> MaxUDPDataSize"
| "undisturbed _ \<longleftrightarrow> False"

text \<open>The network lets the session reach its target: dialling it on either route and writing to it succeed.\<close>

definition upstream_works :: "'n udp_world \<Rightarrow> string \<Rightarrow> bool" where
  "upstream_works w target \<longleftrightarrow> (\<forall>c d n. fst (uwWrite w c d n) = None) \<and>
     (\<forall>via n. \<exists>conn. fst (dialVia (uwDialer w) (uwCtx w) target via n) = Inr conn)"

lemma udp_dialRoute_works:
  assumes "upstream_works w (usTarget s)"
  shows "\<exists>c s'. udp_dialRoute w route s = (Inr c, s')"
proof -
  obtain conn where "fst (dialVia (uwDialer w) (uwCtx w) (usTarget s) (viaNextProxy route) (usNet s)) = Inr conn"
    using assms unfolding upstream_works_def by blast
  then show ?thesis by (auto simp: udp_dialRoute_def router_dialRoute_def split: prod.splits)
qed

lemma upstreamOrDial_works:
  assumes "upstream_works w (usTarget s)"
  shows "\<exists>c s'. upstreamOrDial w s = (Inr c, s')"
proof (cases "usConn s")
  case None
  have o: "\<exists>s' c. openUpstream w domain route s = (None, s') \<and> usConn s' = Some c" for domain route
    using udp_dialRoute_works [OF assms, of route]
    by (auto simp: openUpstream_def installUpstream_def startUpstreamReader_def note_effect_def Let_def)
  define route where "route = (if dstEnabled (usDns s) \<and> dstRouter (usDns s) then dstRouteSel (usDns s)
    else if \<not> dstEnabled (usDns s) then targetRoute w s else dnsRouteDirect)"
  obtain s' c where "openUpstream w (dstDialDomain (usDns s)) route s = (None, s')" "usConn s' = Some c" using o by blast
  then show ?thesis using None by (simp add: upstreamOrDial_def route_def [symmetric])
qed (simp add: upstreamOrDial_def)

lemma observeClientFrame_works:
  assumes "upstream_works w (usTarget s)" "session_ok s" "usReaderRunning s" "fType f \<noteq> FrameFIN" "fType f \<noteq> FrameRST"
  shows "\<exists>s'. observeClientFrame w f s = (Inr True, s')"
proof (cases "fType f \<noteq> FrameDATAGRAM \<or> fPayload f = []")
  case True
  then show ?thesis using assms by (auto simp: observeClientFrame_def)
next
  case False
  let ?s = "observeDNSFrame w (fPayload f) s"
  have "upstream_works w (usTarget ?s)" using observeDNSFrame_ok [OF assms(2,3)] assms(1) by (simp add: keeps_mode_def)
  then obtain c s1 where "upstreamOrDial w ?s = (Inr c, s1)" using upstreamOrDial_works by blast
  moreover obtain n where "uwWrite w c (fPayload f) (usNet s1) = (None, n)"
    using assms(1) by (metis upstream_works_def prod.collapse)
  ultimately show ?thesis using False by (auto simp: observeClientFrame_def conn_Write_def Let_def)
qed

lemma udp_event_calm:
  assumes "upstream_works w (usTarget s)" "session_ok s" "usReaderRunning s" "calm_event ev" "shaper_sent a cn aad fs sh"
  shows "\<exists>s1 sh1. udp_event w timeout shaper_sender ev s sh = Done (None, s1, sh1) \<and>
    shaper_sent a cn aad (fs @ map datagram_frame (target_datagram ev)) sh1"
proof (cases ev)
  case (Client_frame x)
  then obtain f where f: "x = Inr f" "fType f \<noteq> FrameFIN" "fType f \<noteq> FrameRST" using assms(4) by (cases x) auto
  then show ?thesis using observeClientFrame_works [OF assms(1-3) f(2,3)] Client_frame assms(5) by (auto simp: udp_event_def)
next
  case (Target_result c1 x)
  then obtain d where d: "x = Inr d" "length d \<le> MaxUDPDataSize" using assms(4) by (cases x) auto
  then have le: "length d \<le> 65514" by simp
  obtain sh1 where "PushFrame buffer_sink (datagram_frame d) [] sh = Done (Inr (), sh1)"
      "shaper_sent a cn aad (fs @ [datagram_frame d]) sh1"
    using shaper_push_frame [OF assms(5), of "datagram_frame d"] le by auto
  then show ?thesis using Target_result d le
    by (auto simp: udp_event_def Let_def NewFrameWithPayload_datagram [simplified] shaper_sender_def)
qed (use assms(4) in auto)

lemma udp_loop_calm:
  assumes "upstream_works w (usTarget s)" "session_ok s" "usReaderRunning s" "list_all calm_event evs" "shaper_sent a cn aad fs sh"
  shows "\<exists>s' sh'. udp_loop w timeout shaper_sender evs s sh = Done (None, s', sh') \<and>
    shaper_sent a cn aad (fs @ map datagram_frame (concat (map target_datagram evs))) sh'"
  using assms
proof (induction evs arbitrary: s fs sh)
  case (Cons ev evs)
  obtain s1 sh1 where e: "udp_event w timeout shaper_sender ev s sh = Done (None, s1, sh1)"
      "shaper_sent a cn aad (fs @ map datagram_frame (target_datagram ev)) sh1"
    using udp_event_calm [OF Cons.prems(1-3) _ Cons.prems(5)] Cons.prems(4) by fastforce
  have "session_ok s1" "usReaderRunning s1" "usTarget s1 = usTarget s"
    using udp_event_ok [OF Cons.prems(2,3) e(1)] Cons.prems(3) by (auto simp: keeps_mode_def)
  then show ?case using Cons.IH [OF _ _ _ _ e(2), of s1] Cons.prems e(1) by auto
qed auto

lemma udp_loop_snoc:
  "udp_loop w timeout tx evs s sh = Done (None, s1, sh1) \<Longrightarrow>
     udp_loop w timeout tx (evs @ [ev]) s sh = udp_event w timeout tx ev s1 sh1"
proof (induction evs arbitrary: s sh)
  case Nil
  then show ?case by (cases "udp_event w timeout tx ev s1 sh1") (auto split: option.splits)
next
  case (Cons e evs)
  then obtain s2 sh2 where "udp_event w timeout tx e s sh = Done (None, s2, sh2)" "udp_loop w timeout tx evs s2 sh2 = Done (None, s1, sh1)"
    by (auto simp: obind_Done split: option.splits)
  then show ?case using Cons.IH by simp
qed

lemma upstream_starts: "upstream_works w target \<Longrightarrow> \<exists>s. handle_start w np target n = Some s"
proof -
  assume "upstream_works w target"
  then have "\<exists>conn. fst (dialTarget (uwDialer w) (uwCtx w) target n) = Inr conn"
    by (simp add: upstream_works_def dialTarget_def)
  then show ?thesis by (auto simp: handle_start_def split: prod.splits)
qed

text \<open>The whole of such a session, which ends when the client ends its side.\<close>

lemma session_undisturbed:
  assumes "upstream_works w target" "list_all calm_event evs" "shaper_sent a cn aad fs sh"
  shows "\<exists>r s sh'. udp_Handle w timeout shaper_sender np target (evs @ [Client_frame (Inr NewFrameFIN)]) n sh = Done (Some r, s, sh') \<and>
    srErr r = None \<and> \<not> srDialFailed r \<and> map snd (writes (usTrace s)) = concat (map client_datagram evs) \<and>
    shaper_sent a cn aad (fs @ map datagram_frame (concat (map target_datagram evs))) sh'"
proof -
  obtain s0 where s0: "handle_start w np target n = Some s0" using upstream_starts [OF assms(1)] by blast
  have st: "upstream_works w (usTarget (run_start s0))" "session_ok (run_start s0)" "usReaderRunning (run_start s0)"
      "writes (usTrace (run_start s0)) = []"
    using handle_start_ok [OF s0] run_start_ok [of s0] assms(1) by auto
  obtain s1 sh' where l: "udp_loop w timeout shaper_sender evs (run_start s0) sh = Done (None, s1, sh')"
      "shaper_sent a cn aad (fs @ map datagram_frame (concat (map target_datagram evs))) sh'"
    using udp_loop_calm [OF st(1-3) assms(2,3)] by blast
  have "map snd (writes (usTrace s1)) = concat (map client_datagram evs)"
    using udp_loop_ok [OF st(2,3) l(1)] st(4) by simp
  moreover have "writes (usTrace (udp_close s1)) = writes (usTrace s1)"
    by (simp add: udp_close_def closeUpstream_def note_effect_def Let_def split: option.splits)
  moreover have "udp_event w timeout shaper_sender (Client_frame (Inr NewFrameFIN)) s1 sh' = Done (Some no_result, s1, sh')"
    by (simp add: udp_event_def observeClientFrame_def NewFrameFIN_def)
  ultimately show ?thesis using udp_Handle_run [OF s0, of timeout shaper_sender "evs @ [Client_frame (Inr NewFrameFIN)]" sh] udp_loop_snoc [OF l(1)] l(2)
    by (simp add: no_result_def)
qed

section \<open>From the client to the target\<close>

text \<open>What a client asks for, and the exchange it gets: the first datagram is in the request or is the first one sent.\<close>

lemma udp_request_frames:
  assumes "udp_request target method first g = Done (req, merged, g1)" "length first \<le> MaxUDPDataSize"
  shows "withBatchWindow 1 req = newStreamRequest ProtoUDP target method\<lparr>sqFrames := if merged then [datagram_frame first] else [], sqBatchWindowMS := 1\<rparr>"
    and "merged \<Longrightarrow> first \<noteq> []"
proof -
  have n: "NewFrameDATAGRAM first = Inr (datagram_frame first)"
    using assms(2) NewFrameWithPayload_datagram [of first] by (simp add: NewFrameDATAGRAM_def NewFrame_def datagram_frame_def)
  show "withBatchWindow 1 req = newStreamRequest ProtoUDP target method\<lparr>sqFrames := if merged then [datagram_frame first] else [], sqBatchWindowMS := 1\<rparr>"
    "merged \<Longrightarrow> first \<noteq> []"
    using assms(1) n by (auto simp: udp_request_def Let_def udpStreamRequest_def withFrames_def withBatchWindow_def newStreamRequest_def split: if_splits)
qed

lemma exchange_opens:
  assumes "udp_request target method first g = Done (req, merged, g1)" "length first \<le> MaxUDPDataSize" "shaper_sent a cn aad [] bs"
  shows "\<exists>ue g2. OpenUDPExchange shaper_sender close (\<lambda>q. if q = withBatchWindow 1 req then Inr (bs, rx) else Inl ErrClosed) now target method first g =
      Done (Inr ue, g2) \<and> \<not> ueClosed ue \<and> \<not> ueCloseDone ue \<and>
    shaper_sent a cn aad (map datagram_frame (if merged \<or> first = [] then [] else [first])) (ueTx ue)"
proof (cases "merged \<or> first = []")
  case True
  then show ?thesis using assms(1,3) by (auto simp: OpenUDPExchange_def Let_def)
next
  case False
  let ?ue = "\<lparr>ueTx = bs, ueReader = rx, ueLastSeen = now, ueFirstRead = False, ueClosed = False, ueCloseDone = False, ueStreamOpen = True\<rparr>"
  have le: "length first \<le> 65514" using assms(2) by simp
  obtain s' where s': "PushFrame buffer_sink (datagram_frame first) [] bs = Done (Inr (), s')" "shaper_sent a cn aad ([] @ [datagram_frame first]) s'"
    using shaper_push_frame [OF assms(3), of "datagram_frame first"] le by auto
  then have "ue_Send shaper_sender now first (?ue, g1) = Done (Inr (), ?ue\<lparr>ueTx := s'\<rparr>, RecordRawBytesSent (int (length first)) g1)"
    using le by (simp add: ue_Send_def NewFrameWithPayload_datagram [simplified] shaper_sender_def)
  then show ?thesis using assms(1) s'(2) False by (auto simp: OpenUDPExchange_def Let_def)
qed

lemma exchange_closed:
  assumes "shaper_sent a cn aad fs (ueTx ue)" "\<not> ueCloseDone ue"
    and "\<And>fs bs1. shaper_sent a cn aad fs bs1 \<Longrightarrow> \<exists>bs2. Shaper_Close buffer_sink bs1 = Done (Inr (), bs2) \<and> P fs bs2"
  shows "\<exists>ue2. ue_Close shaper_sender (Shaper_Close buffer_sink) False ue = Done ue2 \<and> \<not> ueStreamOpen ue2 \<and>
    P (fs @ [NewFrameFIN]) (ueTx ue2)"
proof -
  obtain s1 where 1: "sdFrame shaper_sender NewFrameFIN (ueTx ue) = Done (Inr (), s1)" "shaper_sent a cn aad (fs @ [NewFrameFIN]) s1"
    using tunnel.push_fin [OF assms(1)] by blast
  obtain r s2 where 2: "sdFlush shaper_sender s1 = Done (r, s2)" "shaper_sent a cn aad (fs @ [NewFrameFIN]) s2"
    using tunnel.flush [OF 1(2)] by blast
  obtain bs2 where "Shaper_Close buffer_sink s2 = Done (Inr (), bs2)" "P (fs @ [NewFrameFIN]) bs2" using assms(3) [OF 2(2)] by blast
  then show ?thesis using 1 2 assms(2) by (auto simp: ue_Close_def Let_def)
qed

text \<open>An exchange from its request to its end: what its records carry.\<close>

lemma exchange_carries:
  assumes "udp_request target method first g = Done (req, merged, g1)" "length first \<le> MaxUDPDataSize"
    and "\<forall>(t, d) \<in> set sends. length d \<le> MaxUDPDataSize" "shaper_sent a cn aad [] bs"
    and "\<And>fs bs1. shaper_sent a cn aad fs bs1 \<Longrightarrow> \<exists>bs2. Shaper_Close buffer_sink bs1 = Done (Inr (), bs2) \<and> P fs bs2"
  shows "\<exists>ue g2 ue1 g3 ue2.
    OpenUDPExchange shaper_sender (Shaper_Close buffer_sink) (\<lambda>q. if q = withBatchWindow 1 req then Inr (bs, rx) else Inl ErrClosed)
      now target method first g = Done (Inr ue, g2) \<and>
    send_all shaper_sender sends (ue, g2) = Done (ue1, g3) \<and> ue_Close shaper_sender (Shaper_Close buffer_sink) False ue1 = Done ue2 \<and>
    P (map datagram_frame ((if merged \<or> first = [] then [] else [first]) @ map snd sends) @ [NewFrameFIN]) (ueTx ue2)"
proof -
  obtain ue g2 where o: "OpenUDPExchange shaper_sender (Shaper_Close buffer_sink) (\<lambda>q. if q = withBatchWindow 1 req then Inr (bs, rx) else Inl ErrClosed)
      now target method first g = Done (Inr ue, g2)" "\<not> ueClosed ue" "\<not> ueCloseDone ue"
      "shaper_sent a cn aad (map datagram_frame (if merged \<or> first = [] then [] else [first])) (ueTx ue)"
    using exchange_opens [OF assms(1,2,4)] by blast
  have "\<forall>(t, d) \<in> set sends. length d \<le> 65514" using assms(3) by auto
  then obtain ue1 g3 where s: "send_all shaper_sender sends (ue, g2) = Done (ue1, g3)" "\<not> ueCloseDone ue1"
      "shaper_sent a cn aad (map datagram_frame ((if merged \<or> first = [] then [] else [first]) @ map snd sends)) (ueTx ue1)"
    using send_all_sent [OF o(4,2), of sends g2] o(3) by (auto simp: o_def case_prod_unfold)
  obtain ue2 where "ue_Close shaper_sender (Shaper_Close buffer_sink) False ue1 = Done ue2"
      "P (map datagram_frame ((if merged \<or> first = [] then [] else [first]) @ map snd sends) @ [NewFrameFIN]) (ueTx ue2)"
    using exchange_closed [where P = P, OF s(3,2) assms(5)] by blast
  then show ?thesis using o(1) s(1) by blast
qed

definition frames_before_fin :: "Frame list \<Rightarrow> Frame list" where
  "frames_before_fin gs = takeWhile (\<lambda>f. fType f \<noteq> FrameFIN) gs"

definition frame_datagrams :: "Frame list \<Rightarrow> bytes list" where
  "frame_datagrams gs = concat (map (\<lambda>f. client_datagram (Client_frame (Inr f))) gs)"

lemma frame_datagrams_cargo: "frame_datagrams gs = frame_datagrams (filter is_cargo gs)"
  by (induction gs) (auto simp: frame_datagrams_def is_cargo_def)

lemma before_fin_cargo: "filter is_cargo (frames_before_fin gs) = frames_before_fin (filter is_cargo gs)"
  by (induction gs) (auto simp: frames_before_fin_def is_cargo_def)

lemma frames_of_datagrams:
  assumes "filter is_cargo gs = map datagram_frame ds @ [NewFrameFIN]"
  shows "frame_datagrams (frames_before_fin gs) = filter (\<lambda>d. d \<noteq> []) ds"
    and "\<forall>f \<in> set (frames_before_fin gs). fType f \<noteq> FrameFIN \<and> fType f \<noteq> FrameRST"
proof -
  have b: "filter is_cargo (frames_before_fin gs) = map datagram_frame ds"
    unfolding before_fin_cargo assms by (induction ds) (auto simp: frames_before_fin_def NewFrameFIN_def)
  have "frame_datagrams (map datagram_frame ds) = filter (\<lambda>d. d \<noteq> []) ds"
    by (induction ds) (auto simp: frame_datagrams_def)
  then show "frame_datagrams (frames_before_fin gs) = filter (\<lambda>d. d \<noteq> []) ds"
    using frame_datagrams_cargo [of "frames_before_fin gs"] b by simp
  show "\<forall>f \<in> set (frames_before_fin gs). fType f \<noteq> FrameFIN \<and> fType f \<noteq> FrameRST"
  proof
    fix f
    assume f: "f \<in> set (frames_before_fin gs)"
    show "fType f \<noteq> FrameFIN \<and> fType f \<noteq> FrameRST"
    proof (cases "is_cargo f")
      case True
      then have "f \<in> set (map datagram_frame ds)" using f b [symmetric] by simp
      then show ?thesis by auto
    qed (auto simp: is_cargo_def)
  qed
qed

fun client_frames :: "udp_event list \<Rightarrow> Frame list" where
  "client_frames [] = []"
| "client_frames (Client_frame (Inr f) # evs) = f # client_frames evs"
| "client_frames (_ # evs) = client_frames evs"

lemma client_frames_datagrams: "concat (map client_datagram evs) = frame_datagrams (client_frames evs)"
  by (induction evs rule: client_frames.induct) (simp_all add: frame_datagrams_def)

lemma client_frames_calm:
  assumes "ev \<in> set evs" "list_all undisturbed evs" "client_frames evs = gs"
    and "\<forall>f \<in> set gs. fType f \<noteq> FrameFIN \<and> fType f \<noteq> FrameRST"
  shows "calm_event ev"
proof (cases ev)
  case (Client_frame x)
  then obtain f where f: "x = Inr f" using assms(1,2) by (cases x) (auto simp: list_all_iff)
  have "f \<in> set (client_frames evs)" using assms(1) unfolding Client_frame f
    by (induction evs rule: client_frames.induct) auto
  then show ?thesis using assms(3,4) Client_frame f by auto
next
  case (Target_result c x)
  then show ?thesis using assms(1,2) by (cases x) (auto simp: list_all_iff)
qed (use assms(1,2) in \<open>auto simp: list_all_iff\<close>)

text \<open>The reader a session gets, and what it reads after the frames left over from the handshake record.\<close>

lemma reader_made:
  assumes "lib_ok lib" "keys_ok sk" "dir = DirC2S \<or> dir = DirS2C" "m = MethodAES256GCM \<or> m = MethodChaCha20Poly1305"
  shows "\<exists>rx. NewReader lib sk src dir m = Inr rx"
  using newEncryptor_session [OF assms] by (auto simp: NewReader_def)

lemma leftover_read:
  assumes "NewReader lib sk src dir m = Inr rx" "read_frames n env rx = (gs, e)"
  shows "\<exists>k. read_frames k env (SetLeftoverFrames rx fs) = (fs @ gs, e)"
proof -
  have "drFrames rx = []" using assms(1) by (auto simp: NewReader_def NewDecryptedReader_def split: sum.splits prod.splits)
  then have "rx\<lparr>drFrames := []\<rparr> = rx" by simp
  then have "read_frames (length fs + n) env (SetLeftoverFrames rx fs) = (fs @ gs, e)"
    using read_frames_leftover [of "SetLeftoverFrames rx fs" fs n env] assms(2) by (simp add: SetLeftoverFrames_def)
  then show ?thesis by blast
qed

text \<open>The client's half: from the session of an opened stream to the frames its records carry.\<close>

lemma exchange_on_wire:
  assumes "lib_ok lib" "keys_ok (bnKeys bn)" "method = MethodAES256GCM \<or> method = MethodChaCha20Poly1305" "env_ok envc" "env_ok envs"
    and "udp_request target method first g0 = Done (req, merged, g1)" "length first \<le> MaxUDPDataSize"
    and "\<forall>(t, d) \<in> set sends. length d \<le> MaxUDPDataSize"
  shows "\<exists>sn ue g2 ue1 g3 ue2 rx j gs.
    newSession lib ratio cfg buffer_sink (withBatchWindow 1 req) down (bn\<lparr>bnStream := []\<rparr>) envc rt = Done (Inr sn, False) \<and>
    OpenUDPExchange shaper_sender (Shaper_Close buffer_sink)
      (\<lambda>q. if q = withBatchWindow 1 req then Inr (snTx sn, snRx sn) else Inl ErrClosed) now target method first g0 = Done (Inr ue, g2) \<and>
    send_all shaper_sender sends (ue, g2) = Done (ue1, g3) \<and>
    ue_Close shaper_sender (Shaper_Close buffer_sink) False ue1 = Done ue2 \<and>
    NewReader lib (bnKeys bn) \<lparr>sData = bsOut (ueTx ue2), sErr = io_EOF\<rparr> DirC2S method = Inr rx \<and>
    read_frames j envs rx = (gs, Some io_EOF) \<and>
    filter is_cargo gs = map datagram_frame ((if merged \<or> first = [] then [] else [first]) @ map snd sends) @ [NewFrameFIN]"
proof -
  have m: "sqMethod (withBatchWindow 1 req) = method" unfolding udp_request_frames(1) [OF assms(6,7)] by (simp add: newStreamRequest_def)
  define cfg1 where "cfg1 = cfg\<lparr>cfBatchWindowMS := 1\<rparr>"
  obtain a cn aad rw bs where ch: "NewWriter lib (bnKeys bn) DirC2S method = Inr rw" "Shaper_New ratio rw cfg1 [] envc rt = Done bs"
      "shaper_sent a cn aad [] bs"
      "\<And>fs bs1. shaper_sent a cn aad fs bs1 \<Longrightarrow>
       \<exists>bs2 rx n gs. Shaper_Close buffer_sink bs1 = Done (Inr (), bs2) \<and>
         NewReader lib (bnKeys bn) \<lparr>sData = bsOut bs2, sErr = io_EOF\<rparr> DirC2S method = Inr rx \<and>
         read_frames n envs rx = (gs, Some io_EOF) \<and> filter is_cargo gs = filter is_cargo fs"
    by (rule session_channel [OF assms(1,2) disjI1 [OF refl] assms(3-5)]) (rule that)
  obtain rxd where rd: "NewReader lib (bnKeys bn) down DirS2C method = Inr rxd" using reader_made [OF assms(1,2) _ assms(3)] by blast
  define sn where "sn = \<lparr>snTx = bs, snRx = rxd\<rparr>"
  have sn: "bs = snTx sn" "rxd = snRx sn" by (simp_all add: sn_def)
  have ns: "newSession lib ratio cfg buffer_sink (withBatchWindow 1 req) down (bn\<lparr>bnStream := []\<rparr>) envc rt = Done (Inr sn, False)"
    using ch(1,2) rd m by (simp add: newSession_def cfg1_def withBatchWindow_def sn_def)
  let ?sent = "(if merged \<or> first = [] then [] else [first]) @ map snd sends"
  let ?P = "\<lambda>fs bs2. \<exists>rx n gs. NewReader lib (bnKeys bn) \<lparr>sData = bsOut bs2, sErr = io_EOF\<rparr> DirC2S method = Inr rx \<and>
         read_frames n envs rx = (gs, Some io_EOF) \<and> filter is_cargo gs = filter is_cargo fs"
  have close: "\<exists>bs2. Shaper_Close buffer_sink bs1 = Done (Inr (), bs2) \<and> ?P fs bs2" if "shaper_sent a cn aad fs bs1" for fs bs1
    using ch(4) [OF that] by blast
  have cargo: "filter is_cargo (map datagram_frame ?sent @ [NewFrameFIN]) = map datagram_frame ?sent @ [NewFrameFIN]"
    by (simp add: filter_id_conv is_cargo_def NewFrameFIN_def)
  show ?thesis
    using ns exchange_carries [where P = ?P and rx = rxd and now = now, OF assms(6,7,8) ch(3) close] unfolding cargo sn by blast
qed

text \<open>
  C3. Datagrams cross the tunnel. A client opens an exchange with a first datagram, which travels in the
  bootstrap record when it fits there, sends the others and closes the exchange; none is longer than
  \<open>MaxUDPDataSize\<close>. A server with the same master key lets the request pass, and reads frames up to the
  client's FIN. When the network lets it reach the target, the session it runs on these frames and,
  interleaved in any way, on datagrams of the target, writes to the target exactly the client's datagrams,
  whole and in the order they were sent, and ends without an error when the FIN arrives. An empty
  datagram is the exception: neither side forwards it. The session's records follow the bootstrap
  record \<open>bnStream bn\<close> on the stream.
\<close>

theorem datagrams_reach_target:
  assumes "lib_ok lib" "length mk = 32" "env_ok env" "env_ok envc" "env_ok envs"
    and "method = MethodAES256GCM \<or> method = MethodChaCha20Poly1305"
    and "length first \<le> MaxUDPDataSize" "\<forall>(t, d) \<in> set sends. length d \<le> MaxUDPDataSize"
    and "udp_request target method first g0 = Done (req, merged, g1)"
    and "openAndBootstrap lib buffer_sink mk sur (withBatchWindow 1 req) rt env = (Inr bn, bevs, rt', env2)" "attempt_sound (sur (bnIndex bn))"
    and "suCrypto su = lib" "phMasterKey h = mk" "env_ok (phEnv h)" "suWait su = ResultReady"
    and "rqProtoMajor r = 2" "rqMethod r = ''POST''" "rqSaltHeader r = EncodeToString (bnSalt bn)" "rqPath r = EndpointUDP"
    and "fst (Allow (suLimiter su) (suNow su) (clientIP (rqRemoteAddr r)) (phIpLimiter h))"
      "\<not> fcGet (suFreecache su) (phSaltCache h) (suNow su) (rqPath r @ rqSaltHeader r)"
      "method \<in> phAllowedMethods h" "suResolve su target = Inr addrs" "\<forall>a \<in> set addrs. \<not> lan_ip (As16 (fst a))"
    and "upstream_works w target"
  shows "\<exists>sn ue g2 ue1 g3 ue2 res rx k gs rw sh.
    newSession lib ratio cfg buffer_sink (withBatchWindow 1 req) down (bn\<lparr>bnStream := []\<rparr>) envc rt' = Done (Inr sn, False) \<and>
    OpenUDPExchange shaper_sender (Shaper_Close buffer_sink)
      (\<lambda>q. if q = withBatchWindow 1 req then Inr (snTx sn, snRx sn) else Inl ErrClosed) now target method first g0 = Done (Inr ue, g2) \<and>
    send_all shaper_sender sends (ue, g2) = Done (ue1, g3) \<and>
    ue_Close shaper_sender (Shaper_Close buffer_sink) False ue1 = Done ue2 \<and>
    fst (preflight su (r\<lparr>rqBody := \<lparr>sData = bnStream bn @ bsOut (ueTx ue2), sErr = io_EOF\<rparr>\<rparr>) h) = Inr res \<and> hrTarget res = target \<and>
    NewReader lib (hrKeys res) \<lparr>sData = bsOut (ueTx ue2), sErr = io_EOF\<rparr> DirC2S (hrMethod res) = Inr rx \<and>
    read_frames k envs (SetLeftoverFrames rx (frLeftover (hrFirst res))) = (gs, Some io_EOF) \<and>
    NewWriter lib (hrKeys res) DirS2C (hrMethod res) = Inr rw \<and> Shaper_New ratio rw cfgs [] envs rts = Done sh \<and>
    (\<forall>evs. client_frames evs = frames_before_fin gs \<longrightarrow> list_all undisturbed evs \<longrightarrow>
      (\<exists>sr s sh'. udp_Handle w timeout shaper_sender np (hrTarget res) (evs @ [Client_frame (Inr NewFrameFIN)]) n sh =
          Done (Some sr, s, sh') \<and> srErr sr = None \<and>
        map snd (writes (usTrace s)) = filter (\<lambda>d. d \<noteq> []) (first # map snd sends)))"
proof -
  note req = udp_request_frames [OF assms(9,7)]
  define fs where "fs = (if merged then [datagram_frame first] else [])"
  have wf: "\<forall>f \<in> set fs. frame_wf f"
    using assms(7) by (auto simp: fs_def frame_wf_def frame_fits_def datagram_frame_def frame_norm_def)
  have ep: "sqEndpoint (withBatchWindow 1 req) = EndpointUDP" "sqMethod (withBatchWindow 1 req) = method"
    unfolding req(1) by (simp_all add: newStreamRequest_def)
  have sk: "NewStreamKeys lib mk (bnSalt bn) (sqEndpoint (withBatchWindow 1 req)) = Inr (bnKeys bn)" "length (bnSalt bn) = 16"
    using bootstrap_session_keys [OF assms(10)] assms(11) by (auto simp: attempt_sound_def)
  have keys: "keys_ok (bnKeys bn)" using NewStreamKeys_ok [OF assms(1,2) sk(2), of "sqEndpoint (withBatchWindow 1 req)"] sk(1) by auto
  obtain sn ue g2 ue1 g3 ue2 rx j gs where x:
      "newSession lib ratio cfg buffer_sink (withBatchWindow 1 req) down (bn\<lparr>bnStream := []\<rparr>) envc rt' = Done (Inr sn, False)"
      "OpenUDPExchange shaper_sender (Shaper_Close buffer_sink)
        (\<lambda>q. if q = withBatchWindow 1 req then Inr (snTx sn, snRx sn) else Inl ErrClosed) now target method first g0 = Done (Inr ue, g2)"
      "send_all shaper_sender sends (ue, g2) = Done (ue1, g3)" "ue_Close shaper_sender (Shaper_Close buffer_sink) False ue1 = Done ue2"
      "NewReader lib (bnKeys bn) \<lparr>sData = bsOut (ueTx ue2), sErr = io_EOF\<rparr> DirC2S method = Inr rx"
      "read_frames j envs rx = (gs, Some io_EOF)"
      "filter is_cargo gs = map datagram_frame ((if merged \<or> first = [] then [] else [first]) @ map snd sends) @ [NewFrameFIN]"
    using exchange_on_wire [OF assms(1) keys assms(6,4,5,9,7,8), where ratio = ratio and cfg = cfg and down = down and rt = rt' and now = now] by blast
  let ?sent = "(if merged \<or> first = [] then [] else [first]) @ map snd sends"
  obtain res pad where p: "fst (preflight su (r\<lparr>rqBody := \<lparr>sData = bnStream bn @ bsOut (ueTx ue2), sErr = io_EOF\<rparr>\<rparr>) h) = Inr res"
      "hrKeys res = bnKeys bn" "hrTarget res = target" "hrMethod res = method" "frLeftover (hrFirst res) = fs @ pad"
      "\<forall>g \<in> set pad. fType g = FramePADDING"
    using opened_stream_accepted [OF assms(1-3) req(1) [folded fs_def] _ wf assms(10,11-15),
        of "r\<lparr>rqBody := \<lparr>sData = bnStream bn @ bsOut (ueTx ue2), sErr = io_EOF\<rparr>\<rparr>" "bsOut (ueTx ue2)" io_EOF addrs] assms(16-24) ep
    by auto
  obtain k where lo: "read_frames k envs (SetLeftoverFrames rx (fs @ pad)) = ((fs @ pad) @ gs, Some io_EOF)"
    using leftover_read [OF x(5,6)] by blast
  have "filter is_cargo pad = []" using p(6) by (auto simp: is_cargo_def filter_empty_conv)
  then have cargo: "filter is_cargo ((fs @ pad) @ gs) = map datagram_frame ((if merged then [first] else []) @ ?sent) @ [NewFrameFIN]"
    using x(7) by (simp add: fs_def)
  have all: "filter (\<lambda>d. d \<noteq> []) ((if merged then [first] else []) @ ?sent) = filter (\<lambda>d. d \<noteq> []) (first # map snd sends)"
    using req(2) by auto
  obtain a2 cn2 aad2 rw2 sh where sv: "NewWriter lib (bnKeys bn) DirS2C method = Inr rw2" "Shaper_New ratio rw2 cfgs [] envs rts = Done sh"
      "shaper_sent a2 cn2 aad2 [] sh"
    by (rule session_channel [OF assms(1) keys disjI2 [OF refl] assms(6,5,5)]) (rule that)
  have run: "\<exists>sr s sh'. udp_Handle w timeout shaper_sender np (hrTarget res) (evs @ [Client_frame (Inr NewFrameFIN)]) n sh =
          Done (Some sr, s, sh') \<and> srErr sr = None \<and>
        map snd (writes (usTrace s)) = filter (\<lambda>d. d \<noteq> []) (first # map snd sends)"
    if e: "client_frames evs = frames_before_fin ((fs @ pad) @ gs)" "list_all undisturbed evs" for evs
  proof -
    have "calm_event ev" if "ev \<in> set evs" for ev
      using that e frames_of_datagrams(2) [OF cargo] client_frames_calm by blast
    then have "list_all calm_event evs" by (simp add: list_all_iff)
    from session_undisturbed [OF assms(25) this sv(3), of timeout np n] show ?thesis
      using client_frames_datagrams [of evs] e(1) frames_of_datagrams(1) [OF cargo] all p(3) by fastforce
  qed
  show ?thesis
    by (rule exI [of _ sn], rule exI [of _ ue], rule exI [of _ g2], rule exI [of _ ue1], rule exI [of _ g3],
        rule exI [of _ ue2], rule exI [of _ res], rule exI [of _ rx], rule exI [of _ k], rule exI [of _ "(fs @ pad) @ gs"],
        rule exI [of _ rw2], rule exI [of _ sh], intro conjI)
      (use x(1-5) p(1-5) lo sv(1,2) run in simp_all)
qed

section \<open>From the target to the client\<close>

text \<open>A reader forwards a datagram only if it is not empty and has arrived whole.\<close>

lemma reader_forwards_whole:
  assumes "MaxUDPDataSize < capacity"
  shows "reader_turn tooLong capacity c upstream (Inr datagram) =
    (if 0 < length datagram \<and> length datagram \<le> MaxUDPDataSize then Reader_forwards datagram else Reader_skips)"
  using assms by (auto simp: reader_turn_def udpBufSize_def Let_def)

lemma ue_Receive_end:
  assumes "read_frames n env (ueReader ue) = (fs, Some e)" "filter is_cargo fs = []"
  shows "\<exists>err env' ue' g'. ue_Receive rejected now i env (ue, g) = (Inl err, env', ue', g')"
  using assms
proof (induction n arbitrary: env ue fs i)
  case (Suc n)
  obtain x rx' env' where r: "ReadFrame env (ueReader ue) = (x, rx', env')" using prod_cases3 by blast
  show ?case
  proof (cases x)
    case (Inl err)
    then show ?thesis using r by (simp add: ue_Receive.simps [of _ _ _ _ ue])
  next
    case (Inr h)
    then obtain hs where g: "read_frames n env' rx' = (hs, Some e)" "fs = h # hs"
      using Suc.prems r by (auto split: prod.splits)
    then have "\<not> is_cargo h" "filter is_cargo hs = []" using Suc.prems(2) by (auto split: if_splits)
    moreover from this(1) have "fType h = FramePADDING \<or> fType h = FrameCOVER" by (auto simp: is_cargo_def)
    ultimately show ?thesis
      using Suc.IH [of env' "ue\<lparr>ueReader := rx', ueFirstRead := True, ueLastSeen := now i\<rparr>" hs "Suc i"] g r Inr
      by (auto simp: ue_Receive.simps [of _ _ _ _ ue] Let_def)
  qed
qed simp

lemma receive_loop_datagrams:
  assumes "read_frames n env (ueReader ue) = (fs, Some e)" "filter is_cargo fs = map datagram_frame ds"
  shows "\<exists>err ue' g'. receive_loop rejected now env (ue, g) = (ds, err, ue', g')"
  using assms
proof (induction ds arbitrary: env ue fs n g)
  case Nil
  then have "filter is_cargo fs = []" by simp
  from ue_Receive_end [OF Nil(1) this, of rejected "\<lambda>_. now" 0 g] show ?case by (auto simp: receive_loop.simps [of _ _ env])
next
  case (Cons d ds)
  then have "filter is_cargo fs = datagram_frame d # map datagram_frame ds" by simp
  from ue_Receive_frames [OF Cons.prems(1) this, of rejected "\<lambda>_. now" 0 g] obtain rx' env' m hs t where
    r: "read_frames m env' rx' = (hs, Some e)" "filter is_cargo hs = map datagram_frame ds"
      "ue_Receive rejected (\<lambda>_. now) 0 env (ue, g) =
        (Inr d, env', ue\<lparr>ueReader := rx', ueFirstRead := True, ueLastSeen := t\<rparr>, RecordRawBytesRecv (int (length d)) g)"
    by (auto simp: Let_def)
  moreover have "\<exists>err ue' g'. receive_loop rejected now env'
      (ue\<lparr>ueReader := rx', ueFirstRead := True, ueLastSeen := t\<rparr>, RecordRawBytesRecv (int (length d)) g) = (ds, err, ue', g')"
    using r(1,2) by (intro Cons.IH [of m]) simp_all
  ultimately show ?case by (auto simp: receive_loop.simps [of _ _ env])
qed

text \<open>
  What arrives at a session: frames of the client, and datagrams of the target on one of its connections.
  The reader of the connection has a pooled buffer of the class \<open>UDPPoolClassSize\<close>, 16384 bytes; it skips what is empty and what is
  longer than a frame may carry, and hands on the rest.
\<close>

datatype arrival = From_client Frame | From_target nat bytes

fun arrival_event :: "(go_error \<Rightarrow> bool) \<Rightarrow> arrival \<Rightarrow> udp_event list" where
  "arrival_event tooLong (From_client f) = [Client_frame (Inr f)]"
| "arrival_event tooLong (From_target c d) =
     (case reader_turn tooLong UDPPoolClassSize c (Some c) (Inr d) of Reader_forwards p \<Rightarrow> [Target_result c (Inr p)] | _ \<Rightarrow> [])"

fun arrival_datagrams :: "arrival list \<Rightarrow> bytes list" where
  "arrival_datagrams [] = []"
| "arrival_datagrams (From_client f # as) = arrival_datagrams as"
| "arrival_datagrams (From_target c d # as) = d # arrival_datagrams as"

fun keeps_open :: "arrival \<Rightarrow> bool" where
  "keeps_open (From_client f) \<longleftrightarrow> fType f \<noteq> FrameFIN \<and> fType f \<noteq> FrameRST"
| "keeps_open (From_target c d) \<longleftrightarrow> True"

lemma arrival_events:
  assumes "list_all keeps_open as"
  shows "list_all calm_event (concat (map (arrival_event tooLong) as))"
    and "concat (map target_datagram (concat (map (arrival_event tooLong) as))) =
      filter (\<lambda>d. d \<noteq> [] \<and> length d \<le> MaxUDPDataSize) (arrival_datagrams as)"
  using assms
  by (induction as rule: arrival_datagrams.induct) (auto simp: reader_forwards_whole [simplified])

text \<open>
  C8. Replies cross the tunnel. Whatever arrives at a session from the target, on any of its connections
  and in whatever order between the client's frames, is taken by its readers and pushed into the response;
  when the client has ended its side, the session ends without an error, the response is torn down, and
  the client's receiving loop hands over exactly the datagrams that arrived, whole and in order, except
  those that are empty or longer than \<open>MaxUDPDataSize\<close>, which the readers skip. The network lets the
  session reach its target.
\<close>

theorem replies_reach_client:
  assumes "lib_ok lib" "length mk = 32" "length salt = 16" "NewStreamKeys lib mk salt ep = Inr sk"
    and "m = MethodAES256GCM \<or> m = MethodChaCha20Poly1305" "env_ok env" "env_ok env2"
    and "upstream_works w target" "list_all keeps_open as"
  shows "\<exists>rw bs sr s bs1 bs2 rx err ue' g'. NewWriter lib sk DirS2C m = Inr rw \<and> Shaper_New ratio rw cfg [] env rt = Done bs \<and>
    udp_Handle w timeout shaper_sender np target
      (concat (map (arrival_event tooLong) as) @ [Client_frame (Inr NewFrameFIN)]) n bs = Done (Some sr, s, bs1) \<and>
    srErr sr = None \<and> teardownSession shaper_sender (Shaper_Close buffer_sink) sr bs1 = Done bs2 \<and>
    NewReader lib sk \<lparr>sData = bsOut bs2, sErr = io_EOF\<rparr> DirS2C m = Inr rx \<and>
    receive_loop rejected now env2 (ue\<lparr>ueReader := rx\<rparr>, g) =
      (filter (\<lambda>d. d \<noteq> [] \<and> length d \<le> MaxUDPDataSize) (arrival_datagrams as), err, ue', g')"
proof -
  have sk: "keys_ok sk" using NewStreamKeys_ok [OF assms(1-3), of ep] assms(4) by auto
  obtain a cn aad rw bs where ch: "NewWriter lib sk DirS2C m = Inr rw" "Shaper_New ratio rw cfg [] env rt = Done bs"
      "shaper_sent a cn aad [] bs"
      "\<And>fs bs1. shaper_sent a cn aad fs bs1 \<Longrightarrow>
       \<exists>bs2 rx n gs. Shaper_Close buffer_sink bs1 = Done (Inr (), bs2) \<and>
         NewReader lib sk \<lparr>sData = bsOut bs2, sErr = io_EOF\<rparr> DirS2C m = Inr rx \<and>
         read_frames n env2 rx = (gs, Some io_EOF) \<and> filter is_cargo gs = filter is_cargo fs"
    by (rule session_channel [OF assms(1) sk disjI2 [OF refl] assms(5-7)]) (rule that)
  let ?ds = "filter (\<lambda>d. d \<noteq> [] \<and> length d \<le> MaxUDPDataSize) (arrival_datagrams as)"
  obtain sr s bs1 where l: "udp_Handle w timeout shaper_sender np target
      (concat (map (arrival_event tooLong) as) @ [Client_frame (Inr NewFrameFIN)]) n bs = Done (Some sr, s, bs1)"
      "srErr sr = None" "\<not> srDialFailed sr" "shaper_sent a cn aad (map datagram_frame ?ds) bs1"
    using session_undisturbed [OF assms(8) arrival_events(1) [OF assms(9), of tooLong] ch(3), where timeout = timeout and np = np and n = n]
      arrival_events(2) [OF assms(9), of tooLong] by auto
  obtain bs2 rx k gs where r: "Shaper_Close buffer_sink bs1 = Done (Inr (), bs2)"
      "NewReader lib sk \<lparr>sData = bsOut bs2, sErr = io_EOF\<rparr> DirS2C m = Inr rx" "read_frames k env2 rx = (gs, Some io_EOF)"
      "filter is_cargo gs = map datagram_frame ?ds"
    using ch(4) [OF l(4)] by (auto simp: filter_id_conv)
  have "teardownSession shaper_sender (Shaper_Close buffer_sink) sr bs1 = Done bs2"
    using r(1) l(2,3) by (simp add: teardownSession_def needsRST_def)
  moreover obtain err ue' g' where "receive_loop rejected now env2 (ue\<lparr>ueReader := rx\<rparr>, g) = (?ds, err, ue', g')"
    using receive_loop_datagrams [of k env2 "ue\<lparr>ueReader := rx\<rparr>" gs io_EOF ?ds rejected now g] r(3,4) by auto
  ultimately show ?thesis using ch(1,2) l(1,2) r(2) by blast
qed

section \<open>An example\<close>

text \<open>A network that answers, and one query for \<open>example.com\<close>.\<close>

definition demo_world :: "int udp_world" where
  "demo_world = \<lparr>uwDialer = newUDPHandler glob_engine (Some demo_proxy) (\<lambda>t n. (Inr (Some ''10.0.0.1:1080''), n + 1)) 10
        (demo_dialer\<lparr>dlNetwork := answering_net\<rparr>),
     uwCtx = demo_ctx, uwRegexp = glob_engine,
     uwDNS = \<lparr>dnUnpack = (\<lambda>b. if b = [1] then Some \<lparr>mId = 7, mResponse = False, mTruncated = False, mRcode = 0,
                mQuestion = [\<lparr>qName = ''example.com.'', qType = 1\<rparr>], mAnswer = [], mNs = [], mExtra = []\<rparr> else None),
              dnPack = (\<lambda>_. Inr []), dnTypeName = (\<lambda>_. []), dnFqdn = (\<lambda>s. s @ ''.''),
              dnSetReply = (\<lambda>m r. m), dnSetRcode = (\<lambda>m r c. m)\<rparr>,
     uwWrite = (\<lambda>c d n. (None, n + 1))\<rparr>"

lemma demo_world_facts [simp]: "\<not> isDNSPort ''8.8.8.8:443''" "isDNSPort ''8.8.8.8:53''"
    "dnsQueryDomain (uwDNS demo_world) [1] = Some ''example.com''"
  subgoal by code_simp
  subgoal by code_simp
  subgoal by code_simp
  done

lemma demo_pieces:
  "\<not> np_ShouldProxy glob_engine (Some demo_proxy) ''8.8.8.8:443''" "rejectLANConn (Some ''8.8.8.8:443'') = None"
  "np_ShouldProxy glob_engine (Some demo_proxy) ''example.com''"
  "case outbound answering_net (\<lambda>_. Inr [([10, 0, 0, 1], [])]) 2 demo_ctx 10 ''8.8.8.8:443'' 0 of (r, _) \<Rightarrow> r = Inr (Some ''8.8.8.8:443'')"
  subgoal by code_simp
  subgoal by code_simp
  subgoal by code_simp
  subgoal by code_simp
  done

lemma demo_start: "\<exists>s0. handle_start demo_world (Some demo_proxy) ''8.8.8.8:443'' 0 = Some s0"
proof -
  obtain tries n where "outbound answering_net (\<lambda>_. Inr [([10, 0, 0, 1], [])]) 2 demo_ctx 10 ''8.8.8.8:443'' 0 =
      (Inr (Some ''8.8.8.8:443''), tries, n)"
    using demo_pieces(4) by (auto split: prod.splits)
  then have "dialTarget (uwDialer demo_world) (uwCtx demo_world) ''8.8.8.8:443'' 0 = (Inr (Some ''8.8.8.8:443'', ''8.8.8.8:443''), tries, n)"
    using demo_pieces(1,2)
    by (simp add: dialTarget_def usesNextProxy_def dialVia_def demo_world_def newUDPHandler_def demo_dialer_def remoteString_def)
  then show ?thesis by (simp add: handle_start_def)
qed

text \<open>The same on a network without a clock, where every dial and every write succeeds.\<close>

definition calm_world :: "unit udp_world" where
  "calm_world = \<lparr>uwDialer = newUDPHandler glob_engine (Some demo_proxy) (\<lambda>t n. (Inr (Some ''10.0.0.1:1080''), n)) 10
        \<lparr>dlNextProxy = None, dlResolve = (\<lambda>_. Inr [([8, 8, 8, 8], [])]),
         dlNetwork = \<lparr>nwNow = (\<lambda>n. 0), nwGone = (\<lambda>_. False), nwAttempt = (\<lambda>d a n. (Inr (Some ''8.8.8.8:53''), n))\<rparr>,
         dlTimeout = 10, dlAttemptMinBudget = 2\<rparr>,
     uwCtx = demo_ctx, uwRegexp = glob_engine, uwDNS = uwDNS demo_world, uwWrite = (\<lambda>c d n. (None, n))\<rparr>"

lemma calm_dials: "\<not> isl (fst (dialVia (uwDialer calm_world) (uwCtx calm_world) ''8.8.8.8:53'' via ()))"
proof (cases via)
  case True
  then show ?thesis by simp code_simp
next
  case False
  then show ?thesis by simp code_simp
qed

lemma calm_world_works: "upstream_works calm_world ''8.8.8.8:53''"
proof -
  have "\<exists>conn. fst (dialVia (uwDialer calm_world) (uwCtx calm_world) ''8.8.8.8:53'' via n) = Inr conn" for via n
    using calm_dials [of via] by (cases n; cases "fst (dialVia (uwDialer calm_world) (uwCtx calm_world) ''8.8.8.8:53'' via n)") auto
  moreover have "fst (uwWrite calm_world c d n) = None" for c d n by (simp add: calm_world_def)
  ultimately show ?thesis by (simp add: upstream_works_def)
qed

lemma demo_udp_request:
  "\<exists>req g1. udp_request ''8.8.8.8:53'' MethodAES256GCM [1, 2] init_stats = Done (req, True, g1) \<and>
     withBatchWindow 1 req = newStreamRequest ProtoUDP ''8.8.8.8:53'' MethodAES256GCM\<lparr>sqFrames := [datagram_frame [1, 2]], sqBatchWindowMS := 1\<rparr>"
proof -
  obtain req merged g1 where r: "udp_request ''8.8.8.8:53'' MethodAES256GCM [1, 2] init_stats = Done (req, merged, g1)" "merged"
    by (auto simp: udp_request_def bootstrapMaxPayload_def NewFrameDATAGRAM_def NewFrame_def NewFrameWithPayload_def checkPayloadLen_def Let_def)
  then show ?thesis using udp_request_frames(1) [OF r(1)] by simp
qed

theorem datagrams_reach_target_witness:
  "\<exists>req g1 bn bevs rt' env' sn ue g2 ue1 g3 ue2 res rx k gs rw sh sr s sh'.
     udp_request ''8.8.8.8:53'' MethodAES256GCM [1, 2] init_stats = Done (req, True, g1) \<and>
     openAndBootstrap null_lib buffer_sink (replicate 32 0) demo_sur (withBatchWindow 1 req) still_runtime init_env = (Inr bn, bevs, rt', env') \<and>
     newSession null_lib (3 / 100) plain_config buffer_sink (withBatchWindow 1 req) \<lparr>sData = [], sErr = io_EOF\<rparr> (bn\<lparr>bnStream := []\<rparr>) init_env
       rt' = Done (Inr sn, False) \<and>
     OpenUDPExchange shaper_sender (Shaper_Close buffer_sink)
       (\<lambda>q. if q = withBatchWindow 1 req then Inr (snTx sn, snRx sn) else Inl ErrClosed) 0 ''8.8.8.8:53'' MethodAES256GCM [1, 2] init_stats = Done (Inr ue, g2) \<and>
     send_all shaper_sender [(5, []), (9, [3])] (ue, g2) = Done (ue1, g3) \<and>
     ue_Close shaper_sender (Shaper_Close buffer_sink) False ue1 = Done ue2 \<and>
     fst (preflight example_su (example_request (bnStream bn @ bsOut (ueTx ue2))\<lparr>rqPath := EndpointUDP, rqSaltHeader := EncodeToString (bnSalt bn)\<rparr>)
       example_handler) = Inr res \<and>
     NewReader null_lib (hrKeys res) \<lparr>sData = bsOut (ueTx ue2), sErr = io_EOF\<rparr> DirC2S (hrMethod res) = Inr rx \<and>
     read_frames k init_env (SetLeftoverFrames rx (frLeftover (hrFirst res))) = (gs, Some io_EOF) \<and>
     NewWriter null_lib (hrKeys res) DirS2C (hrMethod res) = Inr rw \<and>
     Shaper_New (3 / 100) rw plain_config [] init_env still_runtime = Done sh \<and>
     udp_Handle calm_world (\<lambda>_. False) shaper_sender (Some demo_proxy) (hrTarget res)
       (map (\<lambda>f. Client_frame (Inr f)) (frames_before_fin gs) @ [Client_frame (Inr NewFrameFIN)]) () sh = Done (Some sr, s, sh') \<and>
     map snd (writes (usTrace s)) = [[1, 2], [3]]"
proof -
  obtain req g1 where q: "udp_request ''8.8.8.8:53'' MethodAES256GCM [1, 2] init_stats = Done (req, True, g1)"
      "withBatchWindow 1 req = newStreamRequest ProtoUDP ''8.8.8.8:53'' MethodAES256GCM\<lparr>sqFrames := [datagram_frame [1, 2]], sqBatchWindowMS := 1\<rparr>"
    using demo_udp_request by blast
  have "\<forall>f \<in> set (sqFrames (withBatchWindow 1 req)). frame_wf f"
      "length (sqTarget (withBatchWindow 1 req)) + 6 + encodedLen (sqFrames (withBatchWindow 1 req)) \<le> 65517"
    unfolding q(2) by (simp_all add: newStreamRequest_def encodedLen_def frame_wf_def frame_fits_def datagram_frame_def frame_norm_def EncodedLen_def)
  then obtain bn bevs rt' env' where o: "openAndBootstrap null_lib buffer_sink (replicate 32 0) demo_sur (withBatchWindow 1 req) still_runtime init_env =
     (Inr bn, bevs, rt', env')"
    using demo_opens [OF _ _ init_env_ok, of "withBatchWindow 1 req" still_runtime] by blast
  let ?r = "example_request []\<lparr>rqPath := EndpointUDP, rqSaltHeader := EncodeToString (bnSalt bn)\<rparr>"
  let ?sends = "[(5, []), (9, [3])] :: (int \<times> bytes) list"
  have "\<exists>sn ue g2 ue1 g3 ue2 res rx k gs rw sh.
    newSession null_lib (3 / 100) plain_config buffer_sink (withBatchWindow 1 req) \<lparr>sData = [], sErr = io_EOF\<rparr> (bn\<lparr>bnStream := []\<rparr>) init_env rt' = Done (Inr sn, False) \<and>
    OpenUDPExchange shaper_sender (Shaper_Close buffer_sink)
      (\<lambda>q. if q = withBatchWindow 1 req then Inr (snTx sn, snRx sn) else Inl ErrClosed) 0 ''8.8.8.8:53'' MethodAES256GCM [1, 2] init_stats = Done (Inr ue, g2) \<and>
    send_all shaper_sender ?sends (ue, g2) = Done (ue1, g3) \<and>
    ue_Close shaper_sender (Shaper_Close buffer_sink) False ue1 = Done ue2 \<and>
    fst (preflight example_su (?r\<lparr>rqBody := \<lparr>sData = bnStream bn @ bsOut (ueTx ue2), sErr = io_EOF\<rparr>\<rparr>) example_handler) = Inr res \<and> hrTarget res = ''8.8.8.8:53'' \<and>
    NewReader null_lib (hrKeys res) \<lparr>sData = bsOut (ueTx ue2), sErr = io_EOF\<rparr> DirC2S (hrMethod res) = Inr rx \<and>
    read_frames k init_env (SetLeftoverFrames rx (frLeftover (hrFirst res))) = (gs, Some io_EOF) \<and>
    NewWriter null_lib (hrKeys res) DirS2C (hrMethod res) = Inr rw \<and> Shaper_New (3 / 100) rw plain_config [] init_env still_runtime = Done sh \<and>
    (\<forall>evs. client_frames evs = frames_before_fin gs \<longrightarrow> list_all undisturbed evs \<longrightarrow>
      (\<exists>sr s sh'. udp_Handle calm_world (\<lambda>_. False) shaper_sender (Some demo_proxy) (hrTarget res) (evs @ [Client_frame (Inr NewFrameFIN)]) () sh =
          Done (Some sr, s, sh') \<and> srErr sr = None \<and>
        map snd (writes (usTrace s)) = filter (\<lambda>d. d \<noteq> []) ([1, 2] # map snd ?sends)))"
    by (rule datagrams_reach_target [OF null_lib_ok _ init_env_ok init_env_ok init_env_ok disjI1 [OF refl] _ _ q(1) o, where addrs = "[([8, 8, 8, 8], [])]"])
      (use demo_sur_facts(1) example_gate init_env_ok calm_world_works in \<open>simp_all add: example_defs\<close>)
  then obtain sn ue g2 ue1 g3 ue2 res rx k gs rw sh where x:
    "newSession null_lib (3 / 100) plain_config buffer_sink (withBatchWindow 1 req) \<lparr>sData = [], sErr = io_EOF\<rparr> (bn\<lparr>bnStream := []\<rparr>) init_env rt' = Done (Inr sn, False)"
    "OpenUDPExchange shaper_sender (Shaper_Close buffer_sink)
      (\<lambda>q. if q = withBatchWindow 1 req then Inr (snTx sn, snRx sn) else Inl ErrClosed) 0 ''8.8.8.8:53'' MethodAES256GCM [1, 2] init_stats = Done (Inr ue, g2)"
    "send_all shaper_sender ?sends (ue, g2) = Done (ue1, g3)"
    "ue_Close shaper_sender (Shaper_Close buffer_sink) False ue1 = Done ue2"
    "fst (preflight example_su (?r\<lparr>rqBody := \<lparr>sData = bnStream bn @ bsOut (ueTx ue2), sErr = io_EOF\<rparr>\<rparr>) example_handler) = Inr res"
    "NewReader null_lib (hrKeys res) \<lparr>sData = bsOut (ueTx ue2), sErr = io_EOF\<rparr> DirC2S (hrMethod res) = Inr rx"
    "read_frames k init_env (SetLeftoverFrames rx (frLeftover (hrFirst res))) = (gs, Some io_EOF)"
    "NewWriter null_lib (hrKeys res) DirS2C (hrMethod res) = Inr rw" "Shaper_New (3 / 100) rw plain_config [] init_env still_runtime = Done sh"
    "\<And>evs. client_frames evs = frames_before_fin gs \<Longrightarrow> list_all undisturbed evs \<Longrightarrow>
      (\<exists>sr s sh'. udp_Handle calm_world (\<lambda>_. False) shaper_sender (Some demo_proxy) (hrTarget res) (evs @ [Client_frame (Inr NewFrameFIN)]) () sh =
          Done (Some sr, s, sh') \<and> srErr sr = None \<and>
        map snd (writes (usTrace s)) = filter (\<lambda>d. d \<noteq> []) ([1, 2] # map snd ?sends))"
    by blast
  have "client_frames (map (\<lambda>f. Client_frame (Inr f)) fs) = fs" for fs :: "Frame list" by (induction fs) auto
  then obtain sr s sh' where u: "udp_Handle calm_world (\<lambda>_. False) shaper_sender (Some demo_proxy) (hrTarget res)
       (map (\<lambda>f. Client_frame (Inr f)) (frames_before_fin gs) @ [Client_frame (Inr NewFrameFIN)]) () sh = Done (Some sr, s, sh')"
      "map snd (writes (usTrace s)) = [[1, 2], [3]]"
    using x(10) [of "map (\<lambda>f. Client_frame (Inr f)) (frames_before_fin gs)"] by (auto simp: list_all_iff)
  show ?thesis
    by (intro exI conjI, rule q(1), rule o, rule x(1), rule x(2), rule x(3), rule x(4)) (use x(5-9) u in \<open>simp_all add: example_request_def\<close>)
qed

definition demo_arrivals :: "arrival list" where
  "demo_arrivals = [From_target 0 [4], From_client (datagram_frame [1]), From_target 0 [], From_target 0 [5, 6]]"

theorem replies_reach_client_witness:
  "\<exists>sk rw bs sr s bs1 bs2 rx err (ue :: bytes batchShaper udp_exchange) ue' g'.
     NewStreamKeys null_lib (replicate 32 0) (replicate 16 0) ''/v3/udp'' = Inr sk \<and>
     NewWriter null_lib sk DirS2C MethodAES256GCM = Inr rw \<and> Shaper_New (3 / 100) rw plain_config [] init_env still_runtime = Done bs \<and>
     udp_Handle calm_world (\<lambda>_. False) shaper_sender (Some demo_proxy) ''8.8.8.8:53''
       (concat (map (arrival_event (\<lambda>_. False)) demo_arrivals) @ [Client_frame (Inr NewFrameFIN)]) () bs = Done (Some sr, s, bs1) \<and>
     teardownSession shaper_sender (Shaper_Close buffer_sink) sr bs1 = Done bs2 \<and>
     NewReader null_lib sk \<lparr>sData = bsOut bs2, sErr = io_EOF\<rparr> DirS2C MethodAES256GCM = Inr rx \<and>
     receive_loop (\<lambda>_. False) 0 init_env (ue\<lparr>ueReader := rx\<rparr>, init_stats) = ([[4], [5, 6]], err, ue', g')"
proof -
  obtain sk where sk: "NewStreamKeys null_lib (replicate 32 0) (replicate 16 0) ''/v3/udp'' = Inr sk"
    using NewStreamKeys_ok [OF null_lib_ok, of "replicate 32 0" "replicate 16 0" "''/v3/udp''"] by auto
  have o: "list_all keeps_open demo_arrivals" by (simp add: demo_arrivals_def)
  have d: "filter (\<lambda>d. d \<noteq> [] \<and> length d \<le> MaxUDPDataSize) (arrival_datagrams demo_arrivals) = [[4], [5, 6]]"
    by (simp add: demo_arrivals_def)
  show ?thesis
    using replies_reach_client [OF null_lib_ok length_replicate length_replicate sk disjI1 [OF refl] init_env_ok init_env_ok calm_world_works o,
      where ratio = "3 / 100" and cfg = plain_config and rt = still_runtime and timeout = "\<lambda>_. False" and np = "Some demo_proxy"
        and tooLong = "\<lambda>_. False" and n = "()" and rejected = "\<lambda>_. False" and now = 0 and g = init_stats
        and ue = "undefined :: bytes batchShaper udp_exchange"] sk
    unfolding d by (elim exE conjE) (intro exI conjI; assumption)
qed

theorem udp_connections_accounted_witness:
  "\<forall>sh :: bytes batchShaper. \<exists>r (s :: int udpSession) sh'. udp_Handle demo_world (\<lambda>_. False) shaper_sender (Some demo_proxy)
      ''8.8.8.8:443'' [Idle_expired] 0 sh = Done (r, s, sh') \<and> r \<noteq> None \<and> live (usTrace s) = {}"
proof
  fix sh :: "bytes batchShaper"
  obtain s0 where s0: "handle_start demo_world (Some demo_proxy) ''8.8.8.8:443'' 0 = Some s0" using demo_start by blast
  obtain r s sh' where h: "udp_Handle demo_world (\<lambda>_. False) shaper_sender (Some demo_proxy) ''8.8.8.8:443'' [Idle_expired] 0 sh = Done (Some r, s, sh')"
    using udp_Handle_run [OF s0, of "\<lambda>_. False" shaper_sender "[Idle_expired]" sh] by (auto simp: udp_event_def)
  then show "\<exists>r (s :: int udpSession) sh'. udp_Handle demo_world (\<lambda>_. False) shaper_sender (Some demo_proxy)
      ''8.8.8.8:443'' [Idle_expired] 0 sh = Done (r, s, sh') \<and> r \<noteq> None \<and> live (usTrace s) = {}"
    using udp_connections_accounted [OF h] by auto
qed

text \<open>A session to a resolver, and its first query.\<close>

lemma demo_dns_start: "handle_start demo_world (Some demo_proxy) ''8.8.8.8:53'' 0 = Some (newUDPSession ''8.8.8.8:53'' True True None (Some demo_proxy) 0)"
  by (simp add: handle_start_def)

lemma demo_query:
  "\<exists>s'. observeClientFrame demo_world (datagram_frame [1]) (run_start (newUDPSession ''8.8.8.8:53'' True True None (Some demo_proxy) 0)) = (Inr True, s')"
proof -
  have "FirstLANAddr demo_addrs = None" by (rule demo_public)
  then show ?thesis using demo_pieces(3) demo_world_facts(3)
    by (auto simp: observeClientFrame_def observeDNSFrame_def noteDNSQuery_def run_start_def newUDPSession_def upstreamRoute_def
      upstreamOrDial_def routeForDomain_def dnsProxyAvailable_def EnableUDP_def openUpstream_def udp_dialRoute_def router_dialRoute_def
      viaNextProxy_def dialVia_def installUpstream_def startUpstreamReader_def note_effect_def conn_Write_def Let_def
      demo_world_def newUDPHandler_def demo_ctx_def resolvedAddrs_def demo_proxy_def demo_addrs_def)
qed

theorem dns_query_on_its_route_witness:
  "\<exists>(s' :: int udpSession) c. isDNSPort ''8.8.8.8:53'' \<and>
     handle_start demo_world (Some demo_proxy) ''8.8.8.8:53'' 0 = Some (newUDPSession ''8.8.8.8:53'' True True None (Some demo_proxy) 0) \<and>
     dnsQueryDomain (uwDNS demo_world) [1] = Some ''example.com'' \<and>
     observeClientFrame demo_world (datagram_frame [1]) (run_start (newUDPSession ''8.8.8.8:53'' True True None (Some demo_proxy) 0)) = (Inr True, s') \<and>
     last (writes (usTrace s')) = (c, [1]) \<and> Dialled c dnsRouteNextProxy \<in> set (usTrace s')"
proof -
  let ?s = "run_start (newUDPSession ''8.8.8.8:53'' True True None (Some demo_proxy) 0) :: int udpSession"
  have st: "usConn ?s = None" "usNextProxy ?s = Some demo_proxy" by (simp_all add: run_start_def newUDPSession_def)
  obtain s' where q: "observeClientFrame demo_world (datagram_frame [1]) ?s = (Inr True, s')" using demo_query by blast
  have l: "udp_loop demo_world (\<lambda>_. False) shaper_sender [] ?s sh = Done (None, ?s, sh)" for sh :: "bytes batchShaper" by simp
  have "routeForDomain (uwRegexp demo_world) (Some demo_proxy) ''example.com'' = dnsRouteNextProxy"
    using demo_pieces(3) by (simp add: routeForDomain_def dnsProxyAvailable_def EnableUDP_def demo_world_def) (simp add: demo_proxy_def)
  then have "\<exists>c. last (writes (usTrace s')) = (c, [1]) \<and> Dialled c dnsRouteNextProxy \<in> set (usTrace s')"
    using dns_query_on_its_route [OF demo_world_facts(2) demo_dns_start l, of "datagram_frame [1]" "''example.com''" s'] q st demo_world_facts(3)
    by auto
  then show ?thesis using demo_world_facts(2,3) demo_dns_start q by blast
qed

theorem client_datagrams_in_order_witness:
  "\<exists>(s :: int udpSession) (sh :: bytes batchShaper) s0 sh'. udp_loop demo_world (\<lambda>_. False) shaper_sender [Client_frame (Inr (datagram_frame [1]))] (run_start s0) sh =
     Done (None, s, sh') \<and> map snd (writes (usTrace s)) = [[1]]"
proof -
  let ?s0 = "newUDPSession ''8.8.8.8:53'' True True None (Some demo_proxy) 0 :: int udpSession"
  obtain s' where q: "observeClientFrame demo_world (datagram_frame [1]) (run_start ?s0) = (Inr True, s')" using demo_query by blast
  then have l: "udp_loop demo_world (\<lambda>_. False) shaper_sender [Client_frame (Inr (datagram_frame [1]))] (run_start ?s0) (sh :: bytes batchShaper) =
      Done (None, s', sh)" for sh
    by (simp add: udp_event_def)
  then show ?thesis using client_datagrams_in_order [OF demo_dns_start l] by fastforce
qed

end
