(* ===== verification/Icmp.thy ===== *)
theory Icmp
  imports UdpTunnel
begin

text \<open>
  \<open>server/handler/icmp.go\<close>: one ICMP echo for a client. The raw socket delivers whatever ICMP packets the
  host receives; the handler gives its request an identifier of its own and waits for the reply to it.
  \<open>x/net/icmp\<close> is the parameter \<open>icmp_lib\<close>; the packets that arrive are a parameter too.
\<close>

section \<open>Messages\<close>

datatype icmp_Type = ICMPv4 nat | ICMPv6 nat

datatype icmp_body = Echo nat nat bytes | Other_body

record icmp_Message =
  imType :: icmp_Type
  imCode :: nat
  imBody :: icmp_body

record icmp_lib =
  icMarshal :: "icmp_Message \<Rightarrow> bytes result"
  icParse :: "nat \<Rightarrow> bytes \<Rightarrow> icmp_Message result"

section \<open>Sizes and identifiers\<close>

definition icmpMaxReadBufSize :: nat where
  "icmpMaxReadBufSize = 65535"

definition icmpMinReadBufSize :: nat where
  "icmpMinReadBufSize = 4 * 1024"

definition icmpIPHeaderReserve :: nat where
  "icmpIPHeaderReserve = 64"

lemmas icmp_sizes = icmpMaxReadBufSize_def icmpMinReadBufSize_def icmpIPHeaderReserve_def

text \<open>The atomic counter, and the identifier drawn from it.\<close>

definition nextICMPEchoID :: "32 word \<Rightarrow> nat \<times> 32 word" where
  "nextICMPEchoID c = (unat (ucast (c + 1) :: 16 word), c + 1)"

definition icmpFirstReadBufSize :: "bytes \<Rightarrow> int" where
  "icmpFirstReadBufSize requestPayload =
     (let size = int (length requestPayload) - 4 + int icmpIPHeaderReserve
      in min (max size (int icmpMinReadBufSize)) (int icmpMaxReadBufSize))"

definition isIPv6Target :: "string \<Rightarrow> bool" where
  "isIPv6Target target =
     (let host = (case SplitHostPort target of None \<Rightarrow> target | Some (h, _) \<Rightarrow> h)
      in case ParseIP host of None \<Rightarrow> False | Some ip \<Rightarrow> To4 ip = None)"

section \<open>The exchange\<close>

definition strip_header :: "bool \<Rightarrow> bytes \<Rightarrow> bytes" where
  "strip_header isIPv6 data =
     (if \<not> isIPv6 \<and> data \<noteq> [] \<and> drop_bit 4 (hd data) = 4
      then let ihl = unat (hd data AND 15) * 4
           in if ihl \<ge> 20 \<and> ihl < length data then drop ihl data else data
      else data)"

text \<open>The data of a packet that answers the request with this identifier and number.\<close>

definition echo_answer :: "icmp_lib \<Rightarrow> bool \<Rightarrow> nat \<Rightarrow> nat \<Rightarrow> bytes \<Rightarrow> bytes option" where
  "echo_answer lib isIPv6 echoID sentSeq data =
     (case icParse lib (if isIPv6 then 58 else 1) (strip_header isIPv6 data) of
        Inl _ \<Rightarrow> None
      | Inr rm \<Rightarrow>
          (if imType rm \<noteq> (if isIPv6 then ICMPv6 129 else ICMPv4 0) then None
           else case imBody rm of
                  Echo i s d \<Rightarrow> (if i \<noteq> echoID \<or> s \<noteq> sentSeq then None else Some d)
                | Other_body \<Rightarrow> None))"

text \<open>
  The reading loop: the packets that arrive, and the error that ends the reading, at the latest that of
  the deadline. A packet that fills the buffer may have been cut off; it is dropped and the buffer grown.
\<close>

fun icmp_read ::
  "icmp_lib \<Rightarrow> bool \<Rightarrow> nat \<Rightarrow> nat \<Rightarrow> go_error \<Rightarrow> bytes list \<Rightarrow> bytes \<Rightarrow> nat \<Rightarrow> env \<Rightarrow> (bytes result \<times> bytes \<times> env) outcome" where
  "icmp_read lib isIPv6 echoID sentSeq err [] rb len env = Done (Inl err, rb, env)"
| "icmp_read lib isIPv6 echoID sentSeq err (p # ps) rb len env =
     (let n = min (length p) len
      in if n = len \<and> len < icmpMaxReadBufSize
         then (case bytespool_Get env (int icmpMaxReadBufSize) of
                 (got, env) \<Rightarrow>
                   (case SwapIn (ePool env) rb (map_option fst got) of
                      (Inl _, _) \<Rightarrow> Panics ''allocator Put() incorrect buffer size''
                    | (Inr rb, al) \<Rightarrow>
                        icmp_read lib isIPv6 echoID sentSeq err ps rb (case got of None \<Rightarrow> len | Some (_, m) \<Rightarrow> m) (env\<lparr>ePool := al\<rparr>)))
         else (case echo_answer lib isIPv6 echoID sentSeq (take n p) of
                 None \<Rightarrow> icmp_read lib isIPv6 echoID sentSeq err ps rb len env
               | Some d \<Rightarrow> Done (Inr d, rb, env)))"

record 'n icmp_world =
  iwLib :: icmp_lib
  iwDialer :: "'n dialer"
  iwSetDeadline :: "go_error option"
  iwWrite :: "bytes \<Rightarrow> go_error option"
  iwPackets :: "bytes \<Rightarrow> bytes list"
  iwReadErr :: go_error

definition echo_request :: "bool \<Rightarrow> nat \<Rightarrow> bytes \<Rightarrow> icmp_Message" where
  "echo_request isIPv6 echoID payload =
     \<lparr>imType = (if isIPv6 then ICMPv6 128 else ICMPv4 8), imCode = 0,
      imBody = Echo echoID (unat (uint16_at (payload ! 2) (payload ! 3))) (drop 4 payload)\<rparr>"

definition icmpExchange ::
  "'n icmp_world \<Rightarrow> string \<Rightarrow> bytes \<Rightarrow> 32 word \<Rightarrow> 'n \<Rightarrow> env \<Rightarrow> ((bytes \<times> string) result \<times> 32 word \<times> 'n \<times> env) outcome" where
  "icmpExchange w target payload c n env =
     (if length payload < 4 then Done (Inl io_ErrUnexpectedEOF, c, n, env)
      else let isIPv6 = isIPv6Target target
           in case dialTarget (iwDialer w) \<lparr>dxPreferred = None, dxResolved = [], dxDeadline = None\<rparr> target n of
                (Inl err, _, n) \<Rightarrow> Done (Inl err, c, n, env)
              | (Inr (_, connRemote), _, n) \<Rightarrow>
                  (let sentID = uint16_at (payload ! 0) (payload ! 1); sentSeq = uint16_at (payload ! 2) (payload ! 3);
                       (echoID, c) = nextICMPEchoID c
                   in case icMarshal (iwLib w) (echo_request isIPv6 echoID payload) of
                        Inl err \<Rightarrow> Done (Inl err, c, n, env)
                      | Inr wb \<Rightarrow>
                          (case iwSetDeadline w of
                             Some err \<Rightarrow> Done (Inl err, c, n, env)
                           | None \<Rightarrow>
                               (case iwWrite w wb of
                                  Some err \<Rightarrow> Done (Inl err, c, n, env)
                                | None \<Rightarrow>
                                    (case bytespool_Get env (icmpFirstReadBufSize payload) of
                                       (None, _) \<Rightarrow> Panics ''slice bounds out of range''
                                     | (Some (rb, len), env) \<Rightarrow>
                                         obind (icmp_read (iwLib w) isIPv6 echoID (unat sentSeq) (iwReadErr w) (iwPackets w wb) rb len env)
                                           (\<lambda>(r, rb, env).
                                             case bytespool_MustPut env rb of
                                               (Inl _, _) \<Rightarrow> Panics ''allocator Put() incorrect buffer size''
                                             | (Inr _, env) \<Rightarrow>
                                                 (case r of
                                                    Inl err \<Rightarrow> Done (Inl err, c, n, env)
                                                  | Inr d \<Rightarrow> Done (Inr (put_uint16 sentID @ put_uint16 sentSeq @ d, connRemote), c, n, env))))))))"

definition icmp_Handle ::
  "'n icmp_world \<Rightarrow> 's sender \<Rightarrow> DecryptedReader \<Rightarrow> string \<Rightarrow> 32 word \<Rightarrow> 'n \<Rightarrow> env \<Rightarrow> 's \<Rightarrow>
     (streamResult \<times> 32 word \<times> 'n \<times> env \<times> 's) outcome" where
  "icmp_Handle w tx dr target c n env s =
     (case nextClientFrame env dr of
        (Inl err, _, env) \<Rightarrow> Done (no_result\<lparr>srErr := Some err\<rparr>, c, n, env, s)
      | (Inr (frame, done), _, env) \<Rightarrow>
          (if done then Done (no_result, c, n, env, s)
           else obind (icmpExchange w target (fPayload frame) c n env) (\<lambda>(r, c, n, env).
                  case r of
                    Inl err \<Rightarrow> Done (no_result\<lparr>srErr := Some err\<rparr>, c, n, env, s)
                  | Inr (replyPayload, remote) \<Rightarrow>
                      (case NewFrameDATA replyPayload of
                         Inl _ \<Rightarrow> Panics ''payload too large''
                       | Inr dataFrame \<Rightarrow>
                           obind (sdFrame tx dataFrame s) (\<lambda>(_, s).
                             obind (send_fin tx s) (\<lambda>s.
                               Done (no_result\<lparr>srRemote := remote, srBytes := int (length replyPayload)\<rparr>, c, n, env, s)))))))"

section \<open>The handlers of a server\<close>

text \<open>
  The three handlers that \<open>NewProxyHandler\<close> puts together and \<open>serveSession\<close> calls. The schedule of the TCP relay and
  the events of the UDP session are those of the run; the frames among the latter come from the session's reader.
\<close>

definition server_handlers ::
  "'s sender \<Rightarrow> 'n dialer \<Rightarrow> 'd tcp_target \<Rightarrow> (int \<times> tcp_turn) list \<Rightarrow> nat \<Rightarrow> Allocator \<Rightarrow> env \<Rightarrow> 'n udp_world \<Rightarrow>
     (go_error \<Rightarrow> bool) \<Rightarrow> NextProxy option \<Rightarrow> (DecryptedReader \<Rightarrow> udp_event list) \<Rightarrow> 'n icmp_world \<Rightarrow> 32 word \<Rightarrow> 'n \<Rightarrow> 's session_handlers" where
  "server_handlers tx d t turns pick al env uw timeout np events iw c n =
     \<lparr>shTCP = tcp_serve tx d t turns pick al env n,
      shUDP = (\<lambda>ctx dr target s. obind (udp_Handle (uw\<lparr>uwCtx := ctx\<rparr>) timeout tx np target (events dr) n s)
        (\<lambda>(r, _, s). case r of None \<Rightarrow> Blocks | Some r \<Rightarrow> Done (r, s))),
      shICMP = (\<lambda>dr target s. obind (icmp_Handle iw tx dr target c n env s) (\<lambda>(r, _, _, _, s). Done (r, s)))\<rparr>"

section \<open>Identifiers do not collide\<close>

lemma echo_answer_id: "echo_answer lib v6 i s p \<noteq> None \<Longrightarrow> echo_answer lib v6 j t p \<noteq> None \<Longrightarrow> i = j \<and> s = t"
  by (auto simp: echo_answer_def split: sum.splits if_splits icmp_body.splits)

lemma echo_id_mod: "fst (nextICMPEchoID c) = (unat c + 1) mod 65536"
proof -
  have "unat (ucast (c + 1) :: 16 word) = unat (c + 1) mod 65536" by (simp add: unsigned_ucast_eq take_bit_eq_mod)
  also have "\<dots> = (unat c + 1) mod 2 ^ 32 mod 65536" by (simp add: unat_word_ariths)
  also have "\<dots> = (unat c + 1) mod 65536" by (rule mod_mod_cancel) simp
  finally show ?thesis by (simp add: nextICMPEchoID_def)
qed

lemma window_distinct:
  assumes "0 < k" "k < 65536"
  shows "(x + k) mod 65536 \<noteq> x mod (65536 :: nat)"
proof
  assume "(x + k) mod 65536 = x mod 65536"
  then have "65536 dvd k" by (metis add_diff_cancel_left' le_add1 mod_eq_dvd_iff_nat)
  then show False using assms by (auto dest: dvd_imp_le)
qed

text \<open>
  Echo exchanges do not take each other's replies. The identifiers of 65536 exchanges that follow one
  another are pairwise different, also across the wrap-around of the counter, so that a packet that
  answers one of them answers none of the others.
\<close>

theorem icmp_exchanges_apart:
  assumes "0 < k" "k < 65536" "echo_answer lib v6 (fst (nextICMPEchoID c)) s p \<noteq> None"
  shows "fst (nextICMPEchoID c) \<noteq> fst (nextICMPEchoID (c + of_nat k)) \<and>
    echo_answer lib v6 (fst (nextICMPEchoID (c + of_nat k))) t p = None"
proof -
  have "unat (c + of_nat k) = (unat c + k) mod 2 ^ 32" using assms(2) by (simp add: unat_word_ariths unat_of_nat)
  then have "fst (nextICMPEchoID (c + of_nat k)) = ((unat c + k) mod 2 ^ 32 + 1) mod 65536" by (simp add: echo_id_mod)
  also have "\<dots> = ((unat c + k) mod 2 ^ 32 mod 65536 + 1) mod 65536" by (rule mod_add_left_eq [symmetric])
  also have "(unat c + k) mod 2 ^ 32 mod 65536 = (unat c + k) mod 65536" by (rule mod_mod_cancel) simp
  also have "((unat c + k) mod 65536 + 1) mod 65536 = (unat c + 1 + k) mod 65536" by (subst mod_add_left_eq) (simp add: ac_simps)
  finally have "fst (nextICMPEchoID c) \<noteq> fst (nextICMPEchoID (c + of_nat k))"
    using window_distinct [OF assms(1,2), of "unat c + 1"] by (simp add: echo_id_mod)
  then show ?thesis using echo_answer_id [OF assms(3)] by blast
qed

section \<open>The reply of the target is the reply of the tunnel\<close>

lemma icmp_read_answer:
  assumes "env_ok env" "\<exists>k < 18. length rb = 2 ^ k" "len \<le> length rb" "len \<le> icmpMaxReadBufSize"
    and "\<forall>p \<in> set noise. length p \<le> icmpMaxReadBufSize \<and> echo_answer lib v6 i s p = None"
    and "length pkt < len" "echo_answer lib v6 i s pkt = Some d"
  shows "\<exists>rb' env'. icmp_read lib v6 i s err (noise @ pkt # rest) rb len env = Done (Inr d, rb', env') \<and> env_ok env' \<and>
    (\<exists>k < 18. length rb' = 2 ^ k)"
  using assms
proof (induction noise arbitrary: rb len env)
  case Nil
  then show ?case by (auto simp: Let_def)
next
  case (Cons p noise)
  show ?case
  proof (cases "min (length p) len = len \<and> len < icmpMaxReadBufSize")
    case True
    obtain buf env1 where g: "bytespool_Get env (int icmpMaxReadBufSize) = (Some (buf, icmpMaxReadBufSize), env1)"
        "icmpMaxReadBufSize \<le> length buf" "\<exists>k < 18. length buf = 2 ^ k" "env_ok env1"
      using bytespool_Get_served [OF Cons.prems(1), of icmpMaxReadBufSize] by (auto simp: icmp_sizes)
    obtain k where k: "k < 18" "length rb = 2 ^ k" using Cons.prems(2) by blast
    obtain al where m: "MustPut (ePool env1) rb = (Inr (), al)" "alloc_inv al"
      using MustPut_class [OF _ k] g(4) by (auto simp: env_ok_def)
    have "length rb > 0" using k(2) by simp
    then have s: "SwapIn (ePool env1) rb (Some buf) = (Inr buf, al)" using m(1) by (simp add: SwapIn_def)
    have "icmp_read lib v6 i s err ((p # noise) @ pkt # rest) rb len env =
        icmp_read lib v6 i s err (noise @ pkt # rest) buf icmpMaxReadBufSize (env1\<lparr>ePool := al\<rparr>)"
      using True g(1) s by (simp add: Let_def)
    moreover have "env_ok (env1\<lparr>ePool := al\<rparr>)" using m(2) by (simp add: env_ok_def)
    moreover have "length pkt < icmpMaxReadBufSize" using Cons.prems(4,6) by simp
    ultimately show ?thesis using Cons.IH [of "env1\<lparr>ePool := al\<rparr>" buf icmpMaxReadBufSize] Cons.prems(5,7) g(2,3) by auto
  next
    case False
    then have "take (min (length p) len) p = p" using Cons.prems(4,5) by auto
    then have "icmp_read lib v6 i s err ((p # noise) @ pkt # rest) rb len env = icmp_read lib v6 i s err (noise @ pkt # rest) rb len env"
      using False Cons.prems(5) by (auto simp: Let_def)
    then show ?thesis using Cons.IH [of env rb len] Cons.prems by auto
  qed
qed

lemma icmpExchange_answer:
  assumes "env_ok env" "4 \<le> length payload" "dialTarget (iwDialer w) \<lparr>dxPreferred = None, dxResolved = [], dxDeadline = None\<rparr> target n = (Inr (cn, remote), tries, n')"
    and "icMarshal (iwLib w) (echo_request (isIPv6Target target) (fst (nextICMPEchoID c)) payload) = Inr wb"
    and "iwSetDeadline w = None" "iwWrite w wb = None" "iwPackets w wb = noise @ pkt # rest"
    and "\<forall>p \<in> set noise. length p \<le> icmpMaxReadBufSize \<and>
      echo_answer (iwLib w) (isIPv6Target target) (fst (nextICMPEchoID c)) (unat (uint16_at (payload ! 2) (payload ! 3))) p = None"
    and "int (length pkt) < icmpFirstReadBufSize payload"
    and "echo_answer (iwLib w) (isIPv6Target target) (fst (nextICMPEchoID c)) (unat (uint16_at (payload ! 2) (payload ! 3))) pkt = Some d"
  shows "\<exists>env'. icmpExchange w target payload c n env = Done (Inr (take 4 payload @ d, remote), c + 1, n', env') \<and> env_ok env'"
proof -
  let ?n = "nat (icmpFirstReadBufSize payload)"
  have sz: "icmpFirstReadBufSize payload = int ?n" "0 < ?n" "?n \<le> icmpMaxReadBufSize" by (auto simp: icmpFirstReadBufSize_def icmp_sizes Let_def)
  obtain rb env1 where g: "bytespool_Get env (int ?n) = (Some (rb, ?n), env1)" "?n \<le> length rb" "\<exists>k < 18. length rb = 2 ^ k" "env_ok env1"
    using bytespool_Get_served [OF assms(1) sz(2)] sz(3) by (auto simp: icmp_sizes)
  obtain rb' env2 where r: "icmp_read (iwLib w) (isIPv6Target target) (fst (nextICMPEchoID c)) (unat (uint16_at (payload ! 2) (payload ! 3)))
      (iwReadErr w) (noise @ pkt # rest) rb ?n env1 = Done (Inr d, rb', env2)" "env_ok env2" "\<exists>k < 18. length rb' = 2 ^ k"
    using icmp_read_answer [OF g(4,3,2) sz(3) assms(8) _ assms(10)] assms(9) by fastforce
  obtain k where k: "k < 18" "length rb' = 2 ^ k" using r(3) by blast
  obtain env3 where m: "bytespool_MustPut env2 rb' = (Inr (), env3)" "env_ok env3" using bytespool_MustPut_class [OF r(2) k] by blast
  have "take 4 payload = [payload ! 0, payload ! 1, payload ! 2, payload ! 3]" using assms(2)
    by (cases payload rule: list.exhaust; cases "tl payload"; cases "tl (tl payload)"; cases "tl (tl (tl payload))") auto
  then have "put_uint16 (uint16_at (payload ! 0) (payload ! 1)) @ put_uint16 (uint16_at (payload ! 2) (payload ! 3)) @ d = take 4 payload @ d"
    by (simp add: uint16_put)
  moreover have "nextICMPEchoID c = (fst (nextICMPEchoID c), c + 1)" by (simp add: nextICMPEchoID_def)
  ultimately show ?thesis
    using assms(2-7) g(1) sz(1) r(1) m by (auto simp: icmpExchange_def Let_def split: prod.splits)
qed

lemma Get_env_ok: "bytespool_Get env n = (r, env') \<Longrightarrow> env_ok env \<Longrightarrow> env_ok env'"
  using Get_inv(1) by (auto simp: bytespool_Get_def env_ok_def split: prod.splits)

lemma MustPut_env_ok: "bytespool_MustPut env buf = (r, env') \<Longrightarrow> env_ok env \<Longrightarrow> env_ok env'"
  using alloc.put_ok [of "ePool env" buf] by (auto simp: bytespool_MustPut_def MustPut_def env_ok_def split: prod.splits sum.splits)

lemma ReadRecord_env_ok: "ReadRecord env rr = (r, rr', env') \<Longrightarrow> env_ok env \<Longrightarrow> env_ok env'"
  by (auto simp: ReadRecord_def Let_def dest: Get_env_ok MustPut_env_ok split: prod.splits sum.splits if_splits option.splits)

lemma ReadFrame_env_ok: "ReadFrame env dr = (r, dr', env') \<Longrightarrow> env_ok env \<Longrightarrow> env_ok env'"
  by (auto simp: ReadFrame_def dest: ReadRecord_env_ok split: list.splits prod.splits sum.splits)

lemma nextClientFrame_env_ok: "nextClientFrame env dr = (r, dr', env') \<Longrightarrow> env_ok env \<Longrightarrow> env_ok env'"
proof (induction env dr arbitrary: r dr' env' rule: nextClientFrame.induct)
  case (1 env dr)
  obtain x dr1 env1 where f: "ReadFrame env dr = (x, dr1, env1)" using prod_cases3 by blast
  have ok: "env_ok env1" using ReadFrame_env_ok [OF f 1(3)] .
  show ?case
  proof (cases x)
    case (Inl e)
    then show ?thesis using 1(2) f ok by (auto simp: nextClientFrame.simps [of env dr])
  next
    case (Inr fr)
    show ?thesis
    proof (cases "fType fr = FrameFIN \<or> fType fr = FrameRST \<or> \<not> (fType fr = FramePADDING \<or> fType fr = FrameCOVER)")
      case True
      then show ?thesis using 1(2) f ok Inr by (auto simp: nextClientFrame.simps [of env dr] split: if_splits)
    next
      case False
      then have "nextClientFrame env1 dr1 = (r, dr', env')" using 1(2) f Inr by (auto simp: nextClientFrame.simps [of env dr])
      then show ?thesis using 1(1) [of x "(dr1, env1)" fr dr1 env1] f Inr False ok by auto
    qed
  qed
qed


text \<open>
  The reserve leaves room for an IPv4 header of sixty bytes, not for the eight bytes of the ICMP header
  behind it: the reply to a large ping that comes back with all header options fills the first buffer,
  is dropped as possibly cut off, and is not repeated.
\<close>

lemma reply_with_options_fills_buffer:
  assumes "4100 \<le> length payload" "length pkt = 60 + 8 + (length payload - 4)"
  shows "icmpFirstReadBufSize payload \<le> int (length pkt)"
  using assms by (simp add: icmpFirstReadBufSize_def icmp_sizes Let_def)

section \<open>Concrete instances\<close>

text \<open>A toy message format: a type, an identifier, a number, the data.\<close>

definition tiny_icmp :: icmp_lib where
  "tiny_icmp = \<lparr>icMarshal = (\<lambda>_. Inr [8]),
     icParse = (\<lambda>proto b. case b of
        t # i # q # d \<Rightarrow> (if t = 0 then Inr \<lparr>imType = ICMPv4 0, imCode = 0, imBody = Echo (unat i) (unat q) d\<rparr> else Inl io_EOF)
      | _ \<Rightarrow> Inl io_EOF)\<rparr>"

lemma tiny_answers:
  "echo_answer tiny_icmp False 7 5 [1, 2] = None" "echo_answer tiny_icmp False 7 5 [0, 7, 5, 9, 9] = Some [9, 9]"
  "fst (nextICMPEchoID 6) = 7" "unat (uint16_at 0 5) = 5" "isIPv6Target ''8.8.8.8'' = False"
  subgoal by (simp add: echo_answer_def tiny_icmp_def strip_header_def)
  subgoal by (simp add: echo_answer_def tiny_icmp_def strip_header_def)
  subgoal by code_simp
  subgoal by code_simp
  subgoal by code_simp
  done

theorem icmp_exchanges_apart_witness: "echo_answer tiny_icmp False (fst (nextICMPEchoID (6 + of_nat 3))) 5 [0, 7, 5, 9, 9] = None"
  using icmp_exchanges_apart [of 3 tiny_icmp False 6 5 "[0, 7, 5, 9, 9]" 5] by (simp only: tiny_answers) simp

definition demo_ping :: "int icmp_world" where
  "demo_ping = \<lparr>iwLib = tiny_icmp, iwDialer = demo_dialer\<lparr>dlNetwork := answering_net, dlResolve := (\<lambda>_. Inr [([8, 8, 8, 8], [])])\<rparr>,
     iwSetDeadline = None, iwWrite = (\<lambda>_. None), iwPackets = (\<lambda>_. [[1, 2], [0, 7, 5, 9, 9]]), iwReadErr = io_EOF\<rparr>"

definition demo_echo :: Frame where
  "demo_echo = data_frame [1, 2, 0, 5, 9, 9]"

lemma demo_ping_dials: "\<exists>tries n'. dialTarget (iwDialer demo_ping) \<lparr>dxPreferred = None, dxResolved = [], dxDeadline = None\<rparr> ''8.8.8.8'' 0 =
    (Inr (Some ''8.8.8.8:443'', ''8.8.8.8:443''), tries, n')"
proof -
  have "case outbound answering_net (\<lambda>_. Inr [([8, 8, 8, 8], [])]) 2 \<lparr>dxPreferred = None, dxResolved = [], dxDeadline = None\<rparr> 10 ''8.8.8.8'' 0 of
      (r, _) \<Rightarrow> r = Inr (Some ''8.8.8.8:443'')" by code_simp
  then obtain tries n' where "outbound answering_net (\<lambda>_. Inr [([8, 8, 8, 8], [])]) 2 \<lparr>dxPreferred = None, dxResolved = [], dxDeadline = None\<rparr> 10 ''8.8.8.8'' 0 =
      (Inr (Some ''8.8.8.8:443''), tries, n')" by (auto split: prod.splits)
  then show ?thesis using demo_pieces(2)
    by (simp add: dialTarget_def usesNextProxy_def dialVia_def demo_ping_def demo_dialer_def remoteString_def)
qed


end
