(* ===== verification/UdpAssociate.thy ===== *)
theory UdpAssociate
  imports UdpTunnel
begin

text \<open>
  \<open>server/nextproxy/udp.go\<close> and the dialling half of \<open>nextproxy.go\<close>: datagrams through an upstream SOCKS5
  proxy. An association is a control connection, which carries the handshake and whose end ends the
  association, and a UDP socket to the relay the proxy names. The SOCKS5 library is the parameter
  \<open>socks_lib\<close>; the sockets are the parameter \<open>assoc_net\<close>, and what is opened and closed is kept as a trace.
\<close>

section \<open>Addresses\<close>

record socks_lib =
  skParse :: "string \<Rightarrow> bytes option"
  skMaxAddrLen :: nat
  skValid :: "bytes \<Rightarrow> bool"
  skUDPAddr :: "bytes \<Rightarrow> (bytes \<times> nat) option"
  skEncode :: "bytes \<Rightarrow> bytes \<Rightarrow> bytes result"
  skDecode :: "bytes \<Rightarrow> (bytes \<times> bytes) result"

definition encodeDatagramTarget :: "socks_lib \<Rightarrow> string \<Rightarrow> bytes result" where
  "encodeDatagramTarget lib dst =
     (case skParse lib dst of
        None \<Rightarrow> Inl (Msg ''malformed datagram target'')
      | Some addr \<Rightarrow> (if length addr > skMaxAddrLen lib then Inl (Msg ''datagram target is too long for socks5'') else Inr addr))"

definition splitSocksAddr :: "bytes \<Rightarrow> (string \<times> nat) result" where
  "splitSocksAddr addr =
     (if length addr < 1 + 1 + 2 then Inl (Msg ''short socks5 address'')
      else let len = unat (addr ! 1)
           in if length addr < 1 + 1 + len + 2 then Inl (Msg ''short socks5 address'')
              else Inr (string_of_bytes (take len (drop 2 addr)),
                        unat (addr ! (length addr - 2)) * 256 + unat (addr ! (length addr - 1))))"

definition udpAddrFamily :: "bytes \<Rightarrow> nat" where
  "udpAddrFamily ip = (if To4 ip \<noteq> None then 4 else if length ip = 16 then 6 else 0)"

definition udpNetworkFor :: "bytes \<Rightarrow> string" where
  "udpNetworkFor ip = (if udpAddrFamily ip = 6 then ''udp6'' else ''udp4'')"

text \<open>The address of the control connection's own side, if the relay is of its family.\<close>

definition localAddrFor :: "string \<Rightarrow> bytes \<Rightarrow> bytes option" where
  "localAddrFor controlLocal relayIP =
     (case SplitHostPort controlLocal of
        None \<Rightarrow> None
      | Some (host, _) \<Rightarrow>
          (case ParseIP host of
             None \<Rightarrow> None
           | Some ip \<Rightarrow> (if udpAddrFamily ip \<noteq> udpAddrFamily relayIP then None else Some ip)))"

definition ip_unspecified :: "bytes \<Rightarrow> bool" where
  "ip_unspecified ip \<longleftrightarrow> As16 ip = v4InV6Prefix @ [0, 0, 0, 0] \<or> ip = replicate 16 0"

text \<open>\<open>resolve\<close> is \<open>net.ResolveUDPAddr\<close> on a host and a port; \<open>bindAddr[0] = 3\<close> marks a domain name.\<close>

definition resolveRelayAddr ::
  "socks_lib \<Rightarrow> (string \<Rightarrow> nat \<Rightarrow> (bytes \<times> nat) result) \<Rightarrow> bytes \<Rightarrow> string \<Rightarrow> (bytes \<times> nat) result" where
  "resolveRelayAddr lib resolve bindAddr controlRemote =
     (if \<not> skValid lib bindAddr then Inl (Msg ''invalid udp relay address in the associate reply'')
      else if bindAddr ! 0 = 3
      then (case splitSocksAddr bindAddr of
              Inl err \<Rightarrow> Inl err
            | Inr (host, port) \<Rightarrow>
                (case resolve host port of Inl err \<Rightarrow> Inl (Wrap ''resolve the udp relay'' [err]) | Inr a \<Rightarrow> Inr a))
      else case skUDPAddr lib bindAddr of
             None \<Rightarrow> Inl (Msg ''invalid udp relay address in the associate reply'')
           | Some (ip, port) \<Rightarrow>
               (if \<not> ip_unspecified ip then Inr (ip, port)
                else case SplitHostPort controlRemote of
                       None \<Rightarrow> Inl (Msg ''resolve the udp relay'')
                     | Some (host, _) \<Rightarrow>
                         (case ParseIP host of
                            Some ip \<Rightarrow> Inr (ip, port)
                          | None \<Rightarrow>
                              (case resolve host port of
                                 Inl err \<Rightarrow> Inl (Wrap ''resolve the upstream proxy address'' [err])
                               | Inr (ip, _) \<Rightarrow> Inr (ip, port)))))"

section \<open>Opening an association\<close>

datatype assoc_event = Control_opened | Control_closed | Relay_opened "bytes \<times> nat" | Relay_closed | Monitoring

record assoc_net =
  anDial :: "(string \<times> string) result"
  anSetDeadline :: "go_error option"
  anHandshake :: "(string \<times> string) option \<Rightarrow> bytes result"
  anResolve :: "string \<Rightarrow> nat \<Rightarrow> (bytes \<times> nat) result"
  anDialUDP :: "string \<Rightarrow> bytes option \<Rightarrow> bytes \<times> nat \<Rightarrow> go_error option"
  anClearDeadline :: "go_error option"

record udpAssociateConn =
  uaDst :: bytes
  uaRelay :: "bytes \<times> nat"
  uaClosed :: bool

text \<open>The local and the remote address of the control connection.\<close>

definition dialProxyTCP :: "assoc_net \<Rightarrow> bool \<Rightarrow> (string \<times> string) result \<times> assoc_event list" where
  "dialProxyTCP net hasDeadline =
     (case anDial net of
        Inl err \<Rightarrow> (Inl err, [])
      | Inr conn \<Rightarrow>
          (case (if hasDeadline then anSetDeadline net else None) of
             Some err \<Rightarrow> (Inl err, [Control_opened, Control_closed])
           | None \<Rightarrow> (Inr conn, [Control_opened])))"

definition dialUDPAssociate ::
  "socks_lib \<Rightarrow> assoc_net \<Rightarrow> NextProxy \<Rightarrow> bool \<Rightarrow> string \<Rightarrow> udpAssociateConn result \<times> assoc_event list" where
  "dialUDPAssociate lib net np hasDeadline dst =
     (if \<not> npxEnableUDP np then (Inl (Msg ''udp forwarding is not enabled for the next proxy''), [])
      else case encodeDatagramTarget lib dst of
        Inl err \<Rightarrow> (Inl err, [])
      | Inr target \<Rightarrow>
          (case dialProxyTCP net hasDeadline of
             (Inl err, evs) \<Rightarrow> (Inl err, evs)
           | (Inr (controlLocal, controlRemote), evs) \<Rightarrow>
               (case anHandshake net (credentials np) of
                  Inl err \<Rightarrow> (Inl (Wrap ''udp associate'' [err]), evs @ [Control_closed])
                | Inr bindAddr \<Rightarrow>
                    (case resolveRelayAddr lib (anResolve net) bindAddr controlRemote of
                       Inl err \<Rightarrow> (Inl err, evs @ [Control_closed])
                     | Inr relay \<Rightarrow>
                         (case anDialUDP net (udpNetworkFor (fst relay)) (localAddrFor controlLocal (fst relay)) relay of
                            Some err \<Rightarrow> (Inl (Wrap ''dial the udp relay'' [err]), evs @ [Control_closed])
                          | None \<Rightarrow>
                              (case (if hasDeadline then anClearDeadline net else None) of
                                 Some err \<Rightarrow> (Inl err, evs @ [Relay_opened relay, Relay_closed, Control_closed])
                               | None \<Rightarrow>
                                   (Inr \<lparr>uaDst = target, uaRelay = relay, uaClosed = False\<rparr>,
                                    evs @ [Relay_opened relay, Monitoring])))))))"

text \<open>\<open>dialSOCKS5Context\<close>: a context without a deadline gets one. TCP goes to \<open>x/net/proxy\<close>, here \<open>connect\<close>.\<close>

datatype socks_conn = Socks_tcp | Socks_udp udpAssociateConn

definition dialSOCKS5Context ::
  "socks_lib \<Rightarrow> assoc_net \<Rightarrow> (string \<Rightarrow> string \<Rightarrow> (string \<times> string) option \<Rightarrow> go_error option) \<Rightarrow> NextProxy \<Rightarrow> string \<Rightarrow> string \<Rightarrow>
     socks_conn result \<times> assoc_event list" where
  "dialSOCKS5Context lib net connect np network addr =
     (if network \<in> {''udp'', ''udp4'', ''udp6''}
      then (case dialUDPAssociate lib net np True addr of
              (Inl err, evs) \<Rightarrow> (Inl (Wrap (''socks5 dial '' @ addr) [err]), evs)
            | (Inr c, evs) \<Rightarrow> (Inr (Socks_udp c), evs))
      else case connect network addr (credentials np) of
             Some err \<Rightarrow> (Inl (Wrap (''socks5 dial '' @ addr) [err]), [])
           | None \<Rightarrow> (Inr Socks_tcp, []))"

section \<open>Using it\<close>

definition maxUDPDatagram :: nat where
  "maxUDPDatagram = udpBufSize + 3 + 1 + 16 + 2"

text \<open>
  \<open>Read\<close> into a buffer of \<open>room\<close> bytes: the datagrams that arrive, of which the kernel keeps what fits into
  the pooled buffer, or the errors of the socket. \<open>None\<close> says that nothing more arrived.
\<close>

fun assoc_Read ::
  "socks_lib \<Rightarrow> (go_error \<Rightarrow> bool) \<Rightarrow> nat \<Rightarrow> bytes result list \<Rightarrow> (bytes result \<times> bytes result list) option" where
  "assoc_Read lib tooLong room [] = None"
| "assoc_Read lib tooLong room (Inl err # ins) =
     (if tooLong err then assoc_Read lib tooLong room ins else Some (Inl err, ins))"
| "assoc_Read lib tooLong room (Inr datagram # ins) =
     (let buf = take maxUDPDatagram datagram
      in if length buf = maxUDPDatagram then assoc_Read lib tooLong room ins
         else case skDecode lib buf of
                Inl _ \<Rightarrow> assoc_Read lib tooLong room ins
              | Inr (_, payload) \<Rightarrow>
                  (if length payload > udpBufSize then assoc_Read lib tooLong room ins
                   else if length payload > room then Some (Inl (Sentinel ''short buffer''), ins)
                   else Some (Inr payload, ins)))"

text \<open>\<open>Write\<close>: the packet that goes to the relay, and what the caller is told.\<close>

definition assoc_Write :: "socks_lib \<Rightarrow> (bytes \<Rightarrow> go_error option) \<Rightarrow> udpAssociateConn \<Rightarrow> bytes \<Rightarrow> nat result \<times> bytes option" where
  "assoc_Write lib send c b =
     (case skEncode lib (uaDst c) b of
        Inl err \<Rightarrow> (Inl err, None)
      | Inr packet \<Rightarrow> (case send packet of Some err \<Rightarrow> (Inl err, None) | None \<Rightarrow> (Inr (length b), Some packet)))"

definition assoc_Close :: "udpAssociateConn \<Rightarrow> udpAssociateConn \<times> assoc_event list" where
  "assoc_Close c = (if uaClosed c then (c, []) else (c\<lparr>uaClosed := True\<rparr>, [Relay_closed, Control_closed]))"

text \<open>\<open>monitorControl\<close> on the reads of the control connection: bytes are dropped, an error closes the association.\<close>

fun monitorControl :: "unit result list \<Rightarrow> udpAssociateConn \<Rightarrow> udpAssociateConn \<times> assoc_event list" where
  "monitorControl [] c = (c, [])"
| "monitorControl (Inr _ # reads) c = monitorControl reads c"
| "monitorControl (Inl _ # reads) c = assoc_Close c"

section \<open>Nothing is left behind\<close>

text \<open>How many control connections and relay sockets are open after a trace.\<close>

fun is_relay_opened :: "assoc_event \<Rightarrow> bool" where
  "is_relay_opened (Relay_opened _) = True"
| "is_relay_opened _ = False"

definition sockets_open :: "assoc_event list \<Rightarrow> int \<times> int" where
  "sockets_open evs =
     (int (count_list evs Control_opened) - int (count_list evs Control_closed),
      int (length (filter is_relay_opened evs)) - int (count_list evs Relay_closed))"

lemma sockets_open_simps [simp]: "sockets_open [] = (0, 0)"
  "sockets_open (evs @ es) = (fst (sockets_open evs) + fst (sockets_open es), snd (sockets_open evs) + snd (sockets_open es))"
  "sockets_open (Control_opened # es) = (fst (sockets_open es) + 1, snd (sockets_open es))"
  "sockets_open (Control_closed # es) = (fst (sockets_open es) - 1, snd (sockets_open es))"
  "sockets_open (Relay_opened a # es) = (fst (sockets_open es), snd (sockets_open es) + 1)"
  "sockets_open (Relay_closed # es) = (fst (sockets_open es), snd (sockets_open es) - 1)"
  "sockets_open (Monitoring # es) = sockets_open es"
  by (simp_all add: sockets_open_def)

lemma monitor_closes:
  assumes "monitorControl (reads @ [Inl err]) c = (c1, e1)"
  shows "uaClosed c1 \<and> (if uaClosed c then e1 = [] else e1 = [Relay_closed, Control_closed])"
  using assms
proof (induction reads)
  case Nil
  then show ?case by (auto simp: assoc_Close_def split: if_splits)
next
  case (Cons r reads)
  then show ?case by (cases r) (auto simp: assoc_Close_def split: if_splits)
qed

text \<open>
  An association through the upstream proxy leaves nothing behind. When opening it fails, whatever
  step failed, every socket it opened is closed. When it succeeds, one control connection and one relay
  socket are open; as soon as the upstream ends the control connection both are closed, and closing the
  association afterwards closes nothing twice.
\<close>

theorem associations_leave_nothing:
  assumes "dialUDPAssociate lib net np hasDeadline dst = (r, evs)"
  shows "case r of
      Inl _ \<Rightarrow> sockets_open evs = (0, 0)
    | Inr c \<Rightarrow> npxEnableUDP np \<and> length (uaDst c) \<le> skMaxAddrLen lib \<and> sockets_open evs = (1, 1) \<and>
        (\<forall>reads err c1 e1 c2 e2. monitorControl (reads @ [Inl err]) c = (c1, e1) \<longrightarrow> assoc_Close c1 = (c2, e2) \<longrightarrow>
           sockets_open (evs @ e1) = (0, 0) \<and> e2 = [])"
proof (cases r)
  case (Inl err)
  then show ?thesis using assms
    by (auto simp: dialUDPAssociate_def dialProxyTCP_def split: if_splits sum.splits option.splits prod.splits)
next
  case (Inr c)
  then have c: "npxEnableUDP np" "length (uaDst c) \<le> skMaxAddrLen lib" "sockets_open evs = (1, 1)" "\<not> uaClosed c"
    using assms by (auto simp: dialUDPAssociate_def dialProxyTCP_def encodeDatagramTarget_def split: if_splits sum.splits option.splits prod.splits)
  have "sockets_open (evs @ e1) = (0, 0) \<and> e2 = []"
    if "monitorControl (reads @ [Inl err]) c = (c1, e1)" "assoc_Close c1 = (c2, e2)" for reads err c1 e1 c2 e2
    using monitor_closes [OF that(1)] that(2) c(3,4) by (auto simp: assoc_Close_def)
  then show ?thesis using c(1-3) Inr by auto
qed

section \<open>Datagrams survive the encapsulation\<close>

text \<open>What RFC 1928 says of the encapsulation: three bytes, the address, the data.\<close>

definition encapsulates :: "socks_lib \<Rightarrow> bool" where
  "encapsulates lib \<longleftrightarrow>
     (\<forall>a p pk. skEncode lib a p = Inr pk \<longrightarrow> skDecode lib pk = Inr (a, p) \<and> length pk = 3 + length a + length p)"

text \<open>
  What \<open>Read\<close> hands over of a packet that the relay sends: nothing of a packet that fills the buffer, cannot
  be decoded or carries more than a frame may carry, and the whole payload of any other.
\<close>

definition handed_over :: "socks_lib \<Rightarrow> bytes \<Rightarrow> bytes list" where
  "handed_over lib d =
     (case skDecode lib d of
        Inl _ \<Rightarrow> []
      | Inr (_, p) \<Rightarrow> if length d < maxUDPDatagram \<and> length p \<le> udpBufSize then [p] else [])"

lemma assoc_Read_datagram:
  assumes "udpBufSize \<le> room"
  shows "assoc_Read lib tooLong room (Inr d # ins) =
    (case handed_over lib d of [] \<Rightarrow> assoc_Read lib tooLong room ins | p # _ \<Rightarrow> Some (Inr p, ins))"
  using assms by (auto simp: handed_over_def Let_def split: sum.splits)

lemma handed_over_cases: "handed_over lib d = [] \<or> (\<exists>p. handed_over lib d = [p])"
  by (auto simp: handed_over_def split: sum.splits)

text \<open>The calls of \<open>Read\<close> one after the other, at most \<open>n\<close> of them, while something arrives.\<close>

fun assoc_reads :: "socks_lib \<Rightarrow> (go_error \<Rightarrow> bool) \<Rightarrow> nat \<Rightarrow> nat \<Rightarrow> bytes result list \<Rightarrow> bytes result list" where
  "assoc_reads lib tooLong room 0 ins = []"
| "assoc_reads lib tooLong room (Suc n) ins =
     (case assoc_Read lib tooLong room ins of None \<Rightarrow> [] | Some (x, ins) \<Rightarrow> x # assoc_reads lib tooLong room n ins)"

lemma assoc_reads_exact:
  assumes "udpBufSize \<le> room"
  shows "length ds \<le> n \<Longrightarrow> assoc_reads lib tooLong room n (map Inr ds) = map Inr (concat (map (handed_over lib) ds))"
proof (induction ds arbitrary: n)
  case Nil
  then show ?case by (cases n) simp_all
next
  case (Cons d ds)
  obtain k where k: "n = Suc k" "length ds \<le> k" using Cons.prems by (cases n) auto
  show ?case
  proof (cases "handed_over lib d")
    case Nil
    have "assoc_reads lib tooLong room n (map Inr (d # ds)) = assoc_reads lib tooLong room n (map Inr ds)"
      using assoc_Read_datagram [OF assms, of lib tooLong d "map Inr ds"] Nil k(1) by (simp del: assoc_Read.simps)
    then show ?thesis using Cons.IH [of n] k Nil by simp
  next
    case (Cons p ps)
    moreover from this have "ps = []" using handed_over_cases [of lib d] by auto
    ultimately show ?thesis using assoc_Read_datagram [OF assms, of lib tooLong d "map Inr ds"] Cons.IH [of k] k
      by (simp del: assoc_Read.simps)
  qed
qed

text \<open>
  C30. An association hands datagrams on whole or not at all, to a caller whose buffer has room for
  \<open>udpBufSize\<close> bytes. What \<open>Write\<close> sends to the relay decodes to the
  association's destination and the whole payload, and \<open>Write\<close> reports its length. Of what the relay sends,
  one \<open>Read\<close> after the other hands over, in order, exactly the whole payloads of the packets that are shorter
  than the buffer, decode, and carry at most \<open>udpBufSize\<close> bytes; for a packet that encapsulates \<open>p\<close> from
  the address \<open>a\<close> that means that \<open>p\<close> fits and that \<open>a\<close> and \<open>p\<close> together have fewer than \<open>udpBufSize + 19\<close> bytes.
\<close>

theorem association_roundtrip:
  assumes "encapsulates lib" "udpBufSize \<le> room"
  shows "(\<forall>send c b r pk. assoc_Write lib send c b = (r, Some pk) \<longrightarrow> r = Inr (length b) \<and> skDecode lib pk = Inr (uaDst c, b)) \<and>
    assoc_reads lib tooLong room (length ds) (map Inr ds) = map Inr (concat (map (handed_over lib) ds)) \<and>
    (\<forall>a p pk. skEncode lib a p = Inr pk \<longrightarrow>
       handed_over lib pk = (if length p \<le> udpBufSize \<and> length a + length p < udpBufSize + 19 then [p] else []))"
proof (intro conjI allI impI)
  show "assoc_reads lib tooLong room (length ds) (map Inr ds) = map Inr (concat (map (handed_over lib) ds))"
    by (rule assoc_reads_exact [OF assms(2) order_refl])
next
  fix send c b r pk
  assume "assoc_Write lib send c b = (r, Some pk)"
  then show "r = Inr (length b)" "skDecode lib pk = Inr (uaDst c, b)"
    using assms(1) by (auto simp: assoc_Write_def encapsulates_def split: sum.splits option.splits)
next
  fix a p pk
  assume "skEncode lib a p = Inr pk"
  then show "handed_over lib pk = (if length p \<le> udpBufSize \<and> length a + length p < udpBufSize + 19 then [p] else [])"
    using assms(1) by (auto simp: encapsulates_def handed_over_def maxUDPDatagram_def)
qed

text \<open>
  From an IPv6 source the header takes twenty-two bytes: a datagram of the largest size then fills the
  buffer exactly, cannot be told from a truncated one, and is dropped.
\<close>

lemma largest_datagram_dropped:
  assumes "encapsulates lib" "skEncode lib a b = Inr pk" "length b = udpBufSize" "length a = 19"
  shows "assoc_Read lib tooLong room (Inr pk # ins) = assoc_Read lib tooLong room ins"
proof -
  have "length pk = maxUDPDatagram" using assms by (auto simp: encapsulates_def maxUDPDatagram_def)
  then show ?thesis by simp
qed

section \<open>Concrete instances\<close>

text \<open>The encapsulation with a fixed IPv4 address in front.\<close>

definition plain_socks :: socks_lib where
  "plain_socks = \<lparr>skParse = (\<lambda>_. Some [1, 9, 9, 9, 9, 0, 53]), skMaxAddrLen = 259, skValid = (\<lambda>b. length b = 7),
     skUDPAddr = (\<lambda>b. Some (take 4 (drop 1 b), 4000)),
     skEncode = (\<lambda>a p. if length a = 7 then Inr ([0, 0, 0] @ a @ p) else Inl (Msg ''invalid address'')),
     skDecode = (\<lambda>pk. if length pk < 10 then Inl (Msg ''short'') else Inr (take 7 (drop 3 pk), drop 10 pk))\<rparr>"

definition failing_net :: assoc_net where
  "failing_net = \<lparr>anDial = Inr (''10.0.0.1:1'', ''10.0.0.2:2''), anSetDeadline = None,
     anHandshake = (\<lambda>_. Inr [1, 9, 9, 9, 9, 15, 160]), anResolve = (\<lambda>_ _. Inl io_EOF), anDialUDP = (\<lambda>_ _ _. None),
     anClearDeadline = Some io_EOF\<rparr>"

theorem associations_leave_nothing_witness:
  "\<exists>err. dialUDPAssociate plain_socks failing_net (demo_proxy\<lparr>npxEnableUDP := True\<rparr>) True ''9.9.9.9:53'' =
     (Inl err, [Control_opened, Relay_opened ([9, 9, 9, 9], 4000), Relay_closed, Control_closed]) \<and>
   sockets_open [Control_opened, Relay_opened ([9, 9, 9, 9], 4000), Relay_closed, Control_closed] = (0, 0)"
proof (intro exI conjI)
  have u: "\<not> ip_unspecified [9, 9, 9, 9]" by code_simp
  show d: "dialUDPAssociate plain_socks failing_net (demo_proxy\<lparr>npxEnableUDP := True\<rparr>) True ''9.9.9.9:53'' =
      (Inl io_EOF, [Control_opened, Relay_opened ([9, 9, 9, 9], 4000), Relay_closed, Control_closed])"
    by (simp add: dialUDPAssociate_def encodeDatagramTarget_def dialProxyTCP_def plain_socks_def failing_net_def resolveRelayAddr_def u)
  show "sockets_open [Control_opened, Relay_opened ([9, 9, 9, 9], 4000), Relay_closed, Control_closed] = (0, 0)"
    using associations_leave_nothing [OF d] by simp
qed

lemma plain_socks_encapsulates: "encapsulates plain_socks"
  by (auto simp: encapsulates_def plain_socks_def split: if_splits)

theorem association_roundtrip_witness:
  "encapsulates plain_socks \<and> assoc_Write plain_socks (\<lambda>_. None) \<lparr>uaDst = [1, 9, 9, 9, 9, 0, 53], uaRelay = ([9, 9, 9, 9], 4000), uaClosed = False\<rparr> [7, 8] =
      (Inr 2, Some [0, 0, 0, 1, 9, 9, 9, 9, 0, 53, 7, 8]) \<and>
   assoc_reads plain_socks (\<lambda>_. False) 16384 2 (map Inr [[1, 2], [0, 0, 0, 1, 9, 9, 9, 9, 0, 53, 7, 8]]) = [Inr [7, 8]]"
proof -
  have w: "assoc_Write plain_socks (\<lambda>_. None) \<lparr>uaDst = [1, 9, 9, 9, 9, 0, 53], uaRelay = ([9, 9, 9, 9], 4000), uaClosed = False\<rparr> [7, 8] =
      (Inr 2, Some [0, 0, 0, 1, 9, 9, 9, 9, 0, 53, 7, 8])"
    by (simp add: assoc_Write_def plain_socks_def)
  have h: "handed_over plain_socks [1, 2] = []" "handed_over plain_socks [0, 0, 0, 1, 9, 9, 9, 9, 0, 53, 7, 8] = [[7, 8]]"
    by (simp_all add: handed_over_def plain_socks_def maxUDPDatagram_def udpBufSize_def)
  let ?ds = "[[1, 2], [0, 0, 0, 1, 9, 9, 9, 9, 0, 53, 7, 8]] :: bytes list"
  have "assoc_reads plain_socks (\<lambda>_. False) 16384 (length ?ds) (map Inr ?ds) = map Inr (concat (map (handed_over plain_socks) ?ds))"
    by (rule association_roundtrip [OF plain_socks_encapsulates, THEN conjunct2, THEN conjunct1]) (simp add: udpBufSize_def)
  then show ?thesis using plain_socks_encapsulates w h by (simp add: numeral_2_eq_2 del: assoc_reads.simps)
qed

end
