(* ===== verification/UdpPool.thy ===== *)
theory UdpPool
  imports Prelude Datagrams
begin

text \<open>
  \<open>client/proxy/udp_pool.go\<close>: the pool of UDP exchanges. Exchanges are numbered in the order they are
  opened. Each critical section of the pool's lock is one function; the step relation interleaves
  them as goroutines may, with the work that is done outside the lock in steps of its own.
\<close>

section \<open>The critical sections\<close>

definition maxUDPExchanges :: int where
  "maxUDPExchanges = 128"

definition errSocksServerClosed :: go_error where
  "errSocksServerClosed = Sentinel ''socks5 udp server closed''"

text \<open>The map of exchanges, as a list in the order a \<open>range\<close> over it runs.\<close>

record udpPool =
  upExchanges :: "(string \<times> nat) list"
  upInflight :: int
  upClosed :: bool

definition newUDPPool :: udpPool where
  "newUDPPool = \<lparr>upExchanges = [], upInflight = 0, upClosed = False\<rparr>"

definition exchangeFor :: "string \<Rightarrow> udpPool \<Rightarrow> nat option" where
  "exchangeFor key p = map_of (upExchanges p) key"

definition remove_key :: "string \<Rightarrow> (string \<times> nat) list \<Rightarrow> (string \<times> nat) list" where
  "remove_key key xs = filter (\<lambda>kv. fst kv \<noteq> key) xs"

text \<open>The loop of \<open>evictOldestExchangeLocked\<close>; \<open>seen\<close> is \<open>LastSeen\<close>, and an empty key means that none was found yet.\<close>

definition older :: "(nat \<Rightarrow> int) \<Rightarrow> string \<times> nat \<Rightarrow> string \<times> nat \<Rightarrow> string \<times> nat" where
  "older seen kv best = (if fst best = [] \<or> seen (snd kv) < seen (snd best) then kv else best)"

definition evictOldestExchangeLocked :: "(nat \<Rightarrow> int) \<Rightarrow> (string \<times> nat) list \<Rightarrow> nat option \<times> (string \<times> nat) list" where
  "evictOldestExchangeLocked seen xs =
     (let best = fold (older seen) xs ([], 0)
      in if fst best = [] then (None, xs) else (Some (snd best), remove_key (fst best) xs))"

lemma oldest_member: "fold (older seen) xs best = best \<or> fold (older seen) xs best \<in> set xs"
proof (induction xs arbitrary: best)
  case (Cons kv xs)
  have "older seen kv best = kv \<or> older seen kv best = best" by (simp add: older_def)
  then show ?case using Cons.IH [of "older seen kv best"] by auto
qed simp

lemma evict_member:
  assumes "evictOldestExchangeLocked seen xs = (Some u, ys)"
  shows "\<exists>k. k \<noteq> [] \<and> (k, u) \<in> set xs \<and> ys = remove_key k xs"
proof -
  define best where "best = fold (older seen) xs ([], 0)"
  have "fst best \<noteq> []" "u = snd best" "ys = remove_key (fst best) xs"
    using assms by (auto simp: evictOldestExchangeLocked_def best_def Let_def split: if_splits)
  moreover have "best \<in> set xs" using oldest_member [of seen xs "([], 0)"] calculation(1) by (auto simp: best_def)
  ultimately show ?thesis by (metis prod.collapse)
qed

lemma oldest_nonempty:
  "\<forall>kv \<in> set xs. fst kv \<noteq> [] \<Longrightarrow> xs \<noteq> [] \<Longrightarrow> fst (fold (older seen) xs best) \<noteq> []"
proof (induction xs arbitrary: best)
  case (Cons kv xs)
  have "fst (older seen kv best) \<noteq> []" using Cons.prems(1) by (auto simp: older_def)
  then show ?case using Cons.IH [of "older seen kv best"] Cons.prems(1) by (cases "xs = []") auto
qed simp

lemma remove_key_shorter: "(k, u) \<in> set xs \<Longrightarrow> length (remove_key k xs) < length xs"
  unfolding remove_key_def by (rule length_filter_less [of "(k, u)"]) auto

lemma remove_key_values:
  assumes "distinct (map fst xs)" "(k, u) \<in> set xs"
  shows "snd ` set xs = insert u (snd ` set (remove_key k xs))"
proof (rule set_eqI, rule iffI)
  fix v assume "v \<in> snd ` set xs"
  then obtain l where l: "(l, v) \<in> set xs" by auto
  then show "v \<in> insert u (snd ` set (remove_key k xs))"
    using eq_key_imp_eq_value [OF assms(1) assms(2), of v] by (cases "l = k") (force simp: remove_key_def)+
next
  fix v assume "v \<in> insert u (snd ` set (remove_key k xs))"
  then show "v \<in> snd ` set xs" using assms(2) by (force simp: remove_key_def)
qed

text \<open>The loop of \<open>createExchange\<close> that makes room.\<close>

function make_room :: "(nat \<Rightarrow> int) \<Rightarrow> int \<Rightarrow> (string \<times> nat) list \<Rightarrow> nat list \<times> (string \<times> nat) list" where
  "make_room seen inflight xs =
     (if int (length xs) + inflight > maxUDPExchanges
      then (case evictOldestExchangeLocked seen xs of
              (None, _) \<Rightarrow> ([], xs)
            | (Some old, ys) \<Rightarrow> (case make_room seen inflight ys of (evicted, zs) \<Rightarrow> (old # evicted, zs)))
      else ([], xs))"
  by pat_completeness auto
termination
proof (relation "measure (\<lambda>(_, _, xs). length xs)")
  fix seen inflight xs x y u
  assume a: "maxUDPExchanges < int (length xs) + inflight" "(x, y) = evictOldestExchangeLocked seen xs" "x = Some u"
  then obtain k where "(k, u) \<in> set xs" "y = remove_key k xs" using evict_member [of seen xs u y] by auto
  then show "((seen, inflight, y), seen, inflight, xs) \<in> measure (\<lambda>(_, _, xs). length xs)"
    using remove_key_shorter by simp
qed simp

declare make_room.simps [simp del]

text \<open>
  The section in which \<open>createExchange\<close> registers what it has opened: the exchanges to be closed once the
  lock is released, and the error, if any.
\<close>

definition register :: "(nat \<Rightarrow> int) \<Rightarrow> string \<Rightarrow> nat \<Rightarrow> udpPool \<Rightarrow> go_error option \<times> nat list \<times> udpPool" where
  "register seen key ue p =
     (if upClosed p then (Some errSocksServerClosed, [ue], p)
      else if exchangeFor key p \<noteq> None then (Some (Msg ''udp pool: exchange registered during flight''), [ue], p)
      else (case make_room seen (upInflight p) (upExchanges p) of
              (evicted, xs) \<Rightarrow> (None, evicted, p\<lparr>upExchanges := (key, ue) # xs\<rparr>)))"

definition removeExchange :: "string \<Rightarrow> nat \<Rightarrow> udpPool \<Rightarrow> udpPool" where
  "removeExchange key ue p =
     (if exchangeFor key p = Some ue then p\<lparr>upExchanges := remove_key key (upExchanges p)\<rparr> else p)"

text \<open>One round of \<open>cleanupLoop\<close>, and the section of \<open>close\<close>: what is to be closed, and the pool.\<close>

definition cleanup_round :: "(nat \<Rightarrow> int) \<Rightarrow> int \<Rightarrow> int \<Rightarrow> udpPool \<Rightarrow> nat list \<times> udpPool" where
  "cleanup_round seen idle now p =
     (let stale = (\<lambda>kv. now - seen (snd kv) > idle)
      in (map snd (filter stale (upExchanges p)), p\<lparr>upExchanges := filter (\<lambda>kv. \<not> stale kv) (upExchanges p)\<rparr>))"

definition close_sweep :: "udpPool \<Rightarrow> nat list \<times> udpPool" where
  "close_sweep p = (map snd (upExchanges p), p\<lparr>upExchanges := []\<rparr>)"

section \<open>Interleaving\<close>

text \<open>
  A flight is the one running creation for its key (\<open>singleflight\<close>): it is opening its exchange, it
  holds an exchange that is not registered yet, or it has left the lock with exchanges to close.
\<close>

datatype flight = Opening | Holding nat | Closing "nat list"

record pool_world =
  pwPool :: udpPool
  pwFlights :: "(string \<times> flight) list"
  pwOpened :: nat
  pwDetached :: "nat list"
  pwClosed :: "nat set"
  pwSwept :: bool
  pwLast :: "nat \<Rightarrow> int"

definition set_flight :: "string \<Rightarrow> flight \<Rightarrow> pool_world \<Rightarrow> pool_world" where
  "set_flight key f w = w\<lparr>pwFlights := (key, f) # filter (\<lambda>kf. fst kf \<noteq> key) (pwFlights w)\<rparr>"

definition end_flight :: "string \<Rightarrow> pool_world \<Rightarrow> pool_world" where
  "end_flight key w =
     w\<lparr>pwFlights := filter (\<lambda>kf. fst kf \<noteq> key) (pwFlights w),
       pwPool := (pwPool w)\<lparr>upInflight := upInflight (pwPool w) - 1\<rparr>\<rparr>"

inductive pool_step :: "pool_world \<Rightarrow> pool_world \<Rightarrow> bool" where
  begin_flight: "key \<noteq> [] \<Longrightarrow> map_of (pwFlights w) key = None \<Longrightarrow> exchangeFor key (pwPool w) = None \<Longrightarrow>
    pool_step w (set_flight key Opening (w\<lparr>pwPool := (pwPool w)\<lparr>upInflight := upInflight (pwPool w) + 1\<rparr>\<rparr>))"
| open_failed: "map_of (pwFlights w) key = Some Opening \<Longrightarrow> pool_step w (end_flight key w)"
| opened: "map_of (pwFlights w) key = Some Opening \<Longrightarrow>
    pool_step w (set_flight key (Holding (pwOpened w)) (w\<lparr>pwOpened := Suc (pwOpened w)\<rparr>))"
| registered: "map_of (pwFlights w) key = Some (Holding ue) \<Longrightarrow> register (pwLast w) key ue (pwPool w) = (err, us, p) \<Longrightarrow>
    pool_step w (set_flight key (Closing us) (w\<lparr>pwPool := p\<rparr>))"
| flight_closes: "map_of (pwFlights w) key = Some (Closing (us @ u # vs)) \<Longrightarrow>
    pool_step w (set_flight key (Closing (us @ vs)) (w\<lparr>pwClosed := insert u (pwClosed w)\<rparr>))"
| flight_ends: "map_of (pwFlights w) key = Some (Closing []) \<Longrightarrow> pool_step w (end_flight key w)"
| removed: "ue < pwOpened w \<Longrightarrow> pool_step w (w\<lparr>pwPool := removeExchange key ue (pwPool w), pwDetached := ue # pwDetached w\<rparr>)"
| cleaned: "cleanup_round (pwLast w) idle now (pwPool w) = (us, p) \<Longrightarrow>
    pool_step w (w\<lparr>pwPool := p, pwDetached := us @ pwDetached w\<rparr>)"
| close_begun: "pool_step w (w\<lparr>pwPool := (pwPool w)\<lparr>upClosed := True\<rparr>\<rparr>)"
| swept: "upClosed (pwPool w) \<Longrightarrow> close_sweep (pwPool w) = (us, p) \<Longrightarrow>
    pool_step w (w\<lparr>pwPool := p, pwDetached := us @ pwDetached w, pwSwept := True\<rparr>)"
| detached_closed: "pwDetached w = us @ u # vs \<Longrightarrow> pool_step w (w\<lparr>pwDetached := us @ vs, pwClosed := insert u (pwClosed w)\<rparr>)"
| timed_out: "ue < pwOpened w \<Longrightarrow> pool_step w (w\<lparr>pwClosed := insert ue (pwClosed w)\<rparr>)"
| touched: "pool_step w (w\<lparr>pwLast := seen\<rparr>)"
| reordered: "mset xs = mset (upExchanges (pwPool w)) \<Longrightarrow> pool_step w (w\<lparr>pwPool := (pwPool w)\<lparr>upExchanges := xs\<rparr>\<rparr>)"

definition pool_init :: "pool_world \<Rightarrow> bool" where
  "pool_init w \<longleftrightarrow> pwPool w = newUDPPool \<and> pwFlights w = [] \<and> pwOpened w = 0 \<and> pwDetached w = [] \<and> pwClosed w = {} \<and> \<not> pwSwept w"

fun held :: "flight \<Rightarrow> nat set" where
  "held Opening = {}"
| "held (Holding u) = {u}"
| "held (Closing us) = set us"

definition accounted :: "pool_world \<Rightarrow> nat set" where
  "accounted w = set (map snd (upExchanges (pwPool w))) \<union> (\<Union>kf \<in> set (pwFlights w). held (snd kf)) \<union> set (pwDetached w) \<union> pwClosed w"

definition pool_inv :: "pool_world \<Rightarrow> bool" where
  "pool_inv w \<longleftrightarrow>
     accounted w = {..<pwOpened w} \<and>
     distinct (map fst (upExchanges (pwPool w))) \<and> distinct (map fst (pwFlights w)) \<and>
     upInflight (pwPool w) = int (length (pwFlights w)) \<and>
     int (length (upExchanges (pwPool w))) \<le> maxUDPExchanges \<and>
     (\<forall>kv \<in> set (upExchanges (pwPool w)). fst kv \<noteq> [] ) \<and> (\<forall>kf \<in> set (pwFlights w). fst kf \<noteq> []) \<and>
     (pwSwept w \<longrightarrow> upClosed (pwPool w) \<and> upExchanges (pwPool w) = [])"

section \<open>What every step keeps\<close>

lemma make_room_facts:
  assumes "distinct (map fst xs)" "\<forall>kv \<in> set xs. fst kv \<noteq> []" "make_room seen inflight xs = (us, ys)"
  shows "set us \<union> snd ` set ys = snd ` set xs \<and> set ys \<subseteq> set xs \<and> distinct (map fst ys) \<and>
    (ys = [] \<or> int (length ys) + inflight \<le> maxUDPExchanges)"
  using assms
proof (induction seen inflight xs arbitrary: us ys rule: make_room.induct)
  case (1 seen inflight xs)
  show ?case
  proof (cases "int (length xs) + inflight > maxUDPExchanges")
    case False
    then show ?thesis using 1(2,4) by (auto simp: make_room.simps [of _ _ xs])
  next
    case True
    obtain o' zs where e: "evictOldestExchangeLocked seen xs = (o', zs)" by fastforce
    show ?thesis
    proof (cases o')
      case None
      then have "fst (fold (older seen) xs ([], 0)) = []" using e by (auto simp: evictOldestExchangeLocked_def Let_def split: if_splits)
      then have "xs = []" using oldest_nonempty [OF 1(3)] by auto
      moreover have "us = []" "ys = xs" using 1(4) True e None by (simp_all add: make_room.simps [of _ _ xs])
      ultimately show ?thesis by simp
    next
      case (Some u)
      obtain k where k: "(k, u) \<in> set xs" "zs = remove_key k xs" using evict_member e Some by blast
      obtain vs ws where m: "make_room seen inflight zs = (vs, ws)" by fastforce
      have r: "us = u # vs" "ys = ws" using 1(4) True e Some m by (auto simp: make_room.simps [of _ _ xs])
      have z: "distinct (map fst zs)" "\<forall>kv \<in> set zs. fst kv \<noteq> []" "set zs \<subseteq> set xs"
        using 1(2,3) k(2) by (auto simp: remove_key_def distinct_map_filter)
      have "snd ` set xs = insert u (snd ` set zs)" using remove_key_values [OF 1(2) k(1)] k(2) by simp
      then show ?thesis using 1(1) [OF True e [symmetric] Some z(1,2) m] z(3) r by auto
    qed
  qed
qed

lemma flights_split:
  "distinct (map fst fs) \<Longrightarrow> map_of fs key = Some f \<Longrightarrow>
    (\<Union>kf \<in> set fs. held (snd kf)) = held f \<union> (\<Union>kf \<in> set (filter (\<lambda>kf. fst kf \<noteq> key) fs). held (snd kf)) \<and>
    length fs = Suc (length (filter (\<lambda>kf. fst kf \<noteq> key) fs))"
proof (induction fs)
  case (Cons kf fs)
  show ?case
  proof (cases "fst kf = key")
    case True
    then have "filter (\<lambda>kf. fst kf \<noteq> key) fs = fs" using Cons.prems(1)
      by (intro filter_True) (auto simp: image_iff)
    then show ?thesis using Cons.prems True by (cases kf) auto
  next
    case False
    then show ?thesis using Cons by (cases kf) auto
  qed
qed simp

lemma accounted_flight:
  assumes "distinct (map fst (pwFlights w))" "map_of (pwFlights w) key = Some f"
  shows "accounted w = held f \<union> accounted (w\<lparr>pwFlights := filter (\<lambda>kf. fst kf \<noteq> key) (pwFlights w)\<rparr>)"
  using flights_split [OF assms] by (auto simp: accounted_def)

lemma accounted_set_flight:
  "accounted (set_flight key f w) = held f \<union> accounted (w\<lparr>pwFlights := filter (\<lambda>kf. fst kf \<noteq> key) (pwFlights w)\<rparr>)"
  by (auto simp: accounted_def set_flight_def)

lemma filter_within: "int (length xs) \<le> n \<Longrightarrow> int (length (filter P xs)) \<le> n"
  using length_filter_le [of P xs] by linarith

lemma flight_key: "map_of fs key = Some f \<Longrightarrow> (key, f) \<in> set fs"
  by (rule map_of_SomeD)

lemma inv_parts:
  assumes "pool_inv w"
  shows "accounted w = {..<pwOpened w}" "distinct (map fst (upExchanges (pwPool w)))" "distinct (map fst (pwFlights w))"
    "upInflight (pwPool w) = int (length (pwFlights w))" "int (length (upExchanges (pwPool w))) \<le> maxUDPExchanges"
    "\<forall>kv \<in> set (upExchanges (pwPool w)). fst kv \<noteq> []" "\<forall>kf \<in> set (pwFlights w). fst kf \<noteq> []"
    "pwSwept w \<Longrightarrow> upClosed (pwPool w) \<and> upExchanges (pwPool w) = []"
  using assms by (auto simp: pool_inv_def)

lemma set_flight_keeps:
  assumes "pool_inv w" "map_of (pwFlights w) key = Some f" "accounted (set_flight key g w') = {..<pwOpened w'}"
    "pwFlights w' = pwFlights w" "upInflight (pwPool w') = upInflight (pwPool w)"
    "distinct (map fst (upExchanges (pwPool w')))" "int (length (upExchanges (pwPool w'))) \<le> maxUDPExchanges"
    "\<forall>kv \<in> set (upExchanges (pwPool w')). fst kv \<noteq> []" "pwSwept w' \<Longrightarrow> upClosed (pwPool w') \<and> upExchanges (pwPool w') = []"
  shows "pool_inv (set_flight key g w')"
proof -
  note i = inv_parts [OF assms(1)]
  have "key \<noteq> []" using i(7) flight_key [OF assms(2)] by auto
  moreover have "length (pwFlights w) = Suc (length (filter (\<lambda>kf. fst kf \<noteq> key) (pwFlights w)))"
    using flights_split [OF i(3) assms(2)] by simp
  ultimately show ?thesis using assms i(3,4,7)
    by (auto simp: pool_inv_def set_flight_def distinct_map_filter)
qed

lemma end_flight_keeps:
  assumes "pool_inv w" "map_of (pwFlights w) key = Some f" "held f = {}"
  shows "pool_inv (end_flight key w)"
proof -
  note i = inv_parts [OF assms(1)]
  have "accounted (end_flight key w) = accounted w" using flights_split [OF i(3) assms(2)] assms(3)
    by (simp add: accounted_def end_flight_def)
  moreover have "length (pwFlights w) = Suc (length (filter (\<lambda>kf. fst kf \<noteq> key) (pwFlights w)))"
    using flights_split [OF i(3) assms(2)] by simp
  ultimately show ?thesis using i by (auto simp: pool_inv_def end_flight_def distinct_map_filter)
qed

lemma register_keeps:
  assumes "pool_inv w" "map_of (pwFlights w) key = Some (Holding ue)"
    "register (pwLast w) key ue (pwPool w) = (err, us, p)"
  shows "pool_inv (set_flight key (Closing us) (w\<lparr>pwPool := p\<rparr>))"
proof (cases "err = None")
  case False
  then have "us = [ue]" "p = pwPool w" using assms(3) by (auto simp: register_def split: if_splits prod.splits)
  then show ?thesis
    using set_flight_keeps [OF assms(1,2), of "Closing us" w] accounted_flight [OF inv_parts(3) [OF assms(1)] assms(2)]
      inv_parts [OF assms(1)] by (simp add: accounted_set_flight)
next
  case True
  note i = inv_parts [OF assms(1)]
  obtain xs where m: "make_room (pwLast w) (upInflight (pwPool w)) (upExchanges (pwPool w)) = (us, xs)"
    and p: "p = (pwPool w)\<lparr>upExchanges := (key, ue) # xs\<rparr>"
    and k: "exchangeFor key (pwPool w) = None" "\<not> upClosed (pwPool w)"
    using assms(3) True by (auto simp: register_def split: if_splits prod.splits)
  note f = make_room_facts [OF i(2,6) m]
  have "key \<noteq> []" using i(7) flight_key [OF assms(2)] by auto
  have n: "upInflight (pwPool w) \<ge> 1" using i(4) flights_split [OF i(3) assms(2)] by simp
  have "key \<notin> fst ` set xs" using k(1) f by (auto simp: exchangeFor_def map_of_eq_None_iff)
  moreover have "int (length xs) + 1 \<le> maxUDPExchanges" using f n by (auto simp: maxUDPExchanges_def)
  moreover have "accounted (set_flight key (Closing us) (w\<lparr>pwPool := p\<rparr>)) = accounted w"
    using f flights_split [OF i(3) assms(2)] by (auto simp: accounted_def set_flight_def p)
  ultimately show ?thesis using f i k \<open>key \<noteq> []\<close>
    by (intro set_flight_keeps [OF assms(1,2)]) (auto simp: p)
qed

lemma pool_inv_step: "pool_step w w' \<Longrightarrow> pool_inv w \<Longrightarrow> pool_inv w'"
proof (induction rule: pool_step.induct)
  case (begin_flight key w)
  note i = inv_parts [OF begin_flight(4)]
  have "filter (\<lambda>kf. fst kf \<noteq> key) (pwFlights w) = pwFlights w"
    using begin_flight(2) by (auto simp: filter_id_conv map_of_eq_None_iff)
  then show ?case using i begin_flight(1,2) by (auto simp: pool_inv_def set_flight_def accounted_def map_of_eq_None_iff)
next
  case (open_failed w key)
  then show ?case using end_flight_keeps by simp
next
  case (opened w key)
  note i = inv_parts [OF opened(2)]
  have "accounted (set_flight key (Holding (pwOpened w)) (w\<lparr>pwOpened := Suc (pwOpened w)\<rparr>)) = insert (pwOpened w) (accounted w)"
    using flights_split [OF i(3) opened(1)] by (auto simp: accounted_def set_flight_def)
  then show ?case using i by (intro set_flight_keeps [OF opened(2,1)]) (auto simp: lessThan_Suc)
next
  case (registered w key ue err us p)
  then show ?case using register_keeps by blast
next
  case (flight_closes w key us u vs)
  note i = inv_parts [OF flight_closes(2)]
  have "accounted (set_flight key (Closing (us @ vs)) (w\<lparr>pwClosed := insert u (pwClosed w)\<rparr>)) = accounted w"
    using flights_split [OF i(3) flight_closes(1)] by (auto simp: accounted_def set_flight_def)
  then show ?case using i by (intro set_flight_keeps [OF flight_closes(2,1)]) auto
next
  case (flight_ends w key)
  then show ?case using end_flight_keeps by simp
next
  case (removed ue w key)
  note i = inv_parts [OF removed(2)]
  let ?w = "w\<lparr>pwPool := removeExchange key ue (pwPool w), pwDetached := ue # pwDetached w\<rparr>"
  have "snd ` set (upExchanges (removeExchange key ue (pwPool w))) \<union> {ue} = snd ` set (upExchanges (pwPool w)) \<union> {ue}"
    using remove_key_values [OF i(2), of key ue] by (auto simp: removeExchange_def exchangeFor_def dest: map_of_SomeD)
  then have "accounted ?w = insert ue (accounted w)" by (auto simp: accounted_def)
  then show ?case using i removed(1)
    by (auto simp: pool_inv_def removeExchange_def remove_key_def distinct_map_filter filter_within)
next
  case (cleaned w idle now us p)
  note i = inv_parts [OF cleaned(2)]
  have d: "us = map snd (filter (\<lambda>kv. now - pwLast w (snd kv) > idle) (upExchanges (pwPool w)))"
    "p = (pwPool w)\<lparr>upExchanges := filter (\<lambda>kv. \<not> now - pwLast w (snd kv) > idle) (upExchanges (pwPool w))\<rparr>"
    using cleaned(1) by (auto simp: cleanup_round_def Let_def)
  have "accounted (w\<lparr>pwPool := p, pwDetached := us @ pwDetached w\<rparr>) = accounted w"
    by (auto simp: accounted_def d)
  then show ?case using i by (auto simp: pool_inv_def d distinct_map_filter filter_within)
next
  case (swept w us p)
  note i = inv_parts [OF swept(3)]
  have "accounted (w\<lparr>pwPool := p, pwDetached := us @ pwDetached w, pwSwept := True\<rparr>) = accounted w"
    using swept(2) by (auto simp: accounted_def close_sweep_def)
  then show ?case using i swept(1,2) by (auto simp: pool_inv_def close_sweep_def maxUDPExchanges_def)
next
  case (detached_closed w us u vs)
  then show ?case by (auto simp: pool_inv_def accounted_def)
next
  case (timed_out ue w)
  then show ?case by (auto simp: pool_inv_def accounted_def)
next
  case (reordered xs w)
  note i = inv_parts [OF reordered(2)]
  have "set xs = set (upExchanges (pwPool w))" "length xs = length (upExchanges (pwPool w))"
    using reordered(1) by (metis mset_eq_setD, metis mset_eq_length)
  moreover have "distinct (map fst xs)" using i(2) reordered(1) by (metis mset_eq_imp_distinct_iff mset_map)
  ultimately show ?case using i by (auto simp: pool_inv_def accounted_def)
qed (auto simp: pool_inv_def accounted_def)

interpretation pool: step_invariant pool_init pool_step pool_inv
proof unfold_locales
  show "pool_init w \<Longrightarrow> pool_inv w" for w :: pool_world
    by (simp add: pool_init_def pool_inv_def accounted_def newUDPPool_def maxUDPExchanges_def)
qed (rule pool_inv_step)

section \<open>No exchange is lost\<close>

text \<open>
  C27. In every reachable state of the pool, however its critical sections interleave, at most
  \<open>maxUDPExchanges\<close> exchanges are registered and every exchange that was ever opened is registered, held by the flight that
  opened or evicted it, about to be closed, or closed. Once \<open>close\<close> has swept, nothing is registered any
  more, and when the flights have ended and what was taken out has been closed, every exchange is closed.
\<close>

theorem pool_no_leak:
  assumes "reachable_from pool_init pool_step w"
  shows "int (length (upExchanges (pwPool w))) \<le> maxUDPExchanges \<and> accounted w = {..<pwOpened w} \<and>
    (pwSwept w \<longrightarrow> upExchanges (pwPool w) = []) \<and>
    (pwSwept w \<and> pwFlights w = [] \<and> pwDetached w = [] \<longrightarrow> pwClosed w = {..<pwOpened w})"
  using inv_parts [OF pool.inv_reachable [OF assms]] by (auto simp: accounted_def)

text \<open>A run in which an exchange is opened and registered, the pool is closed and swept, and the exchange is closed.\<close>

definition pool_midway :: "(string \<times> flight) list \<Rightarrow> udpPool \<Rightarrow> nat \<Rightarrow> nat list \<Rightarrow> nat set \<Rightarrow> bool \<Rightarrow> pool_world" where
  "pool_midway fs p n ds cs sw = \<lparr>pwPool = p, pwFlights = fs, pwOpened = n, pwDetached = ds, pwClosed = cs, pwSwept = sw, pwLast = (\<lambda>_. 0)\<rparr>"

lemmas pool_run_simps = pool_midway_def set_flight_def end_flight_def register_def exchangeFor_def make_room.simps
  maxUDPExchanges_def close_sweep_def

lemma pool_run_first:
  "reachable_from pool_init pool_step (pool_midway [] \<lparr>upExchanges = [(''a'', 0)], upInflight = 0, upClosed = False\<rparr> 1 [] {} False)"
proof -
  let ?r = "reachable_from pool_init pool_step"
  have "?r (pool_midway [] newUDPPool 0 [] {} False)"
    by (rule reachable_from.start) (simp add: pool_init_def pool_midway_def)
  then have "?r (pool_midway [(''a'', Opening)] \<lparr>upExchanges = [], upInflight = 1, upClosed = False\<rparr> 0 [] {} False)"
    by (rule reachable_from.step) (use begin_flight [of "''a''" "pool_midway [] newUDPPool 0 [] {} False"] in \<open>simp add: pool_run_simps newUDPPool_def\<close>)
  then have "?r (pool_midway [(''a'', Holding 0)] \<lparr>upExchanges = [], upInflight = 1, upClosed = False\<rparr> 1 [] {} False)"
    by (rule reachable_from.step)
      (use opened [of "pool_midway [(''a'', Opening)] \<lparr>upExchanges = [], upInflight = 1, upClosed = False\<rparr> 0 [] {} False" "''a''"]
        in \<open>simp add: pool_run_simps\<close>)
  then have "?r (pool_midway [(''a'', Closing [])] \<lparr>upExchanges = [(''a'', 0)], upInflight = 1, upClosed = False\<rparr> 1 [] {} False)"
    by (rule reachable_from.step)
      (use registered [of "pool_midway [(''a'', Holding 0)] \<lparr>upExchanges = [], upInflight = 1, upClosed = False\<rparr> 1 [] {} False" "''a''" 0]
        in \<open>simp add: pool_run_simps\<close>)
  then show ?thesis
    by (rule reachable_from.step)
      (use flight_ends [of "pool_midway [(''a'', Closing [])] \<lparr>upExchanges = [(''a'', 0)], upInflight = 1, upClosed = False\<rparr> 1 [] {} False" "''a''"]
        in \<open>simp add: pool_run_simps\<close>)
qed

lemma pool_run_closed:
  "reachable_from pool_init pool_step (pool_midway [] \<lparr>upExchanges = [], upInflight = 0, upClosed = True\<rparr> 1 [] {0} True)"
proof -
  let ?r = "reachable_from pool_init pool_step"
  have "?r (pool_midway [] \<lparr>upExchanges = [(''a'', 0)], upInflight = 0, upClosed = True\<rparr> 1 [] {} False)"
    by (rule reachable_from.step [OF pool_run_first])
      (use close_begun [of "pool_midway [] \<lparr>upExchanges = [(''a'', 0)], upInflight = 0, upClosed = False\<rparr> 1 [] {} False"]
        in \<open>simp add: pool_run_simps\<close>)
  then have "?r (pool_midway [] \<lparr>upExchanges = [], upInflight = 0, upClosed = True\<rparr> 1 [0] {} True)"
    by (rule reachable_from.step)
      (use swept [of "pool_midway [] \<lparr>upExchanges = [(''a'', 0)], upInflight = 0, upClosed = True\<rparr> 1 [] {} False"]
        in \<open>simp add: pool_run_simps\<close>)
  then show ?thesis
    by (rule reachable_from.step)
      (use detached_closed [of "pool_midway [] \<lparr>upExchanges = [], upInflight = 0, upClosed = True\<rparr> 1 [0] {} True" "[]" 0 "[]"]
        in \<open>simp add: pool_run_simps\<close>)
qed

theorem pool_no_leak_witness:
  "\<exists>w. reachable_from pool_init pool_step w \<and> pwSwept w \<and> pwOpened w = 1 \<and> pwClosed w = {..<pwOpened w}"
proof (intro exI conjI)
  let ?w = "pool_midway [] \<lparr>upExchanges = [], upInflight = 0, upClosed = True\<rparr> 1 [] {0} True"
  show "reachable_from pool_init pool_step ?w" by (rule pool_run_closed)
  show "pwSwept ?w" "pwOpened ?w = 1" by (simp_all add: pool_midway_def)
  show "pwClosed ?w = {..<pwOpened ?w}" using pool_no_leak [OF pool_run_closed] by (simp add: pool_midway_def)
qed

end
