(* ===== verification/DnsCache.thy ===== *)
theory DnsCache
  imports DnsMsg Stats
begin

text \<open>
  \<open>client/dns/cache.go\<close>: the two caches of answers, one for names resolved directly and one for names
  resolved through the tunnel, and the times they keep an answer. \<open>freecache\<close>, \<open>miekg/dns\<close> and the random
  generator are parameters. Times are seconds.
\<close>

section \<open>Times to live\<close>

definition minCacheTTL :: nat where "minCacheTTL = 60 * 60"
definition zeroTTLCacheTTL :: nat where "zeroTTLCacheTTL = 30 * 60"
definition maxCacheTTL :: nat where "maxCacheTTL = 2 * 60 * 60"
definition maxNegativeCacheTTL :: nat where "maxNegativeCacheTTL = 5 * 60"

lemmas ttl_defs = minCacheTTL_def zeroTTLCacheTTL_def maxCacheTTL_def maxNegativeCacheTTL_def

definition hasAnswerType :: "dns_Msg \<Rightarrow> nat \<Rightarrow> bool" where
  "hasAnswerType msg qtype = list_ex (\<lambda>rr. rrType rr = qtype) (mAnswer msg)"

definition soa_ttl :: "dns_RR \<Rightarrow> nat option" where
  "soa_ttl rr = (case rrData rr of RR_SOA minttl \<Rightarrow> Some (min (rrTtl rr) minttl) | _ \<Rightarrow> None)"

definition better_soa :: "dns_RR \<Rightarrow> nat option \<Rightarrow> nat option" where
  "better_soa rr best =
     (case soa_ttl rr of
        None \<Rightarrow> best
      | Some t \<Rightarrow> (case best of None \<Rightarrow> Some t | Some ttl \<Rightarrow> if t < ttl then Some t else Some ttl))"

definition smallest_soa :: "dns_RR list \<Rightarrow> nat option" where
  "smallest_soa rrs = fold better_soa rrs None"

definition negativeCacheTTL :: "dns_Msg \<Rightarrow> nat option" where
  "negativeCacheTTL msg =
     (case smallest_soa (mNs msg) of
        None \<Rightarrow> None
      | Some ttl \<Rightarrow> (if ttl = 0 then None else Some (if ttl > maxNegativeCacheTTL then maxNegativeCacheTTL else ttl)))"

text \<open>The caller has checked that there is a question. Zero stands for an entry that never expires.\<close>

definition dnsCacheTTL :: "dns_Msg \<Rightarrow> string \<Rightarrow> nat" where
  "dnsCacheTTL msg serverDomain =
     (if serverDomain \<noteq> [] \<and> EqualFold (TrimSuffix (qName (hd (mQuestion msg))) ''.'') serverDomain then 0
      else let ttl = fold (\<lambda>rr ttl. if rrTtl rr < ttl then rrTtl rr else ttl) (mAnswer msg) maxCacheTTL
           in if ttl = 0 then zeroTTLCacheTTL
              else (let ttl = (if ttl > maxCacheTTL then maxCacheTTL else ttl)
                    in if ttl < minCacheTTL then minCacheTTL else ttl))"

text \<open>\<open>rnd\<close> is \<open>rand.IntN\<close>.\<close>

definition jitterTTL :: "(nat \<Rightarrow> nat) \<Rightarrow> nat \<Rightarrow> nat" where
  "jitterTTL rnd ttl = (if ttl = 0 then ttl else ttl + rnd ttl)"

definition cacheTTL :: "(nat \<Rightarrow> nat) \<Rightarrow> dns_Msg \<Rightarrow> string \<Rightarrow> nat option" where
  "cacheTTL rnd msg serverDomain =
     (case mQuestion msg of
        [] \<Rightarrow> None
      | q # _ \<Rightarrow>
          (if mTruncated msg then None
           else if mRcode msg = RcodeSuccess then
             (if \<not> hasAnswerType msg (qType q) then negativeCacheTTL msg
              else Some (jitterTTL rnd (dnsCacheTTL msg serverDomain)))
           else if mRcode msg = RcodeNameError then negativeCacheTTL msg
           else None))"

section \<open>The caches\<close>

record 'c byte_cache =
  bcGet :: "'c \<Rightarrow> int \<Rightarrow> string \<Rightarrow> bytes option"
  bcSet :: "'c \<Rightarrow> int \<Rightarrow> string \<Rightarrow> bytes \<Rightarrow> nat \<Rightarrow> go_error option \<times> 'c"

record 'c Cache =
  caProxied :: 'c
  caDirect :: 'c
  caServerDomain :: string

definition Cache_Get ::
  "dns_lib \<Rightarrow> 'c byte_cache \<Rightarrow> int \<Rightarrow> string \<Rightarrow> string \<Rightarrow> bool \<Rightarrow> 'c Cache \<Rightarrow> stats \<Rightarrow> dns_Msg option \<times> stats" where
  "Cache_Get lib bc now name qtype isDirect c g =
     (case bcGet bc (if isDirect then caDirect c else caProxied c) now (ToLower name @ qtype) of
        None \<Rightarrow> (None, RecordDNSCacheMiss g)
      | Some v \<Rightarrow>
          (if v = [] then (None, RecordDNSCacheMiss g)
           else case dnUnpack lib v of
                  None \<Rightarrow> (None, RecordDNSCacheMiss g)
                | Some msg \<Rightarrow> (Some msg, RecordDNSCacheHit g)))"

definition Cache_Set ::
  "dns_lib \<Rightarrow> 'c byte_cache \<Rightarrow> (nat \<Rightarrow> nat) \<Rightarrow> int \<Rightarrow> dns_Msg \<Rightarrow> bool \<Rightarrow> 'c Cache \<Rightarrow> go_error option \<times> 'c Cache" where
  "Cache_Set lib bc rnd now msg isDirect c =
     (case mQuestion msg of
        [] \<Rightarrow> (None, c)
      | q # _ \<Rightarrow>
          (if qType q = TypeA \<or> qType q = TypeAAAA then
             (case cacheTTL rnd msg (caServerDomain c) of
                None \<Rightarrow> (None, c)
              | Some ttl \<Rightarrow>
                  (case dnPack lib msg of
                     Inl err \<Rightarrow> (Some err, c)
                   | Inr v \<Rightarrow>
                       (let key = ToLower (qName q) @ dnTypeName lib (qType q)
                        in if isDirect
                           then (case bcSet bc (caDirect c) now key v ttl of (e, d) \<Rightarrow> (e, c\<lparr>caDirect := d\<rparr>))
                           else (case bcSet bc (caProxied c) now key v ttl of (e, d) \<Rightarrow> (e, c\<lparr>caProxied := d\<rparr>)))))
           else (None, c)))"

definition msgHasRecord :: "dns_Msg \<Rightarrow> nat \<Rightarrow> bool" where
  "msgHasRecord msg qtype = list_ex (\<lambda>rr. rrType rr = qtype) (mAnswer msg)"

definition answerAddrs :: "dns_Msg \<Rightarrow> string list" where
  "answerAddrs msg =
     concat (map (\<lambda>rr. case rrData rr of RR_A ip \<Rightarrow> [IP_String ip] | RR_AAAA ip \<Rightarrow> [IP_String ip] | _ \<Rightarrow> []) (mAnswer msg))"

definition server_addrs_of :: "dns_lib \<Rightarrow> 'c byte_cache \<Rightarrow> int \<Rightarrow> 'c Cache \<Rightarrow> nat \<Rightarrow> string list" where
  "server_addrs_of lib bc now c qtype =
     (case bcGet bc (caDirect c) now (ToLower (dnFqdn lib (caServerDomain c)) @ dnTypeName lib qtype) of
        None \<Rightarrow> []
      | Some v \<Rightarrow>
          (if v = [] then []
           else case dnUnpack lib v of None \<Rightarrow> [] | Some msg \<Rightarrow> answerAddrs msg))"

definition ServerAddrs :: "dns_lib \<Rightarrow> 'c byte_cache \<Rightarrow> int \<Rightarrow> 'c Cache \<Rightarrow> string list" where
  "ServerAddrs lib bc now c =
     (if caServerDomain c = [] then []
      else server_addrs_of lib bc now c TypeA @ server_addrs_of lib bc now c TypeAAAA)"

text \<open>\<open>queryMsg\<close> on the exchange with a server, and \<open>PrePopulate\<close> on the results of its two queries.\<close>

definition queryMsg :: "dns_lib \<Rightarrow> (nat \<Rightarrow> string \<Rightarrow> string \<Rightarrow> dns_Msg result) \<Rightarrow> nat \<Rightarrow> string \<Rightarrow> string \<Rightarrow> dns_Msg result" where
  "queryMsg lib exchange dnsType dnsServer domain =
     (case exchange dnsType dnsServer (dnFqdn lib domain) of
        Inl err \<Rightarrow> Inl err
      | Inr r \<Rightarrow>
          (let r = snd (NormalizeEDNS0Answer r)
           in if mRcode r \<noteq> RcodeSuccess then Inl (Msg ''dns query response Rcode not equals RcodeSuccess'') else Inr r))"

definition store_both ::
  "dns_lib \<Rightarrow> 'c byte_cache \<Rightarrow> (nat \<Rightarrow> nat) \<Rightarrow> int \<Rightarrow> dns_Msg \<Rightarrow> 'c Cache \<Rightarrow> 'c Cache" where
  "store_both lib bc rnd now msg c =
     snd (Cache_Set lib bc rnd now msg False (snd (Cache_Set lib bc rnd now msg True c)))"

definition errNoRecordInAnswer :: go_error where
  "errNoRecordInAnswer = Sentinel ''no record of the requested type in the answer''"

definition PrePopulate ::
  "dns_lib \<Rightarrow> 'c byte_cache \<Rightarrow> (nat \<Rightarrow> nat) \<Rightarrow> (nat \<Rightarrow> string \<Rightarrow> string \<Rightarrow> dns_Msg result) \<Rightarrow> int \<Rightarrow>
     string \<Rightarrow> string \<Rightarrow> bool \<Rightarrow> 'c Cache \<Rightarrow> string list result \<times> 'c Cache" where
  "PrePopulate lib bc rnd exchange now domain dnsServer requireIPv4 c =
     (let (ok, aErr, addrs, c) =
            (case queryMsg lib exchange TypeA dnsServer domain of
               Inl err \<Rightarrow> (False, Some err, [], c)
             | Inr msg \<Rightarrow>
                 (if \<not> msgHasRecord msg TypeA then (False, Some errNoRecordInAnswer, [], c)
                  else (True, None, answerAddrs msg, store_both lib bc rnd now msg c)));
          (ok, addrs, c) =
            (case queryMsg lib exchange TypeAAAA dnsServer domain of
               Inl _ \<Rightarrow> (ok, addrs, c)
             | Inr msg \<Rightarrow>
                 (if \<not> msgHasRecord msg TypeAAAA then (ok, addrs, c)
                  else (ok \<or> \<not> requireIPv4, addrs @ answerAddrs msg, store_both lib bc rnd now msg c)))
      in if \<not> ok
         then (case aErr of
                 Some err \<Rightarrow> (if requireIPv4 then (Inl (Wrap ''failed to resolve A record'' [err]), c)
                             else (Inl (Msg ''failed to resolve''), c))
               | None \<Rightarrow> (Inl (Msg ''failed to resolve''), c))
         else (Inr addrs, c))"

section \<open>How long an answer is kept\<close>

lemma fold_min_ttl: "fold (\<lambda>rr ttl. if rrTtl rr < ttl then rrTtl rr else ttl) rrs t \<le> t"
proof (induction rrs arbitrary: t)
  case (Cons rr rrs)
  have "fold (\<lambda>rr ttl. if rrTtl rr < ttl then rrTtl rr else ttl) rrs (rrTtl rr) \<le> rrTtl rr" by (rule Cons)
  then show ?case using Cons [of t] by simp
qed simp

lemma dnsCacheTTL_range:
  "dnsCacheTTL msg sd = 0 \<and> sd \<noteq> [] \<and> EqualFold (TrimSuffix (qName (hd (mQuestion msg))) ''.'') sd \<or>
   dnsCacheTTL msg sd = zeroTTLCacheTTL \<or> minCacheTTL \<le> dnsCacheTTL msg sd \<and> dnsCacheTTL msg sd \<le> maxCacheTTL"
  using fold_min_ttl [of "mAnswer msg" maxCacheTTL] by (auto simp: dnsCacheTTL_def Let_def ttl_defs)

lemma better_soa_cases: "better_soa rr best = best \<or> better_soa rr best = soa_ttl rr"
  by (auto simp: better_soa_def split: option.splits)

lemma smallest_soa_from: "fold better_soa rrs best = Some t \<Longrightarrow> best = Some t \<or> (\<exists>rr \<in> set rrs. soa_ttl rr = Some t)"
proof (induction rrs arbitrary: best)
  case (Cons rr rrs)
  then show ?case using Cons.IH [of "better_soa rr best"] better_soa_cases [of rr best] by auto
qed simp

lemma smallest_soa_mem: "smallest_soa rrs = Some t \<Longrightarrow> \<exists>rr \<in> set rrs. soa_ttl rr = Some t"
  using smallest_soa_from [of rrs None t] by (simp add: smallest_soa_def)

lemma negativeCacheTTL_range:
  assumes "negativeCacheTTL msg = Some ttl"
  shows "0 < ttl \<and> ttl \<le> 300 \<and> (\<exists>rr \<in> set (mNs msg). \<exists>m. rrData rr = RR_SOA m \<and> ttl \<le> rrTtl rr \<and> ttl \<le> m)"
proof -
  obtain t where t: "smallest_soa (mNs msg) = Some t" "t \<noteq> 0" "ttl = min t 300"
    using assms by (auto simp: negativeCacheTTL_def ttl_defs split: option.splits if_splits)
  obtain rr where "rr \<in> set (mNs msg)" "soa_ttl rr = Some t" using smallest_soa_mem [OF t(1)] by blast
  then show ?thesis using t by (fastforce simp: soa_ttl_def split: rr_data.splits)
qed

text \<open>
  How long an answer may be served from the cache. Truncated answers and answers with any code but
  success and ``no such name'' are never cached. A negative answer is cached only with an SOA record, and
  for no longer than that record allows nor for more than five minutes. A positive answer is kept for at
  least half an hour and less than four hours, whatever its records say; only the proxy server's own
  name is kept for ever.
\<close>

theorem cache_ttl_bounded:
  assumes "\<And>n. 0 < n \<Longrightarrow> rnd n < n" "cacheTTL rnd msg serverDomain = Some ttl"
  shows "\<not> mTruncated msg \<and> (\<exists>q qs. mQuestion msg = q # qs \<and>
    (if mRcode msg = RcodeSuccess \<and> hasAnswerType msg (qType q)
     then ttl = 0 \<and> serverDomain \<noteq> [] \<and> EqualFold (TrimSuffix (qName q) ''.'') serverDomain \<or> 1800 \<le> ttl \<and> ttl < 14400
     else (mRcode msg = RcodeSuccess \<or> mRcode msg = RcodeNameError) \<and> 0 < ttl \<and> ttl \<le> 300 \<and>
       (\<exists>rr \<in> set (mNs msg). \<exists>m. rrData rr = RR_SOA m \<and> ttl \<le> rrTtl rr \<and> ttl \<le> m)))"
proof -
  obtain q qs where q: "mQuestion msg = q # qs" using assms(2) by (auto simp: cacheTTL_def split: list.splits)
  have j: "ttl = 0 \<and> serverDomain \<noteq> [] \<and> EqualFold (TrimSuffix (qName q) ''.'') serverDomain \<or> 1800 \<le> ttl \<and> ttl < 14400"
    if "ttl = jitterTTL rnd (dnsCacheTTL msg serverDomain)"
    using that dnsCacheTTL_range [of msg serverDomain] assms(1) [of "dnsCacheTTL msg serverDomain"] q
    by (auto simp: jitterTTL_def ttl_defs split: if_splits)
  show ?thesis using assms(2) q j negativeCacheTTL_range [of msg ttl] by (auto simp: cacheTTL_def split: if_splits)
qed

definition demo_answer :: dns_Msg where
  "demo_answer = \<lparr>mId = 7, mResponse = True, mTruncated = False, mRcode = 0, mQuestion = [\<lparr>qName = ''Example.COM.'', qType = 1\<rparr>],
     mAnswer = [\<lparr>rrName = ''example.com.'', rrType = 1, rrTtl = 60, rrData = RR_A [93, 184, 216, 34]\<rparr>], mNs = [], mExtra = []\<rparr>"

theorem cache_ttl_bounded_witness:
  "\<exists>ttl. cacheTTL (\<lambda>n. n - 1) demo_answer ''proxy.net'' = Some ttl \<and> 1800 \<le> ttl \<and> ttl < 14400"
proof -
  obtain ttl where t: "cacheTTL (\<lambda>n. n - 1) demo_answer ''proxy.net'' = Some ttl"
    by (simp add: cacheTTL_def demo_answer_def hasAnswerType_def)
  have "\<not> EqualFold (TrimSuffix ''Example.COM.'' ''.'') ''proxy.net''" by code_simp
  then show ?thesis using cache_ttl_bounded [OF _ t] t by (auto simp: demo_answer_def hasAnswerType_def)
qed

section \<open>What the cache answers\<close>

text \<open>
  What the code relies on of \<open>freecache\<close>, as long as the entries fit: what was set is found until it
  expires, zero being never, and nothing is found that was not set or has expired.
\<close>

definition cache_faithful :: "'c byte_cache \<Rightarrow> bool" where
  "cache_faithful bc \<longleftrightarrow>
     (\<forall>c now k v ttl t. ttl = 0 \<or> t < now + int ttl \<longrightarrow> bcGet bc (snd (bcSet bc c now k v ttl)) t k = Some v) \<and>
     (\<forall>c now k v ttl t. ttl \<noteq> 0 \<longrightarrow> now + int ttl \<le> t \<longrightarrow> bcGet bc (snd (bcSet bc c now k v ttl)) t k = None) \<and>
     (\<forall>c now k v ttl t k2. k2 \<noteq> k \<longrightarrow> bcGet bc (snd (bcSet bc c now k v ttl)) t k2 = bcGet bc c t k2) \<and>
     (\<forall>c now k v ttl. fst (bcSet bc c now k v ttl) = None)"

lemma cache_faithfulD:
  assumes "cache_faithful bc"
  shows "ttl = 0 \<or> t < now + int ttl \<Longrightarrow> bcGet bc (snd (bcSet bc c now k v ttl)) t k = Some v"
    and "ttl \<noteq> 0 \<Longrightarrow> now + int ttl \<le> t \<Longrightarrow> bcGet bc (snd (bcSet bc c now k v ttl)) t k = None"
    and "k2 \<noteq> k \<Longrightarrow> bcGet bc (snd (bcSet bc c now k v ttl)) t k2 = bcGet bc c t k2"
    and "fst (bcSet bc c now k v ttl) = None"
  using assms by (auto simp: cache_faithful_def)

definition packs :: "dns_lib \<Rightarrow> dns_Msg \<Rightarrow> bytes \<Rightarrow> bool" where
  "packs lib msg v \<longleftrightarrow> dnPack lib msg = Inr v \<and> v \<noteq> [] \<and> dnUnpack lib v = Some msg"

definition cache_key :: "dns_lib \<Rightarrow> dns_Question \<Rightarrow> string" where
  "cache_key lib q = ToLower (qName q) @ dnTypeName lib (qType q)"

lemma Cache_Set_stores:
  assumes "cache_faithful bc" "packs lib msg v" "mQuestion msg = q # qs" "qType q = TypeA \<or> qType q = TypeAAAA"
    and "cacheTTL rnd msg (caServerDomain c) = Some ttl"
  shows "Cache_Set lib bc rnd now msg isDirect c =
    (None, if isDirect then c\<lparr>caDirect := snd (bcSet bc (caDirect c) now (cache_key lib q) v ttl)\<rparr>
           else c\<lparr>caProxied := snd (bcSet bc (caProxied c) now (cache_key lib q) v ttl)\<rparr>)"
  using assms(2-) cache_faithfulD(4) [OF assms(1)]
  by (auto simp: Cache_Set_def packs_def cache_key_def Let_def split: prod.splits) (metis fst_conv)+

text \<open>
  What was cached is what is answered. A cacheable answer that was stored is served under any
  spelling of its name, as it was stored, exactly until its time is over, from the cache it was stored
  in and not from the other: names resolved directly and names resolved through the tunnel never see
  each other's answers.
\<close>

theorem cached_answer_served:
  assumes "cache_faithful bc" "packs lib msg v" "mQuestion msg = q # qs" "qType q = TypeA \<or> qType q = TypeAAAA"
    and "cacheTTL rnd msg (caServerDomain c) = Some ttl" "Cache_Set lib bc rnd now msg isDirect c = (err, c')"
    and "ToLower name = ToLower (qName q)"
  shows "err = None \<and>
    fst (Cache_Get lib bc t name (dnTypeName lib (qType q)) isDirect c' g) = (if ttl = 0 \<or> t < now + int ttl then Some msg else None) \<and>
    Cache_Get lib bc t name' qtype (\<not> isDirect) c' g = Cache_Get lib bc t name' qtype (\<not> isDirect) c g"
proof -
  let ?k = "cache_key lib q"
  have c': "err = None" "c' = (if isDirect then c\<lparr>caDirect := snd (bcSet bc (caDirect c) now ?k v ttl)\<rparr>
           else c\<lparr>caProxied := snd (bcSet bc (caProxied c) now ?k v ttl)\<rparr>)"
    using Cache_Set_stores [OF assms(1-5), of now isDirect] assms(6) by auto
  define d where "d = (if isDirect then caDirect c else caProxied c)"
  have sel: "(if isDirect then caDirect c' else caProxied c') = snd (bcSet bc d now ?k v ttl)" by (simp add: c'(2) d_def)
  have key: "ToLower name @ dnTypeName lib (qType q) = ?k" by (simp add: cache_key_def assms(7))
  have get: "bcGet bc (snd (bcSet bc d now ?k v ttl)) t ?k = (if ttl = 0 \<or> t < now + int ttl then Some v else None)"
    using cache_faithfulD(1,2) [OF assms(1), of ttl] by auto
  have "fst (Cache_Get lib bc t name (dnTypeName lib (qType q)) isDirect c' g) = (if ttl = 0 \<or> t < now + int ttl then Some msg else None)"
    unfolding Cache_Get_def sel key get using assms(2) by (auto simp: packs_def)
  moreover have "Cache_Get lib bc t name' qtype (\<not> isDirect) c' g = Cache_Get lib bc t name' qtype (\<not> isDirect) c g"
    by (simp add: Cache_Get_def c'(2))
  ultimately show ?thesis using c'(1) by blast
qed

section \<open>The addresses of the proxy server\<close>

text \<open>A resolver's answer to one of the two queries for the server's name.\<close>

definition server_answer :: "dns_lib \<Rightarrow> string \<Rightarrow> nat \<Rightarrow> dns_Msg \<Rightarrow> bool" where
  "server_answer lib domain qtype msg \<longleftrightarrow>
     (\<exists>qs. mQuestion msg = \<lparr>qName = dnFqdn lib domain, qType = qtype\<rparr> # qs) \<and> \<not> mTruncated msg \<and> (\<exists>v. packs lib msg v)"

lemma TrimSuffix_dot: "TrimSuffix (domain @ ''.'') ''.'' = domain"
  by (simp add: TrimSuffix_def HasSuffix_def)

lemma server_answer_for_ever:
  assumes "server_answer lib domain qtype msg" "msgHasRecord msg qtype" "mRcode msg = RcodeSuccess"
    and "domain \<noteq> []" "dnFqdn lib domain = domain @ ''.''"
  shows "cacheTTL rnd msg domain = Some 0"
  using assms TrimSuffix_dot [of domain]
  by (auto simp: server_answer_def cacheTTL_def hasAnswerType_def msgHasRecord_def jitterTTL_def dnsCacheTTL_def EqualFold_def)

lemma store_both_direct:
  assumes "cache_faithful bc" "server_answer lib domain qtype msg" "msgHasRecord msg qtype" "mRcode msg = RcodeSuccess"
    and "domain \<noteq> []" "dnFqdn lib domain = domain @ ''.''" "caServerDomain c = domain" "qtype = TypeA \<or> qtype = TypeAAAA"
  shows "\<exists>v d. packs lib msg v \<and> store_both lib bc rnd now msg c =
    c\<lparr>caDirect := snd (bcSet bc (caDirect c) now (ToLower (dnFqdn lib domain) @ dnTypeName lib qtype) v 0), caProxied := d\<rparr>"
proof -
  obtain qs v where q: "mQuestion msg = \<lparr>qName = dnFqdn lib domain, qType = qtype\<rparr> # qs" "packs lib msg v"
    using assms(2) by (auto simp: server_answer_def)
  have ttl: "cacheTTL rnd msg domain = Some 0" by (rule server_answer_for_ever [OF assms(2-6)])
  have t: "qType \<lparr>qName = dnFqdn lib domain, qType = qtype\<rparr> = TypeA \<or> qType \<lparr>qName = dnFqdn lib domain, qType = qtype\<rparr> = TypeAAAA"
    using assms(8) by simp
  note st = Cache_Set_stores [OF assms(1) q(2,1) t]
  show ?thesis using q(2) st [of rnd c 0] st [of rnd _ 0] ttl assms(7) by (auto simp: store_both_def cache_key_def)
qed

lemma queryMsg_answer:
  "queryMsg lib exchange qtype server domain = Inr msg \<Longrightarrow> mRcode msg = RcodeSuccess \<and>
     (\<exists>r. exchange qtype server (dnFqdn lib domain) = Inr r \<and> msg = snd (NormalizeEDNS0Answer r))"
  by (auto simp: queryMsg_def Let_def split: sum.splits if_splits)

text \<open>The addresses one query brings, and what becomes of the cache.\<close>

definition stored_addrs :: "dns_lib \<Rightarrow> (nat \<Rightarrow> string \<Rightarrow> string \<Rightarrow> dns_Msg result) \<Rightarrow> nat \<Rightarrow> string \<Rightarrow> string \<Rightarrow> string list" where
  "stored_addrs lib exchange qtype server domain =
     (case queryMsg lib exchange qtype server domain of
        Inl _ \<Rightarrow> []
      | Inr msg \<Rightarrow> (if msgHasRecord msg qtype then answerAddrs msg else []))"

definition store_answer ::
  "dns_lib \<Rightarrow> 'c byte_cache \<Rightarrow> (nat \<Rightarrow> nat) \<Rightarrow> (nat \<Rightarrow> string \<Rightarrow> string \<Rightarrow> dns_Msg result) \<Rightarrow> int \<Rightarrow>
     nat \<Rightarrow> string \<Rightarrow> string \<Rightarrow> 'c Cache \<Rightarrow> 'c Cache" where
  "store_answer lib bc rnd exchange now qtype server domain c =
     (case queryMsg lib exchange qtype server domain of
        Inl _ \<Rightarrow> c
      | Inr msg \<Rightarrow> (if msgHasRecord msg qtype then store_both lib bc rnd now msg c else c))"

lemma PrePopulate_result:
  assumes "PrePopulate lib bc rnd exchange now domain server requireIPv4 c = (Inr addrs, c')"
  shows "addrs = stored_addrs lib exchange TypeA server domain @ stored_addrs lib exchange TypeAAAA server domain \<and>
    c' = store_answer lib bc rnd exchange now TypeAAAA server domain (store_answer lib bc rnd exchange now TypeA server domain c)"
  using assms
  by (cases "queryMsg lib exchange TypeA server domain"; cases "queryMsg lib exchange TypeAAAA server domain")
    (auto simp: PrePopulate_def stored_addrs_def store_answer_def Let_def split: if_splits option.splits)

text \<open>What resolvers are trusted for: they repeat the question, and an answer survives packing.\<close>

definition resolver_sane :: "dns_lib \<Rightarrow> (nat \<Rightarrow> string \<Rightarrow> string \<Rightarrow> dns_Msg result) \<Rightarrow> string \<Rightarrow> bool" where
  "resolver_sane lib exchange domain \<longleftrightarrow>
     (\<forall>qtype server r. exchange qtype server (dnFqdn lib domain) = Inr r \<longrightarrow> server_answer lib domain qtype (snd (NormalizeEDNS0Answer r)))"

lemma store_answer_gets:
  assumes "cache_faithful bc" "resolver_sane lib exchange domain" "domain \<noteq> []" "dnFqdn lib domain = domain @ ''.''" "caServerDomain c = domain"
    and "qtype = TypeA \<or> qtype = TypeAAAA"
  shows "caServerDomain (store_answer lib bc rnd exchange now qtype server domain c) = domain \<and>
    (\<forall>k. k \<noteq> ToLower (dnFqdn lib domain) @ dnTypeName lib qtype \<longrightarrow>
       bcGet bc (caDirect (store_answer lib bc rnd exchange now qtype server domain c)) t k = bcGet bc (caDirect c) t k) \<and>
    server_addrs_of lib bc t (store_answer lib bc rnd exchange now qtype server domain c) qtype =
      (if stored_addrs lib exchange qtype server domain = [] \<and> store_answer lib bc rnd exchange now qtype server domain c = c
       then server_addrs_of lib bc t c qtype else stored_addrs lib exchange qtype server domain)"
proof (cases "queryMsg lib exchange qtype server domain")
  case (Inl e)
  then show ?thesis using assms by (simp add: store_answer_def stored_addrs_def)
next
  case (Inr msg)
  show ?thesis
  proof (cases "msgHasRecord msg qtype")
    case True
    have "server_answer lib domain qtype msg" using queryMsg_answer [OF Inr] assms(2) by (auto simp: resolver_sane_def)
    then obtain v d where v: "packs lib msg v" "store_both lib bc rnd now msg c =
        c\<lparr>caDirect := snd (bcSet bc (caDirect c) now (ToLower (dnFqdn lib domain) @ dnTypeName lib qtype) v 0), caProxied := d\<rparr>"
      using store_both_direct [OF assms(1) _ True _ assms(3-6)] queryMsg_answer [OF Inr] by blast
    then have st: "store_answer lib bc rnd exchange now qtype server domain c =
        c\<lparr>caDirect := snd (bcSet bc (caDirect c) now (ToLower (dnFqdn lib domain) @ dnTypeName lib qtype) v 0), caProxied := d\<rparr>"
        "stored_addrs lib exchange qtype server domain = answerAddrs msg"
      using Inr True by (simp_all add: store_answer_def stored_addrs_def)
    have "server_addrs_of lib bc t (store_answer lib bc rnd exchange now qtype server domain c) qtype = answerAddrs msg"
      using v(1) cache_faithfulD(1) [OF assms(1), of 0] by (simp add: server_addrs_of_def st assms(5) packs_def)
    moreover have "store_answer lib bc rnd exchange now qtype server domain c = c \<Longrightarrow> server_addrs_of lib bc t c qtype = answerAddrs msg"
      using calculation by simp
    ultimately show ?thesis
      using st assms(5) cache_faithfulD(3) [OF assms(1)] by auto
  qed (use Inr assms in \<open>simp add: store_answer_def stored_addrs_def\<close>)
qed

text \<open>
  The addresses of the proxy server are pinned. When resolving the server's own name before the
  start has succeeded on fresh caches, the client's dialer gets exactly the addresses that were found,
  the IPv4 ones first, at every later time: they never expire.
\<close>

theorem server_addresses_pinned:
  assumes "cache_faithful bc" "resolver_sane lib exchange domain" "domain \<noteq> []" "dnFqdn lib domain = domain @ ''.''"
    and "dnTypeName lib TypeA = ''A''" "dnTypeName lib TypeAAAA = ''AAAA''"
    and "caServerDomain c = domain" "\<And>t k. bcGet bc (caDirect c) t k = None"
    and "PrePopulate lib bc rnd exchange now domain server requireIPv4 c = (Inr addrs, c')"
  shows "ServerAddrs lib bc t c' = addrs"
proof -
  define c1 where "c1 = store_answer lib bc rnd exchange now TypeA server domain c"
  have r: "addrs = stored_addrs lib exchange TypeA server domain @ stored_addrs lib exchange TypeAAAA server domain"
      "c' = store_answer lib bc rnd exchange now TypeAAAA server domain c1"
    using PrePopulate_result [OF assms(9)] by (simp_all add: c1_def)
  note s1 = store_answer_gets [OF assms(1-4,7), of TypeA rnd now server t, folded c1_def]
  have d1: "caServerDomain c1 = domain" using s1 by simp
  note s2 = store_answer_gets [OF assms(1-4) d1, of TypeAAAA rnd now server t, folded r(2)]
  have keys: "ToLower (dnFqdn lib domain) @ dnTypeName lib TypeA \<noteq> ToLower (dnFqdn lib domain) @ dnTypeName lib TypeAAAA"
    using assms(5,6) by (auto simp del: TypeA_def TypeAAAA_def)
  have none: "server_addrs_of lib bc t c q = []" for q using assms(8) by (simp add: server_addrs_of_def)
  have a: "server_addrs_of lib bc t c1 TypeA = stored_addrs lib exchange TypeA server domain" using s1 none by auto
  have "server_addrs_of lib bc t c1 TypeAAAA = []"
    using s1 keys assms(7,8) d1 by (simp add: server_addrs_of_def del: TypeA_def TypeAAAA_def)
  then have "server_addrs_of lib bc t c' TypeAAAA = stored_addrs lib exchange TypeAAAA server domain" using s2 by auto
  moreover have "server_addrs_of lib bc t c' TypeA = stored_addrs lib exchange TypeA server domain"
    using s2 keys a d1 by (simp add: server_addrs_of_def del: TypeA_def TypeAAAA_def)
  ultimately show ?thesis using s2 assms(3) r(1) by (simp add: ServerAddrs_def)
qed

section \<open>An example\<close>

text \<open>A cache that is a list of entries, and a library that can pack two messages.\<close>

definition list_bytes :: "(string \<times> bytes \<times> int option) list byte_cache" where
  "list_bytes =
     \<lparr>bcGet = (\<lambda>c now k. case map_of c k of None \<Rightarrow> None
        | Some (v, x) \<Rightarrow> (case x of None \<Rightarrow> Some v | Some x \<Rightarrow> if now < x then Some v else None)),
      bcSet = (\<lambda>c now k v ttl. (None, (k, v, if ttl = 0 then None else Some (now + int ttl)) # c))\<rparr>"

lemma list_bytes_faithful: "cache_faithful list_bytes"
  by (auto simp: cache_faithful_def list_bytes_def)

definition demo_dns :: dns_lib where
  "demo_dns = \<lparr>dnUnpack = (\<lambda>b. if b = [1] then Some demo_answer else None),
     dnPack = (\<lambda>m. if m = demo_answer then Inr [1] else Inl (Msg ''pack'')),
     dnTypeName = (\<lambda>t. if t = 1 then ''A'' else ''AAAA''), dnFqdn = (\<lambda>s. s @ ''.''),
     dnSetReply = (\<lambda>m r. m\<lparr>mId := mId r, mResponse := True, mRcode := 0, mQuestion := take 1 (mQuestion r)\<rparr>),
     dnSetRcode = (\<lambda>m r c. m\<lparr>mId := mId r, mResponse := True, mRcode := c, mQuestion := take 1 (mQuestion r)\<rparr>)\<rparr>"

definition empty_cache :: "(string \<times> bytes \<times> int option) list Cache" where
  "empty_cache = \<lparr>caProxied = [], caDirect = [], caServerDomain = ''Example.COM''\<rparr>"

lemma demo_packs: "packs demo_dns demo_answer [1]"
  by (simp add: packs_def demo_dns_def)

theorem cached_answer_served_witness:
  "\<exists>c' ttl. Cache_Set demo_dns list_bytes (\<lambda>_. 0) 0 demo_answer True (empty_cache\<lparr>caServerDomain := ''proxy.net''\<rparr>) = (None, c') \<and>
     cacheTTL (\<lambda>_. 0) demo_answer ''proxy.net'' = Some ttl \<and>
     (0 < ttl \<longrightarrow> fst (Cache_Get demo_dns list_bytes (int ttl - 1) ''EXAMPLE.com.'' ''A'' True c' init_stats) = Some demo_answer) \<and>
     fst (Cache_Get demo_dns list_bytes 0 ''EXAMPLE.com.'' ''A'' False c' init_stats) = None"
proof -
  let ?c = "empty_cache\<lparr>caServerDomain := ''proxy.net''\<rparr>" and ?q = "\<lparr>qName = ''Example.COM.'', qType = 1\<rparr>"
  obtain ttl where t: "cacheTTL (\<lambda>_. 0) demo_answer (caServerDomain ?c) = Some ttl"
    by (simp add: cacheTTL_def demo_answer_def hasAnswerType_def)
  obtain e c' where s: "Cache_Set demo_dns list_bytes (\<lambda>_. 0) 0 demo_answer True ?c = (e, c')" by fastforce
  have q: "mQuestion demo_answer = ?q # []" by (simp add: demo_answer_def)
  have low: "ToLower ''EXAMPLE.com.'' = ToLower (qName ?q)" by code_simp
  have ty: "qType ?q = TypeA \<or> qType ?q = TypeAAAA" by simp
  note served = cached_answer_served [OF list_bytes_faithful demo_packs q ty t s low, where g = init_stats]
  have "dnTypeName demo_dns (qType ?q) = ''A''" by (simp add: demo_dns_def)
  moreover have "fst (Cache_Get demo_dns list_bytes 0 ''EXAMPLE.com.'' ''A'' False ?c init_stats) = None"
    by (simp add: Cache_Get_def list_bytes_def empty_cache_def)
  ultimately show ?thesis
    using served [of "int ttl - 1" "''EXAMPLE.com.''" "''A''"] served [of 0 "''EXAMPLE.com.''" "''A''"] s t by auto
qed

definition demo_exchange :: "nat \<Rightarrow> string \<Rightarrow> string \<Rightarrow> dns_Msg result" where
  "demo_exchange qtype server name = (if qtype = 1 \<and> name = ''Example.COM.'' then Inr demo_answer else Inl (Msg ''timeout''))"

lemma demo_sane: "resolver_sane demo_dns demo_exchange ''Example.COM''"
proof -
  have n: "snd (NormalizeEDNS0Answer demo_answer) = demo_answer"
    by (rule arg_cong [where f = snd, OF normalize_id, simplified]) (simp add: no_opt_def demo_answer_def)
  have "server_answer demo_dns ''Example.COM'' 1 demo_answer"
    using demo_packs by (auto simp: server_answer_def demo_dns_def) (simp_all add: demo_answer_def)
  then show ?thesis using n by (auto simp: resolver_sane_def demo_exchange_def split: if_splits)
qed

theorem server_addresses_pinned_witness:
  "\<exists>c'. PrePopulate demo_dns list_bytes (\<lambda>_. 0) demo_exchange 0 ''Example.COM'' ''223.5.5.5:53'' True empty_cache = (Inr [''93.184.216.34''], c') \<and>
     ServerAddrs demo_dns list_bytes 1000000000 c' = [''93.184.216.34'']"
proof -
  obtain r c' where p: "PrePopulate demo_dns list_bytes (\<lambda>_. 0) demo_exchange 0 ''Example.COM'' ''223.5.5.5:53'' True empty_cache = (r, c')" by fastforce
  have "fst (PrePopulate demo_dns list_bytes (\<lambda>_. 0) demo_exchange 0 ''Example.COM'' ''223.5.5.5:53'' True empty_cache) = Inr [''93.184.216.34'']"
    by code_simp
  then have r: "r = Inr [''93.184.216.34'']" using p by simp
  have "ServerAddrs demo_dns list_bytes 1000000000 c' = [''93.184.216.34'']"
    by (rule server_addresses_pinned [OF list_bytes_faithful demo_sane _ _ _ _ _ _ p [unfolded r]])
      (simp_all add: demo_dns_def empty_cache_def list_bytes_def)
  then show ?thesis using p r by blast
qed

end
