(* ===== verification/DnsResolve.thy ===== *)
theory DnsResolve
  imports DnsCache
begin

text \<open>
  \<open>client/dns\<close>, the choice of a resolver: the breaker over the built-in servers (\<open>builtin.go\<close>), the system's
  servers and their cache (\<open>system.go\<close>), the servers known to answer (\<open>preferred.go\<close>), resolving the server's
  name at the start (\<open>cache.go\<close>), and the forwarding server (\<open>forward.go\<close>). Times are nanoseconds; what
  the network answers is a parameter.
\<close>

section \<open>The breaker\<close>

record builtin_state =
  bdDown :: bool
  bdDownAt :: int

definition builtinDNSCoolDown :: int where
  "builtinDNSCoolDown = 3 * 60 * 1000000000"

definition BuiltinDNSAvailable :: "int \<Rightarrow> builtin_state \<Rightarrow> bool" where
  "BuiltinDNSAvailable now b = (if \<not> bdDown b then True else now - bdDownAt b \<ge> builtinDNSCoolDown)"

definition MarkBuiltinDNSUnavailable :: "int \<Rightarrow> builtin_state \<Rightarrow> builtin_state" where
  "MarkBuiltinDNSUnavailable now b = b\<lparr>bdDown := True, bdDownAt := now\<rparr>"

definition MarkBuiltinDNSAvailable :: "builtin_state \<Rightarrow> builtin_state" where
  "MarkBuiltinDNSAvailable b = b\<lparr>bdDown := False\<rparr>"

datatype BuiltinRoute = BuiltinRouteFirst | BuiltinRouteSkip | BuiltinRouteRetry

text \<open>
  The list of the system's servers is asked for when it is first needed, and once: \<open>loadSystem\<close> with
  what it has already loaded.
\<close>

type_synonym 'n lazy_list = "string list option \<times> 'n"

definition loadSystem :: "('n \<Rightarrow> string list \<times> 'n) \<Rightarrow> 'n lazy_list \<Rightarrow> string list \<times> 'n lazy_list" where
  "loadSystem system l =
     (case l of
        (Some xs, n) \<Rightarrow> (xs, l)
      | (None, n) \<Rightarrow> (case system n of (xs, n) \<Rightarrow> (xs, Some xs, n)))"

definition BuiltinRouteFor ::
  "('n \<Rightarrow> string list \<times> 'n) \<Rightarrow> int \<Rightarrow> builtin_state \<Rightarrow> 'n lazy_list \<Rightarrow> BuiltinRoute \<times> 'n lazy_list" where
  "BuiltinRouteFor system now b l =
     (if BuiltinDNSAvailable now b then (BuiltinRouteFirst, l)
      else case loadSystem system l of
             (xs, l) \<Rightarrow> (if xs \<noteq> [] then BuiltinRouteSkip else BuiltinRouteRetry, l))"

record 'n resolving =
  rvNow :: "'n \<Rightarrow> int"
  rvSystem :: "'n \<Rightarrow> string list \<times> 'n"
  rvInvalidate :: "'n \<Rightarrow> 'n"
  rvTry :: "string list \<Rightarrow> 'n \<Rightarrow> dns_Msg result \<times> 'n"

definition trySystem :: "'n resolving \<Rightarrow> string list \<Rightarrow> 'n \<Rightarrow> dns_Msg result \<times> 'n" where
  "trySystem rv upstreams n =
     (case rvTry rv upstreams n of
        (Inl err, n) \<Rightarrow> (Inl err, rvInvalidate rv n)
      | (Inr reply, n) \<Rightarrow> (Inr reply, n))"

definition QueryWithBuiltinFirst ::
  "'n resolving \<Rightarrow> string list \<Rightarrow> builtin_state \<Rightarrow> 'n \<Rightarrow> dns_Msg result \<times> builtin_state \<times> 'n" where
  "QueryWithBuiltinFirst rv builtin b n =
     (if builtin = [] then
        (case loadSystem (rvSystem rv) (None, n) of (xs, _, n) \<Rightarrow>
          (case trySystem rv xs n of (r, n) \<Rightarrow> (r, b, n)))
      else
        (case BuiltinRouteFor (rvSystem rv) (rvNow rv n) b (None, n) of
           (BuiltinRouteSkip, l) \<Rightarrow>
             (case loadSystem (rvSystem rv) l of (xs, _, n) \<Rightarrow>
               (case trySystem rv xs n of (r, n) \<Rightarrow> (r, b, n)))
         | (_, memo, n) \<Rightarrow>
             (case rvTry rv builtin n of
                (Inr reply, n) \<Rightarrow> (Inr reply, MarkBuiltinDNSAvailable b, n)
              | (Inl err, n) \<Rightarrow>
                  (case loadSystem (rvSystem rv) (memo, n) of (fallback, _, n) \<Rightarrow>
                    (let b = (if fallback \<noteq> [] then MarkBuiltinDNSUnavailable (rvNow rv n) b else b)
                     in case trySystem rv fallback n of (r, n) \<Rightarrow> (r, b, n))))))"

section \<open>The system's servers\<close>

definition systemDNSCacheTTL :: int where
  "systemDNSCacheTTL = 5 * 60 * 1000000000"

definition systemDNSRediscoverInterval :: int where
  "systemDNSRediscoverInterval = 5 * 1000000000"

text \<open>A zero time is \<open>None\<close>; it lies further back than any interval.\<close>

record systemDNS =
  sdCached :: "string list"
  sdAt :: "int option"
  sdInvalidatedAt :: "int option"

definition since_less :: "int \<Rightarrow> int option \<Rightarrow> int \<Rightarrow> bool" where
  "since_less now t d = (case t of None \<Rightarrow> False | Some t \<Rightarrow> now - t < d)"

text \<open>\<open>Servers\<close>; \<open>discovered\<close> is what \<open>discover\<close> returns, its error apart, and \<open>later\<close> the clock after it.\<close>

definition Servers :: "int \<Rightarrow> string list \<Rightarrow> int \<Rightarrow> systemDNS \<Rightarrow> string list \<times> systemDNS" where
  "Servers now discovered later s =
     (if since_less now (sdAt s) systemDNSCacheTTL then (sdCached s, s)
      else let addrs = map (\<lambda>server. JoinHostPort server ''53'') (filter (\<lambda>server. server \<noteq> []) discovered)
           in (addrs, s\<lparr>sdCached := addrs, sdAt := Some later\<rparr>))"

definition systemDNS_reset :: "systemDNS \<Rightarrow> systemDNS" where
  "systemDNS_reset s = s\<lparr>sdCached := [], sdAt := None, sdInvalidatedAt := None\<rparr>"

definition systemDNS_Invalidate :: "int \<Rightarrow> systemDNS \<Rightarrow> systemDNS" where
  "systemDNS_Invalidate now s =
     (if since_less now (sdInvalidatedAt s) systemDNSRediscoverInterval then s
      else s\<lparr>sdCached := [], sdAt := None, sdInvalidatedAt := Some now\<rparr>)"

definition ResolveItemTimeout :: int where
  "ResolveItemTimeout = 2 * 1000000000"

definition PreResolveTimeout :: int where
  "PreResolveTimeout = 14 * 1000000000"

text \<open>\<open>WithSystemDNSFallbackReserve\<close>, on the deadline of the context.\<close>

definition WithSystemDNSFallbackReserve :: "int \<Rightarrow> int option \<Rightarrow> int option" where
  "WithSystemDNSFallbackReserve now deadline =
     (case deadline of
        None \<Rightarrow> None
      | Some d \<Rightarrow>
          (let builtinDeadline = d - ResolveItemTimeout
           in if \<not> now < builtinDeadline then Some d else Some builtinDeadline))"

section \<open>Servers known to answer\<close>

definition DirectDNSServers :: "string list" where
  "DirectDNSServers = [''223.5.5.5:53'', ''119.29.29.29:53'', ''114.114.114.114:53'', ''123.123.123.123:53'',
     ''[2400:3200::1]:53'', ''[2400:3200:baba::1]:53'']"

definition DefaultSystemDNS :: string where
  "DefaultSystemDNS = ''223.5.5.5''"

record reachable_dns =
  rdBuiltin :: "string list"
  rdSystem :: "string list"

definition MarkBuiltinServerReachable :: "string \<Rightarrow> reachable_dns \<Rightarrow> reachable_dns" where
  "MarkBuiltinServerReachable server rd =
     (if server \<notin> set DirectDNSServers then rd
      else if server \<notin> set (rdBuiltin rd) then rd\<lparr>rdBuiltin := rdBuiltin rd @ [server]\<rparr> else rd)"

definition MarkSystemServerReachable :: "string \<Rightarrow> reachable_dns \<Rightarrow> reachable_dns" where
  "MarkSystemServerReachable server rd =
     (if server \<notin> set (rdSystem rd) then rd\<lparr>rdSystem := rdSystem rd @ [server]\<rparr> else rd)"

definition clearReachableDNSServers :: "reachable_dns \<Rightarrow> reachable_dns" where
  "clearReachableDNSServers rd = rd\<lparr>rdBuiltin := [], rdSystem := []\<rparr>"

definition IsLoopback :: "bytes \<Rightarrow> bool" where
  "IsLoopback ip = (case To4 ip of Some v \<Rightarrow> v ! 0 = 127 | None \<Rightarrow> ip = replicate 15 0 @ [1])"

definition IsUnspecified :: "bytes \<Rightarrow> bool" where
  "IsUnspecified ip = (case To4 ip of Some v \<Rightarrow> v = [0, 0, 0, 0] | None \<Rightarrow> ip = replicate 16 0)"

definition IsMulticast :: "bytes \<Rightarrow> bool" where
  "IsMulticast ip = (case To4 ip of Some v \<Rightarrow> v ! 0 AND 0xF0 = 0xE0 | None \<Rightarrow> length ip = 16 \<and> ip ! 0 = 0xFF)"

definition ipv4Host :: "string \<Rightarrow> string" where
  "ipv4Host addr =
     (let host = (case SplitHostPort addr of None \<Rightarrow> addr | Some (h, _) \<Rightarrow> h)
      in case ParseIP host of
           None \<Rightarrow> []
         | Some ip \<Rightarrow> (if To4 ip = None then [] else host))"

definition systemDNSHost :: "string \<Rightarrow> string" where
  "systemDNSHost addr =
     (let host = ipv4Host addr
      in if host = [] then []
         else case ParseIP host of
                None \<Rightarrow> []
              | Some ip \<Rightarrow> (if IsLoopback ip \<or> IsUnspecified ip \<or> IsMulticast ip then [] else host))"

definition PreferredSystemDNS :: "reachable_dns \<Rightarrow> string" where
  "PreferredSystemDNS rd =
     (case filter (\<lambda>h. h \<noteq> []) (map ipv4Host (rdBuiltin rd)) of
        h # _ \<Rightarrow> h
      | [] \<Rightarrow>
          (case filter (\<lambda>h. h \<noteq> []) (map systemDNSHost (rdSystem rd)) of
             h # _ \<Rightarrow> h
           | [] \<Rightarrow> DefaultSystemDNS))"

text \<open>\<open>isSelfUpstreamAddr\<close>; \<open>local\<close> says whether an address is one of the machine's own on that port.\<close>

definition isSelfUpstreamAddr :: "(string \<Rightarrow> bool) \<Rightarrow> string \<Rightarrow> string \<Rightarrow> bool" where
  "isSelfUpstreamAddr local addr listenAddr =
     (let (host, port) = (case SplitHostPort addr of None \<Rightarrow> (addr, ''53'') | Some hp \<Rightarrow> hp)
      in case ParseIP host of
           None \<Rightarrow> False
         | Some ip \<Rightarrow>
             (let listenPort = (case SplitHostPort listenAddr of None \<Rightarrow> ''53'' | Some (_, p) \<Rightarrow> p)
              in if port \<noteq> listenPort then False
                 else if IsLoopback ip \<or> IsUnspecified ip \<or> IsMulticast ip then True
                 else local (JoinHostPort (IP_String ip) port)))"

definition ResetResolveState :: "builtin_state \<times> reachable_dns \<times> systemDNS \<Rightarrow> builtin_state \<times> reachable_dns \<times> systemDNS" where
  "ResetResolveState st =
     (case st of (b, rd, s) \<Rightarrow> (b\<lparr>bdDown := False, bdDownAt := 0\<rparr>, clearReachableDNSServers rd, systemDNS_reset s))"

section \<open>The forwarding server\<close>

definition strings_Contains :: "string \<Rightarrow> string \<Rightarrow> bool" where
  "strings_Contains s sub \<longleftrightarrow> contains_text sub s"

record ForwardServer =
  fwListenAddr :: string
  fwServers :: "string list"
  fwDisableIPV6 :: bool

definition NewForwardServer :: "string \<Rightarrow> bool \<Rightarrow> ForwardServer" where
  "NewForwardServer listenAddr disableIPV6 =
     (let filtered = filter (\<lambda>s. \<not> strings_Contains s '']:'') DirectDNSServers
      in \<lparr>fwListenAddr = listenAddr,
          fwServers = (if disableIPV6 \<and> filtered \<noteq> [] then filtered else DirectDNSServers),
          fwDisableIPV6 = disableIPV6\<rparr>)"

definition systemDNSServers :: "(string \<Rightarrow> bool) \<Rightarrow> ForwardServer \<Rightarrow> string list \<Rightarrow> string list" where
  "systemDNSServers local fw servers =
     filter (\<lambda>srv. \<not> (fwDisableIPV6 fw \<and> strings_Contains srv '']:'') \<and> \<not> isSelfUpstreamAddr local srv (fwListenAddr fw)) servers"

text \<open>
  The loop of \<open>exchangeWithServers\<close> over what arrives from the servers it asked: \<open>None\<close> is the end of the
  time, an answer may be missing (\<open>nil\<close>).
\<close>

fun collect_replies ::
  "dns_Msg option result option list \<Rightarrow> go_error option \<Rightarrow> dns_Msg option \<Rightarrow> dns_Msg result" where
  "collect_replies [] lastErr negative =
     (case negative of
        Some m \<Rightarrow> Inr m
      | None \<Rightarrow> Inl (case lastErr of Some e \<Rightarrow> e | None \<Rightarrow> Msg ''no dns server available''))"
| "collect_replies (None # rs) lastErr negative =
     (case negative of Some m \<Rightarrow> Inr m | None \<Rightarrow> Inl (Sentinel ''context deadline exceeded''))"
| "collect_replies (Some (Inl e) # rs) lastErr negative = collect_replies rs (Some e) negative"
| "collect_replies (Some (Inr None) # rs) lastErr negative = collect_replies rs (Some (Msg ''dns: empty reply'')) negative"
| "collect_replies (Some (Inr (Some m)) # rs) lastErr negative =
     (if mRcode m = RcodeSuccess then Inr (snd (NormalizeEDNS0Answer m))
      else if mRcode m = RcodeNameError
      then collect_replies rs lastErr
             (case negative of None \<Rightarrow> Some (snd (NormalizeEDNS0Answer m)) | Some n \<Rightarrow> Some n)
      else collect_replies rs (Some (Msg ''dns: server returned an error'')) negative)"

definition exchangeWithServers :: "string list \<Rightarrow> dns_Msg option result option list \<Rightarrow> dns_Msg result" where
  "exchangeWithServers servers replies =
     (if servers = [] then Inl (Msg ''no dns server available'')
      else collect_replies (take (length servers) replies) None None)"

definition RcodeRefused :: nat where [simp]: "RcodeRefused = 5"

definition empty_msg :: dns_Msg where
  "empty_msg = \<lparr>mId = 0, mResponse = False, mTruncated = False, mRcode = 0, mQuestion = [], mAnswer = [], mNs = [], mExtra = []\<rparr>"

text \<open>\<open>handleDNS\<close>: the message it writes, if any. \<open>forward\<close> is \<open>forwardQuery\<close>.\<close>

definition forward_handleDNS ::
  "dns_lib \<Rightarrow> (dns_Msg \<Rightarrow> 'n \<Rightarrow> dns_Msg result \<times> 'n) \<Rightarrow> bool \<Rightarrow> dns_Msg \<Rightarrow> 'n \<Rightarrow> dns_Msg option \<times> 'n" where
  "forward_handleDNS lib forward tunActive r n =
     (if mQuestion r = [] then (None, n)
      else if \<not> tunActive then (Some (dnSetRcode lib empty_msg r RcodeRefused), n)
      else case forward r n of
             (Inl _, n) \<Rightarrow> (Some (dnSetRcode lib empty_msg r RcodeServerFailure), n)
           | (Inr reply, n) \<Rightarrow> (Some ((dnSetReply lib reply r)\<lparr>mRcode := mRcode reply\<rparr>), n))"

end
