(* ===== verification/DnsFallback.thy ===== *)
theory DnsFallback
  imports DnsResolve
begin

text \<open>
  Falling back to other resolvers: \<open>PrePopulateWithFallback\<close> (\<open>client/dns/cache.go\<close>) with its budget of
  time, and what the breaker and the forwarding server guarantee.
\<close>

section \<open>Resolving before the start\<close>

text \<open>
  The network during the resolution: what an item's two queries answer under its deadline, and the
  state after them.
\<close>

record 'n pre_net =
  pnNow :: "'n \<Rightarrow> int"
  pnCancelled :: "'n \<Rightarrow> bool"
  pnExchange :: "int option \<Rightarrow> 'n \<Rightarrow> nat \<Rightarrow> string \<Rightarrow> string \<Rightarrow> dns_Msg result"
  pnAfter :: "int option \<Rightarrow> string \<Rightarrow> 'n \<Rightarrow> 'n"
  pnSystem :: "'n \<Rightarrow> string list \<times> 'n"

record 'c pre_state =
  psCache :: "'c Cache"
  psBuiltin :: builtin_state
  psReach :: reachable_dns
  psErrs :: "go_error list"

record 'c pre_libs =
  plDNS :: dns_lib
  plCache :: "'c byte_cache"
  plRnd :: "nat \<Rightarrow> nat"

definition ctx_Err :: "'n pre_net \<Rightarrow> int option \<Rightarrow> 'n \<Rightarrow> bool" where
  "ctx_Err pn deadline n \<longleftrightarrow> pnCancelled pn n \<or> (case deadline of None \<Rightarrow> False | Some d \<Rightarrow> d \<le> pnNow pn n)"

definition item_deadline :: "'n pre_net \<Rightarrow> int option \<Rightarrow> 'n \<Rightarrow> int option" where
  "item_deadline pn deadline n =
     Some (case deadline of None \<Rightarrow> pnNow pn n + ResolveItemTimeout | Some d \<Rightarrow> min d (pnNow pn n + ResolveItemTimeout))"

definition try_server ::
  "'c pre_libs \<Rightarrow> 'n pre_net \<Rightarrow> string \<Rightarrow> bool \<Rightarrow> (string \<Rightarrow> reachable_dns \<Rightarrow> reachable_dns) \<Rightarrow> int option \<Rightarrow> string \<Rightarrow>
     'c pre_state \<Rightarrow> 'n \<Rightarrow> bool \<times> 'c pre_state \<times> 'n" where
  "try_server pl pn domain requireIPv4 mark deadline server ps n =
     (let d = item_deadline pn deadline n; n' = pnAfter pn d server n
      in case PrePopulate (plDNS pl) (plCache pl) (plRnd pl) (pnExchange pn d n) (pnNow pn n' div 1000000000) domain server requireIPv4 (psCache ps) of
           (Inr _, c) \<Rightarrow> (True, ps\<lparr>psCache := c, psReach := mark server (psReach ps)\<rparr>, n')
         | (Inl err, c) \<Rightarrow> (False, ps\<lparr>psCache := c, psErrs := psErrs ps @ [err]\<rparr>, n'))"

fun tryAll ::
  "'c pre_libs \<Rightarrow> 'n pre_net \<Rightarrow> string \<Rightarrow> bool \<Rightarrow> (string \<Rightarrow> reachable_dns \<Rightarrow> reachable_dns) \<Rightarrow> int option \<Rightarrow> string list \<Rightarrow>
     'c pre_state \<Rightarrow> 'n \<Rightarrow> bool \<times> 'c pre_state \<times> 'n" where
  "tryAll pl pn domain requireIPv4 mark deadline [] ps n = (False, ps, n)"
| "tryAll pl pn domain requireIPv4 mark deadline (server # servers) ps n =
     (if ctx_Err pn deadline n then (False, ps, n)
      else case try_server pl pn domain requireIPv4 mark deadline server ps n of
             (True, ps, n) \<Rightarrow> (True, ps, n)
           | (False, ps, n) \<Rightarrow> tryAll pl pn domain requireIPv4 mark deadline servers ps n)"

definition pre_error :: "string \<Rightarrow> 'c pre_state \<Rightarrow> go_error" where
  "pre_error domain ps =
     (if psErrs ps = [] then Msg (''no dns server available for '' @ domain) else Wrap [] (psErrs ps))"

definition PrePopulateWithFallback ::
  "'c pre_libs \<Rightarrow> 'n pre_net \<Rightarrow> int option \<Rightarrow> string \<Rightarrow> string list \<Rightarrow> bool \<Rightarrow> 'c pre_state \<Rightarrow> 'n \<Rightarrow>
     go_error option \<times> 'c pre_state \<times> 'n" where
  "PrePopulateWithFallback pl pn deadline domain dnsServers requireIPv4 ps n =
     (let builtinDeadline = WithSystemDNSFallbackReserve (pnNow pn n) deadline;
          ps = ps\<lparr>psErrs := []\<rparr>;
          tryBuiltin = tryAll pl pn domain requireIPv4 MarkBuiltinServerReachable builtinDeadline dnsServers;
          trySystem = tryAll pl pn domain requireIPv4 MarkSystemServerReachable deadline
      in case BuiltinRouteFor (pnSystem pn) (pnNow pn n) (psBuiltin ps) (None, n) of
           (BuiltinRouteSkip, l) \<Rightarrow>
             (case loadSystem (pnSystem pn) l of (servers, _, n) \<Rightarrow>
               (case trySystem servers ps n of
                  (True, ps, n) \<Rightarrow> (None, ps, n)
                | (False, ps, n) \<Rightarrow> (Some (pre_error domain ps), ps, n)))
         | (BuiltinRouteRetry, _, n) \<Rightarrow>
             (case tryBuiltin ps n of
                (True, ps, n) \<Rightarrow> (None, ps\<lparr>psBuiltin := MarkBuiltinDNSAvailable (psBuiltin ps)\<rparr>, n)
              | (False, ps, n) \<Rightarrow> (Some (pre_error domain ps), ps, n))
         | (BuiltinRouteFirst, memo, n) \<Rightarrow>
             (case tryBuiltin ps n of
                (True, ps, n) \<Rightarrow> (None, ps\<lparr>psBuiltin := MarkBuiltinDNSAvailable (psBuiltin ps)\<rparr>, n)
              | (False, ps, n) \<Rightarrow>
                  (case loadSystem (pnSystem pn) (memo, n) of (servers, _, n) \<Rightarrow>
                    (let ps = (if servers \<noteq> [] then ps\<lparr>psBuiltin := MarkBuiltinDNSUnavailable (pnNow pn n) (psBuiltin ps)\<rparr> else ps)
                     in case trySystem servers ps n of
                          (True, ps, n) \<Rightarrow> (None, ps, n)
                        | (False, ps, n) \<Rightarrow> (Some (pre_error domain ps), ps, n)))))"

section \<open>The budget\<close>

text \<open>A clock that goes forward, items that end by their deadline, and a quick discovery of the system's servers.\<close>

definition pre_timely :: "'n pre_net \<Rightarrow> bool" where
  "pre_timely pn \<longleftrightarrow>
     (\<forall>d server n. pnNow pn n \<le> d \<longrightarrow> pnNow pn n \<le> pnNow pn (pnAfter pn (Some d) server n) \<and> pnNow pn (pnAfter pn (Some d) server n) \<le> d) \<and>
     (\<forall>n. pnNow pn n \<le> pnNow pn (snd (pnSystem pn n)) \<and> pnNow pn (snd (pnSystem pn n)) < pnNow pn n + ResolveItemTimeout) \<and>
     (\<forall>n. \<not> pnCancelled pn n)"

lemma try_server_time:
  assumes "pre_timely pn" "pnNow pn n \<le> D" "try_server pl pn domain req mark (Some D) server ps n = (ok, ps', n')"
  shows "pnNow pn n \<le> pnNow pn n' \<and> pnNow pn n' \<le> D"
proof -
  let ?d = "min D (pnNow pn n + ResolveItemTimeout)"
  have d: "item_deadline pn (Some D) n = Some ?d" by (simp add: item_deadline_def)
  have "n' = pnAfter pn (Some ?d) server n"
    using assms(3) unfolding try_server_def d by (auto simp: Let_def split: prod.splits sum.splits)
  moreover have "pnNow pn n \<le> ?d" using assms(2) by (simp add: ResolveItemTimeout_def)
  ultimately show ?thesis using assms(1) unfolding pre_timely_def by (metis min.boundedE)
qed

lemma tryAll_time:
  assumes "pre_timely pn" "pnNow pn n \<le> D" "tryAll pl pn domain req mark (Some D) servers ps n = (ok, ps', n')"
  shows "pnNow pn n \<le> pnNow pn n' \<and> pnNow pn n' \<le> D"
  using assms(2,3)
proof (induction servers arbitrary: ps n)
  case (Cons server servers)
  obtain ok1 ps1 n1 where t: "try_server pl pn domain req mark (Some D) server ps n = (ok1, ps1, n1)" using prod_cases3 by blast
  note tm = try_server_time [OF assms(1) Cons.prems(1) t]
  show ?case
  proof (cases "ctx_Err pn (Some D) n \<or> ok1")
    case True
    then show ?thesis using Cons.prems t tm by (auto split: if_splits)
  next
    case False
    then show ?thesis using Cons.IH [of n1 ps1] Cons.prems(2) t tm by fastforce
  qed
qed simp

text \<open>What a server answers, in time or not: the addresses it brings.\<close>

definition answers_always :: "'c pre_libs \<Rightarrow> 'n pre_net \<Rightarrow> string \<Rightarrow> bool \<Rightarrow> string \<Rightarrow> bool" where
  "answers_always pl pn domain requireIPv4 server \<longleftrightarrow>
     (\<forall>D n t c. pnNow pn n < D \<longrightarrow> (\<exists>addrs c'. PrePopulate (plDNS pl) (plCache pl) (plRnd pl) (pnExchange pn (Some D) n) t domain server requireIPv4 c = (Inr addrs, c')))"

lemma try_server_answers:
  assumes "answers_always pl pn domain req server" "pnNow pn n < D"
  shows "fst (try_server pl pn domain req mark (Some D) server ps n)"
proof -
  let ?d = "min D (pnNow pn n + ResolveItemTimeout)"
  have d: "item_deadline pn (Some D) n = Some ?d" by (simp add: item_deadline_def)
  have "pnNow pn n < ?d" using assms(2) by (simp add: ResolveItemTimeout_def)
  then obtain addrs c' where "PrePopulate (plDNS pl) (plCache pl) (plRnd pl) (pnExchange pn (Some ?d) n)
      (pnNow pn (pnAfter pn (Some ?d) server n) div 1000000000) domain server req (psCache ps) = (Inr addrs, c')"
    using assms(1) unfolding answers_always_def by blast
  then show ?thesis unfolding try_server_def d by (simp add: Let_def)
qed

lemma tryAll_head_answers:
  assumes "answers_always pl pn domain req server" "pnNow pn n < D" "\<not> pnCancelled pn n"
  shows "fst (tryAll pl pn domain req mark (Some D) (server # servers) ps n)"
proof -
  have "\<not> ctx_Err pn (Some D) n" using assms(2,3) by (simp add: ctx_Err_def)
  moreover obtain ps1 n1 where "try_server pl pn domain req mark (Some D) server ps n = (True, ps1, n1)"
    using try_server_answers [OF assms(1,2), of mark ps] by (cases "try_server pl pn domain req mark (Some D) server ps n") auto
  ultimately show ?thesis by simp
qed

text \<open>
  C35. Black holes among the built-in resolvers do not take the system's resolver down with them. With
  the full budget of fourteen seconds, however many built-in servers stay silent, each up to its own
  two seconds: as soon as the system's first resolver answers, resolving the server's name succeeds
  within the budget, because the built-in servers are given up two seconds before its end.
\<close>

theorem system_resolver_gets_its_turn:
  assumes "pre_timely pn" "answers_always pl pn domain req server" "\<And>n. fst (pnSystem pn n) = server # servers"
    and "PrePopulateWithFallback pl pn (Some (pnNow pn n + PreResolveTimeout)) domain dnsServers req ps n = (r, ps', n')"
  shows "r = None \<and> pnNow pn n' \<le> pnNow pn n + PreResolveTimeout"
proof -
  let ?D = "pnNow pn n + PreResolveTimeout" and ?B = "pnNow pn n + PreResolveTimeout - ResolveItemTimeout"
  have b: "WithSystemDNSFallbackReserve (pnNow pn n) (Some ?D) = Some ?B"
    by (simp add: WithSystemDNSFallbackReserve_def PreResolveTimeout_def ResolveItemTimeout_def Let_def)
  have nc: "\<not> pnCancelled pn m" for m using assms(1) by (simp add: pre_timely_def)
  have sys: "\<exists>m. pnSystem pn x = (server # servers, m) \<and> pnNow pn x \<le> pnNow pn m \<and> pnNow pn m < pnNow pn x + ResolveItemTimeout" for x
    using assms(3) [of x] assms(1) unfolding pre_timely_def by (metis prod.collapse)
  have fin: "\<exists>ps2 n2. tryAll pl pn domain req MarkSystemServerReachable (Some ?D) (server # servers) ps1 m = (True, ps2, n2) \<and> pnNow pn n2 \<le> ?D"
    if "pnNow pn m < ?D" for m ps1
    using tryAll_head_answers [OF assms(2) that nc, of MarkSystemServerReachable servers ps1]
      tryAll_time [OF assms(1), of m ?D pl domain req MarkSystemServerReachable "server # servers" ps1] that
    by (cases "tryAll pl pn domain req MarkSystemServerReachable (Some ?D) (server # servers) ps1 m") fastforce
  show ?thesis
  proof (cases "BuiltinDNSAvailable (pnNow pn n) (psBuiltin ps)")
    case False
    obtain m where m: "pnSystem pn n = (server # servers, m)" "pnNow pn m < pnNow pn n + ResolveItemTimeout" using sys by blast
    then have "pnNow pn m < ?D" by (simp add: PreResolveTimeout_def ResolveItemTimeout_def)
    from fin [OF this, of "ps\<lparr>psErrs := []\<rparr>"] show ?thesis
      using assms(4) False m(1) by (auto simp: PrePopulateWithFallback_def BuiltinRouteFor_def loadSystem_def Let_def)
  next
    case True
    obtain ok1 ps1 n1 where t: "tryAll pl pn domain req MarkBuiltinServerReachable (Some ?B) dnsServers (ps\<lparr>psErrs := []\<rparr>) n = (ok1, ps1, n1)"
      using prod_cases3 by blast
    have "pnNow pn n \<le> ?B" by (simp add: PreResolveTimeout_def ResolveItemTimeout_def)
    then have n1: "pnNow pn n1 \<le> ?B" using tryAll_time [OF assms(1) _ t] by blast
    obtain m where m: "pnSystem pn n1 = (server # servers, m)" "pnNow pn m < pnNow pn n1 + ResolveItemTimeout" using sys by blast
    have "pnNow pn m < ?D" using m(2) n1 by simp
    from fin [OF this, of "ps1\<lparr>psBuiltin := MarkBuiltinDNSUnavailable (pnNow pn m) (psBuiltin ps1)\<rparr>"] show ?thesis
      using assms(4) True m(1) t n1 b
      by (cases ok1) (auto simp: PrePopulateWithFallback_def BuiltinRouteFor_def loadSystem_def Let_def ResolveItemTimeout_def)
  qed
qed

section \<open>The breaker and the forwarding server\<close>

text \<open>
  The breaker never cuts off the last resolver. Whatever state it is in, a query is answered as soon
  as the system's resolvers answer, and, when the system has none, as soon as the built-in ones do: an
  armed breaker skips them only when there is something else to ask, and it is armed only then.
\<close>

theorem breaker_never_isolates:
  assumes "\<And>m. fst (rvSystem rv m) = xs"
    and "xs \<noteq> [] \<and> (\<forall>m. \<exists>r. fst (rvTry rv xs m) = Inr r) \<or> xs = [] \<and> builtin \<noteq> [] \<and> (\<forall>m. \<exists>r. fst (rvTry rv builtin m) = Inr r)"
    and "QueryWithBuiltinFirst rv builtin b n = (res, b', n')"
  shows "(\<exists>r. res = Inr r) \<and> (bdDown b' \<longrightarrow> bdDown b \<or> xs \<noteq> [])"
proof -
  have ld: "\<exists>n2. loadSystem (rvSystem rv) (None, m) = (xs, Some xs, n2)" for m
    using assms(1) [of m] by (auto simp: loadSystem_def split: prod.splits)
  have ts: "\<exists>r n2. trySystem rv xs m = (Inr r, n2)" if ne: "xs \<noteq> []" for m
  proof -
    obtain r where "fst (rvTry rv xs m) = Inr r" using assms(2) ne by blast
    then have "rvTry rv xs m = (Inr r, snd (rvTry rv xs m))" by (metis prod.collapse)
    then show ?thesis by (cases "rvTry rv xs m") (auto simp: trySystem_def)
  qed
  have tb: "\<exists>r n2. rvTry rv builtin m = (Inr r, n2)" if "xs = []" for m
    using assms(2) that by (metis prod.collapse)
  obtain n2 where l: "loadSystem (rvSystem rv) (None, n) = (xs, Some xs, n2)" using ld by blast
  show ?thesis
  proof (cases "xs = []")
    case True
    then have bu: "builtin \<noteq> []" using assms(2) by blast
    obtain r1 m1 r2 m2 where "rvTry rv builtin n = (Inr r1, m1)" "rvTry rv builtin n2 = (Inr r2, m2)" using tb [OF True] by meson
    then show ?thesis using assms(3) bu l True
      by (auto simp: QueryWithBuiltinFirst_def BuiltinRouteFor_def MarkBuiltinDNSAvailable_def split: if_splits)
  next
    case False
    obtain r1 m1 where t1: "trySystem rv xs n2 = (Inr r1, m1)" using ts [OF False] by blast
    obtain r0 m0 where t0: "rvTry rv builtin n = (r0, m0)" by fastforce
    obtain m2 where l2: "loadSystem (rvSystem rv) (None, m0) = (xs, Some xs, m2)" using ld by blast
    obtain r3 m3 where t3: "trySystem rv xs m2 = (Inr r3, m3)" using ts [OF False] by blast
    have "loadSystem (rvSystem rv) (Some xs, n2) = (xs, Some xs, n2)" by (simp add: loadSystem_def)
    then show ?thesis using assms(3) l l2 t0 t1 t3 False
      by (cases r0) (auto simp: QueryWithBuiltinFirst_def BuiltinRouteFor_def split: if_splits)
  qed
qed

definition in_time :: "dns_Msg option result option list \<Rightarrow> dns_Msg list" where
  "in_time replies = concat (map (\<lambda>r. case r of Some (Inr (Some m)) \<Rightarrow> [m] | _ \<Rightarrow> []) (takeWhile (\<lambda>r. r \<noteq> None) replies))"

lemma in_time_simps [simp]:
  "in_time [] = []" "in_time (None # rs) = []" "in_time (Some (Inl e) # rs) = in_time rs"
  "in_time (Some (Inr None) # rs) = in_time rs" "in_time (Some (Inr (Some m)) # rs) = m # in_time rs"
  by (simp_all add: in_time_def)

lemma collect_replies_result:
  "collect_replies rs lastErr negative =
     (case filter (\<lambda>m. mRcode m = RcodeSuccess) (in_time rs) of
        m # _ \<Rightarrow> Inr (snd (NormalizeEDNS0Answer m))
      | [] \<Rightarrow>
          (case (case negative of Some n \<Rightarrow> [n] | None \<Rightarrow> []) @
             map (snd \<circ> NormalizeEDNS0Answer) (filter (\<lambda>m. mRcode m = RcodeNameError) (in_time rs)) of
             n # _ \<Rightarrow> Inr n
           | [] \<Rightarrow> collect_replies rs lastErr None))"
  by (induction rs lastErr negative rule: collect_replies.induct) (auto split: list.splits option.splits)

lemma collect_replies_error:
  "(\<And>m. m \<in> set (in_time rs) \<Longrightarrow> mRcode m \<noteq> RcodeSuccess \<and> mRcode m \<noteq> RcodeNameError) \<Longrightarrow> \<exists>e. collect_replies rs lastErr None = Inl e"
  by (induction rs lastErr "None :: dns_Msg option" rule: collect_replies.induct) auto

text \<open>
  A positive answer wins. Of the answers that arrive in time from the servers that were asked
  together, the first success is returned even if a denial came before it; a denial is returned only when
  no success came, and the first of them; there is an error only when neither came.
\<close>

theorem positive_answer_wins:
  assumes "servers \<noteq> []"
  shows "exchangeWithServers servers replies =
     (let ms = in_time (take (length servers) replies)
      in case filter (\<lambda>m. mRcode m = RcodeSuccess) ms of
           m # _ \<Rightarrow> Inr (snd (NormalizeEDNS0Answer m))
         | [] \<Rightarrow>
             (case filter (\<lambda>m. mRcode m = RcodeNameError) ms of
                m # _ \<Rightarrow> Inr (snd (NormalizeEDNS0Answer m))
              | [] \<Rightarrow> Inl (projl (exchangeWithServers servers replies))))"
proof -
  let ?rs = "take (length servers) replies"
  have e: "exchangeWithServers servers replies = collect_replies ?rs None None" using assms by (simp add: exchangeWithServers_def)
  show ?thesis
  proof (cases "filter (\<lambda>m. mRcode m = RcodeSuccess) (in_time ?rs) = [] \<and> filter (\<lambda>m. mRcode m = RcodeNameError) (in_time ?rs) = []")
    case True
    then have "\<exists>e. collect_replies ?rs None None = Inl e" by (intro collect_replies_error) (auto simp: filter_empty_conv)
    then show ?thesis using e True by (auto simp: Let_def)
  next
    case False
    then show ?thesis unfolding e by (subst collect_replies_result) (auto simp: Let_def split: list.splits)
  qed
qed

text \<open>
  Without the TUN device the forwarding server resolves nothing: it refuses, and no upstream sees the query.
\<close>

lemma no_query_leaks_without_tun:
  "mQuestion r \<noteq> [] \<Longrightarrow> forward_handleDNS lib forward False r n = (Some (dnSetRcode lib empty_msg r RcodeRefused), n)"
  by (simp add: forward_handleDNS_def)

section \<open>The resolver written into the system's configuration\<close>

definition reach_ok :: "reachable_dns \<Rightarrow> bool" where
  "reach_ok rd \<longleftrightarrow> set (rdBuiltin rd) \<subseteq> set DirectDNSServers"

lemma reach_ok_marks [simp]:
  "reach_ok rd \<Longrightarrow> reach_ok (MarkBuiltinServerReachable s rd)" "reach_ok rd \<Longrightarrow> reach_ok (MarkSystemServerReachable s rd)"
  "reach_ok (clearReachableDNSServers rd)"
  by (auto simp: reach_ok_def MarkBuiltinServerReachable_def MarkSystemServerReachable_def clearReachableDNSServers_def)

definition usable_host :: "string \<Rightarrow> bool" where
  "usable_host h = (case ParseIP h of None \<Rightarrow> False
     | Some ip \<Rightarrow> To4 ip \<noteq> None \<and> \<not> IsLoopback ip \<and> \<not> IsUnspecified ip \<and> \<not> IsMulticast ip)"

lemma builtin_hosts_usable: "list_all (\<lambda>s. ipv4Host s = [] \<or> usable_host (ipv4Host s)) DirectDNSServers" "usable_host DefaultSystemDNS"
  by code_simp+

lemma systemDNSHost_usable: "systemDNSHost a \<noteq> [] \<Longrightarrow> usable_host (systemDNSHost a)"
proof -
  assume a: "systemDNSHost a \<noteq> []"
  then have "systemDNSHost a = ipv4Host a" "ipv4Host a \<noteq> []"
    by (auto simp: systemDNSHost_def Let_def split: if_splits option.splits)
  then show ?thesis using a
    by (auto simp: systemDNSHost_def usable_host_def ipv4Host_def Let_def split: if_splits option.splits)
qed

text \<open>
  The resolver that is written into the system's configuration is always the text of an IPv4 address
  that is neither a loopback, an unspecified nor a multicast address, whatever the servers that have been
  seen to answer: the system cannot be pointed at itself.
\<close>

theorem preferred_resolver_usable:
  assumes "reach_ok rd"
  shows "usable_host (PreferredSystemDNS rd)"
proof -
  let ?b = "filter (\<lambda>h. h \<noteq> []) (map ipv4Host (rdBuiltin rd))" and ?s = "filter (\<lambda>h. h \<noteq> []) (map systemDNSHost (rdSystem rd))"
  have b: "\<forall>h \<in> set ?b. usable_host h" using assms builtin_hosts_usable(1) by (auto simp: reach_ok_def list_all_iff)
  have s: "\<forall>h \<in> set ?s. usable_host h" using systemDNSHost_usable by auto
  show ?thesis
  proof (cases ?b)
    case (Cons h t)
    then have "h \<in> set ?b" by (metis list.set_intros(1))
    then show ?thesis using b Cons by (simp add: PreferredSystemDNS_def)
  next
    case Nil
    show ?thesis
    proof (cases ?s)
      case (Cons h t)
      then have "h \<in> set ?s" by (metis list.set_intros(1))
      then show ?thesis using s Cons Nil by (simp add: PreferredSystemDNS_def)
    qed (use Nil builtin_hosts_usable(2) in \<open>simp add: PreferredSystemDNS_def\<close>)
  qed
qed

section \<open>Examples\<close>

text \<open>Built-in servers that stay silent until their deadline, and a system resolver that answers at once.\<close>

definition hole_net :: "int pre_net" where
  "hole_net = \<lparr>pnNow = (\<lambda>n. n), pnCancelled = (\<lambda>_. False),
     pnExchange = (\<lambda>d n qtype server name. if server = ''192.168.1.1:53'' then demo_exchange qtype server name else Inl (Msg ''timeout'')),
     pnAfter = (\<lambda>d server n. if server = ''192.168.1.1:53'' then n else case d of None \<Rightarrow> n | Some d \<Rightarrow> max n d),
     pnSystem = (\<lambda>n. ([''192.168.1.1:53''], n))\<rparr>"

definition demo_libs :: "(string \<times> bytes \<times> int option) list pre_libs" where
  "demo_libs = \<lparr>plDNS = demo_dns, plCache = list_bytes, plRnd = (\<lambda>_. 0)\<rparr>"

lemma hole_timely: "pre_timely hole_net"
  by (auto simp: pre_timely_def hole_net_def ResolveItemTimeout_def)

lemma demo_queries: "queryMsg demo_dns demo_exchange 1 server ''Example.COM'' = Inr demo_answer"
proof -
  have "NormalizeEDNS0Answer demo_answer = (False, demo_answer)" by (rule normalize_id) (simp add: no_opt_def demo_answer_def)
  then show ?thesis by (simp add: queryMsg_def demo_dns_def demo_exchange_def Let_def) (simp add: demo_answer_def)
qed

lemma hole_answers: "answers_always demo_libs hole_net ''Example.COM'' True ''192.168.1.1:53''"
proof -
  have ex: "queryMsg demo_dns (pnExchange hole_net d n) q ''192.168.1.1:53'' dom = queryMsg demo_dns demo_exchange q ''192.168.1.1:53'' dom" for d n q dom
    by (simp add: queryMsg_def hole_net_def)
  have q2: "queryMsg demo_dns demo_exchange 28 ''192.168.1.1:53'' ''Example.COM'' = Inl (Msg ''timeout'')"
    by (simp add: queryMsg_def demo_exchange_def)
  have "msgHasRecord demo_answer 1" by (simp add: msgHasRecord_def demo_answer_def)
  then show ?thesis using demo_queries [of "''192.168.1.1:53''"] q2 ex
    by (auto simp: answers_always_def PrePopulate_def demo_libs_def Let_def)
qed

theorem system_resolver_gets_its_turn_witness:
  "\<exists>ps' n'. PrePopulateWithFallback demo_libs hole_net (Some (0 + PreResolveTimeout)) ''Example.COM'' DirectDNSServers True
     \<lparr>psCache = empty_cache, psBuiltin = \<lparr>bdDown = False, bdDownAt = 0\<rparr>, psReach = \<lparr>rdBuiltin = [], rdSystem = []\<rparr>, psErrs = []\<rparr> 0 =
       (None, ps', n') \<and> n' \<le> 14000000000"
proof -
  have now: "pnNow hole_net m = m" for m by (simp add: hole_net_def)
  obtain r ps' n' where p: "PrePopulateWithFallback demo_libs hole_net (Some (pnNow hole_net 0 + PreResolveTimeout)) ''Example.COM'' DirectDNSServers True
     \<lparr>psCache = empty_cache, psBuiltin = \<lparr>bdDown = False, bdDownAt = 0\<rparr>, psReach = \<lparr>rdBuiltin = [], rdSystem = []\<rparr>, psErrs = []\<rparr> 0 = (r, ps', n')"
    using prod_cases3 by blast
  have sys: "fst (pnSystem hole_net m) = ''192.168.1.1:53'' # []" for m by (simp add: hole_net_def)
  show ?thesis using system_resolver_gets_its_turn [OF hole_timely hole_answers sys p] p by (simp add: now PreResolveTimeout_def)
qed

definition lone_builtin :: "nat resolving" where
  "lone_builtin = \<lparr>rvNow = int, rvSystem = (\<lambda>n. ([], Suc n)), rvInvalidate = Suc, rvTry = (\<lambda>xs n. (if xs = [] then Inl (Msg ''none'') else Inr demo_answer, Suc n))\<rparr>"

theorem breaker_never_isolates_witness:
  "\<exists>r b' n'. QueryWithBuiltinFirst lone_builtin DirectDNSServers \<lparr>bdDown = True, bdDownAt = 0\<rparr> 0 = (Inr r, b', n')"
proof -
  obtain res b' n' where q: "QueryWithBuiltinFirst lone_builtin DirectDNSServers \<lparr>bdDown = True, bdDownAt = 0\<rparr> 0 = (res, b', n')"
    using prod_cases3 by blast
  have 1: "fst (rvSystem lone_builtin m) = []" for m by (simp add: lone_builtin_def)
  have 2: "[] \<noteq> ([] :: string list) \<and> (\<forall>m. \<exists>r. fst (rvTry lone_builtin [] m) = Inr r) \<or>
      [] = ([] :: string list) \<and> DirectDNSServers \<noteq> [] \<and> (\<forall>m. \<exists>r. fst (rvTry lone_builtin DirectDNSServers m) = Inr r)"
    by (simp add: lone_builtin_def DirectDNSServers_def)
  show ?thesis using breaker_never_isolates [OF 1 2 q] q by blast
qed

theorem positive_answer_wins_witness:
  "exchangeWithServers [''a'', ''b''] [Some (Inr (Some (demo_answer\<lparr>mRcode := 3, mAnswer := []\<rparr>))), Some (Inr (Some demo_answer))] = Inr demo_answer"
proof -
  have "NormalizeEDNS0Answer demo_answer = (False, demo_answer)" by (rule normalize_id) (simp add: no_opt_def demo_answer_def)
  moreover have "mRcode demo_answer = 0" by (simp add: demo_answer_def)
  ultimately show ?thesis
    using positive_answer_wins [of "[''a'', ''b'']" "[Some (Inr (Some (demo_answer\<lparr>mRcode := 3, mAnswer := []\<rparr>))), Some (Inr (Some demo_answer))]"]
    by (simp add: Let_def)
qed

theorem preferred_resolver_usable_witness:
  "usable_host (PreferredSystemDNS \<lparr>rdBuiltin = [''[2400:3200::1]:53''], rdSystem = [''127.0.0.53:53'', ''192.168.1.1:53'']\<rparr>)"
  by (rule preferred_resolver_usable) (simp add: reach_ok_def DirectDNSServers_def)

end
