(* ===== verification/Router.thy ===== *)
theory Router
  imports Matching
begin

text \<open>
  The client's router (\<open>client/router/router.go\<close>), the action taken on its answer
  (\<open>client/proxy/route.go\<close>) and the cache of answers for UDP targets
  (\<open>client/proxy/udp_route_cache.go\<close>). The GeoIP database and the embedded domain lists are
  parameters: the country of an address, if the lookup finds one, and the text of the lists.
\<close>

section \<open>Rules and modes\<close>

datatype HostRule = HostRuleProxy | HostRuleDirect | HostRuleBlock

datatype ProxyRule =
  ProxyRuleAuto | ProxyRuleReverseAuto | ProxyRuleProxy | ProxyRuleDirect | ProxyRuleAutoBlock

datatype IPV6Rule = IPV6RuleEnable | IPV6RuleAuto | IPV6RuleDisable

definition ParseProxyRule :: "string \<Rightarrow> ProxyRule" where
  "ParseProxyRule s =
     (if s = ''auto'' then ProxyRuleAuto
      else if s = ''reverse_auto'' then ProxyRuleReverseAuto
      else if s = ''proxy'' then ProxyRuleProxy
      else if s = ''direct'' then ProxyRuleDirect
      else if s = ''auto_block'' then ProxyRuleAutoBlock
      else ProxyRuleAuto)"

definition ParseIPV6Rule :: "string \<Rightarrow> IPV6Rule" where
  "ParseIPV6Rule s =
     (if s = ''enable'' then IPV6RuleEnable else if s = ''auto'' then IPV6RuleAuto else IPV6RuleDisable)"

record ipv6Info =
  i6Networking :: bool
  i6Server :: string

record RouterConfig =
  rcProxyRule :: ProxyRule
  rcIPV6Rule :: IPV6Rule
  rcDirectFile :: string
  rcProxyFile :: string
  rcIPV6NetWorking :: bool
  rcServerIPV6 :: string

record Router =
  roProxyRule :: ProxyRule
  roIpv6Rule :: IPV6Rule
  roIpv6 :: "ipv6Info option"
  roGeneration :: nat
  roGeoIP :: "bytes \<Rightarrow> string option"
  roGeoSiteDirect :: "DomainSet option"
  roGeoSiteBlock :: "DomainSet option"
  roCustomDirect :: "Set option"
  roCustomProxy :: "Set option"
  roCustomFileErr :: "go_error option"

text \<open>
  The generation is a 64-bit counter that grows by one for a rule change; it is a \<open>nat\<close> here, as
  it would take \<open>2^64\<close> changes to come back to a value.
\<close>

section \<open>Construction\<close>

definition load_rules ::
  "regexp_lib \<Rightarrow> (string \<Rightarrow> rule_file) \<Rightarrow> string \<Rightarrow> Set option \<Rightarrow> go_error list \<Rightarrow> Set option \<times> go_error list" where
  "load_rules lib fs path dst errs =
     (if path = [] then (dst, errs)
      else
        (case ParseFile lib fs True path of
           (s, parseErrs, Some err) \<Rightarrow> (dst, errs @ [err])
         | (s, parseErrs, None) \<Rightarrow>
             (Some s, errs @ (case FileError path parseErrs of Some e \<Rightarrow> [e] | None \<Rightarrow> []))))"

definition loadCustomRuleFiles ::
  "regexp_lib \<Rightarrow> (string \<Rightarrow> rule_file) \<Rightarrow> RouterConfig \<Rightarrow> Router \<Rightarrow> go_error option \<times> Router" where
  "loadCustomRuleFiles lib fs cfg r =
     (case load_rules lib fs (rcDirectFile cfg) (roCustomDirect r) [] of (direct, errs) \<Rightarrow>
        (case load_rules lib fs (rcProxyFile cfg) (roCustomProxy r) errs of (proxy, errs) \<Rightarrow>
           (if errs = [] then None else Some (Wrap [] errs),
            r\<lparr>roCustomDirect := direct, roCustomProxy := proxy\<rparr>)))"

definition bump :: "Router \<Rightarrow> Router" where
  "bump r = r\<lparr>roGeneration := roGeneration r + 1\<rparr>"

definition SetIPV6Info :: "bool \<Rightarrow> string \<Rightarrow> Router \<Rightarrow> Router" where
  "SetIPV6Info networking server r =
     bump (r\<lparr>roIpv6 := Some \<lparr>i6Networking = networking, i6Server = server\<rparr>\<rparr>)"

text \<open>\<open>New\<close>: \<open>geo\<close> is the result of opening the GeoIP database.\<close>

definition Router_New ::
  "regexp_lib \<Rightarrow> (string \<Rightarrow> rule_file) \<Rightarrow> (bytes \<Rightarrow> string option) result \<Rightarrow> string \<Rightarrow> string \<Rightarrow>
     RouterConfig \<Rightarrow> Router result" where
  "Router_New lib fs geo directList blockList cfg =
     (case geo of
        Inl err \<Rightarrow> Inl err
      | Inr db \<Rightarrow>
          (let r = \<lparr>roProxyRule = rcProxyRule cfg, roIpv6Rule = rcIPV6Rule cfg, roIpv6 = None,
                    roGeneration = 0, roGeoIP = db,
                    roGeoSiteDirect = Some (fst (ParseDomainSet lib directList)),
                    roGeoSiteBlock = Some (fst (ParseDomainSet lib blockList)),
                    roCustomDirect = Some New_Set, roCustomProxy = Some New_Set, roCustomFileErr = None\<rparr>;
               r = SetIPV6Info (rcIPV6NetWorking cfg) (rcServerIPV6 cfg) r
           in case loadCustomRuleFiles lib fs cfg r of
                (Some err, r) \<Rightarrow> Inr (r\<lparr>roCustomFileErr := Some (Wrap ''load custom rule file'' [err])\<rparr>)
              | (None, r) \<Rightarrow> Inr r))"

section \<open>Classification\<close>

record HostClassification =
  hcRule :: HostRule
  hcIPV6Rejected :: bool

definition ShouldIPV6Disable :: "Router \<Rightarrow> bool" where
  "ShouldIPV6Disable r =
     (case roIpv6Rule r of
        IPV6RuleEnable \<Rightarrow> False
      | IPV6RuleAuto \<Rightarrow>
          (case roIpv6 r of
             Some info \<Rightarrow> \<not> (i6Networking info \<and> i6Server info \<noteq> [])
           | None \<Rightarrow> True)
      | IPV6RuleDisable \<Rightarrow> True)"

definition isLANHost :: "string \<Rightarrow> bool" where
  "isLANHost host = (let host = NormalizeHost host in if host = ''localhost'' then True else IsLANIP host)"

definition ipAtCN :: "Router \<Rightarrow> string \<Rightarrow> bool" where
  "ipAtCN r ip =
     (case ParseIP ip of
        None \<Rightarrow> False
      | Some a \<Rightarrow> (case roGeoIP r a of None \<Rightarrow> False | Some country \<Rightarrow> country = ''CN''))"

definition hostAtCN :: "regexp_lib \<Rightarrow> Router \<Rightarrow> string \<Rightarrow> bool" where
  "hostAtCN lib r host =
     (if host = [] then False
      else if IsIP host then ipAtCN r host
      else if HasSuffix host ''.cn'' then True
      else DomainSet_Match lib (roGeoSiteDirect r) host True)"

definition hostMatchCustom :: "regexp_lib \<Rightarrow> Set option \<Rightarrow> string \<Rightarrow> bool \<times> string" where
  "hostMatchCustom lib s host =
     (case MatchHostKind lib s host of (kind, ok) \<Rightarrow> if \<not> ok then (False, []) else (True, Kind_String kind))"

definition MatchHostRule :: "regexp_lib \<Rightarrow> Router \<Rightarrow> string \<Rightarrow> HostRule" where
  "MatchHostRule lib r host =
     (let mode = roProxyRule r
      in if mode = ProxyRuleDirect \<or> isLANHost host then HostRuleDirect
         else if mode = ProxyRuleProxy then HostRuleProxy
         else if fst (hostMatchCustom lib (roCustomDirect r) host) then HostRuleDirect
         else if fst (hostMatchCustom lib (roCustomProxy r) host) then HostRuleProxy
         else if mode = ProxyRuleAutoBlock \<and> \<not> IsIP host \<and> DomainSet_Match lib (roGeoSiteDirect r) host False
         then HostRuleDirect
         else if mode = ProxyRuleAutoBlock \<and> \<not> IsIP host \<and> DomainSet_Match lib (roGeoSiteBlock r) host True
         then HostRuleBlock
         else if mode = ProxyRuleReverseAuto \<and> \<not> hostAtCN lib r host then HostRuleDirect
         else if mode \<noteq> ProxyRuleReverseAuto \<and> hostAtCN lib r host then HostRuleDirect
         else HostRuleProxy)"

definition ClassifyHost :: "regexp_lib \<Rightarrow> Router option \<Rightarrow> string \<Rightarrow> HostClassification" where
  "ClassifyHost lib ro host =
     (case ro of
        None \<Rightarrow> \<lparr>hcRule = HostRuleProxy, hcIPV6Rejected = False\<rparr>
      | Some r \<Rightarrow>
          (if ShouldIPV6Disable r \<and> IsIPV6 host then \<lparr>hcRule = HostRuleBlock, hcIPV6Rejected = True\<rparr>
           else \<lparr>hcRule = MatchHostRule lib r host, hcIPV6Rejected = False\<rparr>))"

section \<open>Changes\<close>

definition AddDirectIP :: "string \<Rightarrow> Router \<Rightarrow> Router" where
  "AddDirectIP ip r =
     (case AddIP ip (roCustomDirect r) of (added, s) \<Rightarrow>
        (let r = r\<lparr>roCustomDirect := s\<rparr> in if added then bump r else r))"

definition AddProxyIP :: "string \<Rightarrow> Router \<Rightarrow> Router" where
  "AddProxyIP ip r =
     (case AddIP ip (roCustomProxy r) of (added, s) \<Rightarrow>
        (let r = r\<lparr>roCustomProxy := s\<rparr> in if added then bump r else r))"

definition AddDirectDomain :: "string \<Rightarrow> Router \<Rightarrow> Router" where
  "AddDirectDomain domain r =
     (case AddDomain domain (roCustomDirect r) of (added, s) \<Rightarrow>
        (let r = r\<lparr>roCustomDirect := s\<rparr> in if added then bump r else r))"

definition AddProxyDomain :: "string \<Rightarrow> Router \<Rightarrow> Router" where
  "AddProxyDomain domain r =
     (case AddDomain domain (roCustomProxy r) of (added, s) \<Rightarrow>
        (let r = r\<lparr>roCustomProxy := s\<rparr> in if added then bump r else r))"

definition SetProxyRule :: "ProxyRule \<Rightarrow> Router \<Rightarrow> Router" where
  "SetProxyRule rule r = bump (r\<lparr>roProxyRule := rule\<rparr>)"

definition RuleGeneration :: "Router option \<Rightarrow> nat" where
  "RuleGeneration ro = (case ro of None \<Rightarrow> 0 | Some r \<Rightarrow> roGeneration r)"

definition isCustomDomain :: "regexp_lib \<Rightarrow> Router option \<Rightarrow> Set option \<Rightarrow> string \<Rightarrow> bool" where
  "isCustomDomain lib ro s domain =
     (case ro of
        None \<Rightarrow> False
      | Some _ \<Rightarrow> (case s of None \<Rightarrow> False | Some _ \<Rightarrow> HasDomain lib s domain))"

definition ServerIPV6 :: "Router \<Rightarrow> string" where
  "ServerIPV6 r = (case roIpv6 r of Some info \<Rightarrow> i6Server info | None \<Rightarrow> [])"

section \<open>The decision\<close>

datatype routeAction = routeBlock | routeDirect | routeProxy

fun routeAction_String :: "routeAction \<Rightarrow> string" where
  "routeAction_String routeBlock = ''block''"
| "routeAction_String routeDirect = ''direct''"
| "routeAction_String routeProxy = ''proxy''"

record routeDecision =
  rdAction :: routeAction
  rdIPV6Rejected :: bool

definition decide :: "regexp_lib \<Rightarrow> Router option \<Rightarrow> string \<Rightarrow> routeDecision" where
  "decide lib router host =
     (let cls = ClassifyHost lib router host
      in \<lparr>rdAction = (case hcRule cls of
             HostRuleBlock \<Rightarrow> routeBlock | HostRuleDirect \<Rightarrow> routeDirect | HostRuleProxy \<Rightarrow> routeProxy),
          rdIPV6Rejected = hcIPV6Rejected cls\<rparr>)"

section \<open>The cache of UDP targets\<close>

definition maxUDPRouteCacheEntries :: nat where
  "maxUDPRouteCacheEntries = 4096"

record udpRouteCache =
  ucGeneration :: nat
  ucEntries :: "string \<rightharpoonup> HostClassification"

definition newUDPRouteCache :: udpRouteCache where
  "newUDPRouteCache = \<lparr>ucGeneration = 0, ucEntries = Map.empty\<rparr>"

text \<open>
  \<open>classify\<close> holds the lock twice, for the lookup and for the insertion; the classification between
  them runs without it. The sequential composition is the last definition.
\<close>

definition cache_lookup :: "nat \<Rightarrow> string \<Rightarrow> udpRouteCache \<Rightarrow> HostClassification option \<times> udpRouteCache" where
  "cache_lookup generation host c =
     (let c = (if ucGeneration c \<noteq> generation then c\<lparr>ucEntries := Map.empty, ucGeneration := generation\<rparr> else c)
      in (ucEntries c host, c))"

definition cache_insert :: "nat \<Rightarrow> string \<Rightarrow> HostClassification \<Rightarrow> udpRouteCache \<Rightarrow> udpRouteCache" where
  "cache_insert generation host cls c =
     (if ucGeneration c = generation
      then (let entries = (if card (dom (ucEntries c)) \<ge> maxUDPRouteCacheEntries then Map.empty else ucEntries c)
            in c\<lparr>ucEntries := entries(host \<mapsto> cls)\<rparr>)
      else c)"

definition cache_classify ::
  "regexp_lib \<Rightarrow> Router option \<Rightarrow> string \<Rightarrow> udpRouteCache \<Rightarrow> HostClassification \<times> udpRouteCache" where
  "cache_classify lib rt host c =
     (case rt of
        None \<Rightarrow> (ClassifyHost lib rt host, c)
      | Some _ \<Rightarrow>
          (let generation = RuleGeneration rt
           in case cache_lookup generation host c of
                (Some cls, c) \<Rightarrow> (cls, c)
              | (None, c) \<Rightarrow>
                  (let cls = ClassifyHost lib rt host in (cls, cache_insert generation host cls c))))"

end
