(* ===== verification/Interceptor.thy ===== *)
theory Interceptor
  imports DnsFallback Router Protocol
begin

text \<open>
  \<open>client/proxy/dns.go\<close>, \<open>dns_exec.go\<close>, \<open>dns_udp.go\<close> and \<open>dns_log.go\<close>: the client's interception of DNS. A query is
  blocked, answered at once, answered from the cache, resolved directly, or sent through the tunnel;
  answers from the tunnel are repaired, cached and learnt from.
\<close>

section \<open>What has been logged\<close>

definition dnsLogOnceCap :: nat where
  "dnsLogOnceCap = 4096"

record dnsLogOnce =
  loSeen :: "string set"
  loOrder :: "string list"
  loHead :: nat

definition dnsLogKey :: "string \<Rightarrow> string \<Rightarrow> string" where
  "dnsLogKey domain qtype = ToLower domain @ [CHR 0x00] @ qtype"

definition log_mark :: "string \<Rightarrow> dnsLogOnce \<Rightarrow> bool \<times> dnsLogOnce" where
  "log_mark key s =
     (if key \<in> loSeen s then (False, s)
      else if length (loOrder s) < dnsLogOnceCap
      then (True, s\<lparr>loOrder := loOrder s @ [key], loSeen := insert key (loSeen s)\<rparr>)
      else (True, s\<lparr>loSeen := insert key (loSeen s - {loOrder s ! loHead s}), loOrder := (loOrder s)[loHead s := key],
                    loHead := (loHead s + 1) mod dnsLogOnceCap\<rparr>))"

section \<open>The interceptor\<close>

record 'c dnsInterceptor =
  diRouter :: Router
  diCache :: "'c Cache"
  diServerDomain :: string
  diBuiltin :: builtin_state
  diStats :: stats
  diQueryLog :: dnsLogOnce
  diAnswerLog :: dnsLogOnce

text \<open>
  Its surroundings: the libraries, and a network that says what arrives, in which order, when servers
  are asked together. \<open>dwEdnsSize\<close> and \<open>dwSetEdnsSize\<close> are \<open>IsEdns0\<close> with \<open>UDPSize\<close>, and \<open>SetUDPSize\<close>.
\<close>

record ('c, 'n) dns_world =
  dwRegexp :: regexp_lib
  dwDNS :: dns_lib
  dwCache :: "'c byte_cache"
  dwRnd :: "nat \<Rightarrow> nat"
  dwEdnsSize :: "dns_Msg \<Rightarrow> nat option"
  dwSetEdnsSize :: "nat \<Rightarrow> dns_Msg \<Rightarrow> dns_Msg"
  dwNow :: "'n \<Rightarrow> int"
  dwSystem :: "'n \<Rightarrow> string list \<times> 'n"
  dwInvalidate :: "'n \<Rightarrow> 'n"
  dwAsk :: "dns_Msg \<Rightarrow> string list \<Rightarrow> 'n \<Rightarrow> dns_Msg result option list \<times> 'n"

definition seconds :: "int \<Rightarrow> int" where
  "seconds t = t div 1000000000"

definition isServerDomain :: "'c dnsInterceptor \<Rightarrow> string \<Rightarrow> bool" where
  "isServerDomain d domain \<longleftrightarrow> diServerDomain d \<noteq> [] \<and> EqualFold domain (diServerDomain d)"

datatype dnsAction = dnsActionBlock | dnsActionEmpty | dnsActionCacheHit dns_Msg | dnsActionDirect | dnsActionProxy

record dnsPlan =
  plAction :: dnsAction
  plDirect :: bool
  plDomain :: string
  plQtype :: string
  plFirst :: bool

text \<open>\<open>plan\<close>, with \<open>logCacheHit\<close>; \<open>q\<close> is the first question.\<close>

definition dns_plan ::
  "('c, 'n) dns_world \<Rightarrow> int \<Rightarrow> dns_Msg \<Rightarrow> dns_Question \<Rightarrow> 'c dnsInterceptor \<Rightarrow> dnsPlan \<times> 'c dnsInterceptor" where
  "dns_plan w now msg q d =
     (let domain = TrimSuffix (qName q) ''.''; qtype = dnTypeName (dwDNS w) (qType q);
          (first, qlog) = log_mark (dnsLogKey domain qtype) (diQueryLog d);
          d = d\<lparr>diQueryLog := qlog\<rparr>;
          plan = \<lparr>plAction = dnsActionBlock, plDirect = False, plDomain = domain, plQtype = qtype, plFirst = first\<rparr>;
          rule = MatchHostRule (dwRegexp w) (diRouter d) domain
      in if rule = HostRuleBlock then (plan, d)
         else if qType q = TypeAAAA \<and> ShouldIPV6Disable (diRouter d) then (plan\<lparr>plAction := dnsActionEmpty\<rparr>, d)
         else (let direct = (isServerDomain d domain \<or> rule = HostRuleDirect)
               in case Cache_Get (dwDNS w) (dwCache w) (seconds now) (qName q) qtype direct (diCache d) (diStats d) of
                    (Some cached, g) \<Rightarrow>
                      (let cached = (if ShouldIPV6Disable (diRouter d) \<and> qType q = TypeAAAA then cached\<lparr>mAnswer := []\<rparr> else cached);
                           alog = (if first then snd (log_mark (dnsLogKey domain qtype) (diAnswerLog d)) else diAnswerLog d)
                       in (plan\<lparr>plAction := dnsActionCacheHit (cached\<lparr>mId := mId msg\<rparr>), plDirect := direct\<rparr>,
                           d\<lparr>diStats := g, diAnswerLog := alog\<rparr>))
                  | (None, g) \<Rightarrow>
                      (plan\<lparr>plAction := (if direct then dnsActionDirect else dnsActionProxy), plDirect := direct\<rparr>, d\<lparr>diStats := g\<rparr>)))"

section \<open>Learning\<close>

definition learn_direct :: "string \<times> string \<Rightarrow> Router \<Rightarrow> Router" where
  "learn_direct kv r = (case kv of (kind, value) \<Rightarrow> if kind = ''CNAME'' then AddDirectDomain value r else AddDirectIP value r)"

definition learn_proxy :: "string \<times> string \<Rightarrow> Router \<Rightarrow> Router" where
  "learn_proxy kv r = (case kv of (kind, value) \<Rightarrow> if kind = ''CNAME'' then AddProxyDomain value r else AddProxyIP value r)"

definition learnDNSAnswers :: "regexp_lib \<Rightarrow> dns_Msg \<Rightarrow> string \<Rightarrow> bool \<Rightarrow> Router \<Rightarrow> Router" where
  "learnDNSAnswers lib msg domain isDirect r =
     (if isDirect then
        (if \<not> isCustomDomain lib (Some r) (roCustomDirect r) domain then r else fold learn_direct (dns_answers msg) r)
      else
        (if \<not> isCustomDomain lib (Some r) (roCustomProxy r) domain then r else fold learn_proxy (dns_answers msg) r))"

section \<open>Direct resolution\<close>

definition usableDirectDNSServer :: "Router \<Rightarrow> string \<Rightarrow> bool" where
  "usableDirectDNSServer r addr =
     (case SplitHostPort addr of
        None \<Rightarrow> False
      | Some (host, _) \<Rightarrow>
          (case ParseIP host of
             None \<Rightarrow> False
           | Some ip \<Rightarrow>
               (if IsUnspecified ip \<or> IsMulticast ip then False
                else if ShouldIPV6Disable r \<and> IsIPV6 host then False
                else True)))"

definition filterDNSUpstreams :: "Router \<Rightarrow> string list \<Rightarrow> string list" where
  "filterDNSUpstreams r servers = filter (\<lambda>addr. \<not> (ShouldIPV6Disable r \<and> IsIPV6Addr addr)) servers"

definition dedupeDNSUpstreams :: "string list \<Rightarrow> string list" where
  "dedupeDNSUpstreams servers = fold (\<lambda>addr deduped. if addr \<in> set deduped then deduped else deduped @ [addr]) servers []"

fun first_reply :: "dns_Msg result option list \<Rightarrow> go_error option \<Rightarrow> dns_Msg result" where
  "first_reply [] lastErr = Inl (case lastErr of Some e \<Rightarrow> e | None \<Rightarrow> Msg ''no dns server available'')"
| "first_reply (None # rs) lastErr = Inl (Sentinel ''context deadline exceeded'')"
| "first_reply (Some (Inr m) # rs) lastErr = Inr (snd (NormalizeEDNS0Answer m))"
| "first_reply (Some (Inl e) # rs) lastErr = first_reply rs (Some e)"

definition exchangeDirectDNSFromList ::
  "('c, 'n) dns_world \<Rightarrow> Router \<Rightarrow> dns_Msg \<Rightarrow> string list \<Rightarrow> 'n \<Rightarrow> dns_Msg result \<times> 'n" where
  "exchangeDirectDNSFromList w r msg servers n =
     (let candidates = filterDNSUpstreams r servers
      in if candidates = [] then (Inl (Msg ''no dns server available''), n)
         else (let candidates = dedupeDNSUpstreams candidates
               in case dwAsk w msg candidates n of (replies, n) \<Rightarrow> (first_reply (take (length candidates) replies) None, n)))"

definition direct_resolving :: "('c, 'n) dns_world \<Rightarrow> Router \<Rightarrow> dns_Msg \<Rightarrow> 'n resolving" where
  "direct_resolving w r msg =
     \<lparr>rvNow = dwNow w, rvSystem = (\<lambda>n. case dwSystem w n of (xs, n) \<Rightarrow> (filterDNSUpstreams r xs, n)),
      rvInvalidate = dwInvalidate w, rvTry = exchangeDirectDNSFromList w r msg\<rparr>"

definition resolveDirectDNS ::
  "('c, 'n) dns_world \<Rightarrow> dns_Msg \<Rightarrow> dns_Question \<Rightarrow> string \<Rightarrow> string \<Rightarrow> 'c dnsInterceptor \<Rightarrow> 'n \<Rightarrow>
     dns_Msg result \<times> 'c dnsInterceptor \<times> 'n" where
  "resolveDirectDNS w msg q domain reqServer d n =
     (case (if usableDirectDNSServer (diRouter d) reqServer
            then (case exchangeDirectDNSFromList w (diRouter d) msg (reqServer # DirectDNSServers) n of (r, n) \<Rightarrow> (r, diBuiltin d, n))
            else QueryWithBuiltinFirst (direct_resolving w (diRouter d) msg) DirectDNSServers (diBuiltin d) n) of
        (Inl err, b, n) \<Rightarrow> (Inl err, d\<lparr>diBuiltin := b\<rparr>, n)
      | (Inr resp, b, n) \<Rightarrow>
          (let resp = (if ShouldIPV6Disable (diRouter d) \<and> qType q = TypeAAAA then resp\<lparr>mAnswer := []\<rparr> else resp)
           in (Inr resp, d\<lparr>diBuiltin := b,
                 diCache := snd (Cache_Set (dwDNS w) (dwCache w) (dwRnd w) (seconds (dwNow w n)) resp True (diCache d)),
                 diRouter := learnDNSAnswers (dwRegexp w) resp domain True (diRouter d)\<rparr>, n)))"

definition emptyDNSReply :: "dns_lib \<Rightarrow> dns_Msg \<Rightarrow> dns_Msg" where
  "emptyDNSReply lib msg = dnSetReply lib empty_msg msg"

definition blockedDNSReply :: "dns_Msg \<Rightarrow> dns_Msg" where
  "blockedDNSReply msg = msg\<lparr>mResponse := True, mAnswer := [], mNs := [], mExtra := []\<rparr>"

section \<open>The executor\<close>

definition executeSync ::
  "('c, 'n) dns_world \<Rightarrow> dnsPlan \<Rightarrow> dns_Msg \<Rightarrow> dns_Question \<Rightarrow> string \<Rightarrow> 'c dnsInterceptor \<Rightarrow> 'n \<Rightarrow>
     dns_Msg result \<times> 'c dnsInterceptor \<times> 'n" where
  "executeSync w plan msg q reqServer d n =
     (case plAction plan of
        dnsActionBlock \<Rightarrow> (Inr (blockedDNSReply msg), d, n)
      | dnsActionEmpty \<Rightarrow> (Inr (emptyDNSReply (dwDNS w) msg), d, n)
      | dnsActionCacheHit cached \<Rightarrow> (Inr cached, d, n)
      | dnsActionDirect \<Rightarrow>
          (case resolveDirectDNS w msg q (plDomain plan) reqServer (d\<lparr>diStats := RecordDNSDirectQuery (diStats d)\<rparr>) n of
             (Inl err, d, n) \<Rightarrow> (Inl err, d, n)
           | (Inr resp, d, n) \<Rightarrow>
               (Inr (resp\<lparr>mId := mId msg\<rparr>),
                d\<lparr>diAnswerLog := snd (log_mark (dnsLogKey (plDomain plan) (plQtype plan)) (diAnswerLog d))\<rparr>, n))
      | dnsActionProxy \<Rightarrow> (Inl (Msg ''dns: action proxy is not handled synchronously''), d, n))"

definition clampDNSEDNS0 :: "('c, 'n) dns_world \<Rightarrow> dns_Msg \<Rightarrow> bool \<times> dns_Msg" where
  "clampDNSEDNS0 w msg =
     (case dwEdnsSize w msg of
        None \<Rightarrow> (False, msg)
      | Some sz \<Rightarrow> (if sz \<le> MaxUDPDataSize then (False, msg) else (True, dwSetEdnsSize w MaxUDPDataSize msg)))"

definition prepareProxied :: "('c, 'n) dns_world \<Rightarrow> dns_Msg \<Rightarrow> bytes option \<Rightarrow> bytes result" where
  "prepareProxied w msg raw =
     (case clampDNSEDNS0 w msg of (clamped, msg) \<Rightarrow>
        (case (if clamped then None else raw) of
           Some raw \<Rightarrow> Inr raw
         | None \<Rightarrow> dnPack (dwDNS w) msg))"

definition finishProxied ::
  "('c, 'n) dns_world \<Rightarrow> int \<Rightarrow> dns_Msg \<Rightarrow> string \<Rightarrow> 'c dnsInterceptor \<Rightarrow> bool \<times> dns_Msg \<times> 'c dnsInterceptor" where
  "finishProxied w now msg domain d =
     (case mQuestion msg of
        [] \<Rightarrow> (False, msg, d)
      | q # _ \<Rightarrow>
          (let (changed, msg) = NormalizeEDNS0Answer msg;
               strip = (ShouldIPV6Disable (diRouter d) \<and> qType q = TypeAAAA);
               msg = (if strip then msg\<lparr>mAnswer := []\<rparr> else msg)
           in (changed \<or> strip, msg,
               d\<lparr>diCache := snd (Cache_Set (dwDNS w) (dwCache w) (dwRnd w) (seconds now) msg False (diCache d)),
                 diAnswerLog := snd (log_mark (dnsLogKey domain (dnTypeName (dwDNS w) (qType q))) (diAnswerLog d)),
                 diRouter := learnDNSAnswers (dwRegexp w) msg domain False (diRouter d)\<rparr>)))"

definition postProcessProxied ::
  "('c, 'n) dns_world \<Rightarrow> int \<Rightarrow> bytes \<Rightarrow> 'c dnsInterceptor \<Rightarrow> bytes \<times> 'c dnsInterceptor" where
  "postProcessProxied w now data d =
     (case dnUnpack (dwDNS w) data of
        None \<Rightarrow> (data, d)
      | Some msg \<Rightarrow>
          (if \<not> IsDNSResponse msg then (data, d)
           else case mQuestion msg of
                  [] \<Rightarrow> (data, d)
                | q # _ \<Rightarrow>
                    (case finishProxied w now msg (NormalizeHost (qName q)) d of
                       (True, msg, d) \<Rightarrow> (case dnPack (dwDNS w) msg of Inr packed \<Rightarrow> (packed, d) | Inl _ \<Rightarrow> (data, d))
                     | (False, msg, d) \<Rightarrow> (data, d))))"

section \<open>Queries over UDP\<close>

definition ProxyDNSServer :: string where
  "ProxyDNSServer = ''8.8.8.8:53''"

definition dnsExchangeKey :: "string \<Rightarrow> string \<Rightarrow> string" where
  "dnsExchangeKey src dst = src @ ''_'' @ ProxyDNSServer @ ''_'' @ dst"

text \<open>
  \<open>handleUDPQuery\<close>, up to the use of the pool: an answer, an error, or the exchange to use and what to
  send on it.
\<close>

datatype dns_outcome = Answered dns_Msg | Query_failed go_error | Sent_proxied string bytes

definition proxyUDPQuery ::
  "('c, 'n) dns_world \<Rightarrow> string \<Rightarrow> string \<Rightarrow> bytes \<Rightarrow> dns_Msg \<Rightarrow> 'c dnsInterceptor \<Rightarrow> dns_outcome \<times> 'c dnsInterceptor" where
  "proxyUDPQuery w src dst raw msg d =
     (let payload = (case prepareProxied w msg (Some raw) of Inr p \<Rightarrow> p | Inl _ \<Rightarrow> raw)
      in (Sent_proxied (dnsExchangeKey src dst) payload, d\<lparr>diStats := RecordDNSProxyQuery (diStats d)\<rparr>))"

definition handleUDPQuery ::
  "('c, 'n) dns_world \<Rightarrow> string \<Rightarrow> string \<Rightarrow> bytes \<Rightarrow> dns_Msg \<Rightarrow> dns_Question \<Rightarrow> 'c dnsInterceptor \<Rightarrow> 'n \<Rightarrow>
     dns_outcome \<times> 'c dnsInterceptor \<times> 'n" where
  "handleUDPQuery w src dst raw msg q d n =
     (case dns_plan w (dwNow w n) msg q d of (plan, d) \<Rightarrow>
        (if plAction plan \<noteq> dnsActionProxy
         then (case executeSync w plan msg q dst d n of
                 (Inl err, d, n) \<Rightarrow> (Query_failed err, d, n)
               | (Inr resp, d, n) \<Rightarrow> (Answered resp, d, n))
         else (case proxyUDPQuery w src dst raw msg d of (o', d) \<Rightarrow> (o', d, n))))"

end
