(* ===== verification/Routing.thy ===== *)
theory Routing
  imports Router
begin

text \<open>
  What the router promises: the policy of a classification, that the generation counter tells
  whether classifications may have changed, and that the cache of UDP targets, whose users race
  with each other and with rule changes, never serves an answer older than the rules its user saw.
\<close>

section \<open>Policy\<close>

lemma hostMatchCustom_fst [simp]: "fst (hostMatchCustom lib s host) = MatchHost lib s host"
  by (simp add: hostMatchCustom_def MatchHost_def split: prod.split)

section \<open>Generations\<close>

datatype rule_change =
    Change_proxy_rule ProxyRule
  | Change_ipv6 bool string
  | Learn_direct_ip string
  | Learn_proxy_ip string
  | Learn_direct_domain string
  | Learn_proxy_domain string

fun change :: "rule_change \<Rightarrow> Router \<Rightarrow> Router" where
  "change (Change_proxy_rule m) r = SetProxyRule m r"
| "change (Change_ipv6 n s) r = SetIPV6Info n s r"
| "change (Learn_direct_ip ip) r = AddDirectIP ip r"
| "change (Learn_proxy_ip ip) r = AddProxyIP ip r"
| "change (Learn_direct_domain d) r = AddDirectDomain d r"
| "change (Learn_proxy_domain d) r = AddProxyDomain d r"

text \<open>Two routers with the same rules, whatever their generations.\<close>

definition rules_of :: "Router \<Rightarrow> Router" where
  "rules_of r = r\<lparr>roGeneration := 0\<rparr>"

lemma rules_of_simps:
  "roProxyRule (rules_of r) = roProxyRule r" "roIpv6Rule (rules_of r) = roIpv6Rule r" "roIpv6 (rules_of r) = roIpv6 r"
  "roGeoIP (rules_of r) = roGeoIP r" "roGeoSiteDirect (rules_of r) = roGeoSiteDirect r"
  "roGeoSiteBlock (rules_of r) = roGeoSiteBlock r" "roCustomDirect (rules_of r) = roCustomDirect r"
  "roCustomProxy (rules_of r) = roCustomProxy r"
  by (simp_all add: rules_of_def)

lemma ClassifyHost_rules: "ClassifyHost lib (Some (rules_of r)) host = ClassifyHost lib (Some r) host"
proof -
  have "hostAtCN lib (rules_of r) = hostAtCN lib r"
    by (simp add: fun_eq_iff hostAtCN_def ipAtCN_def rules_of_def split: option.split)
  then have "MatchHostRule lib (rules_of r) host = MatchHostRule lib r host"
    unfolding MatchHostRule_def Let_def by (simp only: rules_of_simps)
  moreover have "ShouldIPV6Disable (rules_of r) = ShouldIPV6Disable r"
    unfolding ShouldIPV6Disable_def by (simp only: rules_of_simps)
  ultimately show ?thesis by (simp add: ClassifyHost_def)
qed

lemma rules_of_gen [simp]: "rules_of (r\<lparr>roGeneration := g\<rparr>) = rules_of r"
  by (simp add: rules_of_def)

lemma rules_of_bump [simp]: "rules_of (bump r) = rules_of r"
  by (simp add: bump_def)

lemma add_unchanged:
  "AddIP ip so = (False, s) \<Longrightarrow> s = so" "AddDomain d so = (False, s) \<Longrightarrow> s = so"
  by (auto simp: AddIP_def AddDomain_def addIPLocked_def addDomainLocked_def Let_def
      split: option.splits if_splits)

lemma change_generation:
  "roGeneration (change ch r) = roGeneration r + 1 \<or> change ch r = r"
proof (cases ch)
  case (Learn_direct_ip ip)
  then show ?thesis
    using add_unchanged(1) [of ip "roCustomDirect r"]
    by (cases "AddIP ip (roCustomDirect r)") (auto simp: AddDirectIP_def bump_def Let_def)
next
  case (Learn_proxy_ip ip)
  then show ?thesis
    using add_unchanged(1) [of ip "roCustomProxy r"]
    by (cases "AddIP ip (roCustomProxy r)") (auto simp: AddProxyIP_def bump_def Let_def)
next
  case (Learn_direct_domain d)
  then show ?thesis
    using add_unchanged(2) [of d "roCustomDirect r"]
    by (cases "AddDomain d (roCustomDirect r)") (auto simp: AddDirectDomain_def bump_def Let_def)
next
  case (Learn_proxy_domain d)
  then show ?thesis
    using add_unchanged(2) [of d "roCustomProxy r"]
    by (cases "AddDomain d (roCustomProxy r)") (auto simp: AddProxyDomain_def bump_def Let_def)
qed (auto simp: SetProxyRule_def SetIPV6Info_def bump_def)

lemma changes_generation:
  "roGeneration r \<le> roGeneration (fold change chs r) \<and>
   (roGeneration (fold change chs r) = roGeneration r \<longrightarrow> fold change chs r = r)"
proof (induction chs arbitrary: r)
  case (Cons ch chs)
  have "roGeneration (change ch r) = roGeneration r + 1 \<or> change ch r = r" by (rule change_generation)
  then show ?case using Cons [of "change ch r"] by auto
qed simp

section \<open>Users of the cache\<close>

text \<open>
  A rule change stores its rules first and counts the generation up afterwards; a user of the cache
  reads the generation, looks up, classifies and inserts, and each of these steps may be interleaved
  with those of others. \<open>rwRules\<close> are the rules of every moment, the newest at \<open>rwVersion\<close>, and
  \<open>rwAnswers\<close> collects what users were told, with the generation they had read.
\<close>

datatype user =
    Idle
  | Read_generation nat string
  | Missed nat string
  | Classified nat string HostClassification

record route_world =
  rwRouter :: Router
  rwPending :: nat
  rwCache :: udpRouteCache
  rwUsers :: "nat \<Rightarrow> user"
  rwRules :: "nat \<Rightarrow> Router"
  rwVersion :: nat
  rwAnswers :: "(nat \<times> string \<times> HostClassification) set"

inductive route_step :: "regexp_lib \<Rightarrow> route_world \<Rightarrow> route_world \<Rightarrow> bool" for lib where
  store: "roGeneration (change ch (rwRouter w)) \<noteq> roGeneration (rwRouter w) \<Longrightarrow>
    route_step lib w (w\<lparr>rwRouter := (change ch (rwRouter w))\<lparr>roGeneration := roGeneration (rwRouter w)\<rparr>,
      rwPending := rwPending w + 1,
      rwRules := (rwRules w)(rwVersion w + 1 := rules_of (change ch (rwRouter w))),
      rwVersion := rwVersion w + 1\<rparr>)"
| count_up: "rwPending w > 0 \<Longrightarrow>
    route_step lib w (w\<lparr>rwRouter := bump (rwRouter w), rwPending := rwPending w - 1\<rparr>)"
| read: "rwUsers w i = Idle \<Longrightarrow>
    route_step lib w (w\<lparr>rwUsers := (rwUsers w)(i := Read_generation (RuleGeneration (Some (rwRouter w))) host)\<rparr>)"
| hit: "rwUsers w i = Read_generation g host \<Longrightarrow> cache_lookup g host (rwCache w) = (Some cls, c) \<Longrightarrow>
    route_step lib w (w\<lparr>rwUsers := (rwUsers w)(i := Idle), rwCache := c,
      rwAnswers := insert (g, host, cls) (rwAnswers w)\<rparr>)"
| miss: "rwUsers w i = Read_generation g host \<Longrightarrow> cache_lookup g host (rwCache w) = (None, c) \<Longrightarrow>
    route_step lib w (w\<lparr>rwUsers := (rwUsers w)(i := Missed g host), rwCache := c\<rparr>)"
| classify: "rwUsers w i = Missed g host \<Longrightarrow>
    route_step lib w (w\<lparr>rwUsers := (rwUsers w)(i := Classified g host (ClassifyHost lib (Some (rwRouter w)) host))\<rparr>)"
| insert_answer: "rwUsers w i = Classified g host cls \<Longrightarrow>
    route_step lib w (w\<lparr>rwUsers := (rwUsers w)(i := Idle), rwCache := cache_insert g host cls (rwCache w),
      rwAnswers := insert (g, host, cls) (rwAnswers w)\<rparr>)"

definition route_init :: "route_world \<Rightarrow> bool" where
  "route_init w \<longleftrightarrow> rwPending w = 0 \<and> rwCache w = newUDPRouteCache \<and> rwUsers w = (\<lambda>_. Idle) \<and>
     rwVersion w = roGeneration (rwRouter w) \<and> rwRules w (rwVersion w) = rules_of (rwRouter w) \<and> rwAnswers w = {}"

text \<open>An answer that is right for some rules in force since generation \<open>g\<close>.\<close>

definition answered :: "regexp_lib \<Rightarrow> route_world \<Rightarrow> nat \<Rightarrow> string \<Rightarrow> HostClassification \<Rightarrow> bool" where
  "answered lib w g host cls \<longleftrightarrow>
     (\<exists>v. g \<le> v \<and> v \<le> rwVersion w \<and> cls = ClassifyHost lib (Some (rwRules w v)) host)"

definition user_ok :: "regexp_lib \<Rightarrow> route_world \<Rightarrow> user \<Rightarrow> bool" where
  "user_ok lib w u =
     (case u of
        Idle \<Rightarrow> True
      | Read_generation g host \<Rightarrow> g \<le> roGeneration (rwRouter w)
      | Missed g host \<Rightarrow> g \<le> roGeneration (rwRouter w)
      | Classified g host cls \<Rightarrow> g \<le> roGeneration (rwRouter w) \<and> answered lib w g host cls)"

definition route_inv :: "regexp_lib \<Rightarrow> route_world \<Rightarrow> bool" where
  "route_inv lib w \<longleftrightarrow>
     roGeneration (rwRouter w) + rwPending w = rwVersion w \<and>
     rwRules w (rwVersion w) = rules_of (rwRouter w) \<and>
     ucGeneration (rwCache w) \<le> roGeneration (rwRouter w) \<and>
     (\<forall>host cls. ucEntries (rwCache w) host = Some cls \<longrightarrow> answered lib w (ucGeneration (rwCache w)) host cls) \<and>
     finite (dom (ucEntries (rwCache w))) \<and>
     card (dom (ucEntries (rwCache w))) \<le> maxUDPRouteCacheEntries \<and>
     (\<forall>i. user_ok lib w (rwUsers w i)) \<and>
     (\<forall>(g, host, cls) \<in> rwAnswers w. answered lib w g host cls)"

lemma answered_world:
  "rwVersion w' = rwVersion w \<Longrightarrow> rwRules w' = rwRules w \<Longrightarrow> answered lib w' = answered lib w"
  by (simp add: answered_def fun_eq_iff)

lemma answered_store:
  assumes "rwRules w' = (rwRules w)(rwVersion w + 1 := x)" "rwVersion w' = rwVersion w + 1"
  shows "answered lib w g host cls \<Longrightarrow> answered lib w' g host cls"
proof -
  assume "answered lib w g host cls"
  then obtain v where "g \<le> v" "v \<le> rwVersion w" "cls = ClassifyHost lib (Some (rwRules w v)) host"
    by (auto simp: answered_def)
  then show ?thesis using assms by (auto simp: answered_def intro!: exI [of _ v])
qed

lemma user_ok_mono:
  assumes "user_ok lib w u" "roGeneration (rwRouter w) \<le> roGeneration (rwRouter w')"
    and "\<And>g host cls. answered lib w g host cls \<Longrightarrow> answered lib w' g host cls"
  shows "user_ok lib w' u"
  using assms by (auto simp: user_ok_def split: user.splits)


lemma route_invI:
  assumes "roGeneration (rwRouter w) + rwPending w = rwVersion w"
    "rwRules w (rwVersion w) = rules_of (rwRouter w)"
    "ucGeneration (rwCache w) \<le> roGeneration (rwRouter w)"
    "\<And>host cls. ucEntries (rwCache w) host = Some cls \<Longrightarrow> answered lib w (ucGeneration (rwCache w)) host cls"
    "finite (dom (ucEntries (rwCache w)))"
    "card (dom (ucEntries (rwCache w))) \<le> maxUDPRouteCacheEntries"
    "\<And>i. user_ok lib w (rwUsers w i)"
    "\<And>g host cls. (g, host, cls) \<in> rwAnswers w \<Longrightarrow> answered lib w g host cls"
  shows "route_inv lib w"
  using assms unfolding route_inv_def by blast

lemma route_invD:
  assumes "route_inv lib w"
  shows "roGeneration (rwRouter w) + rwPending w = rwVersion w"
    "rwRules w (rwVersion w) = rules_of (rwRouter w)"
    "ucGeneration (rwCache w) \<le> roGeneration (rwRouter w)"
    "\<And>host cls. ucEntries (rwCache w) host = Some cls \<Longrightarrow> answered lib w (ucGeneration (rwCache w)) host cls"
    "finite (dom (ucEntries (rwCache w)))"
    "card (dom (ucEntries (rwCache w))) \<le> maxUDPRouteCacheEntries"
    "\<And>i. user_ok lib w (rwUsers w i)"
    "\<And>g host cls. (g, host, cls) \<in> rwAnswers w \<Longrightarrow> answered lib w g host cls"
  using assms unfolding route_inv_def by blast+

lemma cache_lookup_inv:
  assumes "route_inv lib w" "g \<le> roGeneration (rwRouter w)" "cache_lookup g host (rwCache w) = (res, c)"
  shows "ucGeneration c = g" "finite (dom (ucEntries c))" "card (dom (ucEntries c)) \<le> maxUDPRouteCacheEntries"
    "\<And>h cls. ucEntries c h = Some cls \<Longrightarrow> answered lib w g h cls" "res = ucEntries c host"
  using assms(3) route_invD(4-6) [OF assms(1)] by (auto simp: cache_lookup_def Let_def split: if_splits)

lemma cache_insert_inv:
  assumes "route_inv lib w" "answered lib w g host cls"
  defines "c \<equiv> cache_insert g host cls (rwCache w)"
  shows "ucGeneration c \<le> roGeneration (rwRouter w)" "finite (dom (ucEntries c))"
    "card (dom (ucEntries c)) \<le> maxUDPRouteCacheEntries"
    "\<And>h cl. ucEntries c h = Some cl \<Longrightarrow> answered lib w (ucGeneration c) h cl"
proof -
  note inv = route_invD [OF assms(1)]
  show "ucGeneration c \<le> roGeneration (rwRouter w)" "finite (dom (ucEntries c))"
    using inv(3,5) by (simp_all add: c_def cache_insert_def Let_def)
  show "card (dom (ucEntries c)) \<le> maxUDPRouteCacheEntries"
    using inv(5,6) by (simp add: c_def cache_insert_def Let_def maxUDPRouteCacheEntries_def card_insert_if)
  show "ucEntries c h = Some cl \<Longrightarrow> answered lib w (ucGeneration c) h cl" for h cl
    using inv(4) assms(2) by (auto simp: c_def cache_insert_def Let_def split: if_splits)
qed

lemma user_ok_world:
  "answered lib w' = answered lib w \<Longrightarrow> rwRouter w' = rwRouter w \<Longrightarrow> user_ok lib w' = user_ok lib w"
  by (simp add: user_ok_def [abs_def])

lemma route_inv_step:
  assumes "route_step lib w w'" "route_inv lib w"
  shows "route_inv lib w'"
proof -
  note inv = route_invD [OF assms(2)]
  show ?thesis
    using assms(1)
  proof (cases rule: route_step.cases)
    case (store ch)
    have keep: "answered lib w g host cls \<Longrightarrow> answered lib w' g host cls" for g host cls
      by (rule answered_store [of w' w "rules_of (change ch (rwRouter w))"]) (simp_all add: store)
    have u: "user_ok lib w' (rwUsers w i)" for i
      by (rule user_ok_mono [OF inv(7) _ keep]) (simp_all add: store(1))
    show ?thesis
      by (rule route_invI) (use inv keep u in \<open>simp_all add: store(1)\<close>)
  next
    case count_up
    have keep: "answered lib w' = answered lib w" by (rule answered_world) (simp_all add: count_up)
    have u: "user_ok lib w' (rwUsers w i)" for i
      by (rule user_ok_mono [OF inv(7)]) (simp add: count_up(1) bump_def, simp only: keep)
    show ?thesis
      by (rule route_invI) (use inv keep u count_up(2) in \<open>simp_all add: count_up(1) bump_def\<close>)
  next
    case (read i host)
    have keep: "answered lib w' = answered lib w" by (rule answered_world) (simp_all add: read)
    have u: "user_ok lib w' = user_ok lib w" by (rule user_ok_world [OF keep]) (simp add: read)
    show ?thesis
      by (rule route_invI) (use inv keep u in \<open>simp_all add: read(1)\<close>, simp add: user_ok_def RuleGeneration_def)
  next
    case (hit i g host cls c)
    have keep: "answered lib w' = answered lib w" by (rule answered_world) (simp_all add: hit)
    have u: "user_ok lib w' = user_ok lib w" by (rule user_ok_world [OF keep]) (simp add: hit)
    have g: "g \<le> roGeneration (rwRouter w)" using inv(7) [of i] hit(2) by (simp add: user_ok_def)
    note c = cache_lookup_inv [OF assms(2) g hit(3)]
    show ?thesis
      by (rule route_invI) (use inv keep u c g in \<open>auto simp: hit(1) user_ok_def\<close>)
  next
    case (miss i g host c)
    have keep: "answered lib w' = answered lib w" by (rule answered_world) (simp_all add: miss)
    have u: "user_ok lib w' = user_ok lib w" by (rule user_ok_world [OF keep]) (simp add: miss)
    have g: "g \<le> roGeneration (rwRouter w)" using inv(7) [of i] miss(2) by (simp add: user_ok_def)
    note c = cache_lookup_inv [OF assms(2) g miss(3)]
    show ?thesis
      by (rule route_invI) (use inv keep u c g in \<open>auto simp: miss(1) user_ok_def\<close>)
  next
    case (classify i g host)
    have keep: "answered lib w' = answered lib w" by (rule answered_world) (simp_all add: classify)
    have u: "user_ok lib w' = user_ok lib w" by (rule user_ok_world [OF keep]) (simp add: classify)
    have g: "g \<le> roGeneration (rwRouter w)" using inv(7) [of i] classify(2) by (simp add: user_ok_def)
    have "answered lib w g host (ClassifyHost lib (Some (rwRouter w)) host)"
      using g inv(1,2) unfolding answered_def
      by (intro exI [of _ "rwVersion w"]) (auto simp: ClassifyHost_rules)
    then show ?thesis
      by (intro route_invI) (use inv keep u g in \<open>auto simp: classify(1) user_ok_def\<close>)
  next
    case (insert_answer i g host cls)
    have keep: "answered lib w' = answered lib w" by (rule answered_world) (simp_all add: insert_answer)
    have u: "user_ok lib w' = user_ok lib w" by (rule user_ok_world [OF keep]) (simp add: insert_answer)
    have a: "answered lib w g host cls" using inv(7) [of i] insert_answer(2) by (simp add: user_ok_def)
    note c = cache_insert_inv [OF assms(2) a]
    show ?thesis
      by (rule route_invI) (use inv keep u c a in \<open>auto simp: insert_answer(1) user_ok_def\<close>)
  qed
qed

interpretation caching: step_invariant route_init "route_step lib" "route_inv lib" for lib
proof unfold_locales
  fix w assume "route_init w"
  then show "route_inv lib w"
    by (intro route_invI) (auto simp: route_init_def newUDPRouteCache_def maxUDPRouteCacheEntries_def user_ok_def)
qed (rule route_inv_step)

section \<open>Properties\<close>

text \<open>
  The routing policy. A target is rejected for IPv6 exactly when IPv6 is off and it is a literal
  IPv6 address. Otherwise hosts of the local network go direct in every mode, the modes direct and
  proxy are absolute, a custom direct rule wins over a custom proxy rule and both over the built-in
  lists, and only the mode that blocks ever blocks, names of the block list alone.
\<close>

theorem routing_policy:
  defines "rejected \<equiv> \<lambda>r host. ShouldIPV6Disable r \<and> IsIPV6 host"
  shows
   "(rdIPV6Rejected (decide lib (Some r) host) \<longleftrightarrow> rejected r host) \<and>
    (rejected r host \<longrightarrow> rdAction (decide lib (Some r) host) = routeBlock) \<and>
    (\<not> rejected r host \<longrightarrow>
      (isLANHost host \<longrightarrow> rdAction (decide lib (Some r) host) = routeDirect) \<and>
      (roProxyRule r = ProxyRuleDirect \<longrightarrow> rdAction (decide lib (Some r) host) = routeDirect) \<and>
      (\<not> isLANHost host \<longrightarrow>
        (roProxyRule r = ProxyRuleProxy \<longrightarrow> rdAction (decide lib (Some r) host) = routeProxy) \<and>
        (roProxyRule r \<notin> {ProxyRuleProxy, ProxyRuleDirect} \<and> MatchHost lib (roCustomDirect r) host \<longrightarrow>
           rdAction (decide lib (Some r) host) = routeDirect) \<and>
        (roProxyRule r \<notin> {ProxyRuleProxy, ProxyRuleDirect} \<and> \<not> MatchHost lib (roCustomDirect r) host \<and>
         MatchHost lib (roCustomProxy r) host \<longrightarrow> rdAction (decide lib (Some r) host) = routeProxy)) \<and>
      (rdAction (decide lib (Some r) host) = routeBlock \<longrightarrow>
         roProxyRule r = ProxyRuleAutoBlock \<and> \<not> isLANHost host \<and> \<not> IsIP host \<and>
         DomainSet_Match lib (roGeoSiteBlock r) host True \<and>
         \<not> DomainSet_Match lib (roGeoSiteDirect r) host False \<and>
         \<not> MatchHost lib (roCustomDirect r) host \<and> \<not> MatchHost lib (roCustomProxy r) host))"
  by (cases "roProxyRule r") (simp_all add: rejected_def decide_def ClassifyHost_def MatchHostRule_def Let_def)

text \<open>
  The reverse mode is the mirror of the automatic mode: for a host that is not local and that no
  custom rule names, the one goes direct exactly when the other takes the proxy.
\<close>

theorem reverse_auto_mirrors_auto:
  assumes "\<not> isLANHost host" "\<not> MatchHost lib (roCustomDirect r) host" "\<not> MatchHost lib (roCustomProxy r) host"
  shows "(MatchHostRule lib (SetProxyRule ProxyRuleReverseAuto r) host = HostRuleDirect \<longleftrightarrow>
      MatchHostRule lib (SetProxyRule ProxyRuleAuto r) host = HostRuleProxy) \<and>
    MatchHostRule lib (SetProxyRule ProxyRuleReverseAuto r) host \<noteq> HostRuleBlock"
proof -
  have "hostAtCN lib (SetProxyRule m r) host = hostAtCN lib r host" for m
    by (simp add: hostAtCN_def ipAtCN_def SetProxyRule_def bump_def split: option.split)
  then show ?thesis
    using assms by (simp add: MatchHostRule_def Let_def) (simp add: SetProxyRule_def bump_def)
qed


text \<open>
  The generation tells when classifications may be kept: it never goes back under any sequence
  of rule changes, and when it is what it was, every host is classified as before.
\<close>

theorem generation_guards_classification:
  "roGeneration r \<le> roGeneration (fold change chs r) \<and>
   (roGeneration (fold change chs r) = roGeneration r \<longrightarrow>
      ClassifyHost lib (Some (fold change chs r)) host = ClassifyHost lib (Some r) host)"
  using changes_generation [of r chs] by auto

section \<open>Concrete instances\<close>

text \<open>A router with a small direct list, a block list and one custom rule of each kind.\<close>

definition example_files :: "string \<Rightarrow> rule_file" where
  "example_files path =
     \<lparr>fiStat = Regular,
      fiData = (if path = ''direct.txt'' then ''corp.example'' @ [CHR 0x0A] else ''*.proxied.example'' @ [CHR 0x0A]),
      fiErr = None\<rparr>"

definition example_router :: "ProxyRule \<Rightarrow> Router" where
  "example_router m =
     projr (Router_New glob_engine example_files (Inr (\<lambda>_. None)) ''baidu.com'' ''ads.example''
       \<lparr>rcProxyRule = m, rcIPV6Rule = IPV6RuleDisable, rcDirectFile = ''direct.txt'', rcProxyFile = ''proxy.txt'',
        rcIPV6NetWorking = False, rcServerIPV6 = []\<rparr>)"

theorem routing_policy_witness:
  "rdAction (decide glob_engine (Some (example_router ProxyRuleAutoBlock)) ''2001:db8::1'') = routeBlock \<and>
   rdAction (decide glob_engine (Some (example_router ProxyRuleAutoBlock)) ''192.168.1.1'') = routeDirect \<and>
   rdAction (decide glob_engine (Some (example_router ProxyRuleAutoBlock)) ''git.corp.example'') = routeDirect \<and>
   rdAction (decide glob_engine (Some (example_router ProxyRuleAutoBlock)) ''a.proxied.example'') = routeProxy"
proof (intro conjI)
  let ?r = "example_router ProxyRuleAutoBlock"
  have "ShouldIPV6Disable ?r" "IsIPV6 ''2001:db8::1''" by code_simp+
  then show "rdAction (decide glob_engine (Some ?r) ''2001:db8::1'') = routeBlock"
    using routing_policy [of glob_engine ?r "''2001:db8::1''"] by blast
  have "\<not> IsIPV6 ''192.168.1.1''" "isLANHost ''192.168.1.1''" by code_simp+
  then show "rdAction (decide glob_engine (Some ?r) ''192.168.1.1'') = routeDirect"
    using routing_policy [of glob_engine ?r "''192.168.1.1''"] by blast
  have m: "roProxyRule ?r \<notin> {ProxyRuleProxy, ProxyRuleDirect}" by code_simp
  have "\<not> IsIPV6 ''git.corp.example''" "\<not> isLANHost ''git.corp.example''"
    "MatchHost glob_engine (roCustomDirect ?r) ''git.corp.example''" by code_simp+
  then show "rdAction (decide glob_engine (Some ?r) ''git.corp.example'') = routeDirect"
    using routing_policy [of glob_engine ?r "''git.corp.example''"] m by blast
  have "\<not> IsIPV6 ''a.proxied.example''" "\<not> isLANHost ''a.proxied.example''"
    "\<not> MatchHost glob_engine (roCustomDirect ?r) ''a.proxied.example''"
    "MatchHost glob_engine (roCustomProxy ?r) ''a.proxied.example''" by code_simp+
  then show "rdAction (decide glob_engine (Some ?r) ''a.proxied.example'') = routeProxy"
    using routing_policy [of glob_engine ?r "''a.proxied.example''"] m by blast
qed

theorem reverse_auto_mirrors_auto_witness:
  "MatchHostRule glob_engine (SetProxyRule ProxyRuleReverseAuto (example_router ProxyRuleAuto)) ''golang.org'' = HostRuleDirect"
proof -
  have "\<not> isLANHost ''golang.org''"
    "\<not> MatchHost glob_engine (roCustomDirect (example_router ProxyRuleAuto)) ''golang.org''"
    "\<not> MatchHost glob_engine (roCustomProxy (example_router ProxyRuleAuto)) ''golang.org''"
    "MatchHostRule glob_engine (SetProxyRule ProxyRuleAuto (example_router ProxyRuleAuto)) ''golang.org'' = HostRuleProxy"
    by code_simp+
  then show ?thesis using reverse_auto_mirrors_auto by blast
qed

theorem generation_guards_classification_witness:
  "ClassifyHost glob_engine (Some (fold change [Learn_direct_domain ''Corp.Example''] (example_router ProxyRuleAuto))) ''golang.org'' =
   ClassifyHost glob_engine (Some (example_router ProxyRuleAuto)) ''golang.org''"
proof -
  have "roGeneration (fold change [Learn_direct_domain ''Corp.Example''] (example_router ProxyRuleAuto)) =
      roGeneration (example_router ProxyRuleAuto)"
    by code_simp
  then show ?thesis
    using generation_guards_classification by blast
qed

text \<open>The spelling of a host matters to \<open>hostAtCN\<close>, which looks at the suffix before normalising.\<close>

lemma hostAtCN_spelling:
  "hostAtCN glob_engine (example_router ProxyRuleAuto) ''example.cn''"
  "\<not> hostAtCN glob_engine (example_router ProxyRuleAuto) ''example.CN''"
  "\<not> hostAtCN glob_engine (example_router ProxyRuleAuto) ''example.cn.''"
  by code_simp+

text \<open>One user of the cache that misses, classifies and inserts.\<close>

lemma cached_once:
  fixes r :: Router
  assumes "roGeneration r = g"
  shows "\<exists>w. reachable_from route_init (route_step lib) w \<and> rwPending w = 0 \<and> rwRouter w = r \<and>
    ucGeneration (rwCache w) = g \<and> ucEntries (rwCache w) host = Some (ClassifyHost lib (Some r) host)"
proof -
  define w0 where "w0 = \<lparr>rwRouter = r, rwPending = 0, rwCache = newUDPRouteCache, rwUsers = (\<lambda>_. Idle),
    rwRules = (\<lambda>_. rules_of r), rwVersion = g, rwAnswers = {}\<rparr>"
  define w1 where "w1 = w0\<lparr>rwUsers := (rwUsers w0)(0 := Read_generation (RuleGeneration (Some (rwRouter w0))) host)\<rparr>"
  define c where "c = (newUDPRouteCache\<lparr>ucGeneration := g\<rparr>)"
  define w2 where "w2 = w1\<lparr>rwUsers := (rwUsers w1)(0 := Missed g host), rwCache := c\<rparr>"
  define cls where "cls = ClassifyHost lib (Some (rwRouter w2)) host"
  define w3 where "w3 = w2\<lparr>rwUsers := (rwUsers w2)(0 := Classified g host cls)\<rparr>"
  define w4 where "w4 = w3\<lparr>rwUsers := (rwUsers w3)(0 := Idle), rwCache := cache_insert g host cls (rwCache w3),
      rwAnswers := insert (g, host, cls) (rwAnswers w3)\<rparr>"
  note defs = w0_def w1_def w2_def w3_def
  have r0: "reachable_from route_init (route_step lib) w0"
    by (rule reachable_from.start) (simp add: route_init_def w0_def assms)
  have r1: "reachable_from route_init (route_step lib) w1"
    unfolding w1_def by (rule reachable_from.step [OF r0 route_step.read]) (simp add: w0_def)
  have "cache_lookup g host (rwCache w1) = (None, c)"
    by (simp add: cache_lookup_def defs c_def newUDPRouteCache_def Let_def)
  then have r2: "reachable_from route_init (route_step lib) w2"
    unfolding w2_def
    by (rule reachable_from.step [OF r1 route_step.miss, rotated])
      (simp add: w1_def w0_def RuleGeneration_def assms)
  have r3: "reachable_from route_init (route_step lib) w3"
    unfolding w3_def cls_def by (rule reachable_from.step [OF r2 route_step.classify]) (simp add: w2_def)
  have r4: "reachable_from route_init (route_step lib) w4"
    unfolding w4_def by (rule reachable_from.step [OF r3 route_step.insert_answer]) (simp add: w3_def)
  show ?thesis
    by (rule exI [of _ w4]) (simp add: r4, simp add: w4_def defs cls_def c_def cache_insert_def newUDPRouteCache_def maxUDPRouteCacheEntries_def)
qed


end
