(* ===== verification/Interception.thy ===== *)
theory Interception
  imports Interceptor Routing NextProxy
begin

text \<open>
  What the interception of DNS guarantees: replies fit their queries, the server's own name stays out
  of the tunnel, the two caches stay apart, an answer from the tunnel serves later queries, and addresses
  go where the names they were resolved from go.
\<close>

section \<open>Replies\<close>

text \<open>What \<open>miekg/dns\<close> documents of \<open>SetReply\<close>: a reply to the request, with what the message had in its sections.\<close>

definition replies_documented :: "dns_lib \<Rightarrow> bool" where
  "replies_documented lib \<longleftrightarrow>
     (\<forall>m r. mId (dnSetReply lib m r) = mId r \<and> mAnswer (dnSetReply lib m r) = mAnswer m \<and> mResponse (dnSetReply lib m r))"

lemma dns_plan_router [simp]:
  "diRouter (snd (dns_plan w now msg q d)) = diRouter d" "diCache (snd (dns_plan w now msg q d)) = diCache d"
  by (auto simp: dns_plan_def Let_def split: prod.splits option.splits if_splits)

lemma dns_plan_action:
  assumes "dns_plan w now msg q d = (plan, d')"
  shows "plAction plan = dnsActionBlock \<longleftrightarrow> MatchHostRule (dwRegexp w) (diRouter d) (TrimSuffix (qName q) ''.'') = HostRuleBlock"
    and "plAction plan = dnsActionCacheHit m \<Longrightarrow> mId m = mId msg"
    and "plAction plan = dnsActionProxy \<Longrightarrow> \<not> isServerDomain d (TrimSuffix (qName q) ''.'')"
    and "plAction plan \<noteq> dnsActionBlock \<Longrightarrow> qType q = TypeAAAA \<Longrightarrow> ShouldIPV6Disable (diRouter d) \<Longrightarrow> plAction plan = dnsActionEmpty"
    and "plDomain plan = TrimSuffix (qName q) ''.''"
  using assms by (auto simp: dns_plan_def Let_def isServerDomain_def split: prod.splits option.splits if_splits)

text \<open>
  A DNS reply of the client fits its query. Whatever the caches, the network and the rules are: a
  reply carries the identifier of the query; a blocked name gets a reply without answers, and nothing
  is asked or cached for it; and a query for IPv6 addresses is never answered with any while IPv6 is
  disabled.
\<close>

theorem dns_reply_fits_query:
  assumes "replies_documented (dwDNS w)" "handleUDPQuery w src dst raw msg q d n = (Answered m, d', n')"
  shows "mId m = mId msg \<and>
    (MatchHostRule (dwRegexp w) (diRouter d) (TrimSuffix (qName q) ''.'') = HostRuleBlock \<longrightarrow>
       mAnswer m = [] \<and> mResponse m \<and> n' = n \<and> diCache d' = diCache d) \<and>
    (qType q = TypeAAAA \<and> ShouldIPV6Disable (diRouter d) \<longrightarrow> mAnswer m = [])"
proof -
  obtain plan d1 where p: "dns_plan w (dwNow w n) msg q d = (plan, d1)" by fastforce
  have k: "diCache d1 = diCache d" "diRouter d1 = diRouter d" using dns_plan_router [of w "dwNow w n" msg q d] p by simp_all
  have e: "executeSync w plan msg q dst d1 n = (Inr m, d', n')" "plAction plan \<noteq> dnsActionProxy"
    using assms(2) p by (auto simp: handleUDPQuery_def proxyUDPQuery_def Let_def split: prod.splits sum.splits if_splits)
  show ?thesis
  proof (cases "plAction plan")
    case dnsActionBlock
    then show ?thesis using e k by (auto simp: executeSync_def blockedDNSReply_def)
  next
    case dnsActionEmpty
    then show ?thesis using e dns_plan_action(1) [OF p] assms(1)
      by (auto simp: executeSync_def emptyDNSReply_def replies_documented_def empty_msg_def)
  next
    case (dnsActionCacheHit c)
    then have "m = c" using e by (simp add: executeSync_def)
    with dns_plan_action(2) [OF p dnsActionCacheHit] have "mId m = mId msg" by simp
    moreover have "\<not> (qType q = TypeAAAA \<and> ShouldIPV6Disable (diRouter d))" using dns_plan_action(4) [OF p] dnsActionCacheHit by auto
    moreover have "MatchHostRule (dwRegexp w) (diRouter d) (TrimSuffix (qName q) ''.'') \<noteq> HostRuleBlock"
      using dns_plan_action(1) [OF p] dnsActionCacheHit by simp
    ultimately show ?thesis by blast
  next
    case dnsActionDirect
    then have "mId m = mId msg" using e by (auto simp: executeSync_def split: prod.splits sum.splits)
    moreover have "\<not> (qType q = TypeAAAA \<and> ShouldIPV6Disable (diRouter d))" using dns_plan_action(4) [OF p] dnsActionDirect by auto
    moreover have "MatchHostRule (dwRegexp w) (diRouter d) (TrimSuffix (qName q) ''.'') \<noteq> HostRuleBlock"
      using dns_plan_action(1) [OF p] dnsActionDirect by simp
    ultimately show ?thesis by blast
  qed (use e in simp)
qed

text \<open>
  The name of the proxy server is never resolved through the tunnel, whatever the rules say: opening
  the tunnel needs that very name, and the client would wait for itself.
\<close>

theorem server_name_stays_out_of_tunnel:
  assumes "isServerDomain d (TrimSuffix (qName q) ''.'')"
  shows "\<nexists>key payload. fst (handleUDPQuery w src dst raw msg q d n) = Sent_proxied key payload"
proof -
  obtain plan d1 where p: "dns_plan w (dwNow w n) msg q d = (plan, d1)" by fastforce
  then have "plAction plan \<noteq> dnsActionProxy" using dns_plan_action(3) [OF p] assms by blast
  then show ?thesis using p by (auto simp: handleUDPQuery_def split: prod.splits sum.splits)
qed

section \<open>The caches\<close>

lemma Cache_Set_other:
  "caProxied (snd (Cache_Set lib bc rnd now msg True c)) = caProxied c" "caDirect (snd (Cache_Set lib bc rnd now msg False c)) = caDirect c"
  "caServerDomain (snd (Cache_Set lib bc rnd now msg b c)) = caServerDomain c"
  by (auto simp: Cache_Set_def Let_def split: list.splits option.splits sum.splits prod.splits)

lemma resolveDirect_cache: "caProxied (diCache (fst (snd (resolveDirectDNS w msg q domain reqServer d n)))) = caProxied (diCache d)"
  using Cache_Set_other(1) by (auto simp: resolveDirectDNS_def Let_def split: prod.splits sum.splits)

text \<open>
  The two caches never mix. Handling a query changes at most the cache of direct answers, and
  processing an answer from the tunnel changes at most the cache of answers from the tunnel: a
  forged answer to a direct query cannot be served for a name that goes through the tunnel.
\<close>

theorem dns_caches_apart:
  "caProxied (diCache (fst (snd (handleUDPQuery w src dst raw msg q d n)))) = caProxied (diCache d) \<and>
   caDirect (diCache (snd (postProcessProxied w now data d))) = caDirect (diCache d)"
proof
  obtain plan d1 where p: "dns_plan w (dwNow w n) msg q d = (plan, d1)" by fastforce
  have k: "diCache d1 = diCache d" using dns_plan_router [of w "dwNow w n" msg q d] p by simp
  have "caProxied (diCache (fst (snd (executeSync w plan msg q dst d1 n)))) = caProxied (diCache d1)"
    using resolveDirect_cache [of w msg q "plDomain plan" dst "d1\<lparr>diStats := RecordDNSDirectQuery (diStats d1)\<rparr>" n]
    by (auto simp: executeSync_def split: dnsAction.splits prod.splits sum.splits)
  then show "caProxied (diCache (fst (snd (handleUDPQuery w src dst raw msg q d n)))) = caProxied (diCache d)"
    using p k by (auto simp: handleUDPQuery_def proxyUDPQuery_def Let_def split: prod.splits sum.splits)
  have "caDirect (diCache (snd (snd (finishProxied w now m domain d)))) = caDirect (diCache d)" for m domain
    using Cache_Set_other(2) by (auto simp: finishProxied_def Let_def split: list.splits prod.splits)
  then show "caDirect (diCache (snd (postProcessProxied w now data d))) = caDirect (diCache d)"
    by (auto simp: postProcessProxied_def split: option.splits list.splits prod.splits sum.splits bool.splits)
      (metis snd_conv)+
qed

section \<open>Where addresses go\<close>

lemma learn_proxy_step:
  assumes "roCustomProxy r = Some s"
  shows "\<exists>s'. roCustomProxy (learn_proxy kv r) = Some s' \<and> setIps s \<subseteq> setIps s' \<and> setDomains s \<subseteq> setDomains s' \<and>
    setCidrs s' = setCidrs s \<and> setPatterns s' = setPatterns s \<and> roCustomDirect (learn_proxy kv r) = roCustomDirect r \<and>
    roProxyRule (learn_proxy kv r) = roProxyRule r \<and>
    (fst kv \<noteq> ''CNAME'' \<longrightarrow> (\<forall>b. ParseIP (snd kv) = Some b \<longrightarrow> canonicalIP b \<in> setIps s'))"
  using assms
  by (cases kv) (auto simp: learn_proxy_def AddProxyDomain_def AddProxyIP_def AddIP_cases AddDomain_cases bump_def Let_def
    addIPLocked_def addDomainLocked_def count_def split: option.splits)

lemma learn_proxy_all:
  assumes "roCustomProxy r = Some s"
  shows "\<exists>s'. roCustomProxy (fold learn_proxy kvs r) = Some s' \<and> setIps s \<subseteq> setIps s' \<and>
    roCustomDirect (fold learn_proxy kvs r) = roCustomDirect r \<and> roProxyRule (fold learn_proxy kvs r) = roProxyRule r \<and>
    (\<forall>(kind, value) \<in> set kvs. kind \<noteq> ''CNAME'' \<longrightarrow> (\<forall>b. ParseIP value = Some b \<longrightarrow> canonicalIP b \<in> setIps s'))"
  using assms
proof (induction kvs arbitrary: r s)
  case (Cons kv kvs)
  obtain s1 where 1: "roCustomProxy (learn_proxy kv r) = Some s1" "setIps s \<subseteq> setIps s1" "roCustomDirect (learn_proxy kv r) = roCustomDirect r"
      "roProxyRule (learn_proxy kv r) = roProxyRule r"
      "fst kv \<noteq> ''CNAME'' \<longrightarrow> (\<forall>b. ParseIP (snd kv) = Some b \<longrightarrow> canonicalIP b \<in> setIps s1)"
    using learn_proxy_step [OF Cons.prems, of kv] by blast
  obtain s2 where 2: "roCustomProxy (fold learn_proxy kvs (learn_proxy kv r)) = Some s2" "setIps s1 \<subseteq> setIps s2"
      "roCustomDirect (fold learn_proxy kvs (learn_proxy kv r)) = roCustomDirect (learn_proxy kv r)"
      "roProxyRule (fold learn_proxy kvs (learn_proxy kv r)) = roProxyRule (learn_proxy kv r)"
      "\<forall>(kind, value) \<in> set kvs. kind \<noteq> ''CNAME'' \<longrightarrow> (\<forall>b. ParseIP value = Some b \<longrightarrow> canonicalIP b \<in> setIps s2)"
    using Cons.IH [OF 1(1)] by blast
  have "\<forall>(kind, value) \<in> set (kv # kvs). kind \<noteq> ''CNAME'' \<longrightarrow> (\<forall>b. ParseIP value = Some b \<longrightarrow> canonicalIP b \<in> setIps s2)"
    using 1(5) 2(2,5) by (cases kv) auto
  then show ?case using 1 2 by auto
qed auto


section \<open>Answers from the tunnel\<close>

lemma ipv6_cong: "roIpv6Rule r' = roIpv6Rule r \<Longrightarrow> roIpv6 r' = roIpv6 r \<Longrightarrow> ShouldIPV6Disable r' = ShouldIPV6Disable r"
  by (simp add: ShouldIPV6Disable_def split: IPV6Rule.split)

lemma add_ipv6 [simp]:
  "ShouldIPV6Disable (AddProxyIP v r) = ShouldIPV6Disable r" "ShouldIPV6Disable (AddProxyDomain v r) = ShouldIPV6Disable r"
  "ShouldIPV6Disable (AddDirectIP v r) = ShouldIPV6Disable r" "ShouldIPV6Disable (AddDirectDomain v r) = ShouldIPV6Disable r"
  by (rule ipv6_cong; simp add: AddProxyDomain_def AddProxyIP_def AddDirectDomain_def AddDirectIP_def bump_def Let_def case_prod_unfold)+

lemma learn_ipv6 [simp]: "ShouldIPV6Disable (learnDNSAnswers lib msg domain isDirect r) = ShouldIPV6Disable r"
proof -
  have 1: "ShouldIPV6Disable (learn_proxy kv r) = ShouldIPV6Disable r" "ShouldIPV6Disable (learn_direct kv r) = ShouldIPV6Disable r" for kv r
    by (simp_all add: learn_proxy_def learn_direct_def case_prod_unfold)
  have "ShouldIPV6Disable (fold learn_proxy kvs r) = ShouldIPV6Disable r" "ShouldIPV6Disable (fold learn_direct kvs r) = ShouldIPV6Disable r" for kvs
    by (induction kvs arbitrary: r) (simp_all add: 1)
  then show ?thesis by (simp add: learnDNSAnswers_def)
qed

lemma postProcess_stores:
  assumes "cache_faithful (dwCache w)" "dnUnpack (dwDNS w) data = Some resp" "mResponse resp" "mQuestion resp = q # qs"
    and "qType q = TypeA \<or> qType q = TypeAAAA" "\<not> (ShouldIPV6Disable (diRouter d) \<and> qType q = TypeAAAA)"
    and "packs (dwDNS w) (snd (NormalizeEDNS0Answer resp)) v"
    and "cacheTTL (dwRnd w) (snd (NormalizeEDNS0Answer resp)) (caServerDomain (diCache d)) = Some ttl"
  shows "diCache (snd (postProcessProxied w now data d)) =
      (diCache d)\<lparr>caProxied := snd (bcSet (dwCache w) (caProxied (diCache d)) (seconds now) (cache_key (dwDNS w) q) v ttl)\<rparr> \<and>
    ShouldIPV6Disable (diRouter (snd (postProcessProxied w now data d))) = ShouldIPV6Disable (diRouter d)"
proof -
  have q': "mQuestion (snd (NormalizeEDNS0Answer resp)) = q # qs" using assms(4) by simp
  note st = Cache_Set_stores [OF assms(1,7) q' assms(5,8), of "seconds now" False]
  have f: "\<exists>ch m d2. finishProxied w now resp domain d = (ch, m, d2) \<and>
      diCache d2 = (diCache d)\<lparr>caProxied := snd (bcSet (dwCache w) (caProxied (diCache d)) (seconds now) (cache_key (dwDNS w) q) v ttl)\<rparr> \<and>
      ShouldIPV6Disable (diRouter d2) = ShouldIPV6Disable (diRouter d)" for domain
    using assms(4,6) st by (auto simp: finishProxied_def Let_def split: prod.splits)
  obtain ch m d2 where "finishProxied w now resp (NormalizeHost (qName q)) d = (ch, m, d2)"
      "diCache d2 = (diCache d)\<lparr>caProxied := snd (bcSet (dwCache w) (caProxied (diCache d)) (seconds now) (cache_key (dwDNS w) q) v ttl)\<rparr>"
      "ShouldIPV6Disable (diRouter d2) = ShouldIPV6Disable (diRouter d)"
    using f [of "NormalizeHost (qName q)"] by blast
  then show ?thesis using assms(2-4)
    by (cases ch) (auto simp: postProcessProxied_def IsDNSResponse_def split: sum.splits)
qed

text \<open>
  An answer that came through the tunnel serves the queries after it. Once it has been processed, a
  query for the same name, in any spelling, that would go through the tunnel is answered at once with
  the repaired answer under the identifier of the new query, and without touching the network, until the
  time of the answer is over.
\<close>

theorem tunnel_answer_serves_later_queries:
  assumes "cache_faithful (dwCache w)" "dnUnpack (dwDNS w) data = Some resp" "mResponse resp" "mQuestion resp = q # qs"
    and "qType q = TypeA \<or> qType q = TypeAAAA" "\<not> (ShouldIPV6Disable (diRouter d) \<and> qType q = TypeAAAA)"
    and "packs (dwDNS w) (snd (NormalizeEDNS0Answer resp)) v"
    and "cacheTTL (dwRnd w) (snd (NormalizeEDNS0Answer resp)) (caServerDomain (diCache d)) = Some ttl"
    and "postProcessProxied w now data d = (data', d')"
    and "ToLower (qName q2) = ToLower (qName q)" "qType q2 = qType q"
    and "MatchHostRule (dwRegexp w) (diRouter d') (TrimSuffix (qName q2) ''.'') = HostRuleProxy"
    and "\<not> isServerDomain d' (TrimSuffix (qName q2) ''.'')"
    and "ttl = 0 \<or> seconds (dwNow w n) < seconds now + int ttl"
  shows "\<exists>d''. handleUDPQuery w src dst raw msg q2 d' n = (Answered ((snd (NormalizeEDNS0Answer resp))\<lparr>mId := mId msg\<rparr>), d'', n)"
proof -
  let ?m = "snd (NormalizeEDNS0Answer resp)"
  have c: "diCache d' = (diCache d)\<lparr>caProxied := snd (bcSet (dwCache w) (caProxied (diCache d)) (seconds now) (cache_key (dwDNS w) q) v ttl)\<rparr>"
      "ShouldIPV6Disable (diRouter d') = ShouldIPV6Disable (diRouter d)"
    using postProcess_stores [OF assms(1-8), of now] assms(9) by simp_all
  have key: "ToLower (qName q2) @ dnTypeName (dwDNS w) (qType q2) = cache_key (dwDNS w) q" by (simp add: cache_key_def assms(10,11))
  have hit: "\<exists>g. Cache_Get (dwDNS w) (dwCache w) (seconds (dwNow w n)) (qName q2) (dnTypeName (dwDNS w) (qType q2)) False (diCache d') g0 = (Some ?m, g)" for g0
    using cache_faithfulD(1) [OF assms(1,14)] assms(7) by (simp add: Cache_Get_def c(1) key packs_def)
  have "\<exists>plan d1. dns_plan w (dwNow w n) msg q2 d' = (plan, d1) \<and> plAction plan = dnsActionCacheHit (?m\<lparr>mId := mId msg\<rparr>)"
  proof (cases "log_mark (dnsLogKey (TrimSuffix (qName q2) ''.'') (dnTypeName (dwDNS w) (qType q2))) (diQueryLog d')")
    case (Pair first qlog)
    obtain g where "Cache_Get (dwDNS w) (dwCache w) (seconds (dwNow w n)) (qName q2) (dnTypeName (dwDNS w) (qType q2)) False (diCache d') (diStats d') = (Some ?m, g)"
      using hit by blast
    then show ?thesis using Pair assms(6,11-13) c(2) by (auto simp: dns_plan_def Let_def isServerDomain_def)
  qed
  then show ?thesis by (auto simp: handleUDPQuery_def executeSync_def)
qed

section \<open>An example\<close>

definition no_log :: dnsLogOnce where
  "no_log = \<lparr>loSeen = {}, loOrder = [], loHead = 0\<rparr>"

definition demo_interceptor :: "(string \<times> bytes \<times> int option) list dnsInterceptor" where
  "demo_interceptor = \<lparr>diRouter = example_router ProxyRuleAutoBlock, diCache = empty_cache\<lparr>caServerDomain := ''proxy.net''\<rparr>,
     diServerDomain = ''proxy.net'', diBuiltin = \<lparr>bdDown = False, bdDownAt = 0\<rparr>, diStats = init_stats,
     diQueryLog = no_log, diAnswerLog = no_log\<rparr>"

definition demo_dns_world :: "((string \<times> bytes \<times> int option) list, nat) dns_world" where
  "demo_dns_world = \<lparr>dwRegexp = glob_engine, dwDNS = demo_dns, dwCache = list_bytes, dwRnd = (\<lambda>_. 0), dwEdnsSize = (\<lambda>_. None),
     dwSetEdnsSize = (\<lambda>_ m. m), dwNow = int, dwSystem = (\<lambda>n. ([], n)), dwInvalidate = (\<lambda>n. n),
     dwAsk = (\<lambda>m servers n. (map (\<lambda>_. Some (Inl (Msg ''timeout''))) servers, Suc n))\<rparr>"

definition demo_query_msg :: "string \<Rightarrow> dns_Msg" where
  "demo_query_msg name = \<lparr>mId = 42, mResponse = False, mTruncated = False, mRcode = 0, mQuestion = [\<lparr>qName = name, qType = 1\<rparr>],
     mAnswer = [], mNs = [], mExtra = []\<rparr>"

theorem dns_reply_fits_query_witness:
  "\<exists>m d'. handleUDPQuery demo_dns_world ''c'' ''8.8.8.8:53'' [9] (demo_query_msg ''ads.example.'') \<lparr>qName = ''ads.example.'', qType = 1\<rparr> demo_interceptor 5 =
     (Answered m, d', 5) \<and> mId m = 42 \<and> mAnswer m = []"
proof -
  let ?q = "\<lparr>qName = ''ads.example.'', qType = 1\<rparr>"
  have b: "MatchHostRule (dwRegexp demo_dns_world) (diRouter demo_interceptor) (TrimSuffix (qName ?q) ''.'') = HostRuleBlock" by code_simp
  obtain plan d1 where p: "dns_plan demo_dns_world (dwNow demo_dns_world 5) (demo_query_msg ''ads.example.'') ?q demo_interceptor = (plan, d1)" by fastforce
  have "plAction plan = dnsActionBlock" using dns_plan_action(1) [OF p] b by blast
  then obtain m d' n' where h: "handleUDPQuery demo_dns_world ''c'' ''8.8.8.8:53'' [9] (demo_query_msg ''ads.example.'') ?q demo_interceptor 5 = (Answered m, d', n')"
    using p by (auto simp: handleUDPQuery_def executeSync_def)
  have r: "replies_documented (dwDNS demo_dns_world)" by (simp add: replies_documented_def demo_dns_world_def demo_dns_def)
  show ?thesis using dns_reply_fits_query [OF r h] b h by (auto simp: demo_query_msg_def)
qed

theorem server_name_stays_out_of_tunnel_witness:
  "\<nexists>key payload. fst (handleUDPQuery demo_dns_world ''c'' ''8.8.8.8:53'' [9] (demo_query_msg ''Proxy.NET.'') \<lparr>qName = ''Proxy.NET.'', qType = 1\<rparr>
     demo_interceptor 5) = Sent_proxied key payload"
proof -
  have "isServerDomain demo_interceptor (TrimSuffix (qName \<lparr>qName = ''Proxy.NET.'', qType = 1\<rparr>) ''.'')" by code_simp
  then show ?thesis by (rule server_name_stays_out_of_tunnel)
qed

definition proxied_answer :: dns_Msg where
  "proxied_answer = demo_answer\<lparr>mQuestion := [\<lparr>qName = ''a.proxied.example.'', qType = 1\<rparr>]\<rparr>"


theorem tunnel_answer_serves_later_queries_witness:
  "\<exists>data' d' d''. postProcessProxied demo_dns_world 0 [1] demo_interceptor = (data', d') \<and>
     handleUDPQuery demo_dns_world ''c'' ''1.1.1.1:53'' [9] (demo_query_msg ''EXAMPLE.com.'') \<lparr>qName = ''EXAMPLE.com.'', qType = 1\<rparr> d' 5 =
       (Answered (demo_answer\<lparr>mId := 42\<rparr>), d'', 5)"
proof -
  let ?q = "\<lparr>qName = ''Example.COM.'', qType = 1\<rparr>" and ?q2 = "\<lparr>qName = ''EXAMPLE.com.'', qType = 1\<rparr>"
  have n: "NormalizeEDNS0Answer demo_answer = (False, demo_answer)" by (rule normalize_id) (simp add: no_opt_def demo_answer_def)
  obtain ttl where t: "cacheTTL (dwRnd demo_dns_world) (snd (NormalizeEDNS0Answer demo_answer)) (caServerDomain (diCache demo_interceptor)) = Some ttl"
      "1800 \<le> ttl"
  proof -
    have "\<not> EqualFold (TrimSuffix ''Example.COM.'' ''.'') ''proxy.net''" by code_simp
    then have "\<exists>ttl. cacheTTL (\<lambda>_. 0) demo_answer ''proxy.net'' = Some ttl \<and> 1800 \<le> ttl"
      by (simp add: cacheTTL_def demo_answer_def hasAnswerType_def jitterTTL_def dnsCacheTTL_def ttl_defs Let_def)
    then show thesis using that n by (auto simp: demo_dns_world_def demo_interceptor_def)
  qed
  obtain data' d' where p: "postProcessProxied demo_dns_world 0 [1] demo_interceptor = (data', d')" by fastforce
  have r: "diRouter d' = diRouter demo_interceptor" "diServerDomain d' = ''proxy.net''"
  proof -
    have "\<not> isCustomDomain glob_engine (Some (example_router ProxyRuleAutoBlock)) (roCustomProxy (example_router ProxyRuleAutoBlock)) (NormalizeHost ''Example.COM.'')"
      by code_simp
    then show "diRouter d' = diRouter demo_interceptor" "diServerDomain d' = ''proxy.net''"
      using p n by (auto simp: postProcessProxied_def demo_dns_world_def demo_dns_def demo_interceptor_def finishProxied_def IsDNSResponse_def
        learnDNSAnswers_def Let_def demo_answer_def split: if_splits)
  qed
  have "MatchHostRule (dwRegexp demo_dns_world) (diRouter demo_interceptor) (TrimSuffix (qName ?q2) ''.'') = HostRuleProxy" by code_simp
  moreover have "\<not> EqualFold (TrimSuffix (qName ?q2) ''.'') ''proxy.net''" by code_simp
  moreover have "ToLower (qName ?q2) = ToLower (qName ?q)" by code_simp
  ultimately have "\<exists>d''. handleUDPQuery demo_dns_world ''c'' ''1.1.1.1:53'' [9] (demo_query_msg ''EXAMPLE.com.'') ?q2 d' 5 =
      (Answered ((snd (NormalizeEDNS0Answer demo_answer))\<lparr>mId := mId (demo_query_msg ''EXAMPLE.com.'')\<rparr>), d'', 5)"
    using t demo_packs n r list_bytes_faithful
    by (intro tunnel_answer_serves_later_queries [where q = ?q and qs = "[]", OF _ _ _ _ _ _ _ t(1) p])
      (auto simp: isServerDomain_def demo_dns_world_def demo_dns_def demo_answer_def seconds_def)
  then show ?thesis using p n by (auto simp: demo_query_msg_def)
qed

end
