(* ===== verification/Socks5.thy ===== *)
theory Socks5
  imports UdpPool Interception UdpTunnel
begin

text \<open>
  \<open>client/proxy/socks5.go\<close>, \<open>socks5_lifecycle.go\<close> and \<open>udp.go\<close>: the SOCKS5 entrance. The protocol itself is
  a library's; the program decides what to answer, where a connection goes and which datagrams are
  relayed. What a handler does to the outside is kept as a list of events.
\<close>

section \<open>Replies and credentials\<close>

definition repSuccess :: nat where "repSuccess = 0"
definition repServerFailure :: nat where "repServerFailure = 1"
definition repNotAllowed :: nat where "repNotAllowed = 2"
definition repHostUnreachable :: nat where "repHostUnreachable = 4"

lemmas rep_defs = repSuccess_def repServerFailure_def repNotAllowed_def repHostUnreachable_def

datatype net_addr = TCPAddr "(bytes \<times> nat) option" | UDPAddr "(bytes \<times> nat) option" | Other_addr

record socks_reply =
  rpCode :: nat
  rpAtyp :: nat
  rpIP :: bytes
  rpPort :: nat

text \<open>The frame of \<open>writeSocksReply\<close>; 1 and 4 are the address types of the protocol.\<close>

definition reply_frame :: "nat \<Rightarrow> net_addr option \<Rightarrow> socks_reply" where
  "reply_frame code bindAddr =
     (let zero = \<lparr>rpCode = code, rpAtyp = 1, rpIP = v4InV6Prefix @ [0, 0, 0, 0], rpPort = 0\<rparr>
      in if code = repSuccess
         then (let frame = (case bindAddr of
                     Some (TCPAddr (Some (ip, port))) \<Rightarrow> zero\<lparr>rpIP := ip, rpPort := port\<rparr>
                   | Some (UDPAddr (Some (ip, port))) \<Rightarrow> zero\<lparr>rpIP := ip, rpPort := port\<rparr>
                   | _ \<Rightarrow> zero)
               in if To4 (rpIP frame) \<noteq> None then frame\<lparr>rpAtyp := 1\<rparr>
                  else if length (rpIP frame) = 16 then frame\<lparr>rpAtyp := 4\<rparr> else frame)
         else zero)"

record socksCredentials =
  scUser :: string
  scPassword :: string

definition cred_Valid :: "socksCredentials \<Rightarrow> string \<Rightarrow> string \<Rightarrow> bool" where
  "cred_Valid c user password \<longleftrightarrow> user = scUser c \<and> password = scPassword c"

text \<open>The authentication \<open>NewSocks5Server\<close> asks for: none, or the one pair of credentials.\<close>

definition socks_auth :: "string \<Rightarrow> string \<Rightarrow> socksCredentials option" where
  "socks_auth username password =
     (if username \<noteq> [] \<and> password \<noteq> [] then Some \<lparr>scUser = username, scPassword = password\<rparr> else None)"

section \<open>TCP\<close>

datatype tcp_event = Reply socks_reply | Dialled_direct string | Relayed string | Streamed string | Remote_closed

record tcp_world =
  twRegexp :: regexp_lib
  twRouter :: "Router option"
  twDial :: "string \<Rightarrow> net_addr result"
  twWrite :: "socks_reply \<Rightarrow> go_error option"
  twStream :: "string \<Rightarrow> go_error option"
  twTransient :: "go_error \<Rightarrow> bool"
  twLocal :: net_addr

definition replyError :: "tcp_world \<Rightarrow> nat \<Rightarrow> go_error option \<times> tcp_event list" where
  "replyError w code = (let f = reply_frame code None in (twWrite w f, [Reply f]))"

definition writeSocksSuccessReply :: "tcp_world \<Rightarrow> go_error option \<times> tcp_event list" where
  "writeSocksSuccessReply w = (let f = reply_frame repSuccess (Some (twLocal w)) in (twWrite w f, [Reply f]))"

definition directTCPConnect :: "tcp_world \<Rightarrow> string \<Rightarrow> bool \<Rightarrow> unit result \<times> tcp_event list" where
  "directTCPConnect w target replied =
     (case twDial w target of
        Inl err \<Rightarrow> (Inl err, if replied then [] else snd (replyError w repHostUnreachable))
      | Inr local \<Rightarrow>
          (if replied then (Inr (), [Dialled_direct target])
           else let f = reply_frame repSuccess (Some local)
                in case twWrite w f of
                     Some err \<Rightarrow> (Inl err, [Dialled_direct target, Reply f, Remote_closed])
                   | None \<Rightarrow> (Inr (), [Dialled_direct target, Reply f])))"

definition routeTCPReplied :: "tcp_world \<Rightarrow> string \<Rightarrow> string \<Rightarrow> bool \<Rightarrow> go_error option \<times> tcp_event list" where
  "routeTCPReplied w target host replied =
     (let reject = (\<lambda>code. if replied then (None, []) else replyError w code);
          decision = decide (twRegexp w) (twRouter w) host
      in if rdIPV6Rejected decision then reject repNotAllowed
         else case rdAction decision of
                routeBlock \<Rightarrow> reject repNotAllowed
              | routeDirect \<Rightarrow>
                  (case directTCPConnect w target replied of
                     (Inl err, evs) \<Rightarrow> (Some err, evs)
                   | (Inr _, evs) \<Rightarrow> (None, evs @ [Relayed target, Remote_closed]))
              | routeProxy \<Rightarrow>
                  (case (if replied then (None, []) else writeSocksSuccessReply w) of
                     (Some err, evs) \<Rightarrow> (Some err, evs)
                   | (None, evs) \<Rightarrow>
                       (case twStream w target of
                          None \<Rightarrow> (None, evs @ [Streamed target])
                        | Some err \<Rightarrow> (if twTransient w err then None else Some err, evs @ [Streamed target]))))"

definition routeTCP :: "tcp_world \<Rightarrow> string \<Rightarrow> string \<Rightarrow> go_error option \<times> tcp_event list" where
  "routeTCP w target host = routeTCPReplied w target host False"

section \<open>UDP associations\<close>

record datagram_lib =
  dgParse :: "bytes \<Rightarrow> (nat \<times> string \<times> bytes) result"
  dgNew :: "string \<Rightarrow> bytes \<Rightarrow> bytes result"

record udpRelay =
  rlClientIP :: bytes
  rlPeer :: "(bytes \<times> nat) option"

text \<open>
  One read of \<open>udpRelayLoop\<close> and what becomes of it; \<open>capacity\<close> is that of the pooled buffer. A datagram
  from the client's address makes its source the place to send answers to, even if it is then dropped.
\<close>

datatype relay_turn = Relay_ends | Relay_drops | Relay_handles string bytes

definition relay_turn ::
  "datagram_lib \<Rightarrow> (go_error \<Rightarrow> bool) \<Rightarrow> nat \<Rightarrow> (bytes \<times> (bytes \<times> nat) option) result \<Rightarrow> udpRelay \<Rightarrow> relay_turn \<times> udpRelay" where
  "relay_turn lib tooLong capacity read r =
     (case read of
        Inl err \<Rightarrow> (if tooLong err then Relay_drops else Relay_ends, r)
      | Inr (datagram, src) \<Rightarrow>
          (case src of
             None \<Rightarrow> (Relay_drops, r)
           | Some (ip, port) \<Rightarrow>
               (if As16 ip \<noteq> As16 (rlClientIP r) then (Relay_drops, r)
                else let r = r\<lparr>rlPeer := Some (ip, port)\<rparr>; readBuf = take capacity datagram
                     in if length readBuf = capacity then (Relay_drops, r)
                        else case dgParse lib readBuf of
                               Inl _ \<Rightarrow> (Relay_drops, r)
                             | Inr (frag, target, payload) \<Rightarrow>
                                 (if frag \<noteq> 0 \<or> length payload > MaxUDPDataSize then (Relay_drops, r)
                                  else (Relay_handles target payload, r)))))"

text \<open>The whole loop: the datagrams that are handled, each with its source, and the relay at the end.\<close>

fun udpRelayLoop ::
  "datagram_lib \<Rightarrow> (go_error \<Rightarrow> bool) \<Rightarrow> nat \<Rightarrow> (bytes \<times> (bytes \<times> nat) option) result list \<Rightarrow> udpRelay \<Rightarrow>
     ((bytes \<times> nat) option \<times> string \<times> bytes) list \<times> udpRelay" where
  "udpRelayLoop lib tooLong capacity [] r = ([], r)"
| "udpRelayLoop lib tooLong capacity (read # reads) r =
     (case relay_turn lib tooLong capacity read r of
        (Relay_ends, r) \<Rightarrow> ([], r)
      | (Relay_drops, r) \<Rightarrow> udpRelayLoop lib tooLong capacity reads r
      | (Relay_handles target payload, r) \<Rightarrow>
          (case udpRelayLoop lib tooLong capacity reads r of (hs, r') \<Rightarrow> ((rlPeer r, target, payload) # hs, r')))"

text \<open>\<open>sendToClient\<close>: what is written to the socket, and to whom.\<close>

definition sendToClient :: "datagram_lib \<Rightarrow> udpRelay \<Rightarrow> bytes \<Rightarrow> string \<Rightarrow> (bytes \<times> bytes \<times> nat) option" where
  "sendToClient lib r data target =
     (case dgNew lib target data of
        Inl _ \<Rightarrow> None
      | Inr frame \<Rightarrow> (case rlPeer r of None \<Rightarrow> None | Some peer \<Rightarrow> Some (frame, peer)))"

definition responseDNSMsg :: "datagram_lib \<Rightarrow> dns_lib \<Rightarrow> udpRelay \<Rightarrow> dns_Msg \<Rightarrow> string \<Rightarrow> (bytes \<times> bytes \<times> nat) result" where
  "responseDNSMsg lib dns r msg dst =
     (case dnPack dns msg of
        Inl err \<Rightarrow> Inl err
      | Inr data \<Rightarrow>
          (case dgNew lib dst data of
             Inl err \<Rightarrow> Inl err
           | Inr frame \<Rightarrow> (case rlPeer r of None \<Rightarrow> Inl errSocksServerClosed | Some peer \<Rightarrow> Inr (frame, peer))))"

section \<open>One datagram\<close>

definition IsLinkLocalUnicast :: "bytes \<Rightarrow> bool" where
  "IsLinkLocalUnicast ip =
     (case To4 ip of
        Some v \<Rightarrow> v ! 0 = 169 \<and> v ! 1 = 254
      | None \<Rightarrow> length ip = 16 \<and> ip ! 0 = 0xFE \<and> ip ! 1 AND 0xC0 = 0x80)"

definition isNonRelayableUDPTarget :: "string \<Rightarrow> bool" where
  "isNonRelayableUDPTarget host =
     (case ParseIP host of
        None \<Rightarrow> False
      | Some ip \<Rightarrow> As16 ip = v4InV6Prefix @ [255, 255, 255, 255] \<or> IsMulticast ip \<or> IsLinkLocalUnicast ip)"

record 'c socks_state =
  ssDns :: "'c dnsInterceptor"
  ssRoutes :: udpRouteCache
  ssDisableQUIC :: bool

text \<open>What \<open>handleUDP\<close> does with a datagram: the session it goes to is named by its key in the pool.\<close>

datatype udp_act = Udp_ignored | Udp_failed go_error | Udp_dns dns_outcome | Udp_direct string | Udp_proxied string

definition udp_src :: "bytes \<times> nat \<Rightarrow> string" where
  "udp_src a = JoinHostPort (IP_String (fst a)) (nat_text (snd a))"

definition handleRegularUDP :: "regexp_lib \<Rightarrow> string \<Rightarrow> string \<Rightarrow> 'c socks_state \<Rightarrow> udp_act \<times> 'c socks_state" where
  "handleRegularUDP lib src dst s =
     (case SplitHostPort dst of
        None \<Rightarrow> (Udp_failed (Msg ''malformed address''), s)
      | Some (host, _) \<Rightarrow>
          (case cache_classify lib (Some (diRouter (ssDns s))) host (ssRoutes s) of
             (cls, c) \<Rightarrow>
               (case hcRule cls of
                  HostRuleBlock \<Rightarrow> Udp_ignored
                | HostRuleDirect \<Rightarrow> Udp_direct (''direct_'' @ src @ ''_'' @ dst)
                | HostRuleProxy \<Rightarrow> Udp_proxied (src @ ''_'' @ dst), s\<lparr>ssRoutes := c\<rparr>)))"

definition handleUDP ::
  "('c, 'n) dns_world \<Rightarrow> string \<Rightarrow> string \<Rightarrow> bytes \<Rightarrow> 'c socks_state \<Rightarrow> 'n \<Rightarrow> udp_act \<times> 'c socks_state \<times> 'n" where
  "handleUDP w src dst data s n =
     (case SplitHostPort dst of
        None \<Rightarrow> (Udp_ignored, s, n)
      | Some (host, port) \<Rightarrow>
          (if ssDisableQUIC s \<and> port = ''443'' then (Udp_ignored, s, n)
           else if ShouldIPV6Disable (diRouter (ssDns s)) \<and> IsIPV6 host then (Udp_ignored, s, n)
           else if isNonRelayableUDPTarget host then (Udp_ignored, s, n)
           else case (if port = ''53'' then dnUnpack (dwDNS w) data else None) of
                  Some msg \<Rightarrow>
                    (case mQuestion msg of
                       q # _ \<Rightarrow>
                         (if mResponse msg then (case handleRegularUDP (dwRegexp w) src dst s of (a, s) \<Rightarrow> (a, s, n))
                          else case handleUDPQuery w src dst data msg q (ssDns s) n of
                                 (out, d, n) \<Rightarrow> (Udp_dns out, s\<lparr>ssDns := d\<rparr>, n))
                     | [] \<Rightarrow> (case handleRegularUDP (dwRegexp w) src dst s of (a, s) \<Rightarrow> (a, s, n)))
                | None \<Rightarrow> (case handleRegularUDP (dwRegexp w) src dst s of (a, s) \<Rightarrow> (a, s, n))))"

text \<open>
  \<open>proxyUDPRelay\<close> on the exchange the pool gives: what is sent on it beyond its opening, whether its
  receiving loop is started and whether it is taken out of the pool.
\<close>

record relay_effect =
  reSent :: "bytes list"
  reReceiver :: bool
  reRemoved :: bool

definition proxyUDPRelay ::
  "(nat \<times> bool) result \<Rightarrow> (bytes \<Rightarrow> go_error option) \<Rightarrow> bytes \<Rightarrow> go_error option \<times> relay_effect" where
  "proxyUDPRelay acquired send data =
     (let none = \<lparr>reSent = [], reReceiver = False, reRemoved = False\<rparr>
      in case acquired of
           Inl err \<Rightarrow> (Some err, none)
         | Inr (ue, created) \<Rightarrow>
             (if created then (None, none\<lparr>reReceiver := True\<rparr>)
              else case send data of
                     None \<Rightarrow> (None, none\<lparr>reSent := [data]\<rparr>)
                   | Some err \<Rightarrow>
                       (if errors_is err ErrClosed then None else Some err, none\<lparr>reSent := [data], reRemoved := True\<rparr>)))"

section \<open>Relays and closing\<close>

record relay_table =
  rtRelays :: "nat set"
  rtClosed :: bool

definition addUDPRelay :: "nat \<Rightarrow> relay_table \<Rightarrow> bool \<times> relay_table" where
  "addUDPRelay r t = (if rtClosed t then (False, t) else (True, t\<lparr>rtRelays := insert r (rtRelays t)\<rparr>))"

definition removeUDPRelay :: "nat \<Rightarrow> relay_table \<Rightarrow> relay_table" where
  "removeUDPRelay r t = t\<lparr>rtRelays := rtRelays t - {r}\<rparr>"

text \<open>The critical section of \<open>closeUDPRelays\<close>: the relays whose sockets are closed next.\<close>

definition closeUDPRelays :: "relay_table \<Rightarrow> nat set \<times> relay_table" where
  "closeUDPRelays t = (rtRelays t, t\<lparr>rtRelays := {}, rtClosed := True\<rparr>)"

text \<open>
  Associations and \<open>Close\<close> side by side. A handler holds its socket from \<open>ListenUDP\<close> on; it registers it,
  or, when the server is closed, closes it; a registered one is closed when its association ends or by
  \<open>Close\<close>, whichever comes first.
\<close>

record relay_world =
  rwTable :: relay_table
  rwSockets :: nat
  rwHeld :: "nat set"
  rwClosing :: "nat set"
  rwClosed :: "nat set"

inductive association_step :: "relay_world \<Rightarrow> relay_world \<Rightarrow> bool" where
  listened: "association_step w (w\<lparr>rwSockets := Suc (rwSockets w), rwHeld := insert (rwSockets w) (rwHeld w)\<rparr>)"
| refused: "r \<in> rwHeld w \<Longrightarrow> association_step w (w\<lparr>rwHeld := rwHeld w - {r}, rwClosing := insert r (rwClosing w)\<rparr>)"
| added: "r \<in> rwHeld w \<Longrightarrow> addUDPRelay r (rwTable w) = (ok, t) \<Longrightarrow>
    association_step w (w\<lparr>rwTable := t, rwHeld := rwHeld w - {r}, rwClosing := (if ok then rwClosing w else insert r (rwClosing w))\<rparr>)"
| ended: "r < rwSockets w \<Longrightarrow> r \<notin> rwHeld w \<Longrightarrow>
    association_step w (w\<lparr>rwTable := removeUDPRelay r (rwTable w), rwClosing := insert r (rwClosing w)\<rparr>)"
| server_closed: "closeUDPRelays (rwTable w) = (rs, t) \<Longrightarrow> association_step w (w\<lparr>rwTable := t, rwClosing := rwClosing w \<union> rs\<rparr>)"
| socket_closed: "r \<in> rwClosing w \<Longrightarrow> association_step w (w\<lparr>rwClosing := rwClosing w - {r}, rwClosed := insert r (rwClosed w)\<rparr>)"

definition relay_init :: "relay_world \<Rightarrow> bool" where
  "relay_init w \<longleftrightarrow> rwTable w = \<lparr>rtRelays = {}, rtClosed = False\<rparr> \<and> rwSockets w = 0 \<and> rwHeld w = {} \<and> rwClosing w = {} \<and> rwClosed w = {}"

definition relay_inv :: "relay_world \<Rightarrow> bool" where
  "relay_inv w \<longleftrightarrow> rtRelays (rwTable w) \<union> rwHeld w \<union> rwClosing w \<union> rwClosed w = {..<rwSockets w} \<and>
     (rtClosed (rwTable w) \<longrightarrow> rtRelays (rwTable w) = {})"

text \<open>
  The listener: \<open>Serve\<close> takes it over unless \<open>Close\<close> came first, in which case it closes it; \<open>Close\<close> closes
  the one it finds. The flags say whether a listener is kept and whether one was closed.
\<close>

record listener_state =
  lsClosed :: bool
  lsListener :: bool
  lsReleased :: nat

definition socks_Serve :: "listener_state \<Rightarrow> bool \<times> listener_state" where
  "socks_Serve s = (if lsClosed s then (False, s\<lparr>lsReleased := Suc (lsReleased s)\<rparr>) else (True, s\<lparr>lsListener := True\<rparr>))"

definition socks_Close :: "listener_state \<Rightarrow> listener_state" where
  "socks_Close s =
     (if lsClosed s then s
      else s\<lparr>lsClosed := True, lsListener := False, lsReleased := lsReleased s + (if lsListener s then 1 else 0)\<rparr>)"

end
