(* ===== verification/HttpProxy.thy ===== *)
theory HttpProxy
  imports Socks5 Gate
begin

text \<open>
  \<open>client/proxy/http_proxy.go\<close>: the HTTP entrance. \<open>ServeHTTP\<close> is the order of its checks; \<open>CONNECT\<close> takes
  over the connection and sends it where the shared policy says; other requests are rewritten and left to
  the reverse proxy of \<open>net/http/httputil\<close>, which reaches the network through the SOCKS5 entrance.
\<close>

section \<open>Basic authentication\<close>

definition std_alphabet :: string where
  "std_alphabet = ''ABCDEFGHIJKLMNOPQRSTUVWXYZabcdefghijklmnopqrstuvwxyz0123456789+/''"

text \<open>\<open>base64.StdEncoding\<close>: with padding; line breaks in the input are skipped.\<close>

definition StdEncodeToString :: "bytes \<Rightarrow> string" where
  "StdEncodeToString b =
     (let body = map (\<lambda>n. std_alphabet ! n) (sextets (map unat b))
      in body @ replicate ((4 - length body mod 4) mod 4) (CHR ''=''))"

definition StdDecodeString :: "string \<Rightarrow> bytes option" where
  "StdDecodeString s =
     (let t = filter (\<lambda>c. c \<noteq> CHR 0x0A \<and> c \<noteq> CHR 0x0D) s;
          body = takeWhile (\<lambda>c. c \<noteq> CHR ''='') t; pad = dropWhile (\<lambda>c. c \<noteq> CHR ''='') t;
          vs = map (IndexByte std_alphabet) body
      in if length t mod 4 \<noteq> 0 \<or> pad \<notin> {[], ''='', ''==''} \<or> None \<in> set vs then None
         else map_option (map word_of_nat) (b64_decode (map the vs)))"

definition Cut :: "string \<Rightarrow> char \<Rightarrow> (string \<times> string) option" where
  "Cut s c = (case IndexByte s c of None \<Rightarrow> None | Some i \<Rightarrow> Some (take i s, drop (i + 1) s))"

definition parseBasicAuth :: "string \<Rightarrow> (string \<times> string) option" where
  "parseBasicAuth auth =
     (if length auth < 6 \<or> \<not> EqualFold (take 6 auth) ''Basic '' then None
      else case StdDecodeString (drop 6 auth) of
             None \<Rightarrow> None
           | Some decoded \<Rightarrow> Cut (string_of_bytes decoded) (CHR '':''))"

section \<open>Requests\<close>

text \<open>A request, as \<open>net/http\<close> hands it over; a missing header is empty.\<close>

record http_request =
  hqMethod :: string
  hqURLScheme :: string
  hqURLHost :: string
  hqURLPath :: string
  hqHost :: string
  hqRemoteAddr :: string
  hqHeader :: "(string \<times> string) list"

definition header_Get :: "string \<Rightarrow> http_request \<Rightarrow> string" where
  "header_Get k r = (case map_of (hqHeader r) k of None \<Rightarrow> [] | Some v \<Rightarrow> v)"

text \<open>\<open>r.BasicAuth()\<close> of \<open>net/http\<close> reads \<open>Authorization\<close> in the same way.\<close>

definition basicAuth :: "http_request \<Rightarrow> (string \<times> string) option" where
  "basicAuth r =
     (let auth = header_Get ''Proxy-Authorization'' r
      in if auth \<noteq> [] then parseBasicAuth auth
         else let own = header_Get ''Authorization'' r in if own = [] then None else parseBasicAuth own)"

record TunConfig =
  tcSocks5Addr :: string
  tcDNSAddr :: string
  tcDevice :: string
  tcTunIP :: string
  tcTunGW :: string
  tcTunMask :: string
  tcTunIPV6Sub :: string
  tcTunGWV6 :: string
  tcServerIPV6 :: string
  tcLocalGateway :: string
  tcLocalGatewayV6 :: string
  tcMTU :: int

record HTTPProxyServer =
  hpListenAddr :: string
  hpSocksAddr :: string
  hpUsername :: string
  hpPassword :: string
  hpHandler :: bool
  hpTun :: "TunConfig option"
  hpServing :: bool
  hpClosing :: bool

definition NewHTTPProxyServer :: "string \<Rightarrow> string \<Rightarrow> string \<Rightarrow> string \<Rightarrow> bool \<Rightarrow> HTTPProxyServer result" where
  "NewHTTPProxyServer listenAddr socksAddr username password hasHandler =
     (if socksAddr = [] then Inl (Msg ''http proxy requires a local socks5 address'')
      else Inr \<lparr>hpListenAddr = listenAddr, hpSocksAddr = socksAddr, hpUsername = username, hpPassword = password,
                hpHandler = hasHandler, hpTun = None, hpServing = False, hpClosing = False\<rparr>)"

definition authOK :: "HTTPProxyServer \<Rightarrow> http_request \<Rightarrow> bool" where
  "authOK s r \<longleftrightarrow> hpUsername s = [] \<and> hpPassword s = [] \<or> basicAuth r = Some (hpUsername s, hpPassword s)"

definition isLoopbackRequest :: "http_request \<Rightarrow> bool" where
  "isLoopbackRequest r =
     (case SplitHostPort (hqRemoteAddr r) of
        None \<Rightarrow> False
      | Some (host, _) \<Rightarrow> (case ParseIP host of None \<Rightarrow> False | Some ip \<Rightarrow> IsLoopback ip))"

definition localIPsCacheTTL :: int where
  "localIPsCacheTTL = 60 * 1000000000"

text \<open>The cache of the host's own addresses, and \<open>ifaces\<close>, what the interfaces say now.\<close>

record local_ips =
  lipUpdated :: int
  lipSet :: "string list option"

definition localIPSet :: "bytes list \<Rightarrow> int \<Rightarrow> local_ips \<Rightarrow> string list \<times> local_ips" where
  "localIPSet ifaces now c =
     (case lipSet c of
        Some s \<Rightarrow>
          (if now - lipUpdated c < localIPsCacheTTL then (s, c)
           else (map IP_String ifaces, \<lparr>lipUpdated = now, lipSet = Some (map IP_String ifaces)\<rparr>))
      | None \<Rightarrow> (map IP_String ifaces, \<lparr>lipUpdated = now, lipSet = Some (map IP_String ifaces)\<rparr>))"

definition isSelfTarget :: "bytes list \<Rightarrow> int \<Rightarrow> HTTPProxyServer \<Rightarrow> http_request \<Rightarrow> local_ips \<Rightarrow> bool \<times> local_ips" where
  "isSelfTarget ifaces now s r c =
     (let target = (if hqURLHost r = [] then hqHost r else hqURLHost r)
      in if target = hpListenAddr s then (True, c)
         else case SplitHostPort target of
                None \<Rightarrow> (False, c)
              | Some (th, tp) \<Rightarrow>
                  (case SplitHostPort (hpListenAddr s) of
                     None \<Rightarrow> (False, c)
                   | Some (_, lp) \<Rightarrow>
                       (if tp \<noteq> lp then (False, c)
                        else if th = ''localhost'' then (True, c)
                        else case ParseIP th of
                               None \<Rightarrow> (False, c)
                             | Some ip \<Rightarrow>
                                 (case localIPSet ifaces now c of (ips, c) \<Rightarrow> (IsLoopback ip \<or> IP_String ip \<in> set ips, c)))))"

section \<open>CONNECT\<close>

datatype http_event =
    Http_error nat | Hijacked | Established | Bad_gateway | Http_dialled string | Http_socks string
  | Http_relayed string | Http_streamed string | Http_remote_closed | Hijacked_closed

record http_world =
  hwRegexp :: regexp_lib
  hwRouter :: "Router option"
  hwHijack :: "go_error option"
  hwDial :: "string \<Rightarrow> go_error option"
  hwSocks :: "string \<Rightarrow> go_error option"
  hwEstablish :: "go_error option"
  hwIfaces :: "bytes list"
  hwNow :: int

definition connectTarget :: "http_request \<Rightarrow> string" where
  "connectTarget r =
     (let target = (if hqURLHost r = [] then hqHost r else hqURLHost r)
      in case SplitHostPort target of None \<Rightarrow> JoinHostPort target ''443'' | Some _ \<Rightarrow> target)"

text \<open>The way through a connection that is dialled first: direct, or through the SOCKS5 entrance.\<close>

definition connect_dialled :: "http_world \<Rightarrow> string \<Rightarrow> (string \<Rightarrow> http_event) \<Rightarrow> go_error option \<Rightarrow> http_event list" where
  "connect_dialled w target mark err =
     (case err of
        Some _ \<Rightarrow> [Bad_gateway]
      | None \<Rightarrow>
          (case hwEstablish w of
             Some _ \<Rightarrow> [mark target, Http_remote_closed]
           | None \<Rightarrow> [mark target, Established, Http_relayed target, Http_remote_closed]))"

definition handleConnect :: "http_world \<Rightarrow> bool \<Rightarrow> http_request \<Rightarrow> http_event list" where
  "handleConnect w hasHandler r =
     (let target = connectTarget r
      in case SplitHostPort target of
           None \<Rightarrow> [Http_error 400]
         | Some (host, _) \<Rightarrow>
             (let decision = decide (hwRegexp w) (hwRouter w) host
              in if rdIPV6Rejected decision then [Http_error 403]
                 else if rdAction decision = routeBlock then [Http_error 403]
                 else if hwHijack w \<noteq> None then [Http_error 500]
                 else [Hijacked] @
                   (if rdAction decision = routeDirect then connect_dialled w target Http_dialled (hwDial w target)
                    else if \<not> hasHandler then connect_dialled w target Http_socks (hwSocks w target)
                    else case hwEstablish w of Some _ \<Rightarrow> [] | None \<Rightarrow> [Established, Http_streamed target]) @
                   [Hijacked_closed]))"

section \<open>Serving\<close>

text \<open>What the reverse proxy sends on, after \<open>Rewrite\<close>.\<close>

definition rewrite_request :: "http_request \<Rightarrow> http_request" where
  "rewrite_request r =
     (let r1 = (if hqURLScheme r = [] then r\<lparr>hqURLScheme := ''http''\<rparr> else r);
          r2 = (if hqURLHost r1 = [] then r1\<lparr>hqURLHost := hqHost r\<rparr> else r1)
      in r2\<lparr>hqHost := hqURLHost r2,
            hqHeader := filter (\<lambda>kv. fst kv \<notin> {''Proxy-Authorization'', ''Proxy-Connection''}) (hqHeader r2)\<rparr>)"

datatype http_answer =
    Http_status nat | Tun_json TunConfig | Stats_json | Connected "http_event list" | Forwarded http_request

definition handleTunGET :: "HTTPProxyServer \<Rightarrow> http_answer" where
  "handleTunGET s = (case hpTun s of None \<Rightarrow> Http_status 503 | Some cfg \<Rightarrow> Tun_json cfg)"

definition SetTunConfig :: "TunConfig option \<Rightarrow> HTTPProxyServer \<Rightarrow> HTTPProxyServer" where
  "SetTunConfig cfg s = s\<lparr>hpTun := cfg\<rparr>"

definition ClearTunConfig :: "HTTPProxyServer \<Rightarrow> HTTPProxyServer" where
  "ClearTunConfig s = s\<lparr>hpTun := None\<rparr>"

definition http_ServeHTTP :: "http_world \<Rightarrow> HTTPProxyServer \<Rightarrow> http_request \<Rightarrow> local_ips \<Rightarrow> http_answer \<times> local_ips" where
  "http_ServeHTTP w s r c =
     (if hqURLHost r = [] \<and> (hqURLPath r = ''/tun'' \<or> hqURLPath r = ''/stats'') \<and> \<not> isLoopbackRequest r then (Http_status 403, c)
      else if hqURLHost r = [] \<and> hqURLPath r = ''/tun''
      then (if hqMethod r = ''GET'' then handleTunGET s else Http_status 405, c)
      else if \<not> authOK s r then (Http_status 407, c)
      else if hqURLHost r = [] \<and> hqURLPath r = ''/stats'' then (Stats_json, c)
      else case isSelfTarget (hwIfaces w) (hwNow w) s r c of
             (True, c) \<Rightarrow> (Http_status 404, c)
           | (False, c) \<Rightarrow>
               (if hqMethod r = ''CONNECT'' then (Connected (handleConnect w (hpHandler s) r), c)
                else (Forwarded (rewrite_request r), c)))"

text \<open>
  \<open>Serve\<close> takes the listener over unless the server is closing; \<open>Close\<close> shuts the server down once and
  releases the idle connections of the reverse proxy every time.
\<close>

definition http_Serve :: "HTTPProxyServer \<Rightarrow> bool \<times> HTTPProxyServer" where
  "http_Serve s = (if hpClosing s then (False, s) else (True, s\<lparr>hpServing := True\<rparr>))"

definition http_Close :: "HTTPProxyServer \<Rightarrow> bool \<times> HTTPProxyServer" where
  "http_Close s = (hpServing s \<and> \<not> hpClosing s, s\<lparr>hpClosing := True\<rparr>)"

end
