(* ===== verification/Entrances.thy ===== *)
theory Entrances
  imports HttpProxy
begin

text \<open>
  What the two entrances of the client promise: replies are given once and before any data, control
  endpoints and credentials are guarded, datagrams are taken from the associating client only and follow
  the rules, and closing leaves no socket open.
\<close>

section \<open>SOCKS5 connections\<close>

fun is_reply :: "tcp_event \<Rightarrow> bool" where
  "is_reply (Reply _) = True"
| "is_reply _ = False"

text \<open>Data moves only after a success reply, and only to the target.\<close>

fun traffic_answered :: "string \<Rightarrow> bool \<Rightarrow> tcp_event list \<Rightarrow> bool" where
  "traffic_answered target replied [] = True"
| "traffic_answered target replied (Reply f # evs) = traffic_answered target (rpCode f = repSuccess) evs"
| "traffic_answered target replied (Relayed t # evs) = (replied \<and> t = target \<and> traffic_answered target replied evs)"
| "traffic_answered target replied (Streamed t # evs) = (replied \<and> t = target \<and> traffic_answered target replied evs)"
| "traffic_answered target replied (Dialled_direct t # evs) = (t = target \<and> traffic_answered target replied evs)"
| "traffic_answered target replied (Remote_closed # evs) = traffic_answered target replied evs"

fun outward :: "tcp_event \<Rightarrow> bool" where
  "outward (Reply _) = False"
| "outward _ = True"

lemma reply_code [simp]: "rpCode (reply_frame code a) = code"
  by (auto simp: reply_frame_def Let_def split: option.splits net_addr.splits prod.splits)

lemmas route_defs = routeTCPReplied_def directTCPConnect_def replyError_def writeSocksSuccessReply_def Let_def

text \<open>
  C13. A SOCKS5 client gets one reply and no byte before it. However the connection is routed and
  whatever fails, at most one reply is written, and none when one was written before; data is relayed or
  streamed only to the target that was asked for and only after a success reply; a host that is blocked,
  or an IPv6 address while IPv6 is disabled, is neither dialled nor streamed to; and a connection that was
  dialled is closed.
\<close>

theorem socks_one_reply:
  assumes "routeTCPReplied w target host replied = (err, evs)"
  shows "length (filter is_reply evs) \<le> (if replied then 0 else 1) \<and> traffic_answered target replied evs \<and>
    (hcRule (ClassifyHost (twRegexp w) (twRouter w) host) = HostRuleBlock \<longrightarrow> filter outward evs = []) \<and>
    count_list evs Remote_closed = length (filter (\<lambda>e. \<exists>t. e = Dialled_direct t) evs)"
proof -
  define cls where "cls = ClassifyHost (twRegexp w) (twRouter w) host"
  have d: "rdIPV6Rejected (decide (twRegexp w) (twRouter w) host) = hcIPV6Rejected cls"
    "rdAction (decide (twRegexp w) (twRouter w) host) = (case hcRule cls of HostRuleBlock \<Rightarrow> routeBlock | HostRuleDirect \<Rightarrow> routeDirect | HostRuleProxy \<Rightarrow> routeProxy)"
    by (simp_all add: decide_def Let_def cls_def)
  consider (reject) "hcIPV6Rejected cls \<or> hcRule cls = HostRuleBlock" | (direct) "\<not> hcIPV6Rejected cls" "hcRule cls = HostRuleDirect"
    | (proxy) "\<not> hcIPV6Rejected cls" "hcRule cls = HostRuleProxy" by (cases "hcRule cls") auto
  then show ?thesis
  proof cases
    case reject
    then have "evs = [] \<and> replied \<or> (\<exists>f. evs = [Reply f]) \<and> \<not> replied" using assms d by (auto simp: route_defs split: if_splits)
    then show ?thesis by (auto simp: cls_def [symmetric])
  next
    case direct
    then show ?thesis using assms d by (auto simp: route_defs cls_def [symmetric] split: if_splits sum.splits option.splits)
  next
    case proxy
    then show ?thesis using assms d by (auto simp: route_defs cls_def [symmetric] split: if_splits sum.splits option.splits)
  qed
qed

section \<open>The HTTP entrance\<close>


text \<open>Base64 with padding, and the header a client sends.\<close>

lemma std_alphabet_facts: "distinct std_alphabet" "length std_alphabet = 64" "CHR 0x0A \<notin> set std_alphabet" "CHR 0x0D \<notin> set std_alphabet"
    "CHR ''='' \<notin> set std_alphabet"
  by code_simp+

lemma sextets_length: "length (sextets ns) mod 4 \<in> {0, 2, 3}"
  by (induction ns rule: sextets.induct) auto

lemma StdDecode_Encode [codec_simps]: "StdDecodeString (StdEncodeToString b) = Some b"
proof -
  let ?ns = "map unat b"
  have "unat w < 256" for w :: byte using unsigned_less [of w] by simp
  then have small: "\<forall>n \<in> set ?ns. n < 256" by auto
  note six = sextets_small [OF small]
  define body where "body = map (\<lambda>n. std_alphabet ! n) (sextets ?ns)"
  define pad where "pad = replicate ((4 - length body mod 4) mod 4) (CHR ''='')"
  have c: "\<forall>x \<in> set body. x \<noteq> CHR 0x0A \<and> x \<noteq> CHR 0x0D \<and> x \<noteq> CHR ''=''"
  proof
    fix x assume "x \<in> set body"
    then have "x \<in> set std_alphabet" using six std_alphabet_facts(2) by (auto simp: body_def)
    then show "x \<noteq> CHR 0x0A \<and> x \<noteq> CHR 0x0D \<and> x \<noteq> CHR ''=''" using std_alphabet_facts(3-5) by blast
  qed
  have "length body mod 4 \<in> {0, 2, 3}" using sextets_length [of ?ns] by (simp add: body_def)
  then have "length body mod 4 = 0 \<and> pad = [] \<or> length body mod 4 = 2 \<and> pad = ''=='' \<or> length body mod 4 = 3 \<and> pad = ''=''"
    by (elim insertE emptyE) (simp_all add: pad_def numeral_2_eq_2)
  then have "(length body + length pad) mod 4 = 0 \<and> pad \<in> {[], ''='', ''==''}"
  proof (elim disjE conjE)
    assume "length body mod 4 = 0" "pad = []"
    then show ?thesis by simp
  next
    assume a: "length body mod 4 = 2" "pad = ''==''"
    then have "(length body + 2) mod 4 = 0" by presburger
    then show ?thesis using a by simp
  next
    assume a: "length body mod 4 = 3" "pad = ''=''"
    then have "(length body + 1) mod 4 = 0" by presburger
    then show ?thesis using a by simp
  qed
  then have p: "length (body @ pad) mod 4 = 0" "pad \<in> {[], ''='', ''==''}" by simp_all
  have f: "filter (\<lambda>c. c \<noteq> CHR 0x0A \<and> c \<noteq> CHR 0x0D) (body @ pad) = body @ pad"
  proof (rule filter_True)
    have "\<forall>x \<in> set pad. x = CHR ''=''" by (simp add: pad_def)
    then show "\<forall>x \<in> set (body @ pad). x \<noteq> CHR 0x0A \<and> x \<noteq> CHR 0x0D" using c by fastforce
  qed
  have t: "takeWhile (\<lambda>c. c \<noteq> CHR ''='') (body @ pad) = body" "dropWhile (\<lambda>c. c \<noteq> CHR ''='') (body @ pad) = pad"
    using c by (simp_all add: takeWhile_append2 dropWhile_append2) (simp_all add: pad_def)
  have v: "map (IndexByte std_alphabet) body = map Some (sextets ?ns)"
    unfolding body_def using six std_alphabet_facts(1,2) by (simp add: IndexByte_nth)
  have "StdDecodeString (body @ pad) = map_option (map word_of_nat) (b64_decode (sextets ?ns))"
    unfolding StdDecodeString_def Let_def f t v using p by (simp add: comp_def image_iff del: length_append)
  then show ?thesis using b64_decode_sextets [OF small]
    by (simp add: StdEncodeToString_def body_def [symmetric] pad_def [symmetric] Let_def comp_def)
qed

lemma basic_header: "CHR '':'' \<notin> set user \<Longrightarrow>
    parseBasicAuth (''Basic '' @ StdEncodeToString (bytes_of_string (user @ '':'' @ password))) = Some (user, password)"
proof -
  assume "CHR '':'' \<notin> set user"
  then have "Cut (user @ '':'' @ password) (CHR '':'') = Some (user, password)" by (simp add: Cut_def IndexByte_append)
  then show ?thesis by (simp add: parseBasicAuth_def EqualFold_def StdDecode_Encode)
qed

text \<open>
  Credentials. With a username and a password configured, both entrances let exactly this pair in: the
  HTTP entrance reads it back from the header that encodes it, and the SOCKS5 entrance compares it. With
  only one of the two configured, the HTTP entrance still asks for it and the SOCKS5 entrance asks for
  nothing.
\<close>

theorem entrances_authenticate:
  assumes "CHR '':'' \<notin> set user"
    and "header_Get ''Proxy-Authorization'' r = ''Basic '' @ StdEncodeToString (bytes_of_string (user @ '':'' @ password))"
    and "hpUsername s \<noteq> [] \<or> hpPassword s \<noteq> []"
  shows "(authOK s r \<longleftrightarrow> user = hpUsername s \<and> password = hpPassword s) \<and>
    (hpUsername s \<noteq> [] \<and> hpPassword s \<noteq> [] \<longrightarrow>
       (\<exists>c. socks_auth (hpUsername s) (hpPassword s) = Some c \<and> (cred_Valid c user password \<longleftrightarrow> authOK s r))) \<and>
    (hpUsername s = [] \<or> hpPassword s = [] \<longrightarrow> socks_auth (hpUsername s) (hpPassword s) = None)"
proof -
  have "basicAuth r = Some (user, password)" using basic_header [OF assms(1)] assms(2) by (simp add: basicAuth_def Let_def)
  then show ?thesis using assms(3) by (auto simp: authOK_def socks_auth_def cred_Valid_def)
qed

section \<open>Datagrams\<close>

text \<open>What the loop makes of one read, without the state of the relay.\<close>

definition accepted ::
  "datagram_lib \<Rightarrow> nat \<Rightarrow> bytes \<Rightarrow> (bytes \<times> (bytes \<times> nat) option) result \<Rightarrow> ((bytes \<times> nat) option \<times> string \<times> bytes) list" where
  "accepted lib capacity client read =
     (case read of
        Inr (datagram, Some src) \<Rightarrow>
          (case dgParse lib datagram of
             Inr (frag, target, payload) \<Rightarrow>
               (if As16 (fst src) = As16 client \<and> length datagram < capacity \<and> frag = 0 \<and> length payload \<le> MaxUDPDataSize
                then [(Some src, target, payload)] else [])
           | Inl _ \<Rightarrow> [])
      | _ \<Rightarrow> [])"

definition fatal :: "(go_error \<Rightarrow> bool) \<Rightarrow> 'a result \<Rightarrow> bool" where
  "fatal tooLong read = (case read of Inl err \<Rightarrow> \<not> tooLong err | Inr _ \<Rightarrow> False)"

lemma relay_turn_cases:
  assumes "relay_turn lib tooLong capacity read r = (t, r')"
  shows "rlClientIP r' = rlClientIP r \<and>
    (case t of
       Relay_ends \<Rightarrow> fatal tooLong read
     | Relay_drops \<Rightarrow> \<not> fatal tooLong read \<and> accepted lib capacity (rlClientIP r) read = []
     | Relay_handles target payload \<Rightarrow> \<not> fatal tooLong read \<and> accepted lib capacity (rlClientIP r) read = [(rlPeer r', target, payload)]) \<and>
    (rlPeer r' = rlPeer r \<or> (\<exists>ip port. rlPeer r' = Some (ip, port) \<and> As16 ip = As16 (rlClientIP r)))"
  using assms
  by (auto simp: relay_turn_def accepted_def fatal_def Let_def min_def split: sum.splits prod.splits option.splits if_splits)

text \<open>
  An association serves the client that asked for it and nobody else. What its loop hands on is, in order
  and up to the error that ends it, exactly the datagrams that come from the address of the associating
  client, were received whole, parse, are not fragments and fit the size limit; and answers only ever
  go to an address the client has sent from.
\<close>

theorem association_serves_its_client:
  assumes "udpRelayLoop lib tooLong capacity reads r = (hs, r')"
  shows "hs = concat (map (accepted lib capacity (rlClientIP r)) (takeWhile (\<lambda>x. \<not> fatal tooLong x) reads)) \<and>
    (\<forall>data target frame peer. sendToClient lib r' data target = Some (frame, peer) \<longrightarrow>
       rlPeer r = Some peer \<or> As16 (fst peer) = As16 (rlClientIP r))"
proof -
  have "hs = concat (map (accepted lib capacity (rlClientIP r)) (takeWhile (\<lambda>x. \<not> fatal tooLong x) reads)) \<and>
      (rlPeer r' = rlPeer r \<or> (\<exists>ip port. rlPeer r' = Some (ip, port) \<and> As16 ip = As16 (rlClientIP r)))"
    using assms
  proof (induction reads arbitrary: r hs)
    case (Cons read reads)
    obtain t r1 where t: "relay_turn lib tooLong capacity read r = (t, r1)" by fastforce
    note c = relay_turn_cases [OF t]
    show ?case
    proof (cases t)
      case Relay_ends
      then show ?thesis using Cons.prems t c by auto
    next
      case Relay_drops
      then have "udpRelayLoop lib tooLong capacity reads r1 = (hs, r')" using Cons.prems t by simp
      from Cons.IH [OF this] show ?thesis using c Relay_drops by auto
    next
      case (Relay_handles target payload)
      then obtain hs1 where h: "udpRelayLoop lib tooLong capacity reads r1 = (hs1, r')" "hs = (rlPeer r1, target, payload) # hs1"
        using Cons.prems t by (auto split: prod.splits)
      from Cons.IH [OF h(1)] show ?thesis using c Relay_handles h(2) by auto
    qed
  qed simp
  then show ?thesis by (auto simp: sendToClient_def split: sum.splits option.splits)
qed

text \<open>The cache of routes holds what the router says now.\<close>

definition cache_current :: "regexp_lib \<Rightarrow> Router \<Rightarrow> udpRouteCache \<Rightarrow> bool" where
  "cache_current lib r c \<longleftrightarrow>
     (ucGeneration c = RuleGeneration (Some r) \<longrightarrow> (\<forall>host cls. ucEntries c host = Some cls \<longrightarrow> cls = ClassifyHost lib (Some r) host))"

lemma cache_classify_current:
  assumes "cache_current lib r c" "cache_classify lib (Some r) host c = (cls, c')"
  shows "cls = ClassifyHost lib (Some r) host \<and> cache_current lib r c'"
  using assms
  by (auto simp: cache_current_def cache_classify_def cache_lookup_def cache_insert_def Let_def split: option.splits if_splits prod.splits)

text \<open>Datagrams the entrance never relays, whatever the rules say.\<close>

definition never_relayed :: "bool \<Rightarrow> Router \<Rightarrow> string \<Rightarrow> string \<Rightarrow> bool" where
  "never_relayed disableQUIC r host port \<longleftrightarrow>
     disableQUIC \<and> port = ''443'' \<or> ShouldIPV6Disable r \<and> IsIPV6 host \<or> isNonRelayableUDPTarget host"

lemma handleUDP_relays:
  assumes "SplitHostPort dst = Some (host, port)" "handleUDP w src dst data s n = (act, s', n')"
    and "act = Udp_direct key \<or> act = Udp_proxied key"
  shows "\<not> never_relayed (ssDisableQUIC s) (diRouter (ssDns s)) host port" "handleRegularUDP (dwRegexp w) src dst s = (act, s')"
    "\<not> (port = ''53'' \<and> (\<exists>msg. dnUnpack (dwDNS w) data = Some msg \<and> IsDNSRequest msg))"
proof -
  show nr: "\<not> never_relayed (ssDisableQUIC s) (diRouter (ssDns s)) host port"
  proof
    assume "never_relayed (ssDisableQUIC s) (diRouter (ssDns s)) host port"
    then have "fst (handleUDP w src dst data s n) = Udp_ignored" using assms(1) unfolding never_relayed_def handleUDP_def by auto
    then show False using assms(2,3) by auto
  qed
  define m where "m = (if port = ''53'' then dnUnpack (dwDNS w) data else None)"
  define query where "query = (case m of None \<Rightarrow> None | Some msg \<Rightarrow> if IsDNSRequest msg then Some msg else None)"
  have nr': "(ssDisableQUIC s \<and> port = ''443'') = False" "(ShouldIPV6Disable (diRouter (ssDns s)) \<and> IsIPV6 host) = False"
    "isNonRelayableUDPTarget host = False" using nr by (auto simp: never_relayed_def)
  have "handleUDP w src dst data s n = (case m of
      Some msg \<Rightarrow>
        (case mQuestion msg of
           q # _ \<Rightarrow> (if mResponse msg then (case handleRegularUDP (dwRegexp w) src dst s of (a, s) \<Rightarrow> (a, s, n))
             else case handleUDPQuery w src dst data msg q (ssDns s) n of (out, d, n) \<Rightarrow> (Udp_dns out, s\<lparr>ssDns := d\<rparr>, n))
         | [] \<Rightarrow> (case handleRegularUDP (dwRegexp w) src dst s of (a, s) \<Rightarrow> (a, s, n)))
    | None \<Rightarrow> (case handleRegularUDP (dwRegexp w) src dst s of (a, s) \<Rightarrow> (a, s, n)))"
    unfolding handleUDP_def assms(1) option.case prod.case nr' if_False m_def [symmetric] by (rule refl)
  then have u: "handleUDP w src dst data s n = (case query of
      None \<Rightarrow> (case handleRegularUDP (dwRegexp w) src dst s of (a, s) \<Rightarrow> (a, s, n))
    | Some msg \<Rightarrow> (case handleUDPQuery w src dst data msg (hd (mQuestion msg)) (ssDns s) n of (out, d, n) \<Rightarrow> (Udp_dns out, s\<lparr>ssDns := d\<rparr>, n)))"
    by (cases m; cases "mQuestion (the m)") (simp_all add: query_def IsDNSRequest_def)
  then have q: "query = None" using assms(2,3) by (cases query) (auto split: prod.splits)
  then show "handleRegularUDP (dwRegexp w) src dst s = (act, s')" using u assms(2) by (auto split: prod.splits)
  show "\<not> (port = ''53'' \<and> (\<exists>msg. dnUnpack (dwDNS w) data = Some msg \<and> IsDNSRequest msg))"
    using q by (auto simp: query_def m_def split: if_splits)
qed

text \<open>
  C15. Datagrams follow the rules, and queries do not slip through. With a cache of routes that is up to date, a
  datagram is relayed directly only if the rules now say direct, and through the tunnel only if they say
  so; QUIC, IPv6, broadcast and multicast are dropped as configured; and a DNS query to port 53 is never
  relayed as it is, directly or through the tunnel, but always goes to the interceptor.
\<close>

theorem udp_follows_policy:
  assumes "cache_current (dwRegexp w) (diRouter (ssDns s)) (ssRoutes s)" "handleUDP w src dst data s n = (act, s', n')"
    and "act = Udp_direct key \<or> act = Udp_proxied key"
  shows "\<exists>host port. SplitHostPort dst = Some (host, port) \<and>
    hcRule (ClassifyHost (dwRegexp w) (Some (diRouter (ssDns s))) host) = (if act = Udp_direct key then HostRuleDirect else HostRuleProxy) \<and>
    \<not> never_relayed (ssDisableQUIC s) (diRouter (ssDns s)) host port \<and>
    \<not> (port = ''53'' \<and> (\<exists>msg. dnUnpack (dwDNS w) data = Some msg \<and> IsDNSRequest msg)) \<and>
    cache_current (dwRegexp w) (diRouter (ssDns s')) (ssRoutes s')"
proof -
  obtain host port where h: "SplitHostPort dst = Some (host, port)" using assms(2,3) by (auto simp: handleUDP_def split: option.splits)
  note g = handleUDP_relays [OF h assms(2,3)]
  obtain cls c where c: "cache_classify (dwRegexp w) (Some (diRouter (ssDns s))) host (ssRoutes s) = (cls, c)" by fastforce
  note k = cache_classify_current [OF assms(1) c]
  have "hcRule cls = (if act = Udp_direct key then HostRuleDirect else HostRuleProxy)" "s' = s\<lparr>ssRoutes := c\<rparr>"
    using g(2) h c assms(3) by (auto simp: handleRegularUDP_def split: HostRule.splits)
  then show ?thesis using h g k by auto
qed

section \<open>Closing\<close>

lemma relay_inv_step: "association_step w w' \<Longrightarrow> relay_inv w \<Longrightarrow> relay_inv w'"
proof (induction rule: association_step.induct)
  case (listened w)
  then show ?case by (simp add: relay_inv_def lessThan_Suc)
next
  case (refused r w)
  then show ?case by (simp add: relay_inv_def) blast
next
  case (added r w ok t)
  show ?case
  proof (cases "rtClosed (rwTable w)")
    case True
    then have "\<not> ok" "t = rwTable w" using added(2) by (auto simp: addUDPRelay_def)
    then show ?thesis using added(1,3) by (simp add: relay_inv_def) blast
  next
    case False
    then have ok: "ok" "t = (rwTable w)\<lparr>rtRelays := insert r (rtRelays (rwTable w))\<rparr>" using added(2) by (auto simp: addUDPRelay_def)
    have "insert r (rtRelays (rwTable w)) \<union> (rwHeld w - {r}) \<union> rwClosing w \<union> rwClosed w = {..<rwSockets w}"
      using added(1,3) unfolding relay_inv_def by blast
    then show ?thesis using False ok by (simp add: relay_inv_def)
  qed
next
  case (ended r w)
  then have "r \<in> {..<rwSockets w}" by simp
  then have "(rtRelays (rwTable w) - {r}) \<union> rwHeld w \<union> insert r (rwClosing w) \<union> rwClosed w = {..<rwSockets w}"
    using ended(3) unfolding relay_inv_def by blast
  then show ?case using ended(3) by (simp add: relay_inv_def removeUDPRelay_def)
next
  case (server_closed w rs t)
  then have "rs = rtRelays (rwTable w)" "t = (rwTable w)\<lparr>rtRelays := {}, rtClosed := True\<rparr>" by (simp_all add: closeUDPRelays_def)
  then show ?case using server_closed(2) by (simp add: relay_inv_def Un_ac)
next
  case (socket_closed r w)
  then have "rtRelays (rwTable w) \<union> rwHeld w \<union> (rwClosing w - {r}) \<union> insert r (rwClosed w) = {..<rwSockets w}"
    unfolding relay_inv_def by blast
  then show ?case using socket_closed(2) by (simp add: relay_inv_def)
qed

interpretation relays: step_invariant relay_init association_step relay_inv
proof unfold_locales
  show "relay_init w \<Longrightarrow> relay_inv w" for w by (simp add: relay_init_def relay_inv_def)
qed (rule relay_inv_step)

text \<open>
  Closing the SOCKS5 entrance loses no socket. However associations and \<open>Close\<close> interleave, every UDP socket
  is registered, held by the handler that opened it, about to be closed or closed; after \<open>Close\<close> none is
  registered any more, so that when the handlers have returned and the pending closes are done, all are
  closed.
\<close>

theorem relays_no_leak:
  assumes "reachable_from relay_init association_step w"
  shows "rtRelays (rwTable w) \<union> rwHeld w \<union> rwClosing w \<union> rwClosed w = {..<rwSockets w} \<and>
    (rtClosed (rwTable w) \<and> rwHeld w = {} \<and> rwClosing w = {} \<longrightarrow> rwClosed w = {..<rwSockets w})"
  using relays.inv_reachable [OF assms] by (auto simp: relay_inv_def)

section \<open>Examples\<close>

definition demo_tcp :: tcp_world where
  "demo_tcp = \<lparr>twRegexp = glob_engine, twRouter = None, twDial = (\<lambda>_. Inr Other_addr), twWrite = (\<lambda>_. None), twStream = (\<lambda>_. None),
     twTransient = (\<lambda>_. False), twLocal = TCPAddr (Some ([127, 0, 0, 1], 2080))\<rparr>"

theorem socks_one_reply_witness:
  "\<exists>err evs. routeTCPReplied demo_tcp ''a:80'' ''a'' False = (err, evs) \<and> Streamed ''a:80'' \<in> set evs \<and>
     length (filter is_reply evs) \<le> 1 \<and> traffic_answered ''a:80'' False evs"
proof -
  obtain err evs where r: "routeTCPReplied demo_tcp ''a:80'' ''a'' False = (err, evs)" by fastforce
  then have "Streamed ''a:80'' \<in> set evs" by (auto simp: route_defs decide_def ClassifyHost_def demo_tcp_def)
  then show ?thesis using socks_one_reply [OF r] r by auto
qed

definition demo_http :: http_world where
  "demo_http = \<lparr>hwRegexp = glob_engine, hwRouter = None, hwHijack = None, hwDial = (\<lambda>_. None), hwSocks = (\<lambda>_. None), hwEstablish = None,
     hwIfaces = [[10, 0, 0, 7]], hwNow = 0\<rparr>"

definition demo_connect :: http_request where
  "demo_connect = \<lparr>hqMethod = ''CONNECT'', hqURLScheme = [], hqURLHost = ''example.com:443'', hqURLPath = [], hqHost = ''example.com:443'',
     hqRemoteAddr = ''10.0.0.9:5000'',
     hqHeader = [(''Proxy-Authorization'', ''Basic '' @ StdEncodeToString (bytes_of_string ''u:p''))]\<rparr>"

definition demo_server :: HTTPProxyServer where
  "demo_server = \<lparr>hpListenAddr = ''0.0.0.0:3080'', hpSocksAddr = ''127.0.0.1:2080'', hpUsername = ''u'', hpPassword = ''p'', hpHandler = True,
     hpTun = None, hpServing = True, hpClosing = False\<rparr>"

lemma demo_connect_target: "SplitHostPort (connectTarget demo_connect) = Some (''example.com'', ''443'')"
  by code_simp

definition no_ips :: local_ips where
  "no_ips = \<lparr>lipUpdated = 0, lipSet = None\<rparr>"

lemma demo_credentials: "header_Get ''Proxy-Authorization'' demo_connect = ''Basic '' @ StdEncodeToString (bytes_of_string (''u'' @ '':'' @ ''p''))"
  by (simp add: header_Get_def demo_connect_def)

theorem entrances_authenticate_witness:
  "authOK demo_server demo_connect \<and> (\<exists>c. socks_auth ''u'' ''p'' = Some c \<and> cred_Valid c ''u'' ''p'')"
  using entrances_authenticate [of "''u''" demo_connect "''p''" demo_server] demo_credentials by (auto simp: demo_server_def)


definition tiny_datagrams :: datagram_lib where
  "tiny_datagrams = \<lparr>dgParse = (\<lambda>b. case b of [] \<Rightarrow> Inl io_EOF | f # d \<Rightarrow> Inr (unat f, ''1.2.3.4:80'', d)), dgNew = (\<lambda>t d. Inr (0 # d))\<rparr>"

theorem association_serves_its_client_witness:
  "fst (udpRelayLoop tiny_datagrams (\<lambda>_. False) 16384
     [Inr ([0, 7], Some ([10, 0, 0, 9], 5000)), Inr ([0, 8], Some ([10, 0, 0, 8], 5000)), Inr ([1, 9], Some ([10, 0, 0, 9], 5000))]
     \<lparr>rlClientIP = [10, 0, 0, 9], rlPeer = None\<rparr>) = [(Some ([10, 0, 0, 9], 5000), ''1.2.3.4:80'', [7])]"
proof -
  let ?reads = "[Inr ([0, 7], Some ([10, 0, 0, 9], 5000)), Inr ([0, 8], Some ([10, 0, 0, 8], 5000)), Inr ([1, 9], Some ([10, 0, 0, 9], 5000))]
    :: (bytes \<times> (bytes \<times> nat) option) result list"
  obtain hs r' where l: "udpRelayLoop tiny_datagrams (\<lambda>_. False) 16384 ?reads \<lparr>rlClientIP = [10, 0, 0, 9], rlPeer = None\<rparr> = (hs, r')" by fastforce
  have "As16 [10, 0, 0, 8] \<noteq> As16 [10, 0, 0, 9]" by (simp add: As16_def)
  then show ?thesis using association_serves_its_client [OF l] l by (simp add: accepted_def fatal_def tiny_datagrams_def)
qed

definition demo_socks :: "(string \<times> bytes \<times> int option) list socks_state" where
  "demo_socks = \<lparr>ssDns = demo_interceptor, ssRoutes = newUDPRouteCache, ssDisableQUIC = True\<rparr>"

theorem udp_follows_policy_witness:
  "\<exists>s' n'. handleUDP demo_dns_world ''c:1'' ''a.proxied.example:80'' [9] demo_socks 0 = (Udp_proxied ''c:1_a.proxied.example:80'', s', n') \<and>
     cache_current glob_engine (diRouter (ssDns s')) (ssRoutes s')"
proof -
  have f: "fst (handleUDP demo_dns_world ''c:1'' ''a.proxied.example:80'' [9] demo_socks 0) = Udp_proxied ''c:1_a.proxied.example:80''"
  proof -
    have "SplitHostPort ''a.proxied.example:80'' = Some (''a.proxied.example'', ''80'')" "\<not> IsIPV6 ''a.proxied.example''"
      "\<not> isNonRelayableUDPTarget ''a.proxied.example''"
      "MatchHostRule glob_engine (example_router ProxyRuleAutoBlock) ''a.proxied.example'' = HostRuleProxy" by code_simp+
    then show ?thesis
      by (simp add: handleUDP_def handleRegularUDP_def demo_socks_def demo_interceptor_def demo_dns_world_def cache_classify_def cache_lookup_def
          newUDPRouteCache_def ClassifyHost_def Let_def)
  qed
  obtain s' n' where h: "handleUDP demo_dns_world ''c:1'' ''a.proxied.example:80'' [9] demo_socks 0 = (Udp_proxied ''c:1_a.proxied.example:80'', s', n')"
    using f by (metis prod.collapse)
  have "cache_current (dwRegexp demo_dns_world) (diRouter (ssDns demo_socks)) (ssRoutes demo_socks)"
    by (simp add: cache_current_def demo_socks_def newUDPRouteCache_def)
  from udp_follows_policy [OF this h disjI2 [OF refl]] h show ?thesis by (auto simp: demo_dns_world_def)
qed

definition relays_at :: "nat set \<Rightarrow> bool \<Rightarrow> nat \<Rightarrow> nat set \<Rightarrow> nat set \<Rightarrow> nat set \<Rightarrow> relay_world" where
  "relays_at rs cl n h c d = \<lparr>rwTable = \<lparr>rtRelays = rs, rtClosed = cl\<rparr>, rwSockets = n, rwHeld = h, rwClosing = c, rwClosed = d\<rparr>"

lemma relay_run: "reachable_from relay_init association_step (relays_at {} True 1 {} {} {0})"
proof -
  let ?r = "reachable_from relay_init association_step"
  have "?r (relays_at {} False 0 {} {} {})" by (rule reachable_from.start) (simp add: relay_init_def relays_at_def)
  then have "?r (relays_at {} False 1 {0} {} {})"
    by (rule reachable_from.step) (use listened [of "relays_at {} False 0 {} {} {}"] in \<open>simp add: relays_at_def\<close>)
  then have "?r (relays_at {0} False 1 {} {} {})"
    by (rule reachable_from.step) (use added [of 0 "relays_at {} False 1 {0} {} {}"] in \<open>simp add: relays_at_def addUDPRelay_def\<close>)
  then have "?r (relays_at {} True 1 {} {0} {})"
    by (rule reachable_from.step) (use server_closed [of "relays_at {0} False 1 {} {} {}"] in \<open>simp add: relays_at_def closeUDPRelays_def\<close>)
  then show ?thesis
    by (rule reachable_from.step) (use socket_closed [of 0 "relays_at {} True 1 {} {0} {}"] in \<open>simp add: relays_at_def\<close>)
qed

theorem relays_no_leak_witness:
  "\<exists>w. reachable_from relay_init association_step w \<and> rtClosed (rwTable w) \<and> rwSockets w = 1 \<and> rwClosed w = {..<rwSockets w}"
proof (intro exI conjI)
  let ?w = "relays_at {} True 1 {} {} {0}"
  show "reachable_from relay_init association_step ?w" by (rule relay_run)
  show "rtClosed (rwTable ?w)" "rwSockets ?w = 1" by (simp_all add: relays_at_def)
  show "rwClosed ?w = {..<rwSockets ?w}" using relays_no_leak [OF relay_run] by (simp add: relays_at_def)
qed

end
