(* ===== verification/DnsTcp.thy ===== *)
theory DnsTcp
  imports Entrances
begin

text \<open>
  \<open>client/proxy/dnstcp.go\<close> and \<open>dns_tcp.go\<close>: connections to port 53. The queries on such a connection are
  taken out of it and answered one by one, those for the tunnel on one exchange that the connection
  keeps; a connection whose first message is no query is handed on to the ordinary routing.
\<close>

section \<open>Messages on a stream\<close>

definition maxTCPDNSMessageLen :: nat where
  "maxTCPDNSMessageLen = 64 * 1024"

text \<open>\<open>readFirstTCPDNS\<close>: the message, the bytes it has consumed as the caller gets them, and the rest.\<close>

definition readFirstTCPDNS :: "dns_lib \<Rightarrow> src \<Rightarrow> dns_Msg result \<times> bytes \<times> src" where
  "readFirstTCPDNS lib br =
     (case ReadFull br 2 of
        (Inl err, br) \<Rightarrow> (Inl err, [], br)
      | (Inr lenBuf, br) \<Rightarrow>
          (let len = unat (uint16_at (lenBuf ! 0) (lenBuf ! 1))
           in if len = 0 \<or> len > maxTCPDNSMessageLen then (Inl (Msg ''dns tcp message length out of range''), lenBuf, br)
              else case ReadFull br len of
                     (Inl err, br') \<Rightarrow> (Inl err, lenBuf @ sData br, br')
                   | (Inr data, br') \<Rightarrow>
                       (case dnUnpack lib data of
                          None \<Rightarrow> (Inl (Msg ''dns: message cannot be unpacked''), lenBuf @ data, br')
                        | Some msg \<Rightarrow> (Inr msg, lenBuf @ data, br'))))"

definition readTCPDNSMessage :: "dns_lib \<Rightarrow> src \<Rightarrow> dns_Msg result \<times> src" where
  "readTCPDNSMessage lib br = (case readFirstTCPDNS lib br of (msg, _, br) \<Rightarrow> (msg, br))"

text \<open>What \<open>writeTCPDNSMessage\<close> writes.\<close>

definition tcp_dns_frame :: "dns_lib \<Rightarrow> dns_Msg \<Rightarrow> bytes result" where
  "tcp_dns_frame lib msg =
     (case dnPack lib msg of
        Inl err \<Rightarrow> Inl err
      | Inr data \<Rightarrow>
          (if length data > 0xffff then Inl (Msg ''dns tcp message too large'')
           else Inr (put_uint16 (word_of_nat (length data)) @ data)))"

text \<open>\<open>newBufferedConn\<close>: what has been read already comes first.\<close>

definition newBufferedConn :: "src \<Rightarrow> bytes \<Rightarrow> src" where
  "newBufferedConn br pending = br\<lparr>sData := pending @ sData br\<rparr>"

section \<open>The session of a connection\<close>

datatype td_event = Ex_opened nat | Ex_sent nat bytes | Ex_closed nat | Msg_written bytes

record ('c, 'n) tcp_dns =
  tdDns :: "'c dnsInterceptor"
  tdPool :: udpPool
  tdUe :: "nat option"
  tdNet :: 'n
  tdTrace :: "td_event list"

text \<open>
  Its surroundings. \<open>tdwOthers\<close> is what the rest of the program does to the pool while the session waits:
  the exchanges it closes, and the pool afterwards. \<open>None\<close> from \<open>tdwReceive\<close> is the timer.
\<close>

record ('c, 'n) td_world =
  tdwDns :: "('c, 'n) dns_world"
  tdwOpen :: "string \<Rightarrow> bytes \<Rightarrow> 'n \<Rightarrow> nat result \<times> 'n"
  tdwSend :: "nat \<Rightarrow> bytes \<Rightarrow> 'n \<Rightarrow> go_error option \<times> 'n"
  tdwReceive :: "nat \<Rightarrow> 'n \<Rightarrow> bytes result option \<times> 'n"
  tdwClose :: "nat \<Rightarrow> 'n \<Rightarrow> 'n"
  tdwSeen :: "'n \<Rightarrow> nat \<Rightarrow> int"
  tdwOthers :: "udpPool \<Rightarrow> 'n \<Rightarrow> nat list \<times> udpPool \<times> 'n"
  tdwWrite :: "bytes \<Rightarrow> 'n \<Rightarrow> go_error option \<times> 'n"
  tdwDeadline :: "'n \<Rightarrow> go_error option \<times> 'n"

definition errDNSResponseTimeout :: go_error where
  "errDNSResponseTimeout = Sentinel ''dns response timeout''"

definition tcp_session_key :: "string \<Rightarrow> string" where
  "tcp_session_key remote = ''tcp_dns://'' @ remote @ ''->'' @ ProxyDNSServer"

definition newTCPSession :: "'c dnsInterceptor \<Rightarrow> udpPool \<Rightarrow> 'n \<Rightarrow> ('c, 'n) tcp_dns" where
  "newTCPSession d p n = \<lparr>tdDns = d, tdPool = p, tdUe = None, tdNet = n, tdTrace = []\<rparr>"

definition exchange_Close :: "('c, 'n) td_world \<Rightarrow> nat \<Rightarrow> ('c, 'n) tcp_dns \<Rightarrow> ('c, 'n) tcp_dns" where
  "exchange_Close w ue st = st\<lparr>tdNet := tdwClose w ue (tdNet st), tdTrace := tdTrace st @ [Ex_closed ue]\<rparr>"

definition exchange_Send :: "('c, 'n) td_world \<Rightarrow> nat \<Rightarrow> bytes \<Rightarrow> ('c, 'n) tcp_dns \<Rightarrow> go_error option \<times> ('c, 'n) tcp_dns" where
  "exchange_Send w ue data st =
     (case tdwSend w ue data (tdNet st) of (err, n) \<Rightarrow> (err, st\<lparr>tdNet := n, tdTrace := tdTrace st @ [Ex_sent ue data]\<rparr>))"

definition others_run :: "('c, 'n) td_world \<Rightarrow> ('c, 'n) tcp_dns \<Rightarrow> ('c, 'n) tcp_dns" where
  "others_run w st =
     (case tdwOthers w (tdPool st) (tdNet st) of
        (us, p, n) \<Rightarrow> st\<lparr>tdPool := p, tdNet := n, tdTrace := tdTrace st @ map Ex_closed us\<rparr>)"

definition add_inflight :: "int \<Rightarrow> ('c, 'n) tcp_dns \<Rightarrow> ('c, 'n) tcp_dns" where
  "add_inflight k st = st\<lparr>tdPool := (tdPool st)\<lparr>upInflight := upInflight (tdPool st) + k\<rparr>\<rparr>"

text \<open>
  \<open>createExchange\<close> for a key that one goroutine uses only, as the only caller of its flight.
\<close>

definition createExchange ::
  "('c, 'n) td_world \<Rightarrow> string \<Rightarrow> string \<Rightarrow> bytes \<Rightarrow> ('c, 'n) tcp_dns \<Rightarrow> nat result \<times> ('c, 'n) tcp_dns" where
  "createExchange w key dst firstPayload st =
     (let st = add_inflight 1 st
      in case tdwOpen w dst firstPayload (tdNet st) of
           (Inl err, n) \<Rightarrow> (Inl err, add_inflight (- 1) (others_run w (st\<lparr>tdNet := n\<rparr>)))
         | (Inr ue, n) \<Rightarrow>
             (let st = others_run w (st\<lparr>tdNet := n, tdTrace := tdTrace st @ [Ex_opened ue]\<rparr>)
              in case register (tdwSeen w (tdNet st)) key ue (tdPool st) of
                   (err, us, p) \<Rightarrow>
                     (let st = add_inflight (- 1) (fold (exchange_Close w) us (st\<lparr>tdPool := p\<rparr>))
                      in (case err of Some e \<Rightarrow> Inl e | None \<Rightarrow> Inr ue, st))))"

definition acquireExchange ::
  "('c, 'n) td_world \<Rightarrow> string \<Rightarrow> string \<Rightarrow> bytes \<Rightarrow> ('c, 'n) tcp_dns \<Rightarrow> (nat \<times> bool) result \<times> ('c, 'n) tcp_dns" where
  "acquireExchange w key dst firstPayload st =
     (case exchangeFor key (tdPool st) of
        Some ue \<Rightarrow> (Inr (ue, False), st)
      | None \<Rightarrow>
          (case createExchange w key dst firstPayload st of
             (Inl err, st) \<Rightarrow> (Inl err, st)
           | (Inr ue, st) \<Rightarrow>
               (let st = others_run w st
                in (if upClosed (tdPool st) then Inl errSocksServerClosed else Inr (ue, True), st))))"

definition session_invalidate :: "('c, 'n) td_world \<Rightarrow> string \<Rightarrow> ('c, 'n) tcp_dns \<Rightarrow> ('c, 'n) tcp_dns" where
  "session_invalidate w key st =
     (case tdUe st of
        None \<Rightarrow> st
      | Some ue \<Rightarrow> (exchange_Close w ue (st\<lparr>tdPool := removeExchange key ue (tdPool st)\<rparr>))\<lparr>tdUe := None\<rparr>)"

definition waitResponse :: "('c, 'n) td_world \<Rightarrow> nat \<Rightarrow> ('c, 'n) tcp_dns \<Rightarrow> dns_Msg result \<times> ('c, 'n) tcp_dns" where
  "waitResponse w ue st =
     (case tdwReceive w ue (tdNet st) of
        (None, n) \<Rightarrow> (Inl errDNSResponseTimeout, exchange_Close w ue (others_run w (st\<lparr>tdNet := n\<rparr>)))
      | (Some (Inl err), n) \<Rightarrow> (Inl err, others_run w (st\<lparr>tdNet := n\<rparr>))
      | (Some (Inr data), n) \<Rightarrow>
          (case dnUnpack (dwDNS (tdwDns w)) data of None \<Rightarrow> Inl (Msg ''dns: message cannot be unpacked'') | Some m \<Rightarrow> Inr m,
           others_run w (st\<lparr>tdNet := n\<rparr>)))"

definition resolveProxy ::
  "('c, 'n) td_world \<Rightarrow> string \<Rightarrow> dns_Msg \<Rightarrow> ('c, 'n) tcp_dns \<Rightarrow> dns_Msg result \<times> ('c, 'n) tcp_dns" where
  "resolveProxy w key msg st =
     (case prepareProxied (tdwDns w) msg None of
        Inl err \<Rightarrow> (Inl err, st)
      | Inr data \<Rightarrow>
          (case (case tdUe st of
                   None \<Rightarrow>
                     (case acquireExchange w key ProxyDNSServer data st of
                        (Inl err, st) \<Rightarrow> (Inl err, st)
                      | (Inr (ue, created), st) \<Rightarrow>
                          (let st = st\<lparr>tdUe := Some ue\<rparr>
                           in if created then (Inr ue, st)
                              else case exchange_Send w ue data st of
                                     (Some err, st) \<Rightarrow> (Inl err, session_invalidate w key st)
                                   | (None, st) \<Rightarrow> (Inr ue, st)))
                 | Some ue \<Rightarrow>
                     (case exchange_Send w ue data st of
                        (Some err, st) \<Rightarrow> (Inl err, session_invalidate w key st)
                      | (None, st) \<Rightarrow> (Inr ue, st))) of
             (Inl err, st) \<Rightarrow> (Inl err, st)
           | (Inr ue, st) \<Rightarrow>
               (case waitResponse w ue st of
                  (Inl err, st) \<Rightarrow> (Inl err, session_invalidate w key st)
                | (Inr resp, st) \<Rightarrow> (Inr resp, st))))"

definition session_resolve ::
  "('c, 'n) td_world \<Rightarrow> string \<Rightarrow> dns_Msg \<Rightarrow> string \<Rightarrow> ('c, 'n) tcp_dns \<Rightarrow> dns_Msg result \<times> ('c, 'n) tcp_dns" where
  "session_resolve w key msg target st =
     (let dw = tdwDns w; q = hd (mQuestion msg)
      in case dns_plan dw (dwNow dw (tdNet st)) msg q (tdDns st) of
           (plan, d) \<Rightarrow>
             (if plAction plan \<noteq> dnsActionProxy
              then (case executeSync dw plan msg q target d (tdNet st) of (r, d, n) \<Rightarrow> (r, st\<lparr>tdDns := d, tdNet := n\<rparr>))
              else (case resolveProxy w key msg (st\<lparr>tdDns := d\<lparr>diStats := RecordDNSProxyQuery (diStats d)\<rparr>\<rparr>) of
                      (Inl err, st) \<Rightarrow> (Inl err, st)
                    | (Inr resp, st) \<Rightarrow>
                        (case finishProxied dw (dwNow dw (tdNet st)) resp (plDomain plan) (tdDns st) of
                           (_, resp, d) \<Rightarrow> (Inr (resp\<lparr>mId := mId msg\<rparr>), st\<lparr>tdDns := d\<rparr>)))))"

section \<open>The connection\<close>

definition writeTCPDNSMessage :: "('c, 'n) td_world \<Rightarrow> dns_Msg \<Rightarrow> ('c, 'n) tcp_dns \<Rightarrow> go_error option \<times> ('c, 'n) tcp_dns" where
  "writeTCPDNSMessage w msg st =
     (case tcp_dns_frame (dwDNS (tdwDns w)) msg of
        Inl err \<Rightarrow> (Some err, st)
      | Inr buf \<Rightarrow>
          (case tdwWrite w buf (tdNet st) of (err, n) \<Rightarrow> (err, st\<lparr>tdNet := n, tdTrace := tdTrace st @ [Msg_written buf]\<rparr>)))"

definition session_answer :: "('c, 'n) td_world \<Rightarrow> string \<Rightarrow> dns_Msg \<Rightarrow> string \<Rightarrow> ('c, 'n) tcp_dns \<Rightarrow> dns_Msg \<times> ('c, 'n) tcp_dns" where
  "session_answer w key msg target st =
     (case session_resolve w key msg target st of
        (Inl _, st) \<Rightarrow> (dnSetRcode (dwDNS (tdwDns w)) empty_msg msg RcodeServerFailure, st)
      | (Inr resp, st) \<Rightarrow> (resp, st))"

lemma ReadFull_shrinks: "ReadFull r n = (Inr b, r') \<Longrightarrow> length (sData r') + n = length (sData r) \<and> length b = n \<and> sErr r' = sErr r"
  by (auto simp: ReadFull_def split: if_splits)

lemma readTCPDNSMessage_shrinks:
  assumes "readTCPDNSMessage lib br = (Inr msg, br')"
  shows "length (sData br') < length (sData br)"
  using assms unfolding readTCPDNSMessage_def readFirstTCPDNS_def
  by (auto simp: Let_def split: prod.splits sum.splits if_splits option.splits dest!: ReadFull_shrinks)

function tcp_dns_loop ::
  "('c, 'n) td_world \<Rightarrow> string \<Rightarrow> string \<Rightarrow> dns_Msg \<Rightarrow> src \<Rightarrow> ('c, 'n) tcp_dns \<Rightarrow> go_error option \<times> ('c, 'n) tcp_dns" where
  "tcp_dns_loop w key target msg br st =
     (case session_answer w key msg target st of
        (resp, st) \<Rightarrow>
          (case writeTCPDNSMessage w resp st of
             (Some err, st) \<Rightarrow> (Some err, st)
           | (None, st) \<Rightarrow>
               (case tdwDeadline w (tdNet st) of
                  (Some err, n) \<Rightarrow> (Some err, st\<lparr>tdNet := n\<rparr>)
                | (None, n) \<Rightarrow>
                    (case readTCPDNSMessage (dwDNS (tdwDns w)) br of
                       (Inl _, _) \<Rightarrow> (None, st\<lparr>tdNet := n\<rparr>)
                     | (Inr msg, br) \<Rightarrow>
                         (if \<not> IsDNSRequest msg then (None, st\<lparr>tdNet := n\<rparr>)
                          else tcp_dns_loop w key target msg br (st\<lparr>tdNet := n\<rparr>))))))"
  by pat_completeness auto
termination
  by (relation "measure (\<lambda>(_, _, _, _, br, _). length (sData br))") (auto dest!: sym [of "(Inr _, _)"] readTCPDNSMessage_shrinks)

declare tcp_dns_loop.simps [simp del]

text \<open>
  \<open>handleTCPDNS\<close> and \<open>fallbackTCPDNS\<close>: the error, what was done on the connection before the queries, what the
  ordinary routing was handed, if anything, and the session.
\<close>

definition handleTCPDNS ::
  "tcp_world \<Rightarrow> ('c, 'n) td_world \<Rightarrow> string \<Rightarrow> string \<Rightarrow> string \<Rightarrow> src \<Rightarrow> ('c, 'n) tcp_dns \<Rightarrow>
     go_error option \<times> tcp_event list \<times> src option \<times> ('c, 'n) tcp_dns" where
  "handleTCPDNS tw w remote target host c st =
     (case writeSocksSuccessReply tw of
        (Some err, evs) \<Rightarrow> (Some err, evs, None, st)
      | (None, evs) \<Rightarrow>
          (case tdwDeadline w (tdNet st) of
             (Some err, n) \<Rightarrow> (Some err, evs, None, st\<lparr>tdNet := n\<rparr>)
           | (None, n) \<Rightarrow>
               (let st = st\<lparr>tdNet := n\<rparr>;
                    fallback = (\<lambda>br pending. case routeTCPReplied tw target host True of
                       (err, evs') \<Rightarrow> (err, evs @ evs', Some (newBufferedConn br pending), st))
                in case readFirstTCPDNS (dwDNS (tdwDns w)) c of
                     (Inl err, consumed, br) \<Rightarrow>
                       (if errors_is err io_EOF then (None, evs, None, st) else fallback br consumed)
                   | (Inr first, consumed, br) \<Rightarrow>
                       (if \<not> IsDNSRequest first then fallback br consumed
                        else let key = tcp_session_key remote
                             in case tcp_dns_loop w key target first br st of
                                  (err, st) \<Rightarrow> (err, evs, None, session_invalidate w key st)))))"

datatype ('c, 'n) connected =
    Connect_routed "go_error option" "tcp_event list"
  | Connect_dns "go_error option" "tcp_event list" "src option" "('c, 'n) tcp_dns"

definition connectHandler ::
  "tcp_world \<Rightarrow> ('c, 'n) td_world \<Rightarrow> string \<Rightarrow> string \<Rightarrow> src \<Rightarrow> ('c, 'n) tcp_dns \<Rightarrow> ('c, 'n) connected" where
  "connectHandler tw w remote target c st =
     (case SplitHostPort target of
        None \<Rightarrow> (case replyError tw repServerFailure of (err, evs) \<Rightarrow> Connect_routed err evs)
      | Some (host, port) \<Rightarrow>
          (if port = ''53''
           then (case handleTCPDNS tw w remote target host c st of (err, evs, handed, st) \<Rightarrow> Connect_dns err evs handed st)
           else (case routeTCP tw target host of (err, evs) \<Rightarrow> Connect_routed err evs)))"

end
