(* ===== verification/DnsSessions.thy ===== *)
theory DnsSessions
  imports DnsTcp
begin

text \<open>
  What holds of connections to port 53: queries are taken out of the stream and answered in turn,
  other streams are handed on, and the exchanges a connection opens do not outlive it.
\<close>

section \<open>Reading\<close>

definition framed :: "dns_lib \<Rightarrow> dns_Msg \<Rightarrow> bytes \<Rightarrow> bool" where
  "framed lib msg buf \<longleftrightarrow> (\<exists>d. dnPack lib msg = Inr d \<and> d \<noteq> [] \<and> dnUnpack lib d = Some msg \<and> tcp_dns_frame lib msg = Inr buf)"

lemma unat_less_exp: "unat (v :: 16 word) < 65536"
  using unsigned_less [of v] by simp

lemma length_word: "n \<le> 0xffff \<Longrightarrow> unat (word_of_nat n :: 16 word) = n"
  by (simp add: unat_of_nat)

lemma read_framed:
  assumes "framed lib msg buf"
  shows "readFirstTCPDNS lib \<lparr>sData = buf @ rest, sErr = e\<rparr> = (Inr msg, buf, \<lparr>sData = rest, sErr = e\<rparr>)"
proof -
  obtain d where d: "d \<noteq> []" "dnUnpack lib d = Some msg" "length d \<le> 0xffff" "buf = put_uint16 (word_of_nat (length d)) @ d"
    using assms by (auto simp: framed_def tcp_dns_frame_def split: if_splits)
  obtain a b where ab: "put_uint16 (word_of_nat (length d)) = [a, b]" by (simp add: put_uint16_def)
  have "unat (uint16_at a b) = length d" using uint16_at_put [OF ab] length_word [OF d(3)] by simp
  then show ?thesis using d ab by (simp add: readFirstTCPDNS_def ReadFull_def maxTCPDNSMessageLen_def numeral_2_eq_2)
qed

text \<open>Whatever the stream holds, it is what was consumed and what is left, once the length is there.\<close>

lemma take_parts: "take 2 xs @ take n (drop 2 xs) @ drop (Suc (Suc n)) xs = xs"
proof -
  have "take n (drop 2 xs) @ drop (Suc (Suc n)) xs = drop 2 xs"
    using append_take_drop_id [of n "drop 2 xs"] by simp
  then show ?thesis by simp
qed

lemma read_splits:
  assumes "readFirstTCPDNS lib br = (r, consumed, br')"
  shows "length (sData br) \<ge> 2 \<Longrightarrow> consumed @ sData br' = sData br \<and> sErr br' = sErr br"
    and "length (sData br) < 2 \<Longrightarrow> consumed = [] \<and> sData br' = [] \<and> sErr br' = sErr br \<and>
      r = Inl (if sErr br = io_EOF \<and> sData br \<noteq> [] then io_ErrUnexpectedEOF else sErr br)"
  using assms unfolding readFirstTCPDNS_def ReadFull_def
  by (auto simp: Let_def take_parts split: sum.splits if_splits option.splits)

lemma read_eof:
  assumes "readFirstTCPDNS lib \<lparr>sData = data, sErr = io_EOF\<rparr> = (Inl err, consumed, br')" "errors_is err io_EOF"
  shows "length data = 0 \<or> length data = 2"
  using assms unfolding readFirstTCPDNS_def ReadFull_def
  by (auto simp: Let_def io_EOF_def io_ErrUnexpectedEOF_def split: sum.splits if_splits option.splits)

section \<open>Answers\<close>

text \<open>The messages written so far. Nothing but \<open>writeTCPDNSMessage\<close> adds to them.\<close>

definition written :: "('c, 'n) tcp_dns \<Rightarrow> bytes list" where
  "written st = concat (map (\<lambda>e. case e of Msg_written b \<Rightarrow> [b] | _ \<Rightarrow> []) (tdTrace st))"

lemma written_simps [simp]:
  "written (exchange_Close w u st) = written st" "written (snd (exchange_Send w u data st)) = written st"
  "written (others_run w st) = written st" "written (add_inflight k st) = written st"
  "written (st\<lparr>tdNet := n\<rparr>) = written st" "written (st\<lparr>tdPool := p\<rparr>) = written st"
  "written (st\<lparr>tdUe := o'\<rparr>) = written st" "written (st\<lparr>tdDns := d\<rparr>) = written st"
  "written (fold (exchange_Close w) us st) = written st" "written (session_invalidate w key st) = written st"
proof -
  show c: "written (exchange_Close w u st) = written st" for u st by (simp add: written_def exchange_Close_def)
  show "written (fold (exchange_Close w) us st) = written st" by (induction us arbitrary: st) (simp_all add: c)
  show "written (session_invalidate w key st) = written st"
    by (simp add: session_invalidate_def written_def exchange_Close_def split: option.splits)
qed (auto simp: written_def exchange_Send_def others_run_def add_inflight_def comp_def split: prod.splits)

lemma written_send: "exchange_Send w u data st = (e, st') \<Longrightarrow> written st' = written st"
  using written_simps(2) [of w u data st] by simp

lemma written_create: "createExchange w key dst p st = (r, st') \<Longrightarrow> written st' = written st"
proof -
  have o: "written (s\<lparr>tdNet := n, tdTrace := tdTrace s @ [Ex_opened u]\<rparr>) = written s" for s :: "('a, 'b) tcp_dns" and n u
    by (simp add: written_def)
  show "createExchange w key dst p st = (r, st') \<Longrightarrow> written st' = written st"
    by (auto simp: createExchange_def Let_def o split: prod.splits sum.splits)
qed

lemma written_acquire: "acquireExchange w key dst p st = (r, st') \<Longrightarrow> written st' = written st"
  by (auto simp: acquireExchange_def Let_def split: prod.splits sum.splits option.splits dest: written_create)

lemma written_wait: "waitResponse w u st = (r, st') \<Longrightarrow> written st' = written st"
  by (auto simp: waitResponse_def split: prod.splits sum.splits option.splits)

lemma written_resolveProxy: "resolveProxy w key msg st = (r, st') \<Longrightarrow> written st' = written st"
  by (auto simp: resolveProxy_def Let_def split: prod.splits sum.splits option.splits if_splits
      dest!: written_acquire written_wait written_send)

lemma written_answer: "session_answer w key msg target st = (r, st') \<Longrightarrow> written st' = written st"
  by (auto simp: session_answer_def session_resolve_def Let_def split: prod.splits sum.splits if_splits dest!: written_resolveProxy)

text \<open>What \<open>miekg/dns\<close> documents of \<open>SetRcode\<close>, beside \<open>SetReply\<close>.\<close>

definition rcode_documented :: "dns_lib \<Rightarrow> bool" where
  "rcode_documented lib \<longleftrightarrow> (\<forall>m r c. mId (dnSetRcode lib m r c) = mId r)"

lemma executeSync_id:
  assumes "replies_documented (dwDNS w)" "executeSync w plan msg q srv d n = (Inr m, d', n')"
    and "\<And>c. plAction plan = dnsActionCacheHit c \<Longrightarrow> mId c = mId msg"
  shows "mId m = mId msg"
  using assms(1,2) assms(3) [of m]
  by (auto simp: executeSync_def blockedDNSReply_def emptyDNSReply_def replies_documented_def
      split: dnsAction.splits prod.splits sum.splits)

lemma answer_id:
  assumes "replies_documented (dwDNS (tdwDns w))" "rcode_documented (dwDNS (tdwDns w))"
    and "session_answer w key msg target st = (resp, st')"
  shows "mId resp = mId msg"
proof -
  let ?dw = "tdwDns w" and ?q = "hd (mQuestion msg)"
  obtain plan d where p: "dns_plan ?dw (dwNow ?dw (tdNet st)) msg ?q (tdDns st) = (plan, d)" by fastforce
  obtain r st2 where s: "session_resolve w key msg target st = (r, st2)" by fastforce
  have "mId m = mId msg" if rm: "r = Inr m" for m
  proof (cases "plAction plan = dnsActionProxy")
    case True
    then show ?thesis using s p rm by (auto simp: session_resolve_def Let_def split: prod.splits sum.splits)
  next
    case False
    obtain d' n' where "executeSync ?dw plan msg ?q target d (tdNet st) = (Inr m, d', n')"
      using s p rm False by (auto simp: session_resolve_def Let_def split: prod.splits)
    then show ?thesis using executeSync_id [OF assms(1)] dns_plan_action(2) [OF p] by blast
  qed
  then show ?thesis using assms(2,3) s by (auto simp: session_answer_def rcode_documented_def split: sum.splits)
qed

text \<open>An answer in the stream: the frame of a message with the identifier of the query.\<close>

definition answers_query :: "dns_lib \<Rightarrow> dns_Msg \<Rightarrow> bytes \<Rightarrow> bool" where
  "answers_query lib q buf \<longleftrightarrow> (\<exists>a. tcp_dns_frame lib a = Inr buf \<and> mId a = mId q)"

lemma write_cases:
  assumes "writeTCPDNSMessage w resp st = (err, st')"
  obtains (refused) e where "tcp_dns_frame (dwDNS (tdwDns w)) resp = Inl e" "err = Some e" "st' = st"
  | (framed) buf where "tcp_dns_frame (dwDNS (tdwDns w)) resp = Inr buf" "written st' = written st @ [buf]"
  using assms by (auto simp: writeTCPDNSMessage_def written_def split: sum.splits prod.splits)

lemma read_next:
  assumes "list_all2 (framed lib) qs bufs"
  shows "readTCPDNSMessage lib \<lparr>sData = concat bufs, sErr = e\<rparr> =
    (case qs of [] \<Rightarrow> (Inl e, \<lparr>sData = [], sErr = e\<rparr>) | q # qs' \<Rightarrow> (Inr q, \<lparr>sData = concat (tl bufs), sErr = e\<rparr>))"
proof (cases qs)
  case Nil
  then show ?thesis using assms by (simp add: readTCPDNSMessage_def readFirstTCPDNS_def ReadFull_def)
next
  case (Cons q qs')
  then obtain b bs where "bufs = b # bs" "framed lib q b" using assms by (auto simp: list_all2_Cons1)
  then show ?thesis using Cons by (simp add: readTCPDNSMessage_def read_framed)
qed

lemma loop_answers:
  assumes "replies_documented (dwDNS (tdwDns w))" "rcode_documented (dwDNS (tdwDns w))"
  shows "list_all2 (framed (dwDNS (tdwDns w))) qs bufs \<Longrightarrow> \<forall>q \<in> set qs. IsDNSRequest q \<Longrightarrow>
    tcp_dns_loop w key target q \<lparr>sData = concat bufs, sErr = e\<rparr> st = (err, st') \<Longrightarrow>
    \<exists>k bs. written st' = written st @ bs \<and> list_all2 (answers_query (dwDNS (tdwDns w))) (take k (q # qs)) bs \<and>
      (err = None \<longrightarrow> k = Suc (length qs))"
proof (induction qs arbitrary: q bufs st)
  case Nil
  let ?lib = "dwDNS (tdwDns w)"
  obtain resp st1 where a: "session_answer w key q target st = (resp, st1)" by fastforce
  obtain e1 st2 where wr: "writeTCPDNSMessage w resp st1 = (e1, st2)" by fastforce
  have st': "written st' = written st2" "e1 \<noteq> None \<Longrightarrow> err \<noteq> None"
    using Nil.prems(3) a wr read_next [OF Nil.prems(1), of e]
    by (auto simp: tcp_dns_loop.simps [of w key target q] split: option.splits prod.splits)
  show ?case using wr
  proof (cases rule: write_cases)
    case (refused x)
    then have "written st' = written st @ []" "list_all2 (answers_query ?lib) (take 0 [q]) []" "err \<noteq> None"
      using st' written_answer [OF a] by auto
    then show ?thesis by blast
  next
    case (framed b)
    then have "written st' = written st @ [b]" "list_all2 (answers_query ?lib) (take 1 [q]) [b]"
      using st' written_answer [OF a] answer_id [OF assms a] by (auto simp: answers_query_def)
    then show ?thesis by (metis One_nat_def list.size(3))
  qed
next
  case (Cons q' qs)
  let ?lib = "dwDNS (tdwDns w)"
  obtain b' bs' where b: "bufs = b' # bs'" "list_all2 (framed ?lib) qs bs'" using Cons.prems(1) by (auto simp: list_all2_Cons1)
  obtain resp st1 where a: "session_answer w key q target st = (resp, st1)" by fastforce
  obtain e1 st2 where wr: "writeTCPDNSMessage w resp st1 = (e1, st2)" by fastforce
  note rd = read_next [OF Cons.prems(1), of e]
  have req: "IsDNSRequest q'" using Cons.prems(2) by simp
  show ?case using wr
  proof (cases rule: write_cases)
    case (refused x)
    then have "st' = st1" "err \<noteq> None"
      using Cons.prems(3) a wr by (auto simp: tcp_dns_loop.simps [of w key target q])
    then have "written st' = written st @ []" "list_all2 (answers_query ?lib) (take 0 (q # q' # qs)) []" "err \<noteq> None"
      using written_answer [OF a] by auto
    then show ?thesis by blast
  next
    case (framed fr)
    have w2: "written st2 = written st @ [fr]" using framed written_answer [OF a] by simp
    have aq: "answers_query ?lib q fr" using framed answer_id [OF assms a] by (auto simp: answers_query_def)
    obtain e2 n where dl: "tdwDeadline w (tdNet st2) = (e2, n)" by fastforce
    show ?thesis
    proof (cases "e1 = None \<and> e2 = None")
      case False
      then have "written st' = written st @ [fr]" "err \<noteq> None"
        using Cons.prems(3) a wr dl w2 by (auto simp: tcp_dns_loop.simps [of w key target q] split: option.splits)
      moreover have "list_all2 (answers_query ?lib) (take 1 (q # q' # qs)) [fr]" using aq by simp
      ultimately show ?thesis by blast
    next
      case True
      then have "tcp_dns_loop w key target q' \<lparr>sData = concat bs', sErr = e\<rparr> (st2\<lparr>tdNet := n\<rparr>) = (err, st')"
        using Cons.prems(3) a wr dl rd b(1) req by (simp add: tcp_dns_loop.simps [of w key target q])
      then obtain k bs where "written st' = written st2 @ bs" "list_all2 (answers_query ?lib) (take k (q' # qs)) bs"
        "err = None \<longrightarrow> k = Suc (length qs)"
        using Cons.IH [OF b(2), of q' "st2\<lparr>tdNet := n\<rparr>"] Cons.prems(2) by auto
      then have "written st' = written st @ fr # bs" "list_all2 (answers_query ?lib) (take (Suc k) (q # q' # qs)) (fr # bs)"
        "err = None \<longrightarrow> Suc k = Suc (length (q' # qs))" using w2 aq by simp_all
      then show ?thesis by blast
    qed
  qed
qed

text \<open>
  C22. Queries on a connection to port 53 are answered in turn. When a client sends framed queries and then
  ends, what is written to it is, in the order of the queries, one frame for each, with the query's own
  identifier, whatever the rules, the caches, the servers and the exchanges do; if the handler ends
  without an error, every query has been answered, and the connection is never handed on.
\<close>

theorem tcp_dns_queries_answered:
  assumes "replies_documented (dwDNS (tdwDns w))" "rcode_documented (dwDNS (tdwDns w))"
    and "list_all2 (framed (dwDNS (tdwDns w))) qs bufs" "\<forall>q \<in> set qs. IsDNSRequest q"
    and "handleTCPDNS tw w remote target host \<lparr>sData = concat bufs, sErr = io_EOF\<rparr> (newTCPSession d p n) = (err, evs, handed, st)"
  shows "\<exists>k bs. written st = bs \<and> list_all2 (answers_query (dwDNS (tdwDns w))) (take k qs) bs \<and>
    (err = None \<longrightarrow> k = length qs) \<and> handed = None"
proof -
  let ?lib = "dwDNS (tdwDns w)" and ?c = "\<lparr>sData = concat bufs, sErr = io_EOF\<rparr>" and ?s = "newTCPSession d p n"
  have none: "written (?s\<lparr>tdNet := n'\<rparr>) = []" "written ?s = []" for n' by (simp_all add: newTCPSession_def written_def)
  show ?thesis
  proof (cases qs)
    case Nil
    then have "readFirstTCPDNS ?lib ?c = (Inl io_EOF, [], \<lparr>sData = [], sErr = io_EOF\<rparr>)"
      using assms(3) by (simp add: readFirstTCPDNS_def ReadFull_def)
    then show ?thesis using assms(5) Nil none by (auto simp: handleTCPDNS_def Let_def split: prod.splits option.splits)
  next
    case (Cons q qs')
    then obtain b bs' where b: "bufs = b # bs'" "framed ?lib q b" "list_all2 (framed ?lib) qs' bs'"
      using assms(3) by (auto simp: list_all2_Cons1)
    have rd: "readFirstTCPDNS ?lib ?c = (Inr q, b, \<lparr>sData = concat bs', sErr = io_EOF\<rparr>)" using read_framed [OF b(2)] b(1) by simp
    have req: "IsDNSRequest q" "\<forall>q \<in> set qs'. IsDNSRequest q" using assms(4) Cons by auto
    let ?key = "tcp_session_key remote"
    consider (early) "err \<noteq> None" "handed = None" "written st = []"
      | (loop) n' st' where "tcp_dns_loop w ?key target q \<lparr>sData = concat bs', sErr = io_EOF\<rparr> (?s\<lparr>tdNet := n'\<rparr>) = (err, st')"
          "handed = None" "st = session_invalidate w ?key st'"
      using assms(5) rd req none by (auto simp: handleTCPDNS_def Let_def split: prod.splits option.splits)
    then show ?thesis
    proof cases
      case early
      then have "written st = []" "list_all2 (answers_query ?lib) (take 0 qs) []" "err = None \<longrightarrow> 0 = length qs" "handed = None" by auto
      then show ?thesis by blast
    next
      case loop
      obtain k bs where "written st' = [] @ bs" "list_all2 (answers_query ?lib) (take k (q # qs')) bs" "err = None \<longrightarrow> k = Suc (length qs')"
        using loop_answers [OF assms(1,2) b(3) req(2) loop(1)] none by auto
      then show ?thesis using loop(2,3) Cons by auto
    qed
  qed
qed

text \<open>The handler ends without an error when every message can be packed and the connection stays up.\<close>

lemma loop_no_error:
  assumes "\<And>m. \<not> isl (tcp_dns_frame (dwDNS (tdwDns w)) m)" "\<And>b n. fst (tdwWrite w b n) = None" "\<And>n. fst (tdwDeadline w n) = None"
  shows "fst (tcp_dns_loop w key target msg br st) = None"
  using assms
proof (induction w key target msg br st rule: tcp_dns_loop.induct)
  case (1 w key target msg br st)
  obtain resp s1 where a: "session_answer w key msg target st = (resp, s1)" by fastforce
  obtain e s2 where wr: "writeTCPDNSMessage w resp s1 = (e, s2)" by fastforce
  obtain e2 n where dl: "tdwDeadline w (tdNet s2) = (e2, n)" by fastforce
  obtain m br' where rd: "readTCPDNSMessage (dwDNS (tdwDns w)) br = (m, br')" by fastforce
  have e: "e = None" "e2 = None"
    using 1(2) [of resp] 1(3) 1(4) [of "tdNet s2"] wr dl
    by (auto simp: writeTCPDNSMessage_def split: sum.splits prod.splits) (metis fst_conv)
  show ?case
    using 1(1) [OF a [symmetric] wr [symmetric] e(1) dl [symmetric] e(2) rd [symmetric]] 1(2-4) a wr dl rd e
    by (auto simp: tcp_dns_loop.simps [of w key target msg] split: sum.splits)
qed

section \<open>Handing on\<close>

text \<open>
  C23. A stream that is no DNS reaches its target whole. When the handler of port 53 hands a connection on to
  the ordinary routing, the stream it hands on is the client's, byte for byte, if at least two bytes of
  it were there, and no second reply is written. A stream of one byte, however, is handed on without
  that byte, and one that ends after its second byte is not handed on if those announce a message.
\<close>

theorem tcp_dns_fallback_intact:
  assumes "handleTCPDNS tw w remote target host c st = (err, evs, handed, st')"
  shows "(\<forall>c'. handed = Some c' \<longrightarrow>
      c' = (if length (sData c) = 1 then c\<lparr>sData := []\<rparr> else c) \<and>
      evs = snd (writeSocksSuccessReply tw) @ snd (routeTCPReplied tw target host True)) \<and>
    (fst (writeSocksSuccessReply tw) = None \<and> fst (tdwDeadline w (tdNet st)) = None \<and> sErr c = io_EOF \<and>
      length (sData c) = 2 \<and> sData c \<noteq> [0, 0] \<longrightarrow> handed = None \<and> err = None)"
proof (intro conjI allI impI)
  fix c' assume h: "handed = Some c'"
  obtain r consumed br where r: "readFirstTCPDNS (dwDNS (tdwDns w)) c = (r, consumed, br)" by (metis prod_cases3)
  have c': "c' = newBufferedConn br consumed" and nil: "sData c = [] \<longrightarrow> sErr c \<noteq> io_EOF" 
    and evs: "evs = snd (writeSocksSuccessReply tw) @ snd (routeTCPReplied tw target host True)"
    using assms h r by (auto simp: handleTCPDNS_def readFirstTCPDNS_def ReadFull_def Let_def split: prod.splits option.splits sum.splits if_splits)
  show "evs = snd (writeSocksSuccessReply tw) @ snd (routeTCPReplied tw target host True)" by (rule evs)
  show "c' = (if length (sData c) = 1 then c\<lparr>sData := []\<rparr> else c)"
  proof (cases "length (sData c) \<ge> 2")
    case True
    then show ?thesis using read_splits(1) [OF r] c' by (simp add: newBufferedConn_def)
  next
    case False
    then have "length (sData c) = 1 \<or> sData c = []" using length_0_conv [of "sData c"] by linarith
    then show ?thesis using read_splits(2) [OF r] c' False by (auto simp: newBufferedConn_def)
  qed
next
  assume a: "fst (writeSocksSuccessReply tw) = None \<and> fst (tdwDeadline w (tdNet st)) = None \<and> sErr c = io_EOF \<and>
      length (sData c) = 2 \<and> sData c \<noteq> [0, 0]"
  then obtain x y where xy: "sData c = [x, y]" by (metis (no_types, lifting) Suc_length_conv length_0_conv numeral_2_eq_2)
  have "uint16_at x y \<noteq> 0"
  proof
    assume "uint16_at x y = 0"
    then have "put_uint16 (uint16_at x y) = [0, 0]" by (simp add: put_uint16_def)
    then show False using a xy uint16_put [of x y] by simp
  qed
  then have "unat (uint16_at x y) \<noteq> 0" "unat (uint16_at x y) \<le> maxTCPDNSMessageLen"
    using unat_less_exp [of "uint16_at x y"] by (auto simp: unat_eq_0 maxTCPDNSMessageLen_def)
  then have "fst (readFirstTCPDNS (dwDNS (tdwDns w)) c) = Inl io_EOF"
    using a xy by (auto simp: readFirstTCPDNS_def ReadFull_def Let_def)
  then show "handed = None" "err = None"
    using assms a by (auto simp: handleTCPDNS_def Let_def split: prod.splits option.splits sum.splits if_splits)
qed

section \<open>Exchanges\<close>

text \<open>
  What the rest of the program does to the pool, seen from a session with a key of its own: it may take
  the session's exchange out of the pool, closing it, but registers nothing under that key.
\<close>

definition others_fair :: "string \<Rightarrow> ('c, 'n) td_world \<Rightarrow> bool" where
  "others_fair key w \<longleftrightarrow> (\<forall>p n us p' n'. tdwOthers w p n = (us, p', n') \<longrightarrow> (upClosed p \<longrightarrow> upClosed p') \<and>
     (exchangeFor key p' = exchangeFor key p \<or> exchangeFor key p' = None \<and> (\<forall>u. exchangeFor key p = Some u \<longrightarrow> u \<in> set us)))"

definition ex_opened :: "('c, 'n) tcp_dns \<Rightarrow> nat set" where
  "ex_opened st = {u. Ex_opened u \<in> set (tdTrace st)}"

definition ex_closed :: "('c, 'n) tcp_dns \<Rightarrow> nat set" where
  "ex_closed st = {u. Ex_closed u \<in> set (tdTrace st)}"

text \<open>With \<open>cur\<close> as the exchange in use: every other one that was opened is closed, or left to the closing of the pool.\<close>

definition exchanges_ok :: "string \<Rightarrow> nat option \<Rightarrow> ('c, 'n) tcp_dns \<Rightarrow> bool" where
  "exchanges_ok key cur st \<longleftrightarrow>
     (\<forall>u \<in> ex_opened st. u \<in> ex_closed st \<or> cur = Some u \<or> upClosed (tdPool st) \<and> exchangeFor key (tdPool st) = Some u) \<and>
     (\<forall>v. exchangeFor key (tdPool st) = Some v \<longrightarrow> cur = Some v \<or> upClosed (tdPool st))"

lemma traces [simp]:
  "ex_opened (exchange_Close w u st) = ex_opened st" "ex_closed (exchange_Close w u st) = insert u (ex_closed st)"
  "ex_opened (st\<lparr>tdNet := n\<rparr>) = ex_opened st" "ex_closed (st\<lparr>tdNet := n\<rparr>) = ex_closed st"
  "ex_opened (st\<lparr>tdPool := p\<rparr>) = ex_opened st" "ex_closed (st\<lparr>tdPool := p\<rparr>) = ex_closed st"
  "ex_opened (st\<lparr>tdUe := o'\<rparr>) = ex_opened st" "ex_closed (st\<lparr>tdUe := o'\<rparr>) = ex_closed st"
  "ex_opened (st\<lparr>tdDns := d\<rparr>) = ex_opened st" "ex_closed (st\<lparr>tdDns := d\<rparr>) = ex_closed st"
  "ex_opened (add_inflight k st) = ex_opened st" "ex_closed (add_inflight k st) = ex_closed st"
  "ex_opened (st\<lparr>tdNet := n, tdTrace := tdTrace st @ [Ex_opened u]\<rparr>) = insert u (ex_opened st)"
  "ex_closed (st\<lparr>tdNet := n, tdTrace := tdTrace st @ [Ex_opened u]\<rparr>) = ex_closed st"
  by (auto simp: ex_opened_def ex_closed_def exchange_Close_def add_inflight_def)

lemma states [simp]:
  "tdPool (exchange_Close w u st) = tdPool st" "tdUe (exchange_Close w u st) = tdUe st" "tdUe (others_run w st) = tdUe st"
  "tdUe (add_inflight k st) = tdUe st" "upClosed (tdPool (add_inflight k st)) = upClosed (tdPool st)"
  "exchangeFor key (tdPool (add_inflight k st)) = exchangeFor key (tdPool st)"
  by (auto simp: exchange_Close_def others_run_def add_inflight_def exchangeFor_def split: prod.splits)

lemma fold_close [simp]:
  "tdPool (fold (exchange_Close w) us st) = tdPool st" "tdUe (fold (exchange_Close w) us st) = tdUe st"
  "ex_opened (fold (exchange_Close w) us st) = ex_opened st" "ex_closed (fold (exchange_Close w) us st) = ex_closed st \<union> set us"
  by (induction us arbitrary: st) auto

lemma send_facts:
  assumes "exchange_Send w u data st = (e, st')"
  shows "tdPool st' = tdPool st" "tdUe st' = tdUe st" "ex_opened st' = ex_opened st" "ex_closed st' = ex_closed st"
  using assms by (auto simp: exchange_Send_def ex_opened_def ex_closed_def split: prod.splits)

lemma others_facts:
  assumes "others_fair key w"
  shows "ex_opened (others_run w st) = ex_opened st" "ex_closed st \<subseteq> ex_closed (others_run w st)"
    "upClosed (tdPool st) \<Longrightarrow> upClosed (tdPool (others_run w st))"
    "exchangeFor key (tdPool (others_run w st)) = exchangeFor key (tdPool st) \<or> exchangeFor key (tdPool (others_run w st)) = None \<and>
       (\<forall>u. exchangeFor key (tdPool st) = Some u \<longrightarrow> u \<in> ex_closed (others_run w st))"
proof -
  obtain us p n where o: "tdwOthers w (tdPool st) (tdNet st) = (us, p, n)" by (metis prod_cases3)
  have r: "others_run w st = st\<lparr>tdPool := p, tdNet := n, tdTrace := tdTrace st @ map Ex_closed us\<rparr>" using o by (simp add: others_run_def)
  have c: "ex_closed (others_run w st) = ex_closed st \<union> set us" unfolding r by (auto simp: ex_closed_def)
  note f = assms [unfolded others_fair_def, rule_format, OF o]
  show "ex_opened (others_run w st) = ex_opened st" unfolding r by (auto simp: ex_opened_def)
  show "ex_closed st \<subseteq> ex_closed (others_run w st)" using c by simp
  show "upClosed (tdPool st) \<Longrightarrow> upClosed (tdPool (others_run w st))" using f by (simp add: r)
  show "exchangeFor key (tdPool (others_run w st)) = exchangeFor key (tdPool st) \<or> exchangeFor key (tdPool (others_run w st)) = None \<and>
       (\<forall>u. exchangeFor key (tdPool st) = Some u \<longrightarrow> u \<in> ex_closed (others_run w st))" using f c by (simp add: r) blast
qed

lemma others_ok: "others_fair key w \<Longrightarrow> exchanges_ok key cur st \<Longrightarrow> exchanges_ok key cur (others_run w st)"
  using others_facts [of key w st] unfolding exchanges_ok_def by (smt (verit) option.simps(3) subsetD)

lemma close_ok: "exchanges_ok key cur st \<Longrightarrow> exchanges_ok key cur (exchange_Close w u st)"
  by (auto simp: exchanges_ok_def)

lemma same_ok [simp]:
  "exchanges_ok key cur (st\<lparr>tdNet := n\<rparr>) = exchanges_ok key cur st" "exchanges_ok key cur (st\<lparr>tdUe := o'\<rparr>) = exchanges_ok key cur st"
  "exchanges_ok key cur (st\<lparr>tdDns := d\<rparr>) = exchanges_ok key cur st" "exchanges_ok key cur (add_inflight k st) = exchanges_ok key cur st"
  by (auto simp: exchanges_ok_def)

lemma invalidate_ok:
  assumes "exchanges_ok key (tdUe st) st"
  shows "exchanges_ok key None (session_invalidate w key st)" "tdUe (session_invalidate w key st) = None"
proof -
  have r: "exchangeFor key (removeExchange key u p) = (if exchangeFor key p = Some u then None else exchangeFor key p)"
    "upClosed (removeExchange key u p) = upClosed p" for u p
    by (auto simp: removeExchange_def exchangeFor_def remove_key_def map_of_eq_None_iff)
  show "exchanges_ok key None (session_invalidate w key st)"
    using assms by (auto simp: session_invalidate_def exchanges_ok_def r split: option.splits)
  show "tdUe (session_invalidate w key st) = None" by (simp add: session_invalidate_def split: option.splits)
qed

lemma register_cases:
  assumes "register seen key u p = (err, us, p')" "exchangeFor key p = None"
  shows "err \<noteq> None \<and> us = [u] \<and> p' = p \<or> err = None \<and> exchangeFor key p' = Some u \<and> upClosed p' = upClosed p"
  using assms by (auto simp: register_def exchangeFor_def split: if_splits prod.splits)

lemma create_ok:
  assumes "others_fair key w" "exchanges_ok key None st" "exchangeFor key (tdPool st) = None"
    and "createExchange w key dst data st = (r, st')"
  shows "tdUe st' = tdUe st" "isl r \<Longrightarrow> exchanges_ok key None st'"
    "r = Inr u \<Longrightarrow> exchanges_ok key (Some u) st' \<and> exchangeFor key (tdPool st') = Some u"
proof -
  let ?s0 = "add_inflight 1 st"
  obtain x n where o: "tdwOpen w dst data (tdNet ?s0) = (x, n)" by fastforce
  have s0: "exchanges_ok key None ?s0" "exchangeFor key (tdPool ?s0) = None" using assms(2,3) by simp_all
  have "tdUe st' = tdUe st \<and> (isl r \<longrightarrow> exchanges_ok key None st') \<and>
    (r = Inr u \<longrightarrow> exchanges_ok key (Some u) st' \<and> exchangeFor key (tdPool st') = Some u)"
  proof (cases x)
    case (Inl e)
    then show ?thesis using assms(4) o others_ok [OF assms(1), of None "?s0\<lparr>tdNet := n\<rparr>"] s0 by (auto simp: createExchange_def Let_def)
  next
    case (Inr ue)
    let ?s1 = "?s0\<lparr>tdNet := n, tdTrace := tdTrace ?s0 @ [Ex_opened ue]\<rparr>"
    let ?s2 = "others_run w ?s1"
    have "exchanges_ok key (Some ue) ?s1" using s0 unfolding exchanges_ok_def by auto
    then have s2: "exchanges_ok key (Some ue) ?s2" by (rule others_ok [OF assms(1)])
    have e2: "exchangeFor key (tdPool ?s2) = None" using others_facts(4) [OF assms(1), of ?s1] s0(2) by simp
    obtain err us p where g: "register (tdwSeen w (tdNet ?s2)) key ue (tdPool ?s2) = (err, us, p)" by (metis prod_cases3)
    have st': "st' = add_inflight (- 1) (fold (exchange_Close w) us (?s2\<lparr>tdPool := p\<rparr>))" "r = (case err of Some e \<Rightarrow> Inl e | None \<Rightarrow> Inr ue)"
      using assms(4) o Inr g by (simp_all add: createExchange_def Let_def)
    show ?thesis using register_cases [OF g e2]
    proof
      assume f: "err \<noteq> None \<and> us = [ue] \<and> p = tdPool ?s2"
      then have "exchanges_ok key None st'" using s2 e2 unfolding st' exchanges_ok_def by auto
      then show ?thesis using f st' by auto
    next
      assume f: "err = None \<and> exchangeFor key p = Some ue \<and> upClosed p = upClosed (tdPool ?s2)"
      then have "exchanges_ok key (Some ue) st'" using s2 e2 unfolding st' exchanges_ok_def by auto
      then show ?thesis using f st' by auto
    qed
  qed
  then show "tdUe st' = tdUe st" "isl r \<Longrightarrow> exchanges_ok key None st'"
    "r = Inr u \<Longrightarrow> exchanges_ok key (Some u) st' \<and> exchangeFor key (tdPool st') = Some u" by blast+
qed

lemma acquire_ok:
  assumes "others_fair key w" "exchanges_ok key None st" "tdUe st = None" "acquireExchange w key dst data st = (r, st')"
  shows "isl r \<Longrightarrow> exchanges_ok key None st' \<and> tdUe st' = None" "r = Inr (u, created) \<Longrightarrow> exchanges_ok key (Some u) st'"
proof -
  have "(isl r \<longrightarrow> exchanges_ok key None st' \<and> tdUe st' = None) \<and> (r = Inr (u, created) \<longrightarrow> exchanges_ok key (Some u) st')"
  proof (cases "exchangeFor key (tdPool st)")
    case (Some v)
    then show ?thesis using assms by (auto simp: acquireExchange_def exchanges_ok_def)
  next
    case None
    obtain x s1 where c: "createExchange w key dst data st = (x, s1)" by fastforce
    note k = create_ok [OF assms(1,2) None c]
    show ?thesis
    proof (cases x)
      case (Inl e)
      then show ?thesis using assms(3,4) None c k by (auto simp: acquireExchange_def)
    next
      case (Inr ue)
      let ?s2 = "others_run w s1"
      have s1: "exchanges_ok key (Some ue) s1" "exchangeFor key (tdPool s1) = Some ue" using k(3) Inr by auto
      have s2: "exchanges_ok key (Some ue) ?s2" using others_ok [OF assms(1) s1(1)] .
      have "upClosed (tdPool ?s2) \<Longrightarrow> exchanges_ok key None ?s2"
        using s2 others_facts(4) [OF assms(1), of s1] s1(2) by (auto simp: exchanges_ok_def)
      then show ?thesis using assms(3,4) None c Inr s2 k(1) by (auto simp: acquireExchange_def Let_def split: if_splits)
    qed
  qed
  then show "isl r \<Longrightarrow> exchanges_ok key None st' \<and> tdUe st' = None" "r = Inr (u, created) \<Longrightarrow> exchanges_ok key (Some u) st'" by blast+
qed

lemma wait_ok:
  assumes "others_fair key w" "exchanges_ok key cur st" "waitResponse w u st = (r, st')"
  shows "exchanges_ok key cur st'" "tdUe st' = tdUe st"
proof -
  have o: "exchanges_ok key cur (others_run w (st\<lparr>tdNet := n\<rparr>))" for n by (rule others_ok [OF assms(1)]) (simp add: assms(2))
  show "exchanges_ok key cur st'" "tdUe st' = tdUe st"
    using assms(3) o by (auto simp: waitResponse_def intro: close_ok split: prod.splits option.splits sum.splits)
qed

lemma send_ok: "exchange_Send w u data st = (e, st') \<Longrightarrow> exchanges_ok key cur st' = exchanges_ok key cur st"
  using send_facts [of w u data st e st'] by (simp add: exchanges_ok_def)

lemma resolveProxy_ok:
  assumes "others_fair key w" "exchanges_ok key (tdUe st) st" "resolveProxy w key msg st = (r, st')"
  shows "exchanges_ok key (tdUe st') st'"
proof (cases "prepareProxied (tdwDns w) msg None")
  case (Inl e)
  then show ?thesis using assms(2,3) by (simp add: resolveProxy_def)
next
  case (Inr data)
  have wait: "exchanges_ok key (tdUe s3) s3"
    if s: "exchanges_ok key (tdUe s2) s2"
      "(case waitResponse w ue s2 of (Inl err, s) \<Rightarrow> (Inl err, session_invalidate w key s) | (Inr resp, s) \<Rightarrow> (Inr resp, s)) = (r, s3)" for ue s2 s3
  proof -
    obtain x s where x: "waitResponse w ue s2 = (x, s)" by fastforce
    note k = wait_ok [OF assms(1) s(1) x]
    show ?thesis using s(2) x k invalidate_ok [of key s w] by (auto split: sum.splits)
  qed
  have sent: "exchanges_ok key (tdUe s3) s3"
    if s: "exchanges_ok key (tdUe s2) s2" "tdUe s2 = Some ue"
      "(case (case exchange_Send w ue data s2 of (Some err, st) \<Rightarrow> (Inl err, session_invalidate w key st) | (None, st) \<Rightarrow> (Inr ue, st)) of
          (Inl err, st) \<Rightarrow> (Inl err, st)
        | (Inr ue, st) \<Rightarrow> (case waitResponse w ue st of (Inl err, st) \<Rightarrow> (Inl err, session_invalidate w key st) | (Inr resp, st) \<Rightarrow> (Inr resp, st))) = (r, s3)"
    for ue s2 s3
  proof -
    obtain e s where x: "exchange_Send w ue data s2 = (e, s)" by fastforce
    have k: "exchanges_ok key (tdUe s) s" using send_ok [OF x] send_facts(2) [OF x] s(1) by simp
    show ?thesis using s(3) x k invalidate_ok [OF k] wait [OF k] by (cases e) auto
  qed
  show ?thesis
  proof (cases "tdUe st")
    case (Some ue)
    then show ?thesis using sent [OF assms(2) Some] assms(3) Inr by (simp add: resolveProxy_def)
  next
    case None
    obtain x s1 where a: "acquireExchange w key ProxyDNSServer data st = (x, s1)" by fastforce
    note k = acquire_ok [OF assms(1) assms(2) [unfolded None] None a]
    show ?thesis
    proof (cases x)
      case (Inl e)
      then show ?thesis using assms(3) Inr None a k(1) by (simp add: resolveProxy_def)
    next
      case (Inr uc)
      obtain ue created where uc: "x = Inr (ue, created)" using Inr by (cases uc) simp
      let ?s2 = "s1\<lparr>tdUe := Some ue\<rparr>"
      have s2: "exchanges_ok key (tdUe ?s2) ?s2" "tdUe ?s2 = Some ue" using k(2) [OF uc] by simp_all
      show ?thesis using wait [OF s2(1)] sent [OF s2] assms(3) \<open>prepareProxied (tdwDns w) msg None = Inr data\<close> None a uc
        by (cases created) (auto simp: resolveProxy_def Let_def)
    qed
  qed
qed

lemma answer_ok:
  assumes "others_fair key w" "exchanges_ok key (tdUe st) st" "session_answer w key msg target st = (r, st')"
  shows "exchanges_ok key (tdUe st') st'"
proof -
  obtain x s where x: "session_resolve w key msg target st = (x, s)" by fastforce
  have "exchanges_ok key (tdUe s) s"
    using x assms(2) by (auto simp: session_resolve_def Let_def split: prod.splits if_splits sum.splits
        dest!: resolveProxy_ok [OF assms(1), rotated])
  then show ?thesis using assms(3) x by (auto simp: session_answer_def split: sum.splits)
qed

lemma write_ok:
  assumes "writeTCPDNSMessage w resp st = (e, st')"
  shows "exchanges_ok key cur st' = exchanges_ok key cur st" "tdUe st' = tdUe st"
  using assms by (auto simp: writeTCPDNSMessage_def exchanges_ok_def ex_opened_def ex_closed_def split: sum.splits prod.splits)

lemma loop_ok:
  "others_fair key w \<Longrightarrow> exchanges_ok key (tdUe st) st \<Longrightarrow> tcp_dns_loop w key target msg br st = (err, st') \<Longrightarrow>
    exchanges_ok key (tdUe st') st'"
proof (induction w key target msg br st rule: tcp_dns_loop.induct)
  case (1 w key target msg br st)
  obtain resp s1 where a: "session_answer w key msg target st = (resp, s1)" by fastforce
  obtain e s2 where wr: "writeTCPDNSMessage w resp s1 = (e, s2)" by fastforce
  obtain e2 n where dl: "tdwDeadline w (tdNet s2) = (e2, n)" by fastforce
  have s2: "exchanges_ok key (tdUe s2) s2" using answer_ok [OF 1(2,3) a] write_ok [OF wr] by simp
  obtain m br' where rd: "readTCPDNSMessage (dwDNS (tdwDns w)) br = (m, br')" by fastforce
  consider (stop) "st' = s2 \<or> st' = s2\<lparr>tdNet := n\<rparr>"
    | (next') msg' where "e = None" "e2 = None" "m = Inr msg'" "IsDNSRequest msg'" "tcp_dns_loop w key target msg' br' (s2\<lparr>tdNet := n\<rparr>) = (err, st')"
    using 1(4) a wr dl rd by (auto simp: tcp_dns_loop.simps [of w key target msg] split: option.splits sum.splits if_splits)
  then show ?case
  proof cases
    case stop
    then show ?thesis using s2 by auto
  next
    case next'
    then show ?thesis using 1(1) [OF a [symmetric] wr [symmetric] next'(1) dl [symmetric] next'(2) rd [symmetric] next'(3)] 1(2) s2 by simp
  qed
qed

text \<open>
  A connection to port 53 leaves no exchange behind. However its queries go, and whatever the rest of
  the program does to the pool meanwhile, once the handler has returned every exchange it opened is
  closed, or it is registered in a pool that is closing and closes all it has registered; and none
  stays in an open pool under the connection's key, so that no failed exchange is found there again.
\<close>

theorem tcp_dns_leaves_nothing:
  assumes "others_fair (tcp_session_key remote) w" "exchangeFor (tcp_session_key remote) p = None"
    and "handleTCPDNS tw w remote target host c (newTCPSession d p n) = (err, evs, handed, st)"
  shows "tdUe st = None \<and>
    (\<forall>u. Ex_opened u \<in> set (tdTrace st) \<longrightarrow> Ex_closed u \<in> set (tdTrace st) \<or>
       upClosed (tdPool st) \<and> exchangeFor (tcp_session_key remote) (tdPool st) = Some u) \<and>
    (\<not> upClosed (tdPool st) \<longrightarrow> exchangeFor (tcp_session_key remote) (tdPool st) = None)"
proof -
  let ?key = "tcp_session_key remote" and ?s = "newTCPSession d p n"
  have s: "exchanges_ok ?key (tdUe ?s) ?s" "tdUe ?s = None" using assms(2)
    by (simp_all add: exchanges_ok_def newTCPSession_def ex_opened_def)
  have "exchanges_ok ?key None st \<and> tdUe st = None"
  proof (cases "st = ?s \<or> (\<exists>n'. st = ?s\<lparr>tdNet := n'\<rparr>)")
    case True
    then show ?thesis using s by auto
  next
    case False
    then obtain first br n' st' where l: "tcp_dns_loop w ?key target first br (?s\<lparr>tdNet := n'\<rparr>) = (err, st')" "st = session_invalidate w ?key st'"
      using assms(3) by (auto simp: handleTCPDNS_def Let_def split: prod.splits option.splits sum.splits if_splits)
    have "exchanges_ok ?key (tdUe st') st'" using loop_ok [OF assms(1) _ l(1)] s by simp
    then show ?thesis using invalidate_ok [of ?key st' w] l(2) by simp
  qed
  then show ?thesis by (auto simp: exchanges_ok_def ex_opened_def ex_closed_def)
qed

section \<open>Examples\<close>

text \<open>A library that knows two queries, and a tunnel that never answers.\<close>

definition two_queries :: dns_lib where
  "two_queries = demo_dns\<lparr>
     dnUnpack := (\<lambda>b. if b = [9] then Some (demo_query_msg ''ads.example.'') else if b = [7] then Some (demo_query_msg ''far.net.'') else None),
     dnPack := (\<lambda>m. if mResponse m then Inr [8] else if m = demo_query_msg ''ads.example.'' then Inr [9] else Inr [7])\<rparr>"

definition demo_td :: "((string \<times> bytes \<times> int option) list, nat) td_world" where
  "demo_td = \<lparr>tdwDns = demo_dns_world\<lparr>dwDNS := two_queries\<rparr>, tdwOpen = (\<lambda>_ _ n. (Inr n, Suc n)), tdwSend = (\<lambda>_ _ n. (None, n)),
     tdwReceive = (\<lambda>_ n. (None, n)), tdwClose = (\<lambda>_ n. n), tdwSeen = (\<lambda>_ _. 0), tdwOthers = (\<lambda>p n. ([], p, n)),
     tdwWrite = (\<lambda>_ n. (None, n)), tdwDeadline = (\<lambda>n. (None, n))\<rparr>"

abbreviation demo_connection :: "bytes \<Rightarrow> go_error option \<times> tcp_event list \<times> src option \<times> ((string \<times> bytes \<times> int option) list, nat) tcp_dns" where
  "demo_connection data \<equiv> handleTCPDNS demo_tcp demo_td ''c'' ''8.8.8.8:53'' ''8.8.8.8'' \<lparr>sData = data, sErr = io_EOF\<rparr>
     (newTCPSession demo_interceptor newUDPPool 5)"

lemma demo_documented: "replies_documented (dwDNS (tdwDns demo_td))" "rcode_documented (dwDNS (tdwDns demo_td))"
  by (simp_all add: replies_documented_def rcode_documented_def demo_td_def two_queries_def demo_dns_def)

lemma demo_fair: "others_fair key demo_td"
  by (simp add: others_fair_def demo_td_def)

lemma demo_framed: "framed (dwDNS (tdwDns demo_td)) (demo_query_msg ''ads.example.'') [0, 1, 9]"
proof -
  have "put_uint16 (word_of_nat 1) = [0, 1]" by code_simp
  then show ?thesis by (simp add: framed_def tcp_dns_frame_def demo_td_def two_queries_def demo_query_msg_def)
qed


lemma demo_framed_far: "framed (dwDNS (tdwDns demo_td)) (demo_query_msg ''far.net.'') [0, 1, 7]"
proof -
  have "put_uint16 (word_of_nat 1) = [0, 1]" by code_simp
  then show ?thesis by (simp add: framed_def tcp_dns_frame_def demo_td_def two_queries_def demo_query_msg_def)
qed

lemma demo_no_error: "\<not> isl (tcp_dns_frame (dwDNS (tdwDns demo_td)) m)" "fst (tdwWrite demo_td b n) = None" "fst (tdwDeadline demo_td n) = None"
  by (simp_all add: tcp_dns_frame_def demo_td_def two_queries_def)

lemma demo_reply: "fst (writeSocksSuccessReply demo_tcp) = None" "tdwDeadline demo_td n = (None, n)"
  by (simp_all add: writeSocksSuccessReply_def demo_tcp_def demo_td_def Let_def)

theorem tcp_dns_queries_answered_witness:
  "\<exists>evs handed st bs. demo_connection (concat [[0, 1, 9], [0, 1, 9]]) = (None, evs, handed, st) \<and> written st = bs \<and> length bs = 2 \<and> handed = None"
proof -
  let ?q = "demo_query_msg ''ads.example.''"
  obtain err evs handed st where h: "demo_connection (concat [[0, 1, 9], [0, 1, 9]]) = (err, evs, handed, st)" by (metis prod_cases4)
  have f: "list_all2 (framed (dwDNS (tdwDns demo_td))) [?q, ?q] [[0, 1, 9], [0, 1, 9]]" using demo_framed by simp
  have r: "\<forall>q \<in> set [?q, ?q]. IsDNSRequest q" by (simp add: IsDNSRequest_def demo_query_msg_def)
  have "err = None"
    using h demo_reply read_framed [OF demo_framed, of "[0, 1, 9]" io_EOF] loop_no_error [of demo_td, OF demo_no_error] r
    by (auto simp: handleTCPDNS_def Let_def split: prod.splits option.splits) (metis fst_conv)+
  obtain k bs where "written st = bs" "list_all2 (answers_query (dwDNS (tdwDns demo_td))) (take k [?q, ?q]) bs" "k = 2" "handed = None"
    using tcp_dns_queries_answered [OF demo_documented f r h] \<open>err = None\<close> by auto
  then show ?thesis using h \<open>err = None\<close> by (auto dest!: list_all2_lengthD)
qed

theorem tcp_dns_leaves_nothing_witness:
  "\<exists>err evs handed st u. demo_connection [0, 1, 7] = (err, evs, handed, st) \<and> Ex_opened u \<in> set (tdTrace st) \<and> Ex_closed u \<in> set (tdTrace st)"
proof -
  let ?q = "demo_query_msg ''far.net.''" and ?s = "newTCPSession demo_interceptor newUDPPool 5" and ?key = "tcp_session_key ''c''"
  obtain err evs handed st where h: "demo_connection [0, 1, 7] = (err, evs, handed, st)" by (metis prod_cases4)
  obtain resp s1 where a: "session_answer demo_td ?key ?q ''8.8.8.8:53'' ?s = (resp, s1)" by fastforce
  have "(\<lambda>s. Ex_opened 5 \<in> set (tdTrace s) \<and> \<not> upClosed (tdPool s)) (snd (session_answer demo_td ?key ?q ''8.8.8.8:53'' ?s))" by code_simp
  then have s1: "Ex_opened 5 \<in> set (tdTrace s1)" "\<not> upClosed (tdPool s1)" using a by auto
  have "IsDNSRequest ?q" by (simp add: IsDNSRequest_def demo_query_msg_def)
  then have "Ex_opened 5 \<in> set (tdTrace st) \<and> \<not> upClosed (tdPool st)"
    using h demo_reply read_framed [OF demo_framed_far, of "[]" io_EOF] a s1 read_next [of "dwDNS (tdwDns demo_td)" "[]" "[]"]
    by (auto simp: handleTCPDNS_def tcp_dns_loop.simps [of demo_td] Let_def writeTCPDNSMessage_def session_invalidate_def exchange_Close_def removeExchange_def
        newTCPSession_def split: prod.splits option.splits sum.splits if_splits)
  moreover have n: "exchangeFor ?key newUDPPool = None" by (simp add: exchangeFor_def newUDPPool_def)
  ultimately show ?thesis using tcp_dns_leaves_nothing [OF demo_fair n h] h by blast
qed

theorem tcp_dns_fallback_intact_witness:
  "fst (snd (snd (demo_connection [0, 3, 1, 2, 3]))) = Some \<lparr>sData = [0, 3, 1, 2, 3], sErr = io_EOF\<rparr>"
proof -
  obtain err evs handed st where h: "demo_connection [0, 3, 1, 2, 3] = (err, evs, handed, st)" by (metis prod_cases4)
  have "fst (snd (snd (demo_connection [0, 3, 1, 2, 3]))) \<noteq> None" by code_simp
  then obtain c' where "handed = Some c'" using h by auto
  then show ?thesis using tcp_dns_fallback_intact [OF h] h by auto
qed

end
