(* ===== verification/Agreement.thy ===== *)
theory Agreement
  imports DnsSessions
begin

text \<open>
  The two entrances for connections, \<open>connectHandler\<close> in \<open>client/proxy/socks5.go\<close> and \<open>handleConnect\<close> in
  \<open>client/proxy/http_proxy.go\<close>: which way a connection takes does not depend on the entrance, except that
  the SOCKS5 entrance takes DNS queries out of connections to port 53.
\<close>

section \<open>The way of a connection\<close>

datatype way = Way_dialled string | Way_relayed string | Way_streamed string | Way_closed

fun socks_way :: "tcp_event \<Rightarrow> way list" where
  "socks_way (Reply _) = []"
| "socks_way (Dialled_direct t) = [Way_dialled t]"
| "socks_way (Relayed t) = [Way_relayed t]"
| "socks_way (Streamed t) = [Way_streamed t]"
| "socks_way Remote_closed = [Way_closed]"

fun http_way :: "http_event \<Rightarrow> way list" where
  "http_way (Http_dialled t) = [Way_dialled t]"
| "http_way (Http_relayed t) = [Way_relayed t]"
| "http_way (Http_streamed t) = [Way_streamed t]"
| "http_way Http_remote_closed = [Way_closed]"
| "http_way _ = []"

definition socks_ways :: "tcp_event list \<Rightarrow> way list" where
  "socks_ways evs = concat (map socks_way evs)"

definition http_ways :: "http_event list \<Rightarrow> way list" where
  "http_ways evs = concat (map http_way evs)"

fun way_dials :: "way \<Rightarrow> bool" where
  "way_dials (Way_dialled t) \<longleftrightarrow> True"
| "way_dials _ \<longleftrightarrow> False"

text \<open>Every connection that was dialled is closed, and none before it was dialled.\<close>

definition nothing_open :: "way list \<Rightarrow> bool" where
  "nothing_open ws \<longleftrightarrow> length (filter way_dials ws) = count_list ws Way_closed \<and>
     (\<forall>k. count_list (take k ws) Way_closed \<le> length (filter way_dials (take k ws)))"

text \<open>The same surroundings, seen from the two entrances, where the answers to the client can be written.\<close>

definition same_surroundings :: "tcp_world \<Rightarrow> http_world \<Rightarrow> bool" where
  "same_surroundings tw hw \<longleftrightarrow> twRegexp tw = hwRegexp hw \<and> twRouter tw = hwRouter hw \<and>
     (\<forall>t. (\<exists>a. twDial tw t = Inr a) \<longleftrightarrow> hwDial hw t = None) \<and> hwHijack hw = None \<and> (\<forall>f. twWrite tw f = None) \<and> hwEstablish hw = None"

lemma same_surroundingsD:
  assumes "same_surroundings tw hw"
  shows "twRegexp tw = hwRegexp hw" "twRouter tw = hwRouter hw" "hwHijack hw = None" "\<And>f. twWrite tw f = None" "hwEstablish hw = None"
    "hwDial hw t = None \<longleftrightarrow> (\<exists>a. twDial tw t = Inr a)"
  using assms by (auto simp: same_surroundings_def)

text \<open>The routing itself, whether or not the client has had its reply already.\<close>

lemma routes_agree:
  assumes "same_surroundings tw hw" "SplitHostPort (connectTarget r) = Some (host, port)"
  shows "socks_ways (snd (routeTCPReplied tw (connectTarget r) host replied)) = http_ways (handleConnect hw True r)"
  using same_surroundingsD(6) [OF assms(1), of "connectTarget r"] assms(2)
  by (cases "rdAction (decide (hwRegexp hw) (hwRouter hw) host)"; cases "twDial tw (connectTarget r)"; cases "hwDial hw (connectTarget r)";
      cases "twStream tw (connectTarget r)"; cases replied)
    (auto simp: handleConnect_def connect_dialled_def route_defs socks_ways_def http_ways_def same_surroundingsD(1-5) [OF assms(1)])

lemma http_nothing_open: "nothing_open (http_ways (handleConnect hw True r))"
  by (auto simp: handleConnect_def connect_dialled_def http_ways_def nothing_open_def Let_def take_Cons split: option.splits nat.splits)

text \<open>
  C14. It does not matter through which entrance a connection comes. In the same surroundings a \<open>CONNECT\<close>
  request and a SOCKS5 request for the same target with a port other than 53 are dialled, relayed or
  streamed in the same way, with the same rules, and both close what they dialled. With port 53 the
  SOCKS5 entrance first looks for a DNS query; a connection that it hands on takes the same way as the
  \<open>CONNECT\<close> request, and one that it does not hand on is neither dialled nor streamed, whereas the \<open>CONNECT\<close>
  request takes the way of its host there, too.
\<close>

theorem entrances_agree:
  assumes "same_surroundings tw hw" "SplitHostPort (connectTarget r) = Some (host, port)"
  shows "nothing_open (http_ways (handleConnect hw True r)) \<and>
    (if port \<noteq> ''53''
     then \<exists>err evs. connectHandler tw w remote (connectTarget r) c st = Connect_routed err evs \<and>
       socks_ways evs = http_ways (handleConnect hw True r)
     else \<exists>err evs handed st'. connectHandler tw w remote (connectTarget r) c st = Connect_dns err evs handed st' \<and>
       socks_ways evs = (if handed = None then [] else http_ways (handleConnect hw True r)))"
proof -
  note s = same_surroundingsD [OF assms(1)]
  have p: "writeSocksSuccessReply tw = (None, [Reply (reply_frame repSuccess (Some (twLocal tw)))])"
    by (simp add: writeSocksSuccessReply_def s(4) Let_def)
  obtain err evs where r: "routeTCPReplied tw (connectTarget r) host True = (err, evs)" by (metis prod.collapse)
  have w: "socks_ways evs = http_ways (handleConnect hw True r)"
    using routes_agree [OF assms, of True] r by simp
  have "socks_ways (Reply f # es) = socks_ways es" for f es by (simp add: socks_ways_def)
  moreover have "socks_ways [] = []" by (simp add: socks_ways_def)
  moreover obtain err' evs' handed st' where h: "handleTCPDNS tw w remote (connectTarget r) host c st = (err', evs', handed, st')"
    by (metis prod_cases4)
  ultimately have "socks_ways evs' = (if handed = None then [] else http_ways (handleConnect hw True r))"
    using w r by (auto simp: handleTCPDNS_def p Let_def split: prod.splits option.splits sum.splits if_splits)
  then show ?thesis
    using http_nothing_open [of hw r] h assms(2) routes_agree [OF assms, of False]
    by (auto simp: connectHandler_def routeTCP_def split: prod.splits)
qed

theorem entrances_agree_witness:
  "same_surroundings demo_tcp demo_http \<and> SplitHostPort (connectTarget demo_connect) = Some (''example.com'', ''443'') \<and>
   (\<exists>err evs. connectHandler demo_tcp demo_td ''127.0.0.1:4000'' (connectTarget demo_connect) \<lparr>sData = [1, 2, 3], sErr = io_EOF\<rparr>
       (newTCPSession demo_interceptor newUDPPool 5) = Connect_routed err evs \<and>
     socks_ways evs = http_ways (handleConnect demo_http True demo_connect))"
proof -
  have s: "same_surroundings demo_tcp demo_http" by (simp add: same_surroundings_def demo_tcp_def demo_http_def)
  show ?thesis
    using entrances_agree [OF s demo_connect_target, of demo_td "''127.0.0.1:4000''" "\<lparr>sData = [1, 2, 3], sErr = io_EOF\<rparr>"
        "newTCPSession demo_interceptor newUDPPool 5"] s demo_connect_target
    by simp
qed

end
