(* ===== verification/DirectUdp.thy ===== *)
theory DirectUdp
  imports Entrances
begin

text \<open>
  Direct UDP: the sessions of \<open>client/proxy/udp_pool.go\<close> that bypass the tunnel, and their use in \<open>udp.go\<close>.
  Sockets are numbered in the order they are dialled. As for exchanges, each critical section is a
  function, and a step relation interleaves them; a socket has a reading loop of its own.
\<close>

section \<open>The critical sections\<close>

record direct_pool =
  dpDirect :: "(string \<times> nat) list"
  dpClosed :: bool

definition directFor :: "string \<Rightarrow> direct_pool \<Rightarrow> nat option" where
  "directFor key p = map_of (dpDirect p) key"

definition evictOldestDirectUDPLocked :: "(nat \<Rightarrow> int) \<Rightarrow> (string \<times> nat) list \<Rightarrow> nat option \<times> (string \<times> nat) list" where
  "evictOldestDirectUDPLocked seen xs =
     (let best = fold (older seen) xs ([], 0)
      in if fst best = [] then (None, xs) else (Some (snd best), remove_key (fst best) xs))"

text \<open>
  The section of \<open>acquireDirect\<close>: the session for the key and whether it is the new one, or an error;
  the sockets to close once the lock is released; the pool.
\<close>

definition register_direct ::
  "(nat \<Rightarrow> int) \<Rightarrow> string \<Rightarrow> nat \<Rightarrow> direct_pool \<Rightarrow> (nat \<times> bool) result \<times> nat list \<times> direct_pool" where
  "register_direct seen key dc p =
     (if dpClosed p then (Inl errSocksServerClosed, [dc], p)
      else case directFor key p of
             Some existing \<Rightarrow> (Inr (existing, False), [dc], p)
           | None \<Rightarrow>
               (case (if int (length (dpDirect p)) \<ge> maxUDPExchanges then evictOldestDirectUDPLocked seen (dpDirect p) else (None, dpDirect p)) of
                  (evicted, xs) \<Rightarrow>
                    (Inr (dc, True), case evicted of None \<Rightarrow> [] | Some old \<Rightarrow> [old], p\<lparr>dpDirect := (key, dc) # xs\<rparr>)))"

definition removeDirect :: "string \<Rightarrow> nat \<Rightarrow> direct_pool \<Rightarrow> direct_pool" where
  "removeDirect key dc p = (if directFor key p = Some dc then p\<lparr>dpDirect := remove_key key (dpDirect p)\<rparr> else p)"

text \<open>The parts of \<open>cleanupLoop\<close> and \<open>close\<close> that are about direct sessions; both close under the lock.\<close>

definition direct_cleanup :: "(nat \<Rightarrow> int) \<Rightarrow> int \<Rightarrow> int \<Rightarrow> direct_pool \<Rightarrow> nat list \<times> direct_pool" where
  "direct_cleanup seen idle now p =
     (let stale = (\<lambda>kv. now - seen (snd kv) > idle)
      in (map snd (filter stale (dpDirect p)), p\<lparr>dpDirect := filter (\<lambda>kv. \<not> stale kv) (dpDirect p)\<rparr>))"

definition direct_sweep :: "direct_pool \<Rightarrow> nat list \<times> direct_pool" where
  "direct_sweep p = (map snd (dpDirect p), p\<lparr>dpDirect := []\<rparr>)"

section \<open>Interleaving\<close>

text \<open>
  A flight dials; it holds what it dialled; or it has left the lock, with sockets to close and, if it
  registered its own, that one. Its caller then starts the loop of the new session, if the pool is open.
\<close>

datatype direct_flight = Dialling | Dialled nat | Registered "nat list" "nat option"

record direct_world =
  diwPool :: direct_pool
  diwFlights :: "(string \<times> direct_flight) list"
  diwStarting :: "(string \<times> nat) list"
  diwLoops :: "(string \<times> nat) list"
  diwEnding :: "(string \<times> nat) list"
  diwDialled :: nat
  diwClosed :: "nat set"
  diwSwept :: bool
  diwLast :: "nat \<Rightarrow> int"

definition drop_flight :: "string \<Rightarrow> direct_world \<Rightarrow> direct_world" where
  "drop_flight key w = w\<lparr>diwFlights := filter (\<lambda>kf. fst kf \<noteq> key) (diwFlights w)\<rparr>"

definition put_flight :: "string \<Rightarrow> direct_flight \<Rightarrow> direct_world \<Rightarrow> direct_world" where
  "put_flight key f w = (drop_flight key w)\<lparr>diwFlights := (key, f) # diwFlights (drop_flight key w)\<rparr>"

definition created_of :: "(nat \<times> bool) result \<Rightarrow> nat option" where
  "created_of r = (case r of Inr (dc, True) \<Rightarrow> Some dc | _ \<Rightarrow> None)"

inductive direct_step :: "direct_world \<Rightarrow> direct_world \<Rightarrow> bool" where
  flight_begins: "key \<noteq> [] \<Longrightarrow> map_of (diwFlights w) key = None \<Longrightarrow> direct_step w (put_flight key Dialling w)"
| dial_fails: "map_of (diwFlights w) key = Some Dialling \<Longrightarrow> direct_step w (drop_flight key w)"
| dials: "map_of (diwFlights w) key = Some Dialling \<Longrightarrow>
    direct_step w (put_flight key (Dialled (diwDialled w)) (w\<lparr>diwDialled := Suc (diwDialled w)\<rparr>))"
| too_late: "map_of (diwFlights w) key = Some (Dialled dc) \<Longrightarrow> dpClosed (diwPool w) \<Longrightarrow>
    direct_step w (put_flight key (Registered [dc] None) w)"
| registers: "map_of (diwFlights w) key = Some (Dialled dc) \<Longrightarrow> register_direct (diwLast w) key dc (diwPool w) = (r, us, p) \<Longrightarrow>
    direct_step w (put_flight key (Registered us (created_of r)) (w\<lparr>diwPool := p\<rparr>))"
| flight_closes: "map_of (diwFlights w) key = Some (Registered (u # us) c) \<Longrightarrow>
    direct_step w (put_flight key (Registered us c) (w\<lparr>diwClosed := insert u (diwClosed w)\<rparr>))"
| flight_ends: "map_of (diwFlights w) key = Some (Registered [] c) \<Longrightarrow>
    direct_step w (drop_flight key (w\<lparr>diwStarting := (case c of None \<Rightarrow> [] | Some dc \<Rightarrow> [(key, dc)]) @ diwStarting w\<rparr>))"
| loop_starts: "diwStarting w = xs @ x # ys \<Longrightarrow> \<not> dpClosed (diwPool w) \<Longrightarrow>
    direct_step w (w\<lparr>diwStarting := xs @ ys, diwLoops := x # diwLoops w\<rparr>)"
| caller_refused: "diwStarting w = xs @ x # ys \<Longrightarrow> dpClosed (diwPool w) \<Longrightarrow> direct_step w (w\<lparr>diwStarting := xs @ ys\<rparr>)"
| loop_ends: "diwLoops w = xs @ x # ys \<Longrightarrow>
    direct_step w (w\<lparr>diwLoops := xs @ ys, diwEnding := x # diwEnding w, diwClosed := insert (snd x) (diwClosed w)\<rparr>)"
| removes: "diwEnding w = xs @ (key, dc) # ys \<Longrightarrow>
    direct_step w (w\<lparr>diwEnding := xs @ ys, diwPool := removeDirect key dc (diwPool w)\<rparr>)"
| cleans: "direct_cleanup (diwLast w) idle now (diwPool w) = (us, p) \<Longrightarrow>
    direct_step w (w\<lparr>diwPool := p, diwClosed := diwClosed w \<union> set us\<rparr>)"
| closing: "direct_step w (w\<lparr>diwPool := (diwPool w)\<lparr>dpClosed := True\<rparr>\<rparr>)"
| sweeps: "dpClosed (diwPool w) \<Longrightarrow> direct_sweep (diwPool w) = (us, p) \<Longrightarrow>
    direct_step w (w\<lparr>diwPool := p, diwClosed := diwClosed w \<union> set us, diwSwept := True\<rparr>)"
| touches: "direct_step w (w\<lparr>diwLast := seen\<rparr>)"
| reorders: "mset xs = mset (dpDirect (diwPool w)) \<Longrightarrow> direct_step w (w\<lparr>diwPool := (diwPool w)\<lparr>dpDirect := xs\<rparr>\<rparr>)"

definition direct_init :: "direct_world \<Rightarrow> bool" where
  "direct_init w \<longleftrightarrow> diwPool w = \<lparr>dpDirect = [], dpClosed = False\<rparr> \<and> diwFlights w = [] \<and> diwStarting w = [] \<and> diwLoops w = [] \<and>
     diwEnding w = [] \<and> diwDialled w = 0 \<and> diwClosed w = {} \<and> \<not> diwSwept w"

section \<open>Use of a session\<close>

text \<open>\<open>directUDPRelay\<close> on the session it gets: the error, and whether a reading loop is started.\<close>

definition direct_key :: "string \<Rightarrow> string \<Rightarrow> string" where
  "direct_key src dst = ''direct_'' @ src @ ''_'' @ dst"

definition directUDPRelay :: "(nat \<times> bool) result \<Rightarrow> (nat \<Rightarrow> bytes \<Rightarrow> go_error option) \<Rightarrow> bytes \<Rightarrow> go_error option \<times> nat option" where
  "directUDPRelay acquired wr data =
     (case acquired of
        Inl err \<Rightarrow> (Some err, None)
      | Inr (dc, created) \<Rightarrow> (wr dc data, if created then Some dc else None))"

text \<open>\<open>directUDPReadLoop\<close>: what it hands to \<open>sendToClient\<close>, given what the socket delivers.\<close>

fun directUDPReadLoop :: "(go_error \<Rightarrow> bool) \<Rightarrow> nat \<Rightarrow> bytes result list \<Rightarrow> bytes list" where
  "directUDPReadLoop tooLong capacity [] = []"
| "directUDPReadLoop tooLong capacity (Inl err # reads) = (if tooLong err then directUDPReadLoop tooLong capacity reads else [])"
| "directUDPReadLoop tooLong capacity (Inr datagram # reads) =
     (let readBuf = take capacity datagram
      in if length readBuf > MaxUDPDataSize then directUDPReadLoop tooLong capacity reads
         else readBuf # directUDPReadLoop tooLong capacity reads)"

section \<open>What every step keeps\<close>

text \<open>
  The sockets a flight must still deal with, the one it has dialled but not registered, and the one
  whose loop its caller will start, with its key.
\<close>

fun dheld :: "direct_flight \<Rightarrow> nat list" where
  "dheld Dialling = []"
| "dheld (Dialled dc) = [dc]"
| "dheld (Registered us c) = us"

fun dfresh :: "direct_flight \<Rightarrow> nat list" where
  "dfresh (Dialled dc) = [dc]"
| "dfresh f = []"

fun downs :: "string \<times> direct_flight \<Rightarrow> (string \<times> nat) list" where
  "downs (key, Registered us (Some dc)) = [(key, dc)]"
| "downs kf = []"

definition direct_accounted :: "direct_world \<Rightarrow> nat set" where
  "direct_accounted w = snd ` set (dpDirect (diwPool w)) \<union> set (concat (map (dheld \<circ> snd) (diwFlights w))) \<union> diwClosed w"

text \<open>The sockets that have a loop, or whose loop is still to be started or has just ended, with their keys.\<close>

definition readers :: "direct_world \<Rightarrow> (string \<times> nat) list" where
  "readers w = concat (map downs (diwFlights w)) @ diwStarting w @ diwLoops w @ diwEnding w"

definition fresh_readers :: "direct_world \<Rightarrow> nat list" where
  "fresh_readers w = concat (map (dfresh \<circ> snd) (diwFlights w)) @ map snd (readers w)"

definition table_ok :: "direct_pool \<Rightarrow> bool" where
  "table_ok p \<longleftrightarrow> distinct (map fst (dpDirect p)) \<and> int (length (dpDirect p)) \<le> maxUDPExchanges \<and> (\<forall>kv \<in> set (dpDirect p). fst kv \<noteq> [])"

definition flights_ok :: "(string \<times> direct_flight) list \<Rightarrow> bool" where
  "flights_ok fs \<longleftrightarrow> distinct (map fst fs) \<and> (\<forall>kf \<in> set fs. fst kf \<noteq> [])"

definition direct_inv :: "direct_world \<Rightarrow> bool" where
  "direct_inv w \<longleftrightarrow>
     direct_accounted w = {..<diwDialled w} \<and> distinct (fresh_readers w) \<and> set (fresh_readers w) \<subseteq> {..<diwDialled w} \<and>
     snd ` set (diwEnding w) \<subseteq> diwClosed w \<and> table_ok (diwPool w) \<and> flights_ok (diwFlights w) \<and>
     (dpClosed (diwPool w) \<or> set (dpDirect (diwPool w)) \<subseteq> set (readers w)) \<and>
     (diwSwept w \<longrightarrow> dpClosed (diwPool w) \<and> dpDirect (diwPool w) = [])"

lemma direct_parts:
  assumes "direct_inv w"
  shows "direct_accounted w = {..<diwDialled w}" "distinct (fresh_readers w)" "set (fresh_readers w) \<subseteq> {..<diwDialled w}"
    "snd ` set (diwEnding w) \<subseteq> diwClosed w" "table_ok (diwPool w)" "flights_ok (diwFlights w)"
    "dpClosed (diwPool w) \<or> set (dpDirect (diwPool w)) \<subseteq> set (readers w)"
    "diwSwept w \<longrightarrow> dpClosed (diwPool w) \<and> dpDirect (diwPool w) = []"
  using assms by (auto simp: direct_inv_def)

lemma flight_taken:
  assumes "distinct (map fst fs)" "map_of fs key = Some f"
  shows "mset (concat (map h fs)) = mset (h (key, f)) + mset (concat (map h (filter (\<lambda>kf. fst kf \<noteq> key) fs)))"
  using assms
proof (induction fs)
  case (Cons kf fs)
  show ?case
  proof (cases "fst kf = key")
    case True
    then have "filter (\<lambda>kf. fst kf \<noteq> key) fs = fs" using Cons.prems(1) by (intro filter_True) (auto simp: image_iff)
    then show ?thesis using Cons.prems True by (cases kf) auto
  next
    case False
    then show ?thesis using Cons by (cases kf) auto
  qed
qed simp

text \<open>What a change of one flight does to the accounts.\<close>

lemma flight_accounts:
  assumes "flights_ok (diwFlights w)" "map_of (diwFlights w) key = Some f"
  shows "mset (readers w) = mset (downs (key, f)) + mset (readers (drop_flight key w))"
    "mset (fresh_readers w) = mset (dfresh f) + mset (map snd (downs (key, f))) + mset (fresh_readers (drop_flight key w))"
    "direct_accounted w = set (dheld f) \<union> direct_accounted (drop_flight key w)" "key \<noteq> []"
proof -
  have d: "distinct (map fst (diwFlights w))" using assms(1) by (simp add: flights_ok_def)
  note t = flight_taken [OF d assms(2)]
  show r: "mset (readers w) = mset (downs (key, f)) + mset (readers (drop_flight key w))"
    using t [of downs] by (simp add: readers_def drop_flight_def)
  show "mset (fresh_readers w) = mset (dfresh f) + mset (map snd (downs (key, f))) + mset (fresh_readers (drop_flight key w))"
    using t [of "dfresh \<circ> snd"] arg_cong [OF r, of "image_mset snd"] by (simp add: fresh_readers_def drop_flight_def)
  have "set (concat (map (dheld \<circ> snd) (diwFlights w))) =
      set (dheld f) \<union> set (concat (map (dheld \<circ> snd) (filter (\<lambda>kf. fst kf \<noteq> key) (diwFlights w))))"
    using arg_cong [OF t [of "dheld \<circ> snd"], of set_mset] by (simp only: set_mset_union set_mset_mset comp_apply snd_conv)
  then show "direct_accounted w = set (dheld f) \<union> direct_accounted (drop_flight key w)"
    by (auto simp: direct_accounted_def drop_flight_def)
  show "key \<noteq> []" using map_of_SomeD [OF assms(2)] assms(1) by (auto simp: flights_ok_def)
qed

lemma put_accounts:
  "mset (readers (put_flight key f w)) = mset (downs (key, f)) + mset (readers (drop_flight key w))"
  "mset (fresh_readers (put_flight key f w)) = mset (dfresh f) + mset (map snd (downs (key, f))) + mset (fresh_readers (drop_flight key w))"
  "direct_accounted (put_flight key f w) = set (dheld f) \<union> direct_accounted (drop_flight key w)"
  by (auto simp: readers_def fresh_readers_def put_flight_def direct_accounted_def drop_flight_def)

lemma drop_ok: "flights_ok (diwFlights w) \<Longrightarrow> flights_ok (diwFlights (drop_flight key w))"
  by (auto simp: flights_ok_def drop_flight_def distinct_map_filter)

lemma put_ok: "flights_ok (diwFlights w) \<Longrightarrow> key \<noteq> [] \<Longrightarrow> flights_ok (diwFlights (put_flight key f w))"
  by (auto simp: flights_ok_def put_flight_def drop_flight_def distinct_map_filter)

lemma flight_fields [simp]:
  "diwPool (put_flight key f w) = diwPool w" "diwDialled (put_flight key f w) = diwDialled w" "diwClosed (put_flight key f w) = diwClosed w"
  "diwEnding (put_flight key f w) = diwEnding w" "diwSwept (put_flight key f w) = diwSwept w"
  "diwPool (drop_flight key w) = diwPool w" "diwDialled (drop_flight key w) = diwDialled w" "diwClosed (drop_flight key w) = diwClosed w"
  "diwEnding (drop_flight key w) = diwEnding w" "diwSwept (drop_flight key w) = diwSwept w"
  by (simp_all add: put_flight_def drop_flight_def)

text \<open>When a flight moves on, the rest of the accounts may change with it: the form in which the steps of a flight are checked.\<close>

lemma readers_by_mset: "mset (readers w) = mset xs \<Longrightarrow> set (readers w) = set xs"
  by (rule mset_eq_setD)

lemma fresh_by_mset:
  "mset (fresh_readers w) = mset xs \<Longrightarrow> distinct (fresh_readers w) = distinct xs \<and> set (fresh_readers w) = set xs"
  by (metis mset_eq_imp_distinct_iff mset_eq_setD)

lemma drop_changes:
  "readers (drop_flight key (w\<lparr>diwPool := p\<rparr>)) = readers (drop_flight key w)"
  "fresh_readers (drop_flight key (w\<lparr>diwPool := p\<rparr>)) = fresh_readers (drop_flight key w)"
  "readers (drop_flight key (w\<lparr>diwDialled := n\<rparr>)) = readers (drop_flight key w)"
  "fresh_readers (drop_flight key (w\<lparr>diwDialled := n\<rparr>)) = fresh_readers (drop_flight key w)"
  "direct_accounted (drop_flight key (w\<lparr>diwDialled := n\<rparr>)) = direct_accounted (drop_flight key w)"
  "readers (drop_flight key (w\<lparr>diwClosed := us\<rparr>)) = readers (drop_flight key w)"
  "fresh_readers (drop_flight key (w\<lparr>diwClosed := us\<rparr>)) = fresh_readers (drop_flight key w)"
  "direct_accounted (drop_flight key (w\<lparr>diwClosed := insert u (diwClosed w)\<rparr>)) = insert u (direct_accounted (drop_flight key w))"
  by (auto simp: readers_def fresh_readers_def drop_flight_def direct_accounted_def)

lemma flight_closes_keeps:
  assumes "direct_inv w" "map_of (diwFlights w) key = Some (Registered (u # us) c)"
  shows "direct_inv (put_flight key (Registered us c) (w\<lparr>diwClosed := insert u (diwClosed w)\<rparr>))" (is "direct_inv ?w")
proof -
  note i = direct_parts [OF assms(1)] and a = flight_accounts [OF direct_parts(6) [OF assms(1)] assms(2)]
  have d: "downs (key, Registered us c) = downs (key, Registered (u # us) c)" by (cases c) simp_all
  have r: "mset (readers ?w) = mset (readers w)" "mset (fresh_readers ?w) = mset (fresh_readers w)"
    unfolding put_accounts drop_changes a(1,2) d by simp_all
  have "direct_accounted ?w = direct_accounted w" unfolding put_accounts drop_changes a(3) by auto
  then show ?thesis
    using i fresh_by_mset [OF r(2)] readers_by_mset [OF r(1)] put_ok [of "w\<lparr>diwClosed := insert u (diwClosed w)\<rparr>" key] a(4)
    unfolding direct_inv_def by auto
qed

lemma dials_keeps:
  assumes "direct_inv w" "map_of (diwFlights w) key = Some Dialling"
  shows "direct_inv (put_flight key (Dialled (diwDialled w)) (w\<lparr>diwDialled := Suc (diwDialled w)\<rparr>))" (is "direct_inv ?w")
proof -
  note i = direct_parts [OF assms(1)] and a = flight_accounts [OF direct_parts(6) [OF assms(1)] assms(2)]
  have r: "mset (readers ?w) = mset (readers w)" "mset (fresh_readers ?w) = mset (diwDialled w # fresh_readers w)"
    by (simp_all add: put_accounts drop_changes a(1,2))
  have "direct_accounted ?w = insert (diwDialled w) (direct_accounted w)" unfolding put_accounts drop_changes a(3) by auto
  then have "direct_accounted ?w = {..<diwDialled ?w}" using i(1) by (simp add: lessThan_Suc)
  then show ?thesis
    using i fresh_by_mset [OF r(2)] readers_by_mset [OF r(1)] put_ok [of "w\<lparr>diwDialled := Suc (diwDialled w)\<rparr>" key] a(4)
    unfolding direct_inv_def by auto
qed

lemma register_direct_cases:
  assumes "register_direct seen key dc p = (r, us, p')" "table_ok p" "key \<noteq> []"
  shows "(created_of r = None \<and> us = [dc] \<and> p' = p) \<or>
    (created_of r = Some dc \<and> \<not> dpClosed p \<and> (\<exists>xs. p' = p\<lparr>dpDirect := (key, dc) # xs\<rparr> \<and> set xs \<subseteq> set (dpDirect p) \<and>
       snd ` set (dpDirect p) = set us \<union> snd ` set xs) \<and> table_ok p')"
proof (cases "dpClosed p \<or> directFor key p \<noteq> None")
  case True
  then have "created_of r = None \<and> us = [dc] \<and> p' = p"
    using assms(1) by (auto simp: register_direct_def created_of_def split: if_splits)
  then show ?thesis ..
next
  case False
  let ?ps = "dpDirect p"
  have t: "distinct (map fst ?ps)" "int (length ?ps) \<le> maxUDPExchanges" "\<forall>kv \<in> set ?ps. fst kv \<noteq> []" using assms(2) by (auto simp: table_ok_def)
  have k: "key \<notin> fst ` set ?ps" using False by (simp add: directFor_def map_of_eq_None_iff)
  obtain ev xs where e: "(if int (length ?ps) \<ge> maxUDPExchanges then evictOldestDirectUDPLocked seen ?ps else (None, ?ps)) = (ev, xs)" by fastforce
  have r: "r = Inr (dc, True)" "us = (case ev of None \<Rightarrow> [] | Some old \<Rightarrow> [old])" "p' = p\<lparr>dpDirect := (key, dc) # xs\<rparr>"
    using assms(1) False e by (auto simp: register_direct_def split: option.splits)
  have same: "evictOldestDirectUDPLocked seen ?ps = evictOldestExchangeLocked seen ?ps"
    by (simp add: evictOldestDirectUDPLocked_def evictOldestExchangeLocked_def)
  have "set xs \<subseteq> set ?ps \<and> distinct (map fst xs) \<and> int (length xs) + 1 \<le> maxUDPExchanges \<and> snd ` set ?ps = set us \<union> snd ` set xs"
  proof (cases "int (length ?ps) \<ge> maxUDPExchanges")
    case False
    then show ?thesis using e r(2) t by auto
  next
    case True
    then have "?ps \<noteq> []" by (auto simp: maxUDPExchanges_def)
    then have "fst (fold (older seen) ?ps ([], 0)) \<noteq> []" using oldest_nonempty [OF t(3)] by blast
    then obtain old where o: "ev = Some old" using e True by (auto simp: evictOldestDirectUDPLocked_def Let_def split: if_splits)
    then obtain k' where k': "(k', old) \<in> set ?ps" "xs = remove_key k' ?ps" using evict_member [of seen ?ps old xs] e True same by auto
    show ?thesis using remove_key_shorter [OF k'(1)] remove_key_values [OF t(1) k'(1)] k' o r(2) t
      by (auto simp: remove_key_def distinct_map_filter)
  qed
  then show ?thesis using r k t(3) False assms(3) by (auto simp: created_of_def table_ok_def)
qed

lemma registers_keeps:
  assumes "direct_inv w" "map_of (diwFlights w) key = Some (Dialled dc)" "register_direct (diwLast w) key dc (diwPool w) = (r, us, p)"
  shows "direct_inv (put_flight key (Registered us (created_of r)) (w\<lparr>diwPool := p\<rparr>))" (is "direct_inv ?w")
proof -
  note i = direct_parts [OF assms(1)] and a = flight_accounts [OF direct_parts(6) [OF assms(1)] assms(2)]
  have f: "flights_ok (diwFlights ?w)" using put_ok [of "w\<lparr>diwPool := p\<rparr>" key] i(6) a(4) by simp
  have acc: "direct_accounted (drop_flight key w) = snd ` set (dpDirect (diwPool w)) \<union> direct_accounted (drop_flight key (w\<lparr>diwPool := q\<lparr>dpDirect := []\<rparr>\<rparr>))"
    "direct_accounted ?w = set us \<union> snd ` set (dpDirect p) \<union> direct_accounted (drop_flight key (w\<lparr>diwPool := q\<lparr>dpDirect := []\<rparr>\<rparr>))" for q
    by (auto simp: direct_accounted_def drop_flight_def put_flight_def)
  show ?thesis using register_direct_cases [OF assms(3) i(5) a(4)]
  proof
    assume c: "created_of r = None \<and> us = [dc] \<and> p = diwPool w"
    have m: "mset (fresh_readers w) = mset (dc # fresh_readers ?w)" "mset (readers ?w) = mset (readers w)"
      using c by (simp_all add: put_accounts drop_changes a(1,2))
    have "distinct (dc # fresh_readers ?w)" "set (fresh_readers ?w) \<subseteq> {..<diwDialled w}"
      using fresh_by_mset [OF m(1)] i(2,3) by auto
    moreover have "direct_accounted ?w = direct_accounted w" using acc a(3) c by auto
    ultimately show ?thesis using i f c readers_by_mset [OF m(2)] unfolding direct_inv_def by auto
  next
    assume c: "created_of r = Some dc \<and> \<not> dpClosed (diwPool w) \<and> (\<exists>xs. p = (diwPool w)\<lparr>dpDirect := (key, dc) # xs\<rparr> \<and>
      set xs \<subseteq> set (dpDirect (diwPool w)) \<and> snd ` set (dpDirect (diwPool w)) = set us \<union> snd ` set xs) \<and> table_ok p"
    then obtain xs where x: "p = (diwPool w)\<lparr>dpDirect := (key, dc) # xs\<rparr>" "set xs \<subseteq> set (dpDirect (diwPool w))"
      "snd ` set (dpDirect (diwPool w)) = set us \<union> snd ` set xs" by blast
    have m: "mset (fresh_readers ?w) = mset (fresh_readers w)" "mset (readers ?w) = mset ((key, dc) # readers w)"
      using c by (simp_all add: put_accounts drop_changes a(1,2))
    have "direct_accounted ?w = direct_accounted w" using acc a(3) x by auto
    then show ?thesis using i f c x readers_by_mset [OF m(2)] fresh_by_mset [OF m(1)] unfolding direct_inv_def by auto
  qed
qed

lemma drop_keeps:
  assumes "direct_inv w" "map_of (diwFlights w) key = Some f" "dheld f = []" "dfresh f = []" 
    and "w' = drop_flight key (w\<lparr>diwStarting := downs (key, f) @ diwStarting w\<rparr>)"
  shows "direct_inv w'"
proof -
  note i = direct_parts [OF assms(1)] and a = flight_accounts [OF direct_parts(6) [OF assms(1)] assms(2)]
  have m: "mset (readers w') = mset (readers w)" "mset (fresh_readers w') = mset (fresh_readers w)"
    unfolding a(1,2) assms(3-5) by (simp_all add: readers_def fresh_readers_def drop_flight_def)
  have "direct_accounted w' = direct_accounted w" unfolding a(3) assms(3,5) by (auto simp: direct_accounted_def drop_flight_def)
  then show ?thesis
    using i fresh_by_mset [OF m(2)] readers_by_mset [OF m(1)] drop_ok [of "w\<lparr>diwStarting := downs (key, f) @ diwStarting w\<rparr>" key]
    unfolding direct_inv_def assms(5) by auto
qed

lemma direct_inv_step: "direct_step w w' \<Longrightarrow> direct_inv w \<Longrightarrow> direct_inv w'"
proof (induction rule: direct_step.induct)
  case (flight_begins key w)
  have "filter (\<lambda>kf. fst kf \<noteq> key) (diwFlights w) = diwFlights w"
    using flight_begins(2) by (auto simp: filter_id_conv map_of_eq_None_iff)
  then have "drop_flight key w = w" by (simp add: drop_flight_def)
  then have "mset (readers (put_flight key Dialling w)) = mset (readers w)" "mset (fresh_readers (put_flight key Dialling w)) = mset (fresh_readers w)"
    "direct_accounted (put_flight key Dialling w) = direct_accounted w" by (simp_all add: put_accounts)
  then show ?case using direct_parts [OF flight_begins(3)] put_ok [of w key] flight_begins(1)
    unfolding direct_inv_def by (auto dest!: fresh_by_mset readers_by_mset)
next
  case (dial_fails w key)
  have "drop_flight key w = drop_flight key (w\<lparr>diwStarting := downs (key, Dialling) @ diwStarting w\<rparr>)" by simp
  then show ?case using drop_keeps [OF dial_fails(2,1)] by simp
next
  case (dials w key)
  then show ?case using dials_keeps by blast
next
  case (too_late w key dc)
  have "register_direct (diwLast w) key dc (diwPool w) = (Inl errSocksServerClosed, [dc], diwPool w)" using too_late(2) by (simp add: register_direct_def)
  from registers_keeps [OF too_late(3,1) this] show ?case by (simp add: created_of_def)
next
  case (registers w key dc r us p)
  then show ?case using registers_keeps by blast
next
  case (flight_closes w key u us c)
  then show ?case using flight_closes_keeps by blast
next
  case (flight_ends w key c)
  have "(case c of None \<Rightarrow> [] | Some dc \<Rightarrow> [(key, dc)]) = downs (key, Registered [] c)" by (cases c) simp_all
  then show ?case using drop_keeps [OF flight_ends(2,1)] by simp
next
  case (loop_starts w xs x ys)
  let ?w = "w\<lparr>diwStarting := xs @ ys, diwLoops := x # diwLoops w\<rparr>"
  have "mset (readers ?w) = mset (readers w)" "mset (fresh_readers ?w) = mset (fresh_readers w)"
    using loop_starts(1) by (simp_all add: readers_def fresh_readers_def)
  then show ?case using direct_parts [OF loop_starts(3)] unfolding direct_inv_def
    by (auto simp: direct_accounted_def dest!: fresh_by_mset readers_by_mset)
next
  case (caller_refused w xs x ys)
  let ?w = "w\<lparr>diwStarting := xs @ ys\<rparr>"
  have m: "mset (fresh_readers w) = mset (snd x # fresh_readers ?w)" using caller_refused(1) by (simp add: readers_def fresh_readers_def)
  have "distinct (snd x # fresh_readers ?w)" "set (fresh_readers ?w) \<subseteq> {..<diwDialled w}"
    using direct_parts(2,3) [OF caller_refused(3)] fresh_by_mset [OF m] by auto
  then show ?case using direct_parts [OF caller_refused(3)] caller_refused(2) unfolding direct_inv_def by (auto simp: direct_accounted_def)
next
  case (loop_ends w xs x ys)
  let ?w = "w\<lparr>diwLoops := xs @ ys, diwEnding := x # diwEnding w, diwClosed := insert (snd x) (diwClosed w)\<rparr>"
  note i = direct_parts [OF loop_ends(2)]
  have m: "mset (readers ?w) = mset (readers w)" "mset (fresh_readers ?w) = mset (fresh_readers w)"
    using loop_ends(1) by (simp_all add: readers_def fresh_readers_def)
  have "snd x \<in> set (fresh_readers w)" using loop_ends(1) by (auto simp: readers_def fresh_readers_def)
  then have "direct_accounted ?w = direct_accounted w" using i(1,3) by (auto simp: direct_accounted_def)
  then show ?case using i fresh_by_mset [OF m(2)] readers_by_mset [OF m(1)] unfolding direct_inv_def by auto
next
  case (removes w xs key dc ys)
  let ?w = "w\<lparr>diwEnding := xs @ ys, diwPool := removeDirect key dc (diwPool w)\<rparr>"
  note i = direct_parts [OF removes(2)]
  have m: "mset (readers w) = mset ((key, dc) # readers ?w)" "mset (fresh_readers w) = mset (dc # fresh_readers ?w)"
    using removes(1) by (simp_all add: readers_def fresh_readers_def)
  have k: "distinct (dc # fresh_readers ?w)" "set (fresh_readers ?w) \<subseteq> {..<diwDialled w}"
    using fresh_by_mset [OF m(2)] i(2,3) by auto
  have dt: "distinct (map fst (dpDirect (diwPool w)))" using i(5) by (simp add: table_ok_def)
  have dc: "dc \<in> diwClosed w" using i(4) removes(1) by auto
  have v: "insert dc (snd ` set (dpDirect (removeDirect key dc (diwPool w)))) = insert dc (snd ` set (dpDirect (diwPool w)))"
    using remove_key_values [OF dt, of key dc] by (auto simp: removeDirect_def directFor_def dest: map_of_SomeD)
  have "direct_accounted ?w = direct_accounted w" using v dc unfolding direct_accounted_def by auto
  moreover have "table_ok (removeDirect key dc (diwPool w))"
    using i(5) by (auto simp: table_ok_def removeDirect_def remove_key_def distinct_map_filter filter_within)
  moreover have "dpClosed (diwPool w) \<or> set (dpDirect (removeDirect key dc (diwPool w))) \<subseteq> set (readers ?w)"
  proof -
    have "(key, dc) \<notin> set (dpDirect (removeDirect key dc (diwPool w)))"
      using dt by (auto simp: removeDirect_def directFor_def remove_key_def)
    moreover have "set (dpDirect (removeDirect key dc (diwPool w))) \<subseteq> set (dpDirect (diwPool w))"
      by (auto simp: removeDirect_def remove_key_def)
    ultimately show ?thesis using i(7) readers_by_mset [OF m(1)] by auto
  qed
  moreover have "dpClosed (removeDirect key dc (diwPool w)) = dpClosed (diwPool w)" "dpDirect (diwPool w) = [] \<Longrightarrow> dpDirect (removeDirect key dc (diwPool w)) = []"
    by (auto simp: removeDirect_def directFor_def)
  ultimately show ?case using i k removes(1) unfolding direct_inv_def by auto
next
  case (cleans w idle now us p)
  note i = direct_parts [OF cleans(2)]
  have d: "us = map snd (filter (\<lambda>kv. now - diwLast w (snd kv) > idle) (dpDirect (diwPool w)))"
    "p = (diwPool w)\<lparr>dpDirect := filter (\<lambda>kv. \<not> now - diwLast w (snd kv) > idle) (dpDirect (diwPool w))\<rparr>"
    using cleans(1) by (auto simp: direct_cleanup_def Let_def)
  have "direct_accounted (w\<lparr>diwPool := p, diwClosed := diwClosed w \<union> set us\<rparr>) = direct_accounted w" by (auto simp: direct_accounted_def d image_iff)
  moreover have "table_ok p" using i(5) by (auto simp: table_ok_def d distinct_map_filter filter_within)
  ultimately show ?case using i unfolding direct_inv_def by (auto simp: d readers_def fresh_readers_def)
next
  case (sweeps w us p)
  note i = direct_parts [OF sweeps(3)]
  have "direct_accounted (w\<lparr>diwPool := p, diwClosed := diwClosed w \<union> set us, diwSwept := True\<rparr>) = direct_accounted w"
    using sweeps(2) by (force simp: direct_accounted_def direct_sweep_def)
  then show ?case using i sweeps(1,2) unfolding direct_inv_def
    by (auto simp: direct_sweep_def table_ok_def maxUDPExchanges_def readers_def fresh_readers_def)
next
  case (reorders xs w)
  note i = direct_parts [OF reorders(2)]
  have "set xs = set (dpDirect (diwPool w))" "length xs = length (dpDirect (diwPool w))" "distinct (map fst xs) = distinct (map fst (dpDirect (diwPool w)))"
    using reorders(1) by (metis mset_eq_setD, metis mset_eq_length, metis mset_eq_imp_distinct_iff mset_map)
  then show ?case using i unfolding direct_inv_def
    by (auto simp: direct_accounted_def table_ok_def readers_def fresh_readers_def)
qed (auto simp: direct_inv_def direct_accounted_def table_ok_def readers_def fresh_readers_def)

interpretation direct: step_invariant direct_init direct_step direct_inv
proof unfold_locales
  show "direct_init w \<Longrightarrow> direct_inv w" for w :: direct_world
    by (simp add: direct_init_def direct_inv_def direct_accounted_def readers_def fresh_readers_def table_ok_def flights_ok_def maxUDPExchanges_def)
qed (rule direct_inv_step)

section \<open>No direct session is lost, unread or read twice\<close>

text \<open>
  C26. In every reachable state of the direct sessions, however dialling, eviction, cleanup, closing and the
  reading loops interleave: at most \<open>maxUDPExchanges\<close> are registered; every socket ever dialled is
  registered, in the hands of a flight, or closed; no socket has two reading loops; while the pool is
  open, every registered socket has a loop, or one that is about to start or to remove it; and when
  \<open>close\<close> has swept and the flights have ended, every socket is closed.
\<close>

theorem direct_sessions_accounted:
  assumes "reachable_from direct_init direct_step w"
  shows "int (length (dpDirect (diwPool w))) \<le> maxUDPExchanges \<and> direct_accounted w = {..<diwDialled w} \<and>
    distinct (map snd (diwLoops w)) \<and>
    (\<not> dpClosed (diwPool w) \<longrightarrow> set (dpDirect (diwPool w)) \<subseteq> set (readers w)) \<and>
    (diwSwept w \<and> diwFlights w = [] \<longrightarrow> diwClosed w = {..<diwDialled w})"
proof -
  note i = direct_parts [OF direct.inv_reachable [OF assms]]
  have "distinct (map snd (diwLoops w))" using i(2) by (simp add: fresh_readers_def readers_def)
  moreover have "diwClosed w = {..<diwDialled w}" if "diwSwept w" "diwFlights w = []"
    using i(1,8) that by (simp add: direct_accounted_def)
  ultimately show ?thesis using i(1,5,7) by (auto simp: table_ok_def)
qed

section \<open>Answers of direct targets\<close>

text \<open>
  The reading loop of a direct session hands on what the target sends, whole and in order: up to the
  error that ends it, exactly the datagrams within the size limit, and nothing of a longer one. The
  pooled buffer it reads into is longer than the limit.
\<close>

definition deliverable :: "bytes result \<Rightarrow> bytes list" where
  "deliverable x = (case x of Inl _ \<Rightarrow> [] | Inr d \<Rightarrow> if length d \<le> MaxUDPDataSize then [d] else [])"

theorem direct_answers_whole:
  assumes "MaxUDPDataSize < capacity"
  shows "directUDPReadLoop tooLong capacity reads =
    concat (map deliverable (takeWhile (\<lambda>x. case x of Inl e \<Rightarrow> tooLong e | Inr _ \<Rightarrow> True) reads))"
proof (induction reads)
  case (Cons x reads)
  have "length (take capacity d) > MaxUDPDataSize \<longleftrightarrow> length d > MaxUDPDataSize" for d :: bytes using assms by (simp add: min_def)
  moreover have "length d \<le> MaxUDPDataSize \<Longrightarrow> take capacity d = d" for d :: bytes using assms by simp
  ultimately show ?case using Cons.IH by (cases x) (auto simp: deliverable_def Let_def simp del: MaxUDPDataSize_def)
qed simp

theorem direct_answers_whole_witness:
  "directUDPReadLoop (\<lambda>_. True) 16384 [Inr [1], Inl io_EOF, Inr (replicate 16384 0), Inr [2]] = [[1], [2]]"
  using direct_answers_whole [of 16384 "\<lambda>_. True" "[Inr [1], Inl io_EOF, Inr (replicate 16384 0), Inr [2]]"]
  by (simp add: deliverable_def)

theorem direct_sessions_accounted_witness:
  "\<exists>w. reachable_from direct_init direct_step w \<and> dpDirect (diwPool w) = [(''k'', 0)] \<and> direct_accounted w = {..<diwDialled w} \<and> diwDialled w = 1"
proof -
  define w0 where "w0 = \<lparr>diwPool = \<lparr>dpDirect = [], dpClosed = False\<rparr>, diwFlights = [], diwStarting = [], diwLoops = [], diwEnding = [],
    diwDialled = 0, diwClosed = {}, diwSwept = False, diwLast = (\<lambda>_. 0)\<rparr>"
  define w1 where "w1 = put_flight ''k'' Dialling w0"
  define w2 where "w2 = put_flight ''k'' (Dialled (diwDialled w1)) (w1\<lparr>diwDialled := Suc (diwDialled w1)\<rparr>)"
  define w3 where "w3 = put_flight ''k'' (Registered [] (Some 0)) (w2\<lparr>diwPool := \<lparr>dpDirect = [(''k'', 0)], dpClosed = False\<rparr>\<rparr>)"
  note d = w0_def w1_def w2_def w3_def put_flight_def drop_flight_def
  have "reachable_from direct_init direct_step w0" by (rule reachable_from.start) (simp add: direct_init_def w0_def)
  moreover have "direct_step w0 w1" unfolding w1_def by (rule direct_step.flight_begins) (simp_all add: w0_def)
  moreover have "direct_step w1 w2" unfolding w2_def by (rule direct_step.dials) (simp add: d)
  moreover have "direct_step w2 w3"
  proof -
    have "map_of (diwFlights w2) ''k'' = Some (Dialled 0)" by (simp add: d)
    moreover have "register_direct (diwLast w2) ''k'' 0 (diwPool w2) = (Inr (0, True), [], \<lparr>dpDirect = [(''k'', 0)], dpClosed = False\<rparr>)"
      by (simp add: d register_direct_def directFor_def maxUDPExchanges_def)
    ultimately show ?thesis using direct_step.registers [of w2 "''k''" 0] by (simp add: w3_def created_of_def)
  qed
  ultimately have r: "reachable_from direct_init direct_step w3" by (meson reachable_from.step)
  show ?thesis using direct_sessions_accounted [OF r] r by (intro exI [of _ w3]) (auto simp: d)
qed

end
