(* ===== verification/Fallback.thy ===== *)
theory Fallback
  imports Matching Outbound Stats DnsMsg
begin

text \<open>
  \<open>server/handler/fallback.go\<close>, \<open>fallback_random.go\<close> and \<open>fallback_http.go\<close>: the site that the server shows to everything
  that does not authenticate. Its generated pages come from a seed of the deployment: the random
  source (\<open>math/rand/v2\<close>), the page template and the embedded texts are arguments. The colours of the theme
  are computed in floating point and are part of the template here.
\<close>

section \<open>Package strings\<close>

fun split_char :: "char \<Rightarrow> string \<Rightarrow> string list" where
  "split_char c [] = [[]]"
| "split_char c (x # xs) =
     (if x = c then [] # split_char c xs else case split_char c xs of [] \<Rightarrow> [[x]] | p # ps \<Rightarrow> (x # p) # ps)"

definition TrimRight :: "string \<Rightarrow> char \<Rightarrow> string" where
  "TrimRight s c = rev (dropWhile (\<lambda>x. x = c) (rev s))"

definition Trim :: "string \<Rightarrow> char \<Rightarrow> string" where
  "Trim s c = TrimRight (dropWhile (\<lambda>x. x = c) s) c"

fun strings_Contains_at :: "string \<Rightarrow> string \<Rightarrow> bool" where
  "strings_Contains_at [] p \<longleftrightarrow> p = []"
| "strings_Contains_at (x # xs) p \<longleftrightarrow> HasPrefix (x # xs) p \<or> strings_Contains_at xs p"

section \<open>Chance\<close>

record 's rng =
  rgGen :: "bytes \<Rightarrow> string \<Rightarrow> 's"
  rgIntN :: "nat \<Rightarrow> 's \<Rightarrow> nat \<times> 's"

definition pickRand :: "'s rng \<Rightarrow> 'a \<Rightarrow> 'a list \<Rightarrow> 's \<Rightarrow> 'a \<times> 's" where
  "pickRand g zero pool r = (if pool = [] then (zero, r) else case rgIntN g (length pool) r of (i, r) \<Rightarrow> (pool ! i, r))"

section \<open>The deployment\<close>

record navItem =
  niLabel :: string
  niHref :: string

record themeDef =
  thName :: string
  thCSS :: string

record deployment =
  dySeed :: bytes
  dyTheme :: themeDef
  dySite :: string
  dyNav :: "navItem list"
  dyTagline :: string
  dyLastModified :: int
  dyFooterNotice :: string

definition pickTheme :: "'s rng \<Rightarrow> themeDef list \<Rightarrow> bytes \<Rightarrow> string \<Rightarrow> themeDef" where
  "pickTheme g themes seed name =
     (case (if name \<noteq> [] then find (\<lambda>t. thName t = name) themes else None) of
        Some t \<Rightarrow> t
      | None \<Rightarrow> themes ! fst (rgIntN g (length themes) (rgGen g seed ''theme'')))"

definition siteNouns :: "string list" where
  "siteNouns =
     [''Ashford'', ''Brightwater'', ''Cedar'', ''Harborview'', ''Lumen'', ''Northwind'', ''Ridgeline'',
      ''Stonebridge'', ''Westgate'', ''Foxglove'', ''Atlas'', ''Meridian'', ''Ironwood'', ''Kestrel'',
      ''Beacon'', ''Cliffside'', ''Bramble'', ''Oakfield'', ''Quarry'', ''Saltmarsh'', ''Thorne'', ''Vantage'']"

definition siteSuffixes :: "string list" where
  "siteSuffixes =
     [''Advisory'', ''Partners'', ''Studio'', ''Group'', ''Digital'', ''Consulting'', ''Systems'',
      ''Labs'', ''Collective'', ''Associates'', ''Works'', ''Practice'']"

definition taglines :: "string list" where
  "taglines =
     [''Innovation delivered with integrity'', ''Rooted in values, growing together'',
      ''Engineering the future, one line at a time'', ''Wisdom, trust, and the human touch'',
      ''Crafting clarity through design'', ''Practical thinking for complex work'',
      ''Measured advice, delivered directly'', ''Building things that last'', ''Experience you can put to work'',
      ''Clear answers, sensible plans'', ''Small team, serious work'', ''Steady hands for hard problems'']"

definition buildTags :: "string list" where
  "buildTags = [''v2.14.3'', ''v3.1.0'', ''v1.9.7'', ''v4.0.2'', ''v2.8.11'', ''v3.4.0'']"

definition noticePool :: "string list" where
  "noticePool =
     [''Built with a static site generator {tag}. No tracking scripts are used on this site.'',
      ''This site sets no cookies and collects no analytics.'',
      ''Hosted in the EU. Content served from cache where possible.'',
      ''Accessibility: we aim to meet WCAG 2.2 AA. Tell us if something falls short.'',
      ''Last reviewed by the editorial team this quarter.'']"

definition newSiteIdentity :: "'s rng \<Rightarrow> bytes \<Rightarrow> string" where
  "newSiteIdentity g seed =
     (case pickRand g [] siteNouns (rgGen g seed ''site'') of
        (noun, r) \<Rightarrow> noun @ '' '' @ fst (pickRand g [] siteSuffixes r))"

definition pickTagline :: "'s rng \<Rightarrow> bytes \<Rightarrow> string" where
  "pickTagline g seed = fst (pickRand g [] taglines (rgGen g seed ''tagline''))"

definition pickBuildTag :: "'s rng \<Rightarrow> bytes \<Rightarrow> string" where
  "pickBuildTag g seed = fst (pickRand g [] buildTags (rgGen g seed ''buildtag''))"

definition newFooterNotice :: "'s rng \<Rightarrow> bytes \<Rightarrow> string" where
  "newFooterNotice g seed = ReplaceAll (fst (pickRand g [] noticePool (rgGen g seed ''notice''))) ''{tag}'' (pickBuildTag g seed)"

text \<open>\<open>newLastModified\<close>, in seconds.\<close>

definition newLastModified :: "'s rng \<Rightarrow> int \<Rightarrow> bytes \<Rightarrow> int" where
  "newLastModified g now seed = now - int (fst (rgIntN g (90 * 24 * 3600) (rgGen g seed ''lastmod'')))"

definition analyticsScript :: "'s rng \<Rightarrow> deployment \<Rightarrow> string" where
  "analyticsScript g dep =
     ''<!-- '' @ fst (pickRand g [] [''plausible'', ''umami'', ''fathom'', ''matomo''] (rgGen g (dySeed dep) ''analytics'')) @ '' '' @
     pickBuildTag g (dySeed dep) @ '' -->''"

definition navCandidates :: "navItem list" where
  "navCandidates =
     map (\<lambda>(l, h). \<lparr>niLabel = l, niHref = h\<rparr>)
       [(''About'', ''/about''), (''About Us'', ''/about''), (''Company'', ''/about''), (''Services'', ''/services''),
        (''Solutions'', ''/services''), (''Pricing'', ''/pricing''), (''Blog'', ''/blog''), (''News'', ''/news''),
        (''Articles'', ''/articles''), (''Contact'', ''/contact''), (''Get in Touch'', ''/contact''), (''Help'', ''/help'')]"

definition homeLabels :: "string list" where
  "homeLabels = [''Home'', ''Start'', ''Overview'']"

text \<open>The two loops of \<open>newNavItems\<close>: draw up to \<open>tries\<close> times for a link that is not used yet; do so \<open>extra\<close> times.\<close>

fun draw_nav :: "'s rng \<Rightarrow> nat \<Rightarrow> navItem list \<Rightarrow> 's \<Rightarrow> navItem list \<times> 's" where
  "draw_nav g 0 items r = (items, r)"
| "draw_nav g (Suc tries) items r =
     (case pickRand g \<lparr>niLabel = [], niHref = []\<rparr> navCandidates r of
        (c, r) \<Rightarrow> (if niHref c \<in> niHref ` set items then draw_nav g tries items r else (items @ [c], r)))"

fun draw_navs :: "'s rng \<Rightarrow> nat \<Rightarrow> navItem list \<Rightarrow> 's \<Rightarrow> navItem list" where
  "draw_navs g 0 items r = items"
| "draw_navs g (Suc extra) items r = (case draw_nav g (length navCandidates) items r of (items, r) \<Rightarrow> draw_navs g extra items r)"

definition newNavItems :: "'s rng \<Rightarrow> bytes \<Rightarrow> navItem list" where
  "newNavItems g seed =
     (case pickRand g [] homeLabels (rgGen g seed ''nav'') of
        (home, r) \<Rightarrow> (case rgIntN g 2 r of (k, r) \<Rightarrow> draw_navs g (2 + k) [\<lparr>niLabel = home, niHref = ''/''\<rparr>] r))"

text \<open>\<open>initialSeed\<close> with \<open>sha256\<close> and \<open>crypto/rand\<close> as arguments; \<open>None\<close> is the panic when there is no randomness.\<close>

definition initialSeed :: "(bytes \<Rightarrow> bytes) \<Rightarrow> bytes option \<Rightarrow> bytes \<Rightarrow> bytes option" where
  "initialSeed sha256 entropy injected =
     (if injected \<noteq> [] then Some (if length injected = 32 then injected else sha256 injected) else entropy)"

text \<open>\<open>newDeployment\<close>; \<open>css\<close> is the style sheet with the colours filled in.\<close>

definition newDeployment :: "'s rng \<Rightarrow> themeDef list \<Rightarrow> (bytes \<Rightarrow> themeDef \<Rightarrow> string) \<Rightarrow> int \<Rightarrow> bytes \<Rightarrow> string \<Rightarrow> deployment" where
  "newDeployment g themes css now seed theme =
     (let t = pickTheme g themes seed theme
      in \<lparr>dySeed = seed, dyTheme = t\<lparr>thCSS := css seed t\<rparr>, dySite = newSiteIdentity g seed, dyNav = newNavItems g seed,
          dyTagline = pickTagline g seed, dyLastModified = newLastModified g now seed, dyFooterNotice = newFooterNotice g seed\<rparr>)"

section \<open>Pages\<close>

definition detectPageType :: "string \<Rightarrow> string" where
  "detectPageType path0 =
     (let path = ToLower (Trim path0 (CHR ''/''))
      in if path = [] then ''home''
         else if path = ''about'' \<or> HasPrefix path ''about/'' then ''about''
         else if path = ''contact'' \<or> path = ''support'' \<or> HasPrefix path ''contact/'' \<or> path = ''help'' then ''contact''
         else if path = ''services'' \<or> path = ''products'' \<or> path = ''solutions'' \<or> path = ''pricing'' \<or>
                 HasPrefix path ''services/'' \<or> HasPrefix path ''products/'' \<or> HasPrefix path ''solutions/'' then ''services''
         else if path = ''blog'' \<or> path = ''news'' \<or> path = ''articles'' \<or>
                 HasPrefix path ''blog/'' \<or> HasPrefix path ''news/'' \<or> HasPrefix path ''articles/'' then ''blog''
         else ''generic'')"

definition cleanPath :: "string \<Rightarrow> string" where
  "cleanPath p = (if p = [] \<or> p = ''/'' then ''/'' else TrimRight p (CHR ''/''))"

record pageContent =
  pcTitle :: string
  pcHeading :: string
  pcParagraphs :: "string list"
  pcFooter :: string

text \<open>The embedded texts by page type; a missing key has none.\<close>

record contentPool =
  cpIntros :: "string \<Rightarrow> string list"
  cpBodies :: "string \<Rightarrow> string list"
  cpExtras :: "string \<Rightarrow> string list"
  cpOutros :: "string \<Rightarrow> string list"
  cpFooters :: "string \<Rightarrow> string list"
  cpTitles :: "string \<Rightarrow> string list"
  cpHeadings :: "string \<Rightarrow> string list"
  cpPages :: "string \<Rightarrow> pageContent list"

fun dedupe_loop :: "string list \<Rightarrow> string list \<Rightarrow> string list" where
  "dedupe_loop out [] = out"
| "dedupe_loop out (p # ps) =
     (let p = TrimSpace p in if p = [] \<or> p \<in> set out then dedupe_loop out ps else dedupe_loop (out @ [p]) ps)"

definition dedupeParagraphs :: "string list \<Rightarrow> string list" where
  "dedupeParagraphs ps = dedupe_loop [] ps"

definition resolveHeading :: "string \<Rightarrow> string \<Rightarrow> string" where
  "resolveHeading heading title = (let h = TrimSpace heading in if h \<noteq> [] then h else TrimSpace title)"

definition resolveFooter :: "(int \<Rightarrow> string) \<Rightarrow> deployment \<Rightarrow> string \<Rightarrow> string" where
  "resolveFooter year dep footer =
     (let y = year (dyLastModified dep);
          footer = ReplaceAll (ReplaceAll (TrimSpace footer) ''{site}'' (dySite dep)) ''{year}'' y
      in if footer = [] then [char_of (0xC2 :: nat), char_of (0xA9 :: nat)] @ '' '' @ y @ '' '' @ dySite dep @ ''. All rights reserved.'' else footer)"

fun pick_many :: "'s rng \<Rightarrow> nat \<Rightarrow> string list \<Rightarrow> 's \<Rightarrow> string list \<times> 's" where
  "pick_many g 0 pool r = ([], r)"
| "pick_many g (Suc n) pool r = (case pickRand g [] pool r of (x, r) \<Rightarrow> (case pick_many g n pool r of (xs, r) \<Rightarrow> (x # xs, r)))"

text \<open>The paragraphs of \<open>composeContent\<close>, and the whole of it.\<close>

definition compose_paragraphs :: "'s rng \<Rightarrow> contentPool \<Rightarrow> string \<Rightarrow> 's \<Rightarrow> string list \<times> 's" where
  "compose_paragraphs g pool ty r =
     (let intros = cpIntros pool ty; bodies = cpBodies pool ty; extras = cpExtras pool ty; outros = cpOutros pool ty
      in if intros = [] \<and> bodies = [] then ([], r)
         else
           (let (n, r) = (if length intros > 1 then case rgIntN g 2 r of (k, r) \<Rightarrow> (1 + k, r) else (1, r));
                (ps1, r) = pick_many g n intros r;
                (ps2, r) = (if bodies \<noteq> [] then case rgIntN g 3 r of (k, r) \<Rightarrow> pick_many g (1 + k) bodies r else ([], r));
                (ps3, r) = (if extras \<noteq> [] then case rgIntN g 2 r of (k, r) \<Rightarrow> if k = 0 then pick_many g 1 extras r else ([], r) else ([], r));
                (ps4, r) = (if outros \<noteq> [] then case rgIntN g 3 r of (k, r) \<Rightarrow> if k > 0 then pick_many g 1 outros r else ([], r) else ([], r))
            in (dedupeParagraphs (ps1 @ ps2 @ ps3 @ ps4), r)))"

definition unavailable :: string where
  "unavailable = ''This page is temporarily unavailable. Please try again later.''"

definition composeContent :: "'s rng \<Rightarrow> contentPool \<Rightarrow> (int \<Rightarrow> string) \<Rightarrow> deployment \<Rightarrow> string \<Rightarrow> string \<Rightarrow> pageContent" where
  "composeContent g pool year dep path ty =
     (let r = rgGen g (dySeed dep) (''content:'' @ path);
          (paragraphs, r) = compose_paragraphs g pool ty r;
          (title, r) = pickRand g [] (cpTitles pool ty) r;
          (heading, r) = pickRand g [] (cpHeadings pool ty) r;
          (footer, r) = pickRand g [] (cpFooters pool ty) r;
          legacy = cpPages pool ty;
          (paragraphs, title, heading, footer) =
            (if paragraphs = [] \<and> legacy \<noteq> []
             then let c = legacy ! fst (rgIntN g (length legacy) r)
                  in (pcParagraphs c, if title = [] then pcTitle c else title, if heading = [] then pcHeading c else heading,
                      if footer = [] then pcFooter c else footer)
             else (paragraphs, title, heading, footer));
          paragraphs = (if paragraphs = [] then [unavailable] else paragraphs)
      in \<lparr>pcTitle = title, pcHeading = resolveHeading heading title, pcParagraphs = paragraphs, pcFooter = resolveFooter year dep footer\<rparr>)"

definition resolveTitle :: "string \<Rightarrow> string \<Rightarrow> string" where
  "resolveTitle title siteName = (let t = TrimSpace title in if t = [] then siteName else t)"

definition firstParagraph :: "string list \<Rightarrow> string" where
  "firstParagraph paragraphs =
     (case paragraphs of
        [] \<Rightarrow> []
      | d # _ \<Rightarrow>
          (if length d \<le> 160 then d
           else case LastIndexByte (take 160 d) (CHR '' '') of
                  Some i \<Rightarrow> if i > 0 then take i d else take 160 d
                | None \<Rightarrow> take 160 d))"

definition bodyClass :: "string \<Rightarrow> string" where
  "bodyClass ty = (if ty = ''home'' then ''home page'' else ''page '' @ ty)"

fun hex_token :: "'s rng \<Rightarrow> nat \<Rightarrow> 's \<Rightarrow> string" where
  "hex_token g 0 r = []"
| "hex_token g (Suc n) r = (case rgIntN g 16 r of (i, r) \<Rightarrow> (''0123456789abcdef'' ! i) # hex_token g n r)"

definition hexToken :: "'s rng \<Rightarrow> bytes \<Rightarrow> string \<Rightarrow> string" where
  "hexToken g seed purpose = hex_token g 8 (rgGen g seed purpose)"

definition headExtras :: "'s rng \<Rightarrow> deployment \<Rightarrow> string" where
  "headExtras g dep =
     ''<link rel='' @ [CHR 0x22] @ ''icon'' @ [CHR 0x22] @ '' href='' @ [CHR 0x22] @ ''/favicon-'' @ hexToken g (dySeed dep) ''asset'' @ ''.ico'' @ [CHR 0x22] @ ''>'' @ [CHR 0x0A] @
     ''    <meta name='' @ [CHR 0x22] @ ''generator'' @ [CHR 0x22] @ '' content='' @ [CHR 0x22] @ pickBuildTag g (dySeed dep) @ [CHR 0x22] @ ''>''"

record renderData =
  rdCSS :: string
  rdSiteName :: string
  rdTagline :: string
  rdNavItems :: "navItem list"
  rdTitle :: string
  rdDescription :: string
  rdContent :: pageContent
  rdFooterNotice :: string
  rdBodyClass :: string
  rdHeadExtras :: string
  rdAnalytics :: string

text \<open>What rendering depends on besides the deployment. The template may fail.\<close>

record 's site_env =
  seRng :: "'s rng"
  sePool :: contentPool
  seYear :: "int \<Rightarrow> string"
  seTemplate :: "renderData \<Rightarrow> string option"

definition renderPage :: "'s site_env \<Rightarrow> deployment \<Rightarrow> string \<Rightarrow> string" where
  "renderPage e dep path =
     (let g = seRng e; ty = detectPageType path; content = composeContent g (sePool e) (seYear e) dep path ty;
          data = \<lparr>rdCSS = thCSS (dyTheme dep), rdSiteName = dySite dep, rdTagline = dyTagline dep, rdNavItems = dyNav dep,
            rdTitle = resolveTitle (pcTitle content) (dySite dep), rdDescription = firstParagraph (pcParagraphs content),
            rdContent = content, rdFooterNotice = dyFooterNotice dep, rdBodyClass = bodyClass ty, rdHeadExtras = headExtras g dep,
            rdAnalytics = analyticsScript g dep\<rparr>
      in case seTemplate e data of None \<Rightarrow> ''Internal Server Error'' | Some html \<Rightarrow> html)"

section \<open>Responses\<close>

text \<open>Header names are in their canonical form.\<close>

record web_request =
  wrHost :: string
  wrPath :: string
  wrRawQuery :: string
  wrTLS :: bool
  wrHeader :: "(string \<times> string) list"

record web_response =
  wpStatus :: nat
  wpHeader :: "(string \<times> string) list"
  wpBody :: string

definition hdr_Get :: "(string \<times> string) list \<Rightarrow> string \<Rightarrow> string" where
  "hdr_Get h k = (case map_of h k of None \<Rightarrow> [] | Some v \<Rightarrow> v)"

definition hdr_Del :: "string \<Rightarrow> (string \<times> string) list \<Rightarrow> (string \<times> string) list" where
  "hdr_Del k h = filter (\<lambda>kv. fst kv \<noteq> k) h"

definition hdr_Set :: "string \<Rightarrow> string \<Rightarrow> (string \<times> string) list \<Rightarrow> (string \<times> string) list" where
  "hdr_Set k v h = (k, v) # hdr_Del k h"

definition fnv64a :: "bytes \<Rightarrow> 64 word" where
  "fnv64a bs = fold (\<lambda>b h. (h XOR ucast b) * 1099511628211) bs 14695981039346656037"

definition strongETag :: "string \<Rightarrow> string" where
  "strongETag body = [CHR 0x22] @ hex_text (unat (fnv64a (map of_char body))) @ [CHR 0x22]"

definition etagMatch :: "string \<Rightarrow> string \<Rightarrow> bool" where
  "etagMatch header etag \<longleftrightarrow>
     (\<exists>c \<in> set (split_char (CHR '','') header). let c = TrimSpace c in c \<noteq> [] \<and> (c = ''*'' \<or> TrimPrefix c ''W/'' = etag))"

text \<open>\<open>http.ParseTime\<close> and \<open>Format(http.TimeFormat)\<close>; HTTP dates have whole seconds.\<close>

record http_time =
  htFormat :: "int \<Rightarrow> string"
  htParse :: "string \<Rightarrow> int option"

definition isNotModified :: "http_time \<Rightarrow> (string \<times> string) list \<Rightarrow> string \<Rightarrow> int \<Rightarrow> bool" where
  "isNotModified tm h etag lastModified =
     (let inm = hdr_Get h ''If-None-Match''; ims = hdr_Get h ''If-Modified-Since''
      in if inm \<noteq> [] then etagMatch inm etag
         else if ims \<noteq> [] then (case htParse tm ims of Some t \<Rightarrow> lastModified \<le> t | None \<Rightarrow> False)
         else False)"

text \<open>\<open>prepareFallbackResponse\<close> with the writing of the body by its caller.\<close>

definition prepareFallbackResponse :: "http_time \<Rightarrow> (string \<times> string) list \<Rightarrow> string \<Rightarrow> int \<Rightarrow> nat \<Rightarrow> web_response" where
  "prepareFallbackResponse tm h body lastModified status =
     (let etag = strongETag body
      in if isNotModified tm h etag lastModified
         then \<lparr>wpStatus = 304, wpHeader = [(''Server'', ''nginx''), (''ETag'', etag)], wpBody = []\<rparr>
         else \<lparr>wpStatus = status,
           wpHeader = [(''Content-Type'', ''text/html; charset=utf-8''), (''Server'', ''nginx''), (''Accept-Ranges'', ''bytes''),
             (''Last-Modified'', htFormat tm lastModified), (''ETag'', etag), (''Content-Length'', nat_text (length body))],
           wpBody = body\<rparr>)"

definition writeRawFallback :: "string \<Rightarrow> web_response" where
  "writeRawFallback content =
     \<lparr>wpStatus = 200, wpHeader = [(''Content-Type'', ''text/html; charset=utf-8''), (''Server'', ''nginx'')], wpBody = content\<rparr>"

definition generatedStatus :: "(string \<times> string) list \<Rightarrow> string \<Rightarrow> nat" where
  "generatedStatus h path =
     (if detectPageType path \<noteq> ''generic'' then 200
      else if strings_Contains_at (ToLower (hdr_Get h ''Accept'')) ''text/html'' then 404
      else 200)"

section \<open>Modes\<close>

text \<open>A URL; \<open>uOther\<close> stands for the parts the program leaves alone.\<close>

record url =
  uScheme :: string
  uHost :: string
  uPath :: string
  uRawQuery :: string
  uOther :: string

record fallback_proxy =
  pxURL :: url
  pxPreserveHost :: bool
  pxCdn :: "string set"

record Fallback =
  fbDep :: deployment
  fbCustom :: string
  fbPages :: "(string \<times> string) list"
  fbPage404 :: string
  fbProxy :: "fallback_proxy option"
  fbCache :: "(string \<times> string) list"
  fbCacheCount :: nat

definition maxCachedFallbackPages :: nat where
  "maxCachedFallbackPages = 320"

text \<open>A file that the walk of \<open>setDir\<close> meets: its directories under the root, its name and its content.\<close>

record dir_file =
  dfDirs :: "string list"
  dfName :: string
  dfContent :: "string result"

record file_world =
  fwStat :: "string \<Rightarrow> bool result"
  fwRead :: "string \<Rightarrow> string result"
  fwWalk :: "string \<Rightarrow> dir_file result list"
  fwParse :: "string \<Rightarrow> url result"

definition file_route :: "dir_file \<Rightarrow> string option" where
  "file_route f =
     (let name = TrimSuffix (dfName f) ''.html''
      in if EqualFold name ''404'' then None
         else if EqualFold name ''index'' then Some (if dfDirs f = [] then ''/'' else ''/'' @ join_text ''/'' (dfDirs f))
         else Some (''/'' @ TrimSuffix (join_text ''/'' (dfDirs f @ [dfName f])) ''.html''))"

fun setDir_walk :: "dir_file result list \<Rightarrow> (string \<times> string) list \<times> string \<Rightarrow> ((string \<times> string) list \<times> string) result" where
  "setDir_walk [] acc = Inr acc"
| "setDir_walk (Inl err # fs) acc = Inl err"
| "setDir_walk (Inr f # fs) (pages, page404) =
     (if \<not> HasSuffix (ToLower (dfName f)) ''.html'' then setDir_walk fs (pages, page404)
      else case dfContent f of
             Inl err \<Rightarrow> Inl (Wrap ''read'' [err])
           | Inr content \<Rightarrow>
               (case file_route f of
                  None \<Rightarrow> setDir_walk fs (pages, content)
                | Some path \<Rightarrow> setDir_walk fs ((path, content) # pages, page404)))"

definition setDir :: "file_world \<Rightarrow> string \<Rightarrow> Fallback \<Rightarrow> go_error option \<times> Fallback" where
  "setDir w dir fb =
     (case setDir_walk (fwWalk w dir) ([], []) of
        Inl err \<Rightarrow> (Some err, fb)
      | Inr (pages, page404) \<Rightarrow> (None, fb\<lparr>fbPages := pages, fbPage404 := page404\<rparr>))"

definition setHTML :: "string \<Rightarrow> Fallback \<Rightarrow> Fallback" where
  "setHTML html fb = (if html = [] then fb else fb\<lparr>fbCustom := html\<rparr>)"

definition setProxy :: "file_world \<Rightarrow> string \<Rightarrow> bool \<Rightarrow> string list \<Rightarrow> Fallback \<Rightarrow> go_error option \<times> Fallback" where
  "setProxy w target preserveHost cdnDomains fb =
     (if target = [] then (None, fb\<lparr>fbProxy := None\<rparr>)
      else case fwParse w target of
             Inl err \<Rightarrow> (Some (Wrap ''parse fallback proxy url'' [err]), fb)
           | Inr u \<Rightarrow>
               (None, fb\<lparr>fbProxy := Some \<lparr>pxURL = u, pxPreserveHost = preserveHost,
                  pxCdn = (\<lambda>d. ToLower (TrimSpace d)) ` set cdnDomains\<rparr>\<rparr>))"

definition SetTarget :: "file_world \<Rightarrow> string \<Rightarrow> bool \<Rightarrow> string list \<Rightarrow> Fallback \<Rightarrow> go_error option \<times> Fallback" where
  "SetTarget w target preserveHost cdnDomains fb0 =
     (let fb = fb0\<lparr>fbProxy := None, fbPages := [], fbPage404 := [], fbCustom := []\<rparr>
      in if target = [] then (None, fb)
         else if HasPrefix target ''http://'' \<or> HasPrefix target ''https://'' then setProxy w target preserveHost cdnDomains fb
         else case fwStat w target of
                Inl err \<Rightarrow> (Some (Wrap ''stat fallback target'' [err]), fb)
              | Inr True \<Rightarrow> setDir w target fb
              | Inr False \<Rightarrow>
                  (case fwRead w target of
                     Inl err \<Rightarrow> (Some (Wrap ''read fallback target'' [err]), fb)
                   | Inr data \<Rightarrow> (None, setHTML data fb)))"

definition NewFallback ::
  "file_world \<Rightarrow> deployment \<Rightarrow> string \<Rightarrow> bool \<Rightarrow> string list \<Rightarrow> Fallback result" where
  "NewFallback w dep target preserveHost cdnDomains =
     (case SetTarget w target preserveHost cdnDomains
             \<lparr>fbDep = dep, fbCustom = [], fbPages = [], fbPage404 = [], fbProxy = None, fbCache = [], fbCacheCount = 0\<rparr> of
        (Some err, _) \<Rightarrow> Inl err
      | (None, fb) \<Rightarrow> Inr fb)"

section \<open>Serving\<close>

text \<open>The critical sections of \<open>getOrRenderHTML\<close>, and the whole of it.\<close>

definition page_lookup :: "string \<Rightarrow> Fallback \<Rightarrow> string option" where
  "page_lookup path fb = map_of (fbCache fb) path"

definition page_insert :: "string \<Rightarrow> string \<Rightarrow> Fallback \<Rightarrow> Fallback" where
  "page_insert path html fb =
     (if map_of (fbCache fb) path = None \<and> fbCacheCount fb < maxCachedFallbackPages
      then fb\<lparr>fbCache := (path, html) # fbCache fb, fbCacheCount := fbCacheCount fb + 1\<rparr> else fb)"

definition getOrRenderHTML :: "'s site_env \<Rightarrow> string \<Rightarrow> Fallback \<Rightarrow> string \<times> Fallback" where
  "getOrRenderHTML e path0 fb =
     (let path = cleanPath path0
      in case page_lookup path fb of
           Some cached \<Rightarrow> (cached, fb)
         | None \<Rightarrow> (let html = renderPage e (fbDep fb) path in (html, page_insert path html fb)))"

datatype serve_out = Serve_proxied web_request string | Serve_answer web_response

definition Serve :: "'s site_env \<Rightarrow> http_time \<Rightarrow> web_request \<Rightarrow> Fallback \<Rightarrow> stats \<Rightarrow> serve_out \<times> Fallback \<times> stats" where
  "Serve e tm r fb st =
     (let st = RecordServerFallbackPage st; path = cleanPath (wrPath r);
          generated = (case getOrRenderHTML e path fb of
             (body, fb') \<Rightarrow> (Serve_answer (prepareFallbackResponse tm (wrHeader r) body (dyLastModified (fbDep fb)) (generatedStatus (wrHeader r) path)), fb', st));
          rest = (if fbCustom fb \<noteq> [] then (Serve_answer (writeRawFallback (fbCustom fb)), fb, st) else generated)
      in if fbProxy fb \<noteq> None
         then (Serve_proxied (r\<lparr>wrHeader := hdr_Del ''X-Es'' (wrHeader r)\<rparr>) (if wrTLS r then ''https'' else ''http''), fb, st)
         else if fbPages fb \<noteq> []
         then (let found = map_of (fbPages fb) path;
                   content = (case found of
                     Some c \<Rightarrow> c
                   | None \<Rightarrow> (if fbPage404 fb \<noteq> [] then fbPage404 fb
                              else case map_of (fbPages fb) ''/'' of Some c \<Rightarrow> c | None \<Rightarrow> []))
               in if content \<noteq> [] then (Serve_answer (writeRawFallback content), fb, st) else rest)
         else rest)"

end
