(* ===== verification/FallbackSite.thy ===== *)
theory FallbackSite
  imports Fallback
begin

text \<open>
  What holds of the fallback site: its links lead somewhere, its pages do not change between requests,
  its validators validate, and a directory of the operator's is served as it is.
\<close>

section \<open>Links\<close>

definition rng_ok :: "'s rng \<Rightarrow> bool" where
  "rng_ok g \<longleftrightarrow> (\<forall>n r. 0 < n \<longrightarrow> fst (rgIntN g n r) < n)"

lemma pickRand_mem: "rng_ok g \<Longrightarrow> pool \<noteq> [] \<Longrightarrow> pickRand g zero pool r = (x, r') \<Longrightarrow> x \<in> set pool"
  by (auto simp: pickRand_def rng_ok_def split: prod.splits) (metis fst_conv length_greater_0_conv nth_mem)

definition nav_ok :: "navItem list \<Rightarrow> bool" where
  "nav_ok items \<longleftrightarrow> distinct (map niHref items) \<and> (\<forall>i \<in> set items. i \<in> set navCandidates \<or> niHref i = ''/'')"

lemma draw_nav_ok:
  "rng_ok g \<Longrightarrow> nav_ok items \<Longrightarrow> draw_nav g n items r = (items', r') \<Longrightarrow> nav_ok items' \<and> (items' = items \<or> (\<exists>c. items' = items @ [c]))"
proof (induction n arbitrary: r)
  case (Suc n)
  obtain c r1 where c: "pickRand g \<lparr>niLabel = [], niHref = []\<rparr> navCandidates r = (c, r1)" by fastforce
  have "c \<in> set navCandidates" by (rule pickRand_mem [OF Suc.prems(1) _ c]) (simp add: navCandidates_def)
  then show ?case using Suc c by (auto simp: nav_ok_def split: if_splits)
qed simp

lemma draw_navs_ok:
  "rng_ok g \<Longrightarrow> nav_ok items \<Longrightarrow> nav_ok (draw_navs g k items r) \<and> (\<exists>xs. draw_navs g k items r = items @ xs \<and> length xs \<le> k)"
proof (induction k arbitrary: items r)
  case (Suc k)
  obtain items' r' where d: "draw_nav g (length navCandidates) items r = (items', r')" by fastforce
  note o = draw_nav_ok [OF Suc.prems d]
  note i = Suc.IH [OF Suc.prems(1), of items' r']
  obtain xs where "draw_navs g k items' r' = items' @ xs" "length xs \<le> k" using i o by auto
  then show ?case using o i d by auto
qed simp

lemma nav_pages: "i \<in> set navCandidates \<or> niHref i = ''/'' \<Longrightarrow> detectPageType (niHref i) \<noteq> ''generic''"
proof -
  have "\<forall>i \<in> set navCandidates. detectPageType (niHref i) \<noteq> ''generic''" by code_simp
  moreover have "detectPageType ''/'' \<noteq> ''generic''" by code_simp
  ultimately show "i \<in> set navCandidates \<or> niHref i = ''/'' \<Longrightarrow> detectPageType (niHref i) \<noteq> ''generic''" by auto
qed

text \<open>
  The navigation of the generated site has no dead link. For every seed it starts with the home page,
  has at most four entries, no two to the same place, and a browser that follows any of them gets a
  page of the site and not the answer for unknown paths.
\<close>

theorem nav_links_alive:
  assumes "rng_ok g"
  shows "(\<exists>home rest. newNavItems g seed = home # rest \<and> niHref home = ''/'') \<and> length (newNavItems g seed) \<le> 4 \<and>
    distinct (map niHref (newNavItems g seed)) \<and> (\<forall>item \<in> set (newNavItems g seed). generatedStatus h (niHref item) = 200)"
proof -
  obtain l r1 where l: "pickRand g [] homeLabels (rgGen g seed ''nav'') = (l, r1)" by fastforce
  obtain k r2 where k: "rgIntN g 2 r1 = (k, r2)" by fastforce
  have "k < 2" using assms k unfolding rng_ok_def by (metis fst_conv zero_less_numeral)
  let ?home = "\<lparr>niLabel = l, niHref = ''/''\<rparr>"
  have n: "newNavItems g seed = draw_navs g (2 + k) [?home] r2" using l k by (simp add: newNavItems_def)
  have "nav_ok [?home]" by (simp add: nav_ok_def)
  from draw_navs_ok [OF assms this, of "2 + k" r2]
  obtain xs where x: "nav_ok (newNavItems g seed)" "newNavItems g seed = ?home # xs" "length xs \<le> 2 + k" unfolding n by auto
  have "\<forall>item \<in> set (newNavItems g seed). generatedStatus h (niHref item) = 200"
    using x(1) nav_pages by (simp add: generatedStatus_def nav_ok_def)
  then show ?thesis using x \<open>k < 2\<close> by (auto simp: nav_ok_def)
qed

section \<open>Stable pages\<close>

text \<open>
  Requests side by side: each looks its page up, renders it if it is not there, and then offers it to
  the cache. \<open>ssServed\<close> is what was sent, with the path it was sent for.
\<close>

record site_state =
  ssSite :: Fallback
  ssRendered :: "(string \<times> string) list"
  ssServed :: "(string \<times> string) list"

inductive site_step :: "'s site_env \<Rightarrow> site_state \<Rightarrow> site_state \<Rightarrow> bool" for e :: "'s site_env" where
  hit: "page_lookup (cleanPath p) (ssSite s) = Some html \<Longrightarrow> site_step e s (s\<lparr>ssServed := (cleanPath p, html) # ssServed s\<rparr>)"
| render: "page_lookup (cleanPath p) (ssSite s) = None \<Longrightarrow>
    site_step e s (s\<lparr>ssRendered := (cleanPath p, renderPage e (fbDep (ssSite s)) (cleanPath p)) # ssRendered s\<rparr>)"
| offer: "ssRendered s = xs @ (path, html) # ys \<Longrightarrow>
    site_step e s (s\<lparr>ssRendered := xs @ ys, ssSite := page_insert path html (ssSite s), ssServed := (path, html) # ssServed s\<rparr>)"

definition site_init :: "deployment \<Rightarrow> site_state \<Rightarrow> bool" where
  "site_init dep s \<longleftrightarrow> fbDep (ssSite s) = dep \<and> fbCache (ssSite s) = [] \<and> fbCacheCount (ssSite s) = 0 \<and> ssRendered s = [] \<and> ssServed s = []"

definition site_inv :: "'s site_env \<Rightarrow> deployment \<Rightarrow> site_state \<Rightarrow> bool" where
  "site_inv e dep s \<longleftrightarrow> fbDep (ssSite s) = dep \<and>
     (\<forall>(path, html) \<in> set (fbCache (ssSite s)) \<union> set (ssRendered s) \<union> set (ssServed s). html = renderPage e dep path) \<and>
     length (fbCache (ssSite s)) = fbCacheCount (ssSite s) \<and> fbCacheCount (ssSite s) \<le> maxCachedFallbackPages"

interpretation site: step_invariant "site_init dep" "site_step e" "site_inv e dep" for e dep
proof unfold_locales
  show "site_init dep s \<Longrightarrow> site_inv e dep s" for s :: site_state by (auto simp: site_init_def site_inv_def)
next
  fix s t :: site_state
  assume "site_inv e dep s" "site_step e s t"
  from this(2,1) show "site_inv e dep t"
  proof (induction rule: site_step.induct)
    case (hit p s html)
    then show ?case by (auto simp: site_inv_def page_lookup_def dest: map_of_SomeD)
  next
    case (render p s)
    then show ?case by (auto simp: site_inv_def)
  next
    case (offer s xs path html ys)
    then show ?case by (auto simp: site_inv_def page_insert_def)
  qed
qed

text \<open>
  The generated pages do not change. However requests interleave, and whether a page comes from the
  cache or not, every response for a path carries the bytes that the deployment determines for it, and
  the cache never holds more than \<open>maxCachedFallbackPages\<close> pages.
\<close>

theorem fallback_pages_stable:
  assumes "reachable_from (site_init dep) (site_step e) s"
  shows "(\<forall>path html. (path, html) \<in> set (ssServed s) \<longrightarrow> html = renderPage e dep path) \<and>
    length (fbCache (ssSite s)) \<le> maxCachedFallbackPages"
  using site.inv_reachable [OF assms] by (auto simp: site_inv_def)

section \<open>Validators\<close>

lemma split_char_none: "c \<notin> set s \<Longrightarrow> split_char c s = [s]"
  by (induction s) auto

lemma hex_char_plain: "n < 16 \<Longrightarrow> hex_char n \<noteq> CHR '',''"
proof -
  have "\<forall>n \<in> set [0..<16]. hex_char n \<noteq> CHR '',''" by code_simp
  then show "n < 16 \<Longrightarrow> hex_char n \<noteq> CHR '',''" by simp
qed

lemma hex_text_plain: "CHR '','' \<notin> set (hex_text n)"
proof (induction n rule: hex_text.induct)
  case (1 n)
  have "hex_char (n mod 16) \<noteq> CHR '',''" "n < 16 \<Longrightarrow> hex_char n \<noteq> CHR '',''" by (simp_all add: hex_char_plain)
  then show ?case using 1 by (auto simp: hex_text.simps [of n])
qed

lemma etag_own: "etagMatch (strongETag body) (strongETag body)" "strongETag body \<noteq> []"
proof -
  have q: "strongETag body = CHR 0x22 # hex_text (unat (fnv64a (map of_char body))) @ [CHR 0x22]" by (simp add: strongETag_def)
  have s: "split_char (CHR '','') (strongETag body) = [strongETag body]"
    by (rule split_char_none) (auto simp: q hex_text_plain)
  have t: "TrimSpace (strongETag body) = strongETag body" by (simp add: q TrimSpace_def is_space_def)
  have "TrimPrefix (strongETag body) ''W/'' = strongETag body" by (simp add: q TrimPrefix_def HasPrefix_def)
  then show "etagMatch (strongETag body) (strongETag body)" unfolding etagMatch_def s by (simp add: t Let_def) (simp add: q)
  show "strongETag body \<noteq> []" by (simp add: q)
qed

definition generated_only :: "Fallback \<Rightarrow> bool" where
  "generated_only fb \<longleftrightarrow> fbProxy fb = None \<and> fbPages fb = [] \<and> fbCustom fb = []"

lemma serve_generated:
  assumes "generated_only fb"
  shows "Serve e tm r fb st =
    (Serve_answer (prepareFallbackResponse tm (wrHeader r) (fst (getOrRenderHTML e (cleanPath (wrPath r)) fb)) (dyLastModified (fbDep fb))
       (generatedStatus (wrHeader r) (cleanPath (wrPath r)))),
     snd (getOrRenderHTML e (cleanPath (wrPath r)) fb), RecordServerFallbackPage st)"
  using assms by (simp add: Serve_def generated_only_def Let_def split: prod.splits)

lemma render_again:
  assumes "getOrRenderHTML e path fb = (html, fb')"
  shows "fst (getOrRenderHTML e path fb') = html"
  using assms by (auto simp: getOrRenderHTML_def Let_def page_lookup_def page_insert_def split: option.splits if_splits)

text \<open>
  The validators of a generated page validate. Whatever the cache holds, a full answer announces the
  length of its body, its date and its tag; when the same page is asked for again with that tag, or with
  that date and no tag, the answer is 304, without a body and with the same tag.
\<close>

theorem fallback_validators:
  assumes "generated_only fb" "\<And>t. htParse tm (htFormat tm t) = Some t" "\<And>t. htFormat tm t \<noteq> []"
    and "Serve e tm r fb st = (Serve_answer a, fb', st')" "wpStatus a \<noteq> 304"
    and "Serve e tm r' fb' st' = (Serve_answer b, fb'', st'')" "cleanPath (wrPath r') = cleanPath (wrPath r)"
    and "hdr_Get (wrHeader r') ''If-None-Match'' = hdr_Get (wpHeader a) ''ETag'' \<or>
      hdr_Get (wrHeader r') ''If-None-Match'' = [] \<and> hdr_Get (wrHeader r') ''If-Modified-Since'' = hdr_Get (wpHeader a) ''Last-Modified''"
  shows "hdr_Get (wpHeader a) ''Content-Length'' = nat_text (length (wpBody a)) \<and> wpStatus b = 304 \<and> wpBody b = [] \<and>
    hdr_Get (wpHeader b) ''ETag'' = hdr_Get (wpHeader a) ''ETag''"
proof -
  let ?p = "cleanPath (wrPath r)"
  obtain html fb1 where g: "getOrRenderHTML e ?p fb = (html, fb1)" by fastforce
  have a: "a = prepareFallbackResponse tm (wrHeader r) html (dyLastModified (fbDep fb)) (generatedStatus (wrHeader r) ?p)" "fb' = fb1"
    using assms(4) unfolding serve_generated [OF assms(1)] g by simp_all
  have g': "getOrRenderHTML e ?p fb = (html, fb')" using g a(2) by simp
  have keep: "generated_only fb'" "fbDep fb' = fbDep fb"
    using g a(2) assms(1) by (auto simp: getOrRenderHTML_def Let_def page_insert_def generated_only_def split: option.splits if_splits)
  have b: "b = prepareFallbackResponse tm (wrHeader r') html (dyLastModified (fbDep fb)) (generatedStatus (wrHeader r') ?p)"
    using assms(6) render_again [OF g'] unfolding serve_generated [OF keep(1)] keep(2) assms(7) by simp
  have "\<not> isNotModified tm (wrHeader r) (strongETag html) (dyLastModified (fbDep fb))"
    using assms(5) a(1) by (auto simp: prepareFallbackResponse_def Let_def split: if_splits)
  then have ha: "hdr_Get (wpHeader a) ''ETag'' = strongETag html" "hdr_Get (wpHeader a) ''Last-Modified'' = htFormat tm (dyLastModified (fbDep fb))"
    "hdr_Get (wpHeader a) ''Content-Length'' = nat_text (length (wpBody a))"
    using a(1) by (simp_all add: prepareFallbackResponse_def Let_def hdr_Get_def)
  have "isNotModified tm (wrHeader r') (strongETag html) (dyLastModified (fbDep fb))"
    using assms(8) etag_own [of html] assms(2,3) [of "dyLastModified (fbDep fb)"] unfolding ha by (auto simp: isNotModified_def Let_def)
  then show ?thesis using ha b by (simp add: prepareFallbackResponse_def Let_def hdr_Get_def)
qed

section \<open>A directory of the operator's\<close>

definition routed :: "dir_file list \<Rightarrow> (string \<times> string) list" where
  "routed files = concat (map (\<lambda>f. case (file_route f, dfContent f) of (Some path, Inr c) \<Rightarrow> [(path, c)] | _ \<Rightarrow> []) files)"

definition not_found :: "string \<Rightarrow> dir_file list \<Rightarrow> string" where
  "not_found dflt files = fold (\<lambda>f c. case (file_route f, dfContent f) of (None, Inr c') \<Rightarrow> c' | _ \<Rightarrow> c) files dflt"

definition page_file :: "dir_file \<Rightarrow> bool" where
  "page_file f \<longleftrightarrow> HasSuffix (dfName f) ''.html'' \<and> (\<exists>c. dfContent f = Inr c \<and> c \<noteq> [])"

lemma lower_suffix: "HasSuffix s ''.html'' \<Longrightarrow> HasSuffix (ToLower s) ''.html''"
proof -
  assume h: "HasSuffix s ''.html''"
  have n: "length ''.html'' = 5" by simp
  have "s = take (length s - 5) s @ ''.html''"
    using h append_take_drop_id [of "length s - 5" s] unfolding HasSuffix_def n by simp
  then have "ToLower s = ToLower (take (length s - 5) s) @ ToLower ''.html''" unfolding ToLower_def by (metis map_append)
  moreover have "ToLower ''.html'' = ''.html''" by code_simp
  ultimately show ?thesis by (simp add: HasSuffix_def)
qed

lemma walk_pages:
  "\<forall>f \<in> set files. page_file f \<Longrightarrow> setDir_walk (map Inr files) (pages, nf) = Inr (rev (routed files) @ pages, not_found nf files)"
proof (induction files arbitrary: pages nf)
  case Nil
  then show ?case by (simp add: routed_def not_found_def)
next
  case (Cons f files)
  obtain c where c: "HasSuffix (ToLower (dfName f)) ''.html''" "dfContent f = Inr c" using Cons.prems by (auto simp: page_file_def lower_suffix)
  then show ?case using Cons by (cases "file_route f") (auto simp: routed_def not_found_def)
qed

text \<open>
  A directory is served as it is. When the target is a directory of \<open>.html\<close> files with content, no two for
  one path, then, whatever mode was set before, a request for the path of a file is answered with 200
  and that file's bytes, and one for any other path with the bytes of the last \<open>404.html\<close>, if there is
  one and some other page as well.
\<close>

theorem fallback_directory_served:
  assumes "fwStat w dir = Inr True" "dir \<noteq> []" "\<not> HasPrefix dir ''http://''" "\<not> HasPrefix dir ''https://''"
    and "fwWalk w dir = map Inr files" "\<forall>f \<in> set files. page_file f" "distinct (map fst (routed files))"
    and "SetTarget w dir preserveHost cdn fb = (err, fb')"
  shows "err = None \<and>
    (\<forall>path c r st. (path, c) \<in> set (routed files) \<and> cleanPath (wrPath r) = path \<longrightarrow>
       fst (Serve e tm r fb' st) = Serve_answer (writeRawFallback c)) \<and>
    (\<forall>r st. routed files \<noteq> [] \<and> not_found [] files \<noteq> [] \<and> cleanPath (wrPath r) \<notin> fst ` set (routed files) \<longrightarrow>
       fst (Serve e tm r fb' st) = Serve_answer (writeRawFallback (not_found [] files)))"
proof -
  have f: "err = None" "fbProxy fb' = None" "fbPages fb' = rev (routed files)" "fbPage404 fb' = not_found [] files"
    using assms(8) assms(1-4) walk_pages [OF assms(6), of "[]" "[]"] unfolding SetTarget_def setDir_def assms(5) by (auto simp: Let_def)
  have ne: "c \<noteq> []" if "(path, c) \<in> set (routed files)" for path c
    using that assms(6) by (auto simp: routed_def page_file_def split: option.splits sum.splits)
  have "map_of (fbPages fb') path = Some c" if "(path, c) \<in> set (routed files)" for path c
    using that assms(7) by (simp add: f(3) map_of_eq_Some_iff rev_map [symmetric])
  moreover have "map_of (fbPages fb') path = None" if "path \<notin> fst ` set (routed files)" for path
    using that by (simp add: f(3) map_of_eq_None_iff)
  moreover have "fbPages fb' \<noteq> []" if "(path, c) \<in> set (routed files)" for path c using that by (auto simp: f(3))
  ultimately show ?thesis using f ne by (auto simp: Serve_def Let_def)
qed

text \<open>
  Two limits of it: a name that ends in \<open>.HTML\<close> is taken as a page but keeps its ending in the path, and is
  not recognised as the page for unknown paths; and without another page that one is never served.
\<close>

lemma upper_case_names:
  "file_route \<lparr>dfDirs = [], dfName = ''About.HTML'', dfContent = Inr ''x''\<rparr> = Some ''/About.HTML''"
  "file_route \<lparr>dfDirs = [], dfName = ''404.HTML'', dfContent = Inr ''x''\<rparr> = Some ''/404.HTML''"
  by code_simp+

lemma lone_404_unserved:
  assumes "fwStat w dir = Inr True" "dir \<noteq> []" "\<not> HasPrefix dir ''http://''" "\<not> HasPrefix dir ''https://''"
    and "fwWalk w dir = [Inr \<lparr>dfDirs = [], dfName = ''404.html'', dfContent = Inr c\<rparr>]" "SetTarget w dir preserveHost cdn fb = (err, fb')"
  shows "generated_only fb'"
proof -
  have "file_route \<lparr>dfDirs = [], dfName = ''404.html'', dfContent = Inr c\<rparr> = None"
    "HasSuffix (ToLower ''404.html'') ''.html''" by (simp_all add: file_route_def TrimSuffix_def HasSuffix_def EqualFold_def) code_simp
  then show ?thesis using assms unfolding SetTarget_def setDir_def assms(5) by (auto simp: Let_def generated_only_def)
qed

section \<open>Examples\<close>

definition demo_rng :: "nat rng" where
  "demo_rng = \<lparr>rgGen = (\<lambda>_ p. length p), rgIntN = (\<lambda>n r. (r mod n, Suc r))\<rparr>"

definition demo_site :: "nat site_env" where
  "demo_site = \<lparr>seRng = demo_rng, sePool = \<lparr>cpIntros = (\<lambda>_. []), cpBodies = (\<lambda>_. []), cpExtras = (\<lambda>_. []), cpOutros = (\<lambda>_. []),
     cpFooters = (\<lambda>_. []), cpTitles = (\<lambda>_. []), cpHeadings = (\<lambda>_. []), cpPages = (\<lambda>_. [])\<rparr>, seYear = (\<lambda>_. ''2025''),
     seTemplate = (\<lambda>d. Some (rdSiteName d @ rdBodyClass d))\<rparr>"

definition demo_deployment :: deployment where
  "demo_deployment = newDeployment demo_rng [\<lparr>thName = ''plain'', thCSS = []\<rparr>] (\<lambda>_ t. thCSS t) 1000000000 [1] []"

definition demo_fallback :: Fallback where
  "demo_fallback = \<lparr>fbDep = demo_deployment, fbCustom = [], fbPages = [], fbPage404 = [], fbProxy = None, fbCache = [], fbCacheCount = 0\<rparr>"

definition demo_time :: http_time where
  "demo_time = \<lparr>htFormat = (\<lambda>t. (if 0 \<le> t then CHR ''P'' else CHR ''N'') # replicate (nat \<bar>t\<bar>) (CHR ''x'')),
     htParse = (\<lambda>s. case s of [] \<Rightarrow> None | c # x \<Rightarrow> Some (if c = CHR ''P'' then int (length x) else - int (length x)))\<rparr>"

lemma demo_rng_ok: "rng_ok demo_rng"
  by (simp add: rng_ok_def demo_rng_def)

theorem nav_links_alive_witness: "\<forall>item \<in> set (newNavItems demo_rng [1]). generatedStatus [(''Accept'', ''text/html'')] (niHref item) = 200"
  using nav_links_alive [OF demo_rng_ok, of "[1]" "[(''Accept'', ''text/html'')]"] by blast

theorem fallback_pages_stable_witness:
  "\<exists>s. reachable_from (site_init demo_deployment) (site_step demo_site) s \<and> ssServed s = [(''/a'', renderPage demo_site demo_deployment ''/a'')]"
proof -
  define s0 where "s0 = \<lparr>ssSite = demo_fallback, ssRendered = [], ssServed = []\<rparr>"
  define s1 where "s1 = s0\<lparr>ssRendered := (cleanPath ''/a'', renderPage demo_site (fbDep (ssSite s0)) (cleanPath ''/a'')) # ssRendered s0\<rparr>"
  define s2 where "s2 = s1\<lparr>ssRendered := [], ssSite := page_insert (cleanPath ''/a'') (renderPage demo_site (fbDep (ssSite s0)) (cleanPath ''/a'')) (ssSite s1),
    ssServed := [(cleanPath ''/a'', renderPage demo_site (fbDep (ssSite s0)) (cleanPath ''/a''))]\<rparr>"
  have c: "cleanPath ''/a'' = ''/a''" by code_simp
  have r0: "reachable_from (site_init demo_deployment) (site_step demo_site) s0"
    by (rule reachable_from.start) (simp add: site_init_def s0_def demo_fallback_def)
  have "site_step demo_site s0 s1" unfolding s1_def by (rule site_step.render) (simp add: page_lookup_def s0_def demo_fallback_def)
  moreover have "site_step demo_site s1 s2"
    using site_step.offer [of s1 "[]" "cleanPath ''/a''" "renderPage demo_site (fbDep (ssSite s0)) (cleanPath ''/a'')" "[]" demo_site]
    by (simp add: s2_def s1_def s0_def)
  ultimately have r: "reachable_from (site_init demo_deployment) (site_step demo_site) s2" using r0 by (meson reachable_from.step)
  obtain html where "ssServed s2 = [(''/a'', html)]" by (simp add: s2_def c)
  then show ?thesis using fallback_pages_stable [OF r] r by (intro exI [of _ s2]) auto
qed

theorem fallback_validators_witness:
  "\<exists>a b. fst (Serve demo_site demo_time \<lparr>wrHost = ''h'', wrPath = ''/about'', wrRawQuery = [], wrTLS = True, wrHeader = []\<rparr> demo_fallback init_stats) = Serve_answer a \<and>
     wpStatus a = 200 \<and> wpStatus b = 304 \<and> wpBody b = [] \<and>
     fst (Serve demo_site demo_time \<lparr>wrHost = ''h'', wrPath = ''/about/'', wrRawQuery = [], wrTLS = True, wrHeader = [(''If-None-Match'', hdr_Get (wpHeader a) ''ETag'')]\<rparr>
       (fst (snd (Serve demo_site demo_time \<lparr>wrHost = ''h'', wrPath = ''/about'', wrRawQuery = [], wrTLS = True, wrHeader = []\<rparr> demo_fallback init_stats))) init_stats) = Serve_answer b"
proof -
  let ?r = "\<lparr>wrHost = ''h'', wrPath = ''/about'', wrRawQuery = [], wrTLS = True, wrHeader = []\<rparr>"
  have o: "generated_only demo_fallback" by (simp add: generated_only_def demo_fallback_def)
  have cp: "cleanPath ''/about'' = ''/about''" "cleanPath ''/about/'' = ''/about''" by code_simp+
  have st: "generatedStatus [] ''/about'' = 200" by code_simp
  obtain a fb' st' where a: "Serve demo_site demo_time ?r demo_fallback init_stats = (Serve_answer a, fb', st')"
    unfolding serve_generated [OF o] by blast
  have a200: "wpStatus a = 200"
    using a st unfolding serve_generated [OF o] by (auto simp: prepareFallbackResponse_def isNotModified_def hdr_Get_def Let_def cp)
  let ?r' = "\<lparr>wrHost = ''h'', wrPath = ''/about/'', wrRawQuery = [], wrTLS = True, wrHeader = [(''If-None-Match'', hdr_Get (wpHeader a) ''ETag'')]\<rparr>"
  have o': "generated_only fb'" using a o unfolding serve_generated [OF o]
    by (auto simp: getOrRenderHTML_def page_insert_def generated_only_def Let_def split: option.splits)
  obtain b fb'' st'' where b: "Serve demo_site demo_time ?r' fb' st' = (Serve_answer b, fb'', st'')" unfolding serve_generated [OF o'] by blast
  have same: "fst (Serve demo_site demo_time ?r' fb' init_stats) = fst (Serve demo_site demo_time ?r' fb' st')" unfolding serve_generated [OF o'] by simp
  have t: "htParse demo_time (htFormat demo_time t) = Some t" "htFormat demo_time t \<noteq> []" for t by (simp_all add: demo_time_def)
  have "wpStatus b = 304 \<and> wpBody b = []"
    using fallback_validators [OF o t a _ b] a200 by (simp add: cp hdr_Get_def)
  then show ?thesis using a b a200 same by auto
qed

definition demo_files :: "dir_file list" where
  "demo_files = [\<lparr>dfDirs = [], dfName = ''404.html'', dfContent = Inr ''none''\<rparr>, \<lparr>dfDirs = [''team''], dfName = ''index.html'', dfContent = Inr ''team''\<rparr>]"

definition demo_world :: file_world where
  "demo_world = \<lparr>fwStat = (\<lambda>_. Inr True), fwRead = (\<lambda>_. Inl io_EOF), fwWalk = (\<lambda>_. map Inr demo_files), fwParse = (\<lambda>_. Inl io_EOF)\<rparr>"

theorem fallback_directory_served_witness:
  "fst (SetTarget demo_world ''/srv'' False [] demo_fallback) = None \<and>
   fst (Serve demo_site demo_time \<lparr>wrHost = ''h'', wrPath = ''/team/'', wrRawQuery = [], wrTLS = True, wrHeader = []\<rparr>
     (snd (SetTarget demo_world ''/srv'' False [] demo_fallback)) init_stats) = Serve_answer (writeRawFallback ''team'') \<and>
   fst (Serve demo_site demo_time \<lparr>wrHost = ''h'', wrPath = ''/else'', wrRawQuery = [], wrTLS = True, wrHeader = []\<rparr>
     (snd (SetTarget demo_world ''/srv'' False [] demo_fallback)) init_stats) = Serve_answer (writeRawFallback ''none'')"
proof -
  obtain err fb' where t: "SetTarget demo_world ''/srv'' False [] demo_fallback = (err, fb')" by fastforce
  have r: "routed demo_files = [(''/team'', ''team'')]" "not_found [] demo_files = ''none''" by code_simp+
  have p: "\<forall>f \<in> set demo_files. page_file f" by (simp add: demo_files_def page_file_def HasSuffix_def)
  have w: "fwStat demo_world ''/srv'' = Inr True" "fwWalk demo_world ''/srv'' = map Inr demo_files" by (simp_all add: demo_world_def)
  have c: "cleanPath ''/team/'' = ''/team''" "cleanPath ''/else'' = ''/else''" by code_simp+
  have h: "\<not> HasPrefix ''/srv'' ''http://''" "\<not> HasPrefix ''/srv'' ''https://''" by (simp_all add: HasPrefix_def)
  have d: "distinct (map fst (routed demo_files))" by (simp add: r)
  note f = fallback_directory_served [OF w(1) _ h w(2) p d t, where e = demo_site and tm = demo_time, unfolded r]
  then show ?thesis using t by (simp add: c)
qed

end
