(* ===== verification/FallbackProxy.thy ===== *)
theory FallbackProxy
  imports FallbackSite "HOL-Library.List_Lexorder" "HOL-Library.Char_ord"
begin

text \<open>
  \<open>server/handler/fallback_proxy.go\<close>: the fallback site as a reverse proxy. Requests go to the configured site or,
  under \<open>/__cdn__/\<close>, to the domains configured beside it; responses are rewritten so that the browser
  stays on the proxy. Parsing and printing of URLs, regular expressions, compression and the parsing
  of numbers are the standard library's and come in as arguments.
\<close>

section \<open>Requests\<close>

record web_lib =
  wlParse :: "string \<Rightarrow> url option"
  wlString :: "url \<Rightarrow> string"
  wlFloat :: "string \<Rightarrow> rat option"
  wlReplace :: "string \<Rightarrow> (string \<Rightarrow> string) \<Rightarrow> string \<Rightarrow> string"
  wlGunzip :: "string \<Rightarrow> (string \<times> go_error option) result"
  wlGzip :: "string \<Rightarrow> string result"

definition cdnPathPrefix :: string where
  "cdnPathPrefix = ''/__cdn__/''"

definition cdnHostMatches :: "string \<Rightarrow> string set \<Rightarrow> bool" where
  "cdnHostMatches host cdnSet \<longleftrightarrow> ToLower host \<in> cdnSet \<or> (\<exists>sub \<in> set (SubDomains host). ToLower sub \<in> cdnSet)"

definition routeCDN :: "url \<Rightarrow> string set \<Rightarrow> url option" where
  "routeCDN u cdnSet =
     (if \<not> HasPrefix (uPath u) cdnPathPrefix then None
      else let rest = drop (length cdnPathPrefix) (uPath u);
               (host, restPath) = (case IndexByte rest (CHR ''/'') of None \<Rightarrow> (rest, []) | Some i \<Rightarrow> (take i rest, drop i rest))
           in if host = [] then None
              else if \<not> cdnHostMatches host cdnSet then None
              else Some \<lparr>uScheme = ''https'', uHost = host, uPath = restPath, uRawQuery = uRawQuery u, uOther = []\<rparr>)"

definition cdnHostFromRequest :: "url \<Rightarrow> string set \<Rightarrow> string option" where
  "cdnHostFromRequest u cdnSet =
     (if \<not> HasPrefix (uPath u) cdnPathPrefix then None
      else let rest = drop (length cdnPathPrefix) (uPath u);
               host = (case IndexByte rest (CHR ''/'') of None \<Rightarrow> rest | Some i \<Rightarrow> take i rest)
           in if host = [] \<or> \<not> cdnHostMatches host cdnSet then None else Some host)"

text \<open>One element of \<open>Accept-Encoding\<close>: the coding and its weight.\<close>

definition coding_of :: "web_lib \<Rightarrow> string \<Rightarrow> string \<times> rat" where
  "coding_of lib part =
     (case map TrimSpace (split_char (CHR '';'') part) of
        [] \<Rightarrow> (part, 1)
      | coding # params \<Rightarrow>
          (coding, fold (\<lambda>p q. if HasPrefix p ''q='' then (case wlFloat lib (drop 2 p) of Some v \<Rightarrow> v | None \<Rightarrow> q) else q) params 1))"

definition clientAcceptsGzip :: "web_lib \<Rightarrow> string \<Rightarrow> bool" where
  "clientAcceptsGzip lib acceptEncoding \<longleftrightarrow> acceptEncoding \<noteq> [] \<and>
     (\<exists>part \<in> set (map TrimSpace (split_char (CHR '','') acceptEncoding)).
        part \<noteq> [] \<and> (case coding_of lib part of (coding, q) \<Rightarrow> (coding = ''gzip'' \<or> coding = ''*'') \<and> q > 0))"

record proxy_request =
  poURL :: url
  poHost :: string
  poHeader :: "(string \<times> string) list"

definition setAcceptEncoding :: "web_lib \<Rightarrow> web_request \<Rightarrow> proxy_request \<Rightarrow> proxy_request" where
  "setAcceptEncoding lib r out =
     out\<lparr>poHeader := hdr_Set ''Accept-Encoding''
        (if clientAcceptsGzip lib (hdr_Get (wrHeader r) ''Accept-Encoding'') then ''identity, gzip'' else ''identity'') (poHeader out)\<rparr>"

definition origin_referrer :: "web_lib \<Rightarrow> string \<Rightarrow> url \<Rightarrow> string \<Rightarrow> (string \<times> string) list \<Rightarrow> (string \<times> string) list" where
  "origin_referrer lib clientHost upstream hdr h =
     (let val = hdr_Get h hdr
      in if val = [] then h
         else case wlParse lib val of
                None \<Rightarrow> h
              | Some p \<Rightarrow>
                  (if uHost p \<noteq> clientHost then h
                   else hdr_Set hdr (wlString lib (p\<lparr>uScheme := uScheme upstream, uHost := uHost upstream\<rparr>)) h))"

definition rewriteRequestOriginReferrer :: "web_lib \<Rightarrow> string \<Rightarrow> url \<Rightarrow> proxy_request \<Rightarrow> proxy_request" where
  "rewriteRequestOriginReferrer lib clientHost upstream out =
     out\<lparr>poHeader := origin_referrer lib clientHost upstream ''Referer'' (origin_referrer lib clientHost upstream ''Origin'' (poHeader out))\<rparr>"

text \<open>\<open>SetURL\<close> of \<open>net/http/httputil\<close>.\<close>

definition singleJoiningSlash :: "string \<Rightarrow> string \<Rightarrow> string" where
  "singleJoiningSlash a b =
     (if HasSuffix a ''/'' \<and> HasPrefix b ''/'' then a @ drop 1 b
      else if \<not> HasSuffix a ''/'' \<and> \<not> HasPrefix b ''/'' then a @ ''/'' @ b
      else a @ b)"

definition proxy_SetURL :: "url \<Rightarrow> proxy_request \<Rightarrow> proxy_request" where
  "proxy_SetURL u out =
     (let q = uRawQuery (poURL out)
      in out\<lparr>poURL := (poURL out)\<lparr>uScheme := uScheme u, uHost := uHost u, uPath := singleJoiningSlash (uPath u) (uPath (poURL out)),
              uRawQuery := (if uRawQuery u = [] \<or> q = [] then uRawQuery u @ q else uRawQuery u @ ''&'' @ q)\<rparr>, poHost := []\<rparr>)"

text \<open>The request that the proxy sends for the one it got: \<open>Rewrite\<close> of \<open>setProxy\<close>.\<close>

definition proxy_Rewrite :: "web_lib \<Rightarrow> fallback_proxy \<Rightarrow> web_request \<Rightarrow> proxy_request" where
  "proxy_Rewrite lib px r =
     (let out = \<lparr>poURL = \<lparr>uScheme = [], uHost = [], uPath = wrPath r, uRawQuery = wrRawQuery r, uOther = []\<rparr>,
                 poHost = wrHost r, poHeader = wrHeader r\<rparr>
      in case routeCDN (poURL out) (pxCdn px) of
           Some c \<Rightarrow>
             setAcceptEncoding lib r (out\<lparr>poURL := (poURL out)\<lparr>uScheme := uScheme c, uHost := uHost c, uPath := uPath c, uRawQuery := uRawQuery c\<rparr>,
               poHost := uHost c\<rparr>)
         | None \<Rightarrow>
             (let out = proxy_SetURL (pxURL px) out;
                  out = (if pxPreserveHost px then out\<lparr>poHost := wrHost r\<rparr> else out)
              in rewriteRequestOriginReferrer lib (wrHost r) (pxURL px) (setAcceptEncoding lib r out)))"

section \<open>Responses\<close>

text \<open>What the client sees of the site, from the context of the request; and a response of the upstream.\<close>

record proxy_ctx =
  ctHost :: string
  ctScheme :: string
  ctAcceptEncoding :: string

record proxied_response =
  prHeader :: "(string \<times> string) list"
  prBody :: string
  prBodyErr :: "go_error option"
  prLength :: int

definition orig_scheme :: "proxy_ctx \<Rightarrow> string" where
  "orig_scheme c = (if ctScheme c = [] then ''https'' else ctScheme c)"

definition orig_origin :: "proxy_ctx \<Rightarrow> string" where
  "orig_origin c = orig_scheme c @ ''://'' @ ctHost c"

definition rewriteLocationHeader ::
  "web_lib \<Rightarrow> proxy_ctx \<Rightarrow> string \<Rightarrow> string set \<Rightarrow> (string \<times> string) list \<Rightarrow> (string \<times> string) list" where
  "rewriteLocationHeader lib c targetHost cdn h =
     (let loc = hdr_Get h ''Location''
      in if loc = [] then h
         else case wlParse lib loc of
                None \<Rightarrow> h
              | Some u \<Rightarrow>
                  (if uHost u = [] \<or> ctHost c = [] then h
                   else if uHost u = targetHost then hdr_Set ''Location'' (wlString lib (u\<lparr>uScheme := orig_scheme c, uHost := ctHost c\<rparr>)) h
                   else if cdnHostMatches (uHost u) cdn
                   then hdr_Set ''Location''
                          (wlString lib (u\<lparr>uScheme := orig_scheme c, uHost := ctHost c, uPath := cdnPathPrefix @ uHost u @ uPath u\<rparr>)) h
                   else h))"

definition domain_part :: "string \<Rightarrow> string \<Rightarrow> bool" where
  "domain_part targetHost part \<longleftrightarrow>
     (let p = TrimSpace part
      in length p > 7 \<and> EqualFold (take 7 p) ''Domain='' \<and>
         EqualFold (TrimPrefix (TrimSpace (drop 7 p)) ''.'') (ToLower (TrimPrefix targetHost ''.'')))"

definition rewrite_cookie :: "string \<Rightarrow> string \<Rightarrow> string" where
  "rewrite_cookie targetHost raw =
     (let parts = split_char (CHR '';'') raw
      in if \<exists>p \<in> set parts. domain_part targetHost p
         then join_text '';'' (takeWhile (\<lambda>p. \<not> domain_part targetHost p) parts @ tl (dropWhile (\<lambda>p. \<not> domain_part targetHost p) parts))
         else raw)"

definition rewriteSetCookieHeaders :: "string \<Rightarrow> (string \<times> string) list \<Rightarrow> (string \<times> string) list" where
  "rewriteSetCookieHeaders targetHost h = map (\<lambda>kv. if fst kv = ''Set-Cookie'' then (fst kv, rewrite_cookie targetHost (snd kv)) else kv) h"

definition semi_split :: "string \<Rightarrow> string \<times> string" where
  "semi_split part = (if HasSuffix part '';'' then (TrimRight part (CHR '';''), '';'') else (part, []))"

definition csp_token :: "string \<Rightarrow> string \<Rightarrow> string \<Rightarrow> string" where
  "csp_token targetHost origHost part0 =
     (case semi_split part0 of
        (part, sfx) \<Rightarrow>
          (if part = targetHost \<or> HasPrefix part (targetHost @ ''/'') then origHost @ drop (length targetHost) part @ sfx else part0))"

definition rewriteCSP :: "string \<Rightarrow> string \<Rightarrow> string \<Rightarrow> string" where
  "rewriteCSP csp0 targetHost origOrigin =
     (let csp = ReplaceAll (ReplaceAll csp0 (''https://'' @ targetHost) origOrigin) (''http://'' @ targetHost) origOrigin;
          origHost = TrimPrefix (TrimPrefix origOrigin ''http://'') ''https://''
      in join_text '' '' (map (csp_token targetHost origHost) (split_char (CHR '' '') csp)))"

definition cdn_csp_token :: "web_lib \<Rightarrow> proxy_ctx \<Rightarrow> string set \<Rightarrow> string \<Rightarrow> string" where
  "cdn_csp_token lib c cdn part0 =
     (case semi_split part0 of
        (part, sfx) \<Rightarrow>
          (if HasPrefix part ''https://'' \<or> HasPrefix part ''http://''
           then (case wlParse lib part of
                   None \<Rightarrow> part0
                 | Some u \<Rightarrow>
                     (if uHost u = [] \<or> \<not> cdnHostMatches (uHost u) cdn then part0
                      else orig_origin c @ cdnPathPrefix @ uHost u @ (if uPath u = [] then ''/'' else uPath u) @
                           (if uRawQuery u \<noteq> [] then ''?'' @ uRawQuery u else []) @ '' '' @ part @ sfx))
           else (let host = (case IndexByte part (CHR ''/'') of Some i \<Rightarrow> take i part | None \<Rightarrow> part)
                 in if host = [] \<or> \<not> cdnHostMatches host cdn then part0
                    else ctHost c @ cdnPathPrefix @ part @ (if CHR ''/'' \<in> set part then [] else ''/'') @ '' '' @ part @ sfx)))"

definition rewriteCDNInCSP :: "web_lib \<Rightarrow> proxy_ctx \<Rightarrow> string set \<Rightarrow> string \<Rightarrow> string" where
  "rewriteCDNInCSP lib c cdn csp = join_text '' '' (map (cdn_csp_token lib c cdn) (split_char (CHR '' '') csp))"

definition rewriteCSPHeader ::
  "web_lib \<Rightarrow> proxy_ctx \<Rightarrow> string \<Rightarrow> string set \<Rightarrow> (string \<times> string) list \<Rightarrow> (string \<times> string) list" where
  "rewriteCSPHeader lib c targetHost cdn h =
     (let csp = hdr_Get h ''Content-Security-Policy''
      in if csp = [] \<or> ctHost c = [] then h
         else hdr_Set ''Content-Security-Policy'' (rewriteCDNInCSP lib c cdn (rewriteCSP csp targetHost (orig_origin c))) h)"

section \<open>Bodies\<close>

definition isRewritableContentType :: "string \<Rightarrow> bool" where
  "isRewritableContentType ct0 \<longleftrightarrow>
     (let ct = ToLower (TrimSpace ct0)
      in (case IndexByte ct (CHR '';'') of Some i \<Rightarrow> TrimSpace (take i ct) | None \<Rightarrow> ct) = ''text/html'')"

definition getCdnURLRegexp :: "string \<Rightarrow> string" where
  "getCdnURLRegexp cdnHost =
     ''https?://(?:[a-zA-Z0-9](?:[a-zA-Z0-9-]*[a-zA-Z0-9])?'' @ [CHR 0x5C] @ ''.)*'' @ QuoteMeta cdnHost @ ''(?:/|:)''"

text \<open>What a match is replaced with; a match holds \<open>://\<close> and ends in \<open>/\<close> or \<open>:\<close>.\<close>

fun after_scheme :: "string \<Rightarrow> string" where
  "after_scheme [] = []"
| "after_scheme (c # s) = (if HasPrefix (c # s) ''://'' then drop 3 (c # s) else after_scheme s)"

definition cdn_replacement :: "string \<Rightarrow> string \<Rightarrow> string" where
  "cdn_replacement origOrigin match =
     (let rest = after_scheme match;
          fullHost = (if rest \<noteq> [] \<and> last rest \<in> {CHR ''/'', CHR '':''} then butlast rest else rest)
      in origOrigin @ cdnPathPrefix @ fullHost @ drop (length fullHost) rest)"

definition rewriteCDNURLs :: "web_lib \<Rightarrow> string \<Rightarrow> string \<Rightarrow> string set \<Rightarrow> string" where
  "rewriteCDNURLs lib body origOrigin cdn =
     fold (\<lambda>cdnHost body. wlReplace lib (getCdnURLRegexp cdnHost) (cdn_replacement origOrigin) body) (sorted_list_of_set cdn) body"

definition rewritten_text :: "web_lib \<Rightarrow> proxy_ctx \<Rightarrow> string \<Rightarrow> string set \<Rightarrow> string \<Rightarrow> string" where
  "rewritten_text lib c targetHost cdn body =
     rewriteCDNURLs lib (ReplaceAll (ReplaceAll body (''http://'' @ targetHost) (orig_origin c)) (''https://'' @ targetHost) (orig_origin c)) (orig_origin c) cdn"

definition with_body :: "string \<Rightarrow> proxied_response \<Rightarrow> proxied_response" where
  "with_body body resp = resp\<lparr>prBody := body, prBodyErr := None, prLength := int (length body),
     prHeader := hdr_Set ''Content-Length'' (nat_text (length body)) (prHeader resp)\<rparr>"

definition rewriteBodyContent :: "web_lib \<Rightarrow> proxy_ctx \<Rightarrow> string \<Rightarrow> string set \<Rightarrow> string \<Rightarrow> proxied_response \<Rightarrow> proxied_response" where
  "rewriteBodyContent lib c targetHost cdn body resp =
     (if ctHost c = [] then resp\<lparr>prBody := body, prBodyErr := None\<rparr>
      else let replaced = rewritten_text lib c targetHost cdn body;
               plain = (let r = with_body replaced resp in r\<lparr>prHeader := hdr_Del ''Content-Encoding'' (prHeader r)\<rparr>)
           in if clientAcceptsGzip lib (ctAcceptEncoding c)
              then (case wlGzip lib replaced of
                      Inl _ \<Rightarrow> plain
                    | Inr z \<Rightarrow> (let r = with_body z resp in r\<lparr>prHeader := hdr_Set ''Content-Encoding'' ''gzip'' (prHeader r)\<rparr>))
              else plain)"

definition restoreFailedBody :: "string \<Rightarrow> proxied_response \<Rightarrow> proxied_response" where
  "restoreFailedBody body resp = (let r = with_body body resp in r\<lparr>prHeader := hdr_Del ''Content-Encoding'' (prHeader r)\<rparr>)"

definition rewriteResponseBody :: "web_lib \<Rightarrow> proxy_ctx \<Rightarrow> string \<Rightarrow> string set \<Rightarrow> proxied_response \<Rightarrow> proxied_response" where
  "rewriteResponseBody lib c targetHost cdn resp =
     (if \<not> isRewritableContentType (hdr_Get (prHeader resp) ''Content-Type'') then resp
      else let enc = hdr_Get (prHeader resp) ''Content-Encoding''
           in if enc = [] \<or> enc = ''identity''
              then (case prBodyErr resp of
                      Some _ \<Rightarrow> restoreFailedBody (prBody resp) resp
                    | None \<Rightarrow> rewriteBodyContent lib c targetHost cdn (prBody resp) resp)
              else if enc = ''gzip''
              then (case wlGunzip lib (prBody resp) of
                      Inl _ \<Rightarrow> restoreFailedBody [] resp
                    | Inr (body, Some _) \<Rightarrow> restoreFailedBody body resp
                    | Inr (body, None) \<Rightarrow> rewriteBodyContent lib c targetHost cdn body resp)
              else resp)"

text \<open>\<open>ModifyResponse\<close> of \<open>setProxy\<close>; the response carries the request that was sent.\<close>

definition effective_host :: "fallback_proxy \<Rightarrow> proxy_request \<Rightarrow> string" where
  "effective_host px out = (case cdnHostFromRequest (poURL out) (pxCdn px) of Some h \<Rightarrow> h | None \<Rightarrow> uHost (pxURL px))"

definition proxy_ModifyResponse :: "web_lib \<Rightarrow> fallback_proxy \<Rightarrow> proxy_ctx \<Rightarrow> proxy_request \<Rightarrow> proxied_response \<Rightarrow> proxied_response" where
  "proxy_ModifyResponse lib px c out resp =
     (let host = effective_host px out; cdn = pxCdn px;
          h = rewriteCSPHeader lib c host cdn (rewriteSetCookieHeaders host (rewriteLocationHeader lib c host cdn (prHeader resp)))
      in rewriteResponseBody lib c host cdn (resp\<lparr>prHeader := h\<rparr>))"

end
