(* ===== verification/FallbackRewriting.thy ===== *)
theory FallbackRewriting
  imports FallbackProxy
begin

text \<open>
  What holds of the reverse proxy behind the fallback site: where its requests can go, that redirections
  through it come back to the same place, and that rewritten bodies are what their headers say.
\<close>

section \<open>Where requests go\<close>

definition under_domain :: "string set \<Rightarrow> string \<Rightarrow> bool" where
  "under_domain cdn h \<longleftrightarrow> (\<exists>d \<in> cdn. ToLower h = d \<or> (\<exists>p. ToLower h = p @ ''.'' @ d))"

lemma sub_loop_suffix: "sub \<in> set (sub_loop d) \<Longrightarrow> \<exists>p. d = p @ ''.'' @ sub"
proof (induction d rule: sub_loop.induct)
  case (1 d)
  obtain i where i: "IndexByte d (CHR ''.'') = Some (Suc i)" and s: "sub = drop (Suc (Suc i)) d \<or> sub \<in> set (sub_loop (drop (Suc (Suc i)) d))"
  proof (cases "IndexByte d (CHR ''.'')")
    case (Some j)
    then show ?thesis using 1(2) that by (cases j) (auto simp: sub_loop.simps [of d])
  qed (use 1(2) in \<open>simp add: sub_loop.simps [of d]\<close>)
  have "Suc i < length d" "d ! Suc i = CHR ''.''" using IndexByte_bound [OF i] by auto
  then have d: "d = take (Suc i) d @ ''.'' @ drop (Suc (Suc i)) d" using id_take_nth_drop [of "Suc i" d] by simp
  show ?case using s
  proof
    assume "sub = drop (Suc (Suc i)) d"
    then show ?thesis using d by metis
  next
    assume "sub \<in> set (sub_loop (drop (Suc (Suc i)) d))"
    then obtain p where "drop (Suc (Suc i)) d = p @ ''.'' @ sub" using 1(1) [OF i] by blast
    then have "d = (take (Suc i) d @ ''.'' @ p) @ ''.'' @ sub" using d by simp
    then show ?thesis by blast
  qed
qed

lemma cdn_under: "cdnHostMatches h cdn \<Longrightarrow> under_domain cdn h"
proof -
  assume "cdnHostMatches h cdn"
  then consider "ToLower h \<in> cdn" | sub where "sub \<in> set (SubDomains h)" "ToLower sub \<in> cdn" by (auto simp: cdnHostMatches_def)
  then show ?thesis
  proof cases
    case 1
    then show ?thesis by (auto simp: under_domain_def)
  next
    case (2 sub)
    then have "sub \<in> set (sub_loop h)" by (auto simp: SubDomains_def Let_def split: if_splits dest: in_set_takeD)
    then obtain p where p: "h = p @ ''.'' @ sub" using sub_loop_suffix by blast
    moreover have "lower (CHR ''.'') = CHR ''.''" by code_simp
    ultimately have "ToLower h = ToLower p @ ''.'' @ ToLower sub" by (simp add: ToLower_def)
    then show ?thesis using 2 by (auto simp: under_domain_def)
  qed
qed

lemma routeCDN_host:
  "routeCDN u cdn = Some c \<Longrightarrow> cdnHostMatches (uHost c) cdn \<and> uScheme c = ''https'' \<and> uHost c \<noteq> [] \<and> CHR ''/'' \<notin> set (uHost c)"
proof -
  have i: "IndexByte s ch = None \<longleftrightarrow> ch \<notin> set s" "IndexByte s ch = Some k \<Longrightarrow> ch \<notin> set (take k s)" for s ch k
    by (induction s arbitrary: k) (auto split: if_splits)
  show "routeCDN u cdn = Some c \<Longrightarrow> cdnHostMatches (uHost c) cdn \<and> uScheme c = ''https'' \<and> uHost c \<noteq> [] \<and> CHR ''/'' \<notin> set (uHost c)"
    by (auto simp: routeCDN_def Let_def i split: if_splits option.splits)
qed

lemma hdr_facts:
  "map_of (hdr_Set k v h) k' = (if k' = k then Some v else map_of h k')" "map_of (hdr_Del k h) k' = (if k' = k then None else map_of h k')"
proof -
  show d: "map_of (hdr_Del k h) k' = (if k' = k then None else map_of h k')" by (induction h) (auto simp: hdr_Del_def)
  show "map_of (hdr_Set k v h) k' = (if k' = k then Some v else map_of h k')" by (simp add: hdr_Set_def d)
qed

lemma hdr_Get_facts:
  "hdr_Get (hdr_Set k v h) k' = (if k' = k then v else hdr_Get h k')" "hdr_Get (hdr_Del k h) k' = (if k' = k then [] else hdr_Get h k')"
  by (simp_all add: hdr_Get_def hdr_facts)

lemma other_header: "k' \<noteq> k \<Longrightarrow> map_of (origin_referrer lib ch u k h) k' = map_of h k'"
  by (simp add: origin_referrer_def Let_def hdr_facts split: option.split)

text \<open>
  C24. The reverse proxy cannot be made to reach anything else. For every request that the fallback site
  hands to it, the request it sends goes to the configured site, or over TLS to one of the configured
  domains or a subdomain of one; and the header of the tunnel's handshake is never passed on.
\<close>

theorem fallback_proxy_confined:
  assumes "fbProxy fb = Some px" "Serve e tm r fb st = (Serve_proxied r2 scheme, fb', st')"
  shows "(uHost (poURL (proxy_Rewrite lib px r2)) = uHost (pxURL px) \<and> uScheme (poURL (proxy_Rewrite lib px r2)) = uScheme (pxURL px) \<or>
      under_domain (pxCdn px) (uHost (poURL (proxy_Rewrite lib px r2))) \<and> uScheme (poURL (proxy_Rewrite lib px r2)) = ''https'') \<and>
    map_of (poHeader (proxy_Rewrite lib px r2)) ''X-Es'' = None"
proof -
  have r2: "map_of (wrHeader r2) ''X-Es'' = None" using assms by (auto simp: Serve_def Let_def hdr_facts)
  have "map_of (poHeader (proxy_Rewrite lib px r2)) ''X-Es'' = None"
    using r2 by (simp add: proxy_Rewrite_def Let_def setAcceptEncoding_def rewriteRequestOriginReferrer_def other_header
        proxy_SetURL_def hdr_facts split: option.split)
  moreover have "uHost (poURL (proxy_Rewrite lib px r2)) = uHost (pxURL px) \<and> uScheme (poURL (proxy_Rewrite lib px r2)) = uScheme (pxURL px) \<or>
      under_domain (pxCdn px) (uHost (poURL (proxy_Rewrite lib px r2))) \<and> uScheme (poURL (proxy_Rewrite lib px r2)) = ''https''"
  proof (cases "routeCDN \<lparr>uScheme = [], uHost = [], uPath = wrPath r2, uRawQuery = wrRawQuery r2, uOther = []\<rparr> (pxCdn px)")
    case None
    then show ?thesis by (simp add: proxy_Rewrite_def Let_def setAcceptEncoding_def rewriteRequestOriginReferrer_def proxy_SetURL_def)
  next
    case (Some t)
    then show ?thesis using routeCDN_host [OF Some] cdn_under by (simp add: proxy_Rewrite_def Let_def setAcceptEncoding_def)
  qed
  ultimately show ?thesis by blast
qed

section \<open>Redirections\<close>

lemma route_prefixed:
  assumes "host \<noteq> []" "CHR ''/'' \<notin> set host" "path = [] \<or> HasPrefix path ''/''" "cdnHostMatches host cdn"
    and "uPath u = cdnPathPrefix @ host @ path"
  shows "routeCDN u cdn = Some \<lparr>uScheme = ''https'', uHost = host, uPath = path, uRawQuery = uRawQuery u, uOther = []\<rparr>"
proof -
  have i: "IndexByte (host @ path) (CHR ''/'') = (if path = [] then None else Some (length host))"
  proof -
    have "ch \<notin> set h \<Longrightarrow> IndexByte (h @ t) ch = map_option (\<lambda>k. length h + k) (IndexByte t ch)" for h t ch
      by (induction h) (cases "IndexByte t ch"; auto)+
    note this [OF assms(2), of path]
    moreover have "path \<noteq> [] \<Longrightarrow> IndexByte path (CHR ''/'') = Some 0" using assms(3) by (cases path) (auto simp: HasPrefix_def)
    ultimately show ?thesis by auto
  qed
  have "HasPrefix (uPath u) cdnPathPrefix" "drop (length cdnPathPrefix) (uPath u) = host @ path"
    using assms(5) by (simp_all add: HasPrefix_def)
  then show ?thesis using i assms(1,4) by (auto simp: routeCDN_def Let_def)
qed

text \<open>
  C25. A redirection to a configured domain stays on the proxy and arrives. The location is rewritten to the
  client's own host, and when the client follows it there, the request that the proxy then sends is for
  the host, the path and the query of the original location.
\<close>

theorem cdn_redirect_roundtrip:
  assumes "hdr_Get h ''Location'' = loc" "loc \<noteq> []" "wlParse lib loc = Some u" "ctHost c \<noteq> []"
    and "uHost u \<noteq> target" "uHost u \<noteq> []" "CHR ''/'' \<notin> set (uHost u)" "uPath u = [] \<or> HasPrefix (uPath u) ''/''"
    and "cdnHostMatches (uHost u) (pxCdn px)"
  shows "\<exists>u'. hdr_Get (rewriteLocationHeader lib c target (pxCdn px) h) ''Location'' = wlString lib u' \<and>
    uHost u' = ctHost c \<and> uScheme u' = orig_scheme c \<and>
    (\<forall>r. wrPath r = uPath u' \<and> wrRawQuery r = uRawQuery u' \<longrightarrow>
       uHost (poURL (proxy_Rewrite lib px r)) = uHost u \<and> uPath (poURL (proxy_Rewrite lib px r)) = uPath u \<and>
       uRawQuery (poURL (proxy_Rewrite lib px r)) = uRawQuery u)"
proof -
  let ?u = "u\<lparr>uScheme := orig_scheme c, uHost := ctHost c, uPath := cdnPathPrefix @ uHost u @ uPath u\<rparr>"
  have "hdr_Get (rewriteLocationHeader lib c target (pxCdn px) h) ''Location'' = wlString lib ?u"
    using assms by (simp add: rewriteLocationHeader_def Let_def hdr_Get_facts)
  moreover have "uHost (poURL (proxy_Rewrite lib px r)) = uHost u \<and> uPath (poURL (proxy_Rewrite lib px r)) = uPath u \<and>
      uRawQuery (poURL (proxy_Rewrite lib px r)) = uRawQuery u" if "wrPath r = uPath ?u" "wrRawQuery r = uRawQuery ?u" for r
    using route_prefixed [OF assms(6-9), of "\<lparr>uScheme = [], uHost = [], uPath = wrPath r, uRawQuery = wrRawQuery r, uOther = []\<rparr>"] that
    by (simp add: proxy_Rewrite_def Let_def setAcceptEncoding_def)
  ultimately show ?thesis by (intro exI [of _ ?u]) auto
qed

text \<open>
  Responses of the configured domains are rewritten as if they came from the configured site: the
  request that a response carries is the one that was sent, whose path has no prefix any more.
\<close>

theorem cdn_response_effective_host:
  assumes "routeCDN \<lparr>uScheme = [], uHost = [], uPath = wrPath r, uRawQuery = wrRawQuery r, uOther = []\<rparr> (pxCdn px) = Some t"
    and "\<not> HasPrefix (uPath t) cdnPathPrefix"
  shows "effective_host px (proxy_Rewrite lib px r) = uHost (pxURL px) \<and> uHost (poURL (proxy_Rewrite lib px r)) = uHost t"
  using assms by (simp add: effective_host_def cdnHostFromRequest_def proxy_Rewrite_def Let_def setAcceptEncoding_def)

section \<open>Bodies\<close>

text \<open>The text a client reads out of a response.\<close>

definition decoded :: "web_lib \<Rightarrow> proxied_response \<Rightarrow> string option" where
  "decoded lib resp =
     (let enc = hdr_Get (prHeader resp) ''Content-Encoding''
      in if enc = [] \<or> enc = ''identity'' then (if prBodyErr resp = None then Some (prBody resp) else None)
         else if enc = ''gzip'' then (case wlGunzip lib (prBody resp) of Inr (text, None) \<Rightarrow> Some text | _ \<Rightarrow> None)
         else None)"

text \<open>
  A rewritten page is what its headers say. For a response with HTML in an encoding the proxy knows, and
  a client that has named its host: the length is that of the body; a compressed body is sent only to a
  client that accepts one; and what the client reads is the rewritten text, if the upstream's body could
  be read to its end, and in any case a text.
\<close>

theorem proxied_body_consistent:
  assumes "ctHost c \<noteq> []" "isRewritableContentType (hdr_Get (prHeader resp) ''Content-Type'')"
    and "hdr_Get (prHeader resp) ''Content-Encoding'' \<in> {[], ''identity'', ''gzip''}"
    and "\<And>x z. wlGzip lib x = Inr z \<Longrightarrow> wlGunzip lib z = Inr (x, None)"
    and "rewriteResponseBody lib c target cdn resp = resp'"
  shows "hdr_Get (prHeader resp') ''Content-Length'' = nat_text (length (prBody resp')) \<and> prLength resp' = int (length (prBody resp')) \<and>
    (hdr_Get (prHeader resp') ''Content-Encoding'' = [] \<or>
     hdr_Get (prHeader resp') ''Content-Encoding'' = ''gzip'' \<and> clientAcceptsGzip lib (ctAcceptEncoding c)) \<and>
    decoded lib resp' \<noteq> None \<and> (\<forall>text. decoded lib resp = Some text \<longrightarrow> decoded lib resp' = Some (rewritten_text lib c target cdn text))"
proof -
  let ?enc = "\<lambda>r. hdr_Get (prHeader r) ''Content-Encoding''"
  let ?ok = "\<lambda>r. hdr_Get (prHeader r) ''Content-Length'' = nat_text (length (prBody r)) \<and> prLength r = int (length (prBody r)) \<and>
    (?enc r = [] \<or> ?enc r = ''gzip'' \<and> clientAcceptsGzip lib (ctAcceptEncoding c))"
  have failed: "?ok (restoreFailedBody b resp) \<and> decoded lib (restoreFailedBody b resp) \<noteq> None" for b
    by (simp add: restoreFailedBody_def with_body_def Let_def decoded_def hdr_Get_facts)
  have content: "?ok (rewriteBodyContent lib c target cdn b resp) \<and>
      decoded lib (rewriteBodyContent lib c target cdn b resp) = Some (rewritten_text lib c target cdn b)" for b
    using assms(1,4) by (auto simp: rewriteBodyContent_def with_body_def Let_def decoded_def hdr_Get_facts split: sum.splits)
  consider (plain) "?enc resp = [] \<or> ?enc resp = ''identity''" | (zipped) "?enc resp = ''gzip''" using assms(3) by auto
  then show ?thesis
  proof cases
    case plain
    then have d: "decoded lib resp = (if prBodyErr resp = None then Some (prBody resp) else None)" by (simp add: decoded_def Let_def)
    have "resp' = (case prBodyErr resp of Some _ \<Rightarrow> restoreFailedBody (prBody resp) resp | None \<Rightarrow> rewriteBodyContent lib c target cdn (prBody resp) resp)"
      using plain assms(2,5) by (auto simp: rewriteResponseBody_def Let_def)
    then show ?thesis using failed content d by (cases "prBodyErr resp") auto
  next
    case zipped
    then have d: "decoded lib resp = (case wlGunzip lib (prBody resp) of Inr (text, None) \<Rightarrow> Some text | _ \<Rightarrow> None)" by (simp add: decoded_def Let_def)
    have "resp' = (case wlGunzip lib (prBody resp) of Inl _ \<Rightarrow> restoreFailedBody [] resp
        | Inr (body, Some _) \<Rightarrow> restoreFailedBody body resp | Inr (body, None) \<Rightarrow> rewriteBodyContent lib c target cdn body resp)"
      using zipped assms(2,5) by (auto simp: rewriteResponseBody_def Let_def)
    then show ?thesis using failed content d by (auto split: sum.splits prod.splits option.splits)
  qed
qed

text \<open>
  The hypothesis that the client has named its host is needed: without it the body of a compressed page
  is sent uncompressed, still labelled as compressed and with the length of the compressed one.
\<close>

lemma nameless_client_mislabelled:
  assumes "ctHost c = []" "isRewritableContentType (hdr_Get (prHeader resp) ''Content-Type'')"
    and "hdr_Get (prHeader resp) ''Content-Encoding'' = ''gzip''" "wlGunzip lib (prBody resp) = Inr (text, None)"
  shows "prBody (rewriteResponseBody lib c target cdn resp) = text \<and> prHeader (rewriteResponseBody lib c target cdn resp) = prHeader resp"
  using assms by (simp add: rewriteResponseBody_def rewriteBodyContent_def Let_def)

section \<open>Examples\<close>

text \<open>A library that knows one location, and a compression that only adds a mark.\<close>

definition cdn_location :: url where
  "cdn_location = \<lparr>uScheme = ''https'', uHost = ''a.cdn.net'', uPath = ''/x.css'', uRawQuery = ''v=1'', uOther = []\<rparr>"

definition demo_web :: web_lib where
  "demo_web = \<lparr>wlParse = (\<lambda>s. if s = ''L'' then Some cdn_location else None), wlString = (\<lambda>u. uScheme u @ ''://'' @ uHost u @ uPath u),
     wlFloat = (\<lambda>_. None), wlReplace = (\<lambda>_ _ s. s), wlGunzip = (\<lambda>s. case s of [] \<Rightarrow> Inl io_EOF | _ # x \<Rightarrow> Inr (x, None)),
     wlGzip = (\<lambda>s. Inr (CHR ''Z'' # s))\<rparr>"

definition demo_px :: fallback_proxy where
  "demo_px = \<lparr>pxURL = \<lparr>uScheme = ''https'', uHost = ''site.org'', uPath = [], uRawQuery = [], uOther = []\<rparr>, pxPreserveHost = False, pxCdn = {''cdn.net''}\<rparr>"

definition demo_ctx :: proxy_ctx where
  "demo_ctx = \<lparr>ctHost = ''me.example'', ctScheme = ''https'', ctAcceptEncoding = ''gzip''\<rparr>"

abbreviation demo_get :: "string \<Rightarrow> web_request" where
  "demo_get path \<equiv> \<lparr>wrHost = ''me.example'', wrPath = path, wrRawQuery = [], wrTLS = True, wrHeader = [(''X-Es'', ''salt'')]\<rparr>"

theorem fallback_proxy_confined_witness:
  "\<exists>r2. fst (Serve demo_site demo_time (demo_get ''/__cdn__/evil.com/'') (demo_fallback\<lparr>fbProxy := Some demo_px\<rparr>) init_stats) = Serve_proxied r2 ''https'' \<and>
     \<not> under_domain (pxCdn demo_px) ''evil.com'' \<and> uHost (poURL (proxy_Rewrite demo_web demo_px r2)) = ''site.org''"
proof -
  let ?fb = "demo_fallback\<lparr>fbProxy := Some demo_px\<rparr>"
  obtain r2 fb' st' where s: "Serve demo_site demo_time (demo_get ''/__cdn__/evil.com/'') ?fb init_stats = (Serve_proxied r2 ''https'', fb', st')"
    by (simp add: Serve_def)
  have px: "fbProxy ?fb = Some demo_px" by simp
  have "\<not> cdnHostMatches ''evil.com'' {''cdn.net''}" by code_simp
  have r2: "r2 = demo_get ''/__cdn__/evil.com/''\<lparr>wrHeader := []\<rparr>" using s by (simp add: Serve_def hdr_Del_def)
  have e: "uHost (poURL (proxy_Rewrite demo_web demo_px (demo_get ''/__cdn__/evil.com/''\<lparr>wrHeader := []\<rparr>))) = ''site.org''" by code_simp
  have n: "\<not> under_domain (pxCdn demo_px) ''evil.com''"
  proof
    assume "under_domain (pxCdn demo_px) ''evil.com''"
    then have "ToLower ''evil.com'' = ''cdn.net'' \<or> (\<exists>p. ToLower ''evil.com'' = p @ ''.'' @ ''cdn.net'')" by (simp add: under_domain_def demo_px_def)
    moreover have "ToLower ''evil.com'' = ''evil.com''" by code_simp
    ultimately have "(\<exists>p. ''evil.com'' = p @ ''.cdn.net'')" by simp
    then have "last ''evil.com'' = last ''.cdn.net''" by (metis last_appendR list.distinct(1))
    then show False by simp
  qed
  show ?thesis using fallback_proxy_confined [OF px s, of demo_web] s r2 e n by auto
qed

theorem cdn_redirect_roundtrip_witness:
  "\<exists>u'. hdr_Get (rewriteLocationHeader demo_web demo_ctx ''site.org'' {''cdn.net''} [(''Location'', ''L'')]) ''Location'' = wlString demo_web u' \<and>
     uHost u' = ''me.example'' \<and> (\<forall>r. wrPath r = uPath u' \<and> wrRawQuery r = uRawQuery u' \<longrightarrow> uHost (poURL (proxy_Rewrite demo_web demo_px r)) = ''a.cdn.net'')"
proof -
  have l: "hdr_Get [(''Location'', ''L'')] ''Location'' = ''L''" "wlParse demo_web ''L'' = Some cdn_location" "ctHost demo_ctx \<noteq> []"
    by (simp_all add: hdr_Get_def demo_web_def demo_ctx_def)
  have u: "uHost cdn_location \<noteq> ''site.org''" "uHost cdn_location \<noteq> []" "CHR ''/'' \<notin> set (uHost cdn_location)"
    "uPath cdn_location = [] \<or> HasPrefix (uPath cdn_location) ''/''" by (simp_all add: cdn_location_def HasPrefix_def)
  have m: "cdnHostMatches (uHost cdn_location) (pxCdn demo_px)" by code_simp
  show ?thesis using cdn_redirect_roundtrip [OF l(1) _ l(2,3) u m] by (auto simp: demo_ctx_def demo_px_def cdn_location_def)
qed

theorem cdn_response_effective_host_witness:
  "effective_host demo_px (proxy_Rewrite demo_web demo_px (demo_get ''/__cdn__/a.cdn.net/x.css'')) = ''site.org''"
proof -
  have r: "routeCDN \<lparr>uScheme = [], uHost = [], uPath = wrPath (demo_get ''/__cdn__/a.cdn.net/x.css''), uRawQuery = wrRawQuery (demo_get ''/__cdn__/a.cdn.net/x.css''), uOther = []\<rparr> (pxCdn demo_px) =
      Some \<lparr>uScheme = ''https'', uHost = ''a.cdn.net'', uPath = ''/x.css'', uRawQuery = [], uOther = []\<rparr>" by code_simp
  have n: "\<not> HasPrefix (uPath \<lparr>uScheme = ''https'', uHost = ''a.cdn.net'', uPath = ''/x.css'', uRawQuery = [], uOther = []\<rparr>) cdnPathPrefix" by code_simp
  show ?thesis using cdn_response_effective_host [OF r n, of demo_web] by (simp add: demo_px_def)
qed

theorem proxied_body_consistent_witness:
  "hdr_Get (prHeader (rewriteResponseBody demo_web demo_ctx ''site.org'' {}
     \<lparr>prHeader = [(''Content-Type'', ''text/html''), (''Content-Encoding'', ''gzip'')], prBody = ''Zhttp://site.org/'', prBodyErr = None, prLength = 17\<rparr>)) ''Content-Encoding'' = ''gzip''"
proof -
  let ?r = "\<lparr>prHeader = [(''Content-Type'', ''text/html''), (''Content-Encoding'', ''gzip'')], prBody = ''Zhttp://site.org/'', prBodyErr = None, prLength = 17\<rparr>"
  have h: "ctHost demo_ctx \<noteq> []" by (simp add: demo_ctx_def)
  have t: "isRewritableContentType (hdr_Get (prHeader ?r) ''Content-Type'')" by code_simp
  have c: "hdr_Get (prHeader ?r) ''Content-Encoding'' \<in> {[], ''identity'', ''gzip''}" by (simp add: hdr_Get_def)
  have g: "wlGzip demo_web x = Inr z \<Longrightarrow> wlGunzip demo_web z = Inr (x, None)" for x z by (auto simp: demo_web_def)
  have e: "hdr_Get (prHeader (rewriteResponseBody demo_web demo_ctx ''site.org'' {} ?r)) ''Content-Encoding'' \<noteq> []" by code_simp
  show ?thesis using proxied_body_consistent [OF h t c g refl, of "''site.org''" "{}"] e by blast
qed

end
