(* ===== verification/Configs.thy ===== *)
theory Configs
  imports Config Outbound Protocol Stats
begin

text \<open>
  \<open>server/config/config.go\<close>, \<open>server/config/tls.go\<close>, \<open>client/config/config.go\<close>, \<open>client/config/build.go\<close> and \<open>client/config/tun_config.go\<close>: what
  becomes of a configuration between the file and the program. Decoding of JSON is the standard
  library's; it comes in as a function from the text to the plain structure, together with the values
  of the keys that older versions used.
\<close>

section \<open>Addresses and paths\<close>

text \<open>\<open>netip.ParseAddr\<close> with zones, which only IPv6 addresses have.\<close>

definition netip_ParseAddr :: "string \<Rightarrow> bytes option" where
  "netip_ParseAddr s =
     (case IndexByte s (CHR ''%'') of
        None \<Rightarrow> ParseAddr s
      | Some i \<Rightarrow>
          (if i + 1 = length s then None
           else case ParseAddr (take i s) of Some a \<Rightarrow> (if length a = 16 then Some a else None) | None \<Rightarrow> None))"

record file_system =
  fsIsAbs :: "string \<Rightarrow> bool"
  fsExists :: "string \<Rightarrow> bool"
  fsDir :: string
  fsJoin :: "string \<Rightarrow> string \<Rightarrow> string"

definition ResolvePath :: "file_system \<Rightarrow> string \<Rightarrow> string" where
  "ResolvePath fs p =
     (if p = [] \<or> fsIsAbs fs p then p else if fsExists fs p then p else if fsDir fs \<noteq> [] then fsJoin fs (fsDir fs) p else p)"

definition DefaultServerPort :: int where "DefaultServerPort = 443"
definition DefaultLogLevel :: string where "DefaultLogLevel = ''info''"

record log_conf =
  lcLevel :: string
  lcFilePath :: string

section \<open>The server's configuration\<close>

record h2_conf =
  hcMaxFrameSize :: int
  hcRecvBufConn :: int
  hcRecvBufStream :: int

record ServerConfig =
  svHost :: string
  svPort :: int
  svBind :: string
  svPassword :: string
  svAllowedMethods :: "string list"
  svCertPath :: string
  svKeyPath :: string
  svEmail :: string

record FallbackConfig =
  fkTarget :: string
  fkPreserveHost :: bool
  fkCDNDomains :: "string list"

record NextProxyConfig =
  nxURL :: string
  nxNextProxyFile :: string
  nxEnableUDP :: bool
  nxAllHost :: bool

record 'sh FileConfig =
  fcConfigVersion :: int
  fcServer :: ServerConfig
  fcFallback :: FallbackConfig
  fcShaper :: 'sh
  fcTransport :: h2_conf
  fcNextProxy :: NextProxyConfig
  fcLog :: log_conf
  fcPprofEnabled :: bool
  fcTimeout :: int

text \<open>\<open>ServerConfig.UnmarshalJSON\<close>: the plain structure and the older keys.\<close>

definition unmarshal_server :: "(string \<Rightarrow> int option) \<Rightarrow> ServerConfig \<Rightarrow> string \<Rightarrow> string \<Rightarrow> ServerConfig result" where
  "unmarshal_server lookupPort pc domain listen =
     (let legacyUsed = (domain \<noteq> [] \<or> listen \<noteq> []); newUsed = (svHost pc \<noteq> [] \<or> svPort pc \<noteq> 0 \<or> svBind pc \<noteq> [])
      in if legacyUsed \<and> newUsed then Inl (Msg ''server: do not mix deprecated keys'')
         else let pc = (if domain \<noteq> [] then pc\<lparr>svHost := domain\<rparr> else pc)
              in if listen = [] then Inr pc
                 else case SplitHostPort listen of
                        None \<Rightarrow> Inl (Msg ''server.listen'')
                      | Some (host, portStr) \<Rightarrow>
                          (case lookupPort portStr of
                             None \<Rightarrow> Inl (Msg ''server.listen'')
                           | Some port \<Rightarrow> Inr (pc\<lparr>svBind := host, svPort := port\<rparr>)))"

definition int_text :: "int \<Rightarrow> string" where
  "int_text i = (if i < 0 then ''-'' @ nat_text (nat (- i)) else nat_text (nat i))"

definition ListenAddr :: "ServerConfig \<Rightarrow> string" where
  "ListenAddr c = JoinHostPort (svBind c) (int_text (if svPort c = 0 then DefaultServerPort else svPort c))"

definition h2MinMaxFrameSize :: int where "h2MinMaxFrameSize = 2 ^ 14"
definition h2MaxMaxFrameSize :: int where "h2MaxMaxFrameSize = 2 ^ 24 - 1"
definition h2MinRecvBufConn :: int where "h2MinRecvBufConn = 2 ^ 16 - 1"
definition h2MinRecvBufStream :: int where "h2MinRecvBufStream = 1"

lemmas h2_bounds = h2MinMaxFrameSize_def h2MaxMaxFrameSize_def h2MinRecvBufConn_def h2MinRecvBufStream_def MaxInt32_def

definition HTTP2ServerMaxReadFrameSize :: int where "HTTP2ServerMaxReadFrameSize = 2 ^ 24 - 1"
definition HTTP2ServerReceiveBufferPerConnection :: int where "HTTP2ServerReceiveBufferPerConnection = 4 * 2 ^ 20 - 1"
definition HTTP2ServerReceiveBufferPerStream :: int where "HTTP2ServerReceiveBufferPerStream = 4 * 2 ^ 20 - 1"

lemmas h2_defaults = HTTP2ServerMaxReadFrameSize_def HTTP2ServerReceiveBufferPerConnection_def HTTP2ServerReceiveBufferPerStream_def

definition server_applyDefaults :: "'sh FileConfig \<Rightarrow> 'sh FileConfig" where
  "server_applyDefaults fc =
     fc\<lparr>fcTimeout := NormalizeTimeout (fcTimeout fc),
        fcLog := (if lcLevel (fcLog fc) = [] then (fcLog fc)\<lparr>lcLevel := DefaultLogLevel\<rparr> else fcLog fc),
        fcServer := (if svPort (fcServer fc) = 0 then (fcServer fc)\<lparr>svPort := DefaultServerPort\<rparr> else fcServer fc),
        fcTransport := (let t = fcTransport fc
          in \<lparr>hcMaxFrameSize = (if hcMaxFrameSize t = 0 then HTTP2ServerMaxReadFrameSize else hcMaxFrameSize t),
              hcRecvBufConn = (if hcRecvBufConn t = 0 then HTTP2ServerReceiveBufferPerConnection else hcRecvBufConn t),
              hcRecvBufStream = (if hcRecvBufStream t = 0 then HTTP2ServerReceiveBufferPerStream else hcRecvBufStream t)\<rparr>)\<rparr>"

definition validateAllowedMethods :: "'sh FileConfig \<Rightarrow> unit result" where
  "validateAllowedMethods fc =
     (if \<exists>name \<in> set (svAllowedMethods (fcServer fc)). MethodFromString name = 0
      then Inl (Msg ''server.allowed_methods: not a supported method'') else Inr ())"

definition validateTransport :: "'sh FileConfig \<Rightarrow> unit result" where
  "validateTransport fc =
     (let tr = fcTransport fc; v1 = hcMaxFrameSize tr; v2 = hcRecvBufConn tr; v3 = hcRecvBufStream tr
      in if v1 \<noteq> 0 \<and> (v1 < h2MinMaxFrameSize \<or> v1 > h2MaxMaxFrameSize) then Inl (Msg ''transport.h2_max_frame_size'')
         else if v2 \<noteq> 0 \<and> (v2 < h2MinRecvBufConn \<or> v2 > MaxInt32) then Inl (Msg ''transport.h2_recv_buf_conn'')
         else if v3 \<noteq> 0 \<and> (v3 < h2MinRecvBufStream \<or> v3 > MaxInt32) then Inl (Msg ''transport.h2_recv_buf_stream'')
         else Inr ())"

definition UsesManualCertificate :: "'sh FileConfig \<Rightarrow> bool" where
  "UsesManualCertificate fc \<longleftrightarrow> svCertPath (fcServer fc) \<noteq> [] \<and> svKeyPath (fcServer fc) \<noteq> []"

definition ACMESubjectIsIP :: "'sh FileConfig \<Rightarrow> bool" where
  "ACMESubjectIsIP fc \<longleftrightarrow> \<not> UsesManualCertificate fc \<and>
     (case netip_ParseAddr (svHost (fcServer fc)) of Some a \<Rightarrow> length a = 4 | None \<Rightarrow> False)"

definition isBracketedIPLiteral :: "string \<Rightarrow> bool" where
  "isBracketedIPLiteral s \<longleftrightarrow> length s \<ge> 2 \<and> hd s = CHR ''['' \<and> last s = CHR '']'' \<and> netip_ParseAddr (butlast (tl s)) \<noteq> None"

definition validateTLS :: "'sh FileConfig \<Rightarrow> unit result" where
  "validateTLS fc =
     (let s = fcServer fc; host = svHost s; addr = netip_ParseAddr host;
          certSet = (svCertPath s \<noteq> []); keySet = (svKeyPath s \<noteq> [])
      in if host \<noteq> [] \<and> addr = None \<and> isBracketedIPLiteral host then Inl (Msg ''server.host: only a plain IPv4 literal is supported'')
         else if host \<noteq> [] \<and> addr = None \<and> CHR '':'' \<in> set host then Inl (Msg ''server.host must not include a port'')
         else if certSet \<noteq> keySet then Inl (Msg ''server.cert_path and server.key_path must be set together'')
         else if certSet then Inr ()
         else if host = [] then Inl (Msg ''server.host is required'')
         else case addr of
                None \<Rightarrow> Inr ()
              | Some a \<Rightarrow>
                  (if length a \<noteq> 4 then Inl (Msg ''server.host: only a plain IPv4 literal is supported'')
                   else if IsLANIP host then Inl (Msg ''server.host is a private or reserved address'')
                   else Inr ()))"

definition validateListenEndpoint :: "int \<Rightarrow> string \<Rightarrow> unit result" where
  "validateListenEndpoint port bind =
     (if port < 1 \<or> port > 65535 then Inl (Msg ''server.port is out of range'')
      else if bind = [] then Inr ()
      else if CHR ''['' \<in> set bind \<or> CHR '']'' \<in> set bind then Inl (Msg ''server.bind must not contain brackets'')
      else if CHR '':'' \<in> set bind \<and> netip_ParseAddr bind = None then Inl (Msg ''server.bind must be a host name or IP literal'')
      else Inr ())"

definition validateListenOrDefault :: "'sh FileConfig \<Rightarrow> unit result" where
  "validateListenOrDefault fc =
     validateListenEndpoint (if svPort (fcServer fc) \<noteq> 0 then svPort (fcServer fc) else DefaultServerPort) (svBind (fcServer fc))"

definition FileConfig_Validate :: "'sh FileConfig \<Rightarrow> unit result" where
  "FileConfig_Validate fc =
     (case validateAllowedMethods fc of Inl e \<Rightarrow> Inl e | Inr _ \<Rightarrow>
       (case validateTransport fc of Inl e \<Rightarrow> Inl e | Inr _ \<Rightarrow>
         (case validateTLS fc of Inl e \<Rightarrow> Inl e | Inr _ \<Rightarrow> validateListenOrDefault fc)))"

definition server_ResolveFilePaths :: "file_system \<Rightarrow> 'sh FileConfig \<Rightarrow> 'sh FileConfig" where
  "server_ResolveFilePaths fs fc =
     fc\<lparr>fcServer := (fcServer fc)\<lparr>svCertPath := ResolvePath fs (svCertPath (fcServer fc)), svKeyPath := ResolvePath fs (svKeyPath (fcServer fc))\<rparr>,
        fcNextProxy := (fcNextProxy fc)\<lparr>nxNextProxyFile := ResolvePath fs (nxNextProxyFile (fcNextProxy fc))\<rparr>,
        fcLog := (let f = lcFilePath (fcLog fc)
          in if f \<noteq> [] \<and> \<not> fsIsAbs fs f \<and> fsDir fs \<noteq> [] then (fcLog fc)\<lparr>lcFilePath := fsJoin fs (fsDir fs) f\<rparr> else fcLog fc)\<rparr>"

definition SupportedConfigVersion :: int where "SupportedConfigVersion = 3"

definition server_LoadConfig ::
  "file_system \<Rightarrow> (string \<Rightarrow> int option) \<Rightarrow> ('sh FileConfig \<times> string \<times> string) result \<Rightarrow> 'sh FileConfig result" where
  "server_LoadConfig fs lookupPort json =
     (case json of
        Inl err \<Rightarrow> Inl err
      | Inr (fc, domain, listen) \<Rightarrow>
          (case unmarshal_server lookupPort (fcServer fc) domain listen of
             Inl err \<Rightarrow> Inl err
           | Inr s \<Rightarrow>
               (let fc = fc\<lparr>fcServer := s\<rparr>
                in if fcConfigVersion fc \<noteq> 0 \<and> fcConfigVersion fc \<noteq> SupportedConfigVersion then Inl (Msg ''unsupported config version'')
                   else let fc = server_applyDefaults fc
                        in case FileConfig_Validate fc of Inl err \<Rightarrow> Inl err | Inr _ \<Rightarrow> Inr (server_ResolveFilePaths fs fc))))"

definition DefaultAllowedMethods :: "string list" where
  "DefaultAllowedMethods = [Method_String MethodAES256GCM, Method_String MethodChaCha20Poly1305]"

definition GetAllowedMethods :: "ServerConfig \<Rightarrow> string list" where
  "GetAllowedMethods c = (if svAllowedMethods c = [] then DefaultAllowedMethods else svAllowedMethods c)"

section \<open>The client's configuration\<close>

record ServerProfile =
  spHost :: string
  spPort :: int
  spPassword :: string
  spMethod :: string
  spSNI :: string
  spCAPath :: string
  spDefault :: bool
  spName :: string

text \<open>\<open>ServerProfile.UnmarshalJSON\<close>: the plain structure and the older key.\<close>

definition unmarshal_profile :: "ServerProfile \<Rightarrow> string \<Rightarrow> ServerProfile result" where
  "unmarshal_profile p address =
     (if address = [] then Inr p
      else if spHost p \<noteq> [] then Inl (Msg ''servers[]: both host and deprecated address are set'')
      else Inr (p\<lparr>spHost := address\<rparr>))"

record LocalConfig =
  loSocksPort :: int
  loHTTPPort :: int
  loBindAll :: bool
  loDisableSysProxy :: bool
  loEnableForwardDNS :: bool
  loEnableTun2socks :: bool
  loEnableQUIC :: bool
  loTunMTU :: int
  loTunConfig :: string

record RoutingConfig =
  rcProxyRule :: string
  rcIPV6Rule :: string
  rcDirectFile :: string
  rcProxyFile :: string

record TransportConfig =
  tcProtocol :: string
  tcConnCountMax :: int
  tcStreamThreshold :: int
  tcConnMaxBytes :: int

text \<open>A server entry may be null.\<close>

record 'sh ClientConfig =
  ccConfigVersion :: int
  ccServers :: "ServerProfile option list"
  ccLocal :: LocalConfig
  ccRouting :: RoutingConfig
  ccTransport :: TransportConfig
  ccShaper :: 'sh
  ccLog :: log_conf
  ccTimeout :: int
  ccAuthUsername :: string
  ccAuthPassword :: string
  ccPprofEnabled :: bool

definition DefaultHTTPPortOffset :: int where "DefaultHTTPPortOffset = 1000"
definition DefaultProtocol :: string where "DefaultProtocol = ''h2''"
definition DefaultMethod :: string where "DefaultMethod = ''aes-256-gcm''"
definition DefaultProxyRule :: string where "DefaultProxyRule = ''auto''"
definition DefaultIPV6Rule :: string where "DefaultIPV6Rule = ''auto''"
definition DefaultConnCountMax :: int where "DefaultConnCountMax = 15"
definition MinConnCountMax :: int where "MinConnCountMax = 2"
definition DefaultStreamThreshold :: int where "DefaultStreamThreshold = 4"

lemmas client_defaults = DefaultHTTPPortOffset_def DefaultProtocol_def DefaultMethod_def DefaultProxyRule_def DefaultIPV6Rule_def
  DefaultConnCountMax_def MinConnCountMax_def DefaultStreamThreshold_def DefaultServerPort_def DefaultLogLevel_def

definition normalizeHTTPPort :: "LocalConfig \<Rightarrow> LocalConfig" where
  "normalizeHTTPPort l = (if loHTTPPort l = 0 \<and> loSocksPort l > 0 then l\<lparr>loHTTPPort := loSocksPort l + DefaultHTTPPortOffset\<rparr> else l)"

definition normalize_transport :: "TransportConfig \<Rightarrow> TransportConfig" where
  "normalize_transport t =
     (let n = (if tcConnCountMax t \<le> 0 then DefaultConnCountMax else tcConnCountMax t);
          n = (if n < MinConnCountMax then MinConnCountMax else n);
          n = (if n > MaxConnCountMax then MaxConnCountMax else n);
          s = (if tcStreamThreshold t \<le> 0 then DefaultStreamThreshold else tcStreamThreshold t);
          s = (if s > MaxStreamThreshold then MaxStreamThreshold else s)
      in \<lparr>tcProtocol = (if tcProtocol t = [] then DefaultProtocol else tcProtocol t), tcConnCountMax = n, tcStreamThreshold = s,
          tcConnMaxBytes = (if tcConnMaxBytes t \<le> 0 then DefaultConnMaxBytes else tcConnMaxBytes t)\<rparr>)"

definition normalize_profile :: "ServerProfile \<Rightarrow> ServerProfile" where
  "normalize_profile s =
     s\<lparr>spPort := (if spPort s = 0 then DefaultServerPort else spPort s), spMethod := (if spMethod s = [] then DefaultMethod else spMethod s)\<rparr>"

text \<open>\<open>applyDefaults\<close>. The loop over the servers reads every entry, so a null one is a panic.\<close>

definition client_applyDefaults :: "'sh ClientConfig \<Rightarrow> 'sh ClientConfig result" where
  "client_applyDefaults c =
     (if None \<in> set (ccServers c) then Inl (Panic ''nil pointer dereference'')
      else Inr (c\<lparr>ccTimeout := NormalizeTimeout (ccTimeout c),
        ccLocal := normalizeHTTPPort ((ccLocal c)\<lparr>loTunMTU := NormalizeTunMTU (loTunMTU (ccLocal c))\<rparr>),
        ccTransport := normalize_transport (ccTransport c),
        ccRouting := (ccRouting c)\<lparr>rcProxyRule := (if rcProxyRule (ccRouting c) = [] then DefaultProxyRule else rcProxyRule (ccRouting c)),
          rcIPV6Rule := (if rcIPV6Rule (ccRouting c) = [] then DefaultIPV6Rule else rcIPV6Rule (ccRouting c))\<rparr>,
        ccLog := (if lcLevel (ccLog c) = [] then (ccLog c)\<lparr>lcLevel := DefaultLogLevel\<rparr> else ccLog c),
        ccServers := map (map_option normalize_profile) (ccServers c)\<rparr>))"

definition valid_server :: "ServerProfile option \<Rightarrow> bool" where
  "valid_server s = (case s of None \<Rightarrow> False | Some p \<Rightarrow> spHost p \<noteq> [] \<and> \<not> (netip_ParseAddr (spHost p) = None \<and> CHR '':'' \<in> set (spHost p)))"

definition validateServers :: "'sh ClientConfig \<Rightarrow> unit result" where
  "validateServers c = (if list_all valid_server (ccServers c) then Inr () else Inl (Msg ''servers[]''))"

definition serverAddr :: "ServerProfile \<Rightarrow> string" where
  "serverAddr s = JoinHostPort (spHost s) (int_text (spPort s))"

definition is_default :: "ServerProfile option \<Rightarrow> bool" where
  "is_default s = (case s of None \<Rightarrow> False | Some p \<Rightarrow> spDefault p)"

definition DefaultServer :: "'sh ClientConfig \<Rightarrow> ServerProfile option" where
  "DefaultServer c =
     (case find is_default (ccServers c) of
        Some s \<Rightarrow> s
      | None \<Rightarrow> (case ccServers c of [] \<Rightarrow> None | s # _ \<Rightarrow> s))"

definition ServerURL :: "'sh ClientConfig \<Rightarrow> string" where
  "ServerURL c = (case DefaultServer c of None \<Rightarrow> [] | Some s \<Rightarrow> ''https://'' @ serverAddr s)"

definition DefaultServerAddr :: "'sh ClientConfig \<Rightarrow> string" where
  "DefaultServerAddr c = (case DefaultServer c of None \<Rightarrow> [] | Some s \<Rightarrow> serverAddr s)"

fun first_index :: "('a \<Rightarrow> bool) \<Rightarrow> 'a list \<Rightarrow> nat option" where
  "first_index P [] = None"
| "first_index P (x # xs) = (if P x then Some 0 else map_option Suc (first_index P xs))"

definition DefaultServerIndex :: "'sh ClientConfig \<Rightarrow> nat" where
  "DefaultServerIndex c = (case first_index is_default (ccServers c) of Some i \<Rightarrow> i | None \<Rightarrow> 0)"

definition SetDefaultServerIndex :: "nat \<Rightarrow> 'sh ClientConfig \<Rightarrow> 'sh ClientConfig" where
  "SetDefaultServerIndex i c =
     c\<lparr>ccServers := map (\<lambda>(j, s). map_option (\<lambda>p. p\<lparr>spDefault := (j = i)\<rparr>) s) (zip [0..<length (ccServers c)] (ccServers c))\<rparr>"

definition ServerListAddrs :: "'sh ClientConfig \<Rightarrow> string list" where
  "ServerListAddrs c = map (\<lambda>s. serverAddr (the s)) (ccServers c)"

definition ServerListNames :: "'sh ClientConfig \<Rightarrow> string list" where
  "ServerListNames c = map (\<lambda>s. let name = TrimSpace (spName (the s)) in if name \<noteq> [] then name else serverAddr (the s)) (ccServers c)"

text \<open>\<open>ParseTunConfig\<close>: the decoder gives the device and whether anything follows the object.\<close>

definition ParseTunConfig :: "(string \<Rightarrow> (string \<times> bool) result) \<Rightarrow> string \<Rightarrow> string result" where
  "ParseTunConfig dec raw =
     (if raw = [] then Inr []
      else case dec raw of
             Inl err \<Rightarrow> Inl (Wrap ''tun_config'' [err])
           | Inr (device, trailing) \<Rightarrow> if trailing then Inl (Msg ''tun_config: trailing data after the object'') else Inr device)"

record 'sh json_lib =
  jsClient :: "string \<Rightarrow> ('sh ClientConfig \<times> (ServerProfile \<times> string) option list) result"
  jsTun :: "string \<Rightarrow> (string \<times> bool) result"

fun unmarshal_all :: "(ServerProfile \<times> string) option list \<Rightarrow> ServerProfile option list result" where
  "unmarshal_all [] = Inr []"
| "unmarshal_all (None # xs) = (case unmarshal_all xs of Inl e \<Rightarrow> Inl e | Inr ys \<Rightarrow> Inr (None # ys))"
| "unmarshal_all (Some (p, a) # xs) =
     (case unmarshal_profile p a of
        Inl e \<Rightarrow> Inl e
      | Inr q \<Rightarrow> (case unmarshal_all xs of Inl e \<Rightarrow> Inl e | Inr ys \<Rightarrow> Inr (Some q # ys)))"

definition json_client :: "'sh json_lib \<Rightarrow> string \<Rightarrow> 'sh ClientConfig result" where
  "json_client js s =
     (case jsClient js s of
        Inl err \<Rightarrow> Inl err
      | Inr (c, raws) \<Rightarrow> (case unmarshal_all raws of Inl e \<Rightarrow> Inl e | Inr ss \<Rightarrow> Inr (c\<lparr>ccServers := ss\<rparr>)))"

definition ParseConfigJSON :: "'sh json_lib \<Rightarrow> string \<Rightarrow> 'sh ClientConfig result" where
  "ParseConfigJSON js s =
     (case json_client js s of
        Inl err \<Rightarrow> Inl err
      | Inr c \<Rightarrow>
          (case client_applyDefaults c of
             Inl err \<Rightarrow> Inl err
           | Inr c \<Rightarrow>
               (case validateServers c of
                  Inl err \<Rightarrow> Inl err
                | Inr _ \<Rightarrow> (case ParseTunConfig (jsTun js) (loTunConfig (ccLocal c)) of Inl err \<Rightarrow> Inl err | Inr _ \<Rightarrow> Inr c))))"

section \<open>The simple form\<close>

record SimpleConfig =
  scServer :: string
  scServerPort :: int
  scSPassword :: string
  scMethod :: string
  scSN :: string
  scCAPath :: string
  scLocalPort :: int
  scHTTPPort :: int
  scBindAll :: bool
  scDisableSysProxy :: bool
  scEnableForwardDNS :: bool
  scEnableTun2socks :: bool
  scEnableQUIC :: bool
  scTunMTU :: int
  scProxyRule :: string
  scIPV6Rule :: string
  scDirectFile :: string
  scProxyFile :: string
  scTimeout :: int
  scLogLevel :: string
  scLogFilePath :: string
  scTunConfig :: string
  scOutboundProto :: string

definition OutboundProtoToProtocol :: "string \<Rightarrow> string result" where
  "OutboundProtoToProtocol proto =
     (if proto = [] \<or> proto = ''native'' then Inr DefaultProtocol
      else if proto = DefaultProtocol then Inr DefaultProtocol
      else Inl (Msg ''invalid outbound_proto''))"

definition jsonTunConfig :: "'sh json_lib \<Rightarrow> string \<Rightarrow> string result" where
  "jsonTunConfig js s = (if s = [] then Inr [] else case ParseTunConfig (jsTun js) s of Inl err \<Rightarrow> Inl err | Inr _ \<Rightarrow> Inr s)"

text \<open>\<open>BuildSimpleConfig\<close>; \<open>shaping\<close> is the shaper's configuration with the default batch window.\<close>

definition BuildSimpleConfig :: "'sh json_lib \<Rightarrow> 'sh \<Rightarrow> SimpleConfig \<Rightarrow> 'sh ClientConfig result" where
  "BuildSimpleConfig js shaping s =
     (if scServer s = [] then Inl (Msg ''server is required'')
      else if scSPassword s = [] then Inl (Msg ''password is required'')
      else case OutboundProtoToProtocol (scOutboundProto s) of
             Inl err \<Rightarrow> Inl err
           | Inr proto \<Rightarrow>
               (case jsonTunConfig js (scTunConfig s) of
                  Inl err \<Rightarrow> Inl err
                | Inr tunConfig \<Rightarrow>
                    (let srv = \<lparr>spHost = scServer s, spPort = (if scServerPort s = 0 then DefaultServerPort else scServerPort s),
                           spPassword = scSPassword s, spMethod = (if scMethod s = [] then DefaultMethod else scMethod s), spSNI = scSN s,
                           spCAPath = scCAPath s, spDefault = True, spName = []\<rparr>;
                         loc = \<lparr>loSocksPort = scLocalPort s, loHTTPPort = scHTTPPort s, loBindAll = scBindAll s,
                           loDisableSysProxy = scDisableSysProxy s, loEnableForwardDNS = scEnableForwardDNS s,
                           loEnableTun2socks = scEnableTun2socks s, loEnableQUIC = scEnableQUIC s, loTunMTU = scTunMTU s, loTunConfig = tunConfig\<rparr>;
                         rou = \<lparr>rcProxyRule = (if scProxyRule s = [] then DefaultProxyRule else scProxyRule s),
                           rcIPV6Rule = (if scIPV6Rule s = [] then DefaultIPV6Rule else scIPV6Rule s),
                           rcDirectFile = scDirectFile s, rcProxyFile = scProxyFile s\<rparr>;
                         c = \<lparr>ccConfigVersion = 3, ccServers = [Some srv], ccLocal = loc, ccRouting = rou,
                           ccTransport = \<lparr>tcProtocol = proto, tcConnCountMax = DefaultConnCountMax, tcStreamThreshold = 0, tcConnMaxBytes = 0\<rparr>,
                           ccShaper = shaping,
                           ccLog = \<lparr>lcLevel = (if scLogLevel s = [] then DefaultLogLevel else scLogLevel s), lcFilePath = scLogFilePath s\<rparr>,
                           ccTimeout = scTimeout s, ccAuthUsername = [], ccAuthPassword = [], ccPprofEnabled = False\<rparr>
                     in case client_applyDefaults c of
                          Inl err \<Rightarrow> Inl err
                        | Inr c \<Rightarrow> (case validateServers c of Inl err \<Rightarrow> Inl err | Inr _ \<Rightarrow> Inr c))))"

definition keep_str :: "string \<Rightarrow> string \<Rightarrow> string" where "keep_str new old = (if new \<noteq> [] then new else old)"
definition keep_pos :: "int \<Rightarrow> int \<Rightarrow> int" where "keep_pos new old = (if new > 0 then new else old)"

definition override_profile :: "SimpleConfig \<Rightarrow> ServerProfile \<Rightarrow> ServerProfile" where
  "override_profile s p =
     p\<lparr>spHost := keep_str (scServer s) (spHost p), spPort := keep_pos (scServerPort s) (spPort p),
       spPassword := keep_str (scSPassword s) (spPassword p), spMethod := keep_str (scMethod s) (spMethod p),
       spSNI := keep_str (scSN s) (spSNI p), spCAPath := keep_str (scCAPath s) (spCAPath p)\<rparr>"

text \<open>The default server is overridden in place: the first that is marked, or the first of all.\<close>

definition override_servers :: "SimpleConfig \<Rightarrow> 'sh ClientConfig \<Rightarrow> ServerProfile option list" where
  "override_servers s c =
     (let i = DefaultServerIndex c
      in if i < length (ccServers c) then (ccServers c)[i := map_option (override_profile s) (ccServers c ! i)] else ccServers c)"

text \<open>The configuration after \<open>ApplySimpleOverrides\<close>, and its error; what was overridden before an error stays so.\<close>

definition ApplySimpleOverrides :: "'sh json_lib \<Rightarrow> SimpleConfig \<Rightarrow> 'sh ClientConfig \<Rightarrow> go_error option \<times> 'sh ClientConfig" where
  "ApplySimpleOverrides js s c0 =
     (let l = ccLocal c0; r = ccRouting c0;
          c = c0\<lparr>ccServers := override_servers s c0,
            ccLocal := l\<lparr>loSocksPort := keep_pos (scLocalPort s) (loSocksPort l), loHTTPPort := keep_pos (scHTTPPort s) (loHTTPPort l),
              loDisableSysProxy := loDisableSysProxy l \<or> scDisableSysProxy s, loEnableForwardDNS := loEnableForwardDNS l \<or> scEnableForwardDNS s,
              loEnableTun2socks := loEnableTun2socks l \<or> scEnableTun2socks s, loEnableQUIC := loEnableQUIC l \<or> scEnableQUIC s,
              loTunMTU := (if scTunMTU s > 0 then NormalizeTunMTU (scTunMTU s) else loTunMTU l), loBindAll := loBindAll l \<or> scBindAll s\<rparr>,
            ccRouting := r\<lparr>rcProxyRule := keep_str (scProxyRule s) (rcProxyRule r), rcIPV6Rule := keep_str (scIPV6Rule s) (rcIPV6Rule r),
              rcDirectFile := keep_str (scDirectFile s) (rcDirectFile r), rcProxyFile := keep_str (scProxyFile s) (rcProxyFile r)\<rparr>,
            ccTimeout := (if scTimeout s > 0 then NormalizeTimeout (scTimeout s) else ccTimeout c0),
            ccLog := \<lparr>lcLevel = keep_str (scLogLevel s) (lcLevel (ccLog c0)), lcFilePath = keep_str (scLogFilePath s) (lcFilePath (ccLog c0))\<rparr>\<rparr>
      in case (if scTunConfig s = [] then Inr (loTunConfig l) else jsonTunConfig js (scTunConfig s)) of
           Inl err \<Rightarrow> (Some err, c)
         | Inr tun \<Rightarrow>
             (let c = c\<lparr>ccLocal := normalizeHTTPPort ((ccLocal c)\<lparr>loTunConfig := tun\<rparr>)\<rparr>
              in (case validateServers c of Inl err \<Rightarrow> Some err | Inr _ \<Rightarrow> None, c)))"

text \<open>\<open>LoadConfig\<close>: \<open>probe\<close> is the version and the number of servers, \<open>simple\<close> the file in the simple form.\<close>

definition client_LoadConfig ::
  "'sh json_lib \<Rightarrow> 'sh \<Rightarrow> (string \<Rightarrow> (int \<times> nat) result) \<Rightarrow> (string \<Rightarrow> SimpleConfig result) \<Rightarrow> string result \<Rightarrow> 'sh ClientConfig result" where
  "client_LoadConfig js shaping probe simple text =
     (case text of
        Inl err \<Rightarrow> Inl err
      | Inr data \<Rightarrow>
          (case probe data of
             Inl err \<Rightarrow> Inl err
           | Inr (version, servers) \<Rightarrow>
               (if version \<noteq> 3 \<or> servers = 0
                then (case simple data of Inl err \<Rightarrow> Inl err | Inr s \<Rightarrow> BuildSimpleConfig js shaping s)
                else ParseConfigJSON js data)))"

text \<open>
  What \<open>main\<close> in \<open>cmd/easyss/main.go\<close> makes of the file and of the arguments \<open>sc\<close>: a file that was read is
  overridden by the arguments, and without one the arguments have to name a server and its password.
\<close>

definition main_config ::
  "'sh json_lib \<Rightarrow> 'sh \<Rightarrow> (string \<Rightarrow> (int \<times> nat) result) \<Rightarrow> (string \<Rightarrow> SimpleConfig result) \<Rightarrow> SimpleConfig \<Rightarrow> string result \<Rightarrow>
     'sh ClientConfig result" where
  "main_config js shaping probe simple sc text =
     (case client_LoadConfig js shaping probe simple text of
        Inl err \<Rightarrow> (if scServer sc \<noteq> [] \<and> scSPassword sc \<noteq> [] then BuildSimpleConfig js shaping sc else Inl err)
      | Inr cfg \<Rightarrow> (case ApplySimpleOverrides js sc cfg of (Some err, _) \<Rightarrow> Inl err | (None, cfg) \<Rightarrow> Inr cfg))"

definition client_ResolveFilePaths :: "file_system \<Rightarrow> 'sh ClientConfig \<Rightarrow> 'sh ClientConfig" where
  "client_ResolveFilePaths fs c =
     c\<lparr>ccRouting := (ccRouting c)\<lparr>rcDirectFile := ResolvePath fs (rcDirectFile (ccRouting c)), rcProxyFile := ResolvePath fs (rcProxyFile (ccRouting c))\<rparr>,
       ccServers := map (map_option (\<lambda>p. p\<lparr>spCAPath := ResolvePath fs (spCAPath p)\<rparr>)) (ccServers c)\<rparr>"

section \<open>Splitting what was joined\<close>

lemma split_join:
  assumes "CHR ''['' \<notin> set host" "CHR '']'' \<notin> set host" "set port \<inter> {CHR '':'', CHR ''['', CHR '']''} = {}"
  shows "SplitHostPort (JoinHostPort host port) = Some (host, port)"
  using SplitHostPort_plain [of host port] SplitHostPort_bracketed [of host port] assms
  by (auto simp: JoinHostPort_def bare_def)

lemma nat_text_digits: "c \<in> set (nat_text n) \<Longrightarrow> \<exists>k < 10. c = char_of (48 + k :: nat)"
proof (induction n rule: nat_text.induct)
  case (1 n)
  show ?case
  proof (cases "n < 10")
    case True
    then show ?thesis using 1(2) by (auto simp: nat_text.simps [of n])
  next
    case False
    then have "c \<in> set (nat_text (n div 10)) \<or> c = char_of (48 + n mod 10)" using 1(2) by (auto simp: nat_text.simps [of n])
    moreover have "n mod 10 < 10" by simp
    ultimately show ?thesis using 1(1) [OF False] by blast
  qed
qed

lemma int_text_plain: "set (int_text i) \<inter> {CHR '':'', CHR ''['', CHR '']''} = {}"
proof -
  have "\<forall>k \<in> set [0..<10]. char_of (48 + k :: nat) \<notin> {CHR '':'', CHR ''['', CHR '']''}" by code_simp
  then have "c \<notin> {CHR '':'', CHR ''['', CHR '']''}" if "c \<in> set (nat_text n)" for c n using nat_text_digits [OF that] by auto
  then show ?thesis by (auto simp: int_text_def)
qed

section \<open>What a loaded configuration is\<close>

definition server_good :: "'sh FileConfig \<Rightarrow> bool" where
  "server_good fc \<longleftrightarrow> 15 \<le> fcTimeout fc \<and> fcTimeout fc \<le> 60 \<and> lcLevel (fcLog fc) \<noteq> [] \<and> svPort (fcServer fc) \<noteq> 0 \<and>
     hcMaxFrameSize (fcTransport fc) \<noteq> 0 \<and> hcRecvBufConn (fcTransport fc) \<noteq> 0 \<and> hcRecvBufStream (fcTransport fc) \<noteq> 0"

interpretation server_defaults: normaliser server_applyDefaults server_good
proof unfold_locales
  show "server_good (server_applyDefaults fc)" for fc :: "'a FileConfig"
    using base_timeout.good_norm [of "fcTimeout fc"]
    by (simp add: server_good_def server_applyDefaults_def Let_def DefaultLogLevel_def DefaultServerPort_def h2_defaults)
  show "server_good fc \<Longrightarrow> server_applyDefaults fc = fc" for fc :: "'a FileConfig"
    using base_timeout.norm_good [of "fcTimeout fc"] by (simp add: server_good_def server_applyDefaults_def Let_def)
qed

text \<open>
  C37. A configuration that the server accepts can be run as it is. Its port, frame size and windows are in
  the ranges of the protocol and its timeout is in the program's; every method it allows is known, and
  there is one; the certificate comes from two files or the host is named, and an IP address that
  needs a certificate is a public IPv4 one; and the address it listens on splits into its bind address
  and its port.
\<close>

theorem server_config_sound:
  assumes "server_LoadConfig fs lookupPort json = Inr fc" "\<And>d p. d \<noteq> [] \<Longrightarrow> fsJoin fs d p \<noteq> []"
  shows "1 \<le> svPort (fcServer fc) \<and> svPort (fcServer fc) \<le> 65535 \<and> 15 \<le> fcTimeout fc \<and> fcTimeout fc \<le> 60 \<and>
    h2MinMaxFrameSize \<le> hcMaxFrameSize (fcTransport fc) \<and> hcMaxFrameSize (fcTransport fc) \<le> h2MaxMaxFrameSize \<and>
    h2MinRecvBufConn \<le> hcRecvBufConn (fcTransport fc) \<and> hcRecvBufConn (fcTransport fc) \<le> MaxInt32 \<and>
    h2MinRecvBufStream \<le> hcRecvBufStream (fcTransport fc) \<and> hcRecvBufStream (fcTransport fc) \<le> MaxInt32 \<and>
    GetAllowedMethods (fcServer fc) \<noteq> [] \<and> (\<forall>name \<in> set (GetAllowedMethods (fcServer fc)). MethodFromString name \<noteq> 0) \<and>
    (UsesManualCertificate fc \<or> svHost (fcServer fc) \<noteq> [] \<and> (case netip_ParseAddr (svHost (fcServer fc)) of
       None \<Rightarrow> CHR '':'' \<notin> set (svHost (fcServer fc)) | Some a \<Rightarrow> length a = 4 \<and> \<not> IsLANIP (svHost (fcServer fc)))) \<and>
    SplitHostPort (ListenAddr (fcServer fc)) = Some (svBind (fcServer fc), int_text (svPort (fcServer fc)))"
proof -
  obtain fc0 where v: "FileConfig_Validate (server_applyDefaults fc0) = Inr ()" and fc: "fc = server_ResolveFilePaths fs (server_applyDefaults fc0)"
    using assms by (auto simp: server_LoadConfig_def Let_def split: sum.splits prod.splits if_splits)
  let ?f = "server_applyDefaults fc0"
  have g: "server_good ?f" by (rule server_defaults.good_norm)
  have same: "svPort (fcServer fc) = svPort (fcServer ?f)" "svBind (fcServer fc) = svBind (fcServer ?f)" "fcTimeout fc = fcTimeout ?f"
    "fcTransport fc = fcTransport ?f" "svAllowedMethods (fcServer fc) = svAllowedMethods (fcServer ?f)"
    by (simp_all add: fc server_ResolveFilePaths_def)
  have a: "validateAllowedMethods ?f = Inr ()" and t: "validateTransport ?f = Inr ()" and c: "validateTLS ?f = Inr ()" and l: "validateListenOrDefault ?f = Inr ()"
    using v by (auto simp: FileConfig_Validate_def split: sum.splits)
  have m: "GetAllowedMethods (fcServer fc) \<noteq> []" "\<forall>name \<in> set (GetAllowedMethods (fcServer fc)). MethodFromString name \<noteq> 0"
    using a by (auto simp: GetAllowedMethods_def same validateAllowedMethods_def DefaultAllowedMethods_def Method_String_def MethodFromString_def split: if_splits)
  have "ResolvePath fs q = [] \<longleftrightarrow> q = []" for q using assms(2) by (simp add: ResolvePath_def)
  then have e: "UsesManualCertificate fc = UsesManualCertificate ?f" "svHost (fcServer fc) = svHost (fcServer ?f)"
    by (simp_all add: fc server_ResolveFilePaths_def UsesManualCertificate_def)
  have d: "UsesManualCertificate ?f \<or> svHost (fcServer ?f) \<noteq> [] \<and> (case netip_ParseAddr (svHost (fcServer ?f)) of
       None \<Rightarrow> CHR '':'' \<notin> set (svHost (fcServer ?f)) | Some a \<Rightarrow> length a = 4 \<and> \<not> IsLANIP (svHost (fcServer ?f)))"
    using c by (auto simp: validateTLS_def UsesManualCertificate_def Let_def split: if_splits option.splits)
  have tls: "UsesManualCertificate fc \<or> svHost (fcServer fc) \<noteq> [] \<and> (case netip_ParseAddr (svHost (fcServer fc)) of
       None \<Rightarrow> CHR '':'' \<notin> set (svHost (fcServer fc)) | Some a \<Rightarrow> length a = 4 \<and> \<not> IsLANIP (svHost (fcServer fc)))" unfolding e by (rule d)
  have p: "1 \<le> svPort (fcServer ?f)" "svPort (fcServer ?f) \<le> 65535" "CHR ''['' \<notin> set (svBind (fcServer ?f))" "CHR '']'' \<notin> set (svBind (fcServer ?f))"
    using l g by (auto simp: validateListenOrDefault_def validateListenEndpoint_def server_good_def split: if_splits)
  have "SplitHostPort (ListenAddr (fcServer fc)) = Some (svBind (fcServer fc), int_text (svPort (fcServer fc)))"
    using split_join [OF p(3,4) int_text_plain] p(1) by (simp add: ListenAddr_def same)
  moreover have "h2MinMaxFrameSize \<le> hcMaxFrameSize (fcTransport ?f) \<and> hcMaxFrameSize (fcTransport ?f) \<le> h2MaxMaxFrameSize \<and>
    h2MinRecvBufConn \<le> hcRecvBufConn (fcTransport ?f) \<and> hcRecvBufConn (fcTransport ?f) \<le> MaxInt32 \<and>
    h2MinRecvBufStream \<le> hcRecvBufStream (fcTransport ?f) \<and> hcRecvBufStream (fcTransport ?f) \<le> MaxInt32"
    using t g by (auto simp: validateTransport_def server_good_def Let_def split: if_splits)
  ultimately show ?thesis using m p g same tls by (simp add: server_good_def)
qed

section \<open>The client\<close>

definition local_good :: "LocalConfig \<Rightarrow> bool" where
  "local_good l \<longleftrightarrow> 1280 \<le> loTunMTU l \<and> loTunMTU l \<le> 9000 \<and> (loSocksPort l > 0 \<longrightarrow> loHTTPPort l \<noteq> 0)"

definition transport_good :: "TransportConfig \<Rightarrow> bool" where
  "transport_good t \<longleftrightarrow> tcProtocol t \<noteq> [] \<and> 2 \<le> tcConnCountMax t \<and> tcConnCountMax t \<le> 64 \<and>
     1 \<le> tcStreamThreshold t \<and> tcStreamThreshold t \<le> 64 \<and> 0 < tcConnMaxBytes t"

interpretation transport_defaults: normaliser normalize_transport transport_good
  by unfold_locales (auto simp: transport_good_def normalize_transport_def Let_def client_defaults)

interpretation profile_defaults: normaliser normalize_profile "\<lambda>p. spPort p \<noteq> 0 \<and> spMethod p \<noteq> []"
  by unfold_locales (auto simp: normalize_profile_def client_defaults)

definition client_good :: "'sh ClientConfig \<Rightarrow> bool" where
  "client_good c \<longleftrightarrow> 15 \<le> ccTimeout c \<and> ccTimeout c \<le> 60 \<and> local_good (ccLocal c) \<and> transport_good (ccTransport c) \<and>
     rcProxyRule (ccRouting c) \<noteq> [] \<and> rcIPV6Rule (ccRouting c) \<noteq> [] \<and> lcLevel (ccLog c) \<noteq> [] \<and>
     (\<forall>s \<in> set (ccServers c). \<exists>p. s = Some p \<and> spPort p \<noteq> 0 \<and> spMethod p \<noteq> [])"

lemma applyDefaults_good:
  assumes "client_applyDefaults c = Inr c'"
  shows "client_good c'"
proof -
  have n: "None \<notin> set (ccServers c)" using assms by (auto simp: client_applyDefaults_def split: if_splits)
  have f: "ccTimeout c' = NormalizeTimeout (ccTimeout c)" "ccTransport c' = normalize_transport (ccTransport c)"
    "ccLocal c' = normalizeHTTPPort ((ccLocal c)\<lparr>loTunMTU := NormalizeTunMTU (loTunMTU (ccLocal c))\<rparr>)"
    "ccServers c' = map (map_option normalize_profile) (ccServers c)"
    "rcProxyRule (ccRouting c') \<noteq> []" "rcIPV6Rule (ccRouting c') \<noteq> []" "lcLevel (ccLog c') \<noteq> []"
    using assms n by (auto simp: client_applyDefaults_def client_defaults split: if_splits)
  have l: "local_good (ccLocal c')"
    using tun_mtu.good_norm [of "loTunMTU (ccLocal c)"] by (auto simp: f local_good_def normalizeHTTPPort_def client_defaults)
  have "\<exists>p. s = Some p \<and> spPort p \<noteq> 0 \<and> spMethod p \<noteq> []" if "s \<in> set (ccServers c')" for s
  proof -
    obtain q where "s = Some (normalize_profile q)" using \<open>s \<in> set (ccServers c')\<close> n by (auto simp: f) (metis not_None_eq option.simps(9))
    then show ?thesis using profile_defaults.good_norm [of q] by simp
  qed
  then show ?thesis using l f base_timeout.good_norm [of "ccTimeout c"] transport_defaults.good_norm [of "ccTransport c"]
    by (simp add: client_good_def)
qed

lemma good_applyDefaults: "client_good c \<Longrightarrow> client_applyDefaults c = Inr c"
proof -
  assume g: "client_good c"
  have n: "None \<notin> set (ccServers c)" using g by (auto simp: client_good_def)
  have s: "map (map_option normalize_profile) (ccServers c) = ccServers c"
    using g profile_defaults.norm_good by (intro map_idI) (auto simp: client_good_def)
  have l: "normalizeHTTPPort ((ccLocal c)\<lparr>loTunMTU := NormalizeTunMTU (loTunMTU (ccLocal c))\<rparr>) = ccLocal c"
    using g tun_mtu.norm_good [of "loTunMTU (ccLocal c)"] by (auto simp: client_good_def local_good_def normalizeHTTPPort_def)
  have o: "normalize_transport (ccTransport c) = ccTransport c" "NormalizeTimeout (ccTimeout c) = ccTimeout c"
    using g transport_defaults.norm_good base_timeout.norm_good by (auto simp: client_good_def)
  show ?thesis using g n s l o by (simp add: client_applyDefaults_def client_good_def)
qed

lemma http_port_normal:
  "loTunMTU (normalizeHTTPPort l) = loTunMTU l" "0 < loSocksPort (normalizeHTTPPort l) \<Longrightarrow> loHTTPPort (normalizeHTTPPort l) \<noteq> 0"
  by (auto simp: normalizeHTTPPort_def client_defaults split: if_splits)

lemma overrides_good:
  assumes "client_good c" "ApplySimpleOverrides js s c = (None, c')"
  shows "client_good c' \<and> validateServers c' = Inr ()"
proof -
  have f: "ccTimeout c' = (if scTimeout s > 0 then NormalizeTimeout (scTimeout s) else ccTimeout c)" "ccTransport c' = ccTransport c"
      "ccServers c' = override_servers s c" "rcProxyRule (ccRouting c') = keep_str (scProxyRule s) (rcProxyRule (ccRouting c))"
      "rcIPV6Rule (ccRouting c') = keep_str (scIPV6Rule s) (rcIPV6Rule (ccRouting c))" "lcLevel (ccLog c') = keep_str (scLogLevel s) (lcLevel (ccLog c))"
      "\<exists>l. ccLocal c' = normalizeHTTPPort l \<and> loTunMTU l = (if scTunMTU s > 0 then NormalizeTunMTU (scTunMTU s) else loTunMTU (ccLocal c))"
      "validateServers c' = Inr ()"
    using assms(2) by (auto simp: ApplySimpleOverrides_def Let_def split: sum.splits)
  have l: "local_good (ccLocal c')"
  proof -
    obtain l where "ccLocal c' = normalizeHTTPPort l" "loTunMTU l = (if scTunMTU s > 0 then NormalizeTunMTU (scTunMTU s) else loTunMTU (ccLocal c))"
      using f(7) by blast
    then show ?thesis using assms(1) tun_mtu.good_norm [of "scTunMTU s"] http_port_normal [of l]
      by (auto simp: client_good_def local_good_def)
  qed
  have "\<exists>p. x = Some p \<and> spPort p \<noteq> 0 \<and> spMethod p \<noteq> []" if "x \<in> set (ccServers c')" for x
  proof -
    have "x \<in> set (ccServers c) \<or> (\<exists>y \<in> set (ccServers c). x = map_option (override_profile s) y)"
    proof (cases "DefaultServerIndex c < length (ccServers c)")
      case True
      let ?y = "ccServers c ! DefaultServerIndex c"
      have "x \<in> set ((ccServers c)[DefaultServerIndex c := map_option (override_profile s) ?y])"
        using that True by (simp add: f override_servers_def Let_def)
      then have "x \<in> insert (map_option (override_profile s) ?y) (set (ccServers c))" using set_update_subset_insert by (rule subsetD [rotated])
      then show ?thesis using nth_mem [OF True] by blast
    next
      case False
      then show ?thesis using that by (simp add: f override_servers_def Let_def)
    qed
    then show ?thesis using assms(1) by (force simp: client_good_def override_profile_def keep_str_def keep_pos_def)
  qed
  then show ?thesis using f l assms(1) base_timeout.good_norm [of "scTimeout s"] by (auto simp: client_good_def keep_str_def)
qed

lemma main_config_good:
  assumes "main_config js shaping probe simple sc text = Inr c"
  shows "client_good c \<and> validateServers c = Inr ()"
proof (cases "client_LoadConfig js shaping probe simple text")
  case (Inl err)
  then obtain c0 where "client_applyDefaults c0 = Inr c" "validateServers c = Inr ()"
    using assms by (auto simp: main_config_def BuildSimpleConfig_def Let_def split: sum.splits if_splits)
  then show ?thesis using applyDefaults_good by blast
next
  case (Inr c1)
  then obtain c0 where "client_applyDefaults c0 = Inr c1"
    by (auto simp: client_LoadConfig_def BuildSimpleConfig_def ParseConfigJSON_def Let_def split: sum.splits prod.splits if_splits)
  then have "client_good c1" by (rule applyDefaults_good)
  then show ?thesis using overrides_good assms Inr by (auto simp: main_config_def split: prod.splits option.splits)
qed

text \<open>
  C38. The client starts with a normal configuration. However it gets it, from a full file or one in the
  simple form with the arguments over it, or from the arguments alone: its timeout, its MTU and the shape of
  its pool are in range, the HTTP entrance has a port when the SOCKS entrance has one, every server has a
  host without a port, a port and a method, applying the defaults again changes nothing, and the address
  of a server whose host has no brackets splits into its host and its port. A host with brackets, such
  as \<open>[1.2.3.4]\<close>, is accepted as well, and nothing is said of its address.
\<close>

theorem client_config_normal:
  assumes "main_config js shaping probe simple sc text = Inr c"
  shows "client_good c \<and> client_applyDefaults c = Inr c \<and>
    (\<forall>s \<in> set (ccServers c). \<exists>p. s = Some p \<and> spHost p \<noteq> [] \<and> (netip_ParseAddr (spHost p) = None \<longrightarrow> CHR '':'' \<notin> set (spHost p)) \<and>
       (CHR ''['' \<notin> set (spHost p) \<and> CHR '']'' \<notin> set (spHost p) \<longrightarrow> SplitHostPort (serverAddr p) = Some (spHost p, int_text (spPort p))))"
proof -
  have g: "client_good c" "validateServers c = Inr ()" using main_config_good [OF assms] by auto
  have "\<exists>p. s = Some p \<and> spHost p \<noteq> [] \<and> (netip_ParseAddr (spHost p) = None \<longrightarrow> CHR '':'' \<notin> set (spHost p)) \<and>
       (CHR ''['' \<notin> set (spHost p) \<and> CHR '']'' \<notin> set (spHost p) \<longrightarrow> SplitHostPort (serverAddr p) = Some (spHost p, int_text (spPort p)))"
    if "s \<in> set (ccServers c)" for s
  proof -
    have "valid_server s" using g(2) that by (auto simp: validateServers_def list_all_iff split: if_splits)
    then show ?thesis using split_join [OF _ _ int_text_plain] by (auto simp: valid_server_def serverAddr_def split: option.splits)
  qed
  then show ?thesis using g(1) good_applyDefaults [OF g(1)] by blast
qed

text \<open>
  A null entry in the list of servers is not reported: the defaults are applied first, and reading the
  entry is a panic, before the check that names it can run.
\<close>

theorem null_server_panics:
  assumes "jsClient js s = Inr (c, raws)" "unmarshal_all raws = Inr ss" "None \<in> set ss"
  shows "ParseConfigJSON js s = Inl (Panic ''nil pointer dereference'') \<and> validateServers (c\<lparr>ccServers := ss\<rparr>) = Inl (Msg ''servers[]'')"
proof -
  have "\<not> list_all valid_server ss" using assms(3) by (auto simp: list_all_iff valid_server_def intro!: bexI [of _ None])
  then show ?thesis using assms by (simp add: ParseConfigJSON_def json_client_def client_applyDefaults_def validateServers_def)
qed

text \<open>
  The port of the HTTP entrance follows that of the SOCKS entrance only when the file is read: once it
  has been derived, overriding the SOCKS port leaves it where it was.
\<close>

theorem override_keeps_http_port:
  assumes "loHTTPPort (ccLocal c) \<noteq> 0" "scHTTPPort s \<le> 0" "0 < scLocalPort s" "ApplySimpleOverrides js s c = (None, c')"
  shows "loSocksPort (ccLocal c') = scLocalPort s \<and> loHTTPPort (ccLocal c') = loHTTPPort (ccLocal c)"
  using assms by (auto simp: ApplySimpleOverrides_def Let_def normalizeHTTPPort_def keep_pos_def split: sum.splits if_splits)

text \<open>Choosing a server in the list: it becomes the default one, and the only one.\<close>

lemma first_index_nth: "first_index P xs = Some i \<longleftrightarrow> i < length xs \<and> P (xs ! i) \<and> (\<forall>j < i. \<not> P (xs ! j))"
proof (induction xs arbitrary: i)
  case (Cons x xs)
  show ?case using Cons by (cases i) (auto simp: less_Suc_eq_0_disj)
qed simp

lemma find_first_index: "find P xs = map_option ((!) xs) (first_index P xs)"
  by (induction xs) (auto simp: option.map_comp comp_def)

theorem chosen_server_is_default:
  assumes "i < length (ccServers c)" "ccServers c ! i = Some p"
  shows "DefaultServerIndex (SetDefaultServerIndex i c) = i \<and> DefaultServer (SetDefaultServerIndex i c) = Some (p\<lparr>spDefault := True\<rparr>) \<and>
    (\<forall>j < length (ccServers c). j \<noteq> i \<longrightarrow> \<not> is_default (ccServers (SetDefaultServerIndex i c) ! j)) \<and>
    ServerListAddrs (SetDefaultServerIndex i c) = ServerListAddrs c"
proof -
  let ?c = "SetDefaultServerIndex i c"
  have n: "ccServers ?c ! j = map_option (\<lambda>p. p\<lparr>spDefault := (j = i)\<rparr>) (ccServers c ! j)" if "j < length (ccServers c)" for j
    using that by (simp add: SetDefaultServerIndex_def)
  have l: "length (ccServers ?c) = length (ccServers c)" by (simp add: SetDefaultServerIndex_def)
  have d: "is_default (ccServers ?c ! j) \<longleftrightarrow> j = i \<and> ccServers c ! j \<noteq> None" if "j < length (ccServers c)" for j
    using n [OF that] by (cases "ccServers c ! j") (auto simp: is_default_def)
  have f: "first_index is_default (ccServers ?c) = Some i" unfolding first_index_nth using assms l d by auto
  have "ServerListAddrs ?c = ServerListAddrs c"
  proof (rule nth_equalityI)
    show "length (ServerListAddrs ?c) = length (ServerListAddrs c)" by (simp add: ServerListAddrs_def l)
    fix j assume "j < length (ServerListAddrs ?c)"
    then have j: "j < length (ccServers c)" by (simp add: ServerListAddrs_def l)
    show "ServerListAddrs ?c ! j = ServerListAddrs c ! j"
      using n [OF j] j l by (cases "ccServers c ! j") (simp_all add: ServerListAddrs_def serverAddr_def)
  qed
  then show ?thesis using f d n [OF assms(1)] assms by (auto simp: DefaultServerIndex_def DefaultServer_def find_first_index)
qed

section \<open>Examples\<close>

definition demo_fs :: file_system where
  "demo_fs = \<lparr>fsIsAbs = (\<lambda>p. HasPrefix p ''/''), fsExists = (\<lambda>_. False), fsDir = ''/opt'', fsJoin = (\<lambda>d p. d @ ''/'' @ p)\<rparr>"

definition demo_server_conf :: "unit FileConfig" where
  "demo_server_conf = \<lparr>fcConfigVersion = 3, fcServer = \<lparr>svHost = ''example.org'', svPort = 0, svBind = ''::1'', svPassword = ''p'', svAllowedMethods = [],
     svCertPath = [], svKeyPath = [], svEmail = []\<rparr>, fcFallback = \<lparr>fkTarget = [], fkPreserveHost = False, fkCDNDomains = []\<rparr>, fcShaper = (),
     fcTransport = \<lparr>hcMaxFrameSize = 0, hcRecvBufConn = 0, hcRecvBufStream = 0\<rparr>,
     fcNextProxy = \<lparr>nxURL = [], nxNextProxyFile = [], nxEnableUDP = False, nxAllHost = False\<rparr>, fcLog = \<lparr>lcLevel = [], lcFilePath = []\<rparr>,
     fcPprofEnabled = False, fcTimeout = 0\<rparr>"

theorem server_config_sound_witness:
  "\<exists>fc. server_LoadConfig demo_fs (\<lambda>_. None) (Inr (demo_server_conf, [], [])) = Inr fc \<and>
     SplitHostPort (ListenAddr (fcServer fc)) = Some (svBind (fcServer fc), int_text (svPort (fcServer fc)))"
proof -
  have "\<not> isl (server_LoadConfig demo_fs (\<lambda>_. None) (Inr (demo_server_conf, [], [])))" by code_simp
  then obtain fc where f: "server_LoadConfig demo_fs (\<lambda>_. None) (Inr (demo_server_conf, [], [])) = Inr fc"
    by (cases "server_LoadConfig demo_fs (\<lambda>_. None) (Inr (demo_server_conf, [], []))") auto
  have j: "d \<noteq> [] \<Longrightarrow> fsJoin demo_fs d p \<noteq> []" for d p by (simp add: demo_fs_def)
  show ?thesis using server_config_sound [OF f j] f by blast
qed

definition demo_profile :: ServerProfile where
  "demo_profile = \<lparr>spHost = ''2001:db8::1'', spPort = 0, spPassword = ''p'', spMethod = [], spSNI = [], spCAPath = [], spDefault = False, spName = []\<rparr>"

definition demo_client_conf :: "unit ClientConfig" where
  "demo_client_conf = \<lparr>ccConfigVersion = 3, ccServers = [], ccLocal = \<lparr>loSocksPort = 4080, loHTTPPort = 0, loBindAll = False, loDisableSysProxy = False,
     loEnableForwardDNS = False, loEnableTun2socks = False, loEnableQUIC = False, loTunMTU = 0, loTunConfig = []\<rparr>,
     ccRouting = \<lparr>rcProxyRule = [], rcIPV6Rule = [], rcDirectFile = [], rcProxyFile = []\<rparr>,
     ccTransport = \<lparr>tcProtocol = [], tcConnCountMax = 0, tcStreamThreshold = 0, tcConnMaxBytes = 0\<rparr>, ccShaper = (), ccLog = \<lparr>lcLevel = [], lcFilePath = []\<rparr>,
     ccTimeout = 0, ccAuthUsername = [], ccAuthPassword = [], ccPprofEnabled = False\<rparr>"

definition demo_json :: "(ServerProfile \<times> string) option list \<Rightarrow> unit json_lib" where
  "demo_json raws = \<lparr>jsClient = (\<lambda>_. Inr (demo_client_conf, raws)), jsTun = (\<lambda>_. Inr ([], False))\<rparr>"

definition no_overrides :: SimpleConfig where
  "no_overrides = \<lparr>scServer = [], scServerPort = 0, scSPassword = [], scMethod = [], scSN = [], scCAPath = [], scLocalPort = 0, scHTTPPort = 0,
     scBindAll = False, scDisableSysProxy = False, scEnableForwardDNS = False, scEnableTun2socks = False, scEnableQUIC = False, scTunMTU = 0,
     scProxyRule = [], scIPV6Rule = [], scDirectFile = [], scProxyFile = [], scTimeout = 0, scLogLevel = [], scLogFilePath = [],
     scTunConfig = [], scOutboundProto = []\<rparr>"

theorem client_config_normal_witness:
  "\<exists>c p. main_config (demo_json [Some (demo_profile, [])]) () (\<lambda>_. Inr (3, 1)) (\<lambda>_. Inl io_EOF) (no_overrides\<lparr>scLocalPort := 7000\<rparr>) (Inr ''x'') = Inr c \<and>
     client_good c \<and> loSocksPort (ccLocal c) = 7000 \<and>
     ccServers c = [Some p] \<and> SplitHostPort (serverAddr p) = Some (''2001:db8::1'', int_text (spPort p))"
proof -
  let ?l = "main_config (demo_json [Some (demo_profile, [])]) () (\<lambda>_. Inr (3, 1)) (\<lambda>_. Inl io_EOF) (no_overrides\<lparr>scLocalPort := 7000\<rparr>) (Inr ''x'')"
  have "\<not> isl ?l \<and> map (map_option spHost) (ccServers (projr ?l)) = [Some ''2001:db8::1''] \<and> loSocksPort (ccLocal (projr ?l)) = 7000" by code_simp
  then obtain c p where c: "?l = Inr c" "ccServers c = [Some p]" "spHost p = ''2001:db8::1''" "loSocksPort (ccLocal c) = 7000" by (cases ?l) auto
  have "SplitHostPort (serverAddr p) = Some (spHost p, int_text (spPort p))" using client_config_normal [OF c(1)] c(2,3) by simp
  then show ?thesis using client_config_normal [OF c(1)] c by auto
qed

theorem null_server_panics_witness: "ParseConfigJSON (demo_json [None]) ''x'' = Inl (Panic ''nil pointer dereference'')"
  using null_server_panics [of "demo_json [None]" "''x''" demo_client_conf "[None]" "[None]"] by (simp add: demo_json_def)

theorem override_keeps_http_port_witness:
  "\<exists>c'. ApplySimpleOverrides (demo_json []) (no_overrides\<lparr>scLocalPort := 7000\<rparr>)
      (demo_client_conf\<lparr>ccServers := [Some demo_profile], ccLocal := (ccLocal demo_client_conf)\<lparr>loHTTPPort := 5080\<rparr>\<rparr>) = (None, c') \<and>
     loSocksPort (ccLocal c') = 7000 \<and> loHTTPPort (ccLocal c') = 5080"
proof -
  let ?c = "demo_client_conf\<lparr>ccServers := [Some demo_profile], ccLocal := (ccLocal demo_client_conf)\<lparr>loHTTPPort := 5080\<rparr>\<rparr>"
  have "fst (ApplySimpleOverrides (demo_json []) (no_overrides\<lparr>scLocalPort := 7000\<rparr>) ?c) = None" by code_simp
  then obtain c' where a: "ApplySimpleOverrides (demo_json []) (no_overrides\<lparr>scLocalPort := 7000\<rparr>) ?c = (None, c')" by (metis prod.collapse)
  have "loHTTPPort (ccLocal ?c) \<noteq> 0" "scHTTPPort (no_overrides\<lparr>scLocalPort := 7000\<rparr>) \<le> 0" "0 < scLocalPort (no_overrides\<lparr>scLocalPort := 7000\<rparr>)"
    by (simp_all add: no_overrides_def)
  from override_keeps_http_port [OF this a] show ?thesis using a by simp
qed

theorem chosen_server_is_default_witness:
  "DefaultServerIndex (SetDefaultServerIndex 1 (demo_client_conf\<lparr>ccServers := [Some demo_profile, Some demo_profile]\<rparr>)) = 1"
  using chosen_server_is_default [of 1 "demo_client_conf\<lparr>ccServers := [Some demo_profile, Some demo_profile]\<rparr>" demo_profile] by simp

end
