(* ===== verification/Spec2Isabelle.thy ===== *)
theory Spec2Isabelle
  imports CoverTraffic H2Streams Icmp UdpAssociate Agreement DirectUdp FallbackRewriting Configs
begin

text \<open>
  A verification development of \<open>easyss\<close> (\<open>src/\<close>), a proxy in Go whose client carries the connections of
  local programs through HTTP/2 streams to its server. This theory only collects the others; every
  component has its own.

  \<^bold>\<open>The program.\<close> On the client, programs connect to a SOCKS5 or an HTTP entrance. The router decides for
  each host whether it is blocked, reached directly or through the tunnel; DNS queries are taken out and
  answered according to the name they ask for. A tunnelled connection is a stream of the HTTP/2
  transport, which keeps a pool of connections, watches their health and replaces them. The first
  record of a stream is encrypted under a key that is derived from the master key and a fresh salt and
  carries the handshake; later records use session keys. Frames are batched, padded and mixed with cover
  traffic by the shaper, which writes records. The server lets a request pass only if it is such a
  handshake, shows everything else a fallback site, and relays the stream to a TCP, UDP or ICMP target,
  directly or through an upstream proxy.

  \<^bold>\<open>Theories and sources.\<close> Theories of a definition part have the records, datatypes and operations in the
  order of the code and under its names; those of a theorem part the lemmas about them. Names that HOL
  uses already, or that several Go types share, have a prefix of the component (\<open>np_AddIP\<close>, \<open>udp_Handle\<close>).

  \<^item> \<open>Prelude\<close>: bytes, byte orders, Go's errors and results, \<open>outcome\<close> (a result or a panic), the reachable
    states of a step relation, the collections of simplification rules.
  \<^item> \<open>Config\<close>, \<open>Configs\<close>: \<open>config/\<close>, \<open>client/config/\<close>, \<open>server/config/\<close> --- timeouts, defaults, checks, both forms of
    the client's file, overrides, and how \<open>cmd/easyss/main.go\<close> puts file and arguments together.
  \<^item> \<open>Protocol\<close>: \<open>protocol/frame.go\<close> --- frames and the handshake.
  \<^item> \<open>Bytespool\<close>, \<open>Stats\<close>: \<open>util/bytespool/\<close>, \<open>util/netbuf/\<close>, \<open>stats/\<close> --- pooled buffers as references into an
    allocator with dirty contents; counters and the meter of a stream.
  \<^item> \<open>Crypto\<close>, \<open>Records\<close>: \<open>crypto/\<close> --- nonces, keys, records, the reader of frames.
  \<^item> \<open>Shaper\<close>, \<open>Shaping\<close>, \<open>CoverTraffic\<close>: \<open>shaper/\<close> --- batching, padding, the order of records written by several
    goroutines, the budget of cover traffic.
  \<^item> \<open>H2Slot\<close>, \<open>H2Claims\<close>, \<open>H2Scheduler\<close>, \<open>H2Scheduling\<close>, \<open>H2Lifecycle\<close>, \<open>H2Health\<close>, \<open>H2Stream\<close>, \<open>H2Client\<close>,
    \<open>H2Streams\<close>: \<open>transport/http2/\<close> --- slots and generations of connections, who may close one, the tiered
    scheduler, the health loop, streams, and the transport as a whole.
  \<^item> \<open>Hosts\<close>, \<open>Rules\<close>, \<open>Matching\<close>, \<open>Router\<close>, \<open>Routing\<close>: \<open>rule/\<close>, \<open>client/router/\<close>, \<open>client/proxy/route.go\<close>,
    \<open>udp_route_cache.go\<close>, \<open>util/net.go\<close> --- host names, rule files, what they match, decisions and their cache.
  \<^item> \<open>ServerGate\<close>, \<open>Gate\<close>: \<open>server/handler/serve.go\<close>, \<open>handler.go\<close>, \<open>saltcache.go\<close>, \<open>ratelimit.go\<close>,
    \<open>resolve_cache.go\<close>, \<open>probe.go\<close> --- what a request has to pass.
  \<^item> \<open>Relay\<close>, \<open>Copying\<close>, \<open>Delivery\<close>, \<open>Outbound\<close>, \<open>Dialing\<close>, \<open>ServerSession\<close>: \<open>relay/\<close>, \<open>server/handler/tcp.go\<close>,
    \<open>session.go\<close>, \<open>stream.go\<close> --- the two copying directions, dialling of targets, the TCP handler with both
    directions under its relay (\<open>tcp_serve\<close>), the end of a session.
  \<^item> \<open>Bootstrap\<close>, \<open>Opening\<close>, \<open>Datagrams\<close>: \<open>client/proxy/stream.go\<close> --- opening a stream with retries, UDP exchanges.
  \<^item> \<open>NextProxy\<close>, \<open>UdpAssociate\<close>: \<open>server/nextproxy/\<close> --- rules and dialling of the upstream proxy, associations.
  \<^item> \<open>UdpSession\<close>, \<open>UdpFlow\<close>, \<open>UdpTunnel\<close>, \<open>Icmp\<close>: \<open>server/handler/udp.go\<close>, \<open>udp_dns.go\<close>, \<open>icmp.go\<close>; \<open>Icmp\<close> also has the
    three handlers together (\<open>server_handlers\<close>), as \<open>serveSession\<close> calls them.
  \<^item> \<open>DnsMsg\<close>, \<open>DnsCache\<close>, \<open>DnsResolve\<close>, \<open>DnsFallback\<close>: \<open>client/dns/\<close>, \<open>util/dnsutil.go\<close> --- caches, the breaker over the
    resolvers, resolution of the server's name within a budget.
  \<^item> \<open>Interceptor\<close>, \<open>Interception\<close>, \<open>DnsTcp\<close>, \<open>DnsSessions\<close>: \<open>client/proxy/dns.go\<close>, \<open>dns_exec.go\<close>, \<open>dns_udp.go\<close>, \<open>dns_tcp.go\<close>,
    \<open>dnstcp.go\<close> --- queries taken out of datagrams and of connections to port 53.
  \<^item> \<open>UdpPool\<close>, \<open>DirectUdp\<close>: \<open>client/proxy/udp_pool.go\<close> --- tunnelled exchanges and direct sessions.
  \<^item> \<open>Socks5\<close>, \<open>HttpProxy\<close>, \<open>Entrances\<close>, \<open>Agreement\<close>: \<open>client/proxy/socks5.go\<close>, \<open>socks5_lifecycle.go\<close>, \<open>udp.go\<close>,
    \<open>http_proxy.go\<close> --- the two entrances, and that they agree.
  \<^item> \<open>Fallback\<close>, \<open>FallbackSite\<close>, \<open>FallbackProxy\<close>, \<open>FallbackRewriting\<close>: \<open>server/handler/fallback.go\<close>,
    \<open>fallback_random.go\<close>, \<open>fallback_http.go\<close>, \<open>fallback_proxy.go\<close> --- the generated site, a directory of pages,
    the reverse proxy.

  \<^bold>\<open>State, effects and errors.\<close> A Go struct is a record and an operation a function that returns the changed
  record; errors are values of \<open>go_error\<close> in a sum, and an operation that can panic returns an \<open>outcome\<close>.
  Shared resources (sockets, exchanges, connections, buffers) are numbers, and what is opened, written and
  closed is kept as a list of events, over which the statements about leaks and order are made. Where
  goroutines share state under a lock, one step of an inductive relation is one critical section, and a
  property holds in all reachable states. Integers are words where the code relies on their width (the
  nonce counter, record lengths, identifiers of ICMP) and \<open>int\<close> where the code bounds them before use.

  \<^bold>\<open>Interfaces.\<close> \<open>prefix_codec\<close> (a format whose values can be read one after the other) is interpreted by the frames;
  \<open>step_invariant\<close> by every step relation; \<open>normaliser\<close> (a result in range, which is kept when normalised again) by
  the timeouts, the MTU and the defaults of both configurations; \<open>buffer_pool\<close> by the allocator;
  \<open>shaper_predicate\<close> and \<open>pool_predicate\<close> collect what a predicate must survive for all operations of the shaper and of
  the scheduler to keep it, and are interpreted by the invariants; \<open>frame_sender\<close> is what the copying loops rely
  on of a shaper and \<open>reset_sender\<close> extends it by the reset of a session; both are interpreted by the shaper itself.

  \<^bold>\<open>What is shown.\<close> End to end: what a local program sends arrives at the target and what the target sends
  arrives at the program, byte for byte, through copying, shaping, encryption and prefetching (\<open>Opening\<close>,
  \<open>Delivery\<close>); datagrams arrive whole and in order in both directions (\<open>UdpTunnel\<close>). The tunnel: no nonce is used
  twice, only records of the peer are accepted and in their order, only an authentic handshake with a
  fresh salt passes, and a genuine one does. The shaper delivers everything and never panics. Resources:
  streams, exchanges, sockets, connections and buffers are accounted for on every path, errors included.
  Policy: hosts go where the rules send them through either entrance, queries go where their names send
  them, no local address is dialled for a client, and the reverse proxy reaches configured hosts only.
  Errors: a client learns how its stream ended, from the target's end, a failure or a dial that was refused.
  Liveness: dead connections are survived, relays return, the resolver of the system gets its turn.
  Configurations that are accepted are usable.

  \<^bold>\<open>Loops, bounds and fuel.\<close> Loops over what arrives are recursive over the list of what arrives, whose end is an
  error of the reader, as a closed or expired connection gives it; the copying and receiving loops are
  functions that terminate because every record they read takes bytes off the stream. \<open>class_loop\<close> of the
  pool, which multiplies until a size is reached, is a partial function that is shown to return. Fuel occurs
  only in the statements: \<open>read_records n\<close> and \<open>read_frames n\<close> read at most \<open>n\<close> times, and the theorems that
  use them either hold for every \<open>n\<close> or for an \<open>n\<close> with which the reader has reported the end of its stream.

  \<^bold>\<open>Parameters.\<close> Third-party and system code is an argument with the laws the code relies on as hypotheses:
  the AEAD and key derivation, random draws and the clock, \<open>net/http\<close>, the dialler and the resolver, the DNS
  and SOCKS5 libraries, the regular expressions, the GeoIP database, \<open>encoding/json\<close>, the file system and
  the texts embedded into the binary. A law that is stronger than what the library documents is only used in
  lemmas that say so (\<open>cache_faithful\<close>, \<open>cache_retains\<close>: a cache that does not evict). \<open>float64\<close> in the shaper's draws and in the share of priority slots is \<open>real\<close>. The
  witnesses instantiate these parameters with concrete functions.

  \<^bold>\<open>Not modelled.\<close> \<open>client/client.go\<close>, \<open>server/server.go\<close>, \<open>runner/\<close>: they construct the parts above and start and stop
  them over sockets, timers and certificates of other libraries. \<open>client/tun/\<close>, the rest of \<open>cmd/\<close>, \<open>selfupdate/\<close>, \<open>mobile/\<close>: devices,
  routing tables, desktop integration, installation and platform bindings, which are calls of the
  operating system. \<open>log/\<close>, \<open>pprof/\<close>, \<open>version/\<close>, \<open>client/assets/\<close>: output and data. Within modelled components: the
  averages of \<open>stats/\<close> and the colours of the generated site, which are \<open>float64\<close> arithmetic; the body of the
  throughput probe; log lines.
\<close>

end
